(* ===== verification/Prelude.thy ===== *)
theory Prelude
  imports Complex_Main "HOL-Library.AList" "HOL-Library.Char_ord"
begin

text \<open>
  The vocabulary the component theories share.

  \<^item> Python values: \<open>pyfloat\<close> (a finite float is an exact rational here; the three
    non-finite values are kept because the code tests for them), \<open>pyval\<close> (the dynamically
    typed values of JSON payloads), dictionaries as association lists in insertion order
    (\<open>AList.update\<close> replaces in place or appends, as \<open>d[k] = v\<close> does).
  \<^item> Exceptions as values: \<open>pyexc\<close>, and \<open>'a result\<close> with \<open>Inl\<close> for a raise.
  \<^item> \<open>pg_outcome\<close>: what one round trip to PostgreSQL does. A failure is seen by the client
    either before anything was committed (\<open>PgDown\<close>) or after the server committed
    (\<open>PgLost\<close>, the indeterminate COMMIT the billing code defends against).
  \<^item> \<open>pyround\<close>: Python's \<open>round(x, n)\<close>, half to even.
  \<^item> Generic locales: \<open>transition_system\<close> (reachability and invariants), \<open>insert_once\<close>
    (writers that are idempotent per key) and \<open>claimable\<close> (work queues with an atomic claim).
\<close>

section \<open>Collections of simplification rules\<close>

named_theorems status_simps \<open>the status vocabularies of the components\<close>
named_theorems op_defs \<open>definitions of state-changing operations\<close>

section \<open>Python values\<close>

datatype pyfloat = Fin rat | PosInf | NegInf | NaN

datatype pyval =
    PNone
  | PBool bool
  | PInt int
  | PFloat pyfloat
  | PStr string
  | PList "pyval list"
  | PDict "(string \<times> pyval) list"

type_synonym pydict = "(string \<times> pyval) list"

text \<open>\<open>math.isfinite\<close> and the comparison \<open>x < 0\<close> on floats (false on NaN).\<close>

fun isfinite :: "pyfloat \<Rightarrow> bool" where
  "isfinite (Fin _) = True"
| "isfinite _ = False"

fun flt0 :: "pyfloat \<Rightarrow> bool" where
  "flt0 (Fin r) = (r < 0)"
| "flt0 NegInf = True"
| "flt0 _ = False"

text \<open>\<open>d.get(k)\<close>: a missing key and a stored \<open>None\<close> read the same.\<close>

definition dict_get :: "pydict \<Rightarrow> string \<Rightarrow> pyval" where
  "dict_get d k = (case map_of d k of None \<Rightarrow> PNone | Some v \<Rightarrow> v)"

text \<open>Truthiness of an optional string (\<open>if s:\<close>): neither \<open>None\<close> nor empty.\<close>

definition truthy :: "string option \<Rightarrow> bool" where
  "truthy s = (case s of None \<Rightarrow> False | Some x \<Rightarrow> x \<noteq> [])"

lemma truthy_simps [simp]: "truthy None = False" "truthy (Some x) = (x \<noteq> [])"
  by (simp_all add: truthy_def)

text \<open>What assignment and deletion can leave in a dictionary.\<close>

lemma AList_update_set: "set (AList.update k v xs) \<subseteq> insert (k, v) (set xs)"
  by (induction xs) auto

lemma AList_delete_set: "set (AList.delete k xs) \<subseteq> set xs"
  by (simp add: AList.delete_eq)

section \<open>Exceptions and results\<close>

datatype pyexc =
    ValueError
  | TypeError
  | KeyError
  | PGUnavailableError
  | LedgerIdemMismatchError
  | CollisionError
  | OtherException string

type_synonym 'a result = "pyexc + 'a"

fun is_ok :: "'a result \<Rightarrow> bool" where
  "is_ok (Inr _) = True"
| "is_ok (Inl _) = False"

section \<open>Rounding\<close>

definition round_half_even :: "rat \<Rightarrow> int" where
  "round_half_even x =
     (let f = \<lfloor>x\<rfloor>; d = x - of_int f
      in if d < 1 / 2 then f
         else if d > 1 / 2 then f + 1
         else if even f then f else f + 1)"

definition pyround :: "nat \<Rightarrow> rat \<Rightarrow> rat" where
  "pyround n x = of_int (round_half_even (x * 10 ^ n)) / 10 ^ n"

lemma round_half_even_of_int [simp]: "round_half_even (of_int k) = k"
  by (simp add: round_half_even_def Let_def)

lemma round_half_even_bounds:
  "x - 1 / 2 \<le> of_int (round_half_even x) \<and> of_int (round_half_even x) \<le> x + 1 / 2"
proof -
  have "of_int \<lfloor>x\<rfloor> \<le> x" and "x < of_int \<lfloor>x\<rfloor> + 1"
    by linarith+
  then show ?thesis
    unfolding round_half_even_def Let_def by (simp split: if_splits) linarith
qed

lemma round_half_even_mono: "x \<le> y \<Longrightarrow> round_half_even x \<le> round_half_even y"
proof (cases "\<lfloor>x\<rfloor> = \<lfloor>y\<rfloor>")
  case True
  assume "x \<le> y"
  with True show ?thesis by (auto simp: round_half_even_def Let_def)
next
  case False
  assume xy: "x \<le> y"
  with False have lt: "\<lfloor>x\<rfloor> + 1 \<le> \<lfloor>y\<rfloor>"
    using floor_mono [OF xy] by linarith
  have "round_half_even x \<le> \<lfloor>x\<rfloor> + 1"
    by (simp add: round_half_even_def Let_def)
  moreover have "\<lfloor>y\<rfloor> \<le> round_half_even y"
    by (simp add: round_half_even_def Let_def)
  ultimately show ?thesis using lt by linarith
qed

lemma round_half_even_nonneg: "0 \<le> x \<Longrightarrow> 0 \<le> round_half_even x"
  using round_half_even_mono [of 0 x] round_half_even_of_int [of 0] by simp

lemma pyround_nonneg: "0 \<le> x \<Longrightarrow> 0 \<le> pyround n x"
  by (simp add: pyround_def round_half_even_nonneg)

lemma pyround_mono: "x \<le> y \<Longrightarrow> pyround n x \<le> pyround n y"
  by (simp add: pyround_def round_half_even_mono divide_right_mono)

lemma pyround_zero [simp]: "pyround n 0 = 0"
  using round_half_even_of_int [of 0] by (simp add: pyround_def)

lemma pyround_scaled: "pyround n (of_int k / 10 ^ n) = of_int k / 10 ^ n"
  by (simp add: pyround_def)

lemma pyround_idem [simp]: "pyround n (pyround n x) = pyround n x"
  by (simp add: pyround_def)

lemma pyround_add_scaled:
  "pyround n (of_int k / 10 ^ n + of_int l / 10 ^ n) = of_int k / 10 ^ n + of_int l / 10 ^ n"
  using pyround_scaled [of n "k + l"] by (simp add: add_divide_distrib)

lemma pyround_error: "\<bar>pyround n x - x\<bar> \<le> 1 / (2 * 10 ^ n)"
proof -
  have "\<bar>of_int (round_half_even (x * 10 ^ n)) - x * 10 ^ n\<bar> \<le> 1 / 2"
    using round_half_even_bounds [of "x * 10 ^ n"] unfolding abs_le_iff by linarith
  then have "\<bar>of_int (round_half_even (x * 10 ^ n)) - x * 10 ^ n\<bar> / 10 ^ n \<le> (1 / 2) / 10 ^ n"
    by (rule divide_right_mono) simp
  moreover have "pyround n x - x = (of_int (round_half_even (x * 10 ^ n)) - x * 10 ^ n) / 10 ^ n"
    by (simp add: pyround_def field_simps)
  ultimately show ?thesis by (simp add: abs_divide)
qed

section \<open>One round trip to PostgreSQL\<close>

datatype pg_outcome = PgOk | PgDown | PgLost

text \<open>
  A statement maps the database to the new database and its rows, or to \<open>None\<close> when it
  violates a constraint: the transaction is then rolled back and the error reaches the
  client. \<open>pg_run\<close> adds what the network can do to it.
\<close>

type_synonym ('s, 'r) stmt = "'s \<Rightarrow> ('s \<times> 'r) option"

fun pg_run :: "pg_outcome \<Rightarrow> ('s, 'r) stmt \<Rightarrow> 's \<Rightarrow> 's \<times> 'r result" where
  "pg_run PgDown f s = (s, Inl PGUnavailableError)"
| "pg_run PgOk f s =
     (case f s of None \<Rightarrow> (s, Inl PGUnavailableError) | Some (s', r) \<Rightarrow> (s', Inr r))"
| "pg_run PgLost f s =
     (case f s of None \<Rightarrow> (s, Inl PGUnavailableError) | Some (s', r) \<Rightarrow> (s', Inl PGUnavailableError))"

lemma pg_run_cases:
  "fst (pg_run oc f s) = s \<or> (\<exists>r. f s = Some (fst (pg_run oc f s), r))"
  by (cases oc) (auto split: option.splits)

lemma pg_run_preserves:
  assumes "\<And>s' r. f s = Some (s', r) \<Longrightarrow> P s'" and "P s"
  shows "P (fst (pg_run oc f s))"
  using assms by (cases oc) (auto split: option.splits)

lemma pg_run_InrD:
  "pg_run oc f s = (s', Inr r) \<Longrightarrow> oc = PgOk \<and> f s = Some (s', r)"
  by (cases oc) (auto split: option.splits)

lemma pg_run_read:
  assumes "\<And>s' r. f s = Some (s', r) \<Longrightarrow> s' = s"
  shows "fst (pg_run oc f s) = s"
  using pg_run_cases [of oc f s] assms by auto

section \<open>Transition systems and invariants\<close>

text \<open>
  A component as a state machine: initial states and a step relation. Reachability and the
  induction principle are shared by every component that is stated as a step relation.
\<close>

locale transition_system =
  fixes init :: "'s \<Rightarrow> bool"
    and step :: "'s \<Rightarrow> 's \<Rightarrow> bool"
begin

inductive reach :: "'s \<Rightarrow> bool" where
  reach_init: "init s \<Longrightarrow> reach s"
| reach_step: "reach s \<Longrightarrow> step s t \<Longrightarrow> reach t"

inductive path :: "'s \<Rightarrow> 's \<Rightarrow> bool" where
  path_refl: "path s s"
| path_step: "path s t \<Longrightarrow> step t u \<Longrightarrow> path s u"

lemma invariant_reach:
  assumes "\<And>s. init s \<Longrightarrow> I s"
    and "\<And>s t. I s \<Longrightarrow> step s t \<Longrightarrow> I t"
    and "reach s"
  shows "I s"
  using assms(3) by (induction rule: reach.induct) (auto intro: assms(1,2))

lemma path_preserves:
  assumes "path s t" and "\<And>s t. P s \<Longrightarrow> step s t \<Longrightarrow> P t" and "P s"
  shows "P t"
  using assms(1) assms(3) by (induction rule: path.induct) (auto intro: assms(2))

lemma path_rel:
  assumes "path s t" and "\<And>s. R s s" and "\<And>s t u. R s t \<Longrightarrow> step t u \<Longrightarrow> R s u"
  shows "R s t"
  using assms(1) by (induction rule: path.induct) (auto intro: assms(2,3))

end

section \<open>Refinement\<close>

text \<open>
  A concrete system simulates an abstract one when every concrete step is matched by abstract steps that keep the relation.
  Then every reachable concrete state is related to a reachable abstract one, and abstract invariants carry over.
\<close>

locale simulation =
  conc: transition_system cinit cstep + abst: transition_system ainit astep
  for cinit :: "'c \<Rightarrow> bool" and cstep :: "'c \<Rightarrow> 'c \<Rightarrow> bool"
    and ainit :: "'a \<Rightarrow> bool" and astep :: "'a \<Rightarrow> 'a \<Rightarrow> bool" +
  fixes R :: "'c \<Rightarrow> 'a \<Rightarrow> bool"
  assumes init_sim: "cinit s \<Longrightarrow> \<exists>a. ainit a \<and> R s a"
    and step_sim: "conc.reach s \<Longrightarrow> R s a \<Longrightarrow> cstep s t \<Longrightarrow> \<exists>b. abst.path a b \<and> R t b"
begin

lemma path_reach: "abst.path a b \<Longrightarrow> abst.reach a \<Longrightarrow> abst.reach b"
  by (induction rule: abst.path.induct) (auto intro: abst.reach_step)

lemma reach_sim: "conc.reach s \<Longrightarrow> \<exists>a. abst.reach a \<and> R s a"
proof (induction rule: conc.reach.induct)
  case (reach_init s)
  then show ?case using init_sim abst.reach_init by blast
next
  case (reach_step s t)
  then obtain a where a: "abst.reach a" "R s a" by blast
  from step_sim [OF reach_step(1) a(2) reach_step(2)] obtain b where "abst.path a b" "R t b" by blast
  then show ?case using path_reach a(1) by blast
qed

lemma invariant_sim:
  assumes "conc.reach s" and "\<And>a. abst.reach a \<Longrightarrow> I a" and "\<And>s a. R s a \<Longrightarrow> I a \<Longrightarrow> J s"
  shows "J s"
  using reach_sim [OF assms(1)] assms(2,3) by blast

end

section \<open>Writers that are idempotent per key\<close>

text \<open>
  An insert-once writer: \<open>attempt oc\<close> is one call under the outcome \<open>oc\<close>, \<open>view\<close> is the
  durable part of the state, \<open>present\<close> says that the key's record is there, \<open>fires\<close> that
  this attempt would store it, \<open>ins\<close> is the store's effect. The laws are one attempt's
  behaviour; the lemmas are about any number of attempts.
\<close>

locale insert_once =
  fixes attempt :: "'o \<Rightarrow> 's \<Rightarrow> 's"
    and view :: "'s \<Rightarrow> 'v"
    and present :: "'v \<Rightarrow> bool"
    and fires :: "'o \<Rightarrow> 'v \<Rightarrow> bool"
    and ins :: "'v \<Rightarrow> 'v"
  assumes attempt_present: "present (view s) \<Longrightarrow> view (attempt oc s) = view s"
    and attempt_absent: "\<not> present (view s) \<Longrightarrow>
          view (attempt oc s) = (if fires oc (view s) then ins (view s) else view s)"
    and present_ins: "fires oc v \<Longrightarrow> present (ins v)"
begin

lemma fold_attempt_present: "present (view s) \<Longrightarrow> view (fold attempt os s) = view s"
  by (induction os arbitrary: s) (simp_all add: attempt_present)

lemma fold_attempt_once:
  assumes "\<not> present (view s)"
  shows "view (fold attempt os s) = (if \<exists>oc\<in>set os. fires oc (view s) then ins (view s) else view s)"
  using assms
proof (induction os arbitrary: s)
  case (Cons oc os)
  show ?case
  proof (cases "fires oc (view s)")
    case True
    with Cons.prems have v: "view (attempt oc s) = ins (view s)" by (simp add: attempt_absent)
    with True have "present (view (attempt oc s))" by (simp add: present_ins)
    with v True show ?thesis by (simp add: fold_attempt_present)
  next
    case False
    with Cons.prems have v: "view (attempt oc s) = view s" by (simp add: attempt_absent)
    with Cons.prems have "\<not> present (view (attempt oc s))" by simp
    from Cons.IH [OF this] v False show ?thesis by simp
  qed
qed simp

end

section \<open>Work queues with an atomic claim\<close>

fun run_claims :: "('c \<Rightarrow> 's \<Rightarrow> 's \<times> 'j list) \<Rightarrow> 'c list \<Rightarrow> 's \<Rightarrow> 's \<times> 'j list" where
  "run_claims claim [] s = (s, [])"
| "run_claims claim (c # cs) s =
     (let (s1, js) = claim c s; (s2, ks) = run_claims claim cs s1 in (s2, js @ ks))"

text \<open>
  The contract a claim owes its callers: it hands out waiting items only, each once, and what
  it handed out is no longer waiting.
\<close>

locale claimable =
  fixes claim :: "'c \<Rightarrow> 's \<Rightarrow> 's \<times> 'j list"
    and waiting :: "'s \<Rightarrow> 'id set"
    and ident :: "'j \<Rightarrow> 'id"
    and ok :: "'s \<Rightarrow> bool"
  assumes claim_ok: "ok s \<Longrightarrow> ok (fst (claim c s))"
    and claim_takes: "ok s \<Longrightarrow> ident ` set (snd (claim c s)) \<subseteq> waiting s"
    and claim_distinct: "ok s \<Longrightarrow> distinct (map ident (snd (claim c s)))"
    and claim_removes: "ok s \<Longrightarrow> waiting (fst (claim c s)) = waiting s - ident ` set (snd (claim c s))"
begin

lemma run_claims_once:
  "ok s \<Longrightarrow> distinct (map ident (snd (run_claims claim cs s)))
     \<and> ident ` set (snd (run_claims claim cs s)) \<subseteq> waiting s
     \<and> waiting (fst (run_claims claim cs s)) = waiting s - ident ` set (snd (run_claims claim cs s))"
proof (induction cs arbitrary: s)
  case (Cons c cs)
  obtain s1 js where c: "claim c s = (s1, js)" by force
  obtain s2 ks where r: "run_claims claim cs s1 = (s2, ks)" by force
  have "ok s1" using claim_ok [OF Cons.prems, of c] c by simp
  from Cons.IH [OF this] r claim_takes [OF Cons.prems, of c] claim_distinct [OF Cons.prems, of c]
    claim_removes [OF Cons.prems, of c] c
  show ?case by auto
qed simp

end

end
