(* ===== verification/Money.thy ===== *)
theory Money
  imports Prelude
begin

text \<open>
  Money values: Python's \<open>float(...)\<close> and \<open>f"{x:.8f}"\<close> as the billing code uses
  them, the fail-closed validators of \<open>src/cost/money_policy.py\<close>, the spend-cap table of
  \<open>src/billing/spend_caps.py\<close>, and the cost formulas of \<open>src/billing/finalize.py\<close> and
  \<open>src/billing/execution_worker.py\<close>.
\<close>

section \<open>float() on strings\<close>

definition isdig :: "char \<Rightarrow> bool" where
  "isdig c = (48 \<le> (of_char c :: nat) \<and> (of_char c :: nat) \<le> 57)"

definition dval :: "char \<Rightarrow> nat" where
  "dval c = of_char c - 48"

definition digit_char :: "nat \<Rightarrow> char" where
  "digit_char n = char_of (48 + n)"

lemma of_char_digit_char: "n < 10 \<Longrightarrow> (of_char (digit_char n) :: nat) = 48 + n"
  by (simp add: digit_char_def)

lemma isdig_digit_char [simp]: "n < 10 \<Longrightarrow> isdig (digit_char n)"
  by (simp add: isdig_def of_char_digit_char)

lemma dval_digit_char [simp]: "n < 10 \<Longrightarrow> dval (digit_char n) = n"
  by (simp add: dval_def of_char_digit_char)

lemma digit_char_neq:
  "n < 10 \<Longrightarrow> digit_char n \<noteq> CHR ''.'' \<and> digit_char n \<noteq> CHR ''-'' \<and> digit_char n \<noteq> CHR ''+''
     \<and> digit_char n \<noteq> CHR '' ''"
  using of_char_digit_char [of n] by auto

text \<open>A digit part of Python's float grammar: digits, single underscores between digits.\<close>

function digitpart :: "string \<Rightarrow> nat list \<times> string" where
  "digitpart [] = ([], [])"
| "digitpart (c # cs) =
     (if isdig c
      then (let (ds, r) = digitpart (case cs of
                  u # d # rest \<Rightarrow> if u = CHR ''_'' \<and> isdig d then d # rest else cs
                | _ \<Rightarrow> cs)
            in (dval c # ds, r))
      else ([], c # cs))"
  by pat_completeness auto
termination
  by (relation "measure length") (auto split: list.splits)

definition nat_of_digits :: "nat list \<Rightarrow> nat" where
  "nat_of_digits ds = foldl (\<lambda>a d. 10 * a + d) 0 ds"

definition is_ws :: "char \<Rightarrow> bool" where
  "is_ws c = (let n = (of_char c :: nat) in (9 \<le> n \<and> n \<le> 13) \<or> (28 \<le> n \<and> n \<le> 32))"

definition strip :: "string \<Rightarrow> string" where
  "strip s = rev (dropWhile is_ws (rev (dropWhile is_ws s)))"

definition lower_char :: "char \<Rightarrow> char" where
  "lower_char c = (let n = (of_char c :: nat) in if 65 \<le> n \<and> n \<le> 90 then char_of (n + 32) else c)"

definition lower :: "string \<Rightarrow> string" where
  "lower s = map lower_char s"

definition upper_char :: "char \<Rightarrow> char" where
  "upper_char c = (let n = (of_char c :: nat) in if 97 \<le> n \<and> n \<le> 122 then char_of (n - 32) else c)"

definition upper :: "string \<Rightarrow> string" where
  "upper s = map upper_char s"

text \<open>What \<open>hmac.compare_digest\<close> asks of its strings; it raises a TypeError otherwise.\<close>

definition is_ascii :: "string \<Rightarrow> bool" where
  "is_ascii w \<longleftrightarrow> (\<forall>c\<in>set w. of_char c < (128 :: nat))"

fun split_sign :: "string \<Rightarrow> rat \<times> string" where
  "split_sign (c # cs) =
     (if c = CHR ''-'' then (-1, cs) else if c = CHR ''+'' then (1, cs) else (1, c # cs))"
| "split_sign [] = (1, [])"

fun exponent_part :: "string \<Rightarrow> int option" where
  "exponent_part [] = Some 0"
| "exponent_part (e # r) =
     (if e = CHR ''e'' \<or> e = CHR ''E''
      then (let (sg, u) = split_sign r; (ds, rest) = digitpart u
            in if ds = [] \<or> rest \<noteq> [] then None
               else Some (if sg < 0 then - int (nat_of_digits ds) else int (nat_of_digits ds)))
      else None)"

definition scale10 :: "rat \<Rightarrow> int \<Rightarrow> rat" where
  "scale10 x e = (if 0 \<le> e then x * 10 ^ nat e else x / 10 ^ nat (- e))"

definition float_of_string :: "string \<Rightarrow> pyfloat option" where
  "float_of_string s =
     (let (sg, u) = split_sign (strip s); w = lower u
      in if w = ''inf'' \<or> w = ''infinity'' then Some (if sg < 0 then NegInf else PosInf)
         else if w = ''nan'' then Some NaN
         else (let (i, r1) = digitpart u;
                   (f, r2) = (case r1 of c # r \<Rightarrow> if c = CHR ''.'' then digitpart r else ([], r1)
                              | [] \<Rightarrow> ([], []))
               in if i = [] \<and> f = [] then None
                  else (case exponent_part r2 of
                          None \<Rightarrow> None
                        | Some e \<Rightarrow>
                            Some (Fin (sg * scale10 (of_nat (nat_of_digits (i @ f)))
                                              (e - int (length f)))))))"

text \<open>\<open>float(value)\<close> on any value; \<open>None\<close> stands for the TypeError or ValueError.\<close>

fun py_float :: "pyval \<Rightarrow> pyfloat option" where
  "py_float (PBool b) = Some (Fin (if b then 1 else 0))"
| "py_float (PInt i) = Some (Fin (of_int i))"
| "py_float (PFloat f) = Some f"
| "py_float (PStr s) = float_of_string s"
| "py_float _ = None"

section \<open>f"{x:.8f}"\<close>

fun nat_str :: "nat \<Rightarrow> string" where
  "nat_str n = (if n < 10 then [digit_char n] else nat_str (n div 10) @ [digit_char (n mod 10)])"

declare nat_str.simps [simp del]

fun pad_digits :: "nat \<Rightarrow> nat \<Rightarrow> string" where
  "pad_digits 0 n = []"
| "pad_digits (Suc w) n = pad_digits w (n div 10) @ [digit_char (n mod 10)]"

definition fmt8 :: "rat \<Rightarrow> string" where
  "fmt8 r =
     (let a = nat \<bar>round_half_even (r * 10 ^ 8)\<bar>
      in (if r < 0 then ''-'' else '''') @ nat_str (a div 10 ^ 8) @ ''.'' @ pad_digits 8 (a mod 10 ^ 8))"

subsection \<open>Reading back what was printed\<close>

definition all_digits :: "string \<Rightarrow> bool" where
  "all_digits s = list_all isdig s"

lemma digitpart_Cons_plain:
  assumes "isdig c" and "cs = [] \<or> hd cs \<noteq> CHR ''_''"
  shows "digitpart (c # cs) = (let (ds, r) = digitpart cs in (dval c # ds, r))"
proof -
  have "(case cs of u # d # rest \<Rightarrow> if u = CHR ''_'' \<and> isdig d then d # rest else cs | _ \<Rightarrow> cs) = cs"
    using assms(2) by (auto split: list.splits)
  then show ?thesis using assms(1) by (subst digitpart.simps(2)) (simp only: if_True)
qed

lemma digitpart_stop: "t = [] \<or> \<not> isdig (hd t) \<Longrightarrow> digitpart t = ([], t)"
  by (cases t) (simp_all add: digitpart.simps)

declare digitpart.simps(2) [simp del]

lemma digitpart_digits:
  "all_digits s \<Longrightarrow> t = [] \<or> (\<not> isdig (hd t) \<and> hd t \<noteq> CHR ''_'')
   \<Longrightarrow> digitpart (s @ t) = (map dval s, t)"
proof (induction s)
  case Nil
  then show ?case using digitpart_stop [of t] by auto
next
  case (Cons c s)
  have c: "isdig c" and s: "all_digits s" using Cons.prems by (auto simp: all_digits_def)
  have us: "\<not> isdig (CHR ''_'')" by (simp add: isdig_def)
  have "s @ t = [] \<or> hd (s @ t) \<noteq> CHR ''_''"
    using s us Cons.prems(2) by (cases s) (auto simp: all_digits_def)
  with c have "digitpart (c # s @ t) = (let (ds, r) = digitpart (s @ t) in (dval c # ds, r))"
    by (rule digitpart_Cons_plain)
  then show ?case using Cons.IH [OF s Cons.prems(2)] by simp
qed

lemma digits_foldl:
  "foldl (\<lambda>a d. 10 * a + d) b ds = b * 10 ^ length ds + foldl (\<lambda>a d. 10 * a + d) 0 ds"
  for b :: nat
proof (induction ds arbitrary: b)
  case (Cons d ds)
  have "foldl (\<lambda>a d. 10 * a + d) b (d # ds)
        = (10 * b + d) * 10 ^ length ds + foldl (\<lambda>a d. 10 * a + d) 0 ds"
    by (subst foldl_Cons) (rule Cons.IH)
  moreover have "foldl (\<lambda>a d. 10 * a + d) 0 (d # ds)
        = d * 10 ^ length ds + foldl (\<lambda>a d. 10 * a + d) 0 ds"
    using Cons.IH [of "10 * 0 + d"] by simp
  ultimately show ?case by (simp add: algebra_simps del: foldl_Cons)
qed simp

lemma nat_of_digits_append:
  "nat_of_digits (xs @ ys) = nat_of_digits xs * 10 ^ length ys + nat_of_digits ys"
  unfolding nat_of_digits_def foldl_append by (rule digits_foldl)

lemma nat_str_props:
  "all_digits (nat_str n) \<and> nat_str n \<noteq> [] \<and> nat_of_digits (map dval (nat_str n)) = n"
proof (induction n rule: nat_str.induct)
  case (1 n)
  show ?case
  proof (cases "n < 10")
    case True
    then show ?thesis by (subst (1 2 3) nat_str.simps) (simp add: all_digits_def nat_of_digits_def)
  next
    case False
    with 1 have IH: "all_digits (nat_str (n div 10))" "nat_str (n div 10) \<noteq> []"
      "nat_of_digits (map dval (nat_str (n div 10))) = n div 10" by auto
    have "nat_str n = nat_str (n div 10) @ [digit_char (n mod 10)]"
      using False by (subst nat_str.simps) simp
    with IH show ?thesis
      by (simp add: all_digits_def nat_of_digits_append) (simp add: nat_of_digits_def)
  qed
qed

lemma pad_digits_props:
  "all_digits (pad_digits w n) \<and> length (pad_digits w n) = w
   \<and> nat_of_digits (map dval (pad_digits w n)) = n mod 10 ^ w"
proof (induction w arbitrary: n)
  case (Suc w)
  have "n mod (10 * 10 ^ w) = 10 * (n div 10 mod 10 ^ w) + n mod 10"
    by (rule mod_mult2_eq)
  with Suc [of "n div 10"] show ?case
    by (simp add: all_digits_def nat_of_digits_append) (simp add: nat_of_digits_def)
qed (simp add: all_digits_def nat_of_digits_def)

lemma isdig_not_ws: "isdig c \<Longrightarrow> \<not> is_ws c"
  by (auto simp: isdig_def is_ws_def Let_def)

lemma lower_digit: "isdig c \<Longrightarrow> lower_char c = c"
  by (auto simp: isdig_def lower_char_def Let_def)

lemma strip_digits:
  assumes "isdig (hd s)" "isdig (last s)" "s \<noteq> []"
  shows "strip s = s"
proof -
  have "dropWhile is_ws s = s"
    using assms isdig_not_ws by (cases s) auto
  moreover have "dropWhile is_ws (rev s) = rev s"
    using assms isdig_not_ws by (cases s rule: rev_cases) auto
  ultimately show ?thesis by (simp add: strip_def)
qed

lemma lower_word_neq:
  assumes "s = c # cs" "isdig c"
  shows "lower s \<noteq> ''inf'' \<and> lower s \<noteq> ''infinity'' \<and> lower s \<noteq> ''nan''"
  using assms lower_digit [OF assms(2)] by (auto simp: lower_def isdig_def)

text \<open>
  Printing a non-negative amount with eight decimals and reading it back rounds it to eight
  decimals: an amount already on that grid is recovered exactly.
\<close>

lemma float_of_string_fmt8:
  assumes "0 \<le> r"
  shows "float_of_string (fmt8 r) = Some (Fin (pyround 8 r))"
proof -
  define k where "k = nat (round_half_even (r * 10 ^ 8))"
  define I where "I = nat_str (k div 10 ^ 8)"
  define F where "F = pad_digits 8 (k mod 10 ^ 8)"
  have k: "int k = round_half_even (r * 10 ^ 8)"
    using assms by (simp add: k_def round_half_even_nonneg)
  then have kr: "(of_nat k :: rat) = of_int (round_half_even (r * 10 ^ 8))"
    by (metis of_int_of_nat_eq)
  have str: "fmt8 r = I @ CHR ''.'' # F"
    using assms round_half_even_nonneg [of "r * 10 ^ 8"]
    unfolding fmt8_def Let_def I_def F_def k_def by simp
  have I: "all_digits I" "I \<noteq> []" "nat_of_digits (map dval I) = k div 10 ^ 8"
    using nat_str_props [of "k div 10 ^ 8"] by (auto simp: I_def)
  have F: "all_digits F" "length F = 8" "nat_of_digits (map dval F) = k mod 10 ^ 8"
    using pad_digits_props [of 8 "k mod 10 ^ 8"] by (auto simp: F_def)
  obtain c cs where Ic: "I = c # cs" using I(2) by (cases I) auto
  have dc: "isdig c" using I(1) Ic by (simp add: all_digits_def)
  have neF: "F \<noteq> []" using F(2) by auto
  then have lastF: "isdig (last F)" using F(1) by (simp add: all_digits_def list_all_iff)
  have strip: "strip (I @ CHR ''.'' # F) = I @ CHR ''.'' # F"
    by (rule strip_digits) (use dc lastF neF Ic in auto)
  have sign: "split_sign (I @ CHR ''.'' # F) = (1, I @ CHR ''.'' # F)"
    using dc by (auto simp: Ic isdig_def)
  have dp1: "digitpart (I @ CHR ''.'' # F) = (map dval I, CHR ''.'' # F)"
    by (rule digitpart_digits) (use I(1) in \<open>auto simp: isdig_def\<close>)
  have dp2: "digitpart F = (map dval F, [])"
    using digitpart_digits [OF F(1), of "[]"] by simp
  have val: "nat_of_digits (map dval I @ map dval F) = k"
    using I(3) F(2,3) by (simp add: nat_of_digits_append)
  have "scale10 (of_nat k) (0 - int (length (map dval F))) = of_nat k / 10 ^ 8"
    using F(2) by (simp add: scale10_def)
  also have "\<dots> = pyround 8 r"
    unfolding pyround_def by (simp only: kr)
  finally have "scale10 (of_nat k) (0 - int (length (map dval F))) = pyround 8 r" .
  moreover have "lower (I @ CHR ''.'' # F) \<notin> {''inf'', ''infinity'', ''nan''}"
    using lower_word_neq [of "I @ CHR ''.'' # F" c "cs @ CHR ''.'' # F"] dc Ic by auto
  ultimately show ?thesis
    using I(2) val unfolding float_of_string_def str strip sign
    by (simp add: dp1 dp2 Let_def del: digitpart.simps)
qed

section \<open>cost/money\_policy.py: fail-closed validation\<close>

record money_spec =
  not_null :: bool
  col_default :: string
  reject_none :: bool

definition MONEY_COLUMNS :: "(string \<times> (string \<times> money_spec) list) list" where
  "MONEY_COLUMNS =
     [(''execution_jobs'',
        [(''cost_usd'', \<lparr>not_null = True, col_default = ''0.0'', reject_none = False\<rparr>)]),
      (''ledger_entries'',
        [(''amount'', \<lparr>not_null = True, col_default = ''0.0'', reject_none = True\<rparr>),
         (''currency'', \<lparr>not_null = True, col_default = [CHR 0x27] @ ''USD'' @ [CHR 0x27], reject_none = True\<rparr>)]),
      (''tenant_usage_totals'',
        [(''gpu_seconds'', \<lparr>not_null = True, col_default = ''0.0'', reject_none = False\<rparr>),
         (''cpu_seconds'', \<lparr>not_null = True, col_default = ''0.0'', reject_none = False\<rparr>),
         (''gb_seconds'', \<lparr>not_null = True, col_default = ''0.0'', reject_none = False\<rparr>),
         (''input_tokens'', \<lparr>not_null = True, col_default = ''0'', reject_none = False\<rparr>),
         (''output_tokens'', \<lparr>not_null = True, col_default = ''0'', reject_none = False\<rparr>),
         (''total_cost'', \<lparr>not_null = True, col_default = ''0.0'', reject_none = False\<rparr>)])]"

definition reject_nullable_money :: "string \<Rightarrow> string \<Rightarrow> pyval \<Rightarrow> unit result" where
  "reject_nullable_money tbl col v =
     (case map_of (case map_of MONEY_COLUMNS tbl of None \<Rightarrow> [] | Some cols \<Rightarrow> cols) col of
        None \<Rightarrow> Inr ()
      | Some spec \<Rightarrow> if reject_none spec \<and> v = PNone then Inl ValueError else Inr ())"

definition reject_invalid_money_amount :: "string \<Rightarrow> string \<Rightarrow> pyval \<Rightarrow> unit result" where
  "reject_invalid_money_amount tbl col v =
     (if v = PNone then Inr ()
      else case py_float v of
             None \<Rightarrow> Inl ValueError
           | Some number \<Rightarrow>
               if \<not> isfinite number \<or> flt0 number then Inl ValueError else Inr ())"

text \<open>What passes both validators of \<open>ledger_entries.amount\<close>: a finite, non-negative number.\<close>

lemma reject_nullable_ledger [simp]:
  "reject_nullable_money ''ledger_entries'' ''amount'' v = (if v = PNone then Inl ValueError else Inr ())"
  "reject_nullable_money ''ledger_entries'' ''currency'' v = (if v = PNone then Inl ValueError else Inr ())"
  by (simp_all add: reject_nullable_money_def MONEY_COLUMNS_def)

lemma reject_invalid_money_ok_iff:
  "reject_invalid_money_amount tbl col (PFloat f) = Inr () \<longleftrightarrow> (\<exists>r. f = Fin r \<and> 0 \<le> r)"
  by (cases f) (auto simp: reject_invalid_money_amount_def)

lemma reject_invalid_money_float:
  "reject_invalid_money_amount tbl col (PFloat f) =
     (case f of Fin r \<Rightarrow> if r < 0 then Inl ValueError else Inr () | _ \<Rightarrow> Inl ValueError)"
  by (cases f) (auto simp: reject_invalid_money_amount_def)

section \<open>billing/spend\_caps.py\<close>

record money_plan =
  spend_cap_usd :: rat
  overage_rate :: rat

definition MONEY_POLICY :: "(string \<times> money_plan) list" where
  "MONEY_POLICY =
     [(''free'', \<lparr>spend_cap_usd = 1 / 2, overage_rate = 0\<rparr>),
      (''start'', \<lparr>spend_cap_usd = 5, overage_rate = 5 / 1000000\<rparr>),
      (''pro'', \<lparr>spend_cap_usd = 50, overage_rate = 3 / 1000000\<rparr>),
      (''enterprise'', \<lparr>spend_cap_usd = -1, overage_rate = 0\<rparr>)]"

section \<open>Cost formulas\<close>

text \<open>
  \<open>billing/finalize.py\<close>, the head of \<open>_increment_usage\<close>: GPU seconds at 0.00001, input
  tokens at 0.000001, output tokens at 0.000002, each rounded to eight decimals.
\<close>

definition gpu_rate :: rat where "gpu_rate = 1 / 100000"
definition in_rate :: rat where "in_rate = 1 / 1000000"
definition out_rate :: rat where "out_rate = 2 / 1000000"

definition gpu_cost :: "rat \<Rightarrow> rat" where
  "gpu_cost gpu_sec = (if gpu_sec > 0 then pyround 8 (gpu_sec * gpu_rate) else 0)"

definition token_cost :: "int \<Rightarrow> int \<Rightarrow> rat" where
  "token_cost it ot =
     (if it > 0 \<or> ot > 0 then pyround 8 (of_int it * in_rate + of_int ot * out_rate) else 0)"

definition total_cost :: "rat \<Rightarrow> int \<Rightarrow> int \<Rightarrow> rat" where
  "total_cost gpu_sec it ot = pyround 8 (gpu_cost gpu_sec + token_cost it ot)"

text \<open>\<open>billing/execution_worker.py\<close>: \<open>_job_cost_usd\<close>, the sweeper's price of a job.\<close>

definition job_cost_usd :: "pyval \<Rightarrow> pyfloat" where
  "job_cost_usd duration =
     (case py_float (if duration = PNone then PFloat (Fin 0) else duration) of
        None \<Rightarrow> Fin 0
      | Some (Fin d) \<Rightarrow> Fin (pyround 8 (max d 0 * gpu_rate))
      | Some NegInf \<Rightarrow> Fin 0
      | Some PosInf \<Rightarrow> PosInf
      | Some NaN \<Rightarrow> NaN)"

lemma gpu_cost_nonneg: "0 \<le> gpu_cost s"
  by (simp add: gpu_cost_def gpu_rate_def pyround_nonneg)

text \<open>
  The debit of a job is the exact sum of the costs its usage events carry: rounding the sum
  of two amounts of the eight-decimal grid changes nothing.
\<close>

lemma grid_gpu_cost: "\<exists>k. gpu_cost s = of_int k / 10 ^ 8"
  unfolding gpu_cost_def pyround_def by (metis div_0 of_int_0)

lemma grid_token_cost: "\<exists>k. token_cost i ot = of_int k / 10 ^ 8"
  unfolding token_cost_def pyround_def by (metis div_0 of_int_0)

lemma total_cost_sum: "total_cost s i ot = gpu_cost s + token_cost i ot"
  using grid_gpu_cost [of s] grid_token_cost [of i ot] pyround_add_scaled [of 8]
  unfolding total_cost_def by (metis (no_types))

lemma job_cost_usd_total: "job_cost_usd (PFloat (Fin d)) = Fin (total_cost d 0 0)"
  unfolding total_cost_sum
  by (simp add: job_cost_usd_def gpu_cost_def token_cost_def max_def Let_def)

lemma total_cost_gpu_nonneg: "0 \<le> total_cost s 0 0"
  by (simp add: total_cost_sum gpu_cost_nonneg token_cost_def)

end
