(* ===== verification/Ledger.thy ===== *)
theory Ledger
  imports Money
begin

text \<open>
  The billing ledger, \<open>src/billing/pg_ledger.py\<close> (class \<open>PGBillingLedger\<close>): the table
  \<open>ledger_entries\<close> in PostgreSQL (unique \<open>ledger_id\<close>, \<open>entry_type\<close> checked to be CREDIT
  or DEBIT) and the in-process mirror \<open>self._entries\<close>. Every round trip takes a
  \<open>pg_outcome\<close>, so an operation is a function of the state, its arguments and what the
  network did. \<open>H\<close> stands for \<open>hashlib.sha256(...).hexdigest()\<close> and \<open>fresh\<close> for the
  time-and-uuid4 id; no property needs more of them than that they are functions of their
  input.

  Shown: ids stay unique, the table only grows, conditional debits never overdraw a tenant,
  retries under any pattern of failures debit (or credit) at most once, every mirrored entry
  is durable, and the summary loop computes the balances.
\<close>

section \<open>State\<close>

record ledger_entry =
  ledger_id :: string
  le_tenant :: string
  entry_type :: string
  amount :: rat
  currency :: string
  metadata :: pydict

record ledger =
  rows :: "ledger_entry list"
  mirror :: "ledger_entry list"

definition ledger_init :: ledger where
  "ledger_init = \<lparr>rows = [], mirror = []\<rparr>"

section \<open>SQL statements over ledger\_entries\<close>

definition has_id :: "string \<Rightarrow> ledger_entry list \<Rightarrow> bool" where
  "has_id i rs = (i \<in> ledger_id ` set rs)"

definition valid_type :: "string \<Rightarrow> bool" where
  "valid_type t = (t = ''CREDIT'' \<or> t = ''DEBIT'')"

text \<open>A plain INSERT: the UNIQUE or CHECK violation aborts the transaction.\<close>

definition insert_stmt :: "ledger_entry \<Rightarrow> (ledger_entry list, string list) stmt" where
  "insert_stmt e rs =
     (if has_id (ledger_id e) rs \<or> \<not> valid_type (entry_type e) then None
      else Some (rs @ [e], []))"

text \<open>INSERT ... ON CONFLICT (ledger\_id) DO NOTHING RETURNING ledger\_id.\<close>

definition insert_or_ignore_stmt :: "ledger_entry \<Rightarrow> (ledger_entry list, string list) stmt" where
  "insert_or_ignore_stmt e rs =
     (if \<not> valid_type (entry_type e) then None
      else if has_id (ledger_id e) rs then Some (rs, [])
      else Some (rs @ [e], [ledger_id e]))"

definition signed :: "ledger_entry \<Rightarrow> rat" where
  "signed e = (if entry_type e = ''CREDIT'' then amount e else - amount e)"

definition balance_rows :: "ledger_entry list \<Rightarrow> string \<Rightarrow> rat" where
  "balance_rows rs t = sum_list (map signed (filter (\<lambda>e. le_tenant e = t) rs))"

text \<open>\<open>_DEBIT_IF_FUNDS_INSERT_SQL\<close>: insert only where the balance covers the amount.\<close>

definition debit_if_funds_stmt :: "ledger_entry \<Rightarrow> (ledger_entry list, string list) stmt" where
  "debit_if_funds_stmt e rs =
     (if balance_rows rs (le_tenant e) \<ge> amount e then insert_or_ignore_stmt e rs
      else Some (rs, []))"

definition select_stmt :: "(ledger_entry \<Rightarrow> bool) \<Rightarrow> (ledger_entry list, ledger_entry list) stmt" where
  "select_stmt P rs = Some (rs, filter P rs)"

text \<open>\<open>_pg_execute\<close>: one statement in one transaction.\<close>

definition pg_execute ::
  "pg_outcome \<Rightarrow> (ledger_entry list, 'r) stmt \<Rightarrow> ledger \<Rightarrow> ledger \<times> 'r result" where
  "pg_execute oc f s = (let (rs, r) = pg_run oc f (rows s) in (s\<lparr>rows := rs\<rparr>, r))"

text \<open>\<open>_txn\<close>: BEGIN, the statements in order, COMMIT; the rows of the last one.\<close>

fun run_stmts :: "('s, 'r list) stmt list \<Rightarrow> ('s, 'r list) stmt" where
  "run_stmts [] s = Some (s, [])"
| "run_stmts [f] s = f s"
| "run_stmts (f # g # fs) s = (case f s of None \<Rightarrow> None | Some (s', _) \<Rightarrow> run_stmts (g # fs) s')"

definition pg_txn ::
  "pg_outcome \<Rightarrow> (ledger_entry list, 'r list) stmt list \<Rightarrow> ledger \<Rightarrow> ledger \<times> 'r list result" where
  "pg_txn oc fs s = (let (rs, r) = pg_run oc (run_stmts fs) (rows s) in (s\<lparr>rows := rs\<rparr>, r))"

text \<open>\<open>SELECT pg_advisory_xact_lock(k)\<close> changes no row; it makes the transaction atomic.\<close>

definition advisory_lock_stmt :: "(ledger_entry list, string list) stmt" where
  "advisory_lock_stmt rs = Some (rs, [[]])"

section \<open>Writers\<close>

definition then_check :: "unit result \<Rightarrow> unit result \<Rightarrow> unit result" where
  "then_check a b = (case a of Inl e \<Rightarrow> Inl e | Inr _ \<Rightarrow> b)"

definition money_val :: "pyfloat option \<Rightarrow> pyval" where
  "money_val a = (case a of None \<Rightarrow> PNone | Some f \<Rightarrow> PFloat f)"

definition str_val :: "string option \<Rightarrow> pyval" where
  "str_val a = (case a of None \<Rightarrow> PNone | Some f \<Rightarrow> PStr f)"

definition check_money :: "pyfloat option \<Rightarrow> string option \<Rightarrow> unit result" where
  "check_money amt cur =
     then_check (reject_nullable_money ''ledger_entries'' ''amount'' (money_val amt))
       (then_check (reject_nullable_money ''ledger_entries'' ''currency'' (str_val cur))
         (reject_invalid_money_amount ''ledger_entries'' ''amount'' (money_val amt)))"

text \<open>\<open>append\<close>: validated, PG first, mirrored only after the write succeeded.\<close>

definition append_entry ::
  "pg_outcome \<Rightarrow> string \<Rightarrow> string \<Rightarrow> string \<Rightarrow> pyfloat option \<Rightarrow> string option \<Rightarrow> pydict
     \<Rightarrow> ledger \<Rightarrow> ledger \<times> string result" where
  "append_entry oc fresh t etype amt cur meta s =
     (case (check_money amt cur, amt, cur) of
        (Inr _, Some (Fin a), Some c) \<Rightarrow>
          (let e = \<lparr>ledger_id = fresh, le_tenant = t, entry_type = upper etype, amount = a,
                    currency = c, metadata = meta\<rparr>
           in case pg_execute oc (insert_stmt e) s of
                (s', Inl x) \<Rightarrow> (s', Inl x)
              | (s', Inr _) \<Rightarrow> (s'\<lparr>mirror := mirror s' @ [e]\<rparr>, Inr fresh))
      | (Inl x, _, _) \<Rightarrow> (s, Inl x)
      | _ \<Rightarrow> (s, Inl ValueError))"

definition idem_ledger_id :: "(string \<Rightarrow> string) \<Rightarrow> string \<Rightarrow> string \<Rightarrow> string" where
  "idem_ledger_id H t key = ''led-'' @ take 24 (H (t @ '':'' @ key))"

text \<open>\<open>credit\<close>: deterministic id under an idempotency key, ON CONFLICT DO NOTHING.\<close>

definition credit ::
  "(string \<Rightarrow> string) \<Rightarrow> pg_outcome \<Rightarrow> pg_outcome \<Rightarrow> string \<Rightarrow> string \<Rightarrow> pyfloat option
     \<Rightarrow> string option \<Rightarrow> string option \<Rightarrow> pydict \<Rightarrow> ledger \<Rightarrow> ledger \<times> string result" where
  "credit H o1 o2 fresh t amt cur key meta s =
     (case (check_money amt cur, amt, cur) of
        (Inr _, Some (Fin a), Some c) \<Rightarrow>
          (let i = (if truthy key then idem_ledger_id H t (the key) else fresh);
               m = (if truthy key then AList.update ''idempotency_key'' (PStr (the key)) meta else meta);
               e = \<lparr>ledger_id = i, le_tenant = t, entry_type = ''CREDIT'', amount = a,
                    currency = c, metadata = m\<rparr>
           in case pg_execute o1 (insert_or_ignore_stmt e) s of
                (s', Inl x) \<Rightarrow> (s', Inl x)
              | (s', Inr (rid # _)) \<Rightarrow> (s'\<lparr>mirror := mirror s' @ [e]\<rparr>, Inr rid)
              | (s', Inr []) \<Rightarrow>
                  (if truthy key
                   then (case pg_execute o2 (select_stmt (\<lambda>r. ledger_id r = i \<and> le_tenant r = t)) s' of
                           (s'', Inl x) \<Rightarrow> (s'', Inl x)
                         | (s'', Inr (r # _)) \<Rightarrow> (s'', Inr (ledger_id r))
                         | (s'', Inr []) \<Rightarrow> (s'', Inl PGUnavailableError))
                   else (s', Inl PGUnavailableError)))
      | (Inl x, _, _) \<Rightarrow> (s, Inl x)
      | _ \<Rightarrow> (s, Inl ValueError))"

definition refund ::
  "(string \<Rightarrow> string) \<Rightarrow> pg_outcome \<Rightarrow> pg_outcome \<Rightarrow> string \<Rightarrow> string \<Rightarrow> pyfloat option
     \<Rightarrow> string option \<Rightarrow> string option \<Rightarrow> string \<Rightarrow> ledger \<Rightarrow> ledger \<times> string result" where
  "refund H o1 o2 fresh t amt cur job_id reason s =
     (if \<not> truthy job_id then (s, Inl ValueError)
      else credit H o1 o2 fresh t amt cur (Some (''refund:'' @ the job_id))
             [(''refund_for'', PStr (the job_id)), (''reason'', PStr reason)] s)"

definition debit ::
  "pg_outcome \<Rightarrow> string \<Rightarrow> string \<Rightarrow> pyfloat option \<Rightarrow> string option \<Rightarrow> pydict \<Rightarrow> ledger
     \<Rightarrow> ledger \<times> unit result" where
  "debit oc fresh t amt cur meta s =
     (case append_entry oc fresh t ''DEBIT'' amt cur meta s of
        (s', Inl x) \<Rightarrow> (s', Inl x) | (s', Inr _) \<Rightarrow> (s', Inr ()))"

text \<open>
  \<open>_ledger_idem_lookup\<close>: an entry found under the key is returned only when it is the same
  debit; a different one is a key conflict, not a lack of funds.
\<close>

definition idem_matches :: "ledger_entry \<Rightarrow> rat \<Rightarrow> string \<Rightarrow> pydict \<Rightarrow> bool" where
  "idem_matches r expected cur meta =
     (entry_type r = ''DEBIT'' \<and> pyround 8 (amount r) = pyround 8 expected \<and> currency r = cur
      \<and> dict_get (metadata r) ''job_id'' = dict_get meta ''job_id'')"

definition ledger_idem_lookup ::
  "pg_outcome \<Rightarrow> string \<Rightarrow> string \<Rightarrow> rat \<Rightarrow> string \<Rightarrow> pydict \<Rightarrow> ledger
     \<Rightarrow> ledger \<times> string option result" where
  "ledger_idem_lookup oc i t expected cur meta s =
     (case pg_execute oc (select_stmt (\<lambda>r. ledger_id r = i \<and> le_tenant r = t)) s of
        (s', Inl x) \<Rightarrow> (s', Inl x)
      | (s', Inr []) \<Rightarrow> (s', Inr None)
      | (s', Inr (r # _)) \<Rightarrow>
          (s', if idem_matches r expected cur meta then Inr (Some i) else Inl LedgerIdemMismatchError))"

definition debit_if_funds ::
  "(string \<Rightarrow> string) \<Rightarrow> pg_outcome \<Rightarrow> pg_outcome \<Rightarrow> string \<Rightarrow> pyfloat \<Rightarrow> string
     \<Rightarrow> string option \<Rightarrow> pydict \<Rightarrow> ledger \<Rightarrow> ledger \<times> (string option \<times> bool) result" where
  "debit_if_funds H o1 o2 t amt cur key meta s =
     (if flt0 amt then (s, Inl ValueError)
      else case (reject_invalid_money_amount ''ledger_entries'' ''amount'' (PFloat amt), amt) of
        (Inr _, Fin a) \<Rightarrow>
          (if \<not> truthy key then (s, Inl ValueError)
           else let i = idem_ledger_id H t (the key);
                    m = AList.update ''idempotency_key'' (PStr (the key)) meta;
                    e = \<lparr>ledger_id = i, le_tenant = t, entry_type = ''DEBIT'', amount = a,
                         currency = cur, metadata = m\<rparr>
                in case pg_txn o1 [advisory_lock_stmt, debit_if_funds_stmt e] s of
                     (s', Inl PGUnavailableError) \<Rightarrow>
                       (case ledger_idem_lookup o2 i t a cur m s' of
                          (s'', Inl x) \<Rightarrow> (s'', Inl x)
                        | (s'', Inr (Some rid)) \<Rightarrow> (s'', Inr (Some rid, True))
                        | (s'', Inr None) \<Rightarrow> (s'', Inl PGUnavailableError))
                   | (s', Inl x) \<Rightarrow> (s', Inl x)
                   | (s', Inr (rid # _)) \<Rightarrow> (s'\<lparr>mirror := mirror s' @ [e]\<rparr>, Inr (Some rid, True))
                   | (s', Inr []) \<Rightarrow>
                       (case ledger_idem_lookup o2 i t a cur m s' of
                          (s'', Inl x) \<Rightarrow> (s'', Inl x)
                        | (s'', Inr x) \<Rightarrow> (s'', Inr (x, False))))
      | (Inl x, _) \<Rightarrow> (s, Inl x)
      | _ \<Rightarrow> (s, Inl ValueError))"

section \<open>Readers\<close>

definition get_tenant_debit_sum :: "pg_outcome \<Rightarrow> string \<Rightarrow> ledger \<Rightarrow> rat" where
  "get_tenant_debit_sum oc t s =
     (let P = (\<lambda>e. le_tenant e = t \<and> entry_type e = ''DEBIT'')
      in case snd (pg_execute oc (select_stmt P) s) of
           Inr es \<Rightarrow> sum_list (map amount es)
         | Inl _ \<Rightarrow> sum_list (map amount (filter P (mirror s))))"

definition get_tenant_balance :: "pg_outcome \<Rightarrow> string \<Rightarrow> ledger \<Rightarrow> rat result" where
  "get_tenant_balance oc t s =
     snd (pg_execute oc (\<lambda>rs. Some (rs, balance_rows rs t)) s)"

definition py_last :: "nat \<Rightarrow> 'a list \<Rightarrow> 'a list" where
  \<comment> \<open>\<open>xs[-limit:]\<close>; \<open>xs[-0:]\<close> is the whole list\<close>
  "py_last limit xs = (if limit = 0 then xs else drop (length xs - limit) xs)"

definition get_tenant_entries :: "pg_outcome \<Rightarrow> string \<Rightarrow> nat \<Rightarrow> ledger \<Rightarrow> ledger_entry list" where
  "get_tenant_entries oc t limit s =
     (case snd (pg_execute oc (select_stmt (\<lambda>e. le_tenant e = t)) s) of
        Inr es \<Rightarrow> take limit (rev es)
      | Inl _ \<Rightarrow> py_last limit (filter (\<lambda>e. le_tenant e = t) (mirror s)))"

definition get_tenant_entry_count :: "pg_outcome \<Rightarrow> string \<Rightarrow> ledger \<Rightarrow> nat" where
  "get_tenant_entry_count oc t s =
     (case snd (pg_execute oc (select_stmt (\<lambda>e. le_tenant e = t)) s) of
        Inr es \<Rightarrow> length es
      | Inl _ \<Rightarrow> length (filter (\<lambda>e. le_tenant e = t) (mirror s)))"

subsection \<open>ledger\_summary\<close>

record tenant_summary =
  credits :: rat
  debits :: rat
  net :: rat
  n_entries :: nat

definition summary_zero :: tenant_summary where
  "summary_zero = \<lparr>credits = 0, debits = 0, net = 0, n_entries = 0\<rparr>"

definition summary_upd :: "string \<Rightarrow> rat \<Rightarrow> nat \<Rightarrow> tenant_summary \<Rightarrow> tenant_summary" where
  "summary_upd etype tot cnt x =
     (let y = x\<lparr>n_entries := n_entries x + cnt\<rparr>
      in if etype = ''CREDIT'' then y\<lparr>credits := credits y + tot\<rparr> else y\<lparr>debits := debits y + tot\<rparr>)"

definition summary_add ::
  "string \<Rightarrow> string \<Rightarrow> rat \<Rightarrow> nat \<Rightarrow> (string \<times> tenant_summary) list \<Rightarrow> (string \<times> tenant_summary) list" where
  "summary_add t etype tot cnt d =
     AList.update t (summary_upd etype tot cnt (case map_of d t of None \<Rightarrow> summary_zero | Some x \<Rightarrow> x)) d"

definition summary_net :: "(string \<times> tenant_summary) list \<Rightarrow> (string \<times> tenant_summary) list" where
  "summary_net d = map (\<lambda>(t, x). (t, x\<lparr>net := credits x - debits x\<rparr>)) d"

text \<open>The grouped query: one row per (tenant, entry type) present in the table.\<close>

definition group_rows :: "ledger_entry list \<Rightarrow> (string \<times> string \<times> rat \<times> nat) list" where
  "group_rows rs =
     map (\<lambda>(t, ty). let es = filter (\<lambda>e. le_tenant e = t \<and> entry_type e = ty) rs
                    in (t, ty, sum_list (map amount es), length es))
       (remdups (map (\<lambda>e. (le_tenant e, entry_type e)) rs))"

definition ledger_summary :: "pg_outcome \<Rightarrow> ledger \<Rightarrow> (string \<times> tenant_summary) list" where
  "ledger_summary oc s =
     (case snd (pg_execute oc (\<lambda>rs. Some (rs, group_rows rs)) s) of
        Inr gs \<Rightarrow> summary_net (fold (\<lambda>(t, ty, tot, cnt) d. summary_add t ty tot cnt d) gs [])
      | Inl _ \<Rightarrow> summary_net (fold (\<lambda>e d. summary_add (le_tenant e) (entry_type e) (amount e) 1 d) (mirror s) []))"

section \<open>What one call does to the table\<close>

text \<open>
  \<open>grows P s s'\<close>: the call left the table alone or appended one entry that satisfies \<open>P\<close>
  and the table's constraints.
\<close>

definition grows :: "(ledger_entry \<Rightarrow> bool) \<Rightarrow> ledger \<Rightarrow> ledger \<Rightarrow> bool" where
  "grows P s s' \<longleftrightarrow>
     rows s' = rows s
     \<or> (\<exists>e. rows s' = rows s @ [e] \<and> \<not> has_id (ledger_id e) (rows s) \<and> valid_type (entry_type e)
            \<and> 0 \<le> amount e \<and> P e)"

lemma pg_execute_select [simp]:
  "fst (pg_execute oc (select_stmt P) s) = s"
  by (cases oc) (simp_all add: pg_execute_def select_stmt_def)

lemma pg_execute_select_res:
  "pg_execute oc (select_stmt P) s = (s', r) \<Longrightarrow> s' = s \<and> (r = Inl PGUnavailableError \<or> r = Inr (filter P (rows s)))"
  by (cases oc) (auto simp: pg_execute_def select_stmt_def)

lemma pg_execute_insert:
  "pg_execute oc (insert_stmt e) s = (s', r) \<Longrightarrow>
     mirror s' = mirror s \<and>
     (rows s' = rows s \<and> r = Inl PGUnavailableError
      \<or> rows s' = rows s @ [e] \<and> \<not> has_id (ledger_id e) (rows s) \<and> valid_type (entry_type e))"
  by (cases oc) (auto simp: pg_execute_def insert_stmt_def split: if_splits)

lemma pg_execute_insert_or_ignore:
  "pg_execute oc (insert_or_ignore_stmt e) s = (s', r) \<Longrightarrow>
     mirror s' = mirror s \<and>
     rows s' = (if oc \<noteq> PgDown \<and> valid_type (entry_type e) \<and> \<not> has_id (ledger_id e) (rows s)
                then rows s @ [e] else rows s) \<and>
     (r = Inl PGUnavailableError
      \<or> oc = PgOk \<and> valid_type (entry_type e) \<and> r = Inr (if has_id (ledger_id e) (rows s) then [] else [ledger_id e]))"
  by (cases oc) (auto simp: pg_execute_def insert_or_ignore_stmt_def split: if_splits)

lemma pg_txn_debit:
  assumes "pg_txn oc [advisory_lock_stmt, debit_if_funds_stmt e] s = (s', r)"
    and "entry_type e = ''DEBIT''"
  shows "mirror s' = mirror s \<and>
     rows s' = (if oc \<noteq> PgDown \<and> amount e \<le> balance_rows (rows s) (le_tenant e)
                   \<and> \<not> has_id (ledger_id e) (rows s)
                then rows s @ [e] else rows s) \<and>
     (oc \<noteq> PgOk \<and> r = Inl PGUnavailableError
      \<or> oc = PgOk \<and> r = Inr (if amount e \<le> balance_rows (rows s) (le_tenant e)
                                \<and> \<not> has_id (ledger_id e) (rows s) then [ledger_id e] else []))"
  using assms
  by (cases oc) (auto simp: pg_txn_def advisory_lock_stmt_def debit_if_funds_stmt_def
        insert_or_ignore_stmt_def valid_type_def split: if_splits)

lemma check_money_cases:
  "check_money amt cur = Inl ValueError
   \<or> (\<exists>a c. check_money amt cur = Inr () \<and> amt = Some (Fin a) \<and> cur = Some c \<and> 0 \<le> a)"
  by (cases amt; cases cur)
     (auto simp: check_money_def then_check_def money_val_def str_val_def reject_invalid_money_float
        split: pyfloat.splits)

lemma check_money_ok:
  "check_money amt cur = Inr x \<longleftrightarrow> (\<exists>a c. amt = Some (Fin a) \<and> cur = Some c \<and> 0 \<le> a)"
  by (cases amt; cases cur)
     (auto simp: check_money_def then_check_def money_val_def str_val_def reject_invalid_money_float
        split: pyfloat.splits if_splits)

lemma append_grows:
  "grows (\<lambda>e. ledger_id e = fresh \<and> le_tenant e = t \<and> entry_type e = upper etype \<and> amt = Some (Fin (amount e)))
     s (fst (append_entry oc fresh t etype amt cur meta s))"
proof (cases "check_money amt cur")
  case (Inl x)
  then show ?thesis by (simp add: append_entry_def grows_def)
next
  case (Inr u)
  then obtain a c where ac: "amt = Some (Fin a)" "cur = Some c" "0 \<le> a"
    by (auto simp: check_money_ok)
  define e where "e = \<lparr>ledger_id = fresh, le_tenant = t, entry_type = upper etype, amount = a,
                    currency = c, metadata = meta\<rparr>"
  obtain s' r where ex: "pg_execute oc (insert_stmt e) s = (s', r)" by force
  from pg_execute_insert [OF ex] show ?thesis
    using Inr ac ex by (cases r) (auto simp: append_entry_def grows_def e_def)
qed

lemma credit_rows:
  "rows (fst (credit H o1 o2 fresh t amt cur key meta s)) =
     (case (amt, cur) of
        (Some (Fin a), Some c) \<Rightarrow>
          (let i = (if truthy key then idem_ledger_id H t (the key) else fresh);
               m = (if truthy key then AList.update ''idempotency_key'' (PStr (the key)) meta else meta);
               e = \<lparr>ledger_id = i, le_tenant = t, entry_type = ''CREDIT'', amount = a,
                    currency = c, metadata = m\<rparr>
           in if 0 \<le> a \<and> o1 \<noteq> PgDown \<and> \<not> has_id i (rows s) then rows s @ [e] else rows s)
      | _ \<Rightarrow> rows s)"
proof (cases "check_money amt cur")
  case (Inl x)
  with check_money_ok [of amt cur "()"] have "\<not> (\<exists>a c. amt = Some (Fin a) \<and> cur = Some c \<and> 0 \<le> a)"
    by auto
  with Inl show ?thesis by (auto simp: credit_def Let_def split: option.splits pyfloat.splits)
next
  case (Inr u)
  then obtain a c where ac: "amt = Some (Fin a)" "cur = Some c" "0 \<le> a"
    by (auto simp: check_money_ok)
  define i where "i = (if truthy key then idem_ledger_id H t (the key) else fresh)"
  define m where "m = (if truthy key then AList.update ''idempotency_key'' (PStr (the key)) meta else meta)"
  define e where "e = \<lparr>ledger_id = i, le_tenant = t, entry_type = ''CREDIT'', amount = a,
                    currency = c, metadata = m\<rparr>"
  obtain s' r where ex: "pg_execute o1 (insert_or_ignore_stmt e) s = (s', r)" by force
  note P = pg_execute_insert_or_ignore [OF ex]
  have "rows (fst (credit H o1 o2 fresh t amt cur key meta s)) = rows s'"
    using Inr ac ex unfolding credit_def Let_def
    by (auto simp: e_def i_def m_def split: sum.splits list.splits prod.splits
        dest: pg_execute_select_res)
  with P ac show ?thesis
    by (simp add: Let_def e_def i_def m_def valid_type_def)
qed

lemma credit_grows:
  "grows (\<lambda>e. ledger_id e = (if truthy key then idem_ledger_id H t (the key) else fresh)
              \<and> le_tenant e = t \<and> entry_type e = ''CREDIT'' \<and> amt = Some (Fin (amount e)))
     s (fst (credit H o1 o2 fresh t amt cur key meta s))"
  unfolding grows_def credit_rows
  by (auto simp: Let_def valid_type_def split: option.splits pyfloat.splits)

lemma ledger_idem_lookup_res:
  "ledger_idem_lookup oc i t a cur m s = (s', r) \<Longrightarrow>
     s' = s \<and> (r = Inl PGUnavailableError
       \<or> r = (case filter (\<lambda>r. ledger_id r = i \<and> le_tenant r = t) (rows s) of
                [] \<Rightarrow> Inr None
              | x # _ \<Rightarrow> if idem_matches x a cur m then Inr (Some i) else Inl LedgerIdemMismatchError))"
  by (auto simp: ledger_idem_lookup_def split: prod.splits sum.splits list.splits
      dest!: pg_execute_select_res)

lemma debit_if_funds_rows:
  "rows (fst (debit_if_funds H o1 o2 t amt cur key meta s)) =
     (case amt of
        Fin a \<Rightarrow>
          (let i = idem_ledger_id H t (the key);
               e = \<lparr>ledger_id = i, le_tenant = t, entry_type = ''DEBIT'', amount = a, currency = cur,
                    metadata = AList.update ''idempotency_key'' (PStr (the key)) meta\<rparr>
           in if 0 \<le> a \<and> truthy key \<and> o1 \<noteq> PgDown \<and> a \<le> balance_rows (rows s) t \<and> \<not> has_id i (rows s)
              then rows s @ [e] else rows s)
      | _ \<Rightarrow> rows s)"
proof (cases "\<exists>a. amt = Fin a \<and> 0 \<le> a \<and> truthy key")
  case False
  then show ?thesis
    by (cases amt) (auto simp: debit_if_funds_def reject_invalid_money_float Let_def)
next
  case True
  then obtain a where a: "amt = Fin a" "0 \<le> a" and k: "truthy key" by auto
  define i where "i = idem_ledger_id H t (the key)"
  define m where "m = AList.update ''idempotency_key'' (PStr (the key)) meta"
  define e where "e = \<lparr>ledger_id = i, le_tenant = t, entry_type = ''DEBIT'', amount = a,
                    currency = cur, metadata = m\<rparr>"
  obtain s' r where ex: "pg_txn o1 [advisory_lock_stmt, debit_if_funds_stmt e] s = (s', r)" by force
  have P: "rows s' = (if o1 \<noteq> PgDown \<and> a \<le> balance_rows (rows s) t \<and> \<not> has_id i (rows s)
                then rows s @ [e] else rows s)"
    using pg_txn_debit [OF ex] by (simp add: e_def)
  have "rows (fst (debit_if_funds H o1 o2 t amt cur key meta s)) = rows s'"
    using a k ex unfolding debit_if_funds_def Let_def
    by (auto simp: e_def i_def m_def reject_invalid_money_float
        split: sum.splits list.splits prod.splits pyexc.splits option.splits
        dest: ledger_idem_lookup_res)
  with P a k show ?thesis by (simp add: Let_def e_def i_def m_def)
qed

lemma debit_if_funds_grows:
  "grows (\<lambda>e. ledger_id e = idem_ledger_id H t (the key) \<and> le_tenant e = t \<and> entry_type e = ''DEBIT''
              \<and> amt = Fin (amount e) \<and> amount e \<le> balance_rows (rows s) t)
     s (fst (debit_if_funds H o1 o2 t amt cur key meta s))"
  unfolding grows_def debit_if_funds_rows
  by (auto simp: Let_def valid_type_def split: pyfloat.splits)

section \<open>Invariant and reachable ledgers\<close>

definition ledger_inv :: "ledger \<Rightarrow> bool" where
  "ledger_inv s \<longleftrightarrow>
     distinct (map ledger_id (rows s))
     \<and> (\<forall>e\<in>set (rows s). valid_type (entry_type e) \<and> 0 \<le> amount e)
     \<and> set (mirror s) \<subseteq> set (rows s)"

definition mirrored :: "ledger \<Rightarrow> ledger \<Rightarrow> bool" where
  "mirrored s s' \<longleftrightarrow> set (mirror s') \<subseteq> set (mirror s) \<union> set (rows s')"

lemma append_mirror: "mirrored s (fst (append_entry oc fresh t etype amt cur meta s))"
  unfolding append_entry_def mirrored_def
  by (auto simp: Let_def split: sum.splits option.splits pyfloat.splits prod.splits
      dest!: pg_execute_insert)

lemma credit_mirror: "mirrored s (fst (credit H o1 o2 fresh t amt cur key meta s))"
  unfolding credit_def mirrored_def
  by (auto simp: Let_def valid_type_def split: sum.splits option.splits pyfloat.splits prod.splits list.splits if_splits
      dest!: pg_execute_insert_or_ignore pg_execute_select_res)

lemma debit_if_funds_mirror: "mirrored s (fst (debit_if_funds H o1 o2 t amt cur key meta s))"
  unfolding debit_if_funds_def mirrored_def
  by (auto simp: Let_def split: sum.splits option.splits pyfloat.splits prod.splits list.splits pyexc.splits if_splits
      dest!: pg_txn_debit ledger_idem_lookup_res)

lemma grows_inv:
  assumes "grows P s s'" "mirrored s s'" "ledger_inv s"
  shows "ledger_inv s'"
  using assms by (auto simp: grows_def mirrored_def ledger_inv_def has_id_def)

lemma grows_any: "grows P s s' \<Longrightarrow> grows (\<lambda>_. True) s s'"
  by (auto simp: grows_def)

lemma refund_cases:
  "fst (refund H o1 o2 fresh t amt cur job_id reason s) = s
   \<or> (\<exists>key meta. fst (refund H o1 o2 fresh t amt cur job_id reason s) = fst (credit H o1 o2 fresh t amt cur key meta s))"
  by (auto simp: refund_def)

lemma debit_fst: "fst (debit oc fresh t amt cur meta s) = fst (append_entry oc fresh t ''DEBIT'' amt cur meta s)"
  by (auto simp: debit_def split: prod.splits sum.splits)

inductive ledger_step :: "ledger \<Rightarrow> ledger \<Rightarrow> bool" where
  step_append: "ledger_step s (fst (append_entry oc fresh t etype amt cur meta s))"
| step_credit: "ledger_step s (fst (credit H o1 o2 fresh t amt cur key meta s))"
| step_refund: "ledger_step s (fst (refund H o1 o2 fresh t amt cur job_id reason s))"
| step_debit: "ledger_step s (fst (debit oc fresh t amt cur meta s))"
| step_debit_if_funds: "ledger_step s (fst (debit_if_funds H o1 o2 t amt cur key meta s))"

lemma ledger_step_grows:
  "ledger_step s s' \<Longrightarrow> grows (\<lambda>_. True) s s' \<and> mirrored s s'"
proof (induction rule: ledger_step.induct)
  case (step_append s oc fresh t etype amt cur meta)
  show ?case by (intro conjI append_mirror grows_any [OF append_grows])
next
  case (step_credit s H o1 o2 fresh t amt cur key meta)
  show ?case by (intro conjI credit_mirror grows_any [OF credit_grows])
next
  case (step_refund s H o1 o2 fresh t amt cur job_id reason)
  show ?case
    using refund_cases [of H o1 o2 fresh t amt cur job_id reason s] credit_mirror
      grows_any [OF credit_grows]
    by (metis (no_types, lifting) Un_upper1 grows_def mirrored_def)
next
  case (step_debit s oc fresh t amt cur meta)
  show ?case unfolding debit_fst by (intro conjI append_mirror grows_any [OF append_grows])
next
  case (step_debit_if_funds s H o1 o2 t amt cur key meta)
  show ?case by (intro conjI debit_if_funds_mirror grows_any [OF debit_if_funds_grows])
qed

interpretation led: transition_system "\<lambda>s. s = ledger_init" ledger_step .

lemma ledger_reach_inv: "led.reach s \<Longrightarrow> ledger_inv s"
proof (rule led.invariant_reach [where I = ledger_inv])
  show "\<And>s. s = ledger_init \<Longrightarrow> ledger_inv s"
    by (simp add: ledger_init_def ledger_inv_def)
  show "\<And>s t. ledger_inv s \<Longrightarrow> ledger_step s t \<Longrightarrow> ledger_inv t"
    using ledger_step_grows grows_inv by blast
qed

lemma ledger_path_inv: "led.path s t \<Longrightarrow> ledger_inv s \<Longrightarrow> ledger_inv t"
  by (rule led.path_preserves [where P = ledger_inv]) (use ledger_step_grows grows_inv in blast)+

lemma ledger_path_append: "led.path s t \<Longrightarrow> \<exists>es. rows t = rows s @ es"
  by (rule led.path_rel [where R = "\<lambda>s t. \<exists>es. rows t = rows s @ es"])
     (auto simp: grows_def dest!: ledger_step_grows)

section \<open>Balances\<close>

lemma balance_rows_Nil [simp]: "balance_rows [] t = 0"
  by (simp add: balance_rows_def)

lemma balance_rows_append [simp]:
  "balance_rows (rs @ rs') t = balance_rows rs t + balance_rows rs' t"
  by (simp add: balance_rows_def)

lemma balance_rows_single [simp]:
  "balance_rows [e] t = (if le_tenant e = t then signed e else 0)"
  by (simp add: balance_rows_def)

text \<open>The steps of a ledger whose debits are all conditional (no unconditional \<open>debit\<close>).\<close>

inductive funded_step :: "ledger \<Rightarrow> ledger \<Rightarrow> bool" where
  funded_credit: "funded_step s (fst (credit H o1 o2 fresh t amt cur key meta s))"
| funded_refund: "funded_step s (fst (refund H o1 o2 fresh t amt cur job_id reason s))"
| funded_debit: "funded_step s (fst (debit_if_funds H o1 o2 t amt cur key meta s))"

interpretation fled: transition_system "\<lambda>s. s = ledger_init" funded_step .

lemma credit_balance_mono:
  "balance_rows (rows s) u \<le> balance_rows (rows (fst (credit H o1 o2 fresh t amt cur key meta s))) u"
  using credit_grows [of key H t fresh amt s o1 o2 cur meta] by (auto simp: grows_def signed_def)

lemma debit_if_funds_balance:
  "balance_rows (rows (fst (debit_if_funds H o1 o2 t amt cur key meta s))) u =
     balance_rows (rows s) u
     \<or> u = t \<and> (\<exists>a. amt = Fin a \<and> 0 \<le> a \<and> a \<le> balance_rows (rows s) t
          \<and> balance_rows (rows (fst (debit_if_funds H o1 o2 t amt cur key meta s))) u
              = balance_rows (rows s) t - a)"
  using debit_if_funds_grows [of H t key amt s o1 o2 cur meta]
  by (auto simp: grows_def signed_def split: if_splits)

lemma funded_step_nonneg:
  "funded_step s s' \<Longrightarrow> \<forall>u. 0 \<le> balance_rows (rows s) u \<Longrightarrow> \<forall>u. 0 \<le> balance_rows (rows s') u"
proof (induction rule: funded_step.induct)
  case (funded_credit s H o1 o2 fresh t amt cur key meta)
  then show ?case using credit_balance_mono order_trans by blast
next
  case (funded_refund s H o1 o2 fresh t amt cur job_id reason)
  then show ?case
    using refund_cases [of H o1 o2 fresh t amt cur job_id reason s] credit_balance_mono order_trans
    by (metis (no_types, lifting))
next
  case (funded_debit s H o1 o2 t amt cur key meta)
  show ?case
  proof
    fix u
    show "0 \<le> balance_rows (rows (fst (debit_if_funds H o1 o2 t amt cur key meta s))) u"
      using debit_if_funds_balance [of H o1 o2 t amt cur key meta s u] funded_debit by fastforce
  qed
qed

section \<open>Exactly-once writes\<close>

definition debit_entry :: "(string \<Rightarrow> string) \<Rightarrow> string \<Rightarrow> pyfloat \<Rightarrow> string \<Rightarrow> string option \<Rightarrow> pydict \<Rightarrow> ledger_entry" where
  "debit_entry H t amt cur key meta =
     \<lparr>ledger_id = idem_ledger_id H t (the key), le_tenant = t, entry_type = ''DEBIT'',
      amount = (case amt of Fin a \<Rightarrow> a | _ \<Rightarrow> 0), currency = cur,
      metadata = AList.update ''idempotency_key'' (PStr (the key)) meta\<rparr>"

definition debit_fires :: "string \<Rightarrow> pyfloat \<Rightarrow> string option \<Rightarrow> pg_outcome \<times> pg_outcome \<Rightarrow> ledger_entry list \<Rightarrow> bool" where
  "debit_fires t amt key os rs =
     (fst os \<noteq> PgDown \<and> truthy key \<and> (case amt of Fin a \<Rightarrow> 0 \<le> a \<and> a \<le> balance_rows rs t | _ \<Rightarrow> False))"

interpretation once_debit: insert_once
  "\<lambda>os s. fst (debit_if_funds H (fst os) (snd os) t amt cur key meta s)" rows
  "has_id (idem_ledger_id H t (the key))" "debit_fires t amt key"
  "\<lambda>rs. rs @ [debit_entry H t amt cur key meta]"
  for H t amt cur key meta
proof (unfold_locales, goal_cases)
  case (1 s oc)
  then show ?case by (cases amt) (simp_all add: debit_if_funds_rows Let_def)
next
  case (2 s oc)
  then show ?case
    by (cases amt) (auto simp: debit_if_funds_rows Let_def debit_fires_def debit_entry_def)
next
  case (3 oc v)
  then show ?case by (simp add: has_id_def debit_entry_def)
qed

definition credit_entry :: "(string \<Rightarrow> string) \<Rightarrow> string \<Rightarrow> pyfloat option \<Rightarrow> string option \<Rightarrow> string \<Rightarrow> pydict \<Rightarrow> ledger_entry" where
  "credit_entry H t amt cur k meta =
     \<lparr>ledger_id = idem_ledger_id H t k, le_tenant = t, entry_type = ''CREDIT'',
      amount = (case amt of Some (Fin a) \<Rightarrow> a | _ \<Rightarrow> 0), currency = (case cur of Some c \<Rightarrow> c | None \<Rightarrow> []),
      metadata = AList.update ''idempotency_key'' (PStr k) meta\<rparr>"

definition credit_fires :: "pyfloat option \<Rightarrow> string option \<Rightarrow> pg_outcome \<times> pg_outcome \<Rightarrow> ledger_entry list \<Rightarrow> bool" where
  "credit_fires amt cur os rs =
     (fst os \<noteq> PgDown \<and> (case (amt, cur) of (Some (Fin a), Some _) \<Rightarrow> 0 \<le> a | _ \<Rightarrow> False))"

text \<open>\<open>refund\<close> is \<open>credit\<close> under the key \<open>refund:<job_id>\<close>; both are insert-once writers.\<close>

definition refund_key :: "string \<Rightarrow> string" where
  "refund_key job_id = ''refund:'' @ job_id"

interpretation once_credit: insert_once
  "\<lambda>os s. fst (credit H (fst os) (snd os) fresh t amt cur (Some (c # k)) meta s)" rows
  "has_id (idem_ledger_id H t (c # k))" "credit_fires amt cur"
  "\<lambda>rs. rs @ [credit_entry H t amt cur (c # k) meta]"
  for H fresh t amt cur c k meta
proof (unfold_locales, goal_cases)
  case (1 s oc)
  then show ?case by (simp add: credit_rows Let_def split: option.splits pyfloat.splits)
next
  case (2 s oc)
  then show ?case
    by (auto simp: credit_rows Let_def credit_fires_def credit_entry_def split: option.splits pyfloat.splits)
next
  case (3 oc v)
  then show ?case by (simp add: has_id_def credit_entry_def)
qed

section \<open>Results of a conditional debit\<close>

definition debit_meta :: "string option \<Rightarrow> pydict \<Rightarrow> pydict" where
  "debit_meta key meta = AList.update ''idempotency_key'' (PStr (the key)) meta"

text \<open>
  The result of a valid call, branch by branch: the transaction wrote its row and was
  acknowledged, or the lookup under the key decides.
\<close>

lemma debit_if_funds_result:
  assumes "debit_if_funds H o1 o2 t (Fin a) cur key meta s = (s', r)" "0 \<le> a" "truthy key"
  defines "i \<equiv> idem_ledger_id H t (the key)"
  shows "o1 = PgOk \<and> \<not> has_id i (rows s) \<and> a \<le> balance_rows (rows s) t \<and> r = Inr (Some i, True)
     \<or> (\<exists>l. ledger_idem_lookup o2 i t a cur (debit_meta key meta) s' = (s', l) \<and>
          (o1 = PgOk \<and> (has_id i (rows s) \<or> balance_rows (rows s) t < a) \<and> rows s' = rows s
             \<and> r = (case l of Inl x \<Rightarrow> Inl x | Inr x \<Rightarrow> Inr (x, False))
           \<or> o1 \<noteq> PgOk
             \<and> r = (case l of Inl x \<Rightarrow> Inl x | Inr None \<Rightarrow> Inl PGUnavailableError
                     | Inr (Some x) \<Rightarrow> Inr (Some x, True))))"
proof -
  define e where "e = \<lparr>ledger_id = i, le_tenant = t, entry_type = ''DEBIT'', amount = a,
                    currency = cur, metadata = debit_meta key meta\<rparr>"
  obtain s1 r1 where ex: "pg_txn o1 [advisory_lock_stmt, debit_if_funds_stmt e] s = (s1, r1)" by force
  obtain s2 l where lk: "ledger_idem_lookup o2 i t a cur (debit_meta key meta) s1 = (s2, l)" by force
  have s2: "s2 = s1" using ledger_idem_lookup_res [OF lk] by simp
  note P = pg_txn_debit [OF ex, unfolded e_def, simplified, folded e_def]
  from P consider
      (fail) "o1 \<noteq> PgOk" "r1 = Inl PGUnavailableError"
    | (new) "o1 = PgOk" "a \<le> balance_rows (rows s) t" "\<not> has_id i (rows s)" "r1 = Inr [i]"
    | (old) "o1 = PgOk" "has_id i (rows s) \<or> balance_rows (rows s) t < a" "r1 = Inr []" "rows s1 = rows s"
    by (cases "a \<le> balance_rows (rows s) t \<and> \<not> has_id i (rows s)") (auto simp: e_def)
  then show ?thesis
  proof cases
    case fail
    then show ?thesis
      using assms(1-3) ex lk s2 unfolding debit_if_funds_def Let_def i_def e_def debit_meta_def
      by (auto simp: reject_invalid_money_float split: sum.splits option.splits)
  next
    case new
    then show ?thesis
      using assms(1-3) ex unfolding debit_if_funds_def Let_def i_def e_def debit_meta_def
      by (auto simp: reject_invalid_money_float)
  next
    case old
    then show ?thesis
      using assms(1-3) ex lk s2 unfolding debit_if_funds_def Let_def i_def e_def debit_meta_def
      by (auto simp: reject_invalid_money_float split: sum.splits)
  qed
qed

lemma debit_if_funds_valid:
  "debit_if_funds H o1 o2 t amt cur key meta s = (s', Inr x) \<Longrightarrow>
     (\<exists>a. amt = Fin a \<and> 0 \<le> a) \<and> truthy key"
  by (cases amt) (auto simp: debit_if_funds_def reject_invalid_money_float split: if_splits)

lemma lookup_SomeD:
  "ledger_idem_lookup oc i t a cur m s = (s', Inr (Some rid)) \<Longrightarrow>
     rid = i \<and> (\<exists>x\<in>set (rows s). ledger_id x = i \<and> le_tenant x = t \<and> idem_matches x a cur m)"
  by (drule ledger_idem_lookup_res) (auto simp: filter_eq_Cons_iff split: list.splits if_splits)

text \<open>A success means that the debit is in the table.\<close>

lemma debit_if_funds_success:
  assumes "debit_if_funds H o1 o2 t (Fin a) cur key meta s = (s', Inr (Some rid, b))"
    and "0 \<le> a" "truthy key"
  shows "rid = idem_ledger_id H t (the key)
     \<and> (\<exists>x\<in>set (rows s'). ledger_id x = rid \<and> le_tenant x = t
          \<and> idem_matches x a cur (debit_meta key meta))"
proof -
  define i where "i = idem_ledger_id H t (the key)"
  from debit_if_funds_result [OF assms(1) assms(2,3), folded i_def]
  consider (new) "o1 = PgOk" "\<not> has_id i (rows s)" "a \<le> balance_rows (rows s) t" "rid = i"
    | (old) "ledger_idem_lookup o2 i t a cur (debit_meta key meta) s' = (s', Inr (Some rid))"
    by (fastforce split: sum.splits option.splits)
  then show ?thesis
  proof cases
    case new
    have "rows s' = rows s @ [debit_entry H t (Fin a) cur key meta]"
      using debit_if_funds_rows [of H o1 o2 t "Fin a" cur key meta s] assms new
      by (simp add: Let_def i_def debit_entry_def)
    then show ?thesis using new(4)
      by (auto simp: debit_entry_def i_def idem_matches_def debit_meta_def)
  next
    case old
    from lookup_SomeD [OF old] show ?thesis by (auto simp: i_def)
  qed
qed

lemma unique_id_filter:
  assumes "distinct (map ledger_id rs)" "x \<in> set rs" "ledger_id x = i" "le_tenant x = t"
  shows "filter (\<lambda>r. ledger_id r = i \<and> le_tenant r = t) rs = [x]"
  using assms
proof (induction rs)
  case (Cons y rs)
  show ?case
  proof (cases "x = y")
    case True
    with Cons.prems have "filter (\<lambda>r. ledger_id r = i \<and> le_tenant r = t) rs = []"
      by (auto simp: filter_empty_conv image_iff)
    with True Cons.prems show ?thesis by simp
  next
    case False
    with Cons.prems have "ledger_id y \<noteq> i" by force
    with False Cons show ?thesis by simp
  qed
qed simp

lemma lookup_unique:
  assumes "ledger_inv s" "x \<in> set (rows s)" "ledger_id x = i" "le_tenant x = t"
    and "ledger_idem_lookup oc i t a cur m s = (s', l)"
  shows "l = Inl PGUnavailableError
     \<or> l = (if idem_matches x a cur m then Inr (Some i) else Inl LedgerIdemMismatchError)"
  using ledger_idem_lookup_res [OF assms(5)] unique_id_filter [OF _ assms(2-4)] assms(1)
  by (auto simp: ledger_inv_def)

text \<open>A retry of a debit whose entry is already there writes nothing.\<close>

lemma debit_again:
  assumes inv: "ledger_inv s" and x: "x \<in> set (rows s)" "ledger_id x = idem_ledger_id H t (the key)" "le_tenant x = t"
    and a: "0 \<le> a" "truthy key"
    and d: "debit_if_funds H o1 o2 t (Fin a) cur key meta s = (s', r)"
  shows "rows s' = rows s \<and>
     (r = Inl PGUnavailableError
      \<or> (if idem_matches x a cur (debit_meta key meta)
         then \<exists>b. r = Inr (Some (ledger_id x), b) else r = Inl LedgerIdemMismatchError))"
proof -
  have has: "has_id (idem_ledger_id H t (the key)) (rows s)" using x(1) x(2)[symmetric] by (auto simp: has_id_def)
  then have rs: "rows s' = rows s"
    using debit_if_funds_rows [of H o1 o2 t "Fin a" cur key meta s] d by (simp add: Let_def)
  with inv d debit_if_funds_mirror [of s H o1 o2 t "Fin a" cur key meta]
  have inv': "ledger_inv s'" by (auto simp: ledger_inv_def mirrored_def)
  from debit_if_funds_result [OF d a] has obtain l
    where l: "ledger_idem_lookup o2 (idem_ledger_id H t (the key)) t a cur (debit_meta key meta) s' = (s', l)"
      and r: "r = (case l of Inl x \<Rightarrow> Inl x | Inr x \<Rightarrow> Inr (x, False))
        \<or> r = (case l of Inl x \<Rightarrow> Inl x | Inr None \<Rightarrow> Inl PGUnavailableError
                     | Inr (Some x) \<Rightarrow> Inr (Some x, True))"
    by blast
  have "x \<in> set (rows s')" using x(1) rs by simp
  from lookup_unique [OF inv' this x(2,3) l] r rs x(2) show ?thesis
    by (auto split: if_splits)
qed

section \<open>The summary loop\<close>

lemma map_of_summary_add:
  "map_of (summary_add t ty tot cnt d) u =
     (if t = u then Some (summary_upd ty tot cnt (case map_of d u of None \<Rightarrow> summary_zero | Some x \<Rightarrow> x))
      else map_of d u)"
  by (simp add: summary_add_def Let_def update_conv)

lemma summary_fold:
  "map_of (fold (\<lambda>(t, ty, tot, cnt) d. summary_add t ty tot cnt d) gs d) u =
     (let mine = filter (\<lambda>g. fst g = u) gs
      in if mine = [] then map_of d u
         else let x = (case map_of d u of None \<Rightarrow> summary_zero | Some x \<Rightarrow> x)
              in Some (x\<lparr>credits := credits x + (\<Sum>(t, ty, tot, cnt)\<leftarrow>mine. if ty = ''CREDIT'' then tot else 0),
                         debits := debits x + (\<Sum>(t, ty, tot, cnt)\<leftarrow>mine. if ty = ''CREDIT'' then 0 else tot),
                         n_entries := n_entries x + (\<Sum>(t, ty, tot, cnt)\<leftarrow>mine. cnt)\<rparr>))"
proof (induction gs arbitrary: d)
  case (Cons g gs)
  obtain t ty tot cnt where g: "g = (t, ty, tot, cnt)" by (cases g)
  show ?case
  proof (cases "t = u")
    case True
    then show ?thesis
      unfolding g by (simp add: Cons.IH map_of_summary_add summary_upd_def Let_def add.assoc)
  next
    case False
    then show ?thesis unfolding g by (simp add: Cons.IH map_of_summary_add Let_def)
  qed
qed simp

lemma map_of_summary_net:
  "map_of (summary_net d) u = map_option (\<lambda>x. x\<lparr>net := credits x - debits x\<rparr>) (map_of d u)"
  by (induction d) (auto simp: summary_net_def)

lemma net_sum:
  "(\<Sum>(t, ty, tot, cnt)\<leftarrow>gs. if ty = c then tot else 0) - (\<Sum>(t, ty, tot, cnt)\<leftarrow>gs. if ty = c then 0 else tot)
   = (\<Sum>(t, ty, tot, cnt)\<leftarrow>gs. if ty = c then tot else - tot)"
  for gs :: "('t \<times> 'c \<times> rat \<times> nat) list"
  by (induction gs) auto

lemma summary_of_groups:
  "map_option (\<lambda>x. (net x, n_entries x))
     (map_of (summary_net (fold (\<lambda>(t, ty, tot, cnt) d. summary_add t ty tot cnt d) gs [])) u) =
   (let mine = filter (\<lambda>g. fst g = u) gs
    in if mine = [] then None
       else Some (\<Sum>(t, ty, tot, cnt)\<leftarrow>mine. if ty = ''CREDIT'' then tot else - tot,
                  \<Sum>(t, ty, tot, cnt)\<leftarrow>mine. cnt))"
  unfolding map_of_summary_net summary_fold Let_def
  by (simp add: summary_zero_def net_sum)

text \<open>Grouping by a key and summing the groups sums everything once.\<close>

lemma sum_groups:
  fixes g :: "'e \<Rightarrow> 'a :: comm_monoid_add"
  assumes "finite K" "key ` set rs \<subseteq> K"
  shows "(\<Sum>p\<in>K. sum_list (map g (filter (\<lambda>e. key e = p) rs))) = sum_list (map g rs)"
  using assms(2)
proof (induction rs)
  case (Cons e rs)
  have "(\<Sum>p\<in>K. sum_list (map g (filter (\<lambda>e. key e = p) (e # rs))))
        = (\<Sum>p\<in>K. (if key e = p then g e else 0) + sum_list (map g (filter (\<lambda>e. key e = p) rs)))"
    by (rule sum.cong) auto
  also have "\<dots> = g e + sum_list (map g rs)"
    using Cons assms(1) by (simp add: sum.distrib sum.delta')
  finally show ?case by simp
qed simp

lemma group_rows_mine:
  "filter (\<lambda>g. fst g = u) (group_rows rs) =
     map (\<lambda>(t, ty). let es = filter (\<lambda>e. le_tenant e = t \<and> entry_type e = ty) rs
                    in (t, ty, sum_list (map amount es), length es))
       (filter (\<lambda>p. fst p = u) (remdups (map (\<lambda>e. (le_tenant e, entry_type e)) rs)))"
  by (simp add: group_rows_def filter_map o_def Let_def split_def)

lemma group_sums:
  fixes rs u
  defines "mine \<equiv> filter (\<lambda>g. fst g = u) (group_rows rs)"
  shows "(\<Sum>(t, ty, tot, cnt)\<leftarrow>mine. if ty = ''CREDIT'' then tot else - tot) = balance_rows rs u"
    and "(\<Sum>(t, ty, tot, cnt)\<leftarrow>mine. cnt) = length (filter (\<lambda>e. le_tenant e = u) rs)"
    and "mine = [] \<longleftrightarrow> u \<notin> le_tenant ` set rs"
proof -
  define key where "key = (\<lambda>e :: ledger_entry. (le_tenant e, entry_type e))"
  define K where "K = {p \<in> set (map key rs). fst p = u}"
  define R where "R = filter (\<lambda>e. le_tenant e = u) rs"
  have keyf: "filter (\<lambda>e. le_tenant e = v \<and> entry_type e = w) rs = filter (\<lambda>e. key e = (v, w)) R"
    if "(v, w) \<in> K" for v w
    using that by (auto simp: R_def key_def K_def intro!: filter_cong)
  have dist: "distinct (filter (\<lambda>p. fst p = u) (remdups (map key rs)))"
    and setK: "set (filter (\<lambda>p. fst p = u) (remdups (map key rs))) = K"
    by (auto simp: K_def)
  have conv: "sum_list (map f (filter (\<lambda>p. fst p = u) (remdups (map key rs)))) = (\<Sum>p\<in>K. f p)"
    for f :: "string \<times> string \<Rightarrow> 'b :: comm_monoid_add"
    using sum_list_distinct_conv_sum_set [OF dist, of f] setK by simp
  have fin: "finite K" and sub: "key ` set R \<subseteq> K" by (auto simp: K_def R_def key_def)
  have signed_key: "sum_list (map signed (filter (\<lambda>e. key e = p) R)) =
      (let x = sum_list (map amount (filter (\<lambda>e. key e = p) R)) in if snd p = ''CREDIT'' then x else - x)" for p
    by (induction R) (auto simp: signed_def key_def Let_def)
  have "(\<Sum>(t, ty, tot, cnt)\<leftarrow>mine. if ty = ''CREDIT'' then tot else - tot)
        = (\<Sum>p\<in>K. let x = sum_list (map amount (filter (\<lambda>e. key e = p) R)) in if snd p = ''CREDIT'' then x else - x)"
    unfolding mine_def group_rows_mine key_def [symmetric] map_map conv
    by (rule sum.cong) (auto simp: keyf Let_def split_def)
  also have "\<dots> = balance_rows rs u"
    unfolding signed_key [symmetric] sum_groups [OF fin sub] by (simp add: balance_rows_def R_def)
  finally show "(\<Sum>(t, ty, tot, cnt)\<leftarrow>mine. if ty = ''CREDIT'' then tot else - tot) = balance_rows rs u" .
  have "(\<Sum>(t, ty, tot, cnt)\<leftarrow>mine. cnt) = (\<Sum>p\<in>K. length (filter (\<lambda>e. key e = p) R))"
    unfolding mine_def group_rows_mine key_def [symmetric] map_map conv
    by (rule sum.cong) (auto simp: keyf Let_def split_def)
  also have "\<dots> = length R"
    using sum_groups [OF fin sub, of "\<lambda>_. 1 :: nat"] by (simp add: sum_list_triv)
  finally show "(\<Sum>(t, ty, tot, cnt)\<leftarrow>mine. cnt) = length (filter (\<lambda>e. le_tenant e = u) rs)"
    by (simp add: R_def)
  show "mine = [] \<longleftrightarrow> u \<notin> le_tenant ` set rs"
    unfolding mine_def group_rows_mine by (auto simp: filter_empty_conv)
qed

lemma entry_sums:
  fixes rs u
  defines "mine \<equiv> filter (\<lambda>g. fst g = u) (map (\<lambda>e. (le_tenant e, entry_type e, amount e, 1 :: nat)) rs)"
  shows "(\<Sum>(t, ty, tot, cnt)\<leftarrow>mine. if ty = ''CREDIT'' then tot else - tot) = balance_rows rs u"
    and "(\<Sum>(t, ty, tot, cnt)\<leftarrow>mine. cnt) = length (filter (\<lambda>e. le_tenant e = u) rs)"
    and "mine = [] \<longleftrightarrow> u \<notin> le_tenant ` set rs"
  unfolding mine_def by (induction rs) (auto simp: balance_rows_def signed_def)

definition summary_source :: "pg_outcome \<Rightarrow> ledger \<Rightarrow> ledger_entry list" where
  "summary_source oc s = (if oc = PgOk then rows s else mirror s)"

section \<open>Properties\<close>

text \<open>C15: In every reachable ledger, whatever calls were made and however the database
  failed in between, entry ids are unique, every entry is a CREDIT or a DEBIT of a
  non-negative amount, and every entry of the in-process mirror is a row of the table.\<close>

theorem ledger_reachable_invariant:
  assumes "led.reach s"
  shows "distinct (map ledger_id (rows s))
    \<and> (\<forall>e\<in>set (rows s). (entry_type e = ''CREDIT'' \<or> entry_type e = ''DEBIT'') \<and> 0 \<le> amount e)
    \<and> set (mirror s) \<subseteq> set (rows s)"
  using ledger_reach_inv [OF assms] by (auto simp: ledger_inv_def valid_type_def)

definition ex_credited :: ledger where
  "ex_credited = fst (credit (\<lambda>x. x) PgOk PgOk ''f1'' ''t1'' (Some (Fin 5)) (Some ''USD'') (Some ''topup'') [] ledger_init)"

lemma ex_credited_reach: "led.reach ex_credited"
  unfolding ex_credited_def by (rule led.reach_step [OF led.reach_init [OF refl]]) (rule step_credit)

lemma ex_credited_rows:
  "rows ex_credited = [\<lparr>ledger_id = ''led-t1:topup'', le_tenant = ''t1'', entry_type = ''CREDIT'', amount = 5,
     currency = ''USD'', metadata = [(''idempotency_key'', PStr ''topup'')]\<rparr>]"
  by (simp add: ex_credited_def credit_rows Let_def ledger_init_def has_id_def idem_ledger_id_def)

theorem ledger_reachable_invariant_witness:
  "led.reach ex_credited \<and> length (rows ex_credited) = 1 \<and> distinct (map ledger_id (rows ex_credited))"
  using ledger_reachable_invariant [OF ex_credited_reach] ex_credited_reach by (simp add: ex_credited_rows)

text \<open>C2: A ledger written only through credits, refunds and conditional debits never has a
  tenant with a negative balance, under any pattern of lost and failed commits.\<close>

theorem conditional_debits_never_overdraw:
  assumes "fled.reach s"
  shows "0 \<le> balance_rows (rows s) t"
proof -
  have "\<forall>u. 0 \<le> balance_rows (rows s) u"
    by (rule fled.invariant_reach [where I = "\<lambda>s. \<forall>u. 0 \<le> balance_rows (rows s) u", OF _ _ assms])
       (simp add: ledger_init_def, rule funded_step_nonneg)
  then show ?thesis by blast
qed

theorem conditional_debits_never_overdraw_witness:
  "fled.reach ex_credited \<and> 0 \<le> balance_rows (rows ex_credited) ''t1''"
proof -
  have "fled.reach ex_credited"
    unfolding ex_credited_def by (rule fled.reach_step [OF fled.reach_init [OF refl]]) (rule funded_credit)
  with conditional_debits_never_overdraw [OF this, of "''t1''"] show ?thesis by simp
qed

text \<open>Retrying a debit any number of times, with any outcome of each round trip, charges
  the tenant once if the balance covers the amount and some attempt reached the server, and
  not at all otherwise.\<close>

theorem debit_retries_charge_once:
  assumes "\<not> has_id (idem_ledger_id H t k) (rows s)" and "k \<noteq> []" and "0 \<le> a"
  shows "rows (fold (\<lambda>os s. fst (debit_if_funds H (fst os) (snd os) t (Fin a) cur (Some k) meta s)) oss s) =
    (if a \<le> balance_rows (rows s) t \<and> (\<exists>os\<in>set oss. fst os \<noteq> PgDown)
     then rows s @ [debit_entry H t (Fin a) cur (Some k) meta] else rows s)"
  using once_debit.fold_attempt_once [of H t "Some k" s "Fin a" cur meta oss] assms
  by (auto simp: debit_fires_def)

theorem debit_retries_charge_once_witness:
  "\<not> has_id (idem_ledger_id (\<lambda>x. x) ''t1'' ''job:1'') (rows ex_credited)
   \<and> length (rows (fold (\<lambda>os s. fst (debit_if_funds (\<lambda>x. x) (fst os) (snd os) ''t1'' (Fin 2) ''USD'' (Some ''job:1'') [] s))
        [(PgDown, PgDown), (PgLost, PgDown), (PgLost, PgOk), (PgOk, PgOk)] ex_credited)) = 2"
proof -
  have h: "\<not> has_id (idem_ledger_id (\<lambda>x. x) ''t1'' ''job:1'') (rows ex_credited)"
    by (simp add: ex_credited_rows has_id_def idem_ledger_id_def)
  show ?thesis
    using h debit_retries_charge_once [OF h, of 2 "''USD''" "[]"
        "[(PgDown, PgDown), (PgLost, PgDown), (PgLost, PgOk), (PgOk, PgOk)]"]
    by (simp add: ex_credited_rows balance_rows_def signed_def del: fold_simps)
qed

text \<open>Once a debit reported success, a retry under the same key after any activity of
  other callers writes nothing and answers with the same entry id, or reports an outage.\<close>

theorem debit_success_is_final:
  assumes "ledger_inv s"
    and "debit_if_funds H o1 o2 t amt cur key meta s = (s1, Inr (Some rid, b))"
    and "led.path s1 s2"
    and "debit_if_funds H o3 o4 t amt cur key meta s2 = (s3, r)"
  shows "rows s3 = rows s2 \<and> (r = Inl PGUnavailableError \<or> (\<exists>b'. r = Inr (Some rid, b')))"
proof -
  from debit_if_funds_valid [OF assms(2)] obtain a where a: "amt = Fin a" "0 \<le> a" "truthy key" by auto
  from debit_if_funds_success [OF assms(2)[unfolded a(1)] a(2,3)] obtain x where
    rid: "rid = idem_ledger_id H t (the key)" and x: "x \<in> set (rows s1)" "ledger_id x = rid" "le_tenant x = t"
    and m: "idem_matches x a cur (debit_meta key meta)" by blast
  have "ledger_step s s1" using step_debit_if_funds [of s H o1 o2 t amt cur key meta] assms(2) by simp
  then have inv2: "ledger_inv s2"
    using ledger_step_grows grows_inv assms(1) ledger_path_inv [OF assms(3)] by blast
  have "x \<in> set (rows s2)" using x(1) ledger_path_append [OF assms(3)] by auto
  from debit_again [OF inv2 this, of H t key a o3 o4 cur meta s3 r] x rid a assms(4) m show ?thesis
    by simp
qed

theorem debit_success_is_final_witness:
  "\<exists>s1 b s3 r. debit_if_funds (\<lambda>x. x) PgOk PgOk ''t1'' (Fin 2) ''USD'' (Some ''job:1'') [] ex_credited
        = (s1, Inr (Some ''led-t1:job:1'', b))
     \<and> debit_if_funds (\<lambda>x. x) PgLost PgOk ''t1'' (Fin 2) ''USD'' (Some ''job:1'') [] s1 = (s3, r)
     \<and> rows s3 = rows s1"
proof -
  define r1 where "r1 = debit_if_funds (\<lambda>x. x) PgOk PgOk ''t1'' (Fin 2) ''USD'' (Some ''job:1'') [] ex_credited"
  have d: "r1 = (fst r1, Inr (Some ''led-t1:job:1'', True))"
    unfolding r1_def
    by (simp add: debit_if_funds_def pg_txn_def advisory_lock_stmt_def debit_if_funds_stmt_def ex_credited_rows
        balance_rows_def signed_def insert_or_ignore_stmt_def has_id_def idem_ledger_id_def valid_type_def
        reject_invalid_money_float Let_def)
  obtain s3 r where e: "debit_if_funds (\<lambda>x. x) PgLost PgOk ''t1'' (Fin 2) ''USD'' (Some ''job:1'') [] (fst r1) = (s3, r)"
    by force
  have "rows s3 = rows (fst r1)"
    using debit_success_is_final [OF ledger_reach_inv [OF ex_credited_reach] d [unfolded r1_def] led.path_refl e [unfolded r1_def]]
    by (simp add: r1_def)
  with d e show ?thesis unfolding r1_def by metis
qed

text \<open>The answer "no funds" is never a false alarm: nothing was written, the answer came
  from the server, and either the balance really is below the amount or the key's id belongs
  to another tenant's entry (refused, not charged).\<close>

theorem no_funds_answer_is_sound:
  assumes "debit_if_funds H o1 o2 t amt cur key meta s = (s', Inr (None, b))"
  shows "rows s' = rows s \<and> o1 = PgOk \<and> \<not> b \<and> (\<exists>a. amt = Fin a \<and>
    (balance_rows (rows s) t < a
     \<or> has_id (idem_ledger_id H t (the key)) (rows s)
       \<and> (\<forall>e\<in>set (rows s). ledger_id e = idem_ledger_id H t (the key) \<longrightarrow> le_tenant e \<noteq> t)))"
proof -
  from debit_if_funds_valid [OF assms] obtain a where a: "amt = Fin a" "0 \<le> a" "truthy key" by auto
  from debit_if_funds_result [OF assms [unfolded a(1)] a(2,3)] obtain l where
    l: "ledger_idem_lookup o2 (idem_ledger_id H t (the key)) t a cur (debit_meta key meta) s' = (s', l)"
    and o1: "o1 = PgOk" and rs: "rows s' = rows s"
    and why: "has_id (idem_ledger_id H t (the key)) (rows s) \<or> balance_rows (rows s) t < a"
    and r: "Inr (None, b) = (case l of Inl x \<Rightarrow> Inl x | Inr x \<Rightarrow> Inr (x, False))"
    by (auto split: sum.splits option.splits)
  from r have "l = Inr None" and "\<not> b" by (auto split: sum.splits)
  with ledger_idem_lookup_res [OF l] rs
  have "filter (\<lambda>e. ledger_id e = idem_ledger_id H t (the key) \<and> le_tenant e = t) (rows s) = []"
    by (auto split: list.splits if_splits)
  then show ?thesis using o1 rs why \<open>\<not> b\<close> a(1) by (auto simp: filter_empty_conv)
qed

theorem no_funds_answer_is_sound_witness:
  "\<exists>s'. debit_if_funds (\<lambda>x. x) PgOk PgOk ''t1'' (Fin 9) ''USD'' (Some ''job:1'') [] ex_credited = (s', Inr (None, False))
     \<and> rows s' = rows ex_credited"
proof -
  define r1 where "r1 = debit_if_funds (\<lambda>x. x) PgOk PgOk ''t1'' (Fin 9) ''USD'' (Some ''job:1'') [] ex_credited"
  have d: "r1 = (fst r1, Inr (None, False))"
    unfolding r1_def
    by (simp add: debit_if_funds_def pg_txn_def advisory_lock_stmt_def debit_if_funds_stmt_def ex_credited_rows
        balance_rows_def signed_def ledger_idem_lookup_def pg_execute_def select_stmt_def idem_ledger_id_def
        reject_invalid_money_float Let_def)
  with no_funds_answer_is_sound [OF d [unfolded r1_def]] show ?thesis unfolding r1_def by metis
qed



text \<open>Refunding a job any number of times, with any outcome of each round trip, credits
  it once if some attempt reached the server, and not at all otherwise.\<close>

theorem refund_at_most_once:
  assumes "\<not> has_id (idem_ledger_id H t (refund_key job)) (rows s)" and "job \<noteq> []" and "0 \<le> a"
  shows "rows (fold (\<lambda>os s. fst (refund H (fst os) (snd os) fresh t (Some (Fin a)) (Some cur) (Some job) reason s)) oss s) =
    (if \<exists>os\<in>set oss. fst os \<noteq> PgDown
     then rows s @ [credit_entry H t (Some (Fin a)) (Some cur) (refund_key job)
                      [(''refund_for'', PStr job), (''reason'', PStr reason)]]
     else rows s)"
proof -
  show ?thesis
    using once_credit.fold_attempt_once [where H = H and t = t and c = "CHR ''r''" and k = "''efund:'' @ job"
        and s = s and amt = "Some (Fin a)" and cur = "Some cur" and fresh = fresh
        and meta = "[(''refund_for'', PStr job), (''reason'', PStr reason)]" and os = oss] assms
    by (simp add: refund_def refund_key_def credit_fires_def)
qed

theorem refund_at_most_once_witness:
  "\<not> has_id (idem_ledger_id (\<lambda>x. x) ''t1'' (refund_key ''j1'')) (rows ex_credited)
   \<and> balance_rows (rows (fold (\<lambda>os s. fst (refund (\<lambda>x. x) (fst os) (snd os) ''f'' ''t1'' (Some (Fin 2)) (Some ''USD'') (Some ''j1'') ''r'' s))
        [(PgLost, PgDown), (PgOk, PgDown), (PgOk, PgOk)] ex_credited)) ''t1'' = 7"
proof -
  have h: "\<not> has_id (idem_ledger_id (\<lambda>x. x) ''t1'' (refund_key ''j1'')) (rows ex_credited)"
    by (simp add: ex_credited_rows has_id_def idem_ledger_id_def refund_key_def)
  show ?thesis
    using h refund_at_most_once [OF h, of 2 "''f''" "''USD''" "''r''" "[(PgLost, PgDown), (PgOk, PgDown), (PgOk, PgOk)]"]
    by (simp add: ex_credited_rows balance_rows_def signed_def credit_entry_def del: fold_simps)
qed

text \<open>The per-tenant summary reports, for every tenant with entries, the net amount that
  is the tenant's balance and the number of its entries; from the table when the query
  succeeds, from the mirror otherwise.\<close>

theorem ledger_summary_net_is_balance:
  "map_option (\<lambda>x. (net x, n_entries x)) (map_of (ledger_summary oc s) u) =
     (if u \<in> le_tenant ` set (summary_source oc s)
      then Some (balance_rows (summary_source oc s) u,
                 length (filter (\<lambda>e. le_tenant e = u) (summary_source oc s)))
      else None)"
proof (cases "oc = PgOk")
  case True
  then show ?thesis
    using group_sums [of u "rows s"]
    by (simp add: ledger_summary_def pg_execute_def summary_source_def summary_of_groups Let_def)
next
  case False
  then have "ledger_summary oc s = summary_net (fold (\<lambda>(t, ty, tot, cnt) d. summary_add t ty tot cnt d)
      (map (\<lambda>e. (le_tenant e, entry_type e, amount e, 1)) (mirror s)) [])"
    by (cases oc) (simp_all add: ledger_summary_def pg_execute_def fold_map o_def)
  with False show ?thesis
    using entry_sums [of u "mirror s"]
    by (simp add: summary_of_groups summary_source_def Let_def)
qed

end
