(* ===== verification/Metering.thy ===== *)
theory Metering
  imports Prelude
begin

text \<open>
  The metering engine, \<open>src/billing/pg_metering.py\<close>: the tables \<open>usage_events\<close> (partial unique
  index on tenant, job and event type for real job ids) and \<open>tenant_usage_totals\<close>, which one
  call of \<open>record\<close> changes in one transaction. The in-process fields \<open>events\<close> and
  \<open>tenant_totals\<close> are the fallback of \<open>snapshot\<close>; nothing writes them after construction.

  Shown: the totals are the sums of the recorded events, a real job's event is recorded at most
  once under any pattern of failures, and what the snapshot reports.
\<close>

section \<open>State\<close>

record usage_event =
  ue_tenant :: string
  ue_type :: string
  ue_value :: rat
  ue_job :: "string option"
  ue_cost :: rat
  ue_billed :: bool

record usage_totals =
  ut_gpu :: rat
  ut_cpu :: rat
  ut_gb :: rat
  ut_cost :: rat
  ut_jobs :: nat

record metering =
  usage_rows :: "usage_event list"
  totals_rows :: "(string \<times> usage_totals) list"

definition metering_init :: metering where
  "metering_init = \<lparr>usage_rows = [], totals_rows = []\<rparr>"

definition GPU_RATE :: rat where "GPU_RATE = 1 / 100000"
definition CPU_RATE :: rat where "CPU_RATE = 1 / 1000000"
definition RAM_RATE :: rat where "RAM_RATE = 1 / 10000000"

text \<open>\<open>UsageEvent.__post_init__\<close>: the price by event type.\<close>

definition usage_event_cost :: "string \<Rightarrow> rat \<Rightarrow> rat" where
  "usage_event_cost etype v =
     (if etype = ''gpu_usage'' then v * GPU_RATE
      else if etype = ''cpu_usage'' then v * CPU_RATE
      else if etype = ''storage_usage'' then v * RAM_RATE
      else if etype = ''plugin_exec'' then v * (1 / 1000)
      else if etype = ''token_usage'' then v
      else 0)"

section \<open>Recording\<close>

definition py_or :: "rat \<Rightarrow> rat \<Rightarrow> rat" where
  "py_or a b = (if a \<noteq> 0 then a else b)"

text \<open>The arguments of \<open>record\<close>.\<close>

record usage_call =
  uc_type :: string
  uc_tenant :: string
  uc_job :: "string option"
  uc_gpu :: rat
  uc_cpu :: rat
  uc_gb :: rat
  uc_plugins :: nat
  uc_billed :: bool
  uc_cost :: "rat option"
  uc_value :: "rat option"

definition real_job_id :: "string option \<Rightarrow> bool" where
  "real_job_id j = (truthy j \<and> the j \<notin> {''manual'', ''auto''})"

definition usage_event_of :: "usage_call \<Rightarrow> usage_event" where
  "usage_event_of c =
     (let v = (case uc_value c of Some x \<Rightarrow> x
               | None \<Rightarrow> py_or (uc_gpu c) (py_or (uc_cpu c) (py_or (uc_gb c) (of_nat (uc_plugins c)))));
          cost = (case uc_cost c of Some x \<Rightarrow> pyround 8 x | None \<Rightarrow> pyround 8 (usage_event_cost (uc_type c) v))
      in \<lparr>ue_tenant = uc_tenant c, ue_type = uc_type c, ue_value = v, ue_job = uc_job c,
          ue_cost = cost, ue_billed = uc_billed c\<rparr>)"

definition same_usage_key :: "usage_event \<Rightarrow> usage_event \<Rightarrow> bool" where
  "same_usage_key a b = (ue_tenant a = ue_tenant b \<and> ue_job a = ue_job b \<and> ue_type a = ue_type b)"

text \<open>\<open>_totals_sql\<close>: insert the tenant's row or add to it.\<close>

definition totals_upsert :: "string \<Rightarrow> rat \<Rightarrow> rat \<Rightarrow> rat \<Rightarrow> rat \<Rightarrow> (string \<times> usage_totals) list \<Rightarrow> (string \<times> usage_totals) list" where
  "totals_upsert t g c b cost ts =
     (case map_of ts t of
        None \<Rightarrow> ts @ [(t, \<lparr>ut_gpu = g, ut_cpu = c, ut_gb = b, ut_cost = cost, ut_jobs = 0\<rparr>)]
      | Some x \<Rightarrow> AList.update t (x\<lparr>ut_gpu := ut_gpu x + g, ut_cpu := ut_cpu x + c,
                                    ut_gb := ut_gb x + b, ut_cost := ut_cost x + cost\<rparr>) ts)"

text \<open>The transaction: the event, and the totals only when the event was inserted.\<close>

definition usage_record_stmt :: "usage_call \<Rightarrow> (metering, bool) stmt" where
  "usage_record_stmt c m =
     (let ev = usage_event_of c
      in if real_job_id (uc_job c) \<and> (\<exists>r\<in>set (usage_rows m). same_usage_key r ev) then Some (m, False)
         else Some (m\<lparr>usage_rows := usage_rows m @ [ev],
                      totals_rows := totals_upsert (uc_tenant c)
                        (if uc_type c = ''gpu_usage'' then uc_gpu c else 0)
                        (if uc_type c = ''cpu_usage'' then uc_cpu c else 0)
                        (if uc_type c = ''storage_usage'' then uc_gb c else 0)
                        (ue_cost ev) (totals_rows m)\<rparr>, True))"

definition metering_record :: "pg_outcome \<Rightarrow> usage_call \<Rightarrow> metering \<Rightarrow> metering \<times> (usage_event \<times> bool) result" where
  "metering_record oc c m =
     (case pg_run oc (usage_record_stmt c) m of
        (m', Inl x) \<Rightarrow> (m', Inl x)
      | (m', Inr ins) \<Rightarrow> (m', Inr (usage_event_of c, ins)))"

section \<open>Snapshots\<close>

text \<open>\<open>snapshot(tenant)\<close>: \<open>None\<close> is the empty dictionary.\<close>

definition snapshot_tenant :: "pg_outcome \<Rightarrow> string \<Rightarrow> metering \<Rightarrow> usage_totals option" where
  "snapshot_tenant oc t m =
     (case snd (pg_run oc (\<lambda>m. Some (m, map_of (totals_rows m) t)) m) of Inr r \<Rightarrow> r | Inl _ \<Rightarrow> None)"

definition snapshot_all ::
  "pg_outcome \<Rightarrow> pg_outcome \<Rightarrow> metering \<Rightarrow> (string \<times> usage_totals) list \<times> nat \<times> rat" where
  "snapshot_all o1 o2 m =
     (case (snd (pg_run o1 (\<lambda>m. Some (m, totals_rows m)) m),
            snd (pg_run o2 (\<lambda>m. Some (m, length (usage_rows m))) m)) of
        (Inr ts, Inr n) \<Rightarrow> (ts, n, sum_list (map (\<lambda>(_, x). ut_cost x) ts))
      | _ \<Rightarrow> ([], 0, 0))"

section \<open>Invariant\<close>

definition cost_of :: "string \<Rightarrow> usage_event list \<Rightarrow> rat" where
  "cost_of t es = sum_list (map ue_cost (filter (\<lambda>e. ue_tenant e = t) es))"

definition totals_cost :: "metering \<Rightarrow> string \<Rightarrow> rat" where
  "totals_cost m t = (case map_of (totals_rows m) t of None \<Rightarrow> 0 | Some x \<Rightarrow> ut_cost x)"

text \<open>
  Totals agree with the events, tenants appear once in the totals, and a tenant has a totals
  row exactly when it has an event; the partial unique index holds.
\<close>

definition metering_inv :: "metering \<Rightarrow> bool" where
  "metering_inv m \<longleftrightarrow>
     (\<forall>t. totals_cost m t = cost_of t (usage_rows m))
     \<and> distinct (map fst (totals_rows m))
     \<and> fst ` set (totals_rows m) = ue_tenant ` set (usage_rows m)
     \<and> distinct (map (\<lambda>e. (ue_tenant e, ue_job e, ue_type e)) (filter (\<lambda>e. real_job_id (ue_job e)) (usage_rows m)))"

lemma map_of_totals_upsert:
  "map_of (totals_upsert t g c b cost ts) u =
     (if u = t then Some (case map_of ts t of
          None \<Rightarrow> \<lparr>ut_gpu = g, ut_cpu = c, ut_gb = b, ut_cost = cost, ut_jobs = 0\<rparr>
        | Some x \<Rightarrow> x\<lparr>ut_gpu := ut_gpu x + g, ut_cpu := ut_cpu x + c, ut_gb := ut_gb x + b, ut_cost := ut_cost x + cost\<rparr>)
      else map_of ts u)"
  by (auto simp: totals_upsert_def update_conv' map_add_def split: option.splits)

lemma keys_totals_upsert: "fst ` set (totals_upsert t g c b cost ts) = insert t (fst ` set ts)"
  by (force simp: totals_upsert_def dom_update map_of_eq_None_iff split: option.splits)

lemma distinct_totals_upsert:
  "distinct (map fst ts) \<Longrightarrow> distinct (map fst (totals_upsert t g c b cost ts))"
  by (auto simp: totals_upsert_def map_of_eq_None_iff distinct_update split: option.splits)

lemma cost_of_snoc: "cost_of t (es @ [e]) = cost_of t es + (if ue_tenant e = t then ue_cost e else 0)"
  by (simp add: cost_of_def)

lemma usage_event_of_simps [simp]:
  "ue_tenant (usage_event_of c) = uc_tenant c" "ue_type (usage_event_of c) = uc_type c"
  "ue_job (usage_event_of c) = uc_job c" "ue_billed (usage_event_of c) = uc_billed c"
  by (simp_all add: usage_event_of_def Let_def)

lemma usage_record_stmt_inv:
  assumes "metering_inv m" "usage_record_stmt c m = Some (m', b)"
  shows "metering_inv m'"
proof (cases "m' = m")
  case False
  let ?ev = "usage_event_of c"
  obtain g cp gb where m': "m' = m\<lparr>usage_rows := usage_rows m @ [?ev],
      totals_rows := totals_upsert (uc_tenant c) g cp gb (ue_cost ?ev) (totals_rows m)\<rparr>"
    and new: "\<not> (real_job_id (uc_job c) \<and> (\<exists>r\<in>set (usage_rows m). same_usage_key r ?ev))"
    using assms(2) False by (auto simp: usage_record_stmt_def Let_def split: if_splits)
  have "totals_cost m' t = cost_of t (usage_rows m')" for t
  proof -
    have "totals_cost m t = cost_of t (usage_rows m)"
      using assms(1) by (simp add: metering_inv_def)
    then show ?thesis
      by (auto simp: m' totals_cost_def map_of_totals_upsert cost_of_snoc split: option.splits)
  qed
  moreover have "distinct (map (\<lambda>e. (ue_tenant e, ue_job e, ue_type e)) (filter (\<lambda>e. real_job_id (ue_job e)) (usage_rows m')))"
    using assms(1) new by (auto simp: m' metering_inv_def same_usage_key_def)
  ultimately show ?thesis
    using assms(1) by (simp add: metering_inv_def m' keys_totals_upsert distinct_totals_upsert)
qed (use assms in simp)

lemma metering_record_fst: "fst (metering_record oc c m) = fst (pg_run oc (usage_record_stmt c) m)"
  by (auto simp: metering_record_def split: prod.splits sum.splits)

lemma metering_record_inv: "metering_inv m \<Longrightarrow> metering_inv (fst (metering_record oc c m))"
  unfolding metering_record_fst by (rule pg_run_preserves) (auto intro: usage_record_stmt_inv)

inductive metering_step :: "metering \<Rightarrow> metering \<Rightarrow> bool" where
  "metering_step m (fst (metering_record oc c m))"

interpretation met: transition_system "\<lambda>m. m = metering_init" metering_step .

lemma metering_reach_inv: "met.reach m \<Longrightarrow> metering_inv m"
proof (erule met.invariant_reach [rotated 2])
  show "metering_inv s" if "s = metering_init" for s
    using that by (simp add: metering_inv_def metering_init_def totals_cost_def cost_of_def)
  show "metering_inv t" if "metering_inv s" "metering_step s t" for s t
    using that(2,1) by cases (simp add: metering_record_inv)
qed

section \<open>Idempotence per real job\<close>

definition usage_present :: "usage_call \<Rightarrow> metering \<Rightarrow> bool" where
  "usage_present c m = (\<exists>r\<in>set (usage_rows m). same_usage_key r (usage_event_of c))"

definition usage_ins :: "usage_call \<Rightarrow> metering \<Rightarrow> metering" where
  "usage_ins c m = fst (the (usage_record_stmt c m))"

interpretation once_usage: insert_once
  "\<lambda>oc m. if real_job_id (uc_job c) then fst (metering_record oc c m) else m"
  "\<lambda>m. m" "usage_present c" "\<lambda>oc m. real_job_id (uc_job c) \<and> oc \<noteq> PgDown"
  "\<lambda>m. if usage_present c m then m else usage_ins c m" for c
proof
  fix m oc
  show "usage_present c m \<Longrightarrow> (if real_job_id (uc_job c) then fst (metering_record oc c m) else m) = m"
    by (cases oc) (auto simp: metering_record_fst usage_record_stmt_def usage_present_def Let_def)
  show "\<not> usage_present c m \<Longrightarrow> (if real_job_id (uc_job c) then fst (metering_record oc c m) else m) =
      (if real_job_id (uc_job c) \<and> oc \<noteq> PgDown then if usage_present c m then m else usage_ins c m else m)"
    by (cases oc) (auto simp: metering_record_fst usage_record_stmt_def usage_present_def usage_ins_def Let_def)
next
  fix oc m
  assume "real_job_id (uc_job c) \<and> oc \<noteq> PgDown"
  then show "usage_present c (if usage_present c m then m else usage_ins c m)"
    by (auto simp: usage_present_def usage_ins_def usage_record_stmt_def Let_def same_usage_key_def)
qed

lemma sum_totals_cost:
  assumes "distinct (map fst ts)"
  shows "sum_list (map (\<lambda>(_, x). ut_cost x) ts) =
    (\<Sum>t\<in>fst ` set ts. case map_of ts t of None \<Rightarrow> 0 | Some x \<Rightarrow> ut_cost x)"
  using assms
proof (induction ts)
  case (Cons p ts)
  obtain k v where p: "p = (k, v)" by force
  have nk: "k \<notin> fst ` set ts" using Cons.prems p by simp
  have "(\<Sum>t\<in>fst ` set ts. case map_of ts t of None \<Rightarrow> 0 | Some x \<Rightarrow> ut_cost x)
      = (\<Sum>t\<in>fst ` set ts. case map_of (p # ts) t of None \<Rightarrow> 0 | Some x \<Rightarrow> ut_cost x)"
    using nk p by (intro sum.cong) auto
  with Cons nk p show ?case by (simp add: insert_absorb)
qed simp

lemma sum_cost_of:
  assumes "finite T" "ue_tenant ` set es \<subseteq> T"
  shows "(\<Sum>t\<in>T. cost_of t es) = sum_list (map ue_cost es)"
  using assms(2)
proof (induction es)
  case (Cons e es)
  have "(\<Sum>t\<in>T. cost_of t (e # es)) = (\<Sum>t\<in>T. (if ue_tenant e = t then ue_cost e else 0) + cost_of t es)"
    by (intro sum.cong) (simp_all add: cost_of_def)
  also have "\<dots> = ue_cost e + (\<Sum>t\<in>T. cost_of t es)"
    using Cons.prems assms(1) by (simp add: sum.distrib)
  finally show ?case using Cons by simp
qed (simp add: cost_of_def)

section \<open>Properties\<close>

text \<open>After any sequence of \<open>record\<close> calls, with any failures in between, the totals table is the
  aggregate of the event table: each tenant's \<open>total_cost\<close> is the sum of the costs of its recorded
  events, and the snapshot of a healthy database reports the number of events and the sum of all
  their costs. No failure leaves an event without its totals or the reverse.\<close>

theorem usage_totals_match_events:
  assumes "met.reach m"
  shows "(case snapshot_tenant PgOk t m of None \<Rightarrow> 0 | Some x \<Rightarrow> ut_cost x) = cost_of t (usage_rows m)
    \<and> fst (snd (snapshot_all PgOk PgOk m)) = length (usage_rows m)
    \<and> snd (snd (snapshot_all PgOk PgOk m)) = sum_list (map ue_cost (usage_rows m))"
proof -
  have inv: "metering_inv m" using assms by (rule metering_reach_inv)
  have "sum_list (map (\<lambda>(_, x). ut_cost x) (totals_rows m)) = (\<Sum>t\<in>fst ` set (totals_rows m). totals_cost m t)"
    using inv by (simp add: metering_inv_def totals_cost_def sum_totals_cost)
  also have "\<dots> = (\<Sum>t\<in>ue_tenant ` set (usage_rows m). cost_of t (usage_rows m))"
    using inv by (simp add: metering_inv_def)
  also have "\<dots> = sum_list (map ue_cost (usage_rows m))"
    by (rule sum_cost_of) simp_all
  finally show ?thesis
    using inv by (auto simp: snapshot_all_def snapshot_tenant_def metering_inv_def totals_cost_def)
qed

definition demo_usage :: "string \<Rightarrow> string \<Rightarrow> rat \<Rightarrow> usage_call" where
  "demo_usage job etype g = \<lparr>uc_type = etype, uc_tenant = ''acme'', uc_job = Some job, uc_gpu = g, uc_cpu = 0,
     uc_gb = 0, uc_plugins = 0, uc_billed = True, uc_cost = None, uc_value = None\<rparr>"

theorem usage_totals_match_events_witness:
  "\<exists>m. met.reach m \<and> snd (snd (snapshot_all PgOk PgOk m)) = 2 / 100000"
proof -
  let ?m = "fst (metering_record PgLost (demo_usage ''j'' ''gpu_usage'' 2) metering_init)"
  have r: "met.reach ?m"
    by (rule met.reach_step [OF met.reach_init [OF refl]]) (rule metering_step.intros)
  have "pyround 8 (2 / 100000) = (2 / 100000 :: rat)" using pyround_scaled [of 8 2000] by simp
  then have "sum_list (map ue_cost (usage_rows ?m)) = 2 / 100000"
    by (simp add: metering_record_fst usage_record_stmt_def Let_def metering_init_def demo_usage_def
        usage_event_of_def usage_event_cost_def GPU_RATE_def py_or_def real_job_id_def)
  with usage_totals_match_events [OF r] r show ?thesis by auto
qed

text \<open>For a real job id, \<open>record\<close> is idempotent per (tenant, job, event type): however often a
  call is retried and whatever PostgreSQL does to each attempt, the event and its share of the
  totals are stored exactly once if one attempt reached the server, and not at all otherwise; a
  later attempt never rewrites the price of the stored event.\<close>

theorem usage_recorded_at_most_once:
  assumes "real_job_id (uc_job c)" and "\<not> usage_present c m"
  shows "fold (\<lambda>oc m. fst (metering_record oc c m)) ocs m =
    (if \<exists>oc\<in>set ocs. oc \<noteq> PgDown then usage_ins c m else m)
    \<and> usage_rows (usage_ins c m) = usage_rows m @ [usage_event_of c]"
  using once_usage.fold_attempt_once [where c = c and s = m and os = ocs] assms
  by (auto simp: usage_ins_def usage_record_stmt_def usage_present_def Let_def)

theorem usage_recorded_at_most_once_witness:
  "real_job_id (uc_job (demo_usage ''j'' ''gpu_execution'' 2)) \<and> \<not> usage_present (demo_usage ''j'' ''gpu_execution'' 2) metering_init
   \<and> length (usage_rows (fold (\<lambda>oc m. fst (metering_record oc (demo_usage ''j'' ''gpu_execution'' 2) m))
        [PgDown, PgLost, PgOk] metering_init)) = 1"
proof -
  have h: "real_job_id (uc_job (demo_usage ''j'' ''gpu_execution'' 2))"
    "\<not> usage_present (demo_usage ''j'' ''gpu_execution'' 2) metering_init"
    by (simp_all add: real_job_id_def demo_usage_def usage_present_def metering_init_def)
  from usage_recorded_at_most_once [OF h, of "[PgDown, PgLost, PgOk]"] h show ?thesis
    by (simp add: metering_init_def)
qed

end
