(* ===== verification/JobTable.thy ===== *)
theory JobTable
  imports Money
begin

text \<open>
  The table \<open>execution_jobs\<close> and its operations in \<open>src/db_adapter.py\<close>. Each operation
  exists twice in the source, for PostgreSQL and for SQLite, behind \<open>_pg_enabled()\<close>; the
  two are modelled separately where they differ (the claim is one UPDATE on PostgreSQL and a
  loop on SQLite, and SQLite's clock has whole seconds). Times are seconds as rationals; the
  statements read the clock through the argument \<open>now\<close>.

  Shown: primary keys stay unique, a guarded update never touches a row in a blocked status,
  a claimed job is claimed by one caller only and in order of creation, the two claims
  agree, and the orphan sweep is idempotent.
\<close>

section \<open>Rows\<close>

record exec_job =
  jid :: string
  decision_id :: "string option"
  tenant_id :: string
  status :: string
  payload :: pydict
  created_at :: rat
  updated_at :: "rat option"
  cost_usd :: rat
  backend :: "string option"
  backend_job_id :: "string option"
  duration_seconds :: "rat option"
  started_at :: "rat option"
  completed_at :: "rat option"
  error :: "string option"

type_synonym job_table = "exec_job list"

definition has_job :: "string \<Rightarrow> job_table \<Rightarrow> bool" where
  "has_job i tbl = (i \<in> jid ` set tbl)"

definition new_exec_job :: "rat \<Rightarrow> string \<Rightarrow> string option \<Rightarrow> string \<Rightarrow> string \<Rightarrow> pydict \<Rightarrow> exec_job" where
  "new_exec_job now i dec t st pl =
     \<lparr>jid = i, decision_id = dec, tenant_id = t, status = st, payload = pl, created_at = now,
      updated_at = Some now, cost_usd = 0, backend = None, backend_job_id = None,
      duration_seconds = Some 0, started_at = None, completed_at = None, error = None\<rparr>"

text \<open>\<open>insert_execution_job\<close>: the primary key refuses a second row with the same id.\<close>

definition insert_execution_job ::
  "rat \<Rightarrow> string \<Rightarrow> string option \<Rightarrow> string \<Rightarrow> string \<Rightarrow> pydict \<Rightarrow> (job_table, unit) stmt" where
  "insert_execution_job now i dec t st pl tbl =
     (if has_job i tbl then None else Some (tbl @ [new_exec_job now i dec t st pl], ()))"

definition get_execution_job :: "string \<Rightarrow> job_table \<Rightarrow> exec_job option" where
  "get_execution_job i tbl = List.find (\<lambda>j. jid j = i) tbl"

section \<open>Conditional updates\<close>

text \<open>The arguments of \<open>update_execution_job\<close>; \<open>None\<close> leaves a column alone.\<close>

record job_update =
  u_status :: "string option"
  u_backend :: "string option"
  u_backend_job_id :: "string option"
  u_completed_at :: "rat option"
  u_error :: "string option"
  u_cost_usd :: "rat option"
  u_duration :: "rat option"
  u_tenant :: "string option"
  u_not_in :: "string list"

definition no_update :: job_update where
  "no_update = \<lparr>u_status = None, u_backend = None, u_backend_job_id = None, u_completed_at = None,
     u_error = None, u_cost_usd = None, u_duration = None, u_tenant = None, u_not_in = []\<rparr>"

definition opt_set :: "'a option \<Rightarrow> ('a \<Rightarrow> 'b \<Rightarrow> 'b) \<Rightarrow> ('b \<Rightarrow> 'b) list" where
  "opt_set v f = (case v of None \<Rightarrow> [] | Some x \<Rightarrow> [f x])"

text \<open>The SET list the code builds; \<open>clock\<close> is what \<open>now()\<close> evaluates to in the statement.\<close>

definition update_sets :: "rat \<Rightarrow> job_update \<Rightarrow> (exec_job \<Rightarrow> exec_job) list" where
  "update_sets clock u =
     opt_set (u_status u) (\<lambda>v j. j\<lparr>status := v\<rparr>)
     @ (if u_status u = Some ''running'' then [\<lambda>j. j\<lparr>started_at := Some clock\<rparr>] else [])
     @ opt_set (u_completed_at u) (\<lambda>v j. j\<lparr>completed_at := Some v\<rparr>)
     @ opt_set (u_error u) (\<lambda>v j. j\<lparr>error := Some v\<rparr>)
     @ opt_set (u_backend u) (\<lambda>v j. j\<lparr>backend := Some v\<rparr>)
     @ opt_set (u_backend_job_id u) (\<lambda>v j. j\<lparr>backend_job_id := Some v\<rparr>)
     @ opt_set (u_cost_usd u) (\<lambda>v j. j\<lparr>cost_usd := v\<rparr>)
     @ opt_set (u_duration u) (\<lambda>v j. j\<lparr>duration_seconds := Some v\<rparr>)"

definition update_where :: "string \<Rightarrow> job_update \<Rightarrow> exec_job \<Rightarrow> bool" where
  "update_where i u j =
     (jid j = i
      \<and> (case u_tenant u of None \<Rightarrow> True | Some t \<Rightarrow> tenant_id j = t)
      \<and> (u_not_in u = [] \<or> status j \<notin> set (u_not_in u)))"

definition update_rows ::
  "(exec_job \<Rightarrow> exec_job) list \<Rightarrow> (exec_job \<Rightarrow> bool) \<Rightarrow> job_table \<Rightarrow> job_table \<times> nat" where
  "update_rows sets P tbl =
     (map (\<lambda>j. if P j then fold (\<lambda>f j. f j) sets j else j) tbl, length (filter P tbl))"

definition update_execution_job_pg :: "rat \<Rightarrow> string \<Rightarrow> job_update \<Rightarrow> job_table \<Rightarrow> job_table \<times> nat" where
  "update_execution_job_pg now i u tbl =
     (let sets = update_sets now u
      in if sets = [] then (tbl, 0) else update_rows sets (update_where i u) tbl)"

definition whole_seconds :: "rat \<Rightarrow> rat" where
  \<comment> \<open>\<open>datetime('now')\<close> in SQLite drops the fraction\<close>
  "whole_seconds t = of_int \<lfloor>t\<rfloor>"

definition update_execution_job_sqlite :: "rat \<Rightarrow> string \<Rightarrow> job_update \<Rightarrow> job_table \<Rightarrow> job_table \<times> nat" where
  "update_execution_job_sqlite now i u tbl =
     (let sets = update_sets (whole_seconds now) u
      in if sets = [] then (tbl, 0) else update_rows sets (update_where i u) tbl)"

definition update_execution_job ::
  "bool \<Rightarrow> rat \<Rightarrow> string \<Rightarrow> job_update \<Rightarrow> job_table \<Rightarrow> job_table \<times> nat" where
  "update_execution_job pg now i u tbl =
     (if pg then update_execution_job_pg now i u tbl else update_execution_job_sqlite now i u tbl)"

section \<open>Claiming queued jobs\<close>

text \<open>
  The inner SELECT. \<open>lk\<close> are the ids of rows another transaction holds locked at that moment,
  which SKIP LOCKED leaves out; a plain SELECT has none.
\<close>

definition queued_in_order :: "string list \<Rightarrow> nat \<Rightarrow> job_table \<Rightarrow> exec_job list" where
  "queued_in_order lk limit tbl =
     take limit (sort_key created_at (filter (\<lambda>j. status j = ''queued'' \<and> jid j \<notin> set lk) tbl))"

definition get_queued_execution_jobs :: "nat \<Rightarrow> job_table \<Rightarrow> exec_job list" where
  "get_queued_execution_jobs limit tbl = queued_in_order [] limit tbl"

definition mark_running :: "rat \<Rightarrow> exec_job \<Rightarrow> exec_job" where
  "mark_running now j = j\<lparr>status := ''running'', started_at := Some now, updated_at := Some now\<rparr>"

text \<open>
  PostgreSQL: one UPDATE over the ids the inner SELECT locked, RETURNING the updated rows,
  sorted by creation before they are returned.
\<close>

definition claim_queued_pg ::
  "string list \<Rightarrow> rat \<Rightarrow> nat \<Rightarrow> job_table \<Rightarrow> job_table \<times> exec_job list" where
  "claim_queued_pg lk now limit tbl =
     (let ids = map jid (queued_in_order lk limit tbl);
          hit = (\<lambda>j. jid j \<in> set ids \<and> status j = ''queued'')
      in (map (\<lambda>j. if hit j then mark_running now j else j) tbl,
          sort_key created_at (map (mark_running now) (filter hit tbl))))"

text \<open>SQLite: under BEGIN IMMEDIATE, one conditional UPDATE per selected row.\<close>

fun claim_loop :: "rat \<Rightarrow> exec_job list \<Rightarrow> job_table \<Rightarrow> job_table \<times> exec_job list" where
  "claim_loop now [] tbl = (tbl, [])"
| "claim_loop now (r # rs) tbl =
     (let hit = (\<lambda>j. jid j = jid r \<and> status j = ''queued'');
          upd = map (mark_running now) (filter hit tbl);
          (tbl', out) = claim_loop now rs (map (\<lambda>j. if hit j then mark_running now j else j) tbl)
      in (tbl', (case upd of [] \<Rightarrow> out | u # _ \<Rightarrow> u # out)))"

definition claim_queued_sqlite :: "rat \<Rightarrow> nat \<Rightarrow> job_table \<Rightarrow> job_table \<times> exec_job list" where
  "claim_queued_sqlite now limit tbl = claim_loop (whole_seconds now) (queued_in_order [] limit tbl) tbl"

definition claim_queued_execution_jobs ::
  "bool \<Rightarrow> string list \<Rightarrow> rat \<Rightarrow> nat \<Rightarrow> job_table \<Rightarrow> job_table \<times> exec_job list" where
  "claim_queued_execution_jobs pg lk now limit tbl =
     (if pg then claim_queued_pg lk now limit tbl else claim_queued_sqlite now limit tbl)"

section \<open>Reading the sweepers' work lists\<close>

definition CANCEL_BLOCKED_STATUSES :: "string list" where
  "CANCEL_BLOCKED_STATUSES =
     [''completed'', ''timeout'', ''failed'', ''cancelled'', ''error'', ''stopped'', ''destroyed'', ''billing_pending'']"

text \<open>ORDER BY completed\_at ASC: NULLs last on PostgreSQL, first on SQLite.\<close>

definition order_by_completed :: "bool \<Rightarrow> exec_job list \<Rightarrow> exec_job list" where
  "order_by_completed pg js =
     (let some = sort_key (\<lambda>j. the (completed_at j)) (filter (\<lambda>j. completed_at j \<noteq> None) js);
          none = filter (\<lambda>j. completed_at j = None) js
      in if pg then some @ none else none @ some)"

definition get_billing_pending_jobs :: "bool \<Rightarrow> nat \<Rightarrow> string list \<Rightarrow> job_table \<Rightarrow> exec_job list" where
  "get_billing_pending_jobs pg limit excl tbl =
     take limit (order_by_completed pg
       (filter (\<lambda>j. status j = ''billing_pending'' \<and> (excl = [] \<or> jid j \<notin> set excl)) tbl))"

definition count_billing_pending_jobs :: "job_table \<Rightarrow> nat" where
  "count_billing_pending_jobs tbl = length (filter (\<lambda>j. status j = ''billing_pending'') tbl)"

definition refund_prefix :: string where
  "refund_prefix = ''refund_pending:debit_exists:''"

definition starts_with :: "string \<Rightarrow> string \<Rightarrow> bool" where
  "starts_with s p = (take (length p) s = p)"

text \<open>
  \<open>error LIKE 'refund_pending:debit_exists:%'\<close>. In a LIKE pattern \<open>_\<close> matches any one
  character, and the marker contains two of them; SQLite's LIKE ignores case.
\<close>

fun like_prefix :: "bool \<Rightarrow> string \<Rightarrow> string \<Rightarrow> bool" where
  "like_prefix ci [] s = True"
| "like_prefix ci (p # ps) [] = False"
| "like_prefix ci (p # ps) (c # cs) =
     ((p = CHR ''_'' \<or> (if ci then lower_char p = lower_char c else p = c)) \<and> like_prefix ci ps cs)"

definition get_refund_pending_jobs :: "bool \<Rightarrow> nat \<Rightarrow> job_table \<Rightarrow> exec_job list" where
  "get_refund_pending_jobs pg limit tbl =
     take limit (order_by_completed pg
       (filter (\<lambda>j. status j = ''cancelled''
                  \<and> (case error j of None \<Rightarrow> False | Some e \<Rightarrow> like_prefix (\<not> pg) refund_prefix e)) tbl))"

definition list_completed_execution_jobs :: "nat \<Rightarrow> job_table \<Rightarrow> rat list" where
  "list_completed_execution_jobs limit tbl =
     map (\<lambda>j. let derived = (case (completed_at j, started_at j) of (Some c, Some b) \<Rightarrow> c - b | _ \<Rightarrow> 0)
              in case duration_seconds j of
                   Some d \<Rightarrow> if d > 0 then d else derived
                 | None \<Rightarrow> derived)
       (take limit (rev (sort_key (\<lambda>j. the (completed_at j))
         (filter (\<lambda>j. status j = ''completed'' \<and> completed_at j \<noteq> None) tbl))))"

section \<open>Orphan sweep\<close>

definition coalesce :: "'a option \<Rightarrow> 'a option \<Rightarrow> 'a option" where
  "coalesce a b = (case a of None \<Rightarrow> b | Some x \<Rightarrow> Some x)"

definition is_orphan :: "bool \<Rightarrow> rat \<Rightarrow> int \<Rightarrow> exec_job \<Rightarrow> bool" where
  "is_orphan pg now timeout j =
     (status j = ''running''
      \<and> (case coalesce (started_at j) (updated_at j) of
           None \<Rightarrow> False
         | Some t \<Rightarrow> if pg then t < now - of_int timeout
                     else whole_seconds t < whole_seconds now - of_int timeout))"

definition sweep_orphan_running_jobs ::
  "bool \<Rightarrow> rat \<Rightarrow> int \<Rightarrow> job_table \<Rightarrow> job_table \<times> nat result" where
  "sweep_orphan_running_jobs pg now timeout tbl =
     (if timeout \<le> 0 then (tbl, Inl ValueError)
      else let clock = (if pg then now else whole_seconds now);
               upd = (\<lambda>j. j\<lparr>status := ''timeout'', error := Some ''orphaned: worker restart'',
                            completed_at := Some clock\<rparr>)
           in (map (\<lambda>j. if is_orphan pg now timeout j then upd j else j) tbl,
               Inr (length (filter (is_orphan pg now timeout) tbl))))"

section \<open>Keys and frames\<close>

definition table_ok :: "job_table \<Rightarrow> bool" where
  "table_ok tbl = distinct (map jid tbl)"

lemma jid_mark_running [simp]: "jid (mark_running now j) = jid j"
  and created_mark_running [simp]: "created_at (mark_running now j) = created_at j"
  and status_mark_running [simp]: "status (mark_running now j) = ''running''"
  by (simp_all add: mark_running_def)

lemma jid_update_sets: "f \<in> set (update_sets clock u) \<Longrightarrow> jid (f j) = jid j \<and> tenant_id (f j) = tenant_id j"
  by (auto simp: update_sets_def opt_set_def split: option.splits if_splits)

lemma jid_fold_sets:
  "(\<And>f j. f \<in> set fs \<Longrightarrow> jid (f j) = jid j \<and> tenant_id (f j) = tenant_id j) \<Longrightarrow>
     jid (fold (\<lambda>f j. f j) fs j) = jid j \<and> tenant_id (fold (\<lambda>f j. f j) fs j) = tenant_id j"
  by (induction fs arbitrary: j) auto

lemma apply_sets_keys [simp]:
  "jid (fold (\<lambda>f j. f j) (update_sets clock u) j) = jid j"
  "tenant_id (fold (\<lambda>f j. f j) (update_sets clock u) j) = tenant_id j"
  using jid_fold_sets [of "update_sets clock u" j] jid_update_sets by blast+

text \<open>Both back ends are the same update at a different clock reading.\<close>

lemma update_execution_job_eq:
  "update_execution_job pg now i u tbl =
     update_execution_job_pg (if pg then now else whole_seconds now) i u tbl"
  by (simp add: update_execution_job_def update_execution_job_pg_def update_execution_job_sqlite_def)

lemma update_keys [simp]:
  "map jid (fst (update_execution_job pg now i u tbl)) = map jid tbl"
  by (auto simp: update_execution_job_eq update_execution_job_pg_def update_rows_def Let_def o_def)

lemma table_ok_update: "table_ok tbl \<Longrightarrow> table_ok (fst (update_execution_job pg now i u tbl))"
  by (simp add: table_ok_def)

lemma update_count:
  assumes "table_ok tbl"
  shows "snd (update_execution_job pg now i u tbl) \<le> 1"
proof -
  have "length (filter (update_where i u) tbl) \<le> length (filter (\<lambda>j. jid j = i) tbl)"
    by (induction tbl) (auto simp: update_where_def)
  also have "\<dots> \<le> 1"
    using assms
  proof (induction tbl)
    case (Cons j tbl)
    show ?case
    proof (cases "jid j = i")
      case True
      with Cons.prems have "filter (\<lambda>j. jid j = i) tbl = []"
        by (auto simp: table_ok_def filter_empty_conv image_iff)
      then show ?thesis by simp
    next
      case False
      with Cons show ?thesis by (simp add: table_ok_def)
    qed
  qed simp
  finally show ?thesis
    by (simp add: update_execution_job_eq update_execution_job_pg_def update_rows_def Let_def)
qed

lemma get_execution_job_unique:
  "table_ok tbl \<Longrightarrow> j \<in> set tbl \<Longrightarrow> get_execution_job (jid j) tbl = Some j"
  by (induction tbl) (auto simp: get_execution_job_def table_ok_def)

lemma get_execution_job_Some:
  "get_execution_job i tbl = Some j \<Longrightarrow> j \<in> set tbl \<and> jid j = i"
  by (auto simp: get_execution_job_def find_Some_iff)

lemma find_map_same_key:
  "(\<And>j. jid (f j) = jid j) \<Longrightarrow> get_execution_job i (map f tbl) = map_option f (get_execution_job i tbl)"
  by (induction tbl) (auto simp: get_execution_job_def)

text \<open>Reading a row back after an update.\<close>

lemma get_after_update:
  "get_execution_job k (fst (update_execution_job pg now i u tbl)) =
     map_option (\<lambda>j. if update_where i u j
                     then fold (\<lambda>f j. f j) (update_sets (if pg then now else whole_seconds now) u) j else j)
       (get_execution_job k tbl)"
proof -
  let ?c = "if pg then now else whole_seconds now"
  have "get_execution_job k (map (\<lambda>j. if update_where i u j then fold (\<lambda>f j. f j) (update_sets ?c u) j else j) tbl)
     = map_option (\<lambda>j. if update_where i u j then fold (\<lambda>f j. f j) (update_sets ?c u) j else j) (get_execution_job k tbl)"
    by (rule find_map_same_key) simp
  then show ?thesis
    unfolding update_execution_job_eq update_execution_job_pg_def update_rows_def Let_def
    by (cases "update_sets ?c u = []"; cases "get_execution_job k tbl") simp_all
qed

lemma update_count_iff:
  assumes "table_ok tbl" "update_sets (if pg then now else whole_seconds now) u \<noteq> []"
  shows "snd (update_execution_job pg now i u tbl) =
    (case get_execution_job i tbl of None \<Rightarrow> 0 | Some j \<Rightarrow> if update_where i u j then 1 else 0)"
proof -
  have n: "snd (update_execution_job pg now i u tbl) = length (filter (update_where i u) tbl)"
    using assms(2) by (simp add: update_execution_job_eq update_execution_job_pg_def update_rows_def Let_def)
  show ?thesis
  proof (cases "filter (update_where i u) tbl")
    case Nil
    then show ?thesis using n
      by (auto simp: filter_empty_conv split: option.splits dest: get_execution_job_Some)
  next
    case (Cons j js)
    then have j: "j \<in> set tbl" "update_where i u j" by (auto simp: filter_eq_Cons_iff)
    then have "get_execution_job i tbl = Some j"
      using get_execution_job_unique [OF assms(1)] by (auto simp: update_where_def)
    moreover have "snd (update_execution_job pg now i u tbl) = 1"
      using update_count [OF assms(1), of pg now i u] n Cons by simp
    ultimately show ?thesis using j by simp
  qed
qed

section \<open>The claim\<close>

lemma insort_key_map:
  "(\<And>x. f (g x) = f x) \<Longrightarrow> insort_key f (g x) (map g xs) = map g (insort_key f x xs)"
  by (induction xs) auto

lemma sort_key_map: "(\<And>x. f (g x) = f x) \<Longrightarrow> sort_key f (map g xs) = map g (sort_key f xs)"
  by (induction xs) (auto simp: insort_key_map)

lemma distinct_singleton_set: "distinct xs \<Longrightarrow> set xs = {x} \<Longrightarrow> xs = [x]"
  by (cases xs; cases "tl xs") auto

lemma filter_set_take: "distinct xs \<Longrightarrow> filter (\<lambda>x. x \<in> set (take n xs)) xs = take n xs"
proof (induction xs arbitrary: n)
  case (Cons x xs)
  show ?case
  proof (cases n)
    case (Suc m)
    have "filter (\<lambda>y. y = x \<or> y \<in> set (take m xs)) xs = filter (\<lambda>y. y \<in> set (take m xs)) xs"
      using Cons.prems by (auto intro!: filter_cong)
    with Cons Suc show ?thesis by simp
  qed simp
qed simp

definition claimed :: "string list \<Rightarrow> nat \<Rightarrow> job_table \<Rightarrow> exec_job \<Rightarrow> bool" where
  "claimed lk limit tbl j = (j \<in> set (queued_in_order lk limit tbl))"

lemma queued_in_order_set:
  "j \<in> set (queued_in_order lk limit tbl) \<Longrightarrow> j \<in> set tbl \<and> status j = ''queued'' \<and> jid j \<notin> set lk"
  unfolding queued_in_order_def by (drule in_set_takeD) simp

lemma claim_hit:
  assumes "table_ok tbl" "j \<in> set tbl"
  shows "jid j \<in> set (map jid (queued_in_order lk limit tbl)) \<and> status j = ''queued'' \<longleftrightarrow> claimed lk limit tbl j"
proof
  assume "jid j \<in> set (map jid (queued_in_order lk limit tbl)) \<and> status j = ''queued''"
  then obtain k where k: "k \<in> set (queued_in_order lk limit tbl)" "jid k = jid j" by auto
  then have "k = j"
    using assms queued_in_order_set [OF k(1)] by (auto simp: table_ok_def distinct_map inj_on_def)
  with k show "claimed lk limit tbl j" by (simp add: claimed_def)
next
  assume "claimed lk limit tbl j"
  then show "jid j \<in> set (map jid (queued_in_order lk limit tbl)) \<and> status j = ''queued''"
    using queued_in_order_set by (auto simp: claimed_def)
qed

lemma claimed_sorted:
  assumes "table_ok tbl"
  shows "sort_key created_at (filter (claimed lk limit tbl) tbl) = queued_in_order lk limit tbl"
proof -
  let ?q = "filter (\<lambda>j. status j = ''queued'' \<and> jid j \<notin> set lk) tbl"
  have "filter (claimed lk limit tbl) tbl = filter (claimed lk limit tbl) ?q"
    using queued_in_order_set by (auto simp: claimed_def intro!: filter_cong)
  then have "sort_key created_at (filter (claimed lk limit tbl) tbl) = filter (claimed lk limit tbl) (sort_key created_at ?q)"
    by (simp add: filter_sort)
  also have "\<dots> = queued_in_order lk limit tbl"
    unfolding claimed_def queued_in_order_def
    by (rule filter_set_take) (use assms in \<open>simp add: table_ok_def distinct_map\<close>)
  finally show ?thesis .
qed

lemma claim_pg_eq:
  assumes "table_ok tbl"
  shows "claim_queued_pg lk now limit tbl =
    (map (\<lambda>j. if claimed lk limit tbl j then mark_running now j else j) tbl,
     map (mark_running now) (queued_in_order lk limit tbl))"
proof -
  have "filter (\<lambda>j. jid j \<in> set (map jid (queued_in_order lk limit tbl)) \<and> status j = ''queued'') tbl
      = filter (claimed lk limit tbl) tbl"
    by (rule filter_cong) (use claim_hit [OF assms] in auto)
  then show ?thesis
    unfolding claim_queued_pg_def Let_def
    using claim_hit [OF assms] claimed_sorted [OF assms]
    by (simp add: sort_key_map del: set_map cong: map_cong)
qed

lemma claim_loop_eq:
  assumes "table_ok tbl" "distinct (map jid rs)" "\<forall>r\<in>set rs. r \<in> set tbl \<and> status r = ''queued''"
  shows "claim_loop now rs tbl =
    (map (\<lambda>j. if j \<in> set rs then mark_running now j else j) tbl, map (mark_running now) rs)"
  using assms
proof (induction rs arbitrary: tbl)
  case (Cons r rs)
  have uniq: "jid j = jid r \<Longrightarrow> j \<in> set tbl \<Longrightarrow> j = r" for j
    using Cons.prems(1,3) by (auto simp: table_ok_def distinct_map inj_on_def)
  let ?hit = "\<lambda>j. jid j = jid r \<and> status j = ''queued''"
  let ?t = "map (\<lambda>j. if ?hit j then mark_running now j else j) tbl"
  have hit: "filter ?hit tbl = [r]"
  proof -
    have "distinct tbl" using Cons.prems(1) by (simp add: table_ok_def distinct_map)
    moreover have "set (filter ?hit tbl) = {r}" using uniq Cons.prems(3) by auto
    ultimately show ?thesis using distinct_singleton_set [of "filter ?hit tbl" r] by simp
  qed
  have "map jid ?t = map jid tbl" by auto
  then have "table_ok ?t" using Cons.prems(1) by (simp add: table_ok_def del: map_map)
  moreover have "\<forall>x\<in>set rs. x \<in> set ?t \<and> status x = ''queued''"
  proof
    fix x assume x: "x \<in> set rs"
    with Cons.prems(3) have "x \<in> set tbl" "status x = ''queued''" by auto
    moreover have "jid x \<noteq> jid r" using Cons.prems(2) x by (metis distinct.simps(2) image_eqI list.set_map list.simps(9))
    ultimately show "x \<in> set ?t \<and> status x = ''queued''" by force
  qed
  ultimately have IH: "claim_loop now rs ?t =
      (map (\<lambda>j. if j \<in> set rs then mark_running now j else j) ?t, map (mark_running now) rs)"
    using Cons.prems(2) by (intro Cons.IH) auto
  have "mark_running now r \<notin> set rs" using Cons.prems(3) by force
  moreover have "?hit j \<longleftrightarrow> j = r" if "j \<in> set tbl" for j
    using uniq that Cons.prems(3) by auto
  ultimately have "map (\<lambda>j. if j \<in> set rs then mark_running now j else j) ?t
      = map (\<lambda>j. if j \<in> set (r # rs) then mark_running now j else j) tbl"
    unfolding map_map by (intro map_cong refl) auto
  with IH hit show ?case by (simp add: Let_def)
qed simp

lemma distinct_queued_in_order:
  assumes "table_ok tbl"
  shows "distinct (map jid (queued_in_order lk limit tbl))"
proof -
  have "distinct (map jid (filter (\<lambda>j. status j = ''queued'' \<and> jid j \<notin> set lk) tbl))"
    using assms by (simp add: table_ok_def distinct_map_filter)
  then have "distinct (map jid (sort_key created_at (filter (\<lambda>j. status j = ''queued'' \<and> jid j \<notin> set lk) tbl)))"
    by (simp add: distinct_map)
  then show ?thesis unfolding queued_in_order_def take_map [symmetric] by (rule distinct_take)
qed

lemma claim_sqlite_eq:
  assumes "table_ok tbl"
  shows "claim_queued_sqlite now limit tbl = claim_queued_pg [] (whole_seconds now) limit tbl"
  unfolding claim_queued_sqlite_def claim_pg_eq [OF assms]
  by (subst claim_loop_eq [OF assms distinct_queued_in_order [OF assms]])
    (auto simp: claimed_def dest: queued_in_order_set)

section \<open>Claims by any number of workers\<close>

definition waiting_ids :: "job_table \<Rightarrow> string set" where
  "waiting_ids tbl = jid ` set (filter (\<lambda>j. status j = ''queued'') tbl)"

text \<open>One call by some worker: the rows others hold locked, the clock, the batch size.\<close>

type_synonym claim_call = "string list \<times> rat \<times> nat"

definition claim_call :: "bool \<Rightarrow> claim_call \<Rightarrow> job_table \<Rightarrow> job_table \<times> exec_job list" where
  "claim_call pg c tbl = claim_queued_execution_jobs pg (fst c) (fst (snd c)) (snd (snd c)) tbl"

lemma claim_call_eq:
  assumes "table_ok tbl"
  obtains lk now where "claim_call pg c tbl = claim_queued_pg lk now (snd (snd c)) tbl"
  using claim_sqlite_eq [OF assms]
  by (cases pg) (auto simp: claim_call_def claim_queued_execution_jobs_def)

lemma table_ok_claim_pg: "table_ok tbl \<Longrightarrow> table_ok (fst (claim_queued_pg lk now limit tbl))"
proof -
  assume ok: "table_ok tbl"
  have "map jid (map (\<lambda>j. if claimed lk limit tbl j then mark_running now j else j) tbl) = map jid tbl"
    by auto
  with ok show ?thesis by (simp add: claim_pg_eq table_ok_def del: map_map)
qed

lemma claim_pg_ids: "table_ok tbl \<Longrightarrow> map jid (snd (claim_queued_pg lk now limit tbl)) = map jid (queued_in_order lk limit tbl)"
  by (simp add: claim_pg_eq)

lemma claim_pg_waiting:
  assumes "table_ok tbl"
  shows "waiting_ids (fst (claim_queued_pg lk now limit tbl)) =
    waiting_ids tbl - jid ` set (snd (claim_queued_pg lk now limit tbl))"
proof -
  have "jid ` set (snd (claim_queued_pg lk now limit tbl)) = jid ` set (queued_in_order lk limit tbl)"
    using claim_pg_ids [OF assms] by (metis set_map)
  moreover have "waiting_ids (fst (claim_queued_pg lk now limit tbl)) =
      jid ` {j \<in> set tbl. status j = ''queued'' \<and> \<not> claimed lk limit tbl j}"
    using assms by (force simp: claim_pg_eq waiting_ids_def)
  moreover have "\<dots> = waiting_ids tbl - jid ` set (queued_in_order lk limit tbl)"
    using claim_hit [OF assms, of _ lk limit] by (auto simp: waiting_ids_def)
  ultimately show ?thesis by simp
qed

interpretation job_claim: claimable "claim_call pg" waiting_ids jid table_ok for pg
proof
  fix s :: job_table and c :: claim_call
  assume ok: "table_ok s"
  obtain lk now where e: "claim_call pg c s = claim_queued_pg lk now (snd (snd c)) s"
    using claim_call_eq [OF ok] by blast
  show "table_ok (fst (claim_call pg c s))" using table_ok_claim_pg [OF ok] e by simp
  show "jid ` set (snd (claim_call pg c s)) \<subseteq> waiting_ids s"
    using claim_pg_ids [OF ok, of lk now "snd (snd c)"] queued_in_order_set e
    by (force simp: waiting_ids_def claim_pg_eq [OF ok])
  show "distinct (map jid (snd (claim_call pg c s)))"
    using distinct_queued_in_order [OF ok] e by (simp add: claim_pg_ids [OF ok])
  show "waiting_ids (fst (claim_call pg c s)) = waiting_ids s - jid ` set (snd (claim_call pg c s))"
    using claim_pg_waiting [OF ok] e by simp
qed

section \<open>Properties\<close>

definition demo_job :: "string \<Rightarrow> string \<Rightarrow> rat \<Rightarrow> exec_job" where
  "demo_job i st t = (new_exec_job t i None ''acme'' st [])"

definition demo_jobs :: job_table where
  "demo_jobs = [demo_job ''b'' ''queued'' 5, demo_job ''a'' ''queued'' 3, demo_job ''c'' ''running'' 1,
                demo_job ''d'' ''billing_pending'' 2]"

lemmas demo_simps = demo_jobs_def demo_job_def new_exec_job_def

text \<open>C16: Whatever the number of workers, the order of their polls, the batch sizes and the rows
  that other transactions hold locked, the jobs handed out by a sequence of
  \<open>claim_queued_execution_jobs\<close> calls are pairwise different, each was queued before, and no job
  handed out is queued afterwards: a job goes to exactly one caller or to none.\<close>

theorem claims_hand_out_each_job_once:
  assumes "table_ok tbl"
  shows "distinct (map jid (snd (run_claims (claim_call pg) calls tbl)))
    \<and> jid ` set (snd (run_claims (claim_call pg) calls tbl)) \<subseteq> waiting_ids tbl
    \<and> waiting_ids (fst (run_claims (claim_call pg) calls tbl)) =
        waiting_ids tbl - jid ` set (snd (run_claims (claim_call pg) calls tbl))"
  by (rule job_claim.run_claims_once [OF assms])

theorem claims_hand_out_each_job_once_witness:
  "table_ok demo_jobs \<and> distinct (map jid (snd (run_claims (claim_call True)
     [(['' a''], 7, 1), ([], 8, 5)] demo_jobs)))"
proof -
  have "table_ok demo_jobs" by (simp add: table_ok_def demo_simps)
  with claims_hand_out_each_job_once [of demo_jobs True "[(['' a''], 7, 1), ([], 8, 5)]"]
  show ?thesis by blast
qed

text \<open>One claim is first come, first served and frames everything else. The PostgreSQL
  statement (one UPDATE with a sub-SELECT) and the SQLite loop of conditional UPDATEs have the
  same effect and answer up to the resolution of the clock: the result is the first \<open>limit\<close>
  queued rows in order of creation, each now \<open>running\<close> with \<open>started_at\<close> set, and every other row
  is unchanged.\<close>

theorem claim_is_fifo_on_both_back_ends:
  assumes "table_ok tbl"
  shows "claim_queued_execution_jobs pg [] now limit tbl =
    (let t = (if pg then now else whole_seconds now); js = get_queued_execution_jobs limit tbl
     in (map (\<lambda>j. if j \<in> set js then mark_running t j else j) tbl, map (mark_running t) js))"
  using claim_sqlite_eq [OF assms] claim_pg_eq [OF assms]
  by (simp add: claim_queued_execution_jobs_def get_queued_execution_jobs_def claimed_def Let_def)

theorem claim_is_fifo_on_both_back_ends_witness:
  "table_ok demo_jobs \<and>
   map jid (snd (claim_queued_execution_jobs False [] (15/2) 1 demo_jobs)) = [''a'']"
proof -
  have ok: "table_ok demo_jobs" by (simp add: table_ok_def demo_simps)
  have "get_queued_execution_jobs 1 demo_jobs = [demo_job ''a'' ''queued'' 3]"
    by (simp add: get_queued_execution_jobs_def queued_in_order_def demo_simps)
  with claim_is_fifo_on_both_back_ends [OF ok, of False "15/2" 1] ok show ?thesis
    by (simp add: Let_def demo_job_def new_exec_job_def)
qed

text \<open>C31: The guarded write \<open>update_execution_job(..., tenant_id, if_status_not_in)\<close> is a
  compare-and-set. Its count is 1 exactly when the job exists, belongs to the tenant and is in none
  of the blocked statuses; then reading the job back shows the assignments, and otherwise the job
  reads as before. No other job ever changes, and ids and tenants are never rewritten.\<close>

theorem guarded_update_is_compare_and_set:
  assumes "table_ok tbl" and "u_status u = Some st"
  shows "(case get_execution_job i tbl of
      None \<Rightarrow> update_execution_job pg now i u tbl = (tbl, 0)
    | Some j \<Rightarrow>
        if (\<forall>t. u_tenant u = Some t \<longrightarrow> tenant_id j = t) \<and> status j \<notin> set (u_not_in u)
        then snd (update_execution_job pg now i u tbl) = 1
          \<and> (\<exists>j'. get_execution_job i (fst (update_execution_job pg now i u tbl)) = Some j'
               \<and> status j' = st \<and> jid j' = i \<and> tenant_id j' = tenant_id j
               \<and> cost_usd j' = (case u_cost_usd u of None \<Rightarrow> cost_usd j | Some c \<Rightarrow> c)
               \<and> error j' = (case u_error u of None \<Rightarrow> error j | Some e \<Rightarrow> Some e))
        else update_execution_job pg now i u tbl = (tbl, 0))
    \<and> (\<forall>k. k \<noteq> i \<longrightarrow>
        get_execution_job k (fst (update_execution_job pg now i u tbl)) = get_execution_job k tbl)"
proof -
  let ?c = "if pg then now else whole_seconds now"
  have ne: "update_sets ?c u \<noteq> []" using assms(2) by (simp add: update_sets_def opt_set_def)
  note cnt = update_count_iff [OF assms(1) ne, of i]
  have none: "update_execution_job pg now i u tbl = (tbl, 0)" if "\<forall>j\<in>set tbl. \<not> update_where i u j"
    using that ne
    by (auto simp: update_execution_job_eq update_execution_job_pg_def update_rows_def Let_def
        filter_empty_conv intro: map_idI)
  have frame: "get_execution_job k (fst (update_execution_job pg now i u tbl)) = get_execution_job k tbl"
    if "k \<noteq> i" for k
    using that unfolding get_after_update
    by (cases "get_execution_job k tbl") (auto simp: update_where_def dest: get_execution_job_Some)
  have only: "update_where i u x \<Longrightarrow> x \<in> set tbl \<Longrightarrow> get_execution_job i tbl = Some x" for x
    using get_execution_job_unique [OF assms(1)] by (auto simp: update_where_def)
  show ?thesis
  proof (cases "get_execution_job i tbl")
    case None
    with none only frame show ?thesis by fastforce
  next
    case (Some j)
    have w: "update_where i u j \<longleftrightarrow>
        (\<forall>t. u_tenant u = Some t \<longrightarrow> tenant_id j = t) \<and> status j \<notin> set (u_not_in u)"
      using get_execution_job_Some [OF Some] by (auto simp: update_where_def split: option.splits)
    show ?thesis
    proof (cases "update_where i u j")
      case True
      have "jid j = i" using get_execution_job_Some [OF Some] by simp
      moreover have "status (fold (\<lambda>f j. f j) (update_sets ?c u) j) = st
          \<and> cost_usd (fold (\<lambda>f j. f j) (update_sets ?c u) j) = (case u_cost_usd u of None \<Rightarrow> cost_usd j | Some c \<Rightarrow> c)
          \<and> error (fold (\<lambda>f j. f j) (update_sets ?c u) j) = (case u_error u of None \<Rightarrow> error j | Some e \<Rightarrow> Some e)"
        using assms(2) by (auto simp: update_sets_def opt_set_def split: option.splits)
      ultimately show ?thesis using True w cnt Some frame get_after_update [of i pg now i u tbl] by auto
    next
      case False
      then have "\<forall>x\<in>set tbl. \<not> update_where i u x" using only Some by fastforce
      then show ?thesis using none frame False w Some by simp
    qed
  qed
qed

theorem guarded_update_is_compare_and_set_witness:
  "table_ok demo_jobs \<and> update_execution_job True 9 ''d''
     (no_update\<lparr>u_status := Some ''cancelled'', u_not_in := CANCEL_BLOCKED_STATUSES\<rparr>) demo_jobs = (demo_jobs, 0)"
proof -
  have ok: "table_ok demo_jobs" by (simp add: table_ok_def demo_simps)
  have "get_execution_job ''d'' demo_jobs = Some (demo_job ''d'' ''billing_pending'' 2)"
    by (simp add: get_execution_job_def demo_simps)
  with guarded_update_is_compare_and_set [OF ok, where
      u = "no_update\<lparr>u_status := Some ''cancelled'', u_not_in := CANCEL_BLOCKED_STATUSES\<rparr>"
      and st = "''cancelled''" and i = "''d''" and pg = True and now = 9]
  show ?thesis using ok by (simp add: no_update_def demo_job_def new_exec_job_def CANCEL_BLOCKED_STATUSES_def)
qed

lemma is_orphan_running: "is_orphan pg now timeout j \<Longrightarrow> status j = ''running''"
  by (simp add: is_orphan_def)

lemma not_orphan_timeout [simp]: "\<not> is_orphan pg now timeout (j\<lparr>status := ''timeout'', error := e, completed_at := c\<rparr>)"
  by (simp add: is_orphan_def)

text \<open>The orphan sweep touches running rows only, moves exactly the expired ones to
  \<open>timeout\<close>, reports their number, never touches a recorded cost, and is idempotent: a second sweep
  at the same time changes nothing and reports 0.\<close>

theorem orphan_sweep_idempotent:
  assumes "0 < timeout" and "sweep_orphan_running_jobs pg now timeout tbl = (tbl', r)"
  shows "sweep_orphan_running_jobs pg now timeout tbl' = (tbl', Inr 0)
    \<and> r = Inr (length (filter (is_orphan pg now timeout) tbl))
    \<and> map jid tbl' = map jid tbl \<and> map cost_usd tbl' = map cost_usd tbl
    \<and> (\<forall>n < length tbl. if is_orphan pg now timeout (tbl ! n)
          then status (tbl ! n) = ''running'' \<and> status (tbl' ! n) = ''timeout'' else tbl' ! n = tbl ! n)"
  using assms by (auto simp: sweep_orphan_running_jobs_def Let_def filter_empty_conv dest: is_orphan_running)

theorem orphan_sweep_idempotent_witness:
  "(0::int) < 5 \<and> (\<exists>tbl' r. sweep_orphan_running_jobs True 100 5 demo_jobs = (tbl', r)
     \<and> sweep_orphan_running_jobs True 100 5 tbl' = (tbl', Inr 0) \<and> r = Inr 1)"
proof -
  obtain tbl' r where e: "sweep_orphan_running_jobs True 100 5 demo_jobs = (tbl', r)" by force
  have "length (filter (is_orphan True 100 5) demo_jobs) = 1"
    by (simp add: is_orphan_def coalesce_def demo_simps)
  with orphan_sweep_idempotent [OF _ e] e show ?thesis by simp
qed

end
