(* ===== verification/Finalize.thy ===== *)
theory Finalize
  imports Ledger Metering JobTable
begin

text \<open>
  Billing a finished job, \<open>src/billing/finalize.py\<close>: the conditional debit, then the usage
  events, then the process-local accounting (Prometheus counters, the burn-rate window, the
  alert). The state joins the ledger and the metering tables with that local part, kept as a
  log of metric updates in the order the code makes them. \<open>bill_net\<close> says what PostgreSQL
  does to each of the round trips of one call.

  Shown: what each answer of \<open>finalize_job_billing\<close> means for the money, that any number of
  retries debit a job once, and that no usage event exists without its debit.
\<close>

section \<open>State\<close>

datatype metric =
    MDebitTotal string string
  | MDebitNoFunds string
  | MGpuSeconds string string rat
  | MBillingCost string string string rat
  | MTokens string string string int
  | MJobCost string string rat
  | MDebitAmount string rat
  | MTenantBalance string rat

text \<open>The burn-rate alert: tenant, plan, projected hourly rate, cost of the last ten minutes.\<close>

datatype alert = BurnAlert string string rat rat

record billing =
  b_ledger :: ledger
  b_metering :: metering
  b_metrics :: "metric list"
  b_burn :: "(string \<times> (rat \<times> rat) list) list"
  b_alerts :: "alert list"

record bill_net =
  n_debit :: pg_outcome
  n_lookup :: pg_outcome
  n_gpu :: pg_outcome
  n_tokens :: pg_outcome
  n_balance :: pg_outcome

definition billing_init :: billing where
  "billing_init = \<lparr>b_ledger = ledger_init, b_metering = metering_init, b_metrics = [], b_burn = [], b_alerts = []\<rparr>"

section \<open>\_increment\_usage\<close>

definition job_key :: "string option \<Rightarrow> string option" where
  "job_key job = (if truthy job then Some (''job:'' @ the job) else None)"

definition debit_kwargs :: "rat \<Rightarrow> int \<Rightarrow> int \<Rightarrow> string \<Rightarrow> string option \<Rightarrow> pydict" where
  "debit_kwargs g it ot plan job =
     [(''gpu_sec'', PFloat (Fin g)), (''input_tokens'', PInt it), (''output_tokens'', PInt ot),
      (''plan'', PStr plan), (''job_id'', str_val job)]"

definition usage_event_type :: "string option \<Rightarrow> string" where
  "usage_event_type be = (if be = Some ''vastai'' then ''gpu_execution'' else ''cpu_execution'')"

definition job_or_auto :: "string option \<Rightarrow> string option" where
  "job_or_auto job = (if truthy job then job else Some ''auto'')"

definition gpu_call :: "string \<Rightarrow> rat \<Rightarrow> string option \<Rightarrow> string option \<Rightarrow> usage_call" where
  "gpu_call t g job be =
     \<lparr>uc_type = usage_event_type be, uc_tenant = t, uc_job = job_or_auto job, uc_gpu = g, uc_cpu = 0, uc_gb = 0,
      uc_plugins = 0, uc_billed = True, uc_cost = Some (gpu_cost g), uc_value = None\<rparr>"

definition token_call :: "string \<Rightarrow> int \<Rightarrow> int \<Rightarrow> string option \<Rightarrow> usage_call" where
  "token_call t it ot job =
     \<lparr>uc_type = ''token_usage'', uc_tenant = t, uc_job = job_or_auto job, uc_gpu = 0, uc_cpu = 0, uc_gb = 0,
      uc_plugins = 0, uc_billed = True, uc_cost = Some (token_cost it ot), uc_value = Some (of_int (it + ot))\<rparr>"

text \<open>\<open>record\<close> when the resource was used at all; the new-event flag, or \<open>None\<close> when not used.\<close>

definition record_usage ::
  "bool \<Rightarrow> pg_outcome \<Rightarrow> usage_call \<Rightarrow> billing \<Rightarrow> billing \<times> bool option result" where
  "record_usage used oc c b =
     (if used
      then (case metering_record oc c (b_metering b) of
              (m, Inl x) \<Rightarrow> (b\<lparr>b_metering := m\<rparr>, Inl x)
            | (m, Inr (_, new)) \<Rightarrow> (b\<lparr>b_metering := m\<rparr>, Inr (Some new)))
      else (b, Inr None))"

definition log_metrics :: "metric list \<Rightarrow> billing \<Rightarrow> billing" where
  "log_metrics ms b = b\<lparr>b_metrics := b_metrics b @ ms\<rparr>"

definition usage_metrics :: "string \<Rightarrow> rat \<Rightarrow> int \<Rightarrow> int \<Rightarrow> string \<Rightarrow> bool option \<Rightarrow> bool option \<Rightarrow> metric list" where
  "usage_metrics t g it ot plan gnew tnew =
     (if g > 0 \<and> gnew = Some True then [MGpuSeconds t plan g, MBillingCost t plan ''gpu'' (gpu_cost g)] else [])
     @ (if (it > 0 \<or> ot > 0) \<and> tnew = Some True
        then (if it > 0 then [MTokens t plan ''input'' it] else [])
           @ (if ot > 0 then [MTokens t plan ''output'' ot] else [])
           @ (if of_int it * in_rate > 0 then [MBillingCost t plan ''tokens'' (of_int it * in_rate)] else [])
           @ (if of_int ot * out_rate > 0 then [MBillingCost t plan ''tokens'' (of_int ot * out_rate)] else [])
        else [])
     @ (if total_cost g it ot > 0 then [MJobCost t plan (total_cost g it ot)] else [])"

text \<open>The burn-rate window: one hour is kept, ten minutes are projected to an hourly rate.\<close>

definition burn_window :: "rat \<Rightarrow> rat \<Rightarrow> (rat \<times> rat) list \<Rightarrow> (rat \<times> rat) list" where
  "burn_window now cost xs = filter (\<lambda>(t, _). now - t < 3600) (xs @ [(now, cost)])"

definition recent_cost :: "rat \<Rightarrow> (rat \<times> rat) list \<Rightarrow> rat" where
  "recent_cost now xs = sum_list (map snd (filter (\<lambda>(t, _). now - t < 600) xs))"

definition track_burn :: "rat \<Rightarrow> string \<Rightarrow> string \<Rightarrow> rat \<Rightarrow> billing \<Rightarrow> billing" where
  "track_burn now t plan cost b =
     (let w = burn_window now cost (case map_of (b_burn b) t of None \<Rightarrow> [] | Some xs \<Rightarrow> xs);
          recent = recent_cost now w;
          rate = (if recent > 0 then recent * 6 else 0)
      in b\<lparr>b_burn := AList.update t w (b_burn b),
           b_alerts := b_alerts b @ (if rate > 1 then [BurnAlert t plan rate recent] else [])\<rparr>)"

definition debit_ok_metrics :: "pg_outcome \<Rightarrow> string \<Rightarrow> rat \<Rightarrow> billing \<Rightarrow> metric list" where
  "debit_ok_metrics oc t cost b =
     [MDebitTotal t ''ok'', MDebitAmount t cost]
     @ (case get_tenant_balance oc t (b_ledger b) of Inr x \<Rightarrow> [MTenantBalance t x] | Inl _ \<Rightarrow> [])"

definition increment_usage ::
  "(string \<Rightarrow> string) \<Rightarrow> bill_net \<Rightarrow> rat \<Rightarrow> string \<Rightarrow> rat \<Rightarrow> int \<Rightarrow> int \<Rightarrow> string \<Rightarrow> string option
     \<Rightarrow> string option \<Rightarrow> billing \<Rightarrow> billing \<times> (rat \<times> bool) result" where
  "increment_usage H nw now t g it ot plan job be b =
     (let cost = total_cost g it ot
      in if t = [] \<or> cost \<le> 0 then (b, Inr (0, False))
         else case debit_if_funds H (n_debit nw) (n_lookup nw) t (Fin cost) ''USD'' (job_key job)
                     (debit_kwargs g it ot plan job) (b_ledger b) of
           (l, Inl x) \<Rightarrow> (b\<lparr>b_ledger := l\<rparr>, Inl x)
         | (l, Inr (None, _)) \<Rightarrow>
             (log_metrics [MDebitTotal t ''no_funds'', MDebitNoFunds t] (b\<lparr>b_ledger := l\<rparr>), Inr (cost, False))
         | (l, Inr (Some _, _)) \<Rightarrow>
             (case record_usage (g > 0) (n_gpu nw) (gpu_call t g job be) (b\<lparr>b_ledger := l\<rparr>) of
                (b1, Inl x) \<Rightarrow> (b1, Inl x)
              | (b1, Inr gnew) \<Rightarrow>
                  (case record_usage (it > 0 \<or> ot > 0) (n_tokens nw) (token_call t it ot job) b1 of
                     (b2, Inl x) \<Rightarrow> (b2, Inl x)
                   | (b2, Inr tnew) \<Rightarrow>
                       if gnew \<noteq> Some True \<and> tnew \<noteq> Some True then (b2, Inr (cost, True))
                       else let b3 = track_burn now t plan cost (log_metrics (usage_metrics t g it ot plan gnew tnew) b2)
                            in (log_metrics (debit_ok_metrics (n_balance nw) t cost b3) b3, Inr (cost, True)))))"

section \<open>Billable time\<close>

text \<open>
  \<open>resolve_billable_seconds\<close>. \<open>fromiso\<close> is \<open>datetime.fromisoformat\<close> after the replacement of
  \<open>Z\<close>, with a naive time read as UTC, in seconds; \<open>None\<close> where it raises.
\<close>

definition resolve_billable_seconds ::
  "(string \<Rightarrow> rat option) \<Rightarrow> pyval \<Rightarrow> string option \<Rightarrow> rat \<Rightarrow> rat option" where
  "resolve_billable_seconds fromiso confirmed started now =
     (let wall = (if \<not> truthy started then None
                  else case fromiso (the started) of
                         None \<Rightarrow> None
                       | Some t \<Rightarrow> if now - t < 0 then None else Some (now - t))
      in if confirmed = PNone then wall
         else case py_float confirmed of
                Some (Fin v) \<Rightarrow> if v \<ge> 0 then Some v else wall
              | _ \<Rightarrow> wall)"

section \<open>finalize\_job\_billing and refund\_job\<close>

definition FINALIZED_STATUSES :: "string list" where
  "FINALIZED_STATUSES = [''completed'', ''cancelled'', ''failed'', ''timeout'']"

definition finalize_job_billing ::
  "(string \<Rightarrow> string) \<Rightarrow> bill_net \<Rightarrow> rat \<Rightarrow> job_table \<Rightarrow> string \<Rightarrow> string \<Rightarrow> rat \<Rightarrow> string
     \<Rightarrow> string option \<Rightarrow> billing \<Rightarrow> billing \<times> string result" where
  "finalize_job_billing H nw now jobs t job g plan be b =
     (case get_execution_job job jobs of
        None \<Rightarrow> (b, Inr ''skip'')
      | Some j \<Rightarrow>
          if tenant_id j \<noteq> t \<or> status j \<in> set FINALIZED_STATUSES then (b, Inr ''skip'')
          else case increment_usage H nw now t g 0 0 plan (Some job) be b of
                 (b', Inl LedgerIdemMismatchError) \<Rightarrow> (b', Inr ''mismatch'')
               | (b', Inl x) \<Rightarrow> (b', Inl x)
               | (b', Inr (cost, debited)) \<Rightarrow>
                   (b', Inr (if debited then ''ok'' else if cost \<le> 0 then ''skip'' else ''no_funds'')))"

definition refund_job ::
  "(string \<Rightarrow> string) \<Rightarrow> pg_outcome \<Rightarrow> pg_outcome \<Rightarrow> string \<Rightarrow> string \<Rightarrow> pyfloat \<Rightarrow> string \<Rightarrow> string
     \<Rightarrow> billing \<Rightarrow> billing \<times> string result" where
  "refund_job H o1 o2 fresh t amt job reason b =
     (case refund H o1 o2 fresh t (Some amt) (Some ''USD'') (Some job) reason (b_ledger b) of
        (l, r) \<Rightarrow> (b\<lparr>b_ledger := l\<rparr>, r))"

section \<open>What one call does\<close>

lemma log_metrics_simps [simp]:
  "b_ledger (log_metrics ms b) = b_ledger b" "b_metering (log_metrics ms b) = b_metering b"
  by (simp_all add: log_metrics_def)

lemma track_burn_simps [simp]:
  "b_ledger (track_burn now t plan c b) = b_ledger b" "b_metering (track_burn now t plan c b) = b_metering b"
  by (simp_all add: track_burn_def Let_def)

lemma record_usage_ledger [simp]: "b_ledger (fst (record_usage u oc c b)) = b_ledger b"
  by (auto simp: record_usage_def split: prod.splits sum.splits)

lemma record_usage_metering:
  "b_metering (fst (record_usage u oc c b)) = (if u then fst (metering_record oc c (b_metering b)) else b_metering b)"
  by (auto simp: record_usage_def split: prod.splits sum.splits)

abbreviation bill_debit where
  "bill_debit H nw t g it ot plan job l \<equiv>
     debit_if_funds H (n_debit nw) (n_lookup nw) t (Fin (total_cost g it ot)) ''USD'' (job_key job)
       (debit_kwargs g it ot plan job) l"

lemma increment_usage_ledger:
  "b_ledger (fst (increment_usage H nw now t g it ot plan job be b)) =
     (if t = [] \<or> total_cost g it ot \<le> 0 then b_ledger b
      else fst (bill_debit H nw t g it ot plan job (b_ledger b)))"
proof -
  have rl: "record_usage u oc c b = (b', r) \<Longrightarrow> b_ledger b' = b_ledger b" for u oc c b b' r
    using record_usage_ledger [of u oc c b] by simp
  show ?thesis
    unfolding increment_usage_def Let_def
    by (auto split: prod.splits sum.splits option.splits if_splits dest!: rl)
qed

text \<open>The metering tables move only after a debit that succeeded, by the two records.\<close>

lemma increment_usage_metering:
  assumes "P (b_metering b)"
    and "\<And>l rid n m oc. \<lbrakk>bill_debit H nw t g it ot plan job (b_ledger b) = (l, Inr (Some rid, n));
        t \<noteq> []; 0 < total_cost g it ot; 0 < g; P m\<rbrakk> \<Longrightarrow> P (fst (metering_record oc (gpu_call t g job be) m))"
    and "\<And>l rid n m oc. \<lbrakk>bill_debit H nw t g it ot plan job (b_ledger b) = (l, Inr (Some rid, n));
        t \<noteq> []; 0 < total_cost g it ot; 0 < it \<or> 0 < ot; P m\<rbrakk> \<Longrightarrow> P (fst (metering_record oc (token_call t it ot job) m))"
  shows "P (b_metering (fst (increment_usage H nw now t g it ot plan job be b)))"
proof (cases "t = [] \<or> total_cost g it ot \<le> 0")
  case False
  obtain l r where d: "bill_debit H nw t g it ot plan job (b_ledger b) = (l, r)" by force
  show ?thesis
  proof (cases "\<exists>rid n. r = Inr (Some rid, n)")
    case True
    then obtain rid n where r: "r = Inr (Some rid, n)" by blast
    let ?b0 = "b\<lparr>b_ledger := l\<rparr>"
    obtain b1 g1 where g1: "record_usage (g > 0) (n_gpu nw) (gpu_call t g job be) ?b0 = (b1, g1)" by force
    obtain b2 t2 where t2: "record_usage (it > 0 \<or> ot > 0) (n_tokens nw) (token_call t it ot job) b1 = (b2, t2)" by force
    have "P (b_metering b1)"
      using record_usage_metering [of "g > 0" "n_gpu nw" "gpu_call t g job be" ?b0] g1 assms(1,2) d r False
      by (auto split: if_splits)
    moreover from this have "P (b_metering b2)"
      using record_usage_metering [of "it > 0 \<or> ot > 0" "n_tokens nw" "token_call t it ot job" b1] t2 assms(3) d r False
      by (auto split: if_splits)
    ultimately show ?thesis
      using d r g1 t2 False by (auto simp: increment_usage_def Let_def split: sum.splits)
  next
    case n: False
    then show ?thesis
      using d False assms(1) by (auto simp: increment_usage_def Let_def split: sum.splits option.splits)
  qed
qed (use assms(1) in \<open>auto simp: increment_usage_def Let_def\<close>)

section \<open>Usage is covered by debits\<close>

text \<open>Every usage event has the debit of its job in the ledger, for at least its cost.\<close>

definition usage_covered :: "(string \<Rightarrow> string) \<Rightarrow> ledger \<Rightarrow> metering \<Rightarrow> bool" where
  "usage_covered H l m =
     (\<forall>ev\<in>set (usage_rows m). truthy (ue_job ev) \<and>
        (\<exists>e\<in>set (rows l). ledger_id e = idem_ledger_id H (ue_tenant ev) (''job:'' @ the (ue_job ev))
           \<and> le_tenant e = ue_tenant ev \<and> entry_type e = ''DEBIT''
           \<and> dict_get (metadata e) ''job_id'' = PStr (the (ue_job ev))
           \<and> ue_cost ev \<le> pyround 8 (amount e)))"

lemma usage_covered_mono:
  "usage_covered H l m \<Longrightarrow> set (rows l) \<subseteq> set (rows l') \<Longrightarrow> usage_covered H l' m"
  unfolding usage_covered_def by blast

lemma usage_covered_record:
  assumes "usage_covered H l m" "truthy (uc_job c)"
    and "e \<in> set (rows l)" "ledger_id e = idem_ledger_id H (uc_tenant c) (''job:'' @ the (uc_job c))"
    and "le_tenant e = uc_tenant c" "entry_type e = ''DEBIT''"
    and "dict_get (metadata e) ''job_id'' = PStr (the (uc_job c))"
    and "ue_cost (usage_event_of c) \<le> pyround 8 (amount e)"
  shows "usage_covered H l (fst (metering_record oc c m))"
  unfolding metering_record_fst
proof (rule pg_run_preserves)
  fix m' r
  assume "usage_record_stmt c m = Some (m', r)"
  then have "set (usage_rows m') \<subseteq> insert (usage_event_of c) (set (usage_rows m))"
    by (auto simp: usage_record_stmt_def Let_def split: if_splits)
  then show "usage_covered H l m'" using assms unfolding usage_covered_def by fastforce
qed (rule assms(1))

lemma debit_meta_job: "dict_get (debit_meta k (debit_kwargs g it ot plan job)) ''job_id'' = str_val job"
  by (simp add: dict_get_def debit_meta_def debit_kwargs_def)

lemma token_cost_nonneg: "0 \<le> it \<Longrightarrow> 0 \<le> ot \<Longrightarrow> 0 \<le> token_cost it ot"
  by (simp add: token_cost_def in_rate_def out_rate_def pyround_nonneg)

lemma pyround_total [simp]: "pyround 8 (total_cost g it ot) = total_cost g it ot"
  by (simp add: total_cost_def)

lemma pyround_gpu [simp]: "pyround 8 (gpu_cost g) = gpu_cost g"
  by (simp add: gpu_cost_def)

lemma pyround_token [simp]: "pyround 8 (token_cost it ot) = token_cost it ot"
  by (simp add: token_cost_def)

text \<open>What a successful debit of a bill leaves in the ledger.\<close>

lemma bill_debit_success:
  assumes "bill_debit H nw t g it ot plan job l0 = (l, Inr (Some rid, n))"
  obtains e j where "job = Some j" "j \<noteq> []" "e \<in> set (rows l)" "ledger_id e = idem_ledger_id H t (''job:'' @ j)"
    "le_tenant e = t" "entry_type e = ''DEBIT''" "dict_get (metadata e) ''job_id'' = PStr j"
    "pyround 8 (amount e) = total_cost g it ot"
proof -
  have k: "truthy (job_key job)" and c: "0 \<le> total_cost g it ot"
    using debit_if_funds_valid [OF assms] by auto
  then have "truthy job" by (simp add: job_key_def split: if_splits)
  then obtain j where j: "job = Some j" "j \<noteq> []" by (cases job) auto
  from debit_if_funds_success [OF assms c k] j show ?thesis
    by (auto simp: idem_matches_def debit_meta_job job_key_def str_val_def intro!: that [of j])
qed

lemma increment_usage_covered:
  assumes "usage_covered H (b_ledger b) (b_metering b)" "0 \<le> it" "0 \<le> ot"
  shows "usage_covered H (b_ledger (fst (increment_usage H nw now t g it ot plan job be b)))
           (b_metering (fst (increment_usage H nw now t g it ot plan job be b)))"
proof (cases "t = [] \<or> total_cost g it ot \<le> 0")
  case True
  then show ?thesis using assms(1) by (auto simp: increment_usage_def Let_def)
next
  case False
  let ?l = "fst (bill_debit H nw t g it ot plan job (b_ledger b))"
  have l: "b_ledger (fst (increment_usage H nw now t g it ot plan job be b)) = ?l"
    using False by (simp add: increment_usage_ledger)
  have grow: "set (rows (b_ledger b)) \<subseteq> set (rows ?l)"
    by (auto simp: debit_if_funds_rows Let_def)
  have rec: "usage_covered H ?l (fst (metering_record oc c m))"
    if "bill_debit H nw t g it ot plan job (b_ledger b) = (l, Inr (Some rid, n))" "usage_covered H ?l m"
      "uc_job c = job_or_auto job" "uc_tenant c = t" "ue_cost (usage_event_of c) \<le> total_cost g it ot" for l rid n m oc c
    by (rule bill_debit_success [OF that(1)]) (rule usage_covered_record [OF that(2)], use that in \<open>auto simp: job_or_auto_def\<close>)
  show ?thesis
    unfolding l
  proof (rule increment_usage_metering [where P = "usage_covered H ?l"])
    show "usage_covered H ?l (b_metering b)" using usage_covered_mono [OF assms(1) grow] .
  next
    fix l rid n m oc
    assume "bill_debit H nw t g it ot plan job (b_ledger b) = (l, Inr (Some rid, n))" "usage_covered H ?l m"
    then show "usage_covered H ?l (fst (metering_record oc (gpu_call t g job be) m))"
      by (rule rec) (use token_cost_nonneg [OF assms(2,3)] in
          \<open>auto simp: gpu_call_def usage_event_of_def Let_def total_cost_sum\<close>)
  next
    fix l rid n m oc
    assume "bill_debit H nw t g it ot plan job (b_ledger b) = (l, Inr (Some rid, n))" "usage_covered H ?l m"
    then show "usage_covered H ?l (fst (metering_record oc (token_call t it ot job) m))"
      by (rule rec) (use gpu_cost_nonneg [of g] in
          \<open>auto simp: token_call_def usage_event_of_def Let_def total_cost_sum\<close>)
  qed
qed

section \<open>finalize\_job\_billing\<close>

definition billable :: "job_table \<Rightarrow> string \<Rightarrow> string \<Rightarrow> rat \<Rightarrow> bool" where
  "billable jobs t job g =
     (t \<noteq> [] \<and> total_cost g 0 0 > 0 \<and> job \<noteq> []
      \<and> (\<exists>j. get_execution_job job jobs = Some j \<and> tenant_id j = t \<and> status j \<notin> set FINALIZED_STATUSES))"

lemma finalize_fst:
  "fst (finalize_job_billing H nw now jobs t job g plan be b) =
     (if \<exists>j. get_execution_job job jobs = Some j \<and> tenant_id j = t \<and> status j \<notin> set FINALIZED_STATUSES
      then fst (increment_usage H nw now t g 0 0 plan (Some job) be b) else b)"
  by (auto simp: finalize_job_billing_def split: option.splits prod.splits sum.splits pyexc.splits)

definition bill_entry :: "(string \<Rightarrow> string) \<Rightarrow> string \<Rightarrow> string \<Rightarrow> rat \<Rightarrow> string \<Rightarrow> ledger_entry" where
  "bill_entry H t job g plan =
     debit_entry H t (Fin (total_cost g 0 0)) ''USD'' (job_key (Some job)) (debit_kwargs g 0 0 plan (Some job))"

lemma finalize_rows:
  "rows (b_ledger (fst (finalize_job_billing H nw now jobs t job g plan be b))) =
     (if billable jobs t job g \<and> n_debit nw \<noteq> PgDown
         \<and> total_cost g 0 0 \<le> balance_rows (rows (b_ledger b)) t
         \<and> \<not> has_id (idem_ledger_id H t (''job:'' @ job)) (rows (b_ledger b))
      then rows (b_ledger b) @ [bill_entry H t job g plan] else rows (b_ledger b))"
  unfolding finalize_fst
  by (auto simp: increment_usage_ledger debit_if_funds_rows Let_def billable_def bill_entry_def debit_entry_def
      job_key_def)

interpretation once_finalize: insert_once
  "\<lambda>(nw, now) b. fst (finalize_job_billing H nw now jobs t job g plan be b)" "\<lambda>b. rows (b_ledger b)"
  "has_id (idem_ledger_id H t (''job:'' @ job))"
  "\<lambda>(nw, now) rs. billable jobs t job g \<and> n_debit nw \<noteq> PgDown \<and> total_cost g 0 0 \<le> balance_rows rs t"
  "\<lambda>rs. if billable jobs t job g then rs @ [bill_entry H t job g plan] else rs"
  for H jobs t job g plan be
  by unfold_locales
    (auto simp: finalize_rows has_id_def bill_entry_def debit_entry_def job_key_def billable_def)

lemma finalize_metering_present:
  assumes "record_usage True oc c b = (b', Inr new)"
  shows "usage_present c (b_metering b')"
  using assms unfolding record_usage_def
  by (cases oc) (auto simp: metering_record_def usage_record_stmt_def usage_present_def same_usage_key_def
      Let_def split: if_splits)

lemma increment_usage_cases:
  assumes "increment_usage H nw now t g 0 0 plan (Some job) be b = (b', r)"
  obtains (free) "b' = b" "r = Inr (0, False)" "t = [] \<or> total_cost g 0 0 \<le> 0"
    | (debit_failed) l x where "bill_debit H nw t g 0 0 plan (Some job) (b_ledger b) = (l, Inl x)" "r = Inl x"
        "b' = b\<lparr>b_ledger := l\<rparr>"
    | (no_funds) l n where "bill_debit H nw t g 0 0 plan (Some job) (b_ledger b) = (l, Inr (None, n))"
        "r = Inr (total_cost g 0 0, False)" "b_ledger b' = l" "b_metering b' = b_metering b"
        "t \<noteq> []" "0 < total_cost g 0 0"
    | (usage_failed) l rid n where "bill_debit H nw t g 0 0 plan (Some job) (b_ledger b) = (l, Inr (Some rid, n))"
        "r = Inl PGUnavailableError" "b_ledger b' = l"
    | (ok) l rid n where "bill_debit H nw t g 0 0 plan (Some job) (b_ledger b) = (l, Inr (Some rid, n))"
        "r = Inr (total_cost g 0 0, True)" "b_ledger b' = l" "usage_present (gpu_call t g (Some job) be) (b_metering b')"
        "t \<noteq> []" "0 < total_cost g 0 0"
proof (cases "t = [] \<or> total_cost g 0 0 \<le> 0")
  case True
  then show ?thesis using assms free by (auto simp: increment_usage_def Let_def)
next
  case False
  then have g: "0 < g" by (auto simp: total_cost_sum gpu_cost_def token_cost_def split: if_splits)
  obtain l d where d: "bill_debit H nw t g 0 0 plan (Some job) (b_ledger b) = (l, d)" by force
  consider x where "d = Inl x" | n where "d = Inr (None, n)" | rid n where "d = Inr (Some rid, n)"
    by (metis option.exhaust prod.exhaust sum.exhaust)
  then show ?thesis
  proof cases
    case 1
    then show ?thesis using assms False d debit_failed by (auto simp: increment_usage_def Let_def)
  next
    case 2
    then show ?thesis using assms False d no_funds by (auto simp: increment_usage_def Let_def)
  next
    case 3
    obtain b1 u where u: "record_usage True (n_gpu nw) (gpu_call t g (Some job) be) (b\<lparr>b_ledger := l\<rparr>) = (b1, u)"
      by force
    have l1: "b_ledger b1 = l" using record_usage_ledger [of True "n_gpu nw" "gpu_call t g (Some job) be" "b\<lparr>b_ledger := l\<rparr>"] u by simp
    show ?thesis
    proof (cases u)
      case (Inl x)
      then have "x = PGUnavailableError"
        using u by (cases "n_gpu nw") (auto simp: record_usage_def metering_record_def usage_record_stmt_def Let_def split: if_splits)
      with 3 Inl show ?thesis
        using assms False d u g l1 usage_failed by (auto simp: increment_usage_def Let_def)
    next
      case (Inr new)
      with u have "usage_present (gpu_call t g (Some job) be) (b_metering b1)"
        by (auto intro: finalize_metering_present)
      with 3 Inr show ?thesis
        using assms False d u g l1 ok
        by (auto simp: increment_usage_def Let_def record_usage_def [of False] split: if_splits)
    qed
  qed
qed

lemma job_key_Some [simp]: "job \<noteq> [] \<Longrightarrow> job_key (Some job) = Some (''job:'' @ job)"
  by (simp add: job_key_def)

lemma bill_debit_no_funds:
  assumes "bill_debit H nw t g 0 0 plan (Some job) l0 = (l, Inr (None, n))" "job \<noteq> []"
  shows "rows l = rows l0 \<and> (balance_rows (rows l0) t < total_cost g 0 0
     \<or> (\<exists>e\<in>set (rows l0). ledger_id e = idem_ledger_id H t (''job:'' @ job) \<and> le_tenant e \<noteq> t))"
proof -
  have k: "truthy (job_key (Some job))" "0 \<le> total_cost g 0 0" using debit_if_funds_valid [OF assms(1)] by auto
  from debit_if_funds_result [OF assms(1) k(2,1)] obtain r where
    lk: "ledger_idem_lookup (n_lookup nw) (idem_ledger_id H t (''job:'' @ job)) t (total_cost g 0 0) ''USD''
          (debit_meta (job_key (Some job)) (debit_kwargs g 0 0 plan (Some job))) l = (l, r)"
    and x: "has_id (idem_ledger_id H t (''job:'' @ job)) (rows l0) \<or> balance_rows (rows l0) t < total_cost g 0 0"
      "rows l = rows l0" "r = Inr None"
    using assms(2) by (fastforce split: sum.splits option.splits)
  from ledger_idem_lookup_res [OF lk] x(3)
  have "filter (\<lambda>r. ledger_id r = idem_ledger_id H t (''job:'' @ job) \<and> le_tenant r = t) (rows l) = []"
    by (auto split: list.splits if_splits)
  with x show ?thesis by (auto simp: has_id_def filter_empty_conv)
qed

lemma bill_debit_error:
  assumes "bill_debit H nw t g 0 0 plan (Some job) l0 = (l, Inl x)" "job \<noteq> []" "0 < total_cost g 0 0"
  shows "x = PGUnavailableError \<or> x = LedgerIdemMismatchError"
proof -
  from debit_if_funds_result [OF assms(1)] assms(2,3) obtain r where
    lk: "ledger_idem_lookup (n_lookup nw) (idem_ledger_id H t (''job:'' @ job)) t (total_cost g 0 0) ''USD''
          (debit_meta (Some (''job:'' @ job)) (debit_kwargs g 0 0 plan (Some job))) l = (l, r)"
    and "r = Inl x \<or> x = PGUnavailableError"
    by (fastforce split: sum.splits option.splits)
  with ledger_idem_lookup_res [OF lk] show ?thesis by (auto split: list.splits if_splits)
qed

text \<open>A mismatch is found under an entry that was there before the call.\<close>

lemma bill_debit_mismatch_rows:
  assumes "bill_debit H nw t g 0 0 plan (Some job) l0 = (l, Inl LedgerIdemMismatchError)"
    and "0 < total_cost g 0 0" "job \<noteq> []" "ledger_inv l0"
  shows "rows l = rows l0"
proof (rule ccontr)
  assume "rows l \<noteq> rows l0"
  let ?e = "bill_entry H t job g plan"
  have rows: "rows l = rows l0 @ [?e]" and new: "n_debit nw \<noteq> PgDown" "\<not> has_id (ledger_id ?e) (rows l0)"
    using debit_if_funds_rows [of H "n_debit nw" "n_lookup nw" t "Fin (total_cost g 0 0)" "''USD''"
        "job_key (Some job)" "debit_kwargs g 0 0 plan (Some job)" l0] assms(1,3) \<open>rows l \<noteq> rows l0\<close>
    by (auto simp: Let_def bill_entry_def debit_entry_def split: if_splits)
  from debit_if_funds_result [OF assms(1)] assms(2,3) new
  obtain r where lk: "ledger_idem_lookup (n_lookup nw) (idem_ledger_id H t (''job:'' @ job)) t (total_cost g 0 0) ''USD''
          (debit_meta (Some (''job:'' @ job)) (debit_kwargs g 0 0 plan (Some job))) l = (l, r)"
    and r: "r = Inl LedgerIdemMismatchError"
    by (fastforce split: sum.splits option.splits)
  have "filter (\<lambda>r. ledger_id r = idem_ledger_id H t (''job:'' @ job) \<and> le_tenant r = t) (rows l) = [?e]"
    using rows new(2) assms(3)
    by (auto simp: bill_entry_def debit_entry_def has_id_def filter_empty_conv image_iff)
  moreover have "idem_matches ?e (total_cost g 0 0) ''USD'' (debit_meta (Some (''job:'' @ job)) (debit_kwargs g 0 0 plan (Some job)))"
    using assms(3) by (simp add: idem_matches_def bill_entry_def debit_entry_def debit_meta_def)
  ultimately show False using ledger_idem_lookup_res [OF lk] r by simp
qed

text \<open>An answer \<open>ok\<close> means that the job's DEBIT for the price is in the ledger.\<close>

lemma finalize_ok_debit:
  assumes "finalize_job_billing H nw now jobs t job g plan be b = (b', Inr ''ok'')"
  shows "\<exists>e\<in>set (rows (b_ledger b')). ledger_id e = idem_ledger_id H t (''job:'' @ job) \<and> le_tenant e = t
    \<and> entry_type e = ''DEBIT'' \<and> pyround 8 (amount e) = total_cost g 0 0"
proof -
  obtain u where u: "increment_usage H nw now t g 0 0 plan (Some job) be b = (b', u)" and r: "\<exists>c. u = Inr (c, True)"
    using assms by (auto simp: finalize_job_billing_def split: option.splits if_splits prod.splits sum.splits pyexc.splits)
  from u show ?thesis
  proof (cases rule: increment_usage_cases)
    case (ok l rid n)
    from bill_debit_success [OF ok(1)] ok(3) show ?thesis by (metis option.inject)
  qed (use r in auto)
qed

section \<open>Properties\<close>

inductive billing_step :: "(string \<Rightarrow> string) \<Rightarrow> billing \<Rightarrow> billing \<Rightarrow> bool" for H where
  bill: "0 \<le> it \<Longrightarrow> 0 \<le> ot \<Longrightarrow> billing_step H b (fst (increment_usage H nw now t g it ot plan job be b))"
| finalize: "billing_step H b (fst (finalize_job_billing H nw now jobs t job g plan be b))"
| refund: "billing_step H b (fst (refund_job H o1 o2 fresh t amt job reason b))"
| ledger: "ledger_step (b_ledger b) l \<Longrightarrow> billing_step H b (b\<lparr>b_ledger := l\<rparr>)"

interpretation bil: transition_system "\<lambda>b. b = billing_init" "billing_step H" for H .

lemma refund_job_step: "ledger_step (b_ledger b) (b_ledger (fst (refund_job H o1 o2 fresh t amt job reason b)))"
  using step_refund [of "b_ledger b" H o1 o2 fresh t "Some amt" "Some ''USD''" "Some job" reason]
  by (auto simp: refund_job_def split: prod.splits)

lemma ledger_step_rows: "ledger_step l l' \<Longrightarrow> set (rows l) \<subseteq> set (rows l')"
  using ledger_step_grows [of l l'] by (auto simp: grows_def)

lemma refund_job_metering [simp]: "b_metering (fst (refund_job H o1 o2 fresh t amt job reason b)) = b_metering b"
  by (simp add: refund_job_def split: prod.splits)

lemma billing_step_covered:
  assumes "billing_step H b b'" "usage_covered H (b_ledger b) (b_metering b)"
  shows "usage_covered H (b_ledger b') (b_metering b')"
  using assms
proof cases
  case (finalize nw now jobs t job g plan be)
  then show ?thesis using increment_usage_covered [OF assms(2)] assms(2) by (simp add: finalize_fst)
next
  case (refund o1 o2 fresh t amt job reason)
  then show ?thesis using usage_covered_mono [OF assms(2) ledger_step_rows [OF refund_job_step]] by simp
next
  case (ledger l)
  then show ?thesis using usage_covered_mono [OF assms(2) ledger_step_rows] by simp
qed (use assms(2) in \<open>simp add: increment_usage_covered\<close>)

text \<open>C1: Money before usage. In every state the billing code can reach (bills, retries, refunds, any
  other ledger writes, any failures of any round trip), each usage event is covered: its job's DEBIT
  is in the ledger, for the same tenant, under the job's idempotency key and job id, and for at least
  the cost the event carries. There is no billed usage without a debit, whatever failed when.\<close>

theorem usage_never_without_debit:
  assumes "bil.reach H b" and "ev \<in> set (usage_rows (b_metering b))"
  shows "\<exists>e\<in>set (rows (b_ledger b)). entry_type e = ''DEBIT'' \<and> le_tenant e = ue_tenant ev
    \<and> ledger_id e = idem_ledger_id H (ue_tenant ev) (''job:'' @ the (ue_job ev))
    \<and> dict_get (metadata e) ''job_id'' = PStr (the (ue_job ev)) \<and> ue_cost ev \<le> pyround 8 (amount e)"
proof -
  have "usage_covered H (b_ledger b) (b_metering b)"
    using assms(1)
  proof (rule bil.invariant_reach [rotated 2, where I = "\<lambda>b. usage_covered H (b_ledger b) (b_metering b)"])
    show "usage_covered H (b_ledger s) (b_metering s)" if "s = billing_init" for s
      using that by (simp add: billing_init_def metering_init_def usage_covered_def)
  qed (rule billing_step_covered)
  with assms(2) show ?thesis unfolding usage_covered_def by blast
qed

definition all_ok :: bill_net where
  "all_ok = \<lparr>n_debit = PgOk, n_lookup = PgOk, n_gpu = PgOk, n_tokens = PgOk, n_balance = PgOk\<rparr>"

definition ex_funded :: billing where
  "ex_funded = billing_init\<lparr>b_ledger := fst (credit (\<lambda>s. s) PgOk PgOk ''f1'' ''acme'' (Some (Fin 5)) (Some ''USD'') None [] ledger_init)\<rparr>"

lemma ex_funded_reach: "bil.reach (\<lambda>s. s) ex_funded"
proof -
  have "billing_step (\<lambda>s. s) billing_init ex_funded"
    using billing_step.ledger [of billing_init "fst (credit (\<lambda>s. s) PgOk PgOk ''f1'' ''acme'' (Some (Fin 5)) (Some ''USD'') None [] ledger_init)" "\<lambda>s. s"]
      step_credit [of ledger_init "\<lambda>s. s"]
    by (simp add: ex_funded_def billing_init_def)
  then show ?thesis by (rule bil.reach_step [OF bil.reach_init [OF refl]])
qed

lemma ex_funded_rows: "rows (b_ledger ex_funded) =
  [\<lparr>ledger_id = ''f1'', le_tenant = ''acme'', entry_type = ''CREDIT'', amount = 5, currency = ''USD'', metadata = []\<rparr>]"
  by (simp add: ex_funded_def credit_rows ledger_init_def has_id_def Let_def)

lemma total_cost_100: "total_cost 100 0 0 = 1 / 1000"
  using pyround_scaled [of 8 100000] by (simp add: total_cost_sum gpu_cost_def token_cost_def gpu_rate_def)

definition ex_job :: job_table where
  "ex_job = [demo_job ''j1'' ''running'' 3]"

lemma ex_billable: "billable ex_job ''acme'' ''j1'' 100"
  by (simp add: billable_def total_cost_100 ex_job_def get_execution_job_def demo_job_def new_exec_job_def FINALIZED_STATUSES_def)

theorem usage_never_without_debit_witness:
  "\<exists>b ev. bil.reach (\<lambda>s. s) b \<and> ev \<in> set (usage_rows (b_metering b))
     \<and> (\<exists>e\<in>set (rows (b_ledger b)). entry_type e = ''DEBIT'' \<and> le_tenant e = ue_tenant ev)"
proof -
  let ?b = "fst (finalize_job_billing (\<lambda>s. s) all_ok 0 ex_job ''acme'' ''j1'' 100 ''free'' None ex_funded)"
  have r: "bil.reach (\<lambda>s. s) ?b"
    by (rule bil.reach_step [OF ex_funded_reach]) (rule billing_step.finalize)
  obtain l rid n where d: "bill_debit (\<lambda>s. s) all_ok ''acme'' 100 0 0 ''free'' (Some ''j1'') (b_ledger ex_funded) = (l, Inr (Some rid, n))"
  proof -
    obtain l r where d: "bill_debit (\<lambda>s. s) all_ok ''acme'' 100 0 0 ''free'' (Some ''j1'') (b_ledger ex_funded) = (l, r)" by force
    then have "\<exists>rid n. r = Inr (Some rid, n)"
      using debit_if_funds_result [OF d]
      by (auto simp: total_cost_100 ex_funded_rows has_id_def idem_ledger_id_def all_ok_def balance_rows_def signed_def)
    with d that show ?thesis by blast
  qed
  have "\<exists>ev. ev \<in> set (usage_rows (b_metering ?b))"
    using d ex_billable
    by (auto simp: finalize_fst billable_def increment_usage_def Let_def record_usage_def metering_record_def all_ok_def
        usage_record_stmt_def gpu_call_def token_call_def log_metrics_def track_burn_def split: if_splits)
  then obtain ev where ev: "ev \<in> set (usage_rows (b_metering ?b))" by blast
  from usage_never_without_debit [OF r ev] r ev show ?thesis by blast
qed

text \<open>The answer of \<open>finalize_job_billing\<close> tells what happened to the money. \<open>ok\<close>: the job's
  DEBIT for the rounded price is in the ledger and the usage event is stored. \<open>no_funds\<close>: ledger and
  usage tables are as before, and the balance was below the price (or the id is taken by another
  tenant, a hash collision). \<open>skip\<close>: nothing changed, and the job was not billable. \<open>mismatch\<close>: no
  usage was written and no money moved. The only exception that escapes is
  \<open>PGUnavailableError\<close>.\<close>

theorem finalize_answer_tells_the_money:
  assumes "finalize_job_billing H nw now jobs t job g plan be b = (b', r)" and "job \<noteq> []" and "ledger_inv (b_ledger b)"
  shows "case r of
      Inl x \<Rightarrow> x = PGUnavailableError
    | Inr a \<Rightarrow>
        (if a = ''ok'' then
           (\<exists>e\<in>set (rows (b_ledger b')). ledger_id e = idem_ledger_id H t (''job:'' @ job) \<and> le_tenant e = t
              \<and> entry_type e = ''DEBIT'' \<and> pyround 8 (amount e) = total_cost g 0 0)
           \<and> usage_present (gpu_call t g (Some job) be) (b_metering b') \<and> billable jobs t job g
         else b_metering b' = b_metering b \<and> rows (b_ledger b') = rows (b_ledger b)
           \<and> (a = ''no_funds'' \<and> billable jobs t job g
                \<and> (balance_rows (rows (b_ledger b)) t < total_cost g 0 0
                   \<or> (\<exists>e\<in>set (rows (b_ledger b)). ledger_id e = idem_ledger_id H t (''job:'' @ job) \<and> le_tenant e \<noteq> t))
              \<or> a = ''skip'' \<and> \<not> billable jobs t job g \<and> b' = b
              \<or> a = ''mismatch'' \<and> billable jobs t job g))"
proof (cases "\<exists>j. get_execution_job job jobs = Some j \<and> tenant_id j = t \<and> status j \<notin> set FINALIZED_STATUSES")
  case False
  then have "b' = b \<and> r = Inr ''skip''" using assms(1)
    by (auto simp: finalize_job_billing_def split: option.splits if_splits)
  with False show ?thesis by (auto simp: billable_def)
next
  case True
  then obtain j where j: "get_execution_job job jobs = Some j" "tenant_id j = t" "status j \<notin> set FINALIZED_STATUSES" by blast
  obtain b1 u where u: "increment_usage H nw now t g 0 0 plan (Some job) be b = (b1, u)" by force
  from u show ?thesis
  proof (cases rule: increment_usage_cases)
    case free
    then show ?thesis using assms(1) j u by (auto simp: finalize_job_billing_def billable_def)
  next
    case (debit_failed l x)
    have pos: "0 < total_cost g 0 0 \<and> t \<noteq> []"
      using debit_failed u by (auto simp: increment_usage_def Let_def split: if_splits)
    have "x = LedgerIdemMismatchError \<Longrightarrow> rows l = rows (b_ledger b)"
      using bill_debit_mismatch_rows [where H = H and nw = nw and t = t and g = g and plan = plan and job = job and l = l] debit_failed(1) assms(2,3) pos by blast
    with bill_debit_error [OF debit_failed(1) assms(2)] pos show ?thesis
      using assms(1) assms(2) j u debit_failed by (auto simp: finalize_job_billing_def billable_def)
  next
    case (no_funds l n)
    with bill_debit_no_funds [OF no_funds(1) assms(2)] show ?thesis
      using assms(1,2) j u by (auto simp: finalize_job_billing_def billable_def)
  next
    case (usage_failed l rid n)
    then show ?thesis using assms(1) j u by (auto simp: finalize_job_billing_def)
  next
    case (ok l rid n)
    from ok(1) show ?thesis
    proof (rule bill_debit_success)
      fix e jj
      assume "Some job = Some jj" "e \<in> set (rows l)" "ledger_id e = idem_ledger_id H t (''job:'' @ jj)"
        "le_tenant e = t" "entry_type e = ''DEBIT''" "pyround 8 (amount e) = total_cost g 0 0"
      then show ?thesis
        using assms(1,2) j u ok by (auto simp: finalize_job_billing_def billable_def)
    qed
  qed
qed

theorem finalize_answer_tells_the_money_witness:
  "case finalize_job_billing (\<lambda>s. s) all_ok 0 ex_job ''acme'' ''j1'' 100 ''free'' None billing_init of
     (b', r) \<Rightarrow> r \<noteq> Inr ''ok'' \<and> r \<noteq> Inr ''skip''"
proof -
  obtain b' r where f: "finalize_job_billing (\<lambda>s. s) all_ok 0 ex_job ''acme'' ''j1'' 100 ''free'' None billing_init = (b', r)"
    by force
  have inv: "ledger_inv (b_ledger billing_init)" by (simp add: billing_init_def ledger_init_def ledger_inv_def)
  have "rows (b_ledger b') = []"
    using finalize_rows [of "\<lambda>s. s" all_ok 0 ex_job "''acme''" "''j1''" 100 "''free''" None billing_init] f
    by (simp add: billing_init_def ledger_init_def total_cost_100)
  with finalize_answer_tells_the_money [OF f _ inv] ex_billable f show ?thesis
    by (auto split: sum.splits if_splits)
qed

text \<open>C4: Finalizing a job is exactly-once for the ledger. For any sequence of calls for one job (the
  worker, the sweeper, other replicas), each with its own pattern of failures, the ledger ends with
  the old rows plus exactly one DEBIT for the price of the job if some call reached PostgreSQL while
  the job was billable and funded, and with the old rows otherwise.\<close>

theorem finalize_retries_debit_once:
  assumes "\<not> has_id (idem_ledger_id H t (''job:'' @ job)) (rows (b_ledger b))"
  shows "rows (b_ledger (fold (\<lambda>(nw, now) b. fst (finalize_job_billing H nw now jobs t job g plan be b)) calls b)) =
    (if billable jobs t job g \<and> total_cost g 0 0 \<le> balance_rows (rows (b_ledger b)) t
        \<and> (\<exists>(nw, now)\<in>set calls. n_debit nw \<noteq> PgDown)
     then rows (b_ledger b) @ [bill_entry H t job g plan] else rows (b_ledger b))"
  using once_finalize.fold_attempt_once [where H = H and t = t and job = job and s = b and os = calls
      and jobs = jobs and g = g and plan = plan and be = be] assms
  by (auto split: if_splits)

theorem finalize_retries_debit_once_witness:
  "\<not> has_id (idem_ledger_id (\<lambda>s. s) ''acme'' (''job:'' @ ''j1'')) (rows (b_ledger ex_funded)) \<and>
   length (rows (b_ledger (fold (\<lambda>(nw, now) b. fst (finalize_job_billing (\<lambda>s. s) nw now ex_job ''acme'' ''j1'' 100 ''free'' None b))
     [(all_ok\<lparr>n_debit := PgLost, n_lookup := PgDown\<rparr>, 1), (all_ok, 2)] ex_funded))) = 2"
proof -
  have n: "\<not> has_id (idem_ledger_id (\<lambda>s. s) ''acme'' (''job:'' @ ''j1'')) (rows (b_ledger ex_funded))"
    by (simp add: ex_funded_rows has_id_def idem_ledger_id_def)
  from finalize_retries_debit_once [OF n, of ex_job 100 "''free''" None
      "[(all_ok\<lparr>n_debit := PgLost, n_lookup := PgDown\<rparr>, 1), (all_ok, 2)]"] n ex_billable
  show ?thesis
    by (simp add: ex_funded_rows total_cost_100 balance_rows_def signed_def all_ok_def)
qed

text \<open>\<open>resolve_billable_seconds\<close> fails closed. It answers only with a non-negative number, it takes a
  valid confirmed duration as it is, and with no confirmed duration and an absent, unreadable or future
  start it answers \<open>None\<close> and never zero.\<close>

theorem billable_seconds_fail_closed:
  "(\<forall>s. resolve_billable_seconds fromiso confirmed started now = Some s \<longrightarrow>
       0 \<le> s \<and> (py_float confirmed = Some (Fin s) \<or> (\<exists>x t. started = Some x \<and> x \<noteq> [] \<and> fromiso x = Some t \<and> s = now - t)))
   \<and> (0 \<le> v \<longrightarrow> resolve_billable_seconds fromiso (PFloat (Fin v)) started now = Some v)
   \<and> (\<not> truthy started \<or> fromiso (the started) = None \<or> (\<exists>t. fromiso (the started) = Some t \<and> now < t) \<longrightarrow>
       resolve_billable_seconds fromiso PNone started now = None)"
proof (intro conjI allI impI)
  fix s
  assume "resolve_billable_seconds fromiso confirmed started now = Some s"
  then show "0 \<le> s" and "py_float confirmed = Some (Fin s) \<or> (\<exists>x t. started = Some x \<and> x \<noteq> [] \<and> fromiso x = Some t \<and> s = now - t)"
    by (cases started; auto simp: resolve_billable_seconds_def Let_def split: if_splits option.splits pyfloat.splits)+
qed (auto simp: resolve_billable_seconds_def Let_def)

theorem billable_seconds_fail_closed_witness:
  "resolve_billable_seconds (\<lambda>_. Some 10) PNone (Some ''2026-01-01'') 5 = None
   \<and> resolve_billable_seconds (\<lambda>_. Some 10) (PFloat (Fin 3)) (Some ''2026-01-01'') 5 = Some 3"
  using billable_seconds_fail_closed [of "\<lambda>_. Some 10" PNone "Some ''2026-01-01''" 5 3] by simp

end
