(* ===== verification/Worker.thy ===== *)
theory Worker
  imports Finalize
begin

text \<open>
  The execution worker, \<open>src/billing/execution_worker.py\<close>: dispatch, poll, bill, close, and the
  sweepers that repair what a failure left behind. The state joins the job table, the billing
  state and the sweeper's back-off table. Everything outside the process is an argument: what
  each database call does (\<open>db_outcome\<close>), what the backend answers, where a task is cancelled,
  and what other processes do to the job table between two calls (\<open>env\<close> arguments).

  Shown: the markers round-trip, the final write never overwrites a closed job, the cost on a
  job row is the amount of its debit, a job cancelled after its debit gets its money back or a
  durable marker, and what the sweepers do.
\<close>

section \<open>State\<close>

datatype wevent =
    WPendingGauge nat
  | WSweep string nat
  | WRefundGauge nat
  | WRefundSweep string nat
  | WRefundAlert string string rat
  | WBackendCancel string

record worker =
  w_jobs :: job_table
  w_bill :: billing
  w_next_try :: "(string \<times> rat) list"
  w_log :: "wevent list"

definition wlog :: "wevent list \<Rightarrow> worker \<Rightarrow> worker" where
  "wlog es w = w\<lparr>w_log := w_log w @ es\<rparr>"

text \<open>A call to \<open>db_adapter\<close>: it works, fails before its commit, or fails after it.\<close>

datatype db_outcome = DbOk | DbFail pyexc | DbLost pyexc

fun db_call :: "db_outcome \<Rightarrow> (job_table \<Rightarrow> job_table \<times> 'r) \<Rightarrow> worker \<Rightarrow> worker \<times> 'r result" where
  "db_call DbOk f w = (case f (w_jobs w) of (t, r) \<Rightarrow> (w\<lparr>w_jobs := t\<rparr>, Inr r))"
| "db_call (DbFail x) f w = (w, Inl x)"
| "db_call (DbLost x) f w = (case f (w_jobs w) of (t, r) \<Rightarrow> (w\<lparr>w_jobs := t\<rparr>, Inl x))"

definition upd :: "bool \<Rightarrow> rat \<Rightarrow> db_outcome \<Rightarrow> string \<Rightarrow> job_update \<Rightarrow> worker \<Rightarrow> worker \<times> nat result" where
  "upd pg now oc i u w = db_call oc (update_execution_job pg now i u) w"

definition read_job :: "db_outcome \<Rightarrow> string \<Rightarrow> worker \<Rightarrow> exec_job option result" where
  "read_job oc i w = snd (db_call oc (\<lambda>t. (t, get_execution_job i t)) w)"

section \<open>Small functions\<close>

definition TERMINAL_STATUSES :: "string list" where
  "TERMINAL_STATUSES = [''completed'', ''timeout'', ''failed'', ''cancelled'']"

definition FINAL_WRITE_BLOCKED_STATUSES :: "string list" where
  "FINAL_WRITE_BLOCKED_STATUSES = TERMINAL_STATUSES @ [''error'', ''stopped'', ''destroyed'', ''billing_pending'']"

definition tenant_plan :: "pydict option result \<Rightarrow> string" where
  "tenant_plan r =
     (case r of
        Inr (Some d) \<Rightarrow> (case map_of d ''plan'' of Some (PStr p) \<Rightarrow> if p = [] then ''free'' else p | _ \<Rightarrow> ''free'')
      | _ \<Rightarrow> ''free'')"

definition refund_marker :: "rat \<Rightarrow> string" where
  "refund_marker cost = refund_prefix @ fmt8 cost"

definition parse_refund_amount :: "string \<Rightarrow> pyfloat option" where
  "parse_refund_amount marker =
     (if marker = [] \<or> \<not> starts_with marker refund_prefix then None
      else float_of_string (drop (length refund_prefix) marker))"

definition billing_pending_error :: "string \<Rightarrow> string option \<Rightarrow> string" where
  "billing_pending_error bs ex =
     ''billing:'' @ bs @ (if ex = Some ''timeout'' \<or> ex = Some ''failed'' then '':exec='' @ the ex else [])"

text \<open>\<open>str.rfind\<close>: the last position at which \<open>p\<close> occurs.\<close>

fun rfind :: "string \<Rightarrow> string \<Rightarrow> nat option" where
  "rfind p [] = (if p = [] then Some 0 else None)"
| "rfind p (c # cs) = (case rfind p cs of Some n \<Rightarrow> Some (Suc n)
                       | None \<Rightarrow> if starts_with (c # cs) p then Some 0 else None)"

definition billing_exec_status :: "string option \<Rightarrow> string option" where
  "billing_exec_status err =
     (if \<not> truthy err then None
      else case rfind '':exec='' (the err) of
             None \<Rightarrow> None
           | Some n \<Rightarrow> (let s = drop (n + 6) (the err) in if s = [] then None else Some s))"

definition dispatch_is_ready :: "string option \<Rightarrow> string option \<Rightarrow> bool" where
  "dispatch_is_ready be st =
     (st = Some ''running'' \<or> st = Some ''provisioning'' \<or> be = Some ''local'' \<and> st = Some ''queued'')"

text \<open>\<open>_mark_refund_pending\<close>: the marker write may fail silently, the alert is sent anyway.\<close>

definition mark_refund_pending ::
  "bool \<Rightarrow> rat \<Rightarrow> db_outcome \<Rightarrow> string \<Rightarrow> string \<Rightarrow> rat \<Rightarrow> worker \<Rightarrow> worker" where
  "mark_refund_pending pg now oc job t cost w =
     wlog [WRefundAlert job t cost]
       (fst (upd pg now oc job (no_update\<lparr>u_error := Some (refund_marker cost), u_tenant := Some t\<rparr>) w))"

definition sweep_orphans_once :: "bool \<Rightarrow> rat \<Rightarrow> int \<Rightarrow> db_outcome \<Rightarrow> worker \<Rightarrow> worker \<times> nat result" where
  "sweep_orphans_once pg now timeout oc w =
     (case db_call oc (sweep_orphan_running_jobs pg now timeout) w of
        (w', Inl x) \<Rightarrow> (w', Inl x) | (w', Inr r) \<Rightarrow> (w', r))"

section \<open>The billing\_pending sweeper\<close>

text \<open>What the outside does while one job is swept.\<close>

record sweep_net =
  s_bill :: bill_net
  s_read :: db_outcome
  s_upd :: db_outcome
  s_plan :: "pydict option result"

definition exc_status :: "string result \<Rightarrow> string" where
  "exc_status r = (case r of Inr s \<Rightarrow> s | Inl PGUnavailableError \<Rightarrow> ''pg_error'' | Inl _ \<Rightarrow> ''error'')"

text \<open>\<open>finalize_job_billing\<close> as the worker calls it, with its read of the job row.\<close>

definition call_finalize ::
  "(string \<Rightarrow> string) \<Rightarrow> sweep_net \<Rightarrow> rat \<Rightarrow> string \<Rightarrow> string \<Rightarrow> rat \<Rightarrow> string option \<Rightarrow> worker
     \<Rightarrow> worker \<times> string" where
  "call_finalize H nw now t job g be w =
     (case s_read nw of
        DbOk \<Rightarrow> (case finalize_job_billing H (s_bill nw) now (w_jobs w) t job g (tenant_plan (s_plan nw)) be (w_bill w) of
                  (b, r) \<Rightarrow> (w\<lparr>w_bill := b\<rparr>, exc_status r))
      | DbFail x \<Rightarrow> (w, exc_status (Inl x))
      | DbLost x \<Rightarrow> (w, exc_status (Inl x)))"

definition swept_duration :: "exec_job \<Rightarrow> rat" where
  "swept_duration j = (case duration_seconds j of None \<Rightarrow> 0 | Some d \<Rightarrow> d)"

definition swept_cost :: "exec_job \<Rightarrow> rat" where
  "swept_cost j = (case job_cost_usd (case duration_seconds j of None \<Rightarrow> PNone | Some d \<Rightarrow> PFloat (Fin d)) of
                     Fin c \<Rightarrow> c | _ \<Rightarrow> 0)"

definition default_status :: "string \<Rightarrow> exec_job \<Rightarrow> string" where
  "default_status d j = (case billing_exec_status (error j) of None \<Rightarrow> d | Some s \<Rightarrow> s)"

text \<open>
  One job. The result is the outcome that is counted; \<open>Inl\<close> where the code lets an exception
  leave the sweep (the write of the \<open>no_funds\<close> marker is not guarded).
\<close>

definition sweep_job ::
  "(string \<Rightarrow> string) \<Rightarrow> bool \<Rightarrow> rat \<Rightarrow> rat \<Rightarrow> rat \<Rightarrow> sweep_net \<Rightarrow> (worker \<Rightarrow> worker) \<Rightarrow> exec_job \<Rightarrow> worker
     \<Rightarrow> worker \<times> string result" where
  "sweep_job H pg clock now retry_s nw env j w0 =
     (let (w1, st) = call_finalize H nw clock (tenant_id j) (jid j) (swept_duration j) (backend j) w0;
          w = env w1
      in if st = ''ok'' then
           (let w = w\<lparr>w_next_try := AList.delete (jid j) (w_next_try w)\<rparr>
            in case upd pg clock (s_upd nw) (jid j)
                     (no_update\<lparr>u_status := Some (default_status ''completed'' j), u_cost_usd := Some (swept_cost j),
                                u_error := Some [], u_tenant := Some (tenant_id j), u_not_in := TERMINAL_STATUSES\<rparr>) w of
                 (w', Inl PGUnavailableError) \<Rightarrow> (w', Inr ''pg_error'')
               | (w', Inl _) \<Rightarrow> (w', Inr ''error'')
               | (w', Inr _) \<Rightarrow> (w', Inr ''ok''))
         else if st = ''no_funds'' then
           (let w = w\<lparr>w_next_try := AList.update (jid j) (now + retry_s) (w_next_try w)\<rparr>;
                marker = billing_pending_error ''no_funds'' (billing_exec_status (error j))
            in if error j = Some marker then (w, Inr ''no_funds'')
               else case upd pg clock (s_upd nw) (jid j)
                     (no_update\<lparr>u_error := Some marker, u_tenant := Some (tenant_id j)\<rparr>) w of
                 (w', Inl x) \<Rightarrow> (w', Inl x)
               | (w', Inr _) \<Rightarrow> (w', Inr ''no_funds''))
         else if st = ''mismatch'' then
           (fst (upd pg clock (s_upd nw) (jid j)
              (no_update\<lparr>u_status := Some (default_status ''error'' j), u_error := Some ''billing:mismatch'',
                         u_tenant := Some (tenant_id j), u_not_in := TERMINAL_STATUSES\<rparr>) w), Inr ''mismatch'')
         else if st = ''skip'' then
           (fst (upd pg clock (s_upd nw) (jid j)
              (no_update\<lparr>u_status := Some (default_status ''completed'' j), u_error := Some [],
                         u_tenant := Some (tenant_id j), u_not_in := TERMINAL_STATUSES\<rparr>) w), Inr ''skip'')
         else (w, Inr (if st = ''pg_error'' then ''pg_error'' else ''error'')))"

type_synonym counts = "(string \<times> nat) list"

definition bump :: "string \<Rightarrow> counts \<Rightarrow> counts" where
  "bump k c = AList.update k (Suc (case map_of c k of None \<Rightarrow> 0 | Some n \<Rightarrow> n)) c"

text \<open>The loop over the batch; a \<open>pg_error\<close> ends it, an escaping exception leaves the sweep.\<close>

fun sweep_loop ::
  "(string \<Rightarrow> string) \<Rightarrow> bool \<Rightarrow> rat \<Rightarrow> rat \<Rightarrow> rat \<Rightarrow> (string \<Rightarrow> sweep_net) \<Rightarrow> (string \<Rightarrow> worker \<Rightarrow> worker)
     \<Rightarrow> exec_job list \<Rightarrow> counts \<Rightarrow> worker \<Rightarrow> worker \<times> counts result" where
  "sweep_loop H pg clock now retry_s nw env [] c w = (w, Inr c)"
| "sweep_loop H pg clock now retry_s nw env (j # js) c w =
     (case sweep_job H pg clock now retry_s (nw (jid j)) (env (jid j)) j w of
        (w', Inl x) \<Rightarrow> (w', Inl x)
      | (w', Inr st) \<Rightarrow>
          if st = ''pg_error'' then (w', Inr (bump st c))
          else sweep_loop H pg clock now retry_s nw env js (bump st c) w')"

definition zero_outcomes :: counts where
  "zero_outcomes = [(''ok'', 0), (''pg_error'', 0), (''error'', 0), (''no_funds'', 0), (''skip'', 0), (''deferred'', 0), (''mismatch'', 0)]"

definition paused_ids :: "rat \<Rightarrow> worker \<Rightarrow> string list" where
  "paused_ids now w = map fst (filter (\<lambda>(_, t). t > now) (w_next_try w))"

definition drop_stale :: "string list \<Rightarrow> (string \<times> rat) list \<Rightarrow> (string \<times> rat) list" where
  "drop_stale seen nt = filter (\<lambda>(k, _). k \<in> set seen) nt"

definition count_log :: "(string \<Rightarrow> nat \<Rightarrow> wevent) \<Rightarrow> counts \<Rightarrow> wevent list" where
  "count_log ev c = map (\<lambda>(k, n). ev k n) (filter (\<lambda>(_, n). n \<noteq> 0) c)"

definition sweep_billing_pending_once ::
  "(string \<Rightarrow> string) \<Rightarrow> bool \<Rightarrow> rat \<Rightarrow> rat \<Rightarrow> rat \<Rightarrow> nat \<Rightarrow> db_outcome \<Rightarrow> db_outcome \<Rightarrow> (string \<Rightarrow> sweep_net)
     \<Rightarrow> (string \<Rightarrow> worker \<Rightarrow> worker) \<Rightarrow> worker \<Rightarrow> worker \<times> counts result" where
  "sweep_billing_pending_once H pg clock now retry_s batch oc1 oc2 nw env w0 =
     (let w1 = (case snd (db_call oc1 (\<lambda>t. (t, count_billing_pending_jobs t)) w0) of
                  Inr n \<Rightarrow> wlog [WPendingGauge n] w0 | Inl _ \<Rightarrow> w0);
          paused = paused_ids now w1;
          c0 = AList.update ''deferred'' (length paused) zero_outcomes
      in case db_call oc2 (\<lambda>t. (t, get_billing_pending_jobs pg batch paused t)) w1 of
           (_, Inl x) \<Rightarrow> (w1, Inl x)
         | (_, Inr jobs) \<Rightarrow>
             (case sweep_loop H pg clock now retry_s nw env jobs c0 w1 of
                (w2, Inl x) \<Rightarrow> (w2, Inl x)
              | (w2, Inr c) \<Rightarrow>
                  let w3 = (if length jobs < batch
                            then w2\<lparr>w_next_try := drop_stale (map jid jobs) (w_next_try w2)\<rparr> else w2)
                  in (wlog (count_log WSweep c) w3, Inr c)))"

section \<open>The refund\_pending sweeper\<close>

record refund_net =
  r_credit :: pg_outcome
  r_lookup :: pg_outcome
  r_fresh :: string
  r_upd :: db_outcome

text \<open>One job: \<open>ok\<close> only when both the refund and the removal of the marker succeeded.\<close>

definition refund_sweep_job ::
  "(string \<Rightarrow> string) \<Rightarrow> bool \<Rightarrow> rat \<Rightarrow> refund_net \<Rightarrow> exec_job \<Rightarrow> worker \<Rightarrow> worker \<times> string" where
  "refund_sweep_job H pg clock nw j w =
     (case parse_refund_amount (case error j of None \<Rightarrow> [] | Some e \<Rightarrow> e) of
        None \<Rightarrow> (w, ''error'')
      | Some amt \<Rightarrow>
          (case refund_job H (r_credit nw) (r_lookup nw) (r_fresh nw) (tenant_id j) amt (jid j)
                  ''cancelled_after_debit'' (w_bill w) of
             (b, Inl x) \<Rightarrow> (w\<lparr>w_bill := b\<rparr>, exc_status (Inl x))
           | (b, Inr _) \<Rightarrow>
               (case upd pg clock (r_upd nw) (jid j)
                       (no_update\<lparr>u_error := Some [], u_tenant := Some (tenant_id j)\<rparr>) (w\<lparr>w_bill := b\<rparr>) of
                  (w', Inl x) \<Rightarrow> (w', exc_status (Inl x))
                | (w', Inr _) \<Rightarrow> (w', ''ok''))))"

fun refund_sweep_loop ::
  "(string \<Rightarrow> string) \<Rightarrow> bool \<Rightarrow> rat \<Rightarrow> (string \<Rightarrow> refund_net) \<Rightarrow> exec_job list \<Rightarrow> counts \<Rightarrow> worker \<Rightarrow> worker \<times> counts" where
  "refund_sweep_loop H pg clock nw [] c w = (w, c)"
| "refund_sweep_loop H pg clock nw (j # js) c w =
     (case refund_sweep_job H pg clock (nw (jid j)) j w of
        (w', st) \<Rightarrow> if st = ''pg_error'' then (w', bump st c) else refund_sweep_loop H pg clock nw js (bump st c) w')"

definition sweep_refund_pending_once ::
  "(string \<Rightarrow> string) \<Rightarrow> bool \<Rightarrow> rat \<Rightarrow> db_outcome \<Rightarrow> (string \<Rightarrow> refund_net) \<Rightarrow> worker \<Rightarrow> worker \<times> counts" where
  "sweep_refund_pending_once H pg clock oc nw w =
     (let c0 = [(''ok'', 0), (''error'', 0), (''pg_error'', 0), (''list_error'', 0)]
      in case db_call oc (\<lambda>t. (t, get_refund_pending_jobs pg 50 t)) w of
           (_, Inl x) \<Rightarrow> (wlog [WRefundSweep ''list_error'' 1] w, c0)
         | (_, Inr jobs) \<Rightarrow>
             (case refund_sweep_loop H pg clock nw jobs c0 (wlog [WRefundGauge (length jobs)] w) of
                (w', c) \<Rightarrow> (wlog (count_log WRefundSweep c) w', c)))"

section \<open>One tick of the polling loop\<close>

record poll_clock =
  last_orphan :: rat
  last_pending :: rat
  last_refund :: rat

text \<open>
  \<open>poll_and_execute\<close>: each sweeper when its interval is over (its clock advances even when it
  fails), then one claim. The sweepers are passed as state transformers that never raise, as the
  code's \<open>try\<close> blocks make them; the jobs claimed are the tasks that are started.
\<close>

definition poll_tick ::
  "bool \<Rightarrow> rat \<Rightarrow> rat \<Rightarrow> string list \<Rightarrow> db_outcome \<Rightarrow> (worker \<Rightarrow> worker) \<Rightarrow> (worker \<Rightarrow> worker) \<Rightarrow> (worker \<Rightarrow> worker)
     \<Rightarrow> poll_clock \<Rightarrow> worker \<Rightarrow> poll_clock \<times> worker \<times> exec_job list" where
  "poll_tick pg mt clock lk oc orphans pending refunds pc w =
     (let (pc, w) = (if mt - last_orphan pc \<ge> 300 then (pc\<lparr>last_orphan := mt\<rparr>, orphans w) else (pc, w));
          (pc, w) = (if mt - last_pending pc \<ge> 60 then (pc\<lparr>last_pending := mt\<rparr>, pending w) else (pc, w));
          (pc, w) = (if mt - last_refund pc \<ge> 60 then (pc\<lparr>last_refund := mt\<rparr>, refunds w) else (pc, w))
      in case db_call oc (claim_queued_execution_jobs pg lk clock 5) w of
           (w', Inl _) \<Rightarrow> (pc, w', [])
         | (w', Inr js) \<Rightarrow> (pc, w', js))"

section \<open>execute\_and\_bill\<close>

subsection \<open>Dispatch\<close>

record dispatch_result =
  d_backend :: "string option"
  d_status :: "string option"
  d_contract :: "string option"
  d_backend_job :: "string option"
  d_message :: "string option"

datatype exec_result = ExecFailed string | ExecDone string rat rat string

definition CancelledError :: pyexc where
  "CancelledError = OtherException ''CancelledError''"

fun exc_text :: "pyexc \<Rightarrow> string" where
  "exc_text (OtherException m) = m"
| "exc_text PGUnavailableError = ''PG unavailable''"
| "exc_text ValueError = ''value error''"
| "exc_text TypeError = ''type error''"
| "exc_text KeyError = ''key error''"
| "exc_text LedgerIdemMismatchError = ''idempotency mismatch''"
| "exc_text CollisionError = ''collision''"

definition dispatch_failed ::
  "bool \<Rightarrow> rat \<Rightarrow> db_outcome \<Rightarrow> string \<Rightarrow> string \<Rightarrow> string option \<Rightarrow> string \<Rightarrow> worker \<Rightarrow> worker \<times> nat result" where
  "dispatch_failed pg clock oc job t be msg w =
     upd pg clock oc job (no_update\<lparr>u_status := Some ''failed'', u_backend := be, u_completed_at := Some clock,
       u_error := Some msg, u_tenant := Some t\<rparr>) w"

text \<open>
  Step 1. The result is the final answer of a failed dispatch, or what the poll needs. The
  handler at the end catches an exception of the dispatch and of the writes in the block.
\<close>

definition dispatch_block ::
  "bool \<Rightarrow> rat \<Rightarrow> db_outcome \<Rightarrow> string \<Rightarrow> string \<Rightarrow> dispatch_result result \<Rightarrow> worker
     \<Rightarrow> worker \<times> (exec_result + string \<times> string option \<times> string option) result" where
  "dispatch_block pg clock oc job t d w =
     (case d of
        Inl x \<Rightarrow> (w, Inl x)
      | Inr r \<Rightarrow>
          if d_status r = Some ''failed'' \<or> d_status r = Some ''error'' \<or> \<not> truthy (d_backend r) then
            (case dispatch_failed pg clock oc job t (d_backend r)
                    (take 500 (case d_message r of None \<Rightarrow> ''dispatch failed'' | Some m \<Rightarrow> m)) w of
               (w', Inl x) \<Rightarrow> (w', Inl x)
             | (w', Inr _) \<Rightarrow> (w', Inr (Inl (ExecFailed (case d_message r of None \<Rightarrow> [] | Some m \<Rightarrow> m)))))
          else if \<not> dispatch_is_ready (d_backend r) (d_status r) then
            (let msg = ''dispatch not ready (status='' @ (case d_status r of None \<Rightarrow> ''None'' | Some s \<Rightarrow> s) @ '')''
             in case dispatch_failed pg clock oc job t (d_backend r) msg w of
                  (w', Inl x) \<Rightarrow> (w', Inl x)
                | (w', Inr _) \<Rightarrow> (w', Inr (Inl (ExecFailed msg))))
          else
            (let bj = (case d_backend_job r of None \<Rightarrow> d_contract r | Some b \<Rightarrow> Some b)
             in case upd pg clock oc job (no_update\<lparr>u_status := Some ''running'', u_backend := d_backend r,
                       u_backend_job_id := bj, u_tenant := Some t\<rparr>) w of
                  (w', Inl x) \<Rightarrow> (w', Inl x)
                | (w', Inr _) \<Rightarrow> (w', Inr (Inr (the (d_backend r), d_contract r, bj)))))"

definition dispatch_step ::
  "bool \<Rightarrow> rat \<Rightarrow> db_outcome \<Rightarrow> db_outcome \<Rightarrow> string \<Rightarrow> string \<Rightarrow> dispatch_result result \<Rightarrow> worker
     \<Rightarrow> worker \<times> (exec_result + string \<times> string option \<times> string option) result" where
  "dispatch_step pg clock oc oc2 job t d w =
     (case dispatch_block pg clock oc job t d w of
        (w', Inr r) \<Rightarrow> (w', Inr r)
      | (w', Inl x) \<Rightarrow>
          if x = CancelledError then (w', Inl x)
          else case dispatch_failed pg clock oc2 job t None (take 500 (exc_text x)) w' of
                 (w'', Inl y) \<Rightarrow> (w'', Inl y)
               | (w'', Inr _) \<Rightarrow> (w'', Inr (Inl (ExecFailed (exc_text x)))))"

subsection \<open>Poll\<close>

text \<open>
  One reply of the backend: its status, whether it names a host, and how the command ran there.
  \<open>PollCancelled\<close> is a cancellation of the task at one of the two awaits of the iteration.
\<close>

datatype poll_reply = PollStatus string bool bool | PollError | PollCancelled

definition POLL_FINAL :: "string list" where
  "POLL_FINAL = [''completed'', ''failed'', ''error'', ''stopped'', ''cancelled'', ''destroyed'']"

function poll_loop :: "(nat \<Rightarrow> poll_reply) \<Rightarrow> nat \<Rightarrow> nat \<Rightarrow> nat \<Rightarrow> nat \<Rightarrow> string \<Rightarrow> (string \<times> nat) option" where
  "poll_loop rep interval max_wait i waited st =
     (if waited < max_wait \<and> 0 < interval
      then case rep i of
             PollCancelled \<Rightarrow> None
           | PollError \<Rightarrow> poll_loop rep interval max_wait (Suc i) (waited + interval) st
           | PollStatus s host cmd_ok \<Rightarrow>
               if s \<in> set POLL_FINAL then Some (s, waited)
               else if s = ''running'' \<and> host then Some (if cmd_ok then ''completed'' else ''failed'', waited)
               else poll_loop rep interval max_wait (Suc i) (waited + interval) s
      else Some (st, waited))"
  by pat_completeness auto
termination by (relation "measure (\<lambda>(rep, interval, max_wait, i, waited, st). max_wait - waited)") auto

text \<open>The final status of the poll; \<open>None\<close> when the task was cancelled.\<close>

definition poll_status :: "(nat \<Rightarrow> poll_reply) \<Rightarrow> string \<Rightarrow> string option" where
  "poll_status rep be =
     (let max_wait = (if be = ''vastai'' then 600 else 120);
          interval = (if be = ''vastai'' then 15 else 5)
      in case poll_loop rep interval max_wait 0 0 ''unknown'' of
           None \<Rightarrow> None
         | Some (st, waited) \<Rightarrow> Some (if waited \<ge> max_wait then ''timeout'' else st))"

subsection \<open>Bill and close\<close>

definition write_status :: "string \<Rightarrow> string \<Rightarrow> string" where
  "write_status bs st =
     (if bs = ''mismatch'' then (if st = ''timeout'' \<or> st = ''failed'' then st else ''error'')
      else if (bs = ''pg_error'' \<or> bs = ''error'' \<or> bs = ''no_funds'') \<and> st \<in> {''completed'', ''timeout'', ''failed''}
           then ''billing_pending''
      else st)"

definition close_error :: "string \<Rightarrow> string \<Rightarrow> string" where
  "close_error bs st =
     (if bs = ''ok'' \<or> bs = ''skip'' then [] else if bs = ''mismatch'' then ''billing:mismatch''
      else billing_pending_error bs (Some st))"

definition final_update :: "rat \<Rightarrow> string \<Rightarrow> string \<Rightarrow> string \<Rightarrow> rat \<Rightarrow> job_update" where
  "final_update clock t bs st elapsed =
     no_update\<lparr>u_status := Some (write_status bs st), u_completed_at := Some clock,
       u_cost_usd := Some (if bs = ''ok'' then pyround 8 (elapsed * (1 / 100000)) else 0),
       u_duration := Some (pyround 2 elapsed), u_error := Some (close_error bs st),
       u_tenant := Some t, u_not_in := FINAL_WRITE_BLOCKED_STATUSES\<rparr>"

datatype refund_outcome = RefundDone | RefundExhausted | RefundCancelled

text \<open>Up to three attempts; a cancellation can arrive in the sleep after a failed one.\<close>

fun refund_attempts ::
  "(string \<Rightarrow> string) \<Rightarrow> string \<Rightarrow> rat \<Rightarrow> string \<Rightarrow> (refund_net \<times> bool) list \<Rightarrow> worker \<Rightarrow> worker \<times> refund_outcome" where
  "refund_attempts H t cost job [] w = (w, RefundExhausted)"
| "refund_attempts H t cost job ((nw, cancelled) # rest) w =
     (case refund_job H (r_credit nw) (r_lookup nw) (r_fresh nw) t (Fin cost) job ''cancelled_after_debit'' (w_bill w) of
        (b, Inr _) \<Rightarrow> (w\<lparr>w_bill := b\<rparr>, RefundDone)
      | (b, Inl _) \<Rightarrow> if cancelled then (w\<lparr>w_bill := b\<rparr>, RefundCancelled)
                      else refund_attempts H t cost job rest (w\<lparr>w_bill := b\<rparr>))"

record close_net =
  c_fin :: sweep_net
  c_final :: db_outcome
  c_reread :: db_outcome
  c_refunds :: "(refund_net \<times> bool) list"
  c_mark :: db_outcome
  c_env :: "worker \<Rightarrow> worker"

definition compensate ::
  "(string \<Rightarrow> string) \<Rightarrow> bool \<Rightarrow> rat \<Rightarrow> close_net \<Rightarrow> string \<Rightarrow> string \<Rightarrow> rat \<Rightarrow> worker \<Rightarrow> worker \<times> unit result" where
  "compensate H pg clock nw job t cost w =
     (case read_job (c_reread nw) job w of
        Inl x \<Rightarrow> (w, Inl x)
      | Inr None \<Rightarrow> (w, Inr ())
      | Inr (Some j) \<Rightarrow>
          if tenant_id j = t \<and> status j = ''cancelled''
          then (case refund_attempts H t cost job (take 3 (c_refunds nw)) w of
                  (w', RefundDone) \<Rightarrow> (w', Inr ())
                | (w', RefundCancelled) \<Rightarrow> (w', Inl CancelledError)
                | (w', RefundExhausted) \<Rightarrow> (mark_refund_pending pg clock (c_mark nw) job t cost w', Inr ()))
          else (w, Inr ()))"

text \<open>Steps 3 to 5 after the poll ended with \<open>st\<close>: bill, write the final status, compensate.\<close>

definition bill_and_close ::
  "(string \<Rightarrow> string) \<Rightarrow> bool \<Rightarrow> rat \<Rightarrow> close_net \<Rightarrow> string \<Rightarrow> string \<Rightarrow> string \<Rightarrow> string \<Rightarrow> rat \<Rightarrow> worker
     \<Rightarrow> worker \<times> unit result" where
  "bill_and_close H pg clock nw job t be st elapsed w0 =
     (let (w1, bs) = call_finalize H (c_fin nw) clock t job elapsed (Some be) w0;
          w2 = c_env nw w1
      in case upd pg clock (c_final nw) job (final_update clock t bs st elapsed) w2 of
           (w3, Inl x) \<Rightarrow> (w3, Inl x)
         | (w3, Inr n) \<Rightarrow>
             if n = 0 \<and> bs = ''ok'' then compensate H pg clock nw job t (pyround 8 (elapsed * (1 / 100000))) w3
             else (w3, Inr ()))"

record exec_net =
  e_dispatch :: "dispatch_result result"
  e_mark :: db_outcome
  e_mark2 :: db_outcome
  e_env0 :: "worker \<Rightarrow> worker"
  e_env1 :: "worker \<Rightarrow> worker"
  e_poll :: "nat \<Rightarrow> poll_reply"
  e_elapsed :: rat
  e_close :: close_net
  e_cleanup_cancelled :: bool
  e_drain :: db_outcome

definition execute_and_bill_impl ::
  "(string \<Rightarrow> string) \<Rightarrow> bool \<Rightarrow> rat \<Rightarrow> exec_net \<Rightarrow> string \<Rightarrow> string \<Rightarrow> worker \<Rightarrow> worker \<times> exec_result result" where
  "execute_and_bill_impl H pg clock nw job t w0 =
     (case dispatch_step pg clock (e_mark nw) (e_mark2 nw) job t (e_dispatch nw) (e_env0 nw w0) of
        (w1, Inl x) \<Rightarrow> (w1, Inl x)
      | (w1, Inr (Inl r)) \<Rightarrow> (w1, Inr r)
      | (w1, Inr (Inr (be, contract, bj))) \<Rightarrow>
          (let w2 = e_env1 nw w1
           in case poll_status (e_poll nw) be of
                None \<Rightarrow> (w2, Inl CancelledError)
              | Some st \<Rightarrow>
                  (let elapsed = pyround 2 (e_elapsed nw)
                   in case bill_and_close H pg clock (e_close nw) job t be st elapsed w2 of
                        (w3, Inl x) \<Rightarrow> (w3, Inl x)
                      | (w3, Inr _) \<Rightarrow>
                          let w4 = (if be = ''vastai'' \<and> truthy contract then wlog [WBackendCancel job] w3 else w3)
                          in if be = ''vastai'' \<and> truthy contract \<and> e_cleanup_cancelled nw then (w4, Inl CancelledError)
                             else (w4, Inr (ExecDone st (pyround 8 (elapsed * (1 / 100000))) elapsed be)))))"

text \<open>The wrapper: a cancelled task leaves a terminal status and releases the backend.\<close>

definition execute_and_bill ::
  "(string \<Rightarrow> string) \<Rightarrow> bool \<Rightarrow> rat \<Rightarrow> exec_net \<Rightarrow> string \<Rightarrow> string \<Rightarrow> worker \<Rightarrow> worker \<times> exec_result result" where
  "execute_and_bill H pg clock nw job t w =
     (case execute_and_bill_impl H pg clock nw job t w of
        (w', Inr r) \<Rightarrow> (w', Inr r)
      | (w', Inl x) \<Rightarrow>
          if x = CancelledError
          then (wlog [WBackendCancel job]
                 (fst (upd pg clock (e_drain nw) job
                   (no_update\<lparr>u_status := Some ''cancelled'', u_completed_at := Some clock,
                     u_error := Some ''cancelled by drain_inflight'', u_tenant := Some t,
                     u_not_in := FINAL_WRITE_BLOCKED_STATUSES\<rparr>) w')), Inl x)
          else (w', Inl x))"

section \<open>Markers\<close>

lemma starts_with_append [simp]: "starts_with (p @ s) p"
  by (simp add: starts_with_def)

lemma like_prefix_append: "like_prefix ci p (p @ s)"
  by (induction p) auto

lemma parse_refund_marker: "0 \<le> c \<Longrightarrow> parse_refund_amount (refund_marker c) = Some (Fin (pyround 8 c))"
  by (simp add: parse_refund_amount_def refund_marker_def float_of_string_fmt8 refund_prefix_def starts_with_def)

section \<open>The poll loop\<close>

declare poll_loop.simps [simp del]

lemma poll_loop_result:
  assumes "poll_loop rep interval (N * interval) i (i * interval) st = r" "0 < interval"
    and "\<And>k. i \<le> k \<Longrightarrow> k < N \<Longrightarrow> rep k \<noteq> PollCancelled"
  shows "\<exists>s w. r = Some (s, w) \<and> (N * interval \<le> w \<or> s \<in> set POLL_FINAL)"
  using assms
proof (induction "N - i" arbitrary: i st r)
  case 0
  then show ?case by (subst (asm) poll_loop.simps) auto
next
  case (Suc n)
  then have lt: "i < N" by simp
  have next_ok: "\<And>k. Suc i \<le> k \<Longrightarrow> k < N \<Longrightarrow> rep k \<noteq> PollCancelled" using Suc.prems(3) by simp
  have IH: "\<exists>s w. poll_loop rep interval (N * interval) (Suc i) (i * interval + interval) st' = Some (s, w)
      \<and> (N * interval \<le> w \<or> s \<in> set POLL_FINAL)" for st'
    using Suc.hyps(1) [of "Suc i" st'] Suc.hyps(2) Suc.prems(2) next_ok lt by (simp add: add.commute)
  show ?case
  proof (cases "rep i")
    case (PollStatus s host cmd)
    then have e: "r = (if s \<in> set POLL_FINAL then Some (s, i * interval)
        else if s = ''running'' \<and> host then Some (if cmd then ''completed'' else ''failed'', i * interval)
        else poll_loop rep interval (N * interval) (Suc i) (i * interval + interval) s)"
      using Suc.prems(1,2) lt by (subst (asm) poll_loop.simps) simp
    have "''completed'' \<in> set POLL_FINAL" "''failed'' \<in> set POLL_FINAL" by (simp_all add: POLL_FINAL_def)
    then show ?thesis using e IH [of s] by (simp split: if_splits)
  next
    case PollError
    then show ?thesis
      using Suc.prems(1,2) lt IH [of st] by (subst (asm) poll_loop.simps) auto
  next
    case PollCancelled
    then show ?thesis using Suc.prems(3) [of i] lt by simp
  qed
qed

section \<open>Prices\<close>

lemma price_eq: "0 \<le> e \<Longrightarrow> pyround 8 (e * (1 / 100000)) = total_cost e 0 0"
  by (cases "e = 0") (auto simp: total_cost_sum gpu_cost_def token_cost_def gpu_rate_def)

lemma swept_price: "swept_cost j = total_cost (swept_duration j) 0 0"
proof (cases "duration_seconds j")
  case None
  have "job_cost_usd PNone = job_cost_usd (PFloat (Fin 0))" by (simp add: job_cost_usd_def)
  with None show ?thesis by (simp add: swept_cost_def swept_duration_def job_cost_usd_total)
qed (simp add: swept_cost_def swept_duration_def job_cost_usd_total)

section \<open>Database calls\<close>

lemma db_call_bill [simp]: "w_bill (fst (db_call oc f w)) = w_bill w"
  by (cases oc) (auto split: prod.splits)

lemma db_call_jobs: "w_jobs (fst (db_call oc f w)) = w_jobs w \<or> w_jobs (fst (db_call oc f w)) = fst (f (w_jobs w))"
  by (cases oc) (auto split: prod.splits)

lemma upd_bill [simp]: "w_bill (fst (upd pg now oc i u w)) = w_bill w"
  by (simp add: upd_def)

lemma call_finalize_jobs [simp]: "w_jobs (fst (call_finalize H nw now t job g be w)) = w_jobs w"
  by (auto simp: call_finalize_def split: db_outcome.splits prod.splits)

lemma wlog_simps [simp]:
  "w_jobs (wlog es w) = w_jobs w" "w_bill (wlog es w) = w_bill w" "w_next_try (wlog es w) = w_next_try w"
  by (simp_all add: wlog_def)

lemma upd_ok: "upd pg now DbOk i u w = (w\<lparr>w_jobs := fst (update_execution_job pg now i u (w_jobs w))\<rparr>,
    Inr (snd (update_execution_job pg now i u (w_jobs w))))"
  by (simp add: upd_def split: prod.splits)

text \<open>A guarded write does not touch a row in a blocked status, whatever the call's outcome.\<close>

lemma update_blocked:
  assumes "get_execution_job i tbl = Some j" "table_ok tbl" "status j \<in> set (u_not_in u)"
  shows "fst (update_execution_job pg now i u tbl) = tbl"
proof -
  have "\<not> update_where i u x" if "x \<in> set tbl" for x
    using get_execution_job_unique [OF assms(2) that] assms(1,3) by (auto simp: update_where_def)
  then show ?thesis
    by (auto simp: update_execution_job_eq update_execution_job_pg_def update_rows_def Let_def intro: map_idI)
qed

lemma upd_blocked:
  assumes "get_execution_job i (w_jobs w) = Some j" "table_ok (w_jobs w)" "status j \<in> set (u_not_in u)"
  shows "w_jobs (fst (upd pg now oc i u w)) = w_jobs w"
  using db_call_jobs [of oc "update_execution_job pg now i u" w] update_blocked [OF assms]
  by (auto simp: upd_def)

lemma get_other_upd: "k \<noteq> i \<Longrightarrow> get_execution_job k (w_jobs (fst (upd pg now oc i u w))) = get_execution_job k (w_jobs w)"
  using db_call_jobs [of oc "update_execution_job pg now i u" w]
  by (auto simp: upd_def get_after_update update_where_def split: option.splits dest!: get_execution_job_Some
      intro!: option.map_ident_strong)

text \<open>The marker write changes the error column of one row and nothing else.\<close>

lemma mark_refund_row:
  "get_execution_job k (w_jobs (mark_refund_pending pg now oc job t cost w)) = get_execution_job k (w_jobs w)
   \<or> get_execution_job k (w_jobs (mark_refund_pending pg now oc job t cost w)) =
       map_option (\<lambda>j. if jid j = job \<and> tenant_id j = t then j\<lparr>error := Some (refund_marker cost)\<rparr> else j)
         (get_execution_job k (w_jobs w))"
  using db_call_jobs [of oc "update_execution_job pg now job (no_update\<lparr>u_error := Some (refund_marker cost), u_tenant := Some t\<rparr>)" w]
  by (auto simp: mark_refund_pending_def upd_def get_after_update update_sets_def opt_set_def no_update_def update_where_def cong: if_cong)

lemma refund_attempts_jobs [simp]: "w_jobs (fst (refund_attempts H t cost job rs w)) = w_jobs w"
  by (induction rs arbitrary: w) (auto split: prod.splits sum.splits)

lemma compensate_row:
  "get_execution_job k (w_jobs (fst (compensate H pg clock nw job t c v))) = get_execution_job k (w_jobs v)
   \<or> k = job \<and> get_execution_job k (w_jobs (fst (compensate H pg clock nw job t c v))) =
      map_option (\<lambda>j. if jid j = job \<and> tenant_id j = t then j\<lparr>error := Some (refund_marker c)\<rparr> else j)
        (get_execution_job k (w_jobs v))"
proof -
  obtain v' ro where ra: "refund_attempts H t c job (take 3 (c_refunds nw)) v = (v', ro)" by force
  then have v': "w_jobs v' = w_jobs v" using refund_attempts_jobs [of H t c job "take 3 (c_refunds nw)" v] by simp
  have mark: "get_execution_job k (w_jobs (mark_refund_pending pg clock (c_mark nw) job t c v')) = get_execution_job k (w_jobs v)"
    if "k \<noteq> job"
    using get_other_upd [OF that] v' by (simp add: mark_refund_pending_def)
  from mark mark_refund_row [of k pg clock "c_mark nw" job t c v'] v' ra show ?thesis
    by (cases "k = job"; cases ro) (auto simp: compensate_def split: sum.splits option.splits)
qed

text \<open>How the attempts end: credited, all failed, or cancelled in a sleep.\<close>

definition cancel_credit :: "(string \<Rightarrow> string) \<Rightarrow> string \<Rightarrow> pyfloat \<Rightarrow> string \<Rightarrow> ledger_entry" where
  "cancel_credit H t amt job = credit_entry H t (Some amt) (Some ''USD'') (refund_key job)
     [(''refund_for'', PStr job), (''reason'', PStr ''cancelled_after_debit'')]"

lemma refund_job_eq:
  assumes "job \<noteq> []"
  shows "refund_job H o1 o2 fresh t amt job ''cancelled_after_debit'' b =
    (let (l, r) = credit H o1 o2 fresh t (Some amt) (Some ''USD'') (Some (refund_key job))
        [(''refund_for'', PStr job), (''reason'', PStr ''cancelled_after_debit'')] (b_ledger b)
     in (b\<lparr>b_ledger := l\<rparr>, r))"
  using assms by (simp add: refund_job_def refund_def refund_key_def Let_def)

lemma refund_job_rows:
  assumes "job \<noteq> []"
  shows "rows (b_ledger (fst (refund_job H o1 o2 fresh t amt job ''cancelled_after_debit'' b))) =
    (if (\<exists>c. amt = Fin c \<and> 0 \<le> c) \<and> o1 \<noteq> PgDown \<and> \<not> has_id (idem_ledger_id H t (refund_key job)) (rows (b_ledger b))
     then rows (b_ledger b) @ [cancel_credit H t amt job] else rows (b_ledger b))"
proof -
  have "rows (b_ledger (fst (refund_job H o1 o2 fresh t amt job ''cancelled_after_debit'' b))) =
      rows (fst (credit H o1 o2 fresh t (Some amt) (Some ''USD'') (Some (refund_key job))
        [(''refund_for'', PStr job), (''reason'', PStr ''cancelled_after_debit'')] (b_ledger b)))"
    using assms by (simp add: refund_job_eq Let_def split: prod.splits)
  then show ?thesis
    by (cases amt) (auto simp: credit_rows Let_def cancel_credit_def credit_entry_def refund_key_def)
qed

lemma refund_job_ok_outcome:
  "job \<noteq> [] \<Longrightarrow> refund_job H o1 o2 fresh t amt job ''cancelled_after_debit'' b = (b', Inr rid) \<Longrightarrow>
     o1 = PgOk \<and> (\<exists>c. amt = Fin c \<and> 0 \<le> c)"
  by (cases "check_money (Some amt) (Some ''USD'')"; cases o1)
    (auto simp: refund_job_eq credit_def pg_execute_def insert_or_ignore_stmt_def valid_type_def Let_def check_money_ok
      split: prod.splits sum.splits if_splits option.splits pyfloat.splits)

lemma has_cancel_credit: "cancel_credit H t amt job \<in> set rs \<Longrightarrow> has_id (idem_ledger_id H t (refund_key job)) rs"
  by (force simp: has_id_def cancel_credit_def credit_entry_def)

text \<open>How the attempts end: credited, all failed, or cancelled in a sleep.\<close>

lemma refund_attempts_result:
  assumes "refund_attempts H t c job rs w = (w', ro)" "job \<noteq> []"
    and "\<not> has_id (idem_ledger_id H t (refund_key job)) (rows (b_ledger (w_bill w)))
      \<or> cancel_credit H t (Fin c) job \<in> set (rows (b_ledger (w_bill w)))"
  shows "(ro = RefundDone \<longrightarrow> cancel_credit H t (Fin c) job \<in> set (rows (b_ledger (w_bill w'))))
    \<and> (ro = RefundCancelled \<longrightarrow> (\<exists>x\<in>set rs. snd x))"
  using assms(1,3)
proof (induction rs arbitrary: w)
  case (Cons x rs)
  obtain nw cancelled where x: "x = (nw, cancelled)" by force
  obtain b r where b: "refund_job H (r_credit nw) (r_lookup nw) (r_fresh nw) t (Fin c) job ''cancelled_after_debit'' (w_bill w) = (b, r)"
    by force
  have rows: "rows (b_ledger b) = rows (b_ledger (w_bill w)) \<or> cancel_credit H t (Fin c) job \<in> set (rows (b_ledger b))"
    and grow: "set (rows (b_ledger (w_bill w))) \<subseteq> set (rows (b_ledger b))"
    using refund_job_rows [OF assms(2), of H "r_credit nw" "r_lookup nw" "r_fresh nw" t "Fin c" "w_bill w"] b
    by (auto split: if_splits)
  show ?case
  proof (cases r)
    case (Inr rid)
    have "cancel_credit H t (Fin c) job \<in> set (rows (b_ledger b))"
      using refund_job_rows [OF assms(2), of H "r_credit nw" "r_lookup nw" "r_fresh nw" t "Fin c" "w_bill w"] b
        refund_job_ok_outcome [OF assms(2) b [unfolded Inr]] Cons.prems(2)
      by (auto split: if_splits)
    with Inr Cons.prems(1) x b show ?thesis by auto
  next
    case (Inl e)
    show ?thesis
    proof (cases cancelled)
      case False
      with Inl Cons.prems(1) x b have "refund_attempts H t c job rs (w\<lparr>w_bill := b\<rparr>) = (w', ro)" by simp
      from Cons.IH [OF this] rows grow Cons.prems(2) x show ?thesis by auto
    qed (use Inl Cons.prems(1) x b in auto)
  qed
qed simp

lemma refund_sweep_ledger:
  assumes "jid j \<noteq> []" "error j = Some (refund_marker c)" "0 \<le> c" "pyround 8 c = c"
  shows "b_ledger (w_bill (fst (refund_sweep_job H pg clock nw j w))) =
    b_ledger (fst (refund_job H (r_credit nw) (r_lookup nw) (r_fresh nw) (tenant_id j) (Fin c) (jid j) ''cancelled_after_debit'' (w_bill w)))"
proof -
  have u: "w_bill w' = b" if "upd pg clock oc i x (w\<lparr>w_bill := b\<rparr>) = (w', r)" for oc i x b w' r
    using upd_bill [of pg clock oc i x "w\<lparr>w_bill := b\<rparr>"] that by simp
  show ?thesis
    using assms(2,4) parse_refund_marker [OF assms(3)]
    by (auto simp: refund_sweep_job_def split: prod.splits sum.splits dest!: u)
qed

interpretation once_refund: insert_once
  "\<lambda>nw w. if jid j \<noteq> [] \<and> error j = Some (refund_marker c) \<and> 0 \<le> c \<and> pyround 8 c = c
          then fst (refund_sweep_job H pg clock nw j w) else w"
  "\<lambda>w. rows (b_ledger (w_bill w))" "has_id (idem_ledger_id H (tenant_id j) (refund_key (jid j)))"
  "\<lambda>nw rs. r_credit nw \<noteq> PgDown \<and> jid j \<noteq> [] \<and> error j = Some (refund_marker c) \<and> 0 \<le> c \<and> pyround 8 c = c"
  "\<lambda>rs. rs @ [cancel_credit H (tenant_id j) (Fin c) (jid j)]"
  for H pg clock j c
  by unfold_locales
    (auto simp: refund_sweep_ledger refund_job_rows intro: has_cancel_credit)

section \<open>Properties\<close>

text \<open>The two markers the worker leaves in the \<open>error\<close> column can be read back. A refund marker is
  found by the LIKE query of the refund sweeper on both databases and parses to the amount rounded to
  eight decimals; a billing marker of any outcome that leads to \<open>billing_pending\<close> gives back the
  execution status \<open>timeout\<close> or \<open>failed\<close>, and none otherwise.\<close>

theorem worker_markers_round_trip:
  assumes "0 \<le> cost" and "bs \<in> {''pg_error'', ''error'', ''no_funds''}"
  shows "parse_refund_amount (refund_marker cost) = Some (Fin (pyround 8 cost))
    \<and> like_prefix ci refund_prefix (refund_marker cost)
    \<and> billing_exec_status (Some (billing_pending_error bs ex)) =
        (if ex = Some ''timeout'' \<or> ex = Some ''failed'' then ex else None)"
proof (intro conjI)
  show "parse_refund_amount (refund_marker cost) = Some (Fin (pyround 8 cost))"
    using assms(1) by (rule parse_refund_marker)
  show "like_prefix ci refund_prefix (refund_marker cost)"
    by (simp add: refund_marker_def like_prefix_append)
  show "billing_exec_status (Some (billing_pending_error bs ex)) =
      (if ex = Some ''timeout'' \<or> ex = Some ''failed'' then ex else None)"
    using assms(2)
    by (auto simp: billing_exec_status_def billing_pending_error_def starts_with_def Let_def)
qed

theorem worker_markers_round_trip_witness:
  "(0::rat) \<le> 1 / 1000 \<and> ''no_funds'' \<in> {''pg_error'', ''error'', ''no_funds''}
   \<and> billing_exec_status (Some (billing_pending_error ''no_funds'' (Some ''timeout''))) = Some ''timeout''"
  using worker_markers_round_trip [of "1 / 1000" "''no_funds''" True "Some ''timeout''"] by simp

text \<open>C38: Polling always ends. A task that is not cancelled reads at most 40 replies of a Vast.ai backend
  or 24 of any other, whatever they are (errors and unknown statuses included), and then has a final
  status: one of the backend's final statuses or \<open>timeout\<close>.\<close>

theorem poll_always_ends:
  assumes "\<forall>i < (if be = ''vastai'' then 40 else 24). rep i \<noteq> PollCancelled"
  shows "\<exists>st. poll_status rep be = Some st \<and> (st = ''timeout'' \<or> st \<in> set POLL_FINAL)"
proof -
  let ?n = "if be = ''vastai'' then 40 else 24 :: nat"
  let ?d = "if be = ''vastai'' then 15 else 5 :: nat"
  obtain s w where r: "poll_loop rep ?d (?n * ?d) 0 0 ''unknown'' = Some (s, w)" "?n * ?d \<le> w \<or> s \<in> set POLL_FINAL"
    using poll_loop_result [of rep ?d ?n 0 "''unknown''", OF refl] assms by (simp split: if_splits) blast+
  then show ?thesis by (auto simp: poll_status_def Let_def split: if_splits)
qed

theorem poll_always_ends_witness:
  "\<exists>st. poll_status (\<lambda>_. PollError) ''local'' = Some st \<and> (st = ''timeout'' \<or> st \<in> set POLL_FINAL)"
  by (rule poll_always_ends) simp


definition ex_billed :: billing where
  "ex_billed = fst (finalize_job_billing (\<lambda>s. s) all_ok 0 ex_job ''acme'' ''j1'' 100 ''free'' None ex_funded)"

lemma ex_billed_rows: "rows (b_ledger ex_billed) = rows (b_ledger ex_funded) @ [bill_entry (\<lambda>s. s) ''acme'' ''j1'' 100 ''free'']"
  using ex_billable
  by (simp add: ex_billed_def finalize_rows ex_funded_rows total_cost_100 balance_rows_def signed_def all_ok_def
      has_id_def idem_ledger_id_def)

lemma ex_billed_inv: "ledger_inv (b_ledger ex_billed)"
proof -
  have f: "ledger_inv (b_ledger ex_funded)"
    unfolding ex_funded_def
    using grows_inv [OF credit_grows credit_mirror, of ledger_init] by (simp add: ledger_inv_def ledger_init_def)
  show ?thesis
    using grows_inv [OF debit_if_funds_grows debit_if_funds_mirror f] f
    by (simp add: ex_billed_def finalize_fst increment_usage_ledger)
qed


text \<open>C6: The worker's final write is a compare-and-set. Let \<open>w2\<close> be the state in which other processes
  left the job when the write happens. If the job was closed by then (cancelled, completed, swept,
  pending), its status and cost stay as they are, whatever the database call does. Otherwise, with a
  working database, the row gets the worker's status, and a cost that is the debited price exactly when
  the billing answered \<open>ok\<close> and zero otherwise. No other job is touched.\<close>

theorem final_write_is_compare_and_set:
  assumes "bill_and_close H pg clock nw job t be st elapsed w0 = (w, r)"
    and "call_finalize H (c_fin nw) clock t job elapsed (Some be) w0 = (w1, bs)" and "w2 = c_env nw w1"
    and "table_ok (w_jobs w2)" and "get_execution_job job (w_jobs w2) = Some j" and "tenant_id j = t" and "0 \<le> elapsed"
  shows "(\<exists>j'. get_execution_job job (w_jobs w) = Some j' \<and>
      (if status j \<in> set FINAL_WRITE_BLOCKED_STATUSES then status j' = status j \<and> cost_usd j' = cost_usd j
       else c_final nw = DbOk \<longrightarrow> status j' = write_status bs st
              \<and> cost_usd j' = (if bs = ''ok'' then total_cost elapsed 0 0 else 0)
              \<and> error j' = Some (close_error bs st)))
    \<and> (\<forall>k. k \<noteq> job \<longrightarrow> get_execution_job k (w_jobs w) = get_execution_job k (w_jobs w2))"
proof -
  let ?u = "final_update clock t bs st elapsed"
  obtain w3 n where w3: "upd pg clock (c_final nw) job ?u w2 = (w3, n)" by force
  have key: "jid j = job" using get_execution_job_Some [OF assms(5)] by simp
  have w: "w = w3 \<or> w = fst (compensate H pg clock nw job t (pyround 8 (elapsed * (1 / 100000))) w3)
      \<and> n = Inr 0"
    using assms(1-3) w3 by (auto simp: bill_and_close_def split: sum.splits if_splits)
  have other: "get_execution_job k (w_jobs w) = get_execution_job k (w_jobs w2)" if "k \<noteq> job" for k
    using w compensate_row [of k H pg clock nw job t _ w3] get_other_upd [OF that, of pg clock "c_final nw" ?u w2] w3 that
    by auto
  have keep: "\<exists>j'. get_execution_job job (w_jobs w) = Some j' \<and> status j' = status k \<and> cost_usd j' = cost_usd k"
    if "get_execution_job job (w_jobs w3) = Some k" for k
    using w compensate_row [of job H pg clock nw job t _ w3] that by (fastforce split: if_splits)
  show ?thesis
  proof (cases "status j \<in> set FINAL_WRITE_BLOCKED_STATUSES")
    case True
    then have "w_jobs w3 = w_jobs w2"
      using upd_blocked [OF assms(5,4), of ?u pg clock "c_final nw"] w3 by (simp add: final_update_def)
    with keep [of j] assms(5) True other show ?thesis by auto
  next
    case False
    have wh: "update_where job ?u j" using False key assms(6) by (simp add: update_where_def final_update_def no_update_def)
    show ?thesis
    proof (cases "c_final nw = DbOk")
      case ok: True
      have "snd (update_execution_job pg clock job ?u (w_jobs w2)) = 1"
        using update_count_iff [OF assms(4), where u = ?u and pg = pg and now = clock and i = job] wh assms(5)
        by (simp add: update_sets_def opt_set_def final_update_def)
      with w3 ok have "n = Inr 1" by (simp add: upd_ok)
      with w have ww: "w = w3" by auto
      have "get_execution_job job (w_jobs w3) = Some (fold (\<lambda>f j. f j) (update_sets (if pg then clock else whole_seconds clock) ?u) j)"
        using w3 ok wh assms(5) by (auto simp: upd_ok get_after_update)
      then show ?thesis
        using False ww other ok assms(7) price_eq [of elapsed]
        by (auto simp: update_sets_def opt_set_def final_update_def no_update_def)
    next
      case nok: False
      have "\<exists>k. get_execution_job job (w_jobs w3) = Some k"
        using db_call_jobs [of "c_final nw" "update_execution_job pg clock job ?u" w2] w3 assms(5)
        by (auto simp: upd_def get_after_update)
      with keep other nok False show ?thesis by fastforce
    qed
  qed
qed

definition ex_worker :: worker where
  "ex_worker = \<lparr>w_jobs = ex_job, w_bill = ex_funded, w_next_try = [], w_log = []\<rparr>"

definition ok_sweep :: sweep_net where
  "ok_sweep = \<lparr>s_bill = all_ok, s_read = DbOk, s_upd = DbOk, s_plan = Inr None\<rparr>"

definition cancel_env :: "worker \<Rightarrow> worker" where
  "cancel_env w = w\<lparr>w_jobs := map (\<lambda>j. j\<lparr>status := ''cancelled''\<rparr>) (w_jobs w)\<rparr>"

definition ex_close :: close_net where
  "ex_close = \<lparr>c_fin = ok_sweep, c_final = DbOk, c_reread = DbOk, c_refunds = [], c_mark = DbOk, c_env = cancel_env\<rparr>"

theorem final_write_is_compare_and_set_witness:
  "\<exists>j'. get_execution_job ''j1'' (w_jobs (fst (bill_and_close (\<lambda>s. s) True 9 ex_close ''j1'' ''acme'' ''local'' ''completed'' 100 ex_worker))) = Some j'
     \<and> status j' = ''cancelled'' \<and> cost_usd j' = 0"
proof -
  obtain w r where c: "bill_and_close (\<lambda>s. s) True 9 ex_close ''j1'' ''acme'' ''local'' ''completed'' 100 ex_worker = (w, r)" by force
  obtain w1 bs where f: "call_finalize (\<lambda>s. s) (c_fin ex_close) 9 ''acme'' ''j1'' 100 (Some ''local'') ex_worker = (w1, bs)" by force
  have "w_jobs w1 = ex_job"
    using call_finalize_jobs [of "\<lambda>s. s" "c_fin ex_close" 9 "''acme''" "''j1''" 100 "Some ''local''" ex_worker]
    unfolding f by (simp add: ex_worker_def)
  then have w2: "w_jobs (c_env ex_close w1) = [(demo_job ''j1'' ''running'' 3)\<lparr>status := ''cancelled''\<rparr>]"
    by (simp add: ex_close_def cancel_env_def ex_job_def)
  from final_write_is_compare_and_set [OF c f refl, where j = "(demo_job ''j1'' ''running'' 3)\<lparr>status := ''cancelled''\<rparr>"]
  show ?thesis unfolding w2 c
    by (auto simp: table_ok_def get_execution_job_def demo_job_def new_exec_job_def
        FINAL_WRITE_BLOCKED_STATUSES_def TERMINAL_STATUSES_def)
qed


lemma ex_finalize_ok:
  "\<exists>b. finalize_job_billing (\<lambda>s. s) all_ok now ex_job ''acme'' ''j1'' 100 ''free'' be ex_funded = (b, Inr ''ok'')
     \<and> rows (b_ledger b) = rows (b_ledger ex_funded) @ [bill_entry (\<lambda>s. s) ''acme'' ''j1'' 100 ''free'']"
proof -
  obtain l r where d: "bill_debit (\<lambda>s. s) all_ok ''acme'' 100 0 0 ''free'' (Some ''j1'') (b_ledger ex_funded) = (l, r)" by force
  then have "\<exists>rid n. r = Inr (Some rid, n)"
    using debit_if_funds_result [OF d]
    by (auto simp: total_cost_100 ex_funded_rows has_id_def idem_ledger_id_def all_ok_def balance_rows_def signed_def)
  with d ex_billable have "snd (finalize_job_billing (\<lambda>s. s) all_ok now ex_job ''acme'' ''j1'' 100 ''free'' be ex_funded) = Inr ''ok''"
    by (auto simp: finalize_job_billing_def billable_def increment_usage_def Let_def record_usage_def metering_record_def
        all_ok_def usage_record_stmt_def)
  moreover have "rows (b_ledger (fst (finalize_job_billing (\<lambda>s. s) all_ok now ex_job ''acme'' ''j1'' 100 ''free'' be ex_funded)))
      = rows (b_ledger ex_funded) @ [bill_entry (\<lambda>s. s) ''acme'' ''j1'' 100 ''free'']"
    using ex_billable
    by (simp add: finalize_rows ex_funded_rows total_cost_100 balance_rows_def signed_def all_ok_def has_id_def idem_ledger_id_def)
  ultimately show ?thesis by (metis prod.collapse)
qed


text \<open>C33: The refund sweeper pays each cancelled job back once. However many sweeps meet a job with a
  marker for the amount \<open>c\<close>, whatever PostgreSQL and the job table do to each of them, the ledger gets
  exactly one CREDIT of that amount if one attempt reached PostgreSQL, and none otherwise; a sweep
  that reports \<open>ok\<close> for it has removed the marker from the row.\<close>

theorem refund_sweep_credits_once:
  assumes "job \<noteq> []" and "jid j = job" and "error j = Some (refund_marker c)" and "0 \<le> c" and "pyround 8 c = c"
    and "\<not> has_id (idem_ledger_id H (tenant_id j) (refund_key job)) (rows (b_ledger (w_bill w)))"
  shows "rows (b_ledger (w_bill (fold (\<lambda>nw w. fst (refund_sweep_job H pg clock nw j w)) nws w))) =
      (if \<exists>nw\<in>set nws. r_credit nw \<noteq> PgDown
       then rows (b_ledger (w_bill w)) @ [cancel_credit H (tenant_id j) (Fin c) job] else rows (b_ledger (w_bill w)))
    \<and> (refund_sweep_job H pg clock nw j w = (w', ''ok'') \<longrightarrow> get_execution_job job (w_jobs w) = Some k \<longrightarrow>
         tenant_id k = tenant_id j \<longrightarrow>
         (\<exists>k'. get_execution_job job (w_jobs w') = Some k' \<and> error k' = Some [] \<and> status k' = status k))"
proof
  show "rows (b_ledger (w_bill (fold (\<lambda>nw w. fst (refund_sweep_job H pg clock nw j w)) nws w))) =
      (if \<exists>nw\<in>set nws. r_credit nw \<noteq> PgDown
       then rows (b_ledger (w_bill w)) @ [cancel_credit H (tenant_id j) (Fin c) job] else rows (b_ledger (w_bill w)))"
    using once_refund.fold_attempt_once [where H = H and pg = pg and clock = clock and j = j and c = c and s = w and os = nws]
      assms by simp
next
  have "r_upd nw = DbOk \<and> w_jobs w' = fst (update_execution_job pg clock job (no_update\<lparr>u_error := Some [], u_tenant := Some (tenant_id j)\<rparr>) (w_jobs w))"
    if "refund_sweep_job H pg clock nw j w = (w', ''ok'')"
    using that assms parse_refund_marker [OF assms(4)]
    by (cases "r_upd nw") (auto simp: refund_sweep_job_def upd_def exc_status_def split: prod.splits sum.splits pyexc.splits)
  then show "refund_sweep_job H pg clock nw j w = (w', ''ok'') \<longrightarrow> get_execution_job job (w_jobs w) = Some k \<longrightarrow>
         tenant_id k = tenant_id j \<longrightarrow>
         (\<exists>k'. get_execution_job job (w_jobs w') = Some k' \<and> error k' = Some [] \<and> status k' = status k)"
    using get_execution_job_Some [of job "w_jobs w" k]
    by (auto simp: get_after_update update_sets_def opt_set_def no_update_def update_where_def)
qed

theorem refund_sweep_credits_once_witness:
  "\<exists>j. jid j = ''j1'' \<and> error j = Some (refund_marker (1 / 1000)) \<and>
    length (rows (b_ledger (w_bill (fold (\<lambda>nw w. fst (refund_sweep_job (\<lambda>s. s) True 9 nw j w))
      [\<lparr>r_credit = PgLost, r_lookup = PgOk, r_fresh = ''f'', r_upd = DbOk\<rparr>,
       \<lparr>r_credit = PgOk, r_lookup = PgOk, r_fresh = ''g'', r_upd = DbOk\<rparr>] ex_worker)))) = 2"
proof -
  let ?j = "(demo_job ''j1'' ''cancelled'' 3)\<lparr>error := Some (refund_marker (1 / 1000))\<rparr>"
  have t: "tenant_id ?j = ''acme''" "jid ?j = ''j1''" "error ?j = Some (refund_marker (1 / 1000))"
    by (simp_all add: demo_job_def new_exec_job_def)
  have g: "pyround 8 (1 / 1000) = (1 / 1000 :: rat)" using pyround_scaled [of 8 100000] by simp
  have n: "\<not> has_id (idem_ledger_id (\<lambda>s. s) (tenant_id ?j) (refund_key ''j1'')) (rows (b_ledger (w_bill ex_worker)))"
    by (simp add: t ex_worker_def ex_funded_rows has_id_def idem_ledger_id_def)
  from refund_sweep_credits_once [OF _ t(2,3) _ g n, of True 9
      "[\<lparr>r_credit = PgLost, r_lookup = PgOk, r_fresh = ''f'', r_upd = DbOk\<rparr>,
       \<lparr>r_credit = PgOk, r_lookup = PgOk, r_fresh = ''g'', r_upd = DbOk\<rparr>]"]
  show ?thesis by (intro exI [of _ ?j]) (simp add: t ex_worker_def ex_funded_rows)
qed

text \<open>The back-off of unfunded jobs does not hold. A job that is paused when a sweep starts is left out
  of the query, so it is not among the jobs the sweep has seen, and a sweep whose batch is not full then
  drops its pause as stale: the next sweep tries the job again, long before
  \<open>BILLING_PENDING_NO_FUNDS_RETRY_S\<close> is over.\<close>

theorem paused_job_is_forgotten:
  assumes "sweep_billing_pending_once H pg clock now retry_s batch oc1 DbOk nw env w = (w', Inr c)"
    and "i \<in> set (paused_ids now w)"
    and "length (get_billing_pending_jobs pg batch (paused_ids now w) (w_jobs w)) < batch"
  shows "i \<notin> fst ` set (w_next_try w') \<and> i \<notin> set (paused_ids now w')"
proof -
  let ?jobs = "get_billing_pending_jobs pg batch (paused_ids now w) (w_jobs w)"
  have "set ?jobs \<subseteq> {j. jid j \<notin> set (paused_ids now w)}"
    using assms(2)
    by (auto simp: get_billing_pending_jobs_def order_by_completed_def Let_def dest!: in_set_takeD split: if_splits)
  with assms(2) have i: "i \<notin> jid ` set ?jobs" by auto
  have p: "paused_ids now (wlog es w) = paused_ids now w" for es by (simp add: paused_ids_def)
  obtain w2 where "w' = wlog (count_log WSweep c) (w2\<lparr>w_next_try := drop_stale (map jid ?jobs) (w_next_try w2)\<rparr>)"
    using assms(1,3) by (auto simp: sweep_billing_pending_once_def Let_def p split: sum.splits prod.splits)
  with i show ?thesis by (auto simp: drop_stale_def paused_ids_def)
qed

theorem paused_job_is_forgotten_witness:
  "\<exists>w w' c. ''d'' \<in> set (paused_ids 60 w)
     \<and> sweep_billing_pending_once (\<lambda>s. s) True 60 60 3600 50 DbOk DbOk (\<lambda>_. ok_sweep) (\<lambda>_ w. w) w = (w', Inr c)
     \<and> ''d'' \<notin> set (paused_ids 60 w')"
proof -
  let ?w = "\<lparr>w_jobs = [demo_job ''d'' ''billing_pending'' 2], w_bill = billing_init, w_next_try = [(''d'', 3600)], w_log = []\<rparr>"
  have p: "paused_ids 60 ?w = [''d'']" by (simp add: paused_ids_def)
  have e: "get_billing_pending_jobs True 50 [''d''] (w_jobs ?w) = []"
    by (simp add: get_billing_pending_jobs_def order_by_completed_def demo_job_def new_exec_job_def)
  obtain w' r where s: "sweep_billing_pending_once (\<lambda>s. s) True 60 60 3600 50 DbOk DbOk (\<lambda>_. ok_sweep) (\<lambda>_ w. w) ?w = (w', r)" by force
  have "paused_ids 60 (wlog es ?w) = [''d'']" for es by (simp add: paused_ids_def)
  then obtain c where c: "r = Inr c"
    using s e by (auto simp: sweep_billing_pending_once_def Let_def)
  from paused_job_is_forgotten [OF s [unfolded c], of "''d''"] p e s c show ?thesis
    by (intro exI [of _ ?w] exI [of _ w'] exI [of _ c]) simp
qed

text \<open>The first write of a task is not guarded. A job that was cancelled between its claim and the
  answer of the dispatch (the cancel endpoint closed its row) is set back to \<open>running\<close> by the write
  after a successful dispatch, and is then polled and billed like any other; the guard that protects
  the final write is missing there.\<close>

theorem dispatch_write_reopens_cancelled_job:
  assumes "table_ok (w_jobs w)" and "get_execution_job job (w_jobs w) = Some j" and "tenant_id j = t" and "status j = ''cancelled''"
    and "d = Inr r" and "dispatch_is_ready (d_backend r) (d_status r)" and "truthy (d_backend r)"
    and "dispatch_step pg clock DbOk oc job t d w = (w', res)"
  shows "\<exists>j'. get_execution_job job (w_jobs w') = Some j' \<and> status j' = ''running''
    \<and> res = Inr (Inr (the (d_backend r), d_contract r, (case d_backend_job r of None \<Rightarrow> d_contract r | Some b \<Rightarrow> Some b)))
    \<and> status j' \<notin> set FINAL_WRITE_BLOCKED_STATUSES \<and> status j' \<notin> set FINALIZED_STATUSES"
proof -
  have st: "d_status r \<noteq> Some ''failed''" "d_status r \<noteq> Some ''error''"
    using assms(6) by (auto simp: dispatch_is_ready_def)
  show ?thesis
    using assms st get_execution_job_Some [OF assms(2)]
    by (auto simp: dispatch_step_def dispatch_block_def upd_ok get_after_update update_sets_def opt_set_def no_update_def
        update_where_def FINAL_WRITE_BLOCKED_STATUSES_def TERMINAL_STATUSES_def FINALIZED_STATUSES_def Let_def
        split: option.splits)
qed

theorem dispatch_write_reopens_cancelled_job_witness:
  "\<exists>w w' res j'. get_execution_job ''j1'' (w_jobs w) = Some (demo_job ''j1'' ''cancelled'' 3)
     \<and> dispatch_step True 9 DbOk DbOk ''j1'' ''acme'' (Inr \<lparr>d_backend = Some ''local'', d_status = Some ''running'',
          d_contract = None, d_backend_job = None, d_message = None\<rparr>) w = (w', res)
     \<and> get_execution_job ''j1'' (w_jobs w') = Some j' \<and> status j' = ''running''"
proof -
  let ?w = "ex_worker\<lparr>w_jobs := [demo_job ''j1'' ''cancelled'' 3]\<rparr>"
  let ?r = "\<lparr>d_backend = Some ''local'', d_status = Some ''running'', d_contract = None, d_backend_job = None, d_message = None\<rparr>"
  have g: "get_execution_job ''j1'' (w_jobs ?w) = Some (demo_job ''j1'' ''cancelled'' 3)"
    by (simp add: get_execution_job_def demo_job_def new_exec_job_def)
  obtain w' res where d: "dispatch_step True 9 DbOk DbOk ''j1'' ''acme'' (Inr ?r) ?w = (w', res)" by force
  from dispatch_write_reopens_cancelled_job [OF _ g _ _ refl _ _ d] g d show ?thesis
    by (fastforce simp: table_ok_def demo_job_def new_exec_job_def dispatch_is_ready_def)
qed

end
