(* ===== verification/Quota.thy ===== *)
theory Quota
  imports JobTable
begin

text \<open>
  Plans, quotas and the decision gate.

  \<^item> \<open>src/plan_source.py\<close>: the plans file \<open>config/plans.json\<close> and what reading it can give
    (\<open>plans_file\<close>), \<open>plan_limits\<close>, the consumption read from the usage table,
    \<open>free_quota_verdict\<close> and \<open>is_rejection\<close>.
  \<^item> \<open>src/db_adapter.py\<close>: \<open>_load_plans\<close> and the counts of a tenant's jobs.
  \<^item> \<open>src/cost/gate.py\<close>: the gate and its cost estimates.

  The human-readable texts of verdicts are left out; the codes, categories and numbers they are
  built from are kept. Shown: the quota verdict is exactly the conjunction of its three limits,
  the rejection predicate agrees with it, the gate admits exactly below the limit, and a tenant
  that only submits through the gate never has more jobs than its plan allows.
\<close>

section \<open>int()\<close>

abbreviation OverflowError :: pyexc where "OverflowError \<equiv> OtherException ''OverflowError''"
abbreviation ZeroDivisionError :: pyexc where "ZeroDivisionError \<equiv> OtherException ''ZeroDivisionError''"
abbreviation AttributeError :: pyexc where "AttributeError \<equiv> OtherException ''AttributeError''"

text \<open>\<open>int(x)\<close> on a float drops the fraction.\<close>

definition trunc :: "rat \<Rightarrow> int" where
  "trunc r = (if 0 \<le> r then \<lfloor>r\<rfloor> else \<lceil>r\<rceil>)"

definition int_of_string :: "string \<Rightarrow> int option" where
  "int_of_string s =
     (let (sg, u) = split_sign (strip s); (ds, rest) = digitpart u
      in if ds = [] \<or> rest \<noteq> [] then None
         else Some (if sg < 0 then - int (nat_of_digits ds) else int (nat_of_digits ds)))"

fun py_int :: "pyval \<Rightarrow> int result" where
  "py_int (PBool b) = Inr (if b then 1 else 0)"
| "py_int (PInt i) = Inr i"
| "py_int (PFloat (Fin r)) = Inr (trunc r)"
| "py_int (PFloat NaN) = Inl ValueError"
| "py_int (PFloat _) = Inl OverflowError"
| "py_int (PStr s) = (case int_of_string s of None \<Rightarrow> Inl ValueError | Some i \<Rightarrow> Inr i)"
| "py_int _ = Inl TypeError"

text \<open>Truth of a value (\<open>if v:\<close>).\<close>

fun py_truth :: "pyval \<Rightarrow> bool" where
  "py_truth PNone = False"
| "py_truth (PBool b) = b"
| "py_truth (PInt i) = (i \<noteq> 0)"
| "py_truth (PFloat f) = (f \<noteq> Fin 0)"
| "py_truth (PStr s) = (s \<noteq> [])"
| "py_truth (PList xs) = (xs \<noteq> [])"
| "py_truth (PDict d) = (d \<noteq> [])"

section \<open>The source of plans\<close>

abbreviation PlanSourceError :: pyexc where "PlanSourceError \<equiv> OtherException ''PlanSourceError''"
abbreviation UsageLedgerUnavailable :: pyexc where "UsageLedgerUnavailable \<equiv> OtherException ''UsageLedgerUnavailable''"

datatype plans_file = PlansMissing | PlansUnreadable | PlansJson pyval

definition load_plans :: "plans_file \<Rightarrow> pydict result" where
  "load_plans f =
     (case f of
        PlansJson (PDict d) \<Rightarrow> if d = [] then Inl PlanSourceError else Inr d
      | _ \<Rightarrow> Inl PlanSourceError)"

record plan_limits =
  pl_plan :: string
  pl_jobs :: int
  pl_gpu_per_job :: int

definition UNLIMITED :: int where
  "UNLIMITED = -1"

definition gpu_s_per_month :: "plan_limits \<Rightarrow> int" where
  "gpu_s_per_month l = (if pl_jobs l < 0 \<or> pl_gpu_per_job l < 0 then UNLIMITED else pl_jobs l * pl_gpu_per_job l)"

definition gpu_hours_per_month :: "plan_limits \<Rightarrow> int" where
  "gpu_hours_per_month l = (if gpu_s_per_month l < 0 then UNLIMITED else gpu_s_per_month l div 3600)"

definition get_plan_limits :: "plans_file \<Rightarrow> string option \<Rightarrow> plan_limits result" where
  "get_plan_limits f plan =
     (let key = lower (strip (case plan of None \<Rightarrow> [] | Some p \<Rightarrow> p))
      in if key = [] then Inl PlanSourceError
         else case load_plans f of
                Inl x \<Rightarrow> Inl x
              | Inr plans \<Rightarrow>
                  (case map_of plans key of
                     Some (PDict cfg) \<Rightarrow>
                       (case (map_of cfg ''jobs_per_month'', map_of cfg ''gpu_s_per_job'') of
                          (Some a, Some b) \<Rightarrow>
                            (case py_int a of
                               Inr m \<Rightarrow>
                                 (case py_int b of
                                    Inr n \<Rightarrow> Inr \<lparr>pl_plan = key, pl_jobs = m, pl_gpu_per_job = n\<rparr>
                                  | Inl x \<Rightarrow> Inl (if x = TypeError \<or> x = ValueError then PlanSourceError else x))
                             | Inl x \<Rightarrow> Inl (if x = TypeError \<or> x = ValueError then PlanSourceError else x))
                        | _ \<Rightarrow> Inl PlanSourceError)
                   | _ \<Rightarrow> Inl PlanSourceError))"

text \<open>\<open>ledger_consumption\<close>: \<open>raw\<close> is what \<open>db.get_tenant_usage_db\<close> gives, its failure included.\<close>

record consumption =
  cn_tenant :: string
  cn_jobs :: int
  cn_gpu :: int

definition ledger_consumption :: "pyval result \<Rightarrow> string \<Rightarrow> consumption result" where
  "ledger_consumption raw t =
     (case raw of
        Inr (PDict d) \<Rightarrow>
          (case py_int (case map_of d ''total_jobs'' of None \<Rightarrow> PInt 0 | Some v \<Rightarrow> v) of
             Inr j \<Rightarrow>
               (case py_int (case map_of d ''total_gpu_seconds'' of None \<Rightarrow> PInt 0 | Some v \<Rightarrow> v) of
                  Inr g \<Rightarrow> Inr \<lparr>cn_tenant = t, cn_jobs = j, cn_gpu = g\<rparr>
                | Inl x \<Rightarrow> Inl (if x = TypeError \<or> x = ValueError then UsageLedgerUnavailable else x))
           | Inl x \<Rightarrow> Inl (if x = TypeError \<or> x = ValueError then UsageLedgerUnavailable else x))
      | _ \<Rightarrow> Inl UsageLedgerUnavailable)"

section \<open>The quota verdict\<close>

definition REJECTION_DECISIONS :: "string list" where
  "REJECTION_DECISIONS =
     [''UNKNOWN_TENANT'', ''GATE_UNAVAILABLE'', ''REJECTED'', ''QUOTA_JOBS_EXHAUSTED'',
      ''QUOTA_JOB_ESTIMATE_EXCEEDS_PER_JOB'', ''QUOTA_MONTHLY_GPU_EXHAUSTED'']"

definition ALLOWED_VERDICTS :: "string list" where
  "ALLOWED_VERDICTS = [''APPROVED'', ''REQUIRES_CONFIRMATION'', ''allowed'']"

definition is_rejection :: "string option \<Rightarrow> string option \<Rightarrow> bool" where
  "is_rejection dec cat =
     ((\<exists>c\<in>set [dec, cat]. truthy c \<and> the c \<in> set REJECTION_DECISIONS)
      \<or> (case dec of None \<Rightarrow> [] | Some d \<Rightarrow> d) \<notin> set ALLOWED_VERDICTS)"

record quota_verdict =
  qv_decision :: string
  qv_category :: "string option"
  qv_distance :: "(string \<times> int) list"
  qv_projected :: "int option"
  qv_proximity :: rat

definition unlimited :: "int \<Rightarrow> bool" where
  "unlimited l = (l < 0)"

text \<open>\<open>round(a / b * 100, 2)\<close>; dividing by zero raises.\<close>

definition percent :: "int \<Rightarrow> int \<Rightarrow> rat" where
  "percent a b = pyround 2 (of_int a / of_int b * 100)"

definition free_quota_verdict :: "plan_limits \<Rightarrow> consumption \<Rightarrow> rat \<Rightarrow> quota_verdict result" where
  "free_quota_verdict l c est =
     (let jobs_limit = pl_jobs l; cap = pl_gpu_per_job l; monthly = gpu_s_per_month l; estimate = trunc est;
          projected = cn_gpu c + estimate
      in if \<not> unlimited jobs_limit \<and> cn_jobs c \<ge> jobs_limit
         then Inr \<lparr>qv_decision = ''REJECTED'', qv_category = Some ''QUOTA_JOBS_EXHAUSTED'',
                   qv_distance = [(''jobs_to_limit'', jobs_limit - cn_jobs c)], qv_projected = None, qv_proximity = 100\<rparr>
         else if \<not> unlimited cap \<and> estimate > cap
         then (if cap = 0 then Inl ZeroDivisionError
               else Inr \<lparr>qv_decision = ''REJECTED'', qv_category = Some ''QUOTA_JOB_ESTIMATE_EXCEEDS_PER_JOB'',
                         qv_distance = [(''per_job_over_by_gpu_s'', estimate - cap)], qv_projected = None,
                         qv_proximity = percent estimate cap\<rparr>)
         else if \<not> unlimited monthly \<and> projected > monthly
         then (if monthly = 0 then Inl ZeroDivisionError
               else Inr \<lparr>qv_decision = ''REJECTED'', qv_category = Some ''QUOTA_MONTHLY_GPU_EXHAUSTED'',
                         qv_distance = [(''monthly_over_by_gpu_s'', projected - monthly)], qv_projected = Some projected,
                         qv_proximity = percent projected monthly\<rparr>)
         else (let ratios = (if \<not> unlimited jobs_limit \<and> jobs_limit \<noteq> 0
                             then [(of_int (cn_jobs c + 1) :: rat) / of_int jobs_limit] else [])
                            @ (if \<not> unlimited monthly \<and> monthly \<noteq> 0 then [of_int projected / of_int monthly] else [])
               in Inr \<lparr>qv_decision = ''APPROVED'', qv_category = None,
                       qv_distance = [(''jobs_remaining'', if unlimited jobs_limit then UNLIMITED else jobs_limit - cn_jobs c),
                                      (''monthly_gpu_s_remaining'', if unlimited monthly then UNLIMITED else monthly - projected)],
                       qv_projected = Some projected,
                       qv_proximity = (if ratios = [] then 0 else pyround 2 (foldr max ratios (hd ratios) * 100))\<rparr>))"

section \<open>The gate\<close>

text \<open>
  \<open>_load_plans\<close>: every plan of the source with the derived keys. A plan whose entry is not an object or
  is incomplete is left out; an unavailable source gives the empty dictionary.
\<close>

definition plan_entry :: "pydict \<Rightarrow> plan_limits \<Rightarrow> pydict" where
  "plan_entry cfg l =
     AList.update ''max_gpu_hours'' (PInt (gpu_hours_per_month l))
      (AList.update ''gpu_s_per_month'' (PInt (gpu_s_per_month l))
        (AList.update ''gpu_s_per_job'' (PInt (pl_gpu_per_job l))
          (AList.update ''max_jobs_per_month'' (PInt (pl_jobs l))
            (AList.update ''max_jobs'' (PInt (pl_jobs l)) cfg))))"

fun add_plan :: "plans_file \<Rightarrow> string \<times> pyval \<Rightarrow> (string \<times> pydict) list result \<Rightarrow> (string \<times> pydict) list result" where
  "add_plan f (name, PDict cfg) (Inr out) =
     (case get_plan_limits f (Some name) of
        Inr l \<Rightarrow> Inr (AList.update name (plan_entry cfg l) out)
      | Inl x \<Rightarrow> if x = PlanSourceError then Inr out else Inl x)"
| "add_plan f p out = out"

definition load_plans_view :: "plans_file \<Rightarrow> (string \<times> pydict) list result" where
  "load_plans_view f =
     (case load_plans f of Inl _ \<Rightarrow> Inr [] | Inr loaded \<Rightarrow> fold (add_plan f) loaded (Inr []))"

definition count_jobs_for_tenant_total :: "string \<Rightarrow> job_table \<Rightarrow> nat" where
  "count_jobs_for_tenant_total t tbl = length (filter (\<lambda>j. tenant_id j = t) tbl)"

definition count_jobs_active_for_tenant :: "string \<Rightarrow> job_table \<Rightarrow> nat" where
  "count_jobs_active_for_tenant t tbl =
     length (filter (\<lambda>j. tenant_id j = t \<and> status j \<in> {''queued'', ''running'', ''pending''}) tbl)"

definition estimate_cost :: "pydict \<Rightarrow> rat" where
  "estimate_cost pl = pyround 5 (if py_truth (case map_of pl ''gpu_required'' of None \<Rightarrow> PBool False | Some v \<Rightarrow> v)
                                 then 2 / 1000 else 1 / 10000)"

definition estimate_cluster_cost :: "pydict \<Rightarrow> rat result" where
  "estimate_cluster_cost spec =
     (let a = dict_get spec ''nodes''; b = dict_get spec ''expected_gpu_seconds''
      in if a = PNone \<or> b = PNone then Inl ValueError
         else case (py_float a, py_float b) of
                (Some (Fin n), Some (Fin s)) \<Rightarrow>
                  if n < 1 \<or> s < 1 then Inl ValueError else Inr (pyround 8 (n * s * (1 / 100000)))
              | (None, _) \<Rightarrow> Inl (case a of PStr _ \<Rightarrow> ValueError | _ \<Rightarrow> TypeError)
              | (_, None) \<Rightarrow> Inl (case b of PStr _ \<Rightarrow> ValueError | _ \<Rightarrow> TypeError)
              | _ \<Rightarrow> Inl ValueError)"

datatype gate_result = GateAllowed | GateDenied

datatype gate_reason = TenantNotFound | QuotaExceeded nat int | QuotaOk

text \<open>The reason as the text that the gate's callers pass on.\<close>

definition gate_text :: "gate_reason \<Rightarrow> string" where
  "gate_text r =
     (case r of
        TenantNotFound \<Rightarrow> ''tenant not found''
      | QuotaExceeded n m \<Rightarrow> ''quota exceeded: '' @ nat_str n @ ''/'' @ (if m < 0 then ''-'' else []) @ nat_str (nat \<bar>m\<bar>) @ '' jobs''
      | QuotaOk \<Rightarrow> ''quota ok'')"

record gate_decision =
  gd_result :: gate_result
  gd_reason :: gate_reason
  gd_tenant :: string
  gd_limit :: int
  gd_cost :: rat

text \<open>\<open>tn\<close> is the tenant's row, whose \<open>plan\<close> column holds a string or NULL.\<close>

definition plan_max_jobs :: "(string \<times> pydict) list \<Rightarrow> pyval \<Rightarrow> int" where
  "plan_max_jobs plans p =
     (let free = (case map_of plans ''free'' of None \<Rightarrow> [(''max_jobs'', PInt 10)] | Some e \<Rightarrow> e);
          cfg = (case p of PStr s \<Rightarrow> (case map_of plans s of None \<Rightarrow> free | Some e \<Rightarrow> e) | _ \<Rightarrow> free)
      in case map_of cfg ''max_jobs'' of Some (PInt n) \<Rightarrow> n | _ \<Rightarrow> 10)"

definition gate_evaluate :: "plans_file \<Rightarrow> pydict option \<Rightarrow> job_table \<Rightarrow> string \<Rightarrow> pydict \<Rightarrow> gate_decision result" where
  "gate_evaluate f tn tbl t pl =
     (case tn of
        None \<Rightarrow> Inr \<lparr>gd_result = GateDenied, gd_reason = TenantNotFound, gd_tenant = t, gd_limit = 0, gd_cost = 0\<rparr>
      | Some row \<Rightarrow>
          (if row = [] then Inr \<lparr>gd_result = GateDenied, gd_reason = TenantNotFound, gd_tenant = t, gd_limit = 0, gd_cost = 0\<rparr>
           else case load_plans_view f of
             Inl x \<Rightarrow> Inl x
           | Inr plans \<Rightarrow>
               (let m = plan_max_jobs plans (case map_of row ''plan'' of None \<Rightarrow> PStr ''free'' | Some v \<Rightarrow> v);
                    n = count_jobs_for_tenant_total t tbl
                in if m \<ge> 0 \<and> int n \<ge> m
                   then Inr \<lparr>gd_result = GateDenied, gd_reason = QuotaExceeded n m, gd_tenant = t, gd_limit = m, gd_cost = 0\<rparr>
                   else Inr \<lparr>gd_result = GateAllowed, gd_reason = QuotaOk, gd_tenant = t, gd_limit = m,
                             gd_cost = estimate_cost pl\<rparr>)))"


section \<open>Facts\<close>

lemma is_rejection_verdicts:
  "is_rejection (Some ''APPROVED'') None = False"
  "is_rejection (Some ''REJECTED'') cat = True"
  by (simp_all add: is_rejection_def REJECTION_DECISIONS_def ALLOWED_VERDICTS_def)

definition within_quota :: "plan_limits \<Rightarrow> consumption \<Rightarrow> int \<Rightarrow> bool" where
  "within_quota l c est =
     ((pl_jobs l < 0 \<or> cn_jobs c < pl_jobs l) \<and> (pl_gpu_per_job l < 0 \<or> est \<le> pl_gpu_per_job l)
      \<and> (pl_jobs l < 0 \<or> pl_gpu_per_job l < 0 \<or> cn_gpu c + est \<le> pl_jobs l * pl_gpu_per_job l))"

lemma unlimited_month: "unlimited (gpu_s_per_month l) \<longleftrightarrow> pl_jobs l < 0 \<or> pl_gpu_per_job l < 0"
  by (auto simp: unlimited_def gpu_s_per_month_def UNLIMITED_def mult_less_0_iff)

lemma limited_month:
  assumes "\<not> unlimited (gpu_s_per_month l)"
  shows "0 \<le> pl_jobs l" "0 \<le> pl_gpu_per_job l" "gpu_s_per_month l = pl_jobs l * pl_gpu_per_job l"
proof -
  have "\<not> pl_jobs l < 0 \<and> \<not> pl_gpu_per_job l < 0" using assms by (simp only: unlimited_month) blast
  then show "0 \<le> pl_jobs l" "0 \<le> pl_gpu_per_job l" "gpu_s_per_month l = pl_jobs l * pl_gpu_per_job l"
    by (simp_all add: gpu_s_per_month_def)
qed

lemma verdict_cases:
  assumes "pl_gpu_per_job l \<noteq> 0" and "0 \<le> cn_jobs c"
  shows "\<exists>v. free_quota_verdict l c est = Inr v
    \<and> qv_decision v = (if within_quota l c (trunc est) then ''APPROVED'' else ''REJECTED'')
    \<and> (qv_category v = None \<longleftrightarrow> within_quota l c (trunc est))"
proof (cases "\<not> unlimited (pl_jobs l) \<and> cn_jobs c \<ge> pl_jobs l")
  case True
  then show ?thesis by (simp add: free_quota_verdict_def within_quota_def unlimited_def)
next
  case jobs: False
  show ?thesis
  proof (cases "\<not> unlimited (pl_gpu_per_job l) \<and> trunc est > pl_gpu_per_job l")
    case True
    with jobs assms show ?thesis by (auto simp: free_quota_verdict_def Let_def within_quota_def unlimited_def)
  next
    case cap: False
    show ?thesis
    proof (cases "\<not> unlimited (gpu_s_per_month l) \<and> cn_gpu c + trunc est > gpu_s_per_month l")
      case True
      then have lim: "0 \<le> pl_jobs l" "0 \<le> pl_gpu_per_job l" "gpu_s_per_month l = pl_jobs l * pl_gpu_per_job l"
        using limited_month by blast+
      have "gpu_s_per_month l \<noteq> 0" using jobs lim assms by (auto simp: unlimited_def)
      with True jobs cap lim show ?thesis
        by (auto simp: free_quota_verdict_def Let_def within_quota_def unlimited_def)
    next
      case False
      then have "\<not> (0 \<le> pl_jobs l \<and> 0 \<le> pl_gpu_per_job l \<and> cn_gpu c + trunc est > pl_jobs l * pl_gpu_per_job l)"
        using unlimited_month [of l] limited_month [of l] by fastforce
      with False jobs cap show ?thesis
        by (auto simp: free_quota_verdict_def Let_def within_quota_def unlimited_def)
    qed
  qed
qed

text \<open>A tenant's month: each job asks for a verdict with its estimate, and an approved one is counted with
  exactly its estimate.\<close>

definition quota_admit :: "plan_limits \<Rightarrow> rat \<Rightarrow> consumption \<Rightarrow> consumption" where
  "quota_admit l est c =
     (case free_quota_verdict l c est of
        Inr v \<Rightarrow> if is_rejection (Some (qv_decision v)) (qv_category v) then c
                else c\<lparr>cn_jobs := cn_jobs c + 1, cn_gpu := cn_gpu c + trunc est\<rparr>
      | Inl _ \<Rightarrow> c)"

lemma quota_admit_eq:
  assumes "pl_gpu_per_job l \<noteq> 0" and "0 \<le> cn_jobs c"
  shows "quota_admit l est c =
    (if within_quota l c (trunc est) then c\<lparr>cn_jobs := cn_jobs c + 1, cn_gpu := cn_gpu c + trunc est\<rparr> else c)"
proof -
  obtain v where v: "free_quota_verdict l c est = Inr v"
    and d: "qv_decision v = (if within_quota l c (trunc est) then ''APPROVED'' else ''REJECTED'')"
    and k: "qv_category v = None \<longleftrightarrow> within_quota l c (trunc est)"
    using verdict_cases [OF assms, of est] by (elim exE conjE) (rule that)
  show ?thesis
    by (cases "within_quota l c (trunc est)") (use d k in \<open>simp_all add: quota_admit_def v is_rejection_verdicts\<close>)
qed

definition quota_inv :: "plan_limits \<Rightarrow> consumption \<Rightarrow> bool" where
  "quota_inv l c \<longleftrightarrow> 0 \<le> cn_jobs c \<and> 0 \<le> cn_gpu c \<and> (0 \<le> pl_jobs l \<longrightarrow> cn_jobs c \<le> pl_jobs l)
     \<and> (0 \<le> pl_jobs l \<longrightarrow> 0 \<le> pl_gpu_per_job l \<longrightarrow> cn_gpu c \<le> gpu_s_per_month l)"

lemma trunc_nonneg: "0 \<le> r \<Longrightarrow> 0 \<le> trunc r"
  by (simp add: trunc_def)

lemma quota_admit_inv:
  "pl_gpu_per_job l \<noteq> 0 \<Longrightarrow> 0 \<le> est \<Longrightarrow> quota_inv l c \<Longrightarrow> quota_inv l (quota_admit l est c)"
  using trunc_nonneg [of est]
  by (auto simp: quota_inv_def quota_admit_eq within_quota_def gpu_s_per_month_def)

lemma count_append: "count_jobs_for_tenant_total t (tbl @ [new_exec_job now i dec t st pl]) = Suc (count_jobs_for_tenant_total t tbl)"
  by (simp add: count_jobs_for_tenant_total_def new_exec_job_def)

section \<open>Properties\<close>

text \<open>The quota verdict is exact. For a plan whose share per job is not zero, \<open>free_quota_verdict\<close>
  answers, it approves exactly when the jobs of the month, the estimate of the job and the projected GPU
  seconds are within the plan's limits (a negative limit meaning none), the rejection predicate of the
  scheduler says the same, and over any sequence of jobs with non-negative estimates the jobs and the GPU
  seconds admitted stay within the plan.\<close>

theorem quota_verdict_exact:
  assumes "pl_gpu_per_job l \<noteq> 0" and "0 \<le> cn_jobs c"
    and "cn_jobs c0 = 0" and "cn_gpu c0 = 0" and "\<forall>e\<in>set ests. 0 \<le> e"
  shows "(\<exists>v. free_quota_verdict l c est = Inr v
      \<and> (qv_decision v = ''APPROVED'' \<longleftrightarrow>
           (0 \<le> pl_jobs l \<longrightarrow> cn_jobs c < pl_jobs l) \<and> (0 \<le> pl_gpu_per_job l \<longrightarrow> trunc est \<le> pl_gpu_per_job l)
           \<and> (0 \<le> pl_jobs l \<and> 0 \<le> pl_gpu_per_job l \<longrightarrow> cn_gpu c + trunc est \<le> pl_jobs l * pl_gpu_per_job l))
      \<and> (is_rejection (Some (qv_decision v)) (qv_category v) \<longleftrightarrow> qv_decision v \<noteq> ''APPROVED''))
    \<and> quota_inv l (fold (quota_admit l) ests c0)"
proof -
  obtain v where v: "free_quota_verdict l c est = Inr v"
    and d: "qv_decision v = (if within_quota l c (trunc est) then ''APPROVED'' else ''REJECTED'')"
    and k: "qv_category v = None \<longleftrightarrow> within_quota l c (trunc est)"
    using verdict_cases [OF assms(1,2), of est] by (elim exE conjE) (rule that)
  have "quota_inv l c0"
    using assms(3,4) by (auto simp: quota_inv_def gpu_s_per_month_def)
  then have "quota_inv l (fold (quota_admit l) ests c0)"
    using assms(5) by (induction ests arbitrary: c0) (auto intro: quota_admit_inv [OF assms(1)])
  moreover have "is_rejection (Some (qv_decision v)) (qv_category v) \<longleftrightarrow> qv_decision v \<noteq> ''APPROVED''"
    by (cases "within_quota l c (trunc est)") (use d k in \<open>simp_all add: is_rejection_verdicts\<close>)
  moreover have "qv_decision v = ''APPROVED'' \<longleftrightarrow> within_quota l c (trunc est)" by (simp add: d)
  moreover have "within_quota l c (trunc est) \<longleftrightarrow>
      (0 \<le> pl_jobs l \<longrightarrow> cn_jobs c < pl_jobs l) \<and> (0 \<le> pl_gpu_per_job l \<longrightarrow> trunc est \<le> pl_gpu_per_job l)
      \<and> (0 \<le> pl_jobs l \<and> 0 \<le> pl_gpu_per_job l \<longrightarrow> cn_gpu c + trunc est \<le> pl_jobs l * pl_gpu_per_job l)"
    unfolding within_quota_def by linarith
  ultimately show ?thesis using v by blast
qed

definition free_limits :: plan_limits where
  "free_limits = \<lparr>pl_plan = ''free'', pl_jobs = 50, pl_gpu_per_job = 3600\<rparr>"

definition no_consumption :: consumption where
  "no_consumption = \<lparr>cn_tenant = ''acme'', cn_jobs = 0, cn_gpu = 0\<rparr>"

theorem quota_verdict_exact_witness:
  "\<exists>v. free_quota_verdict free_limits no_consumption 3960 = Inr v \<and> qv_decision v \<noteq> ''APPROVED''
     \<and> is_rejection (Some (qv_decision v)) (qv_category v)"
  using quota_verdict_exact [of free_limits no_consumption no_consumption "[1800]" 3960]
  by (auto simp: free_limits_def no_consumption_def trunc_def)

definition gated_submit ::
  "plans_file \<Rightarrow> pydict option \<Rightarrow> string \<Rightarrow> rat \<times> string \<times> pydict \<Rightarrow> job_table \<Rightarrow> job_table" where
  "gated_submit f tn t s tbl =
     (case s of (now, i, pl) \<Rightarrow>
        (case gate_evaluate f tn tbl t pl of
           Inr d \<Rightarrow> if gd_result d = GateAllowed
                   then (case insert_execution_job now i None t ''queued'' pl tbl of Some (tbl', _) \<Rightarrow> tbl' | None \<Rightarrow> tbl)
                   else tbl
         | Inl _ \<Rightarrow> tbl))"

definition gate_limit :: "plans_file \<Rightarrow> pydict \<Rightarrow> int result" where
  "gate_limit f row =
     (case load_plans_view f of
        Inl x \<Rightarrow> Inl x
      | Inr plans \<Rightarrow> Inr (plan_max_jobs plans (case map_of row ''plan'' of None \<Rightarrow> PStr ''free'' | Some v \<Rightarrow> v)))"

lemma gate_allowed_iff:
  assumes "row \<noteq> []" and "gate_limit f row = Inr m"
  shows "\<exists>d. gate_evaluate f (Some row) tbl t pl = Inr d \<and> gd_limit d = m
    \<and> (gd_result d = GateAllowed \<longleftrightarrow> m < 0 \<or> int (count_jobs_for_tenant_total t tbl) < m)"
  using assms by (auto simp: gate_evaluate_def gate_limit_def Let_def split: sum.splits)

lemma count_insert:
  "insert_execution_job now i dec t st pl tbl = Some (tbl', u) \<Longrightarrow>
   count_jobs_for_tenant_total t' tbl' = count_jobs_for_tenant_total t' tbl + (if t' = t then 1 else 0)"
  by (auto simp: insert_execution_job_def count_jobs_for_tenant_total_def new_exec_job_def split: if_splits)

lemma gated_submit_count:
  assumes "row \<noteq> []" and "gate_limit f row = Inr m" and "0 \<le> m" and "int (count_jobs_for_tenant_total t tbl) \<le> m"
  shows "int (count_jobs_for_tenant_total t (gated_submit f (Some row) t s tbl)) \<le> m
    \<and> (t' \<noteq> t \<longrightarrow> count_jobs_for_tenant_total t' (gated_submit f (Some row) t s tbl) = count_jobs_for_tenant_total t' tbl)"
proof -
  obtain now i pl where s: "s = (now, i, pl)" by (cases s) auto
  obtain d where d: "gate_evaluate f (Some row) tbl t pl = Inr d"
    and a: "gd_result d = GateAllowed \<longleftrightarrow> m < 0 \<or> int (count_jobs_for_tenant_total t tbl) < m"
    using gate_allowed_iff [OF assms(1,2)] by blast
  show ?thesis
    using assms(3,4) a by (auto simp: gated_submit_def s d count_insert split: option.splits)
qed

text \<open>The gate keeps tenants within their plan. It answers with a denial for an unknown tenant, and
  otherwise admits exactly while the tenant has fewer jobs than the limit of its plan (none, if the limit is
  negative). Over any sequence of submissions that go through the gate one after the other, the tenant's
  jobs never become more than the limit, and jobs of other tenants are untouched.\<close>

theorem gated_jobs_within_plan:
  assumes "row \<noteq> []" and "gate_limit f row = Inr m"
  shows "(\<exists>d. gate_evaluate f (Some row) tbl t pl = Inr d \<and> gd_limit d = m
      \<and> (gd_result d = GateAllowed \<longleftrightarrow> m < 0 \<or> int (count_jobs_for_tenant_total t tbl) < m))
    \<and> (\<exists>d. gate_evaluate f None tbl t pl = Inr d \<and> gd_result d = GateDenied)
    \<and> (0 \<le> m \<longrightarrow> int (count_jobs_for_tenant_total t tbl) \<le> m \<longrightarrow>
         int (count_jobs_for_tenant_total t (fold (gated_submit f (Some row) t) subs tbl)) \<le> m
         \<and> (\<forall>t'. t' \<noteq> t \<longrightarrow>
              count_jobs_for_tenant_total t' (fold (gated_submit f (Some row) t) subs tbl) = count_jobs_for_tenant_total t' tbl))"
proof -
  have "0 \<le> m \<Longrightarrow> int (count_jobs_for_tenant_total t tbl) \<le> m \<Longrightarrow>
      int (count_jobs_for_tenant_total t (fold (gated_submit f (Some row) t) subs tbl)) \<le> m
      \<and> (\<forall>t'. t' \<noteq> t \<longrightarrow>
           count_jobs_for_tenant_total t' (fold (gated_submit f (Some row) t) subs tbl) = count_jobs_for_tenant_total t' tbl)"
    by (induction subs arbitrary: tbl) (simp_all add: gated_submit_count [OF assms])
  moreover have "\<exists>d. gate_evaluate f None tbl t pl = Inr d \<and> gd_result d = GateDenied"
    by (simp add: gate_evaluate_def)
  ultimately show ?thesis using gate_allowed_iff [OF assms] by blast
qed

definition demo_plans :: plans_file where
  "demo_plans = PlansJson (PDict [(''free'', PDict [(''jobs_per_month'', PInt 2), (''gpu_s_per_job'', PInt 3600)])])"

theorem gated_jobs_within_plan_witness:
  "gate_limit demo_plans [(''plan'', PStr ''free'')] = Inr 2
   \<and> count_jobs_for_tenant_total ''acme''
       (fold (gated_submit demo_plans (Some [(''plan'', PStr ''free'')]) ''acme'') [(1, ''a'', []), (2, ''b'', []), (3, ''c'', [])] []) \<le> 2"
proof -
  have l: "gate_limit demo_plans [(''plan'', PStr ''free'')] = Inr 2" by code_simp
  show ?thesis
    using gated_jobs_within_plan [OF _ l, of "[]" "''acme''" "[]" "[(1, ''a'', []), (2, ''b'', []), (3, ''c'', [])]"] l
    by (auto simp: count_jobs_for_tenant_total_def)
qed

text \<open>Without the plans file the gate still admits. When the source of plans cannot be read, its view is
  the empty dictionary, and the gate takes a built-in limit of ten jobs for every tenant, whatever its plan,
  instead of refusing.\<close>

theorem gate_admits_without_plans:
  assumes "load_plans f = Inl PlanSourceError" and "row \<noteq> []"
  shows "\<exists>d. gate_evaluate f (Some row) tbl t pl = Inr d \<and> gd_limit d = 10
    \<and> (gd_result d = GateAllowed \<longleftrightarrow> count_jobs_for_tenant_total t tbl < 10)"
proof -
  have "gate_limit f row = Inr 10"
    using assms(1) by (simp add: gate_limit_def load_plans_view_def plan_max_jobs_def Let_def split: pyval.splits)
  from gate_allowed_iff [OF assms(2) this, of tbl t pl] show ?thesis by auto
qed

theorem gate_admits_without_plans_witness:
  "\<exists>d. gate_evaluate PlansMissing (Some [(''plan'', PStr ''enterprise'')]) [] ''acme'' [] = Inr d \<and> gd_result d = GateAllowed \<and> gd_limit d = 10"
  using gate_admits_without_plans [of PlansMissing "[(''plan'', PStr ''enterprise'')]" "[]" "''acme''" "[]"]
  by (auto simp: load_plans_def count_jobs_for_tenant_total_def)

end
