(* ===== verification/Policy.thy ===== *)
theory Policy
  imports Quota
begin

text \<open>
  Policies and status transitions: \<open>src/policy_transition.py\<close>, \<open>src/tier_profiles.py\<close> and
  \<open>src/policy_engine.py\<close>.

  The context of a policy request is modelled with the types its keys have in the callers: string
  values in \<open>cx_str\<close>, numbers in \<open>cx_num\<close>; an absent context (\<open>None\<close>) is kept apart because part of
  the code reads it without the default. Of a tier profile the fields the code reads are kept. Reasons
  are the texts of the code, with an em dash written as two hyphens.

  Shown: retry and cancel agree with the transition graph, closed jobs have no way out of it, tool
  access grows from tier to tier, the quota and budget answers are exact, and which actions fail
  without a context.
\<close>

section \<open>Transitions\<close>

definition TRANSITION_GRAPH :: "(string \<times> string list) list" where
  "TRANSITION_GRAPH =
     [(''queued'', [''running'', ''cancelled'']),
      (''running'', [''completed'', ''failed'', ''cancelled'']),
      (''completed'', []),
      (''failed'', [''queued'']),
      (''cancelled'', [])]"

datatype transition_reason = TransitionOk | UnknownStatus string | TransitionDenied string string

definition validate_transition :: "string \<Rightarrow> string \<Rightarrow> bool \<times> transition_reason" where
  "validate_transition cur new =
     (case map_of TRANSITION_GRAPH cur of
        None \<Rightarrow> (False, UnknownStatus cur)
      | Some targets \<Rightarrow> if new \<in> set targets then (True, TransitionOk) else (False, TransitionDenied cur new))"

section \<open>Tiers\<close>

record tier =
  ti_max_jobs :: "int option"
  ti_max_gpu :: "int option"
  ti_max_concurrent :: "int option"
  ti_budget :: "rat option"
  ti_tools :: "string option"

definition DEFAULT_TIERS :: "(string \<times> tier) list" where
  "DEFAULT_TIERS =
     [(''start'', \<lparr>ti_max_jobs = Some 50, ti_max_gpu = Some 36000, ti_max_concurrent = Some 5,
                   ti_budget = Some 100, ti_tools = Some ''read_only''\<rparr>),
      (''pro'', \<lparr>ti_max_jobs = Some 150, ti_max_gpu = Some 180000, ti_max_concurrent = Some 20,
                 ti_budget = Some 500, ti_tools = Some ''scoped''\<rparr>),
      (''enterprise'', \<lparr>ti_max_jobs = Some (-1), ti_max_gpu = Some (-1), ti_max_concurrent = Some 100,
                        ti_budget = Some (-1), ti_tools = Some ''full''\<rparr>)]"

text \<open>\<open>load_tiers\<close>: the file if it exists and can be read, else the defaults.\<close>

definition load_tiers :: "(string \<times> tier) list option \<Rightarrow> (string \<times> tier) list" where
  "load_tiers file = (case file of Some ts \<Rightarrow> ts | None \<Rightarrow> DEFAULT_TIERS)"

definition get_tier :: "(string \<times> tier) list option \<Rightarrow> string \<Rightarrow> tier option" where
  "get_tier file name = map_of (load_tiers file) name"

section \<open>Policies\<close>

definition READ_TOOLS :: "string list" where
  "READ_TOOLS = [''list_workers'', ''list_jobs'', ''get_job_status'', ''get_usage'', ''get_daily_stats'']"

definition WRITE_TOOLS :: "string list" where
  "WRITE_TOOLS = [''submit_task'', ''cancel_job'', ''drain_worker'', ''slurm_status'', ''slurm_cancel'', ''create_checkout_session'']"

definition TIER_TOOL_ACCESS :: "(string \<times> string list) list" where
  "TIER_TOOL_ACCESS =
     [(''none'', []), (''read_only'', READ_TOOLS), (''scoped'', READ_TOOLS @ [''submit_task'', ''get_job_status'']),
      (''full'', READ_TOOLS @ WRITE_TOOLS)]"

record policy_ctx =
  cx_str :: "(string \<times> string) list"
  cx_num :: "(string \<times> rat) list"

definition no_ctx :: policy_ctx where
  "no_ctx = \<lparr>cx_str = [], cx_num = []\<rparr>"

definition sget :: "policy_ctx \<Rightarrow> string \<Rightarrow> string \<Rightarrow> string" where
  "sget c k d = (case map_of (cx_str c) k of None \<Rightarrow> d | Some v \<Rightarrow> v)"

definition nget :: "policy_ctx \<Rightarrow> string \<Rightarrow> rat \<Rightarrow> rat" where
  "nget c k d = (case map_of (cx_num c) k of None \<Rightarrow> d | Some v \<Rightarrow> v)"

record policy =
  po_allowed :: bool
  po_reason :: string
  po_name :: string

definition denied :: "string \<Rightarrow> string \<Rightarrow> policy result" where
  "denied r n = Inr \<lparr>po_allowed = False, po_reason = r, po_name = n\<rparr>"

definition allowed :: "string \<Rightarrow> string \<Rightarrow> policy result" where
  "allowed r n = Inr \<lparr>po_allowed = True, po_reason = r, po_name = n\<rparr>"

definition opt_or :: "'a option \<Rightarrow> 'a \<Rightarrow> 'a" where
  "opt_or v d = (case v of None \<Rightarrow> d | Some x \<Rightarrow> x)"

definition tool_policy :: "tier \<Rightarrow> policy_ctx \<Rightarrow> policy result" where
  "tool_policy ti cx =
     (let tool = sget cx ''tool_name'' [];
          tools = opt_or (map_of TIER_TOOL_ACCESS (opt_or (ti_tools ti) ''read_only'')) READ_TOOLS;
          budget = opt_or (ti_budget ti) 100
      in if tool \<notin> set tools then denied (''tool_not_allowed: '' @ tool) ''tool_policy''
         else if budget > 0 \<and> nget cx ''estimated_cost'' (1 / 100) > budget then denied ''cost_over_budget'' ''tool_policy''
         else allowed ''read tool allowed'' ''tool_policy'')"

definition quota_policy :: "nat \<Rightarrow> tier \<Rightarrow> policy_ctx \<Rightarrow> policy result" where
  "quota_policy jobs ti cx =
     (let max_jobs = opt_or (ti_max_jobs ti) 50; budget = opt_or (ti_budget ti) 100
      in if max_jobs > 0 \<and> int jobs \<ge> max_jobs then denied ''quota_exceeded'' ''quota_policy''
         else if budget > 0 \<and> nget cx ''estimated_cost'' (1 / 100) > budget then denied ''cost_over_budget'' ''budget_policy''
         else allowed ''within limits'' ''quota_policy'')"

definition retry_policy :: "policy_ctx \<Rightarrow> policy result" where
  "retry_policy cx =
     (if sget cx ''job_status'' [] \<noteq> ''failed'' then denied ''transition_denied: retry only from failed'' ''transition_policy''
      else allowed ''retry allowed'' ''transition_policy'')"

definition cancel_policy :: "policy_ctx \<Rightarrow> policy result" where
  "cancel_policy cx =
     (let st = sget cx ''job_status'' []
      in if st \<in> {''completed'', ''failed'', ''cancelled''} then denied (''transition_denied: cannot cancel '' @ st) ''transition_policy''
         else allowed ''cancel allowed'' ''transition_policy'')"

definition invoice_policy :: "policy_ctx \<Rightarrow> policy result" where
  "invoice_policy cx =
     (let network = sget cx ''network'' [];
          tn = sget cx ''tier'' ''start'';
          max_invoices = (if tn = ''pro'' then 20 else if tn = ''enterprise'' then 100 else 5 :: nat)
      in if network \<notin> {''USDT_TRC20'', ''USDT_ERC20'', ''USDC'', ''BTC'', ''TON'', ''SOL''}
         then denied (''Unsupported network: '' @ network) ''crypto_network_guard''
         else if nget cx ''invoice_count_this_month'' 0 \<ge> of_nat max_invoices
         then denied (''Crypto invoice quota ('' @ nat_str max_invoices @ ''/mo) exceeded'') ''crypto_quota''
         else allowed ''Crypto invoice creation allowed'' ''crypto_quota'')"

definition activate_policy :: "policy_ctx \<Rightarrow> policy result" where
  "activate_policy cx =
     (if map_of (cx_str cx) ''payment_status'' \<noteq> Some ''confirmed'' then denied ''Payment not confirmed'' ''crypto_payment_guard''
      else if map_of (cx_str cx) ''invoice_status'' \<noteq> Some ''paid'' then denied ''Invoice not paid'' ''crypto_invoice_guard''
      else allowed ''Tier activation allowed'' ''crypto_tier_activation'')"

definition webhook_policy :: "policy_ctx \<Rightarrow> policy result" where
  "webhook_policy cx =
     (let provider = sget cx ''provider'' []
      in if provider \<notin> {''nowpayments'', ''btcpay''} then denied (''Unknown webhook provider: '' @ provider) ''crypto_webhook_provider''
         else allowed ''Crypto webhook processing allowed'' ''crypto_webhook'')"

definition wallet_policy :: "policy_ctx \<Rightarrow> policy result" where
  "wallet_policy cx =
     (let wt = sget cx ''wallet_type'' []
      in if wt \<notin> {''provider'', ''self_hosted'', ''hardware'', ''monero''}
         then denied (''Unsupported wallet type: '' @ wt) ''crypto_wallet_type_guard''
         else if wt = ''monero'' \<and> map_of (cx_str cx) ''mode'' = Some ''hot''
         then denied ''Monero HOT mode not allowed -- view_only only'' ''crypto_monero_privacy''
         else if nget cx ''wallets_count'' 0 \<ge> 10 then denied ''Max 10 wallets per tenant'' ''crypto_wallet_limit''
         else allowed ''Wallet creation allowed'' ''crypto_wallet_create'')"

definition address_policy :: "policy_ctx \<Rightarrow> policy result" where
  "address_policy cx =
     (if map_of (cx_str cx) ''wallet_status'' = Some ''compromised''
      then denied ''Wallet is compromised -- rotate first'' ''crypto_wallet_security''
      else allowed ''Address generation allowed'' ''crypto_wallet_address'')"

definition subaddress_policy :: "policy_ctx \<Rightarrow> policy result" where
  "subaddress_policy cx =
     (if map_of (cx_str cx) ''wallet_type'' \<noteq> Some ''monero''
      then denied ''Monero subaddress requires Monero wallet'' ''crypto_monero_type_guard''
      else if map_of (cx_str cx) ''wallet_mode'' \<noteq> Some ''view_only''
      then denied ''Monero subaddress requires view_only mode'' ''crypto_monero_privacy''
      else allowed ''Monero subaddress creation allowed'' ''crypto_monero_subaddress'')"

definition rotate_policy :: "policy_ctx \<Rightarrow> policy result" where
  "rotate_policy cx =
     (if map_of (cx_str cx) ''wallet_status'' = Some ''rotating'' then denied ''Wallet already rotating'' ''crypto_wallet_busy''
      else allowed ''Wallet rotation allowed'' ''crypto_wallet_rotate'')"

definition has_prefix :: "string \<Rightarrow> string \<Rightarrow> bool" where
  "has_prefix p s = (take (length p) s = p)"

text \<open>The branches after \<open>job.cancel\<close> read the context without the default of an empty one.\<close>

definition need_ctx :: "policy_ctx option \<Rightarrow> (policy_ctx \<Rightarrow> policy result) \<Rightarrow> policy result" where
  "need_ctx ctx p = (case ctx of None \<Rightarrow> Inl AttributeError | Some cx \<Rightarrow> p cx)"

text \<open>\<open>tn\<close> is the tenant's row, \<open>jobs\<close> the number of its jobs in the table.\<close>

definition evaluate_policies ::
  "(string \<times> tier) list option \<Rightarrow> pydict option \<Rightarrow> nat \<Rightarrow> string \<Rightarrow> policy_ctx option \<Rightarrow> policy result" where
  "evaluate_policies file tn jobs action ctx =
     (let cx = opt_or ctx no_ctx
      in if (case tn of None \<Rightarrow> True | Some row \<Rightarrow> row = []) then denied ''tenant_not_found'' ''default''
         else let name = (case map_of (the tn) ''tier'' of Some (PStr s) \<Rightarrow> s | Some _ \<Rightarrow> [] | None \<Rightarrow> ''start'');
                  ti = opt_or (map_of (load_tiers file) name) (the (map_of DEFAULT_TIERS ''start''))
              in if action = ''tool.call'' then tool_policy ti cx
                 else if action \<in> {''job.submit'', ''decision.create'', ''decision.evaluate''} then quota_policy jobs ti cx
                 else if action = ''job.retry'' then retry_policy cx
                 else if action = ''job.cancel'' then cancel_policy cx
                 else if has_prefix ''tool_call'' action
                 then need_ctx ctx (\<lambda>c. if sget c ''tenant_key'' [] = [] then denied ''AI tool call without tenant key'' ''default''
                                       else allowed ''default policy passed'' ''default'')
                 else if action = ''crypto_create_invoice'' then need_ctx ctx invoice_policy
                 else if action = ''crypto_tier_activate'' then need_ctx ctx activate_policy
                 else if has_prefix ''crypto_webhook:'' action then need_ctx ctx webhook_policy
                 else if action = ''crypto:wallet:create'' then need_ctx ctx wallet_policy
                 else if action = ''crypto:wallet:generate_address'' then need_ctx ctx address_policy
                 else if action = ''crypto:wallet:generate_monero_subaddress'' then need_ctx ctx subaddress_policy
                 else if action = ''crypto:wallet:rotate'' then need_ctx ctx rotate_policy
                 else allowed ''default policy passed'' ''default'')"


section \<open>Facts\<close>

definition is_allowed :: "policy result \<Rightarrow> bool" where
  "is_allowed r = (case r of Inr p \<Rightarrow> po_allowed p | Inl _ \<Rightarrow> False)"

lemma is_allowed_simps [simp]: "is_allowed (denied r n) = False" "is_allowed (allowed r n) = True" "is_allowed (Inl x) = False"
  by (simp_all add: is_allowed_def denied_def allowed_def)

definition status_ctx :: "string \<Rightarrow> policy_ctx" where
  "status_ctx st = \<lparr>cx_str = [(''job_status'', st)], cx_num = []\<rparr>"

lemma sget_status [simp]: "sget (status_ctx st) ''job_status'' d = st"
  by (simp add: sget_def status_ctx_def)

lemma evaluate_transitions:
  assumes "row \<noteq> []"
  shows "evaluate_policies file (Some row) jobs ''job.retry'' (Some cx) = retry_policy cx"
    and "evaluate_policies file (Some row) jobs ''job.cancel'' (Some cx) = cancel_policy cx"
  using assms by (simp_all add: evaluate_policies_def Let_def opt_or_def)

abbreviation follows :: "string \<Rightarrow> string \<Rightarrow> bool" where
  "follows a b \<equiv> fst (validate_transition a b)"

lemma follows_iff: "follows a b \<longleftrightarrow> (\<exists>ts. map_of TRANSITION_GRAPH a = Some ts \<and> b \<in> set ts)"
  by (auto simp: validate_transition_def split: option.splits)

lemma follows_simps [status_simps]:
  "follows ''queued'' b \<longleftrightarrow> b = ''running'' \<or> b = ''cancelled''"
  "follows ''running'' b \<longleftrightarrow> b = ''completed'' \<or> b = ''failed'' \<or> b = ''cancelled''"
  "follows ''completed'' b \<longleftrightarrow> False"
  "follows ''failed'' b \<longleftrightarrow> b = ''queued''"
  "follows ''cancelled'' b \<longleftrightarrow> False"
  "a \<notin> {''queued'', ''running'', ''completed'', ''failed'', ''cancelled''} \<Longrightarrow> follows a b \<longleftrightarrow> False"
  by (simp_all add: follows_iff TRANSITION_GRAPH_def)

lemma follows_closed:
  assumes "\<And>b. \<not> follows a b" and "follows\<^sup>*\<^sup>* a x"
  shows "x = a"
  using assms(2) by (rule converse_rtranclpE) (use assms(1) in auto)

definition tier_row :: "string \<Rightarrow> pydict" where
  "tier_row n = [(''tier'', PStr n)]"

lemma default_tiers [simp]:
  "map_of DEFAULT_TIERS ''start'' = Some \<lparr>ti_max_jobs = Some 50, ti_max_gpu = Some 36000, ti_max_concurrent = Some 5,
     ti_budget = Some 100, ti_tools = Some ''read_only''\<rparr>"
  "map_of DEFAULT_TIERS ''pro'' = Some \<lparr>ti_max_jobs = Some 150, ti_max_gpu = Some 180000, ti_max_concurrent = Some 20,
     ti_budget = Some 500, ti_tools = Some ''scoped''\<rparr>"
  "map_of DEFAULT_TIERS ''enterprise'' = Some \<lparr>ti_max_jobs = Some (-1), ti_max_gpu = Some (-1), ti_max_concurrent = Some 100,
     ti_budget = Some (-1), ti_tools = Some ''full''\<rparr>"
  by (simp_all add: DEFAULT_TIERS_def)

lemma tool_upgrade:
  "is_allowed (tool_policy (the (map_of DEFAULT_TIERS ''start'')) cx) \<Longrightarrow> is_allowed (tool_policy (the (map_of DEFAULT_TIERS ''pro'')) cx)"
  "is_allowed (tool_policy (the (map_of DEFAULT_TIERS ''pro'')) cx) \<Longrightarrow> is_allowed (tool_policy (the (map_of DEFAULT_TIERS ''enterprise'')) cx)"
  by (auto simp: tool_policy_def Let_def opt_or_def TIER_TOOL_ACCESS_def READ_TOOLS_def WRITE_TOOLS_def split: if_splits)

lemma quota_upgrade:
  "is_allowed (quota_policy jobs (the (map_of DEFAULT_TIERS ''start'')) cx) \<Longrightarrow> is_allowed (quota_policy jobs (the (map_of DEFAULT_TIERS ''pro'')) cx)"
  "is_allowed (quota_policy jobs (the (map_of DEFAULT_TIERS ''pro'')) cx) \<Longrightarrow> is_allowed (quota_policy jobs (the (map_of DEFAULT_TIERS ''enterprise'')) cx)"
  by (auto simp: quota_policy_def Let_def opt_or_def split: if_splits)

lemma evaluate_tier_row:
  assumes "map_of DEFAULT_TIERS n = Some ti"
  shows "evaluate_policies None (Some (tier_row n)) jobs action ctx =
    (if action = ''tool.call'' then tool_policy ti (opt_or ctx no_ctx)
     else if action \<in> {''job.submit'', ''decision.create'', ''decision.evaluate''} then quota_policy jobs ti (opt_or ctx no_ctx)
     else evaluate_policies None (Some (tier_row ''start'')) jobs action ctx)"
  using assms by (simp add: evaluate_policies_def tier_row_def load_tiers_def opt_or_def Let_def)

section \<open>Properties\<close>

text \<open>Policy and transition graph agree. For a known tenant, the retry policy allows exactly the jobs that the
  graph lets back into the queue, and for every status of the graph the cancel policy allows exactly those it
  lets be cancelled. Nothing leads out of completed and cancelled, so a job that reached one of them is never
  moved again by transitions the graph allows, and a failed job comes back only through the queue.\<close>

theorem policies_follow_the_graph:
  assumes "row \<noteq> []"
  shows "(is_allowed (evaluate_policies file (Some row) jobs ''job.retry'' (Some (status_ctx st))) \<longleftrightarrow>
            fst (validate_transition st ''queued''))
    \<and> (st \<in> fst ` set TRANSITION_GRAPH \<longrightarrow>
         (is_allowed (evaluate_policies file (Some row) jobs ''job.cancel'' (Some (status_ctx st))) \<longleftrightarrow>
            fst (validate_transition st ''cancelled'')))
    \<and> (st \<in> {''completed'', ''cancelled''} \<longrightarrow> (\<lambda>a b. fst (validate_transition a b))\<^sup>*\<^sup>* st x \<longrightarrow> x = st)
    \<and> (fst (validate_transition ''failed'' x) \<longrightarrow> x = ''queued'')"
proof (intro conjI impI)
  show "is_allowed (evaluate_policies file (Some row) jobs ''job.retry'' (Some (status_ctx st))) \<longleftrightarrow>
      fst (validate_transition st ''queued'')"
    by (auto simp: evaluate_transitions [OF assms] retry_policy_def follows_iff TRANSITION_GRAPH_def split: if_splits)
  show "is_allowed (evaluate_policies file (Some row) jobs ''job.cancel'' (Some (status_ctx st))) \<longleftrightarrow>
      fst (validate_transition st ''cancelled'')" if "st \<in> fst ` set TRANSITION_GRAPH"
    using that by (auto simp: evaluate_transitions [OF assms] cancel_policy_def follows_iff TRANSITION_GRAPH_def Let_def)
  show "x = st" if "st \<in> {''completed'', ''cancelled''}" "(\<lambda>a b. fst (validate_transition a b))\<^sup>*\<^sup>* st x"
    using that by (intro follows_closed [of st x]) (auto simp: status_simps)
  show "x = ''queued''" if "fst (validate_transition ''failed'' x)"
    using that by (simp add: status_simps)
qed

theorem policies_follow_the_graph_witness:
  "is_allowed (evaluate_policies None (Some [(''plan'', PStr ''free'')]) 0 ''job.retry'' (Some (status_ctx ''failed'')))
   \<and> fst (validate_transition ''failed'' ''queued'')"
  using policies_follow_the_graph [of "[(''plan'', PStr ''free'')]" None 0 "''failed''" "''queued''"]
  by (simp add: status_simps)

text \<open>An upgrade never takes a permission away. With the default tiers, whatever a tenant of the tier
  \<open>start\<close> may do with some number of jobs and some context it may do as \<open>pro\<close>, and what it may do as \<open>pro\<close> it may
  do as \<open>enterprise\<close>; a tool of the enterprise tier is never refused for its cost.\<close>

theorem upgrade_keeps_permissions:
  "(is_allowed (evaluate_policies None (Some (tier_row ''start'')) jobs action ctx) \<longrightarrow>
      is_allowed (evaluate_policies None (Some (tier_row ''pro'')) jobs action ctx))
   \<and> (is_allowed (evaluate_policies None (Some (tier_row ''pro'')) jobs action ctx) \<longrightarrow>
      is_allowed (evaluate_policies None (Some (tier_row ''enterprise'')) jobs action ctx))
   \<and> (tool \<in> set (READ_TOOLS @ WRITE_TOOLS) \<longrightarrow>
      is_allowed (evaluate_policies None (Some (tier_row ''enterprise'')) jobs ''tool.call''
        (Some \<lparr>cx_str = [(''tool_name'', tool)], cx_num = [(''estimated_cost'', c)]\<rparr>)))"
proof (intro conjI impI)
  have start: "evaluate_policies None (Some (tier_row ''start'')) jobs action ctx =
      (if action = ''tool.call'' then tool_policy (the (map_of DEFAULT_TIERS ''start'')) (opt_or ctx no_ctx)
       else if action \<in> {''job.submit'', ''decision.create'', ''decision.evaluate''}
       then quota_policy jobs (the (map_of DEFAULT_TIERS ''start'')) (opt_or ctx no_ctx)
       else evaluate_policies None (Some (tier_row ''start'')) jobs action ctx)"
    by (subst evaluate_tier_row [OF default_tiers(1)]) simp
  show "is_allowed (evaluate_policies None (Some (tier_row ''pro'')) jobs action ctx)"
    if "is_allowed (evaluate_policies None (Some (tier_row ''start'')) jobs action ctx)"
    using that start tool_upgrade(1) [of "opt_or ctx no_ctx"] quota_upgrade(1) [of jobs "opt_or ctx no_ctx"]
    by (auto simp: evaluate_tier_row [OF default_tiers(2)] split: if_splits)
  show "is_allowed (evaluate_policies None (Some (tier_row ''enterprise'')) jobs action ctx)"
    if "is_allowed (evaluate_policies None (Some (tier_row ''pro'')) jobs action ctx)"
    using that tool_upgrade(2) [of "opt_or ctx no_ctx"] quota_upgrade(2) [of jobs "opt_or ctx no_ctx"]
    by (auto simp: evaluate_tier_row [OF default_tiers(2)] evaluate_tier_row [OF default_tiers(3)] split: if_splits)
  show "is_allowed (evaluate_policies None (Some (tier_row ''enterprise'')) jobs ''tool.call''
        (Some \<lparr>cx_str = [(''tool_name'', tool)], cx_num = [(''estimated_cost'', c)]\<rparr>))"
    if "tool \<in> set (READ_TOOLS @ WRITE_TOOLS)"
    using that by (auto simp: evaluate_tier_row [OF default_tiers(3)] tool_policy_def sget_def opt_or_def TIER_TOOL_ACCESS_def Let_def)
qed

theorem upgrade_keeps_permissions_witness:
  "is_allowed (evaluate_policies None (Some (tier_row ''start'')) 49 ''job.submit'' None)
   \<and> is_allowed (evaluate_policies None (Some (tier_row ''pro'')) 49 ''job.submit'' None)"
proof -
  have s: "is_allowed (evaluate_policies None (Some (tier_row ''start'')) 49 ''job.submit'' None)"
    by (simp add: evaluate_tier_row [OF default_tiers(1)] quota_policy_def opt_or_def nget_def no_ctx_def)
  with upgrade_keeps_permissions [of 49 "''job.submit''" None] show ?thesis by blast
qed

text \<open>Some policies need a context. An action after \<open>job.cancel\<close> in the code, asked without a context, fails
  with an attribute error instead of an answer, although the parameter is optional and the actions before
  take an absent context as the empty one; with an empty context it is answered.\<close>

theorem policies_without_context_fail:
  assumes "row \<noteq> []"
    and "action \<in> {''crypto_create_invoice'', ''crypto_tier_activate'', ''crypto:wallet:create'', ''crypto:wallet:generate_address'',
           ''crypto:wallet:generate_monero_subaddress'', ''crypto:wallet:rotate''}"
  shows "evaluate_policies file (Some row) jobs action None = Inl AttributeError
    \<and> (\<exists>p. evaluate_policies file (Some row) jobs action (Some no_ctx) = Inr p)
    \<and> (\<exists>p. evaluate_policies file (Some row) jobs ''job.cancel'' None = Inr p)"
proof -
  have ctx: "evaluate_policies file (Some row) jobs action c =
      need_ctx c (the (map_of [(''crypto_create_invoice'', invoice_policy), (''crypto_tier_activate'', activate_policy),
        (''crypto:wallet:create'', wallet_policy), (''crypto:wallet:generate_address'', address_policy),
        (''crypto:wallet:generate_monero_subaddress'', subaddress_policy), (''crypto:wallet:rotate'', rotate_policy)] action))" for c
    using assms(2) by (elim insertE emptyE) (simp_all add: evaluate_policies_def Let_def has_prefix_def assms(1))
  have "\<exists>p. evaluate_policies file (Some row) jobs action (Some no_ctx) = Inr p"
    unfolding ctx using assms(2)
    by (elim insertE emptyE) (simp_all add: need_ctx_def invoice_policy_def activate_policy_def wallet_policy_def
        address_policy_def subaddress_policy_def rotate_policy_def denied_def allowed_def sget_def no_ctx_def)
  moreover have "\<exists>p. evaluate_policies file (Some row) jobs ''job.cancel'' None = Inr p"
    by (simp add: evaluate_policies_def assms(1) cancel_policy_def opt_or_def sget_def no_ctx_def allowed_def)
  ultimately show ?thesis by (simp add: ctx need_ctx_def)
qed

theorem policies_without_context_fail_witness:
  "evaluate_policies None (Some (tier_row ''pro'')) 0 ''crypto:wallet:rotate'' None = Inl AttributeError"
  using policies_without_context_fail [of "tier_row ''pro''" "''crypto:wallet:rotate''" None 0] by (simp add: tier_row_def)

end
