(* ===== verification/AuditLedger.thy ===== *)
theory AuditLedger
  imports Prelude "HOL-Library.Sublist"
begin

text \<open>
  The audit ledger: the table \<open>audit_events\<close> and its statements in \<open>src/db_adapter.py\<close>, and the writers of
  \<open>src/audit/event_store.py\<close>. Both databases have the same partial unique index over tenant, event type and
  entity for entities other than \<open>unknown\<close>, and the same insert that does nothing on a conflict with it; a
  second use of an event id is a constraint error.

  Shown: the table only grows, keyed facts are stored once whatever fails, unkeyed ones are never merged; and
  that the plain writer, too, drops a second event of the same kind for an entity.
\<close>

section \<open>The table\<close>

record audit_event =
  ae_id :: string
  ae_tenant :: string
  ae_type :: string
  ae_entity_type :: string
  ae_entity :: string
  ae_data :: pydict

definition same_fact :: "string \<Rightarrow> string \<Rightarrow> string \<Rightarrow> audit_event \<Rightarrow> bool" where
  "same_fact t ty en e = (ae_tenant e = t \<and> ae_type e = ty \<and> ae_entity e = en)"

definition keyed :: "string \<Rightarrow> bool" where
  "keyed en = (en \<noteq> ''unknown'')"

datatype audit_answer = Written string | Skipped

definition insert_audit_event ::
  "string \<Rightarrow> string \<Rightarrow> string \<Rightarrow> string \<Rightarrow> string \<Rightarrow> pydict \<Rightarrow> (audit_event list, audit_answer) stmt" where
  "insert_audit_event eid t ty ety en dat rs =
     (if keyed en \<and> (\<exists>e\<in>set rs. same_fact t ty en e) then Some (rs, Skipped)
      else if eid \<in> ae_id ` set rs then None
      else Some (rs @ [\<lparr>ae_id = eid, ae_tenant = t, ae_type = ty, ae_entity_type = ety, ae_entity = en, ae_data = dat\<rparr>],
                 Written eid))"

definition audit_event_exists :: "string \<Rightarrow> string \<Rightarrow> string \<Rightarrow> (audit_event list, bool) stmt" where
  "audit_event_exists t ty en rs = Some (rs, \<exists>e\<in>set rs. same_fact t ty en e)"

section \<open>Writers\<close>

text \<open>\<open>eid\<close> is the fresh uuid, the outcomes are those of the round trips.\<close>

definition write_event ::
  "pg_outcome \<Rightarrow> string \<Rightarrow> string \<Rightarrow> string \<Rightarrow> string \<Rightarrow> string \<Rightarrow> pydict \<Rightarrow> audit_event list
     \<Rightarrow> audit_event list \<times> audit_answer result" where
  "write_event oc eid t ty ety en dat rs = pg_run oc (insert_audit_event eid t ty ety en dat) rs"

definition event_exists :: "pg_outcome \<Rightarrow> string \<Rightarrow> string \<Rightarrow> string \<Rightarrow> audit_event list \<Rightarrow> bool result" where
  "event_exists oc t ty en rs = snd (pg_run oc (audit_event_exists t ty en) rs)"

definition write_event_once ::
  "pg_outcome \<Rightarrow> pg_outcome \<Rightarrow> bool \<Rightarrow> string \<Rightarrow> string \<Rightarrow> string \<Rightarrow> string \<Rightarrow> string \<Rightarrow> pydict \<Rightarrow> audit_event list
     \<Rightarrow> audit_event list \<times> audit_answer result" where
  "write_event_once o1 o2 dedupe eid t ty ety en dat rs =
     (if \<not> dedupe then write_event o2 eid t ty ety en dat rs
      else case event_exists o1 t ty en rs of
             Inl x \<Rightarrow> (rs, Inl x)
           | Inr True \<Rightarrow> (rs, Inr Skipped)
           | Inr False \<Rightarrow> write_event o2 eid t ty ety en dat rs)"

definition on_job_created :: "pg_outcome \<Rightarrow> string \<Rightarrow> string \<Rightarrow> string \<Rightarrow> string \<Rightarrow> audit_event list \<Rightarrow> audit_event list \<times> audit_answer result" where
  "on_job_created oc eid t job dec rs = write_event oc eid t ''job.created'' ''job'' job [(''decision_id'', PStr dec)] rs"

definition on_decision_allowed ::
  "pg_outcome \<Rightarrow> string \<Rightarrow> string \<Rightarrow> string \<Rightarrow> string \<Rightarrow> int \<Rightarrow> rat \<Rightarrow> audit_event list \<Rightarrow> audit_event list \<times> audit_answer result" where
  "on_decision_allowed oc eid t dec req quota cost rs =
     write_event oc eid t ''decision.allowed'' ''decision'' dec
       [(''request_id'', PStr req), (''quota_remaining'', PInt quota), (''estimated_cost'', PFloat (Fin cost))] rs"

definition on_decision_denied ::
  "pg_outcome \<Rightarrow> string \<Rightarrow> string \<Rightarrow> string \<Rightarrow> string \<Rightarrow> string \<Rightarrow> audit_event list \<Rightarrow> audit_event list \<times> audit_answer result" where
  "on_decision_denied oc eid t dec req reason rs =
     write_event oc eid t ''decision.denied'' ''decision'' dec [(''request_id'', PStr req), (''reason'', PStr reason)] rs"

section \<open>Invariant\<close>

inductive audit_step :: "audit_event list \<Rightarrow> audit_event list \<Rightarrow> bool" where
  step_write: "write_event oc eid t ty ety en dat rs = (rs', r) \<Longrightarrow> audit_step rs rs'"
| step_once: "write_event_once o1 o2 dd eid t ty ety en dat rs = (rs', r) \<Longrightarrow> audit_step rs rs'"

interpretation aud: transition_system "\<lambda>rs. rs = []" audit_step .

definition audit_inv :: "audit_event list \<Rightarrow> bool" where
  "audit_inv rs \<longleftrightarrow> distinct (map ae_id rs)
     \<and> (\<forall>t ty en. keyed en \<longrightarrow> length (filter (same_fact t ty en) rs) \<le> 1)"

lemma insert_cases:
  "insert_audit_event eid t ty ety en dat rs = Some (rs', a) \<Longrightarrow>
     a = Skipped \<and> rs' = rs \<and> (\<exists>e\<in>set rs. same_fact t ty en e)
     \<or> a = Written eid \<and> rs' = rs @ [\<lparr>ae_id = eid, ae_tenant = t, ae_type = ty, ae_entity_type = ety, ae_entity = en, ae_data = dat\<rparr>]
       \<and> eid \<notin> ae_id ` set rs \<and> (keyed en \<longrightarrow> \<not> (\<exists>e\<in>set rs. same_fact t ty en e))"
  by (auto simp: insert_audit_event_def split: if_splits)

lemma insert_inv:
  assumes "insert_audit_event eid t ty ety en dat rs = Some (rs', a)" and "audit_inv rs"
  shows "audit_inv rs' \<and> prefix rs rs'"
  using insert_cases [OF assms(1)]
proof (elim disjE conjE)
  assume new: "rs' = rs @ [\<lparr>ae_id = eid, ae_tenant = t, ae_type = ty, ae_entity_type = ety, ae_entity = en, ae_data = dat\<rparr>]"
    and id: "eid \<notin> ae_id ` set rs" and free: "keyed en \<longrightarrow> \<not> (\<exists>e\<in>set rs. same_fact t ty en e)"
  have "length (filter (same_fact t' ty' en') rs') \<le> 1" if k: "keyed en'" for t' ty' en'
  proof (cases "t' = t \<and> ty' = ty \<and> en' = en")
    case True
    with free k have "filter (same_fact t' ty' en') rs = []" by (auto simp: filter_empty_conv)
    with True show ?thesis by (simp add: new same_fact_def)
  next
    case False
    then have "filter (same_fact t' ty' en') rs' = filter (same_fact t' ty' en') rs"
      by (auto simp: new same_fact_def)
    with assms(2) k show ?thesis by (simp add: audit_inv_def)
  qed
  moreover have "distinct (map ae_id rs')" using assms(2) id by (simp add: new audit_inv_def)
  ultimately show ?thesis by (simp add: audit_inv_def new)
qed (use assms(2) in simp)

lemma write_event_inv: "audit_inv rs \<Longrightarrow> audit_inv (fst (write_event oc eid t ty ety en dat rs)) \<and> prefix rs (fst (write_event oc eid t ty ety en dat rs))"
  unfolding write_event_def
  by (rule pg_run_preserves [where P = "\<lambda>r. audit_inv r \<and> prefix rs r"]) (auto dest: insert_inv)

lemma write_event_once_fst:
  "fst (write_event_once o1 o2 dd eid t ty ety en dat rs) = rs
   \<or> fst (write_event_once o1 o2 dd eid t ty ety en dat rs) = fst (write_event o2 eid t ty ety en dat rs)"
  by (auto simp: write_event_once_def split: sum.splits bool.splits)

lemma audit_step_inv: "audit_inv rs \<Longrightarrow> audit_step rs rs' \<Longrightarrow> audit_inv rs' \<and> prefix rs rs'"
proof (erule audit_step.cases)
  fix oc eid t ty ety en dat rsa rs'' r
  assume "audit_inv rs" "rs = rsa" "rs' = rs''" "write_event oc eid t ty ety en dat rsa = (rs'', r)"
  with write_event_inv [of rs oc eid t ty ety en dat] show ?thesis by simp
next
  fix o1 o2 dd eid t ty ety en dat rsa rs'' r
  assume a: "audit_inv rs" "rs = rsa" "rs' = rs''" "write_event_once o1 o2 dd eid t ty ety en dat rsa = (rs'', r)"
  with write_event_inv [OF a(1), of o2 eid t ty ety en dat] write_event_once_fst [of o1 o2 dd eid t ty ety en dat rs]
  show ?thesis by auto
qed

lemma path_prefix:
  assumes "audit_inv rs" and "aud.path rs rs'"
  shows "audit_inv rs' \<and> prefix rs rs'"
  using assms(2,1)
proof (induction rule: aud.path.induct)
  case (path_step s u v)
  then have "audit_inv u" "prefix s u" by auto
  with audit_step_inv [OF _ path_step.hyps(2)] show ?case using prefix_order.trans by blast
qed simp

lemma write_once_ok:
  "keyed en \<Longrightarrow> eid \<notin> ae_id ` set rs \<Longrightarrow> write_event_once PgOk PgOk True eid t ty ety en dat rs = (rs', r) \<Longrightarrow>
   \<exists>e\<in>set rs'. same_fact t ty en e"
  by (cases "\<exists>e\<in>set rs. same_fact t ty en e")
    (auto simp: write_event_once_def event_exists_def audit_event_exists_def write_event_def insert_audit_event_def,
     auto simp: same_fact_def)

section \<open>Properties\<close>

text \<open>The audit ledger is append-only and keeps each keyed fact once. From every reachable table, whatever writers
  do and whatever fails, the later table extends the earlier one; event ids are unique; there is at most one event
  per tenant, type and entity (other than \<open>unknown\<close>); and a \<open>write_event_once\<close> that works leaves exactly one.\<close>

theorem audit_ledger_append_only:
  assumes "aud.reach rs" and "aud.path rs rs'" and "keyed en"
  shows "prefix rs rs' \<and> distinct (map ae_id rs') \<and> length (filter (same_fact t ty en) rs') \<le> 1
    \<and> (eid \<notin> ae_id ` set rs' \<longrightarrow> write_event_once PgOk PgOk True eid t ty ety en dat rs' = (rs'', r) \<longrightarrow>
         length (filter (same_fact t ty en) rs'') = 1)"
proof -
  have i: "audit_inv rs"
    by (rule aud.invariant_reach [where I = audit_inv, OF _ _ assms(1)]) (simp add: audit_inv_def, blast dest: audit_step_inv)
  from path_prefix [OF i assms(2)] have i': "audit_inv rs'" and p: "prefix rs rs'" by auto
  have "length (filter (same_fact t ty en) rs'') = 1"
    if "eid \<notin> ae_id ` set rs'" and w: "write_event_once PgOk PgOk True eid t ty ety en dat rs' = (rs'', r)"
  proof -
    from write_once_ok [OF assms(3) that] have "filter (same_fact t ty en) rs'' \<noteq> []" by (auto simp: filter_empty_conv)
    moreover have "audit_inv rs''" using audit_step_inv [OF i' audit_step.step_once [OF w]] by simp
    ultimately show ?thesis using assms(3) by (auto simp: audit_inv_def le_Suc_eq)
  qed
  with i' p assms(3) show ?thesis by (auto simp: audit_inv_def)
qed

theorem audit_ledger_append_only_witness:
  "\<exists>rs r. write_event_once PgOk PgOk True ''e1'' ''acme'' ''job.user_confirmed'' ''job'' ''j1'' [] [] = (rs, r)
     \<and> length (filter (same_fact ''acme'' ''job.user_confirmed'' ''j1'') rs) = 1"
proof -
  obtain rs r where w: "write_event_once PgOk PgOk True ''e1'' ''acme'' ''job.user_confirmed'' ''job'' ''j1'' [] [] = (rs, r)" by force
  have "aud.reach []" by (rule aud.reach_init) simp
  from audit_ledger_append_only [OF this aud.path_refl, of "''j1''" "''acme''" "''job.user_confirmed''" "''e1''" "''job''" "[]" rs r] w
  show ?thesis by (auto simp: keyed_def)
qed

text \<open>The plain writer drops repeated events too. Once an event of some type exists for an entity, a further
  \<open>write_event\<close> of that type for it stores nothing, whatever its data, and reports success as skipped: a second
  retry or a second denial of the same job leaves no trace. For the entity \<open>unknown\<close> every event is kept.\<close>

theorem plain_writer_drops_repeats:
  assumes "same_fact t ty en e" and "e \<in> set rs"
  shows "(keyed en \<longrightarrow> write_event PgOk eid t ty ety en dat rs = (rs, Inr Skipped))
    \<and> (\<not> keyed en \<longrightarrow> eid \<notin> ae_id ` set rs \<longrightarrow>
         length (filter (same_fact t ty en) (fst (write_event PgOk eid t ty ety en dat rs))) = Suc (length (filter (same_fact t ty en) rs)))"
  using assms by (auto simp: write_event_def insert_audit_event_def same_fact_def)

theorem plain_writer_drops_repeats_witness:
  "\<exists>rs. fst (write_event PgOk ''e1'' ''acme'' ''job.retry'' ''job'' ''j1'' [(''previous_status'', PStr ''failed'')] []) = rs
     \<and> write_event PgOk ''e2'' ''acme'' ''job.retry'' ''job'' ''j1'' [(''previous_status'', PStr ''failed'')] rs = (rs, Inr Skipped)"
  using plain_writer_drops_repeats [of "''acme''" "''job.retry''" "''j1''"
      "\<lparr>ae_id = ''e1'', ae_tenant = ''acme'', ae_type = ''job.retry'', ae_entity_type = ''job'', ae_entity = ''j1'',
        ae_data = [(''previous_status'', PStr ''failed'')]\<rparr>" _ "''e2''" "''job''" "[(''previous_status'', PStr ''failed'')]"]
  by (auto simp: write_event_def insert_audit_event_def same_fact_def keyed_def)

end
