(* ===== verification/JobRoutes.thy ===== *)
theory JobRoutes
  imports Worker Policy AuditLedger
begin

text \<open>
  The HTTP handlers that change jobs: \<open>src/routers/submit.py\<close>, \<open>src/routers/public_jobs.py\<close> and
  \<open>src/router_jobs.py\<close>, with the table of submit idempotency keys of \<open>src/db_adapter.py\<close>.

  The state joins the job table, the billing state, the audit ledger and the idempotency keys. A handler
  takes the deployment (\<open>site\<close>: hash functions, tenants, tiers, plans, worker token) and what the outside
  does during the call (\<open>call_net\<close>: the clock, the fresh uuids, what each round trip does, the duration the
  backend confirms). Every \<open>await\<close> and every pair of database calls lets other processes act: the functions
  \<open>cn_env1\<close> and \<open>cn_env2\<close> are arbitrary changes of the whole state at those points. The answer is the
  HTTP error with its code, an uncaught exception, or the reply. Rate limits, gauges and log lines are left out.

  Shown: tenants cannot touch each other's jobs, cancel is a compare-and-set, completing bills before it
  closes, a sequential replay of a submit gives the same job; and where the handlers race.
\<close>

section \<open>State\<close>

record api =
  ap_jobs :: job_table
  ap_bill :: billing
  ap_audit :: "audit_event list"
  ap_keys :: "((string \<times> string) \<times> string) list"

datatype api_error = Http nat string | Crash pyexc

record reply =
  rp_status :: string
  rp_job :: string
  rp_skip :: bool

record tenant_rec =
  tr_id :: string
  tr_hash :: string
  tr_row :: pydict

record site =
  si_ledger_hash :: "string \<Rightarrow> string"
  si_key_hash :: "string \<Rightarrow> string"
  si_tenants :: "tenant_rec list"
  si_tiers :: "(string \<times> tier) list option"
  si_plans :: plans_file
  si_worker_token :: string
  si_pg :: bool
  si_show :: "rat \<Rightarrow> string"
  si_fromiso :: "string \<Rightarrow> rat option"

record call_net =
  cn_now :: rat
  cn_env1 :: "api \<Rightarrow> api"
  cn_env2 :: "api \<Rightarrow> api"
  cn_confirmed :: pyval
  cn_bill :: bill_net
  cn_audit :: pg_outcome
  cn_ids :: "string list"

section \<open>Who is calling\<close>

text \<open>\<open>find_tenant_by_key\<close> matches the hash of the key; \<open>get_tenant\<close> the id.\<close>

definition find_tenant_by_key :: "site \<Rightarrow> string \<Rightarrow> tenant_rec option" where
  "find_tenant_by_key si key = List.find (\<lambda>r. tr_hash r = si_key_hash si key) (si_tenants si)"

definition get_tenant :: "site \<Rightarrow> string \<Rightarrow> pydict option" where
  "get_tenant si t = map_option tr_row (List.find (\<lambda>r. tr_id r = t) (si_tenants si))"

definition tenant_from_key :: "site \<Rightarrow> string option \<Rightarrow> api_error + string" where
  "tenant_from_key si key =
     (if \<not> truthy key then Inl (Http 401 ''Missing X-API-Key'')
      else case find_tenant_by_key si (the key) of
             None \<Rightarrow> Inl (Http 401 ''Invalid API key'')
           | Some r \<Rightarrow> Inr (tr_id r))"

definition worker_token_valid :: "site \<Rightarrow> string option \<Rightarrow> bool" where
  "worker_token_valid si tok = (si_worker_token si \<noteq> [] \<and> opt_or tok [] = si_worker_token si)"

definition tenant_plan_name :: "site \<Rightarrow> string \<Rightarrow> string" where
  "tenant_plan_name si t =
     (case map_of (opt_or (get_tenant si t) []) ''plan'' of Some (PStr p) \<Rightarrow> p | _ \<Rightarrow> ''free'')"

section \<open>Shared steps\<close>

text \<open>\<open>write_audit_event\<close>: an error is not caught by the handlers of \<open>router_jobs\<close>.\<close>

definition audit_then ::
  "call_net \<Rightarrow> string \<Rightarrow> string \<Rightarrow> string \<Rightarrow> pydict \<Rightarrow> (api_error + reply) \<Rightarrow> api \<Rightarrow> api \<times> (api_error + reply)" where
  "audit_then nt t ty job dat ans a =
     (case write_event (cn_audit nt) (hd (cn_ids nt @ [[]])) t ty ''job'' job dat (ap_audit a) of
        (rs, Inl x) \<Rightarrow> (a\<lparr>ap_audit := rs\<rparr>, Inl (Crash x))
      | (rs, Inr _) \<Rightarrow> (a\<lparr>ap_audit := rs\<rparr>, ans))"

definition set_jobs :: "site \<Rightarrow> call_net \<Rightarrow> string \<Rightarrow> job_update \<Rightarrow> api \<Rightarrow> api \<times> nat" where
  "set_jobs si nt job u a =
     (case update_execution_job (si_pg si) (cn_now nt) job u (ap_jobs a) of (tbl, n) \<Rightarrow> (a\<lparr>ap_jobs := tbl\<rparr>, n))"

text \<open>The caller's own job, or 404.\<close>

definition own_job :: "string \<Rightarrow> string \<Rightarrow> api \<Rightarrow> api_error + exec_job" where
  "own_job t job a =
     (case get_execution_job job (ap_jobs a) of
        None \<Rightarrow> Inl (Http 404 ''Job not found'')
      | Some j \<Rightarrow> if tenant_id j \<noteq> t then Inl (Http 404 ''Job not found'') else Inr j)"

text \<open>The policy of a status, as the router asks it.\<close>

definition ask_policy :: "site \<Rightarrow> string \<Rightarrow> string \<Rightarrow> string \<Rightarrow> api \<Rightarrow> policy result" where
  "ask_policy si t action st a =
     evaluate_policies (si_tiers si) (get_tenant si t) (count_jobs_for_tenant_total t (ap_jobs a)) action (Some (status_ctx st))"

definition reason_text :: "transition_reason \<Rightarrow> string" where
  "reason_text r =
     (case r of TransitionOk \<Rightarrow> ''ok'' | UnknownStatus s \<Rightarrow> ''unknown status: '' @ s
      | TransitionDenied a b \<Rightarrow> ''transition_denied: '' @ a @ '' -> '' @ b @ '' invalid'')"

section \<open>Cancel\<close>

definition cancel_update :: "call_net \<Rightarrow> string \<Rightarrow> job_update" where
  "cancel_update nt t =
     no_update\<lparr>u_status := Some ''cancelled'', u_completed_at := Some (cn_now nt), u_tenant := Some t,
       u_not_in := CANCEL_BLOCKED_STATUSES\<rparr>"

definition latest_status :: "string \<Rightarrow> exec_job \<Rightarrow> api \<Rightarrow> string" where
  "latest_status job j a = status (case get_execution_job job (ap_jobs a) of None \<Rightarrow> j | Some k \<Rightarrow> k)"

definition public_cancel :: "site \<Rightarrow> call_net \<Rightarrow> string \<Rightarrow> string \<Rightarrow> api \<Rightarrow> api \<times> (api_error + reply)" where
  "public_cancel si nt t job a =
     (case own_job t job a of
        Inl x \<Rightarrow> (a, Inl x)
      | Inr j \<Rightarrow>
          (case set_jobs si nt job (cancel_update nt t) (cn_env1 nt a) of
             (b, n) \<Rightarrow>
               if n = 0 then (b, Inl (Http 409 (''job_not_cancellable: '' @ latest_status job j b)))
               else (case write_event (cn_audit nt) (hd (cn_ids nt @ [[]])) t ''job.cancelled'' ''job'' job [] (ap_audit b) of
                       (rs, _) \<Rightarrow> (b\<lparr>ap_audit := rs\<rparr>, Inr \<lparr>rp_status = ''cancelled'', rp_job = job, rp_skip = False\<rparr>))))"

definition router_cancel :: "site \<Rightarrow> call_net \<Rightarrow> string option \<Rightarrow> string \<Rightarrow> api \<Rightarrow> api \<times> (api_error + reply)" where
  "router_cancel si nt key job a =
     (case tenant_from_key si key of
        Inl x \<Rightarrow> (a, Inl x)
      | Inr t \<Rightarrow>
          (case own_job t job a of
             Inl x \<Rightarrow> (a, Inl x)
           | Inr j \<Rightarrow>
               (case ask_policy si t ''job.cancel'' (status j) a of
                  Inl x \<Rightarrow> (a, Inl (Crash x))
                | Inr p \<Rightarrow>
                    if \<not> po_allowed p then (a, Inl (Http 403 (po_reason p)))
                    else case validate_transition (status j) ''cancelled'' of
                      (False, why) \<Rightarrow>
                        audit_then nt t ''transition.denied'' job [(''from'', PStr (status j)), (''to'', PStr ''cancelled'')]
                          (Inl (Http 409 (reason_text why))) a
                    | (True, _) \<Rightarrow>
                        (case set_jobs si nt job (cancel_update nt t) (cn_env1 nt a) of
                           (b, n) \<Rightarrow>
                             if n = 0 then (b, Inl (Http 409 (reason_text (TransitionDenied (latest_status job j b) ''cancelled''))))
                             else audit_then nt t ''job.cancel'' job [(''previous_status'', PStr (status j))]
                                    (Inr \<lparr>rp_status = ''cancelled'', rp_job = job, rp_skip = False\<rparr>) b))))"

section \<open>Retry\<close>

definition router_retry :: "site \<Rightarrow> call_net \<Rightarrow> string option \<Rightarrow> string \<Rightarrow> api \<Rightarrow> api \<times> (api_error + reply)" where
  "router_retry si nt key job a =
     (case tenant_from_key si key of
        Inl x \<Rightarrow> (a, Inl x)
      | Inr t \<Rightarrow>
          (case own_job t job a of
             Inl x \<Rightarrow> (a, Inl x)
           | Inr j \<Rightarrow>
               (case ask_policy si t ''job.retry'' (status j) a of
                  Inl x \<Rightarrow> (a, Inl (Crash x))
                | Inr p \<Rightarrow>
                    if \<not> po_allowed p
                    then audit_then nt t ''policy.denied'' job [(''action'', PStr ''retry''), (''reason'', PStr (po_reason p))]
                           (Inl (Http 403 (po_reason p))) a
                    else case validate_transition (status j) ''queued'' of
                      (False, why) \<Rightarrow>
                        audit_then nt t ''transition.denied'' job
                          [(''from'', PStr (status j)), (''to'', PStr ''queued''), (''reason'', PStr (reason_text why))]
                          (Inl (Http 409 (reason_text why))) a
                    | (True, _) \<Rightarrow>
                        (case set_jobs si nt job (no_update\<lparr>u_status := Some ''queued'', u_tenant := Some t\<rparr>) (cn_env1 nt a) of
                           (b, n) \<Rightarrow> audit_then nt t ''job.retry'' job [(''previous_status'', PStr (status j))]
                                       (Inr \<lparr>rp_status = ''queued'', rp_job = job, rp_skip = False\<rparr>) b))))"

section \<open>Complete\<close>

text \<open>Billable seconds, or 409; then \<open>finalize_job_billing\<close> and its answers. \<open>None\<close> as answer: go on to close.\<close>

definition billable_seconds :: "site \<Rightarrow> call_net \<Rightarrow> exec_job \<Rightarrow> rat option" where
  "billable_seconds si nt j =
     resolve_billable_seconds (si_fromiso si) (cn_confirmed nt) (map_option (si_show si) (started_at j)) (cn_now nt)"

definition bill_step ::
  "site \<Rightarrow> call_net \<Rightarrow> string \<Rightarrow> string \<Rightarrow> exec_job \<Rightarrow> api \<Rightarrow> api \<times> (api_error + reply) option" where
  "bill_step si nt t job j a =
     (case billable_seconds si nt j of
        None \<Rightarrow> (a, Some (Inl (Http 409 ''billing_duration_unknown: no confirmed duration and no valid started_at'')))
      | Some g \<Rightarrow>
          (case finalize_job_billing (si_ledger_hash si) (cn_bill nt) (cn_now nt) (ap_jobs a) t job g (tenant_plan_name si t)
                  (backend j) (ap_bill a) of
             (b, Inl x) \<Rightarrow>
               (a\<lparr>ap_bill := b\<rparr>, Some (Inl (if x = PGUnavailableError then Http 503 ''Billing unavailable, retry later'' else Crash x)))
           | (b, Inr r) \<Rightarrow>
               (a\<lparr>ap_bill := b\<rparr>,
                if r = ''no_funds'' then Some (Inl (Http 402 ''Insufficient funds''))
                else if r = ''mismatch'' then Some (Inl (Http 409 ''billing_idempotency_mismatch''))
                else if r = ''skip'' then Some (Inr \<lparr>rp_status = status j, rp_job = job, rp_skip = True\<rparr>)
                else None)))"

definition public_complete :: "site \<Rightarrow> call_net \<Rightarrow> string \<Rightarrow> string \<Rightarrow> api \<Rightarrow> api \<times> (api_error + reply)" where
  "public_complete si nt t job a =
     (case own_job t job a of
        Inl x \<Rightarrow> (a, Inl x)
      | Inr j \<Rightarrow>
          (case bill_step si nt t job j (cn_env1 nt a) of
             (b, Some ans) \<Rightarrow> (b, ans)
           | (b, None) \<Rightarrow>
               (case set_jobs si nt job
                       (no_update\<lparr>u_status := Some ''completed'', u_completed_at := Some (cn_now nt), u_tenant := Some t,
                          u_not_in := [''completed'', ''timeout'', ''failed'', ''cancelled'']\<rparr>) (cn_env2 nt b) of
                  (c, n) \<Rightarrow>
                    (c, Inr \<lparr>rp_status = (if n = 0 then latest_status job j c else ''completed''), rp_job = job, rp_skip = False\<rparr>))))"

definition router_complete :: "site \<Rightarrow> call_net \<Rightarrow> string option \<Rightarrow> string \<Rightarrow> api \<Rightarrow> api \<times> (api_error + reply)" where
  "router_complete si nt key job a =
     (case tenant_from_key si key of
        Inl x \<Rightarrow> (a, Inl x)
      | Inr t \<Rightarrow>
          (case own_job t job a of
             Inl x \<Rightarrow> (a, Inl x)
           | Inr j \<Rightarrow>
               (case validate_transition (status j) ''completed'' of
                  (False, why) \<Rightarrow>
                    audit_then nt t ''transition.denied'' job [(''from'', PStr (status j)), (''to'', PStr ''completed'')]
                      (Inl (Http 409 (reason_text why))) a
                | (True, _) \<Rightarrow>
                    (case bill_step si nt t job j (cn_env1 nt a) of
                       (b, Some ans) \<Rightarrow> (b, ans)
                     | (b, None) \<Rightarrow>
                         (case set_jobs si nt job
                                 (no_update\<lparr>u_status := Some ''completed'', u_completed_at := Some (cn_now nt), u_tenant := Some t\<rparr>)
                                 (cn_env2 nt b) of
                            (c, n) \<Rightarrow> (c, Inr \<lparr>rp_status = ''completed'', rp_job = job, rp_skip = False\<rparr>))))))"

section \<open>Worker acknowledgement\<close>

datatype ack = AckStart | AckComplete | AckFail "string option"

definition ack_status :: "ack \<Rightarrow> string" where
  "ack_status k = (case k of AckStart \<Rightarrow> ''running'' | AckComplete \<Rightarrow> ''completed'' | AckFail _ \<Rightarrow> ''failed'')"

definition ack_name :: "ack \<Rightarrow> string" where
  "ack_name k = (case k of AckStart \<Rightarrow> ''start'' | AckComplete \<Rightarrow> ''complete'' | AckFail _ \<Rightarrow> ''fail'')"

text \<open>Whose job the caller may acknowledge: any with the worker token, else its own and never as failed.\<close>

definition ack_job :: "site \<Rightarrow> string option \<Rightarrow> string option \<Rightarrow> ack \<Rightarrow> string \<Rightarrow> api \<Rightarrow> api_error + string \<times> exec_job" where
  "ack_job si key tok k job a =
     (if worker_token_valid si tok
      then case get_execution_job job (ap_jobs a) of
             None \<Rightarrow> Inl (Http 404 ''Job not found'')
           | Some j \<Rightarrow> Inr (tenant_id j, j)
      else case tenant_from_key si key of
             Inl x \<Rightarrow> Inl x
           | Inr t \<Rightarrow>
               (case own_job t job a of
                  Inl x \<Rightarrow> Inl x
                | Inr j \<Rightarrow> (case k of AckFail _ \<Rightarrow> Inl (Http 403 ''action=fail requires the worker token (X-Roma-Worker-Token)'')
                            | _ \<Rightarrow> Inr (t, j))))"

definition ack_close :: "site \<Rightarrow> call_net \<Rightarrow> pyval \<Rightarrow> ack \<Rightarrow> string \<Rightarrow> string \<Rightarrow> api \<Rightarrow> api \<times> (api_error + reply)" where
  "ack_close si nt wid k t job a =
     (case set_jobs si nt job
             (no_update\<lparr>u_status := Some (ack_status k),
                u_completed_at := (case k of AckStart \<Rightarrow> None | _ \<Rightarrow> Some (cn_now nt)),
                u_error := (case k of AckFail e \<Rightarrow> e | _ \<Rightarrow> None), u_tenant := Some t\<rparr>) (cn_env2 nt a) of
        (b, n) \<Rightarrow> audit_then nt t (''job.'' @ ack_name k) job [(''worker_id'', wid)]
                    (Inr \<lparr>rp_status = ack_status k, rp_job = job, rp_skip = False\<rparr>) b)"

definition ack_run ::
  "site \<Rightarrow> call_net \<Rightarrow> string option \<Rightarrow> string option \<Rightarrow> pyval \<Rightarrow> ack \<Rightarrow> string \<Rightarrow> api \<Rightarrow> api \<times> (api_error + reply)" where
  "ack_run si nt key tok wid k job a =
     (case ack_job si key tok k job a of
        Inl x \<Rightarrow> (a, Inl x)
      | Inr (t, j) \<Rightarrow>
          (case validate_transition (status j) (ack_status k) of
             (False, why) \<Rightarrow> (a, Inl (Http 409 (reason_text why)))
           | (True, _) \<Rightarrow>
               (case k of
                  AckComplete \<Rightarrow>
                    (case bill_step si nt t job j (cn_env1 nt a) of
                       (b, Some ans) \<Rightarrow> (b, ans)
                     | (b, None) \<Rightarrow> ack_close si nt wid k t job b)
                | _ \<Rightarrow> ack_close si nt wid k t job a)))"

text \<open>The request's \<open>action\<close>, \<open>start\<close> by default, is checked first.\<close>

definition ack_of :: "string option \<Rightarrow> string option \<Rightarrow> api_error + ack" where
  "ack_of action err =
     (let s = opt_or action ''start''
      in if s = ''start'' then Inr AckStart else if s = ''complete'' then Inr AckComplete
         else if s = ''fail'' then Inr (AckFail err) else Inl (Http 400 ''action must be start|complete|fail''))"

definition worker_ack ::
  "site \<Rightarrow> call_net \<Rightarrow> string option \<Rightarrow> string option \<Rightarrow> pyval \<Rightarrow> string option \<Rightarrow> string option \<Rightarrow> string \<Rightarrow> api
     \<Rightarrow> api \<times> (api_error + reply)" where
  "worker_ack si nt key tok wid action err job a =
     (case ack_of action err of Inl x \<Rightarrow> (a, Inl x) | Inr k \<Rightarrow> ack_run si nt key tok wid k job a)"

section \<open>Submit\<close>

definition find_job_by_idempotency :: "string \<Rightarrow> string \<Rightarrow> api \<Rightarrow> string option" where
  "find_job_by_idempotency t k a = map_of (ap_keys a) (t, k)"

text \<open>INSERT ... ON CONFLICT DO NOTHING on the primary key (tenant, key).\<close>

definition create_job_idempotency :: "string \<Rightarrow> string \<Rightarrow> string \<Rightarrow> api \<Rightarrow> api \<times> bool" where
  "create_job_idempotency t k job a =
     (if (t, k) \<in> fst ` set (ap_keys a) then (a, False) else (a\<lparr>ap_keys := ap_keys a @ [((t, k), job)]\<rparr>, True))"

definition parse_idempotency_key :: "string option \<Rightarrow> api_error + string option" where
  "parse_idempotency_key raw =
     (case raw of
        None \<Rightarrow> Inr None
      | Some r \<Rightarrow>
          let k = strip r
          in if k = [] then Inl (Http 400 ''Idempotency-Key must not be empty'')
             else if length k > 256 then Inl (Http 400 ''Idempotency-Key too long (max 256)'')
             else Inr (Some k))"

text \<open>The job already stored under a key, if it is the tenant's.\<close>

definition replay_of :: "string \<Rightarrow> string \<Rightarrow> api \<Rightarrow> string option" where
  "replay_of t k a =
     (case find_job_by_idempotency t k a of
        None \<Rightarrow> None
      | Some i \<Rightarrow> if i = [] then None
                 else (case get_execution_job i (ap_jobs a) of
                         None \<Rightarrow> None
                       | Some j \<Rightarrow> if tenant_id j = t then Some i else None))"

text \<open>
  The handler in the order of the code: look for a replay, ask the gate, reserve the key, on losing the race look
  for the winner, insert the job, set its backend, write the audit event (its error is caught). \<open>cn_env1\<close> acts
  before the key is reserved, \<open>cn_env2\<close> before the job is inserted. \<open>cn_ids\<close> are the uuids: job, decision, event.
\<close>

definition submit_insert ::
  "site \<Rightarrow> call_net \<Rightarrow> string \<Rightarrow> string option \<Rightarrow> pydict \<Rightarrow> api \<Rightarrow> api \<times> (api_error + reply)" where
  "submit_insert si nt t be pl a =
     (let job = cn_ids nt ! 0
      in case insert_execution_job (cn_now nt) job (Some (cn_ids nt ! 1)) t ''queued'' pl (ap_jobs a) of
           None \<Rightarrow> (a, Inl (Crash (OtherException ''IntegrityError'')))
         | Some (tbl, _) \<Rightarrow>
             (case set_jobs si nt job (no_update\<lparr>u_backend := be, u_tenant := Some t\<rparr>) (a\<lparr>ap_jobs := tbl\<rparr>) of
                (b, _) \<Rightarrow>
                  (case on_job_created (cn_audit nt) (cn_ids nt ! 2) t job (cn_ids nt ! 3) (ap_audit b) of
                     (rs, _) \<Rightarrow> (b\<lparr>ap_audit := rs\<rparr>, Inr \<lparr>rp_status = ''queued'', rp_job = job, rp_skip = False\<rparr>))))"

definition submit_task ::
  "site \<Rightarrow> call_net \<Rightarrow> string \<Rightarrow> string option \<Rightarrow> string option \<Rightarrow> pydict \<Rightarrow> api \<Rightarrow> api \<times> (api_error + reply)" where
  "submit_task si nt t raw be pl a =
     (case parse_idempotency_key raw of
        Inl x \<Rightarrow> (a, Inl x)
      | Inr key \<Rightarrow>
          (case (case key of None \<Rightarrow> None | Some k \<Rightarrow> replay_of t k a) of
             Some i \<Rightarrow> (a, Inr \<lparr>rp_status = ''queued'', rp_job = i, rp_skip = False\<rparr>)
           | None \<Rightarrow>
               (case gate_evaluate (si_plans si) (get_tenant si t) (ap_jobs a) t pl of
                  Inl x \<Rightarrow> (a, Inl (Crash x))
                | Inr d \<Rightarrow>
                    if gd_result d \<noteq> GateAllowed then (a, Inl (Http 402 (gate_text (gd_reason d))))
                    else (case key of
                            None \<Rightarrow> submit_insert si nt t be pl (cn_env2 nt a)
                          | Some k \<Rightarrow>
                              (case create_job_idempotency t k (cn_ids nt ! 0) (cn_env1 nt a) of
                                 (b, True) \<Rightarrow> submit_insert si nt t be pl (cn_env2 nt b)
                               | (b, False) \<Rightarrow>
                                   (case replay_of t k b of
                                      Some i \<Rightarrow> (b, Inr \<lparr>rp_status = ''queued'', rp_job = i, rp_skip = False\<rparr>)
                                    | None \<Rightarrow> submit_insert si nt t be pl (cn_env2 nt b)))))))"


section \<open>Facts\<close>

lemma own_job_iff: "own_job t job a = Inr j \<longleftrightarrow> get_execution_job job (ap_jobs a) = Some j \<and> tenant_id j = t"
  by (auto simp: own_job_def split: option.splits)

lemma own_job_foreign:
  "get_execution_job job (ap_jobs a) = Some j \<Longrightarrow> tenant_id j \<noteq> t \<Longrightarrow> own_job t job a = Inl (Http 404 ''Job not found'')"
  by (simp add: own_job_def)

lemma set_jobs_simps [simp]:
  "ap_bill (fst (set_jobs si nt job u a)) = ap_bill a"
  "ap_audit (fst (set_jobs si nt job u a)) = ap_audit a"
  "ap_keys (fst (set_jobs si nt job u a)) = ap_keys a"
  "ap_jobs (fst (set_jobs si nt job u a)) = fst (update_execution_job (si_pg si) (cn_now nt) job u (ap_jobs a))"
  "snd (set_jobs si nt job u a) = snd (update_execution_job (si_pg si) (cn_now nt) job u (ap_jobs a))"
  by (simp_all add: set_jobs_def split: prod.splits)

lemma audit_then_simps [simp]:
  "ap_jobs (fst (audit_then nt t ty job dat ans a)) = ap_jobs a"
  "ap_bill (fst (audit_then nt t ty job dat ans a)) = ap_bill a"
  "ap_keys (fst (audit_then nt t ty job dat ans a)) = ap_keys a"
  by (simp_all add: audit_then_def split: prod.splits sum.splits)

lemma audit_thenD:
  "audit_then nt t ty job dat ans a = (c, s) \<Longrightarrow>
     ap_jobs c = ap_jobs a \<and> ap_bill c = ap_bill a \<and> ap_keys c = ap_keys a \<and> (\<forall>r. s = Inr r \<longrightarrow> ans = Inr r)"
  by (auto simp: audit_then_def split: prod.splits sum.splits)

lemma bill_step_simps [simp]:
  "ap_jobs (fst (bill_step si nt t job j a)) = ap_jobs a"
  "ap_audit (fst (bill_step si nt t job j a)) = ap_audit a"
  "ap_keys (fst (bill_step si nt t job j a)) = ap_keys a"
  by (simp_all add: bill_step_def split: option.splits prod.splits sum.splits)

text \<open>The row after a guarded write that sets a status.\<close>

lemma cancel_write:
  assumes "table_ok tbl" and "get_execution_job job tbl = Some j" and "tenant_id j = t"
  shows "(snd (update_execution_job pg now job (cancel_update nt t) tbl) = 0 \<longleftrightarrow> status j \<in> set CANCEL_BLOCKED_STATUSES)
    \<and> (status j \<in> set CANCEL_BLOCKED_STATUSES \<longrightarrow> fst (update_execution_job pg now job (cancel_update nt t) tbl) = tbl)
    \<and> (status j \<notin> set CANCEL_BLOCKED_STATUSES \<longrightarrow>
         map_option status (get_execution_job job (fst (update_execution_job pg now job (cancel_update nt t) tbl))) = Some ''cancelled'')"
proof -
  have s: "update_sets c (cancel_update nt t) \<noteq> []" for c by (simp add: cancel_update_def update_sets_def opt_set_def)
  have w: "update_where job (cancel_update nt t) j \<longleftrightarrow> status j \<notin> set CANCEL_BLOCKED_STATUSES"
    using get_execution_job_Some [OF assms(2)] assms(3) by (auto simp: update_where_def cancel_update_def CANCEL_BLOCKED_STATUSES_def)
  have b: "fst (update_execution_job pg now job (cancel_update nt t) tbl) = tbl" if "status j \<in> set CANCEL_BLOCKED_STATUSES"
    by (rule update_blocked [OF assms(2,1)]) (use that in \<open>simp add: cancel_update_def\<close>)
  show ?thesis
    using w b assms(2)
    by (auto simp: update_count_iff [OF assms(1) s] get_after_update)
      (auto simp: cancel_update_def update_sets_def opt_set_def no_update_def)
qed

section \<open>Properties\<close>

text \<open>C7: Tenants cannot touch each other's jobs. A cancel, retry, complete or acknowledgement of a tenant for a
  job of another tenant answers 404 and changes nothing, neither jobs nor money, audit or keys; without a
  valid worker token this holds for the worker's route too, and a missing or unknown key answers 401.\<close>

theorem tenants_are_isolated:
  assumes "get_execution_job job (ap_jobs a) = Some j" and "tenant_id j \<noteq> t"
    and "tenant_from_key si key = Inr t" and "\<not> worker_token_valid si tok"
    and "ack_of action err = Inr k" and "tenant_from_key si bad = Inl e"
  shows "public_cancel si nt t job a = (a, Inl (Http 404 ''Job not found''))
    \<and> public_complete si nt t job a = (a, Inl (Http 404 ''Job not found''))
    \<and> router_cancel si nt key job a = (a, Inl (Http 404 ''Job not found''))
    \<and> router_retry si nt key job a = (a, Inl (Http 404 ''Job not found''))
    \<and> router_complete si nt key job a = (a, Inl (Http 404 ''Job not found''))
    \<and> worker_ack si nt key tok wid action err job a = (a, Inl (Http 404 ''Job not found''))
    \<and> router_cancel si nt bad job a = (a, Inl e) \<and> worker_ack si nt bad tok wid action err job a = (a, Inl e)
    \<and> (\<exists>m. e = Http 401 m)"
  using own_job_foreign [OF assms(1,2)] assms(3-6)
  by (auto simp: public_cancel_def public_complete_def router_cancel_def router_retry_def router_complete_def worker_ack_def
      ack_run_def ack_job_def tenant_from_key_def split: if_splits option.splits)

definition demo_site :: site where
  "demo_site = \<lparr>si_ledger_hash = (\<lambda>s. s), si_key_hash = (\<lambda>s. s),
     si_tenants = [\<lparr>tr_id = ''acme'', tr_hash = ''k1'', tr_row = [(''plan'', PStr ''free''), (''tier'', PStr ''pro'')]\<rparr>,
                   \<lparr>tr_id = ''evil'', tr_hash = ''k2'', tr_row = [(''plan'', PStr ''pro''), (''tier'', PStr ''pro'')]\<rparr>],
     si_tiers = None, si_plans = PlansMissing, si_worker_token = ''w'', si_pg = True,
     si_show = (\<lambda>_. ''t''), si_fromiso = (\<lambda>_. Some 0)\<rparr>"

definition demo_net :: call_net where
  "demo_net = \<lparr>cn_now = 100, cn_env1 = (\<lambda>a. a), cn_env2 = (\<lambda>a. a), cn_confirmed = PFloat (Fin 100), cn_bill = all_ok,
     cn_audit = PgOk, cn_ids = [''u0'', ''u1'', ''u2'', ''u3'']\<rparr>"

definition demo_api :: "string \<Rightarrow> api" where
  "demo_api st = \<lparr>ap_jobs = [(new_exec_job 0 ''j1'' None ''acme'' st [])\<lparr>started_at := Some 0\<rparr>], ap_bill = ex_funded, ap_audit = [], ap_keys = []\<rparr>"

theorem tenants_are_isolated_witness:
  "public_cancel demo_site demo_net ''evil'' ''j1'' (demo_api ''running'') = (demo_api ''running'', Inl (Http 404 ''Job not found''))
   \<and> router_complete demo_site demo_net (Some ''k2'') ''j1'' (demo_api ''running'') = (demo_api ''running'', Inl (Http 404 ''Job not found''))"
  using tenants_are_isolated [where job = "''j1''" and a = "demo_api ''running''" and t = "''evil''" and si = demo_site and nt = demo_net
      and key = "Some ''k2''" and tok = None and action = None and err = None and bad = None
      and j = "(new_exec_job 0 ''j1'' None ''acme'' ''running'' [])\<lparr>started_at := Some 0\<rparr>" and k = AckStart
      and e = "Http 401 ''Missing X-API-Key''"]
  by (simp add: demo_api_def demo_site_def get_execution_job_def new_exec_job_def tenant_from_key_def find_tenant_by_key_def
      worker_token_valid_def opt_or_def ack_of_def)

text \<open>Cancelling is a compare-and-set, whatever other processes do between the read and the write. Let \<open>j\<close> be
  the row of the job at the write. The public route succeeds exactly when the status of \<open>j\<close> is not a closed one;
  then the row is cancelled, and otherwise it answers 409 and the table is as it was. The router's cancel
  answers with success only in that case too, and neither of them moves money.\<close>

theorem cancel_is_compare_and_set:
  assumes "own_job t job a = Inr j0" and "table_ok (ap_jobs (cn_env1 nt a))"
    and "get_execution_job job (ap_jobs (cn_env1 nt a)) = Some j" and "tenant_id j = t"
    and "public_cancel si nt t job a = (b, r)" and "router_cancel si nt key job a = (c, s)" and "tenant_from_key si key = Inr t"
  shows "(case r of
        Inr x \<Rightarrow> status j \<notin> set CANCEL_BLOCKED_STATUSES \<and> map_option status (get_execution_job job (ap_jobs b)) = Some ''cancelled''
      | Inl e \<Rightarrow> status j \<in> set CANCEL_BLOCKED_STATUSES \<and> ap_jobs b = ap_jobs (cn_env1 nt a) \<and> (\<exists>m. e = Http 409 m))
    \<and> ap_bill b = ap_bill (cn_env1 nt a)
    \<and> (\<forall>x. s = Inr x \<longrightarrow> status j \<notin> set CANCEL_BLOCKED_STATUSES
         \<and> map_option status (get_execution_job job (ap_jobs c)) = Some ''cancelled'' \<and> ap_bill c = ap_bill (cn_env1 nt a))"
proof -
  note w = cancel_write [OF assms(2-4), where pg = "si_pg si" and now = "cn_now nt" and nt = nt]
  obtain b1 n where sj: "set_jobs si nt job (cancel_update nt t) (cn_env1 nt a) = (b1, n)" by force
  then have b1: "ap_jobs b1 = fst (update_execution_job (si_pg si) (cn_now nt) job (cancel_update nt t) (ap_jobs (cn_env1 nt a)))"
    "n = snd (update_execution_job (si_pg si) (cn_now nt) job (cancel_update nt t) (ap_jobs (cn_env1 nt a)))"
    "ap_bill b1 = ap_bill (cn_env1 nt a)"
    using set_jobs_simps [of si nt job "cancel_update nt t" "cn_env1 nt a"] by simp_all
  have p: "case r of
        Inr x \<Rightarrow> n \<noteq> 0 \<and> ap_jobs b = ap_jobs b1
      | Inl e \<Rightarrow> n = 0 \<and> ap_jobs b = ap_jobs b1 \<and> (\<exists>m. e = Http 409 m)" "ap_bill b = ap_bill b1"
    using assms(1,5) sj by (auto simp: public_cancel_def split: if_splits prod.splits)
  have q: "n \<noteq> 0 \<and> ap_jobs c = ap_jobs b1 \<and> ap_bill c = ap_bill b1" if "s = Inr x" for x
    using assms(1,6,7) sj that
    by (auto simp: router_cancel_def split: if_splits prod.splits bool.splits sum.splits dest!: audit_thenD)
  show ?thesis using p q w b1 by (auto split: sum.splits)
qed


theorem cancel_is_compare_and_set_witness:
  "\<exists>b r. public_cancel demo_site (demo_net\<lparr>cn_env1 := (\<lambda>_. demo_api ''billing_pending'')\<rparr>) ''acme'' ''j1'' (demo_api ''running'') = (b, r)
     \<and> ap_jobs b = ap_jobs (demo_api ''billing_pending'') \<and> (\<exists>m. r = Inl (Http 409 m))"
proof -
  let ?nt = "demo_net\<lparr>cn_env1 := (\<lambda>_. demo_api ''billing_pending'')\<rparr>"
  let ?j = "\<lambda>st. (new_exec_job 0 ''j1'' None ''acme'' st [])\<lparr>started_at := Some 0\<rparr>"
  obtain b r where p: "public_cancel demo_site ?nt ''acme'' ''j1'' (demo_api ''running'') = (b, r)" by force
  obtain c s where q: "router_cancel demo_site ?nt (Some ''k1'') ''j1'' (demo_api ''running'') = (c, s)" by force
  have j: "get_execution_job ''j1'' (ap_jobs (demo_api st)) = Some (?j st)" for st
    by (simp add: demo_api_def get_execution_job_def new_exec_job_def)
  have "own_job ''acme'' ''j1'' (demo_api ''running'') = Inr (?j ''running'')"
    by (simp add: own_job_iff j) (simp add: new_exec_job_def)
  moreover have "table_ok (ap_jobs (demo_api ''billing_pending''))" by (simp add: table_ok_def demo_api_def)
  moreover have "tenant_from_key demo_site (Some ''k1'') = Inr ''acme''"
    by (simp add: tenant_from_key_def find_tenant_by_key_def demo_site_def)
  ultimately have "case r of
        Inr x \<Rightarrow> status (?j ''billing_pending'') \<notin> set CANCEL_BLOCKED_STATUSES
          \<and> map_option status (get_execution_job ''j1'' (ap_jobs b)) = Some ''cancelled''
      | Inl e \<Rightarrow> status (?j ''billing_pending'') \<in> set CANCEL_BLOCKED_STATUSES
          \<and> ap_jobs b = ap_jobs (demo_api ''billing_pending'') \<and> (\<exists>m. e = Http 409 m)"
    using cancel_is_compare_and_set [OF _ _ _ _ p q, of "?j ''running''" "?j ''billing_pending''"] j
    by (auto simp: new_exec_job_def split: sum.splits)
  with p show ?thesis by (auto simp: new_exec_job_def CANCEL_BLOCKED_STATUSES_def split: sum.splits)
qed

text \<open>What the billing step of a completion leaves behind when it lets the handler go on.\<close>

definition job_debited :: "site \<Rightarrow> string \<Rightarrow> string \<Rightarrow> api \<Rightarrow> bool" where
  "job_debited si t job a =
     (\<exists>e\<in>set (rows (b_ledger (ap_bill a))). ledger_id e = idem_ledger_id (si_ledger_hash si) t (''job:'' @ job)
        \<and> le_tenant e = t \<and> entry_type e = ''DEBIT'')"

lemma finalize_answers:
  "finalize_job_billing H nw now jobs t job g plan be b = (b', Inr r) \<Longrightarrow> r \<in> {''ok'', ''skip'', ''no_funds'', ''mismatch''}"
  by (auto simp: finalize_job_billing_def split: option.splits if_splits prod.splits sum.splits pyexc.splits)

lemma bill_step_None:
  assumes "bill_step si nt t job j a = (b, None)"
  shows "job_debited si t job b"
proof -
  obtain g bb r where g: "billable_seconds si nt j = Some g"
    and f: "finalize_job_billing (si_ledger_hash si) (cn_bill nt) (cn_now nt) (ap_jobs a) t job g (tenant_plan_name si t)
              (backend j) (ap_bill a) = (bb, Inr r)"
    and b: "b = a\<lparr>ap_bill := bb\<rparr>" and r: "r \<notin> {''no_funds'', ''mismatch'', ''skip''}"
    using assms by (auto simp: bill_step_def split: option.splits prod.splits sum.splits if_splits)
  with finalize_answers [OF f] have "r = ''ok''" by auto
  with finalize_ok_debit f b show ?thesis by (fastforce simp: job_debited_def)
qed

lemma bill_step_skip: "bill_step si nt t job j a = (b, Some (Inr x)) \<Longrightarrow> rp_skip x"
  by (auto simp: bill_step_def split: option.splits prod.splits sum.splits if_splits)

definition keeps_ledger :: "(api \<Rightarrow> api) \<Rightarrow> bool" where
  "keeps_ledger f \<longleftrightarrow> (\<forall>x. set (rows (b_ledger (ap_bill x))) \<subseteq> set (rows (b_ledger (ap_bill (f x)))))"

lemma job_debited_keeps: "keeps_ledger f \<Longrightarrow> job_debited si t job a \<Longrightarrow> job_debited si t job (f a)"
  by (auto simp: job_debited_def keeps_ledger_def)

lemma job_debited_bill: "ap_bill b = ap_bill a \<Longrightarrow> job_debited si t job b = job_debited si t job a"
  by (simp add: job_debited_def)

lemma set_jobsD:
  "set_jobs si nt job u a = (b, n) \<Longrightarrow> ap_bill b = ap_bill a \<and> ap_audit b = ap_audit a \<and> ap_keys b = ap_keys a
     \<and> update_execution_job (si_pg si) (cn_now nt) job u (ap_jobs a) = (ap_jobs b, n)"
  by (auto simp: set_jobs_def split: prod.splits)

lemma set_after_bill:
  assumes "keeps_ledger (cn_env2 nt)" and "bill_step si nt t job j c = (b, None)"
    and "ap_bill d = ap_bill (cn_env2 nt b)"
  shows "job_debited si t job d"
  using job_debited_keeps [OF assms(1) bill_step_None [OF assms(2)]] assms(3) by (simp add: job_debited_def)

lemma public_complete_debited:
  assumes "keeps_ledger (cn_env2 nt)" and "public_complete si nt t job a = (b, Inr x)" and "\<not> rp_skip x"
  shows "job_debited si t job b"
proof -
  obtain j where j: "own_job t job a = Inr j" using assms(2) by (auto simp: public_complete_def split: sum.splits)
  obtain b1 o1 where bs: "bill_step si nt t job j (cn_env1 nt a) = (b1, o1)" by force
  with j assms(2,3) have n: "o1 = None" by (auto simp: public_complete_def split: option.splits dest: bill_step_skip)
  show ?thesis
    using j assms(2) bs n by (auto simp: public_complete_def intro!: set_after_bill [OF assms(1) bs [unfolded n]] split: prod.splits dest!: set_jobsD)
qed

lemma router_complete_debited:
  assumes "keeps_ledger (cn_env2 nt)" and "router_complete si nt key job a = (b, Inr x)" and "\<not> rp_skip x"
    and "tenant_from_key si key = Inr t"
  shows "job_debited si t job b"
proof -
  obtain j where j: "own_job t job a = Inr j" using assms(2,4) by (auto simp: router_complete_def split: sum.splits)
  have v: "fst (validate_transition (status j) ''completed'')"
    using j assms(2,4) by (auto simp: router_complete_def split: prod.splits bool.splits dest: audit_thenD)
  obtain b1 o1 where bs: "bill_step si nt t job j (cn_env1 nt a) = (b1, o1)" by force
  with j assms(2,3,4) v have n: "o1 = None"
    by (auto simp: router_complete_def split: option.splits prod.splits bool.splits dest: bill_step_skip)
  show ?thesis
    using j assms(2,4) bs n v
    by (auto simp: router_complete_def intro!: set_after_bill [OF assms(1) bs [unfolded n]] split: prod.splits bool.splits dest!: set_jobsD)
qed

lemma ack_complete_debited:
  assumes "keeps_ledger (cn_env2 nt)" and "ack_run si nt key tok wid AckComplete job a = (b, Inr x)" and "\<not> rp_skip x"
    and "ack_job si key tok AckComplete job a = Inr (t, j)"
  shows "job_debited si t job b"
proof -
  have v: "fst (validate_transition (status j) ''completed'')"
    using assms(2,4) by (auto simp: ack_run_def ack_status_def split: prod.splits bool.splits)
  obtain b1 o1 where bs: "bill_step si nt t job j (cn_env1 nt a) = (b1, o1)" by force
  with assms(2-4) v have n: "o1 = None" and c: "ack_close si nt wid AckComplete t job b1 = (b, Inr x)"
    by (auto simp: ack_run_def ack_status_def split: option.splits prod.splits bool.splits dest: bill_step_skip)
  show ?thesis
    using c by (auto simp: ack_close_def intro!: set_after_bill [OF assms(1) bs [unfolded n]] split: prod.splits dest!: audit_thenD set_jobsD)
qed




lemma get_after_insert:
  "\<not> has_job i tbl \<Longrightarrow> jid j = i \<Longrightarrow> get_execution_job k (tbl @ [j]) = (if k = i then Some j else get_execution_job k tbl)"
  by (induction tbl) (auto simp: has_job_def get_execution_job_def)

text \<open>What the last step of a submit leaves behind.\<close>

lemma submit_insert_result:
  assumes "submit_insert si nt t be pl a = (b, Inr x)"
  shows "rp_job x = cn_ids nt ! 0 \<and> ap_keys b = ap_keys a \<and> ap_bill b = ap_bill a \<and> \<not> has_job (cn_ids nt ! 0) (ap_jobs a)
    \<and> (\<exists>j. get_execution_job (cn_ids nt ! 0) (ap_jobs b) = Some j \<and> tenant_id j = t \<and> status j = ''queued'' \<and> payload j = pl)
    \<and> (\<forall>k. k \<noteq> cn_ids nt ! 0 \<longrightarrow> get_execution_job k (ap_jobs b) = get_execution_job k (ap_jobs a))"
proof -
  let ?i = "cn_ids nt ! 0" and ?new = "new_exec_job (cn_now nt) (cn_ids nt ! 0) (Some (cn_ids nt ! 1)) t ''queued'' pl"
  obtain c n where f: "\<not> has_job ?i (ap_jobs a)"
    and s: "set_jobs si nt ?i (no_update\<lparr>u_backend := be, u_tenant := Some t\<rparr>) (a\<lparr>ap_jobs := ap_jobs a @ [?new]\<rparr>) = (c, n)"
    and b: "ap_jobs b = ap_jobs c" "ap_keys b = ap_keys c" "ap_bill b = ap_bill c" and x: "rp_job x = ?i"
    using assms by (auto simp: submit_insert_def insert_execution_job_def Let_def split: if_splits prod.splits)
  have c: "ap_jobs c = fst (update_execution_job (si_pg si) (cn_now nt) ?i (no_update\<lparr>u_backend := be, u_tenant := Some t\<rparr>) (ap_jobs a @ [?new]))"
    "ap_keys c = ap_keys a" "ap_bill c = ap_bill a"
    using set_jobsD [OF s] by auto
  have new: "get_execution_job k (ap_jobs a @ [?new]) = (if k = ?i then Some ?new else get_execution_job k (ap_jobs a))" for k
    using get_after_insert [OF f, of ?new k] by (simp add: new_exec_job_def)
  let ?u = "no_update\<lparr>u_backend := be, u_tenant := Some t\<rparr>"
  have g: "get_execution_job k (ap_jobs b) =
      map_option (\<lambda>j. if update_where ?i ?u j then fold (\<lambda>f j. f j) (update_sets (if si_pg si then cn_now nt else whole_seconds (cn_now nt)) ?u) j else j)
        (if k = ?i then Some ?new else get_execution_job k (ap_jobs a))" for k
    by (simp only: b c get_after_update new)
  have "\<exists>j. get_execution_job ?i (ap_jobs b) = Some j \<and> tenant_id j = t \<and> status j = ''queued'' \<and> payload j = pl"
    unfolding g by (cases be) (simp_all add: update_sets_def opt_set_def no_update_def new_exec_job_def)
  moreover have "get_execution_job k (ap_jobs b) = get_execution_job k (ap_jobs a)" if "k \<noteq> ?i" for k
    unfolding g using that
    by (cases "get_execution_job k (ap_jobs a)") (auto simp: update_where_def dest!: get_execution_job_Some)
  ultimately show ?thesis using f x b c by auto
qed

lemma submit_insert_ok:
  "\<not> has_job (cn_ids nt ! 0) (ap_jobs a) \<Longrightarrow>
     \<exists>b. submit_insert si nt t be pl a = (b, Inr \<lparr>rp_status = ''queued'', rp_job = cn_ids nt ! 0, rp_skip = False\<rparr>)"
  by (auto simp: submit_insert_def insert_execution_job_def Let_def split: prod.splits)

lemma parse_key: "parse_idempotency_key raw = Inr (Some k) \<Longrightarrow> k \<noteq> []"
  by (auto simp: parse_idempotency_key_def Let_def split: option.splits if_splits)

lemma create_key_True:
  "create_job_idempotency t k i a = (b, True) \<Longrightarrow> find_job_by_idempotency t k b = Some i \<and> ap_jobs b = ap_jobs a"
  by (auto simp: create_job_idempotency_def find_job_by_idempotency_def map_add_def map_of_eq_None_iff [symmetric] split: if_splits)

text \<open>Other processes between two submits: the reserved keys stay, and jobs stay with their tenant.\<close>

definition keeps_submits :: "api \<Rightarrow> api \<Rightarrow> bool" where
  "keeps_submits a b \<longleftrightarrow> (\<forall>t k i. find_job_by_idempotency t k a = Some i \<longrightarrow> find_job_by_idempotency t k b = Some i)
     \<and> (\<forall>i j. get_execution_job i (ap_jobs a) = Some j \<longrightarrow> (\<exists>j'. get_execution_job i (ap_jobs b) = Some j' \<and> tenant_id j' = tenant_id j))"

lemma replay_keeps: "keeps_submits a b \<Longrightarrow> replay_of t k a = Some i \<Longrightarrow> replay_of t k b = Some i"
  by (fastforce simp: replay_of_def keeps_submits_def split: option.splits if_splits)

lemma submit_reserves:
  assumes "submit_task si nt t raw be pl a = (b, Inr x)" and "parse_idempotency_key raw = Inr (Some k)"
    and "cn_env1 nt a = a" and "\<And>c. cn_env2 nt c = c" and "cn_ids nt ! 0 \<noteq> []"
    and "find_job_by_idempotency t k a = None"
  shows "replay_of t k b = Some (rp_job x) \<and> rp_job x = cn_ids nt ! 0"
proof -
  have fresh: "(t, k) \<notin> fst ` set (ap_keys a)"
    using assms(6) by (simp add: find_job_by_idempotency_def map_of_eq_None_iff)
  obtain c where c: "create_job_idempotency t k (cn_ids nt ! 0) a = (c, True)"
    using fresh by (simp add: create_job_idempotency_def)
  have "replay_of t k a = None" using assms(6) by (simp add: replay_of_def)
  then have i: "submit_insert si nt t be pl c = (b, Inr x)"
    using assms(1-4) c by (auto simp: submit_task_def split: sum.splits if_splits)
  from submit_insert_result [OF i] create_key_True [OF c] show ?thesis
    using assms(5) by (auto simp: replay_of_def find_job_by_idempotency_def)
qed



section \<open>Races\<close>

text \<open>The loser of a race for a key, between the winner's reservation and its insert, inserts a second job.\<close>

lemma submit_race_makes_two_jobs:
  assumes "parse_idempotency_key raw = Inr (Some k)" and "replay_of t k a = None"
    and "gate_evaluate (si_plans si) (get_tenant si t) (ap_jobs a) t pl = Inr d" and "gd_result d = GateAllowed"
    and "find_job_by_idempotency t k (cn_env1 nt a) = Some w" and "get_execution_job w (ap_jobs (cn_env1 nt a)) = None"
  shows "submit_task si nt t raw be pl a = submit_insert si nt t be pl (cn_env2 nt (cn_env1 nt a))"
proof -
  have "(t, k) \<in> fst ` set (ap_keys (cn_env1 nt a))"
    using assms(5) by (force simp: find_job_by_idempotency_def dest: map_of_SomeD)
  then show ?thesis
    using assms by (simp add: submit_task_def create_job_idempotency_def replay_of_def)
qed

text \<open>The retry has no status guard: a job of the tenant that a worker set running meanwhile is queued again.\<close>

lemma retry_requeues_running_job:
  assumes "tenant_from_key si key = Inr t" and "own_job t job a = Inr j" and "status j = ''failed''"
    and "get_tenant si t = Some row" and "row \<noteq> []"
    and "table_ok (ap_jobs (cn_env1 nt a))" and "get_execution_job job (ap_jobs (cn_env1 nt a)) = Some j'"
    and "tenant_id j' = t" and "router_retry si nt key job a = (b, r)"
  shows "map_option status (get_execution_job job (ap_jobs b)) = Some ''queued''"
proof -
  let ?u = "no_update\<lparr>u_status := Some ''queued'', u_tenant := Some t\<rparr>"
  have v: "validate_transition ''failed'' ''queued'' = (True, TransitionOk)" by code_simp
  obtain p where p: "ask_policy si t ''job.retry'' (status j) a = Inr p" "po_allowed p"
    using assms(3-5) by (auto simp: ask_policy_def evaluate_policies_def retry_policy_def status_ctx_def sget_def opt_or_def allowed_def)
  obtain c n where sj: "set_jobs si nt job ?u (cn_env1 nt a) = (c, n)" by force
  have w: "update_where job ?u j'"
    using get_execution_job_Some [OF assms(7)] assms(8) by (auto simp: update_where_def no_update_def)
  have "map_option status (get_execution_job job (ap_jobs c)) = Some ''queued''"
    using set_jobs_simps(4) [of si nt job ?u "cn_env1 nt a"] sj assms(7) w
    by (auto simp: get_after_update) (auto simp: update_sets_def opt_set_def no_update_def)
  moreover have "ap_jobs b = ap_jobs c"
    using assms(1-3,9) p v sj by (auto simp: router_retry_def dest!: audit_thenD)
  ultimately show ?thesis by simp
qed

end
