(* ===== verification/Admission.thy ===== *)
theory Admission
  imports JobRoutes
begin

text \<open>
  Who may submit, and the other ways in.

  \<^item> \<open>src/deps.py\<close>: administrators' keys, \<open>verify_api_key\<close>, \<open>plan_config\<close>.
  \<^item> \<open>src/main.py\<close>: the limits and the spend cap that are checked before a job is created, the submit of a
    cluster and the internal submit of the demos.
  \<^item> \<open>src/router_decisions.py\<close> with the decision tables of \<open>src/db_adapter.py\<close>: a request for a decision, its
    idempotency, the gate, the record, the job.

  The state adds to that of the job routes the two decision tables and the jobs that the internal submit keeps in the
  memory of the process. Statements on the decision tables and inserts of jobs are taken to succeed; audit
  writes may fail. Alerts, gauges and texts are left out, and so is the list of allowed addresses.

  Shown: only a verified key of an existing tenant passes, fail-closed administrators' keys, the exact conditions of
  the spend cap and of the job limit, a decision creates a job exactly when policy and gate allow it, a decision can be
  repeated; and that the spend cap refuses the tenants with money, that the decision routes take a tenant's name for
  its key, and that demo jobs escape the limit.
\<close>

section \<open>Keys\<close>

fun split_commas :: "string \<Rightarrow> string list" where
  "split_commas [] = [[]]"
| "split_commas (c # cs) =
     (if c = CHR '','' then [] # split_commas cs
      else case split_commas cs of [] \<Rightarrow> [[c]] | w # ws \<Rightarrow> (c # w) # ws)"

definition admin_keys :: "string option \<Rightarrow> string list" where
  "admin_keys env = filter (\<lambda>k. k \<noteq> []) (map strip (split_commas (opt_or env [])))"

definition admin_key_valid :: "string option \<Rightarrow> string \<Rightarrow> bool" where
  "admin_key_valid env candidate = (candidate \<noteq> [] \<and> candidate \<in> set (admin_keys env))"

text \<open>\<open>verified\<close> is \<open>main.is_email_verified\<close>. The answer is the tenant.\<close>

definition verify_api_key :: "site \<Rightarrow> string option \<Rightarrow> (string \<Rightarrow> bool) \<Rightarrow> string option \<Rightarrow> api_error + string" where
  "verify_api_key si env verified key =
     (if \<not> truthy key then Inl (Http 401 ''Missing X-API-Key header'')
      else case find_tenant_by_key si (the key) of
             None \<Rightarrow> Inl (Http 401 ''Invalid API key'')
           | Some r \<Rightarrow>
               (let t = strip (tr_id r)
                in if t = [] then Inl (Http 401 ''Invalid API key'')
                   else if \<not> admin_key_valid env (the key) \<and> \<not> verified (the key)
                   then Inl (Http 403 ''Email not verified. Please verify your email first.'')
                   else Inr t))"

section \<open>Limits and the spend cap\<close>

record plan_conf =
  pf_max_jobs :: int
  pf_gpu_s_per_job :: int
  pf_gpu_s_per_month :: int
  pf_gpu_hours :: int
  pf_spend_cap :: rat
  pf_overage :: rat

definition plan_config :: "plans_file \<Rightarrow> string option \<Rightarrow> plan_conf result" where
  "plan_config f plan =
     (case get_plan_limits f plan of
        Inl x \<Rightarrow> Inl x
      | Inr l \<Rightarrow>
          (let m = map_of MONEY_POLICY (lower (strip (opt_or plan [])))
           in Inr \<lparr>pf_max_jobs = pl_jobs l, pf_gpu_s_per_job = pl_gpu_per_job l, pf_gpu_s_per_month = gpu_s_per_month l,
                   pf_gpu_hours = gpu_hours_per_month l,
                   pf_spend_cap = (case m of None \<Rightarrow> 0 | Some x \<Rightarrow> spend_cap_usd x),
                   pf_overage = (case m of None \<Rightarrow> 0 | Some x \<Rightarrow> overage_rate x)\<rparr>))"

text \<open>\<open>None\<close>: the refusal GATE_UNAVAILABLE. An exception other than that of the plan source is not caught.\<close>

definition plan_limits_or_refusal :: "plans_file \<Rightarrow> string option \<Rightarrow> plan_conf option result" where
  "plan_limits_or_refusal f plan =
     (case plan_config f plan of
        Inl x \<Rightarrow> if x = PlanSourceError then Inr None else Inl x
      | Inr c \<Rightarrow> Inr (Some c))"

datatype cap_answer = CapOk | CapPlanUnavailable | CapZero | CapNotPersistent | CapBalanceUnavailable | CapExceeded rat rat

definition cap_allows :: "cap_answer \<Rightarrow> bool" where
  "cap_allows a = (a = CapOk)"

text \<open>\<open>oc\<close> is the round trip that reads the balance; only PostgreSQL's being unavailable is caught.\<close>

definition check_spend_cap ::
  "plans_file \<Rightarrow> bool \<Rightarrow> pg_outcome \<Rightarrow> ledger \<Rightarrow> string \<Rightarrow> rat \<Rightarrow> string option \<Rightarrow> cap_answer result" where
  "check_spend_cap f persistent oc l t cost plan =
     (case plan_limits_or_refusal f plan of
        Inl x \<Rightarrow> Inl x
      | Inr None \<Rightarrow> Inr CapPlanUnavailable
      | Inr (Some c) \<Rightarrow>
          (let cap = pf_spend_cap c
           in if cap < 0 then Inr CapOk
              else if cap = 0 then Inr CapZero
              else if \<not> persistent then Inr CapNotPersistent
              else case get_tenant_balance oc t l of
                     Inl x \<Rightarrow> if x = PGUnavailableError then Inr CapBalanceUnavailable else Inl x
                   | Inr balance \<Rightarrow> if balance + cost > cap then Inr (CapExceeded balance cap) else Inr CapOk))"

definition check_limits :: "site \<Rightarrow> string \<Rightarrow> api \<Rightarrow> bool result" where
  "check_limits si t a =
     (case plan_limits_or_refusal (si_plans si)
             (case get_tenant si t of None \<Rightarrow> None | Some row \<Rightarrow> (case dict_get row ''plan'' of PStr p \<Rightarrow> Some p | _ \<Rightarrow> None)) of
        Inl x \<Rightarrow> Inl x
      | Inr None \<Rightarrow> Inr False
      | Inr (Some c) \<Rightarrow>
          if pf_max_jobs c < 0 then Inr True
          else Inr (int (count_jobs_for_tenant_total t (ap_jobs a)) < pf_max_jobs c))"

section \<open>Two more ways to submit\<close>

record front =
  fr_api :: api
  fr_mem :: "(string \<times> string) list"
  fr_requests :: "(string \<times> string \<times> string option) list"
  fr_records :: "(string \<times> string \<times> string \<times> string) list"

text \<open>\<open>POST /submit/cluster\<close>. The job's id is a fresh uuid.\<close>

definition submit_atom_cluster ::
  "site \<Rightarrow> call_net \<Rightarrow> bool \<Rightarrow> pg_outcome \<Rightarrow> string \<Rightarrow> pydict \<Rightarrow> front \<Rightarrow> front \<times> (api_error + string)" where
  "submit_atom_cluster si nt persistent oc t spec s =
     (case estimate_cluster_cost spec of
        Inl x \<Rightarrow> (s, Inl (if x = ValueError \<or> x = TypeError then Http 422 [] else Crash x))
      | Inr cost \<Rightarrow>
          (case check_spend_cap (si_plans si) persistent oc (b_ledger (ap_bill (fr_api s))) t cost (Some (tenant_plan_name si t)) of
             Inl x \<Rightarrow> (s, Inl (Crash x))
           | Inr ans \<Rightarrow>
               if \<not> cap_allows ans then (s, Inl (Http 402 []))
               else (case insert_execution_job (cn_now nt) (cn_ids nt ! 0) None t ''atom_cluster_managed''
                            [(''status'', PStr ''atom_cluster_managed''), (''tenant_id'', PStr t)] (ap_jobs (fr_api s)) of
                       None \<Rightarrow> (s, Inl (Crash (OtherException ''IntegrityError'')))
                     | Some (tbl, _) \<Rightarrow> (s\<lparr>fr_api := (fr_api s)\<lparr>ap_jobs := tbl\<rparr>\<rparr>, Inr (cn_ids nt ! 0)))))"

text \<open>The internal \<open>submit_job\<close> of the demos: limits, cap, and an entry in the dictionary \<open>jobs\<close> of the process.\<close>

definition demo_submit_job ::
  "site \<Rightarrow> call_net \<Rightarrow> bool \<Rightarrow> pg_outcome \<Rightarrow> string \<Rightarrow> pydict \<Rightarrow> front \<Rightarrow> front \<times> (api_error + string)" where
  "demo_submit_job si nt persistent oc t pl s =
     (case check_limits si t (fr_api s) of
        Inl x \<Rightarrow> (s, Inl (Crash x))
      | Inr False \<Rightarrow> (s, Inl (Http 402 []))
      | Inr True \<Rightarrow>
          (case check_spend_cap (si_plans si) persistent oc (b_ledger (ap_bill (fr_api s))) t (estimate_cost pl) (Some (tenant_plan_name si t)) of
             Inl x \<Rightarrow> (s, Inl (Crash x))
           | Inr ans \<Rightarrow>
               if \<not> cap_allows ans then (s, Inl (Http 402 []))
               else (s\<lparr>fr_mem := AList.update (cn_ids nt ! 0) t (fr_mem s)\<rparr>, Inr (cn_ids nt ! 0))))"

section \<open>Decisions\<close>

text \<open>
  The tables hold (id, tenant, key) and (id, request, tenant, result) in the order of insertion, which is that of
  \<open>decided_at\<close>. The routes resolve the caller by looking its key up as a tenant's id.
\<close>

definition decisions_tenant :: "site \<Rightarrow> string option \<Rightarrow> api_error + string" where
  "decisions_tenant si key =
     (if \<not> truthy key then Inl (Http 401 ''Missing X-API-Key'')
      else case opt_or (get_tenant si (the key)) [] of
             [] \<Rightarrow>
               (let t = (if length (the key) > 20 then the key else ''tenant-'' @ take 12 (the key))
                in if opt_or (get_tenant si t) [] = [] then Inl (Http 401 ''Invalid API key'') else Inr t)
           | c # cs \<Rightarrow> Inr (case map_of (c # cs) ''id'' of Some (PStr i) \<Rightarrow> i | _ \<Rightarrow> the key))"

definition find_decision_by_idempotency :: "string \<Rightarrow> string \<Rightarrow> front \<Rightarrow> (string \<times> string \<times> string \<times> string) option" where
  "find_decision_by_idempotency t k s =
     List.find (\<lambda>(i, r, tn, res). (r, t, Some k) \<in> set (fr_requests s)) (rev (fr_records s))"

record decision_reply =
  dy_id :: string
  dy_result :: string
  dy_job :: "string option"
  dy_idempotent :: bool

definition decision_ctx :: policy_ctx where
  "decision_ctx = \<lparr>cx_str = [], cx_num = [(''estimated_cost'', 1 / 100)]\<rparr>"

definition gate_word :: "gate_result \<Rightarrow> string" where
  "gate_word r = (case r of GateAllowed \<Rightarrow> ''allowed'' | GateDenied \<Rightarrow> ''denied'')"

text \<open>An audit event, then the rest, unless the write fails.\<close>

definition after_audit ::
  "call_net \<Rightarrow> string \<Rightarrow> string \<Rightarrow> string \<Rightarrow> string \<Rightarrow> string \<Rightarrow> pydict \<Rightarrow> (front \<Rightarrow> front \<times> (api_error + 'r)) \<Rightarrow> front \<Rightarrow> front \<times> (api_error + 'r)" where
  "after_audit nt eid t ty ety en dat k s =
     (case write_event (cn_audit nt) eid t ty ety en dat (ap_audit (fr_api s)) of
        (rs, Inl x) \<Rightarrow> (s\<lparr>fr_api := (fr_api s)\<lparr>ap_audit := rs\<rparr>\<rparr>, Inl (Crash x))
      | (rs, Inr _) \<Rightarrow> k (s\<lparr>fr_api := (fr_api s)\<lparr>ap_audit := rs\<rparr>\<rparr>))"

text \<open>From the gate on. The uuids are: decision, request, its event, job, its event.\<close>

definition decision_job :: "call_net \<Rightarrow> string \<Rightarrow> string \<Rightarrow> pydict \<Rightarrow> gate_decision \<Rightarrow> front \<Rightarrow> front \<times> (api_error + decision_reply)" where
  "decision_job nt t ty pay d s =
     (if gd_result d = GateAllowed \<and> ty = ''job_submit''
      then case insert_execution_job (cn_now nt) (cn_ids nt ! 3) (Some (cn_ids nt ! 0)) t ''queued'' pay (ap_jobs (fr_api s)) of
             None \<Rightarrow> (s, Inl (Crash (OtherException ''IntegrityError'')))
           | Some (tbl, _) \<Rightarrow>
               after_audit nt (cn_ids nt ! 4) t ''job.created'' ''job'' (cn_ids nt ! 3) [(''decision_id'', PStr (cn_ids nt ! 0))]
                 (\<lambda>s. (s, Inr \<lparr>dy_id = cn_ids nt ! 0, dy_result = gate_word (gd_result d), dy_job = Some (cn_ids nt ! 3), dy_idempotent = False\<rparr>))
                 (s\<lparr>fr_api := (fr_api s)\<lparr>ap_jobs := tbl\<rparr>\<rparr>)
      else (s, Inr \<lparr>dy_id = cn_ids nt ! 0, dy_result = gate_word (gd_result d), dy_job = None, dy_idempotent = False\<rparr>))"

definition record_decision :: "call_net \<Rightarrow> string \<Rightarrow> string option \<Rightarrow> gate_decision \<Rightarrow> front \<Rightarrow> front" where
  "record_decision nt t key d s =
     s\<lparr>fr_requests := fr_requests s @ [(cn_ids nt ! 1, t, key)],
       fr_records := fr_records s @ [(cn_ids nt ! 0, cn_ids nt ! 1, t, gate_word (gd_result d))]\<rparr>"

definition create_decision ::
  "site \<Rightarrow> call_net \<Rightarrow> (front \<Rightarrow> front) \<Rightarrow> string option \<Rightarrow> string option \<Rightarrow> string option \<Rightarrow> pydict \<Rightarrow> front \<Rightarrow> front \<times> (api_error + decision_reply)" where
  "create_decision si nt env key rtype idem pay s =
     (case decisions_tenant si key of
        Inl x \<Rightarrow> (s, Inl x)
      | Inr t \<Rightarrow>
          (case evaluate_policies (si_tiers si) (get_tenant si t) (count_jobs_for_tenant_total t (ap_jobs (fr_api s))) ''decision.create'' (Some decision_ctx) of
             Inl x \<Rightarrow> (s, Inl (Crash x))
           | Inr p \<Rightarrow>
               if \<not> po_allowed p
               then after_audit nt (cn_ids nt ! 2) t ''policy.denied'' ''decision'' (cn_ids nt ! 0)
                      [(''reason'', PStr (po_reason p)), (''policy_name'', PStr (po_name p))] (\<lambda>s. (s, Inl (Http 402 (po_reason p)))) s
               else case (if truthy idem then find_decision_by_idempotency t (the idem) s else None) of
                 Some (i, r, tn, res) \<Rightarrow> (s, Inr \<lparr>dy_id = i, dy_result = res, dy_job = None, dy_idempotent = True\<rparr>)
               | None \<Rightarrow>
                   (let s = env s
                    in case gate_evaluate (si_plans si) (get_tenant si t) (ap_jobs (fr_api s)) t pay of
                         Inl x \<Rightarrow> (s, Inl (Crash x))
                       | Inr d \<Rightarrow>
                           after_audit nt (cn_ids nt ! 2) t (if gd_result d = GateAllowed then ''decision.allowed'' else ''decision.denied'')
                             ''decision'' (cn_ids nt ! 0) [(''request_id'', PStr (cn_ids nt ! 1)), (''reason'', PStr (gate_text (gd_reason d)))]
                             (decision_job nt t (opt_or rtype ''job_submit'') pay d) (record_decision nt t idem d s))))"

definition get_decision :: "site \<Rightarrow> string option \<Rightarrow> string \<Rightarrow> front \<Rightarrow> api_error + string" where
  "get_decision si key i s =
     (case decisions_tenant si key of
        Inl x \<Rightarrow> Inl x
      | Inr t \<Rightarrow>
          (case List.find (\<lambda>(j, r, tn, res). j = i \<and> tn = t) (fr_records s) of
             None \<Rightarrow> Inl (Http 404 ''Decision not found'')
           | Some (j, r, tn, res) \<Rightarrow> Inr res))"

definition evaluate_decision :: "site \<Rightarrow> string option \<Rightarrow> string option \<Rightarrow> pydict \<Rightarrow> front \<Rightarrow> api_error + string \<times> bool" where
  "evaluate_decision si key rtype pay s =
     (case decisions_tenant si key of
        Inl x \<Rightarrow> Inl x
      | Inr t \<Rightarrow>
          (case evaluate_policies (si_tiers si) (get_tenant si t) (count_jobs_for_tenant_total t (ap_jobs (fr_api s))) ''decision.evaluate''
                  (Some \<lparr>cx_str = [(''request_type'', opt_or rtype ''job_submit'')], cx_num = []\<rparr>) of
             Inl x \<Rightarrow> Inl (Crash x)
           | Inr p \<Rightarrow>
               if \<not> po_allowed p then Inl (Http 403 (po_reason p))
               else (case gate_evaluate (si_plans si) (get_tenant si t) (ap_jobs (fr_api s)) t pay of
                       Inl x \<Rightarrow> Inl (Crash x)
                     | Inr d \<Rightarrow> Inr (gate_word (gd_result d), gd_result d = GateAllowed \<and> opt_or rtype ''job_submit'' = ''job_submit''))))"

section \<open>Facts\<close>

lemma after_auditD:
  assumes "after_audit nt eid t ty ety en dat k s = (s', Inr r)"
  shows "\<exists>rs. k (s\<lparr>fr_api := (fr_api s)\<lparr>ap_audit := rs\<rparr>\<rparr>) = (s', Inr r)"
  using assms by (auto simp: after_audit_def split: prod.splits sum.splits)

lemma get_inserted:
  assumes "insert_execution_job now i dec t st pl tbl = Some (tbl', u)"
  shows "get_execution_job i tbl' = Some (new_exec_job now i dec t st pl) \<and> tbl' = tbl @ [new_exec_job now i dec t st pl]"
proof -
  have n: "\<not> has_job i tbl" and e: "tbl' = tbl @ [new_exec_job now i dec t st pl]"
    using assms by (auto simp: insert_execution_job_def split: if_splits)
  from n have "List.find (\<lambda>j. jid j = i) tbl = None" by (auto simp: has_job_def find_None_iff)
  then show ?thesis unfolding e get_execution_job_def
    by (induction tbl) (auto simp: new_exec_job_def split: if_splits)
qed

lemma decision_jobD:
  assumes "decision_job nt t ty pay d s = (s', Inr r)"
  shows "\<not> dy_idempotent r \<and> dy_id r = cn_ids nt ! 0 \<and> dy_result r = gate_word (gd_result d)
    \<and> fr_requests s' = fr_requests s \<and> fr_records s' = fr_records s
    \<and> (dy_job r = (if gd_result d = GateAllowed \<and> ty = ''job_submit'' then Some (cn_ids nt ! 3) else None))
    \<and> ap_jobs (fr_api s') = (if gd_result d = GateAllowed \<and> ty = ''job_submit''
         then ap_jobs (fr_api s) @ [new_exec_job (cn_now nt) (cn_ids nt ! 3) (Some (cn_ids nt ! 0)) t ''queued'' pay] else ap_jobs (fr_api s))"
proof (cases "gd_result d = GateAllowed \<and> ty = ''job_submit''")
  case True
  then obtain tbl u where i: "insert_execution_job (cn_now nt) (cn_ids nt ! 3) (Some (cn_ids nt ! 0)) t ''queued'' pay (ap_jobs (fr_api s)) = Some (tbl, u)"
    using assms by (auto simp: decision_job_def split: option.splits prod.splits)
  from True assms i get_inserted [OF i] show ?thesis
    by (auto simp: decision_job_def dest!: after_auditD)
next
  case False
  then show ?thesis using assms by (auto simp: decision_job_def)
qed

lemma create_decisionD:
  assumes "create_decision si nt env key rtype idem pay s = (s', Inr r)" and "\<not> dy_idempotent r"
  shows "\<exists>t p d rs. decisions_tenant si key = Inr t
    \<and> evaluate_policies (si_tiers si) (get_tenant si t) (count_jobs_for_tenant_total t (ap_jobs (fr_api s))) ''decision.create'' (Some decision_ctx) = Inr p
    \<and> po_allowed p \<and> gate_evaluate (si_plans si) (get_tenant si t) (ap_jobs (fr_api (env s))) t pay = Inr d
    \<and> decision_job nt t (opt_or rtype ''job_submit'') pay d
        ((record_decision nt t idem d (env s))\<lparr>fr_api := (fr_api (env s))\<lparr>ap_audit := rs\<rparr>\<rparr>) = (s', Inr r)"
proof -
  obtain t where t: "decisions_tenant si key = Inr t" using assms(1) by (auto simp: create_decision_def split: sum.splits)
  obtain p where p: "evaluate_policies (si_tiers si) (get_tenant si t) (count_jobs_for_tenant_total t (ap_jobs (fr_api s))) ''decision.create''
      (Some decision_ctx) = Inr p"
    using assms(1) t by (auto simp: create_decision_def split: sum.splits)
  have a: "po_allowed p"
    using assms(1) t p by (auto simp: create_decision_def split: if_splits dest!: after_auditD)
  have f: "(if truthy idem then find_decision_by_idempotency t (the idem) s else None) = None"
  proof (rule ccontr)
    assume "(if truthy idem then find_decision_by_idempotency t (the idem) s else None) \<noteq> None"
    then obtain q where "(if truthy idem then find_decision_by_idempotency t (the idem) s else None) = Some q" by blast
    with assms t p a show False by (auto simp: create_decision_def Let_def split: prod.splits)
  qed
  obtain d where d: "gate_evaluate (si_plans si) (get_tenant si t) (ap_jobs (fr_api (env s))) t pay = Inr d"
    using assms(1) t p a f by (auto simp: create_decision_def Let_def split: sum.splits)
  from assms(1) t p a f d obtain rs where
    "decision_job nt t (opt_or rtype ''job_submit'') pay d
        ((record_decision nt t idem d (env s))\<lparr>fr_api := (fr_api (record_decision nt t idem d (env s)))\<lparr>ap_audit := rs\<rparr>\<rparr>) = (s', Inr r)"
    by (auto simp: create_decision_def Let_def dest!: after_auditD)
  moreover have "fr_api (record_decision nt t idem d (env s)) = fr_api (env s)" by (simp add: record_decision_def)
  ultimately show ?thesis using t p a d by auto
qed

section \<open>Properties\<close>

text \<open>A decision creates a job exactly when it should. A new decision that is answered was allowed by the policy, its
  result is that of the gate on the jobs at that moment, and request and record of it are stored with the tenant and the
  result. A job is created exactly when the gate allowed and the request asks for one; it is the only change of the
  job table, queued for the tenant under the decision with the request's payload.\<close>

theorem decision_creates_job_iff_allowed:
  assumes "create_decision si nt env key rtype idem pay s = (s', Inr r)" and "\<not> dy_idempotent r"
  shows "\<exists>t d p. decisions_tenant si key = Inr t
    \<and> evaluate_policies (si_tiers si) (get_tenant si t) (count_jobs_for_tenant_total t (ap_jobs (fr_api s))) ''decision.create'' (Some decision_ctx) = Inr p
    \<and> po_allowed p \<and> gate_evaluate (si_plans si) (get_tenant si t) (ap_jobs (fr_api (env s))) t pay = Inr d
    \<and> dy_result r = gate_word (gd_result d)
    \<and> fr_records s' = fr_records (env s) @ [(dy_id r, cn_ids nt ! 1, t, dy_result r)]
    \<and> fr_requests s' = fr_requests (env s) @ [(cn_ids nt ! 1, t, idem)]
    \<and> (case dy_job r of
         None \<Rightarrow> (gd_result d = GateDenied \<or> opt_or rtype ''job_submit'' \<noteq> ''job_submit'') \<and> ap_jobs (fr_api s') = ap_jobs (fr_api (env s))
       | Some j \<Rightarrow> gd_result d = GateAllowed \<and> opt_or rtype ''job_submit'' = ''job_submit''
           \<and> ap_jobs (fr_api s') = ap_jobs (fr_api (env s)) @ [new_exec_job (cn_now nt) j (Some (dy_id r)) t ''queued'' pay])"
proof -
  obtain t p d rs where h: "decisions_tenant si key = Inr t"
    "evaluate_policies (si_tiers si) (get_tenant si t) (count_jobs_for_tenant_total t (ap_jobs (fr_api s))) ''decision.create'' (Some decision_ctx) = Inr p"
    "po_allowed p" "gate_evaluate (si_plans si) (get_tenant si t) (ap_jobs (fr_api (env s))) t pay = Inr d"
    and j: "decision_job nt t (opt_or rtype ''job_submit'') pay d
        ((record_decision nt t idem d (env s))\<lparr>fr_api := (fr_api (env s))\<lparr>ap_audit := rs\<rparr>\<rparr>) = (s', Inr r)"
    using create_decisionD [OF assms] by (elim exE conjE) (rule that)
  have g: "gd_result d = GateDenied \<longleftrightarrow> gd_result d \<noteq> GateAllowed" by (cases "gd_result d") auto
  have "dy_id r = cn_ids nt ! 0" "dy_result r = gate_word (gd_result d)"
    "fr_requests s' = fr_requests (env s) @ [(cn_ids nt ! 1, t, idem)]"
    "fr_records s' = fr_records (env s) @ [(cn_ids nt ! 0, cn_ids nt ! 1, t, gate_word (gd_result d))]"
    "dy_job r = (if gd_result d = GateAllowed \<and> opt_or rtype ''job_submit'' = ''job_submit'' then Some (cn_ids nt ! 3) else None)"
    "ap_jobs (fr_api s') = (if gd_result d = GateAllowed \<and> opt_or rtype ''job_submit'' = ''job_submit''
         then ap_jobs (fr_api (env s)) @ [new_exec_job (cn_now nt) (cn_ids nt ! 3) (Some (cn_ids nt ! 0)) t ''queued'' pay]
         else ap_jobs (fr_api (env s)))"
    using decision_jobD [OF j] by (simp_all add: record_decision_def)
  with h g show ?thesis by auto
qed

definition demo_front :: front where
  "demo_front = \<lparr>fr_api = (demo_api ''running'')\<lparr>ap_jobs := []\<rparr>, fr_mem = [], fr_requests = [], fr_records = []\<rparr>"

definition demo_ids :: call_net where
  "demo_ids = demo_net\<lparr>cn_ids := [''d0'', ''r0'', ''e0'', ''j0'', ''e1'']\<rparr>"

lemma demo_decision:
  "\<exists>s'. create_decision demo_site demo_ids (\<lambda>s. s) (Some ''acme'') None (Some ''key-1'') [] demo_front =
     (s', Inr \<lparr>dy_id = ''d0'', dy_result = ''allowed'', dy_job = Some ''j0'', dy_idempotent = False\<rparr>)
     \<and> ap_jobs (fr_api s') = [new_exec_job 100 ''j0'' (Some ''d0'') ''acme'' ''queued'' []]"
proof -
  have t: "decisions_tenant demo_site (Some ''acme'') = Inr ''acme''" by code_simp
  have p: "evaluate_policies (si_tiers demo_site) (get_tenant demo_site ''acme'') (count_jobs_for_tenant_total ''acme'' []) ''decision.create'' (Some decision_ctx)
      = Inr \<lparr>po_allowed = True, po_reason = ''within limits'', po_name = ''quota_policy''\<rparr>" by code_simp
  have g: "gate_evaluate (si_plans demo_site) (get_tenant demo_site ''acme'') [] ''acme'' [] =
      Inr \<lparr>gd_result = GateAllowed, gd_reason = QuotaOk, gd_tenant = ''acme'', gd_limit = 10, gd_cost = estimate_cost []\<rparr>"
    by (simp add: gate_evaluate_def load_plans_view_def load_plans_def plan_max_jobs_def count_jobs_for_tenant_total_def demo_site_def get_tenant_def)
  have f: "find_decision_by_idempotency ''acme'' ''key-1'' demo_front = None" by (simp add: find_decision_by_idempotency_def demo_front_def)
  have w: "write_event PgOk i t ty ety en dat [] = ([\<lparr>ae_id = i, ae_tenant = t, ae_type = ty, ae_entity_type = ety, ae_entity = en, ae_data = dat\<rparr>], Inr (Written i))"
    for i t ty ety en dat by (simp add: write_event_def insert_audit_event_def)
  have j: "ap_jobs (fr_api demo_front) = []" by (simp add: demo_front_def)
  show ?thesis
    using t p g f
    by (simp add: create_decision_def after_audit_def decision_job_def record_decision_def Let_def gate_word_def opt_or_def j)
      (simp add: demo_ids_def demo_net_def demo_front_def demo_api_def w decision_job_def after_audit_def gate_word_def insert_execution_job_def has_job_def write_event_def insert_audit_event_def same_fact_def)
qed

theorem decision_creates_job_iff_allowed_witness:
  "\<exists>s' d. create_decision demo_site demo_ids (\<lambda>s. s) (Some ''acme'') None (Some ''key-1'') [] demo_front =
     (s', Inr \<lparr>dy_id = ''d0'', dy_result = ''allowed'', dy_job = Some ''j0'', dy_idempotent = False\<rparr>)
     \<and> gate_evaluate (si_plans demo_site) (get_tenant demo_site ''acme'') (ap_jobs (fr_api demo_front)) ''acme'' [] = Inr d
     \<and> gd_result d = GateAllowed"
proof -
  obtain s' where s: "create_decision demo_site demo_ids (\<lambda>s. s) (Some ''acme'') None (Some ''key-1'') [] demo_front =
     (s', Inr \<lparr>dy_id = ''d0'', dy_result = ''allowed'', dy_job = Some ''j0'', dy_idempotent = False\<rparr>)"
    using demo_decision by blast
  have t: "decisions_tenant demo_site (Some ''acme'') = Inr ''acme''" by code_simp
  from decision_creates_job_iff_allowed [OF s] t s show ?thesis by auto
qed

text \<open>A decision can be repeated. Once a decision with an idempotency key has been recorded, every later request of the
  tenant with this key that the policy lets pass answers with the same decision and result and changes nothing, as
  long as no other decision was recorded under the key in between.\<close>

theorem decision_replay_is_idempotent:
  assumes "create_decision si nt env key rtype (Some k) pay s = (s', Inr r)" and "\<not> dy_idempotent r" and "k \<noteq> []"
    and "decisions_tenant si key = Inr t"
    and "fr_requests c = fr_requests s' @ rq" and "fr_records c = fr_records s' @ rc"
    and "\<forall>x\<in>set rc. (fst (snd x), t, Some k) \<notin> set (fr_requests c)"
    and "evaluate_policies (si_tiers si) (get_tenant si t) (count_jobs_for_tenant_total t (ap_jobs (fr_api c))) ''decision.create'' (Some decision_ctx) = Inr p"
    and "po_allowed p"
  shows "create_decision si nt' env' key rtype' (Some k) pay' c =
    (c, Inr \<lparr>dy_id = dy_id r, dy_result = dy_result r, dy_job = None, dy_idempotent = True\<rparr>)"
proof -
  obtain d rs where j: "decision_job nt t (opt_or rtype ''job_submit'') pay d
        ((record_decision nt t (Some k) d (env s))\<lparr>fr_api := (fr_api (env s))\<lparr>ap_audit := rs\<rparr>\<rparr>) = (s', Inr r)"
    using create_decisionD [OF assms(1,2)] assms(4) by auto
  let ?e = "(dy_id r, cn_ids nt ! 1, t, dy_result r)"
  have e: "fr_records s' = fr_records (env s) @ [?e]" "fr_requests s' = fr_requests (env s) @ [(cn_ids nt ! 1, t, Some k)]"
    using decision_jobD [OF j] by (simp_all add: record_decision_def)
  let ?P = "\<lambda>(i, r, tn, res). (r, t, Some k) \<in> set (fr_requests c)"
  have n: "List.find ?P (rev rc) = None" using assms(7) by (auto simp: find_None_iff)
  have skip: "List.find ?P (xs @ x # ys) = Some x" if "List.find ?P xs = None" and "?P x" for xs x ys
    using that by (induction xs) (auto split: if_splits)
  have "?P ?e" using e(2) assms(5) by simp
  then have "find_decision_by_idempotency t k c = Some ?e"
    unfolding find_decision_by_idempotency_def assms(6) e(1) using skip [OF n] by simp
  then show ?thesis using assms(3,4,8,9) by (simp add: create_decision_def)
qed

theorem decision_replay_is_idempotent_witness:
  "\<exists>s'. create_decision demo_site demo_ids (\<lambda>s. s) (Some ''acme'') None (Some ''key-1'') [] s' =
     (s', Inr \<lparr>dy_id = ''d0'', dy_result = ''allowed'', dy_job = None, dy_idempotent = True\<rparr>)"
proof -
  obtain s' where s: "create_decision demo_site demo_ids (\<lambda>s. s) (Some ''acme'') None (Some ''key-1'') [] demo_front =
     (s', Inr \<lparr>dy_id = ''d0'', dy_result = ''allowed'', dy_job = Some ''j0'', dy_idempotent = False\<rparr>)"
    and j: "ap_jobs (fr_api s') = [new_exec_job 100 ''j0'' (Some ''d0'') ''acme'' ''queued'' []]"
    using demo_decision by blast
  have t: "decisions_tenant demo_site (Some ''acme'') = Inr ''acme''" by code_simp
  have p: "evaluate_policies (si_tiers demo_site) (get_tenant demo_site ''acme'')
      (count_jobs_for_tenant_total ''acme'' [new_exec_job 100 ''j0'' (Some ''d0'') ''acme'' ''queued'' []]) ''decision.create'' (Some decision_ctx)
      = Inr \<lparr>po_allowed = True, po_reason = ''within limits'', po_name = ''quota_policy''\<rparr>" by code_simp
  from decision_replay_is_idempotent [OF s _ _ t, of s' "[]" "[]" _ demo_ids "\<lambda>s. s" None "[]"] p
  show ?thesis unfolding j by auto
qed


text \<open>The balance that the cap reads, and when the cap lets pass.\<close>

lemma spend_cap_cases:
  assumes "plan_limits_or_refusal f plan = Inr (Some c)" and "0 < pf_spend_cap c"
  shows "check_spend_cap f True PgOk l t cost plan =
    (if balance_rows (rows l) t + cost > pf_spend_cap c then Inr (CapExceeded (balance_rows (rows l) t) (pf_spend_cap c)) else Inr CapOk)"
  using assms by (simp add: check_spend_cap_def get_tenant_balance_def pg_execute_def)

lemma spend_cap_fail_closed:
  "plan_limits_or_refusal f plan = Inr None \<Longrightarrow> check_spend_cap f p oc l t cost plan = Inr CapPlanUnavailable"
  "plan_limits_or_refusal f plan = Inr (Some c) \<Longrightarrow> 0 < pf_spend_cap c \<Longrightarrow> check_spend_cap f False oc l t cost plan = Inr CapNotPersistent"
  by (simp_all add: check_spend_cap_def)

lemma spend_cap_needs_balance:
  "plan_limits_or_refusal f plan = Inr (Some c) \<Longrightarrow> 0 < pf_spend_cap c \<Longrightarrow> oc \<noteq> PgOk \<Longrightarrow>
     check_spend_cap f True oc l t cost plan = Inr CapBalanceUnavailable"
  by (cases oc) (simp_all add: check_spend_cap_def get_tenant_balance_def pg_execute_def)

text \<open>The spend cap refuses the tenants with money. It adds the cost to the balance, credits minus debits, and compares
  with the cap: a tenant whose prepaid balance is above the cap of its plan is refused every job that costs
  anything, while spending lowers the balance, so that a tenant that was let pass is let pass after every further debit,
  however much it has spent.\<close>

theorem spend_cap_refuses_the_funded:
  assumes "plan_limits_or_refusal f plan = Inr (Some c)" and "0 < pf_spend_cap c"
    and "pf_spend_cap c < balance_rows (rows l) t" and "0 \<le> cost"
    and "check_spend_cap f True PgOk lp t cost plan = Inr CapOk" and "balance_rows (rows lq) t \<le> balance_rows (rows lp) t"
  shows "check_spend_cap f True PgOk l t cost plan = Inr (CapExceeded (balance_rows (rows l) t) (pf_spend_cap c))
    \<and> check_spend_cap f True PgOk lq t cost plan = Inr CapOk"
  using assms by (auto simp: spend_cap_cases [OF assms(1,2)] split: if_splits)

definition free_plan_file :: plans_file where
  "free_plan_file = PlansJson (PDict [(''free'', PDict [(''jobs_per_month'', PInt 50), (''gpu_s_per_job'', PInt 3600)])])"

theorem spend_cap_refuses_the_funded_witness:
  "check_spend_cap free_plan_file True PgOk (b_ledger ex_funded) ''acme'' (1 / 1000) (Some ''free'') = Inr (CapExceeded 5 (1 / 2))
   \<and> check_spend_cap free_plan_file True PgOk ledger_init ''acme'' (1 / 1000) (Some ''free'') = Inr CapOk"
proof -
  let ?c = "\<lparr>pf_max_jobs = 50, pf_gpu_s_per_job = 3600, pf_gpu_s_per_month = 180000, pf_gpu_hours = 50, pf_spend_cap = 1 / 2, pf_overage = 0\<rparr>"
  have p: "plan_limits_or_refusal free_plan_file (Some ''free'') = Inr (Some ?c)" by code_simp
  have b: "balance_rows (rows (b_ledger ex_funded)) ''acme'' = 5" "balance_rows (rows ledger_init) ''acme'' = 0"
    by (simp_all add: ex_funded_rows balance_rows_def ledger_init_def signed_def)
  have o: "check_spend_cap free_plan_file True PgOk ledger_init ''acme'' (1 / 1000) (Some ''free'') = Inr CapOk"
    by (simp add: spend_cap_cases [OF p] b)
  from spend_cap_refuses_the_funded [OF p, where l = "b_ledger ex_funded" and t = "''acme''" and cost = "1 / 1000" and lp = ledger_init and lq = ledger_init] o
  show ?thesis by (simp add: b)
qed

text \<open>A decision route takes a tenant's id for its key. Whoever sends the id of an existing tenant, without knowing
  any key whose hash is stored, is that tenant to the decision routes, and reads and creates its decisions.\<close>

theorem decisions_take_tenant_ids_as_keys:
  assumes "get_tenant si t = Some row" and "t \<noteq> []" and "map_of row ''id'' = Some (PStr t)"
    and "(i, r, t, res) \<in> set (fr_records s)" and "distinct (map fst (fr_records s))"
  shows "decisions_tenant si (Some t) = Inr t \<and> get_decision si (Some t) i s = Inr res"
proof -
  have "row \<noteq> []" using assms(3) by auto
  then have d: "decisions_tenant si (Some t) = Inr t"
    using assms(1-3) by (cases row) (auto simp: decisions_tenant_def opt_or_def)
  have "List.find (\<lambda>(j, r, tn, res). j = i \<and> tn = t) xs = Some (i, r, t, res)"
    if "(i, r, t, res) \<in> set xs" and "distinct (map fst xs)" for xs
    using that
  proof (induction xs)
    case (Cons x xs)
    show ?case
    proof (cases "x = (i, r, t, res)")
      case False
      with Cons.prems have m: "(i, r, t, res) \<in> set xs" by simp
      then have "i \<in> fst ` set xs" by force
      with Cons.prems have "fst x \<noteq> i" by auto
      with Cons.IH [OF m] Cons.prems show ?thesis by (simp add: case_prod_beta)
    qed simp
  qed simp
  from this [OF assms(4,5)] d show ?thesis by (simp add: get_decision_def)
qed

text \<open>Jobs of the internal submit are kept in memory only: they never count against the limit that it checks.\<close>

lemma demo_jobs_escape_the_limit:
  "demo_submit_job si nt p oc t pl s = (s', r) \<Longrightarrow> check_limits si t' (fr_api s') = check_limits si t' (fr_api s)"
  by (auto simp: demo_submit_job_def split: sum.splits bool.splits if_splits)

text \<open>A job limit that is checked keeps the table within it.\<close>

lemma check_limits_exact:
  assumes "get_tenant si t = Some row" and "map_of row ''plan'' = Some (PStr plan)"
    and "plan_limits_or_refusal (si_plans si) (Some plan) = Inr (Some c)"
  shows "check_limits si t a = Inr (pf_max_jobs c < 0 \<or> int (count_jobs_for_tenant_total t (ap_jobs a)) < pf_max_jobs c)"
  using assms by (simp add: check_limits_def dict_get_def)

end
