(* ===== verification/Accounts.thy ===== *)
theory Accounts
  imports Prelude
begin

text \<open>
  Users, tenants, invite codes and processed invoices in the two databases: \<open>src/db_pg_sync.py\<close> (PostgreSQL, prefix
  \<open>pg_\<close>), \<open>src/db.py\<close> (SQLite, prefix \<open>sq_\<close>) and the functions of \<open>src/db_adapter.py\<close> that choose between them
  (prefix \<open>ad_\<close>; their flag says that PostgreSQL is configured).

  A table is the list of its rows in the order of insertion; a query for one row takes the first that matches. Times are
  integers; the columns \<open>updated_at\<close>, \<open>avatar_url\<close> and, for tenants, \<open>created_at\<close> (the order of insertion) are left out.
  The digest of a key (SHA-256) is the parameter \<open>dig\<close>. The constraints are those of \<open>src/migrations\<close>: primary keys, unique
  non-empty digests, unique invite codes. A statement that violates one raises and leaves the table.

  Shown: the invariant of the tables (unique ids and digests) and that every operation keeps it; a verification token
  works once; a failed rotation changes nothing and a restored token restores the account; the SQLite variants agree
  with the PostgreSQL ones where the code says so. Also shown: a used-up invite code can be used again by
  requests that validated it before, the two backends update subscriptions differently, and the SQLite check for a
  processed invoice never answers.
\<close>

section \<open>Updates that keep a key\<close>

definition upd :: "('r \<Rightarrow> bool) \<Rightarrow> ('r \<Rightarrow> 'r) \<Rightarrow> 'r list \<Rightarrow> 'r list" where
  "upd p f rs = map (\<lambda>r. if p r then f r else r) rs"

locale keyed_update =
  fixes key :: "'r \<Rightarrow> 'k" and f :: "'r \<Rightarrow> 'r"
  assumes key_kept: "key (f r) = key r"
begin

lemma map_key_upd [simp]: "map key (upd p f rs) = map key rs"
  by (simp add: upd_def key_kept)

lemma distinct_upd: "distinct (map key rs) \<Longrightarrow> distinct (map key (upd p f rs))"
  by simp

lemma find_upd:
  "List.find (\<lambda>r. key r = k) (upd p f rs) = map_option (\<lambda>r. if p r then f r else r) (List.find (\<lambda>r. key r = k) rs)"
  by (induction rs) (auto simp: upd_def key_kept)

end

text \<open>The number of rows a key selects, and the row itself.\<close>

lemma count_key:
  "distinct (map key rs) \<Longrightarrow> length (filter (\<lambda>r. key r = k) rs) = (if k \<in> key ` set rs then 1 else 0)"
  by (induction rs) (auto simp: filter_empty_conv)

lemma find_key:
  assumes "distinct (map key rs)" and "r \<in> set rs"
  shows "List.find (\<lambda>x. key x = key r) rs = Some r"
  using assms by (induction rs) auto

lemma find_SomeD: "List.find p rs = Some r \<Longrightarrow> r \<in> set rs \<and> p r"
  by (induction rs) (auto split: if_splits)

section \<open>Rows\<close>

record user_row =
  us_id :: string
  us_email :: string
  us_name :: string
  us_provider :: string
  us_tenant :: string
  us_key :: string
  us_hash :: string
  us_password :: "string option"
  us_verified :: bool
  us_token :: "string option"
  us_expires :: "int option"
  us_created :: int

record ten_row =
  tn_id :: string
  tn_key :: string
  tn_hash :: string
  tn_name :: string
  tn_plan :: string
  tn_status :: string
  tn_customer :: string
  tn_subscription :: string
  tn_end :: "string option"

record invite_row =
  iv_id :: nat
  iv_code :: string
  iv_created_by :: string
  iv_max_uses :: int
  iv_used :: int
  iv_active :: bool
  iv_expires :: "int option"
  iv_note :: string

record invoice_row =
  in_invoice :: string
  in_type :: string
  in_tenant :: string

record accounts =
  ac_users :: "user_row list"
  ac_tenants :: "ten_row list"
  ac_invites :: "invite_row list"
  ac_usage :: "(nat \<times> string) list"
  ac_invoices :: "invoice_row list"
  ac_beta :: "(int \<times> rat \<times> bool) option"

abbreviation UniqueViolation :: pyexc where "UniqueViolation \<equiv> OtherException ''UniqueViolation''"
abbreviation ForeignKeyViolation :: pyexc where "ForeignKeyViolation \<equiv> OtherException ''ForeignKeyViolation''"
abbreviation RuntimeError :: pyexc where "RuntimeError \<equiv> OtherException ''RuntimeError''"
abbreviation AttributeError :: pyexc where "AttributeError \<equiv> OtherException ''AttributeError''"

definition key_digest :: "(string \<Rightarrow> string) \<Rightarrow> string \<Rightarrow> string result" where
  "key_digest dig k = (if k = [] then Inl ValueError else Inr (dig k))"

section \<open>Tenants\<close>

definition seed_row :: "(string \<Rightarrow> string) \<Rightarrow> string \<Rightarrow> string \<Rightarrow> string \<Rightarrow> ten_row" where
  "seed_row dig key tid name =
     \<lparr>tn_id = tid, tn_key = [], tn_hash = dig key, tn_name = name, tn_plan = ''free'', tn_status = ''inactive'',
      tn_customer = [], tn_subscription = [], tn_end = None\<rparr>"

text \<open>
  The dictionary of keys as a list of key, tenant id and name. On PostgreSQL a digest that another tenant has
  raises (only the id is in the conflict clause) and nothing is committed.
\<close>

fun seed_rows :: "(string \<Rightarrow> string) \<Rightarrow> (string \<times> string \<times> string) list \<Rightarrow> ten_row list \<Rightarrow> ten_row list result" where
  "seed_rows dig [] ts = Inr ts"
| "seed_rows dig ((k, tid, name) # ks) ts =
     (if tid \<in> tn_id ` set ts then seed_rows dig ks ts
      else if dig k \<noteq> [] \<and> dig k \<in> tn_hash ` set ts then Inl UniqueViolation
      else seed_rows dig ks (ts @ [seed_row dig k tid name]))"

definition pg_seed_tenants :: "(string \<Rightarrow> string) \<Rightarrow> (string \<times> string \<times> string) list \<Rightarrow> accounts \<Rightarrow> accounts \<times> unit result" where
  "pg_seed_tenants dig ks s =
     (case seed_rows dig ks (ac_tenants s) of Inl x \<Rightarrow> (s, Inl x) | Inr ts \<Rightarrow> (s\<lparr>ac_tenants := ts\<rparr>, Inr ()))"

fun sq_seed_rows :: "(string \<Rightarrow> string) \<Rightarrow> (string \<times> string \<times> string) list \<Rightarrow> ten_row list \<Rightarrow> ten_row list" where
  "sq_seed_rows dig [] ts = ts"
| "sq_seed_rows dig ((k, tid, name) # ks) ts =
     sq_seed_rows dig ks (if tid \<in> tn_id ` set ts then ts else ts @ [seed_row dig k tid name])"

definition sq_seed_tenants :: "(string \<Rightarrow> string) \<Rightarrow> (string \<times> string \<times> string) list \<Rightarrow> accounts \<Rightarrow> accounts \<times> unit result" where
  "sq_seed_tenants dig ks s = (s\<lparr>ac_tenants := sq_seed_rows dig ks (ac_tenants s)\<rparr>, Inr ())"

definition tenant_row :: "string \<Rightarrow> accounts \<Rightarrow> ten_row option" where
  "tenant_row tid s = List.find (\<lambda>t. tn_id t = tid) (ac_tenants s)"

definition tenant_by_key :: "(string \<Rightarrow> string) \<Rightarrow> string \<Rightarrow> accounts \<Rightarrow> ten_row option" where
  "tenant_by_key dig key s = List.find (\<lambda>t. tn_hash t = dig key) (ac_tenants s)"

text \<open>PostgreSQL writes every column; SQLite only the non-empty arguments.\<close>

definition pg_update_tenant_subscription :: "string \<Rightarrow> string \<Rightarrow> string \<Rightarrow> string \<Rightarrow> string \<Rightarrow> string option \<Rightarrow> accounts \<Rightarrow> accounts" where
  "pg_update_tenant_subscription tid cus sub st plan fin s =
     s\<lparr>ac_tenants := upd (\<lambda>t. tn_id t = tid)
         (\<lambda>t. t\<lparr>tn_customer := cus, tn_subscription := sub, tn_status := st, tn_plan := plan, tn_end := fin\<rparr>) (ac_tenants s)\<rparr>"

definition sq_update_tenant_subscription :: "string \<Rightarrow> string \<Rightarrow> string \<Rightarrow> string \<Rightarrow> string \<Rightarrow> string option \<Rightarrow> accounts \<Rightarrow> accounts" where
  "sq_update_tenant_subscription tid cus sub st plan fin s =
     s\<lparr>ac_tenants := upd (\<lambda>t. tn_id t = tid)
         (\<lambda>t. t\<lparr>tn_customer := (if cus = [] then tn_customer t else cus),
                tn_subscription := (if sub = [] then tn_subscription t else sub),
                tn_status := (if st = [] then tn_status t else st), tn_plan := (if plan = [] then tn_plan t else plan),
                tn_end := (if truthy fin then fin else tn_end t)\<rparr>) (ac_tenants s)\<rparr>"

definition ad_update_tenant_subscription :: "bool \<Rightarrow> string \<Rightarrow> string \<Rightarrow> string \<Rightarrow> string \<Rightarrow> string \<Rightarrow> string option \<Rightarrow> accounts \<Rightarrow> accounts" where
  "ad_update_tenant_subscription pg tid cus sub st plan fin =
     (if pg then pg_update_tenant_subscription tid cus sub st plan fin else sq_update_tenant_subscription tid cus sub st plan fin)"

definition set_tenant_inactive :: "string \<Rightarrow> accounts \<Rightarrow> accounts" where
  "set_tenant_inactive tid s = s\<lparr>ac_tenants := upd (\<lambda>t. tn_id t = tid) (\<lambda>t. t\<lparr>tn_status := ''inactive''\<rparr>) (ac_tenants s)\<rparr>"

definition ad_seed_tenants :: "bool \<Rightarrow> (string \<Rightarrow> string) \<Rightarrow> (string \<times> string \<times> string) list \<Rightarrow> accounts \<Rightarrow> accounts \<times> unit result" where
  "ad_seed_tenants pg dig ks s = (if pg then pg_seed_tenants dig ks s else sq_seed_tenants dig ks s)"

definition list_tenants :: "accounts \<Rightarrow> ten_row list" where
  "list_tenants s = rev (ac_tenants s)"

section \<open>Users\<close>

definition user_by_id :: "string \<Rightarrow> accounts \<Rightarrow> user_row option" where
  "user_by_id uid s = List.find (\<lambda>u. us_id u = uid) (ac_users s)"

definition user_by_email :: "string \<Rightarrow> accounts \<Rightarrow> user_row option" where
  "user_by_email m s = List.find (\<lambda>u. us_email u = m) (ac_users s)"

definition user_by_tenant :: "string \<Rightarrow> accounts \<Rightarrow> user_row option" where
  "user_by_tenant tid s =
     (case sort_key us_created (filter (\<lambda>u. us_tenant u = tid) (ac_users s)) of [] \<Rightarrow> None | u # _ \<Rightarrow> Some u)"

definition user_by_api_key :: "(string \<Rightarrow> string) \<Rightarrow> string \<Rightarrow> accounts \<Rightarrow> user_row option" where
  "user_by_api_key dig key s = (if key = [] then None else List.find (\<lambda>u. us_hash u = dig key) (ac_users s))"

definition hash_taken :: "string \<Rightarrow> string \<Rightarrow> accounts \<Rightarrow> bool" where
  "hash_taken h uid s \<longleftrightarrow> h \<noteq> [] \<and> (\<exists>u\<in>set (ac_users s). us_hash u = h \<and> us_id u \<noteq> uid)"

text \<open>An insert with \<open>ON CONFLICT (id) DO UPDATE\<close>: the update touches the listed columns only.\<close>

definition upsert_user :: "user_row \<Rightarrow> (user_row \<Rightarrow> user_row) \<Rightarrow> accounts \<Rightarrow> accounts \<times> user_row result" where
  "upsert_user new f s =
     (case user_by_id (us_id new) s of
        Some u \<Rightarrow> (s\<lparr>ac_users := upd (\<lambda>x. us_id x = us_id new) f (ac_users s)\<rparr>, Inr (f u))
      | None \<Rightarrow> if hash_taken (us_hash new) (us_id new) s then (s, Inl UniqueViolation)
                else (s\<lparr>ac_users := ac_users s @ [new]\<rparr>, Inr new))"

definition new_user :: "int \<Rightarrow> string \<Rightarrow> string \<Rightarrow> string \<Rightarrow> string \<Rightarrow> string \<Rightarrow> string \<Rightarrow> string \<Rightarrow> user_row" where
  "new_user now uid email name prov tid key h =
     \<lparr>us_id = uid, us_email = email, us_name = name, us_provider = prov, us_tenant = tid, us_key = key, us_hash = h,
      us_password = None, us_verified = False, us_token = None, us_expires = None, us_created = now\<rparr>"

definition pg_upsert_oauth_user ::
  "(string \<Rightarrow> string) \<Rightarrow> int \<Rightarrow> string \<Rightarrow> string \<Rightarrow> string \<Rightarrow> string \<Rightarrow> string \<Rightarrow> string \<Rightarrow> accounts \<Rightarrow> accounts \<times> user_row result" where
  "pg_upsert_oauth_user dig now uid email name prov tid key s =
     (case key_digest dig key of
        Inl x \<Rightarrow> (s, Inl x)
      | Inr h \<Rightarrow> upsert_user (new_user now uid email name prov tid [] h) (\<lambda>u. u\<lparr>us_email := email, us_name := name\<rparr>) s)"

text \<open>SQLite computes the digest only for a new row, and the row's tenant must exist.\<close>

definition sq_upsert_oauth_user ::
  "(string \<Rightarrow> string) \<Rightarrow> int \<Rightarrow> string \<Rightarrow> string \<Rightarrow> string \<Rightarrow> string \<Rightarrow> string \<Rightarrow> string \<Rightarrow> accounts \<Rightarrow> accounts \<times> user_row result" where
  "sq_upsert_oauth_user dig now uid email name prov tid key s =
     (case user_by_id uid s of
        Some u \<Rightarrow> (s\<lparr>ac_users := upd (\<lambda>x. us_id x = uid) (\<lambda>u. u\<lparr>us_email := email, us_name := name\<rparr>) (ac_users s)\<rparr>,
                   Inr (u\<lparr>us_email := email, us_name := name\<rparr>))
      | None \<Rightarrow>
          (case key_digest dig key of
             Inl x \<Rightarrow> (s, Inl x)
           | Inr h \<Rightarrow>
               let new = new_user now uid email name prov tid [] h
               in if tid \<notin> tn_id ` set (ac_tenants s) then (s, Inl ForeignKeyViolation)
                  else if hash_taken h uid s then (s, Inl UniqueViolation)
                  else (s\<lparr>ac_users := ac_users s @ [new]\<rparr>, Inr new)))"

definition ad_upsert_oauth_user ::
  "bool \<Rightarrow> (string \<Rightarrow> string) \<Rightarrow> int \<Rightarrow> string \<Rightarrow> string \<Rightarrow> string \<Rightarrow> string \<Rightarrow> string \<Rightarrow> string \<Rightarrow> accounts \<Rightarrow> accounts \<times> user_row result" where
  "ad_upsert_oauth_user pg dig now uid email name prov tid key s =
     (if pg then pg_upsert_oauth_user dig now uid email name prov tid key s else sq_upsert_oauth_user dig now uid email name prov tid key s)"

definition pg_create_user_with_password ::
  "(string \<Rightarrow> string) \<Rightarrow> int \<Rightarrow> string \<Rightarrow> string \<Rightarrow> string \<Rightarrow> string \<Rightarrow> string \<Rightarrow> string \<Rightarrow> string \<Rightarrow> int \<Rightarrow> accounts \<Rightarrow> accounts \<times> user_row result" where
  "pg_create_user_with_password dig now uid email name tid key pw token expires s =
     (case key_digest dig key of
        Inl x \<Rightarrow> (s, Inl x)
      | Inr h \<Rightarrow>
          (case upsert_user ((new_user now uid email name ''email'' tid [] h)\<lparr>us_password := Some pw, us_token := Some token, us_expires := Some expires\<rparr>)
                  (\<lambda>u. u\<lparr>us_email := email, us_name := name, us_password := Some pw, us_token := Some token, us_expires := Some expires\<rparr>) s of
             (s', Inl x) \<Rightarrow> (s', Inl x)
           | (s', Inr u) \<Rightarrow> (s', Inr (u\<lparr>us_password := None\<rparr>))))"

definition ad_create_user_with_password ::
  "bool \<Rightarrow> (string \<Rightarrow> string) \<Rightarrow> int \<Rightarrow> string \<Rightarrow> string \<Rightarrow> string \<Rightarrow> string \<Rightarrow> string \<Rightarrow> string \<Rightarrow> string \<Rightarrow> int \<Rightarrow> accounts \<Rightarrow> accounts \<times> user_row result" where
  "ad_create_user_with_password pg dig now uid email name tid key pw token expires s =
     (if pg then pg_create_user_with_password dig now uid email name tid key pw token expires s else (s, Inl RuntimeError))"

section \<open>Rotation\<close>

record rotation =
  ro_users :: nat
  ro_tenants :: nat
  ro_old :: string

definition old_hash :: "string \<Rightarrow> accounts \<Rightarrow> string" where
  "old_hash uid s = (case user_by_id uid s of None \<Rightarrow> [] | Some u \<Rightarrow> us_hash u)"

definition rotated :: "string \<Rightarrow> string \<Rightarrow> string \<Rightarrow> accounts \<Rightarrow> accounts" where
  "rotated uid tid h s =
     s\<lparr>ac_users := upd (\<lambda>u. us_id u = uid) (\<lambda>u. u\<lparr>us_key := [], us_hash := h\<rparr>) (ac_users s),
       ac_tenants := upd (\<lambda>t. tn_id t = tid) (\<lambda>t. t\<lparr>tn_hash := h\<rparr>) (ac_tenants s)\<rparr>"

definition rotation_counts :: "string \<Rightarrow> string \<Rightarrow> accounts \<Rightarrow> rotation" where
  "rotation_counts uid tid s =
     \<lparr>ro_users = length (filter (\<lambda>u. us_id u = uid) (ac_users s)), ro_tenants = length (filter (\<lambda>t. tn_id t = tid) (ac_tenants s)),
      ro_old = old_hash uid s\<rparr>"

definition tenant_hash_taken :: "string \<Rightarrow> string \<Rightarrow> accounts \<Rightarrow> bool" where
  "tenant_hash_taken h tid s \<longleftrightarrow> h \<noteq> [] \<and> tid \<in> tn_id ` set (ac_tenants s) \<and> (\<exists>t\<in>set (ac_tenants s). tn_hash t = h \<and> tn_id t \<noteq> tid)"

text \<open>The statements of one transaction; a violated constraint aborts it.\<close>

definition pg_rotate_user_api_key :: "(string \<Rightarrow> string) \<Rightarrow> string \<Rightarrow> string \<Rightarrow> string \<Rightarrow> accounts \<Rightarrow> (accounts \<times> rotation) result" where
  "pg_rotate_user_api_key dig uid tid key s =
     (case key_digest dig key of
        Inl x \<Rightarrow> Inl x
      | Inr h \<Rightarrow>
          if uid \<in> us_id ` set (ac_users s) \<and> hash_taken h uid s then Inl UniqueViolation
          else if tenant_hash_taken h tid s then Inl UniqueViolation
          else Inr (rotated uid tid h s, rotation_counts uid tid s))"

text \<open>SQLite has no unique index on the tenants' digests, and rolls back itself.\<close>

definition sq_rotate_user_api_key :: "(string \<Rightarrow> string) \<Rightarrow> string \<Rightarrow> string \<Rightarrow> string \<Rightarrow> accounts \<Rightarrow> (accounts \<times> rotation) result" where
  "sq_rotate_user_api_key dig uid tid key s =
     (case key_digest dig key of
        Inl x \<Rightarrow> Inl x
      | Inr h \<Rightarrow>
          if uid \<in> us_id ` set (ac_users s) \<and> hash_taken h uid s then Inl UniqueViolation
          else let c = rotation_counts uid tid s
               in Inr (if ro_users c \<noteq> 1 \<or> ro_tenants c \<noteq> 1 then s else rotated uid tid h s, c))"

definition ad_rotate_user_api_key :: "bool \<Rightarrow> (string \<Rightarrow> string) \<Rightarrow> string \<Rightarrow> string \<Rightarrow> string \<Rightarrow> accounts \<Rightarrow> accounts \<times> rotation result" where
  "ad_rotate_user_api_key pg dig uid tid key s =
     (case (if pg then pg_rotate_user_api_key dig uid tid key s else sq_rotate_user_api_key dig uid tid key s) of
        Inl x \<Rightarrow> (s, Inl x)
      | Inr (s', c) \<Rightarrow> if ro_users c \<noteq> 1 \<or> ro_tenants c \<noteq> 1 then (if pg then s else s', Inl RuntimeError) else (s', Inr c))"

section \<open>Verification tokens\<close>

definition token_live :: "int \<Rightarrow> string \<Rightarrow> user_row \<Rightarrow> bool" where
  "token_live now token u \<longleftrightarrow> us_token u = Some token \<and> \<not> us_verified u \<and> (case us_expires u of None \<Rightarrow> True | Some e \<Rightarrow> now < e)"

definition burn :: "user_row \<Rightarrow> user_row" where
  "burn u = u\<lparr>us_verified := True, us_token := None, us_expires := None\<rparr>"

record consumed =
  co_user :: string
  co_email :: string
  co_tenant :: string
  co_expires :: "int option"

text \<open>PostgreSQL burns every row with a live token and returns the first; the old expiry is read by a query of its own.\<close>

definition pg_consume_verification_token :: "int \<Rightarrow> string \<Rightarrow> accounts \<Rightarrow> accounts \<times> consumed option" where
  "pg_consume_verification_token now token s =
     (if token = [] then (s, None)
      else let prev = List.find (\<lambda>u. us_token u = Some token) (ac_users s)
           in case List.find (token_live now token) (ac_users s) of
                None \<Rightarrow> (s, None)
              | Some u \<Rightarrow> (s\<lparr>ac_users := upd (token_live now token) burn (ac_users s)\<rparr>,
                           Some \<lparr>co_user = us_id u, co_email = us_email u, co_tenant = us_tenant u,
                                 co_expires = (case prev of None \<Rightarrow> None | Some p \<Rightarrow> us_expires p)\<rparr>))"

definition sq_consume_verification_token :: "int \<Rightarrow> string \<Rightarrow> accounts \<Rightarrow> accounts \<times> consumed option" where
  "sq_consume_verification_token now token s =
     (if token = [] then (s, None)
      else case List.find (token_live now token) (ac_users s) of
             None \<Rightarrow> (s, None)
           | Some u \<Rightarrow> (s\<lparr>ac_users := upd (\<lambda>x. us_id x = us_id u) burn (ac_users s)\<rparr>,
                        Some \<lparr>co_user = us_id u, co_email = us_email u, co_tenant = us_tenant u, co_expires = us_expires u\<rparr>))"

definition ad_consume_verification_token :: "bool \<Rightarrow> int \<Rightarrow> string \<Rightarrow> accounts \<Rightarrow> accounts \<times> consumed option" where
  "ad_consume_verification_token pg now token s =
     (if pg then pg_consume_verification_token now token s else sq_consume_verification_token now token s)"

definition restore_verification_token :: "string \<Rightarrow> string \<Rightarrow> int option \<Rightarrow> accounts \<Rightarrow> accounts" where
  "restore_verification_token uid token expires s =
     s\<lparr>ac_users := upd (\<lambda>u. us_id u = uid) (\<lambda>u. u\<lparr>us_verified := False, us_token := Some token, us_expires := expires\<rparr>) (ac_users s)\<rparr>"

definition verify_user_email :: "string \<Rightarrow> accounts \<Rightarrow> accounts" where
  "verify_user_email uid s = s\<lparr>ac_users := upd (\<lambda>u. us_id u = uid) burn (ac_users s)\<rparr>"

definition mark_email_verified :: "string \<Rightarrow> accounts \<Rightarrow> accounts" where
  "mark_email_verified email s = s\<lparr>ac_users := upd (\<lambda>u. us_email u = email) burn (ac_users s)\<rparr>"

definition user_by_live_token :: "int \<Rightarrow> string \<Rightarrow> accounts \<Rightarrow> user_row option" where
  "user_by_live_token now token s =
     List.find (\<lambda>u. us_token u = Some token \<and> (case us_expires u of None \<Rightarrow> False | Some e \<Rightarrow> now < e)) (ac_users s)"

definition user_by_token :: "string \<Rightarrow> accounts \<Rightarrow> user_row option" where
  "user_by_token token s = List.find (\<lambda>u. us_token u = Some token) (ac_users s)"

definition set_verification_token :: "string \<Rightarrow> string \<Rightarrow> int \<Rightarrow> accounts \<Rightarrow> accounts" where
  "set_verification_token email token expires s =
     s\<lparr>ac_users := upd (\<lambda>u. us_email u = email) (\<lambda>u. u\<lparr>us_token := Some token, us_expires := Some expires\<rparr>) (ac_users s)\<rparr>"

definition pg_update_verification_token :: "string \<Rightarrow> string \<Rightarrow> int \<Rightarrow> accounts \<Rightarrow> accounts" where
  "pg_update_verification_token uid token expires s =
     s\<lparr>ac_users := upd (\<lambda>u. us_id u = uid) (\<lambda>u. u\<lparr>us_token := Some token, us_expires := Some expires\<rparr>) (ac_users s)\<rparr>"

text \<open>Without PostgreSQL a new token is not stored.\<close>

definition ad_update_verification_token :: "bool \<Rightarrow> string \<Rightarrow> string \<Rightarrow> int \<Rightarrow> accounts \<Rightarrow> accounts" where
  "ad_update_verification_token pg uid token expires s = (if pg then pg_update_verification_token uid token expires s else s)"

section \<open>Invite codes\<close>

definition next_serial :: "nat list \<Rightarrow> nat" where
  "next_serial is = Suc (fold max is 0)"

definition pg_create_invite_code :: "string \<Rightarrow> string \<Rightarrow> int \<Rightarrow> string \<Rightarrow> int option \<Rightarrow> accounts \<Rightarrow> accounts \<times> invite_row result" where
  "pg_create_invite_code code by max_uses note expires s =
     (if code \<in> iv_code ` set (ac_invites s) then (s, Inl UniqueViolation)
      else let r = \<lparr>iv_id = next_serial (map iv_id (ac_invites s)), iv_code = code, iv_created_by = by, iv_max_uses = max_uses, iv_used = 0,
                    iv_active = True, iv_expires = expires, iv_note = note\<rparr>
           in (s\<lparr>ac_invites := ac_invites s @ [r]\<rparr>, Inr r))"

definition invite_open :: "int \<Rightarrow> invite_row \<Rightarrow> bool" where
  "invite_open now r \<longleftrightarrow> iv_active r \<and> iv_used r < iv_max_uses r \<and> (case iv_expires r of None \<Rightarrow> True | Some e \<Rightarrow> now < e)"

definition pg_validate_invite_code :: "int \<Rightarrow> string \<Rightarrow> accounts \<Rightarrow> invite_row option" where
  "pg_validate_invite_code now code s = List.find (\<lambda>r. iv_code r = code \<and> invite_open now r) (ac_invites s)"

definition ad_validate_invite_code :: "bool \<Rightarrow> int \<Rightarrow> string \<Rightarrow> accounts \<Rightarrow> invite_row option" where
  "ad_validate_invite_code pg now code s = (if pg then pg_validate_invite_code now code s else None)"

text \<open>The use is counted whatever the count is; the usage row needs the invite and the user.\<close>

definition pg_use_invite_code :: "nat \<Rightarrow> string \<Rightarrow> accounts \<Rightarrow> accounts \<times> unit result" where
  "pg_use_invite_code i uid s =
     (if i \<notin> iv_id ` set (ac_invites s) \<or> uid \<notin> us_id ` set (ac_users s) then (s, Inl ForeignKeyViolation)
      else (s\<lparr>ac_invites := upd (\<lambda>r. iv_id r = i) (\<lambda>r. r\<lparr>iv_used := iv_used r + 1\<rparr>) (ac_invites s), ac_usage := ac_usage s @ [(i, uid)]\<rparr>, Inr ()))"

definition ad_use_invite_code :: "bool \<Rightarrow> nat \<Rightarrow> string \<Rightarrow> accounts \<Rightarrow> accounts \<times> unit result" where
  "ad_use_invite_code pg i uid s = (if pg then pg_use_invite_code i uid s else (s, Inr ()))"

definition list_invite_codes :: "bool \<Rightarrow> accounts \<Rightarrow> invite_row list" where
  "list_invite_codes pg s = (if pg then rev (ac_invites s) else [])"

definition pg_deactivate_invite_code :: "string \<Rightarrow> accounts \<Rightarrow> accounts \<times> bool" where
  "pg_deactivate_invite_code code s =
     (s\<lparr>ac_invites := upd (\<lambda>r. iv_code r = code) (\<lambda>r. r\<lparr>iv_active := False\<rparr>) (ac_invites s)\<rparr>, code \<in> iv_code ` set (ac_invites s))"

definition ad_deactivate_invite_code :: "bool \<Rightarrow> string \<Rightarrow> accounts \<Rightarrow> accounts \<times> bool" where
  "ad_deactivate_invite_code pg code s = (if pg then pg_deactivate_invite_code code s else (s, False))"

record beta_config =
  bc_max_users :: int
  bc_spend_cap :: rat
  bc_active :: bool

definition get_beta_config :: "bool \<Rightarrow> accounts \<Rightarrow> beta_config" where
  "get_beta_config pg s =
     (case (if pg then ac_beta s else None) of
        Some (m, c, a) \<Rightarrow> \<lparr>bc_max_users = m, bc_spend_cap = c, bc_active = a\<rparr>
      | None \<Rightarrow> \<lparr>bc_max_users = 100, bc_spend_cap = 5, bc_active = True\<rparr>)"

definition count_verified_users :: "bool \<Rightarrow> accounts \<Rightarrow> int" where
  "count_verified_users pg s = (if pg then int (length (filter us_verified (ac_users s))) else 0)"

section \<open>Processed invoices\<close>

definition pg_is_invoice_processed :: "string \<Rightarrow> string \<Rightarrow> accounts \<Rightarrow> bool result" where
  "pg_is_invoice_processed i tid s = Inr (\<exists>r\<in>set (ac_invoices s). in_invoice r = i \<and> (tid = [] \<or> in_tenant r = tid))"

text \<open>The SQLite variant asks the connection, not the cursor, for the row: it raises.\<close>

definition sq_is_invoice_processed :: "string \<Rightarrow> string \<Rightarrow> accounts \<Rightarrow> bool result" where
  "sq_is_invoice_processed i tid s = (if i = [] then Inr False else Inl AttributeError)"

definition ad_is_invoice_processed :: "bool \<Rightarrow> string \<Rightarrow> string \<Rightarrow> accounts \<Rightarrow> bool result" where
  "ad_is_invoice_processed pg i tid s = (if pg then pg_is_invoice_processed i tid s else sq_is_invoice_processed i tid s)"

definition insert_invoice :: "string \<Rightarrow> string \<Rightarrow> string \<Rightarrow> accounts \<Rightarrow> accounts" where
  "insert_invoice i ty tid s =
     (if i \<in> in_invoice ` set (ac_invoices s) then s
      else s\<lparr>ac_invoices := ac_invoices s @ [\<lparr>in_invoice = i, in_type = ty, in_tenant = tid\<rparr>]\<rparr>)"

definition ad_mark_invoice_processed :: "bool \<Rightarrow> string \<Rightarrow> string \<Rightarrow> string \<Rightarrow> accounts \<Rightarrow> accounts" where
  "ad_mark_invoice_processed pg i ty tid s = (if \<not> pg \<and> i = [] then s else insert_invoice i ty tid s)"

section \<open>The invariant of the tables\<close>

text \<open>Ids are unique, and so are the digests that are not empty.\<close>

definition distinct_on :: "('r \<Rightarrow> string) \<Rightarrow> 'r list \<Rightarrow> bool" where
  "distinct_on f rs = distinct (filter (\<lambda>h. h \<noteq> []) (map f rs))"

definition users_ok :: "user_row list \<Rightarrow> bool" where
  "users_ok us \<longleftrightarrow> distinct (map us_id us) \<and> distinct_on us_hash us"

definition accounts_ok :: "accounts \<Rightarrow> bool" where
  "accounts_ok s \<longleftrightarrow> users_ok (ac_users s) \<and> distinct (map tn_id (ac_tenants s)) \<and> distinct_on tn_hash (ac_tenants s)
     \<and> distinct (map iv_id (ac_invites s)) \<and> distinct (map iv_code (ac_invites s)) \<and> distinct (map in_invoice (ac_invoices s))"

section \<open>Which columns an update keeps\<close>

interpretation burn_id: keyed_update us_id burn by unfold_locales (simp add: burn_def)
interpretation burn_hash: keyed_update us_hash burn by unfold_locales (simp add: burn_def)
interpretation token_id: keyed_update us_id "\<lambda>u. u\<lparr>us_token := t, us_expires := e\<rparr>" for t e by unfold_locales simp
interpretation token_hash: keyed_update us_hash "\<lambda>u. u\<lparr>us_token := t, us_expires := e\<rparr>" for t e by unfold_locales simp
interpretation restore_id: keyed_update us_id "\<lambda>u. u\<lparr>us_verified := v, us_token := t, us_expires := e\<rparr>" for v t e by unfold_locales simp
interpretation restore_hash: keyed_update us_hash "\<lambda>u. u\<lparr>us_verified := v, us_token := t, us_expires := e\<rparr>" for v t e by unfold_locales simp
interpretation name_id: keyed_update us_id "\<lambda>u. u\<lparr>us_email := m, us_name := n\<rparr>" for m n by unfold_locales simp
interpretation name_hash: keyed_update us_hash "\<lambda>u. u\<lparr>us_email := m, us_name := n\<rparr>" for m n by unfold_locales simp
interpretation rotate_id: keyed_update us_id "\<lambda>u. u\<lparr>us_key := k, us_hash := h\<rparr>" for k h by unfold_locales simp
interpretation rotate_tenant: keyed_update tn_id "\<lambda>t. t\<lparr>tn_hash := h\<rparr>" for h by unfold_locales simp
interpretation inactive_id: keyed_update tn_id "\<lambda>t. t\<lparr>tn_status := x\<rparr>" for x by unfold_locales simp
interpretation inactive_hash: keyed_update tn_hash "\<lambda>t. t\<lparr>tn_status := x\<rparr>" for x by unfold_locales simp
interpretation used_id: keyed_update iv_id "\<lambda>r. r\<lparr>iv_used := iv_used r + 1\<rparr>" by unfold_locales simp
interpretation used_code: keyed_update iv_code "\<lambda>r. r\<lparr>iv_used := iv_used r + 1\<rparr>" by unfold_locales simp
interpretation off_id: keyed_update iv_id "\<lambda>r. r\<lparr>iv_active := b\<rparr>" for b by unfold_locales simp
interpretation off_code: keyed_update iv_code "\<lambda>r. r\<lparr>iv_active := b\<rparr>" for b by unfold_locales simp

lemma users_ok_upd:
  assumes "users_ok us" and "\<And>u. us_id (f u) = us_id u" and "\<And>u. us_hash (f u) = us_hash u"
  shows "users_ok (upd p f us)"
proof -
  have "map us_id (upd p f us) = map us_id us" "map us_hash (upd p f us) = map us_hash us"
    using assms(2,3) by (simp_all add: upd_def)
  then show ?thesis using assms(1) by (simp add: users_ok_def distinct_on_def)
qed

lemma distinct_on_set_one:
  assumes "distinct (map key rs)" and "distinct_on f rs" and "\<And>r. r \<in> set rs \<Longrightarrow> f r = h \<Longrightarrow> h \<noteq> [] \<Longrightarrow> key r = k"
    and "\<And>r. f (g r) = h"
  shows "distinct_on f (upd (\<lambda>r. key r = k) g rs)"
  using assms(1,2,3)
proof (induction rs)
  case (Cons r rs)
  have ih: "distinct_on f (upd (\<lambda>r. key r = k) g rs)" using Cons by (auto simp: distinct_on_def split: if_splits)
  show ?case
  proof (cases "key r = k")
    case True
    have none: "upd (\<lambda>r. key r = k) g rs = rs" using Cons.prems(1) True by (induction rs) (auto simp: upd_def)
    have "f x \<noteq> h" if "x \<in> set rs" "h \<noteq> []" for x
    proof
      assume "f x = h"
      with Cons.prems(3) [of x] that True have "key x = key r" by simp
      then have "key r \<in> key ` set rs" using that(1) by (metis imageI)
      then show False using Cons.prems(1) by simp
    qed
    then show ?thesis using True none Cons.prems(2) assms(4) by (auto simp: distinct_on_def upd_def split: if_splits)
  next
    case False
    then have h: "f r \<noteq> h \<or> h = []" using Cons.prems(3) [of r] by auto
    have "f r \<notin> f ` set (upd (\<lambda>r. key r = k) g rs)" if "f r \<noteq> []"
      using that h Cons.prems(2) assms(4) by (auto simp: upd_def distinct_on_def)
    then show ?thesis using False ih by (auto simp: distinct_on_def upd_def image_image)
  qed
qed (simp add: distinct_on_def upd_def)

lemma distinct_on_append:
  "distinct_on f rs \<Longrightarrow> f r = [] \<or> f r \<notin> f ` set rs \<Longrightarrow> distinct_on f (rs @ [r])"
  by (auto simp: distinct_on_def)

section \<open>Every operation keeps the invariant\<close>

lemma seed_rows_ok:
  "seed_rows dig ks ts = Inr ts' \<Longrightarrow> distinct (map tn_id ts) \<Longrightarrow> distinct_on tn_hash ts \<Longrightarrow> distinct (map tn_id ts') \<and> distinct_on tn_hash ts'"
proof (induction dig ks ts rule: seed_rows.induct)
  case (2 dig k tid name ks ts)
  show ?case
  proof (cases "tid \<in> tn_id ` set ts")
    case False
    with 2(3) have ne: "\<not> (dig k \<noteq> [] \<and> dig k \<in> tn_hash ` set ts)" by (auto split: if_splits)
    have "distinct (map tn_id (ts @ [seed_row dig k tid name]))" using 2(4) False by (auto simp: seed_row_def)
    moreover have "distinct_on tn_hash (ts @ [seed_row dig k tid name])"
      by (rule distinct_on_append [OF 2(5)]) (use ne in \<open>auto simp: seed_row_def\<close>)
    ultimately show ?thesis using 2(2) [OF False ne] 2(3) False ne by (simp split: if_splits)
  qed (use 2 in simp)
qed simp

lemma upsert_user_ok:
  assumes "users_ok (ac_users s)" and "\<And>u. us_id (f u) = us_id u" and "\<And>u. us_hash (f u) = us_hash u"
  shows "users_ok (ac_users (fst (upsert_user new f s)))"
proof (cases "user_by_id (us_id new) s")
  case None
  then have n: "us_id new \<notin> us_id ` set (ac_users s)" by (auto simp: user_by_id_def find_None_iff)
  show ?thesis
  proof (cases "hash_taken (us_hash new) (us_id new) s")
    case False
    have "us_hash new = [] \<or> us_hash new \<notin> us_hash ` set (ac_users s)"
    proof (rule ccontr)
      assume "\<not> (us_hash new = [] \<or> us_hash new \<notin> us_hash ` set (ac_users s))"
      then obtain u where "u \<in> set (ac_users s)" "us_hash u = us_hash new" "us_hash new \<noteq> []" by auto
      moreover from this(1) n have "us_id u \<noteq> us_id new" by (metis imageI)
      ultimately show False using False unfolding hash_taken_def by blast
    qed
    with n assms(1) show ?thesis using None False by (auto simp: upsert_user_def users_ok_def intro: distinct_on_append)
  qed (use None assms(1) in \<open>simp add: upsert_user_def\<close>)
qed (use assms users_ok_upd [of "ac_users s" f] in \<open>simp add: upsert_user_def\<close>)

lemma upsert_user_tables:
  "upsert_user new f s = (s', r) \<Longrightarrow> ac_tenants s' = ac_tenants s \<and> ac_invites s' = ac_invites s \<and> ac_invoices s' = ac_invoices s"
  by (auto simp: upsert_user_def split: option.splits if_splits)

lemma rotated_ok:
  assumes "accounts_ok s" and "\<not> (uid \<in> us_id ` set (ac_users s) \<and> hash_taken h uid s)" and "\<not> tenant_hash_taken h tid s"
  shows "accounts_ok (rotated uid tid h s)"
proof -
  have u: "distinct_on us_hash (upd (\<lambda>u. us_id u = uid) (\<lambda>u. u\<lparr>us_key := [], us_hash := h\<rparr>) (ac_users s))"
  proof (cases "uid \<in> us_id ` set (ac_users s)")
    case True
    show ?thesis by (rule distinct_on_set_one) (use assms(1,2) True in \<open>auto simp: accounts_ok_def users_ok_def hash_taken_def\<close>)
  next
    case False
    then have "upd (\<lambda>u. us_id u = uid) (\<lambda>u. u\<lparr>us_key := [], us_hash := h\<rparr>) (ac_users s) = ac_users s"
      unfolding upd_def by (intro map_idI) auto
    then show ?thesis using assms(1) by (simp add: accounts_ok_def users_ok_def)
  qed
  have t: "distinct_on tn_hash (upd (\<lambda>t. tn_id t = tid) (\<lambda>t. t\<lparr>tn_hash := h\<rparr>) (ac_tenants s))"
  proof (cases "tid \<in> tn_id ` set (ac_tenants s)")
    case True
    show ?thesis by (rule distinct_on_set_one) (use assms(1,3) True in \<open>auto simp: accounts_ok_def tenant_hash_taken_def\<close>)
  next
    case False
    then have "upd (\<lambda>t. tn_id t = tid) (\<lambda>t. t\<lparr>tn_hash := h\<rparr>) (ac_tenants s) = ac_tenants s"
      unfolding upd_def by (intro map_idI) auto
    then show ?thesis using assms(1) by (simp add: accounts_ok_def)
  qed
  show ?thesis using assms(1) u t by (simp add: accounts_ok_def users_ok_def rotated_def)
qed

lemma pg_rotate_ok: "accounts_ok s \<Longrightarrow> pg_rotate_user_api_key dig uid tid key s = Inr (s', c) \<Longrightarrow> accounts_ok s'"
  using rotated_ok [of s uid "dig key" tid] by (auto simp: pg_rotate_user_api_key_def key_digest_def split: if_splits)

lemma accounts_ok_users:
  "accounts_ok s \<Longrightarrow> users_ok us \<Longrightarrow> accounts_ok (s\<lparr>ac_users := us\<rparr>)"
  by (simp add: accounts_ok_def)

lemma accounts_ok_upd_users:
  assumes "accounts_ok s" and "\<And>u. us_id (f u) = us_id u" and "\<And>u. us_hash (f u) = us_hash u"
  shows "accounts_ok (s\<lparr>ac_users := upd p f (ac_users s)\<rparr>)"
  by (rule accounts_ok_users [OF assms(1) users_ok_upd]) (use assms in \<open>simp_all add: accounts_ok_def\<close>)

lemma next_serial_fresh: "next_serial is \<notin> set is"
proof -
  have "i \<le> fold max is a" if "i \<in> set is \<or> i \<le> a" for i a
    using that by (induction "is" arbitrary: a) (auto simp: max_def)
  then show ?thesis by (force simp: next_serial_def)
qed

text \<open>The operations of the PostgreSQL backend as steps.\<close>

inductive ac_step :: "(string \<Rightarrow> string) \<Rightarrow> accounts \<Rightarrow> accounts \<Rightarrow> bool" for dig where
  acs_seed: "ac_step dig s (fst (pg_seed_tenants dig ks s))"
| acs_subscription: "ac_step dig s (pg_update_tenant_subscription tid cus sub st plan fin s)"
| acs_inactive: "ac_step dig s (set_tenant_inactive tid s)"
| acs_oauth: "ac_step dig s (fst (pg_upsert_oauth_user dig now uid email name prov tid key s))"
| acs_create: "ac_step dig s (fst (pg_create_user_with_password dig now uid email name tid key pw token expires s))"
| acs_rotate: "ac_step dig s (fst (ad_rotate_user_api_key True dig uid tid key s))"
| acs_consume: "ac_step dig s (fst (pg_consume_verification_token now token s))"
| acs_restore: "ac_step dig s (restore_verification_token uid token expo s)"
| acs_token: "ac_step dig s (pg_update_verification_token uid token ex s)"
| acs_token_email: "ac_step dig s (set_verification_token email token ex s)"
| acs_verify: "ac_step dig s (verify_user_email uid s)"
| acs_verify_email: "ac_step dig s (mark_email_verified email s)"
| acs_invite: "ac_step dig s (fst (pg_create_invite_code code by_whom m nt expo s))"
| acs_use: "ac_step dig s (fst (pg_use_invite_code i uid s))"
| acs_off: "ac_step dig s (fst (pg_deactivate_invite_code code s))"
| acs_invoice: "ac_step dig s (insert_invoice i ty tid s)"

definition no_accounts :: accounts where
  "no_accounts = \<lparr>ac_users = [], ac_tenants = [], ac_invites = [], ac_usage = [], ac_invoices = [], ac_beta = None\<rparr>"

interpretation acs: transition_system "\<lambda>s. s = no_accounts" "ac_step dig" for dig .

lemma pg_create_user_ok:
  assumes "accounts_ok s"
  shows "accounts_ok (fst (pg_create_user_with_password dig now uid email name tid key pw token expires s))"
proof (cases "key_digest dig key")
  case (Inr h)
  let ?new = "(new_user now uid email name ''email'' tid [] h)\<lparr>us_password := Some pw, us_token := Some token, us_expires := Some expires\<rparr>"
  let ?f = "\<lambda>u. u\<lparr>us_email := email, us_name := name, us_password := Some pw, us_token := Some token, us_expires := Some expires\<rparr>"
  have f: "fst (pg_create_user_with_password dig now uid email name tid key pw token expires s) = fst (upsert_user ?new ?f s)"
    using Inr by (auto simp: pg_create_user_with_password_def split: prod.splits sum.splits)
  obtain s' r where u: "upsert_user ?new ?f s = (s', r)" by fastforce
  have "users_ok (ac_users s')" using upsert_user_ok [of s ?f ?new] assms u by (simp add: accounts_ok_def)
  then show ?thesis using f u upsert_user_tables [OF u] assms by (simp add: accounts_ok_def)
qed (use assms in \<open>simp add: pg_create_user_with_password_def\<close>)

lemma pg_upsert_oauth_ok:
  assumes "accounts_ok s"
  shows "accounts_ok (fst (pg_upsert_oauth_user dig now uid email name prov tid key s))"
proof (cases "key_digest dig key")
  case (Inr h)
  let ?f = "\<lambda>u. u\<lparr>us_email := email, us_name := name\<rparr>"
  obtain s' r where u: "upsert_user (new_user now uid email name prov tid [] h) ?f s = (s', r)" by fastforce
  have "users_ok (ac_users s')" using upsert_user_ok [of s ?f "new_user now uid email name prov tid [] h"] assms u by (simp add: accounts_ok_def)
  then show ?thesis using Inr u upsert_user_tables [OF u] assms by (simp add: accounts_ok_def pg_upsert_oauth_user_def)
qed (use assms in \<open>simp add: pg_upsert_oauth_user_def\<close>)

lemma pg_rotate_adapter_ok: "accounts_ok s \<Longrightarrow> accounts_ok (fst (ad_rotate_user_api_key True dig uid tid key s))"
  using pg_rotate_ok by (auto simp: ad_rotate_user_api_key_def split: sum.splits prod.splits)

lemma ac_step_ok: "ac_step dig s t \<Longrightarrow> accounts_ok s \<Longrightarrow> accounts_ok t"
proof (induction rule: ac_step.induct)
  case (acs_seed s ks)
  then show ?case using seed_rows_ok [of dig ks "ac_tenants s"] by (auto simp: pg_seed_tenants_def accounts_ok_def split: sum.splits)
next
  case (acs_subscription s tid cus sub st plan fin)
  then show ?case by (simp add: accounts_ok_def pg_update_tenant_subscription_def upd_def distinct_on_def comp_def if_distrib cong: if_cong)
next
  case (acs_inactive s tid)
  then show ?case by (simp add: accounts_ok_def set_tenant_inactive_def distinct_on_def)
next
  case (acs_consume s now token)
  then show ?case
    by (auto simp: pg_consume_verification_token_def Let_def burn_def split: option.splits intro!: accounts_ok_upd_users)
next
  case (acs_invite s code by_whom m nt expo)
  then show ?case using next_serial_fresh [of "map iv_id (ac_invites s)"] by (auto simp: accounts_ok_def pg_create_invite_code_def Let_def)
next
  case (acs_use s i uid)
  then show ?case by (simp add: accounts_ok_def pg_use_invite_code_def)
next
  case (acs_off s code)
  then show ?case by (simp add: accounts_ok_def pg_deactivate_invite_code_def)
next
  case (acs_invoice s i ty tid)
  then show ?case by (auto simp: accounts_ok_def insert_invoice_def)
qed (auto simp: pg_create_user_ok pg_upsert_oauth_ok pg_rotate_adapter_ok restore_verification_token_def pg_update_verification_token_def
    set_verification_token_def verify_user_email_def mark_email_verified_def burn_def intro: accounts_ok_upd_users)

lemma accounts_reach_ok:
  assumes "transition_system.reach (\<lambda>s. s = no_accounts) (ac_step dig) s"
  shows "accounts_ok s"
  by (rule transition_system.invariant_reach [OF _ _ assms])
    (auto simp: ac_step_ok, simp add: no_accounts_def accounts_ok_def users_ok_def distinct_on_def)

section \<open>Tokens\<close>

lemma burnt_not_live: "\<not> token_live now token (burn u)"
  by (simp add: token_live_def burn_def)

lemma live_later: "token_live now' token u \<Longrightarrow> now \<le> now' \<Longrightarrow> token_live now token u"
  by (auto simp: token_live_def split: option.splits)

lemma consume_burns:
  assumes "pg_consume_verification_token now token s = (s', Some c)" and "now \<le> now'"
  shows "pg_consume_verification_token now' token s' = (s', None)"
proof -
  have s': "ac_users s' = upd (token_live now token) burn (ac_users s)" and ne: "token \<noteq> []"
    using assms(1) by (auto simp: pg_consume_verification_token_def Let_def split: if_splits option.splits)
  have "List.find (token_live now' token) (ac_users s') = None"
    unfolding find_None_iff s' upd_def using burnt_not_live live_later [OF _ assms(2)] by auto
  then show ?thesis using ne by (simp add: pg_consume_verification_token_def)
qed

text \<open>A token that at most one user has.\<close>

definition token_unique :: "string \<Rightarrow> accounts \<Rightarrow> bool" where
  "token_unique token s \<longleftrightarrow> distinct (map us_id (ac_users s)) \<and>
     (\<forall>u\<in>set (ac_users s). \<forall>v\<in>set (ac_users s). us_token u = Some token \<longrightarrow> us_token v = Some token \<longrightarrow> u = v)"

lemma unique_live:
  assumes "token_unique token s" and "List.find (token_live now token) (ac_users s) = Some u"
  shows "\<forall>v\<in>set (ac_users s). token_live now token v \<longleftrightarrow> us_id v = us_id u"
    and "List.find (\<lambda>v. us_token v = Some token) (ac_users s) = Some u"
proof -
  from find_SomeD [OF assms(2)] have u: "u \<in> set (ac_users s)" "token_live now token u" by simp_all
  have same: "v = u" if "v \<in> set (ac_users s)" "us_token v = Some token" for v
    using assms(1) u that by (auto simp: token_unique_def token_live_def)
  show "\<forall>v\<in>set (ac_users s). token_live now token v \<longleftrightarrow> us_id v = us_id u"
  proof
    fix v assume v: "v \<in> set (ac_users s)"
    show "token_live now token v \<longleftrightarrow> us_id v = us_id u"
    proof
      assume "us_id v = us_id u"
      then have "v = u" using assms(1) u(1) v unfolding token_unique_def by (metis distinct_map inj_onD)
      with u(2) show "token_live now token v" by simp
    qed (use same [OF v] in \<open>auto simp: token_live_def\<close>)
  qed
  have "List.find (\<lambda>v. us_token v = Some token) (ac_users s) \<noteq> None"
    using u by (auto simp: find_None_iff token_live_def)
  then obtain w where "List.find (\<lambda>v. us_token v = Some token) (ac_users s) = Some w" by auto
  with same find_SomeD [OF this] show "List.find (\<lambda>v. us_token v = Some token) (ac_users s) = Some u" by auto
qed

lemma consume_same:
  assumes "token_unique token s"
  shows "sq_consume_verification_token now token s = pg_consume_verification_token now token s"
proof (cases "List.find (token_live now token) (ac_users s)")
  case (Some u)
  note l = unique_live [OF assms Some]
  have "upd (\<lambda>x. us_id x = us_id u) burn (ac_users s) = upd (token_live now token) burn (ac_users s)"
    unfolding upd_def using l(1) by (intro map_cong) auto
  then show ?thesis using Some l(2) by (simp add: sq_consume_verification_token_def pg_consume_verification_token_def Let_def)
qed (simp add: sq_consume_verification_token_def pg_consume_verification_token_def Let_def)

lemma restore_undoes:
  assumes "token_unique token s" and "pg_consume_verification_token now token s = (s', Some c)"
  shows "restore_verification_token (co_user c) token (co_expires c) s' = s"
proof -
  obtain u where f: "List.find (token_live now token) (ac_users s) = Some u"
    using assms(2) by (auto simp: pg_consume_verification_token_def Let_def split: if_splits option.splits)
  note l = unique_live [OF assms(1) f]
  have s': "s' = s\<lparr>ac_users := upd (token_live now token) burn (ac_users s)\<rparr>" and c: "co_user c = us_id u" "co_expires c = us_expires u"
    using assms(2) f l(2) by (auto simp: pg_consume_verification_token_def Let_def split: if_splits)
  let ?r = "\<lambda>v. v\<lparr>us_verified := False, us_token := Some token, us_expires := us_expires u\<rparr>"
  have "upd (\<lambda>v. us_id v = us_id u) ?r (upd (token_live now token) burn (ac_users s)) = ac_users s"
    unfolding upd_def map_map
  proof (rule map_idI)
    fix v assume v: "v \<in> set (ac_users s)"
    show "((\<lambda>v. if us_id v = us_id u then ?r v else v) \<circ> (\<lambda>v. if token_live now token v then burn v else v)) v = v"
    proof (cases "us_id v = us_id u")
      case True
      with v l(1) have lv: "token_live now token v" by blast
      moreover have "v = u"
        using assms(1) v True find_SomeD [OF f] unfolding token_unique_def by (metis distinct_map inj_onD)
      ultimately show ?thesis by (simp add: burn_def token_live_def)
    qed (use v l(1) in auto)
  qed
  then show ?thesis by (simp add: restore_verification_token_def s' c)
qed

section \<open>Rotation\<close>

lemma rotate_failed_unchanged: "ad_rotate_user_api_key pg dig uid tid key s = (s', Inl x) \<Longrightarrow> s' = s"
  by (cases pg) (auto simp: ad_rotate_user_api_key_def sq_rotate_user_api_key_def Let_def split: sum.splits prod.splits if_splits)

lemma rotate_done:
  assumes "ad_rotate_user_api_key pg dig uid tid key s = (s', Inr c)"
  shows "s' = rotated uid tid (dig key) s" and "ro_users c = 1" and "ro_tenants c = 1" and "ro_old c = old_hash uid s" and "key \<noteq> []"
    and "\<not> (uid \<in> us_id ` set (ac_users s) \<and> hash_taken (dig key) uid s)" and "pg \<longrightarrow> \<not> tenant_hash_taken (dig key) tid s"
  using assms
  by (cases pg; auto simp: ad_rotate_user_api_key_def pg_rotate_user_api_key_def sq_rotate_user_api_key_def key_digest_def rotation_counts_def Let_def
      split: sum.splits prod.splits if_splits)+

lemma count_pos: "length (filter p xs) = 1 \<Longrightarrow> \<exists>x\<in>set xs. p x"
  by (cases "filter p xs") (auto simp: filter_eq_Cons_iff)

lemma rotated_resolves:
  assumes "ad_rotate_user_api_key pg dig uid tid key s = (s', Inr c)" and "\<not> tenant_hash_taken (dig key) tid s" and "dig key \<noteq> []"
  shows "\<exists>t. tenant_by_key dig key s' = Some t \<and> tn_id t = tid"
proof -
  note d = rotate_done [OF assms(1)]
  have "\<exists>t\<in>set (ac_tenants s). tn_id t = tid"
    using assms(1) d(3) by (intro count_pos) (cases pg; auto simp: ad_rotate_user_api_key_def pg_rotate_user_api_key_def
        sq_rotate_user_api_key_def rotation_counts_def Let_def split: sum.splits prod.splits if_splits)
  then obtain t where t: "t \<in> set (ac_tenants s)" "tn_id t = tid" by blast
  let ?g = "\<lambda>t. if tn_id t = tid then t\<lparr>tn_hash := dig key\<rparr> else t"
  have ts: "ac_tenants s' = map ?g (ac_tenants s)" by (simp add: d(1) rotated_def upd_def)
  have "?g t \<in> set (ac_tenants s')" using t ts by auto
  then have "tenant_by_key dig key s' \<noteq> None" using t(2) by (auto simp: tenant_by_key_def find_None_iff)
  then obtain r where r: "tenant_by_key dig key s' = Some r" by auto
  with find_SomeD [of _ "ac_tenants s'" r] have "r \<in> set (ac_tenants s')" "tn_hash r = dig key" by (auto simp: tenant_by_key_def)
  then obtain r0 where r0: "r0 \<in> set (ac_tenants s)" "r = ?g r0" using ts by auto
  have "tn_id r = tid"
  proof (cases "tn_id r0 = tid")
    case False
    with r0(2) \<open>tn_hash r = dig key\<close> have "tn_hash r0 = dig key" by simp
    moreover have "tid \<in> tn_id ` set (ac_tenants s)" using t by (metis imageI)
    ultimately have "tenant_hash_taken (dig key) tid s" unfolding tenant_hash_taken_def using False r0(1) assms(3) by blast
    with assms(2) show ?thesis by simp
  qed (simp add: r0(2))
  with r show ?thesis by blast
qed

lemma rotated_old_dead:
  assumes "ad_rotate_user_api_key pg dig uid tid key s = (s', Inr c)" and "distinct_on tn_hash (ac_tenants s)"
    and "tenant_by_key dig old s = Some t" and "tn_id t = tid" and "dig old \<noteq> dig key" and "dig old \<noteq> []"
    and "distinct (map tn_id (ac_tenants s))"
  shows "tenant_by_key dig old s' = None"
proof -
  from find_SomeD [OF assms(3) [unfolded tenant_by_key_def]] have t: "t \<in> set (ac_tenants s)" "tn_hash t = dig old" by simp_all
  have only: "r = t" if "r \<in> set (ac_tenants s)" "tn_hash r = dig old" for r
  proof -
    have "distinct (map tn_hash (filter (\<lambda>t. tn_hash t \<noteq> []) (ac_tenants s)))"
      using assms(2) unfolding distinct_on_def by (simp add: filter_map comp_def)
    then have "inj_on tn_hash (set (filter (\<lambda>t. tn_hash t \<noteq> []) (ac_tenants s)))" by (simp add: distinct_map)
    then show ?thesis by (rule inj_onD) (use that t assms(6) in auto)
  qed
  have "tn_hash r \<noteq> dig old" if "r \<in> set (ac_tenants s')" for r
  proof -
    from that obtain r0 where r0: "r0 \<in> set (ac_tenants s)" "r = (if tn_id r0 = tid then r0\<lparr>tn_hash := dig key\<rparr> else r0)"
      by (auto simp: rotate_done(1) [OF assms(1)] rotated_def upd_def)
    show ?thesis
    proof (cases "tn_id r0 = tid")
      case False
      then have "r0 \<noteq> t" using assms(4) by auto
      with only [OF r0(1)] r0(2) False show ?thesis by auto
    qed (use r0 assms(5) in auto)
  qed
  then show ?thesis by (auto simp: tenant_by_key_def find_None_iff)
qed

section \<open>The beta's invites\<close>

text \<open>\<open>src/auth/invites.py\<close>: \<open>beta\<close> and \<open>need\<close> are \<open>BETA_MODE\<close> and \<open>BETA_REQUIRE_INVITE\<close>; \<open>code\<close> is the generated code.\<close>

definition create_invite :: "bool \<Rightarrow> bool \<Rightarrow> int \<Rightarrow> string \<Rightarrow> int \<Rightarrow> string \<Rightarrow> int \<Rightarrow> string \<Rightarrow> accounts \<Rightarrow> accounts \<times> invite_row option result" where
  "create_invite pg beta now code max_uses nt hours by_whom s =
     (if \<not> beta then (s, Inr None)
      else if \<not> pg then (s, Inr None)
      else case pg_create_invite_code code by_whom max_uses nt (if hours > 0 then Some (now + 3600 * hours) else None) s of
             (s', Inl x) \<Rightarrow> (s', Inl x)
           | (s', Inr r) \<Rightarrow> (s', Inr (Some r)))"

definition validate_invite :: "bool \<Rightarrow> bool \<Rightarrow> bool \<Rightarrow> int \<Rightarrow> string \<Rightarrow> accounts \<Rightarrow> bool" where
  "validate_invite pg beta need now code s =
     (if \<not> beta then True else if \<not> need then True else ad_validate_invite_code pg now code s \<noteq> None)"

definition use_invite :: "bool \<Rightarrow> int \<Rightarrow> string \<Rightarrow> string \<Rightarrow> accounts \<Rightarrow> accounts \<times> bool result" where
  "use_invite pg now code uid s =
     (case ad_validate_invite_code pg now code s of
        None \<Rightarrow> (s, Inr False)
      | Some r \<Rightarrow> (case ad_use_invite_code pg (iv_id r) uid s of (s', Inl x) \<Rightarrow> (s', Inl x) | (s', Inr _) \<Rightarrow> (s', Inr True)))"

record capacity =
  cp_allowed :: bool
  cp_current :: int
  cp_max :: int
  cp_remaining :: int

text \<open>\<open>None\<close>: the beta is off, nothing is counted.\<close>

definition check_beta_capacity :: "bool \<Rightarrow> bool \<Rightarrow> accounts \<Rightarrow> capacity option" where
  "check_beta_capacity pg beta s =
     (if \<not> beta then None
      else let cfg = get_beta_config pg s; n = count_verified_users pg s
           in Some \<lparr>cp_allowed = (bc_active cfg \<and> n < bc_max_users cfg), cp_current = n, cp_max = bc_max_users cfg,
                    cp_remaining = max 0 (bc_max_users cfg - n)\<rparr>)"

definition invites_bounded :: "accounts \<Rightarrow> bool" where
  "invites_bounded s \<longleftrightarrow> distinct (map iv_id (ac_invites s)) \<and> (\<forall>r\<in>set (ac_invites s). iv_used r \<le> max 0 (iv_max_uses r))"

lemma use_invite_bounded:
  assumes "invites_bounded s"
  shows "invites_bounded (fst (use_invite pg now code uid s))"
proof (cases "ad_validate_invite_code pg now code s")
  case (Some r)
  then have pg and f: "List.find (\<lambda>r. iv_code r = code \<and> invite_open now r) (ac_invites s) = Some r"
    by (auto simp: ad_validate_invite_code_def pg_validate_invite_code_def split: if_splits)
  from find_SomeD [OF f] have r: "r \<in> set (ac_invites s)" "iv_used r < iv_max_uses r" by (auto simp: invite_open_def)
  have "iv_used v < iv_max_uses v" if "v \<in> set (ac_invites s)" "iv_id v = iv_id r" for v
  proof -
    have "v = r" using assms that r(1) unfolding invites_bounded_def by (metis distinct_map inj_onD)
    with r(2) show ?thesis by simp
  qed
  then have "\<forall>v\<in>set (upd (\<lambda>x. iv_id x = iv_id r) (\<lambda>r. r\<lparr>iv_used := iv_used r + 1\<rparr>) (ac_invites s)). iv_used v \<le> max 0 (iv_max_uses v)"
    using assms by (fastforce simp: upd_def invites_bounded_def)
  then show ?thesis using assms Some \<open>pg\<close> by (auto simp: use_invite_def ad_use_invite_code_def pg_use_invite_code_def invites_bounded_def)
qed (use assms in \<open>simp add: use_invite_def\<close>)

text \<open>Two requests that validated the last use before either counted it.\<close>

definition one_use :: accounts where
  "one_use = no_accounts\<lparr>ac_users := [new_user 0 ''u'' [] [] [] [] [] [], new_user 0 ''v'' [] [] [] [] [] []],
     ac_invites := [\<lparr>iv_id = 1, iv_code = ''c'', iv_created_by = [], iv_max_uses = 1, iv_used = 0, iv_active = True, iv_expires = None, iv_note = []\<rparr>]\<rparr>"

lemma invite_overused:
  "map iv_id (ac_invites (fst (pg_use_invite_code 1 ''v'' (fst (pg_use_invite_code 1 ''u'' one_use))))) = [1]
   \<and> map iv_used (ac_invites (fst (pg_use_invite_code 1 ''v'' (fst (pg_use_invite_code 1 ''u'' one_use))))) = [2]"
  by code_simp

section \<open>Differences between the backends\<close>

lemma subscription_backends_differ:
  assumes "tenant_row tid s = Some t"
  shows "map_option tn_plan (tenant_row tid (ad_update_tenant_subscription True tid [] [] st [] None s)) = Some []"
    and "map_option tn_plan (tenant_row tid (ad_update_tenant_subscription False tid [] [] st [] None s)) = Some (tn_plan t)"
proof -
  have f: "List.find (\<lambda>x. tn_id x = tid) (upd (\<lambda>t. tn_id t = tid) g (ac_tenants s)) = Some (g t)" if "\<And>x. tn_id (g x) = tn_id x" for g
  proof -
    have "keyed_update tn_id g" by unfold_locales (rule that)
    then show ?thesis using assms find_SomeD [OF assms [unfolded tenant_row_def]] by (simp add: keyed_update.find_upd tenant_row_def)
  qed
  show "map_option tn_plan (tenant_row tid (ad_update_tenant_subscription True tid [] [] st [] None s)) = Some []"
    by (simp add: tenant_row_def ad_update_tenant_subscription_def pg_update_tenant_subscription_def f)
  show "map_option tn_plan (tenant_row tid (ad_update_tenant_subscription False tid [] [] st [] None s)) = Some (tn_plan t)"
    by (simp add: tenant_row_def ad_update_tenant_subscription_def sq_update_tenant_subscription_def f)
qed

text \<open>An invoice number recorded for one tenant is never recorded for another.\<close>

lemma foreign_invoice_never_marked:
  assumes "i \<in> in_invoice ` set (ac_invoices s)" and "ad_is_invoice_processed True i tid s = Inr False"
  shows "ad_is_invoice_processed True i tid (ad_mark_invoice_processed True i ty tid s) = Inr False"
  using assms by (simp add: ad_mark_invoice_processed_def insert_invoice_def)

section \<open>Properties\<close>

text \<open>In every state the account operations can reach on PostgreSQL the ids of users, tenants and invites are unique, and no two users
  and no two tenants share a key digest, so a key names at most one user and one tenant.\<close>

theorem account_tables_sound:
  assumes "transition_system.reach (\<lambda>s. s = no_accounts) (ac_step dig) s"
  shows "accounts_ok s"
  using assms by (rule accounts_reach_ok)

theorem account_tables_sound_witness:
  "let s = fst (pg_create_user_with_password (\<lambda>k. k) 0 ''u'' ''m'' ''n'' ''t'' ''k'' ''p'' ''tok'' 9 no_accounts)
   in accounts_ok s \<and> length (ac_users s) = 1"
proof -
  let ?s = "fst (pg_create_user_with_password (\<lambda>k. k) 0 ''u'' ''m'' ''n'' ''t'' ''k'' ''p'' ''tok'' 9 no_accounts)"
  have "transition_system.reach (\<lambda>s. s = no_accounts) (ac_step (\<lambda>k. k)) ?s"
    by (rule transition_system.reach.reach_step, rule transition_system.reach.reach_init, rule refl, rule acs_create)
  from account_tables_sound [OF this] have "accounts_ok ?s" .
  moreover have "length (ac_users ?s) = 1" by code_simp
  ultimately show ?thesis by (simp add: Let_def)
qed

text \<open>A verification token works once: after a call that consumed it, every later call with the same token finds nothing and
  changes nothing.\<close>

theorem token_works_once:
  assumes "pg_consume_verification_token now token s = (s', Some c)" and "now \<le> now'"
  shows "pg_consume_verification_token now' token s' = (s', None)"
  using assms by (rule consume_burns)

definition waiting_user :: accounts where
  "waiting_user = no_accounts\<lparr>ac_users := [(new_user 0 ''u'' ''m'' ''n'' ''email'' ''t'' [] ''h'')\<lparr>us_token := Some ''tok'', us_expires := Some 9\<rparr>],
     ac_tenants := [seed_row (\<lambda>k. k) ''h'' ''t'' ''t'']\<rparr>"

theorem token_works_once_witness:
  "let s' = fst (pg_consume_verification_token 1 ''tok'' waiting_user) in
   snd (pg_consume_verification_token 1 ''tok'' waiting_user) \<noteq> None \<and> pg_consume_verification_token 2 ''tok'' s' = (s', None)"
proof -
  have "snd (pg_consume_verification_token 1 ''tok'' waiting_user) \<noteq> None" by code_simp
  then obtain s' c where r: "pg_consume_verification_token 1 ''tok'' waiting_user = (s', Some c)"
    by (cases "pg_consume_verification_token 1 ''tok'' waiting_user") auto
  from token_works_once [OF this, of 2] r show ?thesis by (simp add: Let_def)
qed

text \<open>The SQLite consumption of a token is the PostgreSQL one, as its comment says, for every token that at most one user has.\<close>

theorem sqlite_consume_parity:
  assumes "token_unique token s"
  shows "sq_consume_verification_token now token s = pg_consume_verification_token now token s"
  using assms by (rule consume_same)

theorem sqlite_consume_parity_witness:
  "sq_consume_verification_token 1 ''tok'' waiting_user = pg_consume_verification_token 1 ''tok'' waiting_user"
  by (rule sqlite_consume_parity) (simp add: token_unique_def waiting_user_def)

text \<open>Rotation is all or nothing: when it raises, no table has changed; when it returns, the new key resolves to the tenant
  and the key it replaces resolves to nobody.\<close>

theorem rotation_all_or_nothing:
  assumes "ad_rotate_user_api_key True dig uid tid key s = (s', r)" and "accounts_ok s"
    and "tenant_by_key dig old s = Some t" and "tn_id t = tid" and "dig old \<noteq> dig key" and "dig old \<noteq> []" and "dig key \<noteq> []"
  shows "case r of Inl x \<Rightarrow> s' = s
    | Inr c \<Rightarrow> (\<exists>n. tenant_by_key dig key s' = Some n \<and> tn_id n = tid) \<and> tenant_by_key dig old s' = None \<and> accounts_ok s'"
proof (cases r)
  case (Inr c)
  note run = assms(1) [unfolded Inr]
  have nt: "\<not> tenant_hash_taken (dig key) tid s" using rotate_done(7) [OF run] by simp
  have ok: "distinct_on tn_hash (ac_tenants s)" "distinct (map tn_id (ac_tenants s))" using assms(2) by (simp_all add: accounts_ok_def)
  show ?thesis
    using rotated_resolves [OF run nt assms(7)] rotated_old_dead [OF run ok(1) assms(3-6) ok(2)] pg_rotate_adapter_ok [OF assms(2), of dig uid tid key] run Inr
    by simp
qed (use rotate_failed_unchanged assms(1) in auto)

theorem rotation_all_or_nothing_witness:
  "let s' = fst (ad_rotate_user_api_key True (\<lambda>k. k) ''u'' ''t'' ''k2'' waiting_user) in
   map_option tn_id (tenant_by_key (\<lambda>k. k) ''k2'' s') = Some ''t'' \<and> tenant_by_key (\<lambda>k. k) ''h'' s' = None"
proof -
  let ?s = "fst (ad_rotate_user_api_key True (\<lambda>k. k) ''u'' ''t'' ''k2'' waiting_user)"
  have ok: "accounts_ok waiting_user"
    by (simp add: accounts_ok_def users_ok_def distinct_on_def waiting_user_def no_accounts_def new_user_def seed_row_def)
  have "is_ok (snd (ad_rotate_user_api_key True (\<lambda>k. k) ''u'' ''t'' ''k2'' waiting_user))" by code_simp
  then obtain c where run: "ad_rotate_user_api_key True (\<lambda>k. k) ''u'' ''t'' ''k2'' waiting_user = (?s, Inr c)"
    by (cases "ad_rotate_user_api_key True (\<lambda>k. k) ''u'' ''t'' ''k2'' waiting_user"; cases "snd (ad_rotate_user_api_key True (\<lambda>k. k) ''u'' ''t'' ''k2'' waiting_user)") auto
  have t: "tenant_by_key (\<lambda>k. k) ''h'' waiting_user = Some (seed_row (\<lambda>k. k) ''h'' ''t'' ''t'')"
    by (simp add: tenant_by_key_def waiting_user_def seed_row_def)
  from rotation_all_or_nothing [OF run ok t] show ?thesis by (auto simp: seed_row_def Let_def)
qed

text \<open>The SQLite check whether an invoice was processed answers for the empty number only; for every real number it raises, because
  it reads the row from the connection.\<close>

theorem sqlite_invoice_check_raises:
  assumes "i \<noteq> []"
  shows "ad_is_invoice_processed False i tid s = Inl AttributeError"
  using assms by (simp add: ad_is_invoice_processed_def sq_is_invoice_processed_def)

theorem sqlite_invoice_check_raises_witness: "ad_is_invoice_processed False ''i'' ''t'' no_accounts = Inl AttributeError"
  by (rule sqlite_invoice_check_raises) simp

end
