(* ===== verification/SignIn.thy ===== *)
theory SignIn
  imports Accounts Money
begin

text \<open>
  Sessions, the key registry and the routes that hand out credentials: \<open>src/auth/sessions.py\<close>, \<open>src/auth/verification.py\<close>,
  the registry of \<open>src/deps.py\<close>, \<open>src/routers/auth.py\<close> and \<open>src/routers/account.py\<close>.

  The state is the account tables, the registry (digest to tenant and plan), sessions and their CSRF tokens, the spend
  caps and the mails sent. Random values (user and tenant ids, keys, tokens, session ids) are arguments of
  the handlers, one per draw. Database calls succeed or raise as in \<open>Accounts\<close>; the rotation of a key, whose failure the
  verification handles, also takes the outcome of its round trip, and mails, spend caps and restoring a
  token may fail. Payload fields are strings or absent. Rate limits, pages, cookies' attributes and
  the providers' OAuth exchange are left out: the callback takes the user information it yields.

  Shown: which requests pass each guard; a verification link gives a key once, that key works and the previous one does
  not; a failed verification can be repeated; a rotation needs a live session, its CSRF token and a second factor; the
  database outvotes the registry; CSRF tokens belong to sessions. Also shown: on SQLite a signup fails
  after it created the tenant, and two users can have one address.
\<close>

section \<open>State\<close>

record key_info =
  ki_tenant :: string
  ki_plan :: string

record session =
  sn_tenant :: string
  sn_created :: int
  sn_expires :: int

record auth =
  au_db :: accounts
  au_keys :: "(string \<times> key_info) list"
  au_sessions :: "(string \<times> session) list"
  au_csrf :: "(string \<times> string) list"
  au_caps :: "(string \<times> rat) list"
  au_mails :: "(string \<times> string) list"

record auth_config =
  cf_pg :: bool
  cf_dig :: "string \<Rightarrow> string"
  cf_password :: "string \<Rightarrow> string \<Rightarrow> string"
  cf_beta :: bool
  cf_need_invite :: bool
  cf_spend_cap :: rat
  cf_expiry_hours :: int

datatype refusal = Refused nat | Raised pyexc

section \<open>Sessions\<close>

definition SESSION_TTL :: int where "SESSION_TTL = 3600"

definition cleanup_expired :: "int \<Rightarrow> auth \<Rightarrow> auth" where
  "cleanup_expired now a =
     (let gone = map fst (filter (\<lambda>(i, s). sn_expires s < now) (au_sessions a))
      in a\<lparr>au_sessions := filter (\<lambda>(i, s). i \<notin> set gone) (au_sessions a), au_csrf := filter (\<lambda>(i, t). i \<notin> set gone) (au_csrf a)\<rparr>)"

definition create_session :: "int \<Rightarrow> string \<Rightarrow> string \<Rightarrow> auth \<Rightarrow> auth" where
  "create_session now sid tid a =
     (let b = cleanup_expired now a
      in b\<lparr>au_sessions := AList.update sid \<lparr>sn_tenant = tid, sn_created = now, sn_expires = now + SESSION_TTL\<rparr> (au_sessions b)\<rparr>)"

definition delete_session :: "string \<Rightarrow> auth \<Rightarrow> auth" where
  "delete_session sid a = a\<lparr>au_sessions := AList.delete sid (au_sessions a), au_csrf := AList.delete sid (au_csrf a)\<rparr>"

definition get_session :: "int \<Rightarrow> string \<Rightarrow> auth \<Rightarrow> auth \<times> session option" where
  "get_session now sid a =
     (let b = cleanup_expired now a
      in case map_of (au_sessions b) sid of
           None \<Rightarrow> (b, None)
         | Some s \<Rightarrow> if sn_expires s > now then (b, Some s) else (delete_session sid b, None))"

definition csrf_token_for :: "string \<Rightarrow> string \<Rightarrow> auth \<Rightarrow> auth \<times> string" where
  "csrf_token_for fresh sid a =
     (case map_of (au_csrf a) sid of
        Some t \<Rightarrow> if t \<noteq> [] then (a, t) else (a\<lparr>au_csrf := AList.update sid fresh (au_csrf a)\<rparr>, fresh)
      | None \<Rightarrow> (a\<lparr>au_csrf := AList.update sid fresh (au_csrf a)\<rparr>, fresh))"

definition csrf_valid :: "string \<Rightarrow> string \<Rightarrow> auth \<Rightarrow> bool" where
  "csrf_valid sid token a =
     (case map_of (au_csrf a) sid of None \<Rightarrow> False | Some t \<Rightarrow> t \<noteq> [] \<and> token \<noteq> [] \<and> t = token)"

definition active_sessions_count :: "int \<Rightarrow> auth \<Rightarrow> auth \<times> nat" where
  "active_sessions_count now a = (let b = cleanup_expired now a in (b, length (au_sessions b)))"

section \<open>The key registry\<close>

definition lookup_key :: "auth_config \<Rightarrow> string \<Rightarrow> auth \<Rightarrow> key_info option" where
  "lookup_key cf key a =
     (if key = [] then None
      else case tenant_by_key (cf_dig cf) key (au_db a) of
             Some t \<Rightarrow> Some \<lparr>ki_tenant = tn_id t, ki_plan = tn_plan t\<rparr>
           | None \<Rightarrow>
               (case map_of (au_keys a) (cf_dig cf key) of
                  None \<Rightarrow> None
                | Some i \<Rightarrow> if ki_tenant i = [] \<or> tenant_row (ki_tenant i) (au_db a) = None then Some i else None))"

definition register_key :: "auth_config \<Rightarrow> string \<Rightarrow> key_info \<Rightarrow> auth \<Rightarrow> auth result" where
  "register_key cf key i a =
     (case key_digest (cf_dig cf) key of Inl x \<Rightarrow> Inl x | Inr d \<Rightarrow> Inr (a\<lparr>au_keys := AList.update d i (au_keys a)\<rparr>))"

definition revoke_key :: "string \<Rightarrow> auth \<Rightarrow> auth \<times> bool" where
  "revoke_key d a = (a\<lparr>au_keys := AList.delete d (au_keys a)\<rparr>, d \<in> fst ` set (au_keys a))"

definition is_email_verified :: "auth_config \<Rightarrow> string \<Rightarrow> auth \<Rightarrow> bool" where
  "is_email_verified cf key a = (case user_by_api_key (cf_dig cf) key (au_db a) of None \<Rightarrow> False | Some u \<Rightarrow> us_verified u)"

text \<open>\<open>verify_token\<close>: a token of a past expiry is reported as expired, any other unknown one as invalid.\<close>

datatype token_state = TokenInvalid | TokenExpired | TokenOk string string

definition verify_token :: "int \<Rightarrow> string \<Rightarrow> auth \<Rightarrow> token_state" where
  "verify_token now token a =
     (case user_by_token token (au_db a) of
        None \<Rightarrow> TokenInvalid
      | Some u \<Rightarrow> (case us_expires u of
                    Some e \<Rightarrow> if e < now then TokenExpired else TokenOk (us_id u) (us_email u)
                  | None \<Rightarrow> TokenOk (us_id u) (us_email u)))"

definition create_verification :: "auth_config \<Rightarrow> int \<Rightarrow> string \<Rightarrow> string \<Rightarrow> auth \<Rightarrow> auth \<times> int" where
  "create_verification cf now token uid a =
     (let e = now + 24 * 3600
      in (a\<lparr>au_db := ad_update_verification_token (cf_pg cf) uid token e (au_db a)\<rparr>, e))"

section \<open>Signup\<close>

record signup_req =
  sq_email :: "string option"
  sq_password :: "string option"
  sq_name :: "string option"
  sq_plan :: "string option"
  sq_invite :: "string option"

record draws =
  dr_user :: string
  dr_tenant :: string
  dr_key :: string
  dr_token :: string

definition str_or :: "string option \<Rightarrow> string \<Rightarrow> string" where
  "str_or x d = (case x of None \<Rightarrow> d | Some v \<Rightarrow> if v = [] then d else v)"

definition local_part :: "string \<Rightarrow> string" where
  "local_part m = takeWhile (\<lambda>c. c \<noteq> CHR ''@'') m"

text \<open>The checks before anything is written.\<close>

definition signup_check :: "auth_config \<Rightarrow> int \<Rightarrow> signup_req \<Rightarrow> auth \<Rightarrow> refusal option" where
  "signup_check cf now q a =
     (let email = lower (strip (str_or (sq_email q) [])); password = str_or (sq_password q) []
      in if email = [] \<or> password = [] then Some (Refused 400)
         else if length password < 8 then Some (Refused 400)
         else if (case check_beta_capacity (cf_pg cf) (cf_beta cf) (au_db a) of None \<Rightarrow> False | Some c \<Rightarrow> \<not> cp_allowed c) then Some (Refused 423)
         else if cf_beta cf \<and> cf_need_invite cf \<and> \<not> truthy (sq_invite q) then Some (Refused 400)
         else if cf_beta cf \<and> cf_need_invite cf \<and> \<not> validate_invite (cf_pg cf) (cf_beta cf) (cf_need_invite cf) now (str_or (sq_invite q) []) (au_db a)
              then Some (Refused 400)
         else if user_by_email email (au_db a) \<noteq> None then Some (Refused 409)
         else None)"

text \<open>The account: tenant, registry entry, user. What was written before a raise stays.\<close>

definition signup_account :: "auth_config \<Rightarrow> int \<Rightarrow> draws \<Rightarrow> signup_req \<Rightarrow> auth \<Rightarrow> auth \<times> unit result" where
  "signup_account cf now d q a =
     (let email = lower (strip (str_or (sq_email q) [])); name = str_or (sq_name q) (local_part email);
          plan = (case sq_plan q of None \<Rightarrow> ''free'' | Some p \<Rightarrow> p);
          pw = cf_password cf (str_or (sq_password q) []) (dr_user d)
      in case ad_seed_tenants (cf_pg cf) (cf_dig cf) [(dr_key d, dr_tenant d, dr_tenant d)] (au_db a) of
           (db1, Inl x) \<Rightarrow> (a\<lparr>au_db := db1\<rparr>, Inl x)
         | (db1, Inr _) \<Rightarrow>
             (case register_key cf (dr_key d) \<lparr>ki_tenant = dr_tenant d, ki_plan = plan\<rparr> (a\<lparr>au_db := db1\<rparr>) of
                Inl x \<Rightarrow> (a\<lparr>au_db := db1\<rparr>, Inl x)
              | Inr b \<Rightarrow>
                  (case ad_create_user_with_password (cf_pg cf) (cf_dig cf) now (dr_user d) email name (dr_tenant d) (dr_key d) pw (dr_token d)
                          (now + 3600 * cf_expiry_hours cf) (au_db b) of
                     (db2, Inl x) \<Rightarrow> (b\<lparr>au_db := db2\<rparr>, Inl x)
                   | (db2, Inr _) \<Rightarrow> (b\<lparr>au_db := db2\<rparr>, Inr ()))))"

definition beta_spend_cap :: "auth_config \<Rightarrow> bool \<Rightarrow> string \<Rightarrow> auth \<Rightarrow> auth" where
  "beta_spend_cap cf ok tid a =
     (if cf_beta cf \<and> cf_spend_cap cf > 0 \<and> ok \<and> map_of (au_caps a) tid = None then a\<lparr>au_caps := au_caps a @ [(tid, cf_spend_cap cf)]\<rparr> else a)"

text \<open>The invite is counted after the account exists.\<close>

definition signup_invite :: "auth_config \<Rightarrow> int \<Rightarrow> string \<Rightarrow> signup_req \<Rightarrow> accounts \<Rightarrow> accounts \<times> bool result" where
  "signup_invite cf now uid q s =
     (if truthy (sq_invite q) then use_invite (cf_pg cf) now (str_or (sq_invite q) []) uid s else (s, Inr False))"

definition signup :: "auth_config \<Rightarrow> int \<Rightarrow> draws \<Rightarrow> bool \<Rightarrow> bool \<Rightarrow> signup_req \<Rightarrow> auth \<Rightarrow> auth \<times> (refusal + string)" where
  "signup cf now d mail_ok cap_ok q a =
     (case signup_check cf now q a of
        Some r \<Rightarrow> (a, Inl r)
      | None \<Rightarrow>
          (case signup_account cf now d q a of
             (b, Inl x) \<Rightarrow> (b, Inl (Raised x))
           | (b, Inr _) \<Rightarrow>
               let email = lower (strip (str_or (sq_email q) []));
                   c = (if mail_ok then b\<lparr>au_mails := au_mails b @ [(email, dr_token d)]\<rparr> else b)
               in case signup_invite cf now (dr_user d) q (au_db c) of
                    (db, Inl x) \<Rightarrow> (c\<lparr>au_db := db\<rparr>, Inl (Raised x))
                  | (db, Inr _) \<Rightarrow> (beta_spend_cap cf cap_ok (dr_tenant d) (c\<lparr>au_db := db\<rparr>), Inr (dr_tenant d))))"

section \<open>Verification, login, OAuth\<close>

text \<open>One rotation with the outcome of its round trip: lost answers hide a commit.\<close>

definition rotate_call :: "auth_config \<Rightarrow> pg_outcome \<Rightarrow> string \<Rightarrow> string \<Rightarrow> string \<Rightarrow> accounts \<Rightarrow> accounts \<times> rotation result" where
  "rotate_call cf oc uid tid key s =
     (case oc of
        PgOk \<Rightarrow> ad_rotate_user_api_key (cf_pg cf) (cf_dig cf) uid tid key s
      | PgDown \<Rightarrow> (s, Inl PGUnavailableError)
      | PgLost \<Rightarrow> (fst (ad_rotate_user_api_key (cf_pg cf) (cf_dig cf) uid tid key s), Inl PGUnavailableError))"

text \<open>After the commit: the old digest leaves the registry, the new key enters it with the tenant's plan.\<close>

definition switch_key :: "auth_config \<Rightarrow> string \<Rightarrow> string \<Rightarrow> string \<Rightarrow> auth \<Rightarrow> auth result" where
  "switch_key cf old tid key a =
     (let b = (if old = [] then a else fst (revoke_key old a));
          plan = (case tenant_row tid (au_db b) of None \<Rightarrow> ''free'' | Some t \<Rightarrow> tn_plan t)
      in register_key cf key \<lparr>ki_tenant = tid, ki_plan = plan\<rparr> b)"

definition verify_email :: "auth_config \<Rightarrow> int \<Rightarrow> string \<Rightarrow> string \<Rightarrow> pg_outcome \<Rightarrow> bool \<Rightarrow> string \<Rightarrow> auth \<Rightarrow> auth \<times> (refusal + string \<times> string)" where
  "verify_email cf now key sid oc restore_ok token a =
     (case ad_consume_verification_token (cf_pg cf) now token (au_db a) of
        (db, None) \<Rightarrow> (a\<lparr>au_db := db\<rparr>, Inl (Refused 400))
      | (db, Some c) \<Rightarrow>
          (case rotate_call cf oc (co_user c) (co_tenant c) key db of
             (db', Inl x) \<Rightarrow>
               (a\<lparr>au_db := (if restore_ok then restore_verification_token (co_user c) token (co_expires c) db' else db')\<rparr>, Inl (Refused 500))
           | (db', Inr r) \<Rightarrow>
               (case switch_key cf (ro_old r) (co_tenant c) key (a\<lparr>au_db := db'\<rparr>) of
                  Inl x \<Rightarrow> (a\<lparr>au_db := db'\<rparr>, Inl (Raised x))
                | Inr b \<Rightarrow> (create_session now sid (co_tenant c) b, Inr (key, sid)))))"

definition resend_verification :: "auth_config \<Rightarrow> int \<Rightarrow> string \<Rightarrow> bool \<Rightarrow> string option \<Rightarrow> auth \<Rightarrow> auth \<times> (refusal + bool)" where
  "resend_verification cf now token mail_ok email a =
     (let m = lower (strip (str_or email []))
      in if m = [] then (a, Inl (Refused 400))
         else case user_by_email m (au_db a) of
                None \<Rightarrow> (a, Inl (Refused 404))
              | Some u \<Rightarrow>
                  if us_verified u then (a, Inr False)
                  else case create_verification cf now token (us_id u) a of
                         (b, e) \<Rightarrow>
                           let c = b\<lparr>au_db := ad_update_verification_token (cf_pg cf) (us_id u) token e (au_db b)\<rparr>
                           in (if mail_ok then c\<lparr>au_mails := au_mails c @ [(m, token)]\<rparr> else c, Inr True))"

definition login :: "auth_config \<Rightarrow> int \<Rightarrow> string \<Rightarrow> string \<Rightarrow> auth \<Rightarrow> auth \<times> (refusal + string)" where
  "login cf now sid key a =
     (case lookup_key cf key a of None \<Rightarrow> (a, Inl (Refused 401)) | Some i \<Rightarrow> (create_session now sid (ki_tenant i) a, Inr sid))"

definition logout :: "string option \<Rightarrow> auth \<Rightarrow> auth" where
  "logout sid a = (if truthy sid then delete_session (the sid) a else a)"

record oauth_user =
  ou_id :: string
  ou_email :: string
  ou_name :: string
  ou_provider :: string

text \<open>The callback from the provider's answer on; the answer carries the new key, if one was made, and the session.\<close>

definition oauth_callback :: "auth_config \<Rightarrow> int \<Rightarrow> draws \<Rightarrow> string \<Rightarrow> oauth_user \<Rightarrow> auth \<Rightarrow> auth \<times> (refusal + string option \<times> string)" where
  "oauth_callback cf now d sid u a =
     (case user_by_email (ou_email u) (au_db a) of
        Some row \<Rightarrow> (create_session now sid (us_tenant row) a, Inr (None, sid))
      | None \<Rightarrow>
          (case ad_seed_tenants (cf_pg cf) (cf_dig cf) [(dr_key d, dr_tenant d, dr_tenant d)] (au_db a) of
             (db1, Inl x) \<Rightarrow> (a\<lparr>au_db := db1\<rparr>, Inl (Refused 500))
           | (db1, Inr _) \<Rightarrow>
               (case ad_upsert_oauth_user (cf_pg cf) (cf_dig cf) now (ou_id u) (ou_email u) (ou_name u) (ou_provider u) (dr_tenant d) (dr_key d) db1 of
                  (db2, Inl x) \<Rightarrow> (a\<lparr>au_db := db2\<rparr>, Inl (Refused 500))
                | (db2, Inr _) \<Rightarrow>
                    (case register_key cf (dr_key d) \<lparr>ki_tenant = dr_tenant d, ki_plan = ''free''\<rparr> (a\<lparr>au_db := db2\<rparr>) of
                       Inl x \<Rightarrow> (a\<lparr>au_db := db2\<rparr>, Inl (Raised x))
                     | Inr b \<Rightarrow> (create_session now sid (dr_tenant d) b, Inr (Some (dr_key d), sid))))))"

section \<open>The account page\<close>

definition OAUTH_SESSION_MAX_AGE_S :: int where "OAUTH_SESSION_MAX_AGE_S = 600"

definition password_matches :: "auth_config \<Rightarrow> user_row \<Rightarrow> string \<Rightarrow> bool" where
  "password_matches cf u password =
     (case us_password u of None \<Rightarrow> False | Some h \<Rightarrow> h \<noteq> [] \<and> password \<noteq> [] \<and> cf_password cf password (us_id u) = h)"

definition account_page :: "int \<Rightarrow> string \<Rightarrow> string \<Rightarrow> auth \<Rightarrow> auth \<times> (refusal + string)" where
  "account_page now fresh sid a =
     (case (if sid = [] then (a, None) else get_session now sid a) of
        (b, None) \<Rightarrow> (b, Inl (Refused 401))
      | (b, Some s) \<Rightarrow>
          (case user_by_tenant (sn_tenant s) (au_db b) of
             None \<Rightarrow> (b, Inl (Refused 404))
           | Some u \<Rightarrow> (case csrf_token_for fresh sid b of (c, t) \<Rightarrow> (c, Inr t))))"

definition second_factor :: "auth_config \<Rightarrow> int \<Rightarrow> session \<Rightarrow> user_row \<Rightarrow> string \<Rightarrow> bool" where
  "second_factor cf now s u password =
     (if lower (us_provider u) = ''email'' then password_matches cf u password
      else \<not> sn_created s + OAUTH_SESSION_MAX_AGE_S < now)"

definition rotate_api_key :: "auth_config \<Rightarrow> int \<Rightarrow> string \<Rightarrow> pg_outcome \<Rightarrow> string \<Rightarrow> string \<Rightarrow> string \<Rightarrow> auth \<Rightarrow> auth \<times> (refusal + string)" where
  "rotate_api_key cf now key oc csrf password sid a =
     (case (if sid = [] then (a, None) else get_session now sid a) of
        (b, None) \<Rightarrow> (b, Inl (Refused 401))
      | (b, Some s) \<Rightarrow>
          if \<not> csrf_valid sid csrf b then (b, Inl (Refused 403))
          else case user_by_tenant (sn_tenant s) (au_db b) of
                 None \<Rightarrow> (b, Inl (Refused 404))
               | Some u \<Rightarrow>
                   if \<not> second_factor cf now s u password then (b, Inl (Refused 403))
                   else case rotate_call cf oc (us_id u) (sn_tenant s) key (au_db b) of
                          (db, Inl x) \<Rightarrow> (b\<lparr>au_db := db\<rparr>, Inl (Refused 500))
                        | (db, Inr r) \<Rightarrow>
                            (case switch_key cf (ro_old r) (sn_tenant s) key (b\<lparr>au_db := db\<rparr>) of
                               Inl x \<Rightarrow> (b\<lparr>au_db := db\<rparr>, Inl (Raised x))
                             | Inr c \<Rightarrow> (c, Inr key)))"

section \<open>Facts about sessions\<close>

lemma map_of_filter_key: "map_of (filter (\<lambda>(i, v). i \<notin> G) xs) k = (if k \<in> G then None else map_of xs k)"
  by (induction xs) auto

lemma cleanup_fields [simp]:
  "au_db (cleanup_expired now a) = au_db a" "au_keys (cleanup_expired now a) = au_keys a"
  "au_caps (cleanup_expired now a) = au_caps a" "au_mails (cleanup_expired now a) = au_mails a"
  by (simp_all add: cleanup_expired_def Let_def)

lemma session_ops_db [simp]:
  "au_db (create_session now sid tid a) = au_db a" "au_keys (create_session now sid tid a) = au_keys a"
  "au_db (delete_session sid a) = au_db a" "au_keys (delete_session sid a) = au_keys a"
  "au_db (fst (get_session now sid a)) = au_db a" "au_keys (fst (get_session now sid a)) = au_keys a"
  by (simp_all add: create_session_def delete_session_def get_session_def Let_def split: option.splits)

definition csrf_bound :: "auth \<Rightarrow> bool" where
  "csrf_bound a \<longleftrightarrow> fst ` set (au_csrf a) \<subseteq> fst ` set (au_sessions a)"

lemma filter_keys: "fst ` set (filter (\<lambda>(i, v). i \<notin> G) xs) = fst ` set xs - G"
  by (induction xs) auto

lemma csrf_cleanup: "csrf_bound a \<Longrightarrow> csrf_bound (cleanup_expired now a)"
  by (simp add: csrf_bound_def cleanup_expired_def Let_def filter_keys [unfolded set_filter] Diff_mono)

lemma AList_update_keys: "fst ` set (AList.update k v xs) = insert k (fst ` set xs)"
  by (induction xs) auto

lemma csrf_create: "csrf_bound a \<Longrightarrow> csrf_bound (create_session now sid tid a)"
  using csrf_cleanup [of a now] by (simp add: csrf_bound_def create_session_def Let_def AList_update_keys subset_insertI2)

lemma AList_delete_keys: "fst ` set (AList.delete k xs) = fst ` set xs - {k}"
  by (induction xs) (auto simp: AList.delete_eq)

lemma csrf_delete: "csrf_bound a \<Longrightarrow> csrf_bound (delete_session sid a)"
  by (auto simp: csrf_bound_def delete_session_def AList_delete_keys)

lemma get_session_cases:
  assumes "get_session now sid a = (b, r)"
  shows "au_db b = au_db a" and "au_keys b = au_keys a" and "csrf_bound a \<Longrightarrow> csrf_bound b"
    and "r = Some s \<Longrightarrow> map_of (au_sessions a) sid = Some s \<and> now < sn_expires s \<and> map_of (au_csrf b) sid = map_of (au_csrf a) sid \<and> sid \<in> fst ` set (au_sessions b)"
proof -
  show "au_db b = au_db a" "au_keys b = au_keys a" using session_ops_db(5,6) [of now sid a] assms by simp_all
  show "csrf_bound b" if "csrf_bound a"
    using csrf_cleanup [OF that, of now] csrf_delete assms by (auto simp: get_session_def Let_def split: option.splits if_splits)
  assume r: "r = Some s"
  let ?c = "cleanup_expired now a"
  have b: "b = ?c" and m: "map_of (au_sessions ?c) sid = Some s" and e: "now < sn_expires s"
    using assms r by (auto simp: get_session_def Let_def split: option.splits if_splits)
  have "map_of (au_sessions a) sid = Some s \<and> map_of (au_csrf ?c) sid = map_of (au_csrf a) sid"
    using m by (auto simp: cleanup_expired_def Let_def map_of_filter_key split: if_splits)
  moreover have "sid \<in> fst ` set (au_sessions ?c)" using m by (force dest: map_of_SomeD)
  ultimately show "map_of (au_sessions a) sid = Some s \<and> now < sn_expires s \<and> map_of (au_csrf b) sid = map_of (au_csrf a) sid \<and> sid \<in> fst ` set (au_sessions b)"
    using b e by simp
qed

lemma csrf_token:
  "csrf_bound a \<Longrightarrow> sid \<in> fst ` set (au_sessions a) \<Longrightarrow> csrf_bound (fst (csrf_token_for fresh sid a))"
  "au_db (fst (csrf_token_for fresh sid a)) = au_db a" "au_keys (fst (csrf_token_for fresh sid a)) = au_keys a"
  by (simp_all add: csrf_token_for_def csrf_bound_def AList_update_keys split: option.splits)

lemma csrf_kept: "au_sessions b = au_sessions a \<Longrightarrow> au_csrf b = au_csrf a \<Longrightarrow> csrf_bound b = csrf_bound a"
  by (simp add: csrf_bound_def)

section \<open>Tenants stay\<close>

definition tenant_ids :: "accounts \<Rightarrow> string set" where
  "tenant_ids s = tn_id ` set (ac_tenants s)"

lemma tenant_row_ids: "tenant_row tid s \<noteq> None \<longleftrightarrow> tid \<in> tenant_ids s"
  by (auto simp: tenant_row_def tenant_ids_def find_None_iff)

lemma seed_rows_ids: "seed_rows dig ks ts = Inr ts' \<Longrightarrow> tn_id ` set ts' = tn_id ` set ts \<union> fst ` snd ` set ks"
  by (induction dig ks ts rule: seed_rows.induct) (auto simp: seed_row_def split: if_splits)

lemma upd_ids: "(\<And>r. key (f r) = key r) \<Longrightarrow> key ` set (upd p f rs) = key ` set rs"
proof -
  assume "\<And>r. key (f r) = key r"
  then have "map key (upd p f rs) = map key rs" by (simp add: upd_def)
  then show ?thesis by (metis list.set_map)
qed

lemma rotated_ids [simp]: "tenant_ids (rotated uid tid h s) = tenant_ids s"
  by (simp add: tenant_ids_def rotated_def upd_ids)

lemma ad_rotate_ids: "tenant_ids (fst (ad_rotate_user_api_key pg dig uid tid key s)) = tenant_ids s"
proof (cases "ad_rotate_user_api_key pg dig uid tid key s")
  case (Pair s' r)
  then show ?thesis using rotate_failed_unchanged rotate_done(1) by (cases r) fastforce+
qed

lemma rotate_call_ok:
  assumes "cf_pg cf" and "accounts_ok s"
  shows "accounts_ok (fst (rotate_call cf oc uid tid key s))" and "tenant_ids (fst (rotate_call cf oc uid tid key s)) = tenant_ids s"
  using assms pg_rotate_adapter_ok [OF assms(2)] ad_rotate_ids by (simp_all add: rotate_call_def split: pg_outcome.splits)

lemma consume_ids: "tenant_ids (fst (pg_consume_verification_token now token s)) = tenant_ids s"
  by (simp add: pg_consume_verification_token_def Let_def tenant_ids_def split: option.splits)

lemma consume_ok: "accounts_ok s \<Longrightarrow> accounts_ok (fst (pg_consume_verification_token now token s))"
  by (rule ac_step_ok [OF acs_consume])

lemma upsert_ids: "tenant_ids (fst (upsert_user new f s)) = tenant_ids s"
  by (simp add: upsert_user_def tenant_ids_def split: option.splits)

lemma create_user_ids: "tenant_ids (fst (pg_create_user_with_password dig now uid email name tid key pw token expires s)) = tenant_ids s"
  using upsert_ids by (auto simp: pg_create_user_with_password_def split: sum.splits prod.splits) (metis fst_conv)+

lemma oauth_user_ids: "tenant_ids (fst (pg_upsert_oauth_user dig now uid email name prov tid key s)) = tenant_ids s"
  using upsert_ids by (auto simp: pg_upsert_oauth_user_def split: sum.splits)

lemma use_invite_ids: "tenant_ids (fst (use_invite pg now code uid s)) = tenant_ids s"
  by (auto simp: use_invite_def ad_use_invite_code_def pg_use_invite_code_def tenant_ids_def split: option.splits sum.splits prod.splits if_splits)

lemma use_invite_ok: "accounts_ok s \<Longrightarrow> accounts_ok (fst (use_invite pg now code uid s))"
  using ac_step_ok [OF acs_use, of s] by (auto simp: use_invite_def ad_use_invite_code_def split: option.splits sum.splits prod.splits if_splits) (metis fst_conv)+

lemma pg_seed_facts:
  assumes "pg_seed_tenants dig [(k, tid, n)] s = (s', r)"
  shows "tenant_ids s \<subseteq> tenant_ids s'" and "r = Inr () \<Longrightarrow> tid \<in> tenant_ids s'" and "accounts_ok s \<Longrightarrow> accounts_ok s'"
proof -
  show "tenant_ids s \<subseteq> tenant_ids s'" "r = Inr () \<Longrightarrow> tid \<in> tenant_ids s'"
    using assms seed_rows_ids [of dig "[(k, tid, n)]" "ac_tenants s"] by (auto simp: pg_seed_tenants_def tenant_ids_def simp del: seed_rows.simps split: sum.splits)
  show "accounts_ok s \<Longrightarrow> accounts_ok s'" using ac_step_ok [OF acs_seed, of s dig "[(k, tid, n)]"] assms by simp
qed

lemma ac_step_ids: "ac_step dig s t \<Longrightarrow> tenant_ids s \<subseteq> tenant_ids t"
proof (induction rule: ac_step.induct)
  case (acs_seed s ks)
  then show ?case using seed_rows_ids [of dig ks "ac_tenants s"] by (auto simp: pg_seed_tenants_def tenant_ids_def split: sum.splits)
qed (simp_all add: ad_rotate_ids consume_ids create_user_ids oauth_user_ids, auto simp: tenant_ids_def upd_ids
    pg_update_tenant_subscription_def set_tenant_inactive_def restore_verification_token_def pg_update_verification_token_def set_verification_token_def
    verify_user_email_def mark_email_verified_def pg_create_invite_code_def pg_use_invite_code_def pg_deactivate_invite_code_def insert_invoice_def Let_def)

section \<open>The invariant\<close>

text \<open>Sound tables, registered keys of existing tenants, CSRF tokens of known sessions.\<close>

definition au_ok :: "auth \<Rightarrow> bool" where
  "au_ok a \<longleftrightarrow> accounts_ok (au_db a) \<and> (\<forall>x\<in>set (au_keys a). ki_tenant (snd x) \<in> tenant_ids (au_db a)) \<and> csrf_bound a"

lemma au_ok_db: "au_ok a \<Longrightarrow> accounts_ok db \<Longrightarrow> tenant_ids (au_db a) \<subseteq> tenant_ids db \<Longrightarrow> au_ok (a\<lparr>au_db := db\<rparr>)"
  by (auto simp: au_ok_def csrf_bound_def)

lemma au_ok_session: "au_ok a \<Longrightarrow> au_ok (create_session now sid tid a)"
  by (simp add: au_ok_def csrf_create)

lemma au_ok_delete: "au_ok a \<Longrightarrow> au_ok (delete_session sid a)"
  by (simp add: au_ok_def csrf_delete)

lemma au_ok_mails: "au_ok (a\<lparr>au_mails := m\<rparr>) = au_ok a" "au_ok (a\<lparr>au_caps := c\<rparr>) = au_ok a"
  by (simp_all add: au_ok_def csrf_bound_def)

lemma register_ok:
  assumes "register_key cf key i a = Inr b" and "au_ok a" and "ki_tenant i \<in> tenant_ids (au_db a)"
  shows "au_ok b" and "au_db b = au_db a"
proof -
  have b: "b = a\<lparr>au_keys := AList.update (cf_dig cf key) i (au_keys a)\<rparr>"
    using assms(1) by (auto simp: register_key_def key_digest_def split: if_splits)
  then show "au_db b = au_db a" by simp
  have "ki_tenant (snd x) \<in> tenant_ids (au_db a)" if "x \<in> set (au_keys b)" for x
    using that AList_update_set [of "cf_dig cf key" i "au_keys a"] assms(2,3) b by (auto simp: au_ok_def)
  then show "au_ok b" using assms(2) b by (simp add: au_ok_def csrf_bound_def)
qed

lemma switch_ok:
  assumes "switch_key cf old tid key a = Inr b" and "au_ok a" and "tid \<in> tenant_ids (au_db a)"
  shows "au_ok b" and "au_db b = au_db a"
proof -
  let ?c = "if old = [] then a else fst (revoke_key old a)"
  have "au_ok ?c"
    using assms(2) AList_delete_set [of old "au_keys a"] by (auto simp: revoke_key_def au_ok_def csrf_bound_def)
  moreover have "au_db ?c = au_db a" by (simp add: revoke_key_def)
  moreover obtain i where "register_key cf key i ?c = Inr b" "ki_tenant i = tid"
    using assms(1) unfolding switch_key_def Let_def by (metis key_info.select_convs(1))
  ultimately show "au_ok b" "au_db b = au_db a" using register_ok [of cf key i ?c b] assms(3) by simp_all
qed

lemma rotate_call_done:
  assumes "rotate_call cf oc uid tid key s = (s', Inr r)"
  shows "oc = PgOk" and "ad_rotate_user_api_key (cf_pg cf) (cf_dig cf) uid tid key s = (s', Inr r)" and "tid \<in> tenant_ids s"
proof -
  show oc: "oc = PgOk" and run: "ad_rotate_user_api_key (cf_pg cf) (cf_dig cf) uid tid key s = (s', Inr r)"
    using assms by (auto simp: rotate_call_def split: pg_outcome.splits)
  have "\<exists>t\<in>set (ac_tenants s). tn_id t = tid"
    using run rotate_done(3) [OF run] by (intro count_pos) (cases "cf_pg cf"; auto simp: ad_rotate_user_api_key_def pg_rotate_user_api_key_def
        sq_rotate_user_api_key_def rotation_counts_def Let_def split: sum.splits prod.splits if_splits)
  then show "tid \<in> tenant_ids s" by (auto simp: tenant_ids_def)
qed

section \<open>Every handler keeps it\<close>

lemma signup_account_ok:
  assumes "cf_pg cf" and "au_ok a" and "signup_account cf now d q a = (b, r)"
  shows "au_ok b"
proof -
  obtain db1 r1 where s: "ad_seed_tenants True (cf_dig cf) [(dr_key d, dr_tenant d, dr_tenant d)] (au_db a) = (db1, r1)" by fastforce
  note seed = pg_seed_facts [OF s [unfolded ad_seed_tenants_def, simplified]]
  have ok1: "au_ok (a\<lparr>au_db := db1\<rparr>)" using assms(2) seed by (intro au_ok_db) (auto simp: au_ok_def)
  show ?thesis
  proof (cases r1)
    case (Inl x)
    with assms s ok1 show ?thesis by (auto simp: signup_account_def Let_def)
  next
    case (Inr u)
    let ?i = "\<lparr>ki_tenant = dr_tenant d, ki_plan = (case sq_plan q of None \<Rightarrow> ''free'' | Some p \<Rightarrow> p)\<rparr>"
    show ?thesis
    proof (cases "register_key cf (dr_key d) ?i (a\<lparr>au_db := db1\<rparr>)")
      case (Inl x)
      with assms s ok1 \<open>r1 = Inr u\<close> show ?thesis by (auto simp: signup_account_def Let_def)
    next
      case reg: (Inr c)
      have c: "au_ok c" "au_db c = db1" using register_ok [OF reg ok1] seed(2) Inr by auto
      let ?m = "lower (strip (str_or (sq_email q) []))"
      let ?cr = "pg_create_user_with_password (cf_dig cf) now (dr_user d) ?m (str_or (sq_name q) (local_part ?m)) (dr_tenant d) (dr_key d)
         (cf_password cf (str_or (sq_password q) []) (dr_user d)) (dr_token d) (now + 3600 * cf_expiry_hours cf) (au_db c)"
      have "b = c\<lparr>au_db := fst ?cr\<rparr>"
        using assms(1,3) s Inr reg by (auto simp: signup_account_def ad_create_user_with_password_def Let_def split: sum.splits prod.splits)
      then show ?thesis
        using c(1) by (simp add: au_ok_db create_user_ids pg_create_user_ok au_ok_def csrf_bound_def)
    qed
  qed
qed

lemma signup_ok:
  assumes "cf_pg cf" and "au_ok a"
  shows "au_ok (fst (signup cf now d mail_ok cap_ok q a))"
proof (cases "signup_check cf now q a")
  case None
  obtain b r where acc: "signup_account cf now d q a = (b, r)" by fastforce
  have ok: "au_ok b" using signup_account_ok [OF assms acc] .
  show ?thesis
  proof (cases r)
    case (Inr u)
    define c where "c = (if mail_ok then b\<lparr>au_mails := au_mails b @ [(lower (strip (str_or (sq_email q) [])), dr_token d)]\<rparr> else b)"
    have c: "au_ok c" using ok by (simp add: c_def au_ok_mails)
    define i where "i = signup_invite cf now (dr_user d) q (au_db c)"
    have "accounts_ok (fst i)" "tenant_ids (fst i) = tenant_ids (au_db c)"
      using c by (simp_all add: i_def signup_invite_def use_invite_ok use_invite_ids au_ok_def)
    then have "au_ok (c\<lparr>au_db := fst i\<rparr>)" using c by (intro au_ok_db) simp_all
    moreover have "fst (signup cf now d mail_ok cap_ok q a) =
       (case snd i of Inl x \<Rightarrow> c\<lparr>au_db := fst i\<rparr> | Inr _ \<Rightarrow> beta_spend_cap cf cap_ok (dr_tenant d) (c\<lparr>au_db := fst i\<rparr>))"
      using None acc Inr by (simp add: signup_def Let_def c_def [symmetric] i_def [symmetric] split: prod.splits sum.splits)
    ultimately show ?thesis by (simp add: beta_spend_cap_def au_ok_mails split: sum.splits)
  qed (use None acc ok in \<open>simp add: signup_def\<close>)
qed (use assms in \<open>simp add: signup_def\<close>)

lemma verify_ok:
  assumes "cf_pg cf" and "au_ok a"
  shows "au_ok (fst (verify_email cf now key sid oc restore_ok token a))"
proof -
  obtain db r where con: "pg_consume_verification_token now token (au_db a) = (db, r)" by fastforce
  have db: "accounts_ok db" "tenant_ids db = tenant_ids (au_db a)"
    using con consume_ok [of "au_db a" now token] consume_ids [of now token "au_db a"] assms(2) by (auto simp: au_ok_def)
  show ?thesis
  proof (cases r)
    case None
    with con assms db au_ok_db [OF assms(2) db(1)] show ?thesis by (simp add: verify_email_def ad_consume_verification_token_def)
  next
    case (Some c)
    obtain db' r' where rot: "rotate_call cf oc (co_user c) (co_tenant c) key db = (db', r')" by fastforce
    have db': "accounts_ok db'" "tenant_ids db' = tenant_ids (au_db a)" using rotate_call_ok [OF assms(1) db(1)] rot db(2) by (metis fst_conv)+
    have ok: "au_ok (a\<lparr>au_db := db'\<rparr>)" using au_ok_db [OF assms(2) db'(1)] db'(2) by simp
    have restored: "accounts_ok (restore_verification_token (co_user c) token (co_expires c) db')"
      by (rule ac_step_ok [OF acs_restore db'(1)])
    have "tenant_ids (restore_verification_token (co_user c) token (co_expires c) db') = tenant_ids db'"
      by (simp add: restore_verification_token_def tenant_ids_def)
    then have okr: "au_ok (a\<lparr>au_db := restore_verification_token (co_user c) token (co_expires c) db'\<rparr>)"
      using au_ok_db [OF assms(2) restored] db'(2) by simp
    show ?thesis
    proof (cases r')
      case (Inl x)
      with con assms(1) Some rot ok okr show ?thesis by (simp add: verify_email_def ad_consume_verification_token_def)
    next
      case (Inr ro)
      have t: "co_tenant c \<in> tenant_ids (au_db (a\<lparr>au_db := db'\<rparr>))" using rotate_call_done(3) [OF rot [unfolded Inr]] db db' by simp
      show ?thesis
        using con assms(1) Some rot Inr ok switch_ok(1) [OF _ ok t] au_ok_session
        by (simp add: verify_email_def ad_consume_verification_token_def split: sum.splits)
    qed
  qed
qed

lemma resend_ok:
  assumes "au_ok a"
  shows "au_ok (fst (resend_verification cf now token mail_ok email a))"
proof -
  have "au_ok (b\<lparr>au_db := ad_update_verification_token (cf_pg cf) u token e (au_db b)\<rparr>)" if "au_ok b" for b u e
    using that ac_step_ok [OF acs_token, of "au_db b" u token e]
    by (intro au_ok_db) (auto simp: ad_update_verification_token_def au_ok_def pg_update_verification_token_def tenant_ids_def)
  note tok = this
  show ?thesis
    using assms tok [OF tok] by (auto simp: resend_verification_def create_verification_def Let_def au_ok_mails split: option.splits)
qed

lemma oauth_ok:
  assumes "cf_pg cf" and "au_ok a"
  shows "au_ok (fst (oauth_callback cf now d sid u a))"
proof (cases "user_by_email (ou_email u) (au_db a)")
  case None
  obtain db1 r1 where s: "pg_seed_tenants (cf_dig cf) [(dr_key d, dr_tenant d, dr_tenant d)] (au_db a) = (db1, r1)" by fastforce
  note seed = pg_seed_facts [OF s]
  have acc1: "accounts_ok db1" using seed(3) assms(2) by (simp add: au_ok_def)
  have ok1: "au_ok (a\<lparr>au_db := db1\<rparr>)" using au_ok_db [OF assms(2) acc1 seed(1)] .
  let ?up = "pg_upsert_oauth_user (cf_dig cf) now (ou_id u) (ou_email u) (ou_name u) (ou_provider u) (dr_tenant d) (dr_key d) db1"
  have acc2: "accounts_ok (fst ?up)" "tenant_ids (fst ?up) = tenant_ids db1" using pg_upsert_oauth_ok [OF acc1] oauth_user_ids by simp_all
  have ok2: "au_ok (a\<lparr>au_db := fst ?up\<rparr>)" by (rule au_ok_db [OF assms(2) acc2(1)]) (use acc2 seed in simp)
  show ?thesis
  proof (cases "register_key cf (dr_key d) \<lparr>ki_tenant = dr_tenant d, ki_plan = ''free''\<rparr> (a\<lparr>au_db := fst ?up\<rparr>)")
    case (Inl x)
    then show ?thesis using None s ok1 ok2 assms(1)
      by (cases ?up) (auto simp: oauth_callback_def ad_seed_tenants_def ad_upsert_oauth_user_def split: sum.splits)
  next
    case (Inr b)
    have "au_ok b" if "r1 = Inr ()" using register_ok(1) [OF Inr ok2] seed(2) [OF that] acc2 by simp
    then show ?thesis using None s ok1 ok2 assms(1) Inr
      by (cases ?up) (auto simp: oauth_callback_def ad_seed_tenants_def ad_upsert_oauth_user_def au_ok_session split: sum.splits)
  qed
qed (use assms in \<open>simp add: oauth_callback_def au_ok_session\<close>)

lemma au_ok_same: "au_db b = au_db a \<Longrightarrow> au_keys b = au_keys a \<Longrightarrow> csrf_bound b \<Longrightarrow> au_ok a \<Longrightarrow> au_ok b"
  by (simp add: au_ok_def)

text \<open>The session guard shared by the account page and the rotation.\<close>

abbreviation session_of :: "int \<Rightarrow> string \<Rightarrow> auth \<Rightarrow> auth \<times> session option" where
  "session_of now sid a \<equiv> if sid = [] then (a, None) else get_session now sid a"

lemma session_of_ok:
  assumes "session_of now sid a = (b, r)" and "au_ok a"
  shows "au_ok b"
proof (cases "sid = []")
  case False
  with assms(1) have g: "get_session now sid a = (b, r)" by simp
  show ?thesis by (rule au_ok_same [OF get_session_cases(1,2) [OF g] get_session_cases(3) [OF g] assms(2)]) (use assms(2) in \<open>simp add: au_ok_def\<close>)
qed (use assms in auto)

lemma session_of_Some:
  assumes "session_of now sid a = (b, Some s)"
  shows "map_of (au_sessions a) sid = Some s" and "now < sn_expires s" and "map_of (au_csrf b) sid = map_of (au_csrf a) sid"
    and "sid \<in> fst ` set (au_sessions b)" and "au_db b = au_db a" and "au_keys b = au_keys a" and "sid \<noteq> []"
proof -
  show "sid \<noteq> []" using assms by auto
  then have g: "get_session now sid a = (b, Some s)" using assms by simp
  show "map_of (au_sessions a) sid = Some s" "now < sn_expires s" "map_of (au_csrf b) sid = map_of (au_csrf a) sid"
    "sid \<in> fst ` set (au_sessions b)" using get_session_cases(4) [OF g refl] by blast+
  show "au_db b = au_db a" "au_keys b = au_keys a" using get_session_cases(1,2) [OF g] .
qed

lemma account_page_ok:
  assumes "au_ok a"
  shows "au_ok (fst (account_page now fresh sid a))"
proof -
  obtain b r where g: "session_of now sid a = (b, r)" by fastforce
  note ok = session_of_ok [OF g assms]
  show ?thesis
  proof (cases r)
    case (Some s)
    have "csrf_bound (fst (csrf_token_for fresh sid b))"
      using csrf_token(1) session_of_Some(4) g Some ok by (simp add: au_ok_def)
    then have "au_ok (fst (csrf_token_for fresh sid b))" using au_ok_same [OF csrf_token(2,3)] ok by blast
    then show ?thesis using g Some ok by (auto simp: account_page_def split: option.splits prod.splits)
  qed (use g ok in \<open>simp add: account_page_def\<close>)
qed

lemma rotate_key_ok:
  assumes "cf_pg cf" and "au_ok a"
  shows "au_ok (fst (rotate_api_key cf now key oc csrf password sid a))"
proof -
  obtain b r where g: "session_of now sid a = (b, r)" by fastforce
  note ok = session_of_ok [OF g assms(2)]
  show ?thesis
  proof (cases r)
    case (Some s)
    have tail: "au_ok (fst (case rotate_call cf oc (us_id u) (sn_tenant s) key (au_db b) of
        (db, Inl x) \<Rightarrow> (b\<lparr>au_db := db\<rparr>, Inl (Refused 500))
      | (db, Inr r) \<Rightarrow> (case switch_key cf (ro_old r) (sn_tenant s) key (b\<lparr>au_db := db\<rparr>) of
           Inl x \<Rightarrow> (b\<lparr>au_db := db\<rparr>, Inl (Raised x)) | Inr c \<Rightarrow> (c, Inr key))))" for u
    proof -
      obtain db r' where rot: "rotate_call cf oc (us_id u) (sn_tenant s) key (au_db b) = (db, r')" by fastforce
      have db: "accounts_ok db" "tenant_ids db = tenant_ids (au_db b)"
        using rotate_call_ok [OF assms(1), of "au_db b" oc "us_id u" "sn_tenant s" key] rot ok by (auto simp: au_ok_def)
      have okb: "au_ok (b\<lparr>au_db := db\<rparr>)" using au_ok_db [OF ok db(1)] db(2) by simp
      show ?thesis
      proof (cases r')
        case (Inr ro)
        have "sn_tenant s \<in> tenant_ids (au_db (b\<lparr>au_db := db\<rparr>))" using rotate_call_done(3) [OF rot [unfolded Inr]] db(2) by simp
        then show ?thesis using rot Inr okb switch_ok(1) [OF _ okb] by (simp split: sum.splits)
      qed (use rot okb in simp)
    qed
    show ?thesis
    proof (cases "user_by_tenant (sn_tenant s) (au_db b)")
      case u: (Some u)
      show ?thesis using g Some ok u tail [of u] by (simp add: rotate_api_key_def)
    qed (use g Some ok in \<open>simp add: rotate_api_key_def\<close>)
  qed (use g ok in \<open>simp add: rotate_api_key_def\<close>)
qed

text \<open>The service and whatever else writes the tables.\<close>

inductive au_step :: "auth_config \<Rightarrow> auth \<Rightarrow> auth \<Rightarrow> bool" for cf where
  aus_signup: "au_step cf a (fst (signup cf now d mail_ok cap_ok q a))"
| aus_verify: "au_step cf a (fst (verify_email cf now key sid oc restore_ok token a))"
| aus_resend: "au_step cf a (fst (resend_verification cf now token mail_ok email a))"
| aus_login: "au_step cf a (fst (login cf now sid key a))"
| aus_logout: "au_step cf a (logout so a)"
| aus_oauth: "au_step cf a (fst (oauth_callback cf now d sid u a))"
| aus_page: "au_step cf a (fst (account_page now fresh sid a))"
| aus_rotate: "au_step cf a (fst (rotate_api_key cf now key oc csrf password sid a))"
| aus_tables: "ac_step (cf_dig cf) (au_db a) db \<Longrightarrow> au_step cf a (a\<lparr>au_db := db\<rparr>)"

definition au_init :: auth where
  "au_init = \<lparr>au_db = no_accounts, au_keys = [], au_sessions = [], au_csrf = [], au_caps = [], au_mails = []\<rparr>"

interpretation aus: transition_system "\<lambda>a. a = au_init" "au_step cf" for cf .

lemma au_step_ok: "au_step cf a b \<Longrightarrow> cf_pg cf \<Longrightarrow> au_ok a \<Longrightarrow> au_ok b"
proof (induction rule: au_step.induct)
  case (aus_login a now sid key)
  then show ?case by (simp add: login_def au_ok_session split: option.splits)
next
  case (aus_tables a db)
  then show ?case using ac_step_ok [OF aus_tables(1)] ac_step_ids [OF aus_tables(1)] by (intro au_ok_db) (auto simp: au_ok_def)
qed (simp_all add: signup_ok verify_ok resend_ok oauth_ok account_page_ok rotate_key_ok logout_def au_ok_delete)

lemma au_reach_ok:
  assumes "cf_pg cf" and "transition_system.reach (\<lambda>a. a = au_init) (au_step cf) a"
  shows "au_ok a"
proof (rule transition_system.invariant_reach [OF _ _ assms(2)])
  show "au_ok a" if "a = au_init" for a
    using that by (simp add: au_init_def au_ok_def csrf_bound_def no_accounts_def accounts_ok_def users_ok_def distinct_on_def)
qed (use au_step_ok assms(1) in blast)

section \<open>Keys after a change\<close>

lemma lookup_dead:
  assumes "au_ok a" and "tenant_by_key (cf_dig cf) key (au_db a) = None" and "[] \<notin> tenant_ids (au_db a)"
  shows "lookup_key cf key a = None"
proof (cases "map_of (au_keys a) (cf_dig cf key)")
  case (Some i)
  then have "(cf_dig cf key, i) \<in> set (au_keys a)" by (rule map_of_SomeD)
  then have "ki_tenant i \<in> tenant_ids (au_db a)" using assms(1) by (force simp: au_ok_def)
  moreover from this assms(3) have "ki_tenant i \<noteq> []" by metis
  ultimately show ?thesis using assms(2) Some tenant_row_ids [of "ki_tenant i" "au_db a"] by (auto simp: lookup_key_def)
qed (use assms(2) in \<open>simp add: lookup_key_def\<close>)

lemma rotated_lookup:
  assumes "rotate_call cf oc uid tid key db = (db', Inr r)" and "cf_pg cf" and "cf_dig cf key \<noteq> []" and "au_db a = db'"
  shows "map_option ki_tenant (lookup_key cf key a) = Some tid"
proof -
  have run: "ad_rotate_user_api_key True (cf_dig cf) uid tid key db = (db', Inr r)" using rotate_call_done(2) [OF assms(1)] assms(2) by simp
  obtain t where "tenant_by_key (cf_dig cf) key db' = Some t" "tn_id t = tid"
    using rotated_resolves [OF run _ assms(3)] rotate_done(7) [OF run] by auto
  then show ?thesis using rotate_done(5) [OF run] assms(4) by (simp add: lookup_key_def)
qed

lemma rotated_dead_tokens:
  assumes "List.find (token_live now token) (ac_users s) = None"
  shows "List.find (token_live now token) (ac_users (rotated uid tid h s)) = None"
  using assms by (auto simp: find_None_iff rotated_def upd_def token_live_def)

section \<open>What the handlers answer\<close>

lemma verify_success:
  assumes "cf_pg cf" and "verify_email cf now key sid oc restore_ok token a = (a', Inr (k, s))"
  obtains db c r b where "pg_consume_verification_token now token (au_db a) = (db, Some c)"
    and "rotate_call cf oc (co_user c) (co_tenant c) key db = (au_db a', Inr r)"
    and "switch_key cf (ro_old r) (co_tenant c) key (a\<lparr>au_db := au_db a'\<rparr>) = Inr b"
    and "a' = create_session now sid (co_tenant c) b" and "k = key" and "s = sid"
proof -
  obtain db x where con: "pg_consume_verification_token now token (au_db a) = (db, x)" by fastforce
  obtain c where x: "x = Some c" using assms con by (cases x) (auto simp: verify_email_def ad_consume_verification_token_def)
  obtain db' y where rot: "rotate_call cf oc (co_user c) (co_tenant c) key db = (db', y)" by fastforce
  obtain r where y: "y = Inr r" using assms con x rot by (cases y) (auto simp: verify_email_def ad_consume_verification_token_def)
  obtain b where sw: "switch_key cf (ro_old r) (co_tenant c) key (a\<lparr>au_db := db'\<rparr>) = Inr b"
    using assms con x rot y by (auto simp: verify_email_def ad_consume_verification_token_def split: sum.splits)
  have a': "a' = create_session now sid (co_tenant c) b" "k = key" "s = sid"
    using assms con x rot y sw by (auto simp: verify_email_def ad_consume_verification_token_def)
  have "au_db b = db'" using sw by (auto simp: switch_key_def register_key_def revoke_key_def Let_def split: sum.splits if_splits)
  then show thesis using that con x rot y sw a' by simp
qed

lemma verify_again:
  assumes "cf_pg cf" and "verify_email cf now key sid oc restore_ok token a = (a', Inr (k, s))" and "now \<le> now'"
  shows "verify_email cf now' key' sid' oc' ok' token a' = (a', Inl (Refused 400))"
proof -
  obtain db c r b where v: "pg_consume_verification_token now token (au_db a) = (db, Some c)"
    "rotate_call cf oc (co_user c) (co_tenant c) key db = (au_db a', Inr r)"
    by (rule verify_success [OF assms(1,2)])
  have "pg_consume_verification_token now' token db = (db, None)" by (rule consume_burns [OF v(1) assms(3)])
  moreover have ne: "token \<noteq> []" using v(1) by (auto simp: pg_consume_verification_token_def)
  ultimately have "List.find (token_live now' token) (ac_users db) = None"
    by (auto simp: pg_consume_verification_token_def Let_def split: option.splits)
  then have "List.find (token_live now' token) (ac_users (au_db a')) = None"
    using rotated_dead_tokens rotate_done(1) [OF rotate_call_done(2) [OF v(2)]] by metis
  then show ?thesis using assms(1) ne by (simp add: verify_email_def ad_consume_verification_token_def pg_consume_verification_token_def)
qed

lemma sqlite_signup_orphan:
  assumes "\<not> cf_pg cf" and "signup_check cf now q a = None" and "dr_key d \<noteq> []"
  shows "snd (signup cf now d mail_ok cap_ok q a) = Inl (Raised RuntimeError)"
    and "dr_tenant d \<in> tenant_ids (au_db (fst (signup cf now d mail_ok cap_ok q a)))"
    and "ac_users (au_db (fst (signup cf now d mail_ok cap_ok q a))) = ac_users (au_db a)"
  using assms by (auto simp: signup_def signup_account_def ad_seed_tenants_def sq_seed_tenants_def register_key_def key_digest_def
      ad_create_user_with_password_def Let_def tenant_ids_def seed_row_def)

lemma two_users_one_email:
  "let s = fst (pg_create_user_with_password (\<lambda>k. k) 0 ''u'' ''m'' [] ''t'' ''k1'' ''p'' ''x'' 9 no_accounts);
       s' = fst (pg_create_user_with_password (\<lambda>k. k) 0 ''v'' ''m'' [] ''t2'' ''k2'' ''p'' ''y'' 9 s)
   in map us_email (ac_users s') = [''m'', ''m'']"
  by code_simp

section \<open>Properties\<close>

text \<open>C11: In every state of the sign-in service on PostgreSQL, whatever else writes the tables, the account tables are sound, every key in the
  process's registry belongs to a tenant that exists, and every CSRF token belongs to a session.\<close>

theorem sign_in_invariant:
  assumes "cf_pg cf" and "transition_system.reach (\<lambda>a. a = au_init) (au_step cf) a"
  shows "accounts_ok (au_db a) \<and> (\<forall>x\<in>set (au_keys a). tenant_row (ki_tenant (snd x)) (au_db a) \<noteq> None) \<and> fst ` set (au_csrf a) \<subseteq> fst ` set (au_sessions a)"
  using au_reach_ok [OF assms] tenant_row_ids by (simp add: au_ok_def csrf_bound_def)

definition demo_auth :: auth_config where
  "demo_auth = \<lparr>cf_pg = True, cf_dig = (\<lambda>k. k), cf_password = (\<lambda>p u. p @ u), cf_beta = False, cf_need_invite = False, cf_spend_cap = 0, cf_expiry_hours = 24\<rparr>"

definition demo_draws :: draws where
  "demo_draws = \<lparr>dr_user = ''u'', dr_tenant = ''t'', dr_key = ''k0'', dr_token = ''tok''\<rparr>"

definition demo_signup :: signup_req where
  "demo_signup = \<lparr>sq_email = Some '' Ann@x '', sq_password = Some ''password'', sq_name = None, sq_plan = None, sq_invite = None\<rparr>"

definition demo_signed :: auth where
  "demo_signed = fst (signup demo_auth 0 demo_draws True True demo_signup au_init)"

theorem sign_in_invariant_witness:
  "accounts_ok (au_db demo_signed) \<and> au_mails demo_signed = [(''ann@x'', ''tok'')]"
proof -
  have "au_step demo_auth au_init demo_signed" unfolding demo_signed_def by (rule aus_signup)
  then have "transition_system.reach (\<lambda>a. a = au_init) (au_step demo_auth) demo_signed"
    by (rule transition_system.reach.reach_step [rotated]) (rule transition_system.reach.reach_init, rule refl)
  from sign_in_invariant [OF _ this] have "accounts_ok (au_db demo_signed)" by (simp add: demo_auth_def)
  moreover have "au_mails demo_signed = [(''ann@x'', ''tok'')]" by code_simp
  ultimately show ?thesis by simp
qed



text \<open>A verification that fails can be repeated: when the rotation raised without having committed and the token could be put back, the
  service is in exactly the state it was in before the request, so the link still works.\<close>

theorem failed_verification_repeatable:
  assumes "cf_pg cf" and "token_unique token (au_db a)" and "oc \<noteq> PgLost"
    and "verify_email cf now key sid oc True token a = (a', Inl (Refused 500))"
  shows "a' = a"
proof -
  obtain db x where con: "pg_consume_verification_token now token (au_db a) = (db, x)" by fastforce
  obtain c where x: "x = Some c" using assms(1,4) con by (cases x) (auto simp: verify_email_def ad_consume_verification_token_def)
  obtain db' y where rot: "rotate_call cf oc (co_user c) (co_tenant c) key db = (db', y)" by fastforce
  obtain e where y: "y = Inl e"
    using assms(1,4) con x rot by (cases y) (auto simp: verify_email_def ad_consume_verification_token_def split: sum.splits)
  have "db' = db" using rot y assms(3) rotate_failed_unchanged by (auto simp: rotate_call_def split: pg_outcome.splits)
  then have "a' = a\<lparr>au_db := restore_verification_token (co_user c) token (co_expires c) db\<rparr>"
    using assms(1,4) con x rot y by (simp add: verify_email_def ad_consume_verification_token_def)
  also have "\<dots> = a" using restore_undoes [OF assms(2) con [unfolded x]] by simp
  finally show ?thesis .
qed

theorem failed_verification_repeatable_witness:
  "fst (verify_email demo_auth 5 ''k1'' ''s1'' PgDown True ''tok'' demo_signed) = demo_signed"
proof -
  let ?v = "verify_email demo_auth 5 ''k1'' ''s1'' PgDown True ''tok'' demo_signed"
  have "snd ?v = Inl (Refused 500)" by code_simp
  then have run: "?v = (fst ?v, Inl (Refused 500))" by (metis prod.collapse)
  have "length (ac_users (au_db demo_signed)) = 1" by code_simp
  then obtain u where "ac_users (au_db demo_signed) = [u]" by (auto simp: length_Suc_conv)
  then have "token_unique ''tok'' (au_db demo_signed)" by (simp add: token_unique_def)
  from failed_verification_repeatable [OF _ this _ run] show ?thesis by (simp add: demo_auth_def)
qed

text \<open>C13: A key is rotated only for a request with a live session, the session's CSRF token and a second factor (the account's
  password, or for OAuth accounts a session of at most ten minutes); then the new key resolves to the session's tenant and the
  tenant's previous key to nobody, in the database and in the registry.\<close>

theorem rotation_guarded_and_effective:
  assumes "cf_pg cf" and "au_ok a" and "rotate_api_key cf now key oc csrf password sid a = (a', Inr k)"
    and "cf_dig cf key \<noteq> []" and "cf_dig cf old \<noteq> []" and "cf_dig cf old \<noteq> cf_dig cf key" and "[] \<notin> tenant_ids (au_db a)"
    and "tenant_by_key (cf_dig cf) old (au_db a) = Some t" and "map_option sn_tenant (map_of (au_sessions a) sid) = Some (tn_id t)"
  shows "(\<exists>s u. map_of (au_sessions a) sid = Some s \<and> now < sn_expires s \<and> map_of (au_csrf a) sid = Some csrf \<and> csrf \<noteq> []
      \<and> user_by_tenant (sn_tenant s) (au_db a) = Some u
      \<and> (if lower (us_provider u) = ''email'' then us_password u = Some (cf_password cf password (us_id u)) else now \<le> sn_created s + 600))
    \<and> map_option ki_tenant (lookup_key cf k a') = Some (tn_id t) \<and> lookup_key cf old a' = None"
proof -
  obtain b x where g: "session_of now sid a = (b, x)" by fastforce
  obtain s where x: "x = Some s" using assms(3) g by (cases x) (auto simp: rotate_api_key_def)
  note se = session_of_Some [OF g [unfolded x]]
  have cs: "csrf_valid sid csrf b" using assms(3) g x by (auto simp: rotate_api_key_def split: if_splits)
  obtain u where u: "user_by_tenant (sn_tenant s) (au_db b) = Some u" using assms(3) g x cs by (auto simp: rotate_api_key_def split: option.splits)
  have sf: "second_factor cf now s u password" using assms(3) g x cs u by (auto simp: rotate_api_key_def split: if_splits)
  obtain db y where rot: "rotate_call cf oc (us_id u) (sn_tenant s) key (au_db b) = (db, y)" by fastforce
  obtain r where y: "y = Inr r" using assms(3) g x cs u sf rot by (cases y) (auto simp: rotate_api_key_def)
  have sw: "switch_key cf (ro_old r) (sn_tenant s) key (b\<lparr>au_db := db\<rparr>) = Inr a'" and k: "k = key"
    using assms(3) g x cs u sf rot y by (auto simp: rotate_api_key_def split: sum.splits)
  have tid: "sn_tenant s = tn_id t" using assms(9) se(1) by simp
  have acc: "accounts_ok db" "tenant_ids db = tenant_ids (au_db a)"
    using rotate_call_ok [OF assms(1), of "au_db b" oc "us_id u" "sn_tenant s" key] rot session_of_ok [OF g assms(2)] se(5) by (auto simp: au_ok_def)
  have okb: "au_ok (b\<lparr>au_db := db\<rparr>)" using au_ok_db [OF session_of_ok [OF g assms(2)] acc(1)] acc(2) se(5) by simp
  have a': "au_ok a'" "au_db a' = db"
    using switch_ok [OF sw okb] rotate_call_done(3) [OF rot [unfolded y]] acc(2) se(5) by simp_all
  have run: "ad_rotate_user_api_key True (cf_dig cf) (us_id u) (tn_id t) key (au_db a) = (db, Inr r)"
    using rotate_call_done(2) [OF rot [unfolded y]] assms(1) se(5) tid by simp
  have tk: "distinct_on tn_hash (ac_tenants (au_db a))" "distinct (map tn_id (ac_tenants (au_db a)))" using assms(2) by (simp_all add: au_ok_def accounts_ok_def)
  have "tenant_by_key (cf_dig cf) old (au_db a') = None"
    using rotated_old_dead [OF run tk(1) assms(8) refl assms(6,5) tk(2)] a'(2) by simp
  then have "lookup_key cf old a' = None" using lookup_dead [OF a'(1)] assms(7) acc(2) a'(2) by simp
  moreover have "map_option ki_tenant (lookup_key cf k a') = Some (tn_id t)"
    using rotated_lookup [OF rot [unfolded y] assms(1,4), of a'] a'(2) tid k by simp
  moreover have "map_of (au_csrf a) sid = Some csrf" "csrf \<noteq> []"
    using cs se(3) by (auto simp: csrf_valid_def split: option.splits)
  moreover have "if lower (us_provider u) = ''email'' then us_password u = Some (cf_password cf password (us_id u)) else now \<le> sn_created s + 600"
    using sf by (auto simp: second_factor_def password_matches_def OAUTH_SESSION_MAX_AGE_S_def split: option.splits if_splits)
  ultimately show ?thesis using se(1,2,5) u by auto
qed

definition demo_verified :: auth where
  "demo_verified = fst (account_page 10 ''csrf'' ''s1'' (fst (verify_email demo_auth 5 ''k1'' ''s1'' PgOk True ''tok'' demo_signed)))"

theorem rotation_guarded_and_effective_witness:
  "let a' = fst (rotate_api_key demo_auth 20 ''k2'' PgOk ''csrf'' ''password'' ''s1'' demo_verified) in
   map_option ki_tenant (lookup_key demo_auth ''k2'' a') = Some ''t'' \<and> lookup_key demo_auth ''k1'' a' = None"
proof -
  let ?v = "rotate_api_key demo_auth 20 ''k2'' PgOk ''csrf'' ''password'' ''s1'' demo_verified"
  have "snd ?v = Inr ''k2''" by code_simp
  then have run: "?v = (fst ?v, Inr ''k2'')" by (metis prod.collapse)
  have pg: "cf_pg demo_auth" by (simp add: demo_auth_def)
  have ok: "au_ok demo_verified"
    unfolding demo_verified_def demo_signed_def
    by (intro account_page_ok verify_ok signup_ok pg) (simp add: au_init_def au_ok_def csrf_bound_def no_accounts_def accounts_ok_def users_ok_def distinct_on_def)
  have ids: "map tn_id (ac_tenants (au_db demo_verified)) = [''t'']" by code_simp
  then have ne: "[] \<notin> tenant_ids (au_db demo_verified)" unfolding tenant_ids_def by (metis list.set_map list.set(1,2) insert_iff empty_iff list.distinct(1))
  have "map_option tn_id (tenant_by_key (cf_dig demo_auth) ''k1'' (au_db demo_verified)) = Some ''t''" by code_simp
  then obtain t where t: "tenant_by_key (cf_dig demo_auth) ''k1'' (au_db demo_verified) = Some t" "tn_id t = ''t''" by auto
  have s: "map_option sn_tenant (map_of (au_sessions demo_verified) ''s1'') = Some (tn_id t)" unfolding t(2) by code_simp
  from rotation_guarded_and_effective [OF pg ok run _ _ _ ne t(1) s] t(2) show ?thesis by (simp add: demo_auth_def Let_def)
qed

end
