(* ===== verification/Payments.thy ===== *)
theory Payments
  imports Admission SignIn
begin

text \<open>
  Payments: \<open>src/routers/webhooks.py\<close> (the notifications of the payment provider), \<open>src/routers/billing.py\<close>
  (top-up by an administrator, checkout, and what a tenant reads of its account), the signature check of
  \<open>src/billing/cloudpayments_client.py\<close> and the administrators' guard of \<open>src/deps.py\<close>.

  The handlers work on the account tables of \<open>Accounts\<close> and on the ledger and audit tables. Every database call of the
  webhook has an outcome of its own, so that a notification can be processed in part. HMAC, JSON parsing and the way the
  database driver stores a value in a text column are arguments. Amounts are compared as decimals, that is exactly.

  Shown: a tenant has a paid plan only if an authentic notification paid its exact price; a processed invoice is
  never processed again; a top-up is credited once per key; and that a completed cancellation activates the plan, that
  the branch for recurring payments is never taken, that on SQLite no notification is processed, that the spend cap
  shown for a plan without one differs from the cap enforced.
\<close>

section \<open>Notifications\<close>

definition REFUSED_STATUSES :: "pyval list" where
  "REFUSED_STATUSES = [PStr ''Declined'', PStr ''Cancelled'']"

definition CLOUDPAYMENTS_PLANS :: "(string \<times> rat \<times> string) list" where
  "CLOUDPAYMENTS_PLANS = [(''pro'', 4900, ''RUB''), (''enterprise'', 29900, ''RUB'')]"

text \<open>\<open>Decimal(str(v))\<close> when it is finite: \<open>Decimal\<close> reads what \<open>float\<close> reads and skips underscores.\<close>

fun decimal_of :: "pyval \<Rightarrow> rat option" where
  "decimal_of (PInt i) = Some (of_int i)"
| "decimal_of (PFloat (Fin r)) = Some r"
| "decimal_of (PStr w) = (case float_of_string (filter (\<lambda>c. c \<noteq> CHR ''_'') w) of Some (Fin r) \<Rightarrow> Some r | _ \<Rightarrow> None)"
| "decimal_of _ = None"

definition expected_plan_money :: "pyval \<Rightarrow> (rat \<times> string) option" where
  "expected_plan_money plan =
     (case plan of
        PStr p \<Rightarrow> (case map_of CLOUDPAYMENTS_PLANS p of
                     None \<Rightarrow> None
                   | Some (a, c) \<Rightarrow> if upper (strip c) = [] then None else Some (a, upper (strip c)))
      | _ \<Rightarrow> None)"

definition amount_matches_plan :: "pydict \<Rightarrow> pyval \<Rightarrow> bool" where
  "amount_matches_plan p plan =
     (case expected_plan_money plan of
        None \<Rightarrow> False
      | Some (a, c) \<Rightarrow>
          (case dict_get p ''Currency'' of
             PStr w \<Rightarrow> strip w \<noteq> [] \<and> upper (strip w) = c \<and> decimal_of (dict_get p ''Amount'') = Some a
           | _ \<Rightarrow> False))"

record cp_conf =
  cp_pg :: bool
  cp_enabled :: bool
  cp_secret :: string
  cp_hmac :: "string \<Rightarrow> string \<Rightarrow> string"
  cp_json :: "string \<Rightarrow> pyval option"
  cp_col :: "pyval \<Rightarrow> string option"

text \<open>Comparing with a signature that is not ASCII raises.\<close>

definition verify_webhook :: "cp_conf \<Rightarrow> string \<Rightarrow> string \<Rightarrow> bool result" where
  "verify_webhook cf body sig =
     (if sig = [] then Inr False
      else if strip (cp_secret cf) = [] then Inr False
      else if \<not> is_ascii (strip sig) then Inl TypeError
      else Inr (cp_hmac cf (strip (cp_secret cf)) body = strip sig))"

record wh_net =
  wn_tenant :: pg_outcome
  wn_check :: pg_outcome
  wn_other :: pg_outcome
  wn_update :: pg_outcome
  wn_mark :: pg_outcome

abbreviation ProgrammingError :: pyexc where "ProgrammingError \<equiv> OtherException ''ProgrammingError''"

definition wh_read :: "pg_outcome \<Rightarrow> 'a result \<Rightarrow> 'a result" where
  "wh_read oc r = (if oc = PgOk then r else Inl PGUnavailableError)"

definition wh_write :: "pg_outcome \<Rightarrow> (accounts \<Rightarrow> accounts) \<Rightarrow> accounts \<Rightarrow> accounts \<times> unit result" where
  "wh_write oc f = pg_run oc (\<lambda>s. Some (f s, ()))"

definition mark_invoice :: "cp_conf \<Rightarrow> pg_outcome \<Rightarrow> string \<Rightarrow> pyval \<Rightarrow> string \<Rightarrow> accounts \<Rightarrow> accounts \<times> unit result" where
  "mark_invoice cf oc i ev tid s =
     (case cp_col cf ev of
        None \<Rightarrow> (s, Inl ProgrammingError)
      | Some ty \<Rightarrow> wh_write oc (ad_mark_invoice_processed (cp_pg cf) i ty tid) s)"

definition update_and_mark ::
  "cp_conf \<Rightarrow> wh_net \<Rightarrow> (accounts \<Rightarrow> accounts) \<Rightarrow> string \<Rightarrow> pyval \<Rightarrow> string \<Rightarrow> accounts \<Rightarrow> accounts \<times> unit result" where
  "update_and_mark cf nt f i ev tid s =
     (case wh_write (wn_update nt) f s of
        (s', Inl x) \<Rightarrow> (s', Inl x)
      | (s', Inr _) \<Rightarrow> mark_invoice cf (wn_mark nt) i ev tid s')"

definition or_val :: "pyval \<Rightarrow> pyval \<Rightarrow> pyval" where
  "or_val v w = (if py_truth v then v else w)"

fun str_of_val :: "pyval \<Rightarrow> string" where
  "str_of_val (PStr w) = w"
| "str_of_val _ = []"

definition activate_plan :: "cp_conf \<Rightarrow> wh_net \<Rightarrow> pydict \<Rightarrow> pyval \<Rightarrow> string \<Rightarrow> pyval \<Rightarrow> string \<Rightarrow> accounts \<Rightarrow> accounts \<times> unit result" where
  "activate_plan cf nt p plan i ev tid s =
     (if \<not> amount_matches_plan p plan then (s, Inr ())
      else update_and_mark cf nt (ad_update_tenant_subscription (cp_pg cf) tid i [] ''active'' (str_of_val plan) None) i ev tid s)"

definition webhook_apply ::
  "cp_conf \<Rightarrow> wh_net \<Rightarrow> pydict \<Rightarrow> pyval \<Rightarrow> pyval \<Rightarrow> string \<Rightarrow> string \<Rightarrow> accounts \<Rightarrow> accounts \<times> unit result" where
  "webhook_apply cf nt p ev plan i tid s =
     (let st = dict_get p ''Status''; refused = st \<in> set REFUSED_STATUSES
      in if \<not> refused \<and> (ev \<in> set [PStr ''Payment'', PStr ''Pay'', PStr ''Completed''] \<or> st \<in> set [PStr ''Completed'', PStr ''Authorized'']) then
           if plan \<in> set [PStr ''pro'', PStr ''enterprise''] then activate_plan cf nt p plan i ev tid s
           else mark_invoice cf (wn_mark nt) i (or_val ev (PStr ''payment_no_plan'')) tid s
         else if ev = PStr ''Recurrent'' \<and> st = PStr ''Completed'' then
           if py_truth plan then activate_plan cf nt p plan i ev tid s
           else mark_invoice cf (wn_mark nt) i (or_val ev (PStr ''recurrent_no_plan'')) tid s
         else if ev \<in> set [PStr ''Fail'', PStr ''Declined''] \<or> refused then
           update_and_mark cf nt (set_tenant_inactive tid) i ev tid s
         else if ev \<in> set [PStr ''Cancel'', PStr ''Unsubscribe''] then
           update_and_mark cf nt (ad_update_tenant_subscription (cp_pg cf) tid [] [] ''canceled'' ''free'' None) i ev tid s
         else mark_invoice cf (wn_mark nt) i (or_val ev (PStr ''ignored'')) tid s)"

text \<open>The plan in \<open>Data\<close>, a dictionary or its JSON text; \<open>None\<close> when \<open>.get\<close> is called on something else.\<close>

definition data_plan :: "cp_conf \<Rightarrow> pyval \<Rightarrow> pyval option" where
  "data_plan cf d =
     (case (case or_val d (PDict []) of PStr w \<Rightarrow> (case cp_json cf w of None \<Rightarrow> PDict [] | Some v \<Rightarrow> v) | v \<Rightarrow> v) of
        PDict e \<Rightarrow> Some (dict_get e ''plan'')
      | _ \<Rightarrow> None)"

definition account_of :: "pyval \<Rightarrow> string option" where
  "account_of v = (case or_val v (PStr []) of PStr w \<Rightarrow> Some (strip w) | _ \<Rightarrow> None)"

text \<open>An invoice id that is not a string reaches the database and fails there.\<close>

definition webhook_event :: "cp_conf \<Rightarrow> wh_net \<Rightarrow> pydict \<Rightarrow> accounts \<Rightarrow> accounts \<times> (refusal + unit)" where
  "webhook_event cf nt p s =
     (case (account_of (dict_get p ''AccountId''), data_plan cf (dict_get p ''Data'')) of
        (Some tid, Some plan) \<Rightarrow>
          let ev = or_val (dict_get p ''OperationType'') (or_val (dict_get p ''Status'') (PStr [])); inv = dict_get p ''InvoiceId''
          in if \<not> py_truth inv then (s, Inr ())
             else if tid = [] then (s, Inl (Refused 422))
             else case wh_read (wn_tenant nt) (Inr (tenant_row tid s)) of
                    Inl x \<Rightarrow> (s, Inl (Raised x))
                  | Inr None \<Rightarrow> (s, Inl (Refused 422))
                  | Inr (Some _) \<Rightarrow>
                      (case inv of
                         PStr i \<Rightarrow>
                           (case wh_read (wn_check nt) (ad_is_invoice_processed (cp_pg cf) i tid s) of
                              Inl x \<Rightarrow> (s, Inl (Raised x))
                            | Inr True \<Rightarrow> (s, Inr ())
                            | Inr False \<Rightarrow>
                                (case wh_read (wn_other nt) (ad_is_invoice_processed (cp_pg cf) i [] s) of
                                   Inl x \<Rightarrow> (s, Inl (Raised x))
                                 | Inr True \<Rightarrow> (s, Inl (Refused 409))
                                 | Inr False \<Rightarrow>
                                     (case webhook_apply cf nt p ev plan i tid s of
                                        (s', Inl x) \<Rightarrow> (s', Inl (Refused 500))
                                      | (s', Inr _) \<Rightarrow> (s', Inr ()))))
                       | _ \<Rightarrow> (s, Inl (Raised ProgrammingError)))
      | _ \<Rightarrow> (s, Inl (Raised AttributeError)))"

definition cloudpayments_webhook :: "cp_conf \<Rightarrow> wh_net \<Rightarrow> string \<Rightarrow> string \<Rightarrow> accounts \<Rightarrow> accounts \<times> (refusal + unit)" where
  "cloudpayments_webhook cf nt body sig s =
     (if \<not> cp_enabled cf then (s, Inl (Refused 503))
      else if strip (cp_secret cf) = [] then (s, Inl (Refused 503))
      else case verify_webhook cf body sig of
             Inl x \<Rightarrow> (s, Inl (Raised x))
           | Inr False \<Rightarrow> (s, Inl (Refused 400))
           | Inr True \<Rightarrow>
               (case cp_json cf body of
                  None \<Rightarrow> (s, Inl (Refused 400))
                | Some (PDict p) \<Rightarrow> webhook_event cf nt p s
                | Some _ \<Rightarrow> (s, Inl (Raised AttributeError))))"

section \<open>Administrators\<close>

text \<open>\<open>addr\<close> and \<open>network\<close> are \<open>ipaddress.ip_address\<close> and \<open>ip_network\<close> with the test of membership; \<open>None\<close> is their ValueError.\<close>

fun ip_listed :: "(string \<Rightarrow> ('a \<Rightarrow> bool) option) \<Rightarrow> string \<Rightarrow> 'a \<Rightarrow> string list \<Rightarrow> bool" where
  "ip_listed network ip a [] = False"
| "ip_listed network ip a (e # es) =
     (let e' = strip e
      in if e' = [] then ip_listed network ip a es
         else if e' = ''::1'' \<and> ip \<in> set [''::1'', ''127.0.0.1''] then True
         else case network e' of
                None \<Rightarrow> ip_listed network ip a es
              | Some n \<Rightarrow> if n a then True else ip_listed network ip a es)"

definition ip_allowed :: "(string \<Rightarrow> 'a option) \<Rightarrow> (string \<Rightarrow> ('a \<Rightarrow> bool) option) \<Rightarrow> string \<Rightarrow> string \<Rightarrow> bool" where
  "ip_allowed addr network allowlist ip =
     (let w = strip allowlist
      in if w = ''*'' then True
         else if w = [] then False
         else case addr ip of None \<Rightarrow> False | Some a \<Rightarrow> ip_listed network ip a (split_commas w))"

text \<open>\<open>X-Forwarded-For\<close> counts only behind a proxy on the same machine; its last entry is the one that proxy wrote.\<close>

definition client_ip :: "bool \<Rightarrow> string option \<Rightarrow> string \<Rightarrow> string" where
  "client_ip trust peer xff =
     (let p = opt_or peer []
      in if p \<in> set [''127.0.0.1'', ''::1'', ''localhost''] \<and> trust \<and> strip xff \<noteq> [] then strip (last (split_commas xff))
         else if p \<noteq> [] then p else ''unknown'')"

definition admin_only :: "(string \<Rightarrow> 'a option) \<Rightarrow> (string \<Rightarrow> ('a \<Rightarrow> bool) option) \<Rightarrow> string option \<Rightarrow> string \<Rightarrow> string \<Rightarrow> string option \<Rightarrow> nat option" where
  "admin_only addr network env allowlist ip key =
     (if \<not> truthy key then Some 401
      else if \<not> admin_key_valid env (the key) then Some 403
      else if \<not> ip_allowed addr network allowlist ip then Some 403
      else None)"

section \<open>Billing routes\<close>

text \<open>A top-up answers with the ledger id. The audit row is written afterwards; its failure is only logged.\<close>

record topup_net =
  tu_credit :: pg_outcome
  tu_lookup :: pg_outcome
  tu_audit :: pg_outcome
  tu_fresh :: string
  tu_event :: string

definition top_up_balance ::
  "(string \<Rightarrow> string) \<Rightarrow> topup_net \<Rightarrow> string option \<Rightarrow> pydict \<Rightarrow> ledger \<times> audit_event list \<Rightarrow> (ledger \<times> audit_event list) \<times> (refusal + string \<times> rat)" where
  "top_up_balance H nt key p s =
     (case account_of (dict_get p ''tenant_id'') of
        None \<Rightarrow> (s, Inl (Raised AttributeError))
      | Some target \<Rightarrow>
          if target = [] then (s, Inl (Refused 400))
          else case py_float (case map_of p ''amount'' of None \<Rightarrow> PInt 0 | Some v \<Rightarrow> v) of
                 Some (Fin a) \<Rightarrow>
                   if a \<le> 0 then (s, Inl (Refused 400))
                   else (case credit H (tu_credit nt) (tu_lookup nt) (tu_fresh nt) target (Some (Fin a)) (Some ''USD'') key
                                [(''note'', PStr ''Admin top-up by admin'')] (fst s) of
                           (l, Inl x) \<Rightarrow> ((l, snd s), Inl (if x = PGUnavailableError then Refused 503 else Raised x))
                         | (l, Inr i) \<Rightarrow>
                             ((l, fst (write_event (tu_audit nt) (tu_event nt) ''admin'' ''billing.topup'' ''tenant'' target
                                         [(''amount'', PFloat (Fin a))] (snd s))), Inr (i, a)))
               | _ \<Rightarrow> (s, Inl (Refused 400)))"

text \<open>\<open>order\<close> is the provider's answer to \<open>create_order\<close>: a link, or the exception.\<close>

datatype checkout = FreeActivated | DryRun | CheckoutUrl string

definition create_checkout_session ::
  "cp_conf \<Rightarrow> pg_outcome \<Rightarrow> (string \<Rightarrow> rat \<Rightarrow> string \<Rightarrow> string \<Rightarrow> string result) \<Rightarrow> string \<Rightarrow> string \<Rightarrow> accounts \<Rightarrow> accounts \<times> (refusal + checkout)" where
  "create_checkout_session cf oc order tid plan s =
     (if plan \<notin> set [''free'', ''pro'', ''enterprise''] then (s, Inl (Refused 422))
      else if plan = ''free'' then
        (case wh_write oc (ad_update_tenant_subscription (cp_pg cf) tid [] [] ''active'' ''free'' None) s of
           (s', Inl x) \<Rightarrow> (s', Inl (Raised x))
         | (s', Inr _) \<Rightarrow> (s', Inr FreeActivated))
      else if \<not> cp_enabled cf then (s, Inr DryRun)
      else case map_of CLOUDPAYMENTS_PLANS plan of
             None \<Rightarrow> (s, Inl (Refused 400))
           | Some (a, c) \<Rightarrow>
               if strip tid = [] then (s, Inl (Refused 502))
               else (case order (strip tid) a c plan of Inl x \<Rightarrow> (s, Inl (Refused 502)) | Inr u \<Rightarrow> (s, Inr (CheckoutUrl u))))"

definition balance_or_503 :: "pg_outcome \<Rightarrow> string \<Rightarrow> ledger \<Rightarrow> refusal + rat" where
  "balance_or_503 oc t l =
     (case get_tenant_balance oc t l of
        Inl x \<Rightarrow> Inl (if x = PGUnavailableError then Refused 503 else Raised x)
      | Inr b \<Rightarrow> Inr b)"

definition plan_or_refusal :: "plans_file \<Rightarrow> string option \<Rightarrow> refusal + plan_conf" where
  "plan_or_refusal f plan =
     (case plan_limits_or_refusal f plan of
        Inl x \<Rightarrow> Inl (Raised x)
      | Inr None \<Rightarrow> Inl (Refused 503)
      | Inr (Some c) \<Rightarrow> Inr c)"

record ledger_page =
  lg_balance :: rat
  lg_cap :: rat
  lg_entries :: "ledger_entry list"
  lg_total :: nat

text \<open>The outcomes are those of the entries, the balance and the count.\<close>

definition get_billing_ledger ::
  "plans_file \<Rightarrow> pg_outcome \<times> pg_outcome \<times> pg_outcome \<Rightarrow> string \<Rightarrow> string option \<Rightarrow> int \<Rightarrow> ledger \<Rightarrow> refusal + ledger_page" where
  "get_billing_ledger f ocs t plan limit l =
     (let es = get_tenant_entries (fst ocs) t 100 l; es' = (if limit > 0 then take (nat limit) es else es)
      in case balance_or_503 (fst (snd ocs)) t l of
           Inl x \<Rightarrow> Inl x
         | Inr b \<Rightarrow>
             (case plan_or_refusal f plan of
                Inl x \<Rightarrow> Inl x
              | Inr c \<Rightarrow> Inr \<lparr>lg_balance = pyround 6 b, lg_cap = pf_spend_cap c, lg_entries = es',
                               lg_total = get_tenant_entry_count (snd (snd ocs)) t l\<rparr>))"

record cap_page =
  cg_cap :: rat
  cg_balance :: rat
  cg_allowed :: bool
  cg_remaining :: "rat option"
  cg_pct :: rat

definition check_spend_cap_endpoint :: "plans_file \<Rightarrow> pg_outcome \<Rightarrow> string \<Rightarrow> string option \<Rightarrow> rat \<Rightarrow> ledger \<Rightarrow> refusal + cap_page" where
  "check_spend_cap_endpoint f oc t plan cost l =
     (case plan_or_refusal f plan of
        Inl x \<Rightarrow> Inl x
      | Inr c \<Rightarrow>
          (let cap = pf_spend_cap c
           in if cap \<le> 0 then Inr \<lparr>cg_cap = cap, cg_balance = 0, cg_allowed = True, cg_remaining = None, cg_pct = 0\<rparr>
              else case balance_or_503 oc t l of
                     Inl x \<Rightarrow> Inl x
                   | Inr b \<Rightarrow> Inr \<lparr>cg_cap = cap, cg_balance = pyround 6 b, cg_allowed = (b + cost \<le> cap),
                                    cg_remaining = Some (pyround 6 (max 0 (cap - b))), cg_pct = pyround 1 (b / cap * 100)\<rparr>))"

record balance_page =
  bg_balance :: rat
  bg_cap :: rat
  bg_pct :: rat
  bg_remaining :: "rat option"
  bg_limits :: plan_conf

definition get_balance_endpoint :: "plans_file \<Rightarrow> pg_outcome \<Rightarrow> string \<Rightarrow> string option \<Rightarrow> ledger \<Rightarrow> refusal + balance_page" where
  "get_balance_endpoint f oc t plan l =
     (case plan_or_refusal f plan of
        Inl x \<Rightarrow> Inl x
      | Inr c \<Rightarrow>
          (let cap = pf_spend_cap c
           in case balance_or_503 oc t l of
                Inl x \<Rightarrow> Inl x
              | Inr b \<Rightarrow> Inr \<lparr>bg_balance = pyround 6 b, bg_cap = cap, bg_pct = (if cap > 0 then pyround 1 (b / cap * 100) else 0),
                               bg_remaining = (if cap > 0 then Some (pyround 6 (max 0 (cap - b))) else None), bg_limits = c\<rparr>))"

section \<open>What a request does to the account tables\<close>

datatype pay_req =
    PWebhook wh_net string string
  | PCheckout pg_outcome "string \<Rightarrow> rat \<Rightarrow> string \<Rightarrow> string \<Rightarrow> string result" string string

fun pay_step :: "cp_conf \<Rightarrow> pay_req \<Rightarrow> accounts \<Rightarrow> accounts" where
  "pay_step cf (PWebhook nt body sig) s = fst (cloudpayments_webhook cf nt body sig s)"
| "pay_step cf (PCheckout oc order tid plan) s = fst (create_checkout_session cf oc order tid plan s)"

text \<open>An authentic notification that pays the exact price of a plan for a tenant.\<close>

definition pays :: "cp_conf \<Rightarrow> string \<Rightarrow> string \<Rightarrow> string \<Rightarrow> string \<Rightarrow> bool" where
  "pays cf body sig tid plan \<longleftrightarrow>
     cp_enabled cf \<and> strip (cp_secret cf) \<noteq> [] \<and> strip sig = cp_hmac cf (strip (cp_secret cf)) body \<and>
     (\<exists>p a c w. cp_json cf body = Some (PDict p) \<and> account_of (dict_get p ''AccountId'') = Some tid \<and>
        data_plan cf (dict_get p ''Data'') = Some (PStr plan) \<and> map_of CLOUDPAYMENTS_PLANS plan = Some (a, c) \<and>
        decimal_of (dict_get p ''Amount'') = Some a \<and> dict_get p ''Currency'' = PStr w \<and> upper (strip w) = c \<and>
        dict_get p ''Status'' \<notin> set REFUSED_STATUSES)"

text \<open>A row keeps its plan, or becomes free, or is the one that is paid for.\<close>

definition plan_from :: "ten_row list \<Rightarrow> (string \<times> string) option \<Rightarrow> ten_row list \<Rightarrow> bool" where
  "plan_from ts paid ts' \<longleftrightarrow>
     (\<forall>t'\<in>set ts'. (\<exists>t\<in>set ts. tn_id t = tn_id t' \<and> tn_plan t = tn_plan t') \<or> tn_plan t' = ''free'' \<or> paid = Some (tn_id t', tn_plan t'))"

lemma plan_from_refl [simp]: "plan_from ts paid ts"
  by (auto simp: plan_from_def)

lemma plan_from_upd:
  assumes "\<And>t. tn_id t = x \<Longrightarrow> tn_id (f t) = x \<and> (tn_plan (f t) = tn_plan t \<or> tn_plan (f t) = ''free'' \<or> paid = Some (x, tn_plan (f t)))"
  shows "plan_from ts paid (Accounts.upd (\<lambda>t. tn_id t = x) f ts)"
  using assms by (force simp: plan_from_def Accounts.upd_def)

lemma subscription_plan_from: "plan_from (ac_tenants s) (Some (tid, plan)) (ac_tenants (ad_update_tenant_subscription pg tid c su st plan fin s))"
  by (auto simp: ad_update_tenant_subscription_def pg_update_tenant_subscription_def sq_update_tenant_subscription_def intro!: plan_from_upd)

lemma free_plan_from: "plan_from (ac_tenants s) paid (ac_tenants (ad_update_tenant_subscription pg x c su st ''free'' fin s))"
  by (auto simp: ad_update_tenant_subscription_def pg_update_tenant_subscription_def sq_update_tenant_subscription_def intro!: plan_from_upd)

lemma inactive_plan_from: "plan_from (ac_tenants s) paid (ac_tenants (set_tenant_inactive x s))"
  by (auto simp: set_tenant_inactive_def intro!: plan_from_upd)

lemma wh_write_cases: "fst (wh_write oc f s) = s \<or> fst (wh_write oc f s) = f s"
  by (cases oc) (simp_all add: wh_write_def)

lemma wh_write_ok: "wh_write oc f s = (s', Inr u) \<Longrightarrow> s' = f s"
  by (cases oc) (simp_all add: wh_write_def)

lemma mark_tenants [simp]: "ac_tenants (fst (mark_invoice cf oc i ev tid s)) = ac_tenants s"
  using wh_write_cases [of oc "ad_mark_invoice_processed (cp_pg cf) i (the (cp_col cf ev)) tid" s]
  by (auto simp: mark_invoice_def ad_mark_invoice_processed_def insert_invoice_def split: option.splits)

lemma update_and_mark_tenants:
  "ac_tenants (fst (update_and_mark cf nt f i ev tid s)) = ac_tenants s \<or> ac_tenants (fst (update_and_mark cf nt f i ev tid s)) = ac_tenants (f s)"
  using wh_write_cases [of "wn_update nt" f s] by (auto simp: update_and_mark_def split: prod.splits sum.splits)

lemma amount_matchesD:
  assumes "amount_matches_plan p plan"
  shows "\<exists>n a c w. plan = PStr n \<and> map_of CLOUDPAYMENTS_PLANS n = Some (a, c) \<and> decimal_of (dict_get p ''Amount'') = Some a
    \<and> dict_get p ''Currency'' = PStr w \<and> upper (strip w) = c"
proof -
  from assms obtain n a c where n: "plan = PStr n" "map_of CLOUDPAYMENTS_PLANS n = Some (a, c)"
    by (auto simp: amount_matches_plan_def expected_plan_money_def split: option.splits pyval.splits)
  have "upper (strip c) = c" using n(2)
    by (auto simp: CLOUDPAYMENTS_PLANS_def split: if_splits) code_simp+
  with assms n show ?thesis
    by (cases "dict_get p ''Currency''") (auto simp: amount_matches_plan_def expected_plan_money_def split: if_splits)
qed

lemma activate_plan_from:
  assumes "plan = PStr n"
  shows "plan_from (ac_tenants s) (Some (tid, n)) (ac_tenants (fst (activate_plan cf nt p plan i ev tid s)))"
  using update_and_mark_tenants [of cf nt "ad_update_tenant_subscription (cp_pg cf) tid i [] ''active'' n None" i ev tid s]
    subscription_plan_from [of s tid n "cp_pg cf" i "[]" "''active''" None] assms
  by (auto simp: activate_plan_def)

lemma webhook_apply_plans:
  assumes "\<not> plan_from (ac_tenants s) None (ac_tenants (fst (webhook_apply cf nt p ev plan i tid s)))"
  shows "\<exists>n. plan = PStr n \<and> amount_matches_plan p plan \<and> dict_get p ''Status'' \<notin> set REFUSED_STATUSES
    \<and> plan_from (ac_tenants s) (Some (tid, n)) (ac_tenants (fst (webhook_apply cf nt p ev plan i tid s)))"
proof -
  have keep: "plan_from (ac_tenants s) None (ac_tenants (fst (update_and_mark cf nt (set_tenant_inactive tid) i ev tid s)))"
    "plan_from (ac_tenants s) None (ac_tenants (fst (update_and_mark cf nt (ad_update_tenant_subscription (cp_pg cf) tid [] [] ''canceled'' ''free'' None) i ev tid s)))"
    using update_and_mark_tenants [of cf nt "set_tenant_inactive tid" i ev tid s] inactive_plan_from [of s None tid]
      update_and_mark_tenants [of cf nt "ad_update_tenant_subscription (cp_pg cf) tid [] [] ''canceled'' ''free'' None" i ev tid s]
      free_plan_from [of s None "cp_pg cf" tid "[]" "[]" "''canceled''" None] by auto
  have act: "fst (webhook_apply cf nt p ev plan i tid s) = fst (activate_plan cf nt p plan i ev tid s)" and ref: "dict_get p ''Status'' \<notin> set REFUSED_STATUSES"
    using assms keep by (auto simp: webhook_apply_def Let_def REFUSED_STATUSES_def split: if_splits)
  have m: "amount_matches_plan p plan" using assms unfolding act by (auto simp: activate_plan_def split: if_splits)
  then obtain n where "plan = PStr n" using amount_matchesD by blast
  with m ref activate_plan_from [OF this, of s tid cf nt p i ev] act show ?thesis by auto
qed

lemma webhook_event_cases:
  assumes "account_of (dict_get p ''AccountId'') = Some tid" and "data_plan cf (dict_get p ''Data'') = Some plan"
  shows "fst (webhook_event cf nt p s) = s \<or>
    (\<exists>i. dict_get p ''InvoiceId'' = PStr i \<and> fst (webhook_event cf nt p s) =
       fst (webhook_apply cf nt p (or_val (dict_get p ''OperationType'') (or_val (dict_get p ''Status'') (PStr []))) plan i tid s))"
proof (cases "dict_get p ''InvoiceId''")
  case (PStr i)
  show ?thesis unfolding webhook_event_def assms Let_def PStr
    by (simp split: sum.split option.split bool.split prod.split)
qed (simp_all add: webhook_event_def assms Let_def split: sum.split option.split)

lemma webhook_event_plans:
  assumes "\<not> plan_from (ac_tenants s) None (ac_tenants (fst (webhook_event cf nt p s)))"
  shows "\<exists>tid n. account_of (dict_get p ''AccountId'') = Some tid \<and> data_plan cf (dict_get p ''Data'') = Some (PStr n) \<and> amount_matches_plan p (PStr n)
    \<and> dict_get p ''Status'' \<notin> set REFUSED_STATUSES \<and> plan_from (ac_tenants s) (Some (tid, n)) (ac_tenants (fst (webhook_event cf nt p s)))"
proof -
  let ?ev = "or_val (dict_get p ''OperationType'') (or_val (dict_get p ''Status'') (PStr []))"
  from assms obtain tid plan where ap: "account_of (dict_get p ''AccountId'') = Some tid" "data_plan cf (dict_get p ''Data'') = Some plan"
    by (cases "account_of (dict_get p ''AccountId'')"; cases "data_plan cf (dict_get p ''Data'')") (auto simp: webhook_event_def)
  obtain i where i: "fst (webhook_event cf nt p s) = fst (webhook_apply cf nt p ?ev plan i tid s)"
    using webhook_event_cases [OF ap, of nt s] assms by auto
  from webhook_apply_plans [OF assms [unfolded i]] ap show ?thesis unfolding i by blast
qed

lemma webhook_plans:
  "plan_from (ac_tenants s) None (ac_tenants (fst (cloudpayments_webhook cf nt body sig s)))
   \<or> (\<exists>tid n. pays cf body sig tid n \<and> plan_from (ac_tenants s) (Some (tid, n)) (ac_tenants (fst (cloudpayments_webhook cf nt body sig s))))"
proof (rule disjCI)
  assume "\<not> (\<exists>tid n. pays cf body sig tid n \<and> plan_from (ac_tenants s) (Some (tid, n)) (ac_tenants (fst (cloudpayments_webhook cf nt body sig s))))"
  then have none: "\<not> (pays cf body sig tid n \<and> plan_from (ac_tenants s) (Some (tid, n)) (ac_tenants (fst (cloudpayments_webhook cf nt body sig s))))" for tid n
    by blast
  show "plan_from (ac_tenants s) None (ac_tenants (fst (cloudpayments_webhook cf nt body sig s)))"
  proof (rule ccontr)
    assume a: "\<not> ?thesis"
    then obtain p where p: "fst (cloudpayments_webhook cf nt body sig s) = fst (webhook_event cf nt p s)" "cp_json cf body = Some (PDict p)"
      "cp_enabled cf" "strip (cp_secret cf) \<noteq> []" "verify_webhook cf body sig = Inr True"
      by (auto simp: cloudpayments_webhook_def split: if_splits sum.splits bool.splits option.splits pyval.splits)
    from p(5) have sig: "strip sig = cp_hmac cf (strip (cp_secret cf)) body" by (auto simp: verify_webhook_def split: if_splits)
    from webhook_event_plans [OF a [unfolded p(1)]] obtain tid n where e: "account_of (dict_get p ''AccountId'') = Some tid"
      "data_plan cf (dict_get p ''Data'') = Some (PStr n)" "amount_matches_plan p (PStr n)" "dict_get p ''Status'' \<notin> set REFUSED_STATUSES"
      "plan_from (ac_tenants s) (Some (tid, n)) (ac_tenants (fst (webhook_event cf nt p s)))" by (elim exE conjE) (rule that)
    from amount_matchesD [OF e(3)] e(1,2,4) p(2-4) sig have "pays cf body sig tid n" unfolding pays_def by auto
    with none [of tid n] e(5) p(1) show False by simp
  qed
qed

lemma checkout_plans: "plan_from (ac_tenants s) None (ac_tenants (fst (create_checkout_session cf oc order tid plan s)))"
  using wh_write_cases [of oc "ad_update_tenant_subscription (cp_pg cf) tid [] [] ''active'' ''free'' None" s]
    free_plan_from [of s None "cp_pg cf" tid "[]" "[]" "''active''" None]
  by (auto simp: create_checkout_session_def split: prod.splits sum.splits option.splits)

lemma paid_run:
  assumes "t \<in> set (ac_tenants (fold (pay_step cf) reqs s))" and "tn_plan t \<noteq> ''free''"
  shows "(\<exists>t0\<in>set (ac_tenants s). tn_id t0 = tn_id t \<and> tn_plan t0 = tn_plan t)
    \<or> (\<exists>nt body sig. PWebhook nt body sig \<in> set reqs \<and> pays cf body sig (tn_id t) (tn_plan t))"
  using assms
proof (induction reqs arbitrary: s)
  case (Cons r reqs)
  let ?s = "pay_step cf r s"
  have step: "plan_from (ac_tenants s) None (ac_tenants ?s) \<or> (\<exists>nt body sig tid n. r = PWebhook nt body sig \<and> pays cf body sig tid n \<and> plan_from (ac_tenants s) (Some (tid, n)) (ac_tenants ?s))"
    using webhook_plans checkout_plans by (cases r) auto
  have "(\<exists>t0\<in>set (ac_tenants ?s). tn_id t0 = tn_id t \<and> tn_plan t0 = tn_plan t)
    \<or> (\<exists>nt body sig. PWebhook nt body sig \<in> set reqs \<and> pays cf body sig (tn_id t) (tn_plan t))"
    using Cons.prems by (intro Cons.IH) simp_all
  then show ?case
  proof (elim disjE bexE conjE)
    fix t0 assume t0: "t0 \<in> set (ac_tenants ?s)" "tn_id t0 = tn_id t" "tn_plan t0 = tn_plan t"
    have "(\<exists>t1\<in>set (ac_tenants s). tn_id t1 = tn_id t0 \<and> tn_plan t1 = tn_plan t0)
      \<or> (\<exists>nt body sig. r = PWebhook nt body sig \<and> pays cf body sig (tn_id t0) (tn_plan t0))"
    proof (cases "plan_from (ac_tenants s) None (ac_tenants ?s)")
      case True
      from bspec [OF this [unfolded plan_from_def] t0(1)] t0(3) Cons.prems(2) show ?thesis by auto
    next
      case False
      with step obtain nt body sig tid n where w: "r = PWebhook nt body sig" "pays cf body sig tid n"
        "plan_from (ac_tenants s) (Some (tid, n)) (ac_tenants ?s)" by (elim disjE exE conjE) (simp, rule that)
      from bspec [OF w(3) [unfolded plan_from_def] t0(1)] t0(3) Cons.prems(2) w(1,2) show ?thesis by auto
    qed
    with t0 show ?thesis by auto
  qed auto
qed auto

section \<open>Invoices\<close>

definition invoice_done :: "string \<Rightarrow> string \<Rightarrow> accounts \<Rightarrow> bool" where
  "invoice_done i tid s \<longleftrightarrow> (\<exists>r\<in>set (ac_invoices s). in_invoice r = i \<and> in_tenant r = tid)"

lemma subscription_invoices [simp]:
  "ac_invoices (ad_update_tenant_subscription pg tid c su st plan fin s) = ac_invoices s" "ac_invoices (set_tenant_inactive tid s) = ac_invoices s"
  by (simp_all add: ad_update_tenant_subscription_def pg_update_tenant_subscription_def sq_update_tenant_subscription_def set_tenant_inactive_def)

lemma subscription_tenant_ids:
  "map tn_id (ac_tenants (ad_update_tenant_subscription pg tid c su st plan fin s)) = map tn_id (ac_tenants s)"
  "map tn_id (ac_tenants (set_tenant_inactive tid s)) = map tn_id (ac_tenants s)"
  by (simp_all add: ad_update_tenant_subscription_def pg_update_tenant_subscription_def sq_update_tenant_subscription_def set_tenant_inactive_def
      Accounts.upd_def)

text \<open>Writes of the webhook and the checkout only add invoices and keep the tenants' ids.\<close>

definition only_adds :: "accounts \<Rightarrow> accounts \<Rightarrow> bool" where
  "only_adds s s' \<longleftrightarrow> set (ac_invoices s) \<subseteq> set (ac_invoices s') \<and> map tn_id (ac_tenants s') = map tn_id (ac_tenants s)"

lemma only_adds_refl [simp]: "only_adds s s"
  by (simp add: only_adds_def)

lemma only_adds_trans: "only_adds s t \<Longrightarrow> only_adds t u \<Longrightarrow> only_adds s u"
  by (auto simp: only_adds_def)

lemma only_adds_writes [simp]:
  "only_adds s (ad_update_tenant_subscription pg tid c su st plan fin s)" "only_adds s (set_tenant_inactive tid s)"
  "only_adds s (ad_mark_invoice_processed pg i ty tid s)"
  by (auto simp: only_adds_def subscription_tenant_ids ad_mark_invoice_processed_def insert_invoice_def)

lemma only_adds_write: "only_adds s (f s) \<Longrightarrow> only_adds s (fst (wh_write oc f s))"
  using wh_write_cases [of oc f s] by auto

lemma only_adds_mark [simp]: "only_adds s (fst (mark_invoice cf oc i ev tid s))"
  by (auto simp: mark_invoice_def intro: only_adds_write split: option.splits)

lemma only_adds_update: "only_adds s (f s) \<Longrightarrow> only_adds s (fst (update_and_mark cf nt f i ev tid s))"
  using only_adds_write [of s f "wn_update nt"] only_adds_trans [OF _ only_adds_mark, of s "fst (wh_write (wn_update nt) f s)"]
  by (cases "wh_write (wn_update nt) f s"; cases "snd (wh_write (wn_update nt) f s)") (simp_all add: update_and_mark_def)

lemma only_adds_apply: "only_adds s (fst (webhook_apply cf nt p ev plan i tid s))"
  by (simp add: webhook_apply_def activate_plan_def Let_def only_adds_update)

lemma only_adds_webhook: "only_adds s (fst (cloudpayments_webhook cf nt body sig s))"
proof -
  have "only_adds s (fst (webhook_event cf nt p s))" for p
  proof (cases "account_of (dict_get p ''AccountId'')"; cases "data_plan cf (dict_get p ''Data'')")
    fix tid plan assume "account_of (dict_get p ''AccountId'') = Some tid" "data_plan cf (dict_get p ''Data'') = Some plan"
    from webhook_event_cases [OF this, of nt s] only_adds_apply show ?thesis by auto
  qed (simp_all add: webhook_event_def)
  then show ?thesis by (simp add: cloudpayments_webhook_def split: sum.split bool.split option.split pyval.split)
qed

lemma only_adds_run: "only_adds s (fold (pay_step cf) reqs s)"
proof (induction reqs arbitrary: s)
  case (Cons r reqs)
  have "only_adds s (pay_step cf r s)"
  proof (cases r)
    case (PCheckout oc order tid plan)
    then show ?thesis using only_adds_write [of s "ad_update_tenant_subscription (cp_pg cf) tid [] [] ''active'' ''free'' None" oc]
      by (auto simp: create_checkout_session_def split: prod.splits sum.splits option.splits)
  qed (simp add: only_adds_webhook)
  with Cons.IH [of "pay_step cf r s"] show ?case by (auto intro: only_adds_trans)
qed simp

lemma mark_done:
  assumes "mark_invoice cf oc i ev tid s = (s', Inr u)" and "cp_pg cf" and "i \<notin> in_invoice ` set (ac_invoices s)"
  shows "invoice_done i tid s'"
  using assms by (auto simp: mark_invoice_def ad_mark_invoice_processed_def insert_invoice_def invoice_done_def split: option.splits dest!: wh_write_ok)

lemma apply_done:
  assumes "webhook_apply cf nt p ev plan i tid s = (s', Inr u)" and "cp_pg cf" and "i \<notin> in_invoice ` set (ac_invoices s)" and "s' \<noteq> s"
  shows "invoice_done i tid s'"
proof -
  have um: "invoice_done i tid s'" if "update_and_mark cf nt f i ev tid s = (s', Inr u)" "ac_invoices (f s) = ac_invoices s" for f
  proof -
    from that(1) obtain s1 v where s1: "wh_write (wn_update nt) f s = (s1, Inr v)" "mark_invoice cf (wn_mark nt) i ev tid s1 = (s', Inr u)"
      by (auto simp: update_and_mark_def split: prod.splits sum.splits)
    from wh_write_ok [OF s1(1)] that(2) assms(3) show ?thesis by (intro mark_done [OF s1(2) assms(2)]) simp
  qed
  show ?thesis using assms um mark_done [OF _ assms(2,3)]
    by (auto simp: webhook_apply_def activate_plan_def Let_def split: if_splits)
qed

lemma processed_any: "pg_is_invoice_processed i [] s = Inr (i \<in> in_invoice ` set (ac_invoices s))"
  by (auto simp: pg_is_invoice_processed_def)

text \<open>A successful notification that changed something has recorded its invoice.\<close>

lemma webhook_done:
  assumes "cloudpayments_webhook cf nt body sig s = (s', Inr ())" and "cp_pg cf" and "s' \<noteq> s"
  shows "\<exists>p i tid plan. verify_webhook cf body sig = Inr True \<and> cp_enabled cf \<and> strip (cp_secret cf) \<noteq> [] \<and> cp_json cf body = Some (PDict p)
    \<and> account_of (dict_get p ''AccountId'') = Some tid \<and> data_plan cf (dict_get p ''Data'') = Some plan \<and> dict_get p ''InvoiceId'' = PStr i \<and> i \<noteq> [] \<and> tid \<noteq> []
    \<and> tenant_row tid s \<noteq> None \<and> invoice_done i tid s'"
proof -
  let ?ev = "\<lambda>p. or_val (dict_get p ''OperationType'') (or_val (dict_get p ''Status'') (PStr []))"
  from assms(1,3) obtain p where p: "cp_json cf body = Some (PDict p)" "webhook_event cf nt p s = (s', Inr ())"
    "verify_webhook cf body sig = Inr True" "cp_enabled cf" "strip (cp_secret cf) \<noteq> []"
    by (cases "cp_json cf body"; cases "the (cp_json cf body)") (auto simp: cloudpayments_webhook_def split: if_splits sum.splits bool.splits)
  obtain tid plan where ap: "account_of (dict_get p ''AccountId'') = Some tid" "data_plan cf (dict_get p ''Data'') = Some plan"
    using p(2) by (cases "account_of (dict_get p ''AccountId'')"; cases "data_plan cf (dict_get p ''Data'')") (simp_all add: webhook_event_def)
  obtain i where i: "dict_get p ''InvoiceId'' = PStr i"
    using webhook_event_cases [OF ap, of nt s] p(2) assms(3) by auto
  have w: "i \<noteq> [] \<and> tid \<noteq> [] \<and> tenant_row tid s \<noteq> None \<and> i \<notin> in_invoice ` set (ac_invoices s)
    \<and> webhook_apply cf nt p (?ev p) plan i tid s = (s', Inr ())"
    using p(2) assms(2,3) unfolding webhook_event_def ap Let_def i
    by (auto simp: wh_read_def ad_is_invoice_processed_def processed_any split: if_splits option.splits prod.splits sum.splits bool.splits)
  from apply_done [of cf nt p "?ev p" plan i tid s s' "()"] w assms(2,3) have "invoice_done i tid s'" by simp
  with p(1,3-5) ap i w show ?thesis by blast
qed

lemma tenant_row_ids_iff: "tenant_row tid s \<noteq> None \<longleftrightarrow> tid \<in> set (map tn_id (ac_tenants s))"
  by (auto simp: tenant_row_def find_None_iff)

lemma invoice_done_grows: "only_adds s t \<Longrightarrow> invoice_done i tid s \<Longrightarrow> invoice_done i tid t"
  by (auto simp: only_adds_def invoice_done_def)

lemma webhook_again:
  assumes "verify_webhook cf body sig = Inr True" "cp_enabled cf" "strip (cp_secret cf) \<noteq> []" "cp_json cf body = Some (PDict p)"
    "account_of (dict_get p ''AccountId'') = Some tid" "data_plan cf (dict_get p ''Data'') = Some plan" "dict_get p ''InvoiceId'' = PStr i" "i \<noteq> []" "tid \<noteq> []"
    "tenant_row tid s \<noteq> None" "invoice_done i tid s" "cp_pg cf"
  shows "cloudpayments_webhook cf nt body sig s = (s, if wn_tenant nt = PgOk \<and> wn_check nt = PgOk then Inr () else Inl (Raised PGUnavailableError))"
proof -
  have "ad_is_invoice_processed (cp_pg cf) i tid s = Inr True"
    using assms(11,12) by (auto simp: ad_is_invoice_processed_def pg_is_invoice_processed_def invoice_done_def)
  with assms(1-10) show ?thesis by (auto simp: cloudpayments_webhook_def webhook_event_def wh_read_def Let_def)
qed

section \<open>Top-ups\<close>

lemma topup_rows:
  assumes "account_of (dict_get p ''tenant_id'') = Some target" and "key \<noteq> []"
  shows "rows (fst (fst (top_up_balance H nt (Some key) p s))) = rows (fst s) \<or>
    (\<exists>e. rows (fst (fst (top_up_balance H nt (Some key) p s))) = rows (fst s) @ [e] \<and> \<not> has_id (idem_ledger_id H target key) (rows (fst s))
      \<and> ledger_id e = idem_ledger_id H target key \<and> le_tenant e = target \<and> entry_type e = ''CREDIT'' \<and> 0 < amount e)"
proof -
  have "rows (fst (credit H o1 o2 fresh target (Some (Fin a)) (Some ''USD'') (Some key) m (fst s))) = rows (fst s) \<or>
    (\<exists>e. rows (fst (credit H o1 o2 fresh target (Some (Fin a)) (Some ''USD'') (Some key) m (fst s))) = rows (fst s) @ [e] \<and> \<not> has_id (idem_ledger_id H target key) (rows (fst s))
      \<and> ledger_id e = idem_ledger_id H target key \<and> le_tenant e = target \<and> entry_type e = ''CREDIT'' \<and> amount e = a)" for o1 o2 fresh a m
    using assms(2) by (simp add: credit_rows Let_def)
  note c = this
  show ?thesis
  proof (cases "py_float (case map_of p ''amount'' of None \<Rightarrow> PInt 0 | Some v \<Rightarrow> v)")
    case (Some f)
    show ?thesis
    proof (cases f)
      case (Fin a)
      with Some c [of "tu_credit nt" "tu_lookup nt" "tu_fresh nt" a "[(''note'', PStr ''Admin top-up by admin'')]"] assms(1) show ?thesis
        by (auto simp: top_up_balance_def split: prod.splits sum.splits)
    qed (use Some assms(1) in \<open>simp_all add: top_up_balance_def\<close>)
  qed (use assms(1) in \<open>simp add: top_up_balance_def\<close>)
qed

lemma has_id_append: "has_id i (rs @ [e]) \<longleftrightarrow> has_id i rs \<or> ledger_id e = i"
  by (auto simp: has_id_def)

lemma topup_fold_present:
  assumes "\<forall>x\<in>set xs. account_of (dict_get (snd x) ''tenant_id'') = Some target" and "key \<noteq> []" and "has_id (idem_ledger_id H target key) (rows (fst s))"
  shows "rows (fst (fold (\<lambda>(nt, p) s. fst (top_up_balance H nt (Some key) p s)) xs s)) = rows (fst s)"
  using assms
proof (induction xs arbitrary: s)
  case (Cons x xs)
  obtain nt p where x: "x = (nt, p)" by (cases x)
  have r: "rows (fst (fst (top_up_balance H nt (Some key) p s))) = rows (fst s)"
    using topup_rows [of p target key H nt s] Cons.prems x by auto
  with Cons.IH [of "fst (top_up_balance H nt (Some key) p s)"] Cons.prems x show ?case by simp
qed simp

lemma topup_fold:
  assumes "\<forall>x\<in>set xs. account_of (dict_get (snd x) ''tenant_id'') = Some target" and "key \<noteq> []"
  shows "rows (fst (fold (\<lambda>(nt, p) s. fst (top_up_balance H nt (Some key) p s)) xs s)) = rows (fst s) \<or>
    (\<exists>e. rows (fst (fold (\<lambda>(nt, p) s. fst (top_up_balance H nt (Some key) p s)) xs s)) = rows (fst s) @ [e] \<and> le_tenant e = target \<and> entry_type e = ''CREDIT'')"
  using assms
proof (induction xs arbitrary: s)
  case (Cons x xs)
  obtain nt p where x: "x = (nt, p)" by (cases x)
  let ?s = "fst (top_up_balance H nt (Some key) p s)"
  from topup_rows [of p target key H nt s] Cons.prems x
  consider "rows (fst ?s) = rows (fst s)"
    | e where "rows (fst ?s) = rows (fst s) @ [e]" "ledger_id e = idem_ledger_id H target key" "le_tenant e = target" "entry_type e = ''CREDIT''"
    by auto
  then show ?case
  proof cases
    case 1
    with Cons.IH [of ?s] Cons.prems x show ?thesis by simp
  next
    case 2
    then have "has_id (idem_ledger_id H target key) (rows (fst ?s))" by (simp add: has_id_append)
    from topup_fold_present [OF _ _ this, of xs] Cons.prems 2 x show ?thesis by simp
  qed
qed simp

section \<open>Deviations\<close>

text \<open>A notification of status Completed is read as a payment whatever its operation: the branch of recurring payments is never
  taken, and a completed cancellation of a plan activates the plan.\<close>

lemma completed_is_payment:
  assumes "dict_get p ''Status'' = PStr ''Completed''"
  shows "webhook_apply cf nt p ev plan i tid s =
    (if plan \<in> set [PStr ''pro'', PStr ''enterprise''] then activate_plan cf nt p plan i ev tid s
     else mark_invoice cf (wn_mark nt) i (or_val ev (PStr ''payment_no_plan'')) tid s)"
  using assms by (simp add: webhook_apply_def REFUSED_STATUSES_def Let_def)

definition demo_note :: "string \<Rightarrow> pydict" where
  "demo_note op = [(''OperationType'', PStr op), (''Status'', PStr ''Completed''), (''AccountId'', PStr ''t''), (''InvoiceId'', PStr ''i''),
     (''Data'', PDict [(''plan'', PStr ''pro'')]), (''Amount'', PInt 4900), (''Currency'', PStr ''rub'')]"

definition demo_cp :: cp_conf where
  "demo_cp = \<lparr>cp_pg = True, cp_enabled = True, cp_secret = ''k'', cp_hmac = (\<lambda>k b. k @ b),
     cp_json = (\<lambda>b. Some (PDict (demo_note b))), cp_col = (\<lambda>v. Some (str_of_val v))\<rparr>"

definition demo_wh :: wh_net where
  "demo_wh = \<lparr>wn_tenant = PgOk, wn_check = PgOk, wn_other = PgOk, wn_update = PgOk, wn_mark = PgOk\<rparr>"

definition demo_tenant :: accounts where
  "demo_tenant = no_accounts\<lparr>ac_tenants := [seed_row (\<lambda>k. k) ''key'' ''t'' ''t'']\<rparr>"

lemma completed_cancel_activates:
  "map (\<lambda>t. (tn_plan t, tn_status t)) (ac_tenants (fst (cloudpayments_webhook demo_cp demo_wh ''Cancel'' ''kCancel'' demo_tenant))) = [(''pro'', ''active'')]"
  by code_simp

lemma sqlite_webhook_raises:
  assumes "verify_webhook cf body sig = Inr True" "cp_enabled cf" "strip (cp_secret cf) \<noteq> []" "cp_json cf body = Some (PDict p)"
    "account_of (dict_get p ''AccountId'') = Some tid" "data_plan cf (dict_get p ''Data'') = Some plan" "dict_get p ''InvoiceId'' = PStr i" "i \<noteq> []" "tid \<noteq> []"
    "tenant_row tid s \<noteq> None" "\<not> cp_pg cf" "wn_tenant nt = PgOk" "wn_check nt = PgOk"
  shows "cloudpayments_webhook cf nt body sig s = (s, Inl (Raised AttributeError))"
  using assms by (auto simp: cloudpayments_webhook_def webhook_event_def wh_read_def ad_is_invoice_processed_def sq_is_invoice_processed_def Let_def)

definition demo_topup :: "string \<Rightarrow> int \<Rightarrow> ledger \<times> audit_event list \<Rightarrow> (ledger \<times> audit_event list) \<times> (refusal + string \<times> rat)" where
  "demo_topup key a = top_up_balance (\<lambda>x. x) \<lparr>tu_credit = PgOk, tu_lookup = PgOk, tu_audit = PgOk, tu_fresh = ''f'' @ nat_str (nat a), tu_event = ''e'' @ nat_str (nat a)\<rparr>
     (Some key) [(''tenant_id'', PStr ''t''), (''amount'', PInt a)]"

text \<open>Under a used key the answer names the new amount, and the old one is what was credited.\<close>

lemma topup_amount_ignored:
  "let s1 = fst (demo_topup ''k'' 5 (ledger_init, [])); r = demo_topup ''k'' 9 s1
   in map_sum (\<lambda>_. ()) snd (snd r) = Inr 9 \<and> balance_rows (rows (fst (fst r))) ''t'' = 5"
  by code_simp

text \<open>The second top-up of a tenant is not audited: the audit table keeps one fact per tenant, type and entity.\<close>

lemma second_topup_unaudited:
  assumes "t \<noteq> ''unknown''" and "\<exists>e\<in>set rs. same_fact ''admin'' ''billing.topup'' t e" and "account_of (dict_get p ''tenant_id'') = Some t"
  shows "snd (fst (top_up_balance H nt key p (l, rs))) = rs"
proof -
  have "fst (write_event oc eid ''admin'' ''billing.topup'' ''tenant'' t dat rs) = rs" for oc eid dat
    using assms(1,2) by (cases oc) (simp_all add: write_event_def insert_audit_event_def keyed_def)
  then show ?thesis using assms(3) by (simp add: top_up_balance_def split: option.split pyfloat.split prod.split sum.split)
qed

text \<open>A plan whose cap is 0 may not spend, and the page says that it has no cap.\<close>

lemma zero_cap_page_differs:
  assumes "plan_limits_or_refusal f plan = Inr (Some c)" and "pf_spend_cap c = 0"
  shows "check_spend_cap f persistent oc l t cost plan = Inr CapZero"
    and "check_spend_cap_endpoint f oc t plan cost l = Inr \<lparr>cg_cap = 0, cg_balance = 0, cg_allowed = True, cg_remaining = None, cg_pct = 0\<rparr>"
  using assms by (simp_all add: check_spend_cap_def check_spend_cap_endpoint_def plan_or_refusal_def)

section \<open>Properties\<close>

text \<open>C9: Nobody gets a paid plan without paying for it: when all tenants start on the free plan, then after any sequence of
  notifications and checkouts, whatever fails in between, a tenant on another plan has been paid for by a notification among them
  that carried the right signature, named this tenant and this plan, was not refused, and whose amount and currency are exactly the price.\<close>

theorem paid_plan_was_paid:
  assumes "\<forall>t0\<in>set (ac_tenants s). tn_plan t0 = ''free''" and "t \<in> set (ac_tenants (fold (pay_step cf) reqs s))" and "tn_plan t \<noteq> ''free''"
  shows "\<exists>nt body sig. PWebhook nt body sig \<in> set reqs \<and> pays cf body sig (tn_id t) (tn_plan t)"
  using paid_run [OF assms(2,3)] assms(1,3) by auto

theorem paid_plan_was_paid_witness:
  "\<exists>t. ac_tenants (fold (pay_step demo_cp) [PWebhook demo_wh ''Payment'' ''kPayment''] demo_tenant) = [t] \<and> tn_plan t = ''pro''
     \<and> pays demo_cp ''Payment'' ''kPayment'' (tn_id t) (tn_plan t)"
proof -
  let ?r = "[PWebhook demo_wh ''Payment'' ''kPayment'']"
  have one: "map tn_plan (ac_tenants (fold (pay_step demo_cp) ?r demo_tenant)) = [''pro'']" by code_simp
  then obtain t where t: "ac_tenants (fold (pay_step demo_cp) ?r demo_tenant) = [t]" "tn_plan t = ''pro''" by auto
  have "\<forall>t0\<in>set (ac_tenants demo_tenant). tn_plan t0 = ''free''" by (simp add: demo_tenant_def seed_row_def)
  from paid_plan_was_paid [OF this, of t demo_cp ?r] t show ?thesis by auto
qed

text \<open>C10: A processed invoice stays processed: once a notification was answered with success and changed anything, then after any
  further notifications and checkouts the same notification changes nothing, and is answered with success again when the
  database can be read.\<close>

theorem invoice_processed_once:
  assumes "cp_pg cf" and "cloudpayments_webhook cf nt body sig s = (s1, Inr ())" and "s1 \<noteq> s" and "s2 = fold (pay_step cf) reqs s1"
  shows "cloudpayments_webhook cf nt' body sig s2 = (s2, if wn_tenant nt' = PgOk \<and> wn_check nt' = PgOk then Inr () else Inl (Raised PGUnavailableError))"
proof -
  from webhook_done [OF assms(2,1,3)] obtain p i tid plan where w: "verify_webhook cf body sig = Inr True" "cp_enabled cf" "strip (cp_secret cf) \<noteq> []"
    "cp_json cf body = Some (PDict p)" "account_of (dict_get p ''AccountId'') = Some tid" "data_plan cf (dict_get p ''Data'') = Some plan"
    "dict_get p ''InvoiceId'' = PStr i" "i \<noteq> []" "tid \<noteq> []" "tenant_row tid s \<noteq> None" "invoice_done i tid s1" by (elim exE conjE) (rule that)
  have a: "only_adds s s1" using only_adds_webhook [of s cf nt body sig] assms(2) by simp
  have b: "only_adds s1 s2" using only_adds_run assms(4) by simp
  have "tenant_row tid s2 \<noteq> None" using w(10) only_adds_trans [OF a b] unfolding tenant_row_ids_iff only_adds_def by simp
  with webhook_again [OF w(1-9) _ invoice_done_grows [OF b w(11)] assms(1)] show ?thesis by simp
qed

theorem invoice_processed_once_witness:
  "let s1 = fst (cloudpayments_webhook demo_cp demo_wh ''Payment'' ''kPayment'' demo_tenant)
   in cloudpayments_webhook demo_cp demo_wh ''Payment'' ''kPayment'' s1 = (s1, Inr ())"
proof -
  let ?r = "cloudpayments_webhook demo_cp demo_wh ''Payment'' ''kPayment'' demo_tenant"
  have r: "?r = (fst ?r, Inr ())" by (rule prod_eqI) (simp, code_simp)
  have "length (ac_invoices (fst ?r)) \<noteq> length (ac_invoices demo_tenant)" by code_simp
  then have "fst ?r \<noteq> demo_tenant" by auto
  from invoice_processed_once [OF _ r this, of _ "[]" demo_wh] show ?thesis by (simp add: demo_cp_def demo_wh_def)
qed

text \<open>A top-up is credited once per key: any number of top-ups of one tenant under one key, with any amounts and any failures,
  add at most one row to the ledger, a CREDIT of that tenant.\<close>

theorem topup_credits_once:
  assumes "\<forall>x\<in>set xs. account_of (dict_get (snd x) ''tenant_id'') = Some target" and "key \<noteq> []"
  shows "rows (fst (fold (\<lambda>(nt, p) s. fst (top_up_balance H nt (Some key) p s)) xs s)) = rows (fst s) \<or>
    (\<exists>e. rows (fst (fold (\<lambda>(nt, p) s. fst (top_up_balance H nt (Some key) p s)) xs s)) = rows (fst s) @ [e] \<and> le_tenant e = target \<and> entry_type e = ''CREDIT'')"
  using assms by (rule topup_fold)

theorem topup_credits_once_witness:
  "length (rows (fst (fold (\<lambda>(nt, p) s. fst (top_up_balance (\<lambda>x. x) nt (Some ''k'') p s))
     (replicate 3 (\<lparr>tu_credit = PgLost, tu_lookup = PgOk, tu_audit = PgOk, tu_fresh = ''f'', tu_event = ''e''\<rparr>, [(''tenant_id'', PStr ''t''), (''amount'', PInt 5)]))
     (ledger_init, [])))) \<le> 1"
  using topup_credits_once [of "replicate 3 (\<lparr>tu_credit = PgLost, tu_lookup = PgOk, tu_audit = PgOk, tu_fresh = ''f'', tu_event = ''e''\<rparr>, [(''tenant_id'', PStr ''t''), (''amount'', PInt 5)])"
      "''t''" "''k''" "\<lambda>x. x" "(ledger_init, [])"]
  by (auto simp: account_of_def or_val_def dict_get_def strip_def is_ws_def ledger_init_def)

text \<open>The page that shows whether a job fits the spend cap says what the check of the submit route decides, for every plan whose
  cap is not 0, on the same reading of the balance.\<close>

theorem spend_cap_page_agrees:
  assumes "plan_limits_or_refusal f plan = Inr (Some c)" and "pf_spend_cap c \<noteq> 0" and "check_spend_cap_endpoint f oc t plan cost l = Inr pg"
  shows "check_spend_cap f True oc l t cost plan = Inr CapOk \<longleftrightarrow> cg_allowed pg"
proof (cases "get_tenant_balance oc t l")
  case (Inr b)
  with assms show ?thesis
    by (auto simp: check_spend_cap_endpoint_def check_spend_cap_def plan_or_refusal_def balance_or_503_def Let_def split: if_splits)
qed (use assms in \<open>auto simp: check_spend_cap_endpoint_def check_spend_cap_def plan_or_refusal_def balance_or_503_def Let_def split: if_splits\<close>)

end
