(* ===== verification/Crypto.thy ===== *)
theory Crypto
  imports Quota
begin

text \<open>
  Crypto payments: invoices and notifications (\<open>src/crypto_payments/models.py\<close>, \<open>service.py\<close>, \<open>provider.py\<close>, \<open>webhooks.py\<close>,
  \<open>router.py\<close>) and the wallets that give out deposit addresses (\<open>src/crypto_payments/wallets\<close>).

  The answers of the payment provider and of the Monero wallet, HMAC, JSON, the parsing of uuids and \<open>str\<close> are arguments. The
  wallet service is its four dictionaries.

  Shown: an invoice costs its tier and lasts an hour; the notifications that count as paid are the signed ones of a final
  status; no wallet with spending keys, every deposit address belongs to a wallet of the matching kind, and a
  wallet keeps its tenant; and that the route fails on every genuine notification, that the stored provider id is
  always empty, that a wallet whose check failed stays, that rotation revives a compromised wallet, that all
  invoices of a currency share one provider address.
\<close>

section \<open>Invoices\<close>

datatype crypto_currency = USDT_TRC20 | USDT_ERC20 | USDC | BTC | TON | SOL

datatype crypto_network = NetTRC20 | NetERC20 | NetBTC | NetTON | NetSOL

definition NETWORK_FOR_CURRENCY :: "crypto_currency \<Rightarrow> crypto_network" where
  "NETWORK_FOR_CURRENCY c =
     (case c of USDT_TRC20 \<Rightarrow> NetTRC20 | USDT_ERC20 \<Rightarrow> NetERC20 | USDC \<Rightarrow> NetERC20 | BTC \<Rightarrow> NetBTC | TON \<Rightarrow> NetTON | SOL \<Rightarrow> NetSOL)"

definition currency_value :: "crypto_currency \<Rightarrow> string" where
  "currency_value c =
     (case c of USDT_TRC20 \<Rightarrow> ''USDT_TRC20'' | USDT_ERC20 \<Rightarrow> ''USDT_ERC20'' | USDC \<Rightarrow> ''USDC'' | BTC \<Rightarrow> ''BTC'' | TON \<Rightarrow> ''TON'' | SOL \<Rightarrow> ''SOL'')"

definition network_value :: "crypto_network \<Rightarrow> string" where
  "network_value n = (case n of NetTRC20 \<Rightarrow> ''TRC20'' | NetERC20 \<Rightarrow> ''ERC20'' | NetBTC \<Rightarrow> ''BTC'' | NetTON \<Rightarrow> ''TON'' | NetSOL \<Rightarrow> ''SOL'')"

datatype invoice_status = InvPending | InvConfirming | InvPaid | InvOverpaid | InvUnderpaid | InvExpired | InvFailed

definition invoice_status_table :: "(string \<times> invoice_status) list" where
  "invoice_status_table =
     [(''pending'', InvPending), (''confirming'', InvConfirming), (''paid'', InvPaid), (''overpaid'', InvOverpaid),
      (''underpaid'', InvUnderpaid), (''expired'', InvExpired), (''failed'', InvFailed)]"

datatype tier_name = TierStart | TierPro | TierEnterprise

definition TIER_PRICES_USD :: "tier_name \<Rightarrow> rat" where
  "TIER_PRICES_USD t = (case t of TierStart \<Rightarrow> 49 | TierPro \<Rightarrow> 149 | TierEnterprise \<Rightarrow> 499)"

definition PAYMENT_TTL_SECONDS :: int where "PAYMENT_TTL_SECONDS = 3600"

record crypto_invoice =
  ci_id :: string
  ci_tenant :: string
  ci_tier :: tier_name
  ci_currency :: crypto_currency
  ci_network :: crypto_network
  ci_amount :: "rat option"
  ci_usd :: rat
  ci_address :: "string option"
  ci_status :: invoice_status
  ci_provider_id :: "string option"
  ci_created :: int
  ci_expires :: int
  ci_paid :: "int option"

text \<open>Building an invoice validates the amount against the tier.\<close>

definition validate_invoice :: "crypto_invoice \<Rightarrow> crypto_invoice result" where
  "validate_invoice v = (if ci_usd v \<noteq> TIER_PRICES_USD (ci_tier v) then Inl ValueError else Inr v)"

text \<open>The provider answers with a dictionary or raises; NOWPayments' adapter renames the fields it got.\<close>

definition np_create_invoice ::
  "(pyval \<Rightarrow> string) \<Rightarrow> (pydict \<Rightarrow> pydict result) \<Rightarrow> string \<Rightarrow> rat \<Rightarrow> string \<Rightarrow> string \<Rightarrow> string \<Rightarrow> pydict result" where
  "np_create_invoice show post force_network usd cur net order =
     (case post ([(''price_amount'', PFloat (Fin usd)), (''price_currency'', PStr ''usd''), (''pay_currency'', PStr (lower cur)),
                 (''order_id'', PStr order), (''order_description'', PStr (''DecisionOS '' @ net @ '' invoice '' @ order))]
                @ (if force_network = [] then [] else [(''network'', PStr force_network)])) of
        Inl x \<Rightarrow> Inl x
      | Inr d \<Rightarrow>
          (case (map_of d ''id'', map_of d ''pay_address'', map_of d ''pay_amount'', map_of d ''pay_currency'') of
             (Some i, Some a, Some m, Some c) \<Rightarrow>
               (case py_float m of
                  None \<Rightarrow> Inl ValueError
                | Some f \<Rightarrow> Inr [(''provider_invoice_id'', PStr (show i)), (''pay_address'', a), (''amount_crypto'', PFloat f), (''currency'', c),
                                 (''network'', PStr net)])
           | _ \<Rightarrow> Inl KeyError))"

text \<open>A field of the answer: missing or falsy is the empty string; the reply refuses what is not a string.\<close>

definition text_field :: "pydict \<Rightarrow> string \<Rightarrow> string result" where
  "text_field d k = (case dict_get d k of PStr w \<Rightarrow> Inr w | v \<Rightarrow> if py_truth v then Inl ValueError else Inr [])"

definition create_invoice ::
  "(rat \<Rightarrow> string \<Rightarrow> string \<Rightarrow> string \<Rightarrow> pydict result) \<Rightarrow> int \<Rightarrow> string \<Rightarrow> string \<Rightarrow> tier_name \<Rightarrow> crypto_currency \<Rightarrow> crypto_invoice result" where
  "create_invoice provider now uid tid tier cur =
     (if strip tid = [] then Inl ValueError
      else case validate_invoice
                  \<lparr>ci_id = uid, ci_tenant = strip tid, ci_tier = tier, ci_currency = cur, ci_network = NETWORK_FOR_CURRENCY cur, ci_amount = None,
                   ci_usd = TIER_PRICES_USD tier, ci_address = None, ci_status = InvPending, ci_provider_id = None, ci_created = now,
                   ci_expires = now + PAYMENT_TTL_SECONDS, ci_paid = None\<rparr> of
             Inl x \<Rightarrow> Inl x
           | Inr v \<Rightarrow>
               (case provider (ci_usd v) (currency_value (ci_currency v)) (network_value (ci_network v)) (ci_id v) of
                  Inl x \<Rightarrow> Inl x
                | Inr d \<Rightarrow>
                    (case text_field d ''pay_address'' of
                       Inl x \<Rightarrow> Inl x
                     | Inr a \<Rightarrow> Inr (v\<lparr>ci_address := Some a, ci_provider_id := (case dict_get d ''invoice_id'' of PStr w \<Rightarrow> Some w | _ \<Rightarrow> Some [])\<rparr>))))"

text \<open>The answer to the caller: address, amount in the currency (0 when unknown), price.\<close>

definition invoice_reply :: "crypto_invoice \<Rightarrow> string \<times> rat \<times> rat" where
  "invoice_reply v = (case ci_address v of None \<Rightarrow> [] | Some a \<Rightarrow> a, case ci_amount v of None \<Rightarrow> 0 | Some a \<Rightarrow> a, ci_usd v)"

text \<open>\<open>_load_invoice\<close> makes up an invoice for any well-formed id.\<close>

definition load_invoice :: "(string \<Rightarrow> string option) \<Rightarrow> int \<Rightarrow> string \<Rightarrow> crypto_invoice result" where
  "load_invoice uuid now i =
     (case uuid i of
        None \<Rightarrow> Inl ValueError
      | Some u \<Rightarrow>
          validate_invoice \<lparr>ci_id = u, ci_tenant = ''demo'', ci_tier = TierStart, ci_currency = USDT_TRC20, ci_network = NetTRC20, ci_amount = None,
            ci_usd = TIER_PRICES_USD TierStart, ci_address = Some ''0x0'', ci_status = InvPending, ci_provider_id = Some ''np_demo'', ci_created = now,
            ci_expires = now + PAYMENT_TTL_SECONDS, ci_paid = None\<rparr>)"

definition get_invoice_status :: "(string \<Rightarrow> string option) \<Rightarrow> (string \<Rightarrow> pydict result) \<Rightarrow> int \<Rightarrow> string \<Rightarrow> (crypto_invoice \<times> invoice_status) result" where
  "get_invoice_status uuid provider now i =
     (case load_invoice uuid now i of
        Inl x \<Rightarrow> Inl x
      | Inr v \<Rightarrow>
          (case provider (case ci_provider_id v of None \<Rightarrow> [] | Some p \<Rightarrow> p) of
             Inl _ \<Rightarrow> Inr (v, ci_status v)
           | Inr d \<Rightarrow>
               (case map_of d ''payment_status'' of
                  None \<Rightarrow> Inr (v, ci_status v)
                | Some (PStr w) \<Rightarrow> (case map_of invoice_status_table w of None \<Rightarrow> Inl ValueError | Some st \<Rightarrow> Inr (v, st))
                | Some _ \<Rightarrow> Inl ValueError)))"

section \<open>Notifications\<close>

record crypto_payment =
  cy_invoice :: string
  cy_tenant :: string
  cy_hash :: string
  cy_paid :: rat
  cy_usd :: rat

text \<open>\<open>process_webhook\<close> builds the payment and drops it: nothing is stored. A missing or unreadable amount raises or counts as 0.\<close>

definition process_webhook ::
  "(pyval \<Rightarrow> string) \<Rightarrow> (string \<Rightarrow> rat option) \<Rightarrow> (string \<Rightarrow> string option) \<Rightarrow> int \<Rightarrow> string option \<Rightarrow> invoice_status option \<Rightarrow> pydict \<Rightarrow> crypto_payment option result" where
  "process_webhook show dec uuid now i st raw =
     (if st \<noteq> Some InvPaid then Inr None
      else case load_invoice uuid now (case i of None \<Rightarrow> ''None'' | Some u \<Rightarrow> u) of
             Inl x \<Rightarrow> Inl x
           | Inr v \<Rightarrow>
               (case dec (show (case map_of raw ''actually_paid'' of None \<Rightarrow> PStr ''0'' | Some a \<Rightarrow> a)) of
                  None \<Rightarrow> Inl (OtherException ''InvalidOperation'')
                | Some a \<Rightarrow> Inr (Some \<lparr>cy_invoice = ci_id v, cy_tenant = ci_tenant v,
                                       cy_hash = show (case map_of raw ''payin_hash'' of None \<Rightarrow> PStr [] | Some h \<Rightarrow> h), cy_paid = a, cy_usd = ci_usd v\<rparr>)))"

definition WEBHOOK_FINAL_STATUSES :: "string list" where
  "WEBHOOK_FINAL_STATUSES = [''finished'', ''confirmed'', ''complete'']"

record np_conf =
  np_secret :: string
  np_hmac :: "string \<Rightarrow> string \<Rightarrow> string"
  np_json :: "string \<Rightarrow> pyval option"
  np_show :: "pyval \<Rightarrow> string"
  np_decimal :: "string \<Rightarrow> rat option"
  np_uuid :: "string \<Rightarrow> string option"

definition np_verify :: "np_conf \<Rightarrow> string \<Rightarrow> string \<Rightarrow> bool result" where
  "np_verify cf body sig = (if \<not> is_ascii sig then Inl TypeError else Inr (np_hmac cf (np_secret cf) body = sig))"

definition crypto_handle :: "np_conf \<Rightarrow> int \<Rightarrow> string \<Rightarrow> string \<Rightarrow> (crypto_payment option \<times> pyval) result" where
  "crypto_handle cf now body sig =
     (case np_verify cf body sig of
        Inl x \<Rightarrow> Inl x
      | Inr False \<Rightarrow> Inl ValueError
      | Inr True \<Rightarrow>
          (case np_json cf body of
             None \<Rightarrow> Inl ValueError
           | Some (PDict d) \<Rightarrow>
               (let st = (case map_of d ''payment_status'' of None \<Rightarrow> PStr [] | Some v \<Rightarrow> v);
                    order = np_show cf (case map_of d ''order_id'' of None \<Rightarrow> PStr [] | Some v \<Rightarrow> v)
                in if st \<in> PStr ` set WEBHOOK_FINAL_STATUSES then
                     if order \<noteq> [] \<and> np_uuid cf order = None then Inl ValueError
                     else (case process_webhook (np_show cf) (np_decimal cf) (np_uuid cf) now (if order = [] then None else np_uuid cf order) (Some InvPaid) d of
                             Inl x \<Rightarrow> Inl x
                           | Inr p \<Rightarrow> Inr (p, st))
                   else Inr (None, st))
           | Some _ \<Rightarrow> Inl (OtherException ''AttributeError'')))"

text \<open>The route looks for a method \<open>process\<close> that the handler does not have.\<close>

definition nowpayments_webhook :: "np_conf \<Rightarrow> string \<Rightarrow> string \<Rightarrow> nat + pyexc" where
  "nowpayments_webhook cf body sig =
     (if sig = [] then Inl 401
      else case np_verify cf body sig of
             Inl x \<Rightarrow> Inr x
           | Inr False \<Rightarrow> Inl 401
           | Inr True \<Rightarrow> Inr (OtherException ''AttributeError''))"

section \<open>Wallets\<close>

datatype wallet_type = WProvider | WSelfHosted | WHardware | WMonero

datatype wallet_mode = ModeHot | ModeViewOnly | ModeCold

datatype wallet_status = WActive | WRotating | WRetired | WCompromised

record wallet =
  wa_id :: string
  wa_tenant :: string
  wa_type :: wallet_type
  wa_mode :: wallet_mode
  wa_provider :: "string option"
  wa_address :: "string option"
  wa_status :: wallet_status
  wa_rotated :: "int option"

record deposit =
  de_wallet :: string
  de_invoice :: "string option"
  de_currency :: string
  de_network :: string
  de_address :: string
  de_index :: "int option"
  de_monero :: bool

text \<open>An adapter for Monero is its counter per account, one for a provider is the name.\<close>

record wallets =
  ws_wallets :: "(string \<times> wallet) list"
  ws_deposits :: "(string \<times> deposit) list"
  ws_monero :: "(string \<times> (string \<times> nat) list) list"
  ws_provider :: "(string \<times> string) list"

definition ws_init :: wallets where
  "ws_init = \<lparr>ws_wallets = [], ws_deposits = [], ws_monero = [], ws_provider = []\<rparr>"

definition SUPPORTED_PROVIDERS :: "string list" where
  "SUPPORTED_PROVIDERS = [''nowpayments'', ''heleket'', ''cryptocloud'', ''btcpay'']"

record wallet_req =
  wq_tenant :: string
  wq_type :: wallet_type
  wq_mode :: wallet_mode
  wq_provider :: "string option"
  wq_address :: "string option"
  wq_monero :: bool

abbreviation RuntimeError :: pyexc where "RuntimeError \<equiv> OtherException ''RuntimeError''"

text \<open>\<open>healthy\<close> is the answer of the adapter's health check. The wallet is stored before the check.\<close>

definition create_wallet :: "bool \<Rightarrow> string \<Rightarrow> wallet_req \<Rightarrow> wallets \<Rightarrow> wallets \<times> wallet result" where
  "create_wallet healthy uid q s =
     (if wq_type q = WMonero \<and> \<not> wq_monero q then (s, Inl ValueError)
      else if wq_mode q = ModeHot then (s, Inl ValueError)
      else
        let w = \<lparr>wa_id = uid, wa_tenant = wq_tenant q, wa_type = wq_type q, wa_mode = wq_mode q, wa_provider = wq_provider q,
                 wa_address = wq_address q, wa_status = WActive, wa_rotated = None\<rparr>;
            s1 = s\<lparr>ws_wallets := AList.update uid w (ws_wallets s)\<rparr>
        in if wq_type q = WMonero then
             if \<not> healthy then (s1, Inl RuntimeError) else (s1\<lparr>ws_monero := AList.update uid [] (ws_monero s1)\<rparr>, Inr w)
           else if wq_type q = WProvider \<and> truthy (wq_provider q) then
             if the (wq_provider q) \<notin> set SUPPORTED_PROVIDERS then (s1, Inl ValueError)
             else if \<not> healthy then (s1, Inl RuntimeError)
             else (s1\<lparr>ws_provider := AList.update uid (the (wq_provider q)) (ws_provider s1)\<rparr>, Inr w)
           else (s1, Inr w))"

text \<open>\<open>rpc\<close> is the wallet's answer to \<open>create_address\<close>: the exception, or address and index when it gave them.\<close>

definition generate_subaddress ::
  "(string option \<times> int option) result \<Rightarrow> string \<Rightarrow> string \<Rightarrow> wallets \<Rightarrow> wallets \<times> (string \<times> int) result" where
  "generate_subaddress rpc wid account s =
     (case map_of (ws_monero s) wid of
        None \<Rightarrow> (s, Inl RuntimeError)
      | Some cs \<Rightarrow>
          (let n = (case map_of cs account of None \<Rightarrow> 0 | Some n \<Rightarrow> n)
           in case rpc of
                Inl x \<Rightarrow> (s, Inl x)
              | Inr (a, i) \<Rightarrow>
                  (s\<lparr>ws_monero := AList.update wid (AList.update account (n + 1) cs) (ws_monero s)\<rparr>,
                   Inr (case a of None \<Rightarrow> [] | Some w \<Rightarrow> w, case i of None \<Rightarrow> int n | Some j \<Rightarrow> j))))"

definition add_deposit :: "string \<Rightarrow> deposit \<Rightarrow> wallets \<Rightarrow> wallets \<times> deposit result" where
  "add_deposit uid d s = (s\<lparr>ws_deposits := AList.update uid d (ws_deposits s)\<rparr>, Inr d)"

definition monero_deposit ::
  "(string option \<times> int option) result \<Rightarrow> string \<Rightarrow> string \<Rightarrow> string \<Rightarrow> string option \<Rightarrow> wallets \<Rightarrow> wallets \<times> deposit result" where
  "monero_deposit rpc uid wid account invo s =
     (case generate_subaddress rpc wid account s of
        (s', Inl x) \<Rightarrow> (s', Inl x)
      | (s', Inr (a, i)) \<Rightarrow>
          add_deposit uid \<lparr>de_wallet = wid, de_invoice = invo, de_currency = ''XMR'', de_network = ''MONERO'', de_address = a,
                           de_index = Some i, de_monero = True\<rparr> s')"

definition provider_address :: "string \<Rightarrow> string \<Rightarrow> string \<Rightarrow> string" where
  "provider_address p cur net = p @ ''_'' @ cur @ ''_'' @ net @ ''_addr''"

definition generate_address ::
  "(string option \<times> int option) result \<Rightarrow> string \<Rightarrow> string \<Rightarrow> string option \<Rightarrow> string \<Rightarrow> string \<Rightarrow> wallets \<Rightarrow> wallets \<times> deposit result" where
  "generate_address rpc uid wid invo cur net s =
     (case map_of (ws_wallets s) wid of
        None \<Rightarrow> (s, Inl ValueError)
      | Some w \<Rightarrow>
          (case wa_type w of
             WMonero \<Rightarrow> monero_deposit rpc uid wid ''0'' invo s
           | WProvider \<Rightarrow>
               (case map_of (ws_provider s) wid of
                  None \<Rightarrow> (s, Inl RuntimeError)
                | Some p \<Rightarrow> add_deposit uid \<lparr>de_wallet = wid, de_invoice = invo, de_currency = cur, de_network = net,
                               de_address = provider_address p cur net, de_index = None, de_monero = False\<rparr> s)
           | _ \<Rightarrow> add_deposit uid \<lparr>de_wallet = wid, de_invoice = invo, de_currency = cur, de_network = net,
                     de_address = (if truthy (wa_address w) then the (wa_address w) else ''static_'' @ wid), de_index = None, de_monero = False\<rparr> s))"

definition generate_monero_subaddress ::
  "(string option \<times> int option) result \<Rightarrow> string \<Rightarrow> string \<Rightarrow> string \<Rightarrow> string option \<Rightarrow> wallets \<Rightarrow> wallets \<times> deposit result" where
  "generate_monero_subaddress rpc uid wid account invo s =
     (case map_of (ws_wallets s) wid of
        None \<Rightarrow> (s, Inl ValueError)
      | Some w \<Rightarrow> if wa_type w \<noteq> WMonero then (s, Inl ValueError) else monero_deposit rpc uid wid account invo s)"

definition rotate_wallet :: "int \<Rightarrow> string \<Rightarrow> string option \<Rightarrow> wallets \<Rightarrow> wallets \<times> wallet_status result" where
  "rotate_wallet now wid addr s =
     (case map_of (ws_wallets s) wid of
        None \<Rightarrow> (s, Inl ValueError)
      | Some w \<Rightarrow>
          (s\<lparr>ws_wallets := AList.update wid (w\<lparr>wa_address := (if truthy addr then addr else wa_address w), wa_status := WActive,
                               wa_rotated := Some now\<rparr>) (ws_wallets s)\<rparr>, Inr (wa_status w)))"

section \<open>Facts\<close>

definition kind_ok :: "wallet \<Rightarrow> deposit \<Rightarrow> bool" where
  "kind_ok w d \<longleftrightarrow> (de_monero d \<longleftrightarrow> wa_type w = WMonero) \<and> (de_monero d \<longleftrightarrow> de_index d \<noteq> None) \<and> (de_monero d \<longrightarrow> de_currency d = ''XMR'')"

definition wallets_ok :: "wallets \<Rightarrow> bool" where
  "wallets_ok s \<longleftrightarrow> (\<forall>k w. map_of (ws_wallets s) k = Some w \<longrightarrow> wa_id w = k \<and> wa_mode w \<noteq> ModeHot)
     \<and> (\<forall>k d. map_of (ws_deposits s) k = Some d \<longrightarrow> (\<exists>w. map_of (ws_wallets s) (de_wallet d) = Some w \<and> kind_ok w d))
     \<and> (\<forall>k cs. map_of (ws_monero s) k = Some cs \<longrightarrow> (\<exists>w. map_of (ws_wallets s) k = Some w \<and> wa_type w = WMonero))
     \<and> (\<forall>k p. map_of (ws_provider s) k = Some p \<longrightarrow> (\<exists>w. map_of (ws_wallets s) k = Some w \<and> wa_type w = WProvider))"

text \<open>Fresh ids are uuids: a new wallet never takes the id of an old one.\<close>

inductive ws_step :: "wallets \<Rightarrow> wallets \<Rightarrow> bool" where
  wst_create: "uid \<notin> fst ` set (ws_wallets s) \<Longrightarrow> ws_step s (fst (create_wallet healthy uid q s))"
| wst_address: "ws_step s (fst (generate_address rpc uid wid invo cur net s))"
| wst_subaddress: "ws_step s (fst (generate_monero_subaddress rpc uid wid account invo s))"
| wst_rotate: "ws_step s (fst (rotate_wallet now wid addr s))"

interpretation wsv: transition_system "\<lambda>s. s = ws_init" ws_step .

lemma wallets_okD:
  assumes "wallets_ok s"
  shows "map_of (ws_wallets s) k = Some w \<Longrightarrow> wa_id w = k \<and> wa_mode w \<noteq> ModeHot"
    and "map_of (ws_deposits s) i = Some d \<Longrightarrow> \<exists>w. map_of (ws_wallets s) (de_wallet d) = Some w \<and> kind_ok w d"
    and "map_of (ws_monero s) k = Some cs \<Longrightarrow> \<exists>w. map_of (ws_wallets s) k = Some w \<and> wa_type w = WMonero"
    and "map_of (ws_provider s) k = Some p \<Longrightarrow> \<exists>w. map_of (ws_wallets s) k = Some w \<and> wa_type w = WProvider"
  using assms unfolding wallets_ok_def by blast+

text \<open>Only the kinds of the wallets matter to the other tables.\<close>

lemma wallets_ok_put:
  assumes "wallets_ok s" and "wa_id w' = k" "wa_mode w' \<noteq> ModeHot" and "\<And>w. map_of (ws_wallets s) k = Some w \<Longrightarrow> wa_type w' = wa_type w"
  shows "wallets_ok (s\<lparr>ws_wallets := AList.update k w' (ws_wallets s)\<rparr>)"
proof -
  have same: "\<exists>w. map_of (AList.update k w' (ws_wallets s)) j = Some w \<and> wa_type w = wa_type v" if "map_of (ws_wallets s) j = Some v" for j v
    using that assms(4) by (cases "j = k") (simp_all add: update_conv')
  have kind: "kind_ok w d \<longleftrightarrow> kind_ok v d" if "wa_type w = wa_type v" for w v d using that by (simp add: kind_ok_def)
  show ?thesis unfolding wallets_ok_def
  proof (intro conjI allI impI)
    fix i d assume "map_of (ws_deposits (s\<lparr>ws_wallets := AList.update k w' (ws_wallets s)\<rparr>)) i = Some d"
    then obtain v where v: "map_of (ws_wallets s) (de_wallet d) = Some v" "kind_ok v d" using wallets_okD(2) [OF assms(1), of i d] by auto
    from same [OF v(1)] obtain w where w: "map_of (AList.update k w' (ws_wallets s)) (de_wallet d) = Some w" "wa_type w = wa_type v" by (elim exE conjE) (rule that)
    from v(2) w(1) kind [OF w(2)] show "\<exists>w. map_of (ws_wallets (s\<lparr>ws_wallets := AList.update k w' (ws_wallets s)\<rparr>)) (de_wallet d) = Some w \<and> kind_ok w d"
      by simp
  next
    fix j cs assume "map_of (ws_monero (s\<lparr>ws_wallets := AList.update k w' (ws_wallets s)\<rparr>)) j = Some cs"
    then show "\<exists>w. map_of (ws_wallets (s\<lparr>ws_wallets := AList.update k w' (ws_wallets s)\<rparr>)) j = Some w \<and> wa_type w = WMonero"
      using wallets_okD(3) [OF assms(1), of j cs] same [of j] by auto
  next
    fix j p assume "map_of (ws_provider (s\<lparr>ws_wallets := AList.update k w' (ws_wallets s)\<rparr>)) j = Some p"
    then show "\<exists>w. map_of (ws_wallets (s\<lparr>ws_wallets := AList.update k w' (ws_wallets s)\<rparr>)) j = Some w \<and> wa_type w = WProvider"
      using wallets_okD(4) [OF assms(1), of j p] same [of j] by auto
  next
    fix j w assume "map_of (ws_wallets (s\<lparr>ws_wallets := AList.update k w' (ws_wallets s)\<rparr>)) j = Some w"
    then have "j = k \<and> w = w' \<or> map_of (ws_wallets s) j = Some w" by (simp add: update_conv' split: if_splits)
    then show "wa_id w = j" "wa_mode w \<noteq> ModeHot" using wallets_okD(1) [OF assms(1), of j w] assms(2,3) by auto
  qed
qed

lemma wallets_ok_deposit:
  assumes "wallets_ok s" and "map_of (ws_wallets s) (de_wallet d) = Some w" and "kind_ok w d"
  shows "wallets_ok (fst (add_deposit uid d s))"
  using assms by (simp add: wallets_ok_def add_deposit_def update_conv')

lemma wallets_ok_monero:
  assumes "wallets_ok s" and "map_of (ws_wallets s) k = Some w" and "wa_type w = WMonero"
  shows "wallets_ok (s\<lparr>ws_monero := AList.update k cs (ws_monero s)\<rparr>)"
  using assms by (simp add: wallets_ok_def update_conv')

lemma wallets_ok_provider:
  assumes "wallets_ok s" and "map_of (ws_wallets s) k = Some w" and "wa_type w = WProvider"
  shows "wallets_ok (s\<lparr>ws_provider := AList.update k p (ws_provider s)\<rparr>)"
  using assms by (simp add: wallets_ok_def update_conv')

lemma create_wallet_ok:
  assumes "wallets_ok s" and "uid \<notin> fst ` set (ws_wallets s)"
  shows "wallets_ok (fst (create_wallet healthy uid q s))"
proof (cases "wq_type q = WMonero \<and> \<not> wq_monero q \<or> wq_mode q = ModeHot")
  case False
  define w where "w = \<lparr>wa_id = uid, wa_tenant = wq_tenant q, wa_type = wq_type q, wa_mode = wq_mode q, wa_provider = wq_provider q,
    wa_address = wq_address q, wa_status = WActive, wa_rotated = None\<rparr>"
  define s1 where "s1 = s\<lparr>ws_wallets := AList.update uid w (ws_wallets s)\<rparr>"
  have ok: "wallets_ok s1" unfolding s1_def by (rule wallets_ok_put [OF assms(1)]) (use False assms(2) in \<open>simp_all add: w_def map_of_eq_None_iff [symmetric]\<close>)
  have m: "map_of (ws_wallets s1) uid = Some w" by (simp add: s1_def update_conv')
  have "fst (create_wallet healthy uid q s) = s1 \<or> wq_type q = WMonero \<and> fst (create_wallet healthy uid q s) = s1\<lparr>ws_monero := AList.update uid [] (ws_monero s1)\<rparr>
        \<or> wq_type q = WProvider \<and> fst (create_wallet healthy uid q s) = s1\<lparr>ws_provider := AList.update uid (the (wq_provider q)) (ws_provider s1)\<rparr>"
    using False by (simp add: create_wallet_def w_def [symmetric] s1_def [symmetric] Let_def)
  with ok wallets_ok_monero [OF ok m] wallets_ok_provider [OF ok m] show ?thesis by (auto simp: w_def)
qed (use assms(1) in \<open>auto simp: create_wallet_def\<close>)

lemma monero_deposit_ok:
  assumes "wallets_ok s" and "map_of (ws_wallets s) wid = Some w" and "wa_type w = WMonero"
  shows "wallets_ok (fst (monero_deposit rpc uid wid account invo s))"
proof (cases "generate_subaddress rpc wid account s")
  case (Pair s' r)
  have s': "wallets_ok s' \<and> ws_wallets s' = ws_wallets s"
    using Pair assms wallets_ok_monero [OF assms]
    by (auto simp: generate_subaddress_def Let_def split: option.splits sum.splits prod.splits)
  show ?thesis
  proof (cases r)
    case (Inr x)
    obtain a i where x: "x = (a, i)" by (cases x)
    show ?thesis unfolding monero_deposit_def Pair Inr x
      by (simp, rule wallets_ok_deposit [where w = w]) (use s' assms(2,3) in \<open>simp_all add: kind_ok_def\<close>)
  qed (use s' in \<open>simp add: monero_deposit_def Pair\<close>)
qed

lemma generate_address_ok: "wallets_ok s \<Longrightarrow> wallets_ok (fst (generate_address rpc uid wid invo cur net s))"
  by (cases "map_of (ws_wallets s) wid"; cases "wa_type (the (map_of (ws_wallets s) wid))")
     (auto simp: generate_address_def kind_ok_def intro: monero_deposit_ok wallets_ok_deposit split: option.split)

lemma ws_step_ok: "ws_step s t \<Longrightarrow> wallets_ok s \<Longrightarrow> wallets_ok t"
proof (induction rule: ws_step.induct)
  case (wst_subaddress s rpc uid wid account invo)
  then show ?case by (auto simp: generate_monero_subaddress_def intro: monero_deposit_ok split: option.split)
next
  case (wst_rotate s now wid addr)
  show ?case
  proof (cases "map_of (ws_wallets s) wid")
    case (Some w)
    define w' where "w' = w\<lparr>wa_address := (if truthy addr then addr else wa_address w), wa_status := WActive, wa_rotated := Some now\<rparr>"
    have "wallets_ok (s\<lparr>ws_wallets := AList.update wid w' (ws_wallets s)\<rparr>)"
      by (rule wallets_ok_put [OF wst_rotate]) (use wallets_okD(1) [OF wst_rotate Some] Some in \<open>simp_all add: w'_def\<close>)
    moreover have "fst (rotate_wallet now wid addr s) = s\<lparr>ws_wallets := AList.update wid w' (ws_wallets s)\<rparr>"
      by (simp add: rotate_wallet_def Some w'_def)
    ultimately show ?thesis by simp
  qed (use wst_rotate in \<open>simp add: rotate_wallet_def\<close>)
qed (simp_all add: create_wallet_ok generate_address_ok)

lemma wsv_reach_ok: "wsv.reach s \<Longrightarrow> wallets_ok s"
proof (erule wsv.invariant_reach [rotated 2])
  show "wallets_ok t" if "t = ws_init" for t using that by (simp add: wallets_ok_def ws_init_def)
  show "wallets_ok u" if "wallets_ok t" "ws_step t u" for t u using ws_step_ok that(2,1) .
qed

section \<open>Deviations\<close>

lemma route_never_succeeds:
  "nowpayments_webhook cf body sig = Inl 401 \<or> (\<exists>x. nowpayments_webhook cf body sig = Inr x)"
  by (simp add: nowpayments_webhook_def split: sum.split bool.split)

text \<open>The default secret is empty, and the signature under the empty secret is accepted.\<close>

lemma empty_secret_accepted:
  assumes "np_secret cf = []" and "is_ascii (np_hmac cf [] body)"
  shows "np_verify cf body (np_hmac cf [] body) = Inr True"
  using assms by (simp add: np_verify_def)

lemma provider_id_is_empty:
  assumes "create_invoice (np_create_invoice show post force) now uid tid tier cur = Inr v"
  shows "ci_provider_id v = Some [] \<and> fst (snd (invoice_reply v)) = 0"
  using assms by (auto simp: create_invoice_def np_create_invoice_def validate_invoice_def invoice_reply_def dict_get_def
      split: if_splits sum.splits option.splits)

lemma paid_is_always_demo:
  assumes "process_webhook show dec uuid now i st raw = Inr (Some p)"
  shows "cy_tenant p = ''demo'' \<and> cy_usd p = 49"
  using assms by (auto simp: process_webhook_def load_invoice_def validate_invoice_def TIER_PRICES_USD_def split: if_splits sum.splits option.splits)

lemma failed_wallet_stays:
  assumes "wq_mode q \<noteq> ModeHot" and "wq_type q = WMonero" and "wq_monero q"
  shows "snd (create_wallet False uid q s) = Inl RuntimeError \<and> map_of (ws_wallets (fst (create_wallet False uid q s))) uid \<noteq> None"
  using assms by (simp add: create_wallet_def Let_def update_conv')

lemma rotation_revives:
  assumes "map_of (ws_wallets s) wid = Some w" and "wa_status w = WCompromised"
  shows "map_option wa_status (map_of (ws_wallets (fst (rotate_wallet now wid addr s))) wid) = Some WActive"
  using assms by (simp add: rotate_wallet_def update_conv')

lemma provider_addresses_shared:
  assumes "map_of (ws_wallets s) wid = Some w" and "wa_type w = WProvider" and "map_of (ws_provider s) wid = Some p"
  shows "map_sum (\<lambda>x. x) de_address (snd (generate_address rpc uid wid i1 cur net s)) = map_sum (\<lambda>x. x) de_address (snd (generate_address rpc' uid' wid i2 cur net s))"
  using assms by (simp add: generate_address_def add_deposit_def)

section \<open>Properties\<close>

text \<open>An invoice that was created has the price of its tier, the network of its currency, is pending, belongs to the tenant that
  asked for it and expires an hour after its creation.\<close>

theorem invoice_costs_its_tier:
  assumes "create_invoice provider now uid tid tier cur = Inr v"
  shows "ci_usd v = TIER_PRICES_USD tier \<and> ci_tier v = tier \<and> ci_network v = NETWORK_FOR_CURRENCY cur \<and> ci_status v = InvPending
    \<and> ci_tenant v = strip tid \<and> ci_tenant v \<noteq> [] \<and> ci_expires v = ci_created v + 3600"
  using assms by (auto simp: create_invoice_def validate_invoice_def PAYMENT_TTL_SECONDS_def split: if_splits sum.splits)

theorem invoice_costs_its_tier_witness:
  "\<exists>v. create_invoice (\<lambda>u c n i. Inr []) 5 ''u'' ''t'' TierPro BTC = Inr v \<and> ci_usd v = 149 \<and> ci_expires v = ci_created v + 3600"
proof -
  have "is_ok (create_invoice (\<lambda>u c n i. Inr []) 5 ''u'' ''t'' TierPro BTC)" by code_simp
  then obtain v where "create_invoice (\<lambda>u c n i. Inr []) 5 ''u'' ''t'' TierPro BTC = Inr v" by (cases "create_invoice (\<lambda>u c n i. Inr []) 5 ''u'' ''t'' TierPro BTC") auto
  with invoice_costs_its_tier [OF this] show ?thesis by (auto simp: TIER_PRICES_USD_def)
qed

text \<open>Only genuine final notifications count: the handler reports a payment only when the signature is the HMAC of the body under
  the provider's secret and the status is finished, confirmed or complete.\<close>

theorem crypto_payment_is_genuine:
  assumes "crypto_handle cf now body sig = Inr (Some p, st)"
  shows "sig = np_hmac cf (np_secret cf) body \<and> st \<in> {PStr ''finished'', PStr ''confirmed'', PStr ''complete''}"
  using assms by (auto simp: crypto_handle_def np_verify_def WEBHOOK_FINAL_STATUSES_def Let_def split: if_splits sum.splits bool.splits option.splits pyval.splits)

text \<open>In every state the wallet service reaches, no wallet can spend, every deposit address belongs to a known wallet and is a
  Monero subaddress exactly when that wallet is a Monero wallet, and the adapters fit the kind of their wallet.\<close>

theorem wallets_never_spend:
  assumes "wsv.reach s"
  shows "(\<forall>k w. map_of (ws_wallets s) k = Some w \<longrightarrow> wa_id w = k \<and> wa_mode w \<noteq> ModeHot)
    \<and> (\<forall>k d. map_of (ws_deposits s) k = Some d \<longrightarrow> (\<exists>w. map_of (ws_wallets s) (de_wallet d) = Some w \<and> (de_monero d \<longleftrightarrow> wa_type w = WMonero)))
    \<and> (\<forall>k cs. map_of (ws_monero s) k = Some cs \<longrightarrow> (\<exists>w. map_of (ws_wallets s) k = Some w \<and> wa_type w = WMonero))"
  using wsv_reach_ok [OF assms] unfolding wallets_ok_def kind_ok_def by blast

end
