(* ===== verification/Tickets.thy ===== *)
theory Tickets
  imports Ledger SignIn
begin

text \<open>
  Support tickets: \<open>src/support_chat/models.py\<close>, \<open>src/support_chat/service.py\<close> and \<open>src/support_chat/chat_service.py\<close>.

  Tickets are rows of a table; messages, participants, attachments and ratings are dictionaries in memory, keyed by the
  text of the ticket's id. Every operation on the table reads it, decides, and writes: what it has read (\<open>seen\<close>) is an
  argument of its own, so that another client may have written in between, and each of its round trips has an outcome.
  Fresh identifiers and the clock are arguments. The dash and the arrow of the system messages are written in ASCII.

  Shown: tickets never leave the graph of statuses, whatever the guarded operations have read; an agent changes only
  tickets in its scopes, and the status only of its own; a tenant sees and changes only its tickets; pages cover a list
  once; a message that is internal is never shown; and that a reply can overwrite a status written since it was read.
\<close>

section \<open>UUIDs\<close>

definition hexval :: "char \<Rightarrow> nat option" where
  "hexval c =
     (let n = (of_char c :: nat)
      in if 48 \<le> n \<and> n \<le> 57 then Some (n - 48)
         else if 97 \<le> n \<and> n \<le> 102 then Some (n - 87)
         else if 65 \<le> n \<and> n \<le> 70 then Some (n - 55) else None)"

text \<open>Digits of \<open>int(s, 16)\<close>, single underscores between them; the flag says whether an underscore or the end may follow.\<close>

fun hexpart :: "bool \<Rightarrow> string \<Rightarrow> nat list option" where
  "hexpart b [] = (if b then Some [] else None)"
| "hexpart b (c # cs) =
     (if c = CHR ''_'' then if b then hexpart False cs else None
      else case hexval c of None \<Rightarrow> None | Some d \<Rightarrow> map_option (Cons d) (hexpart True cs))"

definition hexnum :: "nat list \<Rightarrow> nat" where
  "hexnum ds = foldl (\<lambda>a d. 16 * a + d) 0 ds"

definition int16 :: "string \<Rightarrow> nat option" where
  "int16 w =
     (let t = strip w; u = (if take 1 t = ''+'' then drop 1 t else t)
      in map_option hexnum
           (if take 2 u = ''0x'' \<or> take 2 u = ''0X'' then if drop 2 u = [] then None else hexpart True (drop 2 u)
            else hexpart False u))"

function remove_sub :: "string \<Rightarrow> string \<Rightarrow> string" where
  "remove_sub p [] = []"
| "remove_sub p (c # cs) =
     (if p \<noteq> [] \<and> take (length p) (c # cs) = p then remove_sub p (drop (length p) (c # cs)) else c # remove_sub p cs)"
  by pat_completeness auto
termination
  by (relation "measure (\<lambda>(p, w). length w)") auto

definition is_brace :: "char \<Rightarrow> bool" where
  "is_brace c = (c = CHR ''{'' \<or> c = CHR ''}'')"

definition strip_braces :: "string \<Rightarrow> string" where
  "strip_braces w = rev (dropWhile is_brace (rev (dropWhile is_brace w)))"

definition coerce_uuid :: "string \<Rightarrow> nat option" where
  "coerce_uuid w =
     (let h = filter (\<lambda>c. c \<noteq> CHR ''-'') (strip_braces (remove_sub ''uuid:'' (remove_sub ''urn:'' w)))
      in if length h \<noteq> 32 then None else int16 h)"

definition hexchar :: "nat \<Rightarrow> char" where
  "hexchar d = (if d < 10 then char_of (48 + d) else char_of (87 + d))"

definition hex32 :: "nat \<Rightarrow> string" where
  "hex32 n = map (\<lambda>i. hexchar (n div 16 ^ i mod 16)) (rev [0..<32])"

definition uuid_str :: "nat \<Rightarrow> string" where
  "uuid_str n =
     (let h = hex32 n
      in take 8 h @ ''-'' @ take 4 (drop 8 h) @ ''-'' @ take 4 (drop 12 h) @ ''-'' @ take 4 (drop 16 h) @ ''-'' @ drop 20 h)"

section \<open>Data\<close>

datatype ticket_status = OPEN | IN_PROGRESS | WAITING_CUSTOMER | RESOLVED | CLOSED

definition ticket_status_values :: "(ticket_status \<times> string) list" where
  "ticket_status_values =
     [(OPEN, ''open''), (IN_PROGRESS, ''in_progress''), (WAITING_CUSTOMER, ''waiting_customer''), (RESOLVED, ''resolved''),
      (CLOSED, ''closed'')]"

datatype ticket_priority = P_LOW | P_MEDIUM | P_HIGH | P_CRITICAL

definition ticket_priority_values :: "(ticket_priority \<times> string) list" where
  "ticket_priority_values = [(P_LOW, ''low''), (P_MEDIUM, ''medium''), (P_HIGH, ''high''), (P_CRITICAL, ''critical'')]"

datatype participant_role = TENANT_USER | TENANT_ADMIN | SUPPORT_AGENT | SUPER_ADMIN

definition participant_role_values :: "(participant_role \<times> string) list" where
  "participant_role_values =
     [(TENANT_USER, ''tenant_user''), (TENANT_ADMIN, ''tenant_admin''), (SUPPORT_AGENT, ''support_agent''),
      (SUPER_ADMIN, ''super_admin'')]"

datatype message_type = TEXT_MSG | SYSTEM_MSG | INTERNAL_NOTE | FILE_MSG

text \<open>The value of an enum's member, and the member of a value.\<close>

definition enum_value :: "('e \<times> string) list \<Rightarrow> 'e \<Rightarrow> string" where
  "enum_value t e = the (map_of t e)"

definition enum_of :: "('e \<times> string) list \<Rightarrow> string \<Rightarrow> 'e option" where
  "enum_of t w = map_option fst (List.find (\<lambda>p. snd p = w) t)"

text \<open>A ticket (\<open>SupportTicket\<close>, with enums) and its row (\<open>SupportTicketModel\<close>, with their values) have the same fields.\<close>

record ('s, 'p) ticket =
  tk_id :: nat
  tk_tenant :: string
  tk_subject :: string
  tk_body :: string
  tk_status :: 's
  tk_priority :: 'p
  tk_agent :: "string option"
  tk_context_type :: "string option"
  tk_context_id :: "nat option"
  tk_context_data :: pydict
  tk_created_by :: string
  tk_created_at :: int
  tk_updated_at :: int
  tk_resolved_at :: "int option"
  tk_tags :: "string list"

type_synonym support_ticket = "(ticket_status, ticket_priority) ticket"
type_synonym ticket_row = "(string, string) ticket"

abbreviation status_value :: "ticket_status \<Rightarrow> string" where "status_value \<equiv> enum_value ticket_status_values"
abbreviation status_of :: "string \<Rightarrow> ticket_status option" where "status_of \<equiv> enum_of ticket_status_values"

definition ticket_to_model :: "support_ticket \<Rightarrow> ticket_row" where
  "ticket_to_model t =
     \<lparr>tk_id = tk_id t, tk_tenant = tk_tenant t, tk_subject = tk_subject t, tk_body = tk_body t, tk_status = status_value (tk_status t),
      tk_priority = enum_value ticket_priority_values (tk_priority t), tk_agent = tk_agent t, tk_context_type = tk_context_type t,
      tk_context_id = tk_context_id t, tk_context_data = tk_context_data t, tk_created_by = tk_created_by t,
      tk_created_at = tk_created_at t, tk_updated_at = tk_updated_at t, tk_resolved_at = tk_resolved_at t, tk_tags = tk_tags t\<rparr>"

definition model_to_ticket :: "ticket_row \<Rightarrow> support_ticket result" where
  "model_to_ticket m =
     (case (status_of (tk_status m), enum_of ticket_priority_values (tk_priority m)) of
        (Some st, Some p) \<Rightarrow>
          Inr \<lparr>tk_id = tk_id m, tk_tenant = tk_tenant m, tk_subject = tk_subject m, tk_body = tk_body m, tk_status = st,
            tk_priority = p, tk_agent = tk_agent m, tk_context_type = tk_context_type m, tk_context_id = tk_context_id m,
            tk_context_data = tk_context_data m, tk_created_by = tk_created_by m, tk_created_at = tk_created_at m,
            tk_updated_at = tk_updated_at m, tk_resolved_at = tk_resolved_at m, tk_tags = tk_tags m\<rparr>
      | _ \<Rightarrow> Inl ValueError)"

definition VALID_STATUS_TRANSITIONS :: "ticket_status \<Rightarrow> ticket_status list" where
  "VALID_STATUS_TRANSITIONS st =
     (case st of
        OPEN \<Rightarrow> [IN_PROGRESS, CLOSED]
      | IN_PROGRESS \<Rightarrow> [WAITING_CUSTOMER, RESOLVED, CLOSED]
      | WAITING_CUSTOMER \<Rightarrow> [IN_PROGRESS, CLOSED]
      | RESOLVED \<Rightarrow> [CLOSED, OPEN]
      | CLOSED \<Rightarrow> [OPEN])"

record chat_message =
  ms_id :: nat
  ms_ticket :: nat
  ms_sender :: string
  ms_role :: participant_role
  ms_body :: string
  ms_type :: message_type
  ms_internal :: bool
  ms_attachments :: "nat list"
  ms_at :: int

record participant =
  pa_ticket :: nat
  pa_user :: string
  pa_role :: participant_role
  pa_tenant :: "string option"

record attachment =
  at_id :: nat
  at_ticket :: nat
  at_filename :: string
  at_url :: string

record csat_rating =
  cs_ticket :: nat
  cs_tenant :: string
  cs_score :: int
  cs_comment :: "string option"
  cs_rated_by :: string

record tenant_context =
  tc_tenant :: string
  tc_actor :: string

text \<open>The tenant id of a verified principal, if it has one.\<close>

definition from_principal :: "string option \<Rightarrow> tenant_context result" where
  "from_principal p =
     (let t = strip (case p of None \<Rightarrow> [] | Some w \<Rightarrow> w)
      in if t = [] then Inl ValueError else Inr \<lparr>tc_tenant = t, tc_actor = ''tenant:'' @ t\<rparr>)"

section \<open>Rooms\<close>

record 'ws rooms =
  rm_rooms :: "(string \<times> (string \<times> 'ws) list) list"
  rm_users :: "(string \<times> string list) list"

definition room_of :: "'ws rooms \<Rightarrow> string \<Rightarrow> (string \<times> 'ws) list" where
  "room_of m tid = (case map_of (rm_rooms m) tid of None \<Rightarrow> [] | Some r \<Rightarrow> r)"

definition tickets_of :: "'ws rooms \<Rightarrow> string \<Rightarrow> string list" where
  "tickets_of m uid = (case map_of (rm_users m) uid of None \<Rightarrow> [] | Some r \<Rightarrow> r)"

definition ws_connect :: "string \<Rightarrow> string \<Rightarrow> 'ws \<Rightarrow> 'ws rooms \<Rightarrow> 'ws rooms" where
  "ws_connect tid uid ws m =
     m\<lparr>rm_rooms := AList.update tid (AList.update uid ws (room_of m tid)) (rm_rooms m),
       rm_users := AList.update uid (if tid \<in> set (tickets_of m uid) then tickets_of m uid else tickets_of m uid @ [tid]) (rm_users m)\<rparr>"

definition ws_disconnect :: "string \<Rightarrow> string \<Rightarrow> 'ws rooms \<Rightarrow> 'ws rooms" where
  "ws_disconnect tid uid m =
     (let r = AList.delete uid (room_of m tid)
      in m\<lparr>rm_rooms := (if r = [] then AList.delete tid (rm_rooms m) else AList.update tid r (rm_rooms m)),
           rm_users := (case map_of (rm_users m) uid of
                          None \<Rightarrow> rm_users m
                        | Some ts \<Rightarrow> AList.update uid (filter (\<lambda>t. t \<noteq> tid) ts) (rm_users m))\<rparr>)"

text \<open>Who is sent a message: a failing socket is skipped, so every member of the room is tried.\<close>

definition ws_broadcast :: "string \<Rightarrow> string option \<Rightarrow> 'ws rooms \<Rightarrow> (string \<times> 'ws) list" where
  "ws_broadcast tid ex m = filter (\<lambda>(uid, ws). Some uid \<noteq> ex) (room_of m tid)"

definition send_to_user :: "string \<Rightarrow> 'ws rooms \<Rightarrow> (string \<times> 'ws) list" where
  "send_to_user uid m =
     concat (map (\<lambda>tid. case map_of (room_of m tid) uid of None \<Rightarrow> [] | Some ws \<Rightarrow> [(tid, ws)]) (tickets_of m uid))"

section \<open>Messages\<close>

record support =
  sp_rows :: "ticket_row list"
  sp_messages :: "string \<Rightarrow> chat_message list"
  sp_participants :: "string \<Rightarrow> participant list"
  sp_attachments :: "string \<Rightarrow> attachment list"
  sp_csat :: "string \<Rightarrow> csat_rating option"
  sp_rooms :: "nat rooms"
  sp_sent :: "(nat \<times> chat_message) list"

definition chat_add :: "chat_message \<Rightarrow> support \<Rightarrow> support" where
  "chat_add m s =
     (let tid = uuid_str (ms_ticket m)
      in s\<lparr>sp_messages := (sp_messages s)(tid := sp_messages s tid @ [m]),
           sp_sent := sp_sent s @ map (\<lambda>(uid, ws). (ws, m)) (ws_broadcast tid None (sp_rooms s))\<rparr>)"

definition get_messages :: "string \<Rightarrow> nat \<Rightarrow> support \<Rightarrow> chat_message list" where
  "get_messages tid k s = py_last k (sp_messages s tid)"

definition message_visible :: "chat_message \<Rightarrow> bool" where
  "message_visible m = (\<not> ms_internal m \<and> ms_type m \<noteq> INTERNAL_NOTE)"

definition get_visible_messages :: "string \<Rightarrow> string \<Rightarrow> nat \<Rightarrow> support \<Rightarrow> chat_message list" where
  "get_visible_messages tid role k s =
     (let ms = get_messages tid k s
      in if role \<in> {enum_value participant_role_values SUPPORT_AGENT, enum_value participant_role_values SUPER_ADMIN} then ms
         else filter message_visible ms)"

definition add_system_message :: "nat \<Rightarrow> int \<Rightarrow> nat \<Rightarrow> string \<Rightarrow> support \<Rightarrow> support" where
  "add_system_message mid now u b =
     chat_add \<lparr>ms_id = mid, ms_ticket = u, ms_sender = ''system'', ms_role = SUPER_ADMIN, ms_body = b, ms_type = SYSTEM_MSG,
               ms_internal = False, ms_attachments = [], ms_at = now\<rparr>"

definition add_internal_note :: "nat \<Rightarrow> int \<Rightarrow> nat \<Rightarrow> string \<Rightarrow> string \<Rightarrow> support \<Rightarrow> support" where
  "add_internal_note mid now u agent b =
     chat_add \<lparr>ms_id = mid, ms_ticket = u, ms_sender = agent, ms_role = SUPPORT_AGENT, ms_body = b, ms_type = INTERNAL_NOTE,
               ms_internal = True, ms_attachments = [], ms_at = now\<rparr>"

definition add_participant :: "string \<Rightarrow> participant \<Rightarrow> support \<Rightarrow> support" where
  "add_participant tid p s = s\<lparr>sp_participants := (sp_participants s)(tid := sp_participants s tid @ [p])\<rparr>"

definition add_attachment :: "attachment \<Rightarrow> support \<Rightarrow> support" where
  "add_attachment a s =
     (let tid = uuid_str (at_ticket a) in s\<lparr>sp_attachments := (sp_attachments s)(tid := sp_attachments s tid @ [a])\<rparr>)"

section \<open>The ticket table\<close>

abbreviation OperationalError :: pyexc where "OperationalError \<equiv> OtherException ''OperationalError''"
abbreviation DataError :: pyexc where "DataError \<equiv> OtherException ''DataError''"
abbreviation IntegrityError :: pyexc where "IntegrityError \<equiv> OtherException ''IntegrityError''"
abbreviation StaleDataError :: pyexc where "StaleDataError \<equiv> OtherException ''StaleDataError''"
abbreviation TicketNotFoundError :: pyexc where "TicketNotFoundError \<equiv> OtherException ''TicketNotFoundError''"
abbreviation TicketStatusConflictError :: pyexc where "TicketStatusConflictError \<equiv> OtherException ''TicketStatusConflictError''"

record tx_net =
  tx_read :: pg_outcome
  tx_write :: pg_outcome
  tx_refresh :: pg_outcome

text \<open>A commit: done, not done, or done without the client learning it.\<close>

definition db_commit :: "pg_outcome \<Rightarrow> 'a list \<Rightarrow> 'a list \<Rightarrow> 'b \<Rightarrow> 'a list \<times> 'b result" where
  "db_commit oc rs rs' v =
     (case oc of PgOk \<Rightarrow> (rs', Inr v) | PgDown \<Rightarrow> (rs, Inl OperationalError) | PgLost \<Rightarrow> (rs', Inl OperationalError))"

definition db_read :: "pg_outcome \<Rightarrow> 'b \<Rightarrow> 'b result" where
  "db_read oc v = (if oc = PgOk then Inr v else Inl OperationalError)"

definition row_at :: "nat \<Rightarrow> ticket_row list \<Rightarrow> ticket_row option" where
  "row_at u rs = List.find (\<lambda>r. tk_id r = u) rs"

text \<open>The widths of the columns, which PostgreSQL enforces.\<close>

definition row_fits :: "ticket_row \<Rightarrow> bool" where
  "row_fits r = (length (tk_tenant r) \<le> 255 \<and> length (tk_subject r) \<le> 500 \<and> length (tk_created_by r) \<le> 255
     \<and> (case tk_context_type r of None \<Rightarrow> True | Some c \<Rightarrow> length c \<le> 50))"

definition insert_ticket_sync :: "bool \<Rightarrow> tx_net \<Rightarrow> support_ticket \<Rightarrow> ticket_row list \<Rightarrow> ticket_row list \<times> unit result" where
  "insert_ticket_sync pg nt t rs =
     (let r = ticket_to_model t
      in if tx_write nt = PgDown then (rs, Inl OperationalError)
         else if pg \<and> \<not> row_fits r then (rs, Inl DataError)
         else if row_at (tk_id r) rs \<noteq> None then (rs, Inl IntegrityError)
         else db_commit (tx_write nt) rs (rs @ [r]) ())"

text \<open>
  \<open>add_message_sync\<close> writes the loaded object back: the statement selects the row by its key alone.
\<close>

definition add_message_sync ::
  "tx_net \<Rightarrow> ticket_row list \<Rightarrow> string \<Rightarrow> string \<Rightarrow> int \<Rightarrow> ticket_row list \<Rightarrow> ticket_row list \<times> (nat \<times> bool) result" where
  "add_message_sync nt seen tid tenant now rs =
     (if tx_read nt \<noteq> PgOk then (rs, Inl OperationalError)
      else case Option.bind (coerce_uuid tid) (\<lambda>u. List.find (\<lambda>r. tk_id r = u \<and> tk_tenant r = tenant) seen) of
        None \<Rightarrow> (rs, Inl ValueError)
      | Some m \<Rightarrow>
          (case status_of (tk_status m) of
             None \<Rightarrow> (rs, Inl ValueError)
           | Some st \<Rightarrow>
               (let ch = (st = WAITING_CUSTOMER);
                    f = (\<lambda>r. (if ch then r\<lparr>tk_status := status_value IN_PROGRESS\<rparr> else r)\<lparr>tk_updated_at := now\<rparr>)
                in if row_at (tk_id m) rs = None then (rs, Inl StaleDataError)
                   else db_commit (tx_write nt) rs (upd (\<lambda>r. tk_id r = tk_id m) f rs) (tk_id m, ch))))"

text \<open>
  The guarded update: the row is changed only while it still has the tenant and the status that were read (and the
  assignee, where one is given); no row means a conflict. The row is read again after the commit.
\<close>

definition cas_hit :: "ticket_row \<Rightarrow> string option \<Rightarrow> ticket_row \<Rightarrow> bool" where
  "cas_hit m agent r = (tk_id r = tk_id m \<and> tk_tenant r = tk_tenant m \<and> tk_status r = tk_status m \<and> (agent = None \<or> tk_agent r = agent))"

definition cas ::
  "tx_net \<Rightarrow> pyexc \<Rightarrow> ticket_row \<Rightarrow> string option \<Rightarrow> (ticket_row \<Rightarrow> ticket_row) \<Rightarrow> ticket_row list \<Rightarrow> ticket_row list \<times> support_ticket result" where
  "cas nt conflict m agent f rs =
     (let hit = cas_hit m agent
      in if tx_write nt = PgDown then (rs, Inl OperationalError)
         else if \<not> list_ex hit rs then (rs, Inl conflict)
         else case db_commit (tx_write nt) rs (upd hit f rs) () of
                (rs', Inl x) \<Rightarrow> (rs', Inl x)
              | (rs', Inr _) \<Rightarrow>
                  (rs', if tx_refresh nt \<noteq> PgOk then Inl OperationalError
                        else case row_at (tk_id m) rs' of None \<Rightarrow> Inl (OtherException ''InvalidRequestError'')
                             | Some r \<Rightarrow> model_to_ticket r))"

definition assign_row :: "string \<Rightarrow> int \<Rightarrow> ticket_row \<Rightarrow> ticket_row" where
  "assign_row agent now r = r\<lparr>tk_agent := Some agent, tk_status := status_value IN_PROGRESS, tk_updated_at := now\<rparr>"

definition transition_row :: "ticket_status \<Rightarrow> int \<Rightarrow> ticket_row \<Rightarrow> ticket_row" where
  "transition_row st now r =
     (let r' = r\<lparr>tk_status := status_value st, tk_updated_at := now\<rparr>
      in if st = RESOLVED then r'\<lparr>tk_resolved_at := Some now\<rparr> else r')"

definition assignable :: "ticket_status \<Rightarrow> bool" where
  "assignable st = (st = IN_PROGRESS \<or> IN_PROGRESS \<in> set (VALID_STATUS_TRANSITIONS st))"

definition assign_loaded ::
  "tx_net \<Rightarrow> (string \<Rightarrow> bool) \<Rightarrow> ticket_row list \<Rightarrow> string \<Rightarrow> string \<Rightarrow> int \<Rightarrow> ticket_row list \<Rightarrow> ticket_row list \<times> support_ticket result" where
  "assign_loaded nt mine seen tid agent now rs =
     (if tx_read nt \<noteq> PgOk then (rs, Inl OperationalError)
      else case Option.bind (coerce_uuid tid) (\<lambda>u. row_at u seen) of
        None \<Rightarrow> (rs, Inl TicketNotFoundError)
      | Some m \<Rightarrow>
          if \<not> mine (tk_tenant m) then (rs, Inl TicketNotFoundError)
          else case status_of (tk_status m) of
                 None \<Rightarrow> (rs, Inl ValueError)
               | Some st \<Rightarrow> if \<not> assignable st then (rs, Inl TicketStatusConflictError)
                            else cas nt TicketStatusConflictError m None (assign_row agent now) rs)"

definition assign_agent_sync ::
  "tx_net \<Rightarrow> ticket_row list \<Rightarrow> string \<Rightarrow> string \<Rightarrow> string \<Rightarrow> int \<Rightarrow> ticket_row list \<Rightarrow> ticket_row list \<times> support_ticket result" where
  "assign_agent_sync nt seen tid agent tenant = assign_loaded nt (\<lambda>t. t = tenant) seen tid agent"

definition assign_self_sync ::
  "tx_net \<Rightarrow> ticket_row list \<Rightarrow> string \<Rightarrow> string \<Rightarrow> string set \<Rightarrow> int \<Rightarrow> ticket_row list \<Rightarrow> ticket_row list \<times> support_ticket result" where
  "assign_self_sync nt seen tid actor scopes = assign_loaded nt (\<lambda>t. t \<in> scopes) seen tid actor"

definition transition_from ::
  "tx_net \<Rightarrow> ticket_row \<Rightarrow> string option \<Rightarrow> ticket_status \<Rightarrow> int \<Rightarrow> ticket_row list \<Rightarrow> ticket_row list \<times> (support_ticket \<times> string) result" where
  "transition_from nt m agent new now rs =
     (case status_of (tk_status m) of
        None \<Rightarrow> (rs, Inl ValueError)
      | Some st \<Rightarrow>
          if new \<notin> set (VALID_STATUS_TRANSITIONS st) then (rs, Inl ValueError)
          else map_prod id (map_sum id (\<lambda>t. (t, status_value st))) (cas nt ValueError m agent (transition_row new now) rs))"

definition transition_sync ::
  "tx_net \<Rightarrow> ticket_row list \<Rightarrow> string \<Rightarrow> ticket_status \<Rightarrow> string \<Rightarrow> int \<Rightarrow> ticket_row list \<Rightarrow> ticket_row list \<times> (support_ticket \<times> string) result" where
  "transition_sync nt seen tid new tenant now rs =
     (if tx_read nt \<noteq> PgOk then (rs, Inl OperationalError)
      else case Option.bind (coerce_uuid tid) (\<lambda>u. List.find (\<lambda>r. tk_id r = u \<and> tk_tenant r = tenant) seen) of
        None \<Rightarrow> (rs, Inl ValueError)
      | Some m \<Rightarrow> transition_from nt m None new now rs)"

definition transition_assigned_sync ::
  "tx_net \<Rightarrow> ticket_row list \<Rightarrow> string \<Rightarrow> ticket_status \<Rightarrow> string \<Rightarrow> string set \<Rightarrow> int \<Rightarrow> ticket_row list \<Rightarrow> ticket_row list \<times> (support_ticket \<times> string) result" where
  "transition_assigned_sync nt seen tid new actor scopes now rs =
     (if tx_read nt \<noteq> PgOk then (rs, Inl OperationalError)
      else case Option.bind (coerce_uuid tid) (\<lambda>u. row_at u seen) of
        None \<Rightarrow> (rs, Inl TicketNotFoundError)
      | Some m \<Rightarrow>
          if tk_tenant m \<notin> scopes then (rs, Inl TicketNotFoundError)
          else if tk_agent m \<noteq> Some actor then (rs, Inl TicketNotFoundError)
          else transition_from nt m (Some actor) new now rs)"

section \<open>Lists and pages\<close>

text \<open>
  \<open>OFFSET\<close> and \<open>LIMIT\<close>: PostgreSQL refuses negative ones; SQLite takes a negative offset for none and a negative limit
  for no limit. Neither has numbers beyond 64 bits.
\<close>

definition page_rows :: "bool \<Rightarrow> int \<Rightarrow> int \<Rightarrow> 'a list \<Rightarrow> 'a list result" where
  "page_rows pg page sz xs =
     (let off = (page - 1) * sz
      in if 2 ^ 63 \<le> \<bar>off\<bar> \<or> 2 ^ 63 \<le> \<bar>sz\<bar> then Inl (if pg then DataError else OtherException ''OverflowError'')
         else if pg \<and> (off < 0 \<or> sz < 0) then Inl DataError
         else Inr (let ys = drop (nat off) xs in if sz < 0 then ys else take (nat sz) ys))"

record ticket_list =
  tl_tickets :: "support_ticket list"
  tl_total :: nat
  tl_page :: int
  tl_page_size :: int

fun all_tickets :: "ticket_row list \<Rightarrow> support_ticket list result" where
  "all_tickets [] = Inr []"
| "all_tickets (r # rs) =
     (case model_to_ticket r of Inl x \<Rightarrow> Inl x
      | Inr t \<Rightarrow> (case all_tickets rs of Inl x \<Rightarrow> Inl x | Inr ts \<Rightarrow> Inr (t # ts)))"

definition list_page :: "bool \<Rightarrow> int \<Rightarrow> int \<Rightarrow> nat \<Rightarrow> ticket_row list \<Rightarrow> ticket_list result" where
  "list_page pg page sz n xs =
     (case page_rows pg page sz xs of
        Inl x \<Rightarrow> Inl x
      | Inr rs \<Rightarrow> (case all_tickets rs of
                     Inl x \<Rightarrow> Inl x
                   | Inr ts \<Rightarrow> Inr \<lparr>tl_tickets = ts, tl_total = n, tl_page = page, tl_page_size = sz\<rparr>))"

definition with_status :: "ticket_status option \<Rightarrow> ticket_row list \<Rightarrow> ticket_row list" where
  "with_status st rs = (case st of None \<Rightarrow> rs | Some x \<Rightarrow> filter (\<lambda>r. tk_status r = status_value x) rs)"

text \<open>Rows with the same time of creation come in the order of the table.\<close>

definition list_tickets_sync :: "bool \<Rightarrow> pg_outcome \<Rightarrow> string \<Rightarrow> ticket_status option \<Rightarrow> int \<Rightarrow> int \<Rightarrow> ticket_row list \<Rightarrow> ticket_list result" where
  "list_tickets_sync pg oc tenant st page sz rs =
     (let q = with_status st (filter (\<lambda>r. tk_tenant r = tenant) rs)
      in if oc \<noteq> PgOk then Inl OperationalError else list_page pg page sz (length q) (sort_key tk_created_at q))"

definition empty_list :: "int \<Rightarrow> int \<Rightarrow> ticket_list" where
  "empty_list page sz = \<lparr>tl_tickets = [], tl_total = 0, tl_page = page, tl_page_size = sz\<rparr>"

definition list_tickets_for_scopes_sync ::
  "bool \<Rightarrow> pg_outcome \<Rightarrow> string set \<Rightarrow> string option \<Rightarrow> ticket_status option \<Rightarrow> int \<Rightarrow> int \<Rightarrow> ticket_row list \<Rightarrow> ticket_list result" where
  "list_tickets_for_scopes_sync pg oc tenants only st page sz rs =
     (if (case only of None \<Rightarrow> False | Some t \<Rightarrow> t \<notin> tenants) then Inr (empty_list page sz)
      else let scopes = (case only of None \<Rightarrow> tenants | Some t \<Rightarrow> {t})
           in if scopes = {} then Inr (empty_list page sz)
              else let q = with_status st (filter (\<lambda>r. tk_tenant r \<in> scopes) rs)
                   in if oc \<noteq> PgOk then Inl OperationalError
                      else list_page pg page sz (length q) (sort_key tk_created_at (sort_key tk_id q)))"

definition get_ticket_sync :: "pg_outcome \<Rightarrow> string \<Rightarrow> string \<Rightarrow> ticket_row list \<Rightarrow> support_ticket option result" where
  "get_ticket_sync oc tid tenant rs =
     (case coerce_uuid tid of
        None \<Rightarrow> Inr None
      | Some u \<Rightarrow>
          if oc \<noteq> PgOk then Inl OperationalError
          else case List.find (\<lambda>r. tk_id r = u \<and> tk_tenant r = tenant) rs of
                 None \<Rightarrow> Inr None
               | Some m \<Rightarrow> map_sum id Some (model_to_ticket m))"

definition get_ticket_for_scopes_sync :: "pg_outcome \<Rightarrow> string \<Rightarrow> string set \<Rightarrow> ticket_row list \<Rightarrow> support_ticket option result" where
  "get_ticket_for_scopes_sync oc tid tenants rs =
     (case coerce_uuid tid of
        None \<Rightarrow> Inr None
      | Some u \<Rightarrow>
          if tenants = {} then Inr None
          else if oc \<noteq> PgOk then Inl OperationalError
          else case List.find (\<lambda>r. tk_id r = u \<and> tk_tenant r \<in> tenants) rs of
                 None \<Rightarrow> Inr None
               | Some m \<Rightarrow> map_sum id Some (model_to_ticket m))"

section \<open>The service\<close>

record create_req =
  cr_subject :: string
  cr_body :: string
  cr_priority :: ticket_priority
  cr_context_type :: "string option"
  cr_context_id :: "nat option"
  cr_context_data :: pydict

definition new_ticket :: "nat \<Rightarrow> int \<Rightarrow> create_req \<Rightarrow> tenant_context \<Rightarrow> support_ticket" where
  "new_ticket u now q tc =
     \<lparr>tk_id = u, tk_tenant = tc_tenant tc, tk_subject = cr_subject q, tk_body = cr_body q, tk_status = OPEN, tk_priority = cr_priority q,
      tk_agent = None, tk_context_type = cr_context_type q, tk_context_id = cr_context_id q, tk_context_data = cr_context_data q,
      tk_created_by = tc_actor tc, tk_created_at = now, tk_updated_at = now, tk_resolved_at = None, tk_tags = []\<rparr>"

definition user_message :: "nat \<Rightarrow> int \<Rightarrow> nat \<Rightarrow> tenant_context \<Rightarrow> string \<Rightarrow> nat list \<Rightarrow> chat_message" where
  "user_message mid now u tc b as =
     \<lparr>ms_id = mid, ms_ticket = u, ms_sender = tc_actor tc, ms_role = TENANT_USER, ms_body = b, ms_type = TEXT_MSG,
      ms_internal = False, ms_attachments = as, ms_at = now\<rparr>"

text \<open>Fresh message identifiers come as a pair, the time of all steps is one.\<close>

definition create_ticket ::
  "bool \<Rightarrow> tx_net \<Rightarrow> nat \<Rightarrow> nat \<times> nat \<Rightarrow> int \<Rightarrow> create_req \<Rightarrow> tenant_context \<Rightarrow> support \<Rightarrow> support \<times> support_ticket result" where
  "create_ticket pg nt u mids now q tc s =
     (case insert_ticket_sync pg nt (new_ticket u now q tc) (sp_rows s) of
        (rs, Inl x) \<Rightarrow> (s\<lparr>sp_rows := rs\<rparr>, Inl x)
      | (rs, Inr _) \<Rightarrow>
          (let s1 = add_participant (uuid_str u)
                      \<lparr>pa_ticket = u, pa_user = tc_actor tc, pa_role = TENANT_USER, pa_tenant = Some (tc_tenant tc)\<rparr> (s\<lparr>sp_rows := rs\<rparr>);
               s2 = (if cr_body q \<noteq> [] then chat_add (user_message (fst mids) now u tc (cr_body q) []) s1 else s1)
           in (add_system_message (snd mids) now u (''Ticket created by '' @ tc_actor tc) s2, Inr (new_ticket u now q tc))))"

definition add_message ::
  "tx_net \<Rightarrow> ticket_row list \<Rightarrow> nat \<times> nat \<Rightarrow> int \<Rightarrow> string \<Rightarrow> string \<Rightarrow> nat list \<Rightarrow> tenant_context \<Rightarrow> support \<Rightarrow> support \<times> chat_message result" where
  "add_message nt seen mids now tid b as tc s =
     (case add_message_sync nt seen tid (tc_tenant tc) now (sp_rows s) of
        (rs, Inl x) \<Rightarrow> (s\<lparr>sp_rows := rs\<rparr>, Inl x)
      | (rs, Inr (u, ch)) \<Rightarrow>
          (let s1 = s\<lparr>sp_rows := rs\<rparr>;
               s2 = (if ch then add_system_message (fst mids) now u ''Customer replied - status -> in_progress'' s1 else s1);
               m = user_message (snd mids) now u tc b as
           in (chat_add m s2, Inr m)))"

definition joined ::
  "nat \<Rightarrow> int \<Rightarrow> string \<Rightarrow> string \<Rightarrow> ticket_row list \<times> support_ticket result \<Rightarrow> support \<Rightarrow> support \<times> support_ticket result" where
  "joined mid now tid agent r s =
     (case r of
        (rs, Inl x) \<Rightarrow> (s\<lparr>sp_rows := rs\<rparr>, Inl x)
      | (rs, Inr t) \<Rightarrow>
          (add_system_message mid now (tk_id t) (''Agent '' @ agent @ '' assigned'')
             (add_participant tid \<lparr>pa_ticket = tk_id t, pa_user = agent, pa_role = SUPPORT_AGENT, pa_tenant = Some (tk_tenant t)\<rparr>
               (s\<lparr>sp_rows := rs\<rparr>)), Inr t))"

definition assign_agent ::
  "tx_net \<Rightarrow> ticket_row list \<Rightarrow> nat \<Rightarrow> int \<Rightarrow> string \<Rightarrow> string \<Rightarrow> tenant_context \<Rightarrow> support \<Rightarrow> support \<times> support_ticket result" where
  "assign_agent nt seen mid now tid agent tc s =
     joined mid now tid agent (assign_agent_sync nt seen tid agent (tc_tenant tc) now (sp_rows s)) s"

definition assign_agent_to_self ::
  "tx_net \<Rightarrow> ticket_row list \<Rightarrow> nat \<Rightarrow> int \<Rightarrow> string \<Rightarrow> string \<Rightarrow> string set \<Rightarrow> support \<Rightarrow> support \<times> support_ticket result" where
  "assign_agent_to_self nt seen mid now tid actor scopes s =
     joined mid now tid actor (assign_self_sync nt seen tid actor scopes now (sp_rows s)) s"

definition moved ::
  "nat \<Rightarrow> int \<Rightarrow> ticket_status \<Rightarrow> ticket_row list \<times> (support_ticket \<times> string) result \<Rightarrow> support \<Rightarrow> support \<times> support_ticket result" where
  "moved mid now new r s =
     (case r of
        (rs, Inl x) \<Rightarrow> (s\<lparr>sp_rows := rs\<rparr>, Inl x)
      | (rs, Inr (t, old)) \<Rightarrow> (add_system_message mid now (tk_id t) (''Status -> '' @ status_value new) (s\<lparr>sp_rows := rs\<rparr>), Inr t))"

definition transition_status ::
  "tx_net \<Rightarrow> ticket_row list \<Rightarrow> nat \<Rightarrow> int \<Rightarrow> string \<Rightarrow> ticket_status \<Rightarrow> tenant_context \<Rightarrow> support \<Rightarrow> support \<times> support_ticket result" where
  "transition_status nt seen mid now tid new tc s =
     moved mid now new (transition_sync nt seen tid new (tc_tenant tc) now (sp_rows s)) s"

definition transition_status_as_assignee ::
  "tx_net \<Rightarrow> ticket_row list \<Rightarrow> nat \<Rightarrow> int \<Rightarrow> string \<Rightarrow> ticket_status \<Rightarrow> string \<Rightarrow> string set \<Rightarrow> support \<Rightarrow> support \<times> support_ticket result" where
  "transition_status_as_assignee nt seen mid now tid new actor scopes s =
     moved mid now new (transition_assigned_sync nt seen tid new actor scopes now (sp_rows s)) s"

definition submit_csat ::
  "pg_outcome \<Rightarrow> nat \<Rightarrow> int \<Rightarrow> string \<Rightarrow> int \<Rightarrow> string option \<Rightarrow> tenant_context \<Rightarrow> support \<Rightarrow> support \<times> csat_rating result" where
  "submit_csat oc mid now tid score comment tc s =
     (case get_ticket_sync oc tid (tc_tenant tc) (sp_rows s) of
        Inl x \<Rightarrow> (s, Inl x)
      | Inr None \<Rightarrow> (s, Inl ValueError)
      | Inr (Some t) \<Rightarrow>
          (let r = \<lparr>cs_ticket = tk_id t, cs_tenant = tc_tenant tc, cs_score = score, cs_comment = comment, cs_rated_by = tc_actor tc\<rparr>
           in (add_system_message mid now (tk_id t) (''CSAT: '' @ nat_str (nat score) @ ''/5'')
                 (s\<lparr>sp_csat := (sp_csat s)(tid := Some r)\<rparr>), Inr r)))"

record ticket_detail =
  td_ticket :: support_ticket
  td_messages :: "chat_message list"
  td_participants :: "participant list"
  td_attachments :: "attachment list"
  td_csat :: "csat_rating option"

definition detail_of :: "string \<Rightarrow> support_ticket option result \<Rightarrow> support \<Rightarrow> ticket_detail option result" where
  "detail_of tid r s =
     map_sum id (map_option (\<lambda>t.
       \<lparr>td_ticket = t, td_messages = get_visible_messages tid (enum_value participant_role_values TENANT_USER) 100 s,
        td_participants = sp_participants s tid, td_attachments = sp_attachments s tid, td_csat = sp_csat s tid\<rparr>)) r"

definition get_ticket_detail :: "pg_outcome \<Rightarrow> string \<Rightarrow> tenant_context \<Rightarrow> support \<Rightarrow> ticket_detail option result" where
  "get_ticket_detail oc tid tc s = detail_of tid (get_ticket_sync oc tid (tc_tenant tc) (sp_rows s)) s"

definition agent_get_ticket_detail :: "pg_outcome \<Rightarrow> string \<Rightarrow> string set \<Rightarrow> support \<Rightarrow> ticket_detail option result" where
  "agent_get_ticket_detail oc tid tenants s = detail_of tid (get_ticket_for_scopes_sync oc tid tenants (sp_rows s)) s"

section \<open>Rows under the operations\<close>

named_theorems ticket_defs \<open>definitions of the operations on the ticket table\<close>

lemma row_at_upd [simp]:
  assumes "\<And>r. tk_id (f r) = tk_id r"
  shows "row_at u (upd p f rs) = map_option (\<lambda>r. if p r then f r else r) (row_at u rs)"
  using assms by (induction rs) (auto simp: row_at_def upd_def)

lemma row_at_append: "row_at u (rs @ [r]) = (case row_at u rs of Some x \<Rightarrow> Some x | None \<Rightarrow> if tk_id r = u then Some r else None)"
  by (induction rs) (auto simp: row_at_def)

lemma row_at_id: "row_at u rs = Some r \<Longrightarrow> tk_id r = u \<and> r \<in> set rs"
  unfolding row_at_def by (drule find_SomeD) auto

lemma find_tenant: "row_at u rs = Some m \<Longrightarrow> List.find (\<lambda>r. tk_id r = u \<and> tk_tenant r = tk_tenant m) rs = Some m"
  unfolding row_at_def by (induction rs) (auto split: if_splits)

lemma upd_id [simp]: "tk_id (assign_row a now r) = tk_id r" "tk_id (transition_row st now r) = tk_id r"
  by (simp_all add: assign_row_def transition_row_def Let_def)

lemma status_values [simp]:
  "status_of (status_value st) = Some st" "enum_of ticket_priority_values (enum_value ticket_priority_values p) = Some p"
   apply (cases st; simp add: enum_of_def enum_value_def ticket_status_values_def)
  by (cases p; simp add: enum_of_def enum_value_def ticket_priority_values_def)

lemma status_of_value: "status_of w = Some st \<Longrightarrow> w = status_value st"
  by (auto simp: enum_of_def enum_value_def ticket_status_values_def split: if_splits)

lemma db_commit_rows: "fst (db_commit oc rs rs' v) = rs \<or> fst (db_commit oc rs rs' v) = rs'"
  by (cases oc) (simp_all add: db_commit_def)

lemma cas_rows: "fst (cas nt x m ag f rs) = rs \<or> fst (cas nt x m ag f rs) = upd (cas_hit m ag) f rs"
proof -
  obtain rs' r where c: "db_commit (tx_write nt) rs (upd (cas_hit m ag) f rs) () = (rs', r)" by (cases "db_commit (tx_write nt) rs (upd (cas_hit m ag) f rs) ()")
  have "rs' = rs \<or> rs' = upd (cas_hit m ag) f rs" using db_commit_rows [of "tx_write nt" rs "upd (cas_hit m ag) f rs" "()"] c by simp
  then show ?thesis by (cases r) (auto simp: cas_def c Let_def)
qed

text \<open>What the operations do to the table: nothing, or one update of the row they have read.\<close>

lemma assign_rows:
  assumes "fst (assign_loaded nt mine seen tid agent now rs) \<noteq> rs"
  obtains u m st where "coerce_uuid tid = Some u" "row_at u seen = Some m" "mine (tk_tenant m)" "status_of (tk_status m) = Some st"
    "assignable st" "fst (assign_loaded nt mine seen tid agent now rs) = upd (cas_hit m None) (assign_row agent now) rs"
proof -
  have rd: "tx_read nt = PgOk" using assms by (auto simp: assign_loaded_def split: if_splits)
  obtain u m where u: "coerce_uuid tid = Some u" "row_at u seen = Some m"
    using assms rd by (auto simp: assign_loaded_def bind_eq_Some_conv split: option.splits)
  have t: "mine (tk_tenant m)" using assms rd u by (auto simp: assign_loaded_def split: if_splits)
  obtain st where st: "status_of (tk_status m) = Some st" using assms rd u t by (cases "status_of (tk_status m)") (auto simp: assign_loaded_def)
  have a: "assignable st" using assms rd u t st by (auto simp: assign_loaded_def split: if_splits)
  have e: "assign_loaded nt mine seen tid agent now rs = cas nt TicketStatusConflictError m None (assign_row agent now) rs"
    using rd u t st a by (simp add: assign_loaded_def)
  show ?thesis by (rule that [OF u t st a]) (use assms cas_rows e in metis)
qed

lemma transition_rows:
  assumes "fst (transition_from nt m ag new now rs) \<noteq> rs"
  obtains st where "status_of (tk_status m) = Some st" "new \<in> set (VALID_STATUS_TRANSITIONS st)"
    "fst (transition_from nt m ag new now rs) = upd (cas_hit m ag) (transition_row new now) rs"
proof -
  obtain st where st: "status_of (tk_status m) = Some st" using assms by (cases "status_of (tk_status m)") (auto simp: transition_from_def)
  have n: "new \<in> set (VALID_STATUS_TRANSITIONS st)" using assms st by (auto simp: transition_from_def split: if_splits)
  have e: "fst (transition_from nt m ag new now rs) = fst (cas nt ValueError m ag (transition_row new now) rs)"
    using st n by (simp add: transition_from_def)
  show ?thesis by (rule that [OF st n]) (use assms cas_rows e in metis)
qed

lemma reply_rows:
  assumes "fst (add_message_sync nt seen tid tenant now rs) \<noteq> rs"
  obtains u m st where "coerce_uuid tid = Some u" "List.find (\<lambda>r. tk_id r = u \<and> tk_tenant r = tenant) seen = Some m"
    "status_of (tk_status m) = Some st"
    "fst (add_message_sync nt seen tid tenant now rs) =
       upd (\<lambda>r. tk_id r = tk_id m) (\<lambda>r. (if st = WAITING_CUSTOMER then r\<lparr>tk_status := status_value IN_PROGRESS\<rparr> else r)\<lparr>tk_updated_at := now\<rparr>) rs"
proof -
  have rd: "tx_read nt = PgOk" using assms by (auto simp: add_message_sync_def split: if_splits)
  obtain u m where u: "coerce_uuid tid = Some u" "List.find (\<lambda>r. tk_id r = u \<and> tk_tenant r = tenant) seen = Some m"
    using assms rd by (auto simp: add_message_sync_def bind_eq_Some_conv split: option.splits)
  obtain st where st: "status_of (tk_status m) = Some st" using assms rd u by (cases "status_of (tk_status m)") (auto simp: add_message_sync_def)
  have r: "row_at (tk_id m) rs \<noteq> None" using assms rd u st by (auto simp: add_message_sync_def Let_def split: if_splits)
  let ?f = "\<lambda>r. (if st = WAITING_CUSTOMER then r\<lparr>tk_status := status_value IN_PROGRESS\<rparr> else r)\<lparr>tk_updated_at := now\<rparr>"
  have e: "add_message_sync nt seen tid tenant now rs
      = db_commit (tx_write nt) rs (upd (\<lambda>r. tk_id r = tk_id m) ?f rs) (tk_id m, st = WAITING_CUSTOMER)"
    unfolding add_message_sync_def Let_def using rd u st r by (simp del: not_None_eq)
  have "fst (add_message_sync nt seen tid tenant now rs) = upd (\<lambda>r. tk_id r = tk_id m) ?f rs"
    using assms db_commit_rows [of "tx_write nt" rs "upd (\<lambda>r. tk_id r = tk_id m) ?f rs" "(tk_id m, st = WAITING_CUSTOMER)"] unfolding e by blast
  then show ?thesis by (rule that [OF u st])
qed

lemma insert_rows:
  "fst (insert_ticket_sync pg nt t rs) = rs \<or> fst (insert_ticket_sync pg nt t rs) = rs @ [ticket_to_model t] \<and> row_at (tk_id t) rs = None"
  using db_commit_rows [of "tx_write nt" rs "rs @ [ticket_to_model t]" "()"] by (auto simp: insert_ticket_sync_def Let_def ticket_to_model_def)

text \<open>The operations touch the table only through these.\<close>

lemma rows_simps [simp]:
  "sp_rows (chat_add m s) = sp_rows s" "sp_rows (add_system_message mid now u b s) = sp_rows s"
  "sp_rows (add_internal_note mid now u g b s) = sp_rows s" "sp_rows (add_participant tid p s) = sp_rows s"
  "sp_rows (add_attachment a s) = sp_rows s"
  by (simp_all add: chat_add_def add_system_message_def add_internal_note_def add_participant_def add_attachment_def Let_def)

lemma rows_create: "sp_rows (fst (create_ticket pg nt u mids now q tc s)) = fst (insert_ticket_sync pg nt (new_ticket u now q tc) (sp_rows s))"
  by (auto simp: create_ticket_def Let_def split: prod.splits sum.splits)

lemma rows_reply: "sp_rows (fst (add_message nt seen mids now tid b as tc s)) = fst (add_message_sync nt seen tid (tc_tenant tc) now (sp_rows s))"
  by (auto simp: add_message_def Let_def split: prod.splits sum.splits)

lemma rows_joined: "sp_rows (fst (joined mid now tid agent r s)) = fst r"
  by (auto simp: joined_def split: prod.splits sum.splits)

lemma rows_moved: "sp_rows (fst (moved mid now new r s)) = fst r"
  by (auto simp: moved_def split: prod.splits sum.splits)

lemma rows_csat: "sp_rows (fst (submit_csat oc mid now tid score comment tc s)) = sp_rows s"
  by (auto simp: submit_csat_def Let_def split: sum.splits option.splits)

lemmas rows_of_ops = rows_create rows_reply rows_joined rows_moved rows_csat

section \<open>The graph of statuses\<close>

definition row_step :: "ticket_row \<Rightarrow> ticket_row \<Rightarrow> bool" where
  "row_step r r' \<longleftrightarrow> tk_id r' = tk_id r \<and> tk_tenant r' = tk_tenant r \<and> tk_subject r' = tk_subject r \<and> tk_body r' = tk_body r
     \<and> tk_priority r' = tk_priority r \<and> tk_created_by r' = tk_created_by r \<and> tk_created_at r' = tk_created_at r
     \<and> (tk_status r' = tk_status r
        \<or> (\<exists>a b. tk_status r = status_value a \<and> tk_status r' = status_value b \<and> b \<in> set (VALID_STATUS_TRANSITIONS a)))"

definition row_valid :: "ticket_row \<Rightarrow> bool" where
  "row_valid r \<longleftrightarrow> status_of (tk_status r) \<noteq> None \<and> enum_of ticket_priority_values (tk_priority r) \<noteq> None"

definition ticket_inv :: "support \<Rightarrow> bool" where
  "ticket_inv s \<longleftrightarrow> distinct (map tk_id (sp_rows s)) \<and> (\<forall>r\<in>set (sp_rows s). row_valid r)"

text \<open>
  The operations as clients perform them. What the guarded ones have read is any table at all; a reply, which writes
  without a guard, is one step.
\<close>

inductive ticket_op :: "support \<Rightarrow> support \<Rightarrow> bool" where
  op_create: "ticket_op s (fst (create_ticket pg nt u mids now q tc s))"
| op_reply: "ticket_op s (fst (add_message nt (sp_rows s) mids now tid b as tc s))"
| op_assign: "ticket_op s (fst (assign_agent nt seen mid now tid agent tc s))"
| op_self: "ticket_op s (fst (assign_agent_to_self nt seen mid now tid actor scopes s))"
| op_transition: "ticket_op s (fst (transition_status nt seen mid now tid new tc s))"
| op_assignee: "ticket_op s (fst (transition_status_as_assignee nt seen mid now tid new actor scopes s))"
| op_csat: "ticket_op s (fst (submit_csat oc mid now tid score comment tc s))"
| op_note: "ticket_op s (add_internal_note mid now u agent b s)"
| op_attach: "ticket_op s (add_attachment a s)"
| op_member: "ticket_op s (add_participant tid p s)"

inductive ticket_reach :: "support \<Rightarrow> bool" where
  reach_init: "sp_rows s = [] \<Longrightarrow> ticket_reach s"
| reach_op: "ticket_reach s \<Longrightarrow> ticket_op s s' \<Longrightarrow> ticket_reach s'"

lemma row_step_refl [simp]: "row_step r r"
  by (simp add: row_step_def)

lemma assignable_edge: "assignable a \<Longrightarrow> a = IN_PROGRESS \<or> IN_PROGRESS \<in> set (VALID_STATUS_TRANSITIONS a)"
  by (simp add: assignable_def)

lemma assign_row_step: "status_of (tk_status r) = Some a \<Longrightarrow> assignable a \<Longrightarrow> row_step r (assign_row g now r)"
  using status_of_value [of "tk_status r" a] by (auto simp: row_step_def assign_row_def assignable_def)

lemma transition_row_step:
  "status_of (tk_status r) = Some a \<Longrightarrow> b \<in> set (VALID_STATUS_TRANSITIONS a) \<Longrightarrow> row_step r (transition_row b now r)"
  using status_of_value [of "tk_status r" a] by (auto simp: row_step_def transition_row_def Let_def)

text \<open>A change of the table that maps every row along the graph.\<close>

definition rows_follow :: "ticket_row list \<Rightarrow> ticket_row list \<Rightarrow> bool" where
  "rows_follow rs rs' \<longleftrightarrow>
     (\<exists>f. (\<forall>r\<in>set rs. row_step r (f r)) \<and> (rs' = map f rs \<or> (\<exists>t. rs' = map f rs @ [ticket_to_model t] \<and> row_at (tk_id t) rs = None)))"

lemma rows_follow_refl [simp]: "rows_follow rs rs"
  unfolding rows_follow_def by (rule exI [of _ id]) simp

lemma rows_follow_upd: "(\<And>r. r \<in> set rs \<Longrightarrow> p r \<Longrightarrow> row_step r (f r)) \<Longrightarrow> rows_follow rs (upd p f rs)"
  unfolding rows_follow_def upd_def by (rule exI [of _ "\<lambda>r. if p r then f r else r"]) auto

lemma assign_follows: "rows_follow rs (fst (assign_loaded nt mine seen tid agent now rs))"
proof (cases "fst (assign_loaded nt mine seen tid agent now rs) = rs")
  case False
  then obtain u m st where m: "status_of (tk_status m) = Some st" "assignable st"
    and e: "fst (assign_loaded nt mine seen tid agent now rs) = upd (cas_hit m None) (assign_row agent now) rs"
    by (rule assign_rows) (rule that)
  show ?thesis unfolding e using m by (intro rows_follow_upd assign_row_step) (auto simp: cas_hit_def)
qed simp

lemma transition_follows: "rows_follow rs (fst (transition_from nt m ag new now rs))"
proof (cases "fst (transition_from nt m ag new now rs) = rs")
  case False
  then obtain st where m: "status_of (tk_status m) = Some st" "new \<in> set (VALID_STATUS_TRANSITIONS st)"
    and e: "fst (transition_from nt m ag new now rs) = upd (cas_hit m ag) (transition_row new now) rs"
    by (rule transition_rows) (rule that)
  show ?thesis unfolding e using m by (intro rows_follow_upd transition_row_step) (auto simp: cas_hit_def)
qed simp

lemma insert_follows: "rows_follow rs (fst (insert_ticket_sync pg nt t rs))"
  using insert_rows [of pg nt t rs] unfolding rows_follow_def by (metis id_apply list.map_id row_step_refl)

lemma reply_follows:
  assumes "distinct (map tk_id rs)"
  shows "rows_follow rs (fst (add_message_sync nt rs tid tenant now rs))"
proof (cases "fst (add_message_sync nt rs tid tenant now rs) = rs")
  case False
  then obtain u m st where f: "List.find (\<lambda>r. tk_id r = u \<and> tk_tenant r = tenant) rs = Some m" and st: "status_of (tk_status m) = Some st"
    and e: "fst (add_message_sync nt rs tid tenant now rs) = upd (\<lambda>r. tk_id r = tk_id m)
       (\<lambda>r. (if st = WAITING_CUSTOMER then r\<lparr>tk_status := status_value IN_PROGRESS\<rparr> else r)\<lparr>tk_updated_at := now\<rparr>) rs"
    by (rule reply_rows) (rule that)
  have m: "m \<in> set rs" using find_SomeD [OF f] by simp
  have only: "r = m" if "r \<in> set rs" "tk_id r = tk_id m" for r
    using assms that m by (auto simp: distinct_map inj_on_def)
  have edge: "IN_PROGRESS \<in> set (VALID_STATUS_TRANSITIONS WAITING_CUSTOMER)" by (simp add: VALID_STATUS_TRANSITIONS_def)
  have "row_step m ((if st = WAITING_CUSTOMER then m\<lparr>tk_status := status_value IN_PROGRESS\<rparr> else m)\<lparr>tk_updated_at := now\<rparr>)"
    using status_of_value [OF st] edge by (cases "st = WAITING_CUSTOMER") (auto simp: row_step_def)
  then show ?thesis unfolding e by (intro rows_follow_upd) (use only in blast)
qed simp

lemma sync_follows:
  "rows_follow rs (fst (transition_sync nt seen tid new tenant now rs))"
  "rows_follow rs (fst (transition_assigned_sync nt seen tid new actor scopes now rs))"
  using transition_follows by (auto simp: transition_sync_def transition_assigned_sync_def split: option.splits)

lemma op_follows:
  assumes "ticket_op s s'" and "distinct (map tk_id (sp_rows s))"
  shows "rows_follow (sp_rows s) (sp_rows s')"
  using assms
  by (cases rule: ticket_op.cases)
    (simp_all add: rows_of_ops insert_follows reply_follows assign_agent_def assign_agent_to_self_def assign_agent_sync_def
      assign_self_sync_def assign_follows transition_status_def transition_status_as_assignee_def sync_follows)

lemma row_step_valid: "row_step r r' \<Longrightarrow> row_valid r \<Longrightarrow> row_valid r'"
  by (auto simp: row_step_def row_valid_def)

lemma row_at_None: "row_at u rs = None \<longleftrightarrow> u \<notin> tk_id ` set rs"
  by (auto simp: row_at_def find_None_iff)

lemma follow_inv:
  assumes "rows_follow rs rs'" and "distinct (map tk_id rs)" and "\<forall>r\<in>set rs. row_valid r"
  shows "distinct (map tk_id rs') \<and> (\<forall>r\<in>set rs'. row_valid r)"
proof -
  obtain f where f: "\<forall>r\<in>set rs. row_step r (f r)"
    and c: "rs' = map f rs \<or> (\<exists>t. rs' = map f rs @ [ticket_to_model t] \<and> row_at (tk_id t) rs = None)"
    using assms(1) unfolding rows_follow_def by (elim exE conjE) (rule that)
  have i: "map tk_id (map f rs) = map tk_id rs" using f by (simp add: row_step_def)
  have v: "\<forall>r\<in>set (map f rs). row_valid r" using f assms(3) row_step_valid by auto
  from c show ?thesis
  proof
    assume "rs' = map f rs"
    with i v assms(2) show ?thesis by (simp del: map_map)
  next
    assume "\<exists>t. rs' = map f rs @ [ticket_to_model t] \<and> row_at (tk_id t) rs = None"
    then obtain t where t: "rs' = map f rs @ [ticket_to_model t]" "row_at (tk_id t) rs = None" by blast
    have "distinct (map tk_id rs')"
      using t i assms(2) unfolding t(1) map_append i by (simp add: row_at_None ticket_to_model_def)
    moreover have "row_valid (ticket_to_model t)" by (simp add: row_valid_def ticket_to_model_def)
    ultimately show ?thesis using t v by auto
  qed
qed

lemma reach_inv: "ticket_reach s \<Longrightarrow> ticket_inv s"
proof (induction rule: ticket_reach.induct)
  case (reach_op s s')
  have "rows_follow (sp_rows s) (sp_rows s')" by (rule op_follows) (use reach_op in \<open>simp_all add: ticket_inv_def\<close>)
  then show ?case using follow_inv reach_op.IH unfolding ticket_inv_def by blast
qed (simp add: ticket_inv_def)

lemma follow_row:
  assumes "rows_follow rs rs'" and "row_at u rs = Some r"
  shows "\<exists>r'. row_at u rs' = Some r' \<and> row_step r r'"
proof -
  obtain f where f: "\<forall>r\<in>set rs. row_step r (f r)"
    and c: "rs' = map f rs \<or> (\<exists>t. rs' = map f rs @ [ticket_to_model t] \<and> row_at (tk_id t) rs = None)"
    using assms(1) unfolding rows_follow_def by (elim exE conjE) (rule that)
  have "row_at u (map f rs) = Some (f r)"
    using f assms(2) by (induction rs) (auto simp: row_at_def row_step_def split: if_splits)
  moreover have "row_step r (f r)" using f row_at_id [OF assms(2)] by blast
  ultimately show ?thesis using c by (auto simp: row_at_append)
qed

section \<open>Who may change a ticket\<close>

lemma upd_row_at:
  assumes "\<And>r. tk_id (f r) = tk_id r" and "row_at u (upd p f rs) \<noteq> row_at u rs"
  obtains r where "row_at u rs = Some r" "p r" "row_at u (upd p f rs) = Some (f r)"
  using assms by (cases "row_at u rs") (auto split: if_splits)

lemma assignee_changes:
  assumes "row_at u (fst (transition_assigned_sync nt seen tid new actor scopes now rs)) \<noteq> row_at u rs"
  shows "\<exists>r. row_at u rs = Some r \<and> coerce_uuid tid = Some u \<and> tk_tenant r \<in> scopes \<and> tk_agent r = Some actor"
proof -
  have ne: "fst (transition_assigned_sync nt seen tid new actor scopes now rs) \<noteq> rs" using assms by auto
  have rd: "tx_read nt = PgOk" using ne by (auto simp: transition_assigned_sync_def split: if_splits)
  obtain v m where v: "coerce_uuid tid = Some v" "row_at v seen = Some m"
    using ne rd by (auto simp: transition_assigned_sync_def bind_eq_Some_conv split: option.splits)
  have a: "tk_tenant m \<in> scopes" "tk_agent m = Some actor" using ne rd v by (auto simp: transition_assigned_sync_def split: if_splits)
  have e: "fst (transition_assigned_sync nt seen tid new actor scopes now rs) = fst (transition_from nt m (Some actor) new now rs)"
    using rd v a by (simp add: transition_assigned_sync_def)
  obtain st where t: "fst (transition_from nt m (Some actor) new now rs) = upd (cas_hit m (Some actor)) (transition_row new now) rs"
    using ne unfolding e by (rule transition_rows) (rule that)
  obtain r where r: "row_at u rs = Some r" "cas_hit m (Some actor) r"
    using assms unfolding e t by (rule upd_row_at [rotated]) (auto intro: that)
  have "tk_id m = v" using row_at_id v by blast
  then show ?thesis using r v a row_at_id [OF r(1)] by (auto simp: cas_hit_def)
qed

lemma self_changes:
  assumes "row_at u (fst (assign_loaded nt mine seen tid actor now rs)) \<noteq> row_at u rs"
  shows "\<exists>r. row_at u rs = Some r \<and> coerce_uuid tid = Some u \<and> mine (tk_tenant r)
    \<and> row_at u (fst (assign_loaded nt mine seen tid actor now rs)) = Some (assign_row actor now r)"
proof -
  have ne: "fst (assign_loaded nt mine seen tid actor now rs) \<noteq> rs" using assms by auto
  obtain v m st where v: "coerce_uuid tid = Some v" "row_at v seen = Some m" "mine (tk_tenant m)"
    and e: "fst (assign_loaded nt mine seen tid actor now rs) = upd (cas_hit m None) (assign_row actor now) rs"
    using ne by (rule assign_rows) (rule that)
  obtain r where r: "row_at u rs = Some r" "cas_hit m None r" "row_at u (upd (cas_hit m None) (assign_row actor now) rs) = Some (assign_row actor now r)"
    using assms unfolding e by (rule upd_row_at [rotated]) (auto intro: that)
  have "tk_id m = v" using row_at_id v by blast
  then show ?thesis unfolding e using r v row_at_id [OF r(1)] by (auto simp: cas_hit_def)
qed

section \<open>Reading\<close>

lemma model_to_ticket_same:
  "model_to_ticket m = Inr t \<Longrightarrow> tk_tenant t = tk_tenant m \<and> tk_id t = tk_id m \<and> tk_status m = status_value (tk_status t)"
  by (auto simp: model_to_ticket_def dest: status_of_value split: option.splits prod.splits)

lemma all_tickets_same: "all_tickets rs = Inr ts \<Longrightarrow> map tk_id ts = map tk_id rs \<and> map tk_tenant ts = map tk_tenant rs"
  by (induction rs arbitrary: ts) (auto split: sum.splits dest: model_to_ticket_same)

lemma all_tickets_valid: "(\<forall>r\<in>set rs. row_valid r) \<Longrightarrow> \<exists>ts. all_tickets rs = Inr ts"
  by (induction rs) (auto simp: row_valid_def model_to_ticket_def split: sum.splits)

lemma page_rows_ok:
  assumes "1 \<le> page" "1 \<le> k" "(page - 1) * k < 2 ^ 63" "k < 2 ^ 63"
  shows "page_rows pg page k xs = Inr (take (nat k) (drop (nat ((page - 1) * k)) xs))"
proof -
  have n: "0 \<le> (page - 1) * k" using assms by simp
  then have "\<bar>(page - 1) * k\<bar> < 2 ^ 63" "\<bar>k\<bar> < 2 ^ 63" "\<not> (page - 1) * k < 0" "\<not> k < 0" using assms by linarith+
  then show ?thesis unfolding page_rows_def Let_def by (simp only: not_le [symmetric] if_False HOL.simp_thms)
qed

text \<open>Consecutive pages of a list make up the list.\<close>

lemma pages_append: "concat (map (\<lambda>i. take n (drop (i * n) xs)) [0..<k]) = take (k * n) xs"
  by (induction k) (simp_all add: take_add add.commute [of n] del: take_append)

section \<open>The text of an id\<close>

lemma hexval_hexchar: "d < 16 \<Longrightarrow> hexval (hexchar d) = Some d"
  by (auto simp: hexval_def hexchar_def Let_def)

lemma hexchar_neq:
  assumes "d < 16"
  shows "hexchar d \<noteq> CHR ''_''" "hexchar d \<noteq> CHR ''-''" "hexchar d \<noteq> CHR ''u''" "hexchar d \<noteq> CHR ''x''" "hexchar d \<noteq> CHR ''X''"
    "hexchar d \<noteq> CHR ''+''" "\<not> is_brace (hexchar d)" "\<not> is_ws (hexchar d)"
proof -
  have c: "(of_char (hexchar d) :: nat) = (if d < 10 then 48 + d else 87 + d)" using assms by (simp add: hexchar_def)
  have n: "hexchar d \<noteq> ch" if "(of_char ch :: nat) \<notin> {48..57} \<union> {97..102}" for ch
    using that c assms by (cases "d < 10") auto
  show "hexchar d \<noteq> CHR ''_''" "hexchar d \<noteq> CHR ''-''" "hexchar d \<noteq> CHR ''u''" "hexchar d \<noteq> CHR ''x''" "hexchar d \<noteq> CHR ''X''"
    "hexchar d \<noteq> CHR ''+''" "\<not> is_brace (hexchar d)" by (auto simp: is_brace_def n)
  show "\<not> is_ws (hexchar d)" using c assms by (simp add: is_ws_def)
qed

lemma remove_sub_none: "p \<noteq> [] \<Longrightarrow> hd p \<notin> set w \<Longrightarrow> remove_sub p w = w"
  by (induction p w rule: remove_sub.induct) (auto simp: neq_Nil_conv)

lemma dropWhile_none: "\<forall>c\<in>set w. \<not> p c \<Longrightarrow> dropWhile p w = w"
  by (cases w) auto

lemma strip_none: "\<forall>c\<in>set w. \<not> is_ws c \<Longrightarrow> strip w = w"
  by (simp add: strip_def dropWhile_none)

lemma strip_braces_none: "\<forall>c\<in>set w. \<not> is_brace c \<Longrightarrow> strip_braces w = w"
  by (simp add: strip_braces_def dropWhile_none)

lemma hexpart_digits: "(\<forall>d\<in>set ds. d < 16) \<Longrightarrow> ds \<noteq> [] \<or> b \<Longrightarrow> hexpart b (map hexchar ds) = Some ds"
  by (induction ds arbitrary: b) (auto simp: hexval_hexchar hexchar_neq)

definition hexdigits :: "nat \<Rightarrow> nat list" where
  "hexdigits n = map (\<lambda>i. n div 16 ^ i mod 16) (rev [0..<32])"

lemma hex32_digits: "hex32 n = map hexchar (hexdigits n)" "length (hexdigits n) = 32" "\<forall>d\<in>set (hexdigits n). d < 16"
  by (auto simp: hex32_def hexdigits_def)

lemma hexnum_digits: "foldl (\<lambda>a d. 16 * a + d) ((n :: nat) div 16 ^ k) (map (\<lambda>i. n div 16 ^ i mod 16) (rev [0..<k])) = n"
proof (induction k)
  case (Suc k)
  have "16 * (n div 16 ^ Suc k) + n div 16 ^ k mod 16 = n div 16 ^ k"
    by (simp only: power_Suc2 div_mult2_eq mult_div_mod_eq)
  then show ?case using Suc by simp
qed simp

lemma hexnum_id: "n < 16 ^ 32 \<Longrightarrow> hexnum (hexdigits n) = n"
  using hexnum_digits [of n 32] unfolding hexnum_def hexdigits_def by (simp only: div_less)

lemma int16_hex:
  assumes "\<forall>d\<in>set ds. d < 16" and "2 \<le> length ds"
  shows "int16 (map hexchar ds) = Some (hexnum ds)"
proof -
  obtain a b r where ds: "ds = a # b # r" using assms(2) by (cases ds; cases "tl ds") auto
  have ab: "a < 16" "b < 16" using assms(1) ds by auto
  have st: "strip (map hexchar ds) = map hexchar ds" using assms(1) by (intro strip_none) (auto simp: hexchar_neq)
  have hp: "hexpart False (map hexchar ds) = Some ds" using assms by (intro hexpart_digits) auto
  have p: "take 1 (map hexchar ds) \<noteq> ''+''" using hexchar_neq [OF ab(1)] by (simp add: ds)
  have x: "take 2 (map hexchar ds) \<noteq> ''0x''" "take 2 (map hexchar ds) \<noteq> ''0X''" using hexchar_neq [OF ab(2)] by (simp_all add: ds)
  show ?thesis unfolding int16_def Let_def st by (simp only: p x if_False hp option.map HOL.simp_thms)
qed

lemma uuid_str_chars: "\<forall>c\<in>set (uuid_str n). c = CHR ''-'' \<or> (\<exists>d<16. c = hexchar d)"
proof -
  have h: "\<forall>c\<in>set (hex32 n). \<exists>d<16. c = hexchar d" using hex32_digits [of n] by auto
  then show ?thesis by (auto simp: uuid_str_def Let_def dest!: in_set_takeD in_set_dropD)
qed

lemma uuid_str_filter: "filter (\<lambda>c. c \<noteq> CHR ''-'') (uuid_str n) = hex32 n"
proof -
  have f: "filter (\<lambda>c. c \<noteq> CHR ''-'') w = w" if "set w \<subseteq> set (hex32 n)" for w
  proof (intro filter_True ballI)
    fix c assume "c \<in> set w"
    with that have "c \<in> hexchar ` set (hexdigits n)" unfolding hex32_digits(1) set_map by blast
    then obtain d where "d \<in> set (hexdigits n)" "c = hexchar d" by blast
    then show "c \<noteq> CHR ''-''" using hex32_digits(3) [of n] hexchar_neq(2) [of d] by simp
  qed
  have s: "set (take i (drop j (hex32 n))) \<subseteq> set (hex32 n)" "set (drop j (hex32 n)) \<subseteq> set (hex32 n)" "set (take i (hex32 n)) \<subseteq> set (hex32 n)" for i j
    by (auto dest: in_set_takeD in_set_dropD)
  have d: "filter (\<lambda>c. c \<noteq> CHR ''-'') ''-'' = []" by simp
  have j: "take 8 h @ take 4 (drop 8 h) @ take 4 (drop 12 h) @ take 4 (drop 16 h) @ drop 20 h = h" for h :: string
  proof -
    have "take 4 (drop 16 h) @ drop 20 h = drop 16 h" using append_take_drop_id [of 4 "drop 16 h"] by simp
    moreover have "take 4 (drop 12 h) @ drop 16 h = drop 12 h" using append_take_drop_id [of 4 "drop 12 h"] by simp
    moreover have "take 4 (drop 8 h) @ drop 12 h = drop 8 h" using append_take_drop_id [of 4 "drop 8 h"] by simp
    ultimately show ?thesis by simp
  qed
  show ?thesis unfolding uuid_str_def Let_def filter_append d f [OF s(1)] f [OF s(2)] f [OF s(3)] append_Nil by (rule j)
qed

lemma coerce_uuid_str:
  assumes "n < 16 ^ 32"
  shows "coerce_uuid (uuid_str n) = Some n"
proof -
  have u: "CHR ''u'' \<notin> set (uuid_str n)" 
  proof
    assume "CHR ''u'' \<in> set (uuid_str n)"
    then have "CHR ''u'' = CHR ''-'' \<or> (\<exists>d<16. CHR ''u'' = hexchar d)" by (rule uuid_str_chars [THEN bspec])
    then have "\<exists>d<16. CHR ''u'' = hexchar d" by simp
    then show False using hexchar_neq(3) by metis
  qed
  have b: "\<forall>c\<in>set (uuid_str n). \<not> is_brace c" 
  proof
    fix c assume "c \<in> set (uuid_str n)"
    then have "c = CHR ''-'' \<or> (\<exists>d<16. c = hexchar d)" by (rule uuid_str_chars [THEN bspec])
    then show "\<not> is_brace c" by (elim disjE exE conjE) (simp_all add: hexchar_neq(7), simp add: is_brace_def)
  qed
  have r: "remove_sub ''urn:'' (uuid_str n) = uuid_str n" "remove_sub ''uuid:'' (uuid_str n) = uuid_str n"
    using u by (intro remove_sub_none; simp)+
  show ?thesis
    unfolding coerce_uuid_def Let_def r strip_braces_none [OF b] uuid_str_filter
    unfolding hex32_digits(1) using hex32_digits(2,3) [of n] int16_hex [of "hexdigits n"] hexnum_id [OF assms] by simp
qed

section \<open>Examples\<close>

definition no_support :: support where
  "no_support = \<lparr>sp_rows = [], sp_messages = (\<lambda>_. []), sp_participants = (\<lambda>_. []), sp_attachments = (\<lambda>_. []), sp_csat = (\<lambda>_. None),
     sp_rooms = \<lparr>rm_rooms = [], rm_users = []\<rparr>, sp_sent = []\<rparr>"

definition net_ok :: tx_net where "net_ok = \<lparr>tx_read = PgOk, tx_write = PgOk, tx_refresh = PgOk\<rparr>"

definition acme :: tenant_context where "acme = \<lparr>tc_tenant = ''acme'', tc_actor = ''tenant:acme''\<rparr>"

definition help_req :: create_req where
  "help_req = \<lparr>cr_subject = ''help'', cr_body = [], cr_priority = P_MEDIUM, cr_context_type = None, cr_context_id = None, cr_context_data = []\<rparr>"

definition one_ticket :: support where "one_ticket = fst (create_ticket True net_ok 7 (0, 1) 10 help_req acme no_support)"

definition row7 :: ticket_row where "row7 = ticket_to_model (new_ticket 7 10 help_req acme)"

lemma one_ticket_rows: "sp_rows one_ticket = [row7]"
  by (simp add: one_ticket_def rows_create insert_ticket_sync_def Let_def no_support_def net_ok_def row_fits_def ticket_to_model_def
      new_ticket_def help_req_def acme_def row_at_def db_commit_def row7_def)

lemma one_ticket_reach: "ticket_reach one_ticket"
  unfolding one_ticket_def by (rule reach_op [OF reach_init op_create]) (simp add: no_support_def)

lemma row7_at: "row_at 7 (sp_rows one_ticket) = Some row7"
  by (simp add: one_ticket_rows row_at_def row7_def ticket_to_model_def new_ticket_def)

section \<open>Claims\<close>



text \<open>The pages of an agent's list cover its tickets. For a table clients can produce and any page size, there is one list
  of the tickets in the agent's scopes, ordered by the time of creation, without repetition and complete, of which every page is the
  corresponding segment; each page reports its length as the total.\<close>

theorem agent_pages_cover:
  assumes "ticket_reach s" and "scopes \<noteq> {}" and "1 \<le> n" and "int k * int n < 2 ^ 63"
  shows "\<exists>ts :: ticket_row list. distinct (map tk_id ts) \<and> tk_id ` set ts = tk_id ` {r \<in> set (sp_rows s). tk_tenant r \<in> scopes}
    \<and> (\<forall>i<k. \<exists>l. list_tickets_for_scopes_sync pg PgOk scopes None None (int i + 1) (int n) (sp_rows s) = Inr l
          \<and> map tk_id (tl_tickets l) = map tk_id (take n (drop (i * n) ts)) \<and> tl_total l = length ts)
    \<and> sorted (map tk_created_at ts)"
proof -
  let ?q = "filter (\<lambda>r. tk_tenant r \<in> scopes) (sp_rows s)"
  let ?ts = "sort_key tk_created_at (sort_key tk_id ?q)"
  have inv: "ticket_inv s" by (rule reach_inv [OF assms(1)])
  have d: "distinct (map tk_id ?ts)"
    using inv by (auto simp: ticket_inv_def distinct_map inj_on_def)
  have p: "\<exists>l. list_tickets_for_scopes_sync pg PgOk scopes None None (int i + 1) (int n) (sp_rows s) = Inr l
      \<and> map tk_id (tl_tickets l) = map tk_id (take n (drop (i * n) ?ts)) \<and> tl_total l = length ?ts" if "i < k" for i
  proof -
    have "int i * int n \<le> int k * int n" using that by (intro mult_right_mono) auto
    moreover have "1 * int n \<le> int k * int n" using that by (intro mult_right_mono) auto
    ultimately have b: "(int i + 1 - 1) * int n < 2 ^ 63" "int n < 2 ^ 63" using assms(4) by simp_all
    have "nat ((int i + 1 - 1) * int n) = i * n" by (simp add: nat_mult_distrib)
    then have pr: "page_rows pg (int i + 1) (int n) ?ts = Inr (take n (drop (i * n) ?ts))"
      using page_rows_ok [of "int i + 1" "int n" pg ?ts, OF _ _ b] assms(3) by simp
    have "\<forall>r\<in>set (take n (drop (i * n) ?ts)). row_valid r"
      using inv by (auto simp: ticket_inv_def dest!: in_set_takeD in_set_dropD)
    then obtain l where l: "all_tickets (take n (drop (i * n) ?ts)) = Inr l" using all_tickets_valid by blast
    show ?thesis using assms(2) pr l all_tickets_same [OF l]
      by (simp add: list_tickets_for_scopes_sync_def with_status_def list_page_def)
  qed
  show ?thesis by (rule exI [of _ ?ts]) (use d p in auto)
qed

theorem agent_pages_cover_witness:
  "\<exists>ts. distinct (map tk_id ts) \<and> tk_id ` set ts = tk_id ` {r \<in> set (sp_rows one_ticket). tk_tenant r \<in> {''acme''}}
    \<and> (\<forall>i<1. \<exists>l. list_tickets_for_scopes_sync True PgOk {''acme''} None None (int i + 1) (int 20) (sp_rows one_ticket) = Inr l
          \<and> map tk_id (tl_tickets l) = map tk_id (take 20 (drop (i * 20) ts)) \<and> tl_total l = length ts)
    \<and> sorted (map tk_created_at (ts :: ticket_row list))"
  by (rule agent_pages_cover [OF one_ticket_reach]) simp_all

text \<open>The text of a ticket's id leads back to the ticket: \<open>_coerce_uuid\<close> reads what \<open>str(UUID)\<close> writes.\<close>

theorem uuid_text_roundtrip: "n < 16 ^ 32 \<Longrightarrow> coerce_uuid (uuid_str n) = Some n"
  by (rule coerce_uuid_str)

theorem uuid_text_roundtrip_witness: "coerce_uuid (uuid_str 7) = Some 7"
  by (rule uuid_text_roundtrip) simp

text \<open>A ticket survives its row: \<open>_model_to_ticket\<close> reads back what \<open>_ticket_to_model\<close> stores.\<close>

theorem ticket_row_roundtrip: "model_to_ticket (ticket_to_model t) = Inr t"
  by (simp add: model_to_ticket_def ticket_to_model_def)

text \<open>Nobody is shown an internal message. Whatever is stored, the messages of a ticket's detail, for tenants and for agents,
  are neither marked internal nor internal notes.\<close>

theorem internal_never_shown:
  assumes "get_ticket_detail oc tid tc s = Inr (Some d) \<or> agent_get_ticket_detail oc tid scopes s = Inr (Some d)"
  shows "\<forall>m\<in>set (td_messages d). \<not> ms_internal m \<and> ms_type m \<noteq> INTERNAL_NOTE"
proof -
  have v: "\<forall>m\<in>set (get_visible_messages tid (enum_value participant_role_values TENANT_USER) 100 s). \<not> ms_internal m \<and> ms_type m \<noteq> INTERNAL_NOTE"
    by (auto simp: get_visible_messages_def Let_def enum_value_def participant_role_values_def message_visible_def)
  have "\<forall>m\<in>set (td_messages d). \<not> ms_internal m \<and> ms_type m \<noteq> INTERNAL_NOTE" if "detail_of tid r s = Inr (Some d)" for r
    using that v by (cases r) (auto simp: detail_of_def)
  then show ?thesis using assms unfolding get_ticket_detail_def agent_get_ticket_detail_def by blast
qed

section \<open>Corner cases\<close>

text \<open>
  A reply writes the status it decided on when it read the ticket: if an agent has closed the ticket since, the reply puts
  it back to \<open>in_progress\<close>, which is not an edge of the graph.
\<close>

lemma late_reply_reopens:
  assumes "coerce_uuid tid = Some u" "row_at u seen = Some m" "tk_tenant m = tenant" "tk_status m = status_value WAITING_CUSTOMER"
    and "distinct (map tk_id seen)" and "row_at u rs = Some r" "tk_status r = status_value CLOSED"
  shows "\<exists>r'. row_at u (fst (add_message_sync net_ok seen tid tenant now rs)) = Some r' \<and> tk_status r' = status_value IN_PROGRESS
    \<and> IN_PROGRESS \<notin> set (VALID_STATUS_TRANSITIONS CLOSED)"
proof -
  have m: "m \<in> set seen" "tk_id m = u" using row_at_id [OF assms(2)] by auto
  have f: "List.find (\<lambda>r. tk_id r = u \<and> tk_tenant r = tenant) seen = Some m"
    using find_tenant [OF assms(2)] assms(3) by simp
  show ?thesis using assms m f row_at_id [OF assms(6)]
    by (simp add: add_message_sync_def net_ok_def Let_def db_commit_def VALID_STATUS_TRANSITIONS_def)
qed

text \<open>The dictionaries are keyed by the text of the id: asked for by another spelling of it, a ticket has no messages.\<close>

lemma coerce_hex32:
  assumes "n < 16 ^ 32"
  shows "coerce_uuid (hex32 n) = Some n"
proof -
  have c: "c \<noteq> CHR ''u'' \<and> c \<noteq> CHR ''-'' \<and> \<not> is_brace c" if "c \<in> set (hex32 n)" for c
  proof -
    obtain d where "d \<in> set (hexdigits n)" "c = hexchar d" using \<open>c \<in> set (hex32 n)\<close> unfolding hex32_digits(1) set_map by (rule imageE) (rule that)
    then show ?thesis using hex32_digits(3) [of n] hexchar_neq(2,3,7) [of d] by simp
  qed
  have r: "remove_sub ''urn:'' (hex32 n) = hex32 n" "remove_sub ''uuid:'' (hex32 n) = hex32 n"
    by (rule remove_sub_none; use c in force)+
  have b: "strip_braces (hex32 n) = hex32 n" using c by (intro strip_braces_none) simp
  have f: "filter (\<lambda>c. c \<noteq> CHR ''-'') (hex32 n) = hex32 n" using c by (intro filter_True) simp
  show ?thesis unfolding coerce_uuid_def Let_def r b f
    unfolding hex32_digits(1) using hex32_digits(2,3) [of n] int16_hex [of "hexdigits n"] hexnum_id [OF assms] by simp
qed

lemma other_spelling_no_messages:
  assumes "n < 16 ^ 32" and "row_at n (sp_rows s) = Some r" and "row_valid r" and "tk_tenant r = tc_tenant tc" and "sp_messages s (hex32 n) = []"
  shows "\<exists>d. get_ticket_detail PgOk (hex32 n) tc s = Inr (Some d) \<and> tk_id (td_ticket d) = n \<and> td_messages d = []"
proof -
  have f: "List.find (\<lambda>r. tk_id r = n \<and> tk_tenant r = tc_tenant tc) (sp_rows s) = Some r"
    using find_tenant [OF assms(2)] assms(4) by simp
  obtain t where t: "model_to_ticket r = Inr t" using all_tickets_valid [of "[r]"] assms(3) by (auto split: sum.splits)
  show ?thesis using assms(5) f t coerce_hex32 [OF assms(1)] model_to_ticket_same [OF t] row_at_id [OF assms(2)]
    by (simp add: get_ticket_detail_def detail_of_def get_ticket_sync_def get_visible_messages_def get_messages_def Let_def py_last_def)
qed

text \<open>The last hundred messages are taken before the internal ones are left out, so internal notes push the others out of view.\<close>

lemma notes_hide_messages:
  assumes "length ns = 100" and "\<forall>m\<in>set ns. ms_internal m" and "sp_messages s tid = ms @ ns"
  shows "get_visible_messages tid (enum_value participant_role_values TENANT_USER) 100 s = []"
  using assms by (auto simp: get_visible_messages_def get_messages_def py_last_def Let_def enum_value_def participant_role_values_def
      message_visible_def filter_empty_conv)

text \<open>A note is sent to everyone in the room.\<close>

lemma note_is_broadcast:
  assumes "(uid, ws) \<in> set (room_of (sp_rooms s) (uuid_str u))"
  shows "\<exists>m. (ws, m) \<in> set (sp_sent (add_internal_note mid now u agent b s)) \<and> ms_internal m"
  using assms by (force simp: add_internal_note_def chat_add_def ws_broadcast_def Let_def)

text \<open>A page size of a negative number: refused by PostgreSQL, everything on SQLite.\<close>

lemma negative_page:
  "list_tickets_sync True PgOk tenant st 1 (- 1) rs = Inl DataError"
  "page_rows False 1 (- 1) xs = Inr xs"
  by (simp_all add: list_tickets_sync_def list_page_def page_rows_def Let_def)

lemma long_subject_raises:
  "500 < length (cr_subject q) \<Longrightarrow> create_ticket True net_ok u mids now q tc s = (s, Inl DataError)"
  by (simp add: create_ticket_def insert_ticket_sync_def Let_def net_ok_def row_fits_def ticket_to_model_def new_ticket_def)

end
