(* ===== verification/SupportApi.thy ===== *)
theory SupportApi
  imports Tickets Admission
begin

text \<open>
  Support agents and the routes of the support chat: \<open>src/support_chat/identity.py\<close> (credentials, sessions and their
  revocation), \<open>src/support_chat/identity_admin.py\<close> (provisioning), \<open>src/support_chat/router.py\<close> (the gates and routes).

  The state has the four identity tables beside the state of \<open>Tickets\<close>. The digest, fresh tokens and identifiers, the
  clock (in microseconds) and the reading of an ISO date are arguments; widths of columns are not modelled here.

  Shown: an agent's request changes a ticket only with a live session of an active identity, the session's CSRF token, an
  allowed origin and a membership for the ticket's tenant, and a status only of its own ticket, along the graph; an
  identity that was deactivated never acts again; a revoked session stays revoked; a tenant's key never acts as an agent.
\<close>

section \<open>Identities\<close>

record identity_row =
  iy_id :: nat
  iy_subject :: string
  iy_display :: "string option"
  iy_active :: bool
  iy_version :: int
  iy_created :: int
  iy_updated :: int

record member_row =
  mb_id :: nat
  mb_identity :: nat
  mb_tenant :: string
  mb_role :: string
  mb_active :: bool
  mb_created :: int

record cred_row =
  cd_id :: nat
  cd_identity :: nat
  cd_hash :: string
  cd_expires :: int
  cd_revoked :: "int option"
  cd_created :: int
  cd_used :: "int option"

record session_row =
  ss_id :: nat
  ss_identity :: nat
  ss_hash :: string
  ss_csrf :: string
  ss_version :: int
  ss_issued :: int
  ss_expires :: int
  ss_revoked :: "int option"

record idents =
  ix_identities :: "identity_row list"
  ix_members :: "member_row list"
  ix_creds :: "cred_row list"
  ix_sessions :: "session_row list"

record support_principal =
  sp_actor :: string
  sp_identity :: string
  sp_roles :: "string set"
  sp_tenant_ids :: "string set"
  sp_session :: string
  sp_version :: int
  sp_issued :: int
  sp_expires :: int

abbreviation SupportAuthError :: pyexc where "SupportAuthError \<equiv> OtherException ''SupportAuthError''"
abbreviation SupportCredentialError :: pyexc where "SupportCredentialError \<equiv> OtherException ''SupportCredentialError''"
abbreviation SupportSessionError :: pyexc where "SupportSessionError \<equiv> OtherException ''SupportSessionError''"

definition SUPPORT_AGENT_ROLE :: string where "SUPPORT_AGENT_ROLE = ''support_agent''"

text \<open>\<open>SESSION_TTL_SECONDS\<close> in microseconds.\<close>

definition SESSION_TTL_SECONDS :: int where "SESSION_TTL_SECONDS = 3600 * 1000000"

definition allowed_origins :: "string option \<Rightarrow> string list" where
  "allowed_origins env = filter (\<lambda>w. w \<noteq> []) (map strip (split_commas (opt_or env [])))"

definition origin_allowed :: "string option \<Rightarrow> string \<Rightarrow> bool" where
  "origin_allowed env origin = (allowed_origins env \<noteq> [] \<and> origin \<noteq> [] \<and> origin \<in> set (allowed_origins env))"

definition active_memberships :: "nat \<Rightarrow> idents \<Rightarrow> member_row list" where
  "active_memberships i a = filter (\<lambda>m. mb_identity m = i \<and> mb_active m \<and> mb_role m = SUPPORT_AGENT_ROLE) (ix_members a)"

definition identity_at :: "nat \<Rightarrow> idents \<Rightarrow> identity_row option" where
  "identity_at i a = List.find (\<lambda>r. iy_id r = i) (ix_identities a)"

definition session_by_hash :: "string \<Rightarrow> idents \<Rightarrow> session_row option" where
  "session_by_hash d a = List.find (\<lambda>r. ss_hash r = d) (ix_sessions a)"

definition build_principal :: "identity_row \<Rightarrow> session_row \<Rightarrow> member_row list \<Rightarrow> support_principal result" where
  "build_principal iy ss ms =
     (let ts = set (filter (\<lambda>t. t \<noteq> []) (map (\<lambda>m. strip (mb_tenant m)) ms))
      in if ts = {} then Inl SupportSessionError
         else Inr \<lparr>sp_actor = ''support_agent:'' @ uuid_str (iy_id iy), sp_identity = uuid_str (iy_id iy), sp_roles = {SUPPORT_AGENT_ROLE},
                   sp_tenant_ids = ts, sp_session = uuid_str (ss_id ss), sp_version = ss_version ss, sp_issued = ss_issued ss,
                   sp_expires = ss_expires ss\<rparr>)"

text \<open>
  \<open>login\<close>: the fresh session and CSRF tokens and the id of the new row are arguments. A commit on which the hash of the
  session is already there violates its unique index.
\<close>

definition new_session :: "(string \<Rightarrow> string) \<Rightarrow> int \<Rightarrow> string \<times> string \<times> nat \<Rightarrow> identity_row \<Rightarrow> session_row" where
  "new_session dig now fresh iy =
     \<lparr>ss_id = snd (snd fresh), ss_identity = iy_id iy, ss_hash = dig (fst fresh), ss_csrf = dig (fst (snd fresh)), ss_version = iy_version iy,
      ss_issued = now, ss_expires = now + SESSION_TTL_SECONDS, ss_revoked = None\<rparr>"

definition open_session :: "cred_row \<Rightarrow> int \<Rightarrow> session_row \<Rightarrow> idents \<Rightarrow> idents" where
  "open_session c now ss a =
     a\<lparr>ix_sessions := ix_sessions a @ [ss], ix_creds := Accounts.upd (\<lambda>r. cd_id r = cd_id c) (\<lambda>r. r\<lparr>cd_used := Some now\<rparr>) (ix_creds a)\<rparr>"

definition login_sync ::
  "(string \<Rightarrow> string) \<Rightarrow> pg_outcome \<times> pg_outcome \<Rightarrow> int \<Rightarrow> string \<times> string \<times> nat \<Rightarrow> string \<Rightarrow> idents \<Rightarrow> idents \<times> (support_principal \<times> string \<times> string) result" where
  "login_sync dig oc now fresh raw a =
     (if raw = [] then (a, Inl SupportCredentialError)
      else if fst oc \<noteq> PgOk then (a, Inl OperationalError)
      else case List.find (\<lambda>c. cd_hash c = dig raw) (ix_creds a) of
        None \<Rightarrow> (a, Inl SupportCredentialError)
      | Some c \<Rightarrow>
          if cd_revoked c \<noteq> None then (a, Inl SupportCredentialError)
          else if cd_expires c \<le> now then (a, Inl SupportCredentialError)
          else case identity_at (cd_identity c) a of
            None \<Rightarrow> (a, Inl SupportCredentialError)
          | Some iy \<Rightarrow>
              if \<not> iy_active iy then (a, Inl SupportCredentialError)
              else if active_memberships (iy_id iy) a = [] then (a, Inl SupportCredentialError)
              else let ss = new_session dig now fresh iy; a' = open_session c now ss a
                   in if snd oc = PgDown then (a, Inl OperationalError)
                      else if ss_hash ss \<in> ss_hash ` set (ix_sessions a) \<or> ss_id ss \<in> ss_id ` set (ix_sessions a) then (a, Inl IntegrityError)
                      else if snd oc = PgLost then (a', Inl OperationalError)
                      else (a', map_sum id (\<lambda>p. (p, fst fresh, fst (snd fresh))) (build_principal iy ss (active_memberships (iy_id iy) a))))"

definition authenticate_session_sync :: "(string \<Rightarrow> string) \<Rightarrow> pg_outcome \<Rightarrow> int \<Rightarrow> string option \<Rightarrow> idents \<Rightarrow> support_principal result" where
  "authenticate_session_sync dig oc now raw a =
     (if \<not> truthy raw then Inl SupportSessionError
      else if oc \<noteq> PgOk then Inl OperationalError
      else case session_by_hash (dig (the raw)) a of
        None \<Rightarrow> Inl SupportSessionError
      | Some ss \<Rightarrow>
          if ss_revoked ss \<noteq> None then Inl SupportSessionError
          else if ss_expires ss \<le> now then Inl SupportSessionError
          else case identity_at (ss_identity ss) a of
            None \<Rightarrow> Inl SupportSessionError
          | Some iy \<Rightarrow>
              if \<not> iy_active iy then Inl SupportSessionError
              else if ss_version ss \<noteq> iy_version iy then Inl SupportSessionError
              else if active_memberships (iy_id iy) a = [] then Inl SupportSessionError
              else build_principal iy ss (active_memberships (iy_id iy) a))"

definition revoke_where :: "(session_row \<Rightarrow> bool) \<Rightarrow> int \<Rightarrow> session_row list \<Rightarrow> session_row list" where
  "revoke_where p now = Accounts.upd (\<lambda>r. p r \<and> ss_revoked r = None) (\<lambda>r. r\<lparr>ss_revoked := Some now\<rparr>)"

text \<open>A commit of the identity tables.\<close>

definition ix_commit :: "pg_outcome \<Rightarrow> idents \<Rightarrow> idents \<Rightarrow> 'b \<Rightarrow> idents \<times> 'b result" where
  "ix_commit oc a a' v =
     (case oc of PgOk \<Rightarrow> (a', Inr v) | PgDown \<Rightarrow> (a, Inl OperationalError) | PgLost \<Rightarrow> (a', Inl OperationalError))"

definition logout_sync :: "(string \<Rightarrow> string) \<Rightarrow> pg_outcome \<times> pg_outcome \<Rightarrow> int \<Rightarrow> string option \<Rightarrow> idents \<Rightarrow> idents \<times> bool result" where
  "logout_sync dig oc now raw a =
     (if \<not> truthy raw then (a, Inr False)
      else if fst oc \<noteq> PgOk then (a, Inl OperationalError)
      else case session_by_hash (dig (the raw)) a of
        None \<Rightarrow> (a, Inr False)
      | Some ss \<Rightarrow>
          if ss_revoked ss = None
          then ix_commit (snd oc) a (a\<lparr>ix_sessions := revoke_where (\<lambda>r. ss_id r = ss_id ss) now (ix_sessions a)\<rparr>) True
          else (a, Inr True))"

definition csrf_matches_sync :: "(string \<Rightarrow> string) \<Rightarrow> pg_outcome \<Rightarrow> string \<Rightarrow> string \<Rightarrow> idents \<Rightarrow> bool result" where
  "csrf_matches_sync dig oc raw sid a =
     (if raw = [] \<or> sid = [] then Inr False
      else case coerce_uuid sid of
        None \<Rightarrow> Inr False
      | Some u \<Rightarrow>
          if oc \<noteq> PgOk then Inl OperationalError
          else case List.find (\<lambda>r. ss_id r = u) (ix_sessions a) of
                 None \<Rightarrow> Inr False
               | Some ss \<Rightarrow> Inr (ss_csrf ss = dig raw))"

definition bump_row :: "int \<Rightarrow> identity_row \<Rightarrow> identity_row" where
  "bump_row now r = r\<lparr>iy_version := iy_version r + 1, iy_updated := now\<rparr>"

definition bump_session_version :: "pg_outcome \<times> pg_outcome \<Rightarrow> int \<Rightarrow> nat \<Rightarrow> idents \<Rightarrow> idents \<times> int result" where
  "bump_session_version oc now i a =
     (if fst oc \<noteq> PgOk then (a, Inl OperationalError)
      else case identity_at i a of
        None \<Rightarrow> (a, Inl SupportAuthError)
      | Some iy \<Rightarrow> ix_commit (snd oc) a (a\<lparr>ix_identities := Accounts.upd (\<lambda>r. iy_id r = i) (bump_row now) (ix_identities a)\<rparr>) (iy_version iy + 1))"

section \<open>Provisioning\<close>

fun clean_more :: "string list \<Rightarrow> string list \<Rightarrow> string list result" where
  "clean_more done [] = Inr done"
| "clean_more done (w # ws) =
     (if strip w = [] then Inl SupportAuthError
      else if strip w \<in> set done then Inl SupportAuthError
      else clean_more (done @ [strip w]) ws)"

definition clean_tenant_ids :: "string list \<Rightarrow> string list result" where
  "clean_tenant_ids ws = (case clean_more [] ws of Inl x \<Rightarrow> Inl x | Inr ts \<Rightarrow> if ts = [] then Inl SupportAuthError else Inr ts)"

definition clean_subject :: "string \<Rightarrow> string result" where
  "clean_subject w = (if strip w = [] then Inl SupportAuthError else Inr (strip w))"

text \<open>A day in microseconds, and the last instant of a \<open>datetime\<close>.\<close>

definition DAY :: int where "DAY = 86400 * 1000000"
definition MAX_INSTANT :: int where "MAX_INSTANT = 253402300799999999"

definition resolve_expiry :: "(string \<Rightarrow> int option) \<Rightarrow> int \<Rightarrow> int option \<Rightarrow> string option \<Rightarrow> int result" where
  "resolve_expiry fromiso now days ex =
     (if truthy ex then
        (case fromiso (the ex) of
           None \<Rightarrow> Inl SupportAuthError
         | Some t \<Rightarrow> if t \<le> now then Inl SupportAuthError else Inr t)
      else let d = (case days of None \<Rightarrow> 90 | Some d \<Rightarrow> d)
           in if d \<le> 0 then Inl SupportAuthError
              else if now + d * DAY > MAX_INSTANT then Inl (OtherException ''OverflowError'')
              else Inr (now + d * DAY))"

definition new_members :: "int \<Rightarrow> nat \<Rightarrow> nat \<Rightarrow> string list \<Rightarrow> member_row list" where
  "new_members now i m ts =
     map (\<lambda>(k, t). \<lparr>mb_id = m + k, mb_identity = i, mb_tenant = t, mb_role = SUPPORT_AGENT_ROLE, mb_active = True, mb_created = now\<rparr>)
       (zip [0..<length ts] ts)"

definition provisioned ::
  "(string \<Rightarrow> string) \<Rightarrow> int \<Rightarrow> nat \<times> nat \<times> nat \<times> string \<Rightarrow> string \<Rightarrow> string option \<Rightarrow> string list \<Rightarrow> int \<Rightarrow> idents \<Rightarrow> idents" where
  "provisioned dig now fresh subj disp ts expiry a =
     (case fresh of (i, m, c, raw) \<Rightarrow>
        a\<lparr>ix_identities := ix_identities a @
             [\<lparr>iy_id = i, iy_subject = subj, iy_display = disp, iy_active = True, iy_version = 1, iy_created = now, iy_updated = now\<rparr>],
          ix_members := ix_members a @ new_members now i m ts,
          ix_creds := ix_creds a @
             [\<lparr>cd_id = c, cd_identity = i, cd_hash = dig raw, cd_expires = expiry, cd_revoked = None, cd_created = now, cd_used = None\<rparr>]\<rparr>)"

text \<open>The fresh values: the identity, the first of the memberships, the credential's id and its text.\<close>

definition create_identity ::
  "(string \<Rightarrow> string) \<Rightarrow> (string \<Rightarrow> int option) \<Rightarrow> pg_outcome \<times> pg_outcome \<Rightarrow> int \<Rightarrow> nat \<times> nat \<times> nat \<times> string
   \<Rightarrow> string \<Rightarrow> string list \<Rightarrow> string option \<Rightarrow> int option \<Rightarrow> string option \<Rightarrow> idents \<Rightarrow> idents \<times> string result" where
  "create_identity dig fromiso oc now fresh subject tenants disp days ex a =
     (case clean_subject subject of
        Inl x \<Rightarrow> (a, Inl x)
      | Inr subj \<Rightarrow>
          (case clean_tenant_ids tenants of
             Inl x \<Rightarrow> (a, Inl x)
           | Inr ts \<Rightarrow>
               (case resolve_expiry fromiso now days ex of
                  Inl x \<Rightarrow> (a, Inl x)
                | Inr expiry \<Rightarrow>
                    if fst oc \<noteq> PgOk then (a, Inl OperationalError)
                    else if subj \<in> iy_subject ` set (ix_identities a) then (a, Inl SupportAuthError)
                    else if snd oc = PgDown then (a, Inl OperationalError)
                    else if fst fresh \<in> iy_id ` set (ix_identities a) \<or> dig (snd (snd (snd fresh))) \<in> cd_hash ` set (ix_creds a)
                    then (a, Inl IntegrityError)
                    else ix_commit (snd oc) a (provisioned dig now fresh subj disp ts expiry a) (snd (snd (snd fresh))))))"

definition by_subject :: "string \<Rightarrow> idents \<Rightarrow> identity_row option" where
  "by_subject subj a = List.find (\<lambda>r. iy_subject r = subj) (ix_identities a)"

definition revoke_creds :: "(cred_row \<Rightarrow> bool) \<Rightarrow> int \<Rightarrow> pg_outcome \<Rightarrow> idents \<Rightarrow> idents \<times> nat result" where
  "revoke_creds p now oc a =
     (let hit = (\<lambda>r. cd_revoked r = None \<and> p r)
      in ix_commit oc a (a\<lparr>ix_creds := Accounts.upd hit (\<lambda>r. r\<lparr>cd_revoked := Some now\<rparr>) (ix_creds a)\<rparr>) (length (filter hit (ix_creds a))))"

definition revoke_credential :: "pg_outcome \<times> pg_outcome \<Rightarrow> int \<Rightarrow> string option \<Rightarrow> string option \<Rightarrow> idents \<Rightarrow> idents \<times> nat result" where
  "revoke_credential oc now cid subject a =
     (if \<not> truthy cid \<and> \<not> truthy subject then (a, Inl SupportAuthError)
      else if truthy cid then
        (case coerce_uuid (the cid) of
           None \<Rightarrow> (a, Inl SupportCredentialError)
         | Some u \<Rightarrow> if fst oc \<noteq> PgOk then (a, Inl OperationalError) else revoke_creds (\<lambda>r. cd_id r = u) now (snd oc) a)
      else case clean_subject (the subject) of
             Inl x \<Rightarrow> (a, Inl x)
           | Inr subj \<Rightarrow>
               if fst oc \<noteq> PgOk then (a, Inl OperationalError)
               else case by_subject subj a of
                      None \<Rightarrow> (a, Inl SupportAuthError)
                    | Some iy \<Rightarrow> revoke_creds (\<lambda>r. cd_identity r = iy_id iy) now (snd oc) a)"

definition close_identity :: "(identity_row \<Rightarrow> identity_row) \<Rightarrow> int \<Rightarrow> identity_row \<Rightarrow> idents \<Rightarrow> idents" where
  "close_identity f now iy a =
     a\<lparr>ix_identities := Accounts.upd (\<lambda>r. iy_id r = iy_id iy) (\<lambda>r. f (bump_row now r)) (ix_identities a),
       ix_sessions := revoke_where (\<lambda>r. ss_identity r = iy_id iy) now (ix_sessions a)\<rparr>"

definition close_by_subject :: "(identity_row \<Rightarrow> identity_row) \<Rightarrow> pg_outcome \<times> pg_outcome \<Rightarrow> int \<Rightarrow> string \<Rightarrow> idents \<Rightarrow> idents \<times> identity_row result" where
  "close_by_subject f oc now subject a =
     (case clean_subject subject of
        Inl x \<Rightarrow> (a, Inl x)
      | Inr subj \<Rightarrow>
          if fst oc \<noteq> PgOk then (a, Inl OperationalError)
          else case by_subject subj a of
                 None \<Rightarrow> (a, Inl SupportAuthError)
               | Some iy \<Rightarrow> ix_commit (snd oc) a (close_identity f now iy a) iy)"

definition revoke_sessions :: "pg_outcome \<times> pg_outcome \<Rightarrow> int \<Rightarrow> string \<Rightarrow> idents \<Rightarrow> idents \<times> identity_row result" where
  "revoke_sessions = close_by_subject id"

definition deactivate_identity :: "pg_outcome \<times> pg_outcome \<Rightarrow> int \<Rightarrow> string \<Rightarrow> idents \<Rightarrow> idents \<times> identity_row result" where
  "deactivate_identity = close_by_subject (\<lambda>r. r\<lparr>iy_active := False\<rparr>)"

section \<open>Gates\<close>

record sup_conf =
  uc_site :: site
  uc_admin :: "string option"
  uc_verified :: "string \<Rightarrow> bool"
  uc_dig :: "string \<Rightarrow> string"
  uc_origins :: "string option"
  uc_pg :: bool

record sup_req =
  rq_cookie :: "string option"
  rq_origin :: "string option"
  rq_csrf :: "string option"
  rq_key :: "string option"

definition require_allowed_origin :: "sup_conf \<Rightarrow> sup_req \<Rightarrow> api_error + unit" where
  "require_allowed_origin cf rq =
     (let og = strip (opt_or (rq_origin rq) [])
      in if og = [] \<or> \<not> origin_allowed (uc_origins cf) og then Inl (Http 403 ''Origin not allowed'') else Inr ())"

definition require_csrf :: "sup_conf \<Rightarrow> pg_outcome \<Rightarrow> sup_req \<Rightarrow> support_principal \<Rightarrow> idents \<Rightarrow> api_error + unit" where
  "require_csrf cf oc rq p a =
     (if \<not> truthy (rq_csrf rq) then Inl (Http 403 ''Missing CSRF token'')
      else case csrf_matches_sync (uc_dig cf) oc (the (rq_csrf rq)) (sp_session p) a of
             Inl x \<Rightarrow> Inl (Crash x)
           | Inr b \<Rightarrow> if b then Inr () else Inl (Http 403 ''Invalid CSRF token''))"

definition tenant_context_dep :: "sup_conf \<Rightarrow> sup_req \<Rightarrow> api_error + tenant_context" where
  "tenant_context_dep cf rq =
     (case verify_api_key (uc_site cf) (uc_admin cf) (uc_verified cf) (rq_key rq) of
        Inl x \<Rightarrow> Inl x
      | Inr t \<Rightarrow> (case from_principal (Some t) of Inl _ \<Rightarrow> Inl (Http 401 ''Invalid API key'') | Inr tc \<Rightarrow> Inr tc))"

definition optional_tenant_principal :: "sup_conf \<Rightarrow> sup_req \<Rightarrow> api_error + string option" where
  "optional_tenant_principal cf rq =
     (if \<not> truthy (rq_key rq) then Inr None
      else map_sum id Some (verify_api_key (uc_site cf) (uc_admin cf) (uc_verified cf) (rq_key rq)))"

text \<open>Errors of the authentication, which is a \<open>SupportAuthError\<close> or an error of the database.\<close>

definition auth_error :: "string \<Rightarrow> pyexc \<Rightarrow> api_error" where
  "auth_error w x = (if x \<in> {SupportAuthError, SupportCredentialError, SupportSessionError} then Http 401 w else Crash x)"

definition session_principal :: "sup_conf \<Rightarrow> pg_outcome \<Rightarrow> int \<Rightarrow> sup_req \<Rightarrow> idents \<Rightarrow> api_error + support_principal" where
  "session_principal cf oc now rq a =
     map_sum (auth_error ''Invalid support session'') id (authenticate_session_sync (uc_dig cf) oc now (rq_cookie rq) a)"

definition support_agent_read :: "sup_conf \<Rightarrow> pg_outcome \<Rightarrow> int \<Rightarrow> sup_req \<Rightarrow> idents \<Rightarrow> api_error + support_principal" where
  "support_agent_read cf oc now rq a =
     (case optional_tenant_principal cf rq of
        Inl x \<Rightarrow> Inl x
      | Inr tp \<Rightarrow>
          if truthy (rq_cookie rq) \<and> tp \<noteq> None then Inl (Http 400 ''Present either a support session or an API key, not both'')
          else if truthy (rq_cookie rq) then session_principal cf oc now rq a
          else if tp \<noteq> None then Inl (Http 403 ''This operation requires a trusted support role'')
          else Inl (Http 401 ''Support session or X-API-Key required''))"

definition support_agent :: "sup_conf \<Rightarrow> pg_outcome \<times> pg_outcome \<Rightarrow> int \<Rightarrow> sup_req \<Rightarrow> idents \<Rightarrow> api_error + support_principal" where
  "support_agent cf oc now rq a =
     (case optional_tenant_principal cf rq of
        Inl x \<Rightarrow> Inl x
      | Inr tp \<Rightarrow>
          if truthy (rq_cookie rq) \<and> tp \<noteq> None then Inl (Http 400 ''Present either a support session or an API key, not both'')
          else if truthy (rq_cookie rq) then
            (case session_principal cf (fst oc) now rq a of
               Inl x \<Rightarrow> Inl x
             | Inr p \<Rightarrow>
                 (case require_allowed_origin cf rq of
                    Inl x \<Rightarrow> Inl x
                  | Inr _ \<Rightarrow> (case require_csrf cf (snd oc) rq p a of Inl x \<Rightarrow> Inl x | Inr _ \<Rightarrow> Inr p)))
          else if tp \<noteq> None then Inl (Http 403 ''This operation requires a trusted support role'')
          else Inl (Http 401 ''Support session or X-API-Key required''))"

definition support_session_principal :: "sup_conf \<Rightarrow> pg_outcome \<Rightarrow> int \<Rightarrow> sup_req \<Rightarrow> idents \<Rightarrow> api_error + support_principal" where
  "support_session_principal cf oc now rq a =
     (if \<not> truthy (rq_cookie rq) then Inl (Http 401 ''Support session required'') else session_principal cf oc now rq a)"

section \<open>Routes\<close>

record desk =
  dk_ids :: idents
  dk_support :: support

definition value_error :: "nat \<Rightarrow> pyexc \<Rightarrow> api_error" where
  "value_error n x = (if x = ValueError \<or> x = TicketNotFoundError \<or> x = TicketStatusConflictError then Http n [] else Crash x)"

definition on_support :: "desk \<Rightarrow> (pyexc \<Rightarrow> api_error) \<Rightarrow> support \<times> 'b result \<Rightarrow> desk \<times> (api_error + 'b)" where
  "on_support d e r = (d\<lparr>dk_support := fst r\<rparr>, map_sum e id (snd r))"

definition create_ticket_route ::
  "sup_conf \<Rightarrow> tx_net \<Rightarrow> nat \<Rightarrow> nat \<times> nat \<Rightarrow> int \<Rightarrow> sup_req \<Rightarrow> create_req \<Rightarrow> desk \<Rightarrow> desk \<times> (api_error + support_ticket)" where
  "create_ticket_route cf nt u mids now rq q d =
     (case tenant_context_dep cf rq of
        Inl x \<Rightarrow> (d, Inl x)
      | Inr tc \<Rightarrow> on_support d (value_error 400) (create_ticket (uc_pg cf) nt u mids now q tc (dk_support d)))"

definition list_tickets_route :: "sup_conf \<Rightarrow> pg_outcome \<Rightarrow> sup_req \<Rightarrow> string option \<Rightarrow> int \<Rightarrow> int \<Rightarrow> desk \<Rightarrow> api_error + ticket_list" where
  "list_tickets_route cf oc rq st page n d =
     (case tenant_context_dep cf rq of
        Inl x \<Rightarrow> Inl x
      | Inr tc \<Rightarrow>
          if truthy st \<and> status_of (the st) = None then Inl (Crash ValueError)
          else map_sum Crash id (list_tickets_sync (uc_pg cf) oc (tc_tenant tc) (if truthy st then status_of (the st) else None) page n
                 (sp_rows (dk_support d))))"

definition or_404 :: "'b option result \<Rightarrow> api_error + 'b" where
  "or_404 r = (case r of Inl x \<Rightarrow> Inl (Crash x) | Inr None \<Rightarrow> Inl (Http 404 ''Ticket not found'') | Inr (Some v) \<Rightarrow> Inr v)"

definition get_ticket_route :: "sup_conf \<Rightarrow> pg_outcome \<Rightarrow> sup_req \<Rightarrow> string \<Rightarrow> desk \<Rightarrow> api_error + ticket_detail" where
  "get_ticket_route cf oc rq tid d =
     (case tenant_context_dep cf rq of Inl x \<Rightarrow> Inl x | Inr tc \<Rightarrow> or_404 (get_ticket_detail oc tid tc (dk_support d)))"

text \<open>The page and its size are validated by the framework: a page from 1, a size from 1 to 100.\<close>

definition agent_list_tickets_route ::
  "sup_conf \<Rightarrow> pg_outcome \<times> pg_outcome \<Rightarrow> int \<Rightarrow> sup_req \<Rightarrow> string option \<Rightarrow> string option \<Rightarrow> int \<Rightarrow> int \<Rightarrow> desk \<Rightarrow> api_error + ticket_list" where
  "agent_list_tickets_route cf oc now rq tenant st page n d =
     (case support_agent_read cf (fst oc) now rq (dk_ids d) of
        Inl x \<Rightarrow> Inl x
      | Inr p \<Rightarrow>
          if page < 1 \<or> n < 1 \<or> 100 < n then Inl (Http 422 [])
          else if (case tenant of None \<Rightarrow> False | Some t \<Rightarrow> t \<notin> sp_tenant_ids p) then Inl (Http 404 ''Ticket not found'')
          else if (case st of None \<Rightarrow> False | Some w \<Rightarrow> status_of w = None) then Inl (Http 422 ''Invalid ticket status'')
          else map_sum Crash id (list_tickets_for_scopes_sync (uc_pg cf) (snd oc) (sp_tenant_ids p) tenant
                 (Option.bind st status_of) page n (sp_rows (dk_support d))))"

definition agent_get_ticket_route :: "sup_conf \<Rightarrow> pg_outcome \<times> pg_outcome \<Rightarrow> int \<Rightarrow> sup_req \<Rightarrow> string \<Rightarrow> desk \<Rightarrow> api_error + ticket_detail" where
  "agent_get_ticket_route cf oc now rq tid d =
     (case support_agent_read cf (fst oc) now rq (dk_ids d) of
        Inl x \<Rightarrow> Inl x
      | Inr p \<Rightarrow> or_404 (agent_get_ticket_detail (snd oc) tid (sp_tenant_ids p) (dk_support d)))"

definition add_message_route ::
  "sup_conf \<Rightarrow> tx_net \<Rightarrow> ticket_row list \<Rightarrow> nat \<times> nat \<Rightarrow> int \<Rightarrow> sup_req \<Rightarrow> string \<Rightarrow> string \<Rightarrow> nat list \<Rightarrow> desk \<Rightarrow> desk \<times> (api_error + chat_message)" where
  "add_message_route cf nt seen mids now rq tid b as d =
     (case tenant_context_dep cf rq of
        Inl x \<Rightarrow> (d, Inl x)
      | Inr tc \<Rightarrow> on_support d (value_error 404) (add_message nt seen mids now tid b as tc (dk_support d)))"

definition assign_error :: "pyexc \<Rightarrow> api_error" where
  "assign_error x =
     (if x = TicketNotFoundError then Http 404 [] else if x = TicketStatusConflictError then Http 409 []
      else if x = ValueError then Http 404 [] else Crash x)"

definition assign_agent_route ::
  "sup_conf \<Rightarrow> pg_outcome \<times> pg_outcome \<Rightarrow> tx_net \<Rightarrow> ticket_row list \<Rightarrow> nat \<Rightarrow> int \<Rightarrow> sup_req \<Rightarrow> string \<Rightarrow> desk \<Rightarrow> desk \<times> (api_error + support_ticket)" where
  "assign_agent_route cf oc nt seen mid now rq tid d =
     (case support_agent cf oc now rq (dk_ids d) of
        Inl x \<Rightarrow> (d, Inl x)
      | Inr p \<Rightarrow> on_support d assign_error (assign_agent_to_self nt seen mid now tid (sp_actor p) (sp_tenant_ids p) (dk_support d)))"

definition transition_error :: "pyexc \<Rightarrow> api_error" where
  "transition_error x = (if x = TicketNotFoundError then Http 404 [] else value_error 400 x)"

definition transition_status_route ::
  "sup_conf \<Rightarrow> pg_outcome \<times> pg_outcome \<Rightarrow> tx_net \<Rightarrow> ticket_row list \<Rightarrow> nat \<Rightarrow> int \<Rightarrow> sup_req \<Rightarrow> string \<Rightarrow> string \<Rightarrow> desk \<Rightarrow> desk \<times> (api_error + support_ticket)" where
  "transition_status_route cf oc nt seen mid now rq tid st d =
     (case support_agent cf oc now rq (dk_ids d) of
        Inl x \<Rightarrow> (d, Inl x)
      | Inr p \<Rightarrow>
          (case status_of st of
             None \<Rightarrow> (d, Inl (Http 400 []))
           | Some new \<Rightarrow> on_support d transition_error
               (transition_status_as_assignee nt seen mid now tid new (sp_actor p) (sp_tenant_ids p) (dk_support d))))"

text \<open>A score outside 1 to 5 is refused by the framework.\<close>

definition submit_csat_route ::
  "sup_conf \<Rightarrow> pg_outcome \<Rightarrow> nat \<Rightarrow> int \<Rightarrow> sup_req \<Rightarrow> string \<Rightarrow> int \<Rightarrow> string option \<Rightarrow> desk \<Rightarrow> desk \<times> (api_error + csat_rating)" where
  "submit_csat_route cf oc mid now rq tid score comment d =
     (case tenant_context_dep cf rq of
        Inl x \<Rightarrow> (d, Inl x)
      | Inr tc \<Rightarrow>
          if score < 1 \<or> 5 < score then (d, Inl (Http 422 []))
          else on_support d (value_error 404) (submit_csat oc mid now tid score comment tc (dk_support d)))"

definition support_login ::
  "sup_conf \<Rightarrow> pg_outcome \<times> pg_outcome \<Rightarrow> int \<Rightarrow> string \<times> string \<times> nat \<Rightarrow> sup_req \<Rightarrow> string \<Rightarrow> desk \<Rightarrow> desk \<times> (api_error + support_principal \<times> string \<times> string)" where
  "support_login cf oc now fresh rq raw d =
     (case require_allowed_origin cf rq of
        Inl x \<Rightarrow> (d, Inl x)
      | Inr _ \<Rightarrow>
          (case login_sync (uc_dig cf) oc now fresh raw (dk_ids d) of
             (a, r) \<Rightarrow> (d\<lparr>dk_ids := a\<rparr>, map_sum (auth_error ''Invalid support credential'') id r)))"

definition support_logout ::
  "sup_conf \<Rightarrow> pg_outcome \<times> pg_outcome \<Rightarrow> pg_outcome \<times> pg_outcome \<Rightarrow> int \<Rightarrow> sup_req \<Rightarrow> desk \<Rightarrow> desk \<times> (api_error + unit)" where
  "support_logout cf oc oc2 now rq d =
     (case support_session_principal cf (fst oc) now rq (dk_ids d) of
        Inl x \<Rightarrow> (d, Inl x)
      | Inr p \<Rightarrow>
          (case require_allowed_origin cf rq of
             Inl x \<Rightarrow> (d, Inl x)
           | Inr _ \<Rightarrow>
               (case require_csrf cf (snd oc) rq p (dk_ids d) of
                  Inl x \<Rightarrow> (d, Inl x)
                | Inr _ \<Rightarrow>
                    (case logout_sync (uc_dig cf) oc2 now (rq_cookie rq) (dk_ids d) of
                       (a, r) \<Rightarrow> (d\<lparr>dk_ids := a\<rparr>, map_sum Crash (\<lambda>_. ()) r)))))"

definition support_session :: "sup_conf \<Rightarrow> pg_outcome \<Rightarrow> int \<Rightarrow> sup_req \<Rightarrow> desk \<Rightarrow> api_error + support_principal" where
  "support_session cf oc now rq d = support_session_principal cf oc now rq (dk_ids d)"

text \<open>The WebSocket is closed before it is accepted, with this code.\<close>

definition support_websocket :: "string \<Rightarrow> desk \<Rightarrow> desk \<times> nat" where
  "support_websocket tid d = (d, 4401)"

section \<open>What a session proves\<close>

text \<open>A token stands for a live session of an active identity.\<close>

definition live_session :: "(string \<Rightarrow> string) \<Rightarrow> int \<Rightarrow> string \<Rightarrow> idents \<Rightarrow> session_row \<Rightarrow> identity_row \<Rightarrow> bool" where
  "live_session dig now raw a ss iy \<longleftrightarrow>
     ss \<in> set (ix_sessions a) \<and> ss_hash ss = dig raw \<and> ss_revoked ss = None \<and> now < ss_expires ss
     \<and> iy \<in> set (ix_identities a) \<and> iy_id iy = ss_identity ss \<and> iy_active iy \<and> iy_version iy = ss_version ss"

definition has_membership :: "string \<Rightarrow> identity_row \<Rightarrow> idents \<Rightarrow> bool" where
  "has_membership tenant iy a \<longleftrightarrow>
     (\<exists>m\<in>set (ix_members a). mb_identity m = iy_id iy \<and> mb_active m \<and> mb_role m = SUPPORT_AGENT_ROLE \<and> strip (mb_tenant m) = tenant)"

lemma identity_atD: "identity_at i a = Some iy \<Longrightarrow> iy \<in> set (ix_identities a) \<and> iy_id iy = i"
  unfolding identity_at_def by (drule find_SomeD) auto

lemma session_by_hashD: "session_by_hash d a = Some ss \<Longrightarrow> ss \<in> set (ix_sessions a) \<and> ss_hash ss = d"
  unfolding session_by_hash_def by (drule find_SomeD) auto

lemma build_principalD:
  assumes "build_principal iy ss (active_memberships (iy_id iy) a) = Inr p"
  shows "sp_actor p = ''support_agent:'' @ uuid_str (iy_id iy)" "sp_identity p = uuid_str (iy_id iy)" "sp_session p = uuid_str (ss_id ss)"
    "t \<in> sp_tenant_ids p \<Longrightarrow> has_membership t iy a"
  using assms by (auto simp: build_principal_def Let_def has_membership_def active_memberships_def split: if_splits)

lemma authenticate_live:
  assumes "authenticate_session_sync dig oc now raw a = Inr p"
  obtains ss iy where "live_session dig now (the raw) a ss iy" "build_principal iy ss (active_memberships (iy_id iy) a) = Inr p" "raw \<noteq> None"
    "session_by_hash (dig (the raw)) a = Some ss" "identity_at (ss_identity ss) a = Some iy"
proof -
  have raw: "truthy raw" "oc = PgOk" using assms by (auto simp: authenticate_session_sync_def split: if_splits)
  obtain ss where ss: "session_by_hash (dig (the raw)) a = Some ss"
    using assms raw by (cases "session_by_hash (dig (the raw)) a") (auto simp: authenticate_session_sync_def)
  have l: "ss_revoked ss = None" "now < ss_expires ss" using assms raw ss by (auto simp: authenticate_session_sync_def split: if_splits)
  obtain iy where iy: "identity_at (ss_identity ss) a = Some iy"
    using assms raw ss l by (cases "identity_at (ss_identity ss) a") (auto simp: authenticate_session_sync_def)
  have v: "iy_active iy" "ss_version ss = iy_version iy" using assms raw ss l iy by (auto simp: authenticate_session_sync_def split: if_splits)
  have b: "build_principal iy ss (active_memberships (iy_id iy) a) = Inr p"
    using assms raw ss l iy v by (auto simp: authenticate_session_sync_def split: if_splits)
  have "live_session dig now (the raw) a ss iy"
    using session_by_hashD [OF ss] identity_atD [OF iy] l v by (simp add: live_session_def)
  then show ?thesis using that b ss iy raw(1) by (auto simp: truthy_def split: option.splits)
qed

lemma session_principalD: "session_principal cf oc now rq a = Inr p \<Longrightarrow> authenticate_session_sync (uc_dig cf) oc now (rq_cookie rq) a = Inr p"
  by (cases "authenticate_session_sync (uc_dig cf) oc now (rq_cookie rq) a") (auto simp: session_principal_def)

lemma support_agentD:
  assumes "support_agent cf oc now rq a = Inr p"
  shows "\<not> truthy (rq_key rq)" "truthy (rq_cookie rq)" "authenticate_session_sync (uc_dig cf) (fst oc) now (rq_cookie rq) a = Inr p"
    "require_allowed_origin cf rq = Inr ()" "require_csrf cf (snd oc) rq p a = Inr ()"
proof -
  obtain tp where tp: "optional_tenant_principal cf rq = Inr tp"
    using assms by (cases "optional_tenant_principal cf rq") (auto simp: support_agent_def)
  have c: "truthy (rq_cookie rq)" "tp = None" using assms tp by (auto simp: support_agent_def split: if_splits)
  obtain q where q: "session_principal cf (fst oc) now rq a = Inr q"
    using assms tp c by (cases "session_principal cf (fst oc) now rq a") (auto simp: support_agent_def)
  have og: "require_allowed_origin cf rq = Inr ()"
    using assms tp c q by (cases "require_allowed_origin cf rq") (auto simp: support_agent_def)
  have r: "require_csrf cf (snd oc) rq q a = Inr ()" "q = p"
    using assms tp c q og by (cases "require_csrf cf (snd oc) rq q a"; auto simp: support_agent_def)+
  show "\<not> truthy (rq_key rq)" using tp c(2) by (cases "verify_api_key (uc_site cf) (uc_admin cf) (uc_verified cf) (rq_key rq)") (auto simp: optional_tenant_principal_def split: if_splits)
  show "truthy (rq_cookie rq)" by (rule c(1))
  show "authenticate_session_sync (uc_dig cf) (fst oc) now (rq_cookie rq) a = Inr p" using session_principalD [OF q] r(2) by simp
  show "require_allowed_origin cf rq = Inr ()" by (rule og)
  show "require_csrf cf (snd oc) rq p a = Inr ()" using r by simp
qed

text \<open>The identity tables as their indexes keep them.\<close>

definition ix_inv :: "idents \<Rightarrow> bool" where
  "ix_inv a \<longleftrightarrow> distinct (map iy_id (ix_identities a)) \<and> distinct (map iy_subject (ix_identities a))
     \<and> distinct (map ss_hash (ix_sessions a)) \<and> distinct (map ss_id (ix_sessions a)) \<and> (\<forall>ss\<in>set (ix_sessions a). ss_id ss < 16 ^ 32)
     \<and> (\<forall>iy\<in>set (ix_identities a). iy_id iy < 16 ^ 32) \<and> (\<forall>ss\<in>set (ix_sessions a). ss_expires ss = ss_issued ss + SESSION_TTL_SECONDS)"

lemma csrf_same_session:
  assumes "require_csrf cf oc rq p a = Inr ()" and "sp_session p = uuid_str (ss_id ss)" and "ss \<in> set (ix_sessions a)" and "ix_inv a"
  shows "\<exists>w. rq_csrf rq = Some w \<and> ss_csrf ss = uc_dig cf w"
proof -
  have u: "coerce_uuid (sp_session p) = Some (ss_id ss)" using assms(2,3,4) by (simp add: coerce_uuid_str ix_inv_def)
  have f: "List.find (\<lambda>r. ss_id r = ss_id ss) (ix_sessions a) = Some ss" using find_key [of ss_id "ix_sessions a" ss] assms(3,4) by (simp add: ix_inv_def)
  have t: "truthy (rq_csrf rq)" using assms(1) by (auto simp: require_csrf_def split: if_splits)
  have "csrf_matches_sync (uc_dig cf) oc (the (rq_csrf rq)) (sp_session p) a = Inr True"
    using assms(1) t by (auto simp: require_csrf_def split: sum.splits if_splits)
  then show ?thesis using u f t by (auto simp: csrf_matches_sync_def truthy_def split: if_splits option.splits)
qed

section \<open>Steps on the identity tables\<close>

inductive ix_op :: "(string \<Rightarrow> string) \<Rightarrow> idents \<Rightarrow> idents \<Rightarrow> bool" for dig where
  ix_login: "snd (snd fresh) < 16 ^ 32 \<Longrightarrow> ix_op dig a (fst (login_sync dig oc now fresh raw a))"
| ix_logout: "ix_op dig a (fst (logout_sync dig oc now tok a))"
| ix_bump: "ix_op dig a (fst (bump_session_version oc now i a))"
| ix_create: "fst new < 16 ^ 32 \<Longrightarrow> ix_op dig a (fst (create_identity dig fromiso oc now new subject tenants disp days ex a))"
| ix_cred: "ix_op dig a (fst (revoke_credential oc now cid subj a))"
| ix_revoke: "ix_op dig a (fst (revoke_sessions oc now subject a))"
| ix_deactivate: "ix_op dig a (fst (deactivate_identity oc now subject a))"

abbreviation ix_ops :: "(string \<Rightarrow> string) \<Rightarrow> idents \<Rightarrow> idents \<Rightarrow> bool" where "ix_ops dig \<equiv> (ix_op dig)\<^sup>*\<^sup>*"

text \<open>
  The effect of every step on the two tables that decide: sessions are kept (perhaps revoked) or one fresh, unrevoked session of an
  active identity is added; identities are kept, never reactivated, their version never falls, or one is added.
\<close>

definition sessions_step :: "session_row list \<Rightarrow> session_row list \<Rightarrow> bool" where
  "sessions_step xs ys \<longleftrightarrow>
     (\<exists>p now. ys = revoke_where p now xs)
     \<or> (\<exists>ss. ys = xs @ [ss] \<and> ss_hash ss \<notin> ss_hash ` set xs \<and> ss_id ss \<notin> ss_id ` set xs \<and> ss_id ss < 16 ^ 32
          \<and> ss_expires ss = ss_issued ss + SESSION_TTL_SECONDS)"

definition ident_step :: "identity_row \<Rightarrow> identity_row \<Rightarrow> bool" where
  "ident_step r r' \<longleftrightarrow> iy_id r' = iy_id r \<and> iy_subject r' = iy_subject r \<and> (iy_active r' \<longrightarrow> iy_active r) \<and> iy_version r \<le> iy_version r'"

definition identities_step :: "identity_row list \<Rightarrow> identity_row list \<Rightarrow> bool" where
  "identities_step xs ys \<longleftrightarrow>
     (\<exists>f. (\<forall>r. ident_step r (f r)) \<and> ys = map f xs) \<or> (\<exists>r. ys = xs @ [r] \<and> iy_id r \<notin> iy_id ` set xs \<and> iy_subject r \<notin> iy_subject ` set xs \<and> iy_id r < 16 ^ 32)"

lemma sessions_step_refl [simp]: "sessions_step xs xs"
proof -
  have "xs = revoke_where (\<lambda>r. False) 0 xs" by (simp add: revoke_where_def Accounts.upd_def)
  then show ?thesis unfolding sessions_step_def by blast
qed

lemma identities_step_refl [simp]: "identities_step xs xs"
  unfolding identities_step_def by (rule disjI1, rule exI [of _ id]) (simp add: ident_step_def)

lemma identities_step_upd: "(\<And>r. ident_step r (f r)) \<Longrightarrow> identities_step xs (Accounts.upd p f xs)"
  unfolding identities_step_def Accounts.upd_def
  by (rule disjI1, rule exI [of _ "\<lambda>r. if p r then f r else r"]) (auto simp: ident_step_def)

lemma bump_step: "ident_step r (bump_row now r)" "ident_step r (bump_row now r\<lparr>iy_active := False\<rparr>)"
  by (simp_all add: ident_step_def bump_row_def)

lemma ix_commit_cases: "fst (ix_commit oc a a' v) = a \<or> fst (ix_commit oc a a' v) = a'"
  by (cases oc) (simp_all add: ix_commit_def)

lemma login_tables:
  assumes "snd (snd fresh) < 16 ^ 32"
  shows "sessions_step (ix_sessions a) (ix_sessions (fst (login_sync dig oc now fresh raw a)))
    \<and> ix_identities (fst (login_sync dig oc now fresh raw a)) = ix_identities a"
proof (cases "fst (login_sync dig oc now fresh raw a) = a")
  case False
  obtain c where c: "List.find (\<lambda>c. cd_hash c = dig raw) (ix_creds a) = Some c"
    using False by (cases "List.find (\<lambda>c. cd_hash c = dig raw) (ix_creds a)") (auto simp: login_sync_def split: if_splits)
  obtain iy where iy: "identity_at (cd_identity c) a = Some iy"
    using False c by (cases "identity_at (cd_identity c) a") (auto simp: login_sync_def split: if_splits)
  let ?ss = "new_session dig now fresh iy"
  have n: "ss_hash ?ss \<notin> ss_hash ` set (ix_sessions a)" "ss_id ?ss \<notin> ss_id ` set (ix_sessions a)"
    using False c iy by (auto simp: login_sync_def Let_def split: if_splits)
  have e: "fst (login_sync dig oc now fresh raw a) = open_session c now ?ss a"
    using False c iy by (auto simp: login_sync_def Let_def split: if_splits)
  have "sessions_step (ix_sessions a) (ix_sessions a @ [?ss])"
    unfolding sessions_step_def using n assms by (auto simp: new_session_def)
  then show ?thesis unfolding e by (simp add: open_session_def)
qed simp

lemma close_tables:
  assumes "\<And>r. ident_step r (f (bump_row now r))"
  shows "sessions_step (ix_sessions a) (ix_sessions (fst (close_by_subject f oc now subject a)))
    \<and> identities_step (ix_identities a) (ix_identities (fst (close_by_subject f oc now subject a)))"
proof -
  have c: "sessions_step (ix_sessions a) (ix_sessions (close_identity f now iy a))
      \<and> identities_step (ix_identities a) (ix_identities (close_identity f now iy a))" for iy
    using identities_step_upd [OF assms] by (auto simp: close_identity_def sessions_step_def)
  have "fst (close_by_subject f oc now subject a) = a \<or> (\<exists>iy. fst (close_by_subject f oc now subject a) = close_identity f now iy a)"
    by (auto simp: close_by_subject_def ix_commit_def split: sum.splits option.splits pg_outcome.splits)
  then show ?thesis using c by auto
qed

lemma op_tables:
  assumes "ix_op dig a b"
  shows "sessions_step (ix_sessions a) (ix_sessions b) \<and> identities_step (ix_identities a) (ix_identities b)"
  using assms
proof (cases rule: ix_op.cases)
  case (ix_login fresh oc now raw)
  then show ?thesis using login_tables [of fresh a dig oc now raw] by simp
next
  case (ix_logout oc now tok)
  show ?thesis unfolding ix_logout
    by (auto simp: logout_sync_def ix_commit_def sessions_step_def [of _ "revoke_where _ _ _"] split: option.splits pg_outcome.splits)
next
  case (ix_bump oc now i)
  show ?thesis unfolding ix_bump
    by (auto simp: bump_session_version_def ix_commit_def intro: identities_step_upd bump_step split: option.splits pg_outcome.splits)
next
  case (ix_create new fromiso oc now subject tenants disp days ex)
  show ?thesis unfolding ix_create(1) using ix_create(2)
    by (cases new)
      (auto simp: create_identity_def ix_commit_def provisioned_def identities_step_def [of _ "_ @ _"] split: sum.splits pg_outcome.splits)
next
  case (ix_cred oc now cid subj)
  show ?thesis unfolding ix_cred
    by (auto simp: revoke_credential_def revoke_creds_def ix_commit_def Let_def split: sum.splits option.splits pg_outcome.splits)
next
  case (ix_revoke oc now subject)
  show ?thesis unfolding ix_revoke revoke_sessions_def by (rule close_tables) (simp add: bump_step)
next
  case (ix_deactivate oc now subject)
  show ?thesis unfolding ix_deactivate deactivate_identity_def by (rule close_tables) (simp add: bump_step)
qed

lemma revoke_where_keys [simp]:
  "map ss_hash (revoke_where p now xs) = map ss_hash xs" "map ss_id (revoke_where p now xs) = map ss_id xs"
  by (simp_all add: revoke_where_def Accounts.upd_def)

lemma revoke_where_all: "(\<And>r x. Q (r\<lparr>ss_revoked := x\<rparr>) = Q r) \<Longrightarrow> (\<forall>ss\<in>set (revoke_where p now xs). Q ss) \<longleftrightarrow> (\<forall>ss\<in>set xs. Q ss)"
  by (induction xs) (simp_all add: revoke_where_def Accounts.upd_def)

lemma step_ids: "(\<forall>r. ident_step r (f r)) \<Longrightarrow> map iy_id (map f xs) = map iy_id xs \<and> map iy_subject (map f xs) = map iy_subject xs"
  by (simp add: ident_step_def)

lemma op_inv:
  assumes "ix_op dig a b" and "ix_inv a"
  shows "ix_inv b"
proof -
  have t: "sessions_step (ix_sessions a) (ix_sessions b)" "identities_step (ix_identities a) (ix_identities b)" using op_tables [OF assms(1)] by auto
  have s: "distinct (map ss_hash (ix_sessions b)) \<and> distinct (map ss_id (ix_sessions b)) \<and> (\<forall>ss\<in>set (ix_sessions b). ss_id ss < 16 ^ 32)
      \<and> (\<forall>ss\<in>set (ix_sessions b). ss_expires ss = ss_issued ss + SESSION_TTL_SECONDS)"
    using t(1) unfolding sessions_step_def
  proof (elim disjE exE conjE)
    fix p now assume "ix_sessions b = revoke_where p now (ix_sessions a)"
    then show ?thesis using assms(2) by (simp add: ix_inv_def revoke_where_all)
  next
    fix ss assume "ix_sessions b = ix_sessions a @ [ss]" "ss_hash ss \<notin> ss_hash ` set (ix_sessions a)"
      "ss_id ss \<notin> ss_id ` set (ix_sessions a)" "ss_id ss < 16 ^ 32" "ss_expires ss = ss_issued ss + SESSION_TTL_SECONDS"
    then show ?thesis using assms(2) by (simp add: ix_inv_def ball_Un)
  qed
  have "distinct (map iy_id (ix_identities b)) \<and> distinct (map iy_subject (ix_identities b)) \<and> (\<forall>iy\<in>set (ix_identities b). iy_id iy < 16 ^ 32)"
    using t(2) unfolding identities_step_def
  proof (elim disjE exE conjE)
    fix f assume f: "\<forall>r. ident_step r (f r)" "ix_identities b = map f (ix_identities a)"
    then show ?thesis using assms(2) step_ids [OF f(1), of "ix_identities a"] by (auto simp: ix_inv_def ident_step_def simp del: map_map)
  next
    fix r assume "ix_identities b = ix_identities a @ [r]" "iy_id r \<notin> iy_id ` set (ix_identities a)" "iy_subject r \<notin> iy_subject ` set (ix_identities a)" "iy_id r < 16 ^ 32"
    then show ?thesis using assms(2) by (auto simp: ix_inv_def)
  qed
  with s show ?thesis by (simp add: ix_inv_def)
qed

text \<open>What stays once it holds: a session that is revoked, an identity that is inactive.\<close>

definition dead_session :: "string \<Rightarrow> idents \<Rightarrow> bool" where
  "dead_session h a \<longleftrightarrow> (\<exists>ss\<in>set (ix_sessions a). ss_hash ss = h \<and> ss_revoked ss \<noteq> None)"

definition inactive :: "nat \<Rightarrow> idents \<Rightarrow> bool" where
  "inactive i a \<longleftrightarrow> (\<exists>iy\<in>set (ix_identities a). iy_id iy = i \<and> \<not> iy_active iy)"

lemma op_dead: "ix_op dig a b \<Longrightarrow> dead_session h a \<Longrightarrow> dead_session h b"
  using op_tables [of dig a b] unfolding sessions_step_def dead_session_def
  by (elim conjE disjE exE bexE) (auto simp: revoke_where_def Accounts.upd_def)

lemma op_inactive: "ix_op dig a b \<Longrightarrow> inactive i a \<Longrightarrow> inactive i b"
  using op_tables [of dig a b] unfolding identities_step_def inactive_def
  by (elim conjE disjE exE bexE) (auto simp: ident_step_def)

lemma ops_keep:
  assumes "ix_ops dig a b"
  shows "ix_inv a \<Longrightarrow> ix_inv b" "dead_session h a \<Longrightarrow> dead_session h b" "inactive i a \<Longrightarrow> inactive i b"
  using assms by (induction rule: rtranclp_induct) (blast intro: op_inv op_dead op_inactive)+

lemma dead_fails:
  assumes "ix_inv a" and "dead_session (dig tok) a"
  shows "\<not> (\<exists>p. authenticate_session_sync dig oc now (Some tok) a = Inr p)"
proof
  assume "\<exists>p. authenticate_session_sync dig oc now (Some tok) a = Inr p"
  then obtain p where p: "authenticate_session_sync dig oc now (Some tok) a = Inr p" ..
  obtain ss iy where l: "live_session dig now tok a ss iy" using p by (rule authenticate_live) (simp add: that)
  obtain s2 where s2: "s2 \<in> set (ix_sessions a)" "ss_hash s2 = dig tok" "ss_revoked s2 \<noteq> None" using assms(2) by (auto simp: dead_session_def)
  have i: "inj_on ss_hash (set (ix_sessions a))" using assms(1) by (simp add: ix_inv_def distinct_map)
  have "s2 = ss" by (rule inj_onD [OF i]) (use l s2 in \<open>simp_all add: live_session_def\<close>)
  then show False using l s2 by (simp add: live_session_def)
qed

lemma uuid_str_inj: "uuid_str i = uuid_str j \<Longrightarrow> i < 16 ^ 32 \<Longrightarrow> j < 16 ^ 32 \<Longrightarrow> i = j"
  by (metis coerce_uuid_str option.inject)

lemma inactive_row: "ix_inv a \<Longrightarrow> inactive (iy_id iy) a \<Longrightarrow> iy \<in> set (ix_identities a) \<Longrightarrow> \<not> iy_active iy"
  unfolding inactive_def ix_inv_def distinct_map inj_on_def by metis

lemma inactive_fails:
  assumes "ix_inv a" and "inactive i a" and "i < 16 ^ 32"
  shows "authenticate_session_sync dig oc now tok a = Inr p \<Longrightarrow> sp_identity p \<noteq> uuid_str i"
    and "snd (login_sync dig oc2 now fresh raw a) = Inr (p, t, c) \<Longrightarrow> sp_identity p \<noteq> uuid_str i"
proof -
  have no: "uuid_str (iy_id iy) \<noteq> uuid_str i" if "iy \<in> set (ix_identities a)" "iy_active iy" for iy
  proof
    assume "uuid_str (iy_id iy) = uuid_str i"
    then have "iy_id iy = i" using uuid_str_inj that assms(1,3) by (auto simp: ix_inv_def)
    then show False using inactive_row [OF assms(1), of iy] assms(2) that by simp
  qed
  show "sp_identity p \<noteq> uuid_str i" if r: "authenticate_session_sync dig oc now tok a = Inr p"
  proof -
    obtain ss iy where l: "live_session dig now (the tok) a ss iy" "build_principal iy ss (active_memberships (iy_id iy) a) = Inr p"
      using r by (rule authenticate_live) (rule that)
    then show ?thesis using no [of iy] build_principalD(2) [OF l(2)] by (simp add: live_session_def)
  qed
  show "sp_identity p \<noteq> uuid_str i" if r: "snd (login_sync dig oc2 now fresh raw a) = Inr (p, t, c)"
  proof -
    obtain cr where c: "List.find (\<lambda>c. cd_hash c = dig raw) (ix_creds a) = Some cr"
      using r by (cases "List.find (\<lambda>c. cd_hash c = dig raw) (ix_creds a)") (auto simp: login_sync_def split: if_splits)
    obtain iy where iy: "identity_at (cd_identity cr) a = Some iy"
      using r c by (cases "identity_at (cd_identity cr) a") (auto simp: login_sync_def split: if_splits)
    have act: "iy_active iy" using r c iy by (auto simp: login_sync_def split: if_splits)
    obtain q where "build_principal iy (new_session dig now fresh iy) (active_memberships (iy_id iy) a) = Inr q" "q = p"
      using r c iy act
      by (cases "build_principal iy (new_session dig now fresh iy) (active_memberships (iy_id iy) a)") (auto simp: login_sync_def Let_def split: if_splits)
    then show ?thesis using no [of iy] build_principalD(2) act identity_atD [OF iy] by metis
  qed
qed

section \<open>Examples\<close>

definition plain_dig :: "string \<Rightarrow> string" where "plain_dig w = ''h'' @ w"

definition agent_ids :: idents where
  "agent_ids =
     \<lparr>ix_identities = [\<lparr>iy_id = 5, iy_subject = ''bob'', iy_display = None, iy_active = True, iy_version = 1, iy_created = 0, iy_updated = 0\<rparr>],
      ix_members = new_members 0 5 1 [''acme''],
      ix_creds = [],
      ix_sessions = [\<lparr>ss_id = 3, ss_identity = 5, ss_hash = plain_dig ''tok'', ss_csrf = plain_dig ''csrf'', ss_version = 1, ss_issued = 0,
                      ss_expires = SESSION_TTL_SECONDS, ss_revoked = None\<rparr>]\<rparr>"

lemma agent_ids_inv: "ix_inv agent_ids"
  by (simp add: ix_inv_def agent_ids_def)

definition bob_conf :: "site \<Rightarrow> sup_conf" where
  "bob_conf si = \<lparr>uc_site = si, uc_admin = None, uc_verified = (\<lambda>_. True), uc_dig = plain_dig, uc_origins = Some ''https://desk'', uc_pg = True\<rparr>"

definition bob_req :: sup_req where
  "bob_req = \<lparr>rq_cookie = Some ''tok'', rq_origin = Some ''https://desk'', rq_csrf = Some ''csrf'', rq_key = None\<rparr>"

definition bob_actor :: string where "bob_actor = ''support_agent:'' @ uuid_str 5"

definition bob_principal :: support_principal where
  "bob_principal = \<lparr>sp_actor = bob_actor, sp_identity = uuid_str 5, sp_roles = {SUPPORT_AGENT_ROLE}, sp_tenant_ids = {''acme''},
     sp_session = uuid_str 3, sp_version = 1, sp_issued = 0, sp_expires = SESSION_TTL_SECONDS\<rparr>"

lemma bob_authenticates: "authenticate_session_sync plain_dig PgOk 1 (Some ''tok'') agent_ids = Inr bob_principal"
proof -
  have s: "strip ''acme'' = ''acme''" by code_simp
  show ?thesis
    by (simp add: authenticate_session_sync_def truthy_def session_by_hash_def agent_ids_def plain_dig_def SESSION_TTL_SECONDS_def
        identity_at_def active_memberships_def new_members_def SUPPORT_AGENT_ROLE_def build_principal_def s bob_principal_def bob_actor_def)
qed

lemma bob_passes: "support_agent (bob_conf si) (PgOk, PgOk) 1 bob_req agent_ids = Inr bob_principal"
proof -
  have og: "strip ''https://desk'' = ''https://desk''" "origin_allowed (Some ''https://desk'') ''https://desk''" by code_simp+
  have u: "coerce_uuid (uuid_str 3) = Some 3" by (rule coerce_uuid_str) simp
  have n: "uuid_str 3 \<noteq> []" by (simp add: uuid_str_def Let_def)
  have c: "csrf_matches_sync plain_dig PgOk ''csrf'' (sp_session bob_principal) agent_ids = Inr True"
    by (simp add: csrf_matches_sync_def bob_principal_def u n agent_ids_def)
  have r: "rq_cookie bob_req = Some ''tok''" "rq_origin bob_req = Some ''https://desk''" "rq_csrf bob_req = Some ''csrf''" "rq_key bob_req = None"
    "uc_dig (bob_conf si) = plain_dig" "uc_origins (bob_conf si) = Some ''https://desk''"
    by (simp_all add: bob_req_def bob_conf_def)
  have g: "require_allowed_origin (bob_conf si) bob_req = Inr ()" "require_csrf (bob_conf si) PgOk bob_req bob_principal agent_ids = Inr ()"
    by (simp_all add: require_allowed_origin_def require_csrf_def r opt_or_def og truthy_def c Let_def)
  show ?thesis
    by (simp add: support_agent_def optional_tenant_principal_def truthy_def session_principal_def r bob_authenticates g)
qed

section \<open>Claims\<close>


definition bob_row :: ticket_row where "bob_row = assign_row bob_actor 11 row7"

definition bobs_desk :: desk where "bobs_desk = \<lparr>dk_ids = agent_ids, dk_support = no_support\<lparr>sp_rows := [bob_row]\<rparr>\<rparr>"

lemma bob_moves:
  "row_at 7 (sp_rows (dk_support (fst (transition_status_route (bob_conf demo_site) (PgOk, PgOk) net_ok [bob_row] 9 1 bob_req (uuid_str 7) ''resolved'' bobs_desk))))
    \<noteq> row_at 7 (sp_rows (dk_support bobs_desk))"
proof -
  have u: "coerce_uuid (uuid_str 7) = Some 7" by (rule coerce_uuid_str) simp
  have st: "status_of ''resolved'' = Some RESOLVED" by (simp add: enum_of_def ticket_status_values_def)
  have b: "tk_id bob_row = 7" "tk_tenant bob_row = ''acme''" "tk_agent bob_row = Some bob_actor" "tk_status bob_row = status_value IN_PROGRESS"
    by (simp_all add: bob_row_def assign_row_def row7_def ticket_to_model_def new_ticket_def acme_def)
  have n: "tk_status (transition_row RESOLVED 1 bob_row) \<noteq> tk_status bob_row"
    by (simp add: transition_row_def Let_def b enum_value_def ticket_status_values_def)
  have r: "row_at 7 [bob_row] = Some bob_row" by (simp add: row_at_def b)
  have p: "sp_actor bob_principal = bob_actor" "sp_tenant_ids bob_principal = {''acme''}" by (simp_all add: bob_principal_def)
  have h: "cas_hit bob_row (Some bob_actor) bob_row" by (simp add: cas_hit_def b)
  have rows: "sp_rows (dk_support bobs_desk) = [bob_row]" "dk_ids bobs_desk = agent_ids" by (simp_all add: bobs_desk_def)
  have t: "fst (transition_from net_ok bob_row (Some bob_actor) RESOLVED 1 [bob_row]) = [transition_row RESOLVED 1 bob_row]"
    using h by (simp add: transition_from_def b VALID_STATUS_TRANSITIONS_def cas_def net_ok_def Let_def db_commit_def Accounts.upd_def)
  have "sp_rows (dk_support (fst (transition_status_route (bob_conf demo_site) (PgOk, PgOk) net_ok [bob_row] 9 1 bob_req (uuid_str 7) ''resolved'' bobs_desk)))
      = [transition_row RESOLVED 1 bob_row]"
    using t by (simp add: transition_status_route_def bob_passes rows st on_support_def transition_status_as_assignee_def rows_moved
        transition_assigned_sync_def u r b p net_ok_def)
  then show ?thesis using n r rows by (auto simp: row_at_def b)
qed



text \<open>An agent takes a ticket only for itself. If \<open>POST /tickets/{id}/assign\<close> changes any row, the request has a live
  session with its CSRF token, the identity has a membership for the ticket's tenant, and the row is the old one, in progress and
  assigned to this very identity.\<close>

theorem agent_assign_authorised:
  assumes "ix_inv (dk_ids d)"
    and "row_at u (sp_rows (dk_support (fst (assign_agent_route cf oc nt seen mid now rq tid d)))) \<noteq> row_at u (sp_rows (dk_support d))"
  shows "\<exists>raw w ss iy r. rq_cookie rq = Some raw \<and> live_session (uc_dig cf) now raw (dk_ids d) ss iy
    \<and> rq_csrf rq = Some w \<and> ss_csrf ss = uc_dig cf w \<and> \<not> truthy (rq_key rq)
    \<and> row_at u (sp_rows (dk_support d)) = Some r \<and> has_membership (tk_tenant r) iy (dk_ids d)
    \<and> row_at u (sp_rows (dk_support (fst (assign_agent_route cf oc nt seen mid now rq tid d))))
        = Some (r\<lparr>tk_agent := Some (''support_agent:'' @ uuid_str (iy_id iy)), tk_status := status_value IN_PROGRESS, tk_updated_at := now\<rparr>)"
proof -
  let ?d = "fst (assign_agent_route cf oc nt seen mid now rq tid d)"
  obtain p where p: "support_agent cf oc now rq (dk_ids d) = Inr p"
    using assms(2) by (cases "support_agent cf oc now rq (dk_ids d)") (auto simp: assign_agent_route_def)
  have e: "sp_rows (dk_support ?d) = fst (assign_loaded nt (\<lambda>t. t \<in> sp_tenant_ids p) seen tid (sp_actor p) now (sp_rows (dk_support d)))"
    using p by (simp add: assign_agent_route_def on_support_def assign_agent_to_self_def rows_joined assign_self_sync_def)
  note g = support_agentD [OF p]
  obtain ss iy where l: "live_session (uc_dig cf) now (the (rq_cookie rq)) (dk_ids d) ss iy"
    and b: "build_principal iy ss (active_memberships (iy_id iy) (dk_ids d)) = Inr p" and c: "rq_cookie rq \<noteq> None"
    using g(3) by (rule authenticate_live) (rule that)
  obtain w where w: "rq_csrf rq = Some w" "ss_csrf ss = uc_dig cf w"
    using csrf_same_session [OF g(5) build_principalD(3) [OF b] _ assms(1)] l by (auto simp: live_session_def)
  have ch: "row_at u (fst (assign_loaded nt (\<lambda>t. t \<in> sp_tenant_ids p) seen tid (sp_actor p) now (sp_rows (dk_support d)))) \<noteq> row_at u (sp_rows (dk_support d))"
    using assms(2) e by simp
  obtain r where r: "row_at u (sp_rows (dk_support d)) = Some r" "tk_tenant r \<in> sp_tenant_ids p"
    "row_at u (sp_rows (dk_support ?d)) = Some (assign_row (sp_actor p) now r)"
    using self_changes [OF ch] unfolding e by blast
  show ?thesis
    using l c w r g(1) build_principalD(1) [OF b] build_principalD(4) [OF b r(2)]
    by (intro exI [of _ "the (rq_cookie rq)"] exI [of _ w] exI [of _ ss] exI [of _ iy] exI [of _ r]) (simp add: assign_row_def)
qed

text \<open>A deactivated identity never acts again. Once \<open>deactivate_identity\<close> has answered, after any further logins,
  logouts, revocations and provisionings no session and no credential yields a principal of that identity.\<close>

theorem deactivated_never_returns:
  assumes "ix_inv a" and "deactivate_identity oc0 t0 subject a = (b, Inr iy)" and "ix_ops dig b c"
  shows "(\<nexists>p. authenticate_session_sync dig oc now tok c = Inr p \<and> sp_identity p = uuid_str (iy_id iy))
    \<and> (\<nexists>p t x. snd (login_sync dig oc2 now fresh raw c) = Inr (p, t, x) \<and> sp_identity p = uuid_str (iy_id iy))"
proof -
  obtain subj where subj: "clean_subject subject = Inr subj" "by_subject subj a = Some iy" and b: "b = close_identity (\<lambda>r. r\<lparr>iy_active := False\<rparr>) t0 iy a"
    using assms(2) by (auto simp: deactivate_identity_def close_by_subject_def ix_commit_def split: sum.splits option.splits if_splits pg_outcome.splits)
  have iy: "iy \<in> set (ix_identities a)" using find_SomeD [OF subj(2) [unfolded by_subject_def]] by simp
  have op: "ix_op dig a b" using ix_deactivate [of dig a oc0 t0 subject] assms(2) by simp
  have i: "inactive (iy_id iy) b"
    unfolding b inactive_def close_identity_def Accounts.upd_def
    using iy by (intro bexI [of _ "bump_row t0 iy\<lparr>iy_active := False\<rparr>"]) (auto simp: bump_row_def intro!: image_eqI [of _ _ iy])
  have c: "ix_inv c" "inactive (iy_id iy) c" using ops_keep [OF assms(3)] op_inv [OF op assms(1)] i by auto
  have n: "iy_id iy < 16 ^ 32" using iy assms(1) by (auto simp: ix_inv_def)
  show ?thesis using inactive_fails [OF c n] by blast
qed

theorem deactivated_never_returns_witness:
  "(\<nexists>p. authenticate_session_sync plain_dig PgOk 2 (Some ''tok'') (fst (deactivate_identity (PgOk, PgOk) 1 ''bob'' agent_ids)) = Inr p
      \<and> sp_identity p = uuid_str (iy_id (hd (ix_identities agent_ids))))
   \<and> (\<nexists>p t x. snd (login_sync plain_dig (PgOk, PgOk) 2 ([], [], 1) ''cred'' (fst (deactivate_identity (PgOk, PgOk) 1 ''bob'' agent_ids))) = Inr (p, t, x)
      \<and> sp_identity p = uuid_str (iy_id (hd (ix_identities agent_ids))))"
proof (rule deactivated_never_returns [OF agent_ids_inv])
  have s: "strip ''bob'' = ''bob''" by code_simp
  show "deactivate_identity (PgOk, PgOk) 1 ''bob'' agent_ids = (fst (deactivate_identity (PgOk, PgOk) 1 ''bob'' agent_ids), Inr (hd (ix_identities agent_ids)))"
    by (simp add: deactivate_identity_def close_by_subject_def clean_subject_def s by_subject_def agent_ids_def ix_commit_def)
qed simp


text \<open>C20: A session that has been ended stays ended. After a logout, or after \<open>revoke_sessions\<close> for the identity of
  the session, its token authenticates nobody, whatever is done to the identity tables afterwards.\<close>

theorem ended_session_stays_ended:
  assumes "ix_inv a" and "session_by_hash (dig tok) a = Some ss" and "tok \<noteq> []"
    and "logout_sync dig oc0 t0 (Some tok) a = (b, Inr True)
       \<or> (\<exists>iy. revoke_sessions oc0 t0 subject a = (b, Inr iy) \<and> ss_identity ss = iy_id iy)"
    and "ix_ops dig b c"
  shows "\<nexists>p. authenticate_session_sync dig oc now (Some tok) c = Inr p"
proof -
  have op: "ix_op dig a b"
    using assms(4) ix_logout [of dig a oc0 t0 "Some tok"] ix_revoke [of dig a oc0 t0 subject] by auto
  have ss: "ss \<in> set (ix_sessions a)" "ss_hash ss = dig tok" using session_by_hashD [OF assms(2)] by auto
  have "\<exists>p now. b = a\<lparr>ix_identities := ix_identities b, ix_sessions := revoke_where p now (ix_sessions a)\<rparr> \<and> p ss \<or> b = a \<and> ss_revoked ss \<noteq> None"
    using assms(4)
  proof
    assume l: "logout_sync dig oc0 t0 (Some tok) a = (b, Inr True)"
    show ?thesis
    proof (cases "ss_revoked ss")
      case None
      then have "b = a\<lparr>ix_sessions := revoke_where (\<lambda>r. ss_id r = ss_id ss) t0 (ix_sessions a)\<rparr>"
        using l assms(2,3) by (auto simp: logout_sync_def truthy_def ix_commit_def split: if_splits pg_outcome.splits)
      then show ?thesis by (intro exI [of _ "\<lambda>r. ss_id r = ss_id ss"] exI [of _ t0]) simp
    next
      case (Some t)
      then show ?thesis using l assms(2,3) by (auto simp: logout_sync_def truthy_def split: if_splits)
    qed
  next
    assume "\<exists>iy. revoke_sessions oc0 t0 subject a = (b, Inr iy) \<and> ss_identity ss = iy_id iy"
    then obtain iy where r: "revoke_sessions oc0 t0 subject a = (b, Inr iy)" "ss_identity ss = iy_id iy" by blast
    then have "b = close_identity id t0 iy a"
      by (auto simp: revoke_sessions_def close_by_subject_def ix_commit_def split: sum.splits option.splits if_splits pg_outcome.splits)
    then show ?thesis using r(2) by (intro exI [of _ "\<lambda>r. ss_identity r = iy_id iy"] exI [of _ t0]) (simp add: close_identity_def)
  qed
  then have "dead_session (dig tok) b"
  proof (elim exE disjE conjE)
    fix p now assume e: "b = a\<lparr>ix_identities := ix_identities b, ix_sessions := revoke_where p now (ix_sessions a)\<rparr>" and p: "p ss"
    have "ix_sessions b = revoke_where p now (ix_sessions a)" by (subst e) simp
    then show ?thesis using ss p unfolding dead_session_def revoke_where_def Accounts.upd_def
      by (intro bexI [of _ "if ss_revoked ss = None then ss\<lparr>ss_revoked := Some now\<rparr> else ss"]) auto
  qed (use ss in \<open>auto simp: dead_session_def\<close>)
  then show ?thesis using dead_fails ops_keep [OF assms(5)] op_inv [OF op assms(1)] by blast
qed

theorem ended_session_stays_ended_witness:
  "\<nexists>p. authenticate_session_sync plain_dig PgOk 2 (Some ''tok'') (fst (logout_sync plain_dig (PgOk, PgOk) 1 (Some ''tok'') agent_ids)) = Inr p"
proof (rule ended_session_stays_ended [OF agent_ids_inv])
  show "session_by_hash (plain_dig ''tok'') agent_ids = Some (hd (ix_sessions agent_ids))"
    by (simp add: session_by_hash_def agent_ids_def)
  show "logout_sync plain_dig (PgOk, PgOk) 1 (Some ''tok'') agent_ids = (fst (logout_sync plain_dig (PgOk, PgOk) 1 (Some ''tok'') agent_ids), Inr True)
      \<or> (\<exists>iy. revoke_sessions (PgOk, PgOk) 1 [] agent_ids = (fst (logout_sync plain_dig (PgOk, PgOk) 1 (Some ''tok'') agent_ids), Inr iy)
           \<and> ss_identity (hd (ix_sessions agent_ids)) = iy_id iy)"
    by (rule disjI1) (simp add: logout_sync_def truthy_def session_by_hash_def agent_ids_def ix_commit_def)
qed simp_all


section \<open>Corner cases\<close>

text \<open>Both kinds of credentials: the key is looked up first, and the refusal of a bad key comes before the 400.\<close>

lemma bad_key_wins:
  assumes "truthy (rq_key rq)" and "verify_api_key (uc_site cf) (uc_admin cf) (uc_verified cf) (rq_key rq) = Inl e"
  shows "support_agent cf oc now rq a = Inl e" and "support_agent_read cf (fst oc) now rq a = Inl e"
  using assms by (simp_all add: support_agent_def support_agent_read_def optional_tenant_principal_def)

text \<open>A status that does not exist ends a tenant's list with an unhandled error, an agent's with 422.\<close>

lemma tenant_list_crashes:
  assumes "tenant_context_dep cf rq = Inr tc" and "w \<noteq> []" and "status_of w = None"
  shows "list_tickets_route cf oc rq (Some w) page n d = Inl (Crash ValueError)"
  using assms by (simp add: list_tickets_route_def truthy_def)

text \<open>Revoking a credential leaves the sessions it has opened.\<close>

lemma revoked_credential_keeps_sessions:
  "authenticate_session_sync dig o1 now tok (fst (revoke_credential oc t cid subj a)) = authenticate_session_sync dig o1 now tok a"
proof -
  have "ix_sessions (fst (revoke_credential oc t cid subj a)) = ix_sessions a \<and> ix_identities (fst (revoke_credential oc t cid subj a)) = ix_identities a
      \<and> ix_members (fst (revoke_credential oc t cid subj a)) = ix_members a"
    by (auto simp: revoke_credential_def revoke_creds_def ix_commit_def Let_def split: sum.splits option.splits pg_outcome.splits)
  then have "session_by_hash h (fst (revoke_credential oc t cid subj a)) = session_by_hash h a"
    "identity_at i (fst (revoke_credential oc t cid subj a)) = identity_at i a"
    "active_memberships i (fst (revoke_credential oc t cid subj a)) = active_memberships i a" for h i
    by (simp_all add: session_by_hash_def identity_at_def active_memberships_def)
  then show ?thesis by (simp only: authenticate_session_sync_def)
qed

end
