(* ===== verification/Placement.thy ===== *)
theory Placement
  imports Quota "HOL-Library.AList" "HOL-Library.Multiset" "HOL-Library.Char_ord" "HOL-Library.List_Lexorder"
begin

text \<open>
  Where and whether a GPU job runs.

  \<^item> \<open>src/scheduler/gpu_policy_engine_v2.py\<close>: nodes with their memory (\<open>gpu_node\<close>), the engine with its
    nodes and pending jobs (\<open>engine\<close>), selection of a node, back-pressure, batch size and
    \<open>schedule\<close>. Gigabytes and seconds are rationals.
  \<^item> \<open>src/consistency/backpressure.py\<close>: admission by memory saturation with its cool-down.
  \<^item> \<open>src/scheduler/host_preference.py\<close>: the order in which backends are tried.

  Shown: memory is never overcommitted and the books agree with the allocations in every reachable
  state, a job is placed exactly when a fitting node is free and then on the least utilised one, the
  pending queue is ordered by priority, bounded, and never drained; admission keeps the saturation
  limit and the reserve, and a refusal closes the door for the whole cool-down.
\<close>

section \<open>Nodes\<close>

definition VRAM_TOTAL_GB :: rat where "VRAM_TOTAL_GB = 21 / 2"
definition VRAM_SAFE_LIMIT_GB :: rat where "VRAM_SAFE_LIMIT_GB = 9"
definition MAX_CONCURRENT_JOBS :: nat where "MAX_CONCURRENT_JOBS = 1"

record gpu_node =
  gn_name :: string
  gn_total :: rat
  gn_used :: rat
  gn_allocations :: "(string \<times> rat) list"
  gn_active :: "string list"

definition new_gpu_node :: "string \<Rightarrow> rat \<Rightarrow> gpu_node" where
  "new_gpu_node name vram = \<lparr>gn_name = name, gn_total = vram, gn_used = 0, gn_allocations = [], gn_active = []\<rparr>"

definition vram_free_gb :: "gpu_node \<Rightarrow> rat" where
  "vram_free_gb n = gn_total n - gn_used n"

definition can_allocate :: "gpu_node \<Rightarrow> bool" where
  "can_allocate n = (length (gn_active n) < MAX_CONCURRENT_JOBS \<and> vram_free_gb n \<ge> 2)"

definition utilization_ratio :: "gpu_node \<Rightarrow> rat" where
  "utilization_ratio n = (if gn_total n = 0 then 0 else gn_used n / gn_total n)"

definition node_allocate :: "string \<Rightarrow> rat \<Rightarrow> gpu_node \<Rightarrow> gpu_node \<times> bool" where
  "node_allocate job vram n =
     (if job \<in> set (gn_active n) then (n, True)
      else if \<not> can_allocate n then (n, False)
      else if vram > vram_free_gb n then (n, False)
      else (n\<lparr>gn_allocations := AList.update job vram (gn_allocations n), gn_active := gn_active n @ [job],
              gn_used := gn_used n + vram\<rparr>, True))"

definition node_release :: "string \<Rightarrow> gpu_node \<Rightarrow> gpu_node" where
  "node_release job n =
     (if job \<notin> set (gn_active n) then n
      else case map_of (gn_allocations n) job of
             None \<Rightarrow> n\<lparr>gn_active := remove1 job (gn_active n)\<rparr>
           | Some g \<Rightarrow> n\<lparr>gn_allocations := AList.delete job (gn_allocations n), gn_used := gn_used n - g,
                        gn_active := remove1 job (gn_active n)\<rparr>)"

definition release_all :: "gpu_node \<Rightarrow> gpu_node" where
  "release_all n = n\<lparr>gn_allocations := [], gn_active := [], gn_used := 0\<rparr>"

section \<open>The engine\<close>

record job_metrics =
  jm_job :: string
  jm_priority :: rat
  jm_vram :: rat
  jm_age :: rat
  jm_wait :: rat
  jm_ratio :: rat
  jm_runtime :: rat

record engine =
  en_nodes :: "(string \<times> gpu_node) list"
  en_pending :: "job_metrics list"

definition backpressure_threshold :: rat where "backpressure_threshold = 85 / 100"
definition max_queue_depth :: nat where "max_queue_depth = 50"
definition fair_share_weight_factor :: rat where "fair_share_weight_factor = 3 / 2"

definition engine_init :: engine where
  "engine_init = \<lparr>en_nodes = [], en_pending = []\<rparr>"

definition register_node :: "string \<Rightarrow> rat \<Rightarrow> engine \<Rightarrow> engine" where
  "register_node name vram e = e\<lparr>en_nodes := AList.update name (new_gpu_node name vram) (en_nodes e)\<rparr>"

definition unregister_node :: "string \<Rightarrow> engine \<Rightarrow> engine" where
  "unregister_node name e = e\<lparr>en_nodes := AList.delete name (en_nodes e)\<rparr>"

definition release_job :: "string \<Rightarrow> string option \<Rightarrow> engine \<Rightarrow> engine" where
  "release_job job node e =
     (if truthy node \<and> map_of (en_nodes e) (the node) \<noteq> None
      then e\<lparr>en_nodes := AList.update (the node) (node_release job (the (map_of (en_nodes e) (the node)))) (en_nodes e)\<rparr>
      else e\<lparr>en_nodes := map (\<lambda>(k, n). (k, node_release job n)) (en_nodes e)\<rparr>)"

definition compute_batch_size :: "rat \<Rightarrow> gpu_node \<Rightarrow> int" where
  "compute_batch_size vram n =
     (if vram_free_gb n < vram then 1
      else max 1 (min (trunc (min (vram_free_gb n - vram) VRAM_SAFE_LIMIT_GB * 4)) 32))"

definition compute_wait_estimate :: "job_metrics \<Rightarrow> engine \<Rightarrow> rat" where
  "compute_wait_estimate j e =
     of_nat (length (filter (\<lambda>k. jm_priority k > jm_priority j) (en_pending e))) * (if jm_runtime j = 0 then 300 else jm_runtime j)"

definition queue_saturation :: "engine \<Rightarrow> rat" where
  "queue_saturation e = of_nat (length (en_pending e)) / of_nat max_queue_depth"

definition node_utilization :: "engine \<Rightarrow> rat" where
  "node_utilization e = sum_list (map (utilization_ratio \<circ> snd) (en_nodes e)) / of_nat (max 1 (length (en_nodes e)))"

definition apply_backpressure :: "engine \<Rightarrow> bool" where
  "apply_backpressure e = (queue_saturation e \<ge> backpressure_threshold \<or> node_utilization e \<ge> 9 / 10)"

text \<open>\<open>min(..., key=...)\<close> gives the first of the least ones.\<close>

fun least_used :: "gpu_node \<Rightarrow> gpu_node list \<Rightarrow> gpu_node" where
  "least_used n [] = n"
| "least_used n (m # ms) = least_used (if utilization_ratio m < utilization_ratio n then m else n) ms"

definition select_best_node :: "rat \<Rightarrow> engine \<Rightarrow> gpu_node option" where
  "select_best_node vram e =
     (case filter (\<lambda>n. can_allocate n \<and> vram_free_gb n \<ge> vram) (map snd (en_nodes e)) of
        [] \<Rightarrow> None
      | n # ns \<Rightarrow> Some (least_used n ns))"

text \<open>\<open>age_jobs\<close>: the metrics have no attribute \<open>enqueued_at\<close>, so the default \<open>now\<close> is taken for every job.\<close>

definition age_jobs :: "rat \<Rightarrow> engine \<Rightarrow> engine" where
  "age_jobs now e = e\<lparr>en_pending := map (\<lambda>j. j\<lparr>jm_age := now - now, jm_wait := now - now\<rparr>) (en_pending e)\<rparr>"

datatype placement =
    RejectBackpressure
  | ScheduleNow string rat int
  | QueuePriority nat rat

definition pending_order :: "job_metrics list \<Rightarrow> job_metrics list" where
  "pending_order js = sort_key (\<lambda>j. - jm_priority j) (sort_key jm_age js)"

definition schedule :: "string \<Rightarrow> int \<Rightarrow> rat \<Rightarrow> rat \<Rightarrow> engine \<Rightarrow> engine \<times> placement" where
  "schedule job prio vram runtime e =
     (let m = \<lparr>jm_job = job, jm_priority = of_int prio, jm_vram = vram, jm_age = 0, jm_wait = 0,
               jm_ratio = queue_saturation e, jm_runtime = runtime\<rparr>
      in if apply_backpressure e then (e, RejectBackpressure)
         else case select_best_node vram e of
                Some n \<Rightarrow>
                  (e\<lparr>en_nodes := AList.update (gn_name n) (fst (node_allocate job vram n)) (en_nodes e)\<rparr>,
                   ScheduleNow (gn_name n) vram (compute_batch_size vram n))
              | None \<Rightarrow>
                  (let aged = jm_priority m + of_int (trunc (jm_age m / 60)) * fair_share_weight_factor
                   in (e\<lparr>en_pending := pending_order (en_pending e @ [m\<lparr>jm_priority := aged\<rparr>])\<rparr>,
                       QueuePriority (length (en_pending e) + 1) (compute_wait_estimate m e))))"

section \<open>Well-formed engines\<close>

text \<open>A node is a slot: free, or held by one job with its share. The books say nothing else.\<close>

definition node_ok :: "gpu_node \<Rightarrow> bool" where
  "node_ok n \<longleftrightarrow>
     (gn_active n = [] \<and> gn_allocations n = [] \<and> gn_used n = 0 \<and> 0 \<le> gn_total n)
     \<or> (\<exists>job g. gn_active n = [job] \<and> gn_allocations n = [(job, g)] \<and> gn_used n = g \<and> 0 \<le> g \<and> g \<le> gn_total n)"

definition pending_sorted :: "job_metrics list \<Rightarrow> bool" where
  "pending_sorted js \<longleftrightarrow> sorted (map (\<lambda>j. - jm_priority j) js)"

definition engine_ok :: "engine \<Rightarrow> bool" where
  "engine_ok e \<longleftrightarrow> distinct (map fst (en_nodes e)) \<and> (\<forall>(k, n) \<in> set (en_nodes e). gn_name n = k \<and> node_ok n)
     \<and> pending_sorted (en_pending e) \<and> length (en_pending e) \<le> 43"

lemma new_gpu_node_ok: "0 \<le> vram \<Longrightarrow> node_ok (new_gpu_node name vram)"
  by (simp add: node_ok_def new_gpu_node_def)

lemma can_allocate_free: "node_ok n \<Longrightarrow> can_allocate n \<Longrightarrow> gn_active n = [] \<and> gn_allocations n = [] \<and> gn_used n = 0"
  by (auto simp: node_ok_def can_allocate_def MAX_CONCURRENT_JOBS_def)

lemma node_allocate_ok:
  assumes "node_ok n" and "0 \<le> vram"
  shows "node_ok (fst (node_allocate job vram n)) \<and> gn_name (fst (node_allocate job vram n)) = gn_name n"
  using assms can_allocate_free [OF assms(1)]
  by (auto simp: node_allocate_def) (auto simp: node_ok_def vram_free_gb_def)

lemma node_release_ok: "node_ok n \<Longrightarrow> node_ok (node_release job n) \<and> gn_name (node_release job n) = gn_name n"
  by (auto simp: node_ok_def node_release_def)

text \<open>A release undoes an allocation, and a second release changes nothing.\<close>

lemma allocate_release:
  assumes "node_ok n" and "node_allocate job vram n = (m, True)" and "job \<notin> set (gn_active n)"
  shows "node_release job m = n \<and> node_release job (node_release job m) = n"
proof -
  have "node_release job m = n"
    using assms can_allocate_free [OF assms(1)]
    by (auto simp: node_allocate_def node_release_def split: if_splits)
  with assms(3) show ?thesis by (simp add: node_release_def)
qed

lemma least_used_spec:
  "least_used n ms \<in> insert n (set ms) \<and> (\<forall>m\<in>insert n (set ms). utilization_ratio (least_used n ms) \<le> utilization_ratio m)"
  by (induction n ms rule: least_used.induct) (auto split: if_splits)

lemma select_best_node_spec:
  "(select_best_node vram e = None \<longleftrightarrow> (\<forall>n\<in>snd ` set (en_nodes e). \<not> (can_allocate n \<and> vram \<le> vram_free_gb n)))
   \<and> (\<forall>b. select_best_node vram e = Some b \<longrightarrow>
        b \<in> snd ` set (en_nodes e) \<and> can_allocate b \<and> vram \<le> vram_free_gb b
        \<and> (\<forall>n\<in>snd ` set (en_nodes e). can_allocate n \<and> vram \<le> vram_free_gb n \<longrightarrow> utilization_ratio b \<le> utilization_ratio n))"
proof (cases "filter (\<lambda>n. can_allocate n \<and> vram_free_gb n \<ge> vram) (map snd (en_nodes e))")
  case Nil
  then show ?thesis by (auto simp: select_best_node_def filter_empty_conv)
next
  case (Cons n ns)
  have c: "insert n (set ns) = {n \<in> snd ` set (en_nodes e). can_allocate n \<and> vram \<le> vram_free_gb n}"
    using arg_cong [OF Cons, of set] by auto
  have m: "b \<in> insert n (set ns) \<longleftrightarrow> b \<in> snd ` set (en_nodes e) \<and> can_allocate b \<and> vram \<le> vram_free_gb b" for b
    unfolding c by blast
  let ?b = "least_used n ns"
  have sel: "select_best_node vram e = Some ?b" using Cons by (simp add: select_best_node_def)
  have in_set: "?b \<in> snd ` set (en_nodes e) \<and> can_allocate ?b \<and> vram \<le> vram_free_gb ?b"
    using least_used_spec [of n ns] m by blast
  moreover have "utilization_ratio ?b \<le> utilization_ratio x"
    if "x \<in> snd ` set (en_nodes e)" "can_allocate x \<and> vram \<le> vram_free_gb x" for x
    using least_used_spec [of n ns] m that by blast
  ultimately show ?thesis unfolding sel by blast
qed

lemma pending_order_sorted: "pending_sorted (pending_order js)"
  by (simp add: pending_sorted_def pending_order_def)

lemma pending_order_length [simp]: "length (pending_order js) = length js"
  by (simp add: pending_order_def)

lemma pending_order_mset [simp]: "mset (pending_order js) = mset js"
  by (simp add: pending_order_def)

lemma below_threshold: "queue_saturation e < backpressure_threshold \<longleftrightarrow> length (en_pending e) < 43"
proof -
  have "queue_saturation e < backpressure_threshold \<longleftrightarrow> (of_nat (length (en_pending e)) :: rat) < 85 / 2"
    by (simp add: queue_saturation_def backpressure_threshold_def max_queue_depth_def field_simps)
  also have "\<dots> \<longleftrightarrow> length (en_pending e) < 43"
  proof
    assume "(of_nat (length (en_pending e)) :: rat) < 85 / 2"
    then have "(of_nat (length (en_pending e)) :: rat) < of_nat 43" by simp
    then show "length (en_pending e) < 43" by (simp only: of_nat_less_iff)
  next
    assume "length (en_pending e) < 43"
    then have "(of_nat (length (en_pending e)) :: rat) \<le> of_nat 42" by (simp only: of_nat_le_iff)
    then show "(of_nat (length (en_pending e)) :: rat) < 85 / 2" by simp
  qed
  finally show ?thesis .
qed

section \<open>Reachable engines\<close>

inductive engine_step :: "engine \<Rightarrow> engine \<Rightarrow> bool" where
  est_register: "0 \<le> vram \<Longrightarrow> engine_step e (register_node name vram e)"
| est_unregister: "engine_step e (unregister_node name e)"
| est_release: "engine_step e (release_job job node e)"
| est_age: "engine_step e (age_jobs now e)"
| est_schedule: "0 \<le> vram \<Longrightarrow> schedule job prio vram runtime e = (e', r) \<Longrightarrow> engine_step e e'"

interpretation eng: transition_system "\<lambda>e. e = engine_init" engine_step .

lemma nodes_update_ok:
  assumes "engine_ok e" and "gn_name n = k" and "node_ok n"
  shows "engine_ok (e\<lparr>en_nodes := AList.update k n (en_nodes e)\<rparr>)"
  using assms AList_update_set [of k n "en_nodes e"] by (fastforce simp: engine_ok_def distinct_update)

lemma nodes_delete_ok: "engine_ok e \<Longrightarrow> engine_ok (e\<lparr>en_nodes := AList.delete k (en_nodes e)\<rparr>)"
  using AList_delete_set [of k "en_nodes e"] by (auto simp: engine_ok_def distinct_delete)

lemma engine_node: "engine_ok e \<Longrightarrow> n \<in> snd ` set (en_nodes e) \<Longrightarrow> node_ok n \<and> map_of (en_nodes e) (gn_name n) = Some n"
  by (auto simp: engine_ok_def)

lemma release_job_ok:
  assumes "engine_ok e"
  shows "engine_ok (release_job job node e)"
proof (cases "truthy node \<and> map_of (en_nodes e) (the node) \<noteq> None")
  case True
  then obtain k n where k: "node = Some k" "map_of (en_nodes e) k = Some n" by (cases node) auto
  then have "gn_name n = k" "node_ok n" using assms map_of_SomeD by (fastforce simp: engine_ok_def)+
  with node_release_ok have "gn_name (node_release job n) = k" "node_ok (node_release job n)" by auto
  from nodes_update_ok [OF assms this] True k show ?thesis by (simp add: release_job_def)
next
  case False
  let ?f = "\<lambda>(k, n). (k, node_release job n)"
  have "map fst (map ?f (en_nodes e)) = map fst (en_nodes e)" by (simp add: case_prod_beta)
  moreover have "\<forall>(k, n) \<in> set (map ?f (en_nodes e)). gn_name n = k \<and> node_ok n"
    using assms node_release_ok by (auto simp: engine_ok_def)
  moreover have "release_job job node e = e\<lparr>en_nodes := map ?f (en_nodes e)\<rparr>"
    using False unfolding release_job_def by (rule if_not_P)
  ultimately show ?thesis using assms unfolding engine_ok_def by (simp del: map_map)
qed

lemma schedule_ok:
  assumes "engine_ok e" and "0 \<le> vram" and "schedule job prio vram runtime e = (e', r)"
  shows "engine_ok e' \<and> length (en_pending e) \<le> length (en_pending e')"
proof (cases "select_best_node vram e")
  case None
  then show ?thesis
    using assms below_threshold [of e] pending_order_sorted
    by (auto simp: schedule_def engine_ok_def apply_backpressure_def Let_def split: if_splits)
next
  case (Some n)
  then have "n \<in> snd ` set (en_nodes e)" using select_best_node_spec by blast
  with engine_node [OF assms(1)] have "node_ok n" by blast
  note a = node_allocate_ok [OF this assms(2), of job]
  from nodes_update_ok [OF assms(1) conjunct2 [OF a] conjunct1 [OF a]] assms(1,3) Some show ?thesis
    by (auto simp: schedule_def Let_def split: if_splits)
qed

lemma age_jobs_ok: "engine_ok e \<Longrightarrow> engine_ok (age_jobs now e)"
  by (simp add: engine_ok_def age_jobs_def pending_sorted_def comp_def)

lemma engine_step_ok: "engine_ok e \<Longrightarrow> engine_step e f \<Longrightarrow> engine_ok f \<and> length (en_pending e) \<le> length (en_pending f)"
proof (rotate_tac, induction rule: engine_step.induct)
  case (est_register vram e name)
  have "gn_name (new_gpu_node name vram) = name" by (simp add: new_gpu_node_def)
  with est_register nodes_update_ok new_gpu_node_ok show ?case by (simp add: register_node_def)
next
  case (est_release e job node)
  then have "engine_ok (release_job job node e)" by (rule release_job_ok)
  then show ?case by (simp add: release_job_def)
next
  case (est_schedule vram job prio runtime e e' r)
  then show ?case using schedule_ok by blast
next
  case (est_age e now)
  then show ?case using age_jobs_ok by (simp add: age_jobs_def)
next
  case (est_unregister e name)
  then show ?case by (simp add: unregister_node_def nodes_delete_ok)
qed

lemma engine_init_ok: "engine_ok engine_init"
  by (simp add: engine_ok_def engine_init_def pending_sorted_def)

lemma engine_reach_ok: "eng.reach e \<Longrightarrow> engine_ok e"
  by (rule eng.invariant_reach) (auto simp: engine_init_ok dest: engine_step_ok)

section \<open>Properties of the engine\<close>

text \<open>GPU memory is never overcommitted. In every state reachable by registering, removing, scheduling, releasing
  and ageing in any order, every node runs at most one job, its used memory is exactly the sum of the shares of its
  active jobs and at most its total, no more than 43 jobs wait, and they wait in the order of their priority.\<close>

theorem placement_invariant:
  assumes "eng.reach e" and "map_of (en_nodes e) k = Some n"
  shows "length (gn_active n) \<le> MAX_CONCURRENT_JOBS \<and> map fst (gn_allocations n) = gn_active n
    \<and> gn_used n = sum_list (map snd (gn_allocations n)) \<and> 0 \<le> gn_used n \<and> gn_used n \<le> gn_total n \<and> gn_name n = k
    \<and> pending_sorted (en_pending e) \<and> length (en_pending e) \<le> 43"
proof -
  have ok: "engine_ok e" by (rule engine_reach_ok [OF assms(1)])
  then have "gn_name n = k \<and> node_ok n" using map_of_SomeD [OF assms(2)] by (auto simp: engine_ok_def)
  then show ?thesis using ok by (auto simp: node_ok_def engine_ok_def MAX_CONCURRENT_JOBS_def)
qed

definition demo_engine :: engine where
  "demo_engine = register_node ''n1'' VRAM_TOTAL_GB engine_init"

lemma demo_engine_reach: "eng.reach demo_engine"
  unfolding demo_engine_def
  by (rule eng.reach_step [OF eng.reach_init est_register]) (simp_all add: VRAM_TOTAL_GB_def)

lemma demo_engine_schedule:
  "schedule ''j1'' 5 4 300 demo_engine =
     (demo_engine\<lparr>en_nodes := [(''n1'', \<lparr>gn_name = ''n1'', gn_total = 21 / 2, gn_used = 4, gn_allocations = [(''j1'', 4)], gn_active = [''j1'']\<rparr>)]\<rparr>,
      ScheduleNow ''n1'' 4 26)"
  by code_simp

theorem placement_invariant_witness:
  "length (gn_active \<lparr>gn_name = ''n1'', gn_total = 21 / 2, gn_used = 4, gn_allocations = [(''j1'', 4)], gn_active = [''j1'']\<rparr>)
     \<le> MAX_CONCURRENT_JOBS"
  using placement_invariant [OF eng.reach_step [OF demo_engine_reach est_schedule [OF _ demo_engine_schedule]], of "''n1''"] by simp

lemma batch_size_bounds: "1 \<le> compute_batch_size vram n \<and> compute_batch_size vram n \<le> 32"
  by (simp add: compute_batch_size_def)

lemma batch_size_fits:
  assumes "vram \<le> vram_free_gb n"
  shows "compute_batch_size vram n = 1 \<or> vram + of_int (compute_batch_size vram n) / 4 \<le> vram_free_gb n"
proof (cases "trunc (min (vram_free_gb n - vram) VRAM_SAFE_LIMIT_GB * 4) \<le> 1")
  case True
  then show ?thesis using assms by (simp add: compute_batch_size_def)
next
  case False
  let ?x = "min (vram_free_gb n - vram) VRAM_SAFE_LIMIT_GB * 4"
  have "0 \<le> ?x" using assms by (simp add: VRAM_SAFE_LIMIT_GB_def)
  then have "of_int (trunc ?x) \<le> ?x" by (simp add: trunc_def)
  moreover have "compute_batch_size vram n \<le> trunc ?x" using False assms by (simp add: compute_batch_size_def)
  then have "(of_int (compute_batch_size vram n) :: rat) \<le> of_int (trunc ?x)" by (simp only: of_int_le_iff)
  ultimately have "of_int (compute_batch_size vram n) \<le> (vram_free_gb n - vram) * 4" by (simp add: min_def split: if_splits)
  then show ?thesis by simp
qed

text \<open>Scheduling is exact. From a reachable engine a request is rejected exactly under back-pressure and changes
  nothing then. Otherwise it is placed exactly when some node is free and large enough: on one of the least utilised
  such nodes, which then holds this job alone with its share, other nodes and the waiting jobs untouched, with a batch
  of 1 to 32 that fits beside the share in the node's memory unless it is 1. Otherwise it joins the waiting jobs.\<close>

theorem schedule_is_exact:
  assumes "eng.reach e" and "schedule job prio vram runtime e = (e', r)"
  shows "case r of
      RejectBackpressure \<Rightarrow> apply_backpressure e \<and> e' = e
    | ScheduleNow k g bs \<Rightarrow> \<not> apply_backpressure e \<and> g = vram \<and> en_pending e' = en_pending e
        \<and> (\<exists>n. map_of (en_nodes e) k = Some n \<and> gn_active n = [] \<and> vram \<le> vram_free_gb n
             \<and> (\<forall>m\<in>snd ` set (en_nodes e). can_allocate m \<and> vram \<le> vram_free_gb m \<longrightarrow> utilization_ratio n \<le> utilization_ratio m)
             \<and> map_of (en_nodes e') = (map_of (en_nodes e))(k \<mapsto> n\<lparr>gn_active := [job], gn_allocations := [(job, vram)], gn_used := vram\<rparr>)
             \<and> 1 \<le> bs \<and> bs \<le> 32 \<and> (bs = 1 \<or> vram + of_int bs / 4 \<le> vram_free_gb n))
    | QueuePriority pos w \<Rightarrow> \<not> apply_backpressure e \<and> en_nodes e' = en_nodes e
        \<and> (\<forall>n\<in>snd ` set (en_nodes e). can_allocate n \<longrightarrow> vram_free_gb n < vram)
        \<and> pos = length (en_pending e') \<and> image_mset jm_job (mset (en_pending e')) = add_mset job (image_mset jm_job (mset (en_pending e)))"
proof (cases "apply_backpressure e")
  case True
  then show ?thesis using assms(2) by (auto simp: schedule_def)
next
  case nb: False
  show ?thesis
  proof (cases "select_best_node vram e")
    case None
    then have "\<forall>n\<in>snd ` set (en_nodes e). can_allocate n \<longrightarrow> vram_free_gb n < vram"
      using select_best_node_spec [of vram e] by (simp add: not_le)
    then show ?thesis using assms(2) nb None by (auto simp: schedule_def Let_def)
  next
    case (Some n)
    have ok: "engine_ok e" by (rule engine_reach_ok [OF assms(1)])
    from Some select_best_node_spec [of vram e]
    have n: "n \<in> snd ` set (en_nodes e)" "can_allocate n" "vram \<le> vram_free_gb n"
      "\<forall>m\<in>snd ` set (en_nodes e). can_allocate m \<and> vram \<le> vram_free_gb m \<longrightarrow> utilization_ratio n \<le> utilization_ratio m"
      by blast+
    with engine_node [OF ok] have m: "node_ok n" "map_of (en_nodes e) (gn_name n) = Some n" by blast+
    have "fst (node_allocate job vram n) = n\<lparr>gn_active := [job], gn_allocations := [(job, vram)], gn_used := vram\<rparr>"
      using can_allocate_free [OF m(1) n(2)] n(2,3) by (simp add: node_allocate_def)
    with assms(2) nb Some n m can_allocate_free [OF m(1) n(2)] batch_size_bounds batch_size_fits show ?thesis
      by (auto simp: schedule_def Let_def update_conv')
  qed
qed

theorem schedule_is_exact_witness:
  "\<not> apply_backpressure demo_engine
   \<and> (\<exists>n. map_of (en_nodes demo_engine) ''n1'' = Some n \<and> gn_active n = [] \<and> 4 \<le> vram_free_gb n \<and> 4 + of_int 26 / 4 \<le> vram_free_gb n)"
  using schedule_is_exact [OF demo_engine_reach demo_engine_schedule] by auto

text \<open>The waiting queue only fills. Along every run the number of waiting jobs never drops, since nothing takes a
  job out; once 43 jobs wait, every further request is rejected for ever, even when all nodes are free.\<close>

theorem saturated_engine_rejects_forever:
  assumes "eng.reach e" and "length (en_pending e) \<ge> 43" and "eng.path e f"
  shows "schedule job prio vram runtime f = (f, RejectBackpressure)"
proof -
  have "engine_ok f \<and> length (en_pending e) \<le> length (en_pending f)"
    using assms(3) engine_reach_ok [OF assms(1)]
    by (induction rule: eng.path.induct) (auto dest: engine_step_ok)
  then have "\<not> queue_saturation f < backpressure_threshold" using below_threshold assms(2) by simp
  then show ?thesis by (simp add: schedule_def apply_backpressure_def not_less)
qed

section \<open>Admission by saturation\<close>

record bp_config =
  bc_saturation_max :: rat
  bc_saturation_warn :: rat
  bc_queue_max :: int
  bc_reserve :: int
  bc_cooldown :: int

definition default_bp_config :: bp_config where
  "default_bp_config = \<lparr>bc_saturation_max = 9 / 10, bc_saturation_warn = 3 / 4, bc_queue_max = 100, bc_reserve = 512, bc_cooldown = 30\<rparr>"

record bp_state =
  bp_last :: "rat option"
  bp_used :: int
  bp_available :: int

definition bp_init :: bp_state where
  "bp_init = \<lparr>bp_last = None, bp_used = 0, bp_available = 10240\<rparr>"

datatype bp_reason = CooldownActive int | SaturationOver rat | SaturationWarning rat | ReasonOk

record bp_status =
  bs_saturation :: rat
  bs_admitting :: bool
  bs_throttling :: bool
  bs_reason :: bp_reason
  bs_cooldown :: int

definition cooldown_remaining :: "bp_config \<Rightarrow> rat \<Rightarrow> bp_state \<Rightarrow> int" where
  "cooldown_remaining cf now s = (case bp_last s of None \<Rightarrow> 0 | Some t \<Rightarrow> max 0 (bc_cooldown cf - trunc (now - t)))"

definition bp_get_reason :: "bp_config \<Rightarrow> rat \<Rightarrow> int \<Rightarrow> bp_reason" where
  "bp_get_reason cf sat cd =
     (if cd > 0 then CooldownActive cd
      else if sat > bc_saturation_max cf then SaturationOver sat
      else if sat > bc_saturation_warn cf then SaturationWarning sat else ReasonOk)"

definition bp_get_status :: "bp_config \<Rightarrow> rat \<Rightarrow> bp_state \<Rightarrow> bp_status" where
  "bp_get_status cf now s =
     (let cd = cooldown_remaining cf now s;
          sat = (if bp_available s > 0 then of_int (bp_used s) / of_int (bp_available s) else 0);
          thr = (sat > bc_saturation_max cf \<or> cd > 0)
      in \<lparr>bs_saturation = sat, bs_admitting = (\<not> thr), bs_throttling = thr, bs_reason = bp_get_reason cf sat cd, bs_cooldown = cd\<rparr>)"

datatype admit_reason = InCooldown int | WouldSaturate | NoRoom int int | AdmittedCritical | Admitted

definition trigger_backpressure :: "rat \<Rightarrow> bp_state \<Rightarrow> bp_state" where
  "trigger_backpressure now s = s\<lparr>bp_last := Some now\<rparr>"

definition should_admit :: "bp_config \<Rightarrow> rat \<Rightarrow> int \<Rightarrow> int \<Rightarrow> bp_state \<Rightarrow> bp_state \<times> (bool \<times> admit_reason) result" where
  "should_admit cf now vram prio s =
     (let cd = bs_cooldown (bp_get_status cf now s)
      in if cd > 0 then (s, Inr (False, InCooldown cd))
         else if bp_available s = 0 then (s, Inl ZeroDivisionError)
         else if of_int (bp_used s + vram) / of_int (bp_available s) > bc_saturation_max cf
              then (trigger_backpressure now s, Inr (False, WouldSaturate))
         else let room = bp_available s - bp_used s - bc_reserve cf
              in if vram > room then (trigger_backpressure now s, Inr (False, NoRoom vram room))
                 else if prio \<le> 1 then (s, Inr (True, AdmittedCritical))
                 else (s, Inr (True, Admitted)))"

definition record_job_start :: "int \<Rightarrow> bp_state \<Rightarrow> bp_state" where
  "record_job_start vram s = s\<lparr>bp_used := bp_used s + vram\<rparr>"

definition record_job_complete :: "int \<Rightarrow> bp_state \<Rightarrow> bp_state" where
  "record_job_complete vram s = s\<lparr>bp_used := max 0 (bp_used s - vram)\<rparr>"

definition update_queue_depth :: "bp_config \<Rightarrow> rat \<Rightarrow> int \<Rightarrow> bp_state \<Rightarrow> bp_state" where
  "update_queue_depth cf now depth s = (if depth > bc_queue_max cf then trigger_backpressure now s else s)"

definition update_gpu_vram :: "int \<Rightarrow> int \<Rightarrow> bp_state \<Rightarrow> bp_state" where
  "update_gpu_vram used avail s = s\<lparr>bp_used := used, bp_available := avail\<rparr>"

text \<open>Jobs that start only when admitted; completions, queue reports and refused requests in between.\<close>

inductive bp_step :: "bp_config \<Rightarrow> bp_state \<Rightarrow> bp_state \<Rightarrow> bool" for cf where
  bps_start: "should_admit cf now vram prio s = (s', Inr (True, r)) \<Longrightarrow> bp_step cf s (record_job_start vram s')"
| bps_refuse: "should_admit cf now vram prio s = (s', Inr (False, r)) \<Longrightarrow> bp_step cf s s'"
| bps_complete: "0 \<le> vram \<Longrightarrow> bp_step cf s (record_job_complete vram s)"
| bps_queue: "bp_step cf s (update_queue_depth cf now depth s)"

interpretation adm: transition_system "\<lambda>s. s = bp_init" "bp_step default_bp_config" .

definition bp_ok :: "bp_config \<Rightarrow> bp_state \<Rightarrow> bool" where
  "bp_ok cf s \<longleftrightarrow> 0 < bp_available s \<and> of_int (bp_used s) \<le> bc_saturation_max cf * of_int (bp_available s)
     \<and> (bp_used s + bc_reserve cf \<le> bp_available s)"

lemma admit_keeps:
  "should_admit cf now vram prio s = (s', r) \<Longrightarrow> bp_used s' = bp_used s \<and> bp_available s' = bp_available s"
  by (auto simp: should_admit_def trigger_backpressure_def Let_def split: if_splits)

lemma admit_True:
  assumes "should_admit cf now vram prio s = (s', Inr (True, r))" and "0 < bp_available s"
  shows "s' = s \<and> cooldown_remaining cf now s \<le> 0
    \<and> of_int (bp_used s + vram) \<le> bc_saturation_max cf * of_int (bp_available s)
    \<and> bp_used s + vram + bc_reserve cf \<le> bp_available s"
  using assms by (auto simp: should_admit_def bp_get_status_def Let_def not_less divide_le_eq split: if_splits)

lemma bp_step_ok:
  assumes "bp_step cf s t" and "bp_ok cf s" and "0 \<le> bc_saturation_max cf" and "bc_reserve cf \<le> bp_available s"
  shows "bp_ok cf t \<and> bp_available t = bp_available s"
  using assms
proof (induction rule: bp_step.induct)
  case (bps_start now vram prio s s' r)
  with admit_True [OF bps_start(1)] show ?case by (simp add: bp_ok_def record_job_start_def)
next
  case (bps_refuse now vram prio s s' r)
  with admit_keeps [OF bps_refuse(1)] show ?case by (simp add: bp_ok_def)
next
  case (bps_complete vram s)
  have "(of_int (bp_used s - vram) :: rat) \<le> of_int (bp_used s)" using bps_complete(1) by (simp only: of_int_le_iff)
  with bps_complete show ?case by (auto simp: bp_ok_def record_job_complete_def max_def) 
next
  case (bps_queue s now depth)
  then show ?case by (simp add: bp_ok_def update_queue_depth_def trigger_backpressure_def)
qed

text \<open>Admission keeps the reserve. Starting from an idle card, over any sequence of admitted starts, refusals,
  completions and queue reports, the used memory stays within 90 percent of the card and leaves the 512 MB reserve.\<close>

theorem admission_keeps_reserve:
  assumes "adm.reach s"
  shows "bp_available s = 10240 \<and> of_int (bp_used s) \<le> 9 / 10 * (of_int (bp_available s) :: rat) \<and> bp_used s + 512 \<le> bp_available s"
proof -
  have "bp_ok default_bp_config s \<and> bp_available s = 10240"
  proof (rule adm.invariant_reach [OF _ _ assms])
    fix s t
    assume i: "bp_ok default_bp_config s \<and> bp_available s = 10240" and st: "bp_step default_bp_config s t"
    from bp_step_ok [OF st conjunct1 [OF i]] i show "bp_ok default_bp_config t \<and> bp_available t = 10240"
      by (simp add: default_bp_config_def)
  qed (simp add: bp_init_def bp_ok_def default_bp_config_def)
  then show ?thesis by (simp add: bp_ok_def default_bp_config_def)
qed

theorem admission_keeps_reserve_witness:
  "of_int (bp_used (record_job_start 8000 bp_init)) \<le> 9 / 10 * (of_int (bp_available (record_job_start 8000 bp_init)) :: rat)"
proof -
  have "should_admit default_bp_config 0 8000 5 bp_init = (bp_init, Inr (True, Admitted))" by code_simp
  from admission_keeps_reserve [OF adm.reach_step [OF adm.reach_init [OF refl] bps_start [OF this]]] show ?thesis by simp
qed

lemma trunc_less: "0 \<le> r \<Longrightarrow> trunc r < k \<longleftrightarrow> r < of_int k"
  by (simp add: trunc_def floor_less_iff)

lemma cooldown_after:
  assumes "bp_last s = Some t" and "t \<le> u"
  shows "0 < cooldown_remaining cf u s \<longleftrightarrow> u < t + of_int (bc_cooldown cf)"
  using assms trunc_less [of "u - t" "bc_cooldown cf"] by (auto simp: cooldown_remaining_def)

lemma refused_triggers:
  assumes "should_admit cf t vram prio s = (s', Inr (False, r))" and "\<forall>c. r \<noteq> InCooldown c"
  shows "bp_last s' = Some t"
  using assms by (auto simp: should_admit_def trigger_backpressure_def Let_def split: if_splits)

text \<open>One refusal closes the door for the whole cool-down. After a request at time \<open>t\<close> was refused for lack of
  memory, every request before \<open>t\<close> plus the cool-down is refused, however small it is, and changes nothing; from
  then on the cool-down refuses nothing any more.\<close>

theorem refusal_starts_cooldown:
  assumes "should_admit cf t vram prio s = (s', Inr (False, r))" and "\<forall>c. r \<noteq> InCooldown c" and "t \<le> u"
  shows "u < t + of_int (bc_cooldown cf) \<longleftrightarrow> (\<exists>c. should_admit cf u v p s' = (s', Inr (False, InCooldown c)))"
proof -
  have "0 < cooldown_remaining cf u s' \<longleftrightarrow> u < t + of_int (bc_cooldown cf)"
    by (rule cooldown_after [OF refused_triggers [OF assms(1,2)] assms(3)])
  moreover have "0 < cooldown_remaining cf u s' \<longleftrightarrow> (\<exists>c. should_admit cf u v p s' = (s', Inr (False, InCooldown c)))"
    by (auto simp: should_admit_def bp_get_status_def Let_def)
  ultimately show ?thesis by simp
qed

theorem refusal_starts_cooldown_witness:
  "\<exists>c. should_admit default_bp_config 20 1 5 (trigger_backpressure 0 bp_init) = (trigger_backpressure 0 bp_init, Inr (False, InCooldown c))"
proof -
  have "should_admit default_bp_config 0 20000 5 bp_init = (trigger_backpressure 0 bp_init, Inr (False, WouldSaturate))" by code_simp
  from refusal_starts_cooldown [OF this, of 20 1 5] show ?thesis by (simp add: default_bp_config_def)
qed

section \<open>Order of backends\<close>

record host_view =
  hv_id :: string
  hv_vram :: rat
  hv_score :: "rat option"

definition DEFAULT_FALLBACK :: "string list" where
  "DEFAULT_FALLBACK = [''vastai'', ''runpod'']"

definition prefer_own_hosts :: "string option \<Rightarrow> string option \<Rightarrow> bool" where
  "prefer_own_hosts prefer hosts =
     (strip (case prefer of None \<Rightarrow> ''0'' | Some v \<Rightarrow> v) = ''1'' \<and> strip (case hosts of None \<Rightarrow> ''0'' | Some v \<Rightarrow> v) = ''1'')"

text \<open>\<open>reg\<close> is \<open>None\<close> without a registry, else what asking it gives, its failure included.\<close>

definition backend_order :: "bool \<Rightarrow> host_view list result option \<Rightarrow> string list \<Rightarrow> rat \<Rightarrow> string list" where
  "backend_order prefer reg fallback min_vram =
     (case reg of
        None \<Rightarrow> fallback
      | Some r \<Rightarrow>
          if \<not> prefer then fallback
          else case r of
                 Inl _ \<Rightarrow> fallback
               | Inr hs \<Rightarrow>
                   map (\<lambda>h. ''host:'' @ hv_id h)
                     (sort_key (\<lambda>h. - (case hv_score h of None \<Rightarrow> 0 | Some x \<Rightarrow> x)) (sort_key hv_id (filter (\<lambda>h. hv_vram h \<ge> min_vram) hs)))
                   @ fallback)"

lemma backend_order_fallback:
  "\<exists>own. backend_order prefer reg fallback v = own @ fallback
     \<and> (\<forall>b\<in>set own. \<exists>hs h. prefer \<and> reg = Some (Inr hs) \<and> h \<in> set hs \<and> v \<le> hv_vram h \<and> b = ''host:'' @ hv_id h)"
  by (auto simp: backend_order_def split: option.splits sum.splits)

lemma backend_order_sorted:
  assumes "reg = Some (Inr hs)" and "prefer"
  shows "\<exists>own. backend_order prefer reg fallback v = map (\<lambda>h. ''host:'' @ hv_id h) own @ fallback
     \<and> mset own = filter_mset (\<lambda>h. v \<le> hv_vram h) (mset hs)
     \<and> sorted (map (\<lambda>h. - (case hv_score h of None \<Rightarrow> 0 | Some x \<Rightarrow> x)) own)"
proof (intro exI conjI)
  let ?own = "sort_key (\<lambda>h. - (case hv_score h of None \<Rightarrow> 0 | Some x \<Rightarrow> x)) (sort_key hv_id (filter (\<lambda>h. hv_vram h \<ge> v) hs))"
  show "backend_order prefer reg fallback v = map (\<lambda>h. ''host:'' @ hv_id h) ?own @ fallback"
    using assms by (simp add: backend_order_def)
  show "mset ?own = filter_mset (\<lambda>h. v \<le> hv_vram h) (mset hs)" by simp
  show "sorted (map (\<lambda>h. - (case hv_score h of None \<Rightarrow> 0 | Some x \<Rightarrow> x)) ?own)" by simp
qed

end
