(* ===== verification/Scheduler.thy ===== *)
theory Scheduler
  imports Placement Policy AuditLedger
begin

text \<open>
  Pricing, cost prediction and routing of jobs.

  \<^item> \<open>src/billing/pricing_engine.py\<close>: tiers, rates, task categories.
  \<^item> \<open>src/cost/predictor.py\<close>: the tier from the tenant's record, runtime and cost estimates, the verdict by
    quota for the free plan and by money for the paid ones.
  \<^item> \<open>src/scheduler/roma_scheduler.py\<close>: \<open>route_job\<close> with the confirmation, \<open>execute_job\<close>, the local
    execution with its allow-list, and the executor that keeps results per tenant. \<open>shlex.split\<close> is the
    standard library's.

  Money and seconds are rationals; texts for people and the metrics are left out. What the tenant table, the plans
  file, the usage table and the audit ledger do is an argument, failures included; so are the GPU connector and
  \<open>subprocess.run\<close>.

  Shown: a job is queued only for a known tenant on a mapped plan with an accepting verdict and an accepting gate;
  an unavailable gate, plan source or usage table always blocks; the price grows with the time and is free
  exactly on the free tier; a confirmation is in fact never asked for; local execution starts only Python.
\<close>

section \<open>Prices\<close>

datatype pricing_tier = FREE | PRO | ENTERPRISE

record price =
  pc_gpu :: rat
  pc_cpu :: rat
  pc_storage :: rat
  pc_total :: rat

record pricing =
  pg_utilization :: rat
  pg_multiplier :: rat

definition pricing_init :: pricing where
  "pricing_init = \<lparr>pg_utilization = 1 / 2, pg_multiplier = 1\<rparr>"

definition set_utilization :: "rat \<Rightarrow> pricing \<Rightarrow> pricing" where
  "set_utilization util p = p\<lparr>pg_utilization := util, pg_multiplier := 1 + util * (1 / 2)\<rparr>"

definition rates :: "pricing_tier \<Rightarrow> rat \<times> rat \<times> rat" where
  "rates t = (case t of FREE \<Rightarrow> (0, 0, 0) | PRO \<Rightarrow> (5 / 1000, 1 / 1000, 1 / 100000) | ENTERPRISE \<Rightarrow> (4 / 1000, 5 / 10000, 5 / 1000000))"

definition calculate :: "pricing \<Rightarrow> pricing_tier \<Rightarrow> rat \<Rightarrow> rat \<Rightarrow> rat \<Rightarrow> price" where
  "calculate p t gpu_s cpu_s gb_s =
     (case rates t of (gr, cr, br) \<Rightarrow>
        let g = gpu_s / 3600 * gr * pg_multiplier p; c = cpu_s / 3600 * cr; b = gb_s / 3600 * br
        in \<lparr>pc_gpu = pyround 6 g, pc_cpu = pyround 6 c, pc_storage = pyround 6 b, pc_total = pyround 6 (g + c + b)\<rparr>)"

definition pricing_estimate_cost :: "rat \<Rightarrow> rat \<Rightarrow> rat \<Rightarrow> rat" where
  "pricing_estimate_cost gpu_s cpu_s gb_s = pc_total (calculate pricing_init PRO gpu_s cpu_s gb_s)"

text \<open>
  The module defines the enumeration of categories twice. \<open>classify_task\<close> sees the second one, which lacks three of
  the members it names; the multipliers are keyed by members of the first, which equal none of the second.
\<close>

datatype task_category = CvTraining | LlmInference | ImageGen | DefaultCategory

definition mentions :: "string \<Rightarrow> string list \<Rightarrow> bool" where
  "mentions t kws = list_ex (\<lambda>kw. sublist kw t) kws"

definition LLM_WORDS :: "string list" where
  "LLM_WORDS = [''llm'', ''gpt'', ''bert'', ''transformer'', ''llama'']"

definition classify_task :: "string \<Rightarrow> task_category result" where
  "classify_task task =
     (let t = lower task
      in if mentions t [''train'', ''fine-tune'', ''finetune'']
         then (if mentions t LLM_WORDS then Inl AttributeError else Inr CvTraining)
         else if mentions t [''yolo'', ''detection'', ''inference'', ''predict'']
         then (if mentions t LLM_WORDS then Inr LlmInference else Inl AttributeError)
         else if mentions t [''stable'', ''diffusion'', ''image gen'', ''dalle''] then Inr ImageGen
         else if mentions t [''etl'', ''data'', ''processing'', ''transform''] then Inl AttributeError
         else Inr DefaultCategory)"

definition task_multiplier :: "task_category \<Rightarrow> int" where
  "task_multiplier c = 1"

definition estimate_duration :: "string \<Rightarrow> string \<Rightarrow> int result" where
  "estimate_duration task gpu_type =
     (let base = (case map_of [(''RTX3060'', 1800), (''RTX4090'', 900), (''A100'', 300), (''H100'', 150)] gpu_type of
                    None \<Rightarrow> 900 | Some b \<Rightarrow> b)
      in case classify_task task of Inl x \<Rightarrow> Inl x | Inr c \<Rightarrow> Inr (base * task_multiplier c))"

section \<open>The predictor\<close>

definition PLAN_TIER_MAP :: "(string \<times> pricing_tier) list" where
  "PLAN_TIER_MAP = [(''free'', FREE), (''pro'', PRO), (''enterprise'', ENTERPRISE)]"

definition label_map :: "(string \<times> pricing_tier) list" where
  "label_map = [(''FREE'', FREE), (''PRO'', PRO), (''ENTERPRISE'', ENTERPRISE)]"

text \<open>\<open>rowof\<close> is \<open>db.get_tenant\<close>; the column \<open>plan\<close> holds a string or NULL.\<close>

definition predict_tenant_plan :: "(string \<Rightarrow> pydict option) \<Rightarrow> string option \<Rightarrow> string option" where
  "predict_tenant_plan rowof tid =
     (if \<not> truthy tid then None
      else case rowof (the tid) of
             None \<Rightarrow> None
           | Some row \<Rightarrow> if row = [] then None else (case dict_get row ''plan'' of PStr p \<Rightarrow> Some p | _ \<Rightarrow> None))"

definition tier_from_plan :: "string \<Rightarrow> pricing_tier option" where
  "tier_from_plan plan = map_of PLAN_TIER_MAP (lower (strip plan))"

definition tier_of_label :: "string option \<Rightarrow> pricing_tier option" where
  "tier_of_label label = map_of label_map (upper (strip (opt_or label [])))"

text \<open>A refusal with its code, or the tier with the name of the plan.\<close>

definition resolve_tier ::
  "(string \<Rightarrow> pydict option) \<Rightarrow> string option \<Rightarrow> string option \<Rightarrow> bool \<Rightarrow> string + pricing_tier \<times> string" where
  "resolve_tier rowof tid label admin =
     (if admin then (case tier_of_label label of
                       None \<Rightarrow> Inl ''UNKNOWN_PLAN''
                     | Some t \<Rightarrow> Inr (t, lower (strip (opt_or label []))))
      else if \<not> truthy tid then Inl ''UNKNOWN_TENANT''
      else case predict_tenant_plan rowof tid of
             None \<Rightarrow> Inl ''UNKNOWN_TENANT''
           | Some plan \<Rightarrow>
               (case tier_from_plan plan of None \<Rightarrow> Inl ''UNKNOWN_PLAN'' | Some t \<Rightarrow> Inr (t, lower (strip plan))))"

definition estimate_runtime :: "string \<Rightarrow> bool \<Rightarrow> int" where
  "estimate_runtime plugin gpu =
     (let base = (case map_of [(''ml_training'', 7200), (''inference'', 1800), (''simulation'', 3600), (''data_processing'', 5400),
                               (''default'', 3600)] plugin of None \<Rightarrow> 3600 | Some b \<Rightarrow> b)
      in if gpu then trunc (of_int base * (11 / 10)) else base)"

definition assess_risk :: "int \<Rightarrow> string \<Rightarrow> string list" where
  "assess_risk duration task =
     (if duration > 36000 then [''LONG_RUNNING_TASK''] else [])
     @ (if mentions (lower task) [''yolov8'', ''llm''] then [''HIGH_COMPUTE_TASK''] else [])"

definition confidence_score :: "string \<Rightarrow> int \<Rightarrow> rat" where
  "confidence_score plugin duration =
     min (75 / 100 + (if plugin \<in> {''ml_training'', ''inference'', ''simulation''} then 15 / 100 else 0)
            + (if 1800 \<le> duration \<and> duration \<le> 14400 then 10 / 100 else 0)) (98 / 100)"

record verdict =
  vd_decision :: string
  vd_category :: "string option"

definition gate_unavailable :: verdict where
  "gate_unavailable = \<lparr>vd_decision = ''GATE_UNAVAILABLE'', vd_category = Some ''GATE_UNAVAILABLE''\<rparr>"

definition predictor_quota_verdict :: "plans_file \<Rightarrow> (string \<Rightarrow> pyval result) \<Rightarrow> string \<Rightarrow> int \<Rightarrow> string option \<Rightarrow> verdict result" where
  "predictor_quota_verdict f usage plan est tid =
     (let fail = (\<lambda>x. if x = UsageLedgerUnavailable \<or> x = PlanSourceError then Inr gate_unavailable else Inl x)
      in case get_plan_limits f (Some plan) of
           Inl x \<Rightarrow> fail x
         | Inr l \<Rightarrow>
             (case ledger_consumption (usage (opt_or tid [])) (opt_or tid []) of
                Inl x \<Rightarrow> fail x
              | Inr c \<Rightarrow>
                  (case free_quota_verdict l c (of_int est) of
                     Inl x \<Rightarrow> Inl x
                   | Inr v \<Rightarrow> Inr \<lparr>vd_decision = qv_decision v, vd_category = qv_category v\<rparr>)))"

definition money_limit :: "pricing_tier \<Rightarrow> rat" where
  "money_limit t = (case t of FREE \<Rightarrow> 1 | PRO \<Rightarrow> 50 | ENTERPRISE \<Rightarrow> 500)"

definition money_verdict :: "rat \<Rightarrow> pricing_tier \<Rightarrow> verdict" where
  "money_verdict cost t =
     (if cost > money_limit t \<or> cost > money_limit t * (8 / 10)
      then \<lparr>vd_decision = ''REQUIRES_CONFIRMATION'', vd_category = Some ''COST_ABOVE_TIER_LIMIT''\<rparr>
      else \<lparr>vd_decision = ''APPROVED'', vd_category = None\<rparr>)"

record prediction =
  pr_cost :: "rat option"
  pr_minutes :: rat
  pr_node :: string
  pr_count :: nat
  pr_risk :: string
  pr_confidence :: rat
  pr_tier :: "pricing_tier option"
  pr_gpu_seconds :: int
  pr_cpu_seconds :: int
  pr_flags :: "string list"
  pr_decision :: string
  pr_category :: "string option"

definition gpu_node_of :: "bool \<Rightarrow> engine option \<Rightarrow> string \<times> nat" where
  "gpu_node_of gpu pe =
     (if \<not> gpu then (''cpu-cluster'', 0)
      else case pe of
             None \<Rightarrow> (''gpu-node-1'', 1)
           | Some e \<Rightarrow> (case select_best_node 8 e of None \<Rightarrow> (''gpu-node-1'', 1) | Some n \<Rightarrow> (gn_name n, 1)))"

definition predict ::
  "(string \<Rightarrow> pydict option) \<Rightarrow> plans_file \<Rightarrow> (string \<Rightarrow> pyval result) \<Rightarrow> pricing \<Rightarrow> string \<Rightarrow> bool \<Rightarrow> string
     \<Rightarrow> string option \<Rightarrow> int option \<Rightarrow> engine option \<Rightarrow> string option \<Rightarrow> bool \<Rightarrow> prediction result" where
  "predict rowof f usage p task gpu plugin label custom pe tid admin =
     (let duration = (case custom of None \<Rightarrow> estimate_runtime plugin gpu | Some d \<Rightarrow> if d = 0 then estimate_runtime plugin gpu else d);
          gpu_s = (if gpu then duration else 0); cpu_s = (if gpu then 0 else duration);
          flags = assess_risk duration task;
          minutes = pyround 1 (of_int duration / 60); conf = confidence_score plugin duration
      in case resolve_tier rowof tid label admin of
           Inl code \<Rightarrow>
             Inr \<lparr>pr_cost = None, pr_minutes = minutes, pr_node = ''unpriced'', pr_count = 0, pr_risk = ''UNKNOWN'',
                  pr_confidence = conf, pr_tier = None, pr_gpu_seconds = gpu_s, pr_cpu_seconds = cpu_s, pr_flags = flags,
                  pr_decision = code, pr_category = None\<rparr>
         | Inr (t, plan) \<Rightarrow>
             (let cost = pc_total (calculate p t (of_int gpu_s) (of_int cpu_s) 0)
              in case (if plan = ''free'' then predictor_quota_verdict f usage plan gpu_s tid else Inr (money_verdict cost t)) of
                   Inl x \<Rightarrow> Inl x
                 | Inr v \<Rightarrow>
                     Inr \<lparr>pr_cost = Some (pyround 4 cost), pr_minutes = minutes, pr_node = fst (gpu_node_of gpu pe),
                          pr_count = snd (gpu_node_of gpu pe), pr_risk = (if ''HIGH_COMPUTE_TASK'' \<in> set flags then ''MEDIUM'' else ''LOW''),
                          pr_confidence = conf, pr_tier = Some t, pr_gpu_seconds = gpu_s, pr_cpu_seconds = cpu_s, pr_flags = flags,
                          pr_decision = vd_decision v, pr_category = vd_category v\<rparr>))"

section \<open>Routing\<close>

text \<open>A job as the scheduler reads it, and what the scheduler holds and sees.\<close>

record route_req =
  rq_gpu :: bool
  rq_task :: string
  rq_plugin :: string
  rq_plan_tier :: string
  rq_tenant :: "string option"
  rq_confirmed :: pyval
  rq_job :: "string option"
  rq_command :: "string option"

record sched =
  sc_rowof :: "string \<Rightarrow> pydict option"
  sc_plans :: plans_file
  sc_usage :: "string \<Rightarrow> pyval result"
  sc_jobs :: job_table
  sc_pricing :: pricing
  sc_engine :: engine
  sc_gpu_available :: bool
  sc_unavailable :: "string option"
  sc_gate :: bool

record confirm_net =
  cf_read :: pg_outcome
  cf_write :: pg_outcome
  cf_id :: string

datatype route =
    RouteRejected string "rat option"
  | RouteQueued string "string option" "rat option" string bool

text \<open>\<open>__init__\<close>: one node per worker of the connector, a default node without workers or on an error, and the gate, whose
  constructor may fail.\<close>

definition scheduler_engine :: "nat result \<Rightarrow> engine" where
  "scheduler_engine workers =
     (case workers of
        Inr n \<Rightarrow> if n > 0 then fold (\<lambda>i. register_node (''gpu-node-'' @ nat_str (i + 1)) VRAM_TOTAL_GB) [0..<n] engine_init
                else register_node ''gpu-node-1'' VRAM_TOTAL_GB engine_init
      | Inl _ \<Rightarrow> register_node ''gpu-node-1'' VRAM_TOTAL_GB engine_init)"

definition scheduler_gate :: "unit result \<Rightarrow> bool \<times> string option" where
  "scheduler_gate g = (case g of Inr _ \<Rightarrow> (True, None) | Inl x \<Rightarrow> (False, Some ''decision gate unavailable''))"

definition record_user_confirmation ::
  "confirm_net \<Rightarrow> route_req \<Rightarrow> prediction \<Rightarrow> audit_event list \<Rightarrow> audit_event list \<times> audit_answer result" where
  "record_user_confirmation cf job p rs =
     write_event_once (cf_read cf) (cf_write cf) (truthy (rq_job job)) (cf_id cf)
       (if truthy (rq_tenant job) then the (rq_tenant job) else ''unknown'') ''job.user_confirmed'' ''job''
       (if truthy (rq_job job) then the (rq_job job) else ''unknown'')
       [(''user_confirmed'', PBool True), (''decision'', PStr ''REQUIRES_CONFIRMATION''),
        (''estimated_cost'', case pr_cost p of None \<Rightarrow> PNone | Some c \<Rightarrow> PFloat (Fin c))] rs"

definition gate_value :: "gate_result \<Rightarrow> string" where
  "gate_value r = (case r of GateAllowed \<Rightarrow> ''allowed'' | GateDenied \<Rightarrow> ''denied'')"

text \<open>From the confirmation on: the gate, and the target.\<close>

definition route_gate :: "sched \<Rightarrow> route_req \<Rightarrow> prediction \<Rightarrow> bool \<Rightarrow> route result" where
  "route_gate sc job p confirmed =
     (if \<not> sc_gate sc then Inr (RouteRejected (opt_or (sc_unavailable sc) ''decision gate unavailable'') (pr_cost p))
      else let t = opt_or (rq_tenant job) ''default''
           in case gate_evaluate (sc_plans sc) (sc_rowof sc t) (sc_jobs sc) t
                     [(''task'', PStr (rq_task job)), (''gpu_required'', PBool (rq_gpu job)), (''plugin_type'', PStr (rq_plan_tier job))] of
                Inl x \<Rightarrow> Inl x
              | Inr d \<Rightarrow>
                  if is_rejection (Some (gate_value (gd_result d))) None
                  then Inr (RouteRejected (gate_text (gd_reason d)) (pr_cost p))
                  else Inr (RouteQueued (if rq_gpu job \<and> sc_gpu_available sc then ''gpu_worker'' else ''local'') (rq_job job) (pr_cost p)
                              (gate_value (gd_result d)) confirmed))"

definition route_job :: "sched \<Rightarrow> confirm_net \<Rightarrow> route_req \<Rightarrow> audit_event list \<Rightarrow> audit_event list \<times> route result" where
  "route_job sc cf job rs =
     (if sc_unavailable sc \<noteq> None then (rs, Inr (RouteRejected ''GATE_UNAVAILABLE'' None))
      else case predict (sc_rowof sc) (sc_plans sc) (sc_usage sc) (sc_pricing sc) (rq_task job) (rq_gpu job) (rq_plugin job)
                  (Some ''FREE'') None (Some (sc_engine sc)) (rq_tenant job) False of
             Inl x \<Rightarrow> (rs, Inl x)
           | Inr p \<Rightarrow>
               if is_rejection (Some (pr_decision p)) (pr_category p)
               then (rs, Inr (RouteRejected (if truthy (pr_category p) then the (pr_category p) else pr_decision p) None))
               else if pr_decision p = ''REQUIRES_CONFIRMATION''
               then (if rq_confirmed job \<noteq> PBool True then (rs, Inr (RouteRejected ''CONFIRMATION_REQUIRED'' (pr_cost p)))
                     else case record_user_confirmation cf job p rs of
                            (rs', Inl _) \<Rightarrow> (rs', Inr (RouteRejected ''GATE_UNAVAILABLE'' (pr_cost p)))
                          | (rs', Inr _) \<Rightarrow> (rs', route_gate sc job p True))
               else (rs, route_gate sc job p False))"

section \<open>Execution\<close>

text \<open>\<open>shlex.split\<close>: blank, inside a word, inside a quotation, after a backslash (in a word or a quotation).\<close>

datatype sh_state = ShBlank | ShWord | ShQuote char | ShEscape "char option"

definition sh_space :: "char \<Rightarrow> bool" where
  "sh_space c = (c \<in> {CHR '' '', CHR 0x09, CHR 0x0D, CHR 0x0A})"

definition sh_quote :: "char \<Rightarrow> bool" where
  "sh_quote c = (c = CHR 0x27 \<or> c = CHR 0x22)"

definition sh_start :: "char \<Rightarrow> sh_state" where
  "sh_start c = (if c = CHR 0x5C then ShEscape None else if sh_quote c then ShQuote c else ShWord)"

text \<open>\<open>tok\<close> is the current word, \<open>quoted\<close> says that it had a quotation, so that it counts even when empty.\<close>

fun sh_split :: "sh_state \<Rightarrow> string \<Rightarrow> bool \<Rightarrow> string \<Rightarrow> string list option" where
  "sh_split ShBlank tok quoted [] = Some []"
| "sh_split ShWord tok quoted [] = Some (if tok \<noteq> [] \<or> quoted then [tok] else [])"
| "sh_split (ShQuote q) tok quoted [] = None"
| "sh_split (ShEscape q) tok quoted [] = None"
| "sh_split ShBlank tok quoted (c # cs) =
     (if sh_space c then sh_split ShBlank [] False cs
      else sh_split (sh_start c) (if sh_start c = ShWord then [c] else []) False cs)"
| "sh_split ShWord tok quoted (c # cs) =
     (if sh_space c
      then (if tok \<noteq> [] \<or> quoted then map_option (Cons tok) (sh_split ShBlank [] False cs) else sh_split ShBlank [] False cs)
      else sh_split (sh_start c) (if sh_start c = ShWord then tok @ [c] else tok) quoted cs)"
| "sh_split (ShQuote q) tok quoted (c # cs) =
     (if c = q then sh_split ShWord tok True cs
      else if c = CHR 0x5C \<and> q = CHR 0x22 then sh_split (ShEscape (Some q)) tok True cs
      else sh_split (ShQuote q) (tok @ [c]) True cs)"
| "sh_split (ShEscape None) tok quoted (c # cs) = sh_split ShWord (tok @ [c]) quoted cs"
| "sh_split (ShEscape (Some q)) tok quoted (c # cs) =
     sh_split (ShQuote q) (if c \<noteq> CHR 0x5C \<and> c \<noteq> q then tok @ [CHR 0x5C, c] else tok @ [c]) quoted cs"

definition shlex_split :: "string \<Rightarrow> string list option" where
  "shlex_split s = sh_split ShBlank [] False s"

definition basename :: "string \<Rightarrow> string" where
  "basename p = rev (takeWhile (\<lambda>c. c \<noteq> CHR ''/'') (rev p))"

definition ALLOWED_BINARIES :: "string list" where
  "ALLOWED_BINARIES = [''python'', ''python3'']"

datatype local_answer = LocalRefused | LocalDone int | LocalError

definition execute_local :: "(string list \<Rightarrow> int result) \<Rightarrow> route_req \<Rightarrow> local_answer" where
  "execute_local run job =
     (let command = opt_or (rq_command job) []
      in case (if command = [] then Some [] else shlex_split command) of
           None \<Rightarrow> LocalError
         | Some argv \<Rightarrow>
             if argv = [] \<or> basename (hd argv) \<notin> set ALLOWED_BINARIES then LocalRefused
             else (case run argv of Inl _ \<Rightarrow> LocalError | Inr rc \<Rightarrow> LocalDone rc))"

datatype exec_answer = ExRouted route | ExGpu string | ExLocal local_answer

definition execute_job ::
  "(string list \<Rightarrow> int result) \<Rightarrow> (route_req \<Rightarrow> string result) \<Rightarrow> sched \<Rightarrow> confirm_net \<Rightarrow> route_req \<Rightarrow> audit_event list
     \<Rightarrow> audit_event list \<times> exec_answer result" where
  "execute_job run conn sc cf job rs =
     (case route_job sc cf job rs of
        (rs', Inl x) \<Rightarrow> (rs', Inl x)
      | (rs', Inr (RouteRejected why c)) \<Rightarrow> (rs', Inr (ExRouted (RouteRejected why c)))
      | (rs', Inr (RouteQueued target ident c gd uc)) \<Rightarrow>
          if target = ''gpu_worker'' then (rs', map_sum id ExGpu (conn job)) else (rs', Inr (ExLocal (execute_local run job))))"

section \<open>The executor\<close>

record executor =
  ex_results :: "(string \<times> exec_answer) list"
  ex_owner :: "(string \<times> string) list"
  ex_audit :: "audit_event list"

text \<open>\<open>submit\<close> routes and then executes, which routes again. \<open>uid\<close> is the fresh uuid, \<open>c1\<close> and \<open>c2\<close> are the round trips of the two
  routes.\<close>

definition executor_submit ::
  "(string list \<Rightarrow> int result) \<Rightarrow> (route_req \<Rightarrow> string result) \<Rightarrow> sched \<Rightarrow> confirm_net \<Rightarrow> confirm_net \<Rightarrow> string \<Rightarrow> route_req
     \<Rightarrow> executor \<Rightarrow> executor \<times> exec_answer result" where
  "executor_submit run conn sc c1 c2 uid job0 x =
     (let ident = (if truthy (rq_job job0) then the (rq_job job0) else uid); job = job0\<lparr>rq_job := Some ident\<rparr>;
          x1 = x\<lparr>ex_owner := AList.update ident (opt_or (rq_tenant job) ''unknown'') (ex_owner x)\<rparr>
      in case route_job sc c1 job (ex_audit x1) of
           (rs, Inl e) \<Rightarrow> (x1\<lparr>ex_audit := rs\<rparr>, Inl e)
         | (rs, Inr (RouteRejected why c)) \<Rightarrow> (x1\<lparr>ex_audit := rs\<rparr>, Inr (ExRouted (RouteRejected why c)))
         | (rs, Inr _) \<Rightarrow>
             (case execute_job run conn sc c2 job rs of
                (rs', Inl e) \<Rightarrow> (x1\<lparr>ex_audit := rs'\<rparr>, Inl e)
              | (rs', Inr r) \<Rightarrow> (x1\<lparr>ex_audit := rs', ex_results := AList.update ident r (ex_results x1)\<rparr>, Inr r)))"

definition get_result :: "string \<Rightarrow> string option \<Rightarrow> executor \<Rightarrow> exec_answer option" where
  "get_result ident tenant x =
     (if truthy tenant \<and> truthy (map_of (ex_owner x) ident) \<and> map_of (ex_owner x) ident \<noteq> tenant then None
      else map_of (ex_results x) ident)"

section \<open>Facts\<close>

lemma pyround_upper: "pyround n x \<le> x + 1 / 2"
proof -
  have p: "(1 :: rat) \<le> 10 ^ n" by simp
  have "of_int (round_half_even (x * 10 ^ n)) \<le> x * 10 ^ n + 1 / 2" using round_half_even_bounds by blast
  also have "\<dots> \<le> (x + 1 / 2) * 10 ^ n" using p by (simp add: algebra_simps)
  finally show ?thesis using p by (simp add: pyround_def divide_le_eq)
qed

lemma total_price:
  "pc_total (calculate p t g c b) =
     pyround 6 (case rates t of (gr, cr, br) \<Rightarrow> g / 3600 * gr * pg_multiplier p + c / 3600 * cr + b / 3600 * br)"
  by (simp add: calculate_def Let_def split: prod.splits)

lemma rates_nonneg: "rates t = (gr, cr, br) \<Longrightarrow> 0 \<le> gr \<and> 0 \<le> cr \<and> 0 \<le> br"
  by (auto simp: rates_def split: pricing_tier.splits)

text \<open>Prices are ordered. With a multiplier that is not negative, the total price of non-negative amounts is never
  negative and grows with each amount; the free tier costs nothing, and the enterprise price is at most the pro price.\<close>

theorem prices_are_ordered:
  assumes "0 \<le> pg_multiplier p" and "0 \<le> g" "g \<le> g'" and "0 \<le> c" "c \<le> c'" and "0 \<le> b" "b \<le> b'"
  shows "0 \<le> pc_total (calculate p t g c b) \<and> pc_total (calculate p t g c b) \<le> pc_total (calculate p t g' c' b')
    \<and> pc_total (calculate p FREE g c b) = 0
    \<and> pc_total (calculate p ENTERPRISE g c b) \<le> pc_total (calculate p PRO g c b)"
proof -
  obtain gr cr br where r: "rates t = (gr, cr, br)" by (cases "rates t") auto
  note n = rates_nonneg [OF r]
  let ?x = "g / 3600 * gr * pg_multiplier p + c / 3600 * cr + b / 3600 * br"
  let ?y = "g' / 3600 * gr * pg_multiplier p + c' / 3600 * cr + b' / 3600 * br"
  have m: "g / 3600 * gr * pg_multiplier p \<le> g' / 3600 * gr * pg_multiplier p"
    using n assms by (intro mult_right_mono divide_right_mono) auto
  have k: "c / 3600 * cr \<le> c' / 3600 * cr" "b / 3600 * br \<le> b' / 3600 * br"
    using n assms by (auto intro!: mult_right_mono divide_right_mono)
  have "0 \<le> ?x" using n assms by simp
  then have "0 \<le> pyround 6 ?x" using pyround_mono [of 0 ?x 6] by simp
  moreover have "pyround 6 ?x \<le> pyround 6 ?y" using m k by (intro pyround_mono) linarith
  moreover have "pc_total (calculate p FREE g c b) = 0" by (simp add: total_price rates_def)
  moreover have "g * pg_multiplier p * 4 \<le> g * pg_multiplier p * 5" using assms by (intro mult_left_mono) auto
  then have "pc_total (calculate p ENTERPRISE g c b) \<le> pc_total (calculate p PRO g c b)"
    unfolding total_price rates_def using assms by (auto intro!: pyround_mono add_mono simp: field_simps)
  ultimately show ?thesis using r by (simp add: total_price)
qed

theorem prices_are_ordered_witness:
  "pc_total (calculate pricing_init PRO 3600 0 0) \<le> pc_total (calculate pricing_init PRO 7200 0 0)"
  using prices_are_ordered [of pricing_init 3600 7200 0 0 0 0 PRO] by (simp add: pricing_init_def)

lemma estimate_runtime_bounds: "1800 \<le> estimate_runtime plugin gpu \<and> estimate_runtime plugin gpu \<le> 7920"
  by (simp add: estimate_runtime_def Let_def trunc_def)

lemma estimate_runtime_default: "estimate_runtime ''default'' True = 3960"
  by code_simp

lemma money_verdict_small: "cost < 40 \<Longrightarrow> t \<noteq> FREE \<Longrightarrow> vd_decision (money_verdict cost t) = ''APPROVED''"
  by (cases t) (simp_all add: money_verdict_def money_limit_def)

lemma quota_decisions:
  "free_quota_verdict l c est = Inr v \<Longrightarrow> qv_decision v \<in> {''APPROVED'', ''REJECTED''}"
  by (auto simp: free_quota_verdict_def Let_def split: if_splits)

lemma predictor_quota_decisions:
  "predictor_quota_verdict f usage plan est tid = Inr v \<Longrightarrow> vd_decision v \<in> {''APPROVED'', ''REJECTED'', ''GATE_UNAVAILABLE''}"
  using quota_decisions
  by (fastforce simp: predictor_quota_verdict_def gate_unavailable_def Let_def split: sum.splits if_splits)

lemma free_plan_iff: "resolve_tier rowof tid label admin = Inr (t, plan) \<Longrightarrow> admin = False \<Longrightarrow> plan = ''free'' \<longleftrightarrow> t = FREE"
  by (auto simp: resolve_tier_def tier_from_plan_def PLAN_TIER_MAP_def split: if_splits option.splits)

lemma resolve_refusals: "resolve_tier rowof tid label admin = Inl code \<Longrightarrow> code \<in> {''UNKNOWN_TENANT'', ''UNKNOWN_PLAN''}"
  by (auto simp: resolve_tier_def split: if_splits option.splits)

lemma routed_price_small:
  assumes "0 \<le> pg_multiplier p" and "pg_multiplier p \<le> 1000"
    and "0 \<le> g" "g \<le> 7920" and "0 \<le> c" "c \<le> 7920"
  shows "pc_total (calculate p t g c 0) < 40"
proof -
  obtain gr cr br where r: "rates t = (gr, cr, br)" by (cases "rates t") auto
  have n: "0 \<le> gr" "gr \<le> 5 / 1000" "0 \<le> cr" "cr \<le> 1 / 1000"
    using r by (auto simp: rates_def split: pricing_tier.splits)
  have "g / 3600 * gr * pg_multiplier p \<le> 7920 / 3600 * (5 / 1000) * 1000"
    using n assms by (intro mult_mono) auto
  moreover have "c / 3600 * cr \<le> 7920 / 3600 * (1 / 1000)" using n assms by (intro mult_mono) auto
  ultimately have "g / 3600 * gr * pg_multiplier p + c / 3600 * cr < 39" by simp
  with pyround_upper [of 6 "g / 3600 * gr * pg_multiplier p + c / 3600 * cr"] show ?thesis
    by (simp add: total_price r)
qed

text \<open>The decision of a prediction without a custom duration and without the administrator's override.\<close>

lemma predict_decision:
  assumes "predict rowof f usage p task gpu plugin label None pe tid False = Inr r"
    and "0 \<le> pg_multiplier p" and "pg_multiplier p \<le> 1000"
  shows "pr_decision r \<in> {''UNKNOWN_TENANT'', ''UNKNOWN_PLAN'', ''APPROVED'', ''REJECTED'', ''GATE_UNAVAILABLE''}"
proof (cases "resolve_tier rowof tid label False")
  case (Inl code)
  then show ?thesis using assms(1) resolve_refusals by (fastforce simp: predict_def Let_def)
next
  case (Inr tp)
  obtain t plan where tp: "tp = (t, plan)" by force
  let ?d = "estimate_runtime plugin gpu"
  let ?cost = "pc_total (calculate p t (of_int (if gpu then ?d else 0)) (of_int (if gpu then 0 else ?d)) 0)"
  have small: "?cost < 40"
    by (rule routed_price_small [OF assms(2,3)]) (use estimate_runtime_bounds [of plugin gpu] in auto)
  show ?thesis
  proof (cases "plan = ''free''")
    case True
    then obtain v where "predictor_quota_verdict f usage plan (if gpu then ?d else 0) tid = Inr v" and "pr_decision r = vd_decision v"
      using assms(1) Inr tp by (auto simp: predict_def Let_def split: sum.splits)
    then show ?thesis using predictor_quota_decisions by fastforce
  next
    case False
    with free_plan_iff Inr tp have "t \<noteq> FREE" by blast
    from money_verdict_small [OF small this] show ?thesis
      using assms(1) Inr tp False by (auto simp: predict_def Let_def split: if_splits)
  qed
qed

lemma route_gate_queued:
  assumes "route_gate sc job p uc0 = Inr (RouteQueued target i c gd uc)"
  shows "sc_gate sc \<and> uc = uc0 \<and> i = rq_job job \<and> c = pr_cost p \<and> gd = ''allowed''
    \<and> (target = (if rq_gpu job \<and> sc_gpu_available sc then ''gpu_worker'' else ''local''))
    \<and> (\<exists>d. gate_evaluate (sc_plans sc) (sc_rowof sc (opt_or (rq_tenant job) ''default'')) (sc_jobs sc) (opt_or (rq_tenant job) ''default'')
             [(''task'', PStr (rq_task job)), (''gpu_required'', PBool (rq_gpu job)), (''plugin_type'', PStr (rq_plan_tier job))] = Inr d
           \<and> gd_result d = GateAllowed)"
  using assms
  by (auto simp: route_gate_def gate_value_def Let_def is_rejection_def ALLOWED_VERDICTS_def split: if_splits sum.splits gate_result.splits)

lemma quota_approved:
  assumes "predictor_quota_verdict f usage plan est tid = Inr v" and "\<not> is_rejection (Some (vd_decision v)) (vd_category v)"
  shows "\<exists>l c w. get_plan_limits f (Some plan) = Inr l \<and> ledger_consumption (usage (opt_or tid [])) (opt_or tid []) = Inr c
    \<and> free_quota_verdict l c (of_int est) = Inr w \<and> qv_decision w = ''APPROVED''"
proof -
  have "vd_decision v = ''APPROVED''"
    using predictor_quota_decisions [OF assms(1)] assms(2) by (auto simp: is_rejection_def REJECTION_DECISIONS_def)
  then show ?thesis
    using assms(1) by (auto simp: predictor_quota_verdict_def gate_unavailable_def Let_def split: sum.splits if_splits)
qed

lemma predict_accepted:
  assumes "predict rowof f usage p task gpu plugin label None pe tid False = Inr r"
    and "\<not> is_rejection (Some (pr_decision r)) (pr_category r)"
  shows "\<exists>t plan tr. tid = Some t \<and> t \<noteq> [] \<and> predict_tenant_plan rowof tid = Some plan \<and> tier_from_plan plan = Some tr
    \<and> (tr = FREE \<longrightarrow> pr_decision r = ''APPROVED'' \<and>
         (\<exists>l c w. get_plan_limits f (Some ''free'') = Inr l \<and> ledger_consumption (usage t) t = Inr c
            \<and> free_quota_verdict l c (of_int (if gpu then estimate_runtime plugin gpu else 0)) = Inr w \<and> qv_decision w = ''APPROVED''))"
proof (cases "resolve_tier rowof tid label False")
  case (Inl code)
  then have "pr_decision r = code \<and> pr_category r = None" using assms(1) by (auto simp: predict_def Let_def)
  with resolve_refusals [OF Inl] assms(2) show ?thesis
    by (auto simp: is_rejection_def ALLOWED_VERDICTS_def)
next
  case (Inr tp)
  obtain tr pn where tp: "tp = (tr, pn)" by force
  with Inr obtain t plan where t: "tid = Some t" "t \<noteq> []" "predict_tenant_plan rowof tid = Some plan"
    "tier_from_plan plan = Some tr" "pn = lower (strip plan)"
    by (cases tid) (auto simp: resolve_tier_def split: if_splits option.splits)
  have "pr_decision r = ''APPROVED'' \<and>
      (\<exists>l c w. get_plan_limits f (Some ''free'') = Inr l \<and> ledger_consumption (usage t) t = Inr c
            \<and> free_quota_verdict l c (of_int (if gpu then estimate_runtime plugin gpu else 0)) = Inr w \<and> qv_decision w = ''APPROVED'')"
    if F: "tr = FREE"
  proof -
    have "pn = ''free''" using free_plan_iff Inr tp F by blast
    then obtain v where v: "predictor_quota_verdict f usage ''free'' (if gpu then estimate_runtime plugin gpu else 0) tid = Inr v"
      and r: "pr_decision r = vd_decision v" "pr_category r = vd_category v"
      using assms(1) Inr tp by (auto simp: predict_def Let_def split: sum.splits)
    have "vd_decision v = ''APPROVED''"
      using predictor_quota_decisions [OF v] assms(2) r by (auto simp: is_rejection_def REJECTION_DECISIONS_def)
    with quota_approved [OF v] assms(2) r t(1) show ?thesis by (auto simp: opt_or_def)
  qed
  with t show ?thesis by blast
qed

lemma confirm_recorded:
  assumes "record_user_confirmation cf job p rs = (rs', Inr a)" and "rq_tenant job = Some t" and "t \<noteq> []"
  shows "\<exists>e\<in>set rs'. ae_type e = ''job.user_confirmed'' \<and> ae_tenant e = t"
proof -
  have w: "\<exists>e\<in>set rs2. ae_type e = ty \<and> ae_tenant e = tn"
    if "write_event oc i tn ty ety en dat rs1 = (rs2, Inr b)" for oc i tn ty ety en dat rs1 rs2 b
  proof -
    from that obtain x where "insert_audit_event i tn ty ety en dat rs1 = Some (rs2, x)"
      by (auto simp: write_event_def elim!: pg_run.elims split: option.splits)
    from insert_cases [OF this] show ?thesis by (auto simp: same_fact_def)
  qed
  show ?thesis
  proof (cases "truthy (rq_job job)")
    case True
    let ?x = "event_exists (cf_read cf) t ''job.user_confirmed'' (the (rq_job job)) rs"
    from True assms show ?thesis
    proof (cases ?x)
      case (Inr b)
      then show ?thesis
      proof (cases b)
        case b: True
        then have "\<exists>e\<in>set rs. same_fact t ''job.user_confirmed'' (the (rq_job job)) e"
          using Inr by (cases "cf_read cf") (auto simp: event_exists_def audit_event_exists_def)
        with True assms b Inr show ?thesis
          by (auto simp: record_user_confirmation_def write_event_once_def same_fact_def)
      next
        case False
        with True assms Inr show ?thesis
          by (auto simp: record_user_confirmation_def write_event_once_def intro: w)
      qed
    qed (auto simp: record_user_confirmation_def write_event_once_def)
  next
    case False
    with assms show ?thesis by (auto simp: record_user_confirmation_def write_event_once_def intro: w)
  qed
qed

section \<open>Properties\<close>

text \<open>Only accepted jobs are queued. When \<open>route_job\<close> queues a job, the gate is there and was never lost, the job names
  a tenant whose record has a plan of the explicit map, a tenant of the free plan has readable limits and counters
  and its quota verdict is an approval, a verdict that asks for a confirmation was confirmed by the boolean true and
  the confirmation is in the audit ledger, and the gate allowed the tenant. The job goes to the GPU exactly when it
  needs one and one is there. In particular an unreadable plans file or usage table lets no free job through.\<close>

theorem routed_jobs_are_accepted:
  assumes "route_job sc cf job rs = (rs', Inr (RouteQueued target i c gd uc))"
  shows "sc_unavailable sc = None \<and> sc_gate sc \<and> gd = ''allowed''
    \<and> (target = ''gpu_worker'' \<longleftrightarrow> rq_gpu job \<and> sc_gpu_available sc)
    \<and> (\<exists>t plan tr d. rq_tenant job = Some t \<and> t \<noteq> [] \<and> predict_tenant_plan (sc_rowof sc) (Some t) = Some plan
         \<and> tier_from_plan plan = Some tr
         \<and> (tr = FREE \<longrightarrow> \<not> uc \<and>
              (\<exists>l k w. get_plan_limits (sc_plans sc) (Some ''free'') = Inr l \<and> ledger_consumption (sc_usage sc t) t = Inr k
                 \<and> free_quota_verdict l k (of_int (if rq_gpu job then estimate_runtime (rq_plugin job) True else 0)) = Inr w
                 \<and> qv_decision w = ''APPROVED''))
         \<and> (uc \<longrightarrow> rq_confirmed job = PBool True \<and> (\<exists>e\<in>set rs'. ae_type e = ''job.user_confirmed'' \<and> ae_tenant e = t))
         \<and> (\<not> uc \<longrightarrow> rs' = rs)
         \<and> gate_evaluate (sc_plans sc) (sc_rowof sc t) (sc_jobs sc) t
             [(''task'', PStr (rq_task job)), (''gpu_required'', PBool (rq_gpu job)), (''plugin_type'', PStr (rq_plan_tier job))] = Inr d
         \<and> gd_result d = GateAllowed)"
proof -
  have u: "sc_unavailable sc = None" using assms by (auto simp: route_job_def split: if_splits)
  obtain p where p: "predict (sc_rowof sc) (sc_plans sc) (sc_usage sc) (sc_pricing sc) (rq_task job) (rq_gpu job) (rq_plugin job)
      (Some ''FREE'') None (Some (sc_engine sc)) (rq_tenant job) False = Inr p"
    and ok: "\<not> is_rejection (Some (pr_decision p)) (pr_category p)"
    using assms u by (auto simp: route_job_def split: sum.splits if_splits)
  obtain t plan tr where t: "rq_tenant job = Some t" "t \<noteq> []" "predict_tenant_plan (sc_rowof sc) (Some t) = Some plan"
    "tier_from_plan plan = Some tr"
    and fr: "tr = FREE \<longrightarrow> pr_decision p = ''APPROVED'' \<and>
         (\<exists>l k w. get_plan_limits (sc_plans sc) (Some ''free'') = Inr l \<and> ledger_consumption (sc_usage sc t) t = Inr k
            \<and> free_quota_verdict l k (of_int (if rq_gpu job then estimate_runtime (rq_plugin job) (rq_gpu job) else 0)) = Inr w
            \<and> qv_decision w = ''APPROVED'')"
    using predict_accepted [OF p ok] by (elim exE conjE) (rule that, simp_all)
  show ?thesis
  proof (cases "pr_decision p = ''REQUIRES_CONFIRMATION''")
    case True
    then have cf: "rq_confirmed job = PBool True"
      using assms u p ok by (auto simp: route_job_def split: if_splits)
    obtain rs2 ans where r: "record_user_confirmation cf job p rs = (rs2, ans)" by force
    from assms u p ok True cf r obtain a where a: "ans = Inr a" "rs2 = rs'" and g: "route_gate sc job p True = Inr (RouteQueued target i c gd uc)"
      by (cases ans) (auto simp: route_job_def)
    have ev: "\<exists>e\<in>set rs'. ae_type e = ''job.user_confirmed'' \<and> ae_tenant e = t"
      using confirm_recorded [OF r [unfolded a] t(1,2)] .
    from route_gate_queued [OF g] u t fr True cf ev show ?thesis by (auto simp: opt_or_def)
  next
    case False
    with assms u p ok have g: "route_gate sc job p False = Inr (RouteQueued target i c gd uc)" and rs: "rs' = rs"
      by (auto simp: route_job_def split: if_splits)
    from route_gate_queued [OF g] u t fr rs show ?thesis by (auto simp: opt_or_def)
  qed
qed

definition shipped_plans :: plans_file where
  "shipped_plans = PlansJson (PDict
     [(''free'', PDict [(''jobs_per_month'', PInt 50), (''gpu_s_per_job'', PInt 3600)]),
      (''start'', PDict [(''jobs_per_month'', PInt 50), (''gpu_s_per_job'', PInt 3600)]),
      (''pro'', PDict [(''jobs_per_month'', PInt 1000), (''gpu_s_per_job'', PInt 3600)]),
      (''enterprise'', PDict [(''jobs_per_month'', PInt (-1)), (''gpu_s_per_job'', PInt (-1))])])"

definition demo_sched :: sched where
  "demo_sched = \<lparr>sc_rowof = (\<lambda>t. if t = ''acme'' then Some [(''plan'', PStr ''pro'')]
        else if t = ''solo'' then Some [(''plan'', PStr ''free'')] else None),
     sc_plans = shipped_plans, sc_usage = (\<lambda>_. Inr (PDict [(''total_jobs'', PInt 3), (''total_gpu_seconds'', PInt 100)])), sc_jobs = [],
     sc_pricing = pricing_init, sc_engine = engine_init, sc_gpu_available = True, sc_unavailable = None, sc_gate = True\<rparr>"

definition demo_job :: "string \<Rightarrow> string \<Rightarrow> route_req" where
  "demo_job t plugin = \<lparr>rq_gpu = True, rq_task = ''resnet'', rq_plugin = plugin, rq_plan_tier = ''PRO'', rq_tenant = Some t, rq_confirmed = PNone,
     rq_job = Some ''j1'', rq_command = Some ''python3 run.py''\<rparr>"

definition demo_confirm :: confirm_net where
  "demo_confirm = \<lparr>cf_read = PgOk, cf_write = PgOk, cf_id = ''e1''\<rparr>"

lemma demo_route: "route_job demo_sched demo_confirm (demo_job ''solo'' ''inference'') [] = ([], Inr (RouteQueued ''gpu_worker'' (Some ''j1'') (Some 0) ''allowed'' False))"
  by code_simp

theorem routed_jobs_are_accepted_witness:
  "\<exists>l k w. get_plan_limits shipped_plans (Some ''free'') = Inr l \<and> ledger_consumption (sc_usage demo_sched ''solo'') ''solo'' = Inr k
     \<and> free_quota_verdict l k 1980 = Inr w \<and> qv_decision w = ''APPROVED''"
proof -
  have r: "estimate_runtime ''inference'' True = 1980" by code_simp
  have t: "tier_from_plan ''free'' = Some FREE" by code_simp
  have p: "predict_tenant_plan (sc_rowof demo_sched) (Some ''solo'') = Some ''free''" by code_simp
  from routed_jobs_are_accepted [OF demo_route] t p r show ?thesis
    by (auto simp: demo_job_def demo_sched_def)
qed

text \<open>No job is ever asked for a confirmation. The greatest runtime the predictor assumes for a routed job is 7920
  seconds, so for every tier and every multiplier up to 1000 its price is below 40 USD, while the smallest money limit
  asks for a confirmation above 40 USD: \<open>route_job\<close> never answers CONFIRMATION_REQUIRED, never queues a
  job as confirmed and never writes a confirmation.\<close>

theorem confirmation_is_never_asked:
  assumes "0 \<le> pg_multiplier (sc_pricing sc)" and "pg_multiplier (sc_pricing sc) \<le> 1000"
  shows "fst (route_job sc cf job rs) = rs \<and> snd (route_job sc cf job rs) \<noteq> Inr (RouteRejected ''CONFIRMATION_REQUIRED'' c)
    \<and> snd (route_job sc cf job rs) \<noteq> Inr (RouteQueued target i c gd True)"
proof (cases "predict (sc_rowof sc) (sc_plans sc) (sc_usage sc) (sc_pricing sc) (rq_task job) (rq_gpu job) (rq_plugin job)
      (Some ''FREE'') None (Some (sc_engine sc)) (rq_tenant job) False")
  case (Inl x)
  then show ?thesis by (auto simp: route_job_def)
next
  case (Inr p)
  note d = predict_decision [OF Inr assms]
  have cat: "pr_category p \<noteq> Some ''CONFIRMATION_REQUIRED''"
    using Inr
    by (auto simp: predict_def predictor_quota_verdict_def gate_unavailable_def money_verdict_def free_quota_verdict_def Let_def
        split: sum.splits if_splits)
  have g: "route_gate sc job p False \<noteq> Inr (RouteQueued target i c gd True)"
    using route_gate_queued by blast
  have "gate_text r \<noteq> ''CONFIRMATION_REQUIRED''" for r by (cases r) (simp_all add: gate_text_def)
  then have h: "route_gate sc job p False \<noteq> Inr (RouteRejected ''CONFIRMATION_REQUIRED'' c)" if "sc_unavailable sc = None"
    using that by (auto simp: route_gate_def opt_or_def Let_def split: sum.splits if_splits)
  show ?thesis using d cat g h Inr by (cases "pr_category p") (auto simp: route_job_def)
qed

theorem confirmation_is_never_asked_witness:
  "fst (route_job demo_sched demo_confirm (demo_job ''acme'' ''ml_training'') []) = []
   \<and> snd (route_job demo_sched demo_confirm (demo_job ''acme'' ''ml_training'') []) \<noteq> Inr (RouteRejected ''CONFIRMATION_REQUIRED'' (Some 50))"
  using confirmation_is_never_asked [of demo_sched demo_confirm "demo_job ''acme'' ''ml_training''" "[]" "Some 50"]
  by (simp add: demo_sched_def pricing_init_def)

text \<open>The plan \<open>start\<close>, sold with GPU access, is not in the map of tiers: every job of its tenants is rejected.\<close>

lemma start_plan_is_rejected:
  assumes "sc_unavailable sc = None" and "rq_tenant job = Some t" and "t \<noteq> []" and "sc_rowof sc t = Some row"
    and "map_of row ''plan'' = Some (PStr ''start'')"
  shows "route_job sc cf job rs = (rs, Inr (RouteRejected ''UNKNOWN_PLAN'' None))"
proof -
  have "row \<noteq> []" using assms(5) by auto
  moreover have "tier_from_plan ''start'' = None" by code_simp
  ultimately have "resolve_tier (sc_rowof sc) (Some t) l False = Inl ''UNKNOWN_PLAN''" for l
    using assms(3-5) by (simp add: resolve_tier_def predict_tenant_plan_def dict_get_def)
  then show ?thesis
    using assms(1,2) by (simp add: route_job_def predict_def is_rejection_def ALLOWED_VERDICTS_def Let_def)
qed

text \<open>With the shipped plans a GPU job of the free plan passes only as inference: the estimate of every other kind is above the
  plan's share per job.\<close>

lemma free_gpu_jobs_are_inference:
  assumes "free_quota_verdict \<lparr>pl_plan = ''free'', pl_jobs = 50, pl_gpu_per_job = 3600\<rparr> c (of_int (estimate_runtime plugin True)) = Inr w"
    and "qv_decision w = ''APPROVED''"
  shows "plugin = ''inference''"
proof (rule ccontr)
  assume "plugin \<noteq> ''inference''"
  then have "estimate_runtime plugin True > 3600" by (simp add: estimate_runtime_def Let_def trunc_def)
  then have "trunc (of_int (estimate_runtime plugin True)) > 3600" by (simp add: trunc_def)
  with assms show False by (auto simp: free_quota_verdict_def unlimited_def Let_def split: if_splits)
qed

text \<open>Local execution starts only Python. The process runner is called at most once, with the words of the command as
  the shell grammar splits it, and only when the base name of the first word is on the allow-list. A command that does not
  split, or whose runner fails, gives a failed answer and no exception.\<close>

theorem local_execution_is_allow_listed:
  "case execute_local run job of
     LocalDone rc \<Rightarrow> \<exists>argv. shlex_split (opt_or (rq_command job) []) = Some argv \<and> argv \<noteq> []
       \<and> basename (hd argv) \<in> {''python'', ''python3''} \<and> run argv = Inr rc
   | LocalRefused \<Rightarrow> (\<forall>run'. execute_local run' job = LocalRefused)
   | LocalError \<Rightarrow> shlex_split (opt_or (rq_command job) []) = None
       \<or> (\<exists>argv. shlex_split (opt_or (rq_command job) []) = Some argv \<and> argv \<noteq> [] \<and> basename (hd argv) \<in> {''python'', ''python3''} \<and> \<not> is_ok (run argv))"
proof -
  have e: "shlex_split [] = Some []" by (simp add: shlex_split_def)
  show ?thesis
    by (cases "opt_or (rq_command job) [] = []"; cases "shlex_split (opt_or (rq_command job) [])")
      (auto simp: execute_local_def Let_def e ALLOWED_BINARIES_def split: option.splits sum.splits if_splits)
qed

text \<open>Splitting: words of plain characters, separated by one blank, come back.\<close>

definition plain_word :: "string \<Rightarrow> bool" where
  "plain_word w = (w \<noteq> [] \<and> list_all (\<lambda>c. \<not> sh_space c \<and> sh_start c = ShWord) w)"

lemma sh_split_word:
  "list_all (\<lambda>c. \<not> sh_space c \<and> sh_start c = ShWord) w \<Longrightarrow> sh_split ShWord tok q (w @ cs) = sh_split ShWord (tok @ w) q cs"
  by (induction w arbitrary: tok) auto

text \<open>Splitting a command undoes joining it. For words of characters that are neither blanks, quotation marks nor
  backslashes, \<open>shlex.split\<close> of the words, each followed by a blank, gives the words back.\<close>

theorem shlex_split_joined:
  assumes "list_all plain_word ws"
  shows "shlex_split (concat (map (\<lambda>w. w @ '' '') ws)) = Some ws"
proof -
  have "sh_split ShBlank tok q (concat (map (\<lambda>w. w @ '' '') ws)) = Some ws" for tok q
    using assms
  proof (induction ws arbitrary: tok q)
    case (Cons w ws)
    then obtain c cs where w: "w = c # cs" by (cases w) (auto simp: plain_word_def)
    have s: "sh_space (CHR '' '')" by (simp add: sh_space_def)
    have "sh_split ShWord [c] False (cs @ '' '' @ concat (map (\<lambda>w. w @ '' '') ws)) =
        sh_split ShWord w False ('' '' @ concat (map (\<lambda>w. w @ '' '') ws))"
      using Cons.prems sh_split_word [of cs "[c]"] w by (simp add: plain_word_def)
    then show ?case using Cons w s by (simp add: plain_word_def)
  qed simp
  then show ?thesis by (simp add: shlex_split_def)
qed

theorem shlex_split_joined_witness:
  "shlex_split ''python3 run.py '' = Some [''python3'', ''run.py'']"
proof -
  have "list_all plain_word [''python3'', ''run.py'']" by code_simp
  from shlex_split_joined [OF this] show ?thesis by simp
qed

text \<open>Results are not protected by ownership. A tenant that submits a job under the identifier of another tenant's
  finished job, even one that is rejected, becomes its owner and then reads the other tenant's result.\<close>

theorem executor_ownership_is_taken_over:
  assumes "map_of (ex_results x) i = Some r" and "i \<noteq> []" and "t \<noteq> []"
    and "rq_job job = Some i" and "rq_tenant job = Some t"
    and "route_job sc c1 job (ex_audit x) = (rs, Inr (RouteRejected why c))"
    and "executor_submit run conn sc c1 c2 uid job x = (y, ans)"
  shows "get_result i (Some t) y = Some r"
proof -
  have j: "job\<lparr>rq_job := Some i\<rparr> = job" using assms(4) by simp
  have "y = x\<lparr>ex_owner := AList.update i t (ex_owner x), ex_audit := rs\<rparr>"
    using assms(2-7) by (simp add: executor_submit_def opt_or_def Let_def j)
  then show ?thesis using assms(1,3) by (simp add: get_result_def update_conv')
qed

end
