(* ===== verification/Locks.thy ===== *)
theory Locks
  imports Prelude
begin

text \<open>
  Three GPU locks with a time to live: the control plane's leases
  (\<open>src/control_plane/leases.py\<close>, with \<open>GPULease\<close> of \<open>core_models.py\<close>), the worker's in-memory
  lock manager (\<open>src/gpu_worker/gpu_lock_manager.py\<close>) and its HTTP variant
  (\<open>src/gpu_worker/gpu_lock_manager_fast.py\<close>). Dictionaries are association lists, times are
  seconds, and every operation reads the clock through \<open>now\<close>.

  The contract is the locale \<open>exclusive_lock\<close>: while a holder's time has not run out, nobody else
  gets the lock, whatever the others try. \<open>ttl_lock\<close> adds that a lock nobody holds is granted. The
  leases and the HTTP variant meet both; the lock manager meets them only when every caller uses
  the default time to live, and the counterexample for the general case is a theorem below.
\<close>

section \<open>The contract\<close>

datatype ('g, 'j, 'x) lock_op = Acquire 'g 'j 'x rat | Release 'g 'j

fun lock_step ::
  "(rat \<Rightarrow> 'g \<Rightarrow> 'j \<Rightarrow> 'x \<Rightarrow> rat \<Rightarrow> 's \<Rightarrow> 's \<times> bool) \<Rightarrow> ('g \<Rightarrow> 'j \<Rightarrow> 's \<Rightarrow> 's \<times> bool)
     \<Rightarrow> rat \<times> ('g, 'j, 'x) lock_op \<Rightarrow> 's \<Rightarrow> 's" where
  "lock_step acq rel (now, Acquire g j x ttl) s = fst (acq now g j x ttl s)"
| "lock_step acq rel (now, Release g j) s = fst (rel g j s)"

fun op_by :: "'g \<Rightarrow> 'j \<Rightarrow> ('g, 'j, 'x) lock_op \<Rightarrow> bool" where
  "op_by g j (Acquire g' j' x ttl) = (g = g' \<and> j = j')"
| "op_by g j (Release g' j') = (g = g' \<and> j = j')"

locale exclusive_lock =
  fixes acquire :: "rat \<Rightarrow> 'g \<Rightarrow> 'j \<Rightarrow> 'x \<Rightarrow> rat \<Rightarrow> 's \<Rightarrow> 's \<times> bool"
    and release :: "'g \<Rightarrow> 'j \<Rightarrow> 's \<Rightarrow> 's \<times> bool"
    and held :: "rat \<Rightarrow> 's \<Rightarrow> 'g \<Rightarrow> 'j option"
    and ok :: "'s \<Rightarrow> bool"
  assumes held_earlier: "held later s g = Some j \<Longrightarrow> now \<le> later \<Longrightarrow> held now s g = Some j"
    and acquire_taken: "ok s \<Longrightarrow> held now s g = Some j' \<Longrightarrow> j' \<noteq> j \<Longrightarrow> acquire now g j x ttl s = (s, False)"
    and acquire_other: "ok s \<Longrightarrow> g \<noteq> g' \<Longrightarrow> held t (fst (acquire now g j x ttl s)) g' = held t s g'"
    and release_other: "ok s \<Longrightarrow> held t s g' = Some j' \<Longrightarrow> g \<noteq> g' \<or> j \<noteq> j' \<Longrightarrow> held t (fst (release g j s)) g' = Some j'"
    and acquire_ok: "ok s \<Longrightarrow> ok (fst (acquire now g j x ttl s))"
    and release_ok: "ok s \<Longrightarrow> ok (fst (release g j s))"
begin

abbreviation "run ops s \<equiv> fold (lock_step acquire release) ops s"

lemma step_keeps:
  assumes "ok s" "held T s g = Some j" "now \<le> T" "\<not> op_by g j p"
  shows "ok (lock_step acquire release (now, p) s) \<and> held T (lock_step acquire release (now, p) s) g = Some j"
proof (cases p)
  case (Acquire g' j' x ttl)
  show ?thesis
  proof (cases "g' = g")
    case True
    have "held now s g = Some j" using held_earlier [OF assms(2,3)] .
    with True Acquire assms acquire_taken [of s now g j j' x ttl] show ?thesis by auto
  next
    case False
    with Acquire assms acquire_other [of s g' g T now j' x ttl] acquire_ok show ?thesis by simp
  qed
next
  case (Release g' j')
  with assms release_other [of s T g j g' j'] release_ok show ?thesis by auto
qed

text \<open>Mutual exclusion over any sequence of operations of other jobs, up to the time \<open>T\<close>.\<close>

lemma held_throughout:
  "ok s \<Longrightarrow> held T s g = Some j \<Longrightarrow> \<forall>(now, p)\<in>set ops. now \<le> T \<and> \<not> op_by g j p \<Longrightarrow>
     ok (run ops s) \<and> held T (run ops s) g = Some j"
  by (induction ops arbitrary: s) (auto dest: step_keeps)

lemma exclusive:
  assumes "ok s" "held T s g = Some j" "\<forall>(now, p)\<in>set ops. now \<le> T \<and> \<not> op_by g j p" "t \<le> T" "j' \<noteq> j"
  shows "held t (run ops s) g = Some j \<and> acquire t g j' x ttl (run ops s) = (run ops s, False)"
proof -
  have h: "ok (run ops s)" "held T (run ops s) g = Some j" using held_throughout [OF assms(1-3)] by auto
  then have "held t (run ops s) g = Some j" using held_earlier assms(4) by blast
  moreover from this have "acquire t g j' x ttl (run ops s) = (run ops s, False)"
    using h(1) assms(5) by (intro acquire_taken) auto
  ultimately show ?thesis ..
qed

end

text \<open>A lock that is also given to whoever asks when nobody holds it.\<close>

locale ttl_lock = exclusive_lock +
  assumes acquire_free: "ok s \<Longrightarrow> held now s g = None \<Longrightarrow> snd (acquire now g j x ttl s)"
begin

text \<open>An acquire is denied exactly to those who meet another holder.\<close>

lemma denied_only_if_held:
  assumes "ok s" "\<not> snd (acquire now g j x ttl s)"
  shows "\<exists>j'. held now s g = Some j'"
  using acquire_free [OF assms(1)] assms(2) by (cases "held now s g") auto

end

section \<open>Control plane leases\<close>

record gpu_lease =
  gl_gpu :: string
  gl_job :: string
  gl_worker :: string
  gl_ttl :: rat
  gl_created :: rat
  gl_renewed :: nat

type_synonym leases = "(string \<times> gpu_lease) list"

definition lease_is_expired :: "rat \<Rightarrow> gpu_lease \<Rightarrow> bool" where
  "lease_is_expired now l = (now > gl_created l + gl_ttl l * (1 + of_nat (gl_renewed l)))"

definition lease_acquire :: "rat \<Rightarrow> string \<Rightarrow> string \<Rightarrow> string \<Rightarrow> rat \<Rightarrow> leases \<Rightarrow> leases \<times> bool" where
  "lease_acquire now gpu job worker ttl ls =
     (case map_of ls gpu of
        Some l \<Rightarrow> if lease_is_expired now l
                  then (AList.update gpu \<lparr>gl_gpu = gpu, gl_job = job, gl_worker = worker, gl_ttl = ttl,
                          gl_created = now, gl_renewed = 0\<rparr> ls, True)
                  else (ls, False)
      | None \<Rightarrow> (AList.update gpu \<lparr>gl_gpu = gpu, gl_job = job, gl_worker = worker, gl_ttl = ttl,
                   gl_created = now, gl_renewed = 0\<rparr> ls, True))"

definition lease_release :: "string \<Rightarrow> string \<Rightarrow> leases \<Rightarrow> leases \<times> bool" where
  "lease_release gpu job ls =
     (case map_of ls gpu of
        Some l \<Rightarrow> if gl_job l = job then (AList.delete gpu ls, True) else (ls, False)
      | None \<Rightarrow> (ls, False))"

definition lease_renew :: "string \<Rightarrow> string \<Rightarrow> leases \<Rightarrow> leases \<times> bool" where
  "lease_renew gpu job ls =
     (case map_of ls gpu of
        Some l \<Rightarrow> if gl_job l = job then (AList.update gpu (l\<lparr>gl_renewed := Suc (gl_renewed l)\<rparr>) ls, True) else (ls, False)
      | None \<Rightarrow> (ls, False))"

definition lease_is_locked :: "rat \<Rightarrow> string \<Rightarrow> leases \<Rightarrow> bool" where
  "lease_is_locked now gpu ls = (case map_of ls gpu of None \<Rightarrow> False | Some l \<Rightarrow> \<not> lease_is_expired now l)"

definition lease_get_holder :: "rat \<Rightarrow> string \<Rightarrow> leases \<Rightarrow> string option" where
  "lease_get_holder now gpu ls =
     (case map_of ls gpu of None \<Rightarrow> None | Some l \<Rightarrow> if lease_is_expired now l then None else Some (gl_job l))"

definition lease_cleanup_expired :: "rat \<Rightarrow> leases \<Rightarrow> leases \<times> nat" where
  "lease_cleanup_expired now ls =
     (let ls' = filter (\<lambda>(k, l). \<not> lease_is_expired now l) ls in (ls', length ls - length ls'))"

lemmas lease_defs = lease_acquire_def lease_release_def lease_get_holder_def lease_is_expired_def

interpretation lease: ttl_lock lease_acquire lease_release "\<lambda>now s g. lease_get_holder now g s" "\<lambda>_. True"
  by unfold_locales
    (auto simp: lease_defs update_conv' delete_conv' split: option.splits if_splits)

section \<open>The worker's lock manager\<close>

record gpu_lock =
  lk_job :: string
  lk_at :: rat
  lk_ttl :: rat

record lock_mgr =
  lm_locks :: "(string \<times> gpu_lock) list"
  lm_default :: rat
  lm_callbacks :: "string list"
  lm_fired :: "(string \<times> string) list"

text \<open>\<open>ttl or self.default_ttl\<close>: no time to live and zero both mean the default.\<close>

definition lm_ttl :: "rat option \<Rightarrow> lock_mgr \<Rightarrow> rat" where
  "lm_ttl ttl s = (case ttl of Some t \<Rightarrow> if t \<noteq> 0 then t else lm_default s | None \<Rightarrow> lm_default s)"

text \<open>The age of an existing lock is compared with the time to live of the new request.\<close>

definition lm_acquire :: "rat \<Rightarrow> string \<Rightarrow> string \<Rightarrow> rat option \<Rightarrow> lock_mgr \<Rightarrow> lock_mgr \<times> bool" where
  "lm_acquire now gpu job ttl s =
     (let ttl' = lm_ttl ttl s;
          new = s\<lparr>lm_locks := AList.update gpu \<lparr>lk_job = job, lk_at = now, lk_ttl = ttl'\<rparr> (lm_locks s)\<rparr>
      in case map_of (lm_locks s) gpu of
           Some l \<Rightarrow> if now - lk_at l < ttl' then (s, False) else (new, True)
         | None \<Rightarrow> (new, True))"

definition lm_release :: "string \<Rightarrow> lock_mgr \<Rightarrow> lock_mgr" where
  "lm_release gpu s =
     (case map_of (lm_locks s) gpu of
        None \<Rightarrow> s
      | Some l \<Rightarrow> s\<lparr>lm_locks := AList.delete gpu (lm_locks s),
                    lm_fired := lm_fired s @ (if gpu \<in> set (lm_callbacks s) then [(gpu, lk_job l)] else [])\<rparr>)"

definition lm_force_release :: "string \<Rightarrow> string \<Rightarrow> lock_mgr \<Rightarrow> lock_mgr \<times> bool" where
  "lm_force_release gpu job s =
     (case map_of (lm_locks s) gpu of
        Some l \<Rightarrow> if lk_job l = job then (s\<lparr>lm_locks := AList.delete gpu (lm_locks s)\<rparr>, True) else (s, False)
      | None \<Rightarrow> (s, False))"

definition lm_cleanup_expired :: "rat \<Rightarrow> lock_mgr \<Rightarrow> lock_mgr \<times> string list" where
  "lm_cleanup_expired now s =
     (let expired = map fst (filter (\<lambda>(g, l). now - lk_at l \<ge> lk_ttl l) (lm_locks s))
      in (s\<lparr>lm_locks := filter (\<lambda>(g, l). g \<notin> set expired) (lm_locks s)\<rparr>, expired))"

definition lm_register_release_callback :: "string \<Rightarrow> lock_mgr \<Rightarrow> lock_mgr" where
  "lm_register_release_callback gpu s = s\<lparr>lm_callbacks := List.insert gpu (lm_callbacks s)\<rparr>"

text \<open>
  The readers run under the mutex \<open>_mu\<close>, a \<open>threading.Lock\<close>, which its holder cannot take
  again. \<open>mu\<close> says whether the calling thread holds it; \<open>None\<close> is a call that never returns.
\<close>

definition lm_is_locked :: "bool \<Rightarrow> rat \<Rightarrow> string \<Rightarrow> lock_mgr \<Rightarrow> bool option" where
  "lm_is_locked mu now gpu s =
     (if mu then None
      else Some (case map_of (lm_locks s) gpu of None \<Rightarrow> False | Some l \<Rightarrow> now - lk_at l < lk_ttl l))"

definition lm_get_lock_holder :: "bool \<Rightarrow> rat \<Rightarrow> string \<Rightarrow> lock_mgr \<Rightarrow> string option option" where
  "lm_get_lock_holder mu now gpu s =
     (if mu then None
      else case map_of (lm_locks s) gpu of
             None \<Rightarrow> Some None
           | Some l \<Rightarrow> (case lm_is_locked True now gpu s of
                          None \<Rightarrow> None | Some b \<Rightarrow> Some (if b then Some (lk_job l) else None)))"

fun those_true :: "('a \<Rightarrow> bool option) \<Rightarrow> 'a list \<Rightarrow> 'a list option" where
  "those_true f [] = Some []"
| "those_true f (x # xs) = (case f x of None \<Rightarrow> None | Some b \<Rightarrow>
     (case those_true f xs of None \<Rightarrow> None | Some ys \<Rightarrow> Some (if b then x # ys else ys)))"

definition lm_get_all_locks :: "bool \<Rightarrow> rat \<Rightarrow> lock_mgr \<Rightarrow> (string \<times> gpu_lock) list option" where
  "lm_get_all_locks mu now s =
     (if mu then None else those_true (\<lambda>(g, l). lm_is_locked True now g s) (lm_locks s))"

text \<open>What \<open>get_lock_holder\<close> is meant to compute.\<close>

definition lm_holder :: "rat \<Rightarrow> lock_mgr \<Rightarrow> string \<Rightarrow> string option" where
  "lm_holder now s gpu =
     (case map_of (lm_locks s) gpu of None \<Rightarrow> None
      | Some l \<Rightarrow> if now - lk_at l < lk_ttl l then Some (lk_job l) else None)"

definition lm_uniform :: "lock_mgr \<Rightarrow> bool" where
  "lm_uniform s = (\<forall>(g, l)\<in>set (lm_locks s). lk_ttl l = lm_default s)"

lemma lm_uniformD: "lm_uniform s \<Longrightarrow> map_of (lm_locks s) g = Some l \<Longrightarrow> lk_ttl l = lm_default s"
  by (auto simp: lm_uniform_def dest: map_of_SomeD)

lemma lm_uniform_acquire: "lm_uniform s \<Longrightarrow> lm_uniform (fst (lm_acquire now g j None s))"
  using AList_update_set [of g "\<lparr>lk_job = j, lk_at = now, lk_ttl = lm_default s\<rparr>" "lm_locks s"]
  by (fastforce simp: lm_uniform_def lm_acquire_def lm_ttl_def Let_def split: option.splits)

lemma lm_uniform_release: "lm_uniform s \<Longrightarrow> lm_uniform (fst (lm_force_release g j s))"
  using AList_delete_set [of g "lm_locks s"]
  by (auto simp: lm_uniform_def lm_force_release_def split: option.splits)

text \<open>With the default time to live everywhere the lock manager meets the contract.\<close>

interpretation lock_default: ttl_lock
  "\<lambda>now g j (x :: unit) ttl s. lm_acquire now g j None s" lm_force_release lm_holder lm_uniform
proof unfold_locales
  fix s :: lock_mgr and now g j' j x ttl
  show "lm_uniform s \<Longrightarrow> lm_holder now s g = Some j' \<Longrightarrow> j' \<noteq> j \<Longrightarrow> lm_acquire now g j None s = (s, False)"
    by (auto simp: lm_acquire_def lm_holder_def lm_ttl_def Let_def split: option.splits if_splits dest: lm_uniformD)
  show "lm_uniform s \<Longrightarrow> lm_holder now s g = None \<Longrightarrow> snd (lm_acquire now g j None s)"
    by (auto simp: lm_acquire_def lm_holder_def lm_ttl_def Let_def split: option.splits if_splits dest: lm_uniformD)
  show "lm_uniform s \<Longrightarrow> lm_uniform (fst (lm_acquire now g j None s))" by (rule lm_uniform_acquire)
  show "lm_uniform s \<Longrightarrow> lm_uniform (fst (lm_force_release g j s))" by (rule lm_uniform_release)
qed (auto simp: lm_acquire_def lm_force_release_def lm_holder_def Let_def update_conv' delete_conv'
    split: option.splits if_splits)

section \<open>The HTTP lock service\<close>

record http_lock =
  hl_job :: string
  hl_expires :: rat

type_synonym http_locks = "(string \<times> http_lock) list"

text \<open>\<open>None\<close> is the HTTP error: 409 from acquire, 403 from release.\<close>

definition http_acquire :: "rat \<Rightarrow> string \<Rightarrow> string \<Rightarrow> rat \<Rightarrow> http_locks \<Rightarrow> (http_locks \<times> rat) option" where
  "http_acquire now gpu job ttl ls =
     (case map_of ls gpu of
        Some l \<Rightarrow> if now < hl_expires l \<and> hl_job l \<noteq> job then None
                  else Some (AList.update gpu \<lparr>hl_job = job, hl_expires = now + ttl\<rparr> ls, ttl)
      | None \<Rightarrow> Some (AList.update gpu \<lparr>hl_job = job, hl_expires = now + ttl\<rparr> ls, ttl))"

definition http_release :: "string \<Rightarrow> string \<Rightarrow> http_locks \<Rightarrow> http_locks option" where
  "http_release gpu job ls =
     (case map_of ls gpu of
        Some l \<Rightarrow> if hl_job l = job then Some (AList.delete gpu ls) else None
      | None \<Rightarrow> None)"

text \<open>\<open>status\<close>: it does not look at the expiry.\<close>

definition http_status :: "rat \<Rightarrow> string \<Rightarrow> http_locks \<Rightarrow> (string \<times> rat) option" where
  "http_status now gpu ls =
     (case map_of ls gpu of None \<Rightarrow> None | Some l \<Rightarrow> Some (hl_job l, max 0 (hl_expires l - now)))"

definition http_holder :: "rat \<Rightarrow> http_locks \<Rightarrow> string \<Rightarrow> string option" where
  "http_holder now ls gpu =
     (case map_of ls gpu of None \<Rightarrow> None | Some l \<Rightarrow> if now < hl_expires l then Some (hl_job l) else None)"

definition opt_step :: "'s \<Rightarrow> 's option \<Rightarrow> 's \<times> bool" where
  "opt_step s r = (case r of None \<Rightarrow> (s, False) | Some s' \<Rightarrow> (s', True))"

interpretation http: ttl_lock
  "\<lambda>now g j (x :: unit) ttl s. opt_step s (map_option fst (http_acquire now g j ttl s))"
  "\<lambda>g j s. opt_step s (http_release g j s)" http_holder "\<lambda>_. True"
  by unfold_locales
    (auto simp: http_acquire_def http_release_def http_holder_def opt_step_def update_conv' delete_conv'
      split: option.splits if_splits)

section \<open>Properties\<close>

text \<open>A control plane lease excludes other jobs until it expires. If job \<open>j\<close> holds the GPU at least up to
  the time \<open>T\<close>, then after any sequence of acquire and release calls of any other jobs made by then,
  it is still the holder and every further acquire by another job is denied without a change. Conversely
  no acquire is ever denied on a GPU that has no holder.\<close>

theorem lease_excludes_others:
  assumes "lease_get_holder T gpu ls = Some j"
    and "\<forall>(now, p)\<in>set ops. now \<le> T \<and> \<not> op_by gpu j p" and "t \<le> T" and "j' \<noteq> j"
  shows "lease_get_holder t gpu (fold (lock_step lease_acquire lease_release) ops ls) = Some j
    \<and> lease_acquire t gpu j' w ttl (fold (lock_step lease_acquire lease_release) ops ls) =
        (fold (lock_step lease_acquire lease_release) ops ls, False)
    \<and> (\<not> snd (lease_acquire now' g' j'' w' ttl' ls') \<longrightarrow> lease_get_holder now' g' ls' \<noteq> None)"
  using lease.exclusive [OF _ assms] lease.denied_only_if_held [where now = now' and g = g' and j = j'' and x = w' and ttl = ttl' and s = ls']
  by auto

definition demo_lease :: leases where
  "demo_lease = fst (lease_acquire 0 ''gpu0'' ''a'' ''w1'' 30 [])"

theorem lease_excludes_others_witness:
  "lease_get_holder 30 ''gpu0'' demo_lease = Some ''a'' \<and>
   snd (lease_acquire 30 ''gpu0'' ''b'' ''w2'' 30 (fold (lock_step lease_acquire lease_release)
     [(5, Acquire ''gpu0'' ''b'' ''w2'' 10), (6, Release ''gpu0'' ''b'')] demo_lease)) = False"
proof -
  have h: "lease_get_holder 30 ''gpu0'' demo_lease = Some ''a''"
    by (simp add: demo_lease_def lease_defs)
  from lease_excludes_others [OF h, of "[(5, Acquire ''gpu0'' ''b'' ''w2'' 10), (6, Release ''gpu0'' ''b'')]" 30 "''b''" "''w2''" 30] h
  show ?thesis by simp
qed

text \<open>The HTTP lock service gives the same guarantee: up to the expiry of a held lock, no request of
  another job acquires or releases it, over any sequence of requests.\<close>

theorem http_lock_excludes_others:
  assumes "http_holder T ls gpu = Some j"
    and "\<forall>(now, p)\<in>set ops. now \<le> T \<and> \<not> op_by gpu j p" and "t \<le> T" and "j' \<noteq> j"
  defines "ls' \<equiv> fold (lock_step (\<lambda>now g j (x :: unit) ttl s. opt_step s (map_option fst (http_acquire now g j ttl s)))
                   (\<lambda>g j s. opt_step s (http_release g j s))) ops ls"
  shows "http_holder t ls' gpu = Some j \<and> http_acquire t gpu j' ttl ls' = None \<and> http_release gpu j' ls' = None"
proof -
  have h: "http_holder t ls' gpu = Some j" using http.exclusive [OF _ assms(1-4)] by (simp add: ls'_def)
  with assms(4) show ?thesis
    by (auto simp: http_holder_def http_acquire_def http_release_def split: option.splits if_splits)
qed

theorem http_lock_excludes_others_witness:
  "http_holder 9 [(''gpu0'', \<lparr>hl_job = ''a'', hl_expires = 10\<rparr>)] ''gpu0'' = Some ''a''
   \<and> http_acquire 9 ''gpu0'' ''b'' 5 [(''gpu0'', \<lparr>hl_job = ''a'', hl_expires = 10\<rparr>)] = None"
  using http_lock_excludes_others [of 9 "[(''gpu0'', \<lparr>hl_job = ''a'', hl_expires = 10\<rparr>)]" "''gpu0''" "''a''" "[]" 9 "''b''" 5]
  by (simp add: http_holder_def)

text \<open>The worker's lock manager does not exclude. A live lock (its own time to live not over) is taken
  over by another job exactly when the request names a time to live no longer than the lock's age; with
  the default time to live in every call this cannot happen, and the manager meets the contract.\<close>

theorem lock_manager_steals_iff_short_ttl:
  assumes "lm_holder now s gpu = Some j" and "j' \<noteq> j"
  shows "(\<exists>l. map_of (lm_locks s) gpu = Some l
      \<and> (snd (lm_acquire now gpu j' ttl s) \<longleftrightarrow> lm_ttl ttl s \<le> now - lk_at l)
      \<and> (snd (lm_acquire now gpu j' ttl s) \<longrightarrow> 0 < lm_ttl ttl s \<longrightarrow> lm_holder now (fst (lm_acquire now gpu j' ttl s)) gpu = Some j'))
    \<and> (lm_uniform s \<longrightarrow> lm_acquire now gpu j' None s = (s, False))"
  using assms lock_default.acquire_taken [of s now gpu j j']
  by (auto simp: lm_acquire_def lm_holder_def Let_def update_conv' split: option.splits if_splits)

definition demo_lock :: lock_mgr where
  "demo_lock = \<lparr>lm_locks = [(''gpu0'', \<lparr>lk_job = ''a'', lk_at = 0, lk_ttl = 3600\<rparr>)], lm_default = 3600,
     lm_callbacks = [], lm_fired = []\<rparr>"

theorem lock_manager_steals_iff_short_ttl_witness:
  "lm_holder 100 demo_lock ''gpu0'' = Some ''a'' \<and> snd (lm_acquire 100 ''gpu0'' ''b'' (Some 60) demo_lock)"
proof -
  have h: "lm_holder 100 demo_lock ''gpu0'' = Some ''a''" by (simp add: lm_holder_def demo_lock_def)
  from lock_manager_steals_iff_short_ttl [OF h, of "''b''" "Some 60"] h show ?thesis
    by (auto simp: demo_lock_def lm_ttl_def)
qed

text \<open>Two readers of the lock manager block. \<open>get_lock_holder\<close> of a GPU with a lock entry and
  \<open>get_all_locks\<close> with any entry call \<open>is_locked\<close> while holding the mutex it needs and never return;
  for a GPU without an entry, and with no entries, they return at once.\<close>

theorem lock_manager_readers_block:
  "lm_get_lock_holder False now gpu s = (if gpu \<in> fst ` set (lm_locks s) then None else Some None)
   \<and> lm_get_all_locks False now s = (if lm_locks s = [] then Some [] else None)"
proof
  show "lm_get_lock_holder False now gpu s = (if gpu \<in> fst ` set (lm_locks s) then None else Some None)"
    by (auto simp: lm_get_lock_holder_def lm_is_locked_def map_of_eq_None_iff [symmetric] split: option.splits)
  show "lm_get_all_locks False now s = (if lm_locks s = [] then Some [] else None)"
    by (cases "lm_locks s") (auto simp: lm_get_all_locks_def lm_is_locked_def)
qed

end
