(* ===== verification/ControlPlane.thy ===== *)
theory ControlPlane
  imports Money Locks
begin

text \<open>
  The control plane, \<open>src/control_plane\<close>: the durable job store (\<open>job_store.py\<close>), the worker
  registry (\<open>registry.py\<close>) and the reconciler that ties them and the leases together
  (\<open>reconciler.py\<close>), over the data of \<open>core_models.py\<close>. Dictionaries are association lists in
  insertion order. The job store's file is part of its state: every mutation rewrites it.

  Shown: jobs move along the edges of the state machine only, their fields fit their status,
  retries are bounded, a reload from the file gives the same store, submitted ids are fresh, the
  registry selects the least loaded live worker, and what one reconciler tick does to the jobs of
  a worker that stopped beating.
\<close>

section \<open>Core models\<close>

datatype worker_status = WHealthy | WDegraded | WDead | WUnknown

datatype job_status =
    Submitted | Scheduled | Running | Completed | Committed | Failed | Dead | PendingRetry

record cworker =
  cw_id :: string
  cw_status :: worker_status
  cw_gpu_total :: rat
  cw_gpu_used :: rat
  cw_heartbeat :: rat
  cw_active :: int
  cw_tags :: "(string \<times> string) list"
  cw_addr :: string

definition cw_gpu_free :: "cworker \<Rightarrow> rat" where
  "cw_gpu_free w = max 0 (cw_gpu_total w - cw_gpu_used w)"

definition cw_is_healthy :: "cworker \<Rightarrow> bool" where
  "cw_is_healthy w = (cw_status w = WHealthy)"

record cjob =
  cj_id :: string
  cj_plugin :: string
  cj_payload :: pydict
  cj_status :: job_status
  cj_worker :: "string option"
  cj_gpu :: rat
  cj_scheduled :: "rat option"
  cj_started :: "rat option"
  cj_completed :: "rat option"
  cj_error :: "string option"
  cj_retries :: int
  cj_max_retries :: int
  cj_ttl :: rat
  cj_tags :: "(string \<times> string) list"

definition cj_is_terminal :: "cjob \<Rightarrow> bool" where
  "cj_is_terminal j = (cj_status j \<in> {Completed, Committed, Dead, Failed})"

definition cj_is_retryable :: "cjob \<Rightarrow> bool" where
  "cj_is_retryable j = (cj_retries j < cj_max_retries j \<and> cj_status j \<in> {Failed, Dead})"

section \<open>Job store\<close>

text \<open>\<open>js_disk\<close> is the JSON file: the sequence number and the jobs in order; \<open>None\<close> when absent.\<close>

record job_store =
  js_jobs :: "(string \<times> cjob) list"
  js_seq :: nat
  js_disk :: "(nat \<times> cjob list) option"

definition js_load :: "(nat \<times> cjob list) option \<Rightarrow> job_store" where
  "js_load d =
     (case d of
        None \<Rightarrow> \<lparr>js_jobs = [], js_seq = 0, js_disk = None\<rparr>
      | Some (seq, js) \<Rightarrow> \<lparr>js_jobs = fold (\<lambda>j m. AList.update (cj_id j) j m) js [], js_seq = seq, js_disk = d\<rparr>)"

definition js_save :: "job_store \<Rightarrow> job_store" where
  "js_save s = s\<lparr>js_disk := Some (js_seq s, map snd (js_jobs s))\<rparr>"

definition put_job :: "cjob \<Rightarrow> job_store \<Rightarrow> job_store" where
  "put_job j s = js_save (s\<lparr>js_jobs := AList.update (cj_id j) j (js_jobs s)\<rparr>)"

definition js_get :: "string \<Rightarrow> job_store \<Rightarrow> cjob option" where
  "js_get i s = map_of (js_jobs s) i"

definition zfill :: "nat \<Rightarrow> string \<Rightarrow> string" where
  "zfill n s = replicate (n - length s) (CHR ''0'') @ s"

definition job_ident :: "nat \<Rightarrow> string \<Rightarrow> string" where
  "job_ident seq uid = ''job-'' @ zfill 5 (nat_str seq) @ ''-'' @ uid"

definition js_submit ::
  "string \<Rightarrow> string \<Rightarrow> pydict \<Rightarrow> rat \<Rightarrow> rat \<Rightarrow> int \<Rightarrow> job_store \<Rightarrow> job_store \<times> cjob" where
  "js_submit uid plugin pl gpu ttl maxr s =
     (let seq = Suc (js_seq s);
          j = \<lparr>cj_id = job_ident seq uid, cj_plugin = plugin, cj_payload = pl, cj_status = Submitted, cj_worker = None,
               cj_gpu = gpu, cj_scheduled = None, cj_started = None, cj_completed = None, cj_error = None,
               cj_retries = 0, cj_max_retries = maxr, cj_ttl = ttl, cj_tags = []\<rparr>
      in (put_job j (s\<lparr>js_seq := seq\<rparr>), j))"

text \<open>The guarded transitions: \<open>False\<close> and no change unless the job is there in the right status.\<close>

definition js_transition :: "(cjob \<Rightarrow> bool) \<Rightarrow> (cjob \<Rightarrow> cjob) \<Rightarrow> string \<Rightarrow> job_store \<Rightarrow> job_store \<times> bool" where
  "js_transition guard f i s =
     (case js_get i s of
        None \<Rightarrow> (s, False)
      | Some j \<Rightarrow> if guard j then (put_job (f j) s, True) else (s, False))"

definition js_schedule :: "rat \<Rightarrow> string \<Rightarrow> string \<Rightarrow> job_store \<Rightarrow> job_store \<times> bool" where
  "js_schedule now i w s =
     js_transition (\<lambda>j. cj_status j = Submitted)
       (\<lambda>j. j\<lparr>cj_status := Scheduled, cj_worker := Some w, cj_scheduled := Some now\<rparr>) i s"

definition js_start :: "rat \<Rightarrow> string \<Rightarrow> job_store \<Rightarrow> job_store \<times> bool" where
  "js_start now i s =
     js_transition (\<lambda>j. cj_status j = Scheduled) (\<lambda>j. j\<lparr>cj_status := Running, cj_started := Some now\<rparr>) i s"

definition js_complete :: "rat \<Rightarrow> string \<Rightarrow> job_store \<Rightarrow> job_store \<times> bool" where
  "js_complete now i s =
     js_transition (\<lambda>j. cj_status j = Running) (\<lambda>j. j\<lparr>cj_status := Completed, cj_completed := Some now\<rparr>) i s"

definition js_commit :: "string \<Rightarrow> job_store \<Rightarrow> job_store \<times> bool" where
  "js_commit i s = js_transition (\<lambda>j. cj_status j = Completed) (\<lambda>j. j\<lparr>cj_status := Committed\<rparr>) i s"

definition js_fail :: "rat \<Rightarrow> string \<Rightarrow> string \<Rightarrow> job_store \<Rightarrow> job_store \<times> bool" where
  "js_fail now i err s =
     js_transition (\<lambda>j. cj_status j = Running \<or> cj_status j = Scheduled)
       (\<lambda>j. j\<lparr>cj_status := Failed, cj_error := Some err, cj_completed := Some now\<rparr>) i s"

definition js_requeue :: "string \<Rightarrow> job_store \<Rightarrow> job_store \<times> bool" where
  "js_requeue i s =
     (case js_get i s of
        None \<Rightarrow> (s, False)
      | Some j \<Rightarrow>
          if \<not> cj_is_retryable j then (put_job (j\<lparr>cj_status := Dead\<rparr>) s, False)
          else (put_job (j\<lparr>cj_status := PendingRetry, cj_worker := None, cj_retries := cj_retries j + 1\<rparr>) s, True))"

definition advance_job :: "cjob \<Rightarrow> cjob" where
  "advance_job j = (if cj_status j = PendingRetry then j\<lparr>cj_status := Submitted\<rparr> else j)"

definition js_advance_pending :: "job_store \<Rightarrow> job_store \<times> cjob list" where
  "js_advance_pending s =
     (let ready = filter (\<lambda>(i, j). cj_status j = PendingRetry) (js_jobs s)
      in if ready = [] then (s, [])
         else (js_save (s\<lparr>js_jobs := map (\<lambda>(i, j). (i, advance_job j)) (js_jobs s)\<rparr>), map (\<lambda>(i, j). advance_job j) ready))"

definition js_list_by_worker :: "string \<Rightarrow> job_store \<Rightarrow> cjob list" where
  "js_list_by_worker w s = filter (\<lambda>j. cj_worker j = Some w) (map snd (js_jobs s))"

definition js_list_pending :: "job_store \<Rightarrow> cjob list" where
  "js_list_pending s = filter (\<lambda>j. cj_status j = Submitted) (map snd (js_jobs s))"

definition js_list_failed :: "job_store \<Rightarrow> cjob list" where
  "js_list_failed s = filter (\<lambda>j. cj_status j = Failed) (map snd (js_jobs s))"

definition ALL_STATUSES :: "job_status list" where
  "ALL_STATUSES = [Submitted, Scheduled, Running, Completed, Committed, Failed, Dead, PendingRetry]"

definition js_stats :: "job_store \<Rightarrow> (job_status \<times> nat) list" where
  "js_stats s = map (\<lambda>st. (st, length (filter (\<lambda>j. cj_status j = st) (map snd (js_jobs s))))) ALL_STATUSES"

section \<open>Worker registry\<close>

record registry =
  rg_workers :: "(string \<times> cworker) list"
  rg_timeout :: rat

definition rg_register :: "rat \<Rightarrow> string \<Rightarrow> rat \<Rightarrow> (string \<times> string) list \<Rightarrow> string \<Rightarrow> registry \<Rightarrow> registry" where
  "rg_register now w gpu tags addr r =
     r\<lparr>rg_workers := AList.update w \<lparr>cw_id = w, cw_status = WHealthy, cw_gpu_total = gpu, cw_gpu_used = 0,
         cw_heartbeat = now, cw_active = 0, cw_tags = tags, cw_addr = addr\<rparr> (rg_workers r)\<rparr>"

definition rg_heartbeat :: "rat \<Rightarrow> string \<Rightarrow> rat \<Rightarrow> int \<Rightarrow> registry \<Rightarrow> registry \<times> cworker option" where
  "rg_heartbeat now w used active r =
     (case map_of (rg_workers r) w of
        None \<Rightarrow> (r, None)
      | Some x \<Rightarrow> (let x' = x\<lparr>cw_gpu_used := used, cw_active := active, cw_heartbeat := now, cw_status := WHealthy\<rparr>
                   in (r\<lparr>rg_workers := AList.update w x' (rg_workers r)\<rparr>, Some x')))"

definition rg_mark_dead :: "string \<Rightarrow> registry \<Rightarrow> registry" where
  "rg_mark_dead w r =
     (case map_of (rg_workers r) w of
        None \<Rightarrow> r
      | Some x \<Rightarrow> r\<lparr>rg_workers := AList.update w (x\<lparr>cw_status := WDead\<rparr>) (rg_workers r)\<rparr>)"

definition rg_list_healthy :: "rat \<Rightarrow> registry \<Rightarrow> cworker list" where
  "rg_list_healthy now r =
     filter (\<lambda>w. cw_is_healthy w \<and> now - cw_heartbeat w < rg_timeout r) (map snd (rg_workers r))"

text \<open>\<open>min(avail, key=...)\<close>: the first worker with the least (GPU used, active jobs).\<close>

definition load_le :: "cworker \<Rightarrow> cworker \<Rightarrow> bool" where
  "load_le a b = (cw_gpu_used a < cw_gpu_used b \<or> cw_gpu_used a = cw_gpu_used b \<and> cw_active a \<le> cw_active b)"

fun min_load :: "cworker \<Rightarrow> cworker list \<Rightarrow> cworker" where
  "min_load w [] = w"
| "min_load w (x # xs) = min_load (if load_le w x then w else x) xs"

definition rg_select_best :: "rat \<Rightarrow> rat \<Rightarrow> registry \<Rightarrow> cworker option" where
  "rg_select_best now need r =
     (case filter (\<lambda>w. cw_gpu_free w \<ge> need) (rg_list_healthy now r) of
        [] \<Rightarrow> None | w # ws \<Rightarrow> Some (min_load w ws))"

definition rg_stats :: "registry \<Rightarrow> nat \<times> nat \<times> nat \<times> rat \<times> rat" where
  "rg_stats r =
     (let ws = map snd (rg_workers r)
      in (length ws, length (filter cw_is_healthy ws), length (filter (\<lambda>w. cw_status w = WDead) ws),
          sum_list (map cw_gpu_total ws), sum_list (map cw_gpu_used ws)))"

section \<open>Reconciler\<close>

record plane =
  pl_reg :: registry
  pl_jobs :: job_store
  pl_leases :: leases
  pl_ht :: rat
  pl_ticks :: nat

definition gpu_name :: "string \<Rightarrow> nat \<Rightarrow> string" where
  "gpu_name w i = w @ ''-gpu-'' @ nat_str i"

definition release_gpus :: "string \<Rightarrow> cjob \<Rightarrow> leases \<Rightarrow> leases" where
  "release_gpus w j ls =
     fold (\<lambda>i ls. fst (lease_release (gpu_name w i) (cj_id j) ls)) [0 ..< nat (if cj_gpu j \<ge> 0 then \<lfloor>cj_gpu j\<rfloor> else 0)] ls"

text \<open>
  One job of a worker that timed out. \<open>job\<close> is the store's own object in the source, so its status
  is read again after \<open>fail\<close>.
\<close>

definition recover_job :: "rat \<Rightarrow> string \<Rightarrow> string \<Rightarrow> plane \<Rightarrow> plane" where
  "recover_job now w i p =
     (case js_get i (pl_jobs p) of
        None \<Rightarrow> p
      | Some j \<Rightarrow>
          let s1 = (if cj_status j = Running then fst (js_fail now i (''Worker '' @ w @ '' died'') (pl_jobs p)) else pl_jobs p)
          in case js_get i s1 of
               None \<Rightarrow> p\<lparr>pl_jobs := s1\<rparr>
             | Some j1 \<Rightarrow>
                 if cj_status j1 = Scheduled \<or> cj_status j1 = Failed
                 then (case js_requeue i s1 of
                         (s2, True) \<Rightarrow> p\<lparr>pl_jobs := s2, pl_leases := release_gpus w j (pl_leases p)\<rparr>
                       | (s2, False) \<Rightarrow> p\<lparr>pl_jobs := s2\<rparr>)
                 else p\<lparr>pl_jobs := s1\<rparr>)"

definition timed_out :: "rat \<Rightarrow> rat \<Rightarrow> cworker \<Rightarrow> bool" where
  "timed_out now ht w = (now - cw_heartbeat w > ht \<and> cw_is_healthy w)"

definition check_worker :: "rat \<Rightarrow> string \<Rightarrow> plane \<Rightarrow> plane" where
  "check_worker now w p =
     (case map_of (rg_workers (pl_reg p)) w of
        None \<Rightarrow> p
      | Some x \<Rightarrow>
          if timed_out now (pl_ht p) x
          then fold (recover_job now w) (map cj_id (js_list_by_worker w (pl_jobs p)))
                 (p\<lparr>pl_reg := rg_mark_dead w (pl_reg p)\<rparr>)
          else p)"

definition reconciler_tick :: "rat \<Rightarrow> plane \<Rightarrow> plane" where
  "reconciler_tick now p0 =
     (let p1 = p0\<lparr>pl_ticks := Suc (pl_ticks p0)\<rparr>;
          p2 = fold (check_worker now) (map fst (rg_workers (pl_reg p1))) p1;
          p3 = p2\<lparr>pl_leases := fst (lease_cleanup_expired now (pl_leases p2))\<rparr>
      in p3\<lparr>pl_jobs := fst (js_advance_pending (pl_jobs p3))\<rparr>)"

section \<open>Keys and the file\<close>

definition keyed :: "(string \<times> cjob) list \<Rightarrow> bool" where
  "keyed js = (distinct (map fst js) \<and> (\<forall>(i, j)\<in>set js. cj_id j = i))"

lemma keyed_get: "keyed (js_jobs s) \<Longrightarrow> js_get i s = Some j \<Longrightarrow> cj_id j = i"
  by (auto simp: keyed_def js_get_def dest: map_of_SomeD)

lemma keyed_update: "keyed js \<Longrightarrow> keyed (AList.update (cj_id j) j js)"
  using AList_update_set [of "cj_id j" j js] by (auto simp: keyed_def distinct_update)

lemma js_jobs_put [simp]: "js_jobs (put_job j s) = AList.update (cj_id j) j (js_jobs s)"
  and js_seq_put [simp]: "js_seq (put_job j s) = js_seq s"
  by (simp_all add: put_job_def js_save_def)

lemma js_get_put: "js_get i (put_job j s) = (if i = cj_id j then Some j else js_get i s)"
  by (simp add: js_get_def update_conv')

lemma map_fst_advance: "map fst (map (\<lambda>(i, j). (i, advance_job j)) js) = map fst js"
  by (induction js) auto

lemma advance_job_id [simp]: "cj_id (advance_job j) = cj_id j"
  by (simp add: advance_job_def)

lemma keyed_advance: "keyed js \<Longrightarrow> keyed (map (\<lambda>(i, j). (i, advance_job j)) js)"
  by (auto simp: keyed_def map_fst_advance simp del: map_map)

lemma js_get_advance: "js_get i (fst (js_advance_pending s)) = map_option advance_job (js_get i s)"
proof -
  have "map_of (map (\<lambda>(i, j). (i, advance_job j)) js) i = map_option advance_job (map_of js i)" for js
    by (induction js) auto
  moreover have "map_option advance_job (js_get i s) = js_get i s"
    if "filter (\<lambda>(i, j). cj_status j = PendingRetry) (js_jobs s) = []"
    using that
    by (cases "js_get i s") (auto simp: js_get_def advance_job_def filter_empty_conv dest!: map_of_SomeD)
  ultimately show ?thesis
    by (auto simp: js_advance_pending_def Let_def js_get_def js_save_def)
qed

text \<open>Loading what was saved: the dictionary comes back in the same order.\<close>

lemma update_fresh: "k \<notin> fst ` set xs \<Longrightarrow> AList.update k v xs = xs @ [(k, v)]"
  by (induction xs) auto

lemma load_fold:
  "distinct (map cj_id js) \<Longrightarrow> fst ` set acc \<inter> cj_id ` set js = {} \<Longrightarrow>
     fold (\<lambda>j m. AList.update (cj_id j) j m) js acc = acc @ map (\<lambda>j. (cj_id j, j)) js"
proof (induction js arbitrary: acc)
  case (Cons j js)
  then have "AList.update (cj_id j) j acc = acc @ [(cj_id j, j)]" by (intro update_fresh) auto
  with Cons show ?case by auto
qed simp

lemma keyed_values: "keyed js \<Longrightarrow> map (\<lambda>j. (cj_id j, j)) (map snd js) = js \<and> distinct (map cj_id (map snd js))"
proof -
  assume k: "keyed js"
  have "map (\<lambda>j. (cj_id j, j)) (map snd js) = js"
    using k unfolding keyed_def map_map by (intro map_idI) auto
  moreover have "map (cj_id \<circ> snd) js = map fst js" using k by (auto simp: keyed_def)
  ultimately show ?thesis using k by (metis keyed_def map_map)
qed

definition disk_ok :: "job_store \<Rightarrow> bool" where
  "disk_ok s \<longleftrightarrow> js_disk s = Some (js_seq s, map snd (js_jobs s)) \<or> js_disk s = None \<and> js_jobs s = [] \<and> js_seq s = 0"

lemma load_saved:
  assumes "keyed (js_jobs s)" "disk_ok s"
  shows "js_load (js_disk s) = s"
proof (cases "js_disk s")
  case None
  then show ?thesis using assms(2) by (simp add: js_load_def disk_ok_def)
next
  case (Some d)
  then have d: "js_disk s = Some (js_seq s, map snd (js_jobs s))" using assms(2) by (simp add: disk_ok_def)
  have "fold (\<lambda>j m. AList.update (cj_id j) j m) (map snd (js_jobs s)) [] = js_jobs s"
    using load_fold [of "map snd (js_jobs s)" "[]"] keyed_values [OF assms(1)] by simp
  with d show ?thesis by (simp add: js_load_def)
qed

section \<open>Identifiers\<close>

lemma zfill_digits: "all_digits (zfill n (nat_str k)) \<and> nat_of_digits (map dval (zfill n (nat_str k))) = k"
proof -
  have z: "all_digits (replicate m (CHR ''0''))" "nat_of_digits (map dval (replicate m (CHR ''0''))) = 0" for m
    by (induction m) (auto simp: all_digits_def isdig_def dval_def nat_of_digits_def)
  from z nat_str_props [of k] show ?thesis
    unfolding zfill_def by (auto simp: nat_of_digits_append all_digits_def)
qed

lemma job_ident_inj: "job_ident n u = job_ident m v \<Longrightarrow> n = m"
proof -
  assume "job_ident n u = job_ident m v"
  then have "zfill 5 (nat_str n) @ ''-'' @ u = zfill 5 (nat_str m) @ ''-'' @ v" by (simp add: job_ident_def)
  then have "digitpart (zfill 5 (nat_str n) @ ''-'' @ u) = digitpart (zfill 5 (nat_str m) @ ''-'' @ v)" by simp
  moreover have "digitpart (zfill 5 (nat_str k) @ ''-'' @ w) = (map dval (zfill 5 (nat_str k)), ''-'' @ w)" for k w
    using zfill_digits [of 5 k] by (intro digitpart_digits) (auto simp: isdig_def)
  ultimately show ?thesis using zfill_digits by (metis prod.inject)
qed

section \<open>Invariant\<close>

definition job_fits :: "cjob \<Rightarrow> bool" where
  "job_fits j \<longleftrightarrow>
     (cj_status j \<in> {Submitted, PendingRetry} \<longrightarrow> cj_worker j = None)
     \<and> (cj_status j \<in> {Scheduled, Running, Completed, Committed, Failed} \<longrightarrow> cj_worker j \<noteq> None \<and> cj_scheduled j \<noteq> None)
     \<and> (cj_status j \<in> {Running, Completed, Committed} \<longrightarrow> cj_started j \<noteq> None)
     \<and> (cj_status j \<in> {Completed, Committed, Failed} \<longrightarrow> cj_completed j \<noteq> None)
     \<and> 0 \<le> cj_retries j \<and> cj_retries j \<le> max 0 (cj_max_retries j)"

definition store_inv :: "job_store \<Rightarrow> bool" where
  "store_inv s \<longleftrightarrow>
     keyed (js_jobs s) \<and> disk_ok s \<and> (\<forall>(i, j)\<in>set (js_jobs s). job_fits j)
     \<and> (\<forall>i\<in>fst ` set (js_jobs s). \<exists>n u. i = job_ident n u \<and> n \<le> js_seq s)"

lemma store_inv_get: "store_inv s \<Longrightarrow> js_get i s = Some j \<Longrightarrow> job_fits j \<and> cj_id j = i"
  by (auto simp: store_inv_def js_get_def keyed_def dest!: map_of_SomeD)

lemma store_inv_put:
  assumes "store_inv s" "js_get i s = Some j" "cj_id j' = cj_id j" "job_fits j'"
  shows "store_inv (put_job j' s)"
proof -
  have i: "cj_id j' = i" using store_inv_get [OF assms(1,2)] assms(3) by simp
  have mem: "i \<in> fst ` set (js_jobs s)" using assms(2) by (force simp: js_get_def dest: map_of_SomeD)
  then have "fst ` set (AList.update i j' (js_jobs s)) = fst ` set (js_jobs s)"
    by (simp add: dom_update insert_absorb)
  moreover have "\<forall>(k, x)\<in>set (AList.update i j' (js_jobs s)). job_fits x"
    using AList_update_set [of i j' "js_jobs s"] assms(1,4) by (auto simp: store_inv_def)
  ultimately show ?thesis
    using assms(1) keyed_update [of "js_jobs s" j'] i
    by (simp add: store_inv_def disk_ok_def put_job_def js_save_def)
qed

lemma store_inv_transition:
  assumes "store_inv s" "\<And>j. guard j \<Longrightarrow> job_fits j \<Longrightarrow> cj_id (f j) = cj_id j \<and> job_fits (f j)"
  shows "store_inv (fst (js_transition guard f i s))"
  using assms store_inv_get [OF assms(1), of i]
  by (auto simp: js_transition_def split: option.splits intro!: store_inv_put)

lemma store_inv_submit: "store_inv s \<Longrightarrow> store_inv (fst (js_submit uid plugin pl gpu ttl maxr s))"
proof -
  assume inv: "store_inv s"
  let ?j = "snd (js_submit uid plugin pl gpu ttl maxr s)"
  let ?js = "AList.update (cj_id ?j) ?j (js_jobs s)"
  have id: "cj_id ?j = job_ident (Suc (js_seq s)) uid" by (simp add: js_submit_def Let_def)
  have s': "fst (js_submit uid plugin pl gpu ttl maxr s) = put_job ?j (s\<lparr>js_seq := Suc (js_seq s)\<rparr>)"
    by (simp add: js_submit_def Let_def)
  have "job_fits ?j" by (simp add: js_submit_def Let_def job_fits_def)
  then have "\<forall>(k, x)\<in>set ?js. job_fits x"
    using AList_update_set [of "cj_id ?j" ?j "js_jobs s"] inv by (auto simp: store_inv_def)
  moreover have "\<forall>i\<in>fst ` set ?js. \<exists>n u. i = job_ident n u \<and> n \<le> Suc (js_seq s)"
  proof -
    have "fst ` set ?js = insert (job_ident (Suc (js_seq s)) uid) (fst ` set (js_jobs s))"
      unfolding id by (simp add: dom_update)
    moreover have "\<forall>i\<in>fst ` set (js_jobs s). \<exists>n u. i = job_ident n u \<and> n \<le> Suc (js_seq s)"
      using inv unfolding store_inv_def by (metis le_SucI)
    ultimately show ?thesis by (metis insert_iff order_refl)
  qed
  ultimately show ?thesis
    unfolding s' using inv keyed_update [of "js_jobs s" ?j]
    by (simp add: store_inv_def disk_ok_def put_job_def js_save_def)
qed

lemma store_inv_requeue:
  assumes "store_inv s"
  shows "store_inv (fst (js_requeue i s))"
proof (cases "js_get i s")
  case (Some j)
  have fit: "job_fits j" using store_inv_get [OF assms Some] by simp
  have "job_fits (j\<lparr>cj_status := Dead\<rparr>)" using fit by (simp add: job_fits_def)
  moreover have "cj_is_retryable j \<Longrightarrow>
      job_fits (j\<lparr>cj_status := PendingRetry, cj_worker := None, cj_retries := cj_retries j + 1\<rparr>)"
    using fit by (simp add: job_fits_def cj_is_retryable_def)
  ultimately show ?thesis
    using Some by (auto simp: js_requeue_def intro: store_inv_put [OF assms Some])
qed (use assms in \<open>simp add: js_requeue_def\<close>)

lemma job_fits_advance: "job_fits j \<Longrightarrow> job_fits (advance_job j)"
  by (cases "cj_status j") (simp_all add: advance_job_def job_fits_def)

lemma store_inv_advance: "store_inv s \<Longrightarrow> store_inv (fst (js_advance_pending s))"
proof -
  assume inv: "store_inv s"
  let ?js = "map (\<lambda>(i, j). (i, advance_job j)) (js_jobs s)"
  have "fst ` set ?js = fst ` set (js_jobs s)"
    using map_fst_advance [of "js_jobs s"] by (metis list.set_map)
  moreover have "\<forall>(i, j)\<in>set ?js. job_fits j"
    using inv by (auto simp: store_inv_def job_fits_advance)
  ultimately have "store_inv (js_save (s\<lparr>js_jobs := ?js\<rparr>))"
    using inv keyed_advance [of "js_jobs s"] by (simp add: store_inv_def disk_ok_def js_save_def del: set_map)
  with inv show ?thesis by (simp add: js_advance_pending_def Let_def)
qed

inductive store_step :: "job_store \<Rightarrow> job_store \<Rightarrow> bool" where
  submit: "store_step s (fst (js_submit uid plugin pl gpu ttl maxr s))"
| schedule: "store_step s (fst (js_schedule now i w s))"
| start: "store_step s (fst (js_start now i s))"
| complete: "store_step s (fst (js_complete now i s))"
| commit: "store_step s (fst (js_commit i s))"
| fail: "store_step s (fst (js_fail now i err s))"
| requeue: "store_step s (fst (js_requeue i s))"
| advance: "store_step s (fst (js_advance_pending s))"
| reload: "store_step s (js_load (js_disk s))"

interpretation store: transition_system "\<lambda>s. s = js_load None" store_step .

lemma store_step_inv: "store_step s t \<Longrightarrow> store_inv s \<Longrightarrow> store_inv t"
proof (induction rule: store_step.induct)
  case (reload s)
  then show ?case by (simp add: store_inv_def load_saved)
qed (auto simp: store_inv_submit store_inv_requeue store_inv_advance js_schedule_def js_start_def js_complete_def
    js_commit_def js_fail_def job_fits_def intro!: store_inv_transition)

lemma store_reach_inv: "store.reach s \<Longrightarrow> store_inv s"
proof (erule store.invariant_reach [rotated 2])
  show "store_inv s" if "s = js_load None" for s
    using that by (simp add: js_load_def store_inv_def keyed_def disk_ok_def)
qed (rule store_step_inv)

section \<open>Edges of the state machine\<close>

fun job_edge :: "job_status \<Rightarrow> job_status \<Rightarrow> bool" where
  "job_edge Submitted Scheduled = True"
| "job_edge Scheduled Running = True"
| "job_edge Running Completed = True"
| "job_edge Completed Committed = True"
| "job_edge Running Failed = True"
| "job_edge Scheduled Failed = True"
| "job_edge Failed PendingRetry = True"
| "job_edge Dead PendingRetry = True"
| "job_edge PendingRetry Submitted = True"
| "job_edge s Dead = True"
| "job_edge s t = False"

definition moves :: "cjob \<Rightarrow> cjob \<Rightarrow> bool" where
  "moves j j' \<longleftrightarrow> (cj_status j' = cj_status j \<or> job_edge (cj_status j) (cj_status j'))
     \<and> cj_id j' = cj_id j \<and> cj_plugin j' = cj_plugin j \<and> cj_payload j' = cj_payload j \<and> cj_gpu j' = cj_gpu j
     \<and> cj_max_retries j' = cj_max_retries j
     \<and> cj_retries j' = (if cj_status j' = PendingRetry \<and> cj_status j \<noteq> PendingRetry then cj_retries j + 1 else cj_retries j)"

lemma moves_refl [simp]: "moves j j" by (simp add: moves_def)

lemma transition_moves:
  assumes "store_inv s" "js_get k s = Some j" "\<And>j. guard j \<Longrightarrow> moves j (f j)"
  shows "\<exists>j'. js_get k (fst (js_transition guard f i s)) = Some j' \<and> moves j j'"
proof (cases "js_get i s")
  case (Some x)
  show ?thesis
  proof (cases "guard x \<and> k = i")
    case True
    then have "cj_id (f x) = i" "x = j" using assms Some store_inv_get [OF assms(1) Some] by (auto simp: moves_def)
    with True assms Some show ?thesis by (simp add: js_transition_def js_get_put)
  next
    case False
    moreover have "guard x \<Longrightarrow> cj_id (f x) = i"
      using assms(3) [of x] store_inv_get [OF assms(1) Some] by (simp add: moves_def)
    ultimately show ?thesis
      using assms(2) Some by (auto simp: js_transition_def js_get_put)
  qed
qed (use assms in \<open>simp add: js_transition_def\<close>)

lemma requeue_moves:
  assumes "store_inv s" "js_get k s = Some j"
  shows "\<exists>j'. js_get k (fst (js_requeue i s)) = Some j' \<and> moves j j'"
proof (cases "js_get i s")
  case (Some x)
  have x: "cj_id x = i" using store_inv_get [OF assms(1) Some] by simp
  show ?thesis
    using Some x assms(2)
    by (cases "cj_status x") (auto simp: js_requeue_def js_get_put moves_def cj_is_retryable_def)
qed (use assms in \<open>simp add: js_requeue_def\<close>)

lemma moves_schedule: "cj_status j = Submitted \<Longrightarrow> moves j (j\<lparr>cj_status := Scheduled, cj_worker := w, cj_scheduled := t\<rparr>)"
  and moves_start: "cj_status j = Scheduled \<Longrightarrow> moves j (j\<lparr>cj_status := Running, cj_started := t\<rparr>)"
  and moves_complete: "cj_status j = Running \<Longrightarrow> moves j (j\<lparr>cj_status := Completed, cj_completed := t\<rparr>)"
  and moves_commit: "cj_status j = Completed \<Longrightarrow> moves j (j\<lparr>cj_status := Committed\<rparr>)"
  and moves_fail: "cj_status j = Running \<or> cj_status j = Scheduled \<Longrightarrow>
        moves j (j\<lparr>cj_status := Failed, cj_error := e, cj_completed := t\<rparr>)"
  by (auto simp: moves_def)

lemma advance_moves: "moves j (advance_job j)"
  by (simp add: advance_job_def moves_def)

lemma submit_get:
  assumes "store_inv s"
  shows "js_get (job_ident (Suc (js_seq s)) uid) s = None"
proof (rule ccontr)
  assume "js_get (job_ident (Suc (js_seq s)) uid) s \<noteq> None"
  then have "job_ident (Suc (js_seq s)) uid \<in> fst ` set (js_jobs s)"
    by (force simp: js_get_def dest: map_of_SomeD)
  then obtain n u where "job_ident (Suc (js_seq s)) uid = job_ident n u" "n \<le> js_seq s"
    using assms unfolding store_inv_def by blast
  then show False using job_ident_inj by fastforce
qed

lemma store_step_moves:
  assumes "store_step s t" "store_inv s" "js_get k s = Some j"
  shows "\<exists>j'. js_get k t = Some j' \<and> moves j j'"
  using assms(1)
proof cases
  case (submit uid plugin pl gpu ttl maxr)
  have "k \<noteq> job_ident (Suc (js_seq s)) uid" using submit_get [OF assms(2), of uid] assms(3) by auto
  with submit assms(3) show ?thesis by (auto simp: js_submit_def Let_def js_get_def update_conv')
next
  case (requeue i)
  with requeue_moves [OF assms(2,3)] show ?thesis by simp
next
  case advance
  then show ?thesis using assms(3) advance_moves by (simp add: js_get_advance)
next
  case reload
  then show ?thesis using assms by (simp add: store_inv_def load_saved)
next
  case (schedule now i w)
  then show ?thesis unfolding js_schedule_def
    by simp (rule transition_moves [OF assms(2,3)], rule moves_schedule, simp)
next
  case (start now i)
  then show ?thesis unfolding js_start_def
    by simp (rule transition_moves [OF assms(2,3)], rule moves_start, simp)
next
  case (complete now i)
  then show ?thesis unfolding js_complete_def
    by simp (rule transition_moves [OF assms(2,3)], rule moves_complete, simp)
next
  case (commit i)
  then show ?thesis unfolding js_commit_def
    by simp (rule transition_moves [OF assms(2,3)], rule moves_commit, simp)
next
  case (fail now i err)
  then show ?thesis unfolding js_fail_def
    by simp (rule transition_moves [OF assms(2,3)], rule moves_fail, simp)
qed

section \<open>The reconciler, job by job\<close>

text \<open>What a tick does to one job of a worker that timed out.\<close>

definition recovered :: "rat \<Rightarrow> string \<Rightarrow> cjob \<Rightarrow> cjob" where
  "recovered now w j =
     (let j1 = (if cj_status j = Running
                then j\<lparr>cj_status := Failed, cj_error := Some (''Worker '' @ w @ '' died''), cj_completed := Some now\<rparr> else j)
      in if cj_status j1 = Scheduled \<or> cj_status j1 = Failed
         then if cj_is_retryable j1 then j1\<lparr>cj_status := PendingRetry, cj_worker := None, cj_retries := cj_retries j1 + 1\<rparr>
              else j1\<lparr>cj_status := Dead\<rparr>
         else j1)"

definition requeued :: "cjob \<Rightarrow> cjob" where
  "requeued j = (if cj_is_retryable j then j\<lparr>cj_status := PendingRetry, cj_worker := None, cj_retries := cj_retries j + 1\<rparr>
                 else j\<lparr>cj_status := Dead\<rparr>)"

lemma keyed_put: "keyed (js_jobs s) \<Longrightarrow> keyed (js_jobs (put_job j s))"
  by (simp add: keyed_update)

lemma keyed_recover: "keyed (js_jobs (pl_jobs p)) \<Longrightarrow> keyed (js_jobs (pl_jobs (recover_job now w i p)))"
  by (auto simp: recover_job_def js_fail_def js_transition_def js_requeue_def Let_def keyed_put
      simp del: js_jobs_put split: option.splits prod.splits if_splits bool.splits)

lemma requeue_get:
  assumes "keyed (js_jobs s)" "js_get i s = Some j"
  shows "js_get k (fst (js_requeue i s)) = (if k = i then Some (requeued j) else js_get k s)"
  using assms keyed_get [OF assms] by (simp add: js_requeue_def js_get_put requeued_def)

lemma fail_get:
  assumes "keyed (js_jobs s)" "js_get i s = Some j" "cj_status j = Running"
  shows "js_get k (fst (js_fail now i e s)) =
    (if k = i then Some (j\<lparr>cj_status := Failed, cj_error := Some e, cj_completed := Some now\<rparr>) else js_get k s)"
    and "keyed (js_jobs (fst (js_fail now i e s)))"
  using assms keyed_get [OF assms(1,2)]
  by (auto simp: js_fail_def js_transition_def js_get_put keyed_put simp del: js_jobs_put)

lemma recover_get:
  assumes "keyed (js_jobs (pl_jobs p))"
  shows "js_get k (pl_jobs (recover_job now w i p)) =
    (if k = i then map_option (recovered now w) (js_get i (pl_jobs p)) else js_get k (pl_jobs p))"
proof (cases "js_get i (pl_jobs p)")
  case (Some j)
  let ?e = "''Worker '' @ w @ '' died''"
  let ?s1 = "if cj_status j = Running then fst (js_fail now i ?e (pl_jobs p)) else pl_jobs p"
  let ?j1 = "if cj_status j = Running then j\<lparr>cj_status := Failed, cj_error := Some ?e, cj_completed := Some now\<rparr> else j"
  have s1: "js_get k ?s1 = (if k = i then Some ?j1 else js_get k (pl_jobs p))" for k
    using fail_get(1) [OF assms Some] Some by simp
  have k1: "keyed (js_jobs ?s1)" using fail_get(2) [OF assms Some] assms by simp
  have g1: "js_get i ?s1 = Some ?j1" using s1 by simp
  have "pl_jobs (recover_job now w i p) =
      (if cj_status ?j1 = Scheduled \<or> cj_status ?j1 = Failed then fst (js_requeue i ?s1) else ?s1)"
    using Some g1 unfolding recover_job_def Let_def
    by (simp split: prod.splits bool.splits del: append.simps)
  then have "js_get k (pl_jobs (recover_job now w i p)) =
      (if cj_status ?j1 = Scheduled \<or> cj_status ?j1 = Failed
       then if k = i then Some (requeued ?j1) else js_get k ?s1 else js_get k ?s1)"
    using requeue_get [OF k1 g1] by simp
  then show ?thesis using Some s1 [of k] by (simp add: recovered_def requeued_def Let_def)
qed (simp add: recover_job_def)

lemma recover_reg [simp]: "pl_reg (recover_job now w i p) = pl_reg p" "pl_ht (recover_job now w i p) = pl_ht p"
  by (auto simp: recover_job_def Let_def split: option.splits prod.splits bool.splits)

lemma fold_recover:
  "keyed (js_jobs (pl_jobs p)) \<Longrightarrow> distinct ids \<Longrightarrow>
     js_get k (pl_jobs (fold (recover_job now w) ids p)) =
       (if k \<in> set ids then map_option (recovered now w) (js_get k (pl_jobs p)) else js_get k (pl_jobs p))
     \<and> keyed (js_jobs (pl_jobs (fold (recover_job now w) ids p)))
     \<and> pl_reg (fold (recover_job now w) ids p) = pl_reg p \<and> pl_ht (fold (recover_job now w) ids p) = pl_ht p"
proof (induction ids arbitrary: p)
  case (Cons i ids)
  have "keyed (js_jobs (pl_jobs (recover_job now w i p)))" using keyed_recover [OF Cons.prems(1)] .
  from Cons.IH [OF this] Cons.prems show ?case by (auto simp: recover_get)
qed simp

lemma listed_ids:
  assumes "keyed (js_jobs s)"
  shows "distinct (map cj_id (js_list_by_worker w s))"
    and "i \<in> set (map cj_id (js_list_by_worker w s)) \<longleftrightarrow> (\<exists>j. js_get i s = Some j \<and> cj_worker j = Some w)"
proof -
  have "distinct (map cj_id (map snd (js_jobs s)))" using keyed_values [OF assms] by simp
  then show "distinct (map cj_id (js_list_by_worker w s))"
    unfolding js_list_by_worker_def by (rule distinct_map_filter)
  have "js_get i s = Some j \<longleftrightarrow> (i, j) \<in> set (js_jobs s)" for j
    using assms by (simp add: js_get_def keyed_def)
  moreover have "set (js_list_by_worker w s) = {j. cj_worker j = Some w \<and> (cj_id j, j) \<in> set (js_jobs s)}"
  proof -
    have "j \<in> snd ` set (js_jobs s) \<longleftrightarrow> (cj_id j, j) \<in> set (js_jobs s)" for j
    proof
      assume "j \<in> snd ` set (js_jobs s)"
      then obtain k where "(k, j) \<in> set (js_jobs s)" by auto
      moreover from this have "cj_id j = k" using assms by (auto simp: keyed_def)
      ultimately show "(cj_id j, j) \<in> set (js_jobs s)" by simp
    next
      assume "(cj_id j, j) \<in> set (js_jobs s)"
      then show "j \<in> snd ` set (js_jobs s)" by (rule image_eqI [rotated]) simp
    qed
    then show ?thesis by (auto simp: js_list_by_worker_def)
  qed
  moreover have "(i, j) \<in> set (js_jobs s) \<Longrightarrow> cj_id j = i" for j using assms by (auto simp: keyed_def)
  ultimately show "i \<in> set (map cj_id (js_list_by_worker w s)) \<longleftrightarrow> (\<exists>j. js_get i s = Some j \<and> cj_worker j = Some w)"
    unfolding set_map by (auto simp: image_iff)
qed

definition worker_expired :: "rat \<Rightarrow> plane \<Rightarrow> string \<Rightarrow> bool" where
  "worker_expired now p w = (\<exists>x. map_of (rg_workers (pl_reg p)) w = Some x \<and> timed_out now (pl_ht p) x)"

lemma check_worker_spec:
  assumes "keyed (js_jobs (pl_jobs p))"
  shows "js_get k (pl_jobs (check_worker now w p)) =
      map_option (\<lambda>j. if worker_expired now p w \<and> cj_worker j = Some w then recovered now w j else j) (js_get k (pl_jobs p))"
    and "keyed (js_jobs (pl_jobs (check_worker now w p)))"
    and "w' \<noteq> w \<Longrightarrow> worker_expired now (check_worker now w p) w' = worker_expired now p w'"
proof -
  let ?ids = "map cj_id (js_list_by_worker w (pl_jobs p))"
  let ?q = "p\<lparr>pl_reg := rg_mark_dead w (pl_reg p)\<rparr>"
  have q: "keyed (js_jobs (pl_jobs ?q))" using assms by simp
  note F = fold_recover [OF q listed_ids(1) [OF assms, of w], of _ now w]
  have c: "check_worker now w p = (if worker_expired now p w then fold (recover_job now w) ?ids ?q else p)"
    by (auto simp: check_worker_def worker_expired_def split: option.splits)
  show "js_get k (pl_jobs (check_worker now w p)) =
      map_option (\<lambda>j. if worker_expired now p w \<and> cj_worker j = Some w then recovered now w j else j) (js_get k (pl_jobs p))"
    unfolding c using F [of k] listed_ids(2) [OF assms, of k w]
    by (cases "js_get k (pl_jobs p)") (auto simp del: set_map)
  show "keyed (js_jobs (pl_jobs (check_worker now w p)))" unfolding c using F assms by simp
  show "worker_expired now (check_worker now w p) w' = worker_expired now p w'" if "w' \<noteq> w"
    unfolding c using F that
    by (auto simp: worker_expired_def rg_mark_dead_def update_conv' split: option.splits)
qed

lemma recovered_worker: "cj_worker (recovered now w j) = cj_worker j \<or> cj_worker (recovered now w j) = None"
  by (auto simp: recovered_def Let_def)

definition tick_job :: "rat \<Rightarrow> (string \<Rightarrow> bool) \<Rightarrow> cjob \<Rightarrow> cjob" where
  "tick_job now expired j = (case cj_worker j of None \<Rightarrow> j | Some w \<Rightarrow> if expired w then recovered now w j else j)"

lemma fold_check_worker:
  assumes "keyed (js_jobs (pl_jobs p))" "distinct ws"
  shows "js_get k (pl_jobs (fold (check_worker now) ws p)) =
      map_option (tick_job now (\<lambda>w. w \<in> set ws \<and> worker_expired now p w)) (js_get k (pl_jobs p))
    \<and> keyed (js_jobs (pl_jobs (fold (check_worker now) ws p)))"
  using assms
proof (induction ws arbitrary: p)
  case Nil
  have "tick_job now (\<lambda>w. False) = (\<lambda>j. j)" by (auto simp: tick_job_def split: option.splits)
  then show ?case using Nil by (simp add: option.map_ident)
next
  case (Cons w ws)
  let ?p = "check_worker now w p"
  note C = check_worker_spec [OF Cons.prems(1), where now = now and w = w]
  have e: "x \<in> set ws \<Longrightarrow> worker_expired now ?p x = worker_expired now p x" for x
    using C(3) [of x] Cons.prems(2) by auto
  have "tick_job now (\<lambda>x. x \<in> set ws \<and> worker_expired now ?p x)
      (if worker_expired now p w \<and> cj_worker j = Some w then recovered now w j else j)
    = tick_job now (\<lambda>x. x \<in> set (w # ws) \<and> worker_expired now p x) j" for j
    using recovered_worker [of now w j] Cons.prems(2) e by (auto simp: tick_job_def split: option.splits)
  with Cons.IH [OF C(2)] C(1) Cons.prems(2) show ?case
    by (simp add: option.map_comp o_def)
qed

section \<open>Selection\<close>

lemma load_le_trans: "load_le a b \<Longrightarrow> load_le b c \<Longrightarrow> load_le a c"
  and load_le_total: "load_le a b \<or> load_le b a"
  and load_le_refl [simp]: "load_le a a"
  by (auto simp: load_le_def)

lemma min_load_spec: "min_load w xs \<in> insert w (set xs) \<and> (\<forall>y\<in>insert w (set xs). load_le (min_load w xs) y)"
proof (induction xs arbitrary: w)
  case (Cons x xs)
  let ?v = "if load_le w x then w else x"
  have v: "load_le ?v w" "load_le ?v x" using load_le_total [of w x] by auto
  from Cons.IH [of ?v] v show ?case
    using load_le_trans by (auto split: if_splits)
qed simp

section \<open>Properties\<close>

text \<open>In every state the job store reaches by its operations, restarts included, the fields of each job
  fit its status (a running job has a worker and a start time, a committed job has completed, a queued
  job has no worker), the retries lie between zero and the allowed number, and the file is current:
  loading it gives back exactly the store, in the same order.\<close>

theorem job_store_invariant_and_reload:
  assumes "store.reach s"
  shows "js_load (js_disk s) = s \<and> (\<forall>i j. js_get i s = Some j \<longrightarrow> cj_id j = i \<and> job_fits j)"
proof -
  have inv: "store_inv s" using assms by (rule store_reach_inv)
  then have "js_load (js_disk s) = s" by (intro load_saved) (simp_all add: store_inv_def)
  with inv store_inv_get show ?thesis by blast
qed

definition demo_store :: job_store where
  "demo_store = fst (js_submit ''deadbeef'' ''echo'' [] 1 3600 3 (js_load None))"

lemma demo_store_reach: "store.reach demo_store"
  unfolding demo_store_def by (rule store.reach_step [OF store.reach_init [OF refl]]) (rule store_step.submit)

theorem job_store_invariant_and_reload_witness:
  "store.reach demo_store \<and> js_load (js_disk demo_store) = demo_store"
  using job_store_invariant_and_reload [OF demo_store_reach] demo_store_reach by blast



text \<open>An id given by \<open>submit\<close> was never used before, whatever the random suffix: the new job is
  submitted with no worker, and every other job reads as before.\<close>

theorem submit_gives_fresh_id:
  assumes "store.reach s" and "js_submit uid plugin pl gpu ttl maxr s = (t, j)"
  shows "js_get (cj_id j) s = None \<and> js_get (cj_id j) t = Some j \<and> cj_status j = Submitted
    \<and> (\<forall>i. i \<noteq> cj_id j \<longrightarrow> js_get i t = js_get i s) \<and> js_seq t = Suc (js_seq s)"
proof -
  have "cj_id j = job_ident (Suc (js_seq s)) uid" using assms(2) by (auto simp: js_submit_def Let_def)
  with submit_get [OF store_reach_inv [OF assms(1)], of uid] assms(2) show ?thesis
    by (auto simp: js_submit_def Let_def js_get_def update_conv')
qed

theorem submit_gives_fresh_id_witness:
  "\<exists>t j. js_submit ''deadbeef'' ''echo'' [] 1 3600 3 demo_store = (t, j) \<and> js_get (cj_id j) demo_store = None"
proof -
  obtain t j where e: "js_submit ''deadbeef'' ''echo'' [] 1 3600 3 demo_store = (t, j)" by force
  from submit_gives_fresh_id [OF demo_store_reach e] e show ?thesis by blast
qed

text \<open>One tick of the reconciler, job by job. Whatever the order of workers and jobs, each job reads
  after the tick as its own recovery says: a job of a worker that timed out while healthy goes through
  \<open>recovered\<close>, every job that is then pending retry is submitted again, and all others are untouched.
  In particular a running job of such a worker that has retries left is back in the queue in the same
  tick, without a worker and with one more retry counted, and one without retries left is dead.\<close>

theorem reconciler_tick_recovers:
  assumes "store_inv (pl_jobs p)" and "distinct (map fst (rg_workers (pl_reg p)))"
  shows "js_get k (pl_jobs (reconciler_tick now p)) =
      map_option (\<lambda>j. advance_job (tick_job now (worker_expired now p) j)) (js_get k (pl_jobs p))
    \<and> (js_get k (pl_jobs p) = Some j \<longrightarrow> cj_status j = Running \<longrightarrow> cj_worker j = Some w \<longrightarrow> worker_expired now p w \<longrightarrow>
        (\<exists>j'. js_get k (pl_jobs (reconciler_tick now p)) = Some j' \<and>
          (if cj_retries j < cj_max_retries j
           then cj_status j' = Submitted \<and> cj_worker j' = None \<and> cj_retries j' = cj_retries j + 1
           else cj_status j' = Dead)))"
proof -
  let ?p1 = "p\<lparr>pl_ticks := Suc (pl_ticks p)\<rparr>"
  let ?ws = "map fst (rg_workers (pl_reg p))"
  have k: "keyed (js_jobs (pl_jobs ?p1))" using assms(1) by (simp add: store_inv_def)
  have e: "worker_expired now ?p1 w = worker_expired now p w" for w by (simp add: worker_expired_def)
  have "(\<lambda>w. w \<in> set ?ws \<and> worker_expired now ?p1 w) = worker_expired now p"
    by (rule ext) (auto simp: worker_expired_def dest: map_of_SomeD intro: rev_image_eqI)
  with fold_check_worker [OF k assms(2), of k now]
  have A: "js_get k (pl_jobs (reconciler_tick now p)) =
      map_option (\<lambda>j. advance_job (tick_job now (worker_expired now p) j)) (js_get k (pl_jobs p))"
    by (simp add: reconciler_tick_def Let_def js_get_advance option.map_comp o_def)
  then show ?thesis
    by (auto simp: tick_job_def recovered_def advance_job_def cj_is_retryable_def Let_def)
qed

definition demo_plane :: "job_status \<Rightarrow> plane" where
  "demo_plane st = \<lparr>pl_reg = rg_register 0 ''w1'' 1 [] [] \<lparr>rg_workers = [], rg_timeout = 15\<rparr>,
     pl_jobs = (let s1 = demo_store; s2 = fst (js_schedule 1 (job_ident 1 ''deadbeef'') ''w1'' s1)
                in if st = Running then fst (js_start 2 (job_ident 1 ''deadbeef'') s2) else s2),
     pl_leases = [], pl_ht = 15, pl_ticks = 0\<rparr>"

lemma demo_plane_inv: "store_inv (pl_jobs (demo_plane st)) \<and> distinct (map fst (rg_workers (pl_reg (demo_plane st))))"
proof -
  have "store_step demo_store (fst (js_schedule 1 (job_ident 1 ''deadbeef'') ''w1'' demo_store))" by (rule store_step.schedule)
  then have a: "store_inv (fst (js_schedule 1 (job_ident 1 ''deadbeef'') ''w1'' demo_store))"
    using store_step_inv store_reach_inv [OF demo_store_reach] by blast
  then have "store_inv (fst (js_start 2 (job_ident 1 ''deadbeef'') (fst (js_schedule 1 (job_ident 1 ''deadbeef'') ''w1'' demo_store))))"
    using store_step_inv store_step.start by blast
  with a show ?thesis by (simp add: demo_plane_def Let_def rg_register_def)
qed

lemma demo_plane_get:
  "st = Running \<or> st = Scheduled \<Longrightarrow>
   \<exists>j. js_get (job_ident 1 ''deadbeef'') (pl_jobs (demo_plane st)) = Some j \<and> cj_status j = st \<and> cj_worker j = Some ''w1''
     \<and> cj_retries j = 0 \<and> cj_max_retries j = 3"
  by (auto simp: demo_plane_def demo_store_def Let_def js_submit_def js_load_def js_get_def js_schedule_def js_start_def
      js_transition_def)

lemma demo_plane_expired: "worker_expired 20 (demo_plane st) ''w1''"
  by (simp add: worker_expired_def demo_plane_def rg_register_def timed_out_def cw_is_healthy_def)

theorem reconciler_tick_recovers_witness:
  "\<exists>j'. js_get (job_ident 1 ''deadbeef'') (pl_jobs (reconciler_tick 20 (demo_plane Running))) = Some j' \<and> cj_status j' = Submitted"
proof -
  obtain j where j: "js_get (job_ident 1 ''deadbeef'') (pl_jobs (demo_plane Running)) = Some j" "cj_status j = Running"
    "cj_worker j = Some ''w1''" "cj_retries j = 0" "cj_max_retries j = 3" using demo_plane_get [of Running] by blast
  from reconciler_tick_recovers [of "demo_plane Running" "job_ident 1 ''deadbeef''" 20 j "''w1''"] j demo_plane_inv demo_plane_expired
  show ?thesis by auto
qed

text \<open>A job that was scheduled but not started when its worker timed out is not recovered: the reconciler
  hands it to \<open>requeue\<close>, which retries only failed or dead jobs, so the job becomes dead with all its
  retries unused.\<close>

theorem reconciler_kills_scheduled_jobs:
  assumes "store_inv (pl_jobs p)" and "distinct (map fst (rg_workers (pl_reg p)))"
    and "js_get k (pl_jobs p) = Some j" and "cj_status j = Scheduled" and "cj_worker j = Some w" and "worker_expired now p w"
  shows "\<exists>j'. js_get k (pl_jobs (reconciler_tick now p)) = Some j' \<and> cj_status j' = Dead \<and> cj_retries j' = cj_retries j"
proof -
  let ?p1 = "p\<lparr>pl_ticks := Suc (pl_ticks p)\<rparr>"
  have kd: "keyed (js_jobs (pl_jobs ?p1))" using assms(1) by (simp add: store_inv_def)
  have "w \<in> set (map fst (rg_workers (pl_reg p)))" "worker_expired now ?p1 w"
    using assms(6) by (auto simp: worker_expired_def dest: map_of_SomeD intro: rev_image_eqI)
  with fold_check_worker [OF kd assms(2), of k now] assms(3-5) show ?thesis
    by (simp add: reconciler_tick_def Let_def js_get_advance tick_job_def recovered_def advance_job_def cj_is_retryable_def)
qed

theorem reconciler_kills_scheduled_jobs_witness:
  "\<exists>j'. js_get (job_ident 1 ''deadbeef'') (pl_jobs (reconciler_tick 20 (demo_plane Scheduled))) = Some j' \<and> cj_status j' = Dead"
proof -
  obtain j where j: "js_get (job_ident 1 ''deadbeef'') (pl_jobs (demo_plane Scheduled)) = Some j" "cj_status j = Scheduled"
    "cj_worker j = Some ''w1''" using demo_plane_get [of Scheduled] by blast
  from reconciler_kills_scheduled_jobs [OF _ _ j demo_plane_expired] demo_plane_inv show ?thesis by blast
qed

text \<open>\<open>select_best\<close> answers with a worker exactly when some worker is healthy, has beaten within the
  timeout and has the GPU share free; the answer is such a worker, and no other such worker has less GPU
  in use, or as much with fewer active jobs.\<close>

theorem select_best_is_least_loaded:
  "(case rg_select_best now need r of
      None \<Rightarrow> \<not> (\<exists>w\<in>snd ` set (rg_workers r). cw_is_healthy w \<and> now - cw_heartbeat w < rg_timeout r \<and> need \<le> cw_gpu_free w)
    | Some b \<Rightarrow> b \<in> snd ` set (rg_workers r) \<and> cw_is_healthy b \<and> now - cw_heartbeat b < rg_timeout r \<and> need \<le> cw_gpu_free b
        \<and> (\<forall>w\<in>snd ` set (rg_workers r). cw_is_healthy w \<and> now - cw_heartbeat w < rg_timeout r \<and> need \<le> cw_gpu_free w \<longrightarrow>
             cw_gpu_used b < cw_gpu_used w \<or> cw_gpu_used b = cw_gpu_used w \<and> cw_active b \<le> cw_active w))"
proof -
  let ?P = "\<lambda>w. w \<in> snd ` set (rg_workers r) \<and> cw_is_healthy w \<and> now - cw_heartbeat w < rg_timeout r \<and> need \<le> cw_gpu_free w"
  let ?av = "filter (\<lambda>w. cw_gpu_free w \<ge> need) (rg_list_healthy now r)"
  have av: "w \<in> set ?av \<longleftrightarrow> ?P w" for w by (auto simp: rg_list_healthy_def)
  show ?thesis
  proof (cases ?av)
    case Nil
    then have "\<not> ?P w" for w using av [of w] by simp
    with Nil show ?thesis unfolding rg_select_best_def by auto
  next
    case (Cons w ws)
    have b: "min_load w ws \<in> set ?av" "\<forall>y\<in>set ?av. load_le (min_load w ws) y"
      using min_load_spec [of w ws] Cons by auto
    then have "?P (min_load w ws)" "\<forall>y. ?P y \<longrightarrow> load_le (min_load w ws) y" using av by blast+
    then show ?thesis unfolding rg_select_best_def Cons by (simp add: load_le_def)
  qed
qed

theorem select_best_is_least_loaded_witness:
  "rg_select_best 3 1 (rg_register 0 ''w1'' 1 [] [] \<lparr>rg_workers = [], rg_timeout = 15\<rparr>) \<noteq> None"
  using select_best_is_least_loaded [where now = 3 and need = 1 and r = "rg_register 0 ''w1'' 1 [] [] \<lparr>rg_workers = [], rg_timeout = 15\<rparr>"]
  by (auto simp: rg_register_def cw_is_healthy_def cw_gpu_free_def split: option.splits)

end
