(* ===== verification/GpuQueue.thy ===== *)
theory GpuQueue
  imports Prelude
begin

text \<open>
  The in-memory queue (\<open>src/queue_manager/queue_manager.py\<close>), the GPU worker's retry manager with
  its execution log (\<open>src/gpu_worker/retry_system.py\<close>) and its worker registry
  (\<open>src/gpu_worker/worker_registry.py\<close>).

  A \<open>Job\<close> of the queue manager is one object that can be in the queue and among the running jobs
  at the same time, so the model keeps an explicit store: \<open>qm_heap\<close> holds the objects, and the
  queue, the running table and the completed list hold references into it. References grow, so
  comparing them compares the order of arrival.

  Shown: the queue serves the highest priority and, within it, the first to arrive; what \<open>start\<close>
  leaves in the queue; the number of retries a job gets; when a commit is accepted; and that the
  registry gives a worker to one job at a time.
\<close>

section \<open>Queue manager\<close>

datatype qstatus = QPending | QQueued | QRunning | QCompleted | QFailed | QCancelled

record qjob =
  qj_id :: string
  qj_task :: string
  qj_command :: string
  qj_status :: qstatus
  qj_priority :: int
  qj_created :: rat
  qj_started :: "rat option"
  qj_completed :: "rat option"
  qj_result :: "pydict option"
  qj_error :: "string option"

record queue_mgr =
  qm_heap :: "qjob list"
  qm_queue :: "nat list"
  qm_completed :: "nat list"
  qm_running :: "(string \<times> nat) list"

definition queue_init :: queue_mgr where
  "queue_init = \<lparr>qm_heap = [], qm_queue = [], qm_completed = [], qm_running = []\<rparr>"

definition qm_prio :: "queue_mgr \<Rightarrow> nat \<Rightarrow> int" where
  "qm_prio s r = qj_priority (qm_heap s ! r)"

text \<open>
  \<open>enqueue\<close>: append and sort by priority, highest first. Python's sort is stable, also with
  \<open>reverse=True\<close>. \<open>uid\<close> is the id generated when the job has none.
\<close>

definition qm_enqueue :: "string \<Rightarrow> qjob \<Rightarrow> queue_mgr \<Rightarrow> queue_mgr \<times> string" where
  "qm_enqueue uid j s =
     (let i = (if qj_id j = [] then uid else qj_id j);
          h = qm_heap s @ [j\<lparr>qj_id := i\<rparr>]
      in (s\<lparr>qm_heap := h, qm_queue := sort_key (\<lambda>r. - qj_priority (h ! r)) (qm_queue s @ [length (qm_heap s)])\<rparr>, i))"

definition qm_dequeue :: "queue_mgr \<Rightarrow> queue_mgr \<times> nat option" where
  "qm_dequeue s =
     (case qm_queue s of
        [] \<Rightarrow> (s, None)
      | r # rs \<Rightarrow> (s\<lparr>qm_queue := rs, qm_heap := (qm_heap s)[r := (qm_heap s ! r)\<lparr>qj_status := QQueued\<rparr>]\<rparr>, Some r))"

definition qm_start :: "rat \<Rightarrow> string \<Rightarrow> queue_mgr \<Rightarrow> queue_mgr \<times> bool" where
  "qm_start now i s =
     (case List.find (\<lambda>r. qj_id (qm_heap s ! r) = i) (qm_queue s) of
        None \<Rightarrow> (s, False)
      | Some r \<Rightarrow>
          (s\<lparr>qm_heap := (qm_heap s)[r := (qm_heap s ! r)\<lparr>qj_status := QRunning, qj_started := Some now\<rparr>],
             qm_running := AList.update i r (qm_running s)\<rparr>, True))"

definition qm_finish :: "(qjob \<Rightarrow> qjob) \<Rightarrow> string \<Rightarrow> queue_mgr \<Rightarrow> queue_mgr \<times> bool" where
  "qm_finish f i s =
     (case map_of (qm_running s) i of
        None \<Rightarrow> (s, False)
      | Some r \<Rightarrow>
          (s\<lparr>qm_running := AList.delete i (qm_running s), qm_heap := (qm_heap s)[r := f (qm_heap s ! r)],
             qm_completed := qm_completed s @ [r]\<rparr>, True))"

definition qm_complete :: "rat \<Rightarrow> string \<Rightarrow> pydict \<Rightarrow> queue_mgr \<Rightarrow> queue_mgr \<times> bool" where
  "qm_complete now i res s =
     qm_finish (\<lambda>j. j\<lparr>qj_status := QCompleted, qj_completed := Some now, qj_result := Some res\<rparr>) i s"

definition qm_fail :: "rat \<Rightarrow> string \<Rightarrow> string \<Rightarrow> queue_mgr \<Rightarrow> queue_mgr \<times> bool" where
  "qm_fail now i err s =
     qm_finish (\<lambda>j. j\<lparr>qj_status := QFailed, qj_completed := Some now, qj_error := Some err\<rparr>) i s"

definition qm_get_status :: "string \<Rightarrow> queue_mgr \<Rightarrow> qstatus option" where
  "qm_get_status i s =
     (case List.find (\<lambda>r. qj_id (qm_heap s ! r) = i) (qm_queue s) of
        Some r \<Rightarrow> Some (qj_status (qm_heap s ! r))
      | None \<Rightarrow>
          if i \<in> fst ` set (qm_running s) then Some QRunning
          else map_option (\<lambda>r. qj_status (qm_heap s ! r)) (List.find (\<lambda>r. qj_id (qm_heap s ! r) = i) (qm_completed s)))"

definition qm_metrics :: "queue_mgr \<Rightarrow> nat \<times> nat \<times> nat \<times> nat" where
  "qm_metrics s = (length (qm_queue s), length (qm_running s), length (qm_completed s),
     length (qm_queue s) + length (qm_running s) + length (qm_completed s))"

subsection \<open>Order of service\<close>

definition before :: "queue_mgr \<Rightarrow> nat \<Rightarrow> nat \<Rightarrow> bool" where
  "before s a b \<longleftrightarrow> qm_prio s b < qm_prio s a \<or> qm_prio s b = qm_prio s a \<and> a < b"

definition queue_inv :: "queue_mgr \<Rightarrow> bool" where
  "queue_inv s \<longleftrightarrow> sorted_wrt (before s) (qm_queue s) \<and> (\<forall>r\<in>set (qm_queue s). r < length (qm_heap s))
     \<and> (\<forall>r\<in>snd ` set (qm_running s). r < length (qm_heap s))"

lemma before_cong:
  "\<forall>r\<in>set rs. qm_prio t r = qm_prio s r \<Longrightarrow> sorted_wrt (before s) rs \<Longrightarrow> sorted_wrt (before t) rs"
  by (rule sorted_wrt_mono_rel [of rs "before s"]) (auto simp: before_def)

lemma stable_sorted:
  fixes f :: "nat \<Rightarrow> int"
  assumes "sorted (map f ys)" "\<And>k. sorted_wrt (<) (filter (\<lambda>x. f x = k) ys)"
  shows "sorted_wrt (\<lambda>a b. f a < f b \<or> f a = f b \<and> a < b) ys"
  using assms
proof (induction ys)
  case (Cons a ys)
  have "sorted_wrt (<) (filter (\<lambda>x. f x = k) ys)" for k
    using Cons.prems(2) [of k] by (simp split: if_splits)
  moreover have "f a < f b \<or> f a = f b \<and> a < b" if "b \<in> set ys" for b
    using Cons.prems(1) Cons.prems(2) [of "f a"] that by force
  ultimately show ?case using Cons by simp
qed simp

lemma sort_snoc:
  fixes f :: "nat \<Rightarrow> int"
  assumes "sorted_wrt (\<lambda>a b. f a < f b \<or> f a = f b \<and> a < b) rs" "\<forall>r\<in>set rs. r < n"
  shows "sorted_wrt (\<lambda>a b. f a < f b \<or> f a = f b \<and> a < b) (sort_key f (rs @ [n]))"
proof (rule stable_sorted)
  fix k
  have "sorted_wrt (\<lambda>a b. f a < f b \<or> f a = f b \<and> a < b) (filter (\<lambda>x. f x = k) rs)"
    using assms(1) by (rule sorted_wrt_filter)
  then have "sorted_wrt (<) (filter (\<lambda>x. f x = k) rs)"
    by (rule sorted_wrt_mono_rel [rotated]) auto
  with assms(2) show "sorted_wrt (<) (filter (\<lambda>x. f x = k) (sort_key f (rs @ [n])))"
    unfolding sort_key_stable by (auto simp: sorted_wrt_append)
qed simp

lemma queue_inv_enqueue:
  assumes "queue_inv s"
  shows "queue_inv (fst (qm_enqueue uid j s))"
proof -
  let ?n = "length (qm_heap s)"
  let ?h = "qm_heap s @ [j\<lparr>qj_id := if qj_id j = [] then uid else qj_id j\<rparr>]"
  let ?f = "\<lambda>r. - qj_priority (?h ! r)"
  have old: "?f r = - qm_prio s r" if "r \<in> set (qm_queue s)" for r
    using assms that by (auto simp: queue_inv_def qm_prio_def nth_append)
  have "sorted_wrt (\<lambda>a b. ?f a < ?f b \<or> ?f a = ?f b \<and> a < b) (qm_queue s)"
  proof (rule sorted_wrt_mono_rel)
    show "sorted_wrt (before s) (qm_queue s)" using assms by (simp add: queue_inv_def)
    fix a b
    assume "a \<in> set (qm_queue s)" "b \<in> set (qm_queue s)" "before s a b"
    then show "?f a < ?f b \<or> ?f a = ?f b \<and> a < b" unfolding before_def by (simp only: old) linarith
  qed
  from sort_snoc [OF this, of ?n] assms
  have "sorted_wrt (\<lambda>a b. ?f a < ?f b \<or> ?f a = ?f b \<and> a < b) (sort_key ?f (qm_queue s @ [?n]))"
    by (auto simp: queue_inv_def)
  then have "sorted_wrt (before (fst (qm_enqueue uid j s))) (sort_key ?f (qm_queue s @ [?n]))"
    by (rule sorted_wrt_mono_rel [rotated]) (auto simp: before_def qm_prio_def qm_enqueue_def Let_def)
  then show ?thesis
    using assms by (auto simp: queue_inv_def qm_enqueue_def Let_def less_Suc_eq)
qed

text \<open>The other operations keep priorities and take away from the queue at most its head.\<close>

lemma queue_inv_shrink:
  assumes "queue_inv s" "length (qm_heap t) = length (qm_heap s)" "\<And>r. r < length (qm_heap s) \<Longrightarrow> qm_prio t r = qm_prio s r"
    and "qm_queue t = qm_queue s \<or> (\<exists>r. qm_queue s = r # qm_queue t)" "snd ` set (qm_running t) \<subseteq> snd ` set (qm_running s) \<union> set (qm_queue s)"
  shows "queue_inv t"
proof -
  have q: "set (qm_queue t) \<subseteq> set (qm_queue s)" "sorted_wrt (before s) (qm_queue t)"
    using assms(1,4) by (auto simp: queue_inv_def)
  then have "sorted_wrt (before t) (qm_queue t)"
    using assms(1,3) by - (rule before_cong [of _ t s], auto simp: queue_inv_def)
  moreover have "\<forall>r\<in>set (qm_queue t). r < length (qm_heap t)"
    using assms(1,2) q(1) unfolding queue_inv_def by auto
  moreover have "\<forall>r\<in>snd ` set (qm_running s) \<union> set (qm_queue s). r < length (qm_heap t)"
    using assms(1,2) unfolding queue_inv_def by auto
  then have "\<forall>r\<in>snd ` set (qm_running t). r < length (qm_heap t)"
    using assms(5) by (meson subsetD)
  ultimately show ?thesis unfolding queue_inv_def by blast
qed

lemma prio_update: "r < length h \<Longrightarrow> qj_priority j = qj_priority (h ! r) \<Longrightarrow> qj_priority (h[r := j] ! k) = qj_priority (h ! k)"
  by (cases "k = r") auto

lemma queue_inv_dequeue:
  assumes "queue_inv s"
  shows "queue_inv (fst (qm_dequeue s))"
proof (cases "qm_queue s")
  case (Cons r rs)
  then have "r < length (qm_heap s)" using assms by (simp add: queue_inv_def)
  then show ?thesis
    using Cons by - (rule queue_inv_shrink [OF assms], auto simp: qm_dequeue_def qm_prio_def prio_update)
qed (use assms in \<open>simp add: qm_dequeue_def\<close>)

lemma queue_inv_start:
  assumes "queue_inv s"
  shows "queue_inv (fst (qm_start now i s))"
proof (cases "List.find (\<lambda>r. qj_id (qm_heap s ! r) = i) (qm_queue s)")
  case (Some r)
  then have r: "r \<in> set (qm_queue s)" by (auto simp: find_Some_iff)
  then have "r < length (qm_heap s)" using assms by (simp add: queue_inv_def)
  moreover have "snd ` set (AList.update i r (qm_running s)) \<subseteq> insert r (snd ` set (qm_running s))"
    using AList_update_set [of i r "qm_running s"] by force
  ultimately show ?thesis
    using Some r by (intro queue_inv_shrink [OF assms]) (auto simp: qm_start_def qm_prio_def prio_update)
qed (use assms in \<open>simp add: qm_start_def\<close>)

lemma queue_inv_finish:
  assumes "queue_inv s" "\<And>j. qj_priority (f j) = qj_priority j"
  shows "queue_inv (fst (qm_finish f i s))"
proof (cases "map_of (qm_running s) i")
  case (Some r)
  then have "r \<in> snd ` set (qm_running s)" by (force dest: map_of_SomeD)
  then have "r < length (qm_heap s)" using assms(1) by (auto simp: queue_inv_def)
  then show ?thesis
    using Some assms(2) AList_delete_set [of i "qm_running s"]
    by (intro queue_inv_shrink [OF assms(1)]) (auto simp: qm_finish_def qm_prio_def prio_update)
qed (use assms in \<open>simp add: qm_finish_def\<close>)

inductive queue_step :: "queue_mgr \<Rightarrow> queue_mgr \<Rightarrow> bool" where
  enqueue: "queue_step s (fst (qm_enqueue uid j s))"
| dequeue: "queue_step s (fst (qm_dequeue s))"
| start: "queue_step s (fst (qm_start now i s))"
| complete: "queue_step s (fst (qm_complete now i res s))"
| fail: "queue_step s (fst (qm_fail now i err s))"

interpretation queue: transition_system "\<lambda>s. s = queue_init" queue_step .

lemma queue_reach_inv: "queue.reach s \<Longrightarrow> queue_inv s"
proof (erule queue.invariant_reach [rotated 2])
  show "queue_inv s" if "s = queue_init" for s using that by (simp add: queue_inv_def queue_init_def)
  show "queue_inv t" if "queue_inv s" "queue_step s t" for s t
    using that(2,1)
    by cases (simp_all add: queue_inv_enqueue queue_inv_dequeue queue_inv_start queue_inv_finish qm_complete_def qm_fail_def)
qed

section \<open>Retry manager\<close>

datatype rstate = RQueued | RRetrying | RRunning | RCompleted | RFailed | RCommitted

record rjob =
  rj_plugin :: string
  rj_payload :: pydict
  rj_state :: rstate
  rj_retries :: int
  rj_max :: int
  rj_error :: "string option"
  rj_result :: "pydict option"

text \<open>\<open>rt_calls\<close> logs the callbacks: a retry with its number and back-off, or a failure.\<close>

datatype rcall = RetryCall string int rat | FailCall string string

record retry_mgr =
  rt_jobs :: "(string \<times> rjob) list"
  rt_queue :: "string list"
  rt_max :: int
  rt_base :: rat
  rt_cap :: rat
  rt_calls :: "rcall list"

definition rt_enqueue :: "string \<Rightarrow> string \<Rightarrow> pydict \<Rightarrow> string option \<Rightarrow> int option \<Rightarrow> retry_mgr \<Rightarrow> retry_mgr \<times> string" where
  "rt_enqueue uid plugin pl job maxr s =
     (let i = (if truthy job then the job else ''job-'' @ uid);
          j = \<lparr>rj_plugin = plugin, rj_payload = pl, rj_state = RQueued, rj_retries = 0,
               rj_max = (case maxr of None \<Rightarrow> rt_max s | Some m \<Rightarrow> m), rj_error = None, rj_result = None\<rparr>
      in (s\<lparr>rt_jobs := AList.update i j (rt_jobs s), rt_queue := rt_queue s @ [i]\<rparr>, i))"

definition rt_mark_running :: "string \<Rightarrow> retry_mgr \<Rightarrow> retry_mgr \<times> bool" where
  "rt_mark_running i s =
     (case map_of (rt_jobs s) i of
        None \<Rightarrow> (s, False)
      | Some j \<Rightarrow> if rj_state j \<in> {RCompleted, RFailed, RCommitted} then (s, False)
                  else (s\<lparr>rt_jobs := AList.update i (j\<lparr>rj_state := RRunning\<rparr>) (rt_jobs s)\<rparr>, True))"

definition rt_mark_completed :: "string \<Rightarrow> pydict \<Rightarrow> retry_mgr \<Rightarrow> retry_mgr \<times> bool" where
  "rt_mark_completed i res s =
     (case map_of (rt_jobs s) i of
        None \<Rightarrow> (s, False)
      | Some j \<Rightarrow> (s\<lparr>rt_jobs := AList.update i (j\<lparr>rj_state := RCompleted, rj_result := Some res\<rparr>) (rt_jobs s)\<rparr>, True))"

definition rt_mark_committed :: "string \<Rightarrow> retry_mgr \<Rightarrow> retry_mgr \<times> bool" where
  "rt_mark_committed i s =
     (case map_of (rt_jobs s) i of
        None \<Rightarrow> (s, False)
      | Some j \<Rightarrow> if rj_state j \<noteq> RCompleted then (s, False)
                  else (s\<lparr>rt_jobs := AList.update i (j\<lparr>rj_state := RCommitted\<rparr>) (rt_jobs s)\<rparr>, True))"

definition backoff :: "rat \<Rightarrow> rat \<Rightarrow> int \<Rightarrow> rat" where
  "backoff base cap n = min (base ^ nat n) cap"

text \<open>\<open>cb\<close> says whether the callbacks are registered; an exception they raise is swallowed.\<close>

definition rt_handle_failure :: "bool \<Rightarrow> string \<Rightarrow> string \<Rightarrow> retry_mgr \<Rightarrow> retry_mgr \<times> string" where
  "rt_handle_failure cb i err s =
     (case map_of (rt_jobs s) i of
        None \<Rightarrow> (s, ''unknown_job'')
      | Some j \<Rightarrow>
          if rj_retries j < rj_max j
          then (s\<lparr>rt_jobs := AList.update i (j\<lparr>rj_error := Some err, rj_state := RRetrying, rj_retries := rj_retries j + 1\<rparr>) (rt_jobs s),
                  rt_queue := rt_queue s @ [i],
                  rt_calls := rt_calls s @ (if cb then [RetryCall i (rj_retries j + 1) (backoff (rt_base s) (rt_cap s) (rj_retries j + 1))] else [])\<rparr>, ''retry'')
          else (s\<lparr>rt_jobs := AList.update i (j\<lparr>rj_error := Some err, rj_state := RFailed\<rparr>) (rt_jobs s),
                  rt_calls := rt_calls s @ (if cb then [FailCall i err] else [])\<rparr>, ''fail''))"

definition rt_get_next_retry :: "retry_mgr \<Rightarrow> retry_mgr \<times> string option" where
  "rt_get_next_retry s = (case rt_queue s of [] \<Rightarrow> (s, None) | i # q \<Rightarrow> (s\<lparr>rt_queue := q\<rparr>, Some i))"

definition rt_get_jobs_by_state :: "rstate \<Rightarrow> retry_mgr \<Rightarrow> rjob list" where
  "rt_get_jobs_by_state st s = filter (\<lambda>j. rj_state j = st) (map snd (rt_jobs s))"

definition rt_success_rate :: "retry_mgr \<Rightarrow> rat" where
  "rt_success_rate s =
     (if rt_jobs s = [] then 0
      else of_nat (length (rt_get_jobs_by_state RCommitted s)) / of_nat (length (rt_jobs s)) * 100)"

subsection \<open>The execution log\<close>

record guarantee =
  pg_mgr :: retry_mgr
  pg_log :: "(string \<times> string) list"

definition pg_begin :: "string \<Rightarrow> guarantee \<Rightarrow> guarantee \<times> bool" where
  "pg_begin i g = (let (m, r) = rt_mark_running i (pg_mgr g)
                   in (g\<lparr>pg_mgr := m, pg_log := AList.update i ''started'' (pg_log g)\<rparr>, r))"

definition pg_log_set :: "string \<Rightarrow> string \<Rightarrow> guarantee \<Rightarrow> guarantee result" where
  "pg_log_set i st g =
     (if i \<in> fst ` set (pg_log g) then Inr (g\<lparr>pg_log := AList.update i st (pg_log g)\<rparr>) else Inl KeyError)"

definition pg_complete :: "string \<Rightarrow> pydict \<Rightarrow> guarantee \<Rightarrow> guarantee \<times> bool result" where
  "pg_complete i res g =
     (case pg_log_set i ''completed'' g of
        Inl x \<Rightarrow> (g, Inl x)
      | Inr g' \<Rightarrow> (let (m, r) = rt_mark_completed i res (pg_mgr g') in (g'\<lparr>pg_mgr := m\<rparr>, Inr r)))"

definition pg_commit :: "string \<Rightarrow> guarantee \<Rightarrow> guarantee \<times> bool result" where
  "pg_commit i g =
     (case pg_log_set i ''committed'' g of
        Inl x \<Rightarrow> (g, Inl x)
      | Inr g' \<Rightarrow> (let (m, r) = rt_mark_committed i (pg_mgr g') in (g'\<lparr>pg_mgr := m\<rparr>, Inr r)))"

definition pg_verify_committed :: "string \<Rightarrow> guarantee \<Rightarrow> bool" where
  "pg_verify_committed i g = (map_of (pg_log g) i = Some ''committed'')"

section \<open>Worker registry\<close>

record gworker =
  gw_util :: rat
  gw_vram_used :: rat
  gw_vram_total :: rat
  gw_status :: string
  gw_heartbeat :: rat
  gw_completed :: nat
  gw_failed :: nat
  gw_job :: "string option"

type_synonym gworkers = "(string \<times> gworker) list"

definition gr_register_worker :: "rat \<Rightarrow> string \<Rightarrow> rat \<Rightarrow> gworkers \<Rightarrow> gworkers \<times> bool" where
  "gr_register_worker now w vram ws =
     (case map_of ws w of
        Some _ \<Rightarrow> (ws, False)
      | None \<Rightarrow> (AList.update w \<lparr>gw_util = 0, gw_vram_used = 0, gw_vram_total = vram, gw_status = ''healthy'',
                   gw_heartbeat = now, gw_completed = 0, gw_failed = 0, gw_job = None\<rparr> ws, True))"

definition gr_update :: "string \<Rightarrow> (gworker \<Rightarrow> gworker) \<Rightarrow> gworkers \<Rightarrow> gworkers \<times> bool" where
  "gr_update w f ws = (case map_of ws w of None \<Rightarrow> (ws, False) | Some x \<Rightarrow> (AList.update w (f x) ws, True))"

definition gr_heartbeat :: "rat \<Rightarrow> string \<Rightarrow> rat \<Rightarrow> rat \<Rightarrow> string \<Rightarrow> string option \<Rightarrow> gworkers \<Rightarrow> gworkers \<times> bool" where
  "gr_heartbeat now w util vram st job ws =
     gr_update w (\<lambda>x. x\<lparr>gw_util := util, gw_vram_used := vram, gw_status := st, gw_heartbeat := now, gw_job := job\<rparr>) ws"

definition gr_get_available_workers :: "rat \<Rightarrow> gworkers \<Rightarrow> gworker list" where
  "gr_get_available_workers minv ws =
     filter (\<lambda>x. gw_status x = ''healthy'' \<and> gw_vram_total x - gw_vram_used x \<ge> minv \<and> gw_job x = None) (map snd ws)"

definition gr_mark_worker_dead :: "string \<Rightarrow> gworkers \<Rightarrow> gworkers" where
  "gr_mark_worker_dead w ws = fst (gr_update w (\<lambda>x. x\<lparr>gw_status := ''dead''\<rparr>) ws)"

definition gr_heartbeat_timeout_check :: "rat \<Rightarrow> rat \<Rightarrow> gworkers \<Rightarrow> gworkers \<times> string list" where
  "gr_heartbeat_timeout_check now timeout ws =
     (map (\<lambda>(w, x). (w, if now - gw_heartbeat x > timeout then x\<lparr>gw_status := ''dead''\<rparr> else x)) ws,
      map fst (filter (\<lambda>(w, x). now - gw_heartbeat x > timeout) ws))"

definition gr_cleanup_dead_workers :: "gworkers \<Rightarrow> gworkers" where
  "gr_cleanup_dead_workers ws = filter (\<lambda>(w, x). gw_status x \<noteq> ''dead'') ws"

definition gr_acquire_gpu_lock :: "string \<Rightarrow> string \<Rightarrow> gworkers \<Rightarrow> gworkers \<times> bool" where
  "gr_acquire_gpu_lock w job ws =
     (case map_of ws w of
        None \<Rightarrow> (ws, False)
      | Some x \<Rightarrow> if gw_job x \<noteq> None then (ws, False) else (AList.update w (x\<lparr>gw_job := Some job\<rparr>) ws, True))"

definition gr_release_gpu_lock :: "string \<Rightarrow> gworkers \<Rightarrow> gworkers" where
  "gr_release_gpu_lock w ws = fst (gr_update w (\<lambda>x. x\<lparr>gw_job := None\<rparr>) ws)"

definition gr_job_completed :: "string \<Rightarrow> bool \<Rightarrow> gworkers \<Rightarrow> gworkers" where
  "gr_job_completed w success ws =
     fst (gr_update w (\<lambda>x. (if success then x\<lparr>gw_completed := Suc (gw_completed x)\<rparr>
                            else x\<lparr>gw_failed := Suc (gw_failed x)\<rparr>)\<lparr>gw_job := None\<rparr>) ws)"

section \<open>Properties\<close>

text \<open>The queue serves by priority and, within a priority, in order of arrival. In every reachable
  state \<open>dequeue\<close> answers \<open>None\<close> only when the queue is empty; otherwise it takes out a job whose
  priority is at least that of every job left, and among those of the same priority it arrived first;
  the rest of the queue keeps its order.\<close>

theorem dequeue_is_priority_fifo:
  assumes "queue.reach s" and "qm_dequeue s = (t, r)"
  shows "case r of
      None \<Rightarrow> qm_queue s = [] \<and> t = s
    | Some a \<Rightarrow> qm_queue s = a # qm_queue t \<and> qj_status (qm_heap t ! a) = QQueued
        \<and> (\<forall>b\<in>set (qm_queue t). qm_prio s b < qm_prio s a \<or> qm_prio s b = qm_prio s a \<and> a < b)"
proof (cases "qm_queue s")
  case (Cons a q)
  have inv: "queue_inv s" using assms(1) by (rule queue_reach_inv)
  then have "a < length (qm_heap s)" "\<forall>b\<in>set q. before s a b" using Cons by (auto simp: queue_inv_def)
  with Cons assms(2) show ?thesis by (auto simp: qm_dequeue_def before_def)
qed (use assms(2) in \<open>auto simp: qm_dequeue_def\<close>)

definition demo_qjob :: "string \<Rightarrow> int \<Rightarrow> qjob" where
  "demo_qjob i p = \<lparr>qj_id = i, qj_task = ''t'', qj_command = ''c'', qj_status = QPending, qj_priority = p, qj_created = 0,
     qj_started = None, qj_completed = None, qj_result = None, qj_error = None\<rparr>"

definition demo_queue :: queue_mgr where
  "demo_queue = fst (qm_enqueue [] (demo_qjob ''b'' 7) (fst (qm_enqueue [] (demo_qjob ''a'' 1) queue_init)))"

lemma demo_queue_reach: "queue.reach demo_queue"
  unfolding demo_queue_def
  by (rule queue.reach_step, rule queue.reach_step [OF queue.reach_init [OF refl]]) (rule queue_step.enqueue)+

lemma demo_queue_eq: "qm_queue demo_queue = [1, 0]" "qm_heap demo_queue = [demo_qjob ''a'' 1, demo_qjob ''b'' 7]"
  "qm_running demo_queue = []" "qm_completed demo_queue = []"
  by (simp_all add: demo_queue_def qm_enqueue_def queue_init_def demo_qjob_def Let_def)

theorem dequeue_is_priority_fifo_witness:
  "\<exists>t a. qm_dequeue demo_queue = (t, Some a) \<and> qj_status (qm_heap t ! a) = QQueued"
proof -
  obtain t r where d: "qm_dequeue demo_queue = (t, r)" by force
  moreover have "r \<noteq> None" using d by (auto simp: qm_dequeue_def demo_queue_eq)
  ultimately show ?thesis using dequeue_is_priority_fifo [OF demo_queue_reach d] by auto
qed

text \<open>A started job stays in the queue. \<open>start\<close> puts the job among the running ones but does not take it
  out of the queue, so after its completion it is counted there and in the completed list, its status is
  read from the queue entry, and a later \<open>dequeue\<close> can hand it out again, reset to queued; a job that
  was dequeued, on the other hand, can no longer be started.\<close>

theorem started_job_stays_queued:
  assumes "queue_inv s" and "qm_queue s = r # rs" and "qj_id (qm_heap s ! r) = i"
    and "qm_start now i s = (s1, b1)" and "qm_complete now' i res s1 = (s2, b2)" and "qm_dequeue s2 = (s3, d)"
  shows "b1 \<and> b2 \<and> r \<in> set (qm_queue s2) \<and> r \<in> set (qm_completed s2) \<and> qm_get_status i s2 = Some QCompleted
    \<and> d = Some r \<and> qj_status (qm_heap s3 ! r) = QQueued"
proof -
  have r: "r < length (qm_heap s)" using assms(1,2) by (simp add: queue_inv_def)
  have s1: "s1 = s\<lparr>qm_heap := (qm_heap s)[r := (qm_heap s ! r)\<lparr>qj_status := QRunning, qj_started := Some now\<rparr>],
      qm_running := AList.update i r (qm_running s)\<rparr>" "b1"
    using assms(2-4) by (auto simp: qm_start_def)
  have s2: "qm_queue s2 = r # rs" "r \<in> set (qm_completed s2)" "b2" "r < length (qm_heap s2)"
    "qj_status (qm_heap s2 ! r) = QCompleted" "qj_id (qm_heap s2 ! r) = i"
    using assms(2,3,5) s1 r by (auto simp: qm_complete_def qm_finish_def update_conv')
  with assms(6) s1 show ?thesis
    by (auto simp: qm_get_status_def qm_dequeue_def)
qed

theorem started_job_stays_queued_witness:
  "\<exists>s1 s2 s3 d. qm_start 1 ''b'' demo_queue = (s1, True) \<and> qm_complete 2 ''b'' [] s1 = (s2, True)
     \<and> qm_dequeue s2 = (s3, d) \<and> d = Some 1"
proof -
  obtain s1 b1 where a: "qm_start 1 ''b'' demo_queue = (s1, b1)" by force
  obtain s2 b2 where b: "qm_complete 2 ''b'' [] s1 = (s2, b2)" by force
  obtain s3 d where c: "qm_dequeue s2 = (s3, d)" by force
  from started_job_stays_queued [OF queue_reach_inv [OF demo_queue_reach] demo_queue_eq(1) _ a b c] a b c show ?thesis
    by (auto simp: demo_queue_eq demo_qjob_def)
qed

fun failures :: "bool \<Rightarrow> string \<Rightarrow> string list \<Rightarrow> retry_mgr \<Rightarrow> retry_mgr \<times> string list" where
  "failures cb i [] s = (s, [])"
| "failures cb i (e # es) s =
     (let (s1, a) = rt_handle_failure cb i e s; (s2, as) = failures cb i es s1 in (s2, a # as))"

lemma failures_answers:
  assumes "map_of (rt_jobs s) i = Some j"
  shows "snd (failures cb i es s) =
      replicate (min (length es) (nat (rj_max j - rj_retries j))) ''retry''
      @ replicate (length es - nat (rj_max j - rj_retries j)) ''fail''
    \<and> (\<exists>j'. map_of (rt_jobs (fst (failures cb i es s))) i = Some j' \<and> rj_max j' = rj_max j
         \<and> rj_retries j' = rj_retries j + int (min (length es) (nat (rj_max j - rj_retries j)))
         \<and> (nat (rj_max j - rj_retries j) < length es \<longrightarrow> rj_state j' = RFailed))"
  using assms
proof (induction es arbitrary: s j)
  case (Cons e es)
  obtain s1 a where s1: "rt_handle_failure cb i e s = (s1, a)" by force
  obtain s2 as where s2: "failures cb i es s1 = (s2, as)" by force
  show ?case
  proof (cases "rj_retries j < rj_max j")
    case True
    let ?j = "j\<lparr>rj_error := Some e, rj_state := RRetrying, rj_retries := rj_retries j + 1\<rparr>"
    have a: "a = ''retry''" "map_of (rt_jobs s1) i = Some ?j"
      using s1 True Cons.prems by (auto simp: rt_handle_failure_def update_conv')
    have m: "nat (rj_max j - rj_retries j) = Suc (nat (rj_max j - (rj_retries j + 1)))" using True by simp
    from Cons.IH [OF a(2)] s1 s2 a(1) show ?thesis
      by (simp add: m Let_def add.assoc)
  next
    case False
    let ?j = "j\<lparr>rj_error := Some e, rj_state := RFailed\<rparr>"
    have a: "a = ''fail''" "map_of (rt_jobs s1) i = Some ?j"
      using s1 False Cons.prems by (auto simp: rt_handle_failure_def update_conv')
    have m: "nat (rj_max j - rj_retries j) = 0" using False by simp
    from Cons.IH [OF a(2)] s1 s2 a show ?thesis
      by (cases es) (auto simp: m Let_def)
  qed
qed simp

text \<open>A job is retried exactly as often as it may be. From any state of the retry manager, a run of
  failures of one job is answered by \<open>retry\<close> as many times as the job has retries left, and by \<open>fail\<close>
  from then on, when the job is in the failed state; the retry counter never passes the limit, and each
  back-off announced is at most the cap.\<close>

theorem retries_are_exactly_the_limit:
  assumes "map_of (rt_jobs s) i = Some j" and "rj_retries j \<le> rj_max j"
  shows "snd (failures cb i es s) =
      replicate (min (length es) (nat (rj_max j - rj_retries j))) ''retry''
      @ replicate (length es - nat (rj_max j - rj_retries j)) ''fail''
    \<and> (\<exists>j'. map_of (rt_jobs (fst (failures cb i es s))) i = Some j' \<and> rj_retries j' \<le> rj_max j'
         \<and> (nat (rj_max j - rj_retries j) < length es \<longrightarrow> rj_state j' = RFailed))
    \<and> backoff (rt_base s) (rt_cap s) n \<le> rt_cap s"
proof -
  from failures_answers [OF assms(1), of cb es] obtain j' where
    "map_of (rt_jobs (fst (failures cb i es s))) i = Some j'" "rj_max j' = rj_max j"
    "rj_retries j' = rj_retries j + int (min (length es) (nat (rj_max j - rj_retries j)))"
    "nat (rj_max j - rj_retries j) < length es \<longrightarrow> rj_state j' = RFailed" by blast
  moreover from this assms(2) have "rj_retries j' \<le> rj_max j'" by linarith
  ultimately show ?thesis using failures_answers [OF assms(1), of cb es] by (auto simp: backoff_def)
qed

definition demo_retry :: retry_mgr where
  "demo_retry = fst (rt_enqueue ''u'' ''ml'' [] (Some ''j'') None
     \<lparr>rt_jobs = [], rt_queue = [], rt_max = 2, rt_base = 2, rt_cap = 60, rt_calls = []\<rparr>)"

theorem retries_are_exactly_the_limit_witness:
  "\<exists>j. map_of (rt_jobs demo_retry) ''j'' = Some j \<and>
     snd (failures True ''j'' [''GPU OOM'', ''GPU OOM'', ''GPU OOM''] demo_retry) = [''retry'', ''retry'', ''fail'']"
proof -
  obtain j where j: "map_of (rt_jobs demo_retry) ''j'' = Some j" "rj_retries j = 0" "rj_max j = 2"
    by (simp add: demo_retry_def rt_enqueue_def Let_def)
  from retries_are_exactly_the_limit [OF j(1), of True "[''GPU OOM'', ''GPU OOM'', ''GPU OOM'']"] j show ?thesis
    by (simp add: numeral_2_eq_2)
qed

text \<open>The committed state is not final. \<open>mark_committed\<close> accepts exactly completed jobs, but
  \<open>mark_completed\<close> and \<open>handle_failure\<close> take a committed job back to completed or to retrying, and the
  execution log reports a job as committed even when the manager refused the commit.\<close>

theorem committed_is_not_final:
  assumes "map_of (rt_jobs s) i = Some j"
  shows "(snd (rt_mark_committed i s) \<longleftrightarrow> rj_state j = RCompleted)
    \<and> (rj_state j = RCommitted \<longrightarrow>
         map_option rj_state (map_of (rt_jobs (fst (rt_mark_completed i res s))) i) = Some RCompleted
         \<and> (rj_retries j < rj_max j \<longrightarrow>
             map_option rj_state (map_of (rt_jobs (fst (rt_handle_failure cb i e s))) i) = Some RRetrying))
    \<and> (pg_mgr g = s \<longrightarrow> i \<in> fst ` set (pg_log g) \<longrightarrow> rj_state j \<noteq> RCompleted \<longrightarrow>
         snd (pg_commit i g) = Inr False \<and> pg_verify_committed i (fst (pg_commit i g)))"
  using assms
  by (auto simp: rt_mark_committed_def rt_mark_completed_def rt_handle_failure_def update_conv' pg_commit_def
      pg_log_set_def pg_verify_committed_def)

theorem committed_is_not_final_witness:
  "\<exists>s. map_option rj_state (map_of (rt_jobs s) ''j'') = Some RCommitted
     \<and> map_option rj_state (map_of (rt_jobs (fst (rt_handle_failure True ''j'' ''late'' s))) ''j'') = Some RRetrying"
proof -
  let ?s = "fst (rt_mark_committed ''j'' (fst (rt_mark_completed ''j'' [] demo_retry)))"
  obtain j where j: "map_of (rt_jobs ?s) ''j'' = Some j" "rj_state j = RCommitted" "rj_retries j = 0" "rj_max j = 2"
    by (simp add: demo_retry_def rt_enqueue_def Let_def rt_mark_completed_def rt_mark_committed_def)
  from committed_is_not_final [OF j(1), where cb = True and e = "''late''" and g = "\<lparr>pg_mgr = ?s, pg_log = []\<rparr>" and res = "[]"] j
  show ?thesis by (intro exI [of _ ?s]) auto
qed

text \<open>The registry's GPU lock. While a worker runs a job, no other job acquires it; but a heartbeat sets
  the worker's job to the one it names, so a heartbeat that names none, the default, frees a worker in
  the middle of a job, and the next acquire succeeds.\<close>

theorem registry_lock_lost_on_heartbeat:
  assumes "map_of ws w = Some x" and "gw_job x = Some j"
  shows "gr_acquire_gpu_lock w j' ws = (ws, False)
    \<and> (gr_heartbeat now w util vram st (Some j) ws = (ws1, b1) \<longrightarrow> \<not> snd (gr_acquire_gpu_lock w j' ws1))
    \<and> (gr_heartbeat now w util vram st None ws = (ws2, b2) \<longrightarrow> snd (gr_acquire_gpu_lock w j' ws2))"
  using assms by (auto simp: gr_acquire_gpu_lock_def gr_heartbeat_def gr_update_def update_conv')

theorem registry_lock_lost_on_heartbeat_witness:
  "\<exists>ws ws2. gr_acquire_gpu_lock ''n1'' ''a'' (fst (gr_register_worker 0 ''n1'' 8 [])) = (ws, True)
     \<and> gr_heartbeat 5 ''n1'' 0 0 ''healthy'' None ws = (ws2, True) \<and> snd (gr_acquire_gpu_lock ''n1'' ''b'' ws2)"
proof -
  obtain ws where ws: "gr_acquire_gpu_lock ''n1'' ''a'' (fst (gr_register_worker 0 ''n1'' 8 [])) = (ws, True)"
    by (simp add: gr_acquire_gpu_lock_def gr_register_worker_def)
  then obtain x where x: "map_of ws ''n1'' = Some x" "gw_job x = Some ''a''"
    by (auto simp: gr_acquire_gpu_lock_def gr_register_worker_def)
  obtain ws2 b where h: "gr_heartbeat 5 ''n1'' 0 0 ''healthy'' None ws = (ws2, b)" by force
  have "b" using h x(1) by (auto simp: gr_heartbeat_def gr_update_def)
  moreover have "snd (gr_acquire_gpu_lock ''n1'' ''b'' ws2)"
    using registry_lock_lost_on_heartbeat [OF x, of "''b''" 5 0 0 "''healthy''" ws2 b ws2 b] h by auto
  ultimately show ?thesis using ws h by auto
qed

end
