(* ===== verification/EventLog.thy ===== *)
theory EventLog
  imports Prelude
begin

text \<open>
  The durable event log, \<open>src/durability/event_store.py\<close>: \<open>EventStore\<close> over one SQLite connection
  and the facade \<open>DurabilityLayer\<close>. The state has the committed rows, the rows of a transaction that
  is still open on the connection, and the counter \<open>_sequence\<close>. An append takes what SQLite does to
  each of its three calls (execute, commit, rollback).

  Shown: sequence numbers are 1, 2, 3, ... without gaps whatever fails, as long as a failed append
  can be rolled back; a failed append leaves the store as it was; a replay gives exactly the events
  after a position, in order; reopening the file gives the same store; and what a job's history says.
\<close>

section \<open>Events and the store\<close>

record event =
  ev_id :: string
  ev_type :: string
  ev_job :: "string option"
  ev_payload :: pydict
  ev_time :: string
  ev_seq :: nat

record event_store =
  es_rows :: "event list"
  es_open :: "event list"
  es_seq :: nat

record sql_net =
  q_exec :: bool
  q_commit :: bool
  q_rollback :: bool

definition max_seq :: "event list \<Rightarrow> nat" where
  "max_seq rs = fold (\<lambda>e m. max m (ev_seq e)) rs 0"

text \<open>\<open>__init__\<close> and \<open>_init_db\<close>: the counter starts at the largest number in the table, or zero.\<close>

definition es_init :: "event list \<Rightarrow> event_store" where
  "es_init rs = \<lparr>es_rows = rs, es_open = [], es_seq = max_seq rs\<rparr>"

text \<open>
  \<open>append\<close>. The INSERT fails on a duplicate \<open>event_id\<close> or when SQLite says so; a COMMIT that fails
  leaves the row in the open transaction, which the rollback removes if it works.
\<close>

definition es_failed :: "sql_net \<Rightarrow> event_store \<Rightarrow> event_store" where
  "es_failed q s = (if q_rollback q then s\<lparr>es_open := []\<rparr> else s)"

definition es_append :: "sql_net \<Rightarrow> event \<Rightarrow> event_store \<Rightarrow> event_store \<times> event result" where
  "es_append q e s =
     (let seq = Suc (es_seq s); row = e\<lparr>ev_seq := seq\<rparr>
      in if \<not> q_exec q \<or> ev_id e \<in> ev_id ` set (es_rows s @ es_open s) then (es_failed q s, Inl (OtherException ''sqlite''))
         else let s1 = s\<lparr>es_open := es_open s @ [row]\<rparr>
              in if q_commit q then (s1\<lparr>es_rows := es_rows s1 @ es_open s1, es_open := [], es_seq := seq\<rparr>, Inr row)
                 else (es_failed q s1, Inl (OtherException ''sqlite'')))"

definition new_event :: "string \<Rightarrow> string \<Rightarrow> string \<Rightarrow> string option \<Rightarrow> pydict \<Rightarrow> event" where
  "new_event uid now etype job pl = \<lparr>ev_id = uid, ev_type = etype, ev_job = job, ev_payload = pl, ev_time = now, ev_seq = 0\<rparr>"

definition es_emit :: "sql_net \<Rightarrow> string \<Rightarrow> string \<Rightarrow> string \<Rightarrow> string option \<Rightarrow> pydict \<Rightarrow> event_store \<Rightarrow> event_store \<times> event result" where
  "es_emit q uid now etype job pl s = es_append q (new_event uid now etype job pl) s"

text \<open>The readers see the connection's own open rows too.\<close>

definition es_visible :: "event_store \<Rightarrow> event list" where
  "es_visible s = sort_key ev_seq (es_rows s @ es_open s)"

definition es_replay :: "nat \<Rightarrow> string list \<Rightarrow> event_store \<Rightarrow> event list" where
  "es_replay from types s =
     filter (\<lambda>e. ev_seq e > from \<and> (types = [] \<or> ev_type e \<in> set types)) (es_visible s)"

definition es_get_events_for_job :: "string \<Rightarrow> event_store \<Rightarrow> event list" where
  "es_get_events_for_job job s = filter (\<lambda>e. ev_job e = Some job) (es_visible s)"

definition es_get_events_since :: "nat \<Rightarrow> event_store \<Rightarrow> event list" where
  "es_get_events_since n s = es_replay n [] s"

section \<open>Replaying a job\<close>

record job_history =
  jh_status :: string
  jh_gpu :: bool
  jh_error :: "pyval option"
  jh_final :: pydict

definition replay_event :: "event \<Rightarrow> job_history \<Rightarrow> job_history" where
  "replay_event e h =
     (let h1 = (if ev_type e = ''job.completed'' then h\<lparr>jh_status := ''completed''\<rparr>
                else if ev_type e = ''job.failed''
                then h\<lparr>jh_status := ''failed'',
                       jh_error := Some (case map_of (ev_payload e) ''error'' of None \<Rightarrow> PStr ''unknown'' | Some v \<Rightarrow> v)\<rparr>
                else if ev_type e = ''job.cancelled'' then h\<lparr>jh_status := ''cancelled''\<rparr>
                else if ev_type e = ''job.started'' then h\<lparr>jh_status := ''running''\<rparr>
                else if ev_type e = ''gpu.locked'' then h\<lparr>jh_gpu := True\<rparr>
                else h)
      in h1\<lparr>jh_final := ev_payload e\<rparr>)"

definition es_replay_to_state :: "string \<Rightarrow> event_store \<Rightarrow> job_history \<times> event list" where
  "es_replay_to_state job s =
     (let es = es_get_events_for_job job s
      in (fold replay_event es \<lparr>jh_status = ''unknown'', jh_gpu = False, jh_error = None, jh_final = []\<rparr>, es))"

section \<open>The facade\<close>

record durability =
  dl_events :: event_store
  dl_snapshots :: event_store

definition dl_record :: "sql_net \<Rightarrow> string \<Rightarrow> string \<Rightarrow> string \<Rightarrow> string option \<Rightarrow> pydict \<Rightarrow> durability \<Rightarrow> durability \<times> event result" where
  "dl_record q uid now etype job pl d =
     (case es_emit q uid now etype job pl (dl_events d) of (s, r) \<Rightarrow> (d\<lparr>dl_events := s\<rparr>, r))"

definition dl_checkpoint :: "sql_net \<Rightarrow> string \<Rightarrow> string \<Rightarrow> string \<Rightarrow> pyval \<Rightarrow> durability \<Rightarrow> durability \<times> event result" where
  "dl_checkpoint q uid now cname st d =
     (case es_emit q uid now ''system.startup'' None [(''component'', PStr cname), (''state'', st)] (dl_snapshots d) of
        (s, r) \<Rightarrow> (d\<lparr>dl_snapshots := s\<rparr>, r))"

definition dl_report :: "durability \<Rightarrow> nat \<times> nat" where
  "dl_report d = (es_seq (dl_events d), es_seq (dl_snapshots d))"

section \<open>Invariant\<close>

definition log_ok :: "event_store \<Rightarrow> bool" where
  "log_ok s \<longleftrightarrow> es_open s = [] \<and> map ev_seq (es_rows s) = [1 ..< Suc (length (es_rows s))]
     \<and> es_seq s = length (es_rows s) \<and> distinct (map ev_id (es_rows s))"

lemma max_seq_upt: "map ev_seq rs = [1 ..< Suc (length rs)] \<Longrightarrow> max_seq rs = length rs"
proof (induction rs rule: rev_induct)
  case (snoc e rs)
  have "map ev_seq rs @ [ev_seq e] = [1 ..< Suc (length rs)] @ [Suc (length rs)]"
    using snoc.prems by simp
  then have "map ev_seq rs = [1 ..< Suc (length rs)]" "ev_seq e = Suc (length rs)" by auto
  with snoc.IH show ?case by (simp add: max_seq_def)
qed (simp add: max_seq_def)

lemma log_ok_append:
  assumes "log_ok s"
  shows "q_rollback q \<or> q_commit q \<or> \<not> q_exec q \<Longrightarrow> log_ok (fst (es_append q e s))"
  using assms by (auto simp: log_ok_def es_append_def es_failed_def Let_def)

inductive log_step :: "event_store \<Rightarrow> event_store \<Rightarrow> bool" where
  append: "q_rollback q \<Longrightarrow> log_step s (fst (es_append q e s))"
| reopen: "log_step s (es_init (es_rows s))"

interpretation log: transition_system "\<lambda>s. s = es_init []" log_step .

lemma log_reopen: "log_ok s \<Longrightarrow> es_init (es_rows s) = s"
  by (cases s) (simp add: log_ok_def es_init_def max_seq_upt)

lemma log_reach_ok: "log.reach s \<Longrightarrow> log_ok s"
proof (erule log.invariant_reach [rotated 2])
  show "log_ok s" if "s = es_init []" for s using that by (simp add: log_ok_def es_init_def max_seq_def)
  show "log_ok t" if "log_ok s" "log_step s t" for s t
    using that(2,1) by cases (auto simp: log_ok_append log_reopen)
qed

lemma log_visible: "log_ok s \<Longrightarrow> es_visible s = es_rows s"
proof -
  assume ok: "log_ok s"
  have "sorted (map ev_seq (es_rows s))" using ok unfolding log_ok_def by (metis sorted_upt)
  then show ?thesis using ok by (simp add: es_visible_def log_ok_def sorted_sort_id sort_key_id_if_sorted)
qed

lemma filter_seq_drop:
  assumes "map ev_seq rs = [Suc m ..< Suc m + length rs]"
  shows "filter (\<lambda>e. n < ev_seq e) rs = drop (n - m) rs"
  using assms
proof (induction rs arbitrary: m)
  case (Cons e rs)
  have e: "ev_seq e = Suc m" "map ev_seq rs = [Suc (Suc m) ..< Suc (Suc m) + length rs]"
    using Cons.prems by (auto simp: upt_conv_Cons simp del: upt_Suc)
  show ?case
  proof (cases "n < Suc m")
    case True
    have "\<forall>x\<in>set rs. n < ev_seq x"
    proof
      fix x assume "x \<in> set rs"
      then have "ev_seq x \<in> set (map ev_seq rs)" by simp
      then show "n < ev_seq x" unfolding e(2) using True by (simp del: upt_Suc)
    qed
    with True e(1) show ?thesis by simp
  next
    case False
    with Cons.IH [OF e(2)] e(1) show ?thesis by (simp add: drop_Cons' Suc_diff_le)
  qed
qed simp

section \<open>Properties\<close>

text \<open>The event log is gapless and atomic. In every state reached by appends under any failures of
  execute and commit and by reopening the file (the rollback of a failed append working), the stored
  numbers are exactly 1 to the number of events; an append that fails leaves the store unchanged; one
  that succeeds stores exactly its event under the next number; a replay from a position returns exactly
  the later events in order; and reopening the file gives the same store.\<close>

theorem event_log_gapless_and_atomic:
  assumes "log.reach s" and "q_rollback q" and "es_append q e s = (t, r)"
  shows "map ev_seq (es_rows s) = [1 ..< Suc (length (es_rows s))]
    \<and> (case r of Inl _ \<Rightarrow> t = s | Inr x \<Rightarrow> es_rows t = es_rows s @ [x] \<and> x = e\<lparr>ev_seq := Suc (length (es_rows s))\<rparr> \<and> es_open t = [])
    \<and> es_replay n [] s = drop n (es_rows s)
    \<and> es_init (es_rows s) = s"
proof -
  have ok: "log_ok s" using assms(1) by (rule log_reach_ok)
  have "es_replay n [] s = filter (\<lambda>e. n < ev_seq e) (es_rows s)"
    by (simp add: es_replay_def log_visible [OF ok])
  also have "\<dots> = drop n (es_rows s)"
    using filter_seq_drop [of "es_rows s" 0 n] ok by (simp add: log_ok_def)
  finally have rep: "es_replay n [] s = drop n (es_rows s)" .
  have ch: "case r of Inl _ \<Rightarrow> t = s | Inr x \<Rightarrow> es_rows t = es_rows s @ [x] \<and> x = e\<lparr>ev_seq := Suc (length (es_rows s))\<rparr> \<and> es_open t = []"
    using assms(2,3) ok by (cases s) (auto simp: es_append_def es_failed_def Let_def log_ok_def split: if_splits)
  show ?thesis using ok ch rep log_reopen [OF ok] by (simp add: log_ok_def)
qed

definition demo_log :: event_store where
  "demo_log = fst (es_append \<lparr>q_exec = True, q_commit = True, q_rollback = True\<rparr>
     (new_event ''e1'' ''t'' ''job.started'' (Some ''j'') []) (es_init []))"

lemma demo_log_reach: "log.reach demo_log"
  unfolding demo_log_def
  by (rule log.reach_step [OF log.reach_init [OF refl]]) (rule log_step.append, simp)

theorem event_log_gapless_and_atomic_witness:
  "\<exists>t r. es_append \<lparr>q_exec = True, q_commit = False, q_rollback = True\<rparr> (new_event ''e2'' ''t'' ''job.failed'' (Some ''j'') []) demo_log = (t, r)
     \<and> r = Inl (OtherException ''sqlite'') \<and> t = demo_log"
proof -
  let ?q = "\<lparr>q_exec = True, q_commit = False, q_rollback = True\<rparr>"
  let ?e = "new_event ''e2'' ''t'' ''job.failed'' (Some ''j'') []"
  obtain t r where a: "es_append ?q ?e demo_log = (t, r)" by force
  have "r = Inl (OtherException ''sqlite'')" using a by (auto simp: es_append_def Let_def split: if_splits)
  with event_log_gapless_and_atomic [OF demo_log_reach _ a] a show ?thesis by simp
qed

definition STATUS_EVENTS :: "(string \<times> string) list" where
  "STATUS_EVENTS = [(''job.completed'', ''completed''), (''job.failed'', ''failed''), (''job.cancelled'', ''cancelled''), (''job.started'', ''running'')]"

lemma replay_event_status:
  "jh_status (replay_event e h) = (case map_of STATUS_EVENTS (ev_type e) of None \<Rightarrow> jh_status h | Some st \<Rightarrow> st)"
  by (simp add: replay_event_def STATUS_EVENTS_def Let_def)

lemma replay_event_rest:
  "jh_gpu (replay_event e h) = (jh_gpu h \<or> ev_type e = ''gpu.locked'')" "jh_final (replay_event e h) = ev_payload e"
  by (auto simp: replay_event_def Let_def)

lemma replay_fold:
  "jh_status (fold replay_event es h) =
     (case filter (\<lambda>e. map_of STATUS_EVENTS (ev_type e) \<noteq> None) es of
        [] \<Rightarrow> jh_status h | x # xs \<Rightarrow> the (map_of STATUS_EVENTS (ev_type (last (x # xs)))))"
  "jh_gpu (fold replay_event es h) = (jh_gpu h \<or> (\<exists>e\<in>set es. ev_type e = ''gpu.locked''))"
  "jh_final (fold replay_event es h) = (if es = [] then jh_final h else ev_payload (last es))"
proof (induction es rule: rev_induct)
  case (snoc e es)
  show "jh_status (fold replay_event (es @ [e]) h) =
     (case filter (\<lambda>e. map_of STATUS_EVENTS (ev_type e) \<noteq> None) (es @ [e]) of
        [] \<Rightarrow> jh_status h | x # xs \<Rightarrow> the (map_of STATUS_EVENTS (ev_type (last (x # xs)))))"
    using snoc(1) by (auto simp: replay_event_status split: list.splits option.splits)
  show "jh_gpu (fold replay_event (es @ [e]) h) = (jh_gpu h \<or> (\<exists>e\<in>set (es @ [e]). ev_type e = ''gpu.locked''))"
    using snoc(2) by (auto simp: replay_event_rest)
  show "jh_final (fold replay_event (es @ [e]) h) = (if es @ [e] = [] then jh_final h else ev_payload (last (es @ [e])))"
    by (simp add: replay_event_rest)
qed simp_all

text \<open>A job's replayed status is that of the last of its status events (completed, failed, cancelled,
  started), and unknown if it has none; the GPU counts as used exactly if some event locked it; the final
  state is the payload of its last event. Events of other jobs play no part.\<close>

theorem replayed_state_is_last_event:
  assumes "log.reach s" and "es = filter (\<lambda>e. ev_job e = Some job) (es_rows s)"
  shows "es_replay_to_state job s =
      (fst (es_replay_to_state job s), es)
    \<and> jh_status (fst (es_replay_to_state job s)) =
        (case filter (\<lambda>e. map_of STATUS_EVENTS (ev_type e) \<noteq> None) es of
           [] \<Rightarrow> ''unknown'' | x # xs \<Rightarrow> the (map_of STATUS_EVENTS (ev_type (last (x # xs)))))
    \<and> (jh_gpu (fst (es_replay_to_state job s)) \<longleftrightarrow> (\<exists>e\<in>set es. ev_type e = ''gpu.locked''))
    \<and> jh_final (fst (es_replay_to_state job s)) = (if es = [] then [] else ev_payload (last es))"
proof -
  let ?h = "\<lparr>jh_status = ''unknown'', jh_gpu = False, jh_error = None, jh_final = []\<rparr>"
  have e: "es_replay_to_state job s = (fold replay_event es ?h, es)"
    using log_visible [OF log_reach_ok [OF assms(1)]]
    by (simp add: es_replay_to_state_def es_get_events_for_job_def assms(2) Let_def)
  show ?thesis
    unfolding e using replay_fold [of es ?h]
    by (cases "filter (\<lambda>e. map_of STATUS_EVENTS (ev_type e) \<noteq> None) es") simp_all
qed

theorem replayed_state_is_last_event_witness:
  "log.reach demo_log \<and> jh_status (fst (es_replay_to_state ''j'' demo_log)) = ''running''"
proof -
  have "es_rows demo_log = [(new_event ''e1'' ''t'' ''job.started'' (Some ''j'') [])\<lparr>ev_seq := 1\<rparr>]"
    by (simp add: demo_log_def es_append_def es_init_def Let_def max_seq_def new_event_def)
  with replayed_state_is_last_event [OF demo_log_reach refl, of "''j''"] demo_log_reach show ?thesis
    by (simp add: new_event_def STATUS_EVENTS_def)
qed

end
