(* ===== verification/WriterLease.thy ===== *)
theory WriterLease
  imports Locks "HOL-Library.List_Lexorder"
begin

text \<open>
  The writer lease of the operations scripts, \<open>src/deploy/ops/lease.py\<close>: one lease file with a
  fencing token, and one marker file per session. Every operation runs under an exclusive \<open>flock\<close>,
  so operations are atomic steps. A file is modelled by what reading it can give; times written by
  \<open>iso()\<close> have whole seconds and are read back exactly.

  Shown: a refused capture changes nothing, a live lease is never taken over by another session,
  the fencing token grows by one with every capture and never otherwise, and the guard.
\<close>

section \<open>Files\<close>

text \<open>A time field: absent or not a string, not parseable, or a time.\<close>

datatype stamp = NoStamp | BadStamp | At rat

definition iso :: "rat \<Rightarrow> stamp" where
  "iso now = At (of_int \<lfloor>now\<rfloor>)"

record lease_state =
  ls_instance :: "string option"
  ls_token :: "int option"
  ls_heartbeat :: stamp
  ls_started :: stamp
  ls_conversation :: string
  ls_owner :: string
  ls_task :: string
  ls_status :: string
  ls_scope :: "string list"
  ls_kept :: "(string \<times> string) list"
  ls_ttl :: int

text \<open>The keys \<open>pid\<close>, \<open>host\<close> and \<open>boot_id\<close> are left out of both files: they are printed and never
  decided on. \<open>ls_kept\<close> holds \<open>released_at\<close>, \<open>released_by\<close> and \<open>previous_status\<close> where present.\<close>

text \<open>What \<open>.writer_lease.json\<close> can hold; an empty object is a file without keys.\<close>

datatype lease_file = LeaseAbsent | LeaseBroken | LeaseNotObject | LeaseEmpty | LeaseObj lease_state

record marker =
  mk_instance :: "string option"
  mk_conversation :: string
  mk_first :: stamp
  mk_last :: stamp

record lease_dir =
  ld_lease :: lease_file
  ld_markers :: "(string \<times> marker option) list"
  ld_ttl_min :: int

section \<open>Reading\<close>

text \<open>\<open>read_state_strict\<close>: absent is free, unreadable or not an object is refused.\<close>

definition read_state_strict :: "lease_file \<Rightarrow> lease_state option result" where
  "read_state_strict f =
     (case f of LeaseAbsent \<Rightarrow> Inr None | LeaseEmpty \<Rightarrow> Inr None | LeaseObj st \<Rightarrow> Inr (Some st)
      | LeaseBroken \<Rightarrow> Inl CollisionError | LeaseNotObject \<Rightarrow> Inl CollisionError)"

definition parse_heartbeat_at :: "stamp \<Rightarrow> rat result" where
  "parse_heartbeat_at s = (case s of At t \<Rightarrow> Inr t | _ \<Rightarrow> Inl CollisionError)"

text \<open>\<open>fresh_markers\<close>: sorted by file name, unreadable ones left out, keyed by instance.\<close>

definition is_fresh :: "rat \<Rightarrow> int \<Rightarrow> marker \<Rightarrow> bool" where
  "is_fresh now ttl m = (case mk_last m of At t \<Rightarrow> now - t < of_int (ttl * 60) | _ \<Rightarrow> False)"

definition add_fresh :: "rat \<Rightarrow> int \<Rightarrow> string \<times> marker option \<Rightarrow> (string \<times> marker) list \<Rightarrow> (string \<times> marker) list" where
  "add_fresh now ttl f out =
     (case snd f of
        None \<Rightarrow> out
      | Some m \<Rightarrow> if is_fresh now ttl m
                  then AList.update (case mk_instance m of None \<Rightarrow> fst f | Some i \<Rightarrow> i) m out else out)"

fun insert_by_name :: "string \<times> marker option \<Rightarrow> (string \<times> marker option) list \<Rightarrow> (string \<times> marker option) list" where
  "insert_by_name x [] = [x]"
| "insert_by_name x (y # ys) =
     (if fst x \<le> fst y then x # y # ys else y # insert_by_name x ys)"

definition fresh_markers :: "rat \<Rightarrow> int \<Rightarrow> (string \<times> marker option) list \<Rightarrow> (string \<times> marker) list" where
  "fresh_markers now ttl ms = fold (add_fresh now ttl) (foldr insert_by_name ms []) []"

definition guard :: "rat \<Rightarrow> int \<Rightarrow> string option \<Rightarrow> (string \<times> marker option) list \<Rightarrow> (string \<times> marker) list result" where
  "guard now ttl own ms =
     (let fresh = fresh_markers now ttl ms
      in if truthy own
         then (if filter (\<lambda>(k, _). k \<noteq> the own) fresh \<noteq> [] then Inl CollisionError else Inr fresh)
         else (if length fresh > 1 then Inl CollisionError else Inr fresh))"

section \<open>Writing\<close>

definition write_marker :: "rat \<Rightarrow> string \<Rightarrow> string \<Rightarrow> (string \<times> marker option) list \<Rightarrow> (string \<times> marker option) list" where
  "write_marker now i conv ms =
     (let prev = (case map_of ms i of Some (Some m) \<Rightarrow> Some m | _ \<Rightarrow> None);
          m = \<lparr>mk_instance = Some i,
               mk_conversation = (if conv \<noteq> [] then conv else case prev of None \<Rightarrow> [] | Some p \<Rightarrow> mk_conversation p),
               mk_first = (case prev of None \<Rightarrow> iso now | Some p \<Rightarrow> if mk_first p = NoStamp then iso now else mk_first p),
               mk_last = iso now\<rparr>
      in AList.update i (Some m) ms)"

definition age_min :: "rat \<Rightarrow> rat \<Rightarrow> rat" where
  "age_min now hb = pyround 1 ((now - hb) / 60)"

text \<open>\<open>_assert_capture_allowed\<close>; \<open>iid\<close> is the requested instance or the fresh one.\<close>

definition assert_capture_allowed ::
  "rat \<Rightarrow> int \<Rightarrow> (string \<times> marker option) list \<Rightarrow> lease_state option \<Rightarrow> string option \<Rightarrow> string \<Rightarrow> unit result" where
  "assert_capture_allowed now ttl ms st requested iid =
     (case st of
        None \<Rightarrow> Inr ()
      | Some s \<Rightarrow>
          (case parse_heartbeat_at (ls_heartbeat s) of
             Inl x \<Rightarrow> Inl x
           | Inr hb \<Rightarrow>
               let foreign = filter (\<lambda>(k, _). Some k \<noteq> ls_instance s \<and> k \<noteq> iid) (fresh_markers now ttl ms)
               in if age_min now hb \<le> of_int ttl
                  then (if \<not> (truthy requested \<and> requested = ls_instance s) then Inl CollisionError
                        else if foreign \<noteq> [] then Inl CollisionError else Inr ())
                  else (if foreign \<noteq> [] then Inl CollisionError else Inr ())))"

definition or_default :: "string \<Rightarrow> string \<Rightarrow> string" where
  "or_default a b = (if a \<noteq> [] then a else b)"

definition SCOPE :: "string list" where
  "SCOPE = [''artifacts/**'', ''repo:roma-execution-bridge@branch:p1/pg-supervision-and-startup'', ''service:pg-watchdog'']"

definition capture ::
  "rat \<Rightarrow> string \<Rightarrow> string option \<Rightarrow> string \<Rightarrow> string \<Rightarrow> lease_dir \<Rightarrow> lease_dir \<times> lease_state result" where
  "capture now uid requested task st d =
     (let iid = (if truthy requested then the requested else uid)
      in case read_state_strict (ld_lease d) of
           Inl x \<Rightarrow> (d, Inl x)
         | Inr old \<Rightarrow>
             (case assert_capture_allowed now (ld_ttl_min d) (ld_markers d) old requested iid of
                Inl x \<Rightarrow> (d, Inl x)
              | Inr _ \<Rightarrow>
                  (let tok = (case old of None \<Rightarrow> 0 | Some s \<Rightarrow> (case ls_token s of None \<Rightarrow> 0 | Some t \<Rightarrow> t));
                       new = \<lparr>ls_instance = Some iid, ls_token = Some (tok + 1), ls_heartbeat = iso now, ls_started = iso now,
                              ls_conversation = (case old of None \<Rightarrow> [] | Some s \<Rightarrow> ls_conversation s),
                              ls_owner = (case old of None \<Rightarrow> [] | Some s \<Rightarrow> ls_owner s),
                              ls_task = or_default task (case old of None \<Rightarrow> [] | Some s \<Rightarrow> ls_task s),
                              ls_status = or_default st (case old of None \<Rightarrow> [] | Some s \<Rightarrow> ls_status s),
                              ls_scope = (case old of None \<Rightarrow> SCOPE | Some s \<Rightarrow> ls_scope s),
                              ls_kept = (case old of None \<Rightarrow> [] | Some s \<Rightarrow> ls_kept s),
                              ls_ttl = ld_ttl_min d\<rparr>
                   in (d\<lparr>ld_lease := LeaseObj new,
                         ld_markers := write_marker now iid (ls_conversation new) (ld_markers d)\<rparr>, Inr new))))"

text \<open>\<open>heartbeat\<close> reads the file with the lenient reader: only an object with an instance passes.\<close>

definition heartbeat :: "rat \<Rightarrow> lease_dir \<Rightarrow> lease_dir \<times> lease_state result" where
  "heartbeat now d =
     (case ld_lease d of
        LeaseObj s \<Rightarrow>
          (if \<not> truthy (ls_instance s) then (d, Inl CollisionError)
           else case guard now (ld_ttl_min d) (ls_instance s) (ld_markers d) of
                  Inl x \<Rightarrow> (d, Inl x)
                | Inr _ \<Rightarrow>
                    (let s' = s\<lparr>ls_heartbeat := iso now\<rparr>
                     in (d\<lparr>ld_lease := LeaseObj s',
                           ld_markers := write_marker now (the (ls_instance s)) (ls_conversation s) (ld_markers d)\<rparr>, Inr s')))
      | LeaseNotObject \<Rightarrow> (d, Inl (OtherException ''AttributeError''))
      | _ \<Rightarrow> (d, Inl CollisionError))"

definition lease_live :: "rat \<Rightarrow> lease_dir \<Rightarrow> bool" where
  "lease_live now d =
     (case ld_lease d of LeaseObj s \<Rightarrow> (case ls_heartbeat s of At hb \<Rightarrow> age_min now hb \<le> of_int (ld_ttl_min d) | _ \<Rightarrow> False)
      | _ \<Rightarrow> False)"

text \<open>\<open>status\<close>, for a lease file that is an object or reads as the empty one.\<close>

record lease_report =
  lr_instance :: "string option"
  lr_token :: "int option"
  lr_age :: "rat option"
  lr_live :: bool
  lr_fresh :: nat

definition lease_status :: "rat \<Rightarrow> lease_dir \<Rightarrow> lease_report result" where
  "lease_status now d =
     (let n = length (fresh_markers now (ld_ttl_min d) (ld_markers d))
      in case ld_lease d of
           LeaseNotObject \<Rightarrow> Inl (OtherException ''AttributeError'')
         | LeaseObj s \<Rightarrow>
             (let age = (case ls_heartbeat s of At hb \<Rightarrow> Some (age_min now hb) | _ \<Rightarrow> None)
              in Inr \<lparr>lr_instance = ls_instance s, lr_token = ls_token s, lr_age = age,
                      lr_live = (case age of None \<Rightarrow> False | Some a \<Rightarrow> a \<le> of_int (ld_ttl_min d)), lr_fresh = n\<rparr>)
         | _ \<Rightarrow> Inr \<lparr>lr_instance = None, lr_token = None, lr_age = None, lr_live = False, lr_fresh = n\<rparr>)"

section \<open>Exclusion\<close>

definition writer :: "rat \<Rightarrow> lease_dir \<Rightarrow> unit \<Rightarrow> string option" where
  "writer now d u =
     (case ld_lease d of
        LeaseObj s \<Rightarrow> if lease_live now d \<and> truthy (ls_instance s) then ls_instance s else None
      | _ \<Rightarrow> None)"

lemma age_min_mono: "t \<le> t' \<Longrightarrow> age_min t hb \<le> age_min t' hb"
  unfolding age_min_def by (intro pyround_mono divide_right_mono) simp_all

lemma capture_live_other:
  assumes "writer now d u = Some h" "requested \<noteq> Some h"
  shows "capture now uid requested task st d = (d, Inl CollisionError)"
  using assms
  by (auto simp: writer_def capture_def lease_live_def read_state_strict_def assert_capture_allowed_def
      parse_heartbeat_at_def Let_def split: lease_file.splits stamp.splits if_splits)

lemma capture_refused: "capture now uid requested task st d = (d', Inl x) \<Longrightarrow> d' = d"
  by (auto simp: capture_def Let_def split: sum.splits)

lemma writer_status:
  "writer now d u = Some h \<Longrightarrow> \<exists>r. lease_status now d = Inr r \<and> lr_live r \<and> lr_instance r = Some h"
  by (auto simp: writer_def lease_status_def lease_live_def Let_def split: lease_file.splits stamp.splits if_splits)

text \<open>The lease is an exclusive lock with one resource; there is no release.\<close>

interpretation wlease: exclusive_lock
  "\<lambda>now u j (x :: string) ttl d. (fst (capture now x (Some j) [] [] d), is_ok (snd (capture now x (Some j) [] [] d)))"
  "\<lambda>u j d. (d, False)" writer "\<lambda>_. True"
proof unfold_locales
  fix later d g j now
  assume "writer later d g = Some j" "now \<le> later"
  then show "writer now d g = Some j"
    using order_trans [OF age_min_mono [of now later]]
    by (auto simp: writer_def lease_live_def split: lease_file.splits stamp.splits if_splits)
next
  fix s :: lease_dir and now g j' j x ttl
  assume "writer now s g = Some j'" "j' \<noteq> j"
  then have "capture now x (Some j) [] [] s = (s, Inl CollisionError)" by (auto intro: capture_live_other)
  then show "(fst (capture now x (Some j) [] [] s), is_ok (snd (capture now x (Some j) [] [] s))) = (s, False)" by simp
qed auto

section \<open>The fencing token\<close>

definition token :: "lease_dir \<Rightarrow> int" where
  "token d = (case ld_lease d of LeaseObj s \<Rightarrow> (case ls_token s of None \<Rightarrow> 0 | Some t \<Rightarrow> t) | _ \<Rightarrow> 0)"

inductive lease_op :: "bool \<Rightarrow> lease_dir \<Rightarrow> lease_dir \<Rightarrow> bool" where
  captured: "capture now uid requested task st d = (d', Inr s) \<Longrightarrow> lease_op True d d'"
| not_captured: "capture now uid requested task st d = (d', Inl x) \<Longrightarrow> lease_op False d d'"
| beat: "heartbeat now d = (d', r) \<Longrightarrow> lease_op False d d'"

inductive lease_run :: "nat \<Rightarrow> lease_dir \<Rightarrow> lease_dir \<Rightarrow> bool" where
  run_nil: "lease_run 0 d d"
| run_step: "lease_run n d e \<Longrightarrow> lease_op c e f \<Longrightarrow> lease_run (if c then Suc n else n) d f"

lemma token_capture: "capture now uid requested task st d = (d', Inr s) \<Longrightarrow> token d' = token d + 1 \<and> ls_token s = Some (token d')"
  by (auto simp: capture_def token_def read_state_strict_def Let_def split: lease_file.splits sum.splits)

lemma token_heartbeat: "heartbeat now d = (d', r) \<Longrightarrow> token d' = token d"
  by (auto simp: heartbeat_def token_def Let_def split: lease_file.splits if_splits sum.splits)

lemma lease_op_token: "lease_op c d d' \<Longrightarrow> token d' = (if c then token d + 1 else token d)"
  by (induction rule: lease_op.induct) (auto dest: token_capture token_heartbeat capture_refused)

section \<open>Properties\<close>

text \<open>A live writer lease excludes everybody else. If instance \<open>h\<close> holds a lease that is live up to the
  time \<open>T\<close>, then after any sequence of capture attempts by other instances up to then, each is refused
  and the files are as they were: a new session (no instance given) and any other instance are refused
  with a collision, \<open>h\<close> is still the writer, and \<open>status\<close> reports the lease live and held by \<open>h\<close>.\<close>

theorem live_lease_excludes_others:
  assumes "writer T d () = Some h"
    and "\<forall>(now, p)\<in>set ops. now \<le> T \<and> \<not> op_by () h p" and "t \<le> T" and "requested \<noteq> Some h"
  defines "d' \<equiv> fold (lock_step (\<lambda>now u j (x :: string) ttl d.
      (fst (capture now x (Some j) [] [] d), is_ok (snd (capture now x (Some j) [] [] d)))) (\<lambda>u j d. (d, False))) ops d"
  shows "writer t d' () = Some h \<and> capture t uid requested task st d' = (d', Inl CollisionError)
    \<and> (\<exists>r. lease_status t d' = Inr r \<and> lr_live r \<and> lr_instance r = Some h)"
proof -
  have "writer T d' () = Some h" using wlease.held_throughout [OF _ assms(1,2)] by (simp add: d'_def)
  then have "writer t d' () = Some h" using wlease.held_earlier assms(3) by blast
  with capture_live_other writer_status assms(4) show ?thesis by blast
qed

definition demo_dir :: lease_dir where
  "demo_dir = fst (capture 0 ''u'' (Some ''A'') [] [] \<lparr>ld_lease = LeaseAbsent, ld_markers = [], ld_ttl_min = 15\<rparr>)"

lemma demo_dir_writer: "writer 60 demo_dir () = Some ''A''"
proof -
  have "age_min 60 0 = 1" using pyround_scaled [of 1 10] by (simp add: age_min_def)
  then show ?thesis
    by (simp add: demo_dir_def capture_def read_state_strict_def assert_capture_allowed_def writer_def lease_live_def iso_def Let_def)
qed

theorem live_lease_excludes_others_witness:
  "writer 60 demo_dir () = Some ''A'' \<and> capture 60 ''u2'' None [] [] demo_dir = (demo_dir, Inl CollisionError)"
  using live_lease_excludes_others [OF demo_dir_writer, of "[]" 60 None "''u2''" "[]" "[]"] demo_dir_writer by simp

text \<open>C40: The fencing token counts captures. Over any sequence of captures and heartbeats of any instances,
  refused ones included, the token grows by exactly the number of captures that succeeded; a success
  returns the token that is in the file, so two captures never hold the same token, and a refused
  capture leaves lease and markers unchanged.\<close>

theorem fencing_token_counts_captures:
  assumes "lease_run n d e"
  shows "token e = token d + int n
    \<and> (capture now uid requested task st e = (f, Inr s) \<longrightarrow> ls_token s = Some (token d + int n + 1) \<and> ls_token s = Some (token f))
    \<and> (capture now uid requested task st e = (f, Inl x) \<longrightarrow> f = e)"
proof -
  have t: "token e = token d + int n"
    using assms by (induction rule: lease_run.induct) (auto dest!: lease_op_token)
  then show ?thesis using token_capture [of now uid requested task st e f s] capture_refused [of now uid requested task st e f x]
    by auto
qed

theorem fencing_token_counts_captures_witness:
  "\<exists>d e. lease_run 1 d e \<and> token e = token d + 1"
proof -
  let ?d = "\<lparr>ld_lease = LeaseAbsent, ld_markers = [], ld_ttl_min = 15\<rparr>"
  obtain e s where c: "capture 0 ''u'' (Some ''A'') [] [] ?d = (e, Inr s)"
    by (simp add: capture_def read_state_strict_def assert_capture_allowed_def Let_def)
  have "lease_run (if True then Suc 0 else 0) ?d e"
    by (rule lease_run.run_step [OF lease_run.run_nil]) (rule lease_op.captured [OF c])
  then have r: "lease_run 1 ?d e" by simp
  from fencing_token_counts_captures [OF r] have "token e = token ?d + int 1" by blast
  with r show ?thesis by (intro exI [of _ ?d] exI [of _ e]) simp
qed

end
