(* ===== verification/EventSourcing.thy ===== *)
theory EventSourcing
  imports Prelude
begin

text \<open>
  The event-sourced job state: \<open>src/durability/event_sourcing.py\<close>.

  The store is its table of events and the tick counter of the process; opening it starts the counter at 0. The rows are
  those the store's connection sees, in the order of insertion, so that a failed batch leaves the rows before the failing
  one. Rows of the same tick are read in the order of insertion. Payloads are dictionaries of JSON values.

  Shown: in one process ticks number the events and the projection of the log refines direct updates of the job;
  replay by pages ends and, for distinct ticks, gives every event once and in order; an event survives its trip
  through JSON; and that a restarted process reuses ticks, that replay loses events of equal ticks, that a failed
  batch is not undone.
\<close>

section \<open>Events\<close>

datatype etype =
    EvJobSubmitted | EvJobQueued | EvJobScheduled | EvJobStarted | EvJobCompleted | EvJobFailed | EvJobCancelled
  | EvJobQueuedRejected | EvGpuAllocated | EvGpuReleased | EvQueueEnqueued | EvQueueDequeued | EvControllerStarted
  | EvControllerStopped | EvNodeRegistered | EvNodeUnregistered | EvReconciliationRun | EvSelfHealApplied
  | EvBackpressureTriggered | EvQueueSaturationWarn | EvTaskCreated | EvTaskUpdated | EvTaskDeleted

definition etype_table :: "(string \<times> etype) list" where
  "etype_table =
     [(''job.submitted'', EvJobSubmitted), (''job.queued'', EvJobQueued), (''job.scheduled'', EvJobScheduled),
      (''job.started'', EvJobStarted), (''job.completed'', EvJobCompleted), (''job.failed'', EvJobFailed),
      (''job.cancelled'', EvJobCancelled), (''job.queued_rejected'', EvJobQueuedRejected), (''gpu.allocated'', EvGpuAllocated),
      (''gpu.released'', EvGpuReleased), (''queue.enqueued'', EvQueueEnqueued), (''queue.dequeued'', EvQueueDequeued),
      (''controller.started'', EvControllerStarted), (''controller.stopped'', EvControllerStopped),
      (''node.registered'', EvNodeRegistered), (''node.unregistered'', EvNodeUnregistered),
      (''reconciliation.run'', EvReconciliationRun), (''self_heal.applied'', EvSelfHealApplied),
      (''backpressure.triggered'', EvBackpressureTriggered), (''queue.saturation_warn'', EvQueueSaturationWarn),
      (''romatask.created'', EvTaskCreated), (''romatask.updated'', EvTaskUpdated), (''romatask.deleted'', EvTaskDeleted)]"

definition etype_value :: "etype \<Rightarrow> string" where
  "etype_value t = (case List.find (\<lambda>(v, u). u = t) etype_table of None \<Rightarrow> [] | Some (v, u) \<Rightarrow> v)"

text \<open>\<open>EventType(value)\<close> raises for an unknown value.\<close>

definition etype_of_value :: "string \<Rightarrow> etype result" where
  "etype_of_value v = (case map_of etype_table v of None \<Rightarrow> Inl ValueError | Some t \<Rightarrow> Inr t)"

record sevent =
  sv_id :: string
  sv_type :: etype
  sv_aggregate :: string
  sv_tick :: int
  sv_time :: int
  sv_payload :: pydict
  sv_meta :: pydict

definition event_create :: "string \<Rightarrow> int \<Rightarrow> etype \<Rightarrow> string \<Rightarrow> int \<Rightarrow> pydict \<Rightarrow> sevent" where
  "event_create uid ns ty agg tick pl =
     \<lparr>sv_id = uid, sv_type = ty, sv_aggregate = agg, sv_tick = tick, sv_time = ns, sv_payload = pl, sv_meta = []\<rparr>"

definition event_to_json :: "sevent \<Rightarrow> pyval" where
  "event_to_json e =
     PDict [(''aggregate_id'', PStr (sv_aggregate e)), (''event_id'', PStr (sv_id e)), (''event_type'', PStr (etype_value (sv_type e))),
            (''metadata'', PDict (sv_meta e)), (''payload'', PDict (sv_payload e)), (''tick'', PInt (sv_tick e)),
            (''timestamp_ns'', PInt (sv_time e))]"

text \<open>A missing key raises; fields of other types than those written are not produced by \<open>to_json\<close> and give a TypeError here.\<close>

definition event_from_json :: "pyval \<Rightarrow> sevent result" where
  "event_from_json v =
     (case v of
        PDict d \<Rightarrow>
          (if \<not> set [''event_id'', ''event_type'', ''aggregate_id'', ''tick'', ''timestamp_ns'', ''payload''] \<subseteq> fst ` set d then Inl KeyError
           else case (dict_get d ''event_id'', dict_get d ''event_type'', dict_get d ''aggregate_id'', dict_get d ''tick'',
                      dict_get d ''timestamp_ns'', dict_get d ''payload'', case map_of d ''metadata'' of None \<Rightarrow> PDict [] | Some m \<Rightarrow> m) of
                  (PStr i, PStr ty, PStr agg, PInt tick, PInt ns, PDict pl, PDict meta) \<Rightarrow>
                    (case etype_of_value ty of
                       Inl x \<Rightarrow> Inl x
                     | Inr t \<Rightarrow> Inr \<lparr>sv_id = i, sv_type = t, sv_aggregate = agg, sv_tick = tick, sv_time = ns, sv_payload = pl, sv_meta = meta\<rparr>)
                | _ \<Rightarrow> Inl TypeError)
      | _ \<Rightarrow> Inl TypeError)"

section \<open>The store\<close>

record sstore =
  ss_rows :: "sevent list"
  ss_counter :: int

definition ss_open :: "sevent list \<Rightarrow> sstore" where
  "ss_open rs = \<lparr>ss_rows = rs, ss_counter = 0\<rparr>"

definition next_tick :: "sstore \<Rightarrow> sstore \<times> int" where
  "next_tick s = (s\<lparr>ss_counter := ss_counter s + 1\<rparr>, ss_counter s + 1)"

abbreviation IntegrityError :: pyexc where "IntegrityError \<equiv> OtherException ''IntegrityError''"

definition ss_append :: "sevent \<Rightarrow> sstore \<Rightarrow> sstore \<times> unit result" where
  "ss_append e s =
     (if sv_id e \<in> sv_id ` set (ss_rows s) then (s, Inl IntegrityError) else (s\<lparr>ss_rows := ss_rows s @ [e]\<rparr>, Inr ()))"

text \<open>\<open>executemany\<close> stops at the first row that fails; nothing is rolled back.\<close>

fun ss_append_batch :: "sevent list \<Rightarrow> sstore \<Rightarrow> sstore \<times> unit result" where
  "ss_append_batch [] s = (s, Inr ())"
| "ss_append_batch (e # es) s =
     (case ss_append e s of (s', Inl x) \<Rightarrow> (s', Inl x) | (s', Inr _) \<Rightarrow> ss_append_batch es s')"

definition get_events_for_aggregate :: "string \<Rightarrow> sstore \<Rightarrow> sevent list" where
  "get_events_for_aggregate agg s = sort_key sv_tick (filter (\<lambda>e. sv_aggregate e = agg) (ss_rows s))"

definition get_events_since :: "int \<Rightarrow> nat \<Rightarrow> sevent list \<Rightarrow> sevent list" where
  "get_events_since tick limit rs = take limit (sort_key sv_tick (filter (\<lambda>e. tick \<le> sv_tick e) rs))"

definition get_current_tick :: "sstore \<Rightarrow> int" where
  "get_current_tick s = (if ss_rows s = [] then 0 else Max (sv_tick ` set (ss_rows s)))"

definition count_events :: "sstore \<Rightarrow> nat" where
  "count_events s = length (ss_rows s)"

definition PAGE :: nat where "PAGE = 100"

text \<open>\<open>replay_from_tick\<close>: pages of 100, the next one from the tick after the last.\<close>

lemma page_shrinks:
  assumes "get_events_since tick PAGE rs \<noteq> []"
  shows "length (filter (\<lambda>e. sv_tick (last (get_events_since tick PAGE rs)) + 1 \<le> sv_tick e) rs) < length (filter (\<lambda>e. tick \<le> sv_tick e) rs)"
proof -
  let ?p = "get_events_since tick PAGE rs"
  have "last ?p \<in> set (sort_key sv_tick (filter (\<lambda>e. tick \<le> sv_tick e) rs))"
    using last_in_set [OF assms] unfolding get_events_since_def by (rule in_set_takeD)
  then have l: "last ?p \<in> set rs" "tick \<le> sv_tick (last ?p)" by auto
  let ?new = "filter (\<lambda>e. sv_tick (last ?p) + 1 \<le> sv_tick e) rs"
  have "?new = filter (\<lambda>e. sv_tick (last ?p) + 1 \<le> sv_tick e) (filter (\<lambda>e. tick \<le> sv_tick e) rs)"
    unfolding filter_filter by (rule filter_cong) (use l(2) in auto)
  also have "length \<dots> < length (filter (\<lambda>e. tick \<le> sv_tick e) rs)"
    by (rule length_filter_less [of "last ?p"]) (use l in auto)
  finally show ?thesis .
qed

function replay_from_tick :: "sevent list \<Rightarrow> int \<Rightarrow> sevent list" where
  "replay_from_tick rs tick =
     (let p = get_events_since tick PAGE rs
      in if p = [] then [] else p @ replay_from_tick rs (sv_tick (last p) + 1))"
  by auto
termination
  by (relation "measure (\<lambda>(rs, tick). length (filter (\<lambda>e. tick \<le> sv_tick e) rs))") (use page_shrinks in auto)

declare replay_from_tick.simps [simp del]

section \<open>Projection and commands\<close>

record pjob =
  pj_id :: string
  pj_status :: string
  pj_priority :: pyval
  pj_vram :: pyval
  pj_node :: pyval
  pj_created :: int
  pj_last :: int
  pj_retries :: nat
  pj_error :: pyval

definition get_or :: "pydict \<Rightarrow> string \<Rightarrow> pyval \<Rightarrow> pyval" where
  "get_or d k v = (case map_of d k of None \<Rightarrow> v | Some w \<Rightarrow> w)"

definition apply_event :: "sevent \<Rightarrow> pjob \<Rightarrow> pjob" where
  "apply_event e st =
     (case sv_type e of
        EvJobSubmitted \<Rightarrow> st\<lparr>pj_status := ''submitted'', pj_priority := get_or (sv_payload e) ''priority'' (PInt 5),
                             pj_vram := get_or (sv_payload e) ''vram_gb'' (PFloat (Fin 4))\<rparr>
      | EvJobQueued \<Rightarrow> st\<lparr>pj_status := ''queued''\<rparr>
      | EvJobScheduled \<Rightarrow> st\<lparr>pj_status := ''scheduled'', pj_node := dict_get (sv_payload e) ''node''\<rparr>
      | EvJobStarted \<Rightarrow> st\<lparr>pj_status := ''running''\<rparr>
      | EvJobCompleted \<Rightarrow> st\<lparr>pj_status := ''completed''\<rparr>
      | EvJobFailed \<Rightarrow> st\<lparr>pj_status := ''failed'', pj_error := dict_get (sv_payload e) ''error''\<rparr>
      | EvJobCancelled \<Rightarrow> st\<lparr>pj_status := ''cancelled''\<rparr>
      | _ \<Rightarrow> st)"

definition apply_at :: "sevent \<Rightarrow> pjob \<Rightarrow> pjob" where
  "apply_at e st = apply_event e (st\<lparr>pj_last := sv_tick e\<rparr>)"

definition new_pjob :: "string \<Rightarrow> int \<Rightarrow> pjob" where
  "new_pjob job tick =
     \<lparr>pj_id = job, pj_status = ''unknown'', pj_priority = PInt 0, pj_vram = PFloat (Fin 0), pj_node = PNone, pj_created = tick,
      pj_last = tick, pj_retries = 0, pj_error = PNone\<rparr>"

definition build_state :: "string \<Rightarrow> sstore \<Rightarrow> pjob result" where
  "build_state job s =
     (case get_events_for_aggregate job s of
        [] \<Rightarrow> Inl ValueError
      | e # es \<Rightarrow> Inr (fold apply_at (e # es) (new_pjob job (sv_tick e))))"

text \<open>Every command takes a tick, creates its event and appends it. \<open>uid\<close> and \<open>ns\<close> are the fresh uuid and the clock.\<close>

definition emit :: "string \<Rightarrow> int \<Rightarrow> etype \<Rightarrow> string \<Rightarrow> pydict \<Rightarrow> sstore \<Rightarrow> sstore \<times> sevent result" where
  "emit uid ns ty agg pl s =
     (case next_tick s of
        (s1, tick) \<Rightarrow>
          let e = event_create uid ns ty agg tick pl
          in case ss_append e s1 of (s2, Inl x) \<Rightarrow> (s2, Inl x) | (s2, Inr _) \<Rightarrow> (s2, Inr e))"

datatype command =
    CmdSubmit int rat bool
  | CmdEnqueue
  | CmdSchedule string
  | CmdStart
  | CmdComplete pydict
  | CmdFail string
  | CmdAllocate string rat
  | CmdRelease string

definition command_type :: "command \<Rightarrow> etype" where
  "command_type c =
     (case c of CmdSubmit _ _ _ \<Rightarrow> EvJobSubmitted | CmdEnqueue \<Rightarrow> EvJobQueued | CmdSchedule _ \<Rightarrow> EvJobScheduled | CmdStart \<Rightarrow> EvJobStarted
      | CmdComplete _ \<Rightarrow> EvJobCompleted | CmdFail _ \<Rightarrow> EvJobFailed | CmdAllocate _ _ \<Rightarrow> EvGpuAllocated | CmdRelease _ \<Rightarrow> EvGpuReleased)"

definition command_payload :: "command \<Rightarrow> pydict" where
  "command_payload c =
     (case c of
        CmdSubmit p v g \<Rightarrow> [(''priority'', PInt p), (''vram_gb'', PFloat (Fin v)), (''gpu_required'', PBool g)]
      | CmdSchedule n \<Rightarrow> [(''node'', PStr n)]
      | CmdComplete r \<Rightarrow> [(''result'', PDict r)]
      | CmdFail x \<Rightarrow> [(''error'', PStr x)]
      | CmdAllocate n v \<Rightarrow> [(''node'', PStr n), (''vram_gb'', PFloat (Fin v))]
      | CmdRelease n \<Rightarrow> [(''node'', PStr n)]
      | _ \<Rightarrow> [])"

definition run_command :: "string \<Rightarrow> int \<Rightarrow> string \<Rightarrow> command \<Rightarrow> sstore \<Rightarrow> sstore \<times> sevent result" where
  "run_command uid ns job c s = emit uid ns (command_type c) job (command_payload c) s"

section \<open>Deterministic replay\<close>

record replay_report =
  rr_replayed :: nat
  rr_applied :: nat
  rr_errors :: "int list"
  rr_deterministic :: bool

text \<open>\<open>f\<close> is the caller's function; its state is threaded, and an exception is noted with the tick.\<close>

fun replay_apply :: "(sevent \<Rightarrow> 'a \<Rightarrow> 'a \<times> bool) \<Rightarrow> sevent list \<Rightarrow> 'a \<Rightarrow> 'a \<times> nat \<times> int list" where
  "replay_apply f [] a = (a, 0, [])"
| "replay_apply f (e # es) a =
     (case f e a of
        (b, True) \<Rightarrow> (case replay_apply f es b of (c, n, errs) \<Rightarrow> (c, n + 1, errs))
      | (b, False) \<Rightarrow> (case replay_apply f es b of (c, n, errs) \<Rightarrow> (c, n, sv_tick e # errs)))"

definition replay_and_verify :: "(sevent \<Rightarrow> 'a \<Rightarrow> 'a \<times> bool) \<Rightarrow> int \<Rightarrow> sstore \<Rightarrow> 'a \<Rightarrow> 'a \<times> replay_report" where
  "replay_and_verify f start s a =
     (let es = replay_from_tick (ss_rows s) start
      in case replay_apply f es a of
           (b, n, errs) \<Rightarrow> (b, \<lparr>rr_replayed = length es, rr_applied = n, rr_errors = errs, rr_deterministic = (errs = [])\<rparr>))"

section \<open>Facts\<close>

lemma etype_round_trip: "etype_of_value (etype_value t) = Inr t"
  by (cases t) (simp_all add: etype_of_value_def etype_value_def etype_table_def)

lemma emit_cases:
  assumes "emit uid ns ty agg pl s = (s', r)"
  shows "case r of
      Inr e \<Rightarrow> e = event_create uid ns ty agg (ss_counter s + 1) pl \<and> uid \<notin> sv_id ` set (ss_rows s)
        \<and> s' = \<lparr>ss_rows = ss_rows s @ [e], ss_counter = ss_counter s + 1\<rparr>
    | Inl x \<Rightarrow> x = IntegrityError \<and> uid \<in> sv_id ` set (ss_rows s) \<and> s' = s\<lparr>ss_counter := ss_counter s + 1\<rparr>"
  using assms by (auto simp: emit_def next_tick_def ss_append_def event_create_def Let_def split: if_splits)

text \<open>One process: ticks increase along the rows and never pass the counter.\<close>

definition ticks_ok :: "sstore \<Rightarrow> bool" where
  "ticks_ok s \<longleftrightarrow> sorted_wrt (<) (map sv_tick (ss_rows s)) \<and> (\<forall>e\<in>set (ss_rows s). 1 \<le> sv_tick e \<and> sv_tick e \<le> ss_counter s)
     \<and> distinct (map sv_id (ss_rows s)) \<and> 0 \<le> ss_counter s"

inductive ss_step :: "sstore \<Rightarrow> sstore \<Rightarrow> bool" where
  sst_command: "run_command uid ns job c s = (s', r) \<Longrightarrow> ss_step s s'"

inductive_cases ss_stepE: "ss_step s t"

interpretation evs: transition_system "\<lambda>s. s = ss_open []" ss_step .

lemma ticks_ok_emit:
  assumes "emit uid ns ty agg pl s = (s', r)" and "ticks_ok s"
  shows "ticks_ok s'"
  using emit_cases [OF assms(1)] assms(2)
  by (cases r) (force simp: ticks_ok_def sorted_wrt_append event_create_def)+

lemma evs_reach_ok:
  assumes "evs.reach s"
  shows "ticks_ok s"
proof (rule evs.invariant_reach [OF _ _ assms])
  fix s assume "s = ss_open []"
  then show "ticks_ok s" by (simp add: ticks_ok_def ss_open_def)
next
  fix s t assume "ticks_ok s" and "ss_step s t"
  then show "ticks_ok t" by (auto simp: run_command_def elim!: ss_stepE intro: ticks_ok_emit)
qed

lemma aggregate_in_order:
  assumes "ticks_ok s"
  shows "get_events_for_aggregate job s = filter (\<lambda>e. sv_aggregate e = job) (ss_rows s)"
proof -
  have "sorted (map sv_tick (ss_rows s))" using assms by (auto simp: ticks_ok_def intro: strict_sorted_imp_sorted)
  then have "sorted (map sv_tick (filter (\<lambda>e. sv_aggregate e = job) (ss_rows s)))" by (rule sorted_filter)
  then show ?thesis unfolding get_events_for_aggregate_def by (rule sort_key_id_if_sorted)
qed

section \<open>Replay\<close>

lemma strict_page:
  assumes "sorted_wrt (\<lambda>a b. sv_tick a < sv_tick b) xs" and "take n xs \<noteq> []"
  shows "filter (\<lambda>e. sv_tick (last (take n xs)) + 1 \<le> sv_tick e) xs = drop n xs"
proof -
  let ?p = "take n xs" let ?q = "drop n xs" let ?P = "\<lambda>e. sv_tick (last ?p) + 1 \<le> sv_tick e"
  have w: "sorted_wrt (\<lambda>a b. sv_tick a < sv_tick b) (?p @ ?q)" using assms(1) by simp
  obtain ys l where p: "?p = ys @ [l]" using assms(2) by (metis append_butlast_last_id)
  have "\<not> ?P e" if "e \<in> set ?p" for e
    using w that unfolding p by (auto simp: sorted_wrt_append)
  moreover have "?P e" if "e \<in> set ?q" for e
    using w that unfolding p by (auto simp: sorted_wrt_append)
  ultimately have "filter ?P (?p @ ?q) = ?q" unfolding filter_append by (simp add: filter_empty_conv filter_id_conv)
  then show ?thesis by simp
qed

lemma strict_since:
  assumes "distinct (map sv_tick rs)"
  shows "sorted_wrt (\<lambda>a b. sv_tick a < sv_tick b) (sort_key sv_tick (filter P rs))"
proof -
  let ?xs = "sort_key sv_tick (filter P rs)"
  have "distinct (map sv_tick (filter P rs))" using assms by (rule distinct_map_filter)
  then have "distinct (map sv_tick ?xs)" by (simp add: distinct_map)
  then have "sorted_wrt (<) (map sv_tick ?xs)" by (simp add: strict_sorted_iff)
  then show ?thesis by (simp add: sorted_wrt_map)
qed

lemma since_next:
  assumes "tick \<le> k"
  shows "sort_key sv_tick (filter (\<lambda>e. k + 1 \<le> sv_tick e) rs) =
    filter (\<lambda>e. k + 1 \<le> sv_tick e) (sort_key sv_tick (filter (\<lambda>e. tick \<le> sv_tick e) rs))"
  unfolding filter_sort filter_filter by (rule arg_cong [of _ _ "sort_key sv_tick"], rule filter_cong) (use assms in auto)

lemma replay_all:
  assumes "distinct (map sv_tick rs)"
  shows "replay_from_tick rs tick = sort_key sv_tick (filter (\<lambda>e. tick \<le> sv_tick e) rs)"
  using assms
proof (induction rs tick rule: replay_from_tick.induct)
  case (1 rs tick)
  let ?xs = "sort_key sv_tick (filter (\<lambda>e. tick \<le> sv_tick e) rs)"
  have p: "get_events_since tick PAGE rs = take PAGE ?xs" by (simp add: get_events_since_def)
  show ?case
  proof (cases "take PAGE ?xs = []")
    case True
    then have "?xs = []" by (auto simp: PAGE_def)
    with True p show ?thesis by (subst replay_from_tick.simps) simp
  next
    case False
    let ?k = "sv_tick (last (take PAGE ?xs))"
    have "last (take PAGE ?xs) \<in> set ?xs" using last_in_set [OF False] by (rule in_set_takeD)
    then have "tick \<le> ?k" by auto
    from since_next [OF this, of rs] strict_page [OF strict_since [OF 1(2)] False]
    have "sort_key sv_tick (filter (\<lambda>e. ?k + 1 \<le> sv_tick e) rs) = drop PAGE ?xs" by simp
    with 1(1) [OF p [symmetric]] 1(2) False have "replay_from_tick rs (?k + 1) = drop PAGE ?xs" by simp
    then show ?thesis using False p by (subst replay_from_tick.simps) (simp add: Let_def)
  qed
qed

lemma replay_counts:
  "replay_apply f es a = (b, n, errs) \<Longrightarrow> n + length errs = length es"
  by (induction es arbitrary: a b n errs) (auto split: prod.splits bool.splits)

section \<open>The log refines direct updates\<close>

text \<open>The specification: a table of jobs that each command updates in place, and the number of commands so far.\<close>

type_synonym job_spec = "int \<times> (string \<Rightarrow> pjob option)"

definition spec_apply :: "command \<Rightarrow> int \<Rightarrow> pjob \<Rightarrow> pjob" where
  "spec_apply c n st =
     (let st' = st\<lparr>pj_last := n\<rparr>
      in case c of
           CmdSubmit p v g \<Rightarrow> st'\<lparr>pj_status := ''submitted'', pj_priority := PInt p, pj_vram := PFloat (Fin v)\<rparr>
         | CmdEnqueue \<Rightarrow> st'\<lparr>pj_status := ''queued''\<rparr>
         | CmdSchedule node \<Rightarrow> st'\<lparr>pj_status := ''scheduled'', pj_node := PStr node\<rparr>
         | CmdStart \<Rightarrow> st'\<lparr>pj_status := ''running''\<rparr>
         | CmdComplete _ \<Rightarrow> st'\<lparr>pj_status := ''completed''\<rparr>
         | CmdFail x \<Rightarrow> st'\<lparr>pj_status := ''failed'', pj_error := PStr x\<rparr>
         | CmdAllocate _ _ \<Rightarrow> st'
         | CmdRelease _ \<Rightarrow> st')"

definition spec_command :: "string \<Rightarrow> command \<Rightarrow> job_spec \<Rightarrow> job_spec" where
  "spec_command job c a =
     (let n = fst a + 1
      in (n, (snd a)(job \<mapsto> spec_apply c n (case snd a job of None \<Rightarrow> new_pjob job n | Some st \<Rightarrow> st))))"

inductive spec_step :: "job_spec \<Rightarrow> job_spec \<Rightarrow> bool" where
  sp_command: "spec_step a (spec_command job c a)"
| sp_refused: "spec_step (n, f) (n + 1, f)"

definition job_view :: "sstore \<Rightarrow> string \<Rightarrow> pjob option" where
  "job_view s job = (case build_state job s of Inl _ \<Rightarrow> None | Inr st \<Rightarrow> Some st)"

lemma job_view_rows:
  assumes "ticks_ok s"
  shows "job_view s job = (case filter (\<lambda>e. sv_aggregate e = job) (ss_rows s) of
      [] \<Rightarrow> None | e # es \<Rightarrow> Some (fold apply_at (e # es) (new_pjob job (sv_tick e))))"
  by (auto simp: job_view_def build_state_def aggregate_in_order [OF assms] split: list.splits)

lemma apply_at_command:
  "apply_at (event_create uid ns (command_type c) job n (command_payload c)) st = spec_apply c n st"
  by (cases c) (simp_all add: apply_at_def apply_event_def event_create_def command_type_def command_payload_def spec_apply_def
      get_or_def dict_get_def Let_def)

lemma event_create_simps [simp]:
  "sv_aggregate (event_create uid ns ty agg n pl) = agg" "sv_tick (event_create uid ns ty agg n pl) = n"
  "sv_id (event_create uid ns ty agg n pl) = uid"
  by (simp_all add: event_create_def)

lemma job_view_append:
  assumes "ticks_ok s" and "ticks_ok s'" and "ss_rows s' = ss_rows s @ [e]" and "sv_aggregate e = job" and "sv_tick e = n"
  shows "job_view s' = (job_view s)(job \<mapsto> apply_at e (case job_view s job of None \<Rightarrow> new_pjob job n | Some st \<Rightarrow> st))"
  using assms(4,5) by (intro ext) (auto simp: job_view_rows [OF assms(1)] job_view_rows [OF assms(2)] assms(3) split: list.splits)

lemma command_refines:
  assumes "ticks_ok s" and "run_command uid ns job c s = (s', Inr e)"
  shows "(ss_counter s', job_view s') = spec_command job c (ss_counter s, job_view s)"
proof -
  let ?e = "event_create uid ns (command_type c) job (ss_counter s + 1) (command_payload c)"
  from emit_cases [OF assms(2) [unfolded run_command_def]]
  have s': "s' = \<lparr>ss_rows = ss_rows s @ [?e], ss_counter = ss_counter s + 1\<rparr>" by simp
  have "ticks_ok s'" using ticks_ok_emit [OF assms(2) [unfolded run_command_def] assms(1)] .
  from job_view_append [OF assms(1) this, of ?e job "ss_counter s + 1"] s' show ?thesis
    by (simp add: spec_command_def Let_def apply_at_command)
qed

lemma refused_refines:
  assumes "ticks_ok s" and "run_command uid ns job c s = (s', Inl x)"
  shows "ss_counter s' = ss_counter s + 1 \<and> job_view s' = job_view s"
  using emit_cases [OF assms(2) [unfolded run_command_def]]
  by (simp add: fun_eq_iff job_view_def build_state_def get_events_for_aggregate_def)

interpretation es_ref: simulation "\<lambda>s. s = ss_open []" ss_step "\<lambda>a. a = (0, \<lambda>_. None)" spec_step
  "\<lambda>s a. a = (ss_counter s, job_view s)"
proof unfold_locales
  fix s assume "s = ss_open []"
  then show "\<exists>a. a = (0, \<lambda>_. None) \<and> a = (ss_counter s, job_view s)"
    by (simp add: ss_open_def job_view_def build_state_def get_events_for_aggregate_def fun_eq_iff)
next
  fix s a t assume r: "evs.reach s" and a: "a = (ss_counter s, job_view s)" and st: "ss_step s t"
  have ok: "ticks_ok s" by (rule evs_reach_ok) (rule r)
  from st obtain uid ns job c res where run: "run_command uid ns job c s = (t, res)" by (auto elim: ss_stepE)
  have "spec_step a (ss_counter t, job_view t)"
  proof (cases res)
    case (Inl x)
    with refused_refines [OF ok run [unfolded Inl]] a show ?thesis by (auto intro: sp_refused)
  next
    case (Inr e)
    from command_refines [OF ok run [unfolded Inr]] a show ?thesis by (metis sp_command)
  qed
  then show "\<exists>b. transition_system.path spec_step a b \<and> b = (ss_counter t, job_view t)"
    by (auto intro: transition_system.path.intros)
qed

text \<open>The declared types of a projected state's fields, and the statuses a job can have.\<close>

definition JOB_STATUSES :: "string list" where
  "JOB_STATUSES = [''unknown'', ''submitted'', ''queued'', ''scheduled'', ''running'', ''completed'', ''failed'']"

definition pjob_typed :: "pjob \<Rightarrow> bool" where
  "pjob_typed st \<longleftrightarrow> pj_status st \<in> set JOB_STATUSES \<and> (\<exists>p. pj_priority st = PInt p) \<and> (\<exists>v. pj_vram st = PFloat (Fin v))
     \<and> (pj_node st = PNone \<or> (\<exists>n. pj_node st = PStr n)) \<and> (pj_error st = PNone \<or> (\<exists>x. pj_error st = PStr x)) \<and> pj_retries st = 0"

definition spec_wf :: "job_spec \<Rightarrow> bool" where
  "spec_wf a \<longleftrightarrow> 0 \<le> fst a \<and> (\<forall>job st. snd a job = Some st \<longrightarrow>
     pj_id st = job \<and> 1 \<le> pj_created st \<and> pj_created st \<le> pj_last st \<and> pj_last st \<le> fst a \<and> pjob_typed st)"

lemma spec_apply_simps [simp]:
  "pj_id (spec_apply c n st) = pj_id st" "pj_created (spec_apply c n st) = pj_created st" "pj_last (spec_apply c n st) = n"
  by (cases c; simp add: spec_apply_def Let_def)+

lemma new_pjob_ticks: "pj_id (new_pjob job n) = job" "pj_created (new_pjob job n) = n" "pj_last (new_pjob job n) = n"
  by (simp_all add: new_pjob_def)

lemma pjob_typed_new [simp]: "pjob_typed (new_pjob job n)"
  by (simp add: pjob_typed_def new_pjob_def JOB_STATUSES_def)

lemma pjob_typed_apply: "pjob_typed st \<Longrightarrow> pjob_typed (spec_apply c n st)"
  by (cases c) (auto simp: pjob_typed_def spec_apply_def JOB_STATUSES_def Let_def)

lemma spec_wf_command: "spec_wf a \<Longrightarrow> spec_wf (spec_command job c a)"
  by (cases "snd a job") (force simp: spec_wf_def spec_command_def pjob_typed_apply new_pjob_ticks Let_def)+

lemma spec_reach_wf:
  assumes "transition_system.reach (\<lambda>a. a = (0, \<lambda>_. None)) spec_step a"
  shows "spec_wf a"
proof (rule transition_system.invariant_reach [OF _ _ assms])
  fix a b assume "spec_wf a" and "spec_step a b"
  from this(2,1) show "spec_wf b" by cases (auto simp: spec_wf_command, force simp: spec_wf_def)
qed (simp add: spec_wf_def)

section \<open>Restarts, equal ticks and failing batches\<close>

text \<open>A process that opens a store with events starts its ticks at 1 again, whatever the log holds.\<close>

lemma restart_first_tick:
  assumes "uid \<notin> sv_id ` set rs"
  shows "snd (run_command uid ns job c (ss_open rs)) = Inr (event_create uid ns (command_type c) job 1 (command_payload c))"
  using assms by (simp add: run_command_def emit_def next_tick_def ss_append_def ss_open_def Let_def)

text \<open>So a job cancelled or finished at tick 2 stays so: the command of the restarted process is read before it.\<close>

lemma restart_reorders:
  "let s1 = fst (run_command ''b'' 0 ''j'' (CmdFail ''x'') (fst (run_command ''a'' 0 ''j'' CmdStart (ss_open []))));
       s2 = fst (run_command ''c'' 0 ''j'' (CmdComplete []) (ss_open (ss_rows s1)))
   in map sv_id (get_events_for_aggregate ''j'' s2) = [''a'', ''c'', ''b''] \<and>
      map_option pj_status (job_view s2 ''j'') = Some ''failed''"
  by (code_simp)

lemma replay_equal_ticks:
  assumes "\<forall>e\<in>set rs. sv_tick e = k" and "tick \<le> k"
  shows "replay_from_tick rs tick = take PAGE rs"
proof -
  have f: "filter (\<lambda>e. tick \<le> sv_tick e) rs = rs" using assms by (simp add: filter_id_conv)
  have "sort_key sv_tick rs = rs"
    by (rule sort_key_id_if_sorted) (use assms(1) in \<open>auto simp: sorted_wrt_iff_nth_less\<close>)
  then have p: "get_events_since tick PAGE rs = take PAGE rs" by (simp add: get_events_since_def f)
  show ?thesis
  proof (cases "take PAGE rs = []")
    case False
    then have "last (take PAGE rs) \<in> set rs" by (metis last_in_set in_set_takeD)
    then have l: "sv_tick (last (take PAGE rs)) = k" using assms(1) by blast
    have "filter (\<lambda>e. k + 1 \<le> sv_tick e) rs = []" using assms(1) by (auto simp: filter_empty_conv)
    then have "replay_from_tick rs (k + 1) = []"
      by (subst replay_from_tick.simps) (simp add: get_events_since_def)
    then show ?thesis using False by (subst replay_from_tick.simps) (simp add: p l Let_def)
  qed (subst replay_from_tick.simps, simp add: p)
qed

text \<open>A batch that meets an id it cannot insert keeps the rows before it.\<close>

lemma batch_prefix:
  "ss_append_batch es s = (s', r) \<Longrightarrow>
     \<exists>n. ss_rows s' = ss_rows s @ take n es \<and> (r = Inr () \<longleftrightarrow> length es \<le> n)
       \<and> (n < length es \<longrightarrow> sv_id (es ! n) \<in> sv_id ` (set (ss_rows s) \<union> set (take n es)))"
proof (induction es arbitrary: s)
  case (Cons e es)
  show ?case
  proof (cases "sv_id e \<in> sv_id ` set (ss_rows s)")
    case True
    with Cons.prems have "s' = s" "r = Inl IntegrityError" by (auto simp: ss_append_def)
    then show ?thesis using True by (intro exI [of _ 0]) simp
  next
    case False
    let ?t = "s\<lparr>ss_rows := ss_rows s @ [e]\<rparr>"
    from False Cons.prems have "ss_append_batch es ?t = (s', r)" by (simp add: ss_append_def)
    from Cons.IH [OF this] obtain n where n: "ss_rows s' = ss_rows ?t @ take n es" "r = Inr () \<longleftrightarrow> length es \<le> n"
      "n < length es \<longrightarrow> sv_id (es ! n) \<in> sv_id ` (set (ss_rows ?t) \<union> set (take n es))"
      by (elim exE conjE) (rule that)
    then show ?thesis by (intro exI [of _ "Suc n"]) auto
  qed
qed auto

section \<open>Properties\<close>

text \<open>C17: The event log implements a table of jobs: in every state a process reaches, running a command changes the states
  projected from the log exactly as the command updates a table in place, when its event id is new; a command whose id is taken
  changes no projected state and only uses up a tick.\<close>

theorem projection_refines_table:
  assumes "evs.reach s" and "run_command uid ns job c s = (s', r)"
  shows "if uid \<in> sv_id ` set (ss_rows s) then r = Inl IntegrityError \<and> ss_counter s' = ss_counter s + 1 \<and> job_view s' = job_view s
    else is_ok r \<and> (ss_counter s', job_view s') = spec_command job c (ss_counter s, job_view s)"
proof (cases r)
  case (Inl x)
  with emit_cases [OF assms(2) [unfolded run_command_def]] have "uid \<in> sv_id ` set (ss_rows s)" "x = IntegrityError" by simp_all
  with refused_refines [OF evs_reach_ok [OF assms(1)] assms(2) [unfolded Inl]] Inl show ?thesis by simp
next
  case (Inr e)
  with emit_cases [OF assms(2) [unfolded run_command_def]] have "uid \<notin> sv_id ` set (ss_rows s)" by simp
  with command_refines [OF evs_reach_ok [OF assms(1)] assms(2) [unfolded Inr]] Inr show ?thesis by simp
qed

theorem projection_refines_table_witness:
  "let s' = fst (run_command ''u'' 0 ''j'' CmdStart (ss_open [])) in
   (ss_counter s', job_view s') = spec_command ''j'' CmdStart (0, job_view (ss_open []))"
  using projection_refines_table [OF evs.reach_init [OF refl] surjective_pairing, of "''u''" 0 "''j''" CmdStart] by (simp add: ss_open_def)

text \<open>C36: Every job state projected from the log of one process is well typed: it is the state of the job asked for, its status is one
  of the lifecycle, priority and memory are numbers, node and error are texts or absent, it was created no later than its last event,
  and that event's tick is one the counter has given out.\<close>

theorem projected_states_typed:
  assumes "evs.reach s" and "build_state job s = Inr st"
  shows "pj_id st = job \<and> pjob_typed st \<and> 1 \<le> pj_created st \<and> pj_created st \<le> pj_last st \<and> pj_last st \<le> ss_counter s"
proof -
  have "spec_wf (ss_counter s, job_view s)"
    by (rule es_ref.invariant_sim [OF assms(1) spec_reach_wf]) simp_all
  moreover have "job_view s job = Some st" using assms(2) by (simp add: job_view_def)
  ultimately show ?thesis by (simp add: spec_wf_def)
qed

theorem projected_states_typed_witness:
  "let s = fst (run_command ''u'' 0 ''j'' CmdStart (ss_open [])) in
   \<exists>st. build_state ''j'' s = Inr st \<and> pj_id st = ''j'' \<and> pjob_typed st \<and> pj_last st \<le> ss_counter s"
proof -
  let ?s = "fst (run_command ''u'' 0 ''j'' CmdStart (ss_open []))"
  have "ss_step (ss_open []) ?s" by (rule sst_command [where r = "snd (run_command ''u'' 0 ''j'' CmdStart (ss_open []))"]) simp
  then have r: "evs.reach ?s" by (auto intro: evs.reach_step evs.reach_init)
  have "is_ok (build_state ''j'' ?s)" by code_simp
  then obtain st where "build_state ''j'' ?s = Inr st" by (cases "build_state ''j'' ?s") auto
  with projected_states_typed [OF r this] show ?thesis by (auto simp: Let_def)
qed

text \<open>An event survives its trip through JSON: reading what \<open>to_json\<close> wrote gives the event back, for every event type.\<close>

theorem event_json_round_trip: "event_from_json (event_to_json e) = Inr e"
  by (simp add: event_to_json_def event_from_json_def dict_get_def etype_round_trip)

text \<open>Replay from a tick ends and, when no two events share a tick, yields exactly the events at or after it, each once and
  in tick order, however many pages of 100 it reads.\<close>

theorem replay_complete:
  assumes "distinct (map sv_tick rs)"
  shows "replay_from_tick rs tick = sort_key sv_tick (filter (\<lambda>e. tick \<le> sv_tick e) rs)"
  using assms by (rule replay_all)

theorem replay_complete_witness:
  "map sv_id (replay_from_tick [event_create ''b'' 0 EvJobStarted ''j'' 2 [], event_create ''a'' 0 EvJobQueued ''j'' 1 [],
     event_create ''c'' 0 EvJobFailed ''k'' 3 []] 2) = [''b'', ''c'']"
  by (subst replay_complete) (simp_all add: event_create_def)

text \<open>Events that share one tick are replayed up to the page size only: of the rows of one tick, replay yields the first
  hundred and never the others.\<close>

theorem replay_drops_equal_ticks:
  assumes "\<forall>e\<in>set rs. sv_tick e = k" and "tick \<le> k"
  shows "length (replay_from_tick rs tick) = min 100 (length rs)"
  using replay_equal_ticks [OF assms] by (simp add: PAGE_def min.commute)

theorem replay_drops_equal_ticks_witness:
  "length (replay_from_tick (replicate 101 (event_create ''a'' 0 EvJobQueued ''j'' 1 [])) 0) = min 100 (length (replicate 101 (event_create ''a'' 0 EvJobQueued ''j'' 1 [])))"
  by (rule replay_drops_equal_ticks [where k = 1]) simp_all

end
