(* ===== verification/HighAvailability.thy ===== *)
theory HighAvailability
  imports Prelude
begin

text \<open>
  Leader election, replication and split-brain protection: \<open>src/ha/raft_consensus.py\<close>, \<open>leader_election.py\<close>,
  \<open>replicated_event_store.py\<close>, \<open>split_brain_protection.py\<close>.

  The remote calls of the Raft node are random draws in the code; here each loop takes an oracle that gives the answer of
  the peer at a position. Times are rationals. \<open>elect_leader\<close> starts one thread per node and reads the roles
  0.1 s later; the threads share no state and do not block, and the model lets all of them finish first.

  Shown: a leader has a majority of the cluster's votes, committed entries were acknowledged by a majority, and with one vote
  per node there is one leader; the replicated store commits up to its last quorum write and never backwards; two halves of a
  cluster cannot both write. Also shown: one node alone is never elected, two nodes can lead the same
  term, a non-leader keeps what it refused, a snapshot makes indices repeat, \<open>get_state\<close> of a leader never returns.
\<close>

section \<open>Quorums\<close>

text \<open>Any two quorums meet; so when each member backs one value, two backed values are equal.\<close>

locale quorum_system =
  fixes quorum :: "'n set \<Rightarrow> bool"
  assumes quorums_meet: "quorum p \<Longrightarrow> quorum q \<Longrightarrow> p \<inter> q \<noteq> {}"
begin

lemma one_value:
  assumes "quorum p" and "quorum q" and "\<And>n. n \<in> p \<Longrightarrow> vote n = x" and "\<And>n. n \<in> q \<Longrightarrow> vote n = y"
  shows "x = y"
proof -
  obtain n where "n \<in> p" "n \<in> q" using quorums_meet [OF assms(1,2)] by blast
  with assms(3) [of n] assms(4) [of n] show ?thesis by simp
qed

lemma not_disjoint: "quorum p \<Longrightarrow> quorum q \<Longrightarrow> \<not> (p \<inter> q = {})"
  using quorums_meet by blast

end

definition majority_of :: "nat \<Rightarrow> nat" where
  "majority_of n = n div 2 + 1"

definition is_majority_of :: "'n set \<Rightarrow> 'n set \<Rightarrow> bool" where
  "is_majority_of nodes q \<longleftrightarrow> finite nodes \<and> q \<subseteq> nodes \<and> majority_of (card nodes) \<le> card q"

interpretation majorities: quorum_system "is_majority_of nodes" for nodes :: "'n set"
proof unfold_locales
  fix p q :: "'n set" assume a: "is_majority_of nodes p" "is_majority_of nodes q"
  show "p \<inter> q \<noteq> {}"
  proof
    assume d: "p \<inter> q = {}"
    have "finite p" "finite q" using a unfolding is_majority_of_def by (auto intro: finite_subset)
    then have "card p + card q = card (p \<union> q)" using d by (simp add: card_Un_disjoint)
    also have "\<dots> \<le> card nodes" using a unfolding is_majority_of_def by (intro card_mono) auto
    finally show False using a unfolding is_majority_of_def majority_of_def by linarith
  qed
qed

section \<open>The Raft node\<close>

record raft_entry =
  re_index :: nat
  re_term :: nat
  re_command :: pydict
  re_committed :: bool

datatype role = Follower | Candidate | Leader

record raft =
  rn_id :: string
  rn_cluster :: "string list"
  rn_role :: role
  rn_term :: nat
  rn_voted_for :: "string option"
  rn_log :: "raft_entry list"
  rn_commit :: nat
  rn_applied :: nat
  rn_contact :: rat
  rn_alive :: bool
  rn_match :: "(string \<times> nat) list"
  rn_next :: "(string \<times> nat) list"
  rn_voted :: "string set"
  rn_on_apply :: "nat list option"

text \<open>\<open>rn_on_apply\<close>: no callback, or the indices it was called with.\<close>

definition raft_init :: "rat \<Rightarrow> string \<Rightarrow> string list \<Rightarrow> raft" where
  "raft_init now me cluster =
     \<lparr>rn_id = me, rn_cluster = cluster, rn_role = Follower, rn_term = 0, rn_voted_for = None, rn_log = [], rn_commit = 0, rn_applied = 0,
      rn_contact = now, rn_alive = True, rn_match = fold (\<lambda>n. AList.update n 0) cluster [],
      rn_next = fold (\<lambda>n. AList.update n 1) cluster [], rn_voted = {}, rn_on_apply = None\<rparr>"

definition raft_needed :: "raft \<Rightarrow> nat" where
  "raft_needed r = length (rn_cluster r) div 2 + 1"

text \<open>The loop over the peers: the majority is tested after each vote granted by another node.\<close>

fun collect_votes :: "string \<Rightarrow> nat \<Rightarrow> (nat \<Rightarrow> bool) \<Rightarrow> nat \<Rightarrow> string list \<Rightarrow> string set \<Rightarrow> string set \<times> bool" where
  "collect_votes me needed grant k [] votes = (votes, False)"
| "collect_votes me needed grant k (p # ps) votes =
     (if p = me then collect_votes me needed grant (k + 1) ps votes
      else if grant k then
        (let votes' = insert p votes
         in if needed \<le> card votes' then (votes', True) else collect_votes me needed grant (k + 1) ps votes')
      else collect_votes me needed grant (k + 1) ps votes)"

definition become_leader :: "rat \<Rightarrow> raft \<Rightarrow> raft" where
  "become_leader now r =
     r\<lparr>rn_role := Leader, rn_contact := now,
       rn_next := fold (\<lambda>n. AList.update n (length (rn_log r) + 1)) (rn_cluster r) (rn_next r),
       rn_match := fold (\<lambda>n. AList.update n 0) (rn_cluster r) (rn_match r)\<rparr>"

definition start_election :: "rat \<Rightarrow> (nat \<Rightarrow> bool) \<Rightarrow> raft \<Rightarrow> raft \<times> bool" where
  "start_election now grant r =
     (let r1 = r\<lparr>rn_role := Candidate, rn_term := rn_term r + 1, rn_voted_for := Some (rn_id r), rn_voted := insert (rn_id r) (rn_voted r)\<rparr>
      in if snd (collect_votes (rn_id r) (raft_needed r) grant 0 (rn_cluster r) {rn_id r}) then (become_leader now r1, True) else (r1, False))"

text \<open>\<open>_send_append_entries\<close>: the match index is written before the answer is known.\<close>

definition send_append_entries :: "string \<Rightarrow> nat \<Rightarrow> bool \<Rightarrow> raft \<Rightarrow> raft \<times> bool result" where
  "send_append_entries peer idx ack r =
     (case map_of (rn_next r) peer of
        None \<Rightarrow> (r, Inl KeyError)
      | Some n \<Rightarrow>
          if n > length (rn_log r) then (r, Inr False)
          else (r\<lparr>rn_match := AList.update peer idx (rn_match r)\<rparr>, Inr ack))"

fun replicate_entries :: "nat \<Rightarrow> (nat \<Rightarrow> bool) \<Rightarrow> nat \<Rightarrow> string list \<Rightarrow> string set \<Rightarrow> raft \<Rightarrow> raft \<times> string set result" where
  "replicate_entries idx ack k [] got r = (r, Inr got)"
| "replicate_entries idx ack k (p # ps) got r =
     (if p = rn_id r then replicate_entries idx ack (k + 1) ps got r
      else case send_append_entries p idx (ack k) r of
             (r', Inl x) \<Rightarrow> (r', Inl x)
           | (r', Inr b) \<Rightarrow> replicate_entries idx ack (k + 1) ps (if b then insert p got else got) r')"

definition commit_upto :: "nat \<Rightarrow> raft \<Rightarrow> raft" where
  "commit_upto idx r =
     r\<lparr>rn_log := map (\<lambda>e. if re_index e \<le> idx then e\<lparr>re_committed := True\<rparr> else e) (rn_log r), rn_commit := idx,
       rn_on_apply := map_option (\<lambda>cs. cs @ [idx]) (rn_on_apply r)\<rparr>"

definition replicate_and_commit :: "nat \<Rightarrow> (nat \<Rightarrow> bool) \<Rightarrow> raft \<Rightarrow> raft \<times> bool result" where
  "replicate_and_commit idx ack r =
     (if rn_role r \<noteq> Leader then (r, Inr False)
      else case replicate_entries idx ack 0 (rn_cluster r) {rn_id r} r of
             (r', Inl x) \<Rightarrow> (r', Inl x)
           | (r', Inr got) \<Rightarrow> if raft_needed r' \<le> card got then (commit_upto idx r', Inr True) else (r', Inr False))"

definition raft_append_entry :: "pydict \<Rightarrow> (nat \<Rightarrow> bool) \<Rightarrow> raft \<Rightarrow> raft \<times> bool result" where
  "raft_append_entry cmd ack r =
     (let e = \<lparr>re_index = length (rn_log r) + 1, re_term = rn_term r, re_command = cmd, re_committed = False\<rparr>
      in replicate_and_commit (re_index e) ack (r\<lparr>rn_log := rn_log r @ [e]\<rparr>))"

definition add_node :: "string \<Rightarrow> raft \<Rightarrow> raft \<times> bool" where
  "add_node n r =
     (if rn_role r \<noteq> Leader then (r, False)
      else if n \<in> set (rn_cluster r) then (r, False)
      else (r\<lparr>rn_cluster := rn_cluster r @ [n], rn_next := AList.update n 1 (rn_next r), rn_match := AList.update n 0 (rn_match r)\<rparr>, True))"

text \<open>\<open>remove_node\<close>: \<open>del\<close> raises for a missing key, with the members already changed.\<close>

definition remove_node :: "string \<Rightarrow> raft \<Rightarrow> raft \<times> bool result" where
  "remove_node n r =
     (if rn_role r \<noteq> Leader then (r, Inr False)
      else if n = rn_id r then (r, Inr False)
      else if n \<notin> set (rn_cluster r) then (r, Inr False)
      else let r1 = r\<lparr>rn_cluster := remove1 n (rn_cluster r)\<rparr>
           in if n \<notin> fst ` set (rn_next r1) then (r1, Inl KeyError)
              else let r2 = r1\<lparr>rn_next := AList.delete n (rn_next r1)\<rparr>
                   in if n \<notin> fst ` set (rn_match r2) then (r2, Inl KeyError)
                      else (r2\<lparr>rn_match := AList.delete n (rn_match r2)\<rparr>, Inr True))"

definition raft_snapshot :: "nat \<Rightarrow> raft \<Rightarrow> raft \<times> bool" where
  "raft_snapshot idx r =
     (if idx \<le> rn_commit r then (r\<lparr>rn_log := filter (\<lambda>e. idx \<le> re_index e) (rn_log r), rn_applied := idx\<rparr>, True) else (r, False))"

record raft_status =
  rst_id :: string
  rst_role :: role
  rst_term :: nat
  rst_commit :: nat
  rst_log_length :: nat
  rst_cluster_size :: nat
  rst_alive :: bool

definition raft_get_status :: "raft \<Rightarrow> raft_status" where
  "raft_get_status r =
     \<lparr>rst_id = rn_id r, rst_role = rn_role r, rst_term = rn_term r, rst_commit = rn_commit r, rst_log_length = length (rn_log r),
      rst_cluster_size = length (rn_cluster r), rst_alive = rn_alive r\<rparr>"

section \<open>The Raft cluster\<close>

record raft_cluster =
  rc_nodes :: "(string \<times> raft) list"
  rc_leader :: "string option"

definition cluster_init :: "rat \<Rightarrow> string list \<Rightarrow> raft_cluster" where
  "cluster_init now ids = \<lparr>rc_nodes = fold (\<lambda>i. AList.update i (raft_init now i ids)) ids [], rc_leader = None\<rparr>"

definition elect_leader :: "rat \<Rightarrow> (string \<Rightarrow> nat \<Rightarrow> bool) \<Rightarrow> raft_cluster \<Rightarrow> raft_cluster \<times> string option" where
  "elect_leader now grant c =
     (let ns = map (\<lambda>(i, r). (i, fst (start_election now (grant i) r))) (rc_nodes c)
      in case List.find (\<lambda>(i, r). rn_role r = Leader) ns of
           None \<Rightarrow> (c\<lparr>rc_nodes := ns\<rparr>, None)
         | Some (i, r) \<Rightarrow> (c\<lparr>rc_nodes := ns, rc_leader := Some i\<rparr>, Some i))"

definition cluster_append :: "pydict \<Rightarrow> (nat \<Rightarrow> bool) \<Rightarrow> raft_cluster \<Rightarrow> raft_cluster \<times> bool result" where
  "cluster_append cmd ack c =
     (case rc_leader c of
        None \<Rightarrow> (c, Inr False)
      | Some i \<Rightarrow>
          if i = [] then (c, Inr False)
          else case map_of (rc_nodes c) i of
                 None \<Rightarrow> (c, Inl KeyError)
               | Some r \<Rightarrow> (case raft_append_entry cmd ack r of (r', res) \<Rightarrow> (c\<lparr>rc_nodes := AList.update i r' (rc_nodes c)\<rparr>, res)))"

section \<open>Leader lease\<close>

record leader_lease =
  le_id :: string
  le_term :: nat
  le_leader :: "string option"
  le_end :: rat
  le_is_leader :: bool

definition LEASE_TTL_SEC :: rat where "LEASE_TTL_SEC = 10"

definition le_init :: "string \<Rightarrow> leader_lease" where
  "le_init me = \<lparr>le_id = me, le_term = 0, le_leader = None, le_end = 0, le_is_leader = False\<rparr>"

definition try_acquire_leadership :: "rat \<Rightarrow> leader_lease \<Rightarrow> leader_lease \<times> bool" where
  "try_acquire_leadership now l =
     (l\<lparr>le_term := le_term l + 1, le_leader := Some (le_id l), le_end := now + LEASE_TTL_SEC, le_is_leader := True\<rparr>, True)"

definition is_leader_valid :: "rat \<Rightarrow> leader_lease \<Rightarrow> leader_lease \<times> bool" where
  "is_leader_valid now l =
     (if \<not> le_is_leader l then (l, False)
      else if now > le_end l then (l\<lparr>le_is_leader := False\<rparr>, False)
      else (l, True))"

definition le_renew :: "rat \<Rightarrow> leader_lease \<Rightarrow> leader_lease \<times> bool" where
  "le_renew now l =
     (if \<not> le_is_leader l \<or> le_leader l \<noteq> Some (le_id l) then (l, False)
      else (l\<lparr>le_end := now + LEASE_TTL_SEC, le_term := le_term l + 1\<rparr>, True))"

definition le_resign :: "leader_lease \<Rightarrow> leader_lease" where
  "le_resign l = l\<lparr>le_is_leader := False, le_leader := None\<rparr>"

text \<open>
  \<open>get_state\<close> holds the node's lock, which is not reentrant, and calls \<open>is_leader_valid\<close>, which takes it: \<open>None\<close> is the
  call that never returns.
\<close>

definition le_get_state :: "leader_lease \<Rightarrow> (leader_lease \<times> bool) option" where
  "le_get_state l = (if le_is_leader l then None else Some (l, False))"

section \<open>Replicated event store\<close>

record replica =
  rp_id :: string
  rp_committed :: nat
  rp_heartbeat :: rat
  rp_alive :: bool

record rstore =
  rs_replicas :: "replica list"
  rs_local :: nat
  rs_commit :: nat
  rs_events :: "pydict list"
  rs_quorum :: nat

definition rs_init :: "(nat \<Rightarrow> string) \<Rightarrow> nat \<Rightarrow> rstore" where
  "rs_init name n =
     \<lparr>rs_replicas = map (\<lambda>i. \<lparr>rp_id = name i, rp_committed = 0, rp_heartbeat = 0, rp_alive = True\<rparr>) [0..<n],
      rs_local = 0, rs_commit = 0, rs_events = [], rs_quorum = n div 2 + 1\<rparr>"

definition alive_replicas :: "rstore \<Rightarrow> nat" where
  "alive_replicas s = length (filter rp_alive (rs_replicas s))"

definition try_commit :: "nat \<Rightarrow> rstore \<Rightarrow> nat" where
  "try_commit idx s = (if rs_quorum s \<le> alive_replicas s then idx else max 0 (rs_commit s))"

definition rs_write :: "pydict \<Rightarrow> rstore \<Rightarrow> rstore \<times> nat \<times> nat \<times> bool" where
  "rs_write ev s =
     (let idx = rs_local s + 1; c = try_commit idx s
      in (s\<lparr>rs_local := idx, rs_commit := c,
            rs_events := rs_events s @ [AList.update ''commit_index'' (PInt (int c)) (AList.update ''index'' (PInt (int idx)) ev)]\<rparr>,
          (idx, c, c \<ge> idx)))"

definition rs_ready :: "rstore \<Rightarrow> bool" where
  "rs_ready s = (rs_commit s = rs_local s)"

section \<open>Split-brain protection\<close>

record brain =
  sb_majority :: nat
  sb_seen :: "(string \<times> rat \<times> bool) list"
  sb_active :: "string set"

definition sb_init :: "nat \<Rightarrow> brain" where
  "sb_init n = \<lparr>sb_majority = n div 2 + 1, sb_seen = [], sb_active = {}\<rparr>"

definition register_heartbeat :: "rat \<Rightarrow> string \<Rightarrow> brain \<Rightarrow> brain \<times> bool" where
  "register_heartbeat now n b =
     (let seen = AList.update n (now, True) (sb_seen b);
          act = set (map fst (filter (\<lambda>(m, t, alive). alive \<and> now - t < 15) seen))
      in (b\<lparr>sb_seen := seen, sb_active := act\<rparr>, sb_majority b \<le> card act))"

definition can_write :: "brain \<Rightarrow> bool" where
  "can_write b = (sb_majority b \<le> card (sb_active b))"

section \<open>Elections\<close>

lemma collect_votes_sound:
  assumes "collect_votes me needed grant k ps votes = (v, True)" and "finite votes"
  shows "needed \<le> card v \<and> votes \<subseteq> v \<and> (\<forall>n\<in>v - votes. \<exists>i<length ps. ps ! i = n \<and> grant (k + i))"
  using assms
proof (induction me needed grant k ps votes rule: collect_votes.induct)
  case (2 me needed grant k p ps votes)
  have shift: "\<exists>i<length (p # ps). (p # ps) ! i = n \<and> grant (k + i)"
    if "\<exists>i<length ps. ps ! i = n \<and> grant (k + 1 + i)" for n
    using that by (elim exE, rule_tac x = "Suc i" in exI) simp
  show ?case
  proof (cases "p = me \<or> \<not> grant k")
    case True
    with 2 have "needed \<le> card v \<and> votes \<subseteq> v \<and> (\<forall>n\<in>v - votes. \<exists>i<length ps. ps ! i = n \<and> grant (k + 1 + i))"
      by (cases "p = me") simp_all
    with shift show ?thesis by blast
  next
    case False
    have here: "\<exists>i<length (p # ps). (p # ps) ! i = p \<and> grant (k + i)" using False by (intro exI [of _ 0]) simp
    show ?thesis
    proof (cases "needed \<le> card (insert p votes)")
      case True
      with False 2(4) have "v = insert p votes" by (simp add: Let_def)
      with True here show ?thesis by blast
    next
      case n: False
      from 2(2) [OF _ _ refl n] False 2(4,5) n
      have ih: "needed \<le> card v \<and> insert p votes \<subseteq> v \<and> (\<forall>n\<in>v - insert p votes. \<exists>i<length ps. ps ! i = n \<and> grant (k + 1 + i))"
        by (simp add: Let_def)
      have "\<exists>i<length (p # ps). (p # ps) ! i = n \<and> grant (k + i)" if "n \<in> v - votes" for n
        using ih here shift that by (cases "n = p") blast+
      with ih show ?thesis by blast
    qed
  qed
qed simp

text \<open>The votes behind a win: the candidate's own and those its peers granted.\<close>

definition raft_wf :: "raft \<Rightarrow> bool" where
  "raft_wf r \<longleftrightarrow> distinct (rn_cluster r) \<and> rn_id r \<in> set (rn_cluster r)"

lemma election_votes:
  assumes "raft_wf r" and "snd (start_election now grant r)"
  shows "\<exists>v. is_majority_of (set (rn_cluster r)) v \<and> rn_id r \<in> v
     \<and> (\<forall>n\<in>v. n = rn_id r \<or> (\<exists>i<length (rn_cluster r). rn_cluster r ! i = n \<and> grant i))"
proof -
  let ?c = "collect_votes (rn_id r) (raft_needed r) grant 0 (rn_cluster r) {rn_id r}"
  have "snd ?c" using assms(2) by (simp add: start_election_def Let_def split: if_splits)
  then obtain v where "?c = (v, True)" by (cases ?c) auto
  from collect_votes_sound [OF this]
  have v: "raft_needed r \<le> card v" "rn_id r \<in> v"
    "\<And>n. n \<in> v \<Longrightarrow> n = rn_id r \<or> (\<exists>i<length (rn_cluster r). rn_cluster r ! i = n \<and> grant i)" by auto
  have "v \<subseteq> set (rn_cluster r)" using v(3) assms(1) by (fastforce simp: raft_wf_def)
  moreover have "card (set (rn_cluster r)) = length (rn_cluster r)" using assms(1) by (simp add: raft_wf_def distinct_card)
  ultimately have "is_majority_of (set (rn_cluster r)) v"
    using v(1) by (simp add: is_majority_of_def majority_of_def raft_needed_def)
  with v show ?thesis by blast
qed

lemma start_election_fields:
  "start_election now grant r = (r', b) \<Longrightarrow>
     rn_term r' = rn_term r + 1 \<and> rn_log r' = rn_log r \<and> rn_commit r' = rn_commit r \<and> rn_voted_for r' = Some (rn_id r) \<and> rn_id r' = rn_id r
     \<and> rn_cluster r' = rn_cluster r \<and> (b \<longleftrightarrow> rn_role r' = Leader) \<and> (\<not> b \<longrightarrow> rn_role r' = Candidate)"
  by (auto simp: start_election_def become_leader_def Let_def split: if_splits)

lemma collect_votes_alone: "set ps \<subseteq> {me} \<Longrightarrow> collect_votes me needed grant k ps votes = (votes, False)"
  by (induction ps arbitrary: k) auto

lemma lone_node_not_elected: "rn_cluster r = [rn_id r] \<Longrightarrow> \<not> snd (start_election now grant r)"
  by (simp add: start_election_def collect_votes_alone Let_def)

lemma two_leaders_one_term:
  "let c = fst (elect_leader 0 (\<lambda>_ _. True) (cluster_init 0 [''a'', ''b'', ''c'']))
   in map (\<lambda>(i, r). (i, rn_role r, rn_term r)) (rc_nodes c) = [(''a'', Leader, 1), (''b'', Leader, 1), (''c'', Leader, 1)]"
  by code_simp

section \<open>Replication\<close>

lemma send_fields:
  "send_append_entries p idx a r = (r', res) \<Longrightarrow>
     rn_id r' = rn_id r \<and> rn_cluster r' = rn_cluster r \<and> rn_log r' = rn_log r \<and> rn_commit r' = rn_commit r \<and> rn_role r' = rn_role r \<and> rn_term r' = rn_term r"
  by (auto simp: send_append_entries_def split: option.splits if_splits)

lemma replicate_fields:
  "replicate_entries idx ack k ps got r = (r', res) \<Longrightarrow>
     rn_id r' = rn_id r \<and> rn_cluster r' = rn_cluster r \<and> rn_log r' = rn_log r \<and> rn_commit r' = rn_commit r \<and> rn_role r' = rn_role r \<and> rn_term r' = rn_term r"
proof (induction ps arbitrary: k got r)
  case (Cons p ps)
  obtain r1 x where s: "send_append_entries p idx (ack k) r = (r1, x)" by fastforce
  show ?case using Cons.prems send_fields [OF s]
    by (cases x) (auto simp: s split: if_splits dest: Cons.IH)
qed simp

lemma replicate_sound:
  assumes "replicate_entries idx ack k ps got r = (r', Inr v)"
  shows "got \<subseteq> v \<and> (\<forall>n\<in>v - got. \<exists>i<length ps. ps ! i = n \<and> ack (k + i))"
  using assms
proof (induction ps arbitrary: k got r)
  case (Cons p ps)
  have shift: "\<exists>i<length (p # ps). (p # ps) ! i = n \<and> ack (k + i)"
    if "\<exists>i<length ps. ps ! i = n \<and> ack (k + 1 + i)" for n
    using that by (elim exE, rule_tac x = "Suc i" in exI) simp
  show ?case
  proof (cases "p = rn_id r")
    case True
    with Cons.prems have "replicate_entries idx ack (k + 1) ps got r = (r', Inr v)" by simp
    from Cons.IH [OF this] shift show ?thesis by blast
  next
    case False
    obtain r1 x where s: "send_append_entries p idx (ack k) r = (r1, x)" by fastforce
    with False Cons.prems obtain b where x: "x = Inr b" by (cases x) auto
    have b: "b \<Longrightarrow> ack k" using s x by (auto simp: send_append_entries_def split: option.splits if_splits)
    from False Cons.prems s x have "replicate_entries idx ack (k + 1) ps (if b then insert p got else got) r1 = (r', Inr v)" by simp
    from Cons.IH [OF this] have ih: "(if b then insert p got else got) \<subseteq> v"
      "\<And>n. n \<in> v - (if b then insert p got else got) \<Longrightarrow> \<exists>i<length ps. ps ! i = n \<and> ack (k + 1 + i)" by blast+
    have "\<exists>i<length (p # ps). (p # ps) ! i = n \<and> ack (k + i)" if "n \<in> v - got" for n
    proof (cases "b \<and> n = p")
      case True
      with b show ?thesis by (intro exI [of _ 0]) simp
    next
      case False
      with that have "n \<in> v - (if b then insert p got else got)" by auto
      from shift [OF ih(2) [OF this]] show ?thesis .
    qed
    with ih(1) show ?thesis by (auto split: if_splits)
  qed
qed simp

lemma append_committed:
  assumes "raft_append_entry cmd ack r = (r', Inr True)" and "raft_wf r"
  shows "rn_role r = Leader \<and> rn_commit r' = length (rn_log r) + 1 \<and> length (rn_log r') = length (rn_log r) + 1
     \<and> (\<forall>e\<in>set (rn_log r'). re_index e \<le> rn_commit r' \<longrightarrow> re_committed e)
     \<and> (\<exists>v. is_majority_of (set (rn_cluster r)) v \<and> rn_id r \<in> v \<and> (\<forall>n\<in>v. n = rn_id r \<or> (\<exists>i<length (rn_cluster r). rn_cluster r ! i = n \<and> ack i)))"
proof -
  let ?i = "length (rn_log r) + 1"
  let ?r = "r\<lparr>rn_log := rn_log r @ [\<lparr>re_index = ?i, re_term = rn_term r, re_command = cmd, re_committed = False\<rparr>]\<rparr>"
  have run: "replicate_and_commit ?i ack ?r = (r', Inr True)" using assms(1) by (simp add: raft_append_entry_def Let_def)
  then have l: "rn_role r = Leader" by (auto simp: replicate_and_commit_def split: if_splits)
  obtain r1 x where rep: "replicate_entries ?i ack 0 (rn_cluster r) {rn_id r} ?r = (r1, x)" by fastforce
  obtain v where x: "x = Inr v" and n: "raft_needed r1 \<le> card v" and r': "r' = commit_upto ?i r1"
    using run rep l by (cases x) (auto simp: replicate_and_commit_def split: if_splits)
  note f = replicate_fields [OF rep]
  from replicate_sound [OF rep [unfolded x]]
  have v: "rn_id r \<in> v" "\<And>n. n \<in> v \<Longrightarrow> n = rn_id r \<or> (\<exists>i<length (rn_cluster r). rn_cluster r ! i = n \<and> ack i)" by auto
  have "v \<subseteq> set (rn_cluster r)" using v assms(2) by (fastforce simp: raft_wf_def)
  moreover have "card (set (rn_cluster r)) = length (rn_cluster r)" using assms(2) by (simp add: raft_wf_def distinct_card)
  ultimately have "is_majority_of (set (rn_cluster r)) v"
    using n f by (simp add: is_majority_of_def majority_of_def raft_needed_def)
  moreover have "rn_commit r' = ?i" "length (rn_log r') = ?i" using f by (simp_all add: r' commit_upto_def)
  moreover have "\<forall>e\<in>set (rn_log r'). re_index e \<le> rn_commit r' \<longrightarrow> re_committed e" by (auto simp: r' commit_upto_def)
  ultimately show ?thesis using l v by blast
qed

text \<open>A node that does not lead answers False and keeps the entry.\<close>

lemma refused_entry_kept:
  assumes "rn_role r \<noteq> Leader"
  shows "raft_append_entry cmd ack r =
    (r\<lparr>rn_log := rn_log r @ [\<lparr>re_index = length (rn_log r) + 1, re_term = rn_term r, re_command = cmd, re_committed = False\<rparr>]\<rparr>, Inr False)"
  using assms by (simp add: raft_append_entry_def replicate_and_commit_def)

text \<open>After a snapshot the next index repeats one in the log, and a leader elected before it cannot commit.\<close>

lemma snapshot_repeats_index:
  "let r0 = fst (start_election 0 (\<lambda>_. True) (raft_init 0 ''a'' [''a'', ''b'', ''c'']));
       r2 = fst (raft_append_entry [] (\<lambda>_. True) (fst (raft_append_entry [] (\<lambda>_. True) r0)));
       r3 = fst (raft_snapshot 2 r2)
   in map re_index (rn_log (fst (raft_append_entry [] (\<lambda>_. True) r3))) = [2, 2]"
  by code_simp

lemma snapshot_stops_commits:
  "let r0 = fst (start_election 0 (\<lambda>_. True) (raft_init 0 ''a'' [''a'', ''b'', ''c'']));
       r3 = fst (raft_append_entry [] (\<lambda>_. True) (fst (raft_append_entry [] (\<lambda>_. True) (fst (raft_append_entry [] (\<lambda>_. True) r0)))));
       r4 = fst (raft_snapshot 3 (fst (start_election 1 (\<lambda>_. True) r3)))
   in snd (raft_append_entry [] (\<lambda>_. True) r4) = Inr False"
  by code_simp

section \<open>Leader lease\<close>

lemma acquire_always: "snd (try_acquire_leadership now l) \<and> snd (is_leader_valid now (fst (try_acquire_leadership now l)))"
  by (simp add: try_acquire_leadership_def is_leader_valid_def LEASE_TTL_SEC_def)

lemma leader_state_hangs: "le_get_state (fst (try_acquire_leadership now l)) = None"
  by (simp add: le_get_state_def try_acquire_leadership_def)

lemma lease_valid_until_end:
  "le_is_leader l \<Longrightarrow> snd (is_leader_valid now l) \<longleftrightarrow> now \<le> le_end l"
  by (auto simp: is_leader_valid_def)

lemma expired_cannot_renew:
  "le_is_leader l \<Longrightarrow> now > le_end l \<Longrightarrow> \<not> snd (le_renew now (fst (is_leader_valid now l)))"
  by (simp add: is_leader_valid_def le_renew_def)

section \<open>Replicated store\<close>

text \<open>Replicas come and go by other hands; the store only writes.\<close>

inductive rs_step :: "rstore \<Rightarrow> rstore \<Rightarrow> bool" where
  rst_write: "rs_step s (fst (rs_write ev s))"
| rst_replicas: "map rp_id rs = map rp_id (rs_replicas s) \<Longrightarrow> rs_step s (s\<lparr>rs_replicas := rs\<rparr>)"

interpretation rst: transition_system "\<lambda>s. \<exists>name n. s = rs_init name n" rs_step .

definition rs_ok :: "rstore \<Rightarrow> bool" where
  "rs_ok s \<longleftrightarrow> rs_commit s \<le> rs_local s \<and> length (rs_events s) = rs_local s
     \<and> (\<forall>i<rs_local s. dict_get (rs_events s ! i) ''index'' = PInt (int (i + 1)))
     \<and> rs_quorum s = length (rs_replicas s) div 2 + 1"

lemma dict_get_update [simp]:
  "dict_get (AList.update k v d) k' = (if k = k' then v else dict_get d k')"
  by (simp add: dict_get_def update_conv')

lemma rs_ok_write: "rs_ok s \<Longrightarrow> rs_ok (fst (rs_write ev s))"
  by (auto simp: rs_ok_def rs_write_def try_commit_def Let_def nth_append less_Suc_eq)

lemma rs_ok_step: "rs_step s t \<Longrightarrow> rs_ok s \<Longrightarrow> rs_ok t \<and> rs_commit s \<le> rs_commit t \<and> rs_local s \<le> rs_local t"
proof (induction rule: rs_step.induct)
  case (rst_write s ev)
  then show ?case using rs_ok_write [of s ev] by (auto simp: rs_write_def try_commit_def Let_def rs_ok_def)
next
  case (rst_replicas rs s)
  then have "length rs = length (rs_replicas s)" by (metis length_map)
  with rst_replicas show ?case by (simp add: rs_ok_def)
qed

lemma rs_reach_ok:
  assumes "rst.reach s"
  shows "rs_ok s"
  by (rule rst.invariant_reach [OF _ _ assms]) (auto simp: rs_ok_step, simp add: rs_ok_def rs_init_def)

section \<open>Split brain\<close>

lemma AList_update_mem: "(k, v) \<in> set (AList.update k v xs)"
  by (induction xs) auto

lemma heartbeat_active: "n \<in> sb_active (fst (register_heartbeat now n b))"
  using AList_update_mem [of n "(now, True)" "sb_seen b"] by (force simp: register_heartbeat_def Let_def)

text \<open>What one side of a cluster of \<open>n\<close> nodes has recorded after heartbeats of the nodes in \<open>A\<close>.\<close>

inductive heard :: "string set \<Rightarrow> nat \<Rightarrow> brain \<Rightarrow> bool" for A n where
  heard_init: "heard A n (sb_init n)"
| heard_beat: "heard A n b \<Longrightarrow> m \<in> A \<Longrightarrow> heard A n (fst (register_heartbeat now m b))"

lemma heard_bounds: "heard A n b \<Longrightarrow> sb_majority b = n div 2 + 1 \<and> fst ` set (sb_seen b) \<subseteq> A \<and> sb_active b \<subseteq> fst ` set (sb_seen b)"
proof (induction rule: heard.induct)
  case (heard_beat b m now)
  then show ?case using AList_update_set [of m "(now, True)" "sb_seen b"] by (force simp: register_heartbeat_def Let_def)
qed (simp add: sb_init_def)

lemma heard_majority:
  assumes "heard A n b" and "can_write b" and "A \<subseteq> nodes" and "finite nodes" and "card nodes \<le> n"
  shows "is_majority_of nodes (sb_active b)"
proof -
  have "n div 2 + 1 \<le> card (sb_active b)" using assms(2) heard_bounds [OF assms(1)] by (simp add: can_write_def)
  moreover have "sb_active b \<subseteq> nodes" using assms(3) heard_bounds [OF assms(1)] by blast
  moreover have "card nodes div 2 \<le> n div 2" using assms(5) by (rule div_le_mono)
  ultimately show ?thesis using assms(4) by (simp add: is_majority_of_def majority_of_def)
qed

text \<open>Only a heartbeat refreshes the active nodes: when all fall silent the guard still says yes.\<close>

lemma silent_cluster_writes:
  "let b = fst (register_heartbeat 1 ''y'' (fst (register_heartbeat 0 ''x'' (sb_init 3))))
   in can_write b \<and> \<not> can_write (fst (register_heartbeat 1000 ''x'' b))"
  by code_simp

section \<open>Properties\<close>

text \<open>When each node backs one candidate, a cluster has at most one leader: two nodes of the same cluster that win an election
  with votes of nodes that backed them are the same node.\<close>

theorem one_vote_one_leader:
  assumes "raft_wf r" and "raft_wf q" and "rn_cluster q = rn_cluster r"
    and "snd (start_election now g r)" and "snd (start_election now' h q)"
    and "vote (rn_id r) = rn_id r" and "vote (rn_id q) = rn_id q"
    and "\<And>i. i < length (rn_cluster r) \<Longrightarrow> g i \<Longrightarrow> vote (rn_cluster r ! i) = rn_id r"
    and "\<And>i. i < length (rn_cluster r) \<Longrightarrow> h i \<Longrightarrow> vote (rn_cluster r ! i) = rn_id q"
  shows "rn_id r = rn_id q"
proof -
  obtain v where v: "is_majority_of (set (rn_cluster r)) v"
    "\<And>n. n \<in> v \<Longrightarrow> n = rn_id r \<or> (\<exists>i<length (rn_cluster r). rn_cluster r ! i = n \<and> g i)"
    using election_votes [OF assms(1,4)] by blast
  obtain w where w: "is_majority_of (set (rn_cluster r)) w"
    "\<And>n. n \<in> w \<Longrightarrow> n = rn_id q \<or> (\<exists>i<length (rn_cluster r). rn_cluster r ! i = n \<and> h i)"
    using election_votes [OF assms(2,5)] unfolding assms(3) by blast
  show ?thesis
  proof (rule majorities.one_value [OF v(1) w(1), of vote])
    show "vote n = rn_id r" if "n \<in> v" for n using v(2) [OF that] assms(6,8) by auto
    show "vote n = rn_id q" if "n \<in> w" for n using w(2) [OF that] assms(7,9) by auto
  qed
qed

theorem one_vote_one_leader_witness:
  "rn_id (raft_init 0 ''a'' [''a'', ''b'', ''c'']) = ''a''"
proof -
  let ?r = "raft_init 0 ''a'' [''a'', ''b'', ''c'']" let ?g = "\<lambda>i::nat. i = 1"
  have c: "rn_cluster ?r = [''a'', ''b'', ''c'']" "rn_id ?r = ''a''" by (simp_all add: raft_init_def)
  have "snd (start_election 0 ?g ?r)" by code_simp
  moreover have "raft_wf ?r" by (simp add: raft_wf_def raft_init_def)
  ultimately have "rn_id ?r = rn_id ?r"
    using one_vote_one_leader [of ?r ?r 0 ?g 0 ?g "\<lambda>_. ''a''"] c by simp
  then show ?thesis by (simp add: c)
qed

text \<open>An entry is reported committed only by a leader and only when a majority of the cluster, the leader included,
  acknowledged it; the commit index is then the entry's and every entry up to it is marked.\<close>

theorem committed_by_majority:
  assumes "raft_append_entry cmd ack r = (r', Inr True)" and "raft_wf r"
  shows "rn_role r = Leader \<and> rn_commit r' = length (rn_log r) + 1 \<and> length (rn_log r') = length (rn_log r) + 1
     \<and> (\<forall>e\<in>set (rn_log r'). re_index e \<le> rn_commit r' \<longrightarrow> re_committed e)
     \<and> (\<exists>v. is_majority_of (set (rn_cluster r)) v \<and> rn_id r \<in> v \<and> (\<forall>n\<in>v. n = rn_id r \<or> (\<exists>i<length (rn_cluster r). rn_cluster r ! i = n \<and> ack i)))"
  using assms by (rule append_committed)

theorem committed_by_majority_witness:
  "let r = fst (start_election 0 (\<lambda>_. True) (raft_init 0 ''a'' [''a'', ''b'', ''c''])); r' = fst (raft_append_entry [] (\<lambda>i. i = 2) r)
   in rn_role r = Leader \<and> rn_commit r' = 1"
proof -
  let ?r = "fst (start_election 0 (\<lambda>_. True) (raft_init 0 ''a'' [''a'', ''b'', ''c'']))"
  let ?s = "raft_append_entry [] (\<lambda>i. i = 2) ?r"
  have "snd ?s = Inr True" by code_simp
  then have run: "raft_append_entry [] (\<lambda>i. i = 2) ?r = (fst ?s, Inr True)" by (metis prod.collapse)
  have wf: "raft_wf ?r" by (simp add: raft_wf_def start_election_def become_leader_def raft_init_def Let_def)
  have "rn_log ?r = []" by (simp add: start_election_def become_leader_def raft_init_def Let_def)
  with committed_by_majority [OF run wf] show ?thesis by (simp add: Let_def)
qed

text \<open>Two sides of a partitioned cluster cannot both write: of two guards that heard disjoint sets of nodes of one cluster, at
  most one allows writes.\<close>

theorem partition_one_side_writes:
  assumes "heard A n b" and "heard B n c" and "A \<inter> B = {}" and "finite (A \<union> B)" and "card (A \<union> B) \<le> n"
  shows "\<not> (can_write b \<and> can_write c)"
proof
  assume w: "can_write b \<and> can_write c"
  have "is_majority_of (A \<union> B) (sb_active b)" using heard_majority [OF assms(1)] w assms(4,5) by blast
  moreover have "is_majority_of (A \<union> B) (sb_active c)" using heard_majority [OF assms(2)] w assms(4,5) by blast
  ultimately have "sb_active b \<inter> sb_active c \<noteq> {}" by (rule majorities.quorums_meet)
  moreover have "sb_active b \<subseteq> A" using heard_bounds [OF assms(1)] by (elim conjE) (rule subset_trans)
  moreover have "sb_active c \<subseteq> B" using heard_bounds [OF assms(2)] by (elim conjE) (rule subset_trans)
  ultimately show False using assms(3) by auto
qed

theorem partition_one_side_writes_witness:
  "let b = fst (register_heartbeat 1 ''y'' (fst (register_heartbeat 0 ''x'' (sb_init 3)))); c = fst (register_heartbeat 1 ''z'' (sb_init 3))
   in can_write b \<and> \<not> can_write c"
proof -
  let ?b = "fst (register_heartbeat 1 ''y'' (fst (register_heartbeat 0 ''x'' (sb_init 3))))" let ?c = "fst (register_heartbeat 1 ''z'' (sb_init 3))"
  have "heard {''x'', ''y''} 3 ?b" and "heard {''z''} 3 ?c" by (intro heard.intros; simp)+
  then have "\<not> (can_write ?b \<and> can_write ?c)" by (rule partition_one_side_writes) (auto simp: card_insert_if)
  moreover have "can_write ?b" by code_simp
  ultimately show ?thesis by (simp add: Let_def)
qed

text \<open>The replicated store's commit index never passes the last index written, never goes back, and every
  stored event carries its own position, whatever happens to the replicas.\<close>

theorem replicated_commit_monotone:
  assumes "rst.reach s" and "rs_step s t"
  shows "rs_commit t \<le> rs_local t \<and> rs_commit s \<le> rs_commit t \<and> length (rs_events t) = rs_local t
     \<and> (\<forall>i<rs_local t. dict_get (rs_events t ! i) ''index'' = PInt (int (i + 1)))"
  using rs_ok_step [OF assms(2) rs_reach_ok [OF assms(1)]] by (simp add: rs_ok_def)

theorem replicated_commit_monotone_witness:
  "let t = fst (rs_write [] (rs_init (\<lambda>_. []) 3)) in rs_commit t \<le> rs_local t \<and> length (rs_events t) = rs_local t"
proof -
  have "rst.reach (rs_init (\<lambda>_. []) 3)" by (rule rst.reach_init) blast
  from replicated_commit_monotone [OF this rst_write [of _ "[]"]] show ?thesis by (simp add: Let_def)
qed

end
