(* ===== verification/HostBench.thy ===== *)
theory HostBench
  imports Money "HOL-Library.Word"
begin

text \<open>
  The benchmark a host runs to be verified: \<open>src/gpu_worker/host_bench.py\<close>.

  The inputs come from SHA-256 of the seed, a label and a counter; the digest is the parameter \<open>dg\<close>, a list of bytes per
  counter. Matrices are flat lists in row order. The reference product exists twice in the code: on Python
  integers, packed as signed 32-bit little-endian numbers (packing raises out of range), and with numpy on 64-bit words,
  truncated to 32 bits. numpy's product is the parameter \<open>mm\<close>; the code relies on its entries being the sums of
  products in 64-bit arithmetic. \<open>run_host_bench\<close> (torch on the host) is not modelled.

  Shown: the generator ends and gives the numbers asked for, all in range; both reference products give the same
  bytes for every size allowed; partial sums stay in the range in which 32-bit floats are exact; thresholds are found
  only when unambiguous. Also shown: the generator is slightly biased, against its comment.
\<close>

section \<open>Inputs\<close>

definition VALUE_RANGE :: int where "VALUE_RANGE = 8"
definition DEFAULT_N :: int where "DEFAULT_N = 512"
definition DEFAULT_REPS :: nat where "DEFAULT_REPS = 20"
definition MAX_EXACT_N :: int where "MAX_EXACT_N = 2 ^ 18"

text \<open>\<open>bench_n\<close>: the environment's value when it is an integer in range.\<close>

definition bench_n :: "int option \<Rightarrow> int" where
  "bench_n env = (case env of None \<Rightarrow> DEFAULT_N | Some n \<Rightarrow> if 1 \<le> n \<and> n \<le> MAX_EXACT_N then n else DEFAULT_N)"

definition byte_value :: "nat \<Rightarrow> int" where
  "byte_value b = int b mod (2 * VALUE_RANGE + 1) - VALUE_RANGE"

partial_function (option) values_loop :: "(nat \<Rightarrow> nat list) \<Rightarrow> nat \<Rightarrow> int list \<Rightarrow> nat \<Rightarrow> int list option" where
  "values_loop dg count xs ctr =
     (if length xs < count then values_loop dg count (xs @ map byte_value (dg ctr)) (ctr + 1) else Some xs)"

declare values_loop.simps [code]

definition bench_values :: "(nat \<Rightarrow> nat list) \<Rightarrow> nat \<Rightarrow> int list option" where
  "bench_values dg count = map_option (take count) (values_loop dg count [] 0)"

definition make_inputs :: "(string \<Rightarrow> string \<Rightarrow> nat \<Rightarrow> nat list) \<Rightarrow> string \<Rightarrow> nat \<Rightarrow> (int list \<times> int list) option" where
  "make_inputs sha seed n =
     (case (bench_values (sha seed ''A'') (n * n), bench_values (sha seed ''B'') (n * n)) of
        (Some a, Some b) \<Rightarrow> Some (a, b) | _ \<Rightarrow> None)"

section \<open>The reference product\<close>

definition cell :: "nat \<Rightarrow> int list \<Rightarrow> int list \<Rightarrow> nat \<Rightarrow> nat \<Rightarrow> int" where
  "cell n a b i j = (\<Sum>k\<leftarrow>[0..<n]. a ! (i * n + k) * b ! (k * n + j))"

definition product_rows :: "nat \<Rightarrow> int list \<Rightarrow> int list \<Rightarrow> int list list" where
  "product_rows n a b = map (\<lambda>i. map (\<lambda>j. cell n a b i j) [0..<n]) [0..<n]"

definition le_bytes :: "32 word \<Rightarrow> nat list" where
  "le_bytes w = map (\<lambda>i. unat (take_bit 8 (drop_bit (8 * i) w))) [0..<4]"

text \<open>\<open>struct.pack("<i", v)\<close> raises outside the signed 32-bit range.\<close>

definition pack_i4 :: "int \<Rightarrow> nat list result" where
  "pack_i4 v = (if - (2 ^ 31) \<le> v \<and> v < 2 ^ 31 then Inr (le_bytes (word_of_int v)) else Inl (OtherException ''struct.error''))"

fun pack_all :: "int list \<Rightarrow> nat list result" where
  "pack_all [] = Inr []"
| "pack_all (v # vs) = (case pack_i4 v of Inl x \<Rightarrow> Inl x | Inr p \<Rightarrow> (case pack_all vs of Inl x \<Rightarrow> Inl x | Inr q \<Rightarrow> Inr (p @ q)))"

definition python_bytes :: "nat \<Rightarrow> int list \<Rightarrow> int list \<Rightarrow> nat list result" where
  "python_bytes n a b = pack_all (concat (product_rows n a b))"

definition numpy_bytes :: "(nat \<Rightarrow> 64 word list \<Rightarrow> 64 word list \<Rightarrow> 64 word list) \<Rightarrow> nat \<Rightarrow> int list \<Rightarrow> int list \<Rightarrow> nat list" where
  "numpy_bytes mm n a b = concat (map (\<lambda>w. le_bytes (ucast w)) (mm n (map word_of_int a) (map word_of_int b)))"

text \<open>\<open>reference_hash\<close> with and without numpy; \<open>h\<close> is the hash of the size and the bytes.\<close>

definition reference_hash ::
  "(nat \<Rightarrow> 64 word list \<Rightarrow> 64 word list \<Rightarrow> 64 word list) option \<Rightarrow> (string \<Rightarrow> string \<Rightarrow> nat \<Rightarrow> nat list) \<Rightarrow> (nat \<Rightarrow> nat list \<Rightarrow> string) \<Rightarrow> string \<Rightarrow> nat \<Rightarrow> string result option" where
  "reference_hash mm sha h seed n =
     (case make_inputs sha seed n of
        None \<Rightarrow> None
      | Some (a, b) \<Rightarrow>
          Some (case mm of
                  Some f \<Rightarrow> Inr (h n (numpy_bytes f n a b))
                | None \<Rightarrow> (case python_bytes n a b of Inl x \<Rightarrow> Inl x | Inr bs \<Rightarrow> Inr (h n bs))))"

definition tflops :: "nat \<Rightarrow> nat \<Rightarrow> rat \<Rightarrow> rat" where
  "tflops n reps elapsed = 2 * of_nat (n ^ 3) * of_nat reps / elapsed / 10 ^ 12"

section \<open>Thresholds\<close>

definition is_sep :: "char \<Rightarrow> bool" where
  "is_sep c \<longleftrightarrow> c \<in> set '' _-'' \<or> of_char c \<in> set [9, 10, 11, 12, 13, 28, 29, 30, 31, 133, 160 :: nat]"

text \<open>Splitting at runs of separators, joining with one underscore, stripping underscores.\<close>

fun words_of :: "string \<Rightarrow> string \<Rightarrow> string list" where
  "words_of acc [] = (if acc = [] then [] else [acc])"
| "words_of acc (c # cs) = (if is_sep c then (if acc = [] then words_of [] cs else acc # words_of [] cs) else words_of (acc @ [c]) cs)"

fun join_underscore :: "string list \<Rightarrow> string" where
  "join_underscore [] = []"
| "join_underscore [w] = w"
| "join_underscore (w # ws) = w @ ''_'' @ join_underscore ws"

definition normalize_gpu_model :: "string \<Rightarrow> string" where
  "normalize_gpu_model name = join_underscore (words_of [] (lower name))"

definition lookup_threshold :: "(string \<times> 'v) list \<Rightarrow> string \<Rightarrow> 'v option" where
  "lookup_threshold th model =
     (case map_of th model of
        Some v \<Rightarrow> Some v
      | None \<Rightarrow>
          let key = normalize_gpu_model model
          in if key = [] then None
             else (case filter (\<lambda>(k, v). normalize_gpu_model k = key) th of [(k, v)] \<Rightarrow> Some v | _ \<Rightarrow> None))"

section \<open>The generator\<close>

lemma byte_value_range: "\<bar>byte_value b\<bar> \<le> 8"
  unfolding byte_value_def VALUE_RANGE_def using pos_mod_bound [of 17 "int b"] pos_mod_sign [of 17 "int b"] by (simp add: abs_le_iff)

lemma values_loop_ends:
  assumes "\<And>c. length (dg c) = 32"
  shows "\<exists>ys m. values_loop dg count xs ctr = Some (xs @ ys) \<and> ys = concat (map (\<lambda>c. map byte_value (dg c)) [ctr..<ctr + m]) \<and> count \<le> length (xs @ ys)"
proof (induction "count - length xs" arbitrary: xs ctr rule: less_induct)
  case less
  show ?case
  proof (cases "length xs < count")
    case True
    let ?xs = "xs @ map byte_value (dg ctr)"
    have "count - length ?xs < count - length xs" using True assms by simp
    from less [OF this, of "ctr + 1"] obtain ys m where
      ys: "values_loop dg count ?xs (ctr + 1) = Some (?xs @ ys)" "ys = concat (map (\<lambda>c. map byte_value (dg c)) [ctr + 1..<ctr + 1 + m])" "count \<le> length (?xs @ ys)"
      by (elim exE conjE) (rule that)
    have "[ctr..<ctr + Suc m] = ctr # [ctr + 1..<ctr + 1 + m]" by (simp add: upt_conv_Cons)
    then have "map byte_value (dg ctr) @ ys = concat (map (\<lambda>c. map byte_value (dg c)) [ctr..<ctr + Suc m])" using ys(2) by simp
    moreover have "values_loop dg count xs ctr = Some (xs @ map byte_value (dg ctr) @ ys)"
      using True ys(1) by (subst values_loop.simps) simp
    ultimately show ?thesis using ys(3) by (intro exI [of _ "map byte_value (dg ctr) @ ys"] exI [of _ "Suc m"]) simp
  next
    case False
    then show ?thesis by (subst values_loop.simps) (auto intro!: exI [of _ 0])
  qed
qed

lemma bench_values_total:
  assumes "\<And>c. length (dg c) = 32"
  shows "\<exists>vs. bench_values dg count = Some vs \<and> length vs = count \<and> (\<forall>v\<in>set vs. \<bar>v\<bar> \<le> 8)"
proof -
  obtain ys m where "values_loop dg count [] 0 = Some ([] @ ys)" "ys = concat (map (\<lambda>c. map byte_value (dg c)) [0..<0 + m])" "count \<le> length ([] @ ys)"
    using values_loop_ends [of dg count "[]" 0, OF assms] by (elim exE conjE) (rule that)
  then show ?thesis using byte_value_range by (auto simp: bench_values_def dest!: in_set_takeD)
qed

text \<open>256 is not a multiple of 17: one of the 17 values is drawn from 16 bytes, every other from 15.\<close>

lemma generator_is_biased:
  "length (filter (\<lambda>b. byte_value b = -8) [0..<256]) = 16 \<and> length (filter (\<lambda>b. byte_value b = 8) [0..<256]) = 15"
  by code_simp

section \<open>The products\<close>

lemma word_of_int_sum_list: "(word_of_int (sum_list xs) :: 'a::len word) = sum_list (map word_of_int xs)"
  by (induction xs) (simp_all add: wi_hom_add)

lemma ucast_word_of_int_64: "ucast (word_of_int x :: 64 word) = (word_of_int x :: 32 word)"
  by (rule bit_word_eqI) (simp add: bit_simps)

definition range_ok :: "nat \<Rightarrow> int list \<Rightarrow> bool" where
  "range_ok n a \<longleftrightarrow> length a = n * n \<and> (\<forall>v\<in>set a. \<bar>v\<bar> \<le> 8)"

lemma index_in: "i < n \<Longrightarrow> k < n \<Longrightarrow> i * n + k < n * n" for i n k :: nat
proof -
  assume "i < n" "k < n"
  then have "i * n + k < (i + 1) * n" by simp
  also have "\<dots> \<le> n * n" using \<open>i < n\<close> by (intro mult_right_mono) simp_all
  finally show ?thesis .
qed

lemma term_bound:
  assumes "range_ok n a" and "range_ok n b" and "i < n" and "j < n" and "k < n"
  shows "\<bar>a ! (i * n + k) * b ! (k * n + j)\<bar> \<le> 64"
proof -
  have "\<bar>a ! (i * n + k)\<bar> \<le> 8" "\<bar>b ! (k * n + j)\<bar> \<le> 8"
    using assms index_in [of i n k] index_in [of k n j] by (auto simp: range_ok_def)
  then have "\<bar>a ! (i * n + k)\<bar> * \<bar>b ! (k * n + j)\<bar> \<le> 8 * 8" by (intro mult_mono) simp_all
  then show ?thesis by (simp add: abs_mult)
qed

lemma partial_sum_bound:
  assumes "range_ok n a" and "range_ok n b" and "i < n" and "j < n" and "K \<subseteq> {..<n}"
  shows "\<bar>\<Sum>k\<in>K. a ! (i * n + k) * b ! (k * n + j)\<bar> \<le> 64 * int n"
proof -
  have f: "finite K" using assms(5) finite_subset by blast
  have "\<bar>\<Sum>k\<in>K. a ! (i * n + k) * b ! (k * n + j)\<bar> \<le> (\<Sum>k\<in>K. \<bar>a ! (i * n + k) * b ! (k * n + j)\<bar>)" by (rule sum_abs)
  also have "\<dots> \<le> (\<Sum>k\<in>K. 64)" using term_bound [OF assms(1-4)] assms(5) by (intro sum_mono) auto
  also have "\<dots> = 64 * int (card K)" by simp
  also have "\<dots> \<le> 64 * int n" using card_mono [OF _ assms(5)] by simp
  finally show ?thesis .
qed

lemma cell_bound:
  assumes "range_ok n a" and "range_ok n b" and "i < n" and "j < n"
  shows "\<bar>cell n a b i j\<bar> \<le> 64 * int n"
proof -
  have "cell n a b i j = (\<Sum>k\<in>{..<n}. a ! (i * n + k) * b ! (k * n + j))"
    unfolding cell_def by (simp add: interv_sum_list_conv_sum_set_nat atLeast0LessThan)
  then show ?thesis using partial_sum_bound [OF assms subset_refl] by simp
qed

lemma pack_all_in_range:
  "\<forall>v\<in>set vs. - (2 ^ 31) \<le> v \<and> v < 2 ^ 31 \<Longrightarrow> pack_all vs = Inr (concat (map (\<lambda>v. le_bytes (word_of_int v)) vs))"
  by (induction vs) (simp_all add: pack_i4_def)

text \<open>What the code relies on of numpy: entries are sums of products in 64-bit arithmetic, in row order.\<close>

definition product64 :: "nat \<Rightarrow> 64 word list \<Rightarrow> 64 word list \<Rightarrow> 64 word list" where
  "product64 n a b = concat (map (\<lambda>i. map (\<lambda>j. \<Sum>k\<leftarrow>[0..<n]. a ! (i * n + k) * b ! (k * n + j)) [0..<n]) [0..<n])"

lemma product64_cells:
  assumes "range_ok n a" and "range_ok n b"
  shows "product64 n (map word_of_int a) (map word_of_int b) = map word_of_int (concat (product_rows n a b))"
proof -
  have "(\<Sum>k\<leftarrow>[0..<n]. map word_of_int a ! (i * n + k) * map word_of_int b ! (k * n + j)) = (word_of_int (cell n a b i j) :: 64 word)" if "i < n" "j < n" for i j
  proof -
    have "map word_of_int a ! (i * n + k) * map word_of_int b ! (k * n + j) = (word_of_int (a ! (i * n + k) * b ! (k * n + j)) :: 64 word)"
      if "k < n" for k
    proof -
      have "i * n + k < length a" "k * n + j < length b" using assms \<open>i < n\<close> \<open>j < n\<close> that index_in by (simp_all add: range_ok_def)
      then show ?thesis by (simp only: nth_map wi_hom_mult)
    qed
    then show ?thesis unfolding cell_def word_of_int_sum_list map_map comp_def by (intro arg_cong [of _ _ sum_list] map_cong) simp_all
  qed
  then show ?thesis
    unfolding product64_def product_rows_def map_concat map_map comp_def
    by (intro arg_cong [of _ _ concat] map_cong refl) simp
qed

lemma products_agree:
  assumes "range_ok n a" and "range_ok n b" and "int n \<le> MAX_EXACT_N"
    and "mm n (map word_of_int a) (map word_of_int b) = product64 n (map word_of_int a) (map word_of_int b)"
  shows "python_bytes n a b = Inr (numpy_bytes mm n a b)"
proof -
  have "- (2 ^ 31) \<le> v \<and> v < 2 ^ 31" if "v \<in> set (concat (product_rows n a b))" for v
  proof -
    from that obtain i j where "i < n" "j < n" "v = cell n a b i j" by (auto simp: product_rows_def)
    then have "\<bar>v\<bar> \<le> 64 * 2 ^ 18" using cell_bound [OF assms(1,2)] assms(3) unfolding MAX_EXACT_N_def by fastforce
    then show ?thesis by (simp add: abs_le_iff)
  qed
  then show ?thesis
    by (simp add: python_bytes_def pack_all_in_range numpy_bytes_def assms(4) product64_cells [OF assms(1,2)] ucast_word_of_int_64 comp_def)
qed

section \<open>Thresholds\<close>

lemma lookup_threshold_unique:
  assumes "map_of th model = None" and "lookup_threshold th model = Some v"
  shows "\<exists>k. (k, v) \<in> set th \<and> normalize_gpu_model k = normalize_gpu_model model \<and> normalize_gpu_model model \<noteq> []
    \<and> length (filter (\<lambda>(k, v). normalize_gpu_model k = normalize_gpu_model model) th) = 1"
proof -
  let ?f = "filter (\<lambda>(k, v). normalize_gpu_model k = normalize_gpu_model model) th"
  obtain k where k: "?f = [(k, v)]" and ne: "normalize_gpu_model model \<noteq> []"
    using assms by (auto simp: lookup_threshold_def Let_def split: if_splits list.splits)
  have "(k, v) \<in> set ?f" unfolding k by simp
  then have "(k, v) \<in> set th" "normalize_gpu_model k = normalize_gpu_model model" by simp_all
  then show ?thesis using k ne by auto
qed

section \<open>Properties\<close>

text \<open>C35: The two reference products are the same: for inputs in range and every size up to the limit, the hash computed on Python
  integers is the one computed by numpy on 64-bit words truncated to 32 bits, and packing never raises.\<close>

theorem reference_products_agree:
  assumes "\<And>l c. length (sha seed l c) = 32" and "int n \<le> MAX_EXACT_N" and "\<And>a b. mm n a b = product64 n a b"
  shows "\<exists>d. reference_hash None sha h seed n = Some (Inr d) \<and> reference_hash (Some mm) sha h seed n = Some (Inr d)"
proof -
  obtain a b where ab: "bench_values (sha seed ''A'') (n * n) = Some a" "bench_values (sha seed ''B'') (n * n) = Some b" and r: "range_ok n a" "range_ok n b"
    using bench_values_total [of "sha seed ''A''" "n * n"] bench_values_total [of "sha seed ''B''" "n * n"] assms(1) by (auto simp: range_ok_def)
  from products_agree [OF r assms(2), of mm] assms(3) ab show ?thesis by (auto simp: reference_hash_def make_inputs_def)
qed

theorem reference_products_agree_witness:
  "\<exists>d. reference_hash None (\<lambda>_ _ c. replicate 32 c) (\<lambda>n bs. map char_of bs) ''s'' 2 = Some (Inr d)
     \<and> reference_hash (Some product64) (\<lambda>_ _ c. replicate 32 c) (\<lambda>n bs. map char_of bs) ''s'' 2 = Some (Inr d)"
  by (rule reference_products_agree) (simp_all add: MAX_EXACT_N_def)

text \<open>Every partial sum of a cell, over any set of its terms, is at most 2 to the 24 in magnitude for every size up to the limit, so that
  32-bit floats hold it exactly in whatever order a device adds.\<close>

theorem partial_sums_exact:
  assumes "range_ok n a" and "range_ok n b" and "i < n" and "j < n" and "K \<subseteq> {..<n}" and "int n \<le> MAX_EXACT_N"
  shows "\<bar>\<Sum>k\<in>K. a ! (i * n + k) * b ! (k * n + j)\<bar> \<le> 2 ^ 24"
  using partial_sum_bound [OF assms(1-5)] assms(6) by (simp add: MAX_EXACT_N_def)

theorem partial_sums_exact_witness: "\<bar>\<Sum>k\<in>{0}. [8, 8, 8, 8] ! (0 * 2 + k) * [8, 8, 8, 8 :: int] ! (k * 2 + 1)\<bar> \<le> 2 ^ 24"
  by (rule partial_sums_exact [of 2]) (simp_all add: range_ok_def MAX_EXACT_N_def)

end
