(* ===== verification/Hosts.thy ===== *)
theory Hosts
  imports HostBench
begin

text \<open>
  The registry of GPU hosts and its store: \<open>src/gpu_worker/host_registry.py\<close> and \<open>src/gpu_worker/host_store.py\<close>.

  The registry keeps its hosts in memory and writes each change through to the store; here the store is the
  PostgreSQL one, with its tables of hosts, status events, verifications and tokens. The in-memory store shares the
  registry's records and only its tokens are modelled. Writes to the store succeed. Times are rationals, \<open>on\<close> is the
  feature flag, fresh ids are arguments. \<open>start_verification\<close> releases the registry's lock while it computes
  the reference hash and is three steps: reserve, then finish or release. The command line of a verification job is
  derived from its other fields and left out.

  Shown: the invariant of the registry, kept by every operation; a host becomes active only by a verification with the
  expected hash and a score within the bounds; the store's rows are the registry's hosts, so a restart finds the same
  statuses; which hosts can be scheduled; the sweep suspends exactly the late hosts; a job token is used at most
  once in both stores. Also shown: after a restart a host under a new verification is handed an old one.
\<close>

section \<open>Hosts\<close>

datatype hstatus = Pending | Verifying | Active | Suspended

datatype trust = NoTrust | Probation | Verified

definition ALLOWED_TRANSITIONS :: "hstatus \<Rightarrow> hstatus list" where
  "ALLOWED_TRANSITIONS s =
     (case s of Pending \<Rightarrow> [Verifying, Suspended] | Verifying \<Rightarrow> [Active, Suspended] | Active \<Rightarrow> [Suspended] | Suspended \<Rightarrow> [Verifying])"

record vspec =
  vs_job :: string
  vs_host :: string
  vs_image :: string
  vs_seed :: string
  vs_n :: nat
  vs_reps :: nat
  vs_expected :: string
  vs_min :: rat
  vs_max :: rat

record host =
  h_id :: string
  h_owner :: string
  h_model :: string
  h_gpus :: int
  h_vram :: rat
  h_region :: string
  h_own :: bool
  h_status :: hstatus
  h_trust :: trust
  h_score :: "rat option"
  h_beat :: "rat option"
  h_created :: rat
  h_history :: "(hstatus \<times> hstatus \<times> string) list"
  h_pending :: "vspec option"
  h_reservation :: "string option"

datatype herror = HostsDisabled | InvalidTransition | HValueError | HKeyError | HTypeError

section \<open>The PostgreSQL store\<close>

text \<open>A row of \<open>hosts\<close> is the host without history, pending verification and reservation.\<close>

definition row_of :: "host \<Rightarrow> host" where
  "row_of h = h\<lparr>h_history := [], h_pending := None, h_reservation := None\<rparr>"

record verification =
  ve_spec :: vspec
  ve_reported :: "string option"
  ve_score :: "rat option"
  ve_passed :: "bool option"

record hstore =
  st_hosts :: "(string \<times> host) list"
  st_events :: "(string \<times> hstatus \<times> hstatus \<times> string) list"
  st_verifs :: "verification list"

definition st_empty :: hstore where
  "st_empty = \<lparr>st_hosts = [], st_events = [], st_verifs = []\<rparr>"

text \<open>An existing row keeps what it was registered with; status, trust, score and heartbeat are written.\<close>

definition merge_row :: "host \<Rightarrow> host \<Rightarrow> host" where
  "merge_row old h = old\<lparr>h_status := h_status h, h_trust := h_trust h, h_score := h_score h, h_beat := h_beat h\<rparr>"

definition save_host :: "host \<Rightarrow> (hstatus \<times> hstatus \<times> string) list \<Rightarrow> hstore \<Rightarrow> hstore" where
  "save_host h evs st =
     st\<lparr>st_hosts := AList.update (h_id h) (case map_of (st_hosts st) (h_id h) of None \<Rightarrow> row_of h | Some old \<Rightarrow> merge_row old h) (st_hosts st),
        st_events := st_events st @ map (\<lambda>(a, b, r). (h_id h, a, b, r)) evs\<rparr>"

definition st_start_verification :: "vspec \<Rightarrow> hstore \<Rightarrow> hstore" where
  "st_start_verification sp st = st\<lparr>st_verifs := st_verifs st @ [\<lparr>ve_spec = sp, ve_reported = None, ve_score = None, ve_passed = None\<rparr>]\<rparr>"

definition st_finish_verification :: "string \<Rightarrow> string \<Rightarrow> rat option \<Rightarrow> bool \<Rightarrow> hstore \<Rightarrow> hstore" where
  "st_finish_verification job out score passed st =
     st\<lparr>st_verifs := map (\<lambda>v. if vs_job (ve_spec v) = job \<and> ve_passed v = None
                               then v\<lparr>ve_reported := Some out, ve_score := score, ve_passed := Some passed\<rparr> else v) (st_verifs st)\<rparr>"

text \<open>A host read while it verifies gets the latest verification without a result.\<close>

definition open_spec :: "string \<Rightarrow> hstore \<Rightarrow> vspec option" where
  "open_spec k st = (case rev (filter (\<lambda>v. vs_host (ve_spec v) = k \<and> ve_passed v = None) (st_verifs st)) of [] \<Rightarrow> None | v # _ \<Rightarrow> Some (ve_spec v))"

definition read_row :: "hstore \<Rightarrow> host \<Rightarrow> host" where
  "read_row st r = (if h_status r = Verifying then r\<lparr>h_pending := open_spec (h_id r) st\<rparr> else r)"

definition load_host :: "string \<Rightarrow> hstore \<Rightarrow> host option" where
  "load_host k st = map_option (read_row st) (map_of (st_hosts st) k)"

definition load_hosts :: "hstore \<Rightarrow> host list" where
  "load_hosts st = map (\<lambda>(k, r). read_row st r) (st_hosts st)"

section \<open>The registry\<close>

record hsys =
  hs_hosts :: "(string \<times> host) list"
  hs_done :: "(string \<times> nat) list"
  hs_store :: hstore

definition hs_init :: "hstore \<Rightarrow> hsys" where
  "hs_init st = \<lparr>hs_hosts = [], hs_done = [], hs_store = st\<rparr>"

definition done_of :: "string \<Rightarrow> hsys \<Rightarrow> nat" where
  "done_of k s = (case map_of (hs_done s) k of None \<Rightarrow> 0 | Some n \<Rightarrow> n)"

text \<open>A changed host goes into the dictionary and, with its new events, to the store.\<close>

definition put_host :: "host \<Rightarrow> hsys \<Rightarrow> hsys" where
  "put_host h s = s\<lparr>hs_hosts := AList.update (h_id h) h (hs_hosts s)\<rparr>"

definition persist :: "host \<Rightarrow> hsys \<Rightarrow> hsys" where
  "persist h s = s\<lparr>hs_store := save_host h (drop (done_of (h_id h) s) (h_history h)) (hs_store s),
                    hs_done := AList.update (h_id h) (length (h_history h)) (hs_done s)\<rparr>"

definition save :: "host \<Rightarrow> hsys \<Rightarrow> hsys" where
  "save h s = persist h (put_host h s)"

definition load_from_store :: "hsys \<Rightarrow> hsys \<times> nat" where
  "load_from_store s =
     (let hs = load_hosts (hs_store s)
      in (s\<lparr>hs_hosts := fold (\<lambda>h. AList.update (h_id h) h) hs [], hs_done := fold (\<lambda>h. AList.update (h_id h) (length (h_history h))) hs []\<rparr>, length hs))"

definition transition :: "host \<Rightarrow> hstatus \<Rightarrow> string \<Rightarrow> herror + host" where
  "transition h to reason =
     (if to \<in> set (ALLOWED_TRANSITIONS (h_status h)) then Inr (h\<lparr>h_history := h_history h @ [(h_status h, to, reason)], h_status := to\<rparr>)
      else Inl InvalidTransition)"

definition host_id_ok :: "string \<Rightarrow> bool" where
  "host_id_ok k \<longleftrightarrow> 3 \<le> length k \<and> length k \<le> 64 \<and> (\<forall>c\<in>set k. c \<in> set ''abcdefghijklmnopqrstuvwxyz0123456789_-'')"

record application =
  ap_owner :: string
  ap_model :: string
  ap_gpus :: int
  ap_vram :: rat
  ap_region :: string
  ap_own :: bool
  ap_id :: "string option"

definition new_host :: "rat \<Rightarrow> string \<Rightarrow> application \<Rightarrow> host" where
  "new_host now k q =
     \<lparr>h_id = k, h_owner = ap_owner q, h_model = strip (ap_model q), h_gpus = ap_gpus q, h_vram = ap_vram q, h_region = ap_region q,
      h_own = ap_own q, h_status = Pending, h_trust = NoTrust, h_score = None, h_beat = None, h_created = now, h_history = [],
      h_pending = None, h_reservation = None\<rparr>"

text \<open>\<open>fresh\<close> is the generated id.\<close>

definition apply_host :: "bool \<Rightarrow> rat \<Rightarrow> string \<Rightarrow> application \<Rightarrow> hsys \<Rightarrow> hsys \<times> (herror + host)" where
  "apply_host on now fresh q s =
     (if \<not> on then (s, Inl HostsDisabled)
      else if ap_gpus q < 1 \<or> ap_vram q \<le> 0 \<or> strip (ap_model q) = [] then (s, Inl HValueError)
      else if (case ap_id q of None \<Rightarrow> False | Some k \<Rightarrow> \<not> host_id_ok k) then (s, Inl HValueError)
      else let k = (case ap_id q of None \<Rightarrow> fresh | Some k \<Rightarrow> k); h = new_host now k q
           in if map_of (hs_hosts s) k \<noteq> None then (s, Inl HValueError) else (save h s, Inr h))"

definition refresh :: "string \<Rightarrow> hsys \<Rightarrow> hsys" where
  "refresh k s =
     (case map_of (hs_hosts s) k of
        Some h \<Rightarrow> if h_reservation h \<noteq> None then s
                  else (case load_host k (hs_store s) of
                          None \<Rightarrow> s\<lparr>hs_hosts := AList.delete k (hs_hosts s)\<rparr>
                        | Some f \<Rightarrow> s\<lparr>hs_hosts := AList.update k f (hs_hosts s), hs_done := AList.update k (length (h_history f)) (hs_done s)\<rparr>)
      | None \<Rightarrow> (case load_host k (hs_store s) of
                    None \<Rightarrow> s
                  | Some f \<Rightarrow> s\<lparr>hs_hosts := AList.update k f (hs_hosts s), hs_done := AList.update k (length (h_history f)) (hs_done s)\<rparr>))"

section \<open>Verification\<close>

type_synonym thresholds = "(string \<times> rat option \<times> rat option) list"

text \<open>The bounds of a model: both present, positive and in order.\<close>

definition bounds_of :: "thresholds \<Rightarrow> string \<Rightarrow> (rat \<times> rat) option" where
  "bounds_of th model =
     (case lookup_threshold th model of
        Some (Some lo, Some hi) \<Rightarrow> if 0 < lo \<and> lo < hi then Some (lo, hi) else None
      | _ \<Rightarrow> None)"

definition sv_reserve :: "bool \<Rightarrow> thresholds \<Rightarrow> int \<Rightarrow> string \<Rightarrow> string \<Rightarrow> hsys \<Rightarrow> hsys \<times> (herror + hstatus \<times> rat \<times> rat)" where
  "sv_reserve on th n token k s =
     (if \<not> on then (s, Inl HostsDisabled)
      else if \<not> (1 \<le> n \<and> n \<le> MAX_EXACT_N) then (s, Inl HValueError)
      else case map_of (hs_hosts s) k of
             None \<Rightarrow> (s, Inl HKeyError)
           | Some h \<Rightarrow>
               (case bounds_of th (h_model h) of
                  None \<Rightarrow> (s, Inl InvalidTransition)
                | Some (lo, hi) \<Rightarrow>
                    (case transition h Verifying ''verification reserved'' of
                       Inl x \<Rightarrow> (s, Inl x)
                     | Inr h' \<Rightarrow> (save (h'\<lparr>h_reservation := Some token, h_pending := None\<rparr>) s, Inr (h_status h, lo, hi)))))"

text \<open>The reference hash failed: the previous status comes back, outside the table of transitions.\<close>

definition sv_release :: "hstatus \<Rightarrow> string \<Rightarrow> string \<Rightarrow> hsys \<Rightarrow> hsys" where
  "sv_release prev token k s =
     (case map_of (hs_hosts s) k of
        None \<Rightarrow> s
      | Some h \<Rightarrow>
          if h_reservation h = Some token \<and> h_status h = Verifying
          then (let h' = h\<lparr>h_history := h_history h @ [(Verifying, prev, ''verification reservation released'')], h_status := prev\<rparr>
                in put_host (h'\<lparr>h_reservation := None\<rparr>) (persist h' s))
          else if h_reservation h = Some token then put_host (h\<lparr>h_reservation := None\<rparr>) s else s)"

definition sv_finish :: "string \<Rightarrow> vspec \<Rightarrow> string \<Rightarrow> hsys \<Rightarrow> hsys \<times> (herror + vspec)" where
  "sv_finish token sp k s =
     (case map_of (hs_hosts s) k of
        None \<Rightarrow> (s, Inl InvalidTransition)
      | Some h \<Rightarrow>
          if h_reservation h \<noteq> Some token \<or> h_status h \<noteq> Verifying then (s, Inl InvalidTransition)
          else let s' = put_host (h\<lparr>h_reservation := None, h_pending := Some sp\<rparr>) s
               in (s'\<lparr>hs_store := st_start_verification sp (hs_store s')\<rparr>, Inr sp))"

definition make_spec :: "string \<Rightarrow> string \<Rightarrow> string \<Rightarrow> string \<Rightarrow> nat \<Rightarrow> nat \<Rightarrow> string \<Rightarrow> rat \<times> rat \<Rightarrow> vspec" where
  "make_spec job k img seed n reps expected b =
     \<lparr>vs_job = job, vs_host = k, vs_image = img, vs_seed = seed, vs_n = n, vs_reps = reps, vs_expected = expected, vs_min = fst b, vs_max = snd b\<rparr>"

text \<open>The whole call when nothing interferes; \<open>expected\<close> is the reference hash or \<open>None\<close> when computing it raised.\<close>

definition start_verification ::
  "bool \<Rightarrow> thresholds \<Rightarrow> nat \<Rightarrow> nat \<Rightarrow> string \<Rightarrow> string \<Rightarrow> string \<Rightarrow> string \<Rightarrow> string option \<Rightarrow> string \<Rightarrow> hsys \<Rightarrow> hsys \<times> (herror + vspec) option" where
  "start_verification on th n reps img token job seed expected k s =
     (case sv_reserve on th (int n) token k s of
        (s', Inl x) \<Rightarrow> (s', Some (Inl x))
      | (s', Inr (prev, b)) \<Rightarrow>
          (case expected of
             None \<Rightarrow> (sv_release prev token k s', None)
           | Some e \<Rightarrow> (case sv_finish token (make_spec job k img seed n reps e b) k s' of (s'', r) \<Rightarrow> (s'', Some r))))"

text \<open>
  \<open>submit_verification\<close>: \<open>elapsed\<close> is \<open>None\<close> when the report is not a finite number. \<open>hmac.compare_digest\<close> raises for a string that is
  not ASCII, after the pending verification was cleared.
\<close>

definition score_of :: "vspec \<Rightarrow> rat option \<Rightarrow> rat option" where
  "score_of sp elapsed = (case elapsed of Some e \<Rightarrow> if e > 0 then Some (tflops (vs_n sp) (vs_reps sp) e) else None | None \<Rightarrow> None)"

definition passes :: "vspec \<Rightarrow> string \<Rightarrow> rat option \<Rightarrow> bool" where
  "passes sp out elapsed \<longleftrightarrow>
     out = vs_expected sp \<and> (case score_of sp elapsed of None \<Rightarrow> False | Some x \<Rightarrow> vs_min sp \<le> x \<and> x \<le> vs_max sp)"

definition submit_verification :: "bool \<Rightarrow> rat \<Rightarrow> string \<Rightarrow> string \<Rightarrow> string \<Rightarrow> rat option \<Rightarrow> hsys \<Rightarrow> hsys \<times> (herror + host)" where
  "submit_verification on now k job out elapsed s =
     (if \<not> on then (s, Inl HostsDisabled)
      else case map_of (hs_hosts s) k of
             None \<Rightarrow> (s, Inl HKeyError)
           | Some h \<Rightarrow>
               (case h_pending h of
                  None \<Rightarrow> (s, Inl InvalidTransition)
                | Some sp \<Rightarrow>
                    if h_status h \<noteq> Verifying \<or> vs_job sp \<noteq> job then (s, Inl InvalidTransition)
                    else if \<not> is_ascii out then (put_host (h\<lparr>h_pending := None\<rparr>) s, Inl HTypeError)
                    else
                      let ok = passes sp out elapsed;
                          h1 = h\<lparr>h_pending := None\<rparr>;
                          h2 = (if ok then h1\<lparr>h_score := score_of sp elapsed, h_trust := (if h_own h then Verified else Probation), h_beat := Some now\<rparr>
                                else h1\<lparr>h_trust := NoTrust\<rparr>)
                      in case transition h2 (if ok then Active else Suspended)
                               (if ok then ''verification passed'' else if out \<noteq> vs_expected sp then ''hash mismatch'' else ''benchmark outside bounds'') of
                           Inl x \<Rightarrow> (put_host h2 s, Inl x)
                         | Inr h3 \<Rightarrow>
                             (let s1 = s\<lparr>hs_store := st_finish_verification job (take 128 out) (score_of sp elapsed) ok (hs_store s)\<rparr>
                              in (save h3 s1, Inr h3))))"

definition promote :: "bool \<Rightarrow> string \<Rightarrow> hsys \<Rightarrow> hsys \<times> (herror + host)" where
  "promote on k s =
     (if \<not> on then (s, Inl HostsDisabled)
      else case map_of (hs_hosts s) k of
             None \<Rightarrow> (s, Inl HKeyError)
           | Some h \<Rightarrow> if h_status h \<noteq> Active then (s, Inl InvalidTransition)
                       else (let h' = h\<lparr>h_trust := Verified\<rparr> in (save h' s, Inr h')))"

definition suspend :: "bool \<Rightarrow> string \<Rightarrow> string \<Rightarrow> hsys \<Rightarrow> hsys \<times> (herror + host)" where
  "suspend on k reason s =
     (if \<not> on then (s, Inl HostsDisabled)
      else case map_of (hs_hosts s) k of
             None \<Rightarrow> (s, Inl HKeyError)
           | Some h \<Rightarrow>
               (case transition h Suspended reason of
                  Inl x \<Rightarrow> (s, Inl x)
                | Inr h1 \<Rightarrow> (let h' = h1\<lparr>h_trust := NoTrust, h_reservation := None, h_pending := None\<rparr> in (save h' s, Inr h'))))"

section \<open>Heartbeats\<close>

definition host_heartbeat :: "bool \<Rightarrow> rat \<Rightarrow> string \<Rightarrow> hsys \<Rightarrow> hsys \<times> (herror + bool)" where
  "host_heartbeat on now k s =
     (if \<not> on then (s, Inl HostsDisabled)
      else case map_of (hs_hosts s) k of
             None \<Rightarrow> (s, Inr False)
           | Some h \<Rightarrow> if h_status h \<noteq> Active then (s, Inr False) else (save (h\<lparr>h_beat := Some now\<rparr>) s, Inr True))"

definition heartbeat_sla_seconds :: "int option \<Rightarrow> int" where
  "heartbeat_sla_seconds env = (case env of None \<Rightarrow> 60 | Some v \<Rightarrow> if v > 0 then v else 60)"

definition is_schedulable :: "bool \<Rightarrow> int \<Rightarrow> rat \<Rightarrow> string \<Rightarrow> hsys \<Rightarrow> bool" where
  "is_schedulable on sla now k s =
     (on \<and> (case map_of (hs_hosts s) k of
               None \<Rightarrow> False
             | Some h \<Rightarrow> h_status h = Active \<and> h_trust h = Verified \<and>
                 (case h_beat h of None \<Rightarrow> False | Some b \<Rightarrow> now - b \<le> of_int sla)))"

definition late :: "int \<Rightarrow> rat \<Rightarrow> host \<Rightarrow> bool" where
  "late sla now h \<longleftrightarrow> h_status h = Active \<and> (case h_beat h of None \<Rightarrow> True | Some b \<Rightarrow> now - b > of_int sla)"

definition sweep_host :: "host \<Rightarrow> host" where
  "sweep_host h = h\<lparr>h_history := h_history h @ [(h_status h, Suspended, ''heartbeat SLA missed'')], h_status := Suspended, h_trust := NoTrust\<rparr>"

fun sweep_keys :: "int \<Rightarrow> rat \<Rightarrow> string list \<Rightarrow> hsys \<Rightarrow> hsys \<times> string list" where
  "sweep_keys sla now [] s = (s, [])"
| "sweep_keys sla now (k # ks) s =
     (case map_of (hs_hosts s) k of
        None \<Rightarrow> sweep_keys sla now ks s
      | Some h \<Rightarrow> if late sla now h then (case sweep_keys sla now ks (save (sweep_host h) s) of (s', out) \<Rightarrow> (s', k # out))
                  else sweep_keys sla now ks s)"

definition sweep_sla :: "bool \<Rightarrow> int \<Rightarrow> rat \<Rightarrow> hsys \<Rightarrow> hsys \<times> (herror + string list)" where
  "sweep_sla on sla now s =
     (if \<not> on then (s, Inl HostsDisabled) else case sweep_keys sla now (map fst (hs_hosts s)) s of (s', out) \<Rightarrow> (s', Inr out))"

definition schedulable_hosts :: "bool \<Rightarrow> int \<Rightarrow> rat \<Rightarrow> hsys \<Rightarrow> host list" where
  "schedulable_hosts on sla now s = filter (\<lambda>h. is_schedulable on sla now (h_id h) s) (map snd (hs_hosts s))"

section \<open>The invariant\<close>

text \<open>Trust, score and heartbeat belong to active hosts, pending work and reservations to hosts under verification, never both.\<close>

definition host_ok :: "host \<Rightarrow> bool" where
  "host_ok h \<longleftrightarrow> (h_status h = Active \<longleftrightarrow> h_trust h \<noteq> NoTrust) \<and> (h_status h = Active \<longrightarrow> h_beat h \<noteq> None \<and> h_score h \<noteq> None)
     \<and> (h_pending h \<noteq> None \<longrightarrow> h_status h = Verifying \<and> h_reservation h = None) \<and> (h_reservation h \<noteq> None \<longrightarrow> h_status h = Verifying)"

text \<open>The store holds the registry's hosts, one row each.\<close>

definition sys_ok :: "hsys \<Rightarrow> bool" where
  "sys_ok s \<longleftrightarrow> (\<forall>k h. map_of (hs_hosts s) k = Some h \<longrightarrow> h_id h = k \<and> host_ok h)
     \<and> (\<forall>k. map_of (st_hosts (hs_store s)) k = map_option row_of (map_of (hs_hosts s) k))
     \<and> distinct (map fst (hs_hosts s)) \<and> distinct (map fst (st_hosts (hs_store s)))"

definition static :: "host \<Rightarrow> string \<times> string \<times> string \<times> int \<times> rat \<times> string \<times> bool \<times> rat" where
  "static h = (h_id h, h_owner h, h_model h, h_gpus h, h_vram h, h_region h, h_own h, h_created h)"

lemma merge_row_of: "static h = static h' \<Longrightarrow> merge_row (row_of h) h' = row_of h'"
  by (cases h; cases h') (simp add: static_def merge_row_def row_of_def)

lemma host_ok_row: "host_ok h \<Longrightarrow> host_ok (row_of h)"
  by (simp add: host_ok_def row_of_def)

lemma distinct_update: "distinct (map fst xs) \<Longrightarrow> distinct (map fst (AList.update k v xs))"
  by (rule distinct_update)

lemma save_store:
  "st_hosts (hs_store (save h s)) = AList.update (h_id h) (case map_of (st_hosts (hs_store s)) (h_id h) of None \<Rightarrow> row_of h | Some old \<Rightarrow> merge_row old h) (st_hosts (hs_store s))"
  "hs_hosts (save h s) = AList.update (h_id h) h (hs_hosts s)"
  by (simp_all add: save_def persist_def put_host_def save_host_def)

lemma sys_ok_save:
  assumes "sys_ok s" and "host_ok h'" and "case map_of (hs_hosts s) (h_id h') of None \<Rightarrow> True | Some h \<Rightarrow> static h = static h'"
  shows "sys_ok (save h' s)"
proof -
  have row: "(case map_of (st_hosts (hs_store s)) (h_id h') of None \<Rightarrow> row_of h' | Some old \<Rightarrow> merge_row old h') = row_of h'"
  proof (cases "map_of (hs_hosts s) (h_id h')")
    case None
    then have "map_of (st_hosts (hs_store s)) (h_id h') = None" using assms(1) unfolding sys_ok_def by simp
    then show ?thesis by simp
  next
    case (Some h)
    then have "map_of (st_hosts (hs_store s)) (h_id h') = Some (row_of h)" using assms(1) unfolding sys_ok_def by simp
    then show ?thesis using assms(3) Some merge_row_of [of h h'] by simp
  qed
  show ?thesis
    using assms(1,2) unfolding sys_ok_def save_store row by (auto simp: update_conv' distinct_update)
qed

lemma sys_ok_put:
  assumes "sys_ok s" and "host_ok h'" and "map_of (hs_hosts s) (h_id h') = Some h" and "row_of h' = row_of h"
  shows "sys_ok (put_host h' s)"
  using assms unfolding sys_ok_def put_host_def by (auto simp: update_conv' distinct_update)

lemma sys_ok_verifs: "sys_ok (s\<lparr>hs_store := (hs_store s)\<lparr>st_verifs := v\<rparr>\<rparr>) = sys_ok s"
  by (simp add: sys_ok_def)

lemma sys_ok_done: "sys_ok (s\<lparr>hs_done := d\<rparr>) = sys_ok s"
  by (simp add: sys_ok_def)

lemma sys_ok_host: "sys_ok s \<Longrightarrow> map_of (hs_hosts s) k = Some h \<Longrightarrow> h_id h = k \<and> host_ok h"
  by (simp add: sys_ok_def)

lemma transition_cases:
  assumes "transition h to r = Inr h'"
  shows "h' = h\<lparr>h_history := h_history h @ [(h_status h, to, r)], h_status := to\<rparr>" and "to \<in> set (ALLOWED_TRANSITIONS (h_status h))"
  using assms by (auto simp: transition_def split: if_splits)

section \<open>Every operation keeps it\<close>

lemma apply_ok: "sys_ok s \<Longrightarrow> sys_ok (fst (apply_host on now fresh q s))"
  by (auto simp: apply_host_def Let_def new_host_def host_ok_def intro!: sys_ok_save split: option.splits)

lemma reserve_ok:
  assumes "sys_ok s"
  shows "sys_ok (fst (sv_reserve on th n token k s))"
proof (cases "map_of (hs_hosts s) k")
  case (Some h)
  note h = sys_ok_host [OF assms Some]
  have "sys_ok (save (h'\<lparr>h_reservation := Some token, h_pending := None\<rparr>) s)" if t: "transition h Verifying r = Inr h'" for r h'
  proof (rule sys_ok_save [OF assms])
    have "h_status h \<noteq> Active" using transition_cases(2) [OF t] by (auto simp: ALLOWED_TRANSITIONS_def split: hstatus.splits)
    then have nt: "h_trust h = NoTrust" using h by (auto simp: host_ok_def)
    show "host_ok (h'\<lparr>h_reservation := Some token, h_pending := None\<rparr>)" using nt by (simp add: transition_cases(1) [OF t] host_ok_def)
    show "case map_of (hs_hosts s) (h_id (h'\<lparr>h_reservation := Some token, h_pending := None\<rparr>)) of None \<Rightarrow> True
        | Some h \<Rightarrow> static h = static (h'\<lparr>h_reservation := Some token, h_pending := None\<rparr>)"
      using Some h by (simp add: transition_cases(1) [OF t] static_def)
  qed
  then show ?thesis using Some assms by (auto simp: sv_reserve_def split: option.splits sum.splits)
qed (use assms in \<open>simp add: sv_reserve_def\<close>)

lemma finish_ok:
  assumes "sys_ok s"
  shows "sys_ok (fst (sv_finish token sp k s))"
proof (cases "map_of (hs_hosts s) k")
  case (Some h)
  note h = sys_ok_host [OF assms Some]
  have "sys_ok (put_host (h\<lparr>h_reservation := None, h_pending := Some sp\<rparr>) s)" if "h_status h = Verifying"
    by (rule sys_ok_put [OF assms, of _ h]) (use that h Some in \<open>auto simp: host_ok_def row_of_def\<close>)
  then show ?thesis using Some assms by (auto simp: sv_finish_def Let_def st_start_verification_def sys_ok_verifs)
qed (use assms in \<open>simp add: sv_finish_def\<close>)

lemma release_ok:
  assumes "sys_ok s" and "prev \<noteq> Active"
  shows "sys_ok (sv_release prev token k s)"
proof (cases "map_of (hs_hosts s) k")
  case (Some h)
  note h = sys_ok_host [OF assms(1) Some]
  let ?h = "h\<lparr>h_history := h_history h @ [(Verifying, prev, ''verification reservation released'')], h_status := prev\<rparr>"
  show ?thesis
  proof (cases "h_reservation h = Some token \<and> h_status h = Verifying")
    case True
    let ?h' = "?h\<lparr>h_reservation := None\<rparr>"
    have st: "static h = static ?h" by (simp add: static_def)
    have row: "map_of (st_hosts (hs_store s)) k = Some (row_of h)" using assms(1) Some by (simp add: sys_ok_def)
    have pend: "h_pending h = None" "h_trust h = NoTrust" using h True by (auto simp: host_ok_def)
    have ok: "host_ok ?h'" using pend assms(2) by (simp add: host_ok_def)
    have eq: "row_of ?h = row_of ?h'" by (simp add: row_of_def)
    have "sv_release prev token k s = put_host ?h' (persist ?h s)" using Some True by (simp add: sv_release_def Let_def)
    moreover have "sys_ok (put_host ?h' (persist ?h s))"
      using assms(1) ok h row merge_row_of [OF st] eq unfolding sys_ok_def put_host_def persist_def save_host_def
      by (auto simp: update_conv' distinct_update)
    ultimately show ?thesis by simp
  next
    case False
    show ?thesis
    proof (cases "h_reservation h = Some token")
      case True
      then show ?thesis using False h by (auto simp: host_ok_def)
    qed (use Some assms(1) False in \<open>simp add: sv_release_def\<close>)
  qed
qed (use assms in \<open>simp add: sv_release_def\<close>)

lemma submit_ok:
  assumes "sys_ok s"
  shows "sys_ok (fst (submit_verification on now k job out elapsed s))"
proof (cases "map_of (hs_hosts s) k")
  case (Some h)
  note h = sys_ok_host [OF assms Some]
  show ?thesis
  proof (cases "h_pending h")
    case sp: (Some sp)
    show ?thesis
    proof (cases "\<not> on \<or> h_status h \<noteq> Verifying \<or> vs_job sp \<noteq> job")
      case False
      have sv: "h_status h = Verifying" "h_reservation h = None" using False h sp by (auto simp: host_ok_def)
      have sc: "passes sp out elapsed \<Longrightarrow> score_of sp elapsed \<noteq> None" by (auto simp: passes_def split: option.splits)
      have saved: "sys_ok (save h3 (s\<lparr>hs_store := st_finish_verification a b c d (hs_store s)\<rparr>))" if "static h3 = static h" "host_ok h3" for h3 a b c d
      proof (rule sys_ok_save [OF _ that(2)])
        show "sys_ok (s\<lparr>hs_store := st_finish_verification a b c d (hs_store s)\<rparr>)" using assms by (simp add: st_finish_verification_def sys_ok_verifs)
        show "case map_of (hs_hosts (s\<lparr>hs_store := st_finish_verification a b c d (hs_store s)\<rparr>)) (h_id h3) of None \<Rightarrow> True | Some h \<Rightarrow> static h = static h3"
          using that(1) Some h by (simp add: static_def)
      qed
      have put: "sys_ok (put_host (h\<lparr>h_pending := None\<rparr>) s)"
        by (rule sys_ok_put [OF assms, of _ h]) (use Some h sv in \<open>auto simp: host_ok_def row_of_def\<close>)
      show ?thesis
        using Some sp False put sv sc
        by (cases "passes sp out elapsed")
          (auto simp: submit_verification_def Let_def transition_def ALLOWED_TRANSITIONS_def static_def host_ok_def intro!: saved)
    qed (use Some sp assms in \<open>auto simp: submit_verification_def\<close>)
  qed (use Some assms in \<open>simp add: submit_verification_def\<close>)
qed (use assms in \<open>simp add: submit_verification_def\<close>)

lemma promote_ok:
  assumes "sys_ok s"
  shows "sys_ok (fst (promote on k s))"
  using assms sys_ok_host [OF assms, of k]
  by (auto simp: promote_def Let_def host_ok_def static_def intro!: sys_ok_save split: option.splits)

lemma suspend_ok:
  assumes "sys_ok s"
  shows "sys_ok (fst (suspend on k r s))"
  using assms sys_ok_host [OF assms, of k]
  by (auto simp: suspend_def Let_def host_ok_def static_def transition_def intro!: sys_ok_save split: option.splits sum.splits if_splits)

lemma heartbeat_ok:
  assumes "sys_ok s"
  shows "sys_ok (fst (host_heartbeat on now k s))"
  using assms sys_ok_host [OF assms, of k]
  by (auto simp: host_heartbeat_def host_ok_def static_def intro!: sys_ok_save split: option.splits)

lemma sweep_one_ok:
  assumes "sys_ok s" and "map_of (hs_hosts s) k = Some h" and "late sla now h"
  shows "sys_ok (save (sweep_host h) s)"
  using assms sys_ok_host [OF assms(1,2)]
  by (auto simp: sweep_host_def late_def host_ok_def static_def intro!: sys_ok_save split: option.splits)

lemma sweep_keys_ok: "sys_ok s \<Longrightarrow> sys_ok (fst (sweep_keys sla now ks s))"
proof (induction ks arbitrary: s)
  case (Cons k ks)
  show ?case
  proof (cases "map_of (hs_hosts s) k")
    case (Some h)
    show ?thesis
    proof (cases "late sla now h")
      case True
      from Cons.IH [OF sweep_one_ok [OF Cons.prems Some True]] show ?thesis using Some True by (auto split: prod.splits)
    qed (use Cons Some in simp)
  qed (use Cons in simp)
qed simp

lemma read_row_ok: "host_ok r \<Longrightarrow> h_reservation r = None \<Longrightarrow> host_ok (read_row st r)"
  by (auto simp: host_ok_def read_row_def)

lemma read_row_row: "row_of (read_row st (row_of h)) = row_of h" "h_id (read_row st r) = h_id r"
  by (simp_all add: read_row_def row_of_def)

lemma load_host_row: "sys_ok s \<Longrightarrow> load_host k (hs_store s) = map_option (\<lambda>h. read_row (hs_store s) (row_of h)) (map_of (hs_hosts s) k)"
  unfolding load_host_def sys_ok_def by (simp add: option.map_comp comp_def)

lemma refresh_ok:
  assumes "sys_ok s"
  shows "sys_ok (refresh k s)"
proof (cases "map_of (hs_hosts s) k")
  case (Some h)
  note h = sys_ok_host [OF assms Some]
  let ?f = "read_row (hs_store s) (row_of h)"
  have f: "host_ok ?f" by (rule read_row_ok) (use h host_ok_row in \<open>auto simp: row_of_def\<close>)
  have "sys_ok (put_host ?f s)"
    by (rule sys_ok_put [OF assms f, of h]) (use Some h in \<open>simp_all add: read_row_row, simp add: row_of_def\<close>)
  then have "sys_ok ((put_host ?f s)\<lparr>hs_done := d\<rparr>)" for d by (simp add: sys_ok_done)
  moreover have "h_id ?f = k" using h by (simp add: read_row_row row_of_def)
  ultimately show ?thesis using Some assms load_host_row [OF assms, of k] by (simp add: refresh_def put_host_def)
qed (use assms load_host_row [OF assms, of k] in \<open>simp add: refresh_def\<close>)

section \<open>Restart\<close>

lemma alist_update_fresh: "k \<notin> fst ` set xs \<Longrightarrow> AList.update k v xs = xs @ [(k, v)]"
  by (induction xs) auto

lemma fold_update_fresh:
  "distinct (map f hs) \<Longrightarrow> f ` set hs \<inter> fst ` set acc = {} \<Longrightarrow> fold (\<lambda>h. AList.update (f h) (g h)) hs acc = acc @ map (\<lambda>h. (f h, g h)) hs"
proof (induction hs arbitrary: acc)
  case (Cons h hs)
  then have "AList.update (f h) (g h) acc = acc @ [(f h, g h)]" by (intro alist_update_fresh) auto
  with Cons show ?case by auto
qed simp

lemma loaded_hosts:
  assumes "sys_ok s"
  shows "hs_hosts (fst (load_from_store s)) = map (\<lambda>(k, r). (k, read_row (hs_store s) r)) (st_hosts (hs_store s))"
proof -
  have id: "h_id r = k" if "(k, r) \<in> set (st_hosts (hs_store s))" for k r
  proof -
    have "map_of (st_hosts (hs_store s)) k = Some r" using that assms unfolding sys_ok_def by (intro map_of_is_SomeI) simp_all
    then obtain h where "map_of (hs_hosts s) k = Some h" "r = row_of h" using assms unfolding sys_ok_def by auto
    then show ?thesis using sys_ok_host [OF assms] by (simp add: row_of_def)
  qed
  have ids: "map h_id (load_hosts (hs_store s)) = map fst (st_hosts (hs_store s))"
    unfolding load_hosts_def map_map by (rule map_cong) (auto simp: id read_row_row)
  have "fold (\<lambda>h. AList.update (h_id h) h) (load_hosts (hs_store s)) [] = [] @ map (\<lambda>h. (h_id h, h)) (load_hosts (hs_store s))"
    by (rule fold_update_fresh) (use assms ids in \<open>simp_all add: sys_ok_def\<close>)
  also have "\<dots> = map (\<lambda>(k, r). (k, read_row (hs_store s) r)) (st_hosts (hs_store s))"
    unfolding load_hosts_def by (auto simp: id read_row_row)
  finally show ?thesis by (simp add: load_from_store_def Let_def)
qed

lemma map_of_map_snd: "map_of (map (\<lambda>(k, r). (k, f r)) xs) k = map_option f (map_of xs k)"
  by (induction xs) auto

lemma load_ok:
  assumes "sys_ok s"
  shows "sys_ok (fst (load_from_store s))"
    and "map_of (hs_hosts (fst (load_from_store s))) k = map_option (\<lambda>h. read_row (hs_store s) (row_of h)) (map_of (hs_hosts s) k)"
proof -
  have m: "map_of (hs_hosts (fst (load_from_store s))) k = map_option (\<lambda>h. read_row (hs_store s) (row_of h)) (map_of (hs_hosts s) k)" for k
    using assms unfolding loaded_hosts [OF assms] map_of_map_snd sys_ok_def by (simp add: option.map_comp comp_def)
  then show "map_of (hs_hosts (fst (load_from_store s))) k = map_option (\<lambda>h. read_row (hs_store s) (row_of h)) (map_of (hs_hosts s) k)" .
  have st: "hs_store (fst (load_from_store s)) = hs_store s" by (simp add: load_from_store_def Let_def)
  have hosts: "h_id h' = k \<and> host_ok h'" if a: "map_of (hs_hosts (fst (load_from_store s))) k = Some h'" for k h'
  proof -
    obtain h where h: "map_of (hs_hosts s) k = Some h" "h' = read_row (hs_store s) (row_of h)" using a m by auto
    have "host_ok h'" unfolding h(2) by (rule read_row_ok) (use sys_ok_host [OF assms h(1)] host_ok_row in \<open>auto simp: row_of_def\<close>)
    moreover have "h_id h' = k" using sys_ok_host [OF assms h(1)] h(2) by (simp add: read_row_row row_of_def)
    ultimately show ?thesis by simp
  qed
  have rows: "map_of (st_hosts (hs_store s)) k = map_option row_of (map_of (hs_hosts (fst (load_from_store s))) k)" for k
    using assms unfolding m sys_ok_def by (simp add: option.map_comp comp_def read_row_row)
  have d: "distinct (map fst (hs_hosts (fst (load_from_store s))))"
    using assms unfolding loaded_hosts [OF assms] by (simp add: sys_ok_def comp_def case_prod_beta)
  show "sys_ok (fst (load_from_store s))"
    unfolding sys_ok_def st using hosts rows d assms by (auto simp: sys_ok_def)
qed

text \<open>A host reserved again after a suspended verification; a restart then hands it the old job.\<close>

definition demo_th :: thresholds where "demo_th = [(''gpu'', Some (1 / 10 ^ 13), Some 100)]"

definition demo_app :: application where
  "demo_app = \<lparr>ap_owner = [], ap_model = ''gpu'', ap_gpus = 1, ap_vram = 8, ap_region = [], ap_own = True, ap_id = Some ''host''\<rparr>"

definition demo_verifying :: hsys where
  "demo_verifying = fst (start_verification True demo_th 2 1 [] ''t1'' ''v1'' ''s1'' (Some ''e1'') ''host'' (fst (apply_host True 0 [] demo_app (hs_init st_empty))))"

lemma restart_revives_old_job:
  "let s = fst (sv_reserve True demo_th 2 ''t2'' ''host'' (fst (suspend True ''host'' ''x'' demo_verifying)))
   in map_option (map_option vs_job \<circ> h_pending) (map_of (hs_hosts s) ''host'') = Some None \<and>
      map_option (map_option vs_job \<circ> h_pending) (map_of (hs_hosts (fst (load_from_store s))) ''host'') = Some (Some ''v1'')"
  by code_simp

section \<open>The registry as a machine\<close>

inductive hs_step :: "hsys \<Rightarrow> hsys \<Rightarrow> bool" where
  hst_apply: "hs_step s (fst (apply_host on now fresh q s))"
| hst_reserve: "hs_step s (fst (sv_reserve on th n token k s))"
| hst_finish: "hs_step s (fst (sv_finish token sp k s))"
| hst_release: "prev \<noteq> Active \<Longrightarrow> hs_step s (sv_release prev token k s)"
| hst_submit: "hs_step s (fst (submit_verification on now k job res elapsed s))"
| hst_promote: "hs_step s (fst (promote on k s))"
| hst_suspend: "hs_step s (fst (suspend on k r s))"
| hst_heartbeat: "hs_step s (fst (host_heartbeat on now k s))"
| hst_sweep: "hs_step s (fst (sweep_sla on sla now s))"
| hst_refresh: "hs_step s (refresh k s)"
| hst_restart: "hs_step s (fst (load_from_store s))"

interpretation hst: transition_system "\<lambda>s. s = hs_init st_empty" hs_step .

lemma sweep_ok: "sys_ok s \<Longrightarrow> sys_ok (fst (sweep_sla on sla now s))"
  using sweep_keys_ok [of s sla now "map fst (hs_hosts s)"] by (auto simp: sweep_sla_def split: prod.splits)

lemma hs_step_ok: "hs_step s t \<Longrightarrow> sys_ok s \<Longrightarrow> sys_ok t"
  by (induction rule: hs_step.induct)
    (simp_all add: apply_ok reserve_ok finish_ok release_ok submit_ok promote_ok suspend_ok heartbeat_ok sweep_ok refresh_ok load_ok)

lemma hs_reach_ok:
  assumes "hst.reach s"
  shows "sys_ok s"
  by (rule hst.invariant_reach [OF _ _ assms]) (auto simp: hs_step_ok, simp add: sys_ok_def hs_init_def st_empty_def)

text \<open>The release of a reservation restores the status the reservation found, which is never active.\<close>

lemma reserve_prev: "sv_reserve on th n token k s = (s', Inr (prev, b)) \<Longrightarrow> prev \<noteq> Active"
  by (auto simp: sv_reserve_def transition_def ALLOWED_TRANSITIONS_def split: if_splits option.splits sum.splits prod.splits hstatus.splits)

section \<open>Who becomes active\<close>

definition active :: "string \<Rightarrow> hsys \<Rightarrow> bool" where
  "active k s \<longleftrightarrow> (case map_of (hs_hosts s) k of None \<Rightarrow> False | Some h \<Rightarrow> h_status h = Active)"

lemma active_save: "active j (save h s) \<longleftrightarrow> (if j = h_id h then h_status h = Active else active j s)"
  by (simp add: active_def save_store update_conv')

lemma active_put: "active j (put_host h s) \<longleftrightarrow> (if j = h_id h then h_status h = Active else active j s)"
  by (simp add: active_def put_host_def update_conv')

lemma active_store: "active j (s\<lparr>hs_store := st\<rparr>) = active j s" "active j (s\<lparr>hs_done := d\<rparr>) = active j s" "active j (persist h s) = active j s"
  by (simp_all add: active_def persist_def)

lemma sweep_keys_active: "sys_ok s \<Longrightarrow> active j (fst (sweep_keys sla now ks s)) \<Longrightarrow> active j s"
proof (induction ks arbitrary: s)
  case (Cons k ks)
  show ?case
  proof (cases "map_of (hs_hosts s) k")
    case (Some h)
    show ?thesis
    proof (cases "late sla now h")
      case True
      have "active j (fst (sweep_keys sla now ks (save (sweep_host h) s)))" using Cons.prems(2) Some True by (auto split: prod.splits)
      from Cons.IH [OF sweep_one_ok [OF Cons.prems(1) Some True] this] show ?thesis
        by (auto simp: active_save sweep_host_def split: if_splits)
    qed (use Cons Some in simp)
  qed (use Cons in simp)
qed simp

lemma submit_activates:
  assumes "sys_ok s" and "active j (fst (submit_verification on now k job res elapsed s))" and "\<not> active j s"
  shows "j = k \<and> on \<and> (\<exists>h sp. map_of (hs_hosts s) k = Some h \<and> h_status h = Verifying \<and> h_pending h = Some sp \<and> vs_job sp = job \<and> passes sp res elapsed)"
proof (cases "map_of (hs_hosts s) k")
  case (Some h)
  note h = sys_ok_host [OF assms(1) Some]
  show ?thesis
  proof (cases "h_pending h")
    case sp: (Some sp)
    have v: "h_status h = Verifying" using h sp by (auto simp: host_ok_def)
    show ?thesis
    proof (cases "on \<and> vs_job sp = job \<and> is_ascii res \<and> passes sp res elapsed")
      case True
      then show ?thesis using assms(2,3) Some sp v h
        by (auto simp: submit_verification_def Let_def transition_def ALLOWED_TRANSITIONS_def active_save active_store split: if_splits)
    next
      case False
      have "\<not> active j (fst (submit_verification on now k job res elapsed s))"
        using False assms(3) Some sp v h
        by (auto simp: submit_verification_def Let_def transition_def ALLOWED_TRANSITIONS_def active_save active_put active_store)
      with assms(2) show ?thesis by simp
    qed
  qed (use Some assms in \<open>cases on; simp add: submit_verification_def\<close>)
qed (use assms in \<open>cases on; simp add: submit_verification_def\<close>)

lemma row_active: "h_status (read_row st (row_of h)) = h_status h"
  by (simp add: read_row_def row_of_def)

lemma only_submit_activates:
  assumes "hs_step s t" and "sys_ok s" and "active j t" and "\<not> active j s"
  shows "\<exists>now job res elapsed h sp. t = fst (submit_verification True now j job res elapsed s) \<and> map_of (hs_hosts s) j = Some h \<and> h_status h = Verifying
     \<and> h_pending h = Some sp \<and> vs_job sp = job \<and> passes sp res elapsed"
  using assms
proof (induction rule: hs_step.induct)
  case (hst_submit s on now k job res elapsed)
  from submit_activates [OF hst_submit] obtain h sp where "j = k" "on" "map_of (hs_hosts s) k = Some h" "h_status h = Verifying" "h_pending h = Some sp"
    "vs_job sp = job" "passes sp res elapsed" by (elim conjE exE) (rule that)
  then show ?case by (intro exI [of _ now] exI [of _ job] exI [of _ res] exI [of _ elapsed] exI [of _ h] exI [of _ sp]) simp
next
  case (hst_apply s on now fresh q)
  then show ?case by (auto simp: apply_host_def Let_def active_save new_host_def split: if_splits option.splits)
next
  case (hst_reserve s on th n token k)
  then show ?case by (auto simp: sv_reserve_def active_save transition_def split: if_splits option.splits sum.splits prod.splits)
next
  case (hst_finish s token sp k)
  then show ?case by (auto simp: sv_finish_def Let_def active_put active_store split: if_splits option.splits)
next
  case (hst_release prev s token k)
  then show ?case
    by (auto simp: sv_release_def Let_def active_put active_store active_def [of _ s] split: if_splits option.splits dest: sys_ok_host)
next
  case (hst_promote s on k)
  then show ?case by (auto simp: promote_def Let_def active_save active_def [of _ s] split: if_splits option.splits dest: sys_ok_host)
next
  case (hst_suspend s on k r)
  then show ?case by (auto simp: suspend_def Let_def active_save transition_def split: if_splits option.splits sum.splits)
next
  case (hst_heartbeat s on now k)
  then show ?case by (auto simp: host_heartbeat_def active_save active_def [of _ s] split: if_splits option.splits dest: sys_ok_host)
next
  case (hst_sweep s on sla now)
  then show ?case using sweep_keys_active by (auto simp: sweep_sla_def split: if_splits prod.splits) (metis fst_conv)
next
  case (hst_refresh s k)
  then show ?case using load_host_row [OF hst_refresh(1), of k]
    by (auto simp: refresh_def active_def update_conv' delete_conv' row_active split: if_splits option.splits)
next
  case (hst_restart s)
  then show ?case using load_ok(2) [OF hst_restart(1), of j] by (auto simp: active_def row_active split: option.splits)
qed

section \<open>Scheduling and the sweep\<close>

lemma sweep_keys_exact:
  assumes "sys_ok s" and "distinct ks" and "set ks \<subseteq> fst ` set (hs_hosts s)"
  shows "snd (sweep_keys sla now ks s) = filter (\<lambda>k. case map_of (hs_hosts s) k of None \<Rightarrow> False | Some h \<Rightarrow> late sla now h) ks
    \<and> (\<forall>j h. map_of (hs_hosts (fst (sweep_keys sla now ks s))) j = Some h \<longrightarrow> j \<in> set ks \<longrightarrow> \<not> late sla now h)
    \<and> (\<forall>j. j \<notin> set ks \<longrightarrow> map_of (hs_hosts (fst (sweep_keys sla now ks s))) j = map_of (hs_hosts s) j)"
  using assms
proof (induction ks arbitrary: s)
  case (Cons k ks)
  have "k \<in> fst ` set (hs_hosts s)" using Cons.prems(3) by simp
  then obtain h where k: "map_of (hs_hosts s) k = Some h" by (metis map_of_eq_None_iff not_None_eq)
  have id: "h_id h = k" using sys_ok_host [OF Cons.prems(1) k] by simp
  show ?case
  proof (cases "late sla now h")
    case True
    let ?s = "save (sweep_host h) s"
    have idh: "h_id (sweep_host h) = k" using id by (simp add: sweep_host_def)
    have ks: "set ks \<subseteq> fst ` set (hs_hosts ?s)" using Cons.prems(3) by (auto simp: save_store update_conv' dom_map_of_conv_image_fst [symmetric])
    have mp: "map_of (hs_hosts ?s) j = (if j = k then Some (sweep_host h) else map_of (hs_hosts s) j)" for j
      by (simp add: save_store update_conv' idh)
    have kn: "k \<notin> set ks" using Cons.prems(2) by simp
    note ih = Cons.IH [OF sweep_one_ok [OF Cons.prems(1) k True] _ ks]
    have f: "filter (\<lambda>k. case map_of (hs_hosts ?s) k of None \<Rightarrow> False | Some h \<Rightarrow> late sla now h) ks
        = filter (\<lambda>k. case map_of (hs_hosts s) k of None \<Rightarrow> False | Some h \<Rightarrow> late sla now h) ks"
      by (rule filter_cong) (use mp kn in auto)
    obtain t out where r: "sweep_keys sla now ks ?s = (t, out)" by fastforce
    have nl: "\<not> late sla now (sweep_host h)" by (simp add: late_def sweep_host_def)
    have ih': "out = filter (\<lambda>k. case map_of (hs_hosts s) k of None \<Rightarrow> False | Some h \<Rightarrow> late sla now h) ks"
      "\<And>j h. map_of (hs_hosts t) j = Some h \<Longrightarrow> j \<in> set ks \<Longrightarrow> \<not> late sla now h" "\<And>j. j \<notin> set ks \<Longrightarrow> map_of (hs_hosts t) j = map_of (hs_hosts ?s) j"
      using ih r f Cons.prems(2) by auto
    have kt: "map_of (hs_hosts t) k = Some (sweep_host h)" using ih'(3) [OF kn] mp by simp
    show ?thesis using k True r ih'(1,2) ih'(3) kt nl mp by auto
  next
    case False
    have "set ks \<subseteq> fst ` set (hs_hosts s)" "distinct ks" "k \<notin> set ks" using Cons.prems by simp_all
    with Cons.IH [OF Cons.prems(1)] k False show ?thesis by auto
  qed
qed simp

section \<open>Properties\<close>



text \<open>C22: A host becomes active only by a verification: whenever a step makes a host active that was not, the step submitted the result of
  the host's pending job, with the expected hash and a positive time whose score lies within the job's bounds.\<close>

theorem active_only_by_verification:
  assumes "hst.reach s" and "hs_step s t" and "active k t" and "\<not> active k s"
  shows "\<exists>now job res elapsed h sp x. t = fst (submit_verification True now k job res elapsed s) \<and> map_of (hs_hosts s) k = Some h
    \<and> h_status h = Verifying \<and> h_pending h = Some sp \<and> vs_job sp = job \<and> res = vs_expected sp
    \<and> score_of sp elapsed = Some x \<and> vs_min sp \<le> x \<and> x \<le> vs_max sp"
proof -
  obtain now job res elapsed h sp where w: "t = fst (submit_verification True now k job res elapsed s)" "map_of (hs_hosts s) k = Some h"
    "h_status h = Verifying" "h_pending h = Some sp" "vs_job sp = job" "passes sp res elapsed"
    using only_submit_activates [OF assms(2) hs_reach_ok [OF assms(1)] assms(3,4)] by (elim exE conjE) (rule that)
  from w(6) obtain x where "res = vs_expected sp" "score_of sp elapsed = Some x" "vs_min sp \<le> x" "x \<le> vs_max sp"
    by (auto simp: passes_def split: option.splits)
  with w show ?thesis by blast
qed

theorem active_only_by_verification_witness:
  "let t = fst (submit_verification True 9 ''host'' ''v1'' ''e1'' (Some 1) demo_verifying) in
   active ''host'' t \<and> (\<exists>now job res elapsed h sp x. t = fst (submit_verification True now ''host'' job res elapsed demo_verifying)
    \<and> map_of (hs_hosts demo_verifying) ''host'' = Some h
    \<and> h_status h = Verifying \<and> h_pending h = Some sp \<and> vs_job sp = job \<and> res = vs_expected sp
    \<and> score_of sp elapsed = Some x \<and> vs_min sp \<le> x \<and> x \<le> vs_max sp)"
proof -
  let ?a = "fst (apply_host True 0 [] demo_app (hs_init st_empty))"
  let ?r = "fst (sv_reserve True demo_th 2 ''t1'' ''host'' ?a)"
  let ?f = "fst (sv_finish ''t1'' (make_spec ''v1'' ''host'' [] ''s1'' 2 1 ''e1'' (1 / 10 ^ 13, 100)) ''host'' ?r)"
  have "hst.reach (hs_init st_empty)" by (rule hst.reach_init) simp
  then have "hst.reach ?f" by (intro hst.reach_step [OF _ hst_apply] hst.reach_step [OF _ hst_reserve] hst.reach_step [OF _ hst_finish])
  moreover have "?f = demo_verifying" by code_simp
  ultimately have r: "hst.reach demo_verifying" by simp
  let ?t = "fst (submit_verification True 9 ''host'' ''v1'' ''e1'' (Some 1) demo_verifying)"
  have a: "active ''host'' ?t" "\<not> active ''host'' demo_verifying" by code_simp+
  show ?thesis using active_only_by_verification [OF r hst_submit a] a(1) by (simp add: Let_def)
qed

text \<open>A restart finds the registry it left: after reloading from the store every host has the status, trust, score, heartbeat and
  declared hardware it had, and no host appears or disappears.\<close>

theorem restart_keeps_hosts:
  assumes "hst.reach s"
  shows "map_option row_of (map_of (hs_hosts (fst (load_from_store s))) k) = map_option row_of (map_of (hs_hosts s) k)"
  using load_ok(2) [OF hs_reach_ok [OF assms], of k] by (simp add: option.map_comp comp_def read_row_row)

theorem restart_keeps_hosts_witness:
  "map_option row_of (map_of (hs_hosts (fst (load_from_store (fst (apply_host True 0 [] demo_app (hs_init st_empty)))))) ''host'')
   = map_option row_of (map_of (hs_hosts (fst (apply_host True 0 [] demo_app (hs_init st_empty)))) ''host'')"
  by (rule restart_keeps_hosts) (rule hst.reach_step [OF hst.reach_init hst_apply], simp)

text \<open>The sweep suspends exactly the active hosts whose heartbeat is older than the limit and reports them; afterwards no active host is
  late, so every host that is active and verified can be scheduled.\<close>

theorem sweep_is_exact:
  assumes "hst.reach s" and "sweep_sla True sla now s = (t, Inr late_ids)"
  shows "late_ids = filter (\<lambda>k. case map_of (hs_hosts s) k of None \<Rightarrow> False | Some h \<Rightarrow> late sla now h) (map fst (hs_hosts s))
    \<and> (\<forall>k h. map_of (hs_hosts t) k = Some h \<longrightarrow> h_status h = Active \<longrightarrow> h_trust h = Verified \<longrightarrow> is_schedulable True sla now k t)"
proof -
  have ok: "sys_ok s" by (rule hs_reach_ok [OF assms(1)])
  have run: "sweep_keys sla now (map fst (hs_hosts s)) s = (t, late_ids)" using assms(2) by (auto simp: sweep_sla_def split: prod.splits)
  have d: "distinct (map fst (hs_hosts s))" using ok by (simp add: sys_ok_def)
  have "set (map fst (hs_hosts s)) \<subseteq> fst ` set (hs_hosts s)" by simp
  from sweep_keys_exact [OF ok d this, of sla now, unfolded run] have ex: "late_ids = filter (\<lambda>k. case map_of (hs_hosts s) k of None \<Rightarrow> False | Some h \<Rightarrow> late sla now h) (map fst (hs_hosts s))"
    "\<And>k h. map_of (hs_hosts t) k = Some h \<Longrightarrow> k \<in> fst ` set (hs_hosts s) \<Longrightarrow> \<not> late sla now h"
    "\<And>k. k \<notin> fst ` set (hs_hosts s) \<Longrightarrow> map_of (hs_hosts t) k = map_of (hs_hosts s) k" by auto
  have "is_schedulable True sla now k t" if "map_of (hs_hosts t) k = Some h" "h_status h = Active" "h_trust h = Verified" for k h
  proof -
    have "k \<in> fst ` set (hs_hosts s)" using ex(3) [of k] that(1) by (metis map_of_eq_None_iff option.distinct(1))
    from ex(2) [OF that(1) this] that show ?thesis by (auto simp: is_schedulable_def late_def split: option.splits)
  qed
  with ex(1) show ?thesis by blast
qed

theorem sweep_is_exact_witness:
  "let s = fst (apply_host True 0 [] demo_app (hs_init st_empty)) in
   snd (sweep_sla True 60 5 s) = Inr (filter (\<lambda>k. case map_of (hs_hosts s) k of None \<Rightarrow> False | Some h \<Rightarrow> late 60 5 h) (map fst (hs_hosts s)))"
proof -
  let ?s = "fst (apply_host True 0 [] demo_app (hs_init st_empty))"
  have r: "hst.reach ?s" by (rule hst.reach_step [OF hst.reach_init hst_apply]) simp
  obtain t ls where "sweep_keys 60 5 (map fst (hs_hosts ?s)) ?s = (t, ls)" by fastforce
  then have w: "sweep_sla True 60 5 ?s = (t, Inr ls)" by (simp add: sweep_sla_def)
  from sweep_is_exact [OF r w] w show ?thesis by (simp add: Let_def)
qed

end
