(* ===== verification/HostApi.thy ===== *)
theory HostApi
  imports Hosts
begin

text \<open>
  The API of the host agents: \<open>src/gpu_worker/host_api.py\<close>, the token tables of \<open>src/gpu_worker/host_store.py\<close> (in
  memory and in PostgreSQL) and the limiter per address of \<open>src/routers/hosts_agent.py\<close>.

  The handler is modelled over the PostgreSQL store. Tokens reach the stores as hashes; the hash is the parameter
  \<open>sha\<close>, fresh tokens are arguments. A request is the record of its fields; a token that is not a non-empty string is
  \<open>None\<close>. Clocks are monotonic, as \<open>time.monotonic\<close> is.

  Shown, once for both token stores: a job token is accepted at most once until a new one is issued; only the current
  token of a host authenticates and a revoked one never does; a submitted result needs the job token of the
  host's own job; in no window of the limiter's length are more requests accepted than its limit.
\<close>

section \<open>Token stores\<close>

text \<open>One operation on job tokens: consume, or issue for a host with a hash.\<close>

type_synonym token_op = "string \<times> (string \<times> string) option"

fun run_tokens :: "(string \<Rightarrow> string \<Rightarrow> string \<Rightarrow> 's \<Rightarrow> 's) \<Rightarrow> (string \<Rightarrow> 's \<Rightarrow> 's \<times> (string \<times> string) option) \<Rightarrow> token_op list \<Rightarrow> 's \<Rightarrow> 's" where
  "run_tokens put con [] s = s"
| "run_tokens put con ((j, None) # ops) s = run_tokens put con ops (fst (con j s))"
| "run_tokens put con ((j, Some (h, t)) # ops) s = run_tokens put con ops (put j h t s)"

locale job_tokens =
  fixes put :: "string \<Rightarrow> string \<Rightarrow> string \<Rightarrow> 's \<Rightarrow> 's"
    and con :: "string \<Rightarrow> 's \<Rightarrow> 's \<times> (string \<times> string) option"
  assumes con_put: "snd (con j (put j h t s)) = Some (h, t)"
    and con_put_other: "i \<noteq> j \<Longrightarrow> snd (con i (put j h t s)) = snd (con i s)"
    and con_con: "snd (con i (fst (con j s))) = (if i = j then None else snd (con i s))"
begin

lemma spent_stays:
  assumes "snd (con j s) = None" and "\<forall>op\<in>set ops. fst op = j \<longrightarrow> snd op = None"
  shows "snd (con j (run_tokens put con ops s)) = None"
  using assms
proof (induction ops arbitrary: s)
  case (Cons op ops)
  obtain i x where op: "op = (i, x)" by fastforce
  show ?case
  proof (cases x)
    case None
    with Cons op show ?thesis by (simp add: con_con)
  next
    case (Some ht)
    obtain h t where "ht = (h, t)" by fastforce
    moreover have "i \<noteq> j" using Cons.prems(2) op Some by auto
    ultimately show ?thesis using Cons op Some by (simp add: con_put_other)
  qed
qed simp

lemma single_use:
  assumes "\<forall>op\<in>set ops. fst op = j \<longrightarrow> snd op = None"
  shows "snd (con j (run_tokens put con ops (fst (con j s)))) = None"
  by (rule spent_stays [OF _ assms]) (simp add: con_con)

end

record mem_tokens =
  mt_hosts :: "(string \<times> string) list"
  mt_jobs :: "(string \<times> string \<times> string) list"

definition mem_put_job_token :: "string \<Rightarrow> string \<Rightarrow> string \<Rightarrow> mem_tokens \<Rightarrow> mem_tokens" where
  "mem_put_job_token j h t m = m\<lparr>mt_jobs := AList.update j (h, t) (mt_jobs m)\<rparr>"

definition mem_consume_job_token :: "string \<Rightarrow> mem_tokens \<Rightarrow> mem_tokens \<times> (string \<times> string) option" where
  "mem_consume_job_token j m = (m\<lparr>mt_jobs := AList.delete j (mt_jobs m)\<rparr>, map_of (mt_jobs m) j)"

definition mem_set_host_token :: "string \<Rightarrow> string \<Rightarrow> mem_tokens \<Rightarrow> mem_tokens" where
  "mem_set_host_token h t m = m\<lparr>mt_hosts := AList.update h t (mt_hosts m)\<rparr>"

definition mem_revoke_host_token :: "string \<Rightarrow> mem_tokens \<Rightarrow> mem_tokens" where
  "mem_revoke_host_token h m = m\<lparr>mt_hosts := AList.delete h (mt_hosts m)\<rparr>"

definition mem_get_host_token_hash :: "string \<Rightarrow> mem_tokens \<Rightarrow> string option" where
  "mem_get_host_token_hash h m = map_of (mt_hosts m) h"

text \<open>PostgreSQL keeps revoked and used tokens with a mark.\<close>

record pg_tokens =
  pt_hosts :: "(string \<times> string \<times> bool) list"
  pt_jobs :: "(string \<times> string \<times> string \<times> bool) list"

definition pg_put_job_token :: "string \<Rightarrow> string \<Rightarrow> string \<Rightarrow> pg_tokens \<Rightarrow> pg_tokens" where
  "pg_put_job_token j h t p = p\<lparr>pt_jobs := AList.update j (h, t, False) (pt_jobs p)\<rparr>"

definition pg_consume_job_token :: "string \<Rightarrow> pg_tokens \<Rightarrow> pg_tokens \<times> (string \<times> string) option" where
  "pg_consume_job_token j p =
     (case map_of (pt_jobs p) j of
        Some (h, t, False) \<Rightarrow> (p\<lparr>pt_jobs := AList.update j (h, t, True) (pt_jobs p)\<rparr>, Some (h, t))
      | _ \<Rightarrow> (p, None))"

definition pg_set_host_token :: "string \<Rightarrow> string \<Rightarrow> pg_tokens \<Rightarrow> pg_tokens" where
  "pg_set_host_token h t p = p\<lparr>pt_hosts := AList.update h (t, False) (pt_hosts p)\<rparr>"

definition pg_revoke_host_token :: "string \<Rightarrow> pg_tokens \<Rightarrow> pg_tokens" where
  "pg_revoke_host_token h p =
     (case map_of (pt_hosts p) h of Some (t, False) \<Rightarrow> p\<lparr>pt_hosts := AList.update h (t, True) (pt_hosts p)\<rparr> | _ \<Rightarrow> p)"

definition pg_get_host_token_hash :: "string \<Rightarrow> pg_tokens \<Rightarrow> string option" where
  "pg_get_host_token_hash h p = (case map_of (pt_hosts p) h of Some (t, False) \<Rightarrow> Some t | _ \<Rightarrow> None)"

interpretation mem_jobs: job_tokens mem_put_job_token mem_consume_job_token
  by unfold_locales (simp_all add: mem_put_job_token_def mem_consume_job_token_def update_conv' delete_conv')

interpretation pg_jobs: job_tokens pg_put_job_token pg_consume_job_token
proof unfold_locales
  show "snd (pg_consume_job_token j (pg_put_job_token j h t s)) = Some (h, t)" for j h t s
    by (simp add: pg_put_job_token_def pg_consume_job_token_def update_conv')
  show "snd (pg_consume_job_token i (pg_put_job_token j h t s)) = snd (pg_consume_job_token i s)" if "i \<noteq> j" for i j h t s
    using that by (simp add: pg_put_job_token_def pg_consume_job_token_def update_conv' split: option.splits bool.splits)
  show "snd (pg_consume_job_token i (fst (pg_consume_job_token j s))) = (if i = j then None else snd (pg_consume_job_token i s))" for i j s
    by (auto simp: pg_consume_job_token_def update_conv' split: option.splits bool.splits)
qed

text \<open>Tokens of hosts: what is set is current until it is replaced or revoked.\<close>

locale host_tokens =
  fixes set_tok :: "string \<Rightarrow> string \<Rightarrow> 's \<Rightarrow> 's"
    and revoke :: "string \<Rightarrow> 's \<Rightarrow> 's"
    and get :: "string \<Rightarrow> 's \<Rightarrow> string option"
  assumes get_set: "get i (set_tok h t s) = (if i = h then Some t else get i s)"
    and get_revoke: "get i (revoke h s) = (if i = h then None else get i s)"
begin

lemma revoked_until_set:
  "\<forall>i\<in>set hs. i \<noteq> h \<Longrightarrow> get h (fold (\<lambda>i. set_tok i (t i)) hs (revoke h s)) = None"
proof -
  have "get h u = None \<Longrightarrow> \<forall>i\<in>set hs. i \<noteq> h \<Longrightarrow> get h (fold (\<lambda>i. set_tok i (t i)) hs u) = None" for u
    by (induction hs arbitrary: u) (auto simp: get_set)
  then show "\<forall>i\<in>set hs. i \<noteq> h \<Longrightarrow> get h (fold (\<lambda>i. set_tok i (t i)) hs (revoke h s)) = None" by (simp add: get_revoke)
qed

end

interpretation mem_hosts: host_tokens mem_set_host_token mem_revoke_host_token mem_get_host_token_hash
  by unfold_locales (simp_all add: mem_set_host_token_def mem_revoke_host_token_def mem_get_host_token_hash_def update_conv' delete_conv')

interpretation pg_hosts: host_tokens pg_set_host_token pg_revoke_host_token pg_get_host_token_hash
  by unfold_locales (auto simp: pg_set_host_token_def pg_revoke_host_token_def pg_get_host_token_hash_def update_conv' split: option.splits bool.splits)

section \<open>Sliding windows\<close>

text \<open>\<open>_allow\<close>: hits older than the window leave the front of the queue; a full queue refuses.\<close>

definition window_allow :: "nat \<Rightarrow> rat \<Rightarrow> rat \<Rightarrow> rat list \<Rightarrow> rat list \<times> bool" where
  "window_allow cap w now q =
     (let q' = dropWhile (\<lambda>t. now - t \<ge> w) q in if length q' \<ge> cap then (q', False) else (q' @ [now], True))"

definition rpm :: "int option \<Rightarrow> nat" where
  "rpm env = (case env of None \<Rightarrow> 60 | Some v \<Rightarrow> if v > 0 then nat v else 60)"

definition ip_limit :: "int option \<Rightarrow> nat" where
  "ip_limit env = (case env of None \<Rightarrow> 120 | Some v \<Rightarrow> if v > 0 then nat v else 120)"

text \<open>The limiter per address bounds the number of its keys; it forgets idle ones first and then refuses new ones.\<close>

definition ip_allow :: "nat \<Rightarrow> nat \<Rightarrow> rat \<Rightarrow> rat \<Rightarrow> string \<Rightarrow> (string \<times> rat list) list \<Rightarrow> (string \<times> rat list) list \<times> bool" where
  "ip_allow cap max_keys w now key hits =
     (let full = map_of hits key = None \<and> max_keys \<le> length hits;
          hits1 = (if full then filter (\<lambda>(k, q). \<not> (q = [] \<or> now - last q \<ge> w)) hits else hits)
      in if full \<and> max_keys \<le> length hits1 then (hits1, False)
         else case window_allow cap w now (case map_of hits1 key of None \<Rightarrow> [] | Some q \<Rightarrow> q) of
                (q', ok) \<Rightarrow> (AList.update key q' hits1, ok))"

section \<open>The handler\<close>

record hapi =
  ha_reg :: hsys
  ha_tokens :: pg_tokens
  ha_hits :: "(string \<times> rat list) list"

definition issue_host_token :: "(string \<Rightarrow> string) \<Rightarrow> bool \<Rightarrow> string \<Rightarrow> string \<Rightarrow> hapi \<Rightarrow> hapi \<times> (herror + string)" where
  "issue_host_token sha on tok k a =
     (if \<not> on then (a, Inl HostsDisabled)
      else if map_of (hs_hosts (ha_reg a)) k = None then (a, Inl HKeyError)
      else (a\<lparr>ha_tokens := pg_set_host_token k (sha tok) (ha_tokens a)\<rparr>, Inr tok))"

definition revoke_host_token :: "string \<Rightarrow> hapi \<Rightarrow> hapi" where
  "revoke_host_token k a = a\<lparr>ha_tokens := pg_revoke_host_token k (ha_tokens a)\<rparr>"

record hreq =
  rq_action :: string
  rq_host :: string
  rq_token :: "string option"
  rq_job :: string
  rq_job_token :: "string option"
  rq_output :: string
  rq_elapsed :: "rat option"

datatype hreply =
    HError nat
  | HRaised herror
  | HBeat hstatus bool
  | HNoJob
  | HJob vspec string
  | HResult hstatus trust

definition authenticated :: "(string \<Rightarrow> string) \<Rightarrow> string \<Rightarrow> string option \<Rightarrow> hapi \<Rightarrow> bool" where
  "authenticated sha k token a =
     (case token of
        None \<Rightarrow> False
      | Some t \<Rightarrow> t \<noteq> [] \<and> (case pg_get_host_token_hash k (ha_tokens a) of None \<Rightarrow> False | Some h \<Rightarrow> sha t = h))"

definition host_allow :: "nat \<Rightarrow> rat \<Rightarrow> string \<Rightarrow> hapi \<Rightarrow> hapi \<times> bool" where
  "host_allow cap now k a =
     (case window_allow cap 60 now (case map_of (ha_hits a) k of None \<Rightarrow> [] | Some q \<Rightarrow> q) of
        (q', ok) \<Rightarrow> (a\<lparr>ha_hits := AList.update k q' (ha_hits a)\<rparr>, ok))"

definition act_heartbeat :: "rat \<Rightarrow> string \<Rightarrow> hapi \<Rightarrow> hapi \<times> hreply" where
  "act_heartbeat now k a =
     (case map_of (hs_hosts (ha_reg a)) k of
        None \<Rightarrow> (a, HError 409)
      | Some h \<Rightarrow> (case host_heartbeat True now k (ha_reg a) of
                    (r, Inr ok) \<Rightarrow> (a\<lparr>ha_reg := r\<rparr>, HBeat (h_status h) ok)
                  | (r, Inl x) \<Rightarrow> (a\<lparr>ha_reg := r\<rparr>, HRaised x)))"

definition act_fetch_job :: "(string \<Rightarrow> string) \<Rightarrow> string \<Rightarrow> string \<Rightarrow> hapi \<Rightarrow> hapi \<times> hreply" where
  "act_fetch_job sha jt k a =
     (case map_of (hs_hosts (ha_reg a)) k of
        None \<Rightarrow> (a, HError 409)
      | Some h \<Rightarrow>
          (case h_pending h of
             None \<Rightarrow> (a, HNoJob)
           | Some sp \<Rightarrow> if h_status h \<noteq> Verifying then (a, HNoJob)
                        else (a\<lparr>ha_tokens := pg_put_job_token (vs_job sp) k (sha jt) (ha_tokens a)\<rparr>, HJob sp jt)))"

definition job_token_valid :: "(string \<Rightarrow> string) \<Rightarrow> string \<Rightarrow> string option \<Rightarrow> (string \<times> string) option \<Rightarrow> bool" where
  "job_token_valid sha k jt entry = (case (entry, jt) of (Some (h, t), Some x) \<Rightarrow> h = k \<and> sha x = t | _ \<Rightarrow> False)"

definition act_submit :: "(string \<Rightarrow> string) \<Rightarrow> rat \<Rightarrow> string \<Rightarrow> hreq \<Rightarrow> hapi \<Rightarrow> hapi \<times> hreply" where
  "act_submit sha now k q a =
     (case pg_consume_job_token (rq_job q) (ha_tokens a) of
        (tk, entry) \<Rightarrow>
          let b = a\<lparr>ha_tokens := tk\<rparr>
          in if \<not> job_token_valid sha k (rq_job_token q) entry then (b, HError 409)
             else case submit_verification True now k (rq_job q) (rq_output q) (rq_elapsed q) (ha_reg b) of
                    (r, Inr h) \<Rightarrow> (b\<lparr>ha_reg := r\<rparr>, HResult (h_status h) (h_trust h))
                  | (r, Inl HTypeError) \<Rightarrow> (b\<lparr>ha_reg := r\<rparr>, HRaised HTypeError)
                  | (r, Inl x) \<Rightarrow> (b\<lparr>ha_reg := r\<rparr>, HError 409))"

definition handle :: "(string \<Rightarrow> string) \<Rightarrow> bool \<Rightarrow> nat \<Rightarrow> rat \<Rightarrow> string \<Rightarrow> hreq \<Rightarrow> hapi \<Rightarrow> hapi \<times> hreply" where
  "handle sha on cap now jt q a =
     (if \<not> on then (a, HError 503)
      else if \<not> authenticated sha (rq_host q) (rq_token q) a then (a, HError 401)
      else case host_allow cap now (rq_host q) a of
             (b, False) \<Rightarrow> (b, HError 429)
           | (b, True) \<Rightarrow>
               let c = b\<lparr>ha_reg := refresh (rq_host q) (ha_reg b)\<rparr>
               in if rq_action q = ''heartbeat'' then act_heartbeat now (rq_host q) c
                  else if rq_action q = ''fetch_job'' then act_fetch_job sha jt (rq_host q) c
                  else if rq_action q = ''submit_result'' then act_submit sha now (rq_host q) q c
                  else (c, HError 400))"

section \<open>The window is never overfull\<close>

text \<open>The times of the accepted requests among requests at \<open>ts\<close>.\<close>

fun window_run :: "nat \<Rightarrow> rat \<Rightarrow> rat list \<Rightarrow> rat list \<Rightarrow> rat list" where
  "window_run cap w [] q = []"
| "window_run cap w (t # ts) q =
     (case window_allow cap w t q of (q', ok) \<Rightarrow> if ok then t # window_run cap w ts q' else window_run cap w ts q')"

definition spaced :: "nat \<Rightarrow> rat \<Rightarrow> rat list \<Rightarrow> bool" where
  "spaced cap w acc \<longleftrightarrow> (\<forall>i. i + cap < length acc \<longrightarrow> acc ! i + w \<le> acc ! (i + cap))"

lemma spaced_append:
  assumes "spaced cap w (pre @ q)" and "\<forall>x\<in>set pre. t - x \<ge> w" and "length q < cap"
  shows "spaced cap w (pre @ q @ [t])"
  unfolding spaced_def
proof (intro allI impI)
  fix i assume i: "i + cap < length (pre @ q @ [t])"
  show "(pre @ q @ [t]) ! i + w \<le> (pre @ q @ [t]) ! (i + cap)"
  proof (cases "i + cap < length (pre @ q)")
    case True
    then have "(pre @ q) ! i + w \<le> (pre @ q) ! (i + cap)" using assms(1) by (simp add: spaced_def)
    moreover have "((pre @ q) @ [t]) ! i = (pre @ q) ! i" "((pre @ q) @ [t]) ! (i + cap) = (pre @ q) ! (i + cap)"
      using True by (simp_all only: nth_append [of "pre @ q" "[t]"]) simp_all
    ultimately show ?thesis by simp
  next
    case False
    then have e: "i + cap = length pre + length q" using i by simp
    then have "i < length pre" using assms(3) by simp
    then have "(pre @ q @ [t]) ! i = pre ! i" "pre ! i \<in> set pre" by (simp_all add: nth_append)
    moreover have "(pre @ q @ [t]) ! (i + cap) = t" unfolding e by (simp add: nth_append)
    ultimately show ?thesis using assms(2) by fastforce
  qed
qed

lemma window_run_spaced:
  assumes "spaced cap w (pre @ q)" and "sorted (pre @ q @ ts)" and "\<forall>x\<in>set pre. \<forall>t\<in>set ts. t - x \<ge> w"
  shows "spaced cap w (pre @ q @ window_run cap w ts q) \<and> sorted (pre @ q @ window_run cap w ts q)"
  using assms
proof (induction ts arbitrary: pre q)
  case (Cons t ts)
  define gone where "gone = takeWhile (\<lambda>x. t - x \<ge> w) q"
  define q' where "q' = dropWhile (\<lambda>x. t - x \<ge> w) q"
  have q: "q = gone @ q'" by (simp add: gone_def q'_def)
  have later: "t \<le> u" if "u \<in> set ts" for u using Cons.prems(2) that by (auto simp: sorted_append)
  have old: "\<forall>x\<in>set (pre @ gone). \<forall>u\<in>set (t # ts). u - x \<ge> w"
  proof (intro ballI)
    fix x u assume x: "x \<in> set (pre @ gone)" and u: "u \<in> set (t # ts)"
    have "t - x \<ge> w" using x Cons.prems(3) by (auto simp: gone_def dest: set_takeWhileD)
    moreover have "t \<le> u" using u later by auto
    ultimately show "u - x \<ge> w" by linarith
  qed
  show ?case
  proof (cases "length q' \<ge> cap")
    case True
    have "spaced cap w ((pre @ gone) @ q') \<and> sorted ((pre @ gone) @ q' @ ts)" using Cons.prems q by (simp add: sorted_append)
    from Cons.IH [of "pre @ gone" q'] this old
    have "spaced cap w ((pre @ gone) @ q' @ window_run cap w ts q') \<and> sorted ((pre @ gone) @ q' @ window_run cap w ts q')" by simp
    moreover have "window_run cap w (t # ts) q = window_run cap w ts q'" using True by (simp add: window_allow_def Let_def q'_def)
    ultimately show ?thesis using q by simp
  next
    case False
    have "spaced cap w ((pre @ gone) @ q' @ [t])"
      by (rule spaced_append) (use Cons.prems(1) q old False in auto)
    moreover have "sorted ((pre @ gone) @ (q' @ [t]) @ ts)" using Cons.prems(2) q by simp
    ultimately have "spaced cap w ((pre @ gone) @ (q' @ [t]) @ window_run cap w ts (q' @ [t])) \<and> sorted ((pre @ gone) @ (q' @ [t]) @ window_run cap w ts (q' @ [t]))"
      using Cons.IH [of "pre @ gone" "q' @ [t]"] old by simp
    moreover have "window_run cap w (t # ts) q = t # window_run cap w ts (q' @ [t])" using False by (simp add: window_allow_def Let_def q'_def)
    ultimately show ?thesis using q by simp
  qed
qed (auto simp: sorted_append)

lemma spaced_window:
  assumes "spaced cap w acc" and "sorted acc"
  shows "length (filter (\<lambda>t. x \<le> t \<and> t < x + w) acc) \<le> cap"
proof (rule ccontr)
  let ?I = "{i. i < length acc \<and> x \<le> acc ! i \<and> acc ! i < x + w}"
  assume "\<not> ?thesis"
  then have big: "cap < card ?I" by (simp add: length_filter_conv_card)
  have fin: "finite ?I" by simp
  have ne: "?I \<noteq> {}" using big by (metis card.empty less_nat_zero_code)
  let ?i = "Min ?I" let ?j = "Max ?I"
  have i: "?i \<in> ?I" and j: "?j \<in> ?I" using Min_in [OF fin ne] Max_in [OF fin ne] by blast+
  have "?I \<subseteq> {?i..?j}" using fin by auto
  then have "card ?I \<le> Suc ?j - ?i" using card_mono [of "{?i..?j}" ?I] by simp
  then have le: "?i + cap \<le> ?j" using big by linarith
  have "acc ! ?i + w \<le> acc ! (?i + cap)" using assms(1) le j by (simp add: spaced_def)
  also have "\<dots> \<le> acc ! ?j" using assms(2) le j by (intro sorted_nth_mono) simp_all
  finally show False using i j by simp
qed

section \<open>Requests\<close>

lemma host_allow_fields: "ha_tokens (fst (host_allow cap now k a)) = ha_tokens a" "ha_reg (fst (host_allow cap now k a)) = ha_reg a"
  by (simp_all add: host_allow_def split: prod.splits)

lemma act_submit_result:
  assumes "act_submit sha now k q a = (a', HResult st tr)"
  shows "\<exists>x. rq_job_token q = Some x \<and> snd (pg_consume_job_token (rq_job q) (ha_tokens a)) = Some (k, sha x)
    \<and> snd (pg_consume_job_token (rq_job q) (ha_tokens a')) = None"
proof -
  obtain tk entry where c: "pg_consume_job_token (rq_job q) (ha_tokens a) = (tk, entry)" by fastforce
  have v: "job_token_valid sha k (rq_job_token q) entry" using assms c by (auto simp: act_submit_def Let_def split: if_splits)
  then obtain x where x: "rq_job_token q = Some x" "entry = Some (k, sha x)" by (auto simp: job_token_valid_def split: option.splits prod.splits)
  have "ha_tokens a' = tk" using assms c v by (auto simp: act_submit_def Let_def split: prod.splits sum.splits herror.splits)
  then show ?thesis using x c pg_jobs.con_con [of "rq_job q" "rq_job q" "ha_tokens a"] by simp
qed

lemma handle_submit:
  assumes "handle sha on cap now jt q a = (a', HResult st tr)"
  shows "on" and "authenticated sha (rq_host q) (rq_token q) a"
    and "\<exists>c. ha_tokens c = ha_tokens a \<and> act_submit sha now (rq_host q) q c = (a', HResult st tr)"
proof -
  show on and au: "authenticated sha (rq_host q) (rq_token q) a" using assms by (auto simp: handle_def split: if_splits)
  obtain b ok where ha: "host_allow cap now (rq_host q) a = (b, ok)" by fastforce
  have ok: ok using assms \<open>on\<close> au ha by (auto simp: handle_def split: bool.splits)
  let ?c = "b\<lparr>ha_reg := refresh (rq_host q) (ha_reg b)\<rparr>"
  have "act_submit sha now (rq_host q) q ?c = (a', HResult st tr)"
    using assms \<open>on\<close> au ha ok by (auto simp: handle_def Let_def act_heartbeat_def act_fetch_job_def split: if_splits option.splits prod.splits sum.splits)
  moreover have "ha_tokens ?c = ha_tokens a" using host_allow_fields(1) [of cap now "rq_host q" a] ha by simp
  ultimately show "\<exists>c. ha_tokens c = ha_tokens a \<and> act_submit sha now (rq_host q) q c = (a', HResult st tr)" by blast
qed

section \<open>Properties\<close>

text \<open>The limiters hold their rate: for requests at non-decreasing times, in no interval of the window's length are more requests
  accepted than the limit, wherever the interval starts.\<close>

theorem rate_limit_holds:
  assumes "sorted ts"
  shows "length (filter (\<lambda>t. x \<le> t \<and> t < x + w) (window_run cap w ts [])) \<le> cap"
  using window_run_spaced [of cap w "[]" "[]" ts] assms by (intro spaced_window) (simp_all add: spaced_def)

theorem rate_limit_holds_witness:
  "length (filter (\<lambda>t. 0 \<le> t \<and> t < 0 + 60) (window_run 2 60 [0, 1, 2, 61] [])) \<le> 2"
  by (rule rate_limit_holds) simp

text \<open>C23: A result is judged only for an authenticated host that presents the live token of its own job: when the handler answers with a
  verdict, the host's current token was given, the job token was issued to this host and not used before, and it is spent
  afterwards, so the same request cannot be judged again until a new job token is issued.\<close>

theorem result_needs_job_token:
  assumes "handle sha on cap now jt q a = (a', HResult st tr)" and "\<forall>op\<in>set ops. fst op = rq_job q \<longrightarrow> snd op = None"
  shows "(\<exists>t. rq_token q = Some t \<and> pg_get_host_token_hash (rq_host q) (ha_tokens a) = Some (sha t))
    \<and> (\<exists>x. rq_job_token q = Some x \<and> snd (pg_consume_job_token (rq_job q) (ha_tokens a)) = Some (rq_host q, sha x))
    \<and> snd (pg_consume_job_token (rq_job q) (run_tokens pg_put_job_token pg_consume_job_token ops (ha_tokens a'))) = None"
proof -
  note h = handle_submit [OF assms(1)]
  obtain c where c: "ha_tokens c = ha_tokens a" "act_submit sha now (rq_host q) q c = (a', HResult st tr)" using h(3) by blast
  have "\<exists>t. rq_token q = Some t \<and> pg_get_host_token_hash (rq_host q) (ha_tokens a) = Some (sha t)"
    using h(2) by (auto simp: authenticated_def split: option.splits)
  then show ?thesis using act_submit_result [OF c(2)] c(1) pg_jobs.spent_stays [OF _ assms(2)] by metis
qed

definition demo_api :: hapi where
  "demo_api = \<lparr>ha_reg = demo_verifying, ha_tokens = \<lparr>pt_hosts = [(''host'', ''secret'', False)], pt_jobs = [(''v1'', ''host'', ''jt'', False)]\<rparr>, ha_hits = []\<rparr>"

definition demo_req :: hreq where
  "demo_req = \<lparr>rq_action = ''submit_result'', rq_host = ''host'', rq_token = Some ''secret'', rq_job = ''v1'', rq_job_token = Some ''jt'',
     rq_output = ''e1'', rq_elapsed = Some 1\<rparr>"

theorem result_needs_job_token_witness:
  "let r = handle (\<lambda>t. t) True 60 5 [] demo_req demo_api in
   snd r = HResult Active Verified \<and> snd (pg_consume_job_token ''v1'' (ha_tokens (fst r))) = None"
proof -
  let ?r = "handle (\<lambda>t. t) True 60 5 [] demo_req demo_api"
  have s: "snd ?r = HResult Active Verified" by code_simp
  then have run: "?r = (fst ?r, HResult Active Verified)" by (metis prod.collapse)
  from result_needs_job_token [OF run, of "[]"] s show ?thesis by (simp add: Let_def demo_req_def)
qed

text \<open>A job token is accepted once in either store: after it was consumed, and until a new one is issued for the job, whatever happens to
  other jobs' tokens, consuming it again finds nothing, in memory and in PostgreSQL alike.\<close>

theorem job_token_single_use:
  assumes "\<forall>op\<in>set ops. fst op = j \<longrightarrow> snd op = None"
  shows "snd (mem_consume_job_token j (run_tokens mem_put_job_token mem_consume_job_token ops (fst (mem_consume_job_token j m)))) = None
    \<and> snd (pg_consume_job_token j (run_tokens pg_put_job_token pg_consume_job_token ops (fst (pg_consume_job_token j p)))) = None"
  using mem_jobs.single_use [OF assms] pg_jobs.single_use [OF assms] by simp

theorem job_token_single_use_witness:
  "snd (mem_consume_job_token ''j'' (run_tokens mem_put_job_token mem_consume_job_token [(''i'', Some (''h'', ''t''))] (fst (mem_consume_job_token ''j'' \<lparr>mt_hosts = [], mt_jobs = [(''j'', ''h'', ''t'')]\<rparr>)))) = None
   \<and> snd (pg_consume_job_token ''j'' (run_tokens pg_put_job_token pg_consume_job_token [(''i'', Some (''h'', ''t''))] (fst (pg_consume_job_token ''j'' \<lparr>pt_hosts = [], pt_jobs = [(''j'', ''h'', ''t'', False)]\<rparr>)))) = None"
  by (rule job_token_single_use) simp

end
