(* ===== verification/Plugins.thy ===== *)
theory Plugins
  imports Quota "HOL-Library.AList"
begin

text \<open>
  The plugin system: \<open>src/plugins/core/manager.py\<close> (registry and life cycle), \<open>src/plugins/core/trace.py\<close>,
  \<open>src/plugins/core/sandbox.py\<close>, \<open>src/plugins/domain/plugin.py\<close>, the routes of \<open>src/plugins/api/routes.py\<close>, the built-in policy
  engine and decision gate of \<open>src/plugins/builtin\<close>, and the runtime of \<open>src/plugins/plugin_runtime.py\<close>.

  Operations of the manager hold an \<open>asyncio.Lock\<close>, which is not reentrant: an operation that awaits another one
  while it holds the lock waits for ever, and with it everybody who needs the lock. Such an operation has the outcome
  \<open>Hangs\<close> and leaves the lock taken. Importing a class, constructing a plugin and its hooks are arguments; the text of an error
  is represented by the exception.

  Shown: plugins that are loaded after their dependencies are all loaded, and nothing hangs; a loaded plugin has its object and
  registered dependencies; a trace is the chain of the steps added; the exact decisions of the built-in policies; and that every
  update hangs, as does unloading an enabled plugin and loading one before its dependency.
\<close>

section \<open>Data\<close>

datatype plugin_state = PlRegistered | PlLoaded | PlEnabled | PlDisabled | PlUnloaded | PlError | PlUpdating

datatype plugin_tier = TierFree | TierProPlan | TierEnterprisePlan

definition tier_value :: "plugin_tier \<Rightarrow> string" where
  "tier_value t = (case t of TierFree \<Rightarrow> ''free'' | TierProPlan \<Rightarrow> ''pro'' | TierEnterprisePlan \<Rightarrow> ''enterprise'')"

record manifest =
  mf_name :: string
  mf_version :: string
  mf_category :: string
  mf_entry_point :: string
  mf_dependencies :: "string list"
  mf_minimum_tier :: plugin_tier
  mf_config_schema :: pydict
  mf_permissions :: "string list"
  mf_sandbox_policy :: string

record 'o plugin =
  pl_manifest :: manifest
  pl_state :: plugin_state
  pl_loaded_at :: "int option"
  pl_enabled_at :: "int option"
  pl_error :: "pyexc option"
  pl_config :: pydict
  pl_object :: "'o option"

definition is_enabled :: "'o plugin \<Rightarrow> bool" where
  "is_enabled p = (pl_state p = PlEnabled)"

definition tier_order :: "string \<Rightarrow> nat" where
  "tier_order t = (if t = ''pro'' then 1 else if t = ''enterprise'' then 2 else 0)"

definition is_available :: "string \<Rightarrow> 'o plugin \<Rightarrow> bool" where
  "is_available t p = (tier_order (tier_value (mf_minimum_tier (pl_manifest p))) \<le> tier_order t)"

datatype 'o imported = ImportFails pyexc | NotAClass | InitFails pyexc | Imported 'o

record 'o plugin_env =
  pe_import :: "string \<Rightarrow> string \<Rightarrow> 'o imported"
  pe_on_enable :: "'o \<Rightarrow> pydict \<Rightarrow> pyexc option"
  pe_on_disable :: "'o \<Rightarrow> pyexc option"

record 'o manager =
  pm_registry :: "(string \<times> 'o plugin) list"
  pm_locked :: bool

definition pm_init :: "'o manager" where
  "pm_init = \<lparr>pm_registry = [], pm_locked = False\<rparr>"

datatype 'a outcome = Returns 'a | Raises pyexc | Hangs

abbreviation PluginError :: pyexc where "PluginError \<equiv> OtherException ''PluginError''"
abbreviation PluginNotFoundError :: pyexc where "PluginNotFoundError \<equiv> OtherException ''PluginNotFoundError''"
abbreviation PluginLoadError :: pyexc where "PluginLoadError \<equiv> OtherException ''PluginLoadError''"
abbreviation PluginDependencyError :: pyexc where "PluginDependencyError \<equiv> OtherException ''PluginDependencyError''"

section \<open>The manager\<close>

definition pm_get :: "string \<Rightarrow> 'o manager \<Rightarrow> 'o plugin option" where
  "pm_get n s = map_of (pm_registry s) n"

definition list_enabled :: "'o manager \<Rightarrow> 'o plugin list" where
  "list_enabled s = filter is_enabled (map snd (pm_registry s))"

definition get_enabled :: "string \<Rightarrow> 'o manager \<Rightarrow> 'o plugin result" where
  "get_enabled n s = (case pm_get n s of None \<Rightarrow> Inl PluginNotFoundError | Some p \<Rightarrow> if is_enabled p then Inr p else Inl PluginError)"

definition list_by_category :: "string \<Rightarrow> 'o manager \<Rightarrow> 'o plugin list" where
  "list_by_category c s = filter (\<lambda>p. mf_category (pl_manifest p) = c) (map snd (pm_registry s))"

definition list_by_tier :: "string \<Rightarrow> 'o manager \<Rightarrow> 'o plugin list" where
  "list_by_tier t s = filter (is_available t) (map snd (pm_registry s))"

definition pm_set :: "string \<Rightarrow> ('o plugin \<Rightarrow> 'o plugin) \<Rightarrow> 'o manager \<Rightarrow> 'o manager" where
  "pm_set n f s = s\<lparr>pm_registry := AList.map_entry n f (pm_registry s)\<rparr>"

definition register :: "manifest \<Rightarrow> 'o manager \<Rightarrow> 'o manager \<times> 'o plugin outcome" where
  "register m s =
     (if pm_locked s then (s, Hangs)
      else if pm_get (mf_name m) s \<noteq> None then (s, Raises PluginError)
      else let p = \<lparr>pl_manifest = m, pl_state = PlRegistered, pl_loaded_at = None, pl_enabled_at = None, pl_error = None,
                    pl_config = [], pl_object = None\<rparr>
           in (s\<lparr>pm_registry := pm_registry s @ [(mf_name m, p)]\<rparr>, Returns p))"

datatype dep_check = DepsReady | DepMissing | DepWaits

text \<open>The loop over the dependencies: one that is not loaded is loaded by a nested call, which waits for the lock.\<close>

fun check_deps :: "(string \<times> 'o plugin) list \<Rightarrow> string list \<Rightarrow> dep_check" where
  "check_deps reg [] = DepsReady"
| "check_deps reg (d # ds) =
     (case map_of reg d of
        None \<Rightarrow> DepMissing
      | Some p \<Rightarrow> if pl_state p \<in> {PlLoaded, PlEnabled} then check_deps reg ds else DepWaits)"

definition rsplit_colon :: "string \<Rightarrow> (string \<times> string) option" where
  "rsplit_colon w =
     (if CHR '':'' \<notin> set w then None
      else Some (rev (tl (dropWhile (\<lambda>c. c \<noteq> CHR '':'') (rev w))), rev (takeWhile (\<lambda>c. c \<noteq> CHR '':'') (rev w))))"

definition import_plugin :: "'o plugin_env \<Rightarrow> manifest \<Rightarrow> pyexc + 'o" where
  "import_plugin e m =
     (case rsplit_colon (mf_entry_point m) of
        None \<Rightarrow> Inl ValueError
      | Some (md, cls) \<Rightarrow>
          (case pe_import e md cls of
             ImportFails x \<Rightarrow> Inl x
           | NotAClass \<Rightarrow> Inl PluginLoadError
           | InitFails x \<Rightarrow> Inl x
           | Imported ob \<Rightarrow> Inr ob))"

definition fail_with :: "string \<Rightarrow> pyexc \<Rightarrow> pyexc \<Rightarrow> 'o manager \<Rightarrow> 'o manager \<times> 'o plugin outcome" where
  "fail_with n x y s = (pm_set n (\<lambda>p. p\<lparr>pl_state := PlError, pl_error := Some x\<rparr>) s, Raises y)"

text \<open>The answer of an operation is the plugin as it stands in the registry.\<close>

definition answer :: "string \<Rightarrow> 'o manager \<Rightarrow> 'o manager \<times> 'o plugin outcome" where
  "answer n s = (s, case pm_get n s of None \<Rightarrow> Raises PluginNotFoundError | Some p \<Rightarrow> Returns p)"

definition load :: "'o plugin_env \<Rightarrow> int \<Rightarrow> string \<Rightarrow> 'o manager \<Rightarrow> 'o manager \<times> 'o plugin outcome" where
  "load e now n s =
     (if pm_locked s then (s, Hangs)
      else case pm_get n s of
        None \<Rightarrow> (s, Raises PluginNotFoundError)
      | Some p \<Rightarrow>
          if pl_state p \<in> {PlLoaded, PlEnabled} then (s, Returns p)
          else if pl_state p = PlError then (s, Raises PluginLoadError)
          else let s1 = pm_set n (\<lambda>p. p\<lparr>pl_state := PlUpdating\<rparr>) s
               in case check_deps (pm_registry s1) (mf_dependencies (pl_manifest p)) of
                    DepWaits \<Rightarrow> (s1\<lparr>pm_locked := True\<rparr>, Hangs)
                  | DepMissing \<Rightarrow> fail_with n PluginDependencyError PluginLoadError s1
                  | DepsReady \<Rightarrow>
                      (case import_plugin e (pl_manifest p) of
                         Inl x \<Rightarrow> fail_with n x PluginLoadError s1
                       | Inr ob \<Rightarrow> answer n (pm_set n (\<lambda>p. p\<lparr>pl_state := PlLoaded, pl_loaded_at := Some now, pl_object := Some ob\<rparr>) s1)))"

text \<open>The second half of \<open>enable\<close>, which takes the lock again.\<close>

definition enable_loaded :: "'o plugin_env \<Rightarrow> int \<Rightarrow> string \<Rightarrow> pydict \<Rightarrow> 'o manager \<Rightarrow> 'o manager \<times> 'o plugin outcome" where
  "enable_loaded e now n cfg s =
     (if pm_locked s then (s, Hangs)
      else case pm_get n s of
        None \<Rightarrow> (s, Raises PluginNotFoundError)
      | Some p \<Rightarrow>
          if pl_state p = PlEnabled then (s, Returns p)
          else let s1 = (if cfg \<noteq> [] then pm_set n (\<lambda>p. p\<lparr>pl_config := cfg\<rparr>) s else s);
                   cfg' = (if cfg \<noteq> [] then cfg else pl_config p)
               in case Option.bind (pl_object p) (\<lambda>ob. pe_on_enable e ob cfg') of
                    Some x \<Rightarrow> fail_with n x PluginError s1
                  | None \<Rightarrow> answer n (pm_set n (\<lambda>p. p\<lparr>pl_state := PlEnabled, pl_enabled_at := Some now\<rparr>) s1))"

definition enable :: "'o plugin_env \<Rightarrow> int \<Rightarrow> string \<Rightarrow> pydict \<Rightarrow> 'o manager \<Rightarrow> 'o manager \<times> 'o plugin outcome" where
  "enable e now n cfg s = (case load e now n s of (s1, Returns _) \<Rightarrow> enable_loaded e now n cfg s1 | (s1, r) \<Rightarrow> (s1, r))"

definition disable :: "'o plugin_env \<Rightarrow> string \<Rightarrow> 'o manager \<Rightarrow> 'o manager \<times> 'o plugin outcome" where
  "disable e n s =
     (if pm_locked s then (s, Hangs)
      else case pm_get n s of
        None \<Rightarrow> (s, Raises PluginNotFoundError)
      | Some p \<Rightarrow>
          if pl_state p \<noteq> PlEnabled then (s, Returns p)
          else case Option.bind (pl_object p) (pe_on_disable e) of
                 Some x \<Rightarrow> fail_with n x PluginError s
               | None \<Rightarrow> answer n (pm_set n (\<lambda>p. p\<lparr>pl_state := PlDisabled\<rparr>) s))"

definition needed_by :: "string \<Rightarrow> 'o manager \<Rightarrow> bool" where
  "needed_by n s = list_ex (\<lambda>(o', p). o' \<noteq> n \<and> n \<in> set (mf_dependencies (pl_manifest p)) \<and> pl_state p \<in> {PlLoaded, PlEnabled}) (pm_registry s)"

definition unload :: "string \<Rightarrow> 'o manager \<Rightarrow> 'o manager \<times> 'o plugin outcome" where
  "unload n s =
     (case pm_get n s of
        None \<Rightarrow> (s, Raises PluginNotFoundError)
      | Some p \<Rightarrow>
          if pm_locked s then (s, Hangs)
          else if pl_state p = PlEnabled then (s\<lparr>pm_locked := True\<rparr>, Hangs)
          else if needed_by n s then (s, Raises PluginDependencyError)
          else answer n (pm_set n (\<lambda>p. p\<lparr>pl_object := None, pl_state := PlUnloaded\<rparr>) s))"

definition update_plugin :: "string \<Rightarrow> manifest \<Rightarrow> 'o manager \<Rightarrow> 'o manager \<times> 'o plugin outcome" where
  "update_plugin n m s =
     (if pm_locked s then (s, Hangs)
      else case pm_get n s of
        None \<Rightarrow> (s, Raises PluginNotFoundError)
      | Some p \<Rightarrow>
          if pl_state p = PlEnabled then (s\<lparr>pm_locked := True\<rparr>, Hangs)
          else ((pm_set n (\<lambda>p. p\<lparr>pl_state := PlUpdating, pl_object := None, pl_manifest := m, pl_error := None\<rparr>) s)\<lparr>pm_locked := True\<rparr>, Hangs))"

fun load_seq :: "'o plugin_env \<Rightarrow> int \<Rightarrow> string list \<Rightarrow> 'o manager \<Rightarrow> 'o manager \<times> 'o plugin outcome list" where
  "load_seq e now [] s = (s, [])"
| "load_seq e now (n # ns) s = (let (s1, r) = load e now n s; (s2, rs) = load_seq e now ns s1 in (s2, r # rs))"

text \<open>
  \<open>load_all\<close> gathers the loads, which run one after the other. For one that raised, a manifest named \<open>error\<close> is made; it lacks the
  required display name, so that making it raises.
\<close>

definition load_all :: "'o plugin_env \<Rightarrow> int \<Rightarrow> string list \<Rightarrow> 'o manager \<Rightarrow> 'o manager \<times> 'o plugin list outcome" where
  "load_all e now ns s =
     (case load_seq e now ns s of
        (s1, rs) \<Rightarrow>
          (s1, if Hangs \<in> set rs then Hangs
               else if list_ex (\<lambda>r. case r of Raises _ \<Rightarrow> True | _ \<Rightarrow> False) rs then Raises (OtherException ''ValidationError'')
               else Returns (map (\<lambda>r. case r of Returns p \<Rightarrow> p) rs)))"

fun enable_all :: "'o plugin_env \<Rightarrow> int \<Rightarrow> string list \<Rightarrow> 'o manager \<Rightarrow> 'o manager \<times> 'o plugin list outcome" where
  "enable_all e now [] s = (s, Returns [])"
| "enable_all e now (n # ns) s =
     (case enable e now n [] s of
        (s1, Returns p) \<Rightarrow> (case enable_all e now ns s1 of (s2, Returns ps) \<Rightarrow> (s2, Returns (p # ps)) | (s2, r) \<Rightarrow> (s2, r))
      | (s1, Raises x) \<Rightarrow> (s1, Raises x)
      | (s1, Hangs) \<Rightarrow> (s1, Hangs))"

section \<open>Routes\<close>

datatype 'a reply_of = Ok200 'a | HttpError nat | NoReply

definition reply_of_outcome :: "'o plugin outcome \<Rightarrow> string reply_of" where
  "reply_of_outcome r =
     (case r of
        Returns p \<Rightarrow> Ok200 (mf_name (pl_manifest p))
      | Raises x \<Rightarrow> if x = PluginNotFoundError then HttpError 404
                    else if x \<in> {PluginError, PluginLoadError, PluginDependencyError} then HttpError 400 else HttpError 500
      | Hangs \<Rightarrow> NoReply)"

text \<open>The header with the key is required, and not looked at.\<close>

definition enable_plugin :: "'o plugin_env \<Rightarrow> int \<Rightarrow> string option \<Rightarrow> string \<Rightarrow> pydict \<Rightarrow> 'o manager \<Rightarrow> 'o manager \<times> string reply_of" where
  "enable_plugin e now key n cfg s =
     (case key of None \<Rightarrow> (s, HttpError 422) | Some _ \<Rightarrow> map_prod id reply_of_outcome (enable e now n cfg s))"

definition disable_plugin :: "'o plugin_env \<Rightarrow> string option \<Rightarrow> string \<Rightarrow> 'o manager \<Rightarrow> 'o manager \<times> string reply_of" where
  "disable_plugin e key n s =
     (case key of None \<Rightarrow> (s, HttpError 422) | Some _ \<Rightarrow> map_prod id reply_of_outcome (disable e n s))"

definition get_plugin_route :: "string option \<Rightarrow> string \<Rightarrow> 'o manager \<Rightarrow> 'o plugin reply_of" where
  "get_plugin_route key n s =
     (case key of None \<Rightarrow> HttpError 422 | Some _ \<Rightarrow> (case pm_get n s of None \<Rightarrow> HttpError 404 | Some p \<Rightarrow> Ok200 p))"

definition list_marketplace :: "'o manager \<Rightarrow> 'o plugin list" where
  "list_marketplace s = filter (\<lambda>p. mf_category (pl_manifest p) \<in> {''marketplace'', ''community''}) (map snd (pm_registry s))"

definition plugin_categories :: "string list" where
  "plugin_categories = [''policy'', ''decision'', ''crypto'', ''wallet'', ''support'', ''ui'', ''dashboard'', ''analytics'', ''integration'', ''custom'']"

definition install_plugin :: "'o plugin_env \<Rightarrow> int \<Rightarrow> string option \<Rightarrow> string \<Rightarrow> 'o manager \<Rightarrow> 'o manager \<times> string reply_of" where
  "install_plugin e now key slug s =
     (case key of
        None \<Rightarrow> (s, HttpError 422)
      | Some _ \<Rightarrow> (case pm_get slug s of None \<Rightarrow> (s, HttpError 404) | Some _ \<Rightarrow> map_prod id reply_of_outcome (enable e now slug [] s)))"

text \<open>
  The GET routes whose path has one segment, in the order of their declaration. A request goes to the first that matches.
\<close>

datatype segment = AnyName | Exactly string

datatype plugin_handler = GetPlugin | ListMarketplace | ListTraces

definition matches_segment :: "string \<Rightarrow> segment \<Rightarrow> bool" where
  "matches_segment w g = (case g of AnyName \<Rightarrow> w \<noteq> [] | Exactly v \<Rightarrow> w = v)"

definition get_routes :: "(segment \<times> plugin_handler) list" where
  "get_routes = [(AnyName, GetPlugin), (Exactly ''marketplace'', ListMarketplace), (Exactly ''traces'', ListTraces)]"

definition route_of :: "string \<Rightarrow> plugin_handler option" where
  "route_of w = map_option snd (find (\<lambda>r. matches_segment w (fst r)) get_routes)"

section \<open>Traces\<close>

record thought_step =
  th_id :: string
  th_at :: int
  th_agent :: string
  th_thought :: string
  th_data :: pydict
  th_confidence :: rat
  th_parent :: "string option"

record trace_meta =
  tm_plugin :: string
  tm_session :: string
  tm_started :: int

record thought_trace =
  tt_id :: string
  tt_plugin :: string
  tt_session :: string
  tt_started :: int
  tt_finished :: int
  tt_steps :: "thought_step list"
  tt_decision :: pydict

record collector =
  tr_active :: "(string \<times> thought_step list) list"
  tr_completed :: "(string \<times> thought_trace) list"
  tr_metadata :: "(string \<times> trace_meta) list"

definition collector_init :: collector where
  "collector_init = \<lparr>tr_active = [], tr_completed = [], tr_metadata = []\<rparr>"

abbreviation TraceNotFoundError :: pyexc where "TraceNotFoundError \<equiv> OtherException ''TraceNotFoundError''"

definition start_trace :: "string \<Rightarrow> int \<Rightarrow> string \<Rightarrow> string \<Rightarrow> collector \<Rightarrow> collector" where
  "start_trace tid now plugin sess c =
     c\<lparr>tr_active := AList.update tid [] (tr_active c), tr_metadata := AList.update tid \<lparr>tm_plugin = plugin, tm_session = sess, tm_started = now\<rparr> (tr_metadata c)\<rparr>"

text \<open>The step is validated when it is made: its confidence lies between 0 and 1.\<close>

definition add_step :: "string \<Rightarrow> string \<Rightarrow> int \<Rightarrow> string \<Rightarrow> pydict \<Rightarrow> rat \<Rightarrow> collector \<Rightarrow> collector \<times> thought_step result" where
  "add_step tid sid now thought d conf c =
     (case (map_of (tr_active c) tid, map_of (tr_metadata c) tid) of
        (Some steps, Some m) \<Rightarrow>
          if conf < 0 \<or> 1 < conf then (c, Inl (OtherException ''ValidationError''))
          else let st = \<lparr>th_id = sid, th_at = now, th_agent = tm_plugin m, th_thought = thought, th_data = d, th_confidence = conf,
                         th_parent = (if steps = [] then None else Some (th_id (last steps)))\<rparr>
               in (c\<lparr>tr_active := AList.update tid (steps @ [st]) (tr_active c)\<rparr>, Inr st)
      | (Some steps, None) \<Rightarrow> (c, Inl (OtherException ''KeyError''))
      | _ \<Rightarrow> (c, Inl TraceNotFoundError))"

definition finish_trace :: "string \<Rightarrow> int \<Rightarrow> pydict \<Rightarrow> collector \<Rightarrow> collector \<times> thought_trace result" where
  "finish_trace tid now d c =
     (case (map_of (tr_active c) tid, map_of (tr_metadata c) tid) of
        (Some steps, Some m) \<Rightarrow>
          (let t = \<lparr>tt_id = tid, tt_plugin = tm_plugin m, tt_session = tm_session m, tt_started = tm_started m, tt_finished = now,
                    tt_steps = steps, tt_decision = d\<rparr>
           in (c\<lparr>tr_active := AList.delete tid (tr_active c), tr_completed := AList.update tid t (tr_completed c)\<rparr>, Inr t))
      | (Some steps, None) \<Rightarrow> (c, Inl (OtherException ''KeyError''))
      | _ \<Rightarrow> (c, Inl TraceNotFoundError))"

definition get_trace :: "string \<Rightarrow> collector \<Rightarrow> thought_trace option" where
  "get_trace tid c = map_of (tr_completed c) tid"

definition list_traces :: "string option \<Rightarrow> collector \<Rightarrow> thought_trace list" where
  "list_traces plugin c =
     (if truthy plugin then filter (\<lambda>t. tt_plugin t = the plugin) (map snd (tr_completed c)) else map snd (tr_completed c))"

section \<open>The sandbox\<close>

definition ALLOWED_PERMISSIONS :: "string \<Rightarrow> string set option" where
  "ALLOWED_PERMISSIONS p =
     (if p = ''restricted'' then Some {}
      else if p = ''network'' then Some {''network''}
      else if p = ''fs'' then Some {''network'', ''fs''}
      else if p = ''full'' then Some {''network'', ''fs'', ''subprocess'', ''db'', ''import''} else None)"

definition check_permission :: "manifest \<Rightarrow> string \<Rightarrow> bool result" where
  "check_permission m perm = (case ALLOWED_PERMISSIONS (mf_sandbox_policy m) of None \<Rightarrow> Inl ValueError | Some ps \<Rightarrow> Inr (perm \<in> ps))"

datatype violation = FullNeedsEnterprise | SecretField string | SubprocessNeedsEnterprise

definition forbidden_fields :: "string list" where
  "forbidden_fields = [''private_key'', ''seed_phrase'', ''mnemonic'', ''spend_key'']"

definition sandbox_validate :: "manifest \<Rightarrow> violation list result" where
  "sandbox_validate m =
     (if ALLOWED_PERMISSIONS (mf_sandbox_policy m) = None then Inl ValueError
      else Inr ((if mf_sandbox_policy m = ''full'' \<and> mf_minimum_tier m \<noteq> TierEnterprisePlan then [FullNeedsEnterprise] else [])
                @ map SecretField (filter (\<lambda>f. f \<in> fst ` set (mf_config_schema m)) forbidden_fields)
                @ (if ''subprocess'' \<in> set (mf_permissions m) \<and> mf_minimum_tier m \<noteq> TierEnterprisePlan then [SubprocessNeedsEnterprise] else [])))"

definition validate_permissions :: "manifest \<Rightarrow> string set \<Rightarrow> string set" where
  "validate_permissions m allowed = set (mf_permissions m) - allowed"

section \<open>Built-in plugins\<close>

record tenant_view =
  tv_plan :: "string option"
  tv_job_limit :: "int option"
  tv_active_jobs :: "int option"
  tv_gpu_hours :: "rat option"

datatype policy_action = PAllow | PDeny | PEscalate

definition free_tier_quota :: "tenant_view \<Rightarrow> rat option \<Rightarrow> policy_action option" where
  "free_tier_quota t cost =
     (if tv_plan t \<noteq> Some ''free'' then None
      else if (case tv_active_jobs t of None \<Rightarrow> 0 | Some n \<Rightarrow> n) \<ge> (case tv_job_limit t of None \<Rightarrow> 3 | Some n \<Rightarrow> n) then Some PDeny else None)"

definition max_cost_check :: "tenant_view \<Rightarrow> rat option \<Rightarrow> policy_action option" where
  "max_cost_check t cost = (if (case cost of None \<Rightarrow> 0 | Some c \<Rightarrow> c) > 100000 then Some PEscalate else None)"

definition enterprise_custom_check :: "tenant_view \<Rightarrow> rat option \<Rightarrow> policy_action option" where
  "enterprise_custom_check t cost = (if tv_plan t \<noteq> Some ''enterprise'' then None else Some PAllow)"

type_synonym rule = "string \<times> (tenant_view \<Rightarrow> rat option \<Rightarrow> policy_action option)"

definition default_rules :: "rule list" where
  "default_rules = [(''free_tier_quota'', free_tier_quota), (''max_cost_check'', max_cost_check), (''enterprise_custom_check'', enterprise_custom_check)]"

fun run_rules :: "rule list \<Rightarrow> tenant_view \<Rightarrow> rat option \<Rightarrow> policy_action" where
  "run_rules [] t c = PAllow"
| "run_rules ((n, r) # rs) t c =
     (case r t c of Some PDeny \<Rightarrow> PDeny | Some PEscalate \<Rightarrow> PEscalate | _ \<Rightarrow> run_rules rs t c)"

definition add_rule :: "rule \<Rightarrow> rule list \<Rightarrow> rule list" where
  "add_rule r rs = rs @ [r]"

fun remove_rule :: "string \<Rightarrow> rule list \<Rightarrow> rule list \<times> bool" where
  "remove_rule n [] = ([], False)"
| "remove_rule n (r # rs) = (if fst r = n then (rs, True) else (let (rs', b) = remove_rule n rs in (r # rs', b)))"

definition TIER_LIMITS :: "string \<Rightarrow> int \<times> rat" where
  "TIER_LIMITS p = (if p = ''pro'' then (20, 500) else if p = ''enterprise'' then (500, 10000) else (3, 2))"

definition gate_run :: "tenant_view \<Rightarrow> rat option \<Rightarrow> bool" where
  "gate_run t hours =
     (let (mj, mh) = TIER_LIMITS (case tv_plan t of None \<Rightarrow> ''free'' | Some p \<Rightarrow> p)
      in \<not> (case tv_active_jobs t of None \<Rightarrow> 0 | Some n \<Rightarrow> n) \<ge> mj
         \<and> \<not> (case tv_gpu_hours t of None \<Rightarrow> 0 | Some h \<Rightarrow> h) + (case hours of None \<Rightarrow> 1 | Some h \<Rightarrow> h) > mh)"

section \<open>The runtime\<close>

record 'o rt_plugin =
  rt_version :: "int \<times> int \<times> int"
  rt_object :: 'o
  rt_phase :: string
  rt_executions :: nat
  rt_errors :: nat

fun split_dots :: "string \<Rightarrow> string list" where
  "split_dots [] = [[]]"
| "split_dots (c # cs) =
     (if c = CHR ''.'' then [] # split_dots cs
      else case split_dots cs of [] \<Rightarrow> [[c]] | w # ws \<Rightarrow> (c # w) # ws)"

text \<open>Three numbers; fewer or more do not fit the constructor.\<close>

definition plugin_version :: "string \<Rightarrow> (int \<times> int \<times> int) result" where
  "plugin_version w =
     (if list_ex (\<lambda>x. int_of_string x = None) (split_dots w) then Inl ValueError
      else case map (\<lambda>x. the (int_of_string x)) (split_dots w) of [a, b, c] \<Rightarrow> Inr (a, b, c) | _ \<Rightarrow> Inl TypeError)"

definition load_from_class :: "'o \<Rightarrow> string \<Rightarrow> string \<Rightarrow> (string \<times> 'o rt_plugin) list \<Rightarrow> (string \<times> 'o rt_plugin) list \<times> 'o rt_plugin result" where
  "load_from_class ob n ver rt =
     (case plugin_version ver of
        Inl x \<Rightarrow> (rt, Inl x)
      | Inr v \<Rightarrow>
          (let p = \<lparr>rt_version = v, rt_object = ob, rt_phase = ''initializing'', rt_executions = 0, rt_errors = 0\<rparr>
           in (AList.update n p rt, Inr p)))"

text \<open>\<open>run\<close> is the plugin's own \<open>on_execute\<close>, which may change the object.\<close>

definition execute_plugin_sync ::
  "('o \<Rightarrow> 'o \<times> 'r result) \<Rightarrow> string \<Rightarrow> (string \<times> 'o rt_plugin) list \<Rightarrow> (string \<times> 'o rt_plugin) list \<times> 'r result" where
  "execute_plugin_sync run n rt =
     (case map_of rt n of
        None \<Rightarrow> (rt, Inl ValueError)
      | Some p \<Rightarrow>
          (case run (rt_object p) of
             (ob, Inl x) \<Rightarrow> (AList.update n (p\<lparr>rt_object := ob\<rparr>) rt, Inl x)
           | (ob, Inr r) \<Rightarrow> (AList.update n (p\<lparr>rt_object := ob, rt_executions := rt_executions p + 1\<rparr>) rt, Inr r)))"

section \<open>The registry under the operations\<close>

lemma pm_get_set [simp]: "pm_get m (pm_set n f s) = (if m = n then map_option f (pm_get n s) else pm_get m s)"
  by (auto simp: pm_get_def pm_set_def map_of_map_entry split: option.splits)

lemma pm_set_locked [simp]: "pm_locked (pm_set n f s) = pm_locked s"
  by (simp add: pm_set_def)

lemma pm_get_lock [simp]: "pm_get m (s\<lparr>pm_locked := b\<rparr>) = pm_get m s"
  by (simp add: pm_get_def)

lemma check_deps_ready:
  "check_deps (pm_registry s) ds = DepsReady \<longleftrightarrow> (\<forall>d\<in>set ds. \<exists>q. pm_get d s = Some q \<and> pl_state q \<in> {PlLoaded, PlEnabled})"
  by (induction ds) (auto simp: pm_get_def split: option.splits)

text \<open>A load that works: its plugin is loaded, the others are untouched.\<close>

definition loaded :: "string \<Rightarrow> 'o manager \<Rightarrow> bool" where
  "loaded n s \<longleftrightarrow> (\<exists>p. pm_get n s = Some p \<and> pl_state p \<in> {PlLoaded, PlEnabled})"

lemma load_works:
  assumes "\<not> pm_locked s" and "pm_get n s = Some p" and "pl_state p \<noteq> PlError"
    and "\<forall>d\<in>set (mf_dependencies (pl_manifest p)). d \<noteq> n \<and> loaded d s" and "import_plugin e (pl_manifest p) = Inr ob"
  obtains s' q where "load e now n s = (s', Returns q)" "\<not> pm_locked s'" "loaded n s'" "\<And>m. m \<noteq> n \<Longrightarrow> pm_get m s' = pm_get m s"
    "pm_get n s' = Some q" "pl_manifest q = pl_manifest p"
proof (cases "pl_state p \<in> {PlLoaded, PlEnabled}")
  case True
  then have "load e now n s = (s, Returns p)" using assms(1,2) by (simp add: load_def)
  then show ?thesis using that [of s p] assms(1,2) True by (auto simp: loaded_def)
next
  case False
  let ?s1 = "pm_set n (\<lambda>p. p\<lparr>pl_state := PlUpdating\<rparr>) s"
  have d: "check_deps (pm_registry ?s1) (mf_dependencies (pl_manifest p)) = DepsReady"
    using assms(4) by (auto simp: check_deps_ready loaded_def)
  let ?f = "\<lambda>p. p\<lparr>pl_state := PlLoaded, pl_loaded_at := Some now, pl_object := Some ob\<rparr>"
  let ?s2 = "pm_set n ?f ?s1"
  have "load e now n s = answer n ?s2"
    using assms False d by (simp add: load_def Let_def)
  also have "\<dots> = (?s2, Returns (?f (p\<lparr>pl_state := PlUpdating\<rparr>)))" using assms(2) by (simp add: answer_def)
  finally have l: "load e now n s = (?s2, Returns (?f (p\<lparr>pl_state := PlUpdating\<rparr>)))" .
  show ?thesis by (rule that [OF l]) (use assms(1,2) in \<open>auto simp: loaded_def\<close>)
qed

section \<open>Loading in order\<close>

text \<open>Every plugin of the list is registered, not broken, can be imported, and needs only plugins that are ready or come before it.\<close>

fun load_order :: "'o plugin_env \<Rightarrow> 'o manager \<Rightarrow> string set \<Rightarrow> string list \<Rightarrow> bool" where
  "load_order e s R [] = True"
| "load_order e s R (n # ns) =
     ((case pm_get n s of
         None \<Rightarrow> False
       | Some p \<Rightarrow> pl_state p \<noteq> PlError \<and> (\<exists>ob. import_plugin e (pl_manifest p) = Inr ob)
                   \<and> set (mf_dependencies (pl_manifest p)) \<subseteq> R - {n})
      \<and> load_order e s (insert n R) ns)"

lemma load_order_same:
  assumes "load_order e s R ns" and "\<And>m. m \<in> set ns \<Longrightarrow> \<exists>p q. pm_get m s = Some p \<and> pm_get m s' = Some q \<and> pl_manifest q = pl_manifest p \<and> (pl_state q = PlError \<longrightarrow> pl_state p = PlError)"
  shows "load_order e s' R ns"
  using assms
proof (induction ns arbitrary: R)
  case (Cons n ns)
  obtain p q where pq: "pm_get n s = Some p" "pm_get n s' = Some q" "pl_manifest q = pl_manifest p" "pl_state q = PlError \<longrightarrow> pl_state p = PlError"
    using Cons.prems(2) [of n] by auto
  then show ?case using Cons by auto
qed simp

lemma load_seq_works:
  assumes "\<not> pm_locked s" and "load_order e s R ns" and "\<forall>r\<in>R. loaded r s"
  shows "case load_seq e now ns s of (s', rs) \<Rightarrow> \<not> pm_locked s' \<and> (\<forall>n\<in>set ns \<union> R. loaded n s') \<and> (\<forall>r\<in>set rs. \<exists>p. r = Returns p) \<and> length rs = length ns"
  using assms
proof (induction ns arbitrary: s R)
  case (Cons n ns)
  obtain p ob where p: "pm_get n s = Some p" "pl_state p \<noteq> PlError" "import_plugin e (pl_manifest p) = Inr ob"
    "set (mf_dependencies (pl_manifest p)) \<subseteq> R - {n}" using Cons.prems(2) by (auto split: option.splits)
  have d: "\<forall>d\<in>set (mf_dependencies (pl_manifest p)). d \<noteq> n \<and> loaded d s" using p(4) Cons.prems(3) by auto
  obtain s1 q where l: "load e now n s = (s1, Returns q)" "\<not> pm_locked s1" "loaded n s1" "\<And>m. m \<noteq> n \<Longrightarrow> pm_get m s1 = pm_get m s"
    "pm_get n s1 = Some q" "pl_manifest q = pl_manifest p"
    using load_works [OF Cons.prems(1) p(1,2) d p(3)] by blast
  have "loaded r s1" if "r \<in> R" for r using Cons.prems(3) l(3,4) that by (cases "r = n") (auto simp: loaded_def)
  then have R: "\<forall>r\<in>insert n R. loaded r s1" using l(3) by blast
  have ld: "pl_state q \<noteq> PlError" using l(3,5) by (auto simp: loaded_def)
  have o: "load_order e s (insert n R) ns" using Cons.prems(2) by simp
  have ex: "\<exists>p. pm_get m s = Some p" if "m \<in> set ns" "load_order e s R' ns" for m R'
    using that by (induction ns arbitrary: R') (auto split: option.splits)
  have "load_order e s1 (insert n R) ns"
  proof (rule load_order_same [OF o])
    fix m assume "m \<in> set ns"
    then obtain r where r: "pm_get m s = Some r" using ex o by blast
    show "\<exists>p q. pm_get m s = Some p \<and> pm_get m s1 = Some q \<and> pl_manifest q = pl_manifest p \<and> (pl_state q = PlError \<longrightarrow> pl_state p = PlError)"
      using r l(4) [of m] l(5,6) p(1) ld by (cases "m = n") auto
  qed
  from Cons.IH [OF l(2) this R] show ?case using l(1) by (auto split: prod.splits)
qed simp

section \<open>The invariant of the registry\<close>

definition plugin_inv :: "'o manager \<Rightarrow> bool" where
  "plugin_inv s \<longleftrightarrow> (\<forall>n p. pm_get n s = Some p \<longrightarrow> pl_state p \<in> {PlLoaded, PlEnabled}
     \<longrightarrow> pl_object p \<noteq> None \<and> (\<forall>d\<in>set (mf_dependencies (pl_manifest p)). pm_get d s \<noteq> None))"

inductive plugin_op :: "'o plugin_env \<Rightarrow> 'o manager \<Rightarrow> 'o manager \<Rightarrow> bool" for e where
  "plugin_op e s (fst (register m s))"
| "plugin_op e s (fst (load e now n s))"
| "plugin_op e s (fst (enable e now n cfg s))"
| "plugin_op e s (fst (disable e n s))"
| "plugin_op e s (fst (unload n s))"
| "plugin_op e s (fst (update_plugin n m s))"

inductive plugin_reach :: "'o plugin_env \<Rightarrow> 'o manager \<Rightarrow> bool" for e where
  "plugin_reach e pm_init"
| "plugin_reach e s \<Longrightarrow> plugin_op e s s' \<Longrightarrow> plugin_reach e s'"

text \<open>A change of one plugin keeps the invariant if the new plugin fits.\<close>

lemma inv_set:
  assumes "plugin_inv s"
    and "\<And>p. pm_get n s = Some p \<Longrightarrow> pl_state (f p) \<in> {PlLoaded, PlEnabled}
      \<Longrightarrow> pl_object (f p) \<noteq> None \<and> (\<forall>d\<in>set (mf_dependencies (pl_manifest (f p))). pm_get d s \<noteq> None)"
  shows "plugin_inv (pm_set n f s)"
  using assms unfolding plugin_inv_def by (auto split: if_splits)

lemma inv_lock [simp]: "plugin_inv (s\<lparr>pm_locked := b\<rparr>) = plugin_inv s"
  by (simp add: plugin_inv_def)

lemma fail_inv: "plugin_inv s \<Longrightarrow> plugin_inv (fst (fail_with n x y s))"
  by (simp add: fail_with_def) (rule inv_set, auto)

lemma answer_fst [simp]: "fst (answer n s) = s"
  by (simp add: answer_def)

lemma register_inv: "plugin_inv s \<Longrightarrow> plugin_inv (fst (register m s))"
  unfolding plugin_inv_def register_def Let_def
  by (auto simp: pm_get_def map_add_Some_iff map_of_append split: if_splits option.splits)

lemma load_inv:
  assumes "plugin_inv s"
  shows "plugin_inv (fst (load e now n s))"
proof (cases "pm_get n s")
  case None
  then show ?thesis using assms by (simp add: load_def)
next
  case (Some p)
  let ?s1 = "pm_set n (\<lambda>p. p\<lparr>pl_state := PlUpdating\<rparr>) s"
  have i1: "plugin_inv ?s1" using assms by (rule inv_set) simp
  have ok: "plugin_inv (pm_set n (\<lambda>p. p\<lparr>pl_state := PlLoaded, pl_loaded_at := Some now, pl_object := Some ob\<rparr>) ?s1)"
    if "check_deps (pm_registry ?s1) (mf_dependencies (pl_manifest p)) = DepsReady" for ob
    using i1
  proof (rule inv_set)
    fix q assume q: "pm_get n ?s1 = Some q"
    have "\<forall>d\<in>set (mf_dependencies (pl_manifest p)). pm_get d ?s1 \<noteq> None" using that unfolding check_deps_ready by blast
    then show "pl_object (q\<lparr>pl_state := PlLoaded, pl_loaded_at := Some now, pl_object := Some ob\<rparr>) \<noteq> None
        \<and> (\<forall>d\<in>set (mf_dependencies (pl_manifest (q\<lparr>pl_state := PlLoaded, pl_loaded_at := Some now, pl_object := Some ob\<rparr>))). pm_get d ?s1 \<noteq> None)"
      using q Some by (auto split: if_splits)
  qed
  show ?thesis
    using assms i1 ok fail_inv [OF i1] Some
    by (cases "check_deps (pm_registry ?s1) (mf_dependencies (pl_manifest p))"; cases "import_plugin e (pl_manifest p)") (simp_all add: load_def Let_def)
qed

lemma load_returns: "load e now n s = (s1, Returns q) \<Longrightarrow> loaded n s1"
  by (auto simp: load_def answer_def loaded_def Let_def fail_with_def split: if_splits option.splits dep_check.splits sum.splits)

lemma enable_loaded_inv:
  assumes "plugin_inv s" and "loaded n s"
  shows "plugin_inv (fst (enable_loaded e now n cfg s))"
proof -
  obtain p where p: "pm_get n s = Some p" "pl_state p \<in> {PlLoaded, PlEnabled}" using assms(2) by (auto simp: loaded_def)
  have o: "pl_object p \<noteq> None" "\<forall>d\<in>set (mf_dependencies (pl_manifest p)). pm_get d s \<noteq> None" using assms(1) p unfolding plugin_inv_def by auto
  let ?s1 = "if cfg \<noteq> [] then pm_set n (\<lambda>p. p\<lparr>pl_config := cfg\<rparr>) s else s"
  have i1: "plugin_inv ?s1"
    using assms(1) o p by (auto intro!: inv_set)
  have g: "\<exists>q. pm_get n ?s1 = Some q \<and> pl_object q = pl_object p \<and> pl_manifest q = pl_manifest p" using p by simp
  have d: "pm_get d ?s1 \<noteq> None \<longleftrightarrow> pm_get d s \<noteq> None" for d by simp
  have "plugin_inv (pm_set n (\<lambda>p. p\<lparr>pl_state := PlEnabled, pl_enabled_at := Some now\<rparr>) ?s1)"
    using i1
  proof (rule inv_set)
    fix q assume "pm_get n ?s1 = Some q"
    then show "pl_object (q\<lparr>pl_state := PlEnabled, pl_enabled_at := Some now\<rparr>) \<noteq> None
        \<and> (\<forall>d\<in>set (mf_dependencies (pl_manifest (q\<lparr>pl_state := PlEnabled, pl_enabled_at := Some now\<rparr>))). pm_get d ?s1 \<noteq> None)"
      using g o d by auto
  qed
  then show ?thesis using assms(1) fail_inv [OF i1] p
    by (auto simp: enable_loaded_def Let_def split: option.splits)
qed

lemma op_plugin_inv:
  assumes "plugin_op e s s'" and "plugin_inv s"
  shows "plugin_inv s'"
  using assms(1)
proof (cases rule: plugin_op.cases)
  case (3 now n cfg)
  obtain s1 r where l: "load e now n s = (s1, r)" by (cases "load e now n s")
  have i: "plugin_inv s1" using load_inv [OF assms(2), of e now n] l by simp
  show ?thesis using 3 l i load_returns [of e now n s s1] enable_loaded_inv [OF i] by (cases r) (simp_all add: enable_def)
next
  case (4 n)
  show ?thesis unfolding 4 using assms(2) fail_inv [OF assms(2)] inv_set [OF assms(2), of n "\<lambda>p. p\<lparr>pl_state := PlDisabled\<rparr>"]
    by (auto simp: disable_def split: option.splits)
next
  case (5 n)
  show ?thesis unfolding 5 using assms(2) inv_set [OF assms(2), of n "\<lambda>p. p\<lparr>pl_object := None, pl_state := PlUnloaded\<rparr>"]
    by (auto simp: unload_def split: option.splits)
next
  case (6 n m)
  show ?thesis unfolding 6
    using assms(2) inv_set [OF assms(2), of n "\<lambda>p. p\<lparr>pl_state := PlUpdating, pl_object := None, pl_manifest := m, pl_error := None\<rparr>"]
    by (auto simp: update_plugin_def split: option.splits)
qed (use assms(2) register_inv load_inv in blast)+

lemma plugin_reach_inv: "plugin_reach e s \<Longrightarrow> plugin_inv s"
proof (induction rule: plugin_reach.induct)
  case 1
  show ?case by (simp add: plugin_inv_def pm_init_def pm_get_def)
qed (rule op_plugin_inv)

section \<open>Claims\<close>

definition demo_manifest :: "string \<Rightarrow> string list \<Rightarrow> manifest" where
  "demo_manifest n ds = \<lparr>mf_name = n, mf_version = ''1.0.0'', mf_category = ''custom'', mf_entry_point = ''mod:Cls'', mf_dependencies = ds,
     mf_minimum_tier = TierFree, mf_config_schema = [], mf_permissions = [], mf_sandbox_policy = ''restricted''\<rparr>"

definition demo_env :: "unit plugin_env" where
  "demo_env = \<lparr>pe_import = (\<lambda>_ _. Imported ()), pe_on_enable = (\<lambda>_ _. None), pe_on_disable = (\<lambda>_. None)\<rparr>"

definition two_plugins :: "unit manager" where
  "two_plugins = fst (register (demo_manifest ''b'' [''a'']) (fst (register (demo_manifest ''a'' []) pm_init)))"

lemma two_plugins_get:
  "\<not> pm_locked two_plugins" "\<exists>p. pm_get ''a'' two_plugins = Some p \<and> pl_state p = PlRegistered \<and> pl_manifest p = demo_manifest ''a'' []"
  "\<exists>p. pm_get ''b'' two_plugins = Some p \<and> pl_state p = PlRegistered \<and> pl_manifest p = demo_manifest ''b'' [''a'']"
  by (simp_all add: two_plugins_def register_def pm_get_def pm_init_def Let_def demo_manifest_def)

lemma demo_import: "import_plugin demo_env (demo_manifest n ds) = Inr ()"
  by (simp add: import_plugin_def rsplit_colon_def demo_manifest_def demo_env_def)

lemma two_plugins_order: "load_order demo_env two_plugins {} [''a'', ''b'']"
  using two_plugins_get demo_import by (auto simp: demo_manifest_def split: option.splits)

text \<open>Plugins loaded after their dependencies are all loaded. If no operation is waiting, every plugin of the list
  is registered, in no error and importable, and needs only plugins that come before it in the list, then loading the list
  in its order answers every call, leaves the lock free, and every plugin of the list is loaded.\<close>

theorem ordered_loads_succeed:
  assumes "\<not> pm_locked s" and "load_order e s {} ns"
  shows "case load_seq e now ns s of (s', rs) \<Rightarrow>
    \<not> pm_locked s' \<and> length rs = length ns \<and> Hangs \<notin> set rs \<and> (\<forall>n\<in>set ns. \<exists>p. pm_get n s' = Some p \<and> pl_state p \<in> {PlLoaded, PlEnabled})"
proof -
  have "case load_seq e now ns s of (s', rs) \<Rightarrow> \<not> pm_locked s' \<and> (\<forall>n\<in>set ns \<union> {}. loaded n s') \<and> (\<forall>r\<in>set rs. \<exists>p. r = Returns p) \<and> length rs = length ns"
    by (rule load_seq_works [OF assms]) simp
  then show ?thesis unfolding loaded_def by (auto split: prod.splits)
qed

theorem ordered_loads_succeed_witness:
  "case load_seq demo_env 5 [''a'', ''b''] two_plugins of (s', rs) \<Rightarrow>
    \<not> pm_locked s' \<and> length rs = length [''a'', ''b''] \<and> Hangs \<notin> set rs
    \<and> (\<forall>n\<in>set [''a'', ''b'']. \<exists>p. pm_get n s' = Some p \<and> pl_state p \<in> {PlLoaded, PlEnabled})"
  by (rule ordered_loads_succeed [OF two_plugins_get(1) two_plugins_order])

text \<open>What is loaded can run. In every state the operations can produce one after the other, a loaded or enabled
  plugin has its object, and all its dependencies are registered.\<close>

theorem loaded_plugins_complete:
  assumes "plugin_reach e s" and "pm_get n s = Some p" and "pl_state p \<in> {PlLoaded, PlEnabled}"
  shows "pl_object p \<noteq> None \<and> (\<forall>d\<in>set (mf_dependencies (pl_manifest p)). pm_get d s \<noteq> None)"
  using plugin_reach_inv [OF assms(1)] assms(2,3) unfolding plugin_inv_def by blast

text \<open>Once an operation hangs, nothing moves any more: every later operation that needs the lock hangs and changes nothing.\<close>

theorem hang_is_for_ever:
  assumes "pm_locked s"
  shows "register m s = (s, Hangs) \<and> load e now n s = (s, Hangs) \<and> enable e now n cfg s = (s, Hangs) \<and> disable e n s = (s, Hangs)
    \<and> update_plugin n m s = (s, Hangs) \<and> (pm_get n s = None \<or> unload n s = (s, Hangs))"
  using assms by (auto simp: register_def load_def enable_def disable_def update_plugin_def unload_def split: option.splits)

theorem hang_is_for_ever_witness:
  "register (demo_manifest ''c'' []) (two_plugins\<lparr>pm_locked := True\<rparr>) = (two_plugins\<lparr>pm_locked := True\<rparr>, Hangs)"
  using hang_is_for_ever [of "two_plugins\<lparr>pm_locked := True\<rparr>" "demo_manifest ''c'' []"] by simp

text \<open>C0: A trace is the chain of its steps: what \<open>finish\<close> returns are exactly the steps added, in their order, each with the
  one before it as its parent.\<close>

fun add_steps :: "string \<Rightarrow> (string \<times> int \<times> string \<times> pydict \<times> rat) list \<Rightarrow> collector \<Rightarrow> collector" where
  "add_steps tid [] c = c"
| "add_steps tid ((sid, now, w, d, k) # xs) c = add_steps tid xs (fst (add_step tid sid now w d k c))"

definition chained :: "thought_step list \<Rightarrow> bool" where
  "chained ts \<longleftrightarrow> (\<forall>i<length ts. th_parent (ts ! i) = (if i = 0 then None else Some (th_id (ts ! (i - 1)))))"

lemma chained_snoc: "chained ts \<Longrightarrow> th_parent t = (if ts = [] then None else Some (th_id (last ts))) \<Longrightarrow> chained (ts @ [t])"
  by (auto simp: chained_def nth_append last_conv_nth less_Suc_eq)

lemma add_steps_chain:
  assumes "map_of (tr_active c) tid = Some ts" and "map_of (tr_metadata c) tid = Some m" and "chained ts"
    and "\<forall>x\<in>set xs. 0 \<le> snd (snd (snd (snd x))) \<and> snd (snd (snd (snd x))) \<le> 1"
  shows "\<exists>us. map_of (tr_active (add_steps tid xs c)) tid = Some (ts @ us) \<and> map_of (tr_metadata (add_steps tid xs c)) tid = Some m
    \<and> chained (ts @ us) \<and> map th_id us = map fst xs \<and> map th_thought us = map (\<lambda>x. fst (snd (snd x))) xs"
  using assms
proof (induction xs arbitrary: c ts)
  case (Cons x xs)
  obtain sid now w d k where x: "x = (sid, now, w, d, k)" by (cases x)
  let ?t = "\<lparr>th_id = sid, th_at = now, th_agent = tm_plugin m, th_thought = w, th_data = d, th_confidence = k,
    th_parent = (if ts = [] then None else Some (th_id (last ts)))\<rparr>"
  let ?c = "fst (add_step tid sid now w d k c)"
  have c: "map_of (tr_active ?c) tid = Some (ts @ [?t])" "map_of (tr_metadata ?c) tid = Some m"
    using Cons.prems x by (auto simp: add_step_def Let_def update_conv')
  have ch: "chained (ts @ [?t])" by (rule chained_snoc) (use Cons.prems in simp_all)
  obtain us where "map_of (tr_active (add_steps tid xs ?c)) tid = Some ((ts @ [?t]) @ us)" "map_of (tr_metadata (add_steps tid xs ?c)) tid = Some m"
    "chained ((ts @ [?t]) @ us)" "map th_id us = map fst xs" "map th_thought us = map (\<lambda>x. fst (snd (snd x))) xs"
    using Cons.IH [OF c ch] Cons.prems(4) by auto
  then show ?case by (intro exI [of _ "?t # us"]) (simp add: x)
qed auto

theorem trace_is_chain:
  assumes "\<forall>x\<in>set xs. 0 \<le> snd (snd (snd (snd x))) \<and> snd (snd (snd (snd x))) \<le> 1"
  shows "\<exists>t. snd (finish_trace tid end_at d (add_steps tid xs (start_trace tid now plugin sess c))) = Inr t
    \<and> map th_id (tt_steps t) = map fst xs \<and> chained (tt_steps t) \<and> tt_plugin t = plugin \<and> tt_started t = now"
proof -
  let ?c = "start_trace tid now plugin sess c"
  have "map_of (tr_active ?c) tid = Some []" "map_of (tr_metadata ?c) tid = Some \<lparr>tm_plugin = plugin, tm_session = sess, tm_started = now\<rparr>"
    by (simp_all add: start_trace_def update_conv')
  then obtain us where "map_of (tr_active (add_steps tid xs ?c)) tid = Some us"
    "map_of (tr_metadata (add_steps tid xs ?c)) tid = Some \<lparr>tm_plugin = plugin, tm_session = sess, tm_started = now\<rparr>"
    "chained us" "map th_id us = map fst xs" using add_steps_chain [of ?c tid "[]" _ xs] assms by (auto simp: chained_def)
  then show ?thesis by (simp add: finish_trace_def Let_def)
qed

theorem trace_is_chain_witness:
  "\<exists>t. snd (finish_trace ''t'' 9 [] (add_steps ''t'' [(''s1'', 1, ''first'', [], 1), (''s2'', 2, ''second'', [], 1 / 2)]
        (start_trace ''t'' 0 ''p'' ''s'' collector_init))) = Inr t
    \<and> map th_id (tt_steps t) = map fst [(''s1'', 1 :: int, ''first'', [] :: pydict, 1 :: rat), (''s2'', 2, ''second'', [], 1 / 2)]
    \<and> chained (tt_steps t) \<and> tt_plugin t = ''p'' \<and> tt_started t = 0"
  by (rule trace_is_chain) simp

text \<open>The decision of the default policies, exactly: a tenant of the free plan at its limit is denied, otherwise an estimate
  above 100000 is escalated, everything else is allowed.\<close>

theorem default_policy_exact:
  "run_rules default_rules t cost =
     (if tv_plan t = Some ''free'' \<and> (case tv_job_limit t of None \<Rightarrow> 3 | Some n \<Rightarrow> n) \<le> (case tv_active_jobs t of None \<Rightarrow> 0 | Some n \<Rightarrow> n) then PDeny
      else if (case cost of None \<Rightarrow> 0 | Some c \<Rightarrow> c) > 100000 then PEscalate else PAllow)"
  by (simp add: default_rules_def free_tier_quota_def max_cost_check_def enterprise_custom_check_def)

section \<open>Corner cases\<close>

lemma update_never_returns: "snd (update_plugin n m s) = Hangs \<or> snd (update_plugin n m s) = Raises PluginNotFoundError"
  by (auto simp: update_plugin_def split: option.splits)

lemma unload_enabled_hangs:
  "pm_get n s = Some p \<Longrightarrow> pl_state p = PlEnabled \<Longrightarrow> snd (unload n s) = Hangs \<and> pm_locked (fst (unload n s))"
  by (simp add: unload_def)

text \<open>A dependency that is registered but not loaded: the load waits for itself.\<close>

lemma load_before_dependency_hangs:
  "load demo_env 5 ''b'' two_plugins = ((pm_set ''b'' (\<lambda>p. p\<lparr>pl_state := PlUpdating\<rparr>) two_plugins)\<lparr>pm_locked := True\<rparr>, Hangs)"
  by (simp add: load_def two_plugins_def register_def pm_get_def pm_init_def Let_def demo_manifest_def pm_set_def)

text \<open>Between its two halves \<open>enable\<close> has no lock: a plugin unloaded there is enabled without an object.\<close>

lemma enabled_without_object:
  assumes "\<not> pm_locked s" and "pm_get n s = Some p" and "pl_state p = PlUnloaded" and "pl_object p = None"
  shows "\<exists>q. pm_get n (fst (enable_loaded e now n [] s)) = Some q \<and> pl_state q = PlEnabled \<and> pl_object q = None"
  using assms by (simp add: enable_loaded_def)

lemma marketplace_is_empty:
  "\<forall>p\<in>snd ` set (pm_registry s). mf_category (pl_manifest p) \<in> set plugin_categories \<Longrightarrow> list_marketplace s = []"
  by (auto simp: list_marketplace_def filter_empty_conv plugin_categories_def)

text \<open>Any key will do.\<close>

lemma key_is_not_checked: "enable_plugin e now (Some k) n cfg s = enable_plugin e now (Some k') n cfg s"
  by (simp add: enable_plugin_def)

lemma failed_load_all_raises:
  assumes "load_seq e now ns s = (s1, rs)" and "Hangs \<notin> set rs" and "Raises x \<in> set rs"
  shows "load_all e now ns s = (s1, Raises (OtherException ''ValidationError''))"
  using assms by (auto simp: load_all_def list_ex_iff split: outcome.splits)

text \<open>The phase shown by \<open>list_loaded\<close> is never changed, since execution sets the one of the plugin's object.\<close>

lemma phase_never_changes:
  "map_of rt n = Some p \<Longrightarrow> map_of (fst (execute_plugin_sync run n rt)) n = Some q \<Longrightarrow> rt_phase q = rt_phase p \<and> rt_errors q = rt_errors p"
  by (auto simp: execute_plugin_sync_def update_conv' split: prod.splits sum.splits)

lemma pages_are_shadowed: "route_of ''marketplace'' = Some GetPlugin" "route_of ''traces'' = Some GetPlugin"
  by (simp_all add: route_of_def get_routes_def matches_segment_def)

end
