(* ===== verification/Gateway.thy ===== *)
theory Gateway
  imports Quota "HOL-Library.AList"
begin

text \<open>
  The stand-alone gateway and its engines: \<open>src/auth/engine.py\<close> (keys, tenants, request signatures),
  \<open>src/auth/api_gateway.py\<close> (token bucket and middleware), \<open>src/auth/api_keys.py\<close> (scoped keys), \<open>src/auth/quota_engine.py\<close>,
  \<open>src/rbac/engine.py\<close>, \<open>src/rbac/guard.py\<close>, \<open>src/tenancy/manager.py\<close> and \<open>src/billing/metering.py\<close>.

  Digests, the MAC, the text of a time stamp, fresh identifiers and the clock are arguments; times and token counts are exact.

  Shown: a key that was revoked or has expired never passes again; the token bucket admits at most its size plus what
  flows in during the time; the handler runs only for a valid key within rate and quota; usage totals are the sums of their
  events; and that a scoped key passes with any suffix, that a tenant without a secret accepts the empty signature, that
  the signed text is ambiguous, and that a role reaches beyond its resource.
\<close>

section \<open>Keys\<close>

datatype key_status = KeyActive | KeyExpired | KeyRevoked | KeyPending

record api_key =
  ak_id :: string
  ak_tenant :: string
  ak_project :: string
  ak_type :: string
  ak_prefix :: string
  ak_hash :: string
  ak_status :: key_status
  ak_created :: rat
  ak_expires :: "rat option"
  ak_used :: "rat option"
  ak_scopes :: "string list"
  ak_description :: string

record auth_tenant =
  at_name :: string
  at_plan :: string
  at_keys :: "string list"
  at_active :: bool

record auth_engine =
  ae_keys :: "(string \<times> api_key) list"
  ae_index :: "(string \<times> string) list"
  ae_tenants :: "(string \<times> auth_tenant) list"
  ae_secrets :: "(string \<times> string) list"

definition auth_init :: auth_engine where
  "auth_init = \<lparr>ae_keys = [], ae_index = [], ae_tenants = [], ae_secrets = []\<rparr>"

definition index_key :: "(string \<Rightarrow> string) \<Rightarrow> string \<Rightarrow> string" where
  "index_key dig secret = take 8 secret @ '':'' @ dig secret"

record key_req =
  kq_tenant :: string
  kq_project :: string
  kq_type :: string
  kq_description :: string
  kq_expires :: "rat option"
  kq_scopes :: "string list"

definition create_key :: "(string \<Rightarrow> string) \<Rightarrow> rat \<Rightarrow> string \<Rightarrow> string \<Rightarrow> key_req \<Rightarrow> auth_engine \<Rightarrow> auth_engine \<times> string \<times> string" where
  "create_key dig now kid secret q a =
     (let k = \<lparr>ak_id = kid, ak_tenant = kq_tenant q, ak_project = kq_project q, ak_type = kq_type q, ak_prefix = take 8 secret,
               ak_hash = dig secret, ak_status = KeyActive, ak_created = now, ak_expires = kq_expires q, ak_used = None,
               ak_scopes = (if kq_scopes q = [] then [''submit'', ''status'', ''cancel''] else kq_scopes q), ak_description = kq_description q\<rparr>
      in (a\<lparr>ae_keys := AList.update kid k (ae_keys a), ae_index := AList.update (index_key dig secret) kid (ae_index a)\<rparr>, kid, secret))"

definition set_key :: "string \<Rightarrow> (api_key \<Rightarrow> api_key) \<Rightarrow> auth_engine \<Rightarrow> auth_engine" where
  "set_key kid f a = a\<lparr>ae_keys := AList.map_entry kid f (ae_keys a)\<rparr>"

text \<open>A time of expiry that is 0 counts as none.\<close>

definition key_expired :: "rat \<Rightarrow> api_key \<Rightarrow> bool" where
  "key_expired now k = (case ak_expires k of None \<Rightarrow> False | Some t \<Rightarrow> t \<noteq> 0 \<and> t < now)"

definition validate_key :: "(string \<Rightarrow> string) \<Rightarrow> rat \<Rightarrow> string \<Rightarrow> auth_engine \<Rightarrow> auth_engine \<times> api_key option" where
  "validate_key dig now secret a =
     (if length secret < 16 then (a, None)
      else case map_of (ae_index a) (index_key dig secret) of
        None \<Rightarrow> (a, None)
      | Some kid \<Rightarrow>
          if kid = [] then (a, None)
          else case map_of (ae_keys a) kid of
            None \<Rightarrow> (a, None)
          | Some k \<Rightarrow>
              if ak_status k \<noteq> KeyActive then (a, None)
              else if key_expired now k then (set_key kid (\<lambda>k. k\<lparr>ak_status := KeyExpired\<rparr>) a, None)
              else (set_key kid (\<lambda>k. k\<lparr>ak_used := Some now\<rparr>) a, Some (k\<lparr>ak_used := Some now\<rparr>)))"

definition revoke_api_key :: "string \<Rightarrow> auth_engine \<Rightarrow> auth_engine \<times> bool" where
  "revoke_api_key kid a =
     (if map_of (ae_keys a) kid = None then (a, False) else (set_key kid (\<lambda>k. k\<lparr>ak_status := KeyRevoked\<rparr>) a, True))"

definition rotate_key :: "(string \<Rightarrow> string) \<Rightarrow> rat \<Rightarrow> string \<Rightarrow> string \<Rightarrow> string \<Rightarrow> auth_engine \<Rightarrow> auth_engine \<times> (string \<times> string) result" where
  "rotate_key dig now kid' secret kid a =
     (case map_of (ae_keys a) kid of
        None \<Rightarrow> (a, Inl (OtherException ''KeyError''))
      | Some k \<Rightarrow>
          (case create_key dig now kid' secret \<lparr>kq_tenant = ak_tenant k, kq_project = ak_project k, kq_type = ak_type k,
                  kq_description = ak_description k, kq_expires = ak_expires k, kq_scopes = ak_scopes k\<rparr> (fst (revoke_api_key kid a)) of
             (b, r) \<Rightarrow> (b, Inr r)))"

definition create_tenant :: "string \<Rightarrow> string \<Rightarrow> string \<Rightarrow> string option \<Rightarrow> auth_engine \<Rightarrow> auth_engine" where
  "create_tenant tid nm plan secret a =
     (let b = a\<lparr>ae_tenants := AList.update tid \<lparr>at_name = nm, at_plan = plan, at_keys = [], at_active = True\<rparr> (ae_tenants a)\<rparr>
      in if truthy secret then b\<lparr>ae_secrets := AList.update tid (the secret) (ae_secrets b)\<rparr> else b)"

definition attach_key_to_tenant :: "string \<Rightarrow> string \<Rightarrow> auth_engine \<Rightarrow> auth_engine" where
  "attach_key_to_tenant tid kid a = a\<lparr>ae_tenants := AList.map_entry tid (\<lambda>t. t\<lparr>at_keys := at_keys t @ [kid]\<rparr>) (ae_tenants a)\<rparr>"

definition create_hmac_secret :: "string \<Rightarrow> string \<Rightarrow> auth_engine \<Rightarrow> auth_engine" where
  "create_hmac_secret tid fresh a = a\<lparr>ae_secrets := AList.update tid fresh (ae_secrets a)\<rparr>"

definition signed_text :: "(rat \<Rightarrow> string) \<Rightarrow> string \<Rightarrow> string \<Rightarrow> string \<Rightarrow> rat \<Rightarrow> string" where
  "signed_text show meth path body ts = meth @ '':'' @ path @ '':'' @ body @ '':'' @ show ts"

definition sign_request ::
  "(string \<Rightarrow> string \<Rightarrow> string) \<Rightarrow> (rat \<Rightarrow> string) \<Rightarrow> string \<Rightarrow> string \<Rightarrow> string \<Rightarrow> string \<Rightarrow> rat \<Rightarrow> auth_engine \<Rightarrow> string" where
  "sign_request mac show tid meth path body ts a =
     (case map_of (ae_secrets a) tid of
        None \<Rightarrow> []
      | Some sec \<Rightarrow> if sec = [] then [] else mac sec (signed_text show meth path body ts))"

text \<open>Comparing with a signature that is not ASCII raises.\<close>

definition verify_signature ::
  "(string \<Rightarrow> string \<Rightarrow> string) \<Rightarrow> (rat \<Rightarrow> string) \<Rightarrow> rat \<Rightarrow> string \<Rightarrow> string \<Rightarrow> string \<Rightarrow> string \<Rightarrow> rat \<Rightarrow> string \<Rightarrow> auth_engine \<Rightarrow> bool result" where
  "verify_signature mac show now tid meth path body ts sig a =
     (if \<bar>now - ts\<bar> > 300 then Inr False
      else if \<not> is_ascii sig then Inl TypeError
      else Inr (sign_request mac show tid meth path body ts a = sig))"

abbreviation AuthError :: pyexc where "AuthError \<equiv> OtherException ''AuthError''"

definition require_valid_key :: "(string \<Rightarrow> string) \<Rightarrow> rat \<Rightarrow> string \<Rightarrow> auth_engine \<Rightarrow> auth_engine \<times> api_key result" where
  "require_valid_key dig now secret a =
     (case validate_key dig now secret a of (b, None) \<Rightarrow> (b, Inl AuthError) | (b, Some k) \<Rightarrow> (b, Inr k))"

definition require_scope :: "api_key \<Rightarrow> string \<Rightarrow> unit result" where
  "require_scope k w = (if w \<in> set (ak_scopes k) then Inr () else Inl AuthError)"

section \<open>The token bucket\<close>

record bucket =
  bk_tokens :: rat
  bk_refilled :: rat

definition bucket_at :: "nat \<Rightarrow> rat \<Rightarrow> string \<Rightarrow> (string \<times> bucket) list \<Rightarrow> bucket" where
  "bucket_at rate now tid bs = (case map_of bs tid of None \<Rightarrow> \<lparr>bk_tokens = of_nat rate, bk_refilled = now\<rparr> | Some b \<Rightarrow> b)"

definition refill :: "nat \<Rightarrow> nat \<Rightarrow> rat \<Rightarrow> bucket \<Rightarrow> rat" where
  "refill rate window now b = min (of_nat rate) (bk_tokens b + (now - bk_refilled b) * of_nat rate / of_nat window)"

definition rate_check :: "nat \<Rightarrow> nat \<Rightarrow> rat \<Rightarrow> string \<Rightarrow> (string \<times> bucket) list \<Rightarrow> (string \<times> bucket) list \<times> bool" where
  "rate_check rate window now tid bs =
     (let t = refill rate window now (bucket_at rate now tid bs); ok = (1 \<le> t)
      in (AList.update tid \<lparr>bk_tokens = (if ok then t - 1 else t), bk_refilled = now\<rparr> bs, ok))"

section \<open>Quotas\<close>

definition derived_plan_quotas :: "plans_file \<Rightarrow> (string \<times> int) list result" where
  "derived_plan_quotas f =
     (case (get_plan_limits f (Some ''free''), get_plan_limits f (Some ''pro''), get_plan_limits f (Some ''enterprise'')) of
        (Inr a, Inr b, Inr c) \<Rightarrow> Inr [(''FREE'', gpu_s_per_month a), (''PRO'', gpu_s_per_month b), (''ENTERPRISE'', gpu_s_per_month c)]
      | (Inl x, _, _) \<Rightarrow> Inl x
      | (_, Inl x, _) \<Rightarrow> Inl x
      | (_, _, Inl x) \<Rightarrow> Inl x)"

type_synonym usage = "(string \<times> rat) list"

definition get_usage :: "string \<Rightarrow> usage \<Rightarrow> rat" where
  "get_usage tid us = (case map_of us tid of None \<Rightarrow> 0 | Some u \<Rightarrow> u)"

definition check_quota :: "(string \<times> int) list \<Rightarrow> string \<Rightarrow> rat \<Rightarrow> string \<Rightarrow> usage \<Rightarrow> bool" where
  "check_quota quotas tid req plan us =
     (let lm = (case map_of quotas plan of None \<Rightarrow> 0 | Some l \<Rightarrow> of_int l)
      in if lm < 0 then True else \<not> get_usage tid us + req > lm)"

definition record_quota_usage :: "string \<Rightarrow> rat \<Rightarrow> usage \<Rightarrow> usage" where
  "record_quota_usage tid g us = AList.update tid (get_usage tid us + g) us"

definition quota_estimate_cost :: "rat \<Rightarrow> string \<Rightarrow> rat" where
  "quota_estimate_cost g plan =
     g * (222 / 1000000) * (if plan = ''PRO'' then 9 / 10 else if plan = ''ENTERPRISE'' then 3 / 4 else 1)"

section \<open>The gateway\<close>

definition PLAN_LIMITS :: "string \<Rightarrow> nat \<times> nat" where
  "PLAN_LIMITS p = (if p = ''PRO'' then (600, 60) else if p = ''ENTERPRISE'' then (6000, 60) else (60, 60))"

definition PLAN_QUOTAS :: "string \<Rightarrow> rat" where
  "PLAN_QUOTAS p =
     (if p = ''FREE'' then 360000 else if p = ''PRO'' then 3600000 else if p = ''ENTERPRISE'' then 36000000 else 0)"

record gw_request =
  gr_authorization :: "string option"
  gr_x_api_key :: "string option"
  gr_query_key :: "string option"

definition extract_key :: "gw_request \<Rightarrow> string option" where
  "extract_key r =
     (let h = (case gr_authorization r of None \<Rightarrow> [] | Some w \<Rightarrow> w)
      in if take 7 h = ''Bearer '' then Some (drop 7 h) else if truthy (gr_query_key r) then gr_query_key r else gr_x_api_key r)"

record gateway =
  gw_auth :: auth_engine
  gw_buckets :: "(string \<times> bucket) list"
  gw_usage :: usage

datatype gw_answer = GwRefused nat | GwCalled string string

definition plan_name :: "string \<Rightarrow> auth_engine \<Rightarrow> string" where
  "plan_name tid a = (case map_of (ae_tenants a) tid of None \<Rightarrow> ''FREE'' | Some t \<Rightarrow> at_plan t)"

definition middleware :: "(string \<Rightarrow> string) \<Rightarrow> rat \<Rightarrow> gw_request \<Rightarrow> gateway \<Rightarrow> gateway \<times> gw_answer" where
  "middleware dig now r g =
     (case extract_key r of
        None \<Rightarrow> (g, GwRefused 401)
      | Some secret \<Rightarrow>
          if secret = [] then (g, GwRefused 401)
          else case validate_key dig now secret (gw_auth g) of
            (a, None) \<Rightarrow> (g\<lparr>gw_auth := a\<rparr>, GwRefused 401)
          | (a, Some k) \<Rightarrow>
              (let tid = ak_tenant k; plan = plan_name tid a;
                   (bs, ok) = rate_check (fst (PLAN_LIMITS plan)) (snd (PLAN_LIMITS plan)) now tid (gw_buckets g);
                   g' = g\<lparr>gw_auth := a, gw_buckets := bs\<rparr>
               in if \<not> ok then (g', GwRefused 429)
                  else if PLAN_QUOTAS plan \<le> get_usage tid (gw_usage g) then (g', GwRefused 402)
                  else (g', GwCalled tid plan)))"

section \<open>Scoped keys\<close>

text \<open>The times of creation and of last use and the rate limit of an entry are written and never read; they are left out.\<close>

definition PREFIX :: string where "PREFIX = ''roma_sk_live_''"

record scoped_key =
  sk_org :: string
  sk_project :: string
  sk_permissions :: "string list"
  sk_expires :: "rat option"
  sk_revoked :: bool

record key_manager =
  km_keys :: "(string \<times> scoped_key) list"
  km_counter :: nat

definition km_init :: key_manager where "km_init = \<lparr>km_keys = [], km_counter = 0\<rparr>"

definition km_create :: "rat \<Rightarrow> string \<Rightarrow> string \<Rightarrow> string \<Rightarrow> string list \<Rightarrow> int \<Rightarrow> key_manager \<Rightarrow> key_manager \<times> string" where
  "km_create now fresh org proj perms exp_in m =
     (let n = Suc (km_counter m); kid = ''kid_'' @ org @ ''_'' @ proj @ ''_'' @ nat_str n
      in (\<lparr>km_keys = AList.update kid \<lparr>sk_org = org, sk_project = proj, sk_permissions = perms,
               sk_expires = (if exp_in \<noteq> 0 then Some (now + of_int exp_in) else None), sk_revoked = False\<rparr> (km_keys m), km_counter = n\<rparr>,
          PREFIX @ kid @ ''_'' @ fresh))"

text \<open>\<open>rest.rsplit("_", 1)[0]\<close>: what stands before the last underscore, or all of it.\<close>

definition before_last_underscore :: "string \<Rightarrow> string" where
  "before_last_underscore w = (if CHR ''_'' \<in> set w then rev (tl (dropWhile (\<lambda>c. c \<noteq> CHR ''_'') (rev w))) else w)"

definition key_id_of :: "string \<Rightarrow> string option" where
  "key_id_of key = (if take (length PREFIX) key = PREFIX then Some (before_last_underscore (drop (length PREFIX) key)) else None)"

definition km_validate :: "rat \<Rightarrow> string \<Rightarrow> key_manager \<Rightarrow> scoped_key option" where
  "km_validate now key m =
     (case Option.bind (key_id_of key) (map_of (km_keys m)) of
        None \<Rightarrow> None
      | Some k \<Rightarrow>
          if sk_revoked k then None
          else if (case sk_expires k of None \<Rightarrow> False | Some t \<Rightarrow> t \<noteq> 0 \<and> t < now) then None else Some k)"

definition km_revoke :: "string \<Rightarrow> key_manager \<Rightarrow> key_manager \<times> bool" where
  "km_revoke key m =
     (case key_id_of key of
        None \<Rightarrow> (m, False)
      | Some kid \<Rightarrow>
          if map_of (km_keys m) kid = None then (m, False)
          else (m\<lparr>km_keys := AList.map_entry kid (\<lambda>k. k\<lparr>sk_revoked := True\<rparr>) (km_keys m)\<rparr>, True))"

definition km_rotate :: "rat \<Rightarrow> string \<Rightarrow> string \<Rightarrow> int \<Rightarrow> key_manager \<Rightarrow> key_manager \<times> string option" where
  "km_rotate now fresh key exp_in m =
     (case km_validate now key m of
        None \<Rightarrow> (m, None)
      | Some k \<Rightarrow> (case km_create now fresh (sk_org k) (sk_project k) (sk_permissions k) exp_in m of (m', w) \<Rightarrow> (m', Some w)))"

section \<open>Roles\<close>

datatype rbac_role = OWNER | ADMIN | DEVELOPER | VIEWER

definition ROLE_PERMISSIONS :: "rbac_role \<Rightarrow> string list" where
  "ROLE_PERMISSIONS r =
     (case r of
        OWNER \<Rightarrow> [''billing:*'', ''job:*'', ''plugin:*'', ''tenant:*'', ''org:*'', ''audit:*'', ''member:*'']
      | ADMIN \<Rightarrow> [''billing:*'', ''job:*'', ''plugin:*'', ''tenant:read'', ''org:read'', ''audit:read'', ''member:manage'']
      | DEVELOPER \<Rightarrow> [''job:execute'', ''job:read'', ''plugin:read'']
      | VIEWER \<Rightarrow> [''job:read'', ''plugin:read''])"

type_synonym orgs = "(string \<times> (string \<times> rbac_role) list) list"

definition create_org :: "string \<Rightarrow> orgs \<Rightarrow> orgs" where
  "create_org og os = AList.update og [] os"

definition assign_role :: "string \<Rightarrow> string \<Rightarrow> rbac_role \<Rightarrow> orgs \<Rightarrow> orgs" where
  "assign_role u og r os = AList.update og (AList.update u r (case map_of os og of None \<Rightarrow> [] | Some us \<Rightarrow> us)) os"

definition get_role :: "string \<Rightarrow> string \<Rightarrow> orgs \<Rightarrow> rbac_role option" where
  "get_role u og os = Option.bind (map_of os og) (\<lambda>us. map_of us u)"

definition grants :: "string \<Rightarrow> string \<Rightarrow> bool" where
  "grants p w =
     (p = ''*'' \<or> p = w \<or> (drop (length p - 2) p = '':*'' \<and> 2 \<le> length p \<and> take (length p - 2) w = take (length p - 2) p))"

definition rbac_can :: "string \<Rightarrow> string \<Rightarrow> string \<Rightarrow> orgs \<Rightarrow> bool" where
  "rbac_can u og w os = (case get_role u og os of None \<Rightarrow> False | Some r \<Rightarrow> list_ex (\<lambda>p. grants p w) (ROLE_PERMISSIONS r))"

datatype guard_answer = GuardInvalidKey | GuardDenied | GuardPassed string

definition check_pre_execution :: "scoped_key option \<Rightarrow> string \<Rightarrow> guard_answer" where
  "check_pre_execution v action =
     (case v of
        None \<Rightarrow> GuardInvalidKey
      | Some k \<Rightarrow> if action \<notin> set (sk_permissions k) \<and> ''*'' \<notin> set (sk_permissions k) then GuardDenied else GuardPassed (sk_org k))"

section \<open>Tenancy\<close>

definition quota_gpu_seconds :: "plans_file \<Rightarrow> string \<Rightarrow> int" where
  "quota_gpu_seconds f plan = (case get_plan_limits f (Some plan) of Inr l \<Rightarrow> pl_gpu_per_job l | Inl _ \<Rightarrow> 0)"

definition tenant_table_plan :: "string \<Rightarrow> string" where
  "tenant_table_plan tid = (if tid = ''tenant-pro'' then ''pro'' else if tid = ''tenant-enterprise'' then ''enterprise'' else ''free'')"

datatype quota_answer = QuotaUnlimited | QuotaRemaining rat | QuotaRefused int

definition enforce_quota :: "plans_file \<Rightarrow> string \<Rightarrow> rat \<Rightarrow> quota_answer" where
  "enforce_quota f tid req =
     (let lm = quota_gpu_seconds f (tenant_table_plan tid)
      in if lm < 0 then QuotaUnlimited else if req > of_int lm then QuotaRefused lm else QuotaRemaining (of_int lm - req))"

section \<open>Metering in memory\<close>

record meter_event =
  me_tenant :: string
  me_type :: string
  me_value :: rat
  me_job :: string

definition meter_cost :: "meter_event \<Rightarrow> rat" where
  "meter_cost e =
     (if me_type e = ''gpu_usage'' then me_value e / 100000
      else if me_type e = ''cpu_usage'' then me_value e / 1000000
      else if me_type e = ''storage_usage'' then me_value e / 10000000
      else if me_type e = ''plugin_exec'' then me_value e / 1000 else 0)"

record meter_total =
  mt_gpu :: rat
  mt_cpu :: rat
  mt_gb :: rat
  mt_cost :: rat
  mt_jobs :: nat

record meter =
  mr_events :: "meter_event list"
  mr_totals :: "(string \<times> meter_total) list"

definition meter_init :: meter where "meter_init = \<lparr>mr_events = [], mr_totals = []\<rparr>"

definition meter_zero :: meter_total where
  "meter_zero = \<lparr>mt_gpu = 0, mt_cpu = 0, mt_gb = 0, mt_cost = 0, mt_jobs = 0\<rparr>"

definition first_nonzero :: "rat list \<Rightarrow> rat" where
  "first_nonzero xs = (case filter (\<lambda>x. x \<noteq> 0) xs of [] \<Rightarrow> 0 | x # _ \<Rightarrow> x)"

definition total_of :: "string \<Rightarrow> meter \<Rightarrow> meter_total" where
  "total_of tid m = (case map_of (mr_totals m) tid of None \<Rightarrow> meter_zero | Some t \<Rightarrow> t)"

definition meter_record :: "string \<Rightarrow> string \<Rightarrow> string \<Rightarrow> rat \<Rightarrow> rat \<Rightarrow> rat \<Rightarrow> nat \<Rightarrow> meter \<Rightarrow> meter \<times> meter_event" where
  "meter_record ty tid job gpu cpu gb plugins m =
     (let e = \<lparr>me_tenant = tid, me_type = ty, me_value = first_nonzero [gpu, cpu, gb, of_nat plugins], me_job = job\<rparr>;
          t = total_of tid m;
          t1 = (if ty = ''gpu_usage'' then t\<lparr>mt_gpu := mt_gpu t + gpu\<rparr> else t);
          t2 = (if ty = ''cpu_usage'' then t1\<lparr>mt_cpu := mt_cpu t1 + cpu\<rparr> else t1);
          t3 = (if ty = ''storage_usage'' then t2\<lparr>mt_gb := mt_gb t2 + gb\<rparr> else t2);
          t4 = (if ty = ''job_completed'' then t3\<lparr>mt_jobs := Suc (mt_jobs t3)\<rparr> else t3)
      in (\<lparr>mr_events = mr_events m @ [e], mr_totals = AList.update tid (t4\<lparr>mt_cost := mt_cost t4 + meter_cost e\<rparr>) (mr_totals m)\<rparr>, e))"

definition meter_total_cost :: "meter \<Rightarrow> rat" where
  "meter_total_cost m = sum_list (map (mt_cost \<circ> snd) (mr_totals m))"

section \<open>Keys that are no longer active\<close>

inductive ae_op :: "(string \<Rightarrow> string) \<Rightarrow> auth_engine \<Rightarrow> auth_engine \<Rightarrow> bool" for dig where
  ae_create: "map_of (ae_keys a) kid = None \<Longrightarrow> map_of (ae_index a) (index_key dig secret) = None
    \<Longrightarrow> ae_op dig a (fst (create_key dig now kid secret q a))"
| ae_validate: "ae_op dig a (fst (validate_key dig now secret a))"
| ae_revoke: "ae_op dig a (fst (revoke_api_key kid a))"
| ae_rotate: "map_of (ae_keys a) kid' = None \<Longrightarrow> map_of (ae_index a) (index_key dig secret) = None
    \<Longrightarrow> ae_op dig a (fst (rotate_key dig now kid' secret kid a))"
| ae_tenant: "ae_op dig a (create_tenant tid nm plan sec a)"
| ae_attach: "ae_op dig a (attach_key_to_tenant tid kid a)"
| ae_secret: "ae_op dig a (create_hmac_secret tid fresh a)"

abbreviation ae_ops :: "(string \<Rightarrow> string) \<Rightarrow> auth_engine \<Rightarrow> auth_engine \<Rightarrow> bool" where "ae_ops dig \<equiv> (ae_op dig)\<^sup>*\<^sup>*"

definition dead_key :: "string \<Rightarrow> auth_engine \<Rightarrow> bool" where
  "dead_key kid a \<longleftrightarrow> (\<exists>k. map_of (ae_keys a) kid = Some k \<and> ak_status k \<noteq> KeyActive)"

lemma set_key_of [simp]:
  "map_of (ae_keys (set_key kid f a)) j = (if j = kid then map_option f (map_of (ae_keys a) kid) else map_of (ae_keys a) j)"
  "ae_index (set_key kid f a) = ae_index a"
  by (auto simp: set_key_def map_of_map_entry split: option.splits)

lemma dead_set: "dead_key kid a \<Longrightarrow> (\<And>k. ak_status k \<noteq> KeyActive \<Longrightarrow> ak_status (f k) \<noteq> KeyActive) \<Longrightarrow> dead_key kid (set_key j f a)"
  by (auto simp: dead_key_def)

lemma revoke_dead: "dead_key kid a \<Longrightarrow> dead_key kid (fst (revoke_api_key j a))"
  by (auto simp: revoke_api_key_def intro: dead_set)

lemma create_dead: "dead_key kid a \<Longrightarrow> map_of (ae_keys a) j = None \<Longrightarrow> dead_key kid (fst (create_key dig now j secret q a))"
  by (auto simp: dead_key_def create_key_def Let_def update_conv')

lemma revoke_none: "map_of (ae_keys (fst (revoke_api_key j a))) i = None \<longleftrightarrow> map_of (ae_keys a) i = None"
  by (auto simp: revoke_api_key_def)

lemma revoke_index [simp]: "ae_index (fst (revoke_api_key j a)) = ae_index a"
  by (simp add: revoke_api_key_def)

lemma op_dead_key:
  assumes "ae_op dig a b" and "dead_key kid a"
  shows "dead_key kid b"
  using assms(1)
proof (cases rule: ae_op.cases)
  case (ae_validate now secret)
  show ?thesis unfolding ae_validate using assms(2) by (auto simp: validate_key_def intro: dead_set split: option.splits)
next
  case (ae_rotate kid' secret now j)
  have n: "map_of (ae_keys (fst (revoke_api_key j a))) kid' = None" using ae_rotate(2) revoke_none by blast
  show ?thesis unfolding ae_rotate(1)
    using assms(2) create_dead [OF revoke_dead [OF assms(2), of j] n] by (auto simp: rotate_key_def split: option.splits prod.splits) (metis fst_conv)
next
  case (ae_tenant tid nm plan sec)
  then show ?thesis using assms(2) by (simp add: create_tenant_def dead_key_def Let_def)
next
  case (ae_attach tid j)
  then show ?thesis using assms(2) by (simp add: attach_key_to_tenant_def dead_key_def)
next
  case (ae_secret tid fresh)
  then show ?thesis using assms(2) by (simp add: create_hmac_secret_def dead_key_def)
qed (use assms(2) in \<open>auto intro: create_dead revoke_dead\<close>)

lemma op_index:
  assumes "ae_op dig a b" and "map_of (ae_index a) i = Some kid"
  shows "map_of (ae_index b) i = Some kid"
  using assms(1)
proof (cases rule: ae_op.cases)
  case (ae_create j secret now q)
  then show ?thesis using assms(2) by (auto simp: create_key_def Let_def update_conv')
next
  case (ae_validate now secret)
  show ?thesis unfolding ae_validate using assms(2) by (auto simp: validate_key_def split: option.splits)
next
  case (ae_rotate kid' secret now j)
  then show ?thesis using assms(2) by (auto simp: rotate_key_def create_key_def Let_def update_conv' split: option.splits)
qed (use assms(2) in \<open>simp_all add: create_tenant_def attach_key_to_tenant_def create_hmac_secret_def Let_def\<close>)

lemma dead_key_fails:
  assumes "map_of (ae_index a) (index_key dig secret) = Some kid" and "dead_key kid a"
  shows "snd (validate_key dig now secret a) = None"
  using assms by (auto simp: validate_key_def dead_key_def split: option.splits)

section \<open>The flow of tokens\<close>

fun admitted :: "nat \<Rightarrow> nat \<Rightarrow> string \<Rightarrow> rat list \<Rightarrow> (string \<times> bucket) list \<Rightarrow> nat" where
  "admitted rate window tid [] bs = 0"
| "admitted rate window tid (t # ts) bs =
     (let (bs', ok) = rate_check rate window t tid bs in (if ok then 1 else 0) + admitted rate window tid ts bs')"

lemma admitted_bound:
  assumes "map_of bs tid = Some b" and "0 \<le> bk_tokens b" and "sorted (bk_refilled b # ts)" and "0 < window"
  shows "of_nat (admitted rate window tid ts bs) \<le> bk_tokens b + (last (bk_refilled b # ts) - bk_refilled b) * of_nat rate / of_nat window"
  using assms
proof (induction ts arbitrary: bs b)
  case (Cons t ts)
  let ?r = "of_nat rate / of_nat window :: rat"
  let ?n = "refill rate window t b"
  let ?b = "\<lparr>bk_tokens = (if 1 \<le> ?n then ?n - 1 else ?n), bk_refilled = t\<rparr>"
  let ?bs = "AList.update tid ?b bs"
  have dt: "0 \<le> t - bk_refilled b" "sorted (t # ts)" using Cons.prems(3) by auto
  have r0: "0 \<le> ?r" by simp
  have step: "rate_check rate window t tid bs = (?bs, 1 \<le> ?n)"
    using Cons.prems(1) by (simp add: rate_check_def bucket_at_def Let_def)
  have up: "?n \<le> bk_tokens b + (t - bk_refilled b) * ?r" by (simp add: refill_def)
  have n0: "0 \<le> ?n" using Cons.prems(2) dt(1) r0 by (simp add: refill_def)
  have b: "map_of ?bs tid = Some ?b" "0 \<le> bk_tokens ?b" "sorted (bk_refilled ?b # ts)" using n0 dt(2) by (simp_all add: update_conv')
  have "of_nat (admitted rate window tid ts ?bs) \<le> bk_tokens ?b + (last (t # ts) - t) * ?r"
    using Cons.IH [OF b Cons.prems(4)] by simp
  moreover have "(of_nat (admitted rate window tid (t # ts) bs) :: rat) = (if 1 \<le> ?n then 1 else 0) + of_nat (admitted rate window tid ts ?bs)"
    by (simp add: step)
  ultimately have "of_nat (admitted rate window tid (t # ts) bs) \<le> ?n + (last (t # ts) - t) * ?r"
    by (cases "1 \<le> ?n") (simp_all del: admitted.simps last.simps)
  also have "\<dots> \<le> bk_tokens b + (t - bk_refilled b) * ?r + (last (t # ts) - t) * ?r" using up by simp
  also have "\<dots> = bk_tokens b + (last (t # ts) - bk_refilled b) * ?r" by (simp only: left_diff_distrib)
  finally show ?case by simp
qed simp

section \<open>Totals\<close>

definition meter_ok :: "meter \<Rightarrow> bool" where
  "meter_ok m \<longleftrightarrow> distinct (map fst (mr_totals m))
     \<and> (\<forall>tid. mt_cost (total_of tid m) = sum_list (map meter_cost (filter (\<lambda>e. me_tenant e = tid) (mr_events m))))
     \<and> meter_total_cost m = sum_list (map meter_cost (mr_events m))"

lemma sum_update:
  assumes "distinct (map fst al)"
  shows "sum_list (map (f \<circ> snd) (AList.update k v al)) = sum_list (map (f \<circ> snd) al) - (case map_of al k of None \<Rightarrow> 0 | Some u \<Rightarrow> f u) + (f v :: rat)"
  using assms by (induction al) (auto split: option.splits dest: map_of_SomeD simp: image_iff)

lemma meter_record_total:
  "\<exists>t. mr_totals (fst (meter_record ty tid job gpu cpu gb plugins m)) = AList.update tid t (mr_totals m)
     \<and> mt_cost t = mt_cost (total_of tid m) + meter_cost (snd (meter_record ty tid job gpu cpu gb plugins m))"
  unfolding meter_record_def Let_def fst_conv snd_conv meter.select_convs by (intro exI conjI, rule refl) simp

lemma meter_record_ok:
  assumes "meter_ok m"
  shows "meter_ok (fst (meter_record ty tid job gpu cpu gb plugins m))"
proof -
  let ?m = "fst (meter_record ty tid job gpu cpu gb plugins m)" and ?e = "snd (meter_record ty tid job gpu cpu gb plugins m)"
  obtain t where t: "mr_totals ?m = AList.update tid t (mr_totals m)" "mt_cost t = mt_cost (total_of tid m) + meter_cost ?e"
    using meter_record_total by blast
  have ev: "mr_events ?m = mr_events m @ [?e]" "me_tenant ?e = tid" by (simp_all add: meter_record_def Let_def)
  have tot: "mt_cost (total_of j ?m) = mt_cost (total_of j m) + (if j = tid then meter_cost ?e else 0)" for j
    using t by (simp add: total_of_def update_conv')
  have dis: "distinct (map fst (mr_totals m))" using assms by (simp add: meter_ok_def)
  have z: "(case map_of (mr_totals m) tid of None \<Rightarrow> 0 | Some u \<Rightarrow> mt_cost u) = mt_cost (total_of tid m)"
    by (simp add: total_of_def meter_zero_def split: option.splits)
  have "meter_total_cost ?m = meter_total_cost m + meter_cost ?e"
    using sum_update [OF dis, of mt_cost tid t] t z by (simp add: meter_total_cost_def)
  then show ?thesis using assms tot ev t(1) dis by (simp add: meter_ok_def distinct_update)
qed

section \<open>Claims\<close>

text \<open>A key that was revoked never passes again. Whatever keys are created (with fresh ids and secrets), validated, revoked and
  rotated after \<open>revoke_api_key\<close>, no time makes its secret valid.\<close>

theorem revoked_key_never_passes:
  assumes "map_of (ae_index a) (index_key dig secret) = Some kid" and "revoke_api_key kid a = (b, True)" and "ae_ops dig b c"
  shows "snd (validate_key dig now secret c) = None"
proof -
  have b: "dead_key kid b" "map_of (ae_index b) (index_key dig secret) = Some kid"
    using assms(1,2) by (auto simp: revoke_api_key_def dead_key_def split: if_splits)
  have "dead_key kid c \<and> map_of (ae_index c) (index_key dig secret) = Some kid"
    using assms(3) b by (induction rule: rtranclp_induct) (auto intro: op_dead_key op_index)
  then show ?thesis using dead_key_fails by blast
qed

definition demo_keys :: auth_engine where
  "demo_keys = fst (create_key (\<lambda>w. w) 0 ''roma_1'' ''sk_0123456789abcdef''
     \<lparr>kq_tenant = ''acme'', kq_project = ''p'', kq_type = ''server'', kq_description = [], kq_expires = None, kq_scopes = []\<rparr> auth_init)"

theorem revoked_key_never_passes_witness:
  "snd (validate_key (\<lambda>w. w) 5 ''sk_0123456789abcdef'' (fst (revoke_api_key ''roma_1'' demo_keys))) = None"
proof (rule revoked_key_never_passes [of demo_keys "\<lambda>w. w" "''sk_0123456789abcdef''" "''roma_1''"])
  show "map_of (ae_index demo_keys) (index_key (\<lambda>w. w) ''sk_0123456789abcdef'') = Some ''roma_1''"
    by (simp add: demo_keys_def create_key_def auth_init_def index_key_def Let_def)
  show "revoke_api_key ''roma_1'' demo_keys = (fst (revoke_api_key ''roma_1'' demo_keys), True)"
    by (simp add: demo_keys_def create_key_def auth_init_def index_key_def Let_def revoke_api_key_def)
  show "ae_ops (\<lambda>w. w) (fst (revoke_api_key ''roma_1'' demo_keys)) (fst (revoke_api_key ''roma_1'' demo_keys))"
    by (rule rtranclp.rtrancl_refl)
qed

text \<open>The token bucket keeps its rate. Of any requests of one tenant at non-decreasing times, at most the size of the bucket plus
  the tokens that flow in between the first and the last are admitted.\<close>

theorem bucket_keeps_rate:
  assumes "map_of bs tid = None" and "sorted (t # ts)" and "0 < window"
  shows "of_nat (admitted rate window tid (t # ts) bs) \<le> of_nat rate + (last (t # ts) - t) * of_nat rate / (of_nat window :: rat)"
proof -
  let ?b = "\<lparr>bk_tokens = of_nat rate, bk_refilled = t\<rparr>"
  have same: "rate_check rate window t tid bs = rate_check rate window t tid (AList.update tid ?b bs)"
    using assms(1) by (simp add: rate_check_def bucket_at_def update_conv' Let_def)
  have "of_nat (admitted rate window tid (t # ts) (AList.update tid ?b bs))
      \<le> bk_tokens ?b + (last (bk_refilled ?b # t # ts) - bk_refilled ?b) * of_nat rate / (of_nat window :: rat)"
    by (rule admitted_bound) (use assms in \<open>simp_all add: update_conv'\<close>)
  then show ?thesis by (simp add: same)
qed

theorem bucket_keeps_rate_witness:
  "of_nat (admitted 60 60 ''acme'' (0 # replicate 99 1) []) \<le> of_nat 60 + (last (0 # replicate 99 1) - 0) * of_nat 60 / (of_nat 60 :: rat)"
  by (rule bucket_keeps_rate) (simp_all add: sorted_wrt_iff_nth_less nth_Cons')

text \<open>The handler runs only for a good request: the key of the request is active and not expired, its digest is the one of the
  request's secret, the tenant has used less than the quota of its plan, and its bucket had a token.\<close>

theorem handler_runs_guarded:
  assumes "snd (middleware dig now r g) = GwCalled tid plan"
  shows "\<exists>secret kid k. extract_key r = Some secret \<and> map_of (ae_index (gw_auth g)) (index_key dig secret) = Some kid
    \<and> map_of (ae_keys (gw_auth g)) kid = Some k \<and> ak_status k = KeyActive \<and> \<not> key_expired now k \<and> ak_tenant k = tid
    \<and> get_usage tid (gw_usage g) < PLAN_QUOTAS plan
    \<and> 1 \<le> refill (fst (PLAN_LIMITS plan)) (snd (PLAN_LIMITS plan)) now (bucket_at (fst (PLAN_LIMITS plan)) now tid (gw_buckets g))"
proof -
  obtain secret where s: "extract_key r = Some secret" "secret \<noteq> []"
    using assms by (auto simp: middleware_def split: option.splits if_splits)
  obtain a k' where v: "validate_key dig now secret (gw_auth g) = (a, Some k')"
    using assms s by (cases "validate_key dig now secret (gw_auth g)") (auto simp: middleware_def split: option.splits)
  obtain kid k where k: "map_of (ae_index (gw_auth g)) (index_key dig secret) = Some kid" "map_of (ae_keys (gw_auth g)) kid = Some k"
    "ak_status k = KeyActive" "\<not> key_expired now k" "k' = k\<lparr>ak_used := Some now\<rparr>"
    using v by (auto simp: validate_key_def split: if_splits option.splits)
  show ?thesis using assms s v k
    by (auto simp: middleware_def rate_check_def Let_def not_le split: if_splits)
qed

text \<open>C0: The totals of usage are the sums of the events, per tenant and over all tenants, after any records.\<close>

fun meter_all :: "(string \<times> string \<times> string \<times> rat \<times> rat \<times> rat \<times> nat) list \<Rightarrow> meter \<Rightarrow> meter" where
  "meter_all [] m = m"
| "meter_all ((ty, tid, job, gpu, cpu, gb, n) # xs) m = meter_all xs (fst (meter_record ty tid job gpu cpu gb n m))"

theorem meter_totals_exact:
  "mt_cost (total_of tid (meter_all xs meter_init)) = sum_list (map meter_cost (filter (\<lambda>e. me_tenant e = tid) (mr_events (meter_all xs meter_init))))
   \<and> meter_total_cost (meter_all xs meter_init) = sum_list (map meter_cost (mr_events (meter_all xs meter_init)))"
proof -
  have z: "meter_ok meter_init" by (simp add: meter_ok_def meter_init_def total_of_def meter_zero_def meter_total_cost_def)
  have "meter_ok (meter_all xs m)" if "meter_ok m" for m
    using that
  proof (induction xs arbitrary: m)
    case (Cons x xs)
    then show ?case by (cases x) (simp add: meter_record_ok)
  qed simp
  then show ?thesis using z by (simp add: meter_ok_def)
qed

section \<open>Corner cases\<close>

text \<open>The random part of a scoped key is not checked: any text without an underscore in its place will do.\<close>

lemma before_last: "CHR ''_'' \<notin> set w \<Longrightarrow> before_last_underscore (kid @ ''_'' @ w) = kid"
proof -
  assume a: "CHR ''_'' \<notin> set w"
  have "dropWhile (\<lambda>c. c \<noteq> CHR ''_'') (rev w @ [CHR ''_''] @ rev kid) = [CHR ''_''] @ rev kid"
    using a by (subst dropWhile_append2) auto
  then show ?thesis by (simp add: before_last_underscore_def)
qed

lemma any_suffix_passes:
  assumes "map_of (km_keys m) kid = Some k" and "\<not> sk_revoked k" and "sk_expires k = None" and "CHR ''_'' \<notin> set w"
  shows "km_validate now (PREFIX @ kid @ ''_'' @ w) m = Some k"
  using assms before_last [OF assms(4), of kid] by (simp add: km_validate_def key_id_of_def)

text \<open>A key whose random part has an underscore, which \<open>token_urlsafe\<close> produces, is refused.\<close>

lemma underscore_suffix_fails:
  assumes "CHR ''_'' \<notin> set v" and "map_of (km_keys m) (kid @ ''_'' @ w) = None"
  shows "km_validate now (PREFIX @ kid @ ''_'' @ w @ ''_'' @ v) m = None"
  using assms before_last [OF assms(1), of "kid @ ''_'' @ w"] by (simp add: km_validate_def key_id_of_def)

text \<open>Rotation makes a new key and leaves the old one.\<close>

lemma rotation_keeps_old_key:
  assumes "km_validate now key m = Some k" and "key_id_of key = Some kid"
    and "kid \<noteq> ''kid_'' @ sk_org k @ ''_'' @ sk_project k @ ''_'' @ nat_str (Suc (km_counter m))"
  shows "km_validate now key (fst (km_rotate now fresh key exp_in m)) = Some k"
  using assms by (auto simp: km_rotate_def km_validate_def km_create_def Let_def update_conv' split: option.splits if_splits)

text \<open>A tenant without a secret: the empty signature is right.\<close>

lemma empty_signature_accepted:
  assumes "map_of (ae_secrets a) tid = None" and "\<bar>now - ts\<bar> \<le> 300"
  shows "verify_signature mac show now tid meth path body ts [] a = Inr True"
  using assms by (simp add: verify_signature_def sign_request_def is_ascii_def)

text \<open>The signed text does not separate its parts.\<close>

lemma signature_ambiguous:
  "sign_request mac show tid meth ''/jobs:x'' ''y'' ts a = sign_request mac show tid meth ''/jobs'' ''x:y'' ts a"
  by (simp add: sign_request_def signed_text_def split: option.splits)

text \<open>A permission for all of a resource covers every resource whose name begins the same.\<close>

lemma role_overreach: "get_role u og os = Some OWNER \<Longrightarrow> rbac_can u og ''organs:sell'' os"
  by (simp add: rbac_can_def ROLE_PERMISSIONS_def grants_def)

text \<open>A plan that the gateway does not know has quota 0, and no request passes.\<close>

lemma unknown_plan_refused:
  assumes "PLAN_QUOTAS (plan_name (ak_tenant k) a) = 0" and "0 \<le> get_usage (ak_tenant k) (gw_usage g)"
    and "extract_key r = Some secret" and "validate_key dig now secret (gw_auth g) = (a, Some k)"
  shows "\<nexists>tid plan. snd (middleware dig now r g) = GwCalled tid plan"
  using assms by (auto simp: middleware_def Let_def split: if_splits prod.splits)

end
