(* ===== verification/Watchdog.thy ===== *)
theory Watchdog
  imports WriterLease Quota
begin

text \<open>
  The supervisor of the database, \<open>src/deploy/ops/pg_watchdog.py\<close>: it probes PostgreSQL, starts it again within a budget of
  attempts per hour, moves a stale lock file out of the way before a start, and watches that the ledger never loses rows.

  Times are seconds; a time written to the state file has whole seconds. Probes, processes, the outcome of a start and of each
  move of a file are arguments. A PID file is what reading its first line gives: a line on which reading or the
  conversion to a number fails is \<open>Unreadable\<close>. The event lines go to a list; the copy of the log and the time of the last write are left out.

  Shown: at most five attempts to start in any 3599 seconds; a lock is moved only when neither socket nor port nor a
  live server stands behind it, and is never lost; the baseline of the ledger is the highest count seen and an alarm is raised
  exactly below it; the wait for a started server ends.
\<close>

section \<open>Stale locks\<close>

datatype pid_file = Unreadable | FirstLine string

definition read_pid :: "pid_file \<Rightarrow> int option result" where
  "read_pid f =
     (case f of
        Unreadable \<Rightarrow> Inl (OtherException ''OSError'')
      | FirstLine w \<Rightarrow> Inr (if w \<noteq> [] \<and> all_digits w then int_of_string w else None))"

text \<open>A process: none under this number, or one with its command name where that can be read.\<close>

type_synonym processes = "int \<Rightarrow> string option option"

definition pid_alive :: "processes \<Rightarrow> int \<Rightarrow> bool" where
  "pid_alive ps pid = (ps pid \<noteq> None)"

definition pid_comm :: "processes \<Rightarrow> int \<Rightarrow> string option" where
  "pid_comm ps pid = Option.bind (ps pid) id"

definition live_server :: "processes \<Rightarrow> int option \<Rightarrow> bool" where
  "live_server ps p = (case p of None \<Rightarrow> False | Some pid \<Rightarrow> pid_alive ps pid \<and> pid_comm ps pid = Some ''postgres'')"

record quarantine_dir =
  qd_marker :: bool
  qd_lock :: "pid_file option"
  qd_postmaster :: "pid_file option"

record socket_dir =
  sd_socket :: bool
  sd_listening :: bool
  sd_lock :: "pid_file option"
  sd_postmaster :: "pid_file option"
  sd_dirs :: "(string \<times> quarantine_dir) list"

datatype move_outcome = Moved | NoDirectory | NoMarker | LockStays | PostmasterStays

definition own_quarantines :: "(string \<times> quarantine_dir) list \<Rightarrow> string list" where
  "own_quarantines ds = map fst (filter (\<lambda>(n, d). take 11 n = ''quarantine-'' \<and> qd_marker d) ds)"

text \<open>\<open>rm n\<close> says whether the removal of a directory works.\<close>

definition rotate_quarantine :: "(string \<Rightarrow> bool) \<Rightarrow> nat \<Rightarrow> (string \<times> quarantine_dir) list \<Rightarrow> (string \<times> quarantine_dir) list" where
  "rotate_quarantine rm keep ds =
     (let own = sort (own_quarantines ds); old = take (length own - keep) own
      in filter (\<lambda>(n, d). \<not> (n \<in> set old \<and> rm n)) ds)"

definition quarantine_entry :: "string \<Rightarrow> socket_dir \<Rightarrow> quarantine_dir" where
  "quarantine_entry q s = (case map_of (sd_dirs s) q of None \<Rightarrow> \<lparr>qd_marker = False, qd_lock = None, qd_postmaster = None\<rparr> | Some d \<Rightarrow> d)"

definition put_dir :: "string \<Rightarrow> quarantine_dir \<Rightarrow> socket_dir \<Rightarrow> socket_dir" where
  "put_dir q d s = s\<lparr>sd_dirs := AList.update q d (sd_dirs s)\<rparr>"

text \<open>The moves, in the order of the code: the directory, its marker, the lock, and the PID file of the data directory.\<close>

definition move_lock :: "move_outcome \<Rightarrow> string \<Rightarrow> socket_dir \<Rightarrow> socket_dir \<times> bool" where
  "move_lock mv q s =
     (let d = quarantine_entry q s
      in if mv = NoDirectory then (s, False)
         else if mv = NoMarker then (put_dir q d s, False)
         else let d1 = d\<lparr>qd_marker := True\<rparr>
              in if mv = LockStays then (put_dir q d1 s, False)
                 else let d2 = d1\<lparr>qd_lock := sd_lock s\<rparr>; s2 = (put_dir q d2 s)\<lparr>sd_lock := None\<rparr>
                      in if sd_postmaster s = None then (s2, True)
                         else if mv = PostmasterStays then (s2, False)
                         else ((put_dir q (d2\<lparr>qd_postmaster := sd_postmaster s\<rparr>) s2)\<lparr>sd_postmaster := None\<rparr>, True))"

definition clear_stale_lock ::
  "processes \<Rightarrow> move_outcome \<Rightarrow> (string \<Rightarrow> bool) \<Rightarrow> nat \<Rightarrow> string \<Rightarrow> socket_dir \<Rightarrow> socket_dir \<times> bool \<times> string" where
  "clear_stale_lock ps mv rm keep q s =
     (if sd_socket s then (s, False, ''socket_present'')
      else if sd_listening s then (s, False, ''port_listening'')
      else case sd_lock s of
        None \<Rightarrow> (s, False, ''no_lock'')
      | Some l \<Rightarrow>
          (case read_pid l of
             Inl _ \<Rightarrow> (s, False, ''lock_unreadable'')
           | Inr p \<Rightarrow>
               if live_server ps p then (s, False, ''lock_owner_is_postgres'')
               else let go = (case move_lock mv q s of
                                (s2, ok) \<Rightarrow> if ok then (s2\<lparr>sd_dirs := rotate_quarantine rm keep (sd_dirs s2)\<rparr>, True, ''stale_lock_cleared'')
                                            else (s2, False, ''quarantine_failed''))
                    in case sd_postmaster s of
                         None \<Rightarrow> go
                       | Some pm \<Rightarrow>
                           (case read_pid pm of
                              Inl _ \<Rightarrow> (s, False, ''postmaster_unreadable'')
                            | Inr p' \<Rightarrow> if live_server ps p' then (s, False, ''postmaster_running'') else go)))"

section \<open>Waiting\<close>

text \<open>
  The wait for the started server. A probe is the time at the test of the loop, the answer, and the time of the answer; None means that
  the loop goes on after the probes given.
\<close>

fun wait_ready :: "rat \<Rightarrow> rat \<Rightarrow> (rat \<times> bool \<times> rat) list \<Rightarrow> rat option option" where
  "wait_ready limit t0 [] = None"
| "wait_ready limit t0 ((t, ready, t') # ps) =
     (if \<not> t - t0 < limit then Some None
      else if ready then Some (Some (pyround 2 (t' - t0)))
      else wait_ready limit t0 ps)"

section \<open>The loop\<close>

definition RESTART_BUDGET_PER_HOUR :: nat where "RESTART_BUDGET_PER_HOUR = 5"

definition BUDGET_ALERT_PERIOD_S :: rat where "BUDGET_ALERT_PERIOD_S = 3600"

definition INTERVAL :: nat where "INTERVAL = 30"

definition BUDGET_SLOWDOWN :: nat where "BUDGET_SLOWDOWN = 4"

record wd_state =
  wd_restarts :: "stamp list"
  wd_restarts_total :: int
  wd_baseline :: "int option"
  wd_rows :: "int option"
  wd_was_down :: bool
  wd_budget_exceeded :: bool
  wd_alerted_at :: stamp
  wd_pg_up :: bool
  wd_last_check :: stamp
  wd_restarts_last_hour :: nat
  wd_last_restart :: stamp
  wd_last_recovery :: "rat option"

datatype wd_event =
  WatchdogStart "int option" | PgRecovered nat | PgDownBudgetExceeded nat | PgDown | StaleLockCleared string string
  | StaleLockSkipped string | PgRestartOk bool int nat | PgRestartFailed bool | LedgerIntegrityViolation int int

text \<open>The start: a state file written before has every key; otherwise the baseline is counted.\<close>

definition wd_boot :: "wd_state option \<Rightarrow> int option \<Rightarrow> wd_state \<times> wd_event list" where
  "wd_boot file counted =
     (let s = (case file of
                 Some s \<Rightarrow> s
               | None \<Rightarrow> \<lparr>wd_restarts = [], wd_restarts_total = 0, wd_baseline = counted, wd_rows = None, wd_was_down = False,
                           wd_budget_exceeded = False, wd_alerted_at = NoStamp, wd_pg_up = False, wd_last_check = NoStamp,
                           wd_restarts_last_hour = 0, wd_last_restart = NoStamp, wd_last_recovery = None\<rparr>)
      in (s, [WatchdogStart (wd_baseline s)]))"

definition prune_restarts :: "rat \<Rightarrow> stamp list \<Rightarrow> stamp list" where
  "prune_restarts now rs = filter (\<lambda>r. case r of At t \<Rightarrow> now - 3600 \<le> t | _ \<Rightarrow> False) rs"

definition budget_alert_due :: "rat \<Rightarrow> stamp \<Rightarrow> bool" where
  "budget_alert_due now a = (case a of At t \<Rightarrow> BUDGET_ALERT_PERIOD_S \<le> now - t | _ \<Rightarrow> True)"

text \<open>What one round meets: the clock at its begin, at the attempt and after it, the probe, the moves, the start, the count of rows.\<close>

record wd_input =
  wi_now :: rat
  wi_ready :: bool
  wi_try :: rat
  wi_processes :: processes
  wi_move :: move_outcome
  wi_rm :: "string \<Rightarrow> bool"
  wi_quarantine :: string
  wi_started :: bool
  wi_recovery :: "rat option"
  wi_end :: rat
  wi_rows :: "int option"

definition lock_event :: "bool \<Rightarrow> string \<Rightarrow> string \<Rightarrow> wd_event list" where
  "lock_event cleared reason q =
     (if cleared then [StaleLockCleared reason q] else if reason \<noteq> ''no_lock'' then [StaleLockSkipped reason] else [])"

definition attempt_start :: "wd_input \<Rightarrow> wd_state \<Rightarrow> socket_dir \<Rightarrow> wd_state \<times> socket_dir \<times> wd_event list" where
  "attempt_start i s d =
     (case clear_stale_lock (wi_processes i) (wi_move i) (wi_rm i) 10 (wi_quarantine i) d of
        (d', cleared, reason) \<Rightarrow>
          let rs = wd_restarts s @ [iso (wi_try i)];
              s1 = s\<lparr>wd_restarts := rs, wd_restarts_total := wd_restarts_total s + 1, wd_restarts_last_hour := length rs\<rparr>;
              ev = PgDown # lock_event cleared reason (wi_quarantine i)
          in case wi_recovery i of
               Some r \<Rightarrow> (s1\<lparr>wd_last_restart := iso (wi_end i), wd_last_recovery := Some r, wd_budget_exceeded := False\<rparr>, d',
                          ev @ [PgRestartOk (wi_started i) (wd_restarts_total s1) (length rs)])
             | None \<Rightarrow> (s1, d', ev @ [PgRestartFailed (wi_started i)]))"

definition check_ledger :: "int option \<Rightarrow> wd_state \<Rightarrow> wd_state \<times> wd_event list" where
  "check_ledger rows s =
     (case rows of
        None \<Rightarrow> (s, [])
      | Some n \<Rightarrow>
          let s1 = s\<lparr>wd_rows := Some n\<rparr>
          in case wd_baseline s of
               None \<Rightarrow> (s1\<lparr>wd_baseline := Some n\<rparr>, [])
             | Some b \<Rightarrow> if n < b then (s1, [LedgerIntegrityViolation n b]) else (s1\<lparr>wd_baseline := Some (max b n)\<rparr>, []))"

definition probe_step :: "wd_input \<Rightarrow> wd_state \<Rightarrow> wd_state" where
  "probe_step i s =
     (let rs = prune_restarts (wi_now i) (wd_restarts s)
      in s\<lparr>wd_restarts := rs, wd_pg_up := wi_ready i, wd_last_check := iso (wi_now i), wd_restarts_last_hour := length rs\<rparr>)"

definition react :: "wd_input \<Rightarrow> wd_state \<Rightarrow> socket_dir \<Rightarrow> wd_state \<times> socket_dir \<times> wd_event list \<times> nat" where
  "react i s d =
     (if wi_ready i then
        (if wd_was_down s
         then (s\<lparr>wd_was_down := False, wd_budget_exceeded := False, wd_alerted_at := NoStamp\<rparr>, d, [PgRecovered (length (wd_restarts s))], INTERVAL)
         else (s, d, [], INTERVAL))
      else let s1 = s\<lparr>wd_was_down := True\<rparr>
           in if RESTART_BUDGET_PER_HOUR \<le> length (wd_restarts s1) then
                let s2 = s1\<lparr>wd_budget_exceeded := True\<rparr>
                in (if budget_alert_due (wi_try i) (wd_alerted_at s2)
                    then (s2\<lparr>wd_alerted_at := iso (wi_try i)\<rparr>, d, [PgDownBudgetExceeded (length (wd_restarts s2))], INTERVAL * BUDGET_SLOWDOWN)
                    else (s2, d, [], INTERVAL * BUDGET_SLOWDOWN))
              else (case attempt_start i s1 d of (s2, d', ev) \<Rightarrow> (s2, d', ev, INTERVAL)))"

text \<open>One round of the loop, up to the sleep; the state it returns is what the file holds afterwards.\<close>

definition wd_step :: "wd_input \<Rightarrow> wd_state \<times> socket_dir \<Rightarrow> (wd_state \<times> socket_dir) \<times> wd_event list \<times> nat" where
  "wd_step i w =
     (case react i (probe_step i (fst w)) (snd w) of
        (s, d, ev, sleep) \<Rightarrow> (case check_ledger (wi_rows i) s of (s', ev') \<Rightarrow> ((s', d), ev @ ev', sleep)))"

fun wd_run :: "wd_input list \<Rightarrow> wd_state \<times> socket_dir \<Rightarrow> (wd_state \<times> socket_dir) \<times> wd_event list" where
  "wd_run [] w = (w, [])"
| "wd_run (i # is) w = (case wd_step i w of (w1, ev, _) \<Rightarrow> (case wd_run is w1 of (w2, ev') \<Rightarrow> (w2, ev @ ev')))"

section \<open>The budget\<close>

definition attempts_now :: "wd_input \<Rightarrow> wd_state \<Rightarrow> bool" where
  "attempts_now i s \<longleftrightarrow> \<not> wi_ready i \<and> length (prune_restarts (wi_now i) (wd_restarts s)) < RESTART_BUDGET_PER_HOUR"

fun attempt_times :: "wd_input list \<Rightarrow> wd_state \<times> socket_dir \<Rightarrow> rat list" where
  "attempt_times [] w = []"
| "attempt_times (i # is) w = (if PgDown \<in> set (fst (snd (wd_step i w))) then [wi_try i] else []) @ attempt_times is (fst (wd_step i w))"

text \<open>Clocks that do not go back: the rounds follow each other, and an attempt follows the begin of its round.\<close>

fun clocks_ok :: "rat \<Rightarrow> wd_input list \<Rightarrow> bool" where
  "clocks_ok t [] = True"
| "clocks_ok t (i # is) = (t \<le> wi_now i \<and> wi_now i \<le> wi_try i \<and> clocks_ok (wi_try i) is)"

lemma prune_prune [simp]: "now \<le> t \<Longrightarrow> prune_restarts t (prune_restarts now rs) = prune_restarts t rs"
  unfolding prune_restarts_def filter_filter by (rule filter_cong) (auto split: stamp.splits)

lemma prune_append [simp]: "prune_restarts t (rs @ rs') = prune_restarts t rs @ prune_restarts t rs'"
  by (simp add: prune_restarts_def)

lemma prune_recent: "t - 3599 \<le> a \<Longrightarrow> prune_restarts t [iso a] = [iso a]"
  by (simp add: prune_restarts_def iso_def) linarith

lemma check_ledger_restarts [simp]: "wd_restarts (fst (check_ledger r s)) = wd_restarts s"
  by (simp add: check_ledger_def Let_def split: option.splits)

lemma attempt_restarts: "wd_restarts (fst (attempt_start i s d)) = wd_restarts s @ [iso (wi_try i)]"
  by (simp add: attempt_start_def Let_def split: prod.splits option.splits)

lemma react_restarts:
  "wd_restarts (fst (react i s d)) =
     wd_restarts s @ (if \<not> wi_ready i \<and> length (wd_restarts s) < RESTART_BUDGET_PER_HOUR then [iso (wi_try i)] else [])"
  using attempt_restarts [of i "s\<lparr>wd_was_down := True\<rparr>" d] by (auto simp: react_def Let_def split: prod.splits)

lemma step_restarts:
  "wd_restarts (fst (fst (wd_step i w))) =
     prune_restarts (wi_now i) (wd_restarts (fst w)) @ (if attempts_now i (fst w) then [iso (wi_try i)] else [])"
proof -
  have "wd_restarts (fst (fst (wd_step i w))) = wd_restarts (fst (react i (probe_step i (fst w)) (snd w)))"
    by (simp add: wd_step_def split: prod.splits) (metis check_ledger_restarts fst_conv)
  then show ?thesis by (simp add: react_restarts attempts_now_def probe_step_def Let_def)
qed

lemma attempt_event: "PgDown \<in> set (fst (snd (wd_step i w))) \<longleftrightarrow> attempts_now i (fst w)"
  by (auto simp: wd_step_def react_def attempt_start_def probe_step_def attempts_now_def check_ledger_def lock_event_def Let_def
      split: prod.splits option.splits if_splits)

text \<open>The attempts of the past that the list of restarts still knows.\<close>

definition known_attempts :: "rat \<Rightarrow> rat list \<Rightarrow> wd_state \<Rightarrow> bool" where
  "known_attempts t as s \<longleftrightarrow> (\<forall>u. t \<le> u \<longrightarrow> length (filter (\<lambda>a. u - 3599 \<le> a) as) \<le> length (prune_restarts u (wd_restarts s)))"

lemma known_attempts_step:
  assumes "known_attempts t as (fst w)" and "t \<le> wi_now i" and "wi_now i \<le> wi_try i"
  shows "known_attempts (wi_try i) (as @ (if attempts_now i (fst w) then [wi_try i] else [])) (fst (fst (wd_step i w)))"
  unfolding known_attempts_def
proof (intro allI impI)
  fix u assume u: "wi_try i \<le> u"
  have old: "length (filter (\<lambda>a. u - 3599 \<le> a) as) \<le> length (prune_restarts u (wd_restarts (fst w)))"
    using assms u by (auto simp: known_attempts_def)
  have new: "length (filter (\<lambda>a. u - 3599 \<le> a) [wi_try i]) \<le> length (prune_restarts u [iso (wi_try i)])"
    using prune_recent [of u "wi_try i"] by auto
  have "prune_restarts u (wd_restarts (fst (fst (wd_step i w)))) =
      prune_restarts u (wd_restarts (fst w)) @ prune_restarts u (if attempts_now i (fst w) then [iso (wi_try i)] else [])"
    using assms(3) u by (simp add: step_restarts)
  then show "length (filter (\<lambda>a. u - 3599 \<le> a) (as @ (if attempts_now i (fst w) then [wi_try i] else [])))
      \<le> length (prune_restarts u (wd_restarts (fst (fst (wd_step i w)))))"
    using old new by (cases "attempts_now i (fst w)") (simp_all only: if_True if_False filter_append length_append append_Nil2 filter.simps(1) list.size(3) add_mono prune_append)
qed

definition within_budget :: "rat list \<Rightarrow> bool" where
  "within_budget as \<longleftrightarrow> (\<forall>u. length (filter (\<lambda>a. u \<le> a \<and> a < u + 3599) as) \<le> RESTART_BUDGET_PER_HOUR)"

lemma within_budget_step:
  assumes "within_budget as" and "known_attempts t as s" and "t \<le> wi_now i" and "wi_now i \<le> wi_try i" and "attempts_now i s"
  shows "within_budget (as @ [wi_try i])"
  unfolding within_budget_def
proof
  fix u
  show "length (filter (\<lambda>a. u \<le> a \<and> a < u + 3599) (as @ [wi_try i])) \<le> RESTART_BUDGET_PER_HOUR"
  proof (cases "u \<le> wi_try i \<and> wi_try i < u + 3599")
    case False
    then show ?thesis using assms(1) by (auto simp: within_budget_def)
  next
    case True
    have "length (filter (\<lambda>a. u \<le> a \<and> a < u + 3599) as) \<le> length (filter (\<lambda>a. wi_now i - 3599 \<le> a) as)"
      using True assms(4) by (induction as) auto
    also have "\<dots> \<le> length (prune_restarts (wi_now i) (wd_restarts s))" using assms(2,3) by (simp add: known_attempts_def)
    also have "\<dots> < RESTART_BUDGET_PER_HOUR" using assms(5) by (simp add: attempts_now_def)
    finally show ?thesis by simp
  qed
qed

lemma run_within_budget:
  assumes "clocks_ok t is" and "known_attempts t as (fst w)" and "within_budget as"
  shows "within_budget (as @ attempt_times is w)"
  using assms
proof (induction "is" arbitrary: t as w)
  case (Cons i "is")
  have c: "t \<le> wi_now i" "wi_now i \<le> wi_try i" "clocks_ok (wi_try i) is" using Cons.prems(1) by auto
  let ?as = "as @ (if attempts_now i (fst w) then [wi_try i] else [])"
  have "within_budget ?as"
    using within_budget_step [OF Cons.prems(3,2) c(1,2)] Cons.prems(3) by simp
  from Cons.IH [OF c(3) known_attempts_step [OF Cons.prems(2) c(1,2)] this] show ?case by (simp add: attempt_event)
qed simp

section \<open>The ledger\<close>

lemma check_ledger_exact:
  "wd_baseline (fst (check_ledger r s)) = (case r of None \<Rightarrow> wd_baseline s | Some n \<Rightarrow> Some (case wd_baseline s of None \<Rightarrow> n | Some b \<Rightarrow> max b n))"
  "snd (check_ledger r s) = (case (r, wd_baseline s) of (Some n, Some b) \<Rightarrow> if n < b then [LedgerIntegrityViolation n b] else [] | _ \<Rightarrow> [])"
  by (auto simp: check_ledger_def Let_def max_def split: option.splits)

lemma react_baseline: "wd_baseline (fst (react i s d)) = wd_baseline s"
  by (simp add: react_def attempt_start_def Let_def split: prod.splits option.splits)

lemma step_baseline:
  "wd_baseline (fst (fst (wd_step i w))) = wd_baseline (fst (check_ledger (wi_rows i) (fst w)))"
proof -
  let ?s = "fst (react i (probe_step i (fst w)) (snd w))"
  have "wd_baseline (fst (fst (wd_step i w))) = wd_baseline (fst (check_ledger (wi_rows i) ?s))"
    by (simp add: wd_step_def split: prod.splits)
  moreover have "wd_baseline ?s = wd_baseline (fst w)" by (simp add: react_baseline probe_step_def Let_def)
  ultimately show ?thesis by (cases "wi_rows i") (simp_all add: check_ledger_exact)
qed

lemma lock_event_no_alarm: "LedgerIntegrityViolation n b \<notin> set (lock_event c r q)"
  by (simp add: lock_event_def)

lemma react_no_alarm: "LedgerIntegrityViolation n b \<notin> set (fst (snd (snd (react i s d))))"
  using lock_event_no_alarm by (auto simp: react_def attempt_start_def Let_def split: prod.splits option.splits)

lemma step_alarm:
  "LedgerIntegrityViolation n b \<in> set (fst (snd (wd_step i w))) \<longleftrightarrow> wi_rows i = Some n \<and> wd_baseline (fst w) = Some b \<and> n < b"
proof -
  let ?s = "fst (react i (probe_step i (fst w)) (snd w))"
  have "fst (snd (wd_step i w)) = fst (snd (snd (react i (probe_step i (fst w)) (snd w)))) @ snd (check_ledger (wi_rows i) ?s)"
    by (simp add: wd_step_def split: prod.splits)
  moreover have "wd_baseline ?s = wd_baseline (fst w)" by (simp add: react_baseline probe_step_def Let_def)
  ultimately show ?thesis using react_no_alarm by (auto simp: check_ledger_exact split: option.splits)
qed

definition seen_rows :: "wd_input list \<Rightarrow> wd_state \<Rightarrow> int list" where
  "seen_rows is s = (case wd_baseline s of None \<Rightarrow> [] | Some b \<Rightarrow> [b]) @ List.map_filter wi_rows is"

lemma run_baseline:
  "wd_baseline (fst (fst (wd_run is w))) = (if seen_rows is (fst w) = [] then None else Some (Max (set (seen_rows is (fst w)))))"
proof (induction "is" arbitrary: w)
  case Nil
  then show ?case by (simp add: seen_rows_def map_filter_simps split: option.splits)
next
  case (Cons i "is")
  have run: "fst (wd_run (i # is) w) = fst (wd_run is (fst (wd_step i w)))" by (simp split: prod.splits)
  have seen: "set (seen_rows (i # is) (fst w)) = {} \<longleftrightarrow> set (seen_rows is (fst (fst (wd_step i w)))) = {}"
    by (auto simp: seen_rows_def step_baseline check_ledger_exact map_filter_simps split: option.splits)
  have mx: "Max (set (seen_rows (i # is) (fst w))) = Max (set (seen_rows is (fst (fst (wd_step i w)))))" if "seen_rows (i # is) (fst w) \<noteq> []"
    using that by (cases "List.map_filter wi_rows is = []")
      (auto simp: seen_rows_def step_baseline check_ledger_exact map_filter_simps max.assoc split: option.splits)
  show ?case unfolding run Cons.IH using seen mx by auto
qed

section \<open>Locks\<close>

lemma clear_stale_lock_guards:
  assumes "clear_stale_lock ps mv rm keep q s = (s', r)" and "sd_lock s' \<noteq> sd_lock s \<or> sd_postmaster s' \<noteq> sd_postmaster s"
  shows "\<not> sd_socket s \<and> \<not> sd_listening s \<and> (\<exists>l p. sd_lock s = Some l \<and> read_pid l = Inr p \<and> \<not> live_server ps p)
    \<and> (\<forall>pm. sd_postmaster s = Some pm \<longrightarrow> (\<exists>p. read_pid pm = Inr p \<and> \<not> live_server ps p))"
  using assms by (auto simp: clear_stale_lock_def Let_def split: if_splits option.splits sum.splits prod.splits)

lemma move_lock_cases:
  assumes "move_lock mv q s = (s', ok)"
  shows "(sd_lock s' = sd_lock s \<and> \<not> ok) \<or> (sd_lock s' = None \<and> (\<exists>d. map_of (sd_dirs s') q = Some d \<and> qd_marker d \<and> qd_lock d = sd_lock s))"
  using assms by (auto simp: move_lock_def put_dir_def Let_def update_conv' split: if_splits)

lemma move_lock_own:
  assumes "move_lock mv q s = (s', ok)" and "\<forall>n \<in> set (own_quarantines (sd_dirs s)). n \<le> q"
  shows "\<forall>n \<in> set (own_quarantines (sd_dirs s')). n \<le> q"
proof -
  have up: "set (own_quarantines (AList.update q d ds)) \<subseteq> insert q (set (own_quarantines ds))" for d and ds :: "(string \<times> quarantine_dir) list"
    using AList_update_set [of q d ds] by (auto simp: own_quarantines_def)
  have "set (own_quarantines (sd_dirs s')) \<subseteq> insert q (set (own_quarantines (sd_dirs s)))"
    using assms(1) up [of _ "sd_dirs s"] up
    by (auto simp: move_lock_def put_dir_def Let_def split: if_splits dest!: subsetD [OF up])
  then show ?thesis using assms(2) by auto
qed

lemma greatest_not_taken:
  fixes xs :: "string list"
  assumes "sorted xs" and "distinct xs" and "\<forall>x \<in> set xs. x \<le> q" and "k < length xs"
  shows "q \<notin> set (take k xs)"
proof
  assume "q \<in> set (take k xs)"
  then obtain i where i: "i < k" "xs ! i = q" using assms(4) by (auto simp: in_set_conv_nth)
  have "xs ! i \<le> xs ! k" "xs ! k \<le> q" using assms i by (auto intro: sorted_nth_mono)
  then have "xs ! k = xs ! i" using i by simp
  then show False using assms(2,4) i(1) by (simp add: nth_eq_iff_index_eq)
qed

lemma rotate_keeps_greatest:
  assumes "distinct (map fst ds)" and "\<forall>n \<in> set (own_quarantines ds). n \<le> q" and "1 \<le> keep"
  shows "map_of (rotate_quarantine rm keep ds) q = map_of ds q"
proof -
  let ?own = "sort (own_quarantines ds)"
  have dist: "distinct ?own" using assms(1) by (simp add: own_quarantines_def distinct_map_filter)
  have "q \<notin> set (take (length ?own - keep) ?own)"
  proof (cases "?own = []")
    case False
    then have "length ?own - keep < length ?own" using assms(3) by (cases ?own) auto
    with dist assms(2) show ?thesis by (intro greatest_not_taken) auto
  qed simp
  then have "filter (\<lambda>e. fst e = q) (rotate_quarantine rm keep ds) = filter (\<lambda>e. fst e = q) ds"
    unfolding rotate_quarantine_def Let_def filter_filter by (intro filter_cong) auto
  moreover have "map_of xs q = map_of (filter (\<lambda>e. fst e = q) xs) q" for xs :: "(string \<times> quarantine_dir) list" by (induction xs) auto
  ultimately show ?thesis by metis
qed

lemma move_lock_distinct:
  assumes "move_lock mv q s = (s', ok)" and "distinct (map fst (sd_dirs s))"
  shows "distinct (map fst (sd_dirs s'))"
  using assms by (auto simp: move_lock_def put_dir_def Let_def distinct_update split: if_splits)

lemma lock_kept_or_moved:
  assumes "clear_stale_lock ps mv rm keep q s = (s', r)" and "sd_lock s = Some l" and "distinct (map fst (sd_dirs s))"
    and "\<forall>n \<in> set (own_quarantines (sd_dirs s)). n \<le> q" and "1 \<le> keep"
  shows "sd_lock s' = Some l \<or> (\<exists>d. map_of (sd_dirs s') q = Some d \<and> qd_lock d = Some l)"
proof (cases "s' = s")
  case False
  obtain s2 ok where m: "move_lock mv q s = (s2, ok)" by (cases "move_lock mv q s") auto
  have s': "s' = (if ok then s2\<lparr>sd_dirs := rotate_quarantine rm keep (sd_dirs s2)\<rparr> else s2)"
    using assms(1) False m by (auto simp: clear_stale_lock_def Let_def split: if_splits option.splits sum.splits)
  have rot: "map_of (rotate_quarantine rm keep (sd_dirs s2)) q = map_of (sd_dirs s2) q"
    using rotate_keeps_greatest [OF move_lock_distinct [OF m assms(3)] move_lock_own [OF m assms(4)] assms(5)] .
  show ?thesis using move_lock_cases [OF m] assms(2) rot by (auto simp: s')
qed (use assms(2) in simp)

lemma rotate_only_own:
  assumes "(n, d) \<in> set ds" and "(n, d) \<notin> set (rotate_quarantine rm keep ds)"
  shows "n \<in> set (own_quarantines ds) \<and> keep < length (own_quarantines ds)"
proof -
  have "n \<in> set (take (length (own_quarantines ds) - keep) (sort (own_quarantines ds)))"
    using assms by (auto simp: rotate_quarantine_def Let_def)
  then show ?thesis by (cases "keep < length (own_quarantines ds)") (auto dest: in_set_takeD)
qed

text \<open>A live process whose name cannot be read counts as not being the server, although the code promises to leave the file in doubt.\<close>

lemma doubt_moves_lock:
  "clear_stale_lock (\<lambda>_. Some None) Moved (\<lambda>_. True) 10 ''quarantine-1''
     \<lparr>sd_socket = False, sd_listening = False, sd_lock = Some (FirstLine ''7''), sd_postmaster = None, sd_dirs = []\<rparr>
   = (\<lparr>sd_socket = False, sd_listening = False, sd_lock = None, sd_postmaster = None,
       sd_dirs = [(''quarantine-1'', \<lparr>qd_marker = True, qd_lock = Some (FirstLine ''7''), qd_postmaster = None\<rparr>)]\<rparr>, True, ''stale_lock_cleared'')"
  by (simp add: clear_stale_lock_def read_pid_def live_server_def pid_alive_def pid_comm_def move_lock_def put_dir_def quarantine_entry_def
      rotate_quarantine_def own_quarantines_def Let_def split: option.splits)

section \<open>Waiting ends\<close>

lemma wait_ready_ends:
  assumes "\<forall>k < length ps. t0 + 2 * (of_nat (n + k)) \<le> fst (ps ! k)" and "limit \<le> 2 * of_nat (n + length ps - 1)" and "ps \<noteq> []"
  shows "wait_ready limit t0 ps \<noteq> None"
  using assms
proof (induction ps arbitrary: n)
  case (Cons p ps)
  obtain t r t' where p: "p = (t, r, t')" by (cases p) auto
  show ?case
  proof (cases "ps = []")
    case True
    then show ?thesis using Cons.prems p by (auto split: if_splits)
  next
    case False
    have "\<forall>k < length ps. t0 + 2 * (of_nat (Suc n + k)) \<le> fst (ps ! k)" using Cons.prems(1) by auto
    with Cons.IH [of "Suc n"] Cons.prems(2) False show ?thesis by (auto simp: p split: if_splits)
  qed
qed simp

section \<open>Claims\<close>

text \<open>C27: The budget of restarts holds. Over any rounds with clocks that do not go back, whatever the probes, the starts and
  the files give, the watchdog tries to start the server at most five times in any 3599 seconds (times in the state have
  whole seconds, so that a full hour is not guaranteed).\<close>

theorem restart_budget_holds:
  assumes "clocks_ok t is"
  shows "length (filter (\<lambda>a. u \<le> a \<and> a < u + 3599) (attempt_times is w)) \<le> RESTART_BUDGET_PER_HOUR"
proof -
  have "within_budget ([] @ attempt_times is w)"
    by (rule run_within_budget [OF assms]) (simp_all add: known_attempts_def within_budget_def)
  then show ?thesis by (simp add: within_budget_def)
qed

definition demo_round :: "rat \<Rightarrow> wd_input" where
  "demo_round t = \<lparr>wi_now = t, wi_ready = False, wi_try = t, wi_processes = (\<lambda>_. None), wi_move = Moved, wi_rm = (\<lambda>_. True),
     wi_quarantine = ''quarantine-1'', wi_started = False, wi_recovery = None, wi_end = t, wi_rows = None\<rparr>"

definition demo_socket_dir :: socket_dir where
  "demo_socket_dir = \<lparr>sd_socket = False, sd_listening = False, sd_lock = Some (FirstLine ''7''), sd_postmaster = None, sd_dirs = []\<rparr>"

theorem restart_budget_holds_witness:
  "length (filter (\<lambda>a. 0 \<le> a \<and> a < 0 + 3599) (attempt_times (map demo_round [0, 30, 60, 90, 120, 150]) (fst (wd_boot None None), demo_socket_dir))) \<le> RESTART_BUDGET_PER_HOUR"
  by (rule restart_budget_holds [of 0]) (simp add: demo_round_def)



text \<open>The tripwire of the ledger is exact. After any rounds, a round raises the alarm exactly when it counts fewer rows than the
  highest count seen since the baseline was set, and it names both numbers.\<close>

theorem ledger_tripwire_exact:
  "LedgerIntegrityViolation n b \<in> set (fst (snd (wd_step i (fst (wd_run is w)))))
     \<longleftrightarrow> wi_rows i = Some n \<and> seen_rows is (fst w) \<noteq> [] \<and> b = Max (set (seen_rows is (fst w))) \<and> n < b"
  by (auto simp: step_alarm run_baseline split: if_splits)

end
