(* ===== verification/DeployAgent.thy ===== *)
theory DeployAgent
  imports WriterLease
begin

text \<open>
  The agent that deploys the service from its own machine, \<open>src/deploy/ops/zo_deploy_agent.py\<close>: it follows the remote branch,
  waits for the verdict of the continuous integration, moves the work tree forward, applies migrations, restarts the service and probes it.

  The machine is the commit of its work tree and the commit that the service executes (none while it is stopped). Every command of a round is an argument:
  its answers are fields of \<open>round\<close>. A restart that works runs the code of the work tree; one that fails leaves the service as the
  round says. Texts of failures and log lines are left out; statuses of commits and alerts are a list of events. The state file is
  what the last successful write put there.

  Shown: a commit counts as deployed only after every check, with the service running it; a commit that failed is never tried
  again, over restarts of the agent too; with the automatic roll-back the work tree is always what the service executes; and that without it
  the work tree can fall behind the service, that migrations pass unchecked when the table of migrations cannot be read afterwards,
  and that a dry run writes the state.
\<close>

section \<open>State\<close>

record failure =
  fl_reason :: string
  fl_ts :: stamp

record agent_state =
  ag_deployed :: string
  ag_inferred :: bool
  ag_failed :: "(string \<times> failure) list"
  ag_last_failed_notice :: stamp
  ag_notices :: "(string \<times> stamp) list"
  ag_history :: "(string \<times> string list) list"
  ag_last_success :: stamp

definition agent_empty :: agent_state where
  "agent_empty = \<lparr>ag_deployed = [], ag_inferred = False, ag_failed = [], ag_last_failed_notice = NoStamp, ag_notices = [], ag_history = [], ag_last_success = NoStamp\<rparr>"

datatype agent_event = CommitStatus string string | Alert string string

record agent =
  dp_state :: agent_state
  dp_file :: "agent_state option"
  dp_head :: string
  dp_running :: "string option"
  dp_events :: "agent_event list"

section \<open>The answers of a round\<close>

datatype ci_run = CiRun string string "string option"

datatype service_after = KeepsOld | Stopped | RunsTree

datatype restart_answer = Restarted | RestartFails service_after

datatype health_answer = HealthRaises | HealthReply int "pydict option"

record round =
  rd_now :: rat
  rd_save :: bool
  rd_remote :: string
  rd_runs :: "ci_run list option"
  rd_dirty :: string
  rd_fetch :: bool
  rd_ancestor :: "string \<Rightarrow> string \<Rightarrow> bool"
  rd_deps :: "string \<Rightarrow> string \<Rightarrow> string list option"
  rd_ff :: bool
  rd_compile :: bool
  rd_files :: "string \<Rightarrow> string list"
  rd_applied :: "string list option"
  rd_dsn_file :: bool
  rd_migrate :: bool
  rd_applied_after :: "string list option"
  rd_reset :: bool
  rd_restart :: restart_answer
  rd_probes :: "(rat \<times> health_answer) list"
  rd_restart_back :: restart_answer
  rd_probes_back :: "(rat \<times> health_answer) list"

section \<open>Checks\<close>

datatype ci_verdict = CiGreen | CiPending | CiRed | CiUnknown

text \<open>The first run of the list with this commit decides.\<close>

fun ci_of_runs :: "string \<Rightarrow> ci_run list \<Rightarrow> ci_verdict" where
  "ci_of_runs sha [] = CiPending"
| "ci_of_runs sha (CiRun h st concl # rs) =
     (if h = sha then (if st \<noteq> ''completed'' then CiPending else if concl = Some ''success'' then CiGreen else CiRed)
      else ci_of_runs sha rs)"

definition ci_state :: "round \<Rightarrow> string \<Rightarrow> ci_verdict" where
  "ci_state r sha = (case rd_runs r of None \<Rightarrow> CiUnknown | Some rs \<Rightarrow> ci_of_runs sha rs)"

text \<open>An empty table of migrations counts as one that cannot be read.\<close>

definition pending_migrations :: "string list option \<Rightarrow> string list \<Rightarrow> string list \<times> bool" where
  "pending_migrations applied files =
     (case applied of
        None \<Rightarrow> ([], False)
      | Some as \<Rightarrow> if as = [] then ([], False) else (filter (\<lambda>n. n \<notin> set as) (sort files), True))"

definition health_ok :: "health_answer \<Rightarrow> bool" where
  "health_ok h =
     (case h of
        HealthReply st (Some p) \<Rightarrow> st = 200 \<and> dict_get p ''status'' = PStr ''ok'' \<and> dict_get p ''pg'' = PBool True
      | _ \<Rightarrow> False)"

definition HEALTH_TIMEOUT_S :: rat where "HEALTH_TIMEOUT_S = 90"

text \<open>The probes of the wait with their times; after the last one the deadline has passed.\<close>

fun wait_loop :: "rat \<Rightarrow> (rat \<times> health_answer) list \<Rightarrow> bool" where
  "wait_loop deadline [] = False"
| "wait_loop deadline ((t, h) # hs) = (if \<not> t < deadline then False else if health_ok h then True else wait_loop deadline hs)"

definition wait_healthy :: "rat \<Rightarrow> (rat \<times> health_answer) list \<Rightarrow> bool" where
  "wait_healthy now ps = wait_loop (now + HEALTH_TIMEOUT_S) ps"

definition age_s :: "rat \<Rightarrow> stamp \<Rightarrow> rat" where
  "age_s now t = (case t of At s \<Rightarrow> now - s | _ \<Rightarrow> 0)"

definition notice_due :: "rat \<Rightarrow> string \<Rightarrow> rat \<Rightarrow> agent_state \<Rightarrow> agent_state \<times> bool" where
  "notice_due now key interval s =
     (let due = (case map_of (ag_notices s) key of Some (At t) \<Rightarrow> interval \<le> now - t | _ \<Rightarrow> True)
      in if due then (s\<lparr>ag_notices := AList.update key (iso now) (ag_notices s)\<rparr>, True) else (s, False))"

section \<open>Effects\<close>

definition save_state :: "round \<Rightarrow> agent \<Rightarrow> agent" where
  "save_state r d = (if rd_save r then d\<lparr>dp_file := Some (dp_state d)\<rparr> else d)"

definition load_state :: "agent_state option \<Rightarrow> agent_state" where
  "load_state f = (case f of None \<Rightarrow> agent_empty | Some s \<Rightarrow> s)"

definition set_state :: "(agent_state \<Rightarrow> agent_state) \<Rightarrow> agent \<Rightarrow> agent" where
  "set_state f d = d\<lparr>dp_state := f (dp_state d)\<rparr>"

definition post_status :: "string \<Rightarrow> string \<Rightarrow> agent \<Rightarrow> agent" where
  "post_status sha st d = d\<lparr>dp_events := dp_events d @ [CommitStatus sha st]\<rparr>"

definition send_alert :: "string \<Rightarrow> string \<Rightarrow> agent \<Rightarrow> agent" where
  "send_alert sha title d = d\<lparr>dp_events := dp_events d @ [Alert sha title]\<rparr>"

definition fail_deploy :: "round \<Rightarrow> string \<Rightarrow> string \<Rightarrow> agent \<Rightarrow> agent" where
  "fail_deploy r sha reason d =
     save_state r (send_alert sha ''failed''
       (set_state (\<lambda>s. s\<lparr>ag_failed := AList.update sha \<lparr>fl_reason = reason, fl_ts = iso (rd_now r)\<rparr> (ag_failed s), ag_last_failed_notice := iso (rd_now r)\<rparr>) d))"

definition git_reset :: "round \<Rightarrow> string \<Rightarrow> agent \<Rightarrow> agent" where
  "git_reset r sha d = (if rd_reset r then d\<lparr>dp_head := sha\<rparr> else d)"

definition rollback_tree :: "round \<Rightarrow> string \<Rightarrow> agent \<Rightarrow> agent" where
  "rollback_tree r previous d = (if previous = [] then d else git_reset r previous d)"

definition restart_service :: "restart_answer \<Rightarrow> agent \<Rightarrow> agent \<times> bool" where
  "restart_service a d =
     (case a of Restarted \<Rightarrow> (d\<lparr>dp_running := Some (dp_head d)\<rparr>, True) | RestartFails KeepsOld \<Rightarrow> (d, False)
      | RestartFails Stopped \<Rightarrow> (d\<lparr>dp_running := None\<rparr>, False) | RestartFails RunsTree \<Rightarrow> (d\<lparr>dp_running := Some (dp_head d)\<rparr>, False))"

section \<open>Deployment\<close>

text \<open>A refusal before and after the work tree has moved.\<close>

definition refuse :: "round \<Rightarrow> string \<Rightarrow> string \<Rightarrow> string \<Rightarrow> agent \<Rightarrow> agent" where
  "refuse r sha reason verdict d = post_status sha verdict (fail_deploy r sha reason d)"

definition refuse_back :: "round \<Rightarrow> string \<Rightarrow> string \<Rightarrow> string \<Rightarrow> string \<Rightarrow> agent \<Rightarrow> agent" where
  "refuse_back r previous sha reason verdict d = post_status sha verdict (rollback_tree r previous (fail_deploy r sha reason d))"

text \<open>The migrations: the reason and verdict of a refusal, or the name of the step.\<close>

definition migrate :: "round \<Rightarrow> string \<Rightarrow> (string \<times> string) + string" where
  "migrate r head =
     (case pending_migrations (rd_applied r) (rd_files r head) of
        (_, False) \<Rightarrow> Inl (''migration_ledger_unreadable'', ''error'')
      | ([], True) \<Rightarrow> Inr ''migrate:none''
      | (_, True) \<Rightarrow>
          if \<not> rd_dsn_file r \<or> \<not> rd_migrate r then Inl (''migration_failed'', ''failure'')
          else if fst (pending_migrations (rd_applied_after r) (rd_files r head)) \<noteq> [] then Inl (''migration_not_applied'', ''failure'')
          else Inr ''migrate'')"

text \<open>The history keeps thirty entries; the numbers of commits and migrations in it are left out.\<close>

definition succeed :: "round \<Rightarrow> string \<Rightarrow> string list \<Rightarrow> agent \<Rightarrow> agent" where
  "succeed r sha steps d =
     (let d1 = set_state (\<lambda>s. s\<lparr>ag_deployed := sha, ag_last_success := iso (rd_now r),
                   ag_history := (let h = ag_history s @ [(sha, steps)] in drop (length h - 30) h),
                   ag_failed := AList.delete sha (ag_failed s)\<rparr>) d
      in send_alert sha ''deployed'' (post_status sha ''success'' (save_state r d1)))"

definition unhealthy :: "round \<Rightarrow> bool \<Rightarrow> string \<Rightarrow> string \<Rightarrow> agent \<Rightarrow> agent" where
  "unhealthy r rollback previous sha d =
     (if rollback \<and> previous \<noteq> []
      then refuse r sha ''health_failed_rolled_back'' ''failure''
             (send_alert sha ''rolled back'' (fst (restart_service (rd_restart_back r) (git_reset r previous d))))
      else refuse r sha ''health_failed'' ''failure'' (send_alert sha ''unhealthy'' d))"

definition finish_deploy :: "round \<Rightarrow> bool \<Rightarrow> string \<Rightarrow> string \<Rightarrow> string \<Rightarrow> agent \<Rightarrow> agent \<times> bool" where
  "finish_deploy r rollback previous sha step d =
     (case restart_service (rd_restart r) d of
        (d1, False) \<Rightarrow> (refuse_back r previous sha ''restart_failed'' ''failure'' d1, False)
      | (d1, True) \<Rightarrow>
          if wait_healthy (rd_now r) (rd_probes r)
          then (succeed r sha [''fetch'', ''deps:unchanged'', ''ff'', ''compile'', step, ''restart'', ''health''] d1, True)
          else (unhealthy r rollback previous sha d1, False))"

definition do_deploy :: "round \<Rightarrow> bool \<Rightarrow> bool \<Rightarrow> string \<Rightarrow> agent \<Rightarrow> agent \<times> bool" where
  "do_deploy r dry rollback sha d =
     (let previous = ag_deployed (dp_state d); d0 = post_status sha ''pending'' d
      in if dry then (d, True)
         else if \<not> rd_fetch r then (refuse r sha ''fetch_failed'' ''failure'' d0, False)
         else if \<not> rd_ancestor r (dp_head d) sha then (refuse r sha ''history_diverged'' ''error'' d0, False)
         else if previous = [] then (refuse r sha ''deps_base_unknown'' ''error'' d0, False)
         else case rd_deps r previous sha of
           None \<Rightarrow> (refuse r sha ''deps_diff_unreadable'' ''error'' d0, False)
         | Some (_ # _) \<Rightarrow> (refuse r sha ''deps_changed'' ''error'' d0, False)
         | Some [] \<Rightarrow>
             if \<not> rd_ff r then (refuse r sha ''ff_failed'' ''failure'' d0, False)
             else let d1 = d0\<lparr>dp_head := sha\<rparr>
                  in if \<not> rd_compile r then (refuse_back r previous sha ''compile_failed'' ''failure'' d1, False)
                     else (case migrate r sha of
                             Inl (reason, verdict) \<Rightarrow> (refuse_back r previous sha reason verdict d1, False)
                           | Inr step \<Rightarrow> finish_deploy r rollback previous sha step d1))"

section \<open>Rounds\<close>

definition FAILED_NOTICE_INTERVAL_S :: rat where "FAILED_NOTICE_INTERVAL_S = 3600"

definition remind :: "round \<Rightarrow> string \<Rightarrow> failure \<Rightarrow> agent \<Rightarrow> agent" where
  "remind r sha fl d =
     (let seen = (if ag_last_failed_notice (dp_state d) = NoStamp then fl_ts fl else ag_last_failed_notice (dp_state d))
      in if \<not> 3600 \<le> age_s (rd_now r) seen then d
         else case notice_due (rd_now r) (''failed_memory:'' @ sha) 86400 (dp_state d) of
           (s, True) \<Rightarrow> save_state r (send_alert sha ''standing'' (d\<lparr>dp_state := s\<rparr>))
         | (s, False) \<Rightarrow> d\<lparr>dp_state := s\<rparr>)"

definition hold_back :: "round \<Rightarrow> string \<Rightarrow> agent \<Rightarrow> agent" where
  "hold_back r sha d =
     (case notice_due (rd_now r) ''tree_modified'' FAILED_NOTICE_INTERVAL_S (dp_state d) of
        (s, True) \<Rightarrow> save_state r (send_alert sha ''held back'' (d\<lparr>dp_state := s\<rparr>))
      | (s, False) \<Rightarrow> d\<lparr>dp_state := s\<rparr>)"

definition cycle :: "bool \<Rightarrow> bool \<Rightarrow> round \<Rightarrow> agent \<Rightarrow> agent" where
  "cycle dry rollback r d =
     (let sha = rd_remote r
      in if sha = [] \<or> sha = ag_deployed (dp_state d) then d
         else case map_of (ag_failed (dp_state d)) sha of
           Some fl \<Rightarrow> remind r sha fl d
         | None \<Rightarrow>
             (case ci_state r sha of
                CiPending \<Rightarrow> d
              | CiUnknown \<Rightarrow> d
              | CiRed \<Rightarrow> save_state r (refuse r sha ''ci_red'' ''error'' d)
              | CiGreen \<Rightarrow>
                  if dry then d
                  else if rd_dirty r \<noteq> [] then hold_back r sha d
                  else fst (do_deploy r False rollback sha d)))"

text \<open>The start of the agent, and the removal of the memory of failures.\<close>

definition bootstrap :: "bool \<Rightarrow> agent_state option \<Rightarrow> string option \<Rightarrow> agent \<Rightarrow> agent" where
  "bootstrap save file rev_parse d =
     (let s = load_state file; d1 = d\<lparr>dp_state := s\<rparr>
      in case rev_parse of
           Some h \<Rightarrow> if ag_deployed s = [] \<and> h \<noteq> []
                      then (let d2 = d1\<lparr>dp_state := s\<lparr>ag_deployed := h, ag_inferred := True\<rparr>\<rparr> in if save then d2\<lparr>dp_file := Some (dp_state d2)\<rparr> else d2)
                      else d1
         | None \<Rightarrow> d1)"

definition retry_all :: "bool \<Rightarrow> agent \<Rightarrow> agent" where
  "retry_all save d =
     (let s = load_state (dp_file d)
      in if save then d\<lparr>dp_file := Some (s\<lparr>ag_failed := [], ag_notices := []\<rparr>)\<rparr> else d)"

section \<open>What the effects change\<close>

lemmas effect_defs = refuse_def refuse_back_def fail_deploy_def save_state_def post_status_def send_alert_def set_state_def rollback_tree_def git_reset_def

lemma effect_simps [simp]:
  "dp_head (refuse r sha x v d) = dp_head d" "dp_running (refuse r sha x v d) = dp_running d"
  "ag_deployed (dp_state (refuse r sha x v d)) = ag_deployed (dp_state d)"
  "ag_failed (dp_state (refuse r sha x v d)) = AList.update sha \<lparr>fl_reason = x, fl_ts = iso (rd_now r)\<rparr> (ag_failed (dp_state d))"
  "dp_running (refuse_back r p sha x v d) = dp_running d"
  "dp_head (refuse_back r p sha x v d) = (if p \<noteq> [] \<and> rd_reset r then p else dp_head d)"
  "ag_deployed (dp_state (refuse_back r p sha x v d)) = ag_deployed (dp_state d)"
  "ag_failed (dp_state (refuse_back r p sha x v d)) = AList.update sha \<lparr>fl_reason = x, fl_ts = iso (rd_now r)\<rparr> (ag_failed (dp_state d))"
  by (simp_all add: effect_defs)

lemma save_simps [simp]:
  "dp_head (save_state r d) = dp_head d" "dp_running (save_state r d) = dp_running d" "dp_state (save_state r d) = dp_state d"
  "dp_events (save_state r d) = dp_events d" "dp_state (post_status sha v d) = dp_state d" "dp_head (post_status sha v d) = dp_head d"
  "dp_running (post_status sha v d) = dp_running d" "dp_state (send_alert sha v d) = dp_state d" "dp_head (send_alert sha v d) = dp_head d"
  "dp_running (send_alert sha v d) = dp_running d" "dp_state (git_reset r p d) = dp_state d" "dp_running (git_reset r p d) = dp_running d"
  "dp_head (git_reset r p d) = (if rd_reset r then p else dp_head d)"
  by (simp_all add: save_state_def post_status_def send_alert_def git_reset_def)

lemma succeed_simps [simp]:
  "dp_head (succeed r sha st d) = dp_head d" "dp_running (succeed r sha st d) = dp_running d"
  "ag_deployed (dp_state (succeed r sha st d)) = sha" "ag_failed (dp_state (succeed r sha st d)) = AList.delete sha (ag_failed (dp_state d))"
  by (simp_all add: succeed_def set_state_def Let_def)

lemma restart_simps [simp]: "dp_state (fst (restart_service a d)) = dp_state d" "dp_head (fst (restart_service a d)) = dp_head d"
  by (simp_all add: restart_service_def split: restart_answer.splits service_after.splits)

lemma unhealthy_simps [simp]:
  "ag_deployed (dp_state (unhealthy r rb p sha d)) = ag_deployed (dp_state d)"
  by (simp add: unhealthy_def)

lemma notice_due_keeps:
  assumes "notice_due now key iv s = (s', due)"
  shows "ag_deployed s' = ag_deployed s" "ag_failed s' = ag_failed s" "\<not> due \<Longrightarrow> s' = s"
  using assms by (auto simp: notice_due_def Let_def split: if_splits)

lemma remind_simps [simp]:
  "dp_head (remind r sha fl d) = dp_head d" "dp_running (remind r sha fl d) = dp_running d"
  "ag_deployed (dp_state (remind r sha fl d)) = ag_deployed (dp_state d)" "ag_failed (dp_state (remind r sha fl d)) = ag_failed (dp_state d)"
  using notice_due_keeps by (auto simp: remind_def Let_def split: prod.splits bool.splits)

lemma hold_back_simps [simp]:
  "dp_head (hold_back r sha d) = dp_head d" "dp_running (hold_back r sha d) = dp_running d"
  "ag_deployed (dp_state (hold_back r sha d)) = ag_deployed (dp_state d)" "ag_failed (dp_state (hold_back r sha d)) = ag_failed (dp_state d)"
  using notice_due_keeps by (auto simp: hold_back_def split: prod.splits bool.splits)

section \<open>The ways a deployment ends\<close>

text \<open>Every deployment that was not a dry run ends in one of five ways.\<close>

lemma do_deploy_cases:
  assumes "do_deploy r False rb sha d = (d', ok)"
  obtains (early) x v where "d' = refuse r sha x v (post_status sha ''pending'' d)" "\<not> ok"
  | (undone) x v where "d' = refuse_back r (ag_deployed (dp_state d)) sha x v ((post_status sha ''pending'' d)\<lparr>dp_head := sha\<rparr>)"
      "\<not> ok" "ag_deployed (dp_state d) \<noteq> []"
  | (stuck) "d' = refuse_back r (ag_deployed (dp_state d)) sha ''restart_failed'' ''failure''
        (fst (restart_service (rd_restart r) ((post_status sha ''pending'' d)\<lparr>dp_head := sha\<rparr>)))"
      "rd_restart r \<noteq> Restarted" "\<not> ok" "ag_deployed (dp_state d) \<noteq> []"
  | (sick) "d' = unhealthy r rb (ag_deployed (dp_state d)) sha ((post_status sha ''pending'' d)\<lparr>dp_head := sha, dp_running := Some sha\<rparr>)"
      "\<not> ok" "ag_deployed (dp_state d) \<noteq> []"
  | (fine) st where "d' = succeed r sha st ((post_status sha ''pending'' d)\<lparr>dp_head := sha, dp_running := Some sha\<rparr>)" "ok"
      "rd_fetch r" "rd_ancestor r (dp_head d) sha" "rd_deps r (ag_deployed (dp_state d)) sha = Some []" "rd_ff r" "rd_compile r"
      "\<exists>step. migrate r sha = Inr step" "wait_healthy (rd_now r) (rd_probes r)" "ag_deployed (dp_state d) \<noteq> []"
proof -
  let ?p = "ag_deployed (dp_state d)" and ?d0 = "post_status sha ''pending'' d"
  let ?d1 = "?d0\<lparr>dp_head := sha\<rparr>"
  consider (a) "\<not> rd_fetch r \<or> \<not> rd_ancestor r (dp_head d) sha \<or> ?p = [] \<or> rd_deps r ?p sha \<noteq> Some [] \<or> \<not> rd_ff r"
    | (b) "rd_fetch r" "rd_ancestor r (dp_head d) sha" "?p \<noteq> []" "rd_deps r ?p sha = Some []" "rd_ff r"
    by blast
  then show thesis
  proof cases
    case a
    then show thesis using assms early
      by (auto simp: do_deploy_def Let_def split: if_splits option.splits list.splits)
  next
    case b
    show thesis
    proof (cases "rd_compile r \<and> (\<exists>step. migrate r sha = Inr step)")
      case False
      then show thesis using assms b undone
        by (auto simp: do_deploy_def Let_def split: if_splits sum.splits prod.splits)
    next
      case True
      then obtain step where m: "rd_compile r" "migrate r sha = Inr step" by auto
      have fin: "finish_deploy r rb ?p sha step ?d1 = (d', ok)" using assms b m by (simp add: do_deploy_def Let_def)
      show thesis
      proof (cases "rd_restart r")
        case (RestartFails x)
        then have "d' = refuse_back r ?p sha ''restart_failed'' ''failure'' (fst (restart_service (rd_restart r) ?d1))" "\<not> ok"
          using fin by (auto simp: finish_deploy_def restart_service_def split: prod.splits bool.splits service_after.splits)
        then show thesis using stuck RestartFails b(3) by simp
      next
        case Restarted
        then have r: "restart_service (rd_restart r) ?d1 = (?d1\<lparr>dp_running := Some sha\<rparr>, True)" by (simp add: restart_service_def)
        show thesis
        proof (cases "wait_healthy (rd_now r) (rd_probes r)")
          case True
          then show thesis using fin r b m
            by (intro fine [of "[''fetch'', ''deps:unchanged'', ''ff'', ''compile'', step, ''restart'', ''health'']"]) (simp_all add: finish_deploy_def)
        next
          case False
          then show thesis using fin r b(3) by (intro sick) (simp_all add: finish_deploy_def)
        qed
      qed
    qed
  qed
qed

lemma cycle_cases:
  obtains (idle) "cycle dry rb r d = d"
  | (known) fl where "map_of (ag_failed (dp_state d)) (rd_remote r) = Some fl" "cycle dry rb r d = remind r (rd_remote r) fl d"
  | (red) "map_of (ag_failed (dp_state d)) (rd_remote r) = None" "cycle dry rb r d = save_state r (refuse r (rd_remote r) ''ci_red'' ''error'' d)"
  | (held) "cycle dry rb r d = hold_back r (rd_remote r) d"
  | (deploys) "map_of (ag_failed (dp_state d)) (rd_remote r) = None" "\<not> dry" "ci_state r (rd_remote r) = CiGreen" "rd_dirty r = []"
      "rd_remote r \<noteq> ag_deployed (dp_state d)" "cycle dry rb r d = fst (do_deploy r False rb (rd_remote r) d)"
  by (cases "rd_remote r = [] \<or> rd_remote r = ag_deployed (dp_state d)"; cases "map_of (ag_failed (dp_state d)) (rd_remote r)";
      cases "ci_state r (rd_remote r)"; cases "rd_dirty r = []"; cases dry) (simp_all add: cycle_def Let_def)

section \<open>Memory of failures\<close>

text \<open>The agent at work: rounds, whose writes of the state work, and restarts that read the file.\<close>

inductive agent_step :: "agent \<Rightarrow> agent \<Rightarrow> bool" where
  as_cycle: "rd_save r \<Longrightarrow> agent_step d (cycle dry rb r d)"
| as_restart: "agent_step d (bootstrap True (dp_file d) rev_parse d)"

abbreviation agent_steps :: "agent \<Rightarrow> agent \<Rightarrow> bool" where "agent_steps \<equiv> agent_step\<^sup>*\<^sup>*"

definition remembers :: "string \<Rightarrow> agent \<Rightarrow> bool" where
  "remembers sha d \<longleftrightarrow> dp_file d = Some (dp_state d) \<and> map_of (ag_failed (dp_state d)) sha \<noteq> None"

lemma refuse_saved: "rd_save r \<Longrightarrow> dp_file (refuse r sha x v d) = Some (dp_state (refuse r sha x v d))"
  by (simp add: effect_defs)

lemma refuse_back_saved: "rd_save r \<Longrightarrow> dp_file (refuse_back r p sha x v d) = Some (dp_state (refuse_back r p sha x v d))"
  by (simp add: effect_defs)

lemma succeed_saved: "rd_save r \<Longrightarrow> dp_file (succeed r sha st d) = Some (dp_state (succeed r sha st d))"
  by (simp add: succeed_def effect_defs Let_def)

lemma unhealthy_saved: "rd_save r \<Longrightarrow> dp_file (unhealthy r rb p sha d) = Some (dp_state (unhealthy r rb p sha d))"
  by (simp add: unhealthy_def refuse_saved)

lemma unhealthy_failed:
  "\<exists>x. ag_failed (dp_state (unhealthy r rb p sha d)) = AList.update sha \<lparr>fl_reason = x, fl_ts = iso (rd_now r)\<rparr> (ag_failed (dp_state d))"
  by (cases "rb \<and> p \<noteq> []") (auto simp: unhealthy_def)

lemma deploy_remembers:
  assumes "rd_save r" and "sha' \<noteq> sha" and "map_of (ag_failed (dp_state d)) sha' \<noteq> None"
  shows "remembers sha' (fst (do_deploy r False rb sha d))"
proof -
  obtain d' ok where d: "do_deploy r False rb sha d = (d', ok)" by (cases "do_deploy r False rb sha d") auto
  from d show ?thesis
  proof (cases rule: do_deploy_cases)
    case sick
    let ?d = "(post_status sha ''pending'' d)\<lparr>dp_head := sha, dp_running := Some sha\<rparr>"
    obtain x where "ag_failed (dp_state (unhealthy r rb (ag_deployed (dp_state d)) sha ?d)) =
        AList.update sha \<lparr>fl_reason = x, fl_ts = iso (rd_now r)\<rparr> (ag_failed (dp_state d))"
      using unhealthy_failed [of r rb "ag_deployed (dp_state d)" sha ?d] by auto
    then show ?thesis using assms d sick by (simp add: remembers_def unhealthy_saved update_conv')
  qed (use assms d in \<open>simp_all add: remembers_def refuse_saved refuse_back_saved succeed_saved update_conv' delete_conv'\<close>)
qed

lemma remind_remembers: "rd_save r \<Longrightarrow> remembers sha' d \<Longrightarrow> remembers sha' (remind r sha fl d)"
  using notice_due_keeps by (fastforce simp: remembers_def remind_def save_state_def send_alert_def Let_def split: prod.splits bool.splits)

lemma hold_back_remembers: "rd_save r \<Longrightarrow> remembers sha' d \<Longrightarrow> remembers sha' (hold_back r sha d)"
  using notice_due_keeps by (fastforce simp: remembers_def hold_back_def save_state_def send_alert_def split: prod.splits bool.splits)

lemma step_remembers:
  assumes "agent_step d d'" and "remembers sha d"
  shows "remembers sha d'"
  using assms(1)
proof cases
  case (as_cycle r dry rb)
  show ?thesis
  proof (cases rule: cycle_cases [where d = d and r = r and dry = dry and rb = rb])
    case red
    then show ?thesis using assms(2) as_cycle by (auto simp: remembers_def refuse_saved save_state_def update_conv')
  next
    case deploys
    then have "rd_remote r \<noteq> sha" using assms(2) by (auto simp: remembers_def)
    then show ?thesis using deploy_remembers [of r sha] deploys assms(2) as_cycle by (simp add: remembers_def)
  qed (use assms(2) as_cycle remind_remembers hold_back_remembers in auto)
next
  case (as_restart rp)
  then show ?thesis using assms(2) by (auto simp: remembers_def bootstrap_def load_state_def Let_def split: option.splits)
qed

definition statuses :: "string \<Rightarrow> agent \<Rightarrow> agent_event list" where
  "statuses sha d = filter (\<lambda>e. case e of CommitStatus s _ \<Rightarrow> s = sha | Alert _ _ \<Rightarrow> False) (dp_events d)"

lemma remind_statuses: "statuses sha' (remind r sha fl d) = statuses sha' d"
  by (auto simp: statuses_def remind_def save_state_def send_alert_def Let_def split: prod.splits bool.splits)

lemma hold_back_statuses: "statuses sha' (hold_back r sha d) = statuses sha' d"
  by (auto simp: statuses_def hold_back_def save_state_def send_alert_def split: prod.splits bool.splits)

lemma refuse_statuses: "sha' \<noteq> sha \<Longrightarrow> statuses sha' (refuse r sha x v d) = statuses sha' d"
  "sha' \<noteq> sha \<Longrightarrow> statuses sha' (refuse_back r p sha x v d) = statuses sha' d"
  by (simp_all add: statuses_def effect_defs)

lemma restart_events [simp]: "dp_events (fst (restart_service a d)) = dp_events d"
  by (simp add: restart_service_def split: restart_answer.splits service_after.splits)

lemma deploy_statuses:
  assumes "sha' \<noteq> sha"
  shows "statuses sha' (fst (do_deploy r False rb sha d)) = statuses sha' d"
proof -
  obtain d' ok where d: "do_deploy r False rb sha d = (d', ok)" by (cases "do_deploy r False rb sha d") auto
  have post: "statuses sha' (post_status sha v e) = statuses sha' e" "statuses sha' (send_alert sha v e) = statuses sha' e"
    "statuses sha' (git_reset r p e) = statuses sha' e" "statuses sha' (e\<lparr>dp_head := h\<rparr>) = statuses sha' e"
    "statuses sha' (e\<lparr>dp_head := h, dp_running := q\<rparr>) = statuses sha' e" "statuses sha' (fst (restart_service a e)) = statuses sha' e" for v p e h q a
    using assms by (simp_all add: statuses_def post_status_def send_alert_def git_reset_def)
  from d show ?thesis
  proof (cases rule: do_deploy_cases)
    case sick
    then show ?thesis using d assms by (simp add: unhealthy_def refuse_statuses post)
  next
    case (fine st)
    then show ?thesis using d assms by (simp add: succeed_def statuses_def effect_defs Let_def)
  qed (use d assms in \<open>simp_all add: refuse_statuses post\<close>)
qed

lemma step_statuses:
  assumes "agent_step d d'" and "remembers sha d"
  shows "statuses sha d' = statuses sha d"
  using assms(1)
proof cases
  case (as_cycle r dry rb)
  show ?thesis
  proof (cases rule: cycle_cases [where d = d and r = r and dry = dry and rb = rb])
    case red
    then have "sha \<noteq> rd_remote r" using assms(2) by (auto simp: remembers_def)
    then have "statuses sha (refuse r (rd_remote r) ''ci_red'' ''error'' d) = statuses sha d" by (rule refuse_statuses)
    then show ?thesis using red as_cycle by (simp add: statuses_def)
  next
    case deploys
    then have "sha \<noteq> rd_remote r" using assms(2) by (auto simp: remembers_def)
    then show ?thesis using deploys as_cycle by (simp add: deploy_statuses)
  qed (use as_cycle in \<open>simp_all add: remind_statuses hold_back_statuses\<close>)
next
  case (as_restart rp)
  then show ?thesis by (simp add: statuses_def bootstrap_def Let_def split: option.splits)
qed

section \<open>Tree and service\<close>

definition synced :: "agent \<Rightarrow> bool" where
  "synced d \<longleftrightarrow> ag_deployed (dp_state d) \<noteq> [] \<and> dp_head d = ag_deployed (dp_state d) \<and> dp_running d = Some (dp_head d)"

text \<open>A round in which a roll-back works and a restart that fails leaves the service as it was.\<close>

definition obedient :: "round \<Rightarrow> bool" where
  "obedient r \<longleftrightarrow> rd_reset r \<and> rd_restart r \<in> {Restarted, RestartFails KeepsOld} \<and> rd_restart_back r = Restarted"

lemma deploy_synced:
  assumes "synced d" and "obedient r" and "sha \<noteq> []"
  shows "synced (fst (do_deploy r False True sha d))"
proof -
  obtain d' ok where d: "do_deploy r False True sha d = (d', ok)" by (cases "do_deploy r False True sha d") auto
  from d show ?thesis
  proof (cases rule: do_deploy_cases)
    case sick
    then show ?thesis using assms d by (simp add: synced_def obedient_def unhealthy_def restart_service_def)
  next
    case stuck
    then have "rd_restart r = RestartFails KeepsOld" using assms(2) by (auto simp: obedient_def)
    then show ?thesis using assms d stuck by (simp add: synced_def obedient_def restart_service_def)
  qed (use assms d in \<open>simp_all add: synced_def obedient_def\<close>)
qed

lemma cycle_synced:
  assumes "synced d" and "obedient r"
  shows "synced (cycle dry True r d)"
proof (cases rule: cycle_cases [where d = d and r = r and dry = dry and rb = True])
  case deploys
  then show ?thesis using deploy_synced [OF assms] by (cases "rd_remote r = []") (auto simp: cycle_def assms(1))
qed (use assms(1) in \<open>simp_all add: synced_def\<close>)

section \<open>Claims\<close>

text \<open>C21: A commit becomes the deployed one only after every check: the continuous integration was green for it, the work tree was
  clean, the commit follows the one in the tree, the dependencies are those of the deployed commit, the sources compile, the migrations
  passed, the service was restarted and answered as healthy; then tree and service are at this commit.\<close>

theorem deployed_was_verified:
  assumes "ag_deployed (dp_state (cycle dry rb r d)) \<noteq> ag_deployed (dp_state d)"
  shows "\<not> dry \<and> ci_state r (rd_remote r) = CiGreen \<and> rd_dirty r = [] \<and> map_of (ag_failed (dp_state d)) (rd_remote r) = None
    \<and> rd_fetch r \<and> rd_ancestor r (dp_head d) (rd_remote r) \<and> rd_deps r (ag_deployed (dp_state d)) (rd_remote r) = Some [] \<and> rd_compile r
    \<and> (\<exists>step. migrate r (rd_remote r) = Inr step) \<and> wait_healthy (rd_now r) (rd_probes r)
    \<and> ag_deployed (dp_state (cycle dry rb r d)) = rd_remote r \<and> dp_head (cycle dry rb r d) = rd_remote r
    \<and> dp_running (cycle dry rb r d) = Some (rd_remote r)"
proof (cases rule: cycle_cases [where d = d and r = r and dry = dry and rb = rb])
  case deploys
  obtain d' ok where e: "do_deploy r False rb (rd_remote r) d = (d', ok)" by (cases "do_deploy r False rb (rd_remote r) d") auto
  from e show ?thesis
  proof (cases rule: do_deploy_cases)
    case (fine st)
    then show ?thesis using deploys e by simp
  qed (use assms deploys e in simp_all)
qed (use assms in simp_all)

definition green_round :: round where
  "green_round = \<lparr>rd_now = 1000, rd_save = True, rd_remote = ''b'', rd_runs = Some [CiRun ''b'' ''completed'' (Some ''success'')], rd_dirty = [],
     rd_fetch = True, rd_ancestor = (\<lambda>_ _. True), rd_deps = (\<lambda>_ _. Some []), rd_ff = True, rd_compile = True, rd_files = (\<lambda>_. [''1.sql'']),
     rd_applied = Some [''1.sql''], rd_dsn_file = True, rd_migrate = True, rd_applied_after = Some [''1.sql''], rd_reset = True,
     rd_restart = Restarted, rd_probes = [(1001, HealthReply 200 (Some [(''status'', PStr ''ok''), (''pg'', PBool True)]))],
     rd_restart_back = Restarted, rd_probes_back = []\<rparr>"

definition demo_agent :: agent where
  "demo_agent = (let s = agent_empty\<lparr>ag_deployed := ''a''\<rparr> in \<lparr>dp_state = s, dp_file = Some s, dp_head = ''a'', dp_running = Some ''a'', dp_events = []\<rparr>)"

lemmas agent_demo_defs = green_round_def demo_agent_def agent_empty_def cycle_def do_deploy_def finish_deploy_def ci_state_def migrate_def pending_migrations_def
  wait_healthy_def HEALTH_TIMEOUT_S_def health_ok_def dict_get_def restart_service_def succeed_def unhealthy_def effect_defs Let_def

theorem deployed_was_verified_witness:
  "wait_healthy (rd_now green_round) (rd_probes green_round) \<and> ag_deployed (dp_state (cycle False False green_round demo_agent)) = ''b''
     \<and> dp_running (cycle False False green_round demo_agent) = Some ''b''"
proof -
  have "ag_deployed (dp_state (cycle False False green_round demo_agent)) \<noteq> ag_deployed (dp_state demo_agent)" by (simp add: agent_demo_defs)
  from deployed_was_verified [OF this] show ?thesis by (simp add: green_round_def)
qed



text \<open>With the automatic roll-back, the work tree is always the code that the service executes and the commit recorded as
  deployed, over any rounds in which resets work and a failed restart leaves the service as it was.\<close>

theorem tree_is_running:
  assumes "synced d" and "list_all obedient rs"
  shows "synced (fold (cycle False True) rs d)"
  using assms
proof (induction rs arbitrary: d)
  case (Cons r rs)
  then show ?case using cycle_synced by simp
qed simp

theorem tree_is_running_witness: "synced (fold (cycle False True) [green_round\<lparr>rd_probes := []\<rparr>, green_round\<lparr>rd_remote := ''c''\<rparr>] demo_agent)"
  by (rule tree_is_running) (simp_all add: synced_def obedient_def green_round_def demo_agent_def agent_empty_def Let_def)

section \<open>Findings\<close>

text \<open>
  Without the automatic roll-back, the service runs a commit that was not healthy; the next commit that fails before its restart puts the
  tree back to the last deployed commit, and tree and service differ.
\<close>

lemma rollback_misses_service:
  "let d = fold (cycle False False) [green_round\<lparr>rd_probes := []\<rparr>, green_round\<lparr>rd_remote := ''c'', rd_runs := Some [CiRun ''c'' ''completed'' (Some ''success'')], rd_compile := False\<rparr>] demo_agent
   in dp_head d = ''a'' \<and> dp_running d = Some ''b''"
  by (simp add: agent_demo_defs)

text \<open>When the table of migrations cannot be read after they ran, a migration that was not applied goes unnoticed.\<close>

lemma unread_migrations_pass:
  "let d = cycle False False (green_round\<lparr>rd_files := (\<lambda>_. [''1.sql'', ''2.sql'']), rd_applied_after := None\<rparr>) demo_agent
   in ag_deployed (dp_state d) = ''b'' \<and> dp_running d = Some ''b''"
  by (simp add: agent_demo_defs)

text \<open>A dry run of a red commit writes its failure to the file.\<close>

lemma dry_run_writes:
  "dp_file (cycle True False (green_round\<lparr>rd_runs := Some [CiRun ''b'' ''completed'' (Some ''failure'')]\<rparr>) demo_agent) \<noteq> dp_file demo_agent"
  by (simp add: agent_demo_defs)

text \<open>Removing the memory of failures changes the file; an agent at work keeps its own.\<close>

lemma retry_all_misses_running_agent: "dp_state (retry_all save d) = dp_state d"
  by (simp add: retry_all_def Let_def)

end
