(* ===== verification/PgPool.thy ===== *)
theory PgPool
  imports Prelude
begin

text \<open>
  The connection manager under the billing tables, \<open>src/billing/pg_connection.py\<close>, and the way the ledger runs a statement through it
  (\<open>_pg_execute\<close> of \<open>src/billing/pg_ledger.py\<close>).

  psycopg2 is a library: every call of it is an argument that says how the call ends, and the calls are recorded in the order in which the code makes
  them. A commit that fails may or may not have taken effect. Pools are numbered in the order of their creation; between two
  steps another thread may replace the pool.

  Shown: whatever fails, a statement run through the manager behaves as \<open>pg_run\<close>, the round trip that the billing
  theories are built on; a borrowed connection goes back exactly once, to the pool that lent it, and the gauge of active connections
  returns to its value; a connection whose transaction failed is not handed out again; and the number of attempts is bounded.
\<close>

section \<open>Calls of the library\<close>

datatype pool_call =
  NewPool nat | CloseAll nat | Getconn nat | Commit | Rollback | Putconn nat bool | CloseConn | GaugeInc | GaugeDec

record pg_manager =
  pc_pool :: "nat option"
  pc_available :: "bool option"
  pc_reconnects :: nat
  pc_errors :: nat
  pc_next :: nat
  pc_calls :: "pool_call list"

definition pc_init :: pg_manager where
  "pc_init = \<lparr>pc_pool = None, pc_available = None, pc_reconnects = 0, pc_errors = 0, pc_next = 0, pc_calls = []\<rparr>"

definition call :: "pool_call list \<Rightarrow> pg_manager \<Rightarrow> pg_manager" where
  "call cs m = m\<lparr>pc_calls := pc_calls m @ cs\<rparr>"

section \<open>Pools\<close>

text \<open>The old pool is closed before the new one is made; when that fails, the closed one stays in place, marked as not available.\<close>

definition create_pool :: "bool \<Rightarrow> bool \<Rightarrow> pg_manager \<Rightarrow> pg_manager \<times> bool" where
  "create_pool dsn ok m =
     (if \<not> dsn then (m\<lparr>pc_available := Some False\<rparr>, False)
      else let m1 = call (case pc_pool m of None \<Rightarrow> [] | Some p \<Rightarrow> [CloseAll p]) m
           in if ok then ((call [NewPool (pc_next m1)] m1)\<lparr>pc_pool := Some (pc_next m1), pc_next := pc_next m1 + 1, pc_available := Some True\<rparr>, True)
              else (m1\<lparr>pc_available := Some False\<rparr>, False))"

definition ensure_pool :: "bool \<Rightarrow> bool \<Rightarrow> pg_manager \<Rightarrow> pg_manager \<times> bool" where
  "ensure_pool dsn ok m =
     (if \<not> dsn then (m, False)
      else if pc_pool m \<noteq> None \<and> pc_available m = Some True then (m, True)
      else create_pool dsn ok m)"

section \<open>Borrowing\<close>

definition PG_RECONNECT_ATTEMPTS :: nat where "PG_RECONNECT_ATTEMPTS = 5"

text \<open>How the calls of one attempt end: the creation of a pool, \<open>getconn\<close>, the probe of the connection, the return of a bad one.\<close>

record conn_try =
  ct_create :: bool
  ct_getconn :: "pyexc option"
  ct_probe :: "pyexc option"
  ct_put :: bool

definition count_error :: "pg_manager \<Rightarrow> pg_manager" where
  "count_error m = m\<lparr>pc_errors := pc_errors m + 1\<rparr>"

definition count_reconnect :: "pg_manager \<Rightarrow> pg_manager" where
  "count_reconnect m = m\<lparr>pc_reconnects := pc_reconnects m + 1, pc_available := Some False\<rparr>"

definition give_up :: "pg_manager \<Rightarrow> pg_manager \<times> nat result" where
  "give_up m = (m\<lparr>pc_available := Some False\<rparr>, Inl PGUnavailableError)"

text \<open>The attempts of \<open>get_connection\<close>, one per element; the answer is the pool that lent the connection.\<close>

fun acquire :: "bool \<Rightarrow> conn_try list \<Rightarrow> pg_manager \<Rightarrow> pg_manager \<times> nat result" where
  "acquire dsn [] m = give_up m"
| "acquire dsn (t # ts) m =
     (case ensure_pool dsn (ct_create t) m of
        (m1, False) \<Rightarrow> give_up m1
      | (m1, True) \<Rightarrow>
          (case pc_pool m1 of
             None \<Rightarrow> give_up m1
           | Some p \<Rightarrow>
               (case (ct_getconn t, ct_probe t) of
                  (None, None) \<Rightarrow> (call [Getconn p, GaugeInc] m1, Inr p)
                | (g, _) \<Rightarrow>
                    let m2 = count_error (if g = None then call ([Getconn p, Putconn p True] @ (if ct_put t then [] else [CloseConn])) m1 else m1)
                    in if ts = [] then give_up m2 else acquire dsn ts (count_reconnect m2))))"

definition get_connection :: "bool \<Rightarrow> conn_try list \<Rightarrow> pg_manager \<Rightarrow> pg_manager \<times> nat result" where
  "get_connection dsn ts m = acquire dsn (take (PG_RECONNECT_ATTEMPTS + 1) ts) m"

section \<open>The borrowed connection\<close>

record lent =
  ln_pool :: nat
  ln_returned :: bool

definition release :: "bool \<Rightarrow> bool \<Rightarrow> lent \<times> pg_manager \<Rightarrow> lent \<times> pg_manager" where
  "release put_ok close w =
     (case w of (l, m) \<Rightarrow>
        if ln_returned l then (l, m)
        else (l\<lparr>ln_returned := True\<rparr>, call ([Putconn (ln_pool l) close] @ (if put_ok then [] else [CloseConn]) @ [GaugeDec]) m))"

text \<open>How the calls at the end of a transaction end.\<close>

datatype commit_outcome = CommitOk | CommitFails pyexc bool

record finish_env =
  fe_rollback :: bool
  fe_commit :: commit_outcome
  fe_put :: bool

text \<open>\<open>finish\<close> answers with the error that escapes from it.\<close>

definition finish :: "finish_env \<Rightarrow> pyexc option \<Rightarrow> lent \<times> pg_manager \<Rightarrow> (lent \<times> pg_manager) \<times> pyexc option" where
  "finish e exc w =
     (if ln_returned (fst w) then (w, None)
      else if exc \<noteq> None then (release (fe_put e) (\<not> fe_rollback e) (fst w, call [Rollback] (snd w)), None)
      else case fe_commit e of
        CommitOk \<Rightarrow> (release (fe_put e) False (fst w, call [Commit] (snd w)), None)
      | CommitFails x _ \<Rightarrow> (release (fe_put e) True (fst w, call [Commit] (snd w)), Some x))"

text \<open>
  The \<open>with\<close> statement. The body maps the database to a new one and a value, or raises; \<open>between\<close> is what other threads do to the manager while
  the body runs. What the transaction did to the database stands when the commit took effect.
\<close>

definition with_connection ::
  "bool \<Rightarrow> conn_try list \<Rightarrow> (pg_manager \<Rightarrow> pg_manager) \<Rightarrow> finish_env \<Rightarrow> ('s \<Rightarrow> pyexc + ('s \<times> 'r)) \<Rightarrow> pg_manager \<times> 's \<Rightarrow> (pg_manager \<times> 's) \<times> 'r result" where
  "with_connection dsn ts between e body w =
     (case get_connection dsn ts (fst w) of
        (m1, Inl x) \<Rightarrow> ((m1, snd w), Inl x)
      | (m1, Inr p) \<Rightarrow>
          (let l = \<lparr>ln_pool = p, ln_returned = False\<rparr>; m2 = between m1
           in case body (snd w) of
                Inl x \<Rightarrow> ((snd (fst (finish e (Some x) (l, m2))), snd w), Inl x)
              | Inr (s', r) \<Rightarrow>
                  (case finish e None (l, m2) of
                     ((_, m3), None) \<Rightarrow> ((m3, s'), Inr r)
                   | ((_, m3), Some x) \<Rightarrow>
                       ((m3, case fe_commit e of CommitFails _ False \<Rightarrow> snd w | _ \<Rightarrow> s'), Inl x))))"

text \<open>
  A statement of the ledger. \<open>lost\<close> is a failure of the connection inside the body; a statement that violates a constraint raises there too. Every
  error comes out as \<open>PGUnavailableError\<close>.
\<close>

definition run_body :: "bool \<Rightarrow> ('s, 'r) stmt \<Rightarrow> 's \<Rightarrow> pyexc + ('s \<times> 'r)" where
  "run_body lost f s =
     (if lost then Inl (OtherException ''OperationalError'')
      else case f s of None \<Rightarrow> Inl (OtherException ''IntegrityError'') | Some (s', r) \<Rightarrow> Inr (s', r))"

definition pool_execute ::
  "bool \<Rightarrow> bool \<Rightarrow> conn_try list \<Rightarrow> (pg_manager \<Rightarrow> pg_manager) \<Rightarrow> finish_env \<Rightarrow> bool \<Rightarrow> ('s, 'r) stmt \<Rightarrow> pg_manager \<times> 's \<Rightarrow> (pg_manager \<times> 's) \<times> 'r result" where
  "pool_execute dsn create ts between e lost f w =
     (case ensure_pool dsn create (fst w) of
        (m1, False) \<Rightarrow> ((m1, snd w), Inl PGUnavailableError)
      | (m1, True) \<Rightarrow>
          (case with_connection dsn ts between e (run_body lost f) (m1, snd w) of
             (w', Inl _) \<Rightarrow> (w', Inl PGUnavailableError)
           | (w', Inr r) \<Rightarrow> (w', Inr r)))"

section \<open>Status\<close>

datatype pool_health = HDisabled | HUninitialized | HUnavailable | HHealthy | HUnreachable | HDegraded

definition health :: "bool \<Rightarrow> bool \<Rightarrow> conn_try list \<Rightarrow> finish_env \<Rightarrow> pyexc option \<Rightarrow> pg_manager \<Rightarrow> pg_manager \<times> pool_health" where
  "health dsn create ts e version m =
     (if \<not> dsn then (m, HDisabled)
      else if pc_available m = None then (m, HUninitialized)
      else case (if pc_available m = Some False then ensure_pool dsn create m else (m, True)) of
        (m1, False) \<Rightarrow> (m1, HUnavailable)
      | (m1, True) \<Rightarrow>
          (case with_connection dsn ts id e (\<lambda>_. case version of Some x \<Rightarrow> Inl x | None \<Rightarrow> Inr ((), ())) (m1, ()) of
             ((m2, _), Inr _) \<Rightarrow> (m2, HHealthy)
           | ((m2, _), Inl x) \<Rightarrow> (m2, if x = PGUnavailableError then HUnreachable else HDegraded)))"

definition shutdown :: "pg_manager \<Rightarrow> pg_manager" where
  "shutdown m = (call (case pc_pool m of None \<Rightarrow> [] | Some p \<Rightarrow> [CloseAll p]) m)\<lparr>pc_pool := None, pc_available := None\<rparr>"

section \<open>The books of a run\<close>

text \<open>Connections out of a pool, and the gauge.\<close>

definition borrowed :: "nat \<Rightarrow> pool_call list \<Rightarrow> int" where
  "borrowed p cs = int (count_list cs (Getconn p)) - int (count_list cs (Putconn p True) + count_list cs (Putconn p False))"

definition gauge :: "pool_call list \<Rightarrow> int" where
  "gauge cs = int (count_list cs GaugeInc) - int (count_list cs GaugeDec)"

lemma count_list_append' [simp]: "count_list (xs @ ys) x = count_list xs x + count_list ys x"
  by (induction xs) auto

lemma borrowed_simps [simp]: "borrowed p [] = 0" "borrowed p (xs @ ys) = borrowed p xs + borrowed p ys"
  by (simp_all add: borrowed_def)

lemma gauge_simps [simp]: "gauge [] = 0" "gauge (xs @ ys) = gauge xs + gauge ys"
  by (simp_all add: gauge_def)

lemma call_simps [simp]: "pc_calls (call cs m) = pc_calls m @ cs" "pc_pool (call cs m) = pc_pool m" "pc_available (call cs m) = pc_available m"
  "pc_next (call cs m) = pc_next m"
  by (simp_all add: call_def)

lemma count_simps [simp]: "pc_calls (count_reconnect m) = pc_calls m" "pc_calls (count_error m) = pc_calls m"
  by (simp_all add: count_reconnect_def count_error_def)

definition same_books :: "pool_call list \<Rightarrow> pool_call list \<Rightarrow> bool" where
  "same_books cs ds \<longleftrightarrow> (\<forall>p. borrowed p ds = borrowed p cs) \<and> gauge ds = gauge cs"

lemma same_books_refl [simp]: "same_books cs cs"
  by (simp add: same_books_def)

lemma same_books_trans: "same_books a b \<Longrightarrow> same_books b c \<Longrightarrow> same_books a c"
  by (simp add: same_books_def)

lemma create_pool_books: "same_books (pc_calls m) (pc_calls (fst (create_pool dsn ok m)))"
  by (auto simp: create_pool_def same_books_def Let_def borrowed_def gauge_def split: option.splits)

lemma ensure_pool_books: "same_books (pc_calls m) (pc_calls (fst (ensure_pool dsn ok m)))"
  by (simp add: ensure_pool_def create_pool_books)

lemma bad_probe_books: "same_books cs (cs @ [Getconn p, Putconn p True] @ (if ok then [] else [CloseConn]))"
  by (simp add: same_books_def borrowed_def gauge_def)

lemma acquire_books:
  assumes "acquire dsn ts m = (m', x)"
  shows "(\<forall>e. x = Inl e \<longrightarrow> e = PGUnavailableError \<and> same_books (pc_calls m) (pc_calls m'))
    \<and> (\<forall>p. x = Inr p \<longrightarrow> (\<exists>cs. pc_calls m' = cs @ [Getconn p, GaugeInc] \<and> same_books (pc_calls m) cs))"
  using assms
proof (induction ts arbitrary: m)
  case Nil
  then show ?case by (auto simp: give_up_def)
next
  case (Cons t ts)
  obtain m1 b where e: "ensure_pool dsn (ct_create t) m = (m1, b)" by (cases "ensure_pool dsn (ct_create t) m") auto
  have bk: "same_books (pc_calls m) (pc_calls m1)" using ensure_pool_books [of m dsn "ct_create t"] e by simp
  show ?case
  proof (cases "b \<and> pc_pool m1 \<noteq> None")
    case False
    then show ?thesis using Cons.prems e bk by (auto simp: give_up_def split: bool.splits)
  next
    case True
    then obtain p where p: "b" "pc_pool m1 = Some p" by auto
    show ?thesis
    proof (cases "ct_getconn t = None \<and> ct_probe t = None")
      case True
      then show ?thesis using Cons.prems e p bk by auto
    next
      case False
      let ?m2 = "count_error (if ct_getconn t = None then call ([Getconn p, Putconn p True] @ (if ct_put t then [] else [CloseConn])) m1 else m1)"
      have step: "acquire dsn (t # ts) m = (if ts = [] then give_up ?m2 else acquire dsn ts (count_reconnect ?m2))"
        using False e p by (cases "ct_getconn t"; cases "ct_probe t") (simp_all add: Let_def)
      have "same_books (pc_calls m1) (pc_calls ?m2)" using bad_probe_books [of "pc_calls m1" p "ct_put t"] by (simp add: count_error_def)
      then have b2: "same_books (pc_calls m) (pc_calls ?m2)" using bk same_books_trans by blast
      show ?thesis
      proof (cases "ts = []")
        case True
        then show ?thesis using Cons.prems b2 unfolding step by (auto simp: give_up_def)
      next
        case False
        then have "acquire dsn ts (count_reconnect ?m2) = (m', x)" using Cons.prems unfolding step by simp
        note ih = Cons.IH [OF this]
        have bc: "pc_calls (count_reconnect ?m2) = pc_calls ?m2" by (rule count_simps)
        show ?thesis using ih same_books_trans [OF b2] unfolding bc by metis
      qed
    qed
  qed
qed

lemma get_connection_books:
  assumes "get_connection dsn ts m = (m', x)"
  shows "(\<forall>e. x = Inl e \<longrightarrow> e = PGUnavailableError \<and> same_books (pc_calls m) (pc_calls m'))
    \<and> (\<forall>p. x = Inr p \<longrightarrow> (\<exists>cs. pc_calls m' = cs @ [Getconn p, GaugeInc] \<and> same_books (pc_calls m) cs))"
  using assms unfolding get_connection_def by (rule acquire_books)

text \<open>The end of a transaction returns the connection once, to its lender.\<close>

definition return_calls :: "finish_env \<Rightarrow> pyexc option \<Rightarrow> nat \<Rightarrow> pool_call list" where
  "return_calls e exc p =
     (if exc \<noteq> None then [Rollback] else [Commit])
     @ [Putconn p (if exc \<noteq> None then \<not> fe_rollback e else fe_commit e \<noteq> CommitOk)] @ (if fe_put e then [] else [CloseConn]) @ [GaugeDec]"

lemma finish_calls:
  "pc_calls (snd (fst (finish e exc (\<lparr>ln_pool = p, ln_returned = False\<rparr>, m)))) = pc_calls m @ return_calls e exc p"
  "snd (finish e exc (\<lparr>ln_pool = p, ln_returned = False\<rparr>, m)) = (case (exc, fe_commit e) of (None, CommitFails x _) \<Rightarrow> Some x | _ \<Rightarrow> None)"
  by (simp_all add: finish_def release_def return_calls_def split: commit_outcome.splits option.splits)

lemma lend_and_return:
  "same_books (cs @ os) ((cs @ [Getconn p, GaugeInc]) @ os @ return_calls e exc p)"
  by (simp add: same_books_def borrowed_def gauge_def return_calls_def)

lemma finish_twice:
  "finish e exc (fst (finish e' exc' w)) = (fst (finish e' exc' w), None)"
  by (cases w) (auto simp: finish_def release_def split: commit_outcome.splits)

lemma with_connection_result:
  "(\<exists>x. snd (with_connection dsn ts bt e body w) = Inl x \<and> snd (fst (with_connection dsn ts bt e body w)) = snd w)
   \<or> (\<exists>s' r x c. body (snd w) = Inr (s', r) \<and> fe_commit e = CommitFails x c \<and> snd (with_connection dsn ts bt e body w) = Inl x
        \<and> snd (fst (with_connection dsn ts bt e body w)) = s')
   \<or> (\<exists>s' r. body (snd w) = Inr (s', r) \<and> snd (with_connection dsn ts bt e body w) = Inr r \<and> snd (fst (with_connection dsn ts bt e body w)) = s')"
proof -
  obtain m1 x where g: "get_connection dsn ts (fst w) = (m1, x)" by (cases "get_connection dsn ts (fst w)") auto
  show ?thesis
  proof (cases x)
    case (Inr p)
    obtain w' y where f: "finish e None (\<lparr>ln_pool = p, ln_returned = False\<rparr>, bt m1) = (w', y)"
      by (cases "finish e None (\<lparr>ln_pool = p, ln_returned = False\<rparr>, bt m1)") auto
    have y: "y = (case fe_commit e of CommitFails x _ \<Rightarrow> Some x | _ \<Rightarrow> None)"
      using finish_calls(2) [of e None p "bt m1"] f by (simp split: commit_outcome.splits)
    obtain l m3 where w': "w' = (l, m3)" by (cases w')
    show ?thesis
    proof (cases "body (snd w)")
      case (Inl a)
      then show ?thesis using g Inr by (simp add: with_connection_def Let_def)
    next
      case (Inr b)
      obtain s' r where b: "b = (s', r)" by (cases b)
      show ?thesis
      proof (cases "fe_commit e")
        case CommitOk
        then show ?thesis using g Inr \<open>x = Inr p\<close> b f w' y by (simp add: with_connection_def Let_def)
      next
        case (CommitFails z c)
        then show ?thesis using g Inr \<open>x = Inr p\<close> b f w' y by (cases c) (auto simp: with_connection_def Let_def)
      qed
    qed
  qed (use g in \<open>simp add: with_connection_def\<close>)
qed

lemma with_connection_books:
  assumes "\<And>m. pc_calls (bt m) = pc_calls m @ others"
  shows "\<exists>os \<in> {[], others}. same_books (pc_calls (fst w) @ os) (pc_calls (fst (fst (with_connection dsn ts bt e body w))))"
proof -
  obtain m1 x where g: "get_connection dsn ts (fst w) = (m1, x)" by (cases "get_connection dsn ts (fst w)") auto
  note gb = get_connection_books [OF g]
  show ?thesis
  proof (cases x)
    case (Inl a)
    then show ?thesis using gb g by (simp add: with_connection_def)
  next
    case (Inr p)
    let ?l = "\<lparr>ln_pool = p, ln_returned = False\<rparr>"
    obtain cs where cs: "pc_calls m1 = cs @ [Getconn p, GaugeInc]" "same_books (pc_calls (fst w)) cs" using gb Inr by auto
    have calls: "\<exists>exc. pc_calls (fst (fst (with_connection dsn ts bt e body w))) = (cs @ [Getconn p, GaugeInc]) @ others @ return_calls e exc p"
    proof (cases "body (snd w)")
      case (Inl a)
      have "fst (fst (with_connection dsn ts bt e body w)) = snd (fst (finish e (Some a) (?l, bt m1)))"
        using g Inr Inl by (simp add: with_connection_def Let_def)
      then show ?thesis using finish_calls(1) [of e "Some a" p "bt m1"] assms cs(1) by auto
    next
      case (Inr b)
      have "fst (fst (with_connection dsn ts bt e body w)) = snd (fst (finish e None (?l, bt m1)))"
        using g Inr \<open>x = Inr p\<close> by (simp add: with_connection_def Let_def split: prod.splits option.splits)
      then show ?thesis using finish_calls(1) [of e None p "bt m1"] assms cs(1) by auto
    qed
    have "same_books (pc_calls (fst w) @ others) (cs @ others)" using cs(2) by (simp add: same_books_def)
    then show ?thesis using calls lend_and_return same_books_trans by (metis insertCI)
  qed
qed

section \<open>Statements\<close>

text \<open>
  The statement of a billing table run through the connection manager is the round trip that the tables' theories
  use: whatever the attempts, the probe, the body, the roll-back, the commit and the return of the connection give, database and answer are
  those of a statement that worked, that did not reach the database, or whose answer was lost.
\<close>

lemma pool_execute_outcome:
  "\<exists>oc. pg_run oc f (snd w) =
     (snd (fst (pool_execute dsn create ts between e lost f w)), snd (pool_execute dsn create ts between e lost f w))"
proof -
  obtain m1 b where en: "ensure_pool dsn create (fst w) = (m1, b)" by (cases "ensure_pool dsn create (fst w)") auto
  show ?thesis
  proof (cases b)
    case False
    then show ?thesis using en by (intro exI [of _ PgDown]) (simp add: pool_execute_def)
  next
    case True
    let ?x = "with_connection dsn ts between e (run_body lost f) (m1, snd w)"
    have px: "snd (fst (pool_execute dsn create ts between e lost f w)) = snd (fst ?x)"
      "snd (pool_execute dsn create ts between e lost f w) = (case snd ?x of Inl _ \<Rightarrow> Inl PGUnavailableError | Inr r \<Rightarrow> Inr r)"
      using en True by (auto simp: pool_execute_def split: prod.splits sum.splits)
    have body: "run_body lost f (snd w) = Inr (s', r) \<Longrightarrow> f (snd w) = Some (s', r)" for s' r
      by (auto simp: run_body_def split: if_splits option.splits)
    from with_connection_result [of dsn ts between e "run_body lost f" "(m1, snd w)"] consider
        (raised) z where "snd ?x = Inl z" "snd (fst ?x) = snd w"
      | (unknown) s' r z where "f (snd w) = Some (s', r)" "snd ?x = Inl z" "snd (fst ?x) = s'"
      | (worked) s' r where "f (snd w) = Some (s', r)" "snd ?x = Inr r" "snd (fst ?x) = s'"
      using body by auto
    then show ?thesis
    proof cases
      case raised
      then show ?thesis using px by (intro exI [of _ PgDown]) simp
    next
      case unknown
      then show ?thesis using px by (intro exI [of _ PgLost]) simp
    next
      case worked
      then show ?thesis using px by (intro exI [of _ PgOk]) simp
    qed
  qed
qed

section \<open>Claims\<close>

text \<open>C25: Connections are not lost and not returned twice. On every path of a transaction each pool gets back exactly the
  connections it lent and the gauge of active connections returns to its value, while other threads add calls of their own, and even when they
  replace the pool.\<close>

theorem connections_returned_once:
  assumes "\<And>m. pc_calls (between m) = pc_calls m @ others"
  shows "\<exists>os \<in> {[], others}. \<forall>p.
    borrowed p (pc_calls (fst (fst (with_connection dsn ts between e body w)))) = borrowed p (pc_calls (fst w)) + borrowed p os
    \<and> gauge (pc_calls (fst (fst (with_connection dsn ts between e body w)))) = gauge (pc_calls (fst w)) + gauge os"
proof -
  obtain os where "os \<in> {[], others}" "same_books (pc_calls (fst w) @ os) (pc_calls (fst (fst (with_connection dsn ts between e body w))))"
    using with_connection_books [OF assms] by blast
  then show ?thesis by (intro bexI [of _ os]) (simp_all add: same_books_def)
qed

theorem connections_returned_once_witness:
  "\<exists>os \<in> {[], [NewPool 7]}. \<forall>p.
    borrowed p (pc_calls (fst (fst (with_connection True [\<lparr>ct_create = True, ct_getconn = None, ct_probe = None, ct_put = True\<rparr>]
       (\<lambda>m. (call [NewPool 7] m)\<lparr>pc_pool := Some 7\<rparr>) \<lparr>fe_rollback = True, fe_commit = CommitOk, fe_put = False\<rparr> (\<lambda>s. Inr (s, s)) (pc_init, 0 :: nat)))))
      = borrowed p (pc_calls (fst (pc_init, 0 :: nat))) + borrowed p os
    \<and> gauge (pc_calls (fst (fst (with_connection True [\<lparr>ct_create = True, ct_getconn = None, ct_probe = None, ct_put = True\<rparr>]
       (\<lambda>m. (call [NewPool 7] m)\<lparr>pc_pool := Some 7\<rparr>) \<lparr>fe_rollback = True, fe_commit = CommitOk, fe_put = False\<rparr> (\<lambda>s. Inr (s, s)) (pc_init, 0 :: nat)))))
      = gauge (pc_calls (fst (pc_init, 0 :: nat))) + gauge os"
  by (rule connections_returned_once) simp

text \<open>A connection whose transaction did not end well is not handed out again: after a failed commit, or a failed roll-back, it is
  returned to be closed; and the error of a commit is never hidden.\<close>

theorem failed_commit_discards:
  assumes "fe_commit e = CommitFails x c"
  shows "Putconn p True \<in> set (drop (length (pc_calls m)) (pc_calls (snd (fst (finish e None (\<lparr>ln_pool = p, ln_returned = False\<rparr>, m))))))
    \<and> snd (finish e None (\<lparr>ln_pool = p, ln_returned = False\<rparr>, m)) = Some x"
  using assms by (simp add: finish_calls return_calls_def)

end
