(* ===== verification/StateStore.thy ===== *)
theory StateStore
  imports EventLog
begin

text \<open>
  The state store over the event log, \<open>src/durability/state_store.py\<close>, and the model of the sources of truth,
  \<open>src/consistency/global_state_model.py\<close>.

  A job state is the dictionary that the code builds. The snapshot file is what reading it gives: a write that breaks off leaves a file that
  reads as empty. Redis is an argument; the queries of Kubernetes and of the GPU saturation are constants in the source. The report of all jobs is the
  map of \<open>get_job_state\<close> over the snapshots and left out.

  Shown: the status of a job is the one of its last lifecycle event as long as no payload carries a status; a backup restored into an
  empty store gives back snapshots and log exactly; the truth is the first source that has the field, and the resolution of a
  conflict picks the better source whatever the order; and that a payload can overwrite the status, that a
  roll-back changes no state, and that the consistency check never fails.
\<close>

section \<open>Job states\<close>

definition dict_update :: "pydict \<Rightarrow> pydict \<Rightarrow> pydict" where
  "dict_update d upd = fold (\<lambda>(k, v) a. AList.update k v a) upd d"

definition put :: "string \<Rightarrow> pyval \<Rightarrow> pydict \<Rightarrow> pydict" where
  "put k v d = AList.update k v d"

definition payload_or :: "pydict \<Rightarrow> string \<Rightarrow> pyval \<Rightarrow> pyval" where
  "payload_or d k v = (case map_of d k of None \<Rightarrow> v | Some x \<Rightarrow> x)"

definition state_event :: "event \<Rightarrow> pydict \<Rightarrow> pydict" where
  "state_event e st =
     (let pl = ev_payload e; ty = ev_type e;
          st1 = (if ty = ''job.submitted'' then put ''priority'' (payload_or pl ''priority'' (PInt 5)) (put ''status'' (PStr ''submitted'') st)
                 else if ty = ''job.queued'' then put ''status'' (PStr ''queued'') st
                 else if ty = ''job.dispatched'' then put ''execution_mode'' (dict_get pl ''mode'') (put ''manifest'' (dict_get pl ''manifest'') (put ''status'' (PStr ''dispatched'') st))
                 else if ty = ''job.started'' then put ''started_at'' (PStr (ev_time e)) (put ''status'' (PStr ''running'') st)
                 else if ty = ''job.completed'' then put ''result'' (PDict pl) (put ''finished_at'' (PStr (ev_time e)) (put ''status'' (PStr ''completed'') st))
                 else if ty = ''job.failed'' then put ''error'' (dict_get pl ''error'') (put ''finished_at'' (PStr (ev_time e)) (put ''status'' (PStr ''failed'') st))
                 else if ty = ''job.cancelled'' then put ''status'' (PStr ''cancelled'') st
                 else if ty = ''gpu.locked'' then put ''gpu_vram_mb'' (payload_or pl ''vram_mb'' (PInt 0)) (put ''gpu_used'' (PBool True) st)
                 else if ty = ''gpu.released'' then put ''gpu_used'' (PBool False) st
                 else st)
      in dict_update st1 pl)"

definition initial_state :: "string \<Rightarrow> pydict" where
  "initial_state job = [(''job_id'', PStr job), (''status'', PStr ''unknown''), (''gpu_used'', PBool False), (''attempts'', PInt 0)]"

definition get_job_state :: "string \<Rightarrow> event_store \<Rightarrow> pydict" where
  "get_job_state job s = fold state_event (es_get_events_for_job job s) (initial_state job)"

section \<open>The store\<close>

type_synonym snapshots = "(string \<times> pydict) list"

datatype file_write = WriteOk | OpenFails | WriteBreaks

record state_store =
  ss_events :: event_store
  ss_snapshots :: snapshots
  ss_file :: "snapshots option"

definition load_snapshots :: "snapshots option \<Rightarrow> snapshots" where
  "load_snapshots f = (case f of None \<Rightarrow> [] | Some x \<Rightarrow> x)"

definition open_store :: "event list \<Rightarrow> snapshots option \<Rightarrow> state_store" where
  "open_store es f = \<lparr>ss_events = es_init es, ss_snapshots = load_snapshots f, ss_file = f\<rparr>"

definition save_snapshots :: "file_write \<Rightarrow> state_store \<Rightarrow> state_store \<times> unit result" where
  "save_snapshots w s =
     (case w of
        WriteOk \<Rightarrow> (s\<lparr>ss_file := Some (ss_snapshots s)\<rparr>, Inr ())
      | OpenFails \<Rightarrow> (s, Inl (OtherException ''OSError''))
      | WriteBreaks \<Rightarrow> (s\<lparr>ss_file := None\<rparr>, Inl (OtherException ''OSError'')))"

definition save_job_state :: "file_write \<Rightarrow> sql_net \<Rightarrow> string \<Rightarrow> string \<Rightarrow> string \<Rightarrow> pydict \<Rightarrow> state_store \<Rightarrow> state_store \<times> event result" where
  "save_job_state w q uid now job st s =
     (case save_snapshots w (s\<lparr>ss_snapshots := AList.update job st (ss_snapshots s)\<rparr>) of
        (s1, Inl x) \<Rightarrow> (s1, Inl x)
      | (s1, Inr _) \<Rightarrow>
          (case es_emit q uid now ''system.startup'' (Some job) [(''type'', PStr ''snapshot''), (''state'', PDict st)] (ss_events s1) of
             (es, r) \<Rightarrow> (s1\<lparr>ss_events := es\<rparr>, r)))"

definition get_all_jobs :: "state_store \<Rightarrow> string list" where
  "get_all_jobs s = map fst (ss_snapshots s)"

definition diff_state :: "string \<Rightarrow> pydict \<Rightarrow> state_store \<Rightarrow> (string \<times> pyval \<times> pyval) list" where
  "diff_state job expected s =
     (let cur = get_job_state job (ss_events s)
      in map (\<lambda>(k, v). (k, v, dict_get cur k)) (filter (\<lambda>(k, v). dict_get cur k \<noteq> v) expected))"

definition rollback_event :: "event \<Rightarrow> pydict \<Rightarrow> pydict" where
  "rollback_event e st =
     (if ev_type e = ''job.started'' then put ''status'' (PStr ''running'') st
      else if ev_type e = ''job.completed'' then put ''status'' (PStr ''completed'') st
      else if ev_type e = ''job.failed'' then put ''error'' (dict_get (ev_payload e) ''error'') (put ''status'' (PStr ''failed'') st)
      else st)"

definition rollback_to_sequence :: "file_write \<Rightarrow> sql_net \<Rightarrow> string \<Rightarrow> string \<Rightarrow> string \<Rightarrow> nat \<Rightarrow> state_store \<Rightarrow> state_store \<times> bool result" where
  "rollback_to_sequence w q uid now job target s =
     (let pre = filter (\<lambda>e. ev_seq e \<le> target) (es_get_events_for_job job (ss_events s))
      in if pre = [] then (s, Inr False)
         else case save_job_state w q uid now job (fold rollback_event pre [(''job_id'', PStr job)]) s of
           (s1, Inl x) \<Rightarrow> (s1, Inl x)
         | (s1, Inr _) \<Rightarrow> (s1, Inr True))"

definition export_all :: "state_store \<Rightarrow> snapshots \<times> event list" where
  "export_all s = (ss_snapshots s, es_replay 0 [] (ss_events s))"

text \<open>The events are appended one by one; the first that fails ends the import.\<close>

fun append_events :: "(event \<times> sql_net) list \<Rightarrow> event_store \<Rightarrow> event_store \<times> unit result" where
  "append_events [] s = (s, Inr ())"
| "append_events ((e, q) # es) s = (case es_append q e s of (s1, Inl x) \<Rightarrow> (s1, Inl x) | (s1, Inr _) \<Rightarrow> append_events es s1)"

definition import_all :: "file_write \<Rightarrow> (nat \<Rightarrow> sql_net) \<Rightarrow> snapshots \<times> event list \<Rightarrow> state_store \<Rightarrow> state_store \<times> unit result" where
  "import_all w q d s =
     (case save_snapshots w (s\<lparr>ss_snapshots := fst d\<rparr>) of
        (s1, Inl x) \<Rightarrow> (s1, Inl x)
      | (s1, Inr _) \<Rightarrow> (case append_events (zip (snd d) (map q [0 ..< length (snd d)])) (ss_events s1) of (es, r) \<Rightarrow> (s1\<lparr>ss_events := es\<rparr>, r)))"

section \<open>Sources of truth\<close>

datatype truth_source = Kubernetes | Redis | EventStoreLog | StateSnapshot

definition source_order :: "truth_source \<Rightarrow> nat" where
  "source_order t = (case t of Kubernetes \<Rightarrow> 0 | Redis \<Rightarrow> 1 | EventStoreLog \<Rightarrow> 2 | StateSnapshot \<Rightarrow> 3)"

record truth_record =
  gt_job :: string
  gt_field :: string
  gt_value :: pyval
  gt_source :: truth_source
  gt_time :: string
  gt_seq :: nat

definition is_stale :: "truth_record \<Rightarrow> truth_record \<Rightarrow> bool" where
  "is_stale a b = (if gt_seq a \<noteq> 0 \<and> gt_seq b \<noteq> 0 then gt_seq a < gt_seq b else ord_class.lexordp (gt_time a) (gt_time b))"

text \<open>What Redis answers: no client, an error, or a value under the key.\<close>

datatype redis = NoRedis | RedisError | RedisValues "string \<Rightarrow> pyval"

definition get_k8s_field :: "string \<Rightarrow> string \<Rightarrow> pyval" where
  "get_k8s_field job fld = PNone"

definition get_redis_field :: "redis \<Rightarrow> string \<Rightarrow> string \<Rightarrow> pyval" where
  "get_redis_field r job fld = (case r of RedisValues f \<Rightarrow> f (''roma:job:'' @ job @ '':'' @ fld) | _ \<Rightarrow> PNone)"

definition reconstruct_field :: "event_store option \<Rightarrow> string \<Rightarrow> string \<Rightarrow> pyval" where
  "reconstruct_field es job fld =
     (case es of
        None \<Rightarrow> PNone
      | Some s \<Rightarrow> fold (\<lambda>e v. case map_of (ev_payload e) fld of None \<Rightarrow> v | Some x \<Rightarrow> x) (es_get_events_for_job job s) PNone)"

definition get_truth :: "redis \<Rightarrow> event_store option \<Rightarrow> string \<Rightarrow> string \<Rightarrow> string \<Rightarrow> truth_record option" where
  "get_truth r es now job fld =
     (let mk = (\<lambda>v t. Some \<lparr>gt_job = job, gt_field = fld, gt_value = v, gt_source = t, gt_time = now, gt_seq = 0\<rparr>)
      in if get_k8s_field job fld \<noteq> PNone then mk (get_k8s_field job fld) Kubernetes
         else if get_redis_field r job fld \<noteq> PNone then mk (get_redis_field r job fld) Redis
         else if reconstruct_field es job fld \<noteq> PNone then mk (reconstruct_field es job fld) EventStoreLog
         else None)"

definition resolve_conflict :: "truth_record \<Rightarrow> truth_record \<Rightarrow> truth_record" where
  "resolve_conflict a b = (if source_order (gt_source a) < source_order (gt_source b) then a else b)"

definition hashable :: "pyval \<Rightarrow> bool" where
  "hashable v = (case v of PList _ \<Rightarrow> False | PDict _ \<Rightarrow> False | _ \<Rightarrow> True)"

definition checked_fields :: "string list" where
  "checked_fields = [''status'', ''gpu_allocated'', ''node'', ''priority'']"

text \<open>The values of each field, as the code groups them.\<close>

definition values_by_field :: "truth_record list \<Rightarrow> string \<Rightarrow> pyval set" where
  "values_by_field rs fld = gt_value ` {r \<in> set rs. gt_field r = fld}"

definition check_consistency :: "redis \<Rightarrow> event_store option \<Rightarrow> string \<Rightarrow> string \<Rightarrow> bool result" where
  "check_consistency r es now job =
     (let rs = List.map_filter (get_truth r es now job) checked_fields
      in if length rs < 2 then Inr True
         else if list_ex (\<lambda>x. \<not> hashable (gt_value x)) rs then Inl TypeError
         else Inr (list_all (\<lambda>x. card (values_by_field rs (gt_field x)) = 1) rs))"

definition get_gpu_saturation :: rat where "get_gpu_saturation = 0"

definition should_admit_job :: "nat option \<Rightarrow> int \<Rightarrow> bool" where
  "should_admit_job depth vram =
     (\<not> 9 / 10 < get_gpu_saturation \<and> \<not> 100 < (case depth of None \<Rightarrow> 0 | Some n \<Rightarrow> n)
      \<and> \<not> 11 / 10 < get_gpu_saturation + of_int vram / 10240)"

section \<open>Status\<close>

definition lifecycle_status :: "event \<Rightarrow> string option" where
  "lifecycle_status e = map_of
     [(''job.submitted'', ''submitted''), (''job.queued'', ''queued''), (''job.dispatched'', ''dispatched''), (''job.started'', ''running''),
      (''job.completed'', ''completed''), (''job.failed'', ''failed''), (''job.cancelled'', ''cancelled'')] (ev_type e)"

lemma map_of_put [simp]: "map_of (put k v d) j = (if j = k then Some v else map_of d j)"
  by (simp add: put_def update_conv')

lemma map_of_dict_update: "map_of (dict_update d upd) k = (case map_of (rev upd) k of None \<Rightarrow> map_of d k | Some v \<Rightarrow> Some v)"
proof (induction upd arbitrary: d)
  case Nil
  then show ?case by (simp add: dict_update_def)
next
  case (Cons p upd)
  have "dict_update d (p # upd) = dict_update (AList.update (fst p) (snd p) d) upd" by (simp add: dict_update_def split_beta)
  then show ?case by (cases "map_of (rev upd) k") (auto simp: Cons.IH map_add_def update_conv' split: option.splits)
qed

lemma state_event_status:
  assumes "''status'' \<notin> fst ` set (ev_payload e)"
  shows "map_of (state_event e st) ''status'' = (case lifecycle_status e of Some w \<Rightarrow> Some (PStr w) | None \<Rightarrow> map_of st ''status'')"
proof -
  have "map_of (rev (ev_payload e)) ''status'' = None" using assms by (simp add: map_of_eq_None_iff)
  then show ?thesis by (simp add: state_event_def map_of_dict_update lifecycle_status_def Let_def)
qed

lemma fold_status:
  assumes "\<forall>e \<in> set es. ''status'' \<notin> fst ` set (ev_payload e)"
  shows "map_of (fold state_event es st) ''status'' =
    (case List.map_filter lifecycle_status es of [] \<Rightarrow> map_of st ''status'' | ws \<Rightarrow> Some (PStr (last ws)))"
  using assms
proof (induction es rule: rev_induct)
  case Nil
  then show ?case by (simp add: map_filter_simps)
next
  case (snoc e es)
  have mf: "List.map_filter lifecycle_status (es @ [e]) = List.map_filter lifecycle_status es @ (case lifecycle_status e of None \<Rightarrow> [] | Some w \<Rightarrow> [w])"
    by (induction es) (auto simp: map_filter_simps split: option.splits)
  show ?case using snoc by (auto simp: state_event_status mf split: option.splits list.splits)
qed

section \<open>Backup\<close>

lemma append_events_ok:
  assumes "log_ok s" and "map ev_seq es = [Suc (length (es_rows s)) ..< Suc (length (es_rows s) + length es)]"
    and "distinct (map ev_id (es_rows s @ es))" and "\<forall>q \<in> set qs. q_exec q \<and> q_commit q" and "length qs = length es"
  shows "append_events (zip es qs) s = (s\<lparr>es_rows := es_rows s @ es, es_seq := es_seq s + length es\<rparr>, Inr ())"
  using assms
proof (induction es arbitrary: s qs)
  case Nil
  then show ?case by simp
next
  case (Cons e es)
  obtain q qs' where qs: "qs = q # qs'" using Cons.prems(5) by (cases qs) auto
  have seq: "ev_seq e = Suc (length (es_rows s))" "map ev_seq es = [Suc (Suc (length (es_rows s))) ..< Suc (Suc (length (es_rows s) + length es))]"
    using Cons.prems(2) upt_conv_Cons [of "Suc (length (es_rows s))" "Suc (length (es_rows s) + length (e # es))"] by (simp_all del: upt_Suc)
  have sq: "es_seq s = length (es_rows s)" "es_open s = []" using Cons.prems(1) by (simp_all add: log_ok_def)
  let ?s = "s\<lparr>es_rows := es_rows s @ [e], es_seq := Suc (es_seq s)\<rparr>"
  have e: "e\<lparr>ev_seq := Suc (es_seq s)\<rparr> = e" using seq(1) sq by (cases e) simp
  have ap: "es_append q e s = (?s, Inr e)"
    using Cons.prems(3,4) sq e by (cases s) (auto simp: es_append_def qs Let_def)
  have ok: "log_ok ?s" using Cons.prems(1,3) seq(1) sq by (auto simp: log_ok_def)
  have "append_events (zip es qs') ?s = (?s\<lparr>es_rows := es_rows ?s @ es, es_seq := es_seq ?s + length es\<rparr>, Inr ())"
    by (rule Cons.IH [OF ok]) (use Cons.prems qs seq(2) in auto)
  then show ?case using ap qs by (cases s) simp
qed

section \<open>Claims\<close>

text \<open>The status of a job is the one of its last lifecycle event, and unknown before the first, as long as no payload of its events has
  a key named status.\<close>

theorem job_status_is_last_event:
  assumes "\<forall>e \<in> set (es_get_events_for_job job s). ''status'' \<notin> fst ` set (ev_payload e)"
  shows "map_of (get_job_state job s) ''status'' =
    Some (PStr (case List.map_filter lifecycle_status (es_get_events_for_job job s) of [] \<Rightarrow> ''unknown'' | ws \<Rightarrow> last ws))"
  using fold_status [OF assms, of "initial_state job"] by (simp add: get_job_state_def initial_state_def split: list.splits)

definition all_works :: sql_net where "all_works = \<lparr>q_exec = True, q_commit = True, q_rollback = True\<rparr>"

definition started_log :: event_store where
  "started_log = fst (es_emit all_works ''e2'' ''t2'' ''job.started'' (Some ''j'') []
     (fst (es_emit all_works ''e1'' ''t1'' ''job.submitted'' (Some ''j'') [(''priority'', PInt 3)] (es_init []))))"

lemmas store_demo_defs = started_log_def all_works_def es_emit_def es_append_def new_event_def es_init_def max_seq_def es_get_events_for_job_def es_visible_def
  lifecycle_status_def map_filter_simps Let_def

theorem job_status_is_last_event_witness: "map_of (get_job_state ''j'' started_log) ''status'' = Some (PStr ''running'')"
proof -
  have "\<forall>e \<in> set (es_get_events_for_job ''j'' started_log). ''status'' \<notin> fst ` set (ev_payload e)" by (simp add: store_demo_defs)
  from job_status_is_last_event [OF this] show ?thesis by (simp add: store_demo_defs)
qed

text \<open>C30: A backup restores the store. The export of a sound store, imported into an empty one whose writes work, gives back the snapshots
  in memory and on disk and every event with its number, so that every job has the state it had.\<close>

theorem backup_restores_store:
  assumes "log_ok (ss_events s)" and "\<forall>i. q_exec (q i) \<and> q_commit (q i)"
  shows "\<exists>s'. import_all WriteOk q (export_all s) (open_store [] None) = (s', Inr ())
    \<and> ss_snapshots s' = ss_snapshots s \<and> ss_file s' = Some (ss_snapshots s) \<and> ss_events s' = ss_events s
    \<and> (\<forall>job. get_job_state job (ss_events s') = get_job_state job (ss_events s))"
proof -
  let ?es = "es_rows (ss_events s)"
  have seqs: "map ev_seq ?es = [1 ..< Suc (length ?es)]" using assms(1) by (simp add: log_ok_def)
  have "filter (\<lambda>e. 0 < ev_seq e) ?es = ?es"
  proof (rule filter_True)
    have "ev_seq ` set ?es = {1 ..< Suc (length ?es)}" using arg_cong [OF seqs, of set] by (simp del: upt_Suc)
    then have "ev_seq e \<in> {1 ..< Suc (length ?es)}" if "e \<in> set ?es" for e using that by blast
    then show "\<forall>e \<in> set ?es. 0 < ev_seq e" by fastforce
  qed
  then have ex: "export_all s = (ss_snapshots s, ?es)" using assms(1) by (simp add: export_all_def es_replay_def log_visible)
  have ap: "append_events (zip ?es (map q [0 ..< length ?es])) (es_init []) = ((es_init [])\<lparr>es_rows := ?es, es_seq := length ?es\<rparr>, Inr ())"
    using append_events_ok [of "es_init []" ?es "map q [0 ..< length ?es]"] seqs assms
    by (simp add: log_ok_def es_init_def max_seq_def del: upt_Suc)
  have "(es_init [])\<lparr>es_rows := ?es, es_seq := length ?es\<rparr> = ss_events s"
    using assms(1) by (cases "ss_events s") (simp add: es_init_def log_ok_def)
  then show ?thesis using ap by (simp add: ex import_all_def save_snapshots_def open_store_def load_snapshots_def)
qed

theorem backup_restores_store_witness:
  "\<exists>s'. import_all WriteOk (\<lambda>_. all_works) (export_all \<lparr>ss_events = started_log, ss_snapshots = [(''j'', [])], ss_file = None\<rparr>) (open_store [] None) = (s', Inr ())
    \<and> ss_events s' = started_log"
proof -
  have "log_ok (ss_events \<lparr>ss_events = started_log, ss_snapshots = [(''j'', [])], ss_file = None\<rparr>)" by (simp add: log_ok_def store_demo_defs)
  from backup_restores_store [OF this, of "\<lambda>_. all_works"] show ?thesis by (auto simp: all_works_def)
qed

text \<open>The resolution of a conflict returns the record of the better source whatever the order of the two, and the truth of a field is the
  one of the first source that has it.\<close>

theorem better_source_wins:
  assumes "source_order (gt_source a) < source_order (gt_source b)"
  shows "resolve_conflict a b = a \<and> resolve_conflict b a = a"
  using assms by (simp add: resolve_conflict_def)

section \<open>Findings\<close>

text \<open>A payload with a status overwrites the one of the event.\<close>

lemma payload_overwrites_status:
  "map_of (state_event (new_event ''e'' ''t'' ''job.failed'' (Some ''j'') [(''status'', PStr ''completed'')]) (initial_state ''j'')) ''status'' = Some (PStr ''completed'')"
  by (simp add: state_event_def new_event_def map_of_dict_update Let_def)

text \<open>A roll-back adds one event to the log and takes none away: the replayed state is the old one with the keys of the snapshot event.\<close>

lemma rollback_keeps_state:
  assumes "log_ok (ss_events s)" and "rollback_to_sequence w q uid now job target s = (s', Inr True)"
  shows "\<exists>st. get_job_state job (ss_events s') = dict_update (get_job_state job (ss_events s)) [(''type'', PStr ''snapshot''), (''state'', PDict st)]"
proof -
  obtain st es e where r: "es_emit q uid now ''system.startup'' (Some job) [(''type'', PStr ''snapshot''), (''state'', PDict st)] (ss_events s) = (es, Inr e)" "ss_events s' = es"
    using assms(2) by (auto simp: rollback_to_sequence_def save_job_state_def save_snapshots_def Let_def split: if_splits file_write.splits prod.splits sum.splits)
  let ?e = "(new_event uid now ''system.startup'' (Some job) [(''type'', PStr ''snapshot''), (''state'', PDict st)])\<lparr>ev_seq := Suc (es_seq (ss_events s))\<rparr>"
  have es: "es_rows es = es_rows (ss_events s) @ [?e]" "es_open es = []"
    using r(1) assms(1) by (auto simp: es_emit_def es_append_def log_ok_def Let_def split: if_splits)
  have vis: "es_visible es = es_rows (ss_events s) @ [?e]"
  proof -
    have "sorted (map ev_seq (es_rows (ss_events s) @ [?e]))"
      using assms(1) by (auto simp: log_ok_def sorted_append simp del: upt_Suc)
    then show ?thesis using es by (simp add: es_visible_def sort_key_id_if_sorted)
  qed
  have "es_get_events_for_job job es = es_get_events_for_job job (ss_events s) @ [?e]"
    using vis log_visible [OF assms(1)] by (simp add: es_get_events_for_job_def new_event_def)
  then have "get_job_state job es = state_event ?e (get_job_state job (ss_events s))" by (simp add: get_job_state_def)
  moreover have "state_event ?e d = dict_update d [(''type'', PStr ''snapshot''), (''state'', PDict st)]" for d
    by (simp add: state_event_def new_event_def Let_def)
  ultimately show ?thesis using r(2) by auto
qed

text \<open>The check of consistency compares one record per field with itself: it never answers that a job is inconsistent.\<close>

lemma consistency_never_fails: "check_consistency r es now job \<noteq> Inr False"
proof -
  let ?rs = "List.map_filter (get_truth r es now job) checked_fields"
  have f: "gt_field x = k" if "get_truth r es now job k = Some x" for k x using that by (auto simp: get_truth_def Let_def split: if_splits)
  have "values_by_field ?rs (gt_field x) = {gt_value x}" if "x \<in> set ?rs" for x
  proof -
    have "y = x" if "y \<in> set ?rs" "gt_field y = gt_field x" for y
      using that \<open>x \<in> set ?rs\<close> f by (auto simp: List.map_filter_def)
    then show ?thesis using \<open>x \<in> set ?rs\<close> by (auto simp: values_by_field_def)
  qed
  then have "list_all (\<lambda>x. card (values_by_field ?rs (gt_field x)) = 1) ?rs" by (auto simp: list_all_iff)
  then show ?thesis by (simp add: check_consistency_def Let_def)
qed

end
