(* ===== verification/Backends.thy ===== *)
theory Backends
  imports Quota "HOL-Library.Sublist"
begin

text \<open>
  The execution backends: the choice of the backend in \<open>src/backends/dispatcher.py\<close>, rented machines in \<open>src/backends/vastai.py\<close>,
  the own GPU worker in \<open>src/backends/gpu_worker_backend.py\<close>, \<open>src/backends/local.py\<close> and \<open>src/backends/runpod.py\<close>.

  Every HTTP call is an argument that says how it ends: with the text of an error in lower case, or with what the answer holds; an answer that cannot be
  read is an error. Prices are rationals. A destruction of a machine is recorded in a list. Waiting between attempts and log lines are left out.

  Shown: a machine is rented only at the lowest price on offer and within the limit of its tier, and its contract is recorded under the job; a
  dispatch that fails has tried every model of the chain; the own worker is used only when it reports a GPU; and that the list of instances always raises
  when there is one, so that a cancelled job leaves its machine running, and that a call for another backend forgets every contract.
\<close>

section \<open>Jobs and backends\<close>

record job_context =
  jc_job :: string
  jc_tenant :: string
  jc_instance_type :: string
  jc_image :: string

definition docker_image :: "string option \<Rightarrow> job_context \<Rightarrow> string" where
  "docker_image env c =
     (if jc_image c \<noteq> [] then jc_image c else case env of None \<Rightarrow> ''nvidia/cuda:12.1-runtime-ubuntu22.04'' | Some i \<Rightarrow> i)"

text \<open>A backend object; the one for rented machines keeps the contract of each job.\<close>

type_synonym contracts = "(string \<times> int) list"

datatype backend_object = LocalBackend | VastaiBackend contracts | RunpodBackend | GpuWorkerBackend

record backend_env =
  be_default :: "string option"
  be_vast_key :: bool
  be_runpod_key :: bool
  be_runpod_flag :: bool

record backend_cell =
  bc_object :: "backend_object option"
  bc_name :: string

definition bc_init :: backend_cell where "bc_init = \<lparr>bc_object = None, bc_name = []\<rparr>"

definition wanted_name :: "backend_env \<Rightarrow> string option \<Rightarrow> string" where
  "wanted_name e name =
     (if truthy name then the name
      else case be_default e of Some w \<Rightarrow> if w = [] then ''local'' else w | None \<Rightarrow> ''local'')"

definition get_backend :: "backend_env \<Rightarrow> string option \<Rightarrow> backend_cell \<Rightarrow> backend_cell \<times> backend_object" where
  "get_backend e name c =
     (let cur = wanted_name e name;
          mk = (\<lambda>n b. (\<lparr>bc_object = Some b, bc_name = n\<rparr>, b));
          fresh = (if cur = ''vastai'' then (if be_vast_key e then mk cur (VastaiBackend []) else mk ''local'' LocalBackend)
                   else if cur = ''runpod'' \<and> be_runpod_flag e then (if be_runpod_key e then mk cur RunpodBackend else mk ''local'' LocalBackend)
                   else if cur = ''gpu_worker'' then mk cur GpuWorkerBackend
                   else mk cur LocalBackend)
      in case bc_object c of Some b \<Rightarrow> if bc_name c = cur then (c, b) else fresh | None \<Rightarrow> fresh)"

section \<open>Rented machines\<close>

record offer =
  of_ask :: int
  of_instance :: int
  of_gpu :: string
  of_price :: rat
  of_rentable :: bool

record gpu_tier =
  gp_types :: "string list"
  gp_max_price :: rat
  gp_min_ram :: int

definition GPU_TIERS :: "gpu_tier list" where
  "GPU_TIERS =
     [\<lparr>gp_types = [''RTX_3060'', ''RTX_3070'', ''RTX_4060''], gp_max_price = 3 / 10, gp_min_ram = 8192\<rparr>,
      \<lparr>gp_types = [''RTX_3090'', ''RTX_4070'', ''RTX_4090''], gp_max_price = 6 / 10, gp_min_ram = 12288\<rparr>,
      \<lparr>gp_types = [''A100'', ''A6000'', ''H100'', ''A40'', ''L40S''], gp_max_price = 2, gp_min_ram = 24576\<rparr>]"

definition GPU_FALLBACK_CHAIN :: "string list" where
  "GPU_FALLBACK_CHAIN = [''RTX_4090'', ''RTX_4080'', ''RTX_3090'']"

text \<open>\<open>gpus\<close> is the configured list, split at commas and stripped.\<close>

definition resolve_gpu_tier :: "string list \<Rightarrow> rat \<Rightarrow> gpu_tier" where
  "resolve_gpu_tier gpus max_price =
     (case find (\<lambda>t. list_ex (\<lambda>g. g \<in> set (gp_types t)) gpus) GPU_TIERS of
        Some t \<Rightarrow> t
      | None \<Rightarrow> \<lparr>gp_types = gpus, gp_max_price = max_price, gp_min_ram = 4096\<rparr>)"

datatype 'a api_answer = ApiError string | ApiOk 'a

definition search_offers :: "rat \<Rightarrow> offer list \<Rightarrow> offer list" where
  "search_offers max_price raw = sort_key of_price (filter (\<lambda>o'. of_price o' \<le> max_price) (filter of_rentable raw))"

definition gpu_chain :: "string \<Rightarrow> string list" where
  "gpu_chain g =
     (if g \<in> set GPU_FALLBACK_CHAIN then dropWhile (\<lambda>m. m \<noteq> g) GPU_FALLBACK_CHAIN else g # GPU_FALLBACK_CHAIN)"

definition stale_offer :: "string \<Rightarrow> bool" where
  "stale_offer t = (sublist ''no_such_ask'' t \<or> sublist ''not available'' t)"

definition rate_limited :: "string \<Rightarrow> bool" where
  "rate_limited t = (sublist ''429'' t \<or> sublist ''too frequent'' t \<or> sublist ''rate'' t \<or> sublist ''too many requests'' t)"

text \<open>One attempt: the answer to the search, and to the request to rent; a rental without contract is None.\<close>

type_synonym attempt = "offer list api_answer \<times> int option api_answer"

text \<open>The attempts for one model; the second answer about the rate ends them.\<close>

fun try_model :: "rat \<Rightarrow> attempt list \<Rightarrow> nat \<Rightarrow> (offer \<times> int) option" where
  "try_model mp [] hits = None"
| "try_model mp ((s, r) # as) hits =
     (let on_error = (\<lambda>t. if stale_offer t then try_model mp as hits
                           else if rate_limited t then (if 2 \<le> hits + 1 then None else try_model mp as (hits + 1))
                           else try_model mp as hits)
      in case s of
           ApiError t \<Rightarrow> on_error t
         | ApiOk raw \<Rightarrow>
             (case search_offers mp raw of
                [] \<Rightarrow> None
              | best # _ \<Rightarrow>
                  (case r of ApiError t \<Rightarrow> on_error t | ApiOk None \<Rightarrow> try_model mp as hits | ApiOk (Some c) \<Rightarrow> Some (best, c))))"

fun try_chain :: "rat \<Rightarrow> (string \<Rightarrow> attempt list) \<Rightarrow> string list \<Rightarrow> (string \<times> offer \<times> int) option" where
  "try_chain mp f [] = None"
| "try_chain mp f (m # ms) = (case try_model mp (take 4 (f m)) 0 of Some (b, c) \<Rightarrow> Some (m, b, c) | None \<Rightarrow> try_chain mp f ms)"

datatype dispatch_answer =
  NotConfigured | Provisioning string int offer bool | DispatchFailed string | QueuedLocally string | RunningOnWorker string pyval | NotImplemented

definition vast_dispatch :: "bool \<Rightarrow> string \<Rightarrow> gpu_tier \<Rightarrow> (string \<Rightarrow> attempt list) \<Rightarrow> job_context \<Rightarrow> contracts \<Rightarrow> contracts \<times> dispatch_answer" where
  "vast_dispatch key default_gpu tier f c jobs =
     (let g = (if jc_instance_type c \<noteq> ''any'' then jc_instance_type c else default_gpu)
      in if \<not> key then (jobs, NotConfigured)
         else case try_chain (gp_max_price tier) f (gpu_chain g) of
           None \<Rightarrow> (jobs, DispatchFailed (jc_job c))
         | Some (m, best, cid) \<Rightarrow> (AList.update (jc_job c) cid jobs, Provisioning (jc_job c) cid best (m \<noteq> g)))"

text \<open>
  The list of instances. The record has a required field \<open>ask_contract_id\<close> that the code does not pass, so that building the first one
  raises. What an entry holds is therefore only its id.
\<close>

fun get_instances :: "int list api_answer \<Rightarrow> unit list result" where
  "get_instances (ApiError t) = Inl (OtherException t)"
| "get_instances (ApiOk []) = Inr []"
| "get_instances (ApiOk (i # is)) = Inl TypeError"

definition contract_of :: "string \<Rightarrow> contracts \<Rightarrow> int option" where
  "contract_of job jobs = (case map_of jobs job of Some c \<Rightarrow> if c = 0 then None else Some c | None \<Rightarrow> None)"

datatype status_answer = StUnknown | StUnknownContract int

definition vast_get_status :: "int list api_answer \<Rightarrow> string \<Rightarrow> int option \<Rightarrow> contracts \<Rightarrow> status_answer result" where
  "vast_get_status a job inst jobs =
     (case (case contract_of job jobs of Some c \<Rightarrow> Some c | None \<Rightarrow> inst) of
        None \<Rightarrow> Inr StUnknown
      | Some c \<Rightarrow> if c = 0 then Inr StUnknown else (case get_instances a of Inl x \<Rightarrow> Inl x | Inr _ \<Rightarrow> Inr (StUnknownContract c)))"

datatype cancel_answer = CancelNoop | Cancelled int

text \<open>\<open>destroyed\<close> collects the machines whose destruction was requested.\<close>

definition vast_cancel_job :: "int list api_answer \<Rightarrow> string \<Rightarrow> contracts \<times> int list \<Rightarrow> (contracts \<times> int list) \<times> cancel_answer result" where
  "vast_cancel_job a job w =
     (case w of (jobs, destroyed) \<Rightarrow>
        (let rest = AList.delete job jobs
         in case contract_of job jobs of
              None \<Rightarrow> ((rest, destroyed), Inr CancelNoop)
            | Some c \<Rightarrow> (case get_instances a of Inl x \<Rightarrow> ((rest, destroyed), Inl x) | Inr _ \<Rightarrow> ((rest, destroyed @ [c]), Inr (Cancelled c)))))"

definition vast_confirmed_duration :: "int list api_answer \<Rightarrow> string \<Rightarrow> contracts \<Rightarrow> rat option result" where
  "vast_confirmed_duration a job jobs =
     (case contract_of job jobs of None \<Rightarrow> Inr None | Some c \<Rightarrow> (case get_instances a of Inl x \<Rightarrow> Inl x | Inr _ \<Rightarrow> Inr None))"

record command_answer =
  ca_status :: string
  ca_exit :: "int option"

text \<open>The answer to a command: an error, something that is not a dictionary, or a dictionary with or without an exit code.\<close>

definition vast_run_command :: "int option option api_answer \<Rightarrow> string \<Rightarrow> contracts \<Rightarrow> command_answer" where
  "vast_run_command a job jobs =
     (case contract_of job jobs of
        None \<Rightarrow> \<lparr>ca_status = ''failed'', ca_exit = None\<rparr>
      | Some _ \<Rightarrow>
          (case a of
             ApiError _ \<Rightarrow> \<lparr>ca_status = ''failed'', ca_exit = None\<rparr>
           | ApiOk None \<Rightarrow> \<lparr>ca_status = ''failed'', ca_exit = None\<rparr>
           | ApiOk (Some x) \<Rightarrow> (let n = (case x of None \<Rightarrow> -1 | Some n \<Rightarrow> n) in \<lparr>ca_status = (if n = 0 then ''completed'' else ''failed''), ca_exit = Some n\<rparr>)))"

section \<open>The own worker\<close>

text \<open>An HTTP answer: none, or a code with the JSON object, where the body is one.\<close>

datatype http = Unreachable | Http int "pydict option"

definition gpu_dispatch :: "http \<Rightarrow> job_context \<Rightarrow> dispatch_answer result" where
  "gpu_dispatch h c =
     (case h of
        Unreachable \<Rightarrow> Inr (DispatchFailed (jc_job c))
      | Http code body \<Rightarrow>
          if code \<noteq> 200 then Inr (DispatchFailed (jc_job c))
          else case body of
            None \<Rightarrow> Inl (OtherException ''JSON'')
          | Some d \<Rightarrow> if \<not> py_truth (dict_get d ''gpu_available'') then Inr (DispatchFailed (jc_job c)) else Inr (RunningOnWorker (jc_job c) (dict_get d ''worker_id'')))"

definition gpu_run_command :: "http \<Rightarrow> string result" where
  "gpu_run_command h =
     (case h of
        Unreachable \<Rightarrow> Inr ''failed''
      | Http code body \<Rightarrow>
          if code \<noteq> 200 then Inr ''failed''
          else case body of
            None \<Rightarrow> Inl (OtherException ''JSON'')
          | Some d \<Rightarrow> Inr (if dict_get d ''status'' = PStr ''success'' then ''completed'' else ''failed''))"

definition gpu_get_status :: "http \<Rightarrow> string" where
  "gpu_get_status h = (case h of Http code _ \<Rightarrow> if code = 200 then ''running'' else ''failed'' | Unreachable \<Rightarrow> ''failed'')"

section \<open>The dispatcher\<close>

record backend_world =
  bw_attempts :: "string \<Rightarrow> attempt list"
  bw_instances :: "int list api_answer"
  bw_http :: http
  bw_default_gpu :: string
  bw_tier :: gpu_tier

definition store_object :: "backend_object \<Rightarrow> backend_cell \<Rightarrow> backend_cell" where
  "store_object b c = c\<lparr>bc_object := Some b\<rparr>"

definition dispatch_job :: "backend_env \<Rightarrow> backend_world \<Rightarrow> string option \<Rightarrow> job_context \<Rightarrow> backend_cell \<Rightarrow> backend_cell \<times> dispatch_answer result" where
  "dispatch_job e w name jc c =
     (case get_backend e name c of
        (c1, LocalBackend) \<Rightarrow> (c1, Inr (QueuedLocally (jc_job jc)))
      | (c1, RunpodBackend) \<Rightarrow> (c1, Inr NotImplemented)
      | (c1, GpuWorkerBackend) \<Rightarrow> (c1, gpu_dispatch (bw_http w) jc)
      | (c1, VastaiBackend jobs) \<Rightarrow>
          (case vast_dispatch (be_vast_key e) (bw_default_gpu w) (bw_tier w) (bw_attempts w) jc jobs of
             (jobs', r) \<Rightarrow> (store_object (VastaiBackend jobs') c1, Inr r)))"

datatype cancel_reply = CancelledBy string | CancelRefused | VastCancel cancel_answer

definition backend_cancel_job :: "backend_env \<Rightarrow> backend_world \<Rightarrow> string \<Rightarrow> backend_cell \<times> int list \<Rightarrow> (backend_cell \<times> int list) \<times> cancel_reply result" where
  "backend_cancel_job e w job s =
     (case s of (c, destroyed) \<Rightarrow>
        (case get_backend e None c of
           (c1, LocalBackend) \<Rightarrow> ((c1, destroyed), Inr (CancelledBy ''local''))
         | (c1, RunpodBackend) \<Rightarrow> ((c1, destroyed), Inr CancelRefused)
         | (c1, GpuWorkerBackend) \<Rightarrow> ((c1, destroyed), Inr (CancelledBy ''gpu_worker''))
         | (c1, VastaiBackend jobs) \<Rightarrow>
             (case vast_cancel_job (bw_instances w) job (jobs, destroyed) of
                ((jobs', destroyed'), Inl x) \<Rightarrow> ((store_object (VastaiBackend jobs') c1, destroyed'), Inl x)
              | ((jobs', destroyed'), Inr r) \<Rightarrow> ((store_object (VastaiBackend jobs') c1, destroyed'), Inr (VastCancel r)))))"

definition get_confirmed_duration :: "backend_env \<Rightarrow> backend_world \<Rightarrow> string \<Rightarrow> string option \<Rightarrow> backend_cell \<Rightarrow> backend_cell \<times> rat option" where
  "get_confirmed_duration e w job name c =
     (case get_backend e name c of
        (c1, VastaiBackend jobs) \<Rightarrow> (c1, case vast_confirmed_duration (bw_instances w) job jobs of Inl _ \<Rightarrow> None | Inr d \<Rightarrow> d)
      | (c1, _) \<Rightarrow> (c1, None))"

section \<open>Prices\<close>

lemma search_offers_best:
  assumes "search_offers mp raw = b # bs"
  shows "b \<in> set raw" "of_rentable b" "of_price b \<le> mp" "\<And>o'. o' \<in> set raw \<Longrightarrow> of_rentable o' \<Longrightarrow> of_price b \<le> of_price o'"
proof -
  have s: "sorted (map of_price (b # bs))" "set (b # bs) = {o' \<in> set raw. of_rentable o' \<and> of_price o' \<le> mp}"
    using arg_cong [OF assms, of "\<lambda>xs. sorted (map of_price xs)"] arg_cong [OF assms, of set] by (auto simp: search_offers_def)
  then have b: "b \<in> set raw \<and> of_rentable b \<and> of_price b \<le> mp" by (metis (mono_tags, lifting) list.set_intros(1) mem_Collect_eq)
  then show "b \<in> set raw" "of_rentable b" "of_price b \<le> mp" by auto
  fix o' assume o: "o' \<in> set raw" "of_rentable o'"
  show "of_price b \<le> of_price o'"
  proof (cases "of_price o' \<le> mp")
    case True
    then have "o' \<in> set (b # bs)" using o s(2) by simp
    then show ?thesis using s(1) by auto
  qed (use b in auto)
qed

lemma try_model_rents:
  assumes "try_model mp as hits = Some (b, c)"
  shows "\<exists>raw. (ApiOk raw, ApiOk (Some c)) \<in> set as \<and> (\<exists>bs. search_offers mp raw = b # bs)"
  using assms
proof (induction mp as hits rule: try_model.induct)
  case (2 mp s r as hits)
  show ?case using "2.prems" "2.IH"
    by (auto simp: Let_def split: api_answer.splits list.splits option.splits if_splits)
qed simp

lemma try_chain_rents:
  assumes "try_chain mp f ms = Some (m, b, c)"
  shows "m \<in> set ms \<and> (\<exists>raw. (ApiOk raw, ApiOk (Some c)) \<in> set (f m) \<and> (\<exists>bs. search_offers mp raw = b # bs))"
  using assms
proof (induction ms)
  case (Cons x ms)
  show ?case
  proof (cases "try_model mp (take 4 (f x)) 0")
    case None
    then show ?thesis using Cons by auto
  next
    case (Some y)
    then have "m = x" "try_model mp (take 4 (f x)) 0 = Some (b, c)" using Cons.prems by (auto split: prod.splits)
    then show ?thesis using try_model_rents [of mp "take 4 (f x)" 0 b c] by (auto dest: in_set_takeD)
  qed
qed simp

lemma try_chain_exhausted: "try_chain mp f ms = None \<longleftrightarrow> (\<forall>m \<in> set ms. try_model mp (take 4 (f m)) 0 = None)"
  by (induction ms) (auto split: option.splits)

section \<open>Claims\<close>

text \<open>A machine is rented at the lowest price. When a dispatch answers that a machine is being provisioned, the offer was in the answer to a
  search for a model of the chain, could be rented, cost no more than the limit of the tier and no more than any other offer of that answer that could be rented;
  and the contract is recorded under the job, the other jobs keeping theirs.\<close>

theorem rented_at_lowest_price:
  assumes "vast_dispatch key dg tier f c jobs = (jobs', Provisioning job cid best fb)"
  shows "job = jc_job c \<and> map_of jobs' job = Some cid \<and> (\<forall>j. j \<noteq> job \<longrightarrow> map_of jobs' j = map_of jobs j)
    \<and> of_rentable best \<and> of_price best \<le> gp_max_price tier
    \<and> (\<exists>m raw. (ApiOk raw, ApiOk (Some cid)) \<in> set (f m) \<and> best \<in> set raw \<and> (\<forall>x \<in> set raw. of_rentable x \<longrightarrow> of_price best \<le> of_price x))"
proof -
  let ?g = "if jc_instance_type c \<noteq> ''any'' then jc_instance_type c else dg"
  obtain m where m: "try_chain (gp_max_price tier) f (gpu_chain ?g) = Some (m, best, cid)" "job = jc_job c" "jobs' = AList.update job cid jobs"
    using assms by (auto simp: vast_dispatch_def Let_def split: if_splits option.splits)
  obtain raw bs where r: "(ApiOk raw, ApiOk (Some cid)) \<in> set (f m)" "search_offers (gp_max_price tier) raw = best # bs"
    using try_chain_rents [OF m(1)] by auto
  have "\<forall>x \<in> set raw. of_rentable x \<longrightarrow> of_price best \<le> of_price x" using search_offers_best(4) [OF r(2)] by blast
  then show ?thesis using m r search_offers_best(1-3) [OF r(2)] by (auto simp: update_conv')
qed

definition demo_offer :: "rat \<Rightarrow> offer" where
  "demo_offer p = \<lparr>of_ask = 1, of_instance = 2, of_gpu = ''RTX 4090'', of_price = p, of_rentable = True\<rparr>"

definition demo_context :: job_context where
  "demo_context = \<lparr>jc_job = ''j'', jc_tenant = ''t'', jc_instance_type = ''any'', jc_image = []\<rparr>"

lemmas backend_demo_defs = demo_offer_def demo_context_def vast_dispatch_def GPU_FALLBACK_CHAIN_def gpu_chain_def search_offers_def GPU_TIERS_def Let_def

theorem rented_at_lowest_price_witness:
  "\<exists>jobs' best. vast_dispatch True ''RTX_4090'' (GPU_TIERS ! 1) (\<lambda>_. [(ApiOk [demo_offer (1 / 2), demo_offer (2 / 5)], ApiOk (Some 9))]) demo_context []
     = (jobs', Provisioning ''j'' 9 best False) \<and> map_of jobs' ''j'' = Some 9 \<and> of_price best \<le> gp_max_price (GPU_TIERS ! 1)"
proof -
  have e: "vast_dispatch True ''RTX_4090'' (GPU_TIERS ! 1) (\<lambda>_. [(ApiOk [demo_offer (1 / 2), demo_offer (2 / 5)], ApiOk (Some 9))]) demo_context []
     = ([(''j'', 9)], Provisioning ''j'' 9 (demo_offer (2 / 5)) False)"
    by (simp add: backend_demo_defs)
  from rented_at_lowest_price [OF this] e show ?thesis by blast
qed

text \<open>A job runs on the own worker only when the worker said so: the answer is that it runs exactly when the worker was reached, answered with
  200 and an object that reports a GPU; it never falls back to the local simulation.\<close>

theorem worker_dispatch_honest:
  "gpu_dispatch h c = Inr (RunningOnWorker job wid)
     \<longleftrightarrow> job = jc_job c \<and> (\<exists>d. h = Http 200 (Some d) \<and> py_truth (dict_get d ''gpu_available'') \<and> wid = dict_get d ''worker_id'')"
  by (auto simp: gpu_dispatch_def split: http.splits option.splits if_splits)

section \<open>Findings\<close>

text \<open>Cancelling a job whose machine exists raises, forgets the contract and does not ask for the destruction of the machine.\<close>

lemma cancel_leaves_machine:
  assumes "map_of jobs job = Some c" and "c \<noteq> 0"
  shows "vast_cancel_job (ApiOk (c # is)) job (jobs, destroyed) = ((AList.delete job jobs, destroyed), Inl TypeError)"
  using assms by (simp add: vast_cancel_job_def contract_of_def Let_def)

text \<open>The status of a job on an existing machine cannot be read, and its duration is never confirmed.\<close>

lemma status_never_read:
  assumes "map_of jobs job = Some c" and "c \<noteq> 0"
  shows "vast_get_status (ApiOk (c # is)) job inst jobs = Inl TypeError"
  using assms by (simp add: vast_get_status_def contract_of_def)

lemma duration_never_confirmed: "snd (get_confirmed_duration e w job name c) = None"
proof -
  have "vast_confirmed_duration a job jobs = Inr d \<Longrightarrow> d = None" for a jobs d
    by (auto simp: vast_confirmed_duration_def split: option.splits sum.splits)
  then show ?thesis by (auto simp: get_confirmed_duration_def split: prod.splits backend_object.splits sum.splits)
qed

text \<open>A call for another backend replaces the object and with it the contracts of all jobs.\<close>

lemma switch_forgets_contracts:
  assumes "be_vast_key e" and "wanted_name e None = ''vastai''"
  shows "snd (get_backend e None (fst (get_backend e (Some ''gpu_worker'') \<lparr>bc_object = Some (VastaiBackend jobs), bc_name = ''vastai''\<rparr>))) = VastaiBackend []"
  using assms by (simp add: get_backend_def wanted_name_def Let_def)

end
