(* ===== verification/Jev.thy ===== *)
theory Jev
  imports Quota "HOL-Library.Sublist"
begin

text \<open>
  The advisory model: its client \<open>src/core/jev_client.py\<close>, the contract and decision of the sidecar
  (\<open>src/adapters/jev/contract.py\<close>, \<open>src/adapters/jev/adapter.py\<close>), the cascades of \<open>src/plugins/builtin/jev_policy.py\<close>
  and \<open>src/plugins/builtin/jev_triage.py\<close> with \<open>src/core/jev_cascade.py\<close>, the zones of \<open>src/cost/jev_shadow.py\<close>, the bounded observer
  \<open>src/core/jev_observer.py\<close> and its log \<open>src/core/jev_shadow_log.py\<close>.

  An answer of the provider is a JSON value. The regular expressions of the deny lists are searches for their alternatives in the lower-case text.
  SHA-256 and the text of JSON are arguments, as is the outcome of every transport. The texts of questions and log lines are left out.

  Shown: no field with the name of a secret and no value that looks like one is sent, and only listed fields are; a decision to execute has
  every piece of evidence above its threshold; the level of risk is never rounded down past a half; retries are bounded and only follow a rate limit;
  a cascade only ever turns an allowance into a review; at most four observations are pending; the log keeps its size; and that a
  confidence that is not a number passes the floor, and that a huge number in an answer raises.
\<close>

section \<open>Redaction\<close>

definition key_patterns :: "string list" where
  "key_patterns =
     [''apikey'', ''api_key'', ''api-key'', ''secret'', ''token'', ''password'', ''passwd'', ''credential'', ''authorization'', ''bearer'', ''cookie'',
      ''dsn'', ''hmac'', ''privatekey'', ''private_key'', ''private-key'', ''sessionid'', ''session_id'', ''session-id'']"

definition key_denied :: "string \<Rightarrow> bool" where
  "key_denied w = list_ex (\<lambda>p. sublist p (lower w)) key_patterns"

definition value_patterns :: "string list" where
  "value_patterns = [''whsec_'', ''sk_live_'', ''sk_test_'', ''pk_live_'', ''postgres://'', ''postgresql://'', ''mysql://'', ''redis://'', ''-----begin'']"

text \<open>The word bearer, white space, and something after it.\<close>

fun bearer_in :: "string \<Rightarrow> bool" where
  "bearer_in [] = False"
| "bearer_in (c # cs) =
     ((take 6 (c # cs) = ''bearer'' \<and> (let r = drop 6 (c # cs) in r \<noteq> [] \<and> is_ws (hd r) \<and> dropWhile is_ws r \<noteq> [])) \<or> bearer_in cs)"

definition value_denied :: "string \<Rightarrow> bool" where
  "value_denied w = (list_ex (\<lambda>p. sublist p (lower w)) value_patterns \<or> bearer_in (lower w))"

definition redacted :: string where "redacted = ''<redacted>''"

text \<open>The walk over a value: fields with a denied name are dropped, denied texts replaced.\<close>

fun redact :: "pyval \<Rightarrow> pyval" where
  "redact (PDict d) = PDict (map (\<lambda>(k, v). (k, redact v)) (filter (\<lambda>(k, v). \<not> key_denied k) d))"
| "redact (PList xs) = PList (map redact xs)"
| "redact (PStr w) = PStr (if value_denied w then redacted else w)"
| "redact v = v"

section \<open>The state that is sent\<close>

definition STATE_ALLOWLIST :: "string list" where
  "STATE_ALLOWLIST =
     [''act'', ''job_id'', ''tenant_ref'', ''plan_tier'', ''queue'', ''region'', ''gpu_type'', ''priority'', ''requested_seconds'', ''est_cost_units'',
      ''spend_cap_remaining_units'', ''worker_availability'', ''retry_count'', ''last_failure_class'', ''deadline_seconds'']"

definition STATE_MAX_BYTES :: nat where "STATE_MAX_BYTES = 24576"
definition STATE_VALUE_MAX_CHARS :: nat where "STATE_VALUE_MAX_CHARS = 4000"

text \<open>\<open>ref\<close> is the reference of a tenant, a digest of the text of its value.\<close>

definition jev_build_state :: "(pyval \<Rightarrow> string) \<Rightarrow> pyval \<Rightarrow> pydict result" where
  "jev_build_state ref raw =
     (case redact raw of
        PDict clean \<Rightarrow>
          Inr (List.map_filter (\<lambda>k. map_option (\<lambda>v. (k, if k = ''tenant_ref'' then PStr (ref v) else v)) (map_of clean k)) STATE_ALLOWLIST
               @ [(''state_version'', PInt 1)])
      | _ \<Rightarrow> Inl TypeError)"

definition oversized_field :: "(pyval \<Rightarrow> string) \<Rightarrow> pydict \<Rightarrow> string option" where
  "oversized_field dumps st =
     map_option fst (find (\<lambda>(k, v). STATE_VALUE_MAX_CHARS < length (case v of PStr w \<Rightarrow> w | _ \<Rightarrow> dumps v)) st)"

definition state_fits :: "(pyval \<Rightarrow> string) \<Rightarrow> pydict \<Rightarrow> bool" where
  "state_fits dumps st = (length (dumps (PDict st)) \<le> STATE_MAX_BYTES)"

section \<open>The client\<close>

definition PINNED_JEV_MODEL :: string where "PINNED_JEV_MODEL = ''typesafe/jev-1.13''"

datatype jev_error = JevDisabled | JevTimeout | JevRateLimited | JevBadResponse | JevModelPin | JevTransport

definition check_response_model :: "(pyval \<Rightarrow> string) \<Rightarrow> pyval \<Rightarrow> bool" where
  "check_response_model str reply =
     (case reply of
        PDict d \<Rightarrow>
          (case dict_get d ''model'' of
             PNone \<Rightarrow> True
           | m \<Rightarrow> let w = str m; n = length PINNED_JEV_MODEL
                   in w = PINNED_JEV_MODEL
                      \<or> (take (n + 1) w = PINNED_JEV_MODEL @ ''-'' \<and> length w = n + 9 \<and> all_digits (drop (n + 1) w)))
      | _ \<Rightarrow> True)"

datatype transport = TrOk pyval | TrRate | TrError jev_error | TrOther

record jev_client =
  jk_model :: string
  jk_enabled :: bool
  jk_retries :: nat
  jk_attempts :: nat

text \<open>The attempts of one evaluation; the list holds how each transport ends, and stands for a further rate limit where it is too short.\<close>

fun attempts_of :: "(pyval \<Rightarrow> string) \<Rightarrow> nat \<Rightarrow> transport list \<Rightarrow> nat \<Rightarrow> nat \<times> (jev_error + pyval)" where
  "attempts_of str 0 ts n = (n, Inl JevTransport)"
| "attempts_of str (Suc k) ts n =
     (case (case ts of [] \<Rightarrow> TrRate | t # _ \<Rightarrow> t) of
        TrRate \<Rightarrow> if k = 0 then (n + 1, Inl JevRateLimited) else attempts_of str k (tl ts) (n + 1)
      | TrError e \<Rightarrow> (n + 1, Inl e)
      | TrOther \<Rightarrow> (n + 1, Inl JevTransport)
      | TrOk v \<Rightarrow> (n + 1, if check_response_model str v then Inr v else Inl JevModelPin))"

definition evaluate :: "(pyval \<Rightarrow> string) \<Rightarrow> transport list \<Rightarrow> jev_client \<Rightarrow> jev_client \<times> (jev_error + pyval)" where
  "evaluate str ts c =
     (if jk_model c \<noteq> PINNED_JEV_MODEL then (c, Inl JevModelPin)
      else if \<not> jk_enabled c then (c, Inl JevDisabled)
      else case attempts_of str (jk_retries c + 1) ts (jk_attempts c) of (n, r) \<Rightarrow> (c\<lparr>jk_attempts := n\<rparr>, r))"

section \<open>Answers\<close>

record jev_answer =
  an_type :: pyval
  an_value :: pyval
  an_probabilities :: pydict
  an_confidence :: pyval

definition as_mapping :: "pyval \<Rightarrow> pydict" where
  "as_mapping v = (case v of PDict d \<Rightarrow> d | _ \<Rightarrow> [])"

definition answer_kind :: "pydict \<Rightarrow> pyval" where
  "answer_kind d =
     (let k = dict_get d ''type''
      in if k \<in> {PStr ''choice'', PStr ''noul'', PStr ''score''} then k
         else if map_of d ''choice'' \<noteq> None then PStr ''choice''
         else if map_of d ''noul'' \<noteq> None then PStr ''noul''
         else if map_of d ''score'' \<noteq> None then PStr ''score'' else k)"

definition normalize_answer :: "pyval \<Rightarrow> jev_answer" where
  "normalize_answer v =
     (let d = as_mapping v; k = answer_kind d
      in \<lparr>an_type = k, an_value = (case k of PStr w \<Rightarrow> dict_get d w | _ \<Rightarrow> PNone),
          an_probabilities = (case dict_get d ''probabilities'' of PDict p \<Rightarrow> p | _ \<Rightarrow> []), an_confidence = dict_get d ''confidence''\<rparr>)"

definition normalize_answers :: "pyval \<Rightarrow> (string \<times> jev_answer) list" where
  "normalize_answers reply =
     (case reply of
        PDict d \<Rightarrow> (case dict_get d ''answers'' of PDict a \<Rightarrow> map (\<lambda>(k, v). (k, normalize_answer v)) a | _ \<Rightarrow> [])
      | _ \<Rightarrow> [])"

section \<open>Numbers\<close>

text \<open>\<open>float\<close> of an integer that is too large raises; comparisons with a value that is not a number are false.\<close>

definition FLOAT_LIMIT :: int where "FLOAT_LIMIT = 2 ^ 1024 - 2 ^ 970"

definition to_float :: "pyval \<Rightarrow> pyfloat option result" where
  "to_float v =
     (case v of
        PInt i \<Rightarrow> if FLOAT_LIMIT \<le> \<bar>i\<bar> then Inl OverflowError else Inr (py_float v)
      | _ \<Rightarrow> Inr (py_float v))"

definition is_number :: "pyval \<Rightarrow> bool" where
  "is_number v = (case v of PBool _ \<Rightarrow> True | PInt _ \<Rightarrow> True | PFloat _ \<Rightarrow> True | _ \<Rightarrow> False)"

fun f_ge :: "pyfloat \<Rightarrow> rat \<Rightarrow> bool" where
  "f_ge (Fin x) r = (r \<le> x)"
| "f_ge PosInf r = True"
| "f_ge NegInf r = False"
| "f_ge NaN r = False"

fun f_lt :: "pyfloat \<Rightarrow> rat \<Rightarrow> bool" where
  "f_lt (Fin x) r = (x < r)"
| "f_lt PosInf r = False"
| "f_lt NegInf r = True"
| "f_lt NaN r = False"

text \<open>A comparison of a number of any kind; a large integer is compared exactly.\<close>

definition num_lt :: "pyval \<Rightarrow> rat \<Rightarrow> bool" where
  "num_lt v r = (case py_float v of Some f \<Rightarrow> f_lt f r | None \<Rightarrow> False)"

definition probability :: "pydict \<Rightarrow> string \<Rightarrow> pyfloat option result" where
  "probability ps choice = (let v = dict_get ps choice in if is_number v then to_float v else Inr None)"

text \<open>The level of risk: no booleans, a finite number within the scale, halves upwards.\<close>

definition risk_value :: "pyval \<Rightarrow> int option result" where
  "risk_value raw =
     (case raw of
        PBool _ \<Rightarrow> Inr None
      | PNone \<Rightarrow> Inr None
      | _ \<Rightarrow>
          (case to_float raw of
             Inl x \<Rightarrow> Inl x
           | Inr (Some (Fin v)) \<Rightarrow> if v < 1 \<or> 5 < v then Inr None else Inr (Some \<lfloor>v + 1 / 2\<rfloor>)
           | Inr _ \<Rightarrow> Inr None))"

section \<open>The decision\<close>

datatype jev_verdict = JExecute | JConfirm | JAbort | JSkip string

definition FORBIDDEN_DOMAINS :: "string list" where
  "FORBIDDEN_DOMAINS = [''payment'', ''billing'', ''deploy'', ''delete'', ''quota'']"

definition forbidden :: "string list \<Rightarrow> bool" where
  "forbidden ws = list_ex (\<lambda>w. list_ex (\<lambda>f. sublist f (lower w)) FORBIDDEN_DOMAINS) ws"

definition effective_domain :: "string option \<Rightarrow> pyval \<Rightarrow> string option" where
  "effective_domain dm raw =
     (case dm of
        Some w \<Rightarrow> Some w
      | None \<Rightarrow> (case raw of PDict d \<Rightarrow> (case dict_get d ''act'' of PStr w \<Rightarrow> Some w | _ \<Rightarrow> None) | _ \<Rightarrow> None))"

definition transport_reason :: "jev_error \<Rightarrow> string" where
  "transport_reason e =
     (case e of JevDisabled \<Rightarrow> ''disabled'' | JevTimeout \<Rightarrow> ''timeout'' | JevRateLimited \<Rightarrow> ''rate_limited'' | JevBadResponse \<Rightarrow> ''bad_answer''
      | _ \<Rightarrow> ''transport_error'')"

definition NEXT_OPTIONS :: "string list" where "NEXT_OPTIONS = [''run'', ''ask'', ''abort'']"

text \<open>The thresholds, from the evidence.\<close>

definition weigh :: "pyfloat \<Rightarrow> string \<Rightarrow> pyfloat option \<Rightarrow> int \<Rightarrow> jev_verdict" where
  "weigh prob choice run_prob risk =
     (if 7 / 2 < (of_int risk :: rat) then JConfirm
      else if f_ge prob (7 / 10) \<and> choice = ''run'' \<and> (case run_prob of Some p \<Rightarrow> f_ge p (6 / 10) | None \<Rightarrow> False) then JExecute
      else if f_ge prob (45 / 100) \<or> choice = ''ask'' \<or> (case run_prob of Some p \<Rightarrow> f_ge p (45 / 100) | None \<Rightarrow> False) then JConfirm
      else JAbort)"

definition judge_answers :: "(string \<times> jev_answer) list \<Rightarrow> jev_verdict result" where
  "judge_answers as =
     (case (map_of as ''gate'', map_of as ''next'', map_of as ''risk'') of
        (Some g, Some n, Some k) \<Rightarrow>
          if an_type g \<noteq> PStr ''noul'' \<or> \<not> is_number (an_value g) then Inr (JSkip ''bad_answer'')
          else if an_type n \<noteq> PStr ''choice'' then Inr (JSkip ''bad_answer'')
          else (case an_value n of
                  PStr choice \<Rightarrow>
                    if choice \<notin> set NEXT_OPTIONS then Inr (JSkip ''bad_answer'')
                    else if an_type k \<noteq> PStr ''score'' \<or> an_value k = PNone then Inr (JSkip ''bad_answer'')
                    else if \<not> is_number (an_confidence n) then Inr (JSkip ''bad_answer'')
                    else if num_lt (an_confidence n) (1 / 2) then Inr (JSkip ''low_confidence'')
                    else (case to_float (an_value g) of
                            Inr (Some p) \<Rightarrow>
                              (case probability (an_probabilities n) choice of
                                 Inl x \<Rightarrow> Inl x
                               | Inr q \<Rightarrow>
                                   (case risk_value (an_value k) of
                                      Inl x \<Rightarrow> Inl x
                                    | Inr None \<Rightarrow> Inr (JSkip ''bad_answer'')
                                    | Inr (Some r) \<Rightarrow> Inr (weigh p choice q r)))
                          | Inr None \<Rightarrow> Inl TypeError
                          | Inl x \<Rightarrow> Inl x)
                | _ \<Rightarrow> Inr (JSkip ''bad_answer''))
      | _ \<Rightarrow> Inr (JSkip ''bad_answer''))"

record jev_world =
  jw_ref :: "pyval \<Rightarrow> string"
  jw_dumps :: "pyval \<Rightarrow> string"
  jw_str :: "pyval \<Rightarrow> string"
  jw_transport :: "transport list"

definition decide :: "jev_world \<Rightarrow> string option \<Rightarrow> pyval \<Rightarrow> jev_client \<Rightarrow> jev_client \<times> jev_verdict result" where
  "decide w dm raw c =
     (if forbidden ([''gate'', ''next'', ''risk''] @ (case effective_domain dm raw of None \<Rightarrow> [] | Some d \<Rightarrow> [d])) then (c, Inr (JSkip ''forbidden_domain''))
      else case jev_build_state (jw_ref w) raw of
        Inl _ \<Rightarrow> (c, Inr (JSkip ''bad_state''))
      | Inr st \<Rightarrow>
          if oversized_field (jw_dumps w) st \<noteq> None \<or> \<not> state_fits (jw_dumps w) st then (c, Inr (JSkip ''state_too_large''))
          else if \<not> jk_enabled c then (c, Inr (JSkip ''disabled''))
          else case evaluate (jw_str w) (jw_transport w) c of
            (c1, Inl e) \<Rightarrow> (c1, Inr (JSkip (transport_reason e)))
          | (c1, Inr reply) \<Rightarrow> (c1, if 2 < jk_attempts c1 then Inr (JSkip ''call_limit'') else judge_answers (normalize_answers reply)))"

section \<open>Cascades\<close>

text \<open>One question: the choice, its confidence where it is a number. Any error gives None.\<close>

definition parse_choice :: "(pyval \<Rightarrow> string) \<Rightarrow> string \<Rightarrow> pyval \<Rightarrow> (string \<times> pyfloat option) option" where
  "parse_choice str q reply =
     (case map_of (normalize_answers reply) q of
        None \<Rightarrow> None
      | Some a \<Rightarrow>
          if an_type a \<noteq> PStr ''choice'' \<or> an_value a = PNone then None
          else if list_ex (\<lambda>(k, v). case to_float v of Inr (Some _) \<Rightarrow> False | _ \<Rightarrow> True) (an_probabilities a) then None
          else let choice = str (an_value a);
                   conf = (if an_confidence a = PNone then (case map_of (an_probabilities a) choice of None \<Rightarrow> PFloat (Fin 0) | Some v \<Rightarrow> v) else an_confidence a)
               in case to_float conf of Inl _ \<Rightarrow> None | Inr f \<Rightarrow> Some (choice, f))"

definition cascade_once :: "rat \<Rightarrow> (pyval \<Rightarrow> string) \<Rightarrow> string \<Rightarrow> transport list \<Rightarrow> jev_client \<Rightarrow> string option" where
  "cascade_once limit str q ts c =
     (case snd (evaluate str ts c) of
        Inl _ \<Rightarrow> None
      | Inr reply \<Rightarrow>
          (case parse_choice str q reply of
             Some (choice, Some f) \<Rightarrow> if f_ge f limit then Some choice else None
           | _ \<Rightarrow> None))"

definition cascade_run :: "bool \<Rightarrow> (pyval \<Rightarrow> string) \<Rightarrow> transport list \<Rightarrow> jev_client \<Rightarrow> string \<Rightarrow> string" where
  "cascade_run enabled str ts c action =
     (if \<not> enabled then action
      else if cascade_once (85 / 100) str ''policy'' ts c \<in> {Some ''violation'', Some ''escalate''} \<and> action = ''allow'' then ''escalate'' else action)"

definition triage_once :: "(pyval \<Rightarrow> string) \<Rightarrow> transport list \<Rightarrow> jev_client \<Rightarrow> string option" where
  "triage_once str ts c = cascade_once (90 / 100) str ''triage'' ts c"

definition classify_zone :: "rat \<Rightarrow> string" where
  "classify_zone p = (if 90 / 100 \<le> p then ''auto'' else if 70 / 100 \<le> p then ''review'' else ''normal'')"

section \<open>The observer and its log\<close>

definition QUEUE_BUDGET :: nat where "QUEUE_BUDGET = 4"

record observer =
  ob_free :: nat
  ob_pending :: nat
  ob_dropped :: nat

definition ob_init :: observer where "ob_init = \<lparr>ob_free = QUEUE_BUDGET, ob_pending = 0, ob_dropped = 0\<rparr>"

text \<open>\<open>submits\<close> says whether the executor takes the task; it does not after its shutdown.\<close>

definition submit_observation :: "bool \<Rightarrow> observer \<Rightarrow> observer \<times> bool" where
  "submit_observation submits o' =
     (if ob_free o' = 0 then (o'\<lparr>ob_dropped := ob_dropped o' + 1\<rparr>, False)
      else let o1 = o'\<lparr>ob_free := ob_free o' - 1\<rparr>
           in if submits then (o1\<lparr>ob_pending := ob_pending o1 + 1\<rparr>, True) else (o1\<lparr>ob_free := ob_free o1 + 1\<rparr>, False))"

definition observation_done :: "observer \<Rightarrow> observer" where
  "observation_done o' = (if ob_pending o' = 0 then o' else o'\<lparr>ob_free := ob_free o' + 1, ob_pending := ob_pending o' - 1\<rparr>)"

text \<open>The files of the log by number, the live one at 0; a file is the list of its lines.\<close>

type_synonym log_files = "nat \<Rightarrow> string list option"

definition file_bytes :: "string list \<Rightarrow> nat" where
  "file_bytes ls = sum_list (map length ls)"

definition rotate_files :: "nat \<Rightarrow> log_files \<Rightarrow> log_files" where
  "rotate_files backups fs = (\<lambda>i. if i = 0 then None else if i \<le> backups then fs (i - 1) else fs i)"

text \<open>\<open>ok\<close> says whether the rotation works; one that fails at its first step leaves the files as they are.\<close>

definition rotate_if_needed :: "bool \<Rightarrow> nat \<Rightarrow> nat \<Rightarrow> nat \<Rightarrow> log_files \<Rightarrow> log_files" where
  "rotate_if_needed ok limit backups incoming fs =
     (case fs 0 of
        None \<Rightarrow> fs
      | Some ls \<Rightarrow> if file_bytes ls + incoming \<le> limit \<or> \<not> ok then fs else rotate_files backups fs)"

definition log_record :: "bool \<Rightarrow> nat \<Rightarrow> nat \<Rightarrow> string \<Rightarrow> log_files \<Rightarrow> log_files" where
  "log_record ok limit backups line fs =
     (let g = rotate_if_needed ok limit backups (length line) fs
      in g(0 := Some ((case g 0 of None \<Rightarrow> [] | Some ls \<Rightarrow> ls) @ [line])))"

section \<open>Nothing secret is sent\<close>

fun free_of_secrets :: "pyval \<Rightarrow> bool" where
  "free_of_secrets (PDict d) = list_all (\<lambda>(k, v). \<not> key_denied k \<and> free_of_secrets v) d"
| "free_of_secrets (PList xs) = list_all free_of_secrets xs"
| "free_of_secrets (PStr w) = (\<not> value_denied w)"
| "free_of_secrets _ = True"

lemma redacted_not_denied: "\<not> value_denied redacted"
  by code_simp

lemma redact_free: "free_of_secrets (redact v)"
  by (induction v rule: redact.induct) (auto simp: list_all_iff redacted_not_denied)

lemma redact_again: "free_of_secrets v \<Longrightarrow> redact v = v"
proof (induction v rule: redact.induct)
  case (1 d)
  then have "filter (\<lambda>(k, v). \<not> key_denied k) d = d" by (auto simp: list_all_iff intro!: filter_True)
  moreover have "map (\<lambda>(k, v). (k, redact v)) d = map (\<lambda>x. x) d" using 1 by (intro map_cong) (auto simp: list_all_iff)
  ultimately show ?case by simp
next
  case (2 xs)
  then show ?case by (auto simp: list_all_iff intro: map_idI)
qed simp_all

lemma build_state_fields:
  assumes "jev_build_state ref raw = Inr st" and "(k, v) \<in> set st"
  shows "(k = ''state_version'' \<and> v = PInt 1) \<or> (k \<in> set STATE_ALLOWLIST \<and> (if k = ''tenant_ref'' then \<exists>x. v = PStr (ref x) else free_of_secrets v))"
proof -
  obtain clean where c: "redact raw = PDict clean" using assms(1) by (auto simp: jev_build_state_def split: pyval.splits)
  have "free_of_secrets v'" if "map_of clean k' = Some v'" for k' v'
    using redact_free [of raw] map_of_SomeD [OF that] by (auto simp: c list_all_iff)
  then show ?thesis using assms by (auto simp: jev_build_state_def c List.map_filter_def split: if_splits) (rule exI, rule refl)
qed

section \<open>Bounds\<close>

lemma attempts_of_bound: "fst (attempts_of str k ts n) \<le> n + k"
proof (induction str k ts n rule: attempts_of.induct)
  case (2 str k ts n)
  then show ?case by (auto split: transport.splits list.splits)
qed simp

lemma risk_value_level:
  assumes "risk_value raw = Inr (Some l)"
  obtains v where "py_float raw = Some (Fin v)" "1 \<le> v" "v \<le> 5" "1 \<le> l" "l \<le> 5" "\<bar>of_int l - v\<bar> \<le> 1 / 2" "v - 1 / 2 < of_int l"
proof -
  obtain v where v: "py_float raw = Some (Fin v)" "1 \<le> v" "v \<le> 5" "l = \<lfloor>v + 1 / 2\<rfloor>"
    using assms by (cases raw) (auto simp: risk_value_def to_float_def split: option.splits pyfloat.splits if_splits)
  have f: "of_int l \<le> v + 1 / 2" "v + 1 / 2 < of_int l + 1" using v(4) by linarith+
  have "1 \<le> l" "l < 6" using v by linarith+
  moreover have "\<bar>of_int l - v\<bar> \<le> 1 / 2" using f by (simp only: abs_le_iff) linarith
  ultimately show thesis using f by (intro that [OF v(1-3)]) linarith+
qed

section \<open>Evidence\<close>

lemma weigh_execute:
  "weigh p choice q r = JExecute \<longleftrightarrow> of_int r \<le> (7 / 2 :: rat) \<and> f_ge p (7 / 10) \<and> choice = ''run'' \<and> (\<exists>x. q = Some x \<and> f_ge x (6 / 10))"
  by (auto simp: weigh_def split: option.splits)

lemma judge_execute:
  assumes "judge_answers as = Inr JExecute"
  obtains g n k p q l where "map_of as ''gate'' = Some g" "map_of as ''next'' = Some n" "map_of as ''risk'' = Some k"
    "an_value n = PStr ''run''" "\<not> num_lt (an_confidence n) (1 / 2)" "is_number (an_confidence n)"
    "to_float (an_value g) = Inr (Some p)" "f_ge p (7 / 10)" "probability (an_probabilities n) ''run'' = Inr (Some q)" "f_ge q (6 / 10)"
    "risk_value (an_value k) = Inr (Some l)" "l \<le> 3"
proof -
  obtain g n k where m: "map_of as ''gate'' = Some g" "map_of as ''next'' = Some n" "map_of as ''risk'' = Some k"
    using assms by (auto simp: judge_answers_def split: option.splits)
  note u = assms [unfolded judge_answers_def m, simplified]
  obtain choice where ch: "an_value n = PStr choice" using u by (cases "an_value n") (auto split: if_splits)
  note u2 = u [unfolded ch, simplified]
  have c: "\<not> num_lt (an_confidence n) (1 / 2)" "is_number (an_confidence n)" using u2 by (auto split: if_splits)
  obtain p where p: "to_float (an_value g) = Inr (Some p)" using u2 by (auto split: if_splits sum.splits option.splits)
  obtain q where q: "probability (an_probabilities n) choice = Inr q" using u2 by (auto simp: p split: if_splits sum.splits option.splits)
  obtain l where l: "risk_value (an_value k) = Inr (Some l)" using u2 by (auto simp: p q split: if_splits sum.splits option.splits)
  have "weigh p choice q l = JExecute" using u2 by (auto simp: p q l split: if_splits)
  then have w: "of_int l \<le> (7 / 2 :: rat)" "f_ge p (7 / 10)" "choice = ''run''" "\<exists>x. q = Some x \<and> f_ge x (6 / 10)" by (simp_all add: weigh_execute)
  have "l \<le> 3" using w(1) by linarith
  then show thesis using that m ch c p q l w by auto
qed

section \<open>Claims\<close>

text \<open>Nothing secret leaves the process. Every field of the state that is sent is on the list of allowed fields or is the version; its value has
  no field with the name of a secret and no text that looks like one at any depth, and the tenant is replaced by its reference.\<close>

theorem no_secret_is_sent:
  assumes "jev_build_state ref raw = Inr st" and "(k, v) \<in> set st"
  shows "k \<in> set STATE_ALLOWLIST \<union> {''state_version''} \<and> (k = ''tenant_ref'' \<longrightarrow> (\<exists>x. v = PStr (ref x))) \<and> (k \<noteq> ''tenant_ref'' \<longrightarrow> free_of_secrets v)"
proof (cases "k = ''state_version''")
  case True
  then have "k \<notin> set STATE_ALLOWLIST" "k \<noteq> ''tenant_ref''" by (simp_all add: STATE_ALLOWLIST_def)
  then have "v = PInt 1" using build_state_fields [OF assms] by auto
  then show ?thesis using True by simp
next
  case False
  then show ?thesis using build_state_fields [OF assms] by (auto split: if_splits)
qed

definition demo_raw :: pyval where
  "demo_raw = PDict [(''job_id'', PStr ''j1''), (''api_key'', PStr ''k''), (''queue'', PDict [(''name'', PStr ''main''), (''Token'', PStr ''x'')]), (''tenant_ref'', PStr ''acme'')]"

theorem no_secret_is_sent_witness:
  "\<exists>v. jev_build_state (\<lambda>_. ''t_0'') demo_raw = Inr [(''job_id'', PStr ''j1''), (''tenant_ref'', PStr ''t_0''), (''queue'', v), (''state_version'', PInt 1)] \<and> free_of_secrets v"
proof -
  let ?v = "PDict [(''name'', PStr ''main'')]"
  have e: "jev_build_state (\<lambda>_. ''t_0'') demo_raw = Inr [(''job_id'', PStr ''j1''), (''tenant_ref'', PStr ''t_0''), (''queue'', ?v), (''state_version'', PInt 1)]"
    by code_simp
  have "free_of_secrets ?v" using no_secret_is_sent [OF e, of "''queue''" ?v] by simp
  then show ?thesis using e by blast
qed


definition demo_reply :: pyval where
  "demo_reply = PDict [(''answers'', PDict [(''gate'', PDict [(''type'', PStr ''noul''), (''noul'', PFloat (Fin (8 / 10)))]),
     (''next'', PDict [(''type'', PStr ''choice''), (''choice'', PStr ''run''), (''confidence'', PFloat (Fin (9 / 10))), (''probabilities'', PDict [(''run'', PFloat (Fin (7 / 10)))])]),
     (''risk'', PDict [(''type'', PStr ''score''), (''score'', PInt 2)])])]"

definition demo_jev :: "pyval \<Rightarrow> jev_world" where
  "demo_jev r = \<lparr>jw_ref = (\<lambda>_. ''t_0''), jw_dumps = (\<lambda>_. []), jw_str = (\<lambda>_. []), jw_transport = [TrOk r]\<rparr>"

definition demo_client :: jev_client where
  "demo_client = \<lparr>jk_model = PINNED_JEV_MODEL, jk_enabled = True, jk_retries = 1, jk_attempts = 0\<rparr>"


text \<open>The level of risk is within the scale, at most half a step from the score, and a score halfway between two levels counts as the
  riskier one.\<close>

theorem risk_rounded_up:
  assumes "risk_value raw = Inr (Some l)"
  shows "\<exists>v. py_float raw = Some (Fin v) \<and> 1 \<le> v \<and> v \<le> 5 \<and> 1 \<le> l \<and> l \<le> 5 \<and> \<bar>of_int l - v\<bar> \<le> 1 / 2 \<and> v - 1 / 2 < of_int l"
  using risk_value_level [OF assms] by metis

theorem risk_rounded_up_witness: "\<exists>v. py_float (PFloat (Fin (7 / 2))) = Some (Fin v) \<and> \<bar>of_int 4 - v\<bar> \<le> 1 / 2 \<and> v - 1 / 2 < of_int 4"
proof -
  have "risk_value (PFloat (Fin (7 / 2))) = Inr (Some 4)" by (simp add: risk_value_def to_float_def)
  from risk_rounded_up [OF this] show ?thesis by auto
qed

text \<open>The advisory model can only ask for more care. The cascade leaves the action of the policy engine as it is or turns an allowance into a manual review,
  the latter only on a confident answer; with the flag off, or on any failure of the model, nothing changes.\<close>

theorem cascade_only_escalates:
  "cascade_run enabled str ts c action = action
   \<or> (enabled \<and> action = ''allow'' \<and> cascade_run enabled str ts c action = ''escalate''
      \<and> (\<exists>reply choice f. snd (evaluate str ts c) = Inr reply \<and> parse_choice str ''policy'' reply = Some (choice, Some f) \<and> f_ge f (85 / 100)
           \<and> choice \<in> {''violation'', ''escalate''}))"
proof (cases "cascade_run enabled str ts c action = action")
  case False
  then have e: "enabled" "action = ''allow''" "cascade_once (85 / 100) str ''policy'' ts c \<in> {Some ''violation'', Some ''escalate''}"
    by (auto simp: cascade_run_def split: if_splits)
  obtain choice where ch: "cascade_once (85 / 100) str ''policy'' ts c = Some choice" "choice \<in> {''violation'', ''escalate''}" using e(3) by auto
  obtain reply where r: "snd (evaluate str ts c) = Inr reply" using ch(1) by (auto simp: cascade_once_def split: sum.splits)
  obtain f where "parse_choice str ''policy'' reply = Some (choice, Some f)" "f_ge f (85 / 100)"
    using ch(1) by (auto simp: cascade_once_def r split: option.splits prod.splits if_splits)
  then show ?thesis using e ch r by (auto simp: cascade_run_def)
qed simp

text \<open>An evaluation makes at most one attempt more than the number of retries.\<close>

theorem evaluation_attempts_bounded: "jk_attempts (fst (evaluate str ts c)) \<le> jk_attempts c + jk_retries c + 1"
  using attempts_of_bound [of str "jk_retries c + 1" ts "jk_attempts c"] by (auto simp: evaluate_def simp del: attempts_of.simps split: prod.splits)

section \<open>Observer and log\<close>

inductive observer_step :: "observer \<Rightarrow> observer \<Rightarrow> bool" where
  os_submit: "observer_step o' (fst (submit_observation b o'))"
| os_done: "observer_step o' (observation_done o')"

interpretation observations: transition_system "\<lambda>o'. o' = ob_init" observer_step .

lemma observer_step_keeps:
  assumes "observer_step s t" and "ob_free s + ob_pending s = QUEUE_BUDGET"
  shows "ob_free t + ob_pending t = QUEUE_BUDGET"
  using assms by (cases rule: observer_step.cases) (auto simp: submit_observation_def observation_done_def Let_def split: if_splits)

lemma observations_bounded: "observations.reach o' \<Longrightarrow> ob_free o' + ob_pending o' = QUEUE_BUDGET"
  by (rule observations.invariant_reach [where I = "\<lambda>x. ob_free x + ob_pending x = QUEUE_BUDGET"]) (auto simp: ob_init_def intro: observer_step_keeps)

lemma log_stays_bounded:
  assumes "case fs 0 of None \<Rightarrow> True | Some ls \<Rightarrow> file_bytes ls \<le> limit" and "length line \<le> limit" and "1 \<le> backups"
  shows "case log_record True limit backups line fs 0 of None \<Rightarrow> False | Some ls \<Rightarrow> file_bytes ls \<le> limit \<and> last ls = line"
  using assms by (auto simp: log_record_def rotate_if_needed_def rotate_files_def file_bytes_def Let_def split: option.splits)

section \<open>Findings\<close>

text \<open>A confidence that is not a number is not below the floor.\<close>

lemma nan_confidence_passes: "\<not> num_lt (PFloat NaN) (1 / 2)"
  by (simp add: num_lt_def)

lemma nan_confidence_executes:
  "judge_answers [(''gate'', \<lparr>an_type = PStr ''noul'', an_value = PFloat (Fin 1), an_probabilities = [], an_confidence = PNone\<rparr>),
     (''next'', \<lparr>an_type = PStr ''choice'', an_value = PStr ''run'', an_probabilities = [(''run'', PInt 1)], an_confidence = PFloat NaN\<rparr>),
     (''risk'', \<lparr>an_type = PStr ''score'', an_value = PInt 1, an_probabilities = [], an_confidence = PNone\<rparr>)] = Inr JExecute"
  by code_simp

text \<open>A huge integer as the level of risk raises, although every error is to end in a skip.\<close>

lemma huge_risk_raises: "risk_value (PInt FLOAT_LIMIT) = Inl OverflowError"
  by (simp add: risk_value_def to_float_def abs_if FLOAT_LIMIT_def)

end
