(* ===== verification/Spec2Isabelle.thy ===== *)
theory Spec2Isabelle
  imports Payments Crypto SupportApi Admission Scheduler ControlPlane GpuQueue EventLog WriterLease EventSourcing HighAvailability SignIn HostApi
    Plugins Gateway Watchdog DeployAgent PgPool StateStore Backends Jev
begin

text \<open>
  Verification of the ROMA execution bridge, a service that takes GPU jobs from tenants over HTTP, decides whether
  they may run, runs them on remote backends or its own workers, and charges the tenants' prepaid accounts.

  \<^bold>\<open>The parts and how they interact.\<close> A tenant signs up, verifies its address and gets a key
  (\<open>src/routers/auth.py\<close>, \<open>src/routers/account.py\<close>, \<open>src/auth\<close>, over the account tables of \<open>src/db_pg_sync.py\<close>, \<open>src/db.py\<close> and
  \<open>src/db_adapter.py\<close>). It pays through a payment service or in crypto currency, whose notifications activate plans and credit the ledger
  (\<open>src/routers/webhooks.py\<close>, \<open>src/routers/billing.py\<close>, \<open>src/crypto_payments\<close>).
  A request is authenticated by its key (\<open>src/deps.py\<close>) and asks for a job
  (\<open>src/routers/submit.py\<close>, \<open>src/router_decisions.py\<close>, \<open>src/main.py\<close>). Quota, policy, spend cap and gate decide
  (\<open>src/plan_source.py\<close>, \<open>src/cost/gate.py\<close>, \<open>src/policy_engine.py\<close>). An admitted job is a row of the table
  \<open>execution_jobs\<close> (\<open>src/db_adapter.py\<close>). The execution worker (\<open>src/billing/execution_worker.py\<close>) claims queued rows,
  dispatches them to a backend (\<open>src/backends\<close>), polls, and closes them after billing (\<open>src/billing/finalize.py\<close>), which debits the
  ledger (\<open>src/billing/pg_ledger.py\<close>) and records usage (\<open>src/billing/pg_metering.py\<close>), both over the connection manager
  \<open>src/billing/pg_connection.py\<close>; sweepers repair what a crash
  or an outage left open. Tenants cancel, retry and complete jobs through the job routes, which write to the
  audit ledger (\<open>src/audit/event_store.py\<close>). Beside this path stand the control plane of the own GPU workers
  (\<open>src/control_plane\<close>, \<open>src/gpu_worker\<close>, \<open>src/queue_manager\<close>, \<open>src/scheduler\<close>, \<open>src/consistency\<close>), the hosts that third parties offer
  (\<open>src/gpu_worker/host_registry.py\<close>, \<open>src/gpu_worker/host_api.py\<close>), the event log and its projections
  (\<open>src/durability\<close>, \<open>src/ha\<close>), support tickets (\<open>src/support_chat\<close>), plugins (\<open>src/plugins\<close>), a stand-alone gateway with roles and quotas
  (\<open>src/auth/engine.py\<close>, \<open>src/rbac\<close>, \<open>src/tenancy\<close>), an advisory model (\<open>src/adapters/jev\<close>, \<open>src/core\<close>), and the operation of the service: the writer
  lease, the watchdog of the database and the deploy agent (\<open>src/deploy/ops\<close>).

  \<^bold>\<open>Theories.\<close>
  \<^item> \<open>Prelude\<close>: Python values, exceptions and rounding, the outcomes of a database round trip, transition systems, simulations,
    writers that are idempotent per key, work queues with an atomic claim.
  \<^item> \<open>Money\<close>: validation, parsing and printing of amounts, the price of a job.
  \<^item> \<open>Ledger\<close>, \<open>Metering\<close>, \<open>Finalize\<close>, \<open>PgPool\<close>: the two billing tables statement by statement, the billing of a job over them, and the
    connection manager under them. Shown: no usage without a debit, no overdraft, one debit per job whatever is retried, what each answer says;
    the manager implements the round trips of the tables and returns every connection once.
  \<^item> \<open>JobTable\<close>: the job rows, the guarded update, claims on both databases, sweeps. Shown: compare-and-set, each job
    handed out once and in order.
  \<^item> \<open>Worker\<close>, \<open>Backends\<close>: dispatch, polling, billing and closing, compensation, markers, sweepers; the backends it calls. Shown: money of a cancelled job
    is returned or marked, the sweepers repeat the worker's debit, polling ends; machines are rented at the lowest price within the limit.
  \<^item> \<open>Quota\<close>, \<open>Policy\<close>, \<open>AuditLedger\<close>: plans and the gate, policies and transitions, the append-only ledger of facts.
  \<^item> \<open>JobRoutes\<close>, \<open>Admission\<close>: the handlers, with other processes acting at every suspension point. Shown: isolation
    of tenants, cancel as a compare-and-set, billing before completion, repeatable submits and decisions, keys.
  \<^item> \<open>Placement\<close>, \<open>Scheduler\<close>: memory of GPU nodes and admission, prices, prediction, routing and local execution.
  \<^item> \<open>Locks\<close>, \<open>ControlPlane\<close>, \<open>GpuQueue\<close>: leases and locks, job store, worker registry, reconciler, queue and retries.
  \<^item> \<open>EventLog\<close>, \<open>EventSourcing\<close>, \<open>StateStore\<close>, \<open>HighAvailability\<close>: gapless event numbers under failures, the projection of a job as a
    refinement of a table, replayed states, backups, sources of truth, consensus and replication as the code simulates them.
  \<^item> \<open>Accounts\<close>, \<open>SignIn\<close>: the account tables on both databases, sign-up, verification, login, sessions and rotation of keys. Shown: the tables stay
    sound, a link is used once, a key is rotated only with its second factor and completely.
  \<^item> \<open>Payments\<close>, \<open>Crypto\<close>: notifications, top-ups, invoices and wallets. Shown: a paid plan was paid in full and each invoice counts once.
  \<^item> \<open>HostBench\<close>, \<open>Hosts\<close>, \<open>HostApi\<close>: the benchmark with its integer widths, the registry of hosts with its tables, the API with its tokens and limits.
    Shown: a host becomes active only by the expected result of its own job, a restart loses nothing, the limits hold.
  \<^item> \<open>Tickets\<close>, \<open>SupportApi\<close>: tickets, messages, support identities, sessions and routes. Shown: tickets follow their graph under
    concurrent writers, only authorised agents move them, what was ended or deactivated stays so.
  \<^item> \<open>Plugins\<close>, \<open>Gateway\<close>, \<open>Jev\<close>: life cycle of plugins under a lock that is not reentrant, keys, token bucket and metering of the gateway, the
    advisory model with its redaction, thresholds and cascades.
  \<^item> \<open>WriterLease\<close>, \<open>Watchdog\<close>, \<open>DeployAgent\<close>: fencing tokens, the budget of restarts and stale locks, the checks before a deployment counts.

  \<^bold>\<open>Conventions.\<close> State is a record and every operation returns the new state; an error is a value of a sum type. Floats
  are rationals, with Python's rounding written out, and the special values of floats where the code can meet them; Python integers are \<open>int\<close>, and
  fixed widths are words where they matter; a string is a list of bytes; a table is the
  list of its rows in the order of insertion, a dictionary an association list. Time, fresh uuids, hash functions, libraries, remote services
  and every database round trip are arguments, and a round trip may work, fail before it took effect, or fail
  after it. Loops of the code are recursions over their data or their budget, so that no fuel is needed: the
  polling loop runs over the replies of its budget, and a wait over its probes, with a lemma that enough of them end it.
  A lemma that describes a defect of the code is stated for a concrete state or as the general fact, and listed in the manifest.

  \<^bold>\<open>Not modelled.\<close> Metrics, alerts and log lines; HTML and mail; JWT, password hashing and OAuth, which
  are libraries; the asynchronous copy of the database functions, dashboards, the command lines and Kubernetes glue; self-checks and scripts. The manifest lists these
  parts and, for each modelled part, the operations left out.
\<close>

section \<open>The ledger over its connections\<close>

text \<open>C3: The statements of the ledger theory are what the connection manager gives. For every behaviour of pool, network and commit there is an outcome for which
  running a statement through the manager is the ledger's \<open>pg_execute\<close>, so that every theorem about the ledger holds over the manager.\<close>

theorem ledger_runs_over_pool:
  "\<exists>oc. pg_execute oc f s =
     (s\<lparr>rows := snd (fst (pool_execute dsn create ts between e lost f (m, rows s)))\<rparr>, snd (pool_execute dsn create ts between e lost f (m, rows s)))"
proof -
  obtain oc where "pg_run oc f (rows s) =
      (snd (fst (pool_execute dsn create ts between e lost f (m, rows s))), snd (pool_execute dsn create ts between e lost f (m, rows s)))"
    using pool_execute_outcome [of f "(m, rows s)" dsn create ts between e lost] by auto
  then show ?thesis by (intro exI [of _ oc]) (simp add: pg_execute_def)
qed

end
